(* ===== verification/Prelude.thy ===== *)
theory Prelude
  imports Main "HOL-Library.Word" "HOL-Library.Monad_Syntax" "HOL-Library.Signed_Division"
begin

text \<open>
  Shared vocabulary of the development: the names of the model's basic types, Go's integer
  conversions, the byte-array update that every buffer of the store uses, and the generic list and
  option lemmas the component theories rest on.

  Conventions used throughout. A Go \<open>int64\<close> or \<open>int\<close> is an unbounded \<open>int\<close>; every narrowing
  conversion of the source (\<open>int32(x)\<close>, \<open>int16(x)\<close>, \<open>int8(x)\<close>) is written out as a
  two's-complement truncation, and arithmetic on \<open>int32\<close> values is truncated after each
  operation. Division and remainder on possibly negative numbers are Go's truncating ones
  (\<open>sdiv\<close>, \<open>smod\<close>). A run-time panic is the value \<open>None\<close> of an option result.
\<close>

named_theorems buf_simps \<open>cursor and prefix laws of byte buffers\<close>
named_theorems mf_defs \<open>definitions of the mapped-file operations\<close>
named_theorems mfq_defs \<open>definitions of the mapped-file queue operations\<close>

type_synonym byte = "8 word"
type_synonym error = string

section \<open>Go integer conversions\<close>

definition to_int8 :: "int \<Rightarrow> int" where
  "to_int8 x = signed_take_bit 7 x"

definition to_int16 :: "int \<Rightarrow> int" where
  "to_int16 x = signed_take_bit 15 x"

definition to_int32 :: "int \<Rightarrow> int" where
  "to_int32 x = signed_take_bit 31 x"

definition to_int64 :: "int \<Rightarrow> int" where
  "to_int64 x = signed_take_bit 63 x"

definition in_int :: "nat \<Rightarrow> int \<Rightarrow> bool" where
  "in_int w x \<longleftrightarrow> - (2 ^ (w - 1)) \<le> x \<and> x < 2 ^ (w - 1)"

lemma in_int_self:
  "in_int (Suc n) x \<Longrightarrow> signed_take_bit n x = x"
  by (simp add: in_int_def signed_take_bit_int_eq_self)

lemma to_int8_id: "in_int 8 x \<Longrightarrow> to_int8 x = x"
  using in_int_self [of 7 x] by (simp add: to_int8_def)

lemma to_int16_id: "in_int 16 x \<Longrightarrow> to_int16 x = x"
  using in_int_self [of 15 x] by (simp add: to_int16_def)

lemma to_int32_id: "in_int 32 x \<Longrightarrow> to_int32 x = x"
  using in_int_self [of 31 x] by (simp add: to_int32_def)

lemma to_int64_id: "in_int 64 x \<Longrightarrow> to_int64 x = x"
  using in_int_self [of 63 x] by (simp add: to_int64_def)

lemma signed_take_bit_in_int: "in_int (Suc n) (signed_take_bit n x)"
  by (simp add: in_int_def signed_take_bit_int_greater_eq_minus_exp signed_take_bit_int_less_exp)

lemma in_int_nonneg: "0 \<le> x \<Longrightarrow> x < 2 ^ (w - 1) \<Longrightarrow> in_int w x"
  by (simp add: in_int_def order_trans [of "- (2 ^ (w - 1))" 0 x])

section \<open>Byte arrays updated in place\<close>

definition overwrite :: "'a list \<Rightarrow> nat \<Rightarrow> 'a list \<Rightarrow> 'a list" where
  "overwrite xs p ys = take p xs @ ys @ drop (p + length ys) xs"

lemma length_overwrite [simp]:
  "p + length ys \<le> length xs \<Longrightarrow> length (overwrite xs p ys) = length xs"
  by (simp add: overwrite_def)

lemma take_overwrite_before:
  "p \<le> length xs \<Longrightarrow> q \<le> p \<Longrightarrow> take q (overwrite xs p ys) = take q xs"
  by (simp add: overwrite_def min_def)

lemma drop_overwrite_after:
  "p + length ys \<le> length xs \<Longrightarrow> p + length ys \<le> q \<Longrightarrow> drop q (overwrite xs p ys) = drop q xs"
  by (simp add: overwrite_def)

lemma drop_overwrite_at:
  "p \<le> length xs \<Longrightarrow> drop p (overwrite xs p ys) = ys @ drop (p + length ys) xs"
  by (simp add: overwrite_def)

lemma take_overwrite_through:
  "p + length ys \<le> length xs \<Longrightarrow> take (p + length ys) (overwrite xs p ys) = take p xs @ ys"
  by (simp add: overwrite_def)

lemma take_drop_overwrite:
  "p + length ys \<le> length xs \<Longrightarrow> take (length ys) (drop p (overwrite xs p ys)) = ys"
  by (simp add: overwrite_def)

lemma overwrite_Nil [simp]: "overwrite xs p [] = xs"
  by (simp add: overwrite_def)

lemma nth_overwrite_outside:
  assumes "p + length ys \<le> length xs" and "i < p \<or> p + length ys \<le> i"
  shows "overwrite xs p ys ! i = xs ! i"
  using assms by (auto simp: overwrite_def nth_append)

section \<open>Strings as bytes\<close>

definition bytes_of_string :: "string \<Rightarrow> byte list" where
  "bytes_of_string s = map (\<lambda>c. of_nat (of_char c)) s"

definition string_of_bytes :: "byte list \<Rightarrow> string" where
  "string_of_bytes bs = map (\<lambda>b. char_of (unat b)) bs"

lemma length_bytes_of_string [simp]: "length (bytes_of_string s) = length s"
  by (simp add: bytes_of_string_def)

lemma length_string_of_bytes [simp]: "length (string_of_bytes bs) = length bs"
  by (simp add: string_of_bytes_def)

lemma string_of_bytes_of_string [simp]: "string_of_bytes (bytes_of_string s) = s"
proof -
  have "unat (of_nat (of_char c) :: byte) = of_char c" for c
    using nat_of_char_less_256 [of c] by (simp add: unat_of_nat take_bit_nat_eq_self)
  then show ?thesis by (simp add: string_of_bytes_def bytes_of_string_def comp_def)
qed

section \<open>Go division on non-negative numbers\<close>

lemma sdiv_nonneg: "0 \<le> a \<Longrightarrow> 0 < b \<Longrightarrow> a sdiv b = a div (b :: int)"
  by (cases "a = 0") (simp_all add: signed_divide_int_def)

lemma smod_nonneg: "0 \<le> a \<Longrightarrow> 0 < b \<Longrightarrow> a smod b = a mod (b :: int)"
  by (cases "a = 0") (simp_all add: signed_modulo_int_def)

lemma div_less_iff: "0 < b \<Longrightarrow> a div b < n \<longleftrightarrow> a < n * (b :: int)"
proof
  assume "0 < b" "a div b < n"
  then have "(a div b + 1) * b \<le> n * b" by (intro mult_right_mono) auto
  moreover have "a < (a div b + 1) * b"
    using \<open>0 < b\<close> pos_mod_bound [of b a] div_mult_mod_eq [of a b] unfolding distrib_right by linarith
  ultimately show "a < n * b" by linarith
next
  assume b: "0 < b" and l: "a < n * b"
  have "a div b * b \<le> a"
    using b pos_mod_sign [of b a] div_mult_mod_eq [of a b] by linarith
  with l have "a div b * b < n * b" by linarith
  with b show "a div b < n" by simp
qed

lemma div_diff_dvd:
  "sz dvd base \<Longrightarrow> 0 < sz \<Longrightarrow> offset div sz - base div sz = (offset - base) div (sz :: int)"
proof (elim dvdE)
  fix k
  assume "0 < sz" and "base = sz * k"
  then show ?thesis using div_mult_self1 [of sz offset "- k"] by (simp add: mult.commute)
qed

end
