(* ===== verification/ByteBuffer.thy ===== *)
theory ByteBuffer
  imports Prelude
begin

text \<open>
  \<open>stgcommon/utils/byteutil\<close> and \<open>stgstorelog/mapped_bytebuffer.go\<close>: big-endian integer codecs
  and the byte buffer with separate read and write cursors over a memory-mapped region. The codecs
  satisfy the interface \<open>int_codec\<close>, and what a buffer returns after a write is proved once from
  that interface.
\<close>

section \<open>Big-endian codecs (\<open>byteutil\<close>)\<close>

fun be_bytes :: "nat \<Rightarrow> int \<Rightarrow> byte list" where
  "be_bytes 0 x = []"
| "be_bytes (Suc n) x = be_bytes n (x div 256) @ [word_of_int x]"

definition be_val :: "byte list \<Rightarrow> int" where
  "be_val bs = foldl (\<lambda>acc b. acc * 256 + uint b) 0 bs"

definition Int8ToBytes :: "int \<Rightarrow> byte list" where
  "Int8ToBytes n = be_bytes 1 n"

definition Int16ToBytes :: "int \<Rightarrow> byte list" where
  "Int16ToBytes n = be_bytes 2 n"

definition Int32ToBytes :: "int \<Rightarrow> byte list" where
  "Int32ToBytes n = be_bytes 4 n"

definition Int64ToBytes :: "int \<Rightarrow> byte list" where
  "Int64ToBytes n = be_bytes 8 n"

text \<open>\<open>binary.Read\<close> into a fixed-size integer leaves it zero when the reader holds too few bytes.\<close>

definition BytesToInt8 :: "byte list \<Rightarrow> int" where
  "BytesToInt8 b = (if length b < 1 then 0 else to_int8 (be_val (take 1 b)))"

definition BytesToInt16 :: "byte list \<Rightarrow> int" where
  "BytesToInt16 b = (if length b < 2 then 0 else to_int16 (be_val (take 2 b)))"

definition BytesToInt32 :: "byte list \<Rightarrow> int" where
  "BytesToInt32 b = (if length b < 4 then 0 else to_int32 (be_val (take 4 b)))"

definition BytesToInt64 :: "byte list \<Rightarrow> int" where
  "BytesToInt64 b = (if length b < 8 then 0 else to_int64 (be_val (take 8 b)))"

section \<open>The buffer\<close>

record MappedByteBuffer =
  MMapBuf :: "byte list"
  ReadPos :: int
  WritePos :: int
  Limit :: int

text \<open>
  The limit of a new buffer is the capacity of the slice it is given, which for a subslice reaches
  to the end of the underlying array; the capacity is the second argument.
\<close>

definition NewMappedByteBuffer :: "byte list \<Rightarrow> int \<Rightarrow> MappedByteBuffer" where
  "NewMappedByteBuffer mMap capacity =
     \<lparr>MMapBuf = mMap, ReadPos = 0, WritePos = 0, Limit = capacity\<rparr>"

text \<open>\<open>MMapBuf[:WritePos]\<close>: slicing past the mapped region panics.\<close>

definition MappedByteBuffer_Bytes :: "MappedByteBuffer \<Rightarrow> byte list option" where
  "MappedByteBuffer_Bytes m =
     (if 0 \<le> WritePos m \<and> WritePos m \<le> int (length (MMapBuf m))
      then Some (take (nat (WritePos m)) (MMapBuf m)) else None)"

text \<open>
  The result of \<open>Write\<close> is the buffer and either the error or the number of bytes. The loop stores
  byte by byte, so an index outside the mapped region panics.
\<close>

definition MappedByteBuffer_Write ::
    "MappedByteBuffer \<Rightarrow> byte list \<Rightarrow> (MappedByteBuffer \<times> (error + int)) option" where
  "MappedByteBuffer_Write m data =
     (if WritePos m + int (length data) > Limit m
      then Some (m, Inl ''m.WritePos + len(data)'')
      else if data = [] then Some (m, Inr 0)
      else if 0 \<le> WritePos m \<and> WritePos m + int (length data) \<le> int (length (MMapBuf m))
      then Some (m\<lparr>MMapBuf := overwrite (MMapBuf m) (nat (WritePos m)) data,
                   WritePos := WritePos m + int (length data)\<rparr>, Inr (int (length data)))
      else None)"

definition MappedByteBuffer_WriteInt8 :: "MappedByteBuffer \<Rightarrow> int \<Rightarrow> MappedByteBuffer option" where
  "MappedByteBuffer_WriteInt8 m i = map_option fst (MappedByteBuffer_Write m (Int8ToBytes i))"

definition MappedByteBuffer_WriteInt16 :: "MappedByteBuffer \<Rightarrow> int \<Rightarrow> MappedByteBuffer option" where
  "MappedByteBuffer_WriteInt16 m i = map_option fst (MappedByteBuffer_Write m (Int16ToBytes i))"

definition MappedByteBuffer_WriteInt32 :: "MappedByteBuffer \<Rightarrow> int \<Rightarrow> MappedByteBuffer option" where
  "MappedByteBuffer_WriteInt32 m i = map_option fst (MappedByteBuffer_Write m (Int32ToBytes i))"

definition MappedByteBuffer_WriteInt64 :: "MappedByteBuffer \<Rightarrow> int \<Rightarrow> MappedByteBuffer option" where
  "MappedByteBuffer_WriteInt64 m i = map_option fst (MappedByteBuffer_Write m (Int64ToBytes i))"

text \<open>
  \<open>Read\<close> copies into a zeroed slice of \<open>k\<close> bytes; at the end of the region fewer bytes are copied
  and the rest of the slice stays zero. A read cursor outside the region panics.
\<close>

definition MappedByteBuffer_Read :: "MappedByteBuffer \<Rightarrow> nat \<Rightarrow> (byte list \<times> MappedByteBuffer) option" where
  "MappedByteBuffer_Read m k =
     (if 0 \<le> ReadPos m \<and> ReadPos m \<le> int (length (MMapBuf m))
      then (let src = take k (drop (nat (ReadPos m)) (MMapBuf m)); n = length src
            in Some (src @ replicate (k - n) 0, m\<lparr>ReadPos := ReadPos m + int n\<rparr>))
      else None)"

definition MappedByteBuffer_ReadInt8 :: "MappedByteBuffer \<Rightarrow> (int \<times> MappedByteBuffer) option" where
  "MappedByteBuffer_ReadInt8 m = map_option (apfst BytesToInt8) (MappedByteBuffer_Read m 1)"

definition MappedByteBuffer_ReadInt16 :: "MappedByteBuffer \<Rightarrow> (int \<times> MappedByteBuffer) option" where
  "MappedByteBuffer_ReadInt16 m = map_option (apfst BytesToInt16) (MappedByteBuffer_Read m 2)"

definition MappedByteBuffer_ReadInt32 :: "MappedByteBuffer \<Rightarrow> (int \<times> MappedByteBuffer) option" where
  "MappedByteBuffer_ReadInt32 m = map_option (apfst BytesToInt32) (MappedByteBuffer_Read m 4)"

definition MappedByteBuffer_ReadInt64 :: "MappedByteBuffer \<Rightarrow> (int \<times> MappedByteBuffer) option" where
  "MappedByteBuffer_ReadInt64 m = map_option (apfst BytesToInt64) (MappedByteBuffer_Read m 8)"

definition MappedByteBuffer_slice :: "MappedByteBuffer \<Rightarrow> byte list option" where
  "MappedByteBuffer_slice m =
     (if 0 \<le> ReadPos m \<and> ReadPos m \<le> int (length (MMapBuf m))
      then Some (take (nat (ReadPos m)) (MMapBuf m)) else None)"

text \<open>\<open>Unmap\<close> releases the region and sets the slice to \<open>nil\<close>.\<close>

definition MappedByteBuffer_unmap :: "MappedByteBuffer \<Rightarrow> MappedByteBuffer" where
  "MappedByteBuffer_unmap m = m\<lparr>MMapBuf := []\<rparr>"

definition MappedByteBuffer_flip :: "MappedByteBuffer \<Rightarrow> MappedByteBuffer" where
  "MappedByteBuffer_flip m = m\<lparr>Limit := WritePos m, WritePos := 0\<rparr>"

definition MappedByteBuffer_limit :: "MappedByteBuffer \<Rightarrow> int \<Rightarrow> MappedByteBuffer" where
  "MappedByteBuffer_limit m newLimit =
     (let m1 = m\<lparr>Limit := newLimit\<rparr>
      in if WritePos m1 > Limit m1 then m1\<lparr>WritePos := newLimit\<rparr> else m1)"

section \<open>Codec laws\<close>

lemma length_be_bytes [simp]: "length (be_bytes n x) = n"
  by (induction n arbitrary: x) auto

lemma be_val_snoc: "be_val (bs @ [b]) = be_val bs * 256 + uint b"
  by (simp add: be_val_def)

lemma be_val_Nil [simp]: "be_val [] = 0"
  by (simp add: be_val_def)

lemma mod_mult_256: "0 \<le> m \<Longrightarrow> (x div 256) mod m * 256 + x mod 256 = x mod (256 * m :: int)"
  by (simp add: zmod_zmult2_eq)

lemma be_val_be_bytes: "be_val (be_bytes n x) = x mod 256 ^ n"
proof (induction n arbitrary: x)
  case (Suc n)
  have "uint (word_of_int x :: byte) = x mod 256"
    by (simp add: uint_word_of_int)
  with Suc show ?case
    using mod_mult_256 [of "256 ^ n" x] by (simp add: be_val_snoc)
qed simp

lemma be_val_nonneg: "0 \<le> be_val bs"
  by (induction bs rule: rev_induct) (simp_all add: be_val_snoc)

lemma be_val_less: "be_val bs < 256 ^ length bs"
proof (induction bs rule: rev_induct)
  case (snoc b bs)
  have "uint b < 256" using uint_lt2p [of b] by simp
  with snoc show ?case by (simp add: be_val_snoc)
qed simp

lemma mod_256_take_bit: "x mod 256 ^ n = take_bit (8 * n) (x :: int)"
  by (simp add: take_bit_eq_mod power_mult)

lemma signed_take_bit_be_val:
  "m < 8 * n \<Longrightarrow> signed_take_bit m (be_val (be_bytes n x)) = signed_take_bit m x"
  by (simp add: be_val_be_bytes mod_256_take_bit signed_take_bit_take_bit)

text \<open>
  The contract of a fixed-width integer codec: the encoding has the codec's width, and decoding
  reads the value back from the front of any byte sequence that starts with its encoding.
\<close>

locale int_codec =
  fixes w :: nat and enc :: "int \<Rightarrow> byte list" and dec :: "byte list \<Rightarrow> int"
  assumes width_pos: "0 < w"
    and length_enc: "length (enc x) = w"
    and dec_enc: "in_int (8 * w) x \<Longrightarrow> dec (enc x @ rest) = x"
begin

text \<open>Reading \<open>w\<close> bytes where a value was written returns the value.\<close>

definition read_int :: "MappedByteBuffer \<Rightarrow> (int \<times> MappedByteBuffer) option" where
  "read_int m = map_option (apfst dec) (MappedByteBuffer_Read m w)"

definition write_int :: "MappedByteBuffer \<Rightarrow> int \<Rightarrow> MappedByteBuffer option" where
  "write_int m i = map_option fst (MappedByteBuffer_Write m (enc i))"

lemma dec_enc_self: "in_int (8 * w) x \<Longrightarrow> dec (enc x) = x"
  using dec_enc [of x "[]"] by simp

lemma enc_not_Nil: "enc x \<noteq> []"
  using length_enc [of x] width_pos by auto

lemma enc_inject:
  "in_int (8 * w) x \<Longrightarrow> in_int (8 * w) y \<Longrightarrow> enc x = enc y \<Longrightarrow> x = y"
  by (metis dec_enc_self)

lemma read_int_at:
  assumes "0 \<le> ReadPos m" and "ReadPos m \<le> int (length (MMapBuf m))"
    and "drop (nat (ReadPos m)) (MMapBuf m) = enc x @ rest" and "in_int (8 * w) x"
  shows "read_int m = Some (x, m\<lparr>ReadPos := ReadPos m + int w\<rparr>)"
  using assms
  by (simp add: read_int_def MappedByteBuffer_Read_def Let_def length_enc dec_enc_self)

lemma write_int_room:
  assumes "0 \<le> WritePos m" and "WritePos m + int w \<le> Limit m"
    and "WritePos m + int w \<le> int (length (MMapBuf m))"
  shows "write_int m x = Some (m\<lparr>MMapBuf := overwrite (MMapBuf m) (nat (WritePos m)) (enc x),
                                 WritePos := WritePos m + int w\<rparr>)"
  using assms enc_not_Nil [of x]
  by (simp add: write_int_def MappedByteBuffer_Write_def length_enc)

lemma write_then_read:
  assumes "0 \<le> WritePos m" and "WritePos m + int w \<le> Limit m"
    and "WritePos m + int w \<le> int (length (MMapBuf m))"
    and "in_int (8 * w) x" and "write_int m x = Some m1"
  shows "read_int (m1\<lparr>ReadPos := WritePos m\<rparr>) = Some (x, m1\<lparr>ReadPos := WritePos m + int w\<rparr>)"
proof -
  let ?p = "nat (WritePos m)"
  have m1: "m1 = m\<lparr>MMapBuf := overwrite (MMapBuf m) ?p (enc x), WritePos := WritePos m + int w\<rparr>"
    using write_int_room [of m x] assms by simp
  have fits: "?p + w \<le> length (MMapBuf m)" using assms(1,3) by linarith
  then have "drop ?p (overwrite (MMapBuf m) ?p (enc x)) = enc x @ drop (?p + w) (MMapBuf m)"
    by (simp add: drop_overwrite_at length_enc)
  with fits assms(1,4) show ?thesis
    by (subst read_int_at [where rest = "drop (?p + w) (MMapBuf m)"]) (auto simp: m1 length_enc)
qed

end

lemma be_codec:
  assumes "0 < n" and "\<And>b. dec b = (if length b < n then 0 else signed_take_bit (8 * n - 1) (be_val (take n b)))"
  shows "int_codec n (be_bytes n) dec"
proof
  show "dec (be_bytes n x @ rest) = x" if "in_int (8 * n) x" for x rest
    using that assms in_int_self [of "8 * n - 1" x] by (simp add: signed_take_bit_be_val)
qed (use assms(1) in simp_all)

interpretation i8: int_codec 1 Int8ToBytes BytesToInt8
  unfolding Int8ToBytes_def by (rule be_codec) (simp_all add: BytesToInt8_def to_int8_def)

interpretation i16: int_codec 2 Int16ToBytes BytesToInt16
  unfolding Int16ToBytes_def by (rule be_codec) (simp_all add: BytesToInt16_def to_int16_def)

interpretation i32: int_codec 4 Int32ToBytes BytesToInt32
  unfolding Int32ToBytes_def by (rule be_codec) (simp_all add: BytesToInt32_def to_int32_def)

interpretation i64: int_codec 8 Int64ToBytes BytesToInt64
  unfolding Int64ToBytes_def by (rule be_codec) (simp_all add: BytesToInt64_def to_int64_def)

lemma read_int_eqs:
  "i8.read_int = MappedByteBuffer_ReadInt8" "i16.read_int = MappedByteBuffer_ReadInt16"
  "i32.read_int = MappedByteBuffer_ReadInt32" "i64.read_int = MappedByteBuffer_ReadInt64"
  by (rule ext, simp only: i8.read_int_def i16.read_int_def i32.read_int_def i64.read_int_def
      MappedByteBuffer_ReadInt8_def MappedByteBuffer_ReadInt16_def MappedByteBuffer_ReadInt32_def
      MappedByteBuffer_ReadInt64_def)+

lemma write_int_eqs:
  "i8.write_int = MappedByteBuffer_WriteInt8" "i16.write_int = MappedByteBuffer_WriteInt16"
  "i32.write_int = MappedByteBuffer_WriteInt32" "i64.write_int = MappedByteBuffer_WriteInt64"
  by (intro ext, simp only: i8.write_int_def i16.write_int_def i32.write_int_def i64.write_int_def
      MappedByteBuffer_WriteInt8_def MappedByteBuffer_WriteInt16_def MappedByteBuffer_WriteInt32_def
      MappedByteBuffer_WriteInt64_def)+

section \<open>Cursor and prefix reasoning\<close>

text \<open>
  \<open>at_cursor m bs\<close>: the read cursor is inside the region and \<open>bs\<close> is what lies ahead of it.
  \<open>wrote m bs\<close>: the bytes before the write cursor are exactly \<open>bs\<close>. Sequences of reads and writes
  are followed with these two predicates instead of with explicit positions.
\<close>

definition at_cursor :: "MappedByteBuffer \<Rightarrow> byte list \<Rightarrow> bool" where
  "at_cursor m bs \<longleftrightarrow> 0 \<le> ReadPos m \<and> ReadPos m \<le> int (length (MMapBuf m)) \<and>
     drop (nat (ReadPos m)) (MMapBuf m) = bs"

definition wrote :: "MappedByteBuffer \<Rightarrow> byte list \<Rightarrow> bool" where
  "wrote m bs \<longleftrightarrow> WritePos m = int (length bs) \<and> length bs \<le> length (MMapBuf m) \<and>
     take (length bs) (MMapBuf m) = bs"

lemma at_cursor_advance:
  assumes "at_cursor m (xs @ ys)"
  shows "at_cursor (m\<lparr>ReadPos := ReadPos m + int (length xs)\<rparr>) ys"
proof -
  have ge: "0 \<le> ReadPos m" and d: "drop (nat (ReadPos m)) (MMapBuf m) = xs @ ys"
    using assms by (auto simp: at_cursor_def)
  have n: "nat (ReadPos m + int (length xs)) = nat (ReadPos m) + length xs"
    using ge by (simp add: nat_add_distrib)
  have "drop (nat (ReadPos m) + length xs) (MMapBuf m) = ys"
    using arg_cong [OF d, of "drop (length xs)"] by (simp add: add.commute)
  moreover have "nat (ReadPos m) + length xs \<le> length (MMapBuf m)"
    using arg_cong [OF d, of length] assms by (auto simp: at_cursor_def)
  ultimately show ?thesis using ge by (simp add: at_cursor_def n)
qed

lemma Read_at_cursor [buf_simps]:
  assumes "at_cursor m (xs @ ys)" and "k = length xs"
  shows "MappedByteBuffer_Read m k = Some (xs, m\<lparr>ReadPos := ReadPos m + int k\<rparr>)"
  using assms by (simp add: at_cursor_def MappedByteBuffer_Read_def Let_def)

context int_codec
begin

lemma read_at_cursor:
  "at_cursor m (enc x @ ys) \<Longrightarrow> in_int (8 * w) x \<Longrightarrow>
     read_int m = Some (x, m\<lparr>ReadPos := ReadPos m + int w\<rparr>)"
  by (auto simp: at_cursor_def intro: read_int_at)

lemma cursor_after_read:
  "at_cursor m (enc x @ ys) \<Longrightarrow> at_cursor (m\<lparr>ReadPos := ReadPos m + int w\<rparr>) ys"
  using at_cursor_advance [of m "enc x" ys] by (simp add: length_enc)

end

lemmas ReadInt8_cursor = i8.read_at_cursor [unfolded read_int_eqs, simplified]
lemmas ReadInt16_cursor = i16.read_at_cursor [unfolded read_int_eqs, simplified]
lemmas ReadInt32_cursor = i32.read_at_cursor [unfolded read_int_eqs, simplified]
lemmas ReadInt64_cursor = i64.read_at_cursor [unfolded read_int_eqs, simplified]

lemmas cursor_reads [buf_simps] =
  ReadInt8_cursor ReadInt16_cursor ReadInt32_cursor ReadInt64_cursor

lemmas cursor_advances =
  i8.cursor_after_read [simplified] i16.cursor_after_read [simplified]
  i32.cursor_after_read [simplified] i64.cursor_after_read [simplified]

lemma wrote_Write:
  assumes "wrote m bs" and "int (length (bs @ data)) \<le> Limit m" and "Limit m \<le> int (length (MMapBuf m))"
  shows "\<exists>m1. MappedByteBuffer_Write m data = Some (m1, Inr (int (length data))) \<and> wrote m1 (bs @ data) \<and>
     Limit m1 = Limit m \<and> length (MMapBuf m1) = length (MMapBuf m) \<and> ReadPos m1 = ReadPos m \<and>
     drop (length (bs @ data)) (MMapBuf m1) = drop (length (bs @ data)) (MMapBuf m)"
proof (cases "data = []")
  case True
  with assms show ?thesis by (auto simp: MappedByteBuffer_Write_def wrote_def)
next
  case False
  let ?m1 = "m\<lparr>MMapBuf := overwrite (MMapBuf m) (nat (WritePos m)) data,
               WritePos := WritePos m + int (length data)\<rparr>"
  have fits: "length bs + length data \<le> length (MMapBuf m)" using assms(2,3) by simp
  have "MappedByteBuffer_Write m data = Some (?m1, Inr (int (length data)))"
    using False assms by (simp add: MappedByteBuffer_Write_def wrote_def)
  moreover have "wrote ?m1 (bs @ data)"
    using assms(1) fits take_overwrite_through [of "length bs" data "MMapBuf m"] by (simp add: wrote_def)
  moreover have "drop (length (bs @ data)) (MMapBuf ?m1) = drop (length (bs @ data)) (MMapBuf m)"
    using assms(1) fits by (simp add: wrote_def drop_overwrite_after)
  ultimately show ?thesis using assms(1) fits by (auto simp: wrote_def)
qed

lemma wrote_Bytes: "wrote m bs \<Longrightarrow> MappedByteBuffer_Bytes m = Some bs"
  by (auto simp: wrote_def MappedByteBuffer_Bytes_def)

lemma Write_error_unchanged:
  "MappedByteBuffer_Write m data = Some (m1, Inl e) \<Longrightarrow> m1 = m"
  by (auto simp: MappedByteBuffer_Write_def split: if_splits)

lemma Write_preserves_length:
  "MappedByteBuffer_Write m data = Some (m1, r) \<Longrightarrow> length (MMapBuf m1) = length (MMapBuf m)"
  by (auto simp: MappedByteBuffer_Write_def split: if_splits)

lemma Write_fields:
  "MappedByteBuffer_Write m data = Some (m1, r) \<Longrightarrow> ReadPos m1 = ReadPos m \<and> Limit m1 = Limit m"
  by (auto simp: MappedByteBuffer_Write_def split: if_splits)

section \<open>Sequences of writes\<close>

text \<open>A run of \<open>Write\<close> calls whose results are ignored, as \<open>WriteInt32\<close> and its variants do.\<close>

fun write_all :: "MappedByteBuffer \<Rightarrow> byte list list \<Rightarrow> MappedByteBuffer option" where
  "write_all m [] = Some m"
| "write_all m (d # ds) = do { (m1, r) \<leftarrow> MappedByteBuffer_Write m d; write_all m1 ds }"

lemma write_all_wrote:
  "wrote m bs \<Longrightarrow> int (length (bs @ concat ds)) \<le> Limit m \<Longrightarrow> Limit m \<le> int (length (MMapBuf m)) \<Longrightarrow>
     \<exists>m1. write_all m ds = Some m1 \<and> wrote m1 (bs @ concat ds) \<and> Limit m1 = Limit m \<and>
       length (MMapBuf m1) = length (MMapBuf m) \<and> ReadPos m1 = ReadPos m"
proof (induction ds arbitrary: m bs)
  case (Cons d ds)
  then obtain m1 where m1: "MappedByteBuffer_Write m d = Some (m1, Inr (int (length d)))" "wrote m1 (bs @ d)"
      "Limit m1 = Limit m" "length (MMapBuf m1) = length (MMapBuf m)" "ReadPos m1 = ReadPos m"
    using wrote_Write [of m bs d] by force
  with Cons.prems have "int (length ((bs @ d) @ concat ds)) \<le> Limit m1" "Limit m1 \<le> int (length (MMapBuf m1))"
    by simp_all
  from Cons.IH [OF m1(2) this] m1 show ?case by auto
qed simp

lemma wrote_reset: "wrote (m\<lparr>WritePos := 0\<rparr>) []" "wrote (m\<lparr>WritePos := 0, Limit := l\<rparr>) []"
  by (simp_all add: wrote_def)

lemma WriteInt_write_all:
  "MappedByteBuffer_WriteInt8 m i = write_all m [Int8ToBytes i]"
  "MappedByteBuffer_WriteInt16 m i = write_all m [Int16ToBytes i]"
  "MappedByteBuffer_WriteInt32 m i = write_all m [Int32ToBytes i]"
  "MappedByteBuffer_WriteInt64 m i = write_all m [Int64ToBytes i]"
  by (simp_all add: MappedByteBuffer_WriteInt8_def MappedByteBuffer_WriteInt16_def
      MappedByteBuffer_WriteInt32_def MappedByteBuffer_WriteInt64_def map_conv_bind_option comp_def split_def)

lemma write_all_append: "write_all m (xs @ ys) = Option.bind (write_all m xs) (\<lambda>m1. write_all m1 ys)"
  by (induction xs arbitrary: m) (auto simp: split_def bind_assoc)

end
