(* ===== verification/OsFile.thy ===== *)
theory OsFile
  imports ByteBuffer
begin

text \<open>
  The part of the operating system the store uses: durable file contents, which calls fail, and the
  clock; and the file-name functions of \<open>stgcommon/utils/fileutil\<close> with the \<open>strconv\<close> and
  \<open>filepath\<close> functions they and \<open>NewMapedFile\<close> call.
\<close>

section \<open>Files, failures, clock\<close>

text \<open>
  \<open>os_files\<close> holds the durable content of every file, \<open>os_dirs\<close> the directories, \<open>os_fails\<close> says which calls report an error,
  \<open>os_mtime\<close> is a file's modification time in milliseconds and \<open>os_now\<close> the clock in milliseconds.
\<close>

datatype os_call = OsStat string | OsOpen string | OsTruncate string | OsMmap string | OsRemove string
  | OsMkdir string

record OS =
  os_files :: "string \<Rightarrow> byte list option"
  os_dirs :: "string \<Rightarrow> bool"
  os_fails :: "os_call \<Rightarrow> bool"
  os_mtime :: "string \<Rightarrow> int"
  os_now :: int

definition PathExists :: "OS \<Rightarrow> string \<Rightarrow> error + bool" where
  "PathExists os path =
     (if os_fails os (OsStat path) then Inl ''stat'' else Inr (os_files os path \<noteq> None \<or> os_dirs os path))"

text \<open>
  The part of a path before its last separator. A path without separator, for which the source
  slices out of range, does not arise: the store builds every path as a directory, the separator
  and a name.
\<close>

definition GetParentDirectory :: "string \<Rightarrow> string" where
  "GetParentDirectory dir = rev (drop 1 (dropWhile (\<lambda>c. c \<noteq> CHR ''/'') (rev dir)))"

text \<open>The callers ignore the returned error; the ancestors \<open>MkdirAll\<close> creates play no role.\<close>

definition ensureDirOK :: "OS \<Rightarrow> string \<Rightarrow> OS" where
  "ensureDirOK os dirName =
     (if dirName = [] then os
      else case PathExists os dirName of
        Inr False \<Rightarrow> if os_fails os (OsMkdir dirName) then os
                     else os\<lparr>os_dirs := (os_dirs os)(dirName := True)\<rparr>
      | _ \<Rightarrow> os)"

lemma ensureDirOK_frame [simp]:
  "os_files (ensureDirOK os d) = os_files os" "os_fails (ensureDirOK os d) = os_fails os"
  "os_now (ensureDirOK os d) = os_now os" "os_mtime (ensureDirOK os d) = os_mtime os"
  by (simp_all add: ensureDirOK_def split: sum.split bool.split)

section \<open>Decimal numbers\<close>

definition digit_char :: "nat \<Rightarrow> char" where
  "digit_char d = char_of (48 + d)"

definition is_digit :: "char \<Rightarrow> bool" where
  "is_digit c \<longleftrightarrow> 48 \<le> (of_char c :: nat) \<and> (of_char c :: nat) \<le> 57"

definition digit_val :: "char \<Rightarrow> int" where
  "digit_val c = int (of_char c) - 48"

fun decimal :: "nat \<Rightarrow> string" where
  "decimal n = (if n < 10 then [digit_char n] else decimal (n div 10) @ [digit_char (n mod 10)])"

declare decimal.simps [simp del]

definition FormatInt :: "int \<Rightarrow> string" where
  "FormatInt x = (if x < 0 then CHR ''-'' # decimal (nat (- x)) else decimal (nat x))"

definition decimal_val :: "string \<Rightarrow> int" where
  "decimal_val s = foldl (\<lambda>acc c. acc * 10 + digit_val c) 0 s"

definition ParseUint :: "string \<Rightarrow> int option" where
  "ParseUint s = (if s \<noteq> [] \<and> list_all is_digit s then Some (decimal_val s) else None)"

text \<open>\<open>strconv.ParseInt(s, 10, 64)\<close>: an optional sign, digits, and a range check.\<close>

definition ParseInt :: "string \<Rightarrow> error + int" where
  "ParseInt s =
     (let v = (case s of
                 [] \<Rightarrow> None
               | c # r \<Rightarrow> if c = CHR ''-'' then map_option uminus (ParseUint r)
                         else if c = CHR ''+'' then ParseUint r else ParseUint s)
      in case v of None \<Rightarrow> Inl ''invalid syntax''
         | Some x \<Rightarrow> if in_int 64 x then Inr x else Inl ''value out of range'')"

section \<open>File names\<close>

definition filepath_Base :: "string \<Rightarrow> string" where
  "filepath_Base path =
     (if path = [] then ''.''
      else let p = rev (dropWhile (\<lambda>c. c = CHR ''/'') (rev path))
           in if p = [] then ''/'' else rev (takeWhile (\<lambda>c. c \<noteq> CHR ''/'') (rev p)))"

definition Offset2FileName :: "int \<Rightarrow> string" where
  "Offset2FileName offset =
     (let byteList = replicate 20 (CHR ''0'') @ FormatInt offset; index = length byteList - 20
      in take 20 (drop index byteList))"

section \<open>Names round-trip offsets\<close>

lemma of_char_digit_char: "d < 10 \<Longrightarrow> (of_char (digit_char d) :: nat) = 48 + d"
  by (simp add: digit_char_def)

lemma is_digit_digit_char [simp]: "d < 10 \<Longrightarrow> is_digit (digit_char d)"
  by (simp add: is_digit_def of_char_digit_char)

lemma digit_val_digit_char [simp]: "d < 10 \<Longrightarrow> digit_val (digit_char d) = int d"
  by (simp add: digit_val_def of_char_digit_char)

lemma is_digit_zero [simp]: "is_digit (CHR ''0'')"
  by (simp add: is_digit_def)

lemma list_all_decimal: "list_all is_digit (decimal n)"
proof (induction n rule: decimal.induct)
  case (1 n)
  then show ?case by (subst decimal.simps) simp
qed

lemma decimal_val_snoc: "decimal_val (s @ [c]) = decimal_val s * 10 + digit_val c"
  by (simp add: decimal_val_def)

lemma decimal_val_decimal: "decimal_val (decimal n) = int n"
proof (induction n rule: decimal.induct)
  case (1 n)
  show ?case
  proof (cases "n < 10")
    case True
    then show ?thesis by (subst decimal.simps) (simp add: decimal_val_def)
  next
    case False
    with 1 have "decimal_val (decimal (n div 10)) = int (n div 10)" by simp
    with False show ?thesis
      by (subst decimal.simps) (simp add: decimal_val_snoc, presburger)
  qed
qed

lemma decimal_val_zeros: "decimal_val (replicate k (CHR ''0'') @ s) = decimal_val s"
proof (induction k)
  case (Suc k)
  have "digit_val (CHR ''0'') = 0" by (simp add: digit_val_def)
  then have "decimal_val (CHR ''0'' # t) = decimal_val t" for t by (simp add: decimal_val_def)
  with Suc show ?case by simp
qed simp

lemma length_decimal: "n < 10 ^ k \<Longrightarrow> 0 < k \<Longrightarrow> length (decimal n) \<le> k"
proof (induction k arbitrary: n)
  case (Suc k)
  show ?case
  proof (cases "n < 10")
    case True
    then show ?thesis by (subst decimal.simps) simp
  next
    case False
    with Suc.prems have "k \<noteq> 0" by (cases k) auto
    moreover have "n div 10 < 10 ^ k" using Suc.prems by simp
    ultimately have "length (decimal (n div 10)) \<le> k" using Suc.IH by simp
    with False show ?thesis by (subst decimal.simps) simp
  qed
qed simp

lemma Offset2FileName_padded:
  assumes "0 \<le> x" and "x < 10 ^ 20"
  shows "Offset2FileName x = replicate (20 - length (decimal (nat x))) (CHR ''0'') @ decimal (nat x)"
proof -
  have "nat x < 10 ^ 20"
    using assms by (metis nat_less_iff of_nat_numeral of_nat_power)
  then have "length (decimal (nat x)) \<le> 20" using length_decimal [of "nat x" 20] by simp
  then show ?thesis using assms(1) by (simp add: Offset2FileName_def FormatInt_def Let_def)
qed

lemma length_Offset2FileName: "length (Offset2FileName x) = 20"
  by (simp add: Offset2FileName_def Let_def)

lemma in_int64_less: "0 \<le> x \<Longrightarrow> in_int 64 x \<Longrightarrow> x < 10 ^ 20"
  by (simp add: in_int_def)

lemma list_all_replicate_digit: "list_all is_digit (replicate k (CHR ''0'') @ decimal n)"
  using list_all_decimal [of n] by (auto simp: list_all_iff)

lemma ParseInt_Offset2FileName:
  assumes "0 \<le> x" and "in_int 64 x"
  shows "ParseInt (Offset2FileName x) = Inr x"
proof -
  let ?s = "Offset2FileName x"
  have s: "?s = replicate (20 - length (decimal (nat x))) (CHR ''0'') @ decimal (nat x)"
    using assms by (intro Offset2FileName_padded in_int64_less)
  have digits: "list_all is_digit ?s" unfolding s by (rule list_all_replicate_digit)
  have val: "decimal_val ?s = x" using assms(1) by (simp add: s decimal_val_zeros decimal_val_decimal)
  obtain c r where cr: "?s = c # r" using length_Offset2FileName [of x] by (cases ?s) auto
  with digits have "is_digit c" by simp
  then have "c \<noteq> CHR ''-''" and "c \<noteq> CHR ''+''" by (auto simp: is_digit_def)
  with cr digits val assms(2) show ?thesis
    by (simp add: ParseInt_def ParseUint_def)
qed

lemma slash_not_in_name: "0 \<le> x \<Longrightarrow> in_int 64 x \<Longrightarrow> CHR ''/'' \<notin> set (Offset2FileName x)"
proof -
  assume "0 \<le> x" and "in_int 64 x"
  then have "list_all is_digit (Offset2FileName x)"
    using list_all_replicate_digit Offset2FileName_padded [OF _ in_int64_less, of x] by metis
  moreover have "\<not> is_digit (CHR ''/'')" by (simp add: is_digit_def)
  ultimately show ?thesis by (auto simp: list_all_iff)
qed

lemma filepath_Base_append:
  assumes "CHR ''/'' \<notin> set name" and "name \<noteq> []"
  shows "filepath_Base (dir @ ''/'' @ name) = name"
proof -
  let ?r = "rev (dir @ ''/'' @ name)"
  have "rev name \<noteq> []" using assms(2) by simp
  then have "dropWhile (\<lambda>c. c = CHR ''/'') ?r = ?r"
    using assms(1) by (cases "rev name") (auto simp: rev_eq_Cons_iff)
  moreover have "takeWhile (\<lambda>c. c \<noteq> CHR ''/'') ?r = rev name"
    using assms(1) by (auto simp: takeWhile_append)
  ultimately show ?thesis by (simp add: filepath_Base_def Let_def)
qed

lemma Offset2FileName_inject:
  assumes "0 \<le> x" "in_int 64 x" "0 \<le> y" "in_int 64 y" "Offset2FileName x = Offset2FileName y"
  shows "x = y"
  using assms ParseInt_Offset2FileName by (metis sum.inject(2))

end
