(* ===== verification/MapedFileM.thy ===== *)
theory MapedFileM
  imports OsFile
begin

text \<open>
  \<open>stgstorelog/reference_resource.go\<close>, \<open>maped_file.go\<close>, \<open>select_maped_buffer_result.go\<close> and the
  result types of an append: one memory-mapped file of the store with its reference count, write
  and flush positions. Every method is one function on the record; the locks of the source make
  each method atomic. \<open>AppendMessageWithCallBack\<close> takes the callback's \<open>doAppend\<close> as a function.
\<close>

section \<open>Data\<close>

definition OS_PAGE_SIZE :: int where
  "OS_PAGE_SIZE = 1024 * 4"

text \<open>
  \<open>MapedFile\<close> embeds \<open>ReferenceResource\<close> (the first four fields). The open file handle and the
  locks carry no state the operations depend on.
\<close>

record MapedFile =
  refCount :: int
  available :: bool
  cleanupOver :: bool
  firstShutdownTimestamp :: int
  TotalMapedVitualMemory :: int
  TotalMapedFiles :: int
  fileName :: string
  fileFromOffset :: int
  fileSize :: int
  mappedByteBuffer :: MappedByteBuffer
  wrotePostion :: int
  committedPosition :: int
  storeTimestamp :: int
  firstCreateInQueue :: bool

datatype AppendMessageStatus =
    APPENDMESSAGE_PUT_OK | END_OF_FILE | MESSAGE_SIZE_EXCEEDED | APPENDMESSAGE_UNKNOWN_ERROR

record AppendMessageResult =
  Status :: AppendMessageStatus
  WroteOffset :: int
  WroteBytes :: int
  MsgId :: string
  StoreTimestamp :: int
  LogicsOffset :: int

text \<open>A result literal with only its status set, as in \<open>&AppendMessageResult{Status: s}\<close>.\<close>

definition append_status :: "AppendMessageStatus \<Rightarrow> AppendMessageResult" where
  "append_status s = \<lparr>Status = s, WroteOffset = 0, WroteBytes = 0, MsgId = [], StoreTimestamp = 0,
     LogicsOffset = 0\<rparr>"

text \<open>
  The selected region. The pointer to the file it came from is the file's name; it is \<open>None\<close> once
  the region was released.
\<close>

record SelectMapedBufferResult =
  StartOffset :: int
  smr_MappedByteBuffer :: MappedByteBuffer
  Size :: int
  smr_MapedFile :: "string option"

section \<open>Reference counting\<close>

definition MapedFile_hold :: "MapedFile \<Rightarrow> bool \<times> MapedFile" where
  "MapedFile_hold self =
     (if available self
      then (let self1 = self\<lparr>refCount := refCount self + 1\<rparr>
            in if refCount self1 > 0 then (True, self1)
               else (False, self1\<lparr>refCount := refCount self1 - 1\<rparr>))
      else (False, self))"

definition MapedFile_isAvailable :: "MapedFile \<Rightarrow> bool" where
  "MapedFile_isAvailable self = available self"

definition MapedFile_isCleanupOver :: "MapedFile \<Rightarrow> bool" where
  "MapedFile_isCleanupOver self \<longleftrightarrow> refCount self \<le> 0 \<and> cleanupOver self"

definition clean :: "MappedByteBuffer \<Rightarrow> MappedByteBuffer" where
  "clean mbb = MappedByteBuffer_unmap mbb"

definition MapedFile_cleanup :: "MapedFile \<Rightarrow> bool \<times> MapedFile" where
  "MapedFile_cleanup self =
     (if MapedFile_isAvailable self then (False, self)
      else if MapedFile_isCleanupOver self then (True, self)
      else (True, self\<lparr>mappedByteBuffer := clean (mappedByteBuffer self)\<rparr>))"

definition MapedFile_release :: "MapedFile \<Rightarrow> MapedFile" where
  "MapedFile_release self =
     (let self1 = self\<lparr>refCount := refCount self - 1\<rparr>
      in if refCount self1 > 0 then self1
         else (let (over, self2) = MapedFile_cleanup self1 in self2\<lparr>cleanupOver := over\<rparr>))"

definition MapedFile_shutdown :: "int \<Rightarrow> int \<Rightarrow> MapedFile \<Rightarrow> MapedFile" where
  "MapedFile_shutdown now intervalForcibly self =
     (if available self
      then MapedFile_release (self\<lparr>available := False, firstShutdownTimestamp := now\<rparr>)
      else if refCount self > 0 \<and> now - firstShutdownTimestamp self \<ge> intervalForcibly
      then MapedFile_release (self\<lparr>refCount := - 1000 - refCount self\<rparr>)
      else self)"

definition NewSelectMapedBufferResult ::
    "int \<Rightarrow> MappedByteBuffer \<Rightarrow> int \<Rightarrow> MapedFile \<Rightarrow> SelectMapedBufferResult" where
  "NewSelectMapedBufferResult startOffset mbb sz mapedFile =
     \<lparr>StartOffset = startOffset, smr_MappedByteBuffer = mbb, Size = sz,
      smr_MapedFile = Some (fileName mapedFile)\<rparr>"

text \<open>\<open>Release\<close> of a region, with the file its pointer names.\<close>

definition SelectMapedBufferResult_Release ::
    "SelectMapedBufferResult \<Rightarrow> MapedFile \<Rightarrow> SelectMapedBufferResult \<times> MapedFile" where
  "SelectMapedBufferResult_Release self mf =
     (if smr_MapedFile self \<noteq> None then (self\<lparr>smr_MapedFile := None\<rparr>, MapedFile_release mf)
      else (self, mf))"

section \<open>Creation, flush, destruction\<close>

text \<open>
  \<open>NewMapedFile\<close>. A file that does not exist is created with \<open>filesize\<close> zero bytes; a failing
  \<open>mmap\<close> is only logged and leaves an empty region.
\<close>

definition NewMapedFile :: "OS \<Rightarrow> string \<Rightarrow> int \<Rightarrow> (error + MapedFile) \<times> OS" where
  "NewMapedFile os0 filePath filesize =
     (let os = ensureDirOK os0 (GetParentDirectory filePath)
      in case PathExists os filePath of
        Inl e \<Rightarrow> (Inl e, os)
      | Inr exist \<Rightarrow>
          if os_fails os (OsOpen filePath) \<or> os_dirs os filePath then (Inl ''open'', os)
          else let os1 = (if exist then os
                          else os\<lparr>os_files := (os_files os)(filePath := Some [])\<rparr>)
          in if \<not> exist \<and> (os_fails os (OsTruncate filePath) \<or> filesize < 0) then (Inl ''truncate'', os1)
          else let os2 = (if exist then os1
                          else os1\<lparr>os_files := (os_files os1)(filePath := Some (replicate (nat filesize) 0))\<rparr>)
          in case ParseInt (filepath_Base filePath) of
               Inl e \<Rightarrow> (Inl e, os2)
             | Inr offset \<Rightarrow>
                 (let content = the (os_files os2 filePath);
                      mmapBytes = (if os_fails os (OsMmap filePath) then [] else content)
                  in (Inr \<lparr>refCount = 1, available = True, cleanupOver = False,
                           firstShutdownTimestamp = 0, TotalMapedVitualMemory = filesize,
                           TotalMapedFiles = 1, fileName = filePath, fileFromOffset = offset,
                           fileSize = filesize,
                           mappedByteBuffer = NewMappedByteBuffer mmapBytes (int (length mmapBytes)),
                           wrotePostion = 0, committedPosition = 0, storeTimestamp = 0,
                           firstCreateInQueue = False\<rparr>, os2)))"

text \<open>\<open>msync\<close> makes the mapped region the durable content of the file.\<close>

definition MapedFile_Flush :: "OS \<Rightarrow> MapedFile \<Rightarrow> OS" where
  "MapedFile_Flush os self =
     (if MMapBuf (mappedByteBuffer self) = [] then os
      else os\<lparr>os_files := (os_files os)(fileName self := Some (MMapBuf (mappedByteBuffer self)))\<rparr>)"

definition MapedFile_Unmap :: "MapedFile \<Rightarrow> MapedFile" where
  "MapedFile_Unmap self =
     self\<lparr>TotalMapedVitualMemory := TotalMapedVitualMemory self - fileSize self,
          TotalMapedFiles := TotalMapedFiles self - 1,
          mappedByteBuffer := MappedByteBuffer_unmap (mappedByteBuffer self)\<rparr>"

definition MapedFile_isFull :: "MapedFile \<Rightarrow> bool" where
  "MapedFile_isFull self \<longleftrightarrow> fileSize self = wrotePostion self"

definition MapedFile_isAbleToFlush :: "MapedFile \<Rightarrow> int \<Rightarrow> bool" where
  "MapedFile_isAbleToFlush self flushLeastPages =
     (let flush = committedPosition self; write = wrotePostion self
      in if MapedFile_isFull self then True
         else if flushLeastPages > 0
         then write sdiv OS_PAGE_SIZE - flush sdiv OS_PAGE_SIZE \<ge> flushLeastPages
         else write > flush)"

definition MapedFile_Commit :: "OS \<Rightarrow> int \<Rightarrow> MapedFile \<Rightarrow> int \<times> MapedFile \<times> OS" where
  "MapedFile_Commit os flushLeastPages self =
     (if MapedFile_isAbleToFlush self flushLeastPages
      then (case MapedFile_hold self of
              (True, self1) \<Rightarrow>
                let os1 = MapedFile_Flush os self1;
                    self2 = MapedFile_release (self1\<lparr>committedPosition := wrotePostion self1\<rparr>)
                in (committedPosition self2, self2, os1)
            | (False, self1) \<Rightarrow>
                let self2 = self1\<lparr>committedPosition := wrotePostion self1\<rparr>
                in (committedPosition self2, self2, os))
      else (committedPosition self, self, os))"

definition MapedFile_destroy :: "OS \<Rightarrow> int \<Rightarrow> MapedFile \<Rightarrow> bool \<times> MapedFile \<times> OS" where
  "MapedFile_destroy os intervalForcibly self =
     (let self1 = MapedFile_shutdown (os_now os) intervalForcibly self
      in if MapedFile_isCleanupOver self1
         then (let self2 = MapedFile_Unmap self1
               in if os_fails os (OsRemove (fileName self2)) \<or> os_files os (fileName self2) = None
                  then (False, self2, os)
                  else (True, self2, os\<lparr>os_files := (os_files os)(fileName self2 := None)\<rparr>))
         else (True, self1, os))"

section \<open>Appending\<close>

definition MapedFile_appendMessage :: "MapedFile \<Rightarrow> byte list \<Rightarrow> (bool \<times> MapedFile) option" where
  "MapedFile_appendMessage self data =
     (if wrotePostion self + int (length data) \<le> fileSize self
      then do {
        (mbb, r) \<leftarrow> MappedByteBuffer_Write (mappedByteBuffer self) data;
        Some (case r of
            Inl e \<Rightarrow> (False, self\<lparr>mappedByteBuffer := mbb\<rparr>)
          | Inr n \<Rightarrow> (True, self\<lparr>mappedByteBuffer := mbb, wrotePostion := wrotePostion self + n\<rparr>)) }
      else Some (False, self))"

text \<open>
  The callback receives the file's start offset, the buffer, the room left (computed on \<open>int32\<close>)
  and the message, and threads its own state \<open>s\<close>. A \<open>nil\<close> message panics.
\<close>

type_synonym ('m, 's) append_callback =
  "int \<Rightarrow> MappedByteBuffer \<Rightarrow> int \<Rightarrow> 'm \<Rightarrow> 's \<Rightarrow> (AppendMessageResult \<times> MappedByteBuffer \<times> 's) option"

definition MapedFile_AppendMessageWithCallBack ::
    "('m, 's) append_callback \<Rightarrow> 'm option \<Rightarrow> 's \<Rightarrow> MapedFile \<Rightarrow>
     (AppendMessageResult \<times> MapedFile \<times> 's) option" where
  "MapedFile_AppendMessageWithCallBack doAppend msg s self =
     (case msg of None \<Rightarrow> None
      | Some m \<Rightarrow>
          let curPos = wrotePostion self
          in if curPos < fileSize self
             then do {
               (result, mbb, s1) \<leftarrow> doAppend (fileFromOffset self) (mappedByteBuffer self)
                  (to_int32 (to_int32 (fileSize self) - to_int32 curPos)) m s;
               Some (result, self\<lparr>mappedByteBuffer := mbb,
                                  wrotePostion := wrotePostion self + WroteBytes result,
                                  storeTimestamp := StoreTimestamp result\<rparr>, s1) }
             else Some (append_status APPENDMESSAGE_UNKNOWN_ERROR, self, s))"

section \<open>Reading\<close>

definition MapedFile_selectMapedBuffer ::
    "MapedFile \<Rightarrow> int \<Rightarrow> (SelectMapedBufferResult option \<times> MapedFile) option" where
  "MapedFile_selectMapedBuffer self pos =
     (if pos < wrotePostion self \<and> pos \<ge> 0
      then (case MapedFile_hold self of
              (True, self1) \<Rightarrow>
                (let mbb = mappedByteBuffer self1; sz = WritePos mbb - pos
                 in if WritePos mbb > int (length (MMapBuf mbb)) then Some (None, self1)
                    else do {
                      bs \<leftarrow> MappedByteBuffer_Bytes mbb;
                      let newMmpBuffer = (NewMappedByteBuffer bs (int (length (MMapBuf mbb))))
                            \<lparr>WritePos := WritePos mbb, ReadPos := pos\<rparr>;
                      Some (Some (NewSelectMapedBufferResult (fileFromOffset self1 + pos)
                                   newMmpBuffer (to_int32 sz) self1), self1) })
            | (False, self1) \<Rightarrow> Some (None, self1))
      else Some (None, self))"

definition MapedFile_selectMapedBufferByPosAndSize ::
    "MapedFile \<Rightarrow> int \<Rightarrow> int \<Rightarrow> (SelectMapedBufferResult option \<times> MapedFile) option" where
  "MapedFile_selectMapedBufferByPosAndSize self pos sz =
     (if pos + sz \<le> wrotePostion self
      then (case MapedFile_hold self of
              (True, self1) \<Rightarrow>
                (let buf = MMapBuf (mappedByteBuffer self1); ende = pos + sz
                 in if ende > int (length buf) then Some (None, self1)
                    else if 0 \<le> pos \<and> pos \<le> ende
                    then (let byteBuffer = (NewMappedByteBuffer (take (nat sz) (drop (nat pos) buf))
                                              (int (length buf) - pos))\<lparr>WritePos := sz\<rparr>
                          in Some (Some (NewSelectMapedBufferResult (fileFromOffset self1 + pos)
                                           byteBuffer sz self1), self1))
                    else None)
            | (False, self1) \<Rightarrow> Some (None, self1))
      else Some (None, self))"

lemmas MapedFile_defs [mf_defs] =
  MapedFile_hold_def MapedFile_isAvailable_def MapedFile_isCleanupOver_def clean_def
  MapedFile_cleanup_def MapedFile_release_def MapedFile_shutdown_def MappedByteBuffer_unmap_def

section \<open>Well-formed files\<close>

text \<open>
  The invariant of a file in use: the flush position never passes the write position, the write
  position never passes the file's size, and the buffer's write cursor, which \<open>Write\<close> uses, agrees
  with the file's \<open>wrotePostion\<close>, which the length checks use.
\<close>

definition mf_inv :: "MapedFile \<Rightarrow> bool" where
  "mf_inv mf \<longleftrightarrow> 0 \<le> committedPosition mf \<and> committedPosition mf \<le> wrotePostion mf \<and>
     wrotePostion mf \<le> fileSize mf \<and>
     WritePos (mappedByteBuffer mf) = wrotePostion mf \<and> Limit (mappedByteBuffer mf) = fileSize mf \<and>
     int (length (MMapBuf (mappedByteBuffer mf))) = fileSize mf \<and>
     available mf \<and> 0 < refCount mf"

text \<open>The bytes written to a file so far.\<close>

definition mf_content :: "MapedFile \<Rightarrow> byte list" where
  "mf_content mf = take (nat (wrotePostion mf)) (MMapBuf (mappedByteBuffer mf))"

lemma mf_inv_wrote: "mf_inv mf \<Longrightarrow> wrote (mappedByteBuffer mf) (mf_content mf)"
  by (auto simp: mf_inv_def mf_content_def wrote_def)

lemma length_mf_content: "mf_inv mf \<Longrightarrow> int (length (mf_content mf)) = wrotePostion mf"
  by (auto simp: mf_inv_def mf_content_def)

lemma hold_inv: "mf_inv mf \<Longrightarrow> MapedFile_hold mf = (True, mf\<lparr>refCount := refCount mf + 1\<rparr>)"
  by (simp add: mf_inv_def MapedFile_hold_def)

lemma release_after_hold:
  "0 < refCount mf \<Longrightarrow> MapedFile_release (mf\<lparr>refCount := refCount mf + 1\<rparr>) = mf"
  by (simp add: MapedFile_release_def)

lemma appendMessage_full:
  "\<not> wrotePostion mf + int (length data) \<le> fileSize mf \<Longrightarrow>
     MapedFile_appendMessage mf data = Some (False, mf)"
  by (simp add: MapedFile_appendMessage_def)

lemma appendMessage_room:
  assumes "mf_inv mf" and "wrotePostion mf + int (length data) \<le> fileSize mf"
  shows "\<exists>mbb. MapedFile_appendMessage mf data =
           Some (True, mf\<lparr>mappedByteBuffer := mbb,
                          wrotePostion := wrotePostion mf + int (length data)\<rparr>) \<and>
         wrote mbb (mf_content mf @ data) \<and> Limit mbb = fileSize mf \<and>
         int (length (MMapBuf mbb)) = fileSize mf \<and> ReadPos mbb = ReadPos (mappedByteBuffer mf) \<and>
         drop (length (mf_content mf @ data)) (MMapBuf mbb) =
           drop (length (mf_content mf @ data)) (MMapBuf (mappedByteBuffer mf))"
proof -
  have l: "int (length (mf_content mf)) = wrotePostion mf" using assms(1) by (rule length_mf_content)
  have le: "int (length (mf_content mf @ data)) \<le> Limit (mappedByteBuffer mf)"
    using assms l by (simp add: mf_inv_def)
  have lim: "Limit (mappedByteBuffer mf) \<le> int (length (MMapBuf (mappedByteBuffer mf)))"
    using assms(1) by (simp add: mf_inv_def)
  obtain mbb where
    "MappedByteBuffer_Write (mappedByteBuffer mf) data = Some (mbb, Inr (int (length data)))"
    "wrote mbb (mf_content mf @ data)" "Limit mbb = Limit (mappedByteBuffer mf)"
    "length (MMapBuf mbb) = length (MMapBuf (mappedByteBuffer mf))"
    "ReadPos mbb = ReadPos (mappedByteBuffer mf)"
    "drop (length (mf_content mf @ data)) (MMapBuf mbb) =
       drop (length (mf_content mf @ data)) (MMapBuf (mappedByteBuffer mf))"
    using wrote_Write [OF mf_inv_wrote [OF assms(1)] le lim] by blast
  with assms show ?thesis by (auto simp: MapedFile_appendMessage_def mf_inv_def)
qed

lemma appendMessage_cases:
  assumes "mf_inv mf"
  obtains (full) "\<not> wrotePostion mf + int (length data) \<le> fileSize mf"
      "MapedFile_appendMessage mf data = Some (False, mf)"
    | (room) mf1 where "wrotePostion mf + int (length data) \<le> fileSize mf"
      "MapedFile_appendMessage mf data = Some (True, mf1)" "mf_inv mf1"
      "mf_content mf1 = mf_content mf @ data" "fileFromOffset mf1 = fileFromOffset mf"
      "fileSize mf1 = fileSize mf" "fileName mf1 = fileName mf"
      "committedPosition mf1 = committedPosition mf" "storeTimestamp mf1 = storeTimestamp mf"
proof (cases "wrotePostion mf + int (length data) \<le> fileSize mf")
  case True
  obtain mbb where m: "MapedFile_appendMessage mf data =
      Some (True, mf\<lparr>mappedByteBuffer := mbb, wrotePostion := wrotePostion mf + int (length data)\<rparr>)"
    "wrote mbb (mf_content mf @ data)" "Limit mbb = fileSize mf"
    "int (length (MMapBuf mbb)) = fileSize mf"
    using appendMessage_room [OF assms True] by blast
  let ?mf1 = "mf\<lparr>mappedByteBuffer := mbb, wrotePostion := wrotePostion mf + int (length data)\<rparr>"
  have l: "int (length (mf_content mf)) = wrotePostion mf" using assms by (rule length_mf_content)
  have inv: "mf_inv ?mf1" using assms True m l by (auto simp: mf_inv_def wrote_def)
  have "mf_content ?mf1 = mf_content mf @ data"
    using m(2) l by (simp add: wrote_def mf_content_def nat_add_distrib)
  then show ?thesis using room [of ?mf1] True m(1) inv by simp
qed (use full appendMessage_full in blast)

lemma content_sublist_select:
  assumes "mf_inv mf" and "0 \<le> pos" and "0 \<le> sz" and "pos + sz \<le> wrotePostion mf"
  shows "take (nat sz) (drop (nat pos) (MMapBuf (mappedByteBuffer mf))) =
         take (nat sz) (drop (nat pos) (mf_content mf))"
proof -
  have "nat pos + nat sz \<le> nat (wrotePostion mf)" using assms by linarith
  then show ?thesis by (simp add: mf_content_def drop_take min_def)
qed

lemma select_by_pos_and_size:
  assumes "mf_inv mf" and "0 \<le> pos" and "0 \<le> sz" and "pos + sz \<le> wrotePostion mf"
  obtains r where "MapedFile_selectMapedBufferByPosAndSize mf pos sz =
       Some (Some r, mf\<lparr>refCount := refCount mf + 1\<rparr>)"
    "StartOffset r = fileFromOffset mf + pos" "Size r = sz" "smr_MapedFile r = Some (fileName mf)"
    "MMapBuf (smr_MappedByteBuffer r) = take (nat sz) (drop (nat pos) (mf_content mf))"
    "ReadPos (smr_MappedByteBuffer r) = 0" "WritePos (smr_MappedByteBuffer r) = sz"
proof -
  have "pos + sz \<le> int (length (MMapBuf (mappedByteBuffer mf)))"
    using assms by (simp add: mf_inv_def)
  then show ?thesis
    using assms that
    by (auto simp: MapedFile_selectMapedBufferByPosAndSize_def hold_inv Let_def
        NewSelectMapedBufferResult_def NewMappedByteBuffer_def content_sublist_select)
qed

lemma select_from_pos:
  assumes "mf_inv mf" and "0 \<le> pos" and "pos < wrotePostion mf"
  obtains r where "MapedFile_selectMapedBuffer mf pos = Some (Some r, mf\<lparr>refCount := refCount mf + 1\<rparr>)"
    "StartOffset r = fileFromOffset mf + pos" "Size r = to_int32 (wrotePostion mf - pos)"
    "smr_MapedFile r = Some (fileName mf)"
    "MMapBuf (smr_MappedByteBuffer r) = mf_content mf"
    "ReadPos (smr_MappedByteBuffer r) = pos" "WritePos (smr_MappedByteBuffer r) = wrotePostion mf"
  using assms that
  by (auto simp: MapedFile_selectMapedBuffer_def hold_inv Let_def mf_inv_def mf_content_def
      MappedByteBuffer_Bytes_def NewSelectMapedBufferResult_def NewMappedByteBuffer_def)

section \<open>Flushing\<close>

lemma Commit_not_able:
  "\<not> MapedFile_isAbleToFlush mf pages \<Longrightarrow> MapedFile_Commit os pages mf = (committedPosition mf, mf, os)"
  by (simp add: MapedFile_Commit_def)

lemma Commit_able:
  assumes "mf_inv mf" and "MapedFile_isAbleToFlush mf pages"
  shows "MapedFile_Commit os pages mf =
     (wrotePostion mf, mf\<lparr>committedPosition := wrotePostion mf\<rparr>, MapedFile_Flush os mf)"
proof -
  have "0 < refCount mf" using assms(1) by (simp add: mf_inv_def)
  then have "MapedFile_release (mf\<lparr>refCount := refCount mf + 1, committedPosition := wrotePostion mf\<rparr>)
      = mf\<lparr>committedPosition := wrotePostion mf\<rparr>"
    by (simp add: MapedFile_release_def)
  with assms show ?thesis
    by (simp add: MapedFile_Commit_def hold_inv MapedFile_Flush_def)
qed

lemma Commit_inv:
  assumes "mf_inv mf" and "MapedFile_Commit os pages mf = (p, mf1, os1)"
  shows "mf_inv mf1" and "p = committedPosition mf1" and "committedPosition mf \<le> p"
    and "p \<le> wrotePostion mf" and "mf_content mf1 = mf_content mf"
    and "fileFromOffset mf1 = fileFromOffset mf" and "wrotePostion mf1 = wrotePostion mf"
  using assms
  by (cases "MapedFile_isAbleToFlush mf pages";
      auto simp: Commit_able Commit_not_able mf_inv_def mf_content_def)+

section \<open>The reference-count protocol\<close>

text \<open>
  Threads use a file by \<open>hold\<close>, work, \<open>release\<close>; a deleting thread calls \<open>shutdown\<close>. The second
  component counts the holders that have not released yet. Shutting down by force, after
  \<open>intervalForcibly\<close> has passed, is the one step left out: it exists to take a file away from its
  holders.
\<close>

inductive ref_step :: "MapedFile \<times> nat \<Rightarrow> MapedFile \<times> nat \<Rightarrow> bool" where
  hold: "MapedFile_hold mf = (True, mf1) \<Longrightarrow> ref_step (mf, n) (mf1, Suc n)"
| hold_refused: "MapedFile_hold mf = (False, mf1) \<Longrightarrow> ref_step (mf, n) (mf1, n)"
| release: "ref_step (mf, Suc n) (MapedFile_release mf, n)"
| shutdown: "available mf \<Longrightarrow> ref_step (mf, n) (MapedFile_shutdown now interval mf, n)"
| shutdown_again: "\<not> available mf \<Longrightarrow> now - firstShutdownTimestamp mf < interval \<Longrightarrow>
     ref_step (mf, n) (MapedFile_shutdown now interval mf, n)"
| append: "0 < n \<Longrightarrow> MapedFile_appendMessage mf data = Some (b, mf1) \<Longrightarrow> ref_step (mf, n) (mf1, n)"

inductive ref_reachable :: "MapedFile \<Rightarrow> MapedFile \<times> nat \<Rightarrow> bool" for mf0 where
  start: "ref_reachable mf0 (mf0, 0)"
| step: "ref_reachable mf0 s \<Longrightarrow> ref_step s t \<Longrightarrow> ref_reachable mf0 t"

inductive_cases ref_stepE: "ref_step s t"

definition ref_inv :: "MapedFile \<times> nat \<Rightarrow> bool" where
  "ref_inv s = (case s of (mf, n) \<Rightarrow>
     0 < fileSize mf \<and>
     (available mf \<longrightarrow> refCount mf = int n + 1 \<and> \<not> cleanupOver mf) \<and>
     (\<not> available mf \<longrightarrow> refCount mf = int n) \<and>
     (if available mf \<or> 0 < n then int (length (MMapBuf (mappedByteBuffer mf))) = fileSize mf \<and> \<not> cleanupOver mf
      else MMapBuf (mappedByteBuffer mf) = [] \<and> cleanupOver mf))"

lemma appendMessage_frame:
  "MapedFile_appendMessage mf data = Some (b, mf1) \<Longrightarrow>
     available mf1 = available mf \<and> refCount mf1 = refCount mf \<and> cleanupOver mf1 = cleanupOver mf \<and>
     fileSize mf1 = fileSize mf \<and>
     length (MMapBuf (mappedByteBuffer mf1)) = length (MMapBuf (mappedByteBuffer mf))"
proof (cases "wrotePostion mf + int (length data) \<le> fileSize mf")
  case True
  assume "MapedFile_appendMessage mf data = Some (b, mf1)"
  with True obtain mbb r where w: "MappedByteBuffer_Write (mappedByteBuffer mf) data = Some (mbb, r)"
    and r: "(b, mf1) = (case r of
            Inl e \<Rightarrow> (False, mf\<lparr>mappedByteBuffer := mbb\<rparr>)
          | Inr n \<Rightarrow> (True, mf\<lparr>mappedByteBuffer := mbb, wrotePostion := wrotePostion mf + n\<rparr>))"
    by (auto simp: MapedFile_appendMessage_def Option.bind_eq_Some_conv)
  show ?thesis using r Write_preserves_length [OF w] by (cases r) auto
qed (simp add: MapedFile_appendMessage_def)

lemma ref_step_inv: "ref_step s t \<Longrightarrow> ref_inv s \<Longrightarrow> ref_inv t"
proof (induction rule: ref_step.induct)
  case (append n mf data b mf1)
  then show ?case using appendMessage_frame [of mf data b mf1] by (auto simp: ref_inv_def)
qed (auto simp: ref_inv_def mf_defs Let_def split: if_splits)

lemma ref_reachable_inv:
  "ref_reachable mf0 s \<Longrightarrow> ref_inv (mf0, 0) \<Longrightarrow> ref_inv s"
  by (induction rule: ref_reachable.induct) (auto intro: ref_step_inv)

lemma NewMapedFile_ref_inv:
  assumes "NewMapedFile os path sz = (Inr mf, os1)" and "os_files os path = None"
    and "\<not> os_fails os (OsMmap path)" and "0 < sz"
  shows "ref_inv (mf, 0)"
  using assms
  by (auto simp: NewMapedFile_def PathExists_def ref_inv_def Let_def NewMappedByteBuffer_def
      split: sum.splits if_splits)

lemma NewMapedFile_inv:
  assumes "NewMapedFile os path sz = (Inr mf, os1)" and "os_files os path = None"
    and "\<not> os_fails os (OsMmap path)" and "0 \<le> sz"
  shows "mf_inv mf" and "mf_content mf = []" and "fileSize mf = sz" and "fileName mf = path"
    and "ParseInt (filepath_Base path) = Inr (fileFromOffset mf)"
  using assms
  by (auto simp: NewMapedFile_def PathExists_def mf_inv_def mf_content_def Let_def NewMappedByteBuffer_def
      split: sum.splits if_splits)

text \<open>A concrete file, used to instantiate the properties below.\<close>

definition example_os :: OS where
  "example_os = \<lparr>os_files = (\<lambda>_. None), os_dirs = (\<lambda>_. False), os_fails = (\<lambda>_. False), os_mtime = (\<lambda>_. 0), os_now = 0\<rparr>"

definition example_file :: MapedFile where
  "example_file = \<lparr>refCount = 1, available = True, cleanupOver = False, firstShutdownTimestamp = 0,
     TotalMapedVitualMemory = 8, TotalMapedFiles = 1, fileName = ''s/00000000000000000000'',
     fileFromOffset = 0, fileSize = 8, mappedByteBuffer = NewMappedByteBuffer (replicate 8 0) 8,
     wrotePostion = 0, committedPosition = 0, storeTimestamp = 0, firstCreateInQueue = False\<rparr>"

definition example_file1 :: MapedFile where
  "example_file1 = example_file\<lparr>mappedByteBuffer := \<lparr>MMapBuf = [7, 0, 0, 0, 0, 0, 0, 0], ReadPos = 0,
              WritePos = 1, Limit = 8\<rparr>, wrotePostion := 1\<rparr>"

lemma example_file_inv: "mf_inv example_file"
  by (simp add: mf_inv_def example_file_def NewMappedByteBuffer_def)

lemma example_file_ref_inv: "ref_inv (example_file, 0)"
  by (simp add: ref_inv_def example_file_def NewMappedByteBuffer_def)

section \<open>Properties\<close>

text \<open>
  Appending data to a well-formed file that has room succeeds,
  keeps the file well formed, and selecting exactly the appended region returns the data; the
  reference taken by the selection leaves the rest of the file unchanged.
\<close>

lemma append_then_select:
  assumes "mf_inv mf" and "wrotePostion mf + int (length data) \<le> fileSize mf"
  shows "\<exists>mf1 r. MapedFile_appendMessage mf data = Some (True, mf1) \<and> mf_inv mf1 \<and>
     MapedFile_selectMapedBufferByPosAndSize mf1 (wrotePostion mf) (int (length data)) =
       Some (Some r, mf1\<lparr>refCount := refCount mf1 + 1\<rparr>) \<and>
     MMapBuf (smr_MappedByteBuffer r) = data \<and> StartOffset r = fileFromOffset mf + wrotePostion mf"
proof -
  from assms obtain mf1 where m: "MapedFile_appendMessage mf data = Some (True, mf1)" "mf_inv mf1"
      "mf_content mf1 = mf_content mf @ data" "fileFromOffset mf1 = fileFromOffset mf"
    by (cases rule: appendMessage_cases [of mf data]) auto
  have l: "int (length (mf_content mf)) = wrotePostion mf" "0 \<le> wrotePostion mf"
    using assms(1) length_mf_content [of mf] by (auto simp: mf_inv_def)
  have "wrotePostion mf + int (length data) \<le> wrotePostion mf1"
    using length_mf_content [OF m(2)] m(3) l by simp
  with m(2) l(2) obtain r where "MapedFile_selectMapedBufferByPosAndSize mf1 (wrotePostion mf) (int (length data)) =
       Some (Some r, mf1\<lparr>refCount := refCount mf1 + 1\<rparr>)"
      "StartOffset r = fileFromOffset mf1 + wrotePostion mf"
      "MMapBuf (smr_MappedByteBuffer r) = take (nat (int (length data))) (drop (nat (wrotePostion mf)) (mf_content mf1))"
    by (elim select_by_pos_and_size) auto
  moreover have "nat (wrotePostion mf) = length (mf_content mf)" using l(1) by linarith
  ultimately show ?thesis using m by auto
qed

lemma append_then_select_witness:
  "\<exists>mf1 r. MapedFile_appendMessage example_file [1, 2, 3] = Some (True, mf1) \<and> mf_inv mf1 \<and>
     MapedFile_selectMapedBufferByPosAndSize mf1 0 3 = Some (Some r, mf1\<lparr>refCount := refCount mf1 + 1\<rparr>) \<and>
     MMapBuf (smr_MappedByteBuffer r) = [1, 2, 3] \<and> StartOffset r = 0"
proof -
  have "wrotePostion example_file + int (length [1, 2, 3 :: byte]) \<le> fileSize example_file"
    by (simp add: example_file_def)
  from append_then_select [OF example_file_inv this] show ?thesis
    by (simp add: example_file_def)
qed

text \<open>
  Along every run of \<open>hold\<close>, \<open>release\<close>, appends
  and shutdowns that are not forced, the region stays mapped at its full size while a holder
  remains, and once the file was shut down and the last holder has released, the region is unmapped
  and the clean-up is recorded.
\<close>

lemma mapped_while_held:
  assumes "ref_inv (mf0, 0)" and "ref_reachable mf0 (mf, n)"
  shows "(0 < n \<longrightarrow> int (length (MMapBuf (mappedByteBuffer mf))) = fileSize mf \<and> \<not> MapedFile_isCleanupOver mf) \<and>
         (n = 0 \<and> \<not> available mf \<longrightarrow> MMapBuf (mappedByteBuffer mf) = [] \<and> MapedFile_isCleanupOver mf)"
  using ref_reachable_inv [OF assms(2,1)] by (auto simp: ref_inv_def mf_defs split: if_splits)

lemma mapped_while_held_witness:
  "\<exists>mf. ref_reachable example_file (mf, 0) \<and> \<not> available mf \<and> MMapBuf (mappedByteBuffer mf) = []"
proof -
  let ?mf = "MapedFile_shutdown 5 10 example_file"
  have "ref_step (example_file, 0) (?mf, 0)"
    by (rule ref_step.shutdown) (simp add: example_file_def)
  then have r: "ref_reachable example_file (?mf, 0)"
    by (rule ref_reachable.step [OF ref_reachable.start])
  moreover have "\<not> available ?mf" by (simp add: example_file_def mf_defs Let_def)
  ultimately show ?thesis using mapped_while_held [OF example_file_ref_inv r] by auto
qed

text \<open>
  A commit never moves the flush position backwards nor past the write position; when
  it flushes, the file's durable content becomes the mapped region and everything written is
  flushed.
\<close>

lemma commit_flushes:
  assumes "mf_inv mf" and "MapedFile_Commit os pages mf = (p, mf1, os1)"
  shows "committedPosition mf \<le> p \<and> p \<le> wrotePostion mf \<and> mf_inv mf1 \<and>
     (if MapedFile_isAbleToFlush mf pages
      then p = wrotePostion mf \<and>
        (fileSize mf \<noteq> 0 \<longrightarrow> os_files os1 (fileName mf) = Some (MMapBuf (mappedByteBuffer mf)))
      else os1 = os \<and> mf1 = mf)"
proof (cases "MapedFile_isAbleToFlush mf pages")
  case True
  have e: "p = wrotePostion mf" "os1 = MapedFile_Flush os mf"
    using Commit_able [OF assms(1) True, of os] assms(2) by auto
  have "fileSize mf \<noteq> 0 \<longrightarrow> MMapBuf (mappedByteBuffer mf) \<noteq> []"
    using assms(1) by (auto simp: mf_inv_def)
  then show ?thesis using True e Commit_inv [OF assms] by (simp add: MapedFile_Flush_def)
next
  case False
  then have "os1 = os" "mf1 = mf" using assms(2) by (auto simp: Commit_not_able)
  with False Commit_inv(1,3,4) [OF assms] show ?thesis by simp
qed

lemma commit_flushes_witness:
  "\<exists>p mf1 os1. MapedFile_Commit example_os 0 example_file1 = (p, mf1, os1) \<and> p = 1 \<and> mf_inv mf1 \<and>
     os_files os1 (fileName example_file1) = Some [7, 0, 0, 0, 0, 0, 0, 0]"
proof -
  have inv: "mf_inv example_file1" by (simp add: mf_inv_def example_file1_def example_file_def)
  obtain p mf1 os1 where c: "MapedFile_Commit example_os 0 example_file1 = (p, mf1, os1)"
    using prod_cases3 by blast
  have "MapedFile_isAbleToFlush example_file1 0" "wrotePostion example_file1 = 1"
      "fileSize example_file1 = 8" "MMapBuf (mappedByteBuffer example_file1) = [7, 0, 0, 0, 0, 0, 0, 0]"
    by (simp_all add: MapedFile_isAbleToFlush_def MapedFile_isFull_def example_file1_def example_file_def)
  with commit_flushes [OF inv c] have "p = 1 \<and> mf_inv mf1 \<and>
     os_files os1 (fileName example_file1) = Some [7, 0, 0, 0, 0, 0, 0, 0]" by simp
  with c show ?thesis by blast
qed

text \<open>
  When a holder remains, \<open>destroy\<close> reports success although the file
  is neither unmapped nor removed from the disk.
\<close>

lemma destroy_held_reports_success:
  assumes "mf_inv mf" and "2 \<le> refCount mf" and "MapedFile_destroy os interval mf = (ok, mf1, os1)"
  shows "ok \<and> os1 = os \<and> mappedByteBuffer mf1 = mappedByteBuffer mf \<and> \<not> available mf1"
  using assms by (auto simp: MapedFile_destroy_def mf_defs mf_inv_def Let_def split: if_splits)

lemma destroy_held_reports_success_witness:
  "\<exists>mf1. MapedFile_destroy example_os 1000 (example_file\<lparr>refCount := 2\<rparr>) = (True, mf1, example_os)"
proof -
  let ?mf = "example_file\<lparr>refCount := 2\<rparr>"
  have inv: "mf_inv ?mf" using example_file_inv by (simp add: mf_inv_def)
  obtain ok mf1 os1 where d: "MapedFile_destroy example_os 1000 ?mf = (ok, mf1, os1)"
    using prod_cases3 by blast
  show ?thesis using destroy_held_reports_success [OF inv _ d] d by simp
qed

end
