(* ===== verification/MapedFileQueueM.thy ===== *)
theory MapedFileQueueM
  imports MapedFileM "HOL-Library.List_Lexorder" "HOL-Library.Char_ord"
begin

text \<open>
  \<open>stgstorelog/mapedfile_queue.go\<close>: the sequence of equally sized files that carries a log. The
  linked list of file pointers is a list of files; a pointer handed out by a method is the index of
  the file in that list. A method that panics returns \<open>None\<close>.
\<close>

section \<open>Data\<close>

text \<open>
  \<open>allocateMapedFileService\<close> is the pre-allocation service, as the function
  \<open>putRequestAndReturnMapedFile\<close> it offers, or \<open>None\<close> for \<open>nil\<close>.
\<close>

record MapedFileQueue =
  DeleteFilesBatchMax :: int
  mfq_storePath :: string
  mfq_mapedFileSize :: int
  mapedFiles :: "MapedFile list"
  allocateMapedFileService ::
    "(OS \<Rightarrow> string \<Rightarrow> string \<Rightarrow> int \<Rightarrow> (error + MapedFile option) \<times> OS) option"
  committedWhere :: int
  mfq_storeTimestamp :: int

definition NewMapedFileQueue where
  "NewMapedFileQueue path sz service =
     \<lparr>DeleteFilesBatchMax = 10, mfq_storePath = path, mfq_mapedFileSize = sz, mapedFiles = [],
      allocateMapedFileService = service, committedWhere = 0, mfq_storeTimestamp = 0\<rparr>"

section \<open>Looking up files\<close>

text \<open>
  The copy is made with \<open>Len()\<close> elements, all \<open>nil\<close>, and the files are then appended to it, so it
  holds the files behind as many \<open>nil\<close>s. \<open>None\<close> is the \<open>nil\<close> slice.
\<close>

definition MapedFileQueue_copyMapedFiles :: "MapedFileQueue \<Rightarrow> int \<Rightarrow> nat option list option" where
  "MapedFileQueue_copyMapedFiles self reservedMapedFiles =
     (let n = length (mapedFiles self)
      in if int n \<le> reservedMapedFiles then None
         else Some (replicate n None @ map Some [0..<n]))"

definition MapedFileQueue_getMapedFileByTime :: "OS \<Rightarrow> MapedFileQueue \<Rightarrow> int \<Rightarrow> nat option" where
  "MapedFileQueue_getMapedFileByTime os self timestamp =
     (case MapedFileQueue_copyMapedFiles self 0 of
        None \<Rightarrow> None
      | Some mapedFileSlice \<Rightarrow>
          (let found = (\<lambda>p. case p of None \<Rightarrow> False
                         | Some i \<Rightarrow> let name = fileName (mapedFiles self ! i)
                             in \<not> os_fails os (OsStat name) \<and> os_files os name \<noteq> None \<and>
                                os_mtime os name \<ge> timestamp)
           in case List.find found mapedFileSlice of
                Some p \<Rightarrow> p
              | None \<Rightarrow> last mapedFileSlice))"

definition MapedFileQueue_getFirstMapedFile :: "MapedFileQueue \<Rightarrow> nat option" where
  "MapedFileQueue_getFirstMapedFile self = (if mapedFiles self = [] then None else Some 0)"

definition MapedFileQueue_getFirstMapedFileOnLock :: "MapedFileQueue \<Rightarrow> nat option" where
  "MapedFileQueue_getFirstMapedFileOnLock self = MapedFileQueue_getFirstMapedFile self"

definition MapedFileQueue_getLastMapedFile2 :: "MapedFileQueue \<Rightarrow> nat option" where
  "MapedFileQueue_getLastMapedFile2 self =
     (if mapedFiles self = [] then None else Some (length (mapedFiles self) - 1))"

definition MapedFileQueue_getLastAndLastMapedFile :: "MapedFileQueue \<Rightarrow> nat option" where
  "MapedFileQueue_getLastAndLastMapedFile self =
     (if mapedFiles self = [] then None else Some (length (mapedFiles self) - 1))"

definition MapedFileQueue_getMapedMemorySize :: "MapedFileQueue \<Rightarrow> int" where
  "MapedFileQueue_getMapedMemorySize self = 0"

text \<open>The outer option is the panic of a division by a zero file size.\<close>

definition MapedFileQueue_findMapedFileByOffset ::
    "MapedFileQueue \<Rightarrow> int \<Rightarrow> bool \<Rightarrow> nat option option" where
  "MapedFileQueue_findMapedFileByOffset self offset returnFirstOnNotFound =
     (case MapedFileQueue_getFirstMapedFile self of
        None \<Rightarrow> Some None
      | Some f \<Rightarrow>
          if mfq_mapedFileSize self = 0 then None
          else (let index = offset sdiv mfq_mapedFileSize self -
                            fileFromOffset (mapedFiles self ! f) sdiv mfq_mapedFileSize self
                in if 0 \<le> index \<and> index < int (length (mapedFiles self)) then Some (Some (nat index))
                   else if returnFirstOnNotFound then Some (Some f) else Some None))"

text \<open>
  The list holds pointers while the type assertion of \<open>getMinOffset\<close> asks for a \<open>MapedFile\<close> value,
  so it fails whenever the list is not empty.
\<close>

definition MapedFileQueue_getMinOffset :: "MapedFileQueue \<Rightarrow> int option" where
  "MapedFileQueue_getMinOffset self = (if mapedFiles self \<noteq> [] then None else Some (- 1))"

definition MapedFileQueue_getMaxOffset :: "MapedFileQueue \<Rightarrow> int" where
  "MapedFileQueue_getMaxOffset self =
     (if mapedFiles self \<noteq> []
      then (let mf = last (mapedFiles self) in fileFromOffset mf + wrotePostion mf) else 0)"

section \<open>Growing the queue\<close>

definition mfq_path :: "string \<Rightarrow> int \<Rightarrow> string" where
  "mfq_path dir offset = dir @ ''/'' @ Offset2FileName offset"

text \<open>
  \<open>getLastMapedFile\<close>: the pointer to the last file, created when the list is empty or its last file
  is full. The result is the error or the pointer (\<open>None\<close> when the service returns \<open>nil\<close> without
  an error); the outer option is the division by a zero file size.
\<close>

definition MapedFileQueue_getLastMapedFile ::
    "OS \<Rightarrow> int \<Rightarrow> MapedFileQueue \<Rightarrow> ((error + nat option) \<times> MapedFileQueue \<times> OS) option" where
  "MapedFileQueue_getLastMapedFile os startOffset self =
     (let n = length (mapedFiles self)
      in if mapedFiles self = [] \<and> mfq_mapedFileSize self = 0 then None
         else let createOffset =
                (if mapedFiles self = [] then startOffset - startOffset smod mfq_mapedFileSize self
                 else if MapedFile_isFull (last (mapedFiles self))
                 then fileFromOffset (last (mapedFiles self)) + mfq_mapedFileSize self
                 else - 1)
         in Some (if createOffset \<noteq> - 1
            then (let nextPath = mfq_path (mfq_storePath self) createOffset;
                      nextNextPath = mfq_path (mfq_storePath self) (createOffset + mfq_mapedFileSize self);
                      (r, os1) = (case allocateMapedFileService self of
                         Some putRequestAndReturnMapedFile \<Rightarrow>
                           putRequestAndReturnMapedFile os nextPath nextNextPath (mfq_mapedFileSize self)
                       | None \<Rightarrow> (case NewMapedFile os nextPath (mfq_mapedFileSize self) of
                            (Inl e, os2) \<Rightarrow> (Inl e, os2) | (Inr mf, os2) \<Rightarrow> (Inr (Some mf), os2)))
                  in case r of
                       Inl e \<Rightarrow> (Inl e, self, os1)
                     | Inr None \<Rightarrow> (Inr None, self, os1)
                     | Inr (Some mf) \<Rightarrow>
                         (let mf1 = (if mapedFiles self = [] then mf\<lparr>firstCreateInQueue := True\<rparr> else mf)
                          in (Inr (Some n), self\<lparr>mapedFiles := mapedFiles self @ [mf1]\<rparr>, os1)))
            else (Inr (MapedFileQueue_getLastMapedFile2 self), self, os)))"

text \<open>An error leaves the pointer \<open>nil\<close>, whose dereference then panics.\<close>

definition MapedFileQueue_howMuchFallBehind ::
    "OS \<Rightarrow> MapedFileQueue \<Rightarrow> (int \<times> MapedFileQueue \<times> OS) option" where
  "MapedFileQueue_howMuchFallBehind os self =
     (if mapedFiles self = [] then Some (0, self, os)
      else if committedWhere self \<noteq> 0
      then do {
        (r, self1, os1) \<leftarrow> MapedFileQueue_getLastMapedFile os 0 self;
        case r of
          Inr (Some i) \<Rightarrow> Some (fileFromOffset (mapedFiles self1 ! i) +
             wrotePostion (mapedFiles self1 ! i) - committedWhere self, self1, os1)
        | _ \<Rightarrow> None }
      else Some (0, self, os))"

section \<open>Deleting files\<close>

text \<open>
  Removing a list element clears its \<open>next\<close> pointer and ends the inner loop, so each name to delete
  removes the first file of that name.
\<close>

fun remove_named :: "string \<Rightarrow> MapedFile list \<Rightarrow> MapedFile list" where
  "remove_named name [] = []"
| "remove_named name (mf # mfs) = (if fileName mf = name then mfs else mf # remove_named name mfs)"

definition MapedFileQueue_deleteExpiredFile :: "string list \<Rightarrow> MapedFileQueue \<Rightarrow> MapedFileQueue" where
  "MapedFileQueue_deleteExpiredFile names self =
     self\<lparr>mapedFiles := fold remove_named names (mapedFiles self)\<rparr>"

fun truncate_files :: "int \<Rightarrow> int \<Rightarrow> OS \<Rightarrow> MapedFile list \<Rightarrow> MapedFile list \<times> string list \<times> OS" where
  "truncate_files sz offset os [] = ([], [], os)"
| "truncate_files sz offset os (mf # mfs) =
     (let (mf1, remove, os1) =
        (if fileFromOffset mf + fileSize mf > offset
         then (if offset \<ge> fileFromOffset mf
               then (let pos = offset smod sz
                     in (mf\<lparr>wrotePostion := pos,
                            mappedByteBuffer := (mappedByteBuffer mf)\<lparr>WritePos := pos\<rparr>,
                            committedPosition := pos\<rparr>, [], os))
               else (case MapedFile_destroy os 1000 mf of
                       (ok, mf2, os2) \<Rightarrow> (mf2, [fileName mf2], os2)))
         else (mf, [], os));
        (mfs1, removes, os3) = truncate_files sz offset os1 mfs
      in (mf1 # mfs1, remove @ removes, os3))"

text \<open>The remainder by a zero file size panics, which takes a file whose tail passes the offset.\<close>

definition MapedFileQueue_truncateDirtyFiles ::
    "OS \<Rightarrow> int \<Rightarrow> MapedFileQueue \<Rightarrow> (MapedFileQueue \<times> OS) option" where
  "MapedFileQueue_truncateDirtyFiles os offset self =
     (if mfq_mapedFileSize self = 0 \<and>
         list_ex (\<lambda>mf. fileFromOffset mf + fileSize mf > offset \<and> offset \<ge> fileFromOffset mf) (mapedFiles self)
      then None
      else (let (mfs, names, os1) = truncate_files (mfq_mapedFileSize self) offset os (mapedFiles self)
            in Some (MapedFileQueue_deleteExpiredFile names (self\<lparr>mapedFiles := mfs\<rparr>), os1)))"

definition MapedFileQueue_deleteLastMapedFile :: "OS \<Rightarrow> MapedFileQueue \<Rightarrow> MapedFileQueue \<times> OS" where
  "MapedFileQueue_deleteLastMapedFile os self =
     (if mapedFiles self \<noteq> []
      then (case MapedFile_destroy os 1000 (last (mapedFiles self)) of
              (ok, mf, os1) \<Rightarrow> (self\<lparr>mapedFiles := butlast (mapedFiles self)\<rparr>, os1))
      else (self, os))"

text \<open>
  The loop over the copied slice, without its last element; \<open>dels\<close> collects the files to delete.
  The pause between two deletions changes nothing but the clock; the clock of the whole call is
  \<open>os_now\<close>.
\<close>

fun delete_by_time ::
    "int \<Rightarrow> int \<Rightarrow> int \<Rightarrow> bool \<Rightarrow> OS \<Rightarrow> MapedFile list \<Rightarrow> nat option list \<Rightarrow> string list \<Rightarrow>
     MapedFile list \<times> string list \<times> OS" where
  "delete_by_time batchMax expiredTime intervalForcibly cleanImmediately os mfs [] dels = (mfs, dels, os)"
| "delete_by_time batchMax expiredTime intervalForcibly cleanImmediately os mfs (p # ps) dels =
     (case p of
        None \<Rightarrow> delete_by_time batchMax expiredTime intervalForcibly cleanImmediately os mfs ps dels
      | Some i \<Rightarrow>
          if os_now os > storeTimestamp (mfs ! i) + expiredTime \<or> cleanImmediately
          then (case MapedFile_destroy os intervalForcibly (mfs ! i) of
                  (True, mf, os1) \<Rightarrow>
                    (let dels1 = dels @ [fileName mf]
                     in if int (length dels1) \<ge> batchMax then (mfs[i := mf], dels1, os1)
                        else delete_by_time batchMax expiredTime intervalForcibly cleanImmediately os1
                               (mfs[i := mf]) ps dels1)
                | (False, mf, os1) \<Rightarrow> (mfs[i := mf], dels, os1))
          else delete_by_time batchMax expiredTime intervalForcibly cleanImmediately os mfs ps dels)"

definition MapedFileQueue_deleteExpiredFileByTime ::
    "OS \<Rightarrow> int \<Rightarrow> int \<Rightarrow> int \<Rightarrow> bool \<Rightarrow> MapedFileQueue \<Rightarrow> int \<times> MapedFileQueue \<times> OS" where
  "MapedFileQueue_deleteExpiredFileByTime os expiredTime deleteFilesInterval intervalForcibly cleanImmediately self =
     (case MapedFileQueue_copyMapedFiles self 0 of
        None \<Rightarrow> (0, self, os)
      | Some files \<Rightarrow>
          (let (mfs, dels, os1) = delete_by_time (DeleteFilesBatchMax self) expiredTime intervalForcibly
                 cleanImmediately os (mapedFiles self) (butlast files) []
           in (int (length dels), MapedFileQueue_deleteExpiredFile dels (self\<lparr>mapedFiles := mfs\<rparr>), os1)))"

text \<open>The region read is released before the file is destroyed.\<close>

fun delete_by_offset ::
    "int \<Rightarrow> int \<Rightarrow> OS \<Rightarrow> MapedFile list \<Rightarrow> nat option list \<Rightarrow> string list \<Rightarrow>
     (MapedFile list \<times> string list \<times> OS) option" where
  "delete_by_offset pos offset os mfs [] dels = Some (mfs, dels, os)"
| "delete_by_offset pos offset os mfs (p # ps) dels =
     (case p of
        None \<Rightarrow> delete_by_offset pos offset os mfs ps dels
      | Some i \<Rightarrow>
          do {
            (result, mf) \<leftarrow> MapedFile_selectMapedBuffer (mfs ! i) pos;
            case result of
              None \<Rightarrow> Some (mfs[i := mf], dels, os)
            | Some r \<Rightarrow>
                do {
                  (maxOffsetInLogicQueue, _) \<leftarrow> MappedByteBuffer_ReadInt64 (smr_MappedByteBuffer r);
                  let mf1 = snd (SelectMapedBufferResult_Release r mf);
                  if maxOffsetInLogicQueue < offset
                  then (case MapedFile_destroy os (1000 * 60) mf1 of
                          (ok, mf2, os1) \<Rightarrow>
                            delete_by_offset pos offset os1 (mfs[i := mf2]) ps
                              (if ok then dels @ [fileName mf2] else dels))
                  else delete_by_offset pos offset os (mfs[i := mf1]) ps dels } })"

definition MapedFileQueue_deleteExpiredFileByOffset ::
    "OS \<Rightarrow> int \<Rightarrow> int \<Rightarrow> MapedFileQueue \<Rightarrow> (int \<times> MapedFileQueue \<times> OS) option" where
  "MapedFileQueue_deleteExpiredFileByOffset os offset unitsize self =
     (case MapedFileQueue_copyMapedFiles self 0 of
        None \<Rightarrow> Some (0, self, os)
      | Some mfs \<Rightarrow>
          do {
            (files, dels, os1) \<leftarrow> delete_by_offset (mfq_mapedFileSize self - unitsize) offset os
               (mapedFiles self) (butlast mfs) [];
            Some (int (length dels),
                  MapedFileQueue_deleteExpiredFile dels (self\<lparr>mapedFiles := files\<rparr>), os1) })"

definition MapedFileQueue_retryDeleteFirstFile ::
    "OS \<Rightarrow> int \<Rightarrow> MapedFileQueue \<Rightarrow> bool \<times> MapedFileQueue \<times> OS" where
  "MapedFileQueue_retryDeleteFirstFile os intervalForcibly self =
     (case MapedFileQueue_getFirstMapedFileOnLock self of
        None \<Rightarrow> (False, self, os)
      | Some i \<Rightarrow>
          if \<not> MapedFile_isAvailable (mapedFiles self ! i)
          then (case MapedFile_destroy os intervalForcibly (mapedFiles self ! i) of
                  (result, mf, os1) \<Rightarrow>
                    (let self1 = self\<lparr>mapedFiles := (mapedFiles self)[i := mf]\<rparr>
                     in (result,
                         if result then MapedFileQueue_deleteExpiredFile [fileName mf] self1 else self1, os1)))
          else (False, self, os))"

fun destroy_all :: "OS \<Rightarrow> MapedFile list \<Rightarrow> OS" where
  "destroy_all os [] = os"
| "destroy_all os (mf # mfs) =
     (case MapedFile_destroy os (1000 * 3) mf of (ok, mf1, os1) \<Rightarrow> destroy_all os1 mfs)"

text \<open>
  \<open>destroy\<close>: every file is destroyed, the list emptied and the directory with all that is under it
  removed. A directory whose \<open>Stat\<close> fails is taken not to exist.
\<close>

definition MapedFileQueue_destroy :: "OS \<Rightarrow> MapedFileQueue \<Rightarrow> MapedFileQueue \<times> OS" where
  "MapedFileQueue_destroy os self =
     (let os1 = destroy_all os (mapedFiles self);
          exist = (case PathExists os1 (mfq_storePath self) of Inl e \<Rightarrow> False | Inr b \<Rightarrow> b);
          under = (\<lambda>p. take (Suc (length (mfq_storePath self))) p = mfq_storePath self @ ''/'')
      in (self\<lparr>mapedFiles := [], committedWhere := 0\<rparr>,
          if exist \<and> os_dirs os1 (mfq_storePath self)
          then os1\<lparr>os_files := (\<lambda>p. if under p then None else os_files os1 p),
                   os_dirs := (\<lambda>p. if under p \<or> p = mfq_storePath self then False else os_dirs os1 p)\<rparr>
          else os1))"

section \<open>Flushing and loading\<close>

definition MapedFileQueue_commit ::
    "OS \<Rightarrow> int \<Rightarrow> MapedFileQueue \<Rightarrow> (bool \<times> MapedFileQueue \<times> OS) option" where
  "MapedFileQueue_commit os flushLeastPages self =
     do {
       p \<leftarrow> MapedFileQueue_findMapedFileByOffset self (committedWhere self) True;
       case p of
         None \<Rightarrow> Some (True, self, os)
       | Some i \<Rightarrow>
           (let mapedFile = mapedFiles self ! i;
                tmpTimeStamp = storeTimestamp mapedFile;
                (offset, mf1, os1) = MapedFile_Commit os flushLeastPages mapedFile;
                whr = fileFromOffset mf1 + offset
            in Some (whr = committedWhere self,
                     self\<lparr>mapedFiles := (mapedFiles self)[i := mf1], committedWhere := whr,
                          mfq_storeTimestamp := (if flushLeastPages = 0 then tmpTimeStamp
                                                 else mfq_storeTimestamp self)\<rparr>, os1)) }"

text \<open>
  One pass over the sorted paths. A path whose \<open>Stat\<close> fails yields a \<open>nil\<close> \<open>FileInfo\<close> whose
  \<open>Size()\<close> panics.
\<close>

fun load_files :: "OS \<Rightarrow> string list \<Rightarrow> MapedFileQueue \<Rightarrow> (bool \<times> MapedFileQueue \<times> OS) option" where
  "load_files os [] self = Some (True, self, os)"
| "load_files os (path # paths) self =
     (case (if os_fails os (OsStat path) then None else os_files os path) of
        None \<Rightarrow> None
      | Some content \<Rightarrow>
          if int (length content) \<noteq> mfq_mapedFileSize self then Some (True, self, os)
          else (case NewMapedFile os path (mfq_mapedFileSize self) of
                  (Inl e, os1) \<Rightarrow> Some (False, self, os1)
                | (Inr mf, os1) \<Rightarrow>
                    (let sz = mfq_mapedFileSize self;
                         mf1 = mf\<lparr>wrotePostion := sz, committedPosition := sz,
                                  mappedByteBuffer := (mappedByteBuffer mf)\<lparr>WritePos := sz\<rparr>\<rparr>
                     in load_files os1 paths (self\<lparr>mapedFiles := mapedFiles self @ [mf1]\<rparr>))))"

text \<open>\<open>files\<close> is what \<open>fileutil.ListFilesOrDir\<close> returns for the directory.\<close>

definition MapedFileQueue_load ::
    "OS \<Rightarrow> error + string list \<Rightarrow> MapedFileQueue \<Rightarrow> (bool \<times> MapedFileQueue \<times> OS) option" where
  "MapedFileQueue_load os files self =
     (case PathExists os (mfq_storePath self) of
        Inl e \<Rightarrow> Some (False, self, os)
      | Inr exist \<Rightarrow>
          if exist
          then (case files of
                  Inl e \<Rightarrow> Some (False, self, os)
                | Inr fs \<Rightarrow> load_files os (sort fs) self)
          else Some (True, self, os))"

section \<open>Well-formed queues\<close>

text \<open>
  The invariant of a queue in use: every file is well formed, has the queue's file size, is named
  after its offset, and starts where the previous one ends; every file but the last is full.
\<close>

definition mfq_base :: "MapedFileQueue \<Rightarrow> int" where
  "mfq_base q = (if mapedFiles q = [] then 0 else fileFromOffset (hd (mapedFiles q)))"

definition mfq_bytes :: "MapedFileQueue \<Rightarrow> byte list" where
  "mfq_bytes q = concat (map mf_content (mapedFiles q))"

definition file_at :: "string \<Rightarrow> int \<Rightarrow> int \<Rightarrow> MapedFile \<Rightarrow> bool" where
  "file_at dir sz offset mf \<longleftrightarrow> mf_inv mf \<and> fileSize mf = sz \<and> fileFromOffset mf = offset \<and>
     fileName mf = mfq_path dir offset"

fun files_from :: "string \<Rightarrow> int \<Rightarrow> int \<Rightarrow> MapedFile list \<Rightarrow> bool" where
  "files_from dir sz offset [] = True"
| "files_from dir sz offset (mf # mfs) \<longleftrightarrow> file_at dir sz offset mf \<and>
     (mfs \<noteq> [] \<longrightarrow> MapedFile_isFull mf) \<and> files_from dir sz (offset + sz) mfs"

definition mfq_inv :: "MapedFileQueue \<Rightarrow> bool" where
  "mfq_inv q \<longleftrightarrow> 0 < mfq_mapedFileSize q \<and>
     files_from (mfq_storePath q) (mfq_mapedFileSize q) (mfq_base q) (mapedFiles q) \<and>
     0 \<le> mfq_base q \<and> mfq_mapedFileSize q dvd mfq_base q \<and>
     mfq_base q + int (length (mapedFiles q)) * mfq_mapedFileSize q < 2 ^ 63"

lemma files_from_append:
  "files_from dir sz a (xs @ ys) \<longleftrightarrow>
     files_from dir sz a xs \<and> (xs \<noteq> [] \<and> ys \<noteq> [] \<longrightarrow> MapedFile_isFull (last xs)) \<and>
     files_from dir sz (a + int (length xs) * sz) ys"
  by (induction xs arbitrary: a) (auto simp: algebra_simps)

lemma files_from_nth:
  "files_from dir sz a mfs \<Longrightarrow> i < length mfs \<Longrightarrow> file_at dir sz (a + int i * sz) (mfs ! i)"
proof (induction mfs arbitrary: a i)
  case (Cons mf mfs)
  show ?case
  proof (cases i)
    case (Suc j)
    with Cons have "file_at dir sz ((a + sz) + int j * sz) (mfs ! j)" by auto
    with Suc show ?thesis by (simp add: algebra_simps)
  qed (use Cons in auto)
qed simp

lemma files_from_last:
  "files_from dir sz a mfs \<Longrightarrow> mfs \<noteq> [] \<Longrightarrow>
     file_at dir sz (a + int (length mfs - 1) * sz) (last mfs)"
  using files_from_nth [of dir sz a mfs "length mfs - 1"] by (simp add: last_conv_nth)

lemma files_from_full:
  "files_from dir sz a mfs \<Longrightarrow> i < length mfs - 1 \<Longrightarrow> MapedFile_isFull (mfs ! i)"
proof (induction mfs arbitrary: a i)
  case (Cons mf mfs)
  then show ?case by (cases i) (auto simp: less_diff_conv)
qed simp

lemma mfq_base_append: "mapedFiles q \<noteq> [] \<Longrightarrow> mfq_base (q\<lparr>mapedFiles := mapedFiles q @ ys\<rparr>) = mfq_base q"
  by (simp add: mfq_base_def)

lemma full_content: "mf_inv mf \<Longrightarrow> MapedFile_isFull mf \<Longrightarrow> int (length (mf_content mf)) = fileSize mf"
  by (simp add: length_mf_content MapedFile_isFull_def)

lemma length_files_content:
  "files_from dir sz a mfs \<Longrightarrow> mfs \<noteq> [] \<Longrightarrow>
     a + int (length (concat (map mf_content mfs))) = fileFromOffset (last mfs) + wrotePostion (last mfs)"
proof (induction mfs arbitrary: a)
  case (Cons mf mfs)
  show ?case
  proof (cases "mfs = []")
    case True
    with Cons.prems show ?thesis by (simp add: file_at_def length_mf_content)
  next
    case False
    with Cons.prems have "int (length (mf_content mf)) = sz" by (simp add: file_at_def full_content)
    with Cons False show ?thesis by force
  qed
qed simp

lemma getMaxOffset_bytes:
  "mfq_inv q \<Longrightarrow> MapedFileQueue_getMaxOffset q = mfq_base q + int (length (mfq_bytes q))"
  using length_files_content [of "mfq_storePath q" "mfq_mapedFileSize q" "mfq_base q" "mapedFiles q"]
  by (auto simp: MapedFileQueue_getMaxOffset_def mfq_inv_def mfq_bytes_def mfq_base_def Let_def)

section \<open>Finding the file of an offset\<close>

lemma findMapedFileByOffset_in:
  assumes "mfq_inv q" and "mfq_base q \<le> offset"
    and "offset < mfq_base q + int (length (mapedFiles q)) * mfq_mapedFileSize q"
  shows "MapedFileQueue_findMapedFileByOffset q offset b =
      Some (Some (nat ((offset - mfq_base q) div mfq_mapedFileSize q)))"
    and "nat ((offset - mfq_base q) div mfq_mapedFileSize q) < length (mapedFiles q)"
proof -
  let ?sz = "mfq_mapedFileSize q" and ?k = "(offset - mfq_base q) div mfq_mapedFileSize q"
  have sz: "0 < ?sz" and base: "0 \<le> mfq_base q" and dvd: "?sz dvd mfq_base q"
    using assms(1) by (auto simp: mfq_inv_def)
  have ne: "mapedFiles q \<noteq> []" using assms(2,3) by auto
  have k0: "0 \<le> ?k" using sz assms(2) by (simp add: pos_imp_zdiv_nonneg_iff)
  have k1: "?k < int (length (mapedFiles q))"
    using assms(3) sz by (simp add: div_less_iff algebra_simps)
  show "nat ?k < length (mapedFiles q)" using k0 k1 by linarith
  have "offset sdiv ?sz - mfq_base q sdiv ?sz = ?k"
    using div_diff_dvd [OF dvd sz, of offset] base assms(2) sz by (simp add: sdiv_nonneg)
  with k0 k1 ne sz show "MapedFileQueue_findMapedFileByOffset q offset b = Some (Some (nat ?k))"
    by (simp add: MapedFileQueue_findMapedFileByOffset_def MapedFileQueue_getFirstMapedFile_def
        mfq_base_def hd_conv_nth)
qed

lemma findMapedFileByOffset_out:
  assumes "mfq_inv q" and "0 \<le> offset"
    and "offset < mfq_base q \<or> mfq_base q + int (length (mapedFiles q)) * mfq_mapedFileSize q \<le> offset"
  shows "MapedFileQueue_findMapedFileByOffset q offset b =
      Some (if b \<and> mapedFiles q \<noteq> [] then Some 0 else None)"
proof (cases "mapedFiles q = []")
  case False
  let ?sz = "mfq_mapedFileSize q" and ?k = "(offset - mfq_base q) div mfq_mapedFileSize q"
  have sz: "0 < ?sz" and base: "0 \<le> mfq_base q" and dvd: "?sz dvd mfq_base q"
    using assms(1) by (auto simp: mfq_inv_def)
  have "\<not> (0 \<le> ?k \<and> ?k < int (length (mapedFiles q)))"
    using assms(3) sz by (simp add: pos_imp_zdiv_nonneg_iff div_less_iff algebra_simps; linarith)
  moreover have "offset sdiv ?sz - mfq_base q sdiv ?sz = ?k"
    using div_diff_dvd [OF dvd sz, of offset] base assms(2) sz by (simp add: sdiv_nonneg)
  ultimately show ?thesis using False sz
    by (auto simp: MapedFileQueue_findMapedFileByOffset_def MapedFileQueue_getFirstMapedFile_def
        mfq_base_def hd_conv_nth Let_def)
qed (simp add: MapedFileQueue_findMapedFileByOffset_def MapedFileQueue_getFirstMapedFile_def)

section \<open>Creating files\<close>

text \<open>The state of a file just created for an offset.\<close>

definition fresh_file :: "string \<Rightarrow> int \<Rightarrow> int \<Rightarrow> MapedFile" where
  "fresh_file dir x sz = \<lparr>refCount = 1, available = True, cleanupOver = False,
     firstShutdownTimestamp = 0, TotalMapedVitualMemory = sz, TotalMapedFiles = 1,
     fileName = mfq_path dir x, fileFromOffset = x, fileSize = sz,
     mappedByteBuffer = NewMappedByteBuffer (replicate (nat sz) 0) sz,
     wrotePostion = 0, committedPosition = 0, storeTimestamp = 0, firstCreateInQueue = False\<rparr>"

lemma Base_mfq_path: "0 \<le> x \<Longrightarrow> in_int 64 x \<Longrightarrow> filepath_Base (mfq_path dir x) = Offset2FileName x"
  unfolding mfq_path_def
  using length_Offset2FileName [of x] by (intro filepath_Base_append) (auto simp: slash_not_in_name)

lemma mfq_path_inject:
  assumes "0 \<le> x" "in_int 64 x" "0 \<le> y" "in_int 64 y" "mfq_path dir x = mfq_path dir y"
  shows "x = y"
  using assms Offset2FileName_inject [of x y] by (simp add: mfq_path_def)

text \<open>
  The conditions under which a file can be created: no call fails and the path is free.
\<close>

definition os_free :: "OS \<Rightarrow> string \<Rightarrow> bool" where
  "os_free os path \<longleftrightarrow> \<not> os_fails os (OsStat path) \<and> \<not> os_fails os (OsOpen path) \<and>
     \<not> os_fails os (OsTruncate path) \<and> \<not> os_fails os (OsMmap path) \<and>
     os_files os path = None \<and> \<not> os_dirs os path"

lemma GetParentDirectory_length: "path \<noteq> [] \<Longrightarrow> length (GetParentDirectory path) < length path"
  using length_dropWhile_le [of "\<lambda>c. c \<noteq> CHR ''/''" "rev path"]
  by (cases path) (auto simp: GetParentDirectory_def)

lemma ensureDirOK_parent:
  "path \<noteq> [] \<Longrightarrow> os_dirs (ensureDirOK os (GetParentDirectory path)) path = os_dirs os path"
  using GetParentDirectory_length [of path]
  by (auto simp: ensureDirOK_def split: sum.split bool.split)

lemma NewMapedFile_fresh:
  assumes "0 \<le> x" and "in_int 64 x" and "0 \<le> sz" and "os_free os (mfq_path dir x)"
  shows "\<exists>os1. NewMapedFile os (mfq_path dir x) sz = (Inr (fresh_file dir x sz), os1) \<and>
     os_files os1 = (os_files os)(mfq_path dir x := Some (replicate (nat sz) 0)) \<and> os_fails os1 = os_fails os"
proof -
  have "mfq_path dir x \<noteq> []" by (simp add: mfq_path_def)
  then have "os_dirs (ensureDirOK os (GetParentDirectory (mfq_path dir x))) (mfq_path dir x) =
      os_dirs os (mfq_path dir x)" by (rule ensureDirOK_parent)
  then show ?thesis
    using assms
    by (simp add: NewMapedFile_def PathExists_def os_free_def Base_mfq_path ParseInt_Offset2FileName
        fresh_file_def Let_def)
qed

lemma fresh_file_at: "0 < sz \<Longrightarrow> file_at dir sz x (fresh_file dir x sz)"
  by (simp add: file_at_def fresh_file_def mf_inv_def NewMappedByteBuffer_def)

lemma fresh_file_content: "mf_content (fresh_file dir x sz) = []"
  by (simp add: mf_content_def fresh_file_def)

lemma file_at_first [simp]:
  "file_at dir sz x (mf\<lparr>firstCreateInQueue := b\<rparr>) = file_at dir sz x mf"
  "mf_content (mf\<lparr>firstCreateInQueue := b\<rparr>) = mf_content mf"
  "MapedFile_isFull (mf\<lparr>firstCreateInQueue := b\<rparr>) = MapedFile_isFull mf"
  by (simp_all add: file_at_def mf_inv_def mf_content_def MapedFile_isFull_def)

lemma getLastMapedFile_not_full:
  assumes "mapedFiles q \<noteq> []" and "\<not> MapedFile_isFull (last (mapedFiles q))"
  shows "MapedFileQueue_getLastMapedFile os start q = Some (Inr (Some (length (mapedFiles q) - 1)), q, os)"
  using assms by (simp add: MapedFileQueue_getLastMapedFile_def MapedFileQueue_getLastMapedFile2_def Let_def)

text \<open>Where the next file goes, and a system on which it can be created.\<close>

definition next_offset :: "int \<Rightarrow> MapedFileQueue \<Rightarrow> int" where
  "next_offset start q = (if mapedFiles q = [] then start - start smod mfq_mapedFileSize q
     else fileFromOffset (last (mapedFiles q)) + mfq_mapedFileSize q)"

definition can_grow :: "OS \<Rightarrow> int \<Rightarrow> MapedFileQueue \<Rightarrow> bool" where
  "can_grow os start q \<longleftrightarrow> allocateMapedFileService q = None \<and>
     0 \<le> start \<and> next_offset start q + mfq_mapedFileSize q < 2 ^ 63 \<and>
     os_free os (mfq_path (mfq_storePath q) (next_offset start q))"

lemma next_offset_empty:
  assumes "0 \<le> start" and "0 < mfq_mapedFileSize q" and "mapedFiles q = []"
  shows "0 \<le> next_offset start q" and "mfq_mapedFileSize q dvd next_offset start q"
    and "next_offset start q \<le> start"
  using assms
  by (simp_all add: next_offset_def smod_nonneg dvd_minus_mod zmod_le_nonneg_dividend)

lemma next_offset_nonempty:
  assumes "mfq_inv q" and "mapedFiles q \<noteq> []"
  shows "next_offset start q = mfq_base q + int (length (mapedFiles q)) * mfq_mapedFileSize q"
proof -
  have "file_at (mfq_storePath q) (mfq_mapedFileSize q)
      (mfq_base q + int (length (mapedFiles q) - 1) * mfq_mapedFileSize q) (last (mapedFiles q))"
    using assms by (intro files_from_last) (auto simp: mfq_inv_def)
  then have e: "fileFromOffset (last (mapedFiles q)) =
      mfq_base q + int (length (mapedFiles q) - 1) * mfq_mapedFileSize q"
    by (simp add: file_at_def)
  have n: "int (length (mapedFiles q)) * mfq_mapedFileSize q =
      int (length (mapedFiles q) - 1) * mfq_mapedFileSize q + mfq_mapedFileSize q"
    using assms(2) by (cases "mapedFiles q") (auto simp: distrib_right)
  show ?thesis unfolding n using e assms(2) by (simp add: next_offset_def)
qed

lemma next_offset_nonneg:
  assumes "mfq_inv q" and "0 \<le> start"
  shows "0 \<le> next_offset start q"
  using assms next_offset_empty(1) [of start q] next_offset_nonempty [OF assms(1), of start]
  by (cases "mapedFiles q = []") (auto simp: mfq_inv_def)

lemma getLastMapedFile_grow:
  assumes "mfq_inv q" and "mapedFiles q \<noteq> [] \<longrightarrow> MapedFile_isFull (last (mapedFiles q))"
    and "can_grow os start q"
  shows "\<exists>os1. MapedFileQueue_getLastMapedFile os start q =
      Some (Inr (Some (length (mapedFiles q))),
            q\<lparr>mapedFiles := mapedFiles q @ [(fresh_file (mfq_storePath q) (next_offset start q)
               (mfq_mapedFileSize q))\<lparr>firstCreateInQueue := (mapedFiles q = [])\<rparr>]\<rparr>, os1) \<and>
     os_files os1 = (os_files os)(mfq_path (mfq_storePath q) (next_offset start q) :=
        Some (replicate (nat (mfq_mapedFileSize q)) 0)) \<and> os_fails os1 = os_fails os"
proof -
  let ?x = "next_offset start q"
  have sz: "0 < mfq_mapedFileSize q" using assms(1) by (simp add: mfq_inv_def)
  have x: "0 \<le> ?x" using next_offset_nonneg assms by (simp add: can_grow_def)
  then have x64: "in_int 64 ?x" using assms(3) sz by (simp add: can_grow_def in_int_def)
  obtain os1 where n: "NewMapedFile os (mfq_path (mfq_storePath q) ?x) (mfq_mapedFileSize q) =
      (Inr (fresh_file (mfq_storePath q) ?x (mfq_mapedFileSize q)), os1)"
    "os_files os1 = (os_files os)(mfq_path (mfq_storePath q) ?x := Some (replicate (nat (mfq_mapedFileSize q)) 0))"
    "os_fails os1 = os_fails os"
    using NewMapedFile_fresh [OF x x64, of "mfq_mapedFileSize q" os "mfq_storePath q"] sz assms(3)
    by (auto simp: can_grow_def)
  have s: "allocateMapedFileService q = None" using assms(3) by (simp add: can_grow_def)
  show ?thesis
    using n s assms(2) sz x
    by (cases "mapedFiles q = []")
       (auto simp: MapedFileQueue_getLastMapedFile_def Let_def next_offset_def fresh_file_def)
qed

lemma grow_inv:
  assumes "mfq_inv q" and "mapedFiles q \<noteq> [] \<longrightarrow> MapedFile_isFull (last (mapedFiles q))"
    and "can_grow os start q"
    and "q1 = q\<lparr>mapedFiles := mapedFiles q @ [(fresh_file (mfq_storePath q) (next_offset start q)
               (mfq_mapedFileSize q))\<lparr>firstCreateInQueue := b\<rparr>]\<rparr>"
  shows "mfq_inv q1" and "mfq_bytes q1 = mfq_bytes q"
    and "mfq_base q1 = (if mapedFiles q = [] then next_offset start q else mfq_base q)"
    and "MapedFileQueue_getMaxOffset q1 = next_offset start q"
proof -
  have sz: "0 < mfq_mapedFileSize q" using assms(1) by (simp add: mfq_inv_def)
  show b: "mfq_base q1 = (if mapedFiles q = [] then next_offset start q else mfq_base q)"
    by (simp add: assms(4) mfq_base_def fresh_file_def)
  show "mfq_bytes q1 = mfq_bytes q"
    by (simp add: assms(4) mfq_bytes_def fresh_file_content)
  show "MapedFileQueue_getMaxOffset q1 = next_offset start q"
    by (simp add: assms(4) MapedFileQueue_getMaxOffset_def fresh_file_def)
  show "mfq_inv q1"
  proof (cases "mapedFiles q = []")
    case True
    then show ?thesis
      using sz assms(3) b next_offset_empty [of start q]
      by (auto simp: mfq_inv_def assms(4) fresh_file_at can_grow_def)
  next
    case False
    then show ?thesis
      using sz assms b next_offset_nonempty [OF assms(1) False, of start]
      by (auto simp: mfq_inv_def files_from_append fresh_file_at can_grow_def distrib_right)
  qed
qed

section \<open>Truncation\<close>

definition truncate_file :: "int \<Rightarrow> MapedFile \<Rightarrow> MapedFile" where
  "truncate_file pos mf = mf\<lparr>wrotePostion := pos,
     mappedByteBuffer := (mappedByteBuffer mf)\<lparr>WritePos := pos\<rparr>, committedPosition := pos\<rparr>"

lemma destroy_fileName: "MapedFile_destroy os i mf = (ok, mf1, os1) \<Longrightarrow> fileName mf1 = fileName mf"
  by (auto simp: MapedFile_destroy_def MapedFile_Unmap_def mf_defs Let_def split: if_splits)

lemma truncate_files_before:
  "files_from dir sz a mfs \<Longrightarrow> a + int (length mfs) * sz \<le> offset \<Longrightarrow> 0 < sz \<Longrightarrow>
     truncate_files sz offset os (mfs @ rest) =
       (case truncate_files sz offset os rest of (xs, ns, os1) \<Rightarrow> (mfs @ xs, ns, os1))"
proof (induction mfs arbitrary: a)
  case (Cons mf mfs)
  have "0 \<le> int (length mfs) * sz" using Cons.prems(3) by simp
  moreover have "a + (sz + int (length mfs) * sz) \<le> offset" using Cons.prems(2) by (simp add: distrib_right)
  moreover have "fileFromOffset mf = a" "fileSize mf = sz" using Cons.prems(1) by (auto simp: file_at_def)
  ultimately have "\<not> offset < fileFromOffset mf + fileSize mf" by linarith
  moreover have "truncate_files sz offset os (mfs @ rest) =
       (case truncate_files sz offset os rest of (xs, ns, os1) \<Rightarrow> (mfs @ xs, ns, os1))"
    using Cons.prems by (intro Cons.IH [of "a + sz"]) (auto simp: distrib_right)
  ultimately show ?case by (simp split: prod.splits)
qed simp

lemma truncate_files_after:
  "files_from dir sz a mfs \<Longrightarrow> offset < a \<Longrightarrow> 0 < sz \<Longrightarrow>
     \<exists>ds os1. truncate_files sz offset os mfs = (ds, map fileName mfs, os1) \<and>
       map fileName ds = map fileName mfs"
proof (induction mfs arbitrary: a os)
  case (Cons mf mfs)
  obtain ok mf1 os1 where d: "MapedFile_destroy os 1000 mf = (ok, mf1, os1)"
    using prod_cases3 by blast
  from Cons.prems have "files_from dir sz (a + sz) mfs" "offset < a + sz" by auto
  with Cons.IH Cons.prems(3) obtain ds os2 where
    t: "truncate_files sz offset os1 mfs = (ds, map fileName mfs, os2)" "map fileName ds = map fileName mfs"
    by blast
  with d Cons.prems show ?case by (simp add: file_at_def destroy_fileName)
qed simp

lemma remove_named_append:
  "fileName mf = name \<Longrightarrow> name \<notin> fileName ` set pre \<Longrightarrow> remove_named name (pre @ mf # post) = pre @ post"
  by (induction pre) auto

lemma fold_remove_named:
  "set names \<inter> fileName ` set pre = {} \<Longrightarrow> map fileName ds = names \<Longrightarrow>
     fold remove_named names (pre @ ds) = pre"
proof (induction names arbitrary: ds)
  case (Cons name names)
  then obtain d ds' where "ds = d # ds'" "fileName d = name" "map fileName ds' = names" by auto
  with Cons show ?case by (simp add: remove_named_append)
qed simp

lemma files_from_names:
  assumes "files_from dir sz a (pre @ post)" and "0 < sz" and "0 \<le> a"
    and "a + int (length (pre @ post)) * sz < 2 ^ 63"
  shows "fileName ` set post \<inter> fileName ` set pre = {}"
proof -
  have "fileName ((pre @ post) ! i) \<noteq> fileName ((pre @ post) ! j)"
    if "i < j" and "j < length (pre @ post)" for i j
  proof
    let ?x = "a + int i * sz" and ?y = "a + int j * sz"
    assume "fileName ((pre @ post) ! i) = fileName ((pre @ post) ! j)"
    moreover have "file_at dir sz ?x ((pre @ post) ! i)" "file_at dir sz ?y ((pre @ post) ! j)"
      using assms(1) that by (intro files_from_nth; simp)+
    ultimately have p: "mfq_path dir ?x = mfq_path dir ?y" by (simp add: file_at_def)
    have xy: "?x < ?y" using that(1) assms(2) by simp
    have "int j * sz \<le> int (length (pre @ post)) * sz"
      using that(2) assms(2) by (intro mult_right_mono) auto
    then have "?y < 2 ^ 63" using assms(4) by linarith
    moreover have "0 \<le> ?x" using assms(2,3) by simp
    ultimately have "?x = ?y" using p xy by (intro mfq_path_inject [of ?x ?y dir]) (auto simp: in_int_def)
    with xy show False by simp
  qed
  then have "fileName x \<noteq> fileName y" if "x \<in> set pre" and "y \<in> set post" for x y
    using that by (auto simp: in_set_conv_nth)
      (metis (no_types, opaque_lifting) nth_append nth_append_length_plus add_less_cancel_left
        length_append trans_less_add1)
  then show ?thesis by fastforce
qed

lemma truncateDirtyFiles_split:
  assumes "mfq_inv q" and "mapedFiles q = pre @ mf # post" and "fileFromOffset mf \<le> offset"
    and "offset < fileFromOffset mf + fileSize mf"
  shows "\<exists>os1. MapedFileQueue_truncateDirtyFiles os offset q =
      Some (q\<lparr>mapedFiles := pre @ [truncate_file (offset - fileFromOffset mf) mf]\<rparr>, os1)"
proof -
  let ?sz = "mfq_mapedFileSize q" and ?dir = "mfq_storePath q" and ?a = "mfq_base q"
  have sz: "0 < ?sz" and f: "files_from ?dir ?sz ?a (pre @ mf # post)" and a: "0 \<le> ?a" "?sz dvd ?a"
    and max: "?a + int (length (pre @ mf # post)) * ?sz < 2 ^ 63"
    using assms(1,2) by (auto simp: mfq_inv_def)
  let ?x = "?a + int (length pre) * ?sz"
  have mf: "fileFromOffset mf = ?x" "fileSize mf = ?sz" and pre: "files_from ?dir ?sz ?a pre"
    and post: "files_from ?dir ?sz (?x + ?sz) post"
    using f by (auto simp: files_from_append file_at_def)
  have "offset mod ?sz = offset - ?x"
  proof -
    have "(offset - ?x) mod ?sz = offset - ?x" using assms(3,4) mf by simp
    moreover have "?sz dvd ?x" using a(2) by simp
    ultimately show ?thesis by (metis diff_zero dvd_imp_mod_0 mod_diff_right_eq)
  qed
  moreover have "0 \<le> ?x" using a(1) sz by simp
  ultimately have m: "offset smod ?sz = offset - ?x"
    using smod_nonneg [of offset ?sz] sz assms(3) mf(1) by linarith
  obtain ds os1 where t: "truncate_files ?sz offset os post = (ds, map fileName post, os1)"
      "map fileName ds = map fileName post"
    using truncate_files_after [OF post _ sz, of offset os] assms(4) mf by auto
  have "truncate_files ?sz offset os (pre @ mf # post) =
      (pre @ truncate_file (offset - ?x) mf # ds, map fileName post, os1)"
    using truncate_files_before [OF pre _ sz] assms(3,4) mf t m
    by (simp add: truncate_file_def Let_def)
  moreover have "fold remove_named (map fileName post) (pre @ truncate_file (offset - ?x) mf # ds) =
      pre @ [truncate_file (offset - ?x) mf]"
  proof -
    have "fileName ` set post \<inter> fileName ` set (pre @ [mf]) = {}"
      using files_from_names [of ?dir ?sz ?a "pre @ [mf]" post] f sz a(1) max by simp
    then have "set (map fileName post) \<inter> fileName ` set (pre @ [truncate_file (offset - ?x) mf]) = {}"
      by (auto simp: truncate_file_def)
    from fold_remove_named [OF this t(2)] show ?thesis by simp
  qed
  ultimately show ?thesis
    using assms(2) sz mf
    by (simp add: MapedFileQueue_truncateDirtyFiles_def MapedFileQueue_deleteExpiredFile_def)
qed


lemma truncate_file_at:
  "file_at dir sz x mf \<Longrightarrow> 0 \<le> pos \<Longrightarrow> pos \<le> sz \<Longrightarrow> file_at dir sz x (truncate_file pos mf)"
  by (simp add: file_at_def mf_inv_def truncate_file_def)

lemma truncate_file_content:
  "pos \<le> wrotePostion mf \<Longrightarrow> mf_content (truncate_file pos mf) = take (nat pos) (mf_content mf)"
  by (simp add: mf_content_def truncate_file_def min_def nat_mono)

lemma truncateDirtyFiles_noop:
  assumes "mfq_inv q" and "mfq_base q + int (length (mapedFiles q)) * mfq_mapedFileSize q \<le> offset"
  shows "MapedFileQueue_truncateDirtyFiles os offset q = Some (q, os)"
  using assms truncate_files_before [of "mfq_storePath q" "mfq_mapedFileSize q" "mfq_base q"
      "mapedFiles q" offset os "[]"]
  by (simp add: MapedFileQueue_truncateDirtyFiles_def MapedFileQueue_deleteExpiredFile_def mfq_inv_def)

lemma split_at_offset:
  assumes "mfq_inv q" and "mfq_base q \<le> offset"
    and "offset < mfq_base q + int (length (mapedFiles q)) * mfq_mapedFileSize q"
  obtains pre mf post where "mapedFiles q = pre @ mf # post" "fileFromOffset mf \<le> offset"
    "offset < fileFromOffset mf + fileSize mf" "length pre = nat ((offset - mfq_base q) div mfq_mapedFileSize q)"
proof -
  let ?sz = "mfq_mapedFileSize q" and ?d = "offset - mfq_base q"
  let ?k = "nat (?d div ?sz)"
  have k: "?k < length (mapedFiles q)" by (rule findMapedFileByOffset_in(2) [OF assms])
  have sz: "0 < ?sz" using assms(1) by (simp add: mfq_inv_def)
  have f: "file_at (mfq_storePath q) ?sz (mfq_base q + int ?k * ?sz) (mapedFiles q ! ?k)"
    using assms(1) k by (intro files_from_nth) (auto simp: mfq_inv_def)
  have ik: "int ?k = ?d div ?sz" using sz assms(2) by (simp add: pos_imp_zdiv_nonneg_iff)
  have "?d div ?sz * ?sz \<le> ?d" and "?d < ?d div ?sz * ?sz + ?sz"
    using pos_mod_bound [OF sz, of ?d] pos_mod_sign [OF sz, of ?d] div_mult_mod_eq [of ?d ?sz]
    by linarith+
  moreover have "fileFromOffset (mapedFiles q ! ?k) = mfq_base q + ?d div ?sz * ?sz"
    "fileSize (mapedFiles q ! ?k) = ?sz" using f ik by (simp_all add: file_at_def)
  ultimately have "fileFromOffset (mapedFiles q ! ?k) \<le> offset"
    "offset < fileFromOffset (mapedFiles q ! ?k) + fileSize (mapedFiles q ! ?k)"
    by linarith+
  with k that [of "take ?k (mapedFiles q)" "mapedFiles q ! ?k" "drop (Suc ?k) (mapedFiles q)"]
  show thesis using id_take_nth_drop [OF k] by auto
qed

lemma truncate_bytes:
  assumes "mfq_inv q" and "mapedFiles q = pre @ mf # post" and "fileFromOffset mf \<le> offset"
    and "offset < fileFromOffset mf + fileSize mf"
    and "q1 = q\<lparr>mapedFiles := pre @ [truncate_file (offset - fileFromOffset mf) mf]\<rparr>"
  shows "mfq_inv q1" and "mfq_base q1 = mfq_base q" and "MapedFileQueue_getMaxOffset q1 = offset"
    and "offset \<le> MapedFileQueue_getMaxOffset q \<Longrightarrow>
           mfq_bytes q1 = take (nat (offset - mfq_base q)) (mfq_bytes q)"
proof -
  let ?sz = "mfq_mapedFileSize q" and ?dir = "mfq_storePath q" and ?a = "mfq_base q"
  have sz: "0 < ?sz" and f: "files_from ?dir ?sz ?a (pre @ mf # post)"
    and max: "?a + int (length (pre @ mf # post)) * ?sz < 2 ^ 63"
    using assms(1,2) by (auto simp: mfq_inv_def)
  let ?x = "?a + int (length pre) * ?sz"
  have at: "file_at ?dir ?sz ?x mf" and pre: "files_from ?dir ?sz ?a pre"
    and full: "pre \<noteq> [] \<longrightarrow> MapedFile_isFull (last pre)" "post \<noteq> [] \<longrightarrow> MapedFile_isFull mf"
    using f by (auto simp: files_from_append)
  then have x: "fileFromOffset mf = ?x" "fileSize mf = ?sz" and mi: "mf_inv mf" by (auto simp: file_at_def)
  show b: "mfq_base q1 = mfq_base q"
    using assms(2,5) by (cases pre) (auto simp: mfq_base_def truncate_file_def)
  have "file_at ?dir ?sz ?x (truncate_file (offset - ?x) mf)"
    using at assms(3,4) x by (intro truncate_file_at) auto
  moreover have "?a + int (length pre + 1) * ?sz < 2 ^ 63"
  proof -
    have "int (length pre + 1) * ?sz \<le> int (length (pre @ mf # post)) * ?sz"
      using sz by (intro mult_right_mono) auto
    then show ?thesis using max by linarith
  qed
  ultimately show "mfq_inv q1"
    using assms(1,5) b pre full(1) x by (auto simp: mfq_inv_def files_from_append)
  show "MapedFileQueue_getMaxOffset q1 = offset"
    by (simp add: MapedFileQueue_getMaxOffset_def assms(5) truncate_file_def)
  assume le: "offset \<le> MapedFileQueue_getMaxOffset q"
  have pos: "offset - ?x \<le> wrotePostion mf"
    using le assms(2,4) x full(2)
    by (cases "post = []") (auto simp: MapedFileQueue_getMaxOffset_def MapedFile_isFull_def)
  have lp: "int (length (concat (map mf_content pre))) = int (length pre) * ?sz"
  proof (cases "pre = []")
    case False
    then have "file_at ?dir ?sz (?a + int (length pre - 1) * ?sz) (last pre)"
      using pre by (intro files_from_last)
    moreover have "int (length pre) * ?sz = int (length pre - 1) * ?sz + ?sz"
      using False by (cases pre) (auto simp: distrib_right)
    ultimately show ?thesis
      using length_files_content [OF pre False] full(1) False
      by (simp add: file_at_def MapedFile_isFull_def)
  qed simp
  have "nat (offset - ?a) = length (concat (map mf_content pre)) + nat (offset - ?x)"
    using lp assms(3) x by linarith
  moreover have "length (mf_content mf) \<ge> nat (offset - ?x)"
    using pos length_mf_content [OF mi] by linarith
  ultimately show "mfq_bytes q1 = take (nat (offset - mfq_base q)) (mfq_bytes q)"
    using assms(2,5) x pos by (simp add: mfq_bytes_def truncate_file_content)
qed


section \<open>Deletion\<close>

lemma remove_named_other:
  "fileName (last mfs) \<noteq> name \<Longrightarrow> mfs \<noteq> [] \<Longrightarrow>
     remove_named name mfs \<noteq> [] \<and> last (remove_named name mfs) = last mfs"
  by (induction mfs) auto

lemma fold_remove_named_last:
  "fileName (last mfs) \<notin> set names \<Longrightarrow> mfs \<noteq> [] \<Longrightarrow>
     fold remove_named names mfs \<noteq> [] \<and> last (fold remove_named names mfs) = last mfs"
  by (induction names arbitrary: mfs) (auto simp: remove_named_other)

lemma names_update:
  "i < length mfs \<Longrightarrow> fileName mf = fileName (mfs ! i) \<Longrightarrow> map fileName (mfs[i := mf]) = map fileName mfs"
  by (simp add: map_update list_update_same_conv)

lemma butlast_names: "fileName ` set (butlast mfs) = set (butlast (map fileName mfs))"
  by (simp add: map_butlast [symmetric])

lemma delete_by_time_frame:
  assumes "delete_by_time batch expired interval now os mfs ps dels = (mfs1, dels1, os1)"
    and "\<forall>i. Some i \<in> set ps \<longrightarrow> i < length mfs - 1"
    and "set dels \<subseteq> fileName ` set (butlast mfs)" and "mfs \<noteq> []"
  shows "length mfs1 = length mfs \<and> last mfs1 = last mfs \<and> set dels1 \<subseteq> fileName ` set (butlast mfs)"
  using assms
proof (induction batch expired interval now os mfs ps dels rule: delete_by_time.induct)
  case (2 batch expired interval now os mfs p ps dels)
  have ps: "\<forall>i. Some i \<in> set ps \<longrightarrow> i < length mfs - 1" using "2.prems"(2) by simp
  show ?case
  proof (cases "\<exists>i. p = Some i \<and> (os_now os > storeTimestamp (mfs ! i) + expired \<or> now)")
    case True
    then obtain i where p: "p = Some i" and t: "os_now os > storeTimestamp (mfs ! i) + expired \<or> now"
      by blast
    obtain ok mf os2 where d: "MapedFile_destroy os interval (mfs ! i) = (ok, mf, os2)"
      using prod_cases3 by blast
    have i: "i < length mfs - 1" using "2.prems"(2) p by simp
    then have l: "last (mfs[i := mf]) = last mfs" "mfs[i := mf] \<noteq> []"
      using "2.prems"(4) by (auto simp: last_conv_nth)
    have nm: "fileName mf = fileName (mfs ! i)" using d by (rule destroy_fileName)
    have bl: "fileName ` set (butlast (mfs[i := mf])) = fileName ` set (butlast mfs)"
      using i names_update [OF _ nm] by (simp add: butlast_names)
    have "mfs ! i \<in> set (butlast mfs)"
      using i by (metis length_butlast nth_butlast nth_mem)
    then have s: "set (dels @ [fileName mf]) \<subseteq> fileName ` set (butlast mfs)"
      using "2.prems"(3) nm by auto
    show ?thesis
    proof (cases "ok \<and> int (length (dels @ [fileName mf])) < batch")
      case True
      with "2.prems"(1) p t d have "delete_by_time batch expired interval now os2 (mfs[i := mf]) ps
          (dels @ [fileName mf]) = (mfs1, dels1, os1)" by (simp split: if_splits)
      with "2.IH"(2) [OF p t d [symmetric] _ refl refl] True ps s l bl show ?thesis by simp
    next
      case False
      with "2.prems" p t d l s show ?thesis by (cases ok) auto
    qed
  next
    case False
    with "2.prems"(1) have "delete_by_time batch expired interval now os mfs ps dels = (mfs1, dels1, os1)"
      by (cases p) auto
    with 2 False ps show ?thesis by (cases p) auto
  qed
qed simp

lemma delete_by_time_count:
  "delete_by_time batch expired interval now os mfs ps dels = (mfs1, dels1, os1) \<Longrightarrow>
     int (length dels) < batch \<Longrightarrow> int (length dels1) \<le> batch"
proof (induction batch expired interval now os mfs ps dels rule: delete_by_time.induct)
  case (2 batch expired interval now os mfs p ps dels)
  then show ?case
    by (auto simp: Let_def not_le split: if_splits bool.splits option.splits prod.splits)
qed simp

lemma butlast_copy:
  "n \<noteq> 0 \<Longrightarrow> butlast (replicate n None @ map Some [0..<n]) = replicate n None @ map Some [0..<n - 1]"
  by (cases n) (auto simp: butlast_append)

lemma names_distinct:
  assumes "mfq_inv q" and "mapedFiles q \<noteq> []"
  shows "fileName (last (mapedFiles q)) \<notin> fileName ` set (butlast (mapedFiles q))"
  using files_from_names [of "mfq_storePath q" "mfq_mapedFileSize q" "mfq_base q"
      "butlast (mapedFiles q)" "[last (mapedFiles q)]"] assms
  by (auto simp: mfq_inv_def)


section \<open>Loading\<close>

lemma decimal_val_Cons: "decimal_val (c # s) = digit_val c * 10 ^ length s + decimal_val s"
proof (induction s rule: rev_induct)
  case (snoc d s)
  have "decimal_val (c # s @ [d]) = decimal_val (c # s) * 10 + digit_val d"
    using decimal_val_snoc [of "c # s" d] by simp
  with snoc show ?case by (simp add: decimal_val_snoc algebra_simps)
qed (simp add: decimal_val_def)

lemma digit_val_bounds: "is_digit c \<Longrightarrow> 0 \<le> digit_val c \<and> digit_val c \<le> 9"
  by (auto simp: is_digit_def digit_val_def)

lemma decimal_val_bounds:
  "list_all is_digit s \<Longrightarrow> 0 \<le> decimal_val s \<and> decimal_val s < 10 ^ length s"
proof (induction s)
  case (Cons c s)
  then have "0 \<le> decimal_val s" "decimal_val s < 10 ^ length s" and c: "0 \<le> digit_val c" "digit_val c \<le> 9"
    using digit_val_bounds [of c] by auto
  moreover have "digit_val c * 10 ^ length s \<le> 9 * 10 ^ length s"
    using c by (intro mult_right_mono) auto
  moreover have "0 \<le> digit_val c * 10 ^ length s" using c by simp
  moreover have "(10 :: int) ^ length (c # s) = 9 * 10 ^ length s + 10 ^ length s" by simp
  ultimately show ?case unfolding decimal_val_Cons by linarith
qed (simp add: decimal_val_def)

lemma digit_strings_order:
  "length s = length t \<Longrightarrow> list_all is_digit s \<Longrightarrow> list_all is_digit t \<Longrightarrow>
     decimal_val s < decimal_val t \<Longrightarrow> s < t"
proof (induction s t rule: list_induct2)
  case (Cons c s d t)
  have "digit_val c \<le> digit_val d"
  proof (rule ccontr)
    assume "\<not> ?thesis"
    then have "(digit_val d + 1) * 10 ^ length s \<le> digit_val c * 10 ^ length s"
      by (intro mult_right_mono) auto
    moreover have "0 \<le> decimal_val s" "decimal_val t < 10 ^ length s"
      using decimal_val_bounds [of s] decimal_val_bounds [of t] Cons by auto
    ultimately show False using Cons.prems(3) Cons.hyps by (simp add: decimal_val_Cons distrib_right)
  qed
  moreover have "digit_val c = digit_val d \<longleftrightarrow> c = d" by (simp add: digit_val_def)
  moreover have "digit_val c < digit_val d \<Longrightarrow> c < d" by (simp add: digit_val_def less_char_def)
  moreover have "digit_val c = digit_val d \<Longrightarrow> s < t"
    using Cons by (simp add: decimal_val_Cons)
  ultimately show ?case by (auto simp: list_less_def order_le_less)
qed (simp add: decimal_val_def)

lemma Offset2FileName_digits:
  assumes "0 \<le> x" and "in_int 64 x"
  shows "list_all is_digit (Offset2FileName x)" and "decimal_val (Offset2FileName x) = x"
proof -
  have s: "Offset2FileName x = replicate (20 - length (decimal (nat x))) (CHR ''0'') @ decimal (nat x)"
    using assms by (intro Offset2FileName_padded in_int64_less)
  show "list_all is_digit (Offset2FileName x)" unfolding s by (rule list_all_replicate_digit)
  show "decimal_val (Offset2FileName x) = x"
    using assms(1) by (simp add: s decimal_val_zeros decimal_val_decimal)
qed

lemma list_less_append_left: "xs < ys \<Longrightarrow> zs @ xs < zs @ (ys :: 'a :: order list)"
  by (simp add: list_less_def lexord_append_leftI)

lemma mfq_path_mono:
  assumes "0 \<le> x" and "x < y" and "in_int 64 y"
  shows "mfq_path dir x < mfq_path dir y"
proof -
  have "in_int 64 x" using assms by (simp add: in_int_def)
  then have "Offset2FileName x < Offset2FileName y"
    using assms by (intro digit_strings_order) (auto simp: Offset2FileName_digits length_Offset2FileName)
  then show ?thesis unfolding mfq_path_def by (intro list_less_append_left)
qed

text \<open>The offsets of \<open>n\<close> consecutive files, and a disk that holds them.\<close>

definition run_offsets :: "int \<Rightarrow> int \<Rightarrow> nat \<Rightarrow> int list" where
  "run_offsets a sz n = map (\<lambda>i. a + int i * sz) [0..<n]"

lemma run_offsets_Suc: "run_offsets a sz (Suc n) = a # run_offsets (a + sz) sz n"
proof -
  have "[0..<Suc n] = 0 # map Suc [0..<n]" by (simp add: map_Suc_upt upt_conv_Cons del: upt_Suc)
  then show ?thesis by (simp add: run_offsets_def algebra_simps del: upt_Suc)
qed

definition os_holds :: "OS \<Rightarrow> string \<Rightarrow> byte list \<Rightarrow> bool" where
  "os_holds os path content \<longleftrightarrow> os_files os path = Some content \<and> \<not> os_fails os (OsStat path) \<and>
     \<not> os_fails os (OsOpen path) \<and> \<not> os_fails os (OsMmap path) \<and> \<not> os_dirs os path"

definition loaded_file :: "string \<Rightarrow> int \<Rightarrow> int \<Rightarrow> byte list \<Rightarrow> MapedFile" where
  "loaded_file dir x sz content = (fresh_file dir x sz)
     \<lparr>mappedByteBuffer := \<lparr>MMapBuf = content, ReadPos = 0, WritePos = sz, Limit = sz\<rparr>,
      wrotePostion := sz, committedPosition := sz\<rparr>"

lemma loaded_file_at:
  "0 < sz \<Longrightarrow> int (length content) = sz \<Longrightarrow> file_at dir sz x (loaded_file dir x sz content) \<and>
     MapedFile_isFull (loaded_file dir x sz content) \<and> mf_content (loaded_file dir x sz content) = content"
  by (auto simp: file_at_def loaded_file_def fresh_file_def mf_inv_def MapedFile_isFull_def mf_content_def)

lemma parent_of_path: "0 \<le> x \<Longrightarrow> in_int 64 x \<Longrightarrow> GetParentDirectory (mfq_path dir x) = dir"
proof -
  assume "0 \<le> x" and "in_int 64 x"
  then have "dropWhile (\<lambda>c. c \<noteq> CHR ''/'') (rev (Offset2FileName x) @ CHR ''/'' # rev dir) =
      dropWhile (\<lambda>c. c \<noteq> CHR ''/'') (CHR ''/'' # rev dir)"
    using slash_not_in_name by (intro dropWhile_append2) force
  then show ?thesis by (simp add: GetParentDirectory_def mfq_path_def)
qed

lemma NewMapedFile_existing:
  assumes "0 \<le> x" and "in_int 64 x" and "os_holds os (mfq_path dir x) content" and "int (length content) = sz"
  shows "\<exists>mf. NewMapedFile os (mfq_path dir x) sz = (Inr mf, ensureDirOK os dir) \<and>
     mf\<lparr>wrotePostion := sz, committedPosition := sz,
        mappedByteBuffer := (mappedByteBuffer mf)\<lparr>WritePos := sz\<rparr>\<rparr> = loaded_file dir x sz content"
proof -
  have "os_dirs (ensureDirOK os dir) (mfq_path dir x) = os_dirs os (mfq_path dir x)"
    using ensureDirOK_parent [of "mfq_path dir x" os] assms(1,2)
    by (simp add: parent_of_path) (simp add: mfq_path_def)
  then show ?thesis
    using assms
    by (simp add: NewMapedFile_def PathExists_def os_holds_def Base_mfq_path ParseInt_Offset2FileName
        parent_of_path Let_def loaded_file_def fresh_file_def NewMappedByteBuffer_def)
qed

lemma os_holds_ensureDir: "os_holds os (mfq_path dir x) c \<Longrightarrow> os_holds (ensureDirOK os dir) (mfq_path dir x) c"
  by (auto simp: os_holds_def ensureDirOK_def mfq_path_def split: sum.split bool.split)

lemma load_files_run:
  assumes "0 \<le> a" and "a + int (length cs) * sz < 2 ^ 63" and "0 < sz"
    and "\<forall>i < length cs. os_holds os (mfq_path dir (a + int i * sz)) (cs ! i) \<and> int (length (cs ! i)) = sz"
    and "mfq_storePath q = dir" and "mfq_mapedFileSize q = sz"
  shows "\<exists>os1. load_files os (map (mfq_path dir) (run_offsets a sz (length cs))) q =
     Some (True, q\<lparr>mapedFiles := mapedFiles q @ map (\<lambda>i. loaded_file dir (a + int i * sz) sz (cs ! i)) [0..<length cs]\<rparr>, os1)"
  using assms
proof (induction cs arbitrary: a os q)
  case (Cons c cs)
  have hd: "os_holds os (mfq_path dir a) c" "int (length c) = sz"
    using Cons.prems(4) [rule_format, of 0] by auto
  have len: "a + sz + int (length cs) * sz < 2 ^ 63" using Cons.prems(2) by (simp add: algebra_simps)
  moreover have "0 \<le> int (length cs) * sz" using Cons.prems(3) by simp
  ultimately have "a < 2 ^ 63" using Cons.prems(3) by linarith
  then have "in_int 64 a" using Cons.prems(1) by (simp add: in_int_def)
  with NewMapedFile_existing [OF Cons.prems(1) _ hd] obtain mf where
    n: "NewMapedFile os (mfq_path dir a) sz = (Inr mf, ensureDirOK os dir)"
      "mf\<lparr>wrotePostion := sz, committedPosition := sz,
        mappedByteBuffer := (mappedByteBuffer mf)\<lparr>WritePos := sz\<rparr>\<rparr> = loaded_file dir a sz c" by blast
  let ?q = "q\<lparr>mapedFiles := mapedFiles q @ [loaded_file dir a sz c]\<rparr>"
  have step: "load_files os (mfq_path dir a # ps) q = load_files (ensureDirOK os dir) ps ?q" for ps
    using hd n Cons.prems(6) by (simp add: os_holds_def Let_def)
  have "\<forall>i < length cs. os_holds (ensureDirOK os dir) (mfq_path dir (a + sz + int i * sz)) (cs ! i) \<and>
      int (length (cs ! i)) = sz"
  proof (intro allI impI)
    fix i assume "i < length cs"
    then show "os_holds (ensureDirOK os dir) (mfq_path dir (a + sz + int i * sz)) (cs ! i) \<and>
      int (length (cs ! i)) = sz"
      using Cons.prems(4) [rule_format, of "Suc i"] os_holds_ensureDir by (simp add: algebra_simps)
  qed
  from Cons.IH [of "a + sz" "ensureDirOK os dir" ?q, OF _ len Cons.prems(3) this] Cons.prems
  obtain os1 where "load_files (ensureDirOK os dir) (map (mfq_path dir) (run_offsets (a + sz) sz (length cs))) ?q =
     Some (True, ?q\<lparr>mapedFiles := mapedFiles ?q @ map (\<lambda>i. loaded_file dir (a + sz + int i * sz) sz (cs ! i)) [0..<length cs]\<rparr>, os1)"
    by auto
  moreover have "map (\<lambda>i. loaded_file dir (a + int i * sz) sz ((c # cs) ! i)) [0..<length (c # cs)] =
      loaded_file dir a sz c # map (\<lambda>i. loaded_file dir (a + sz + int i * sz) sz (cs ! i)) [0..<length cs]"
  proof -
    have "[0..<length (c # cs)] = 0 # map Suc [0..<length cs]"
      by (simp add: map_Suc_upt upt_conv_Cons del: upt_Suc)
    then show ?thesis by (simp add: algebra_simps del: upt_Suc)
  qed
  ultimately show ?case using step by (simp add: run_offsets_Suc del: upt_Suc)
qed (simp add: run_offsets_def)


lemma files_from_loaded:
  assumes "0 < sz" and "\<forall>c \<in> set cs. int (length c) = sz"
  shows "files_from dir sz a (map (\<lambda>i. loaded_file dir (a + int i * sz) sz (cs ! i)) [0..<length cs]) \<and>
     concat (map (\<lambda>i. mf_content (loaded_file dir (a + int i * sz) sz (cs ! i))) [0..<length cs]) = concat cs"
  using assms(2)
proof (induction cs rule: rev_induct)
  case (snoc c cs)
  have e: "map (\<lambda>i. loaded_file dir (a + int i * sz) sz ((cs @ [c]) ! i)) [0..<length cs] =
      map (\<lambda>i. loaded_file dir (a + int i * sz) sz (cs ! i)) [0..<length cs]"
    "map (\<lambda>i. mf_content (loaded_file dir (a + int i * sz) sz ((cs @ [c]) ! i))) [0..<length cs] =
      map (\<lambda>i. mf_content (loaded_file dir (a + int i * sz) sz (cs ! i))) [0..<length cs]"
    by (auto simp: nth_append)
  have "MapedFile_isFull (loaded_file dir (a + int i * sz) sz (cs ! i))" if "i < length cs" for i
    using loaded_file_at [OF assms(1), of "cs ! i"] snoc.prems that by auto
  then have "cs \<noteq> [] \<longrightarrow> MapedFile_isFull (last (map (\<lambda>i. loaded_file dir (a + int i * sz) sz (cs ! i)) [0..<length cs]))"
    by (simp add: last_map)
  with snoc loaded_file_at [OF assms(1), of c] show ?case
    by (simp add: files_from_append e)
qed simp

lemma sort_run:
  assumes "0 \<le> a" and "0 < sz" and "a + int n * sz < 2 ^ 63"
    and "distinct fs" and "set fs = mfq_path dir ` set (run_offsets a sz n)"
  shows "sort fs = map (mfq_path dir) (run_offsets a sz n)"
proof -
  have "sorted_wrt (<) (map (mfq_path dir) (run_offsets a sz n))"
    unfolding sorted_wrt_map run_offsets_def
  proof (rule sorted_wrt_mono_rel [OF _ sorted_wrt_upt])
    fix i j assume ij: "i \<in> set [0..<n]" "j \<in> set [0..<n]" "i < j"
    have "int j * sz \<le> int n * sz" using ij(2) assms(2) by (intro mult_right_mono) auto
    then have "a + int j * sz < 2 ^ 63" using assms(3) by linarith
    moreover have "a + int i * sz < a + int j * sz" using ij(3) assms(2) by simp
    moreover have "0 \<le> a + int i * sz" "0 \<le> a + int j * sz" using assms(1,2) by auto
    ultimately show "mfq_path dir (a + int i * sz) < mfq_path dir (a + int j * sz)"
      by (intro mfq_path_mono in_int_nonneg) auto
  qed
  then show ?thesis
    using assms(4,5) by (intro sorted_distinct_set_unique) (auto simp: strict_sorted_iff)
qed

section \<open>Properties\<close>

text \<open>Concrete queues of 8-byte files, used to instantiate the properties below.\<close>

definition example_queue :: "MapedFile list \<Rightarrow> MapedFileQueue" where
  "example_queue mfs = (NewMapedFileQueue ''s'' 8 None)\<lparr>mapedFiles := mfs\<rparr>"

definition example_run :: "nat \<Rightarrow> MapedFile list" where
  "example_run n = map (\<lambda>i. loaded_file ''s'' (int i * 8) 8 (replicate 8 (of_nat i))) [0..<n]"

definition example_tail :: MapedFile where
  "example_tail = (fresh_file ''s'' 0 8)\<lparr>wrotePostion := 1,
     mappedByteBuffer := \<lparr>MMapBuf = [7, 0, 0, 0, 0, 0, 0, 0], ReadPos = 0, WritePos = 1, Limit = 8\<rparr>\<rparr>"

lemma example_run_inv:
  "mfq_inv (example_queue (example_run 3))" "mfq_base (example_queue (example_run 3)) = 0"
  "length (mapedFiles (example_queue (example_run 3))) = 3"
  "mfq_mapedFileSize (example_queue (example_run 3)) = 8"
  "mapedFiles (example_queue (example_run 3)) \<noteq> []"
  by (simp_all add: mfq_inv_def mfq_base_def example_queue_def example_run_def NewMapedFileQueue_def
      eval_nat_numeral file_at_def mf_inv_def MapedFile_isFull_def loaded_file_def fresh_file_def)

text \<open>
  In a well-formed queue, the file found for an offset inside the queue is the
  one whose range holds the offset; for an offset outside it, the first file or nothing is returned,
  as the flag asks.
\<close>

lemma findMapedFileByOffset_correct:
  assumes "mfq_inv q" and "0 \<le> offset"
  shows "if mfq_base q \<le> offset \<and> offset < mfq_base q + int (length (mapedFiles q)) * mfq_mapedFileSize q
     then \<exists>i. MapedFileQueue_findMapedFileByOffset q offset b = Some (Some i) \<and> i < length (mapedFiles q) \<and>
         fileFromOffset (mapedFiles q ! i) \<le> offset \<and>
         offset < fileFromOffset (mapedFiles q ! i) + fileSize (mapedFiles q ! i)
     else MapedFileQueue_findMapedFileByOffset q offset b =
         Some (if b \<and> mapedFiles q \<noteq> [] then Some 0 else None)"
proof (cases "mfq_base q \<le> offset \<and> offset < mfq_base q + int (length (mapedFiles q)) * mfq_mapedFileSize q")
  case True
  then obtain pre mf post where s: "mapedFiles q = pre @ mf # post" "fileFromOffset mf \<le> offset"
    "offset < fileFromOffset mf + fileSize mf" "length pre = nat ((offset - mfq_base q) div mfq_mapedFileSize q)"
    using split_at_offset [OF assms(1)] by blast
  have "MapedFileQueue_findMapedFileByOffset q offset b = Some (Some (length pre))"
    using findMapedFileByOffset_in(1) [OF assms(1)] True s(4) by simp
  moreover have "mapedFiles q ! length pre = mf" "length pre < length (mapedFiles q)" using s(1) by auto
  ultimately show ?thesis using True s(2,3) by auto
next
  case False
  then show ?thesis using findMapedFileByOffset_out [OF assms] by (auto simp: not_le not_less)
qed

lemma findMapedFileByOffset_correct_witness:
  "\<exists>i. MapedFileQueue_findMapedFileByOffset (example_queue (example_run 3)) 13 False = Some (Some i) \<and>
     fileFromOffset (mapedFiles (example_queue (example_run 3)) ! i) \<le> 13"
  using findMapedFileByOffset_correct [OF example_run_inv(1), of 13 False] example_run_inv by auto

text \<open>
  C11 (growing a log). On a system where the next file can be created, \<open>getLastMapedFile\<close> returns the
  last file of the queue, which has room; the queue stays well formed and keeps its bytes, and a file
  is created exactly when the queue is empty or its last file is full.
\<close>

theorem getLastMapedFile_correct:
  assumes "mfq_inv q" and "can_grow os start q"
  shows "\<exists>i q1 os1. MapedFileQueue_getLastMapedFile os start q = Some (Inr (Some i), q1, os1) \<and>
     mfq_inv q1 \<and> mfq_bytes q1 = mfq_bytes q \<and> Suc i = length (mapedFiles q1) \<and>
     \<not> MapedFile_isFull (mapedFiles q1 ! i) \<and>
     (if mapedFiles q = [] \<or> MapedFile_isFull (last (mapedFiles q))
      then length (mapedFiles q1) = Suc (length (mapedFiles q)) \<and>
        fileFromOffset (mapedFiles q1 ! i) = next_offset start q else q1 = q \<and> os1 = os)"
proof (cases "mapedFiles q = [] \<or> MapedFile_isFull (last (mapedFiles q))")
  case True
  then have t: "mapedFiles q \<noteq> [] \<longrightarrow> MapedFile_isFull (last (mapedFiles q))" by blast
  have "0 < mfq_mapedFileSize q" using assms(1) by (simp add: mfq_inv_def)
  with getLastMapedFile_grow [OF assms(1) t assms(2)] grow_inv [OF assms(1) t assms(2) refl] True
  show ?thesis by (auto simp: fresh_file_def MapedFile_isFull_def)
next
  case False
  then show ?thesis
    using assms(1) getLastMapedFile_not_full [of q os start] by (auto simp: last_conv_nth)
qed

theorem getLastMapedFile_correct_witness:
  "\<exists>i q1 os1. MapedFileQueue_getLastMapedFile example_os 20 (example_queue []) = Some (Inr (Some i), q1, os1) \<and>
     mfq_inv q1 \<and> fileFromOffset (mapedFiles q1 ! i) = 16"
proof -
  have q: "mfq_inv (example_queue [])" "mapedFiles (example_queue []) = []"
    by (simp_all add: mfq_inv_def mfq_base_def example_queue_def NewMapedFileQueue_def)
  have n: "next_offset 20 (example_queue []) = 16"
    by (simp add: next_offset_def example_queue_def NewMapedFileQueue_def smod_nonneg)
  have "can_grow example_os 20 (example_queue [])"
    unfolding can_grow_def n by (simp add: example_queue_def NewMapedFileQueue_def example_os_def os_free_def)
  from getLastMapedFile_correct [OF q(1) this] show ?thesis using q(2) n by auto
qed

lemma truncate_at:
  assumes "mfq_inv q" and "mfq_base q \<le> offset" and "offset \<le> MapedFileQueue_getMaxOffset q"
    and "mapedFiles q \<noteq> []"
  shows "\<exists>q1 os1. MapedFileQueue_truncateDirtyFiles os offset q = Some (q1, os1) \<and> mfq_inv q1 \<and>
     MapedFileQueue_getMaxOffset q1 = offset \<and> mfq_base q1 = mfq_base q \<and>
     mfq_bytes q1 = take (nat (offset - mfq_base q)) (mfq_bytes q)"
proof (cases "offset < mfq_base q + int (length (mapedFiles q)) * mfq_mapedFileSize q")
  case True
  with split_at_offset [OF assms(1,2)] obtain pre mf post where s: "mapedFiles q = pre @ mf # post"
    "fileFromOffset mf \<le> offset" "offset < fileFromOffset mf + fileSize mf" by blast
  from truncateDirtyFiles_split [OF assms(1) s] truncate_bytes [OF assms(1) s refl] assms(3)
  show ?thesis by blast
next
  case False
  have f: "file_at (mfq_storePath q) (mfq_mapedFileSize q)
      (mfq_base q + int (length (mapedFiles q) - 1) * mfq_mapedFileSize q) (last (mapedFiles q))"
    using assms(1,4) by (intro files_from_last) (auto simp: mfq_inv_def)
  have "int (length (mapedFiles q)) * mfq_mapedFileSize q =
      int (length (mapedFiles q) - 1) * mfq_mapedFileSize q + mfq_mapedFileSize q"
    using assms(4) by (cases "mapedFiles q") (auto simp: distrib_right)
  with f False assms(3,4) have "MapedFileQueue_getMaxOffset q = offset"
    by (auto simp: MapedFileQueue_getMaxOffset_def file_at_def mf_inv_def)
  with truncateDirtyFiles_noop [OF assms(1)] False assms(1) getMaxOffset_bytes [OF assms(1)]
  show ?thesis by auto
qed

text \<open>
  C12 (truncation). Truncating a well-formed queue at an offset it reaches leaves a well-formed queue
  that ends at this offset and holds exactly the bytes before it.
\<close>

theorem truncateDirtyFiles_correct:
  assumes "mfq_inv q" and "mfq_base q \<le> offset" and "offset \<le> MapedFileQueue_getMaxOffset q"
    and "mapedFiles q \<noteq> []"
  shows "\<exists>q1 os1. MapedFileQueue_truncateDirtyFiles os offset q = Some (q1, os1) \<and> mfq_inv q1 \<and>
     MapedFileQueue_getMaxOffset q1 = offset \<and> mfq_base q1 = mfq_base q \<and>
     mfq_bytes q1 = take (nat (offset - mfq_base q)) (mfq_bytes q)"
  using assms by (rule truncate_at)

theorem truncateDirtyFiles_correct_witness:
  "\<exists>q1 os1. MapedFileQueue_truncateDirtyFiles example_os 10 (example_queue (example_run 3)) = Some (q1, os1) \<and>
     MapedFileQueue_getMaxOffset q1 = 10"
proof -
  have "MapedFileQueue_getMaxOffset (example_queue (example_run 3)) = 24"
    by (simp add: MapedFileQueue_getMaxOffset_def example_queue_def example_run_def loaded_file_def
        fresh_file_def eval_nat_numeral)
  with truncateDirtyFiles_correct [OF example_run_inv(1), of 10 example_os] example_run_inv(2,5)
  show ?thesis by auto
qed


text \<open>
  The file being written is never deleted. Deleting expired files by time keeps the last file of
  a well-formed queue as the last one, unchanged, and deletes at most \<open>DeleteFilesBatchMax\<close> files.
\<close>

lemma deleteExpiredFileByTime_keeps_last:
  assumes "mfq_inv q" and "mapedFiles q \<noteq> []" and "0 < DeleteFilesBatchMax q"
    and "MapedFileQueue_deleteExpiredFileByTime os expired pause interval now q = (n, q1, os1)"
  shows "mapedFiles q1 \<noteq> [] \<and> last (mapedFiles q1) = last (mapedFiles q) \<and> n \<le> DeleteFilesBatchMax q"
proof -
  let ?n = "length (mapedFiles q)"
  have b: "butlast (replicate ?n None @ map Some [0..<?n]) = replicate ?n None @ map Some [0..<?n - 1]"
    using assms(2) by (intro butlast_copy) simp
  obtain mfs dels os2 where d: "delete_by_time (DeleteFilesBatchMax q) expired interval now os (mapedFiles q)
      (replicate ?n None @ map Some [0..<?n - 1]) [] = (mfs, dels, os2)"
    using prod_cases3 by blast
  have q1: "n = int (length dels)" "mapedFiles q1 = fold remove_named dels mfs"
    using assms(2,4) d b
    by (auto simp: MapedFileQueue_deleteExpiredFileByTime_def MapedFileQueue_copyMapedFiles_def Let_def
        MapedFileQueue_deleteExpiredFile_def)
  have "\<forall>i. Some i \<in> set (replicate ?n None @ map Some [0..<?n - 1]) \<longrightarrow> i < ?n - 1" by auto
  from delete_by_time_frame [OF d this] assms(2)
  have f: "length mfs = ?n" "last mfs = last (mapedFiles q)" "set dels \<subseteq> fileName ` set (butlast (mapedFiles q))"
    by auto
  have "mfs \<noteq> []" using f(1) assms(2) by auto
  moreover have "fileName (last mfs) \<notin> set dels" using names_distinct [OF assms(1,2)] f by auto
  ultimately show ?thesis
    using fold_remove_named_last [of mfs dels] q1 f(2) delete_by_time_count [OF d] assms(3) by simp
qed

lemma deleteExpiredFileByTime_keeps_last_witness:
  "\<exists>n q1 os1. MapedFileQueue_deleteExpiredFileByTime example_os 0 0 0 True (example_queue (example_run 3)) = (n, q1, os1) \<and>
     last (mapedFiles q1) = last (example_run 3) \<and> n \<le> 10"
proof -
  obtain n q1 os1 where d: "MapedFileQueue_deleteExpiredFileByTime example_os 0 0 0 True
      (example_queue (example_run 3)) = (n, q1, os1)"
    using prod_cases3 by blast
  have "DeleteFilesBatchMax (example_queue (example_run 3)) = 10"
    "mapedFiles (example_queue (example_run 3)) = example_run 3"
    by (simp_all add: example_queue_def NewMapedFileQueue_def)
  with deleteExpiredFileByTime_keeps_last [OF example_run_inv(1,5) _ d] d show ?thesis by simp
qed

text \<open>
  Deletion is not confined to the head. A later file is deleted although an earlier one is still
  live, when only its store timestamp has expired; the lookup of an offset then returns a file that
  does not hold it.
\<close>

lemma deleteExpiredFileByTime_leaves_gap:
  "\<exists>q q1 os1. mfq_inv q \<and>
     MapedFileQueue_deleteExpiredFileByTime (example_os\<lparr>os_files := \<lambda>_. Some [], os_now := 50\<rparr>) 10 0 0 False q = (1, q1, os1) \<and>
     map fileFromOffset (mapedFiles q) = [0, 8, 16] \<and> map fileFromOffset (mapedFiles q1) = [0, 16] \<and>
     MapedFileQueue_findMapedFileByOffset q1 8 False = Some (Some 1)"
proof -
  let ?q = "example_queue ((example_run 3)[0 := (example_run 3 ! 0)\<lparr>storeTimestamp := 100\<rparr>])"
  have "mfq_inv ?q"
    by (simp add: mfq_inv_def mfq_base_def example_queue_def example_run_def NewMapedFileQueue_def
      eval_nat_numeral file_at_def mf_inv_def MapedFile_isFull_def loaded_file_def fresh_file_def)
  moreover have "mfq_path ''s'' 0 \<noteq> mfq_path ''s'' 8"
    using mfq_path_inject [of 0 8] by (auto simp: in_int_def)
  then have "\<exists>q1 os1. MapedFileQueue_deleteExpiredFileByTime (example_os\<lparr>os_files := \<lambda>_. Some [], os_now := 50\<rparr>) 10 0 0 False ?q = (1, q1, os1) \<and>
     map fileFromOffset (mapedFiles q1) = [0, 16] \<and>
     MapedFileQueue_findMapedFileByOffset q1 8 False = Some (Some 1)"
    by (simp add: MapedFileQueue_deleteExpiredFileByTime_def MapedFileQueue_copyMapedFiles_def
        example_queue_def example_run_def NewMapedFileQueue_def eval_nat_numeral loaded_file_def
        fresh_file_def example_os_def MapedFile_destroy_def MapedFile_Unmap_def mf_defs
        MapedFileQueue_deleteExpiredFile_def MapedFileQueue_findMapedFileByOffset_def
        MapedFileQueue_getFirstMapedFile_def sdiv_nonneg)
  moreover have "map fileFromOffset (mapedFiles ?q) = [0, 8, 16]"
    by (simp add: example_queue_def example_run_def NewMapedFileQueue_def eval_nat_numeral
        loaded_file_def fresh_file_def)
  ultimately show ?thesis by (elim exE conjE, intro exI conjI) assumption+
qed

text \<open>\<open>getMinOffset\<close> panics on every queue that has a file.\<close>

lemma getMinOffset_panics:
  "MapedFileQueue_getMinOffset q = None \<longleftrightarrow> mapedFiles q \<noteq> []"
  by (simp add: MapedFileQueue_getMinOffset_def)



section \<open>Flushing and loading a queue\<close>

lemma files_from_update:
  assumes "files_from dir sz a mfs" and "i < length mfs" and "file_at dir sz (a + int i * sz) mf"
    and "MapedFile_isFull mf = MapedFile_isFull (mfs ! i)"
  shows "files_from dir sz a (mfs[i := mf])"
  using assms
proof (induction mfs arbitrary: a i)
  case (Cons m mfs)
  show ?case
  proof (cases i)
    case (Suc j)
    have "a + int i * sz = (a + sz) + int j * sz" using Suc by (simp add: algebra_simps)
    with Cons.prems Suc have "files_from dir sz (a + sz) (mfs[j := mf])"
      by (intro Cons.IH) (simp_all add: algebra_simps)
    with Cons.prems Suc show ?thesis by auto
  qed (use Cons in auto)
qed simp

lemma update_file_inv:
  assumes "mfq_inv q" and "i < length (mapedFiles q)"
    and "mf_inv mf" and "fileSize mf = fileSize (mapedFiles q ! i)"
    and "fileFromOffset mf = fileFromOffset (mapedFiles q ! i)" and "fileName mf = fileName (mapedFiles q ! i)"
    and "wrotePostion mf = wrotePostion (mapedFiles q ! i)"
    and "mf_content mf = mf_content (mapedFiles q ! i)"
    and "q1 = q\<lparr>mapedFiles := (mapedFiles q)[i := mf]\<rparr>"
  shows "mfq_inv q1" and "mfq_bytes q1 = mfq_bytes q" and "mfq_base q1 = mfq_base q"
proof -
  show b: "mfq_base q1 = mfq_base q"
    using assms(2,5,9) by (cases i; cases "mapedFiles q") (auto simp: mfq_base_def)
  have "file_at (mfq_storePath q) (mfq_mapedFileSize q) (mfq_base q + int i * mfq_mapedFileSize q) (mapedFiles q ! i)"
    using assms(1,2) by (intro files_from_nth) (auto simp: mfq_inv_def)
  then have "file_at (mfq_storePath q) (mfq_mapedFileSize q) (mfq_base q + int i * mfq_mapedFileSize q) mf"
    using assms(3-6) by (simp add: file_at_def)
  moreover have "MapedFile_isFull mf = MapedFile_isFull (mapedFiles q ! i)"
    using assms(4,7) by (simp add: MapedFile_isFull_def)
  ultimately show "mfq_inv q1"
    using assms(1,2,9) b by (auto simp: mfq_inv_def intro: files_from_update)
  have "map mf_content ((mapedFiles q)[i := mf]) = map mf_content (mapedFiles q)"
    using assms(2,8) by (intro nth_equalityI) (auto simp: nth_list_update)
  then show "mfq_bytes q1 = mfq_bytes q" using assms(9) by (simp add: mfq_bytes_def)
qed

lemma extend_last:
  assumes "mfq_inv q" and "mapedFiles q \<noteq> []" and "mf_inv mf" and "fileSize mf = fileSize (last (mapedFiles q))"
    and "fileFromOffset mf = fileFromOffset (last (mapedFiles q))" and "fileName mf = fileName (last (mapedFiles q))"
    and "mf_content mf = mf_content (last (mapedFiles q)) @ data"
    and "q1 = q\<lparr>mapedFiles := (mapedFiles q)[length (mapedFiles q) - 1 := mf]\<rparr>"
  shows "mfq_inv q1" and "mfq_bytes q1 = mfq_bytes q @ data" and "mfq_base q1 = mfq_base q"
    and "last (mapedFiles q1) = mf" and "length (mapedFiles q1) = length (mapedFiles q)"
proof -
  obtain pre l where l: "mapedFiles q = pre @ [l]" using assms(2) by (metis append_butlast_last_id)
  have q1: "mapedFiles q1 = pre @ [mf]" using l assms(8) by simp
  show b: "mfq_base q1 = mfq_base q"
    using l q1 assms(5) by (cases pre) (auto simp: mfq_base_def)
  show "mfq_inv q1" using assms(1,3-6,8) l q1 b by (auto simp: mfq_inv_def files_from_append file_at_def)
  show "mfq_bytes q1 = mfq_bytes q @ data" using l q1 assms(7) by (simp add: mfq_bytes_def)
  show "last (mapedFiles q1) = mf" "length (mapedFiles q1) = length (mapedFiles q)" using l q1 by simp_all
qed

lemma commit_found:
  assumes "mfq_inv q" and "MapedFileQueue_findMapedFileByOffset q (committedWhere q) True = Some (Some i)"
    and "i < length (mapedFiles q)" and "MapedFile_Commit os pages (mapedFiles q ! i) = (p, mf, os1)"
  shows "\<exists>q1. MapedFileQueue_commit os pages q =
      Some (fileFromOffset (mapedFiles q ! i) + p = committedWhere q, q1, os1) \<and>
    mfq_inv q1 \<and> mfq_bytes q1 = mfq_bytes q \<and> committedWhere q1 = fileFromOffset (mapedFiles q ! i) + p"
proof -
  have "file_at (mfq_storePath q) (mfq_mapedFileSize q) (mfq_base q + int i * mfq_mapedFileSize q) (mapedFiles q ! i)"
    using assms(1,3) by (intro files_from_nth) (auto simp: mfq_inv_def)
  then have inv: "mf_inv (mapedFiles q ! i)" by (simp add: file_at_def)
  note c = Commit_inv [OF inv assms(4)]
  have nm: "fileName mf = fileName (mapedFiles q ! i)" "fileSize mf = fileSize (mapedFiles q ! i)"
    using assms(4) inv
    by (cases "MapedFile_isAbleToFlush (mapedFiles q ! i) pages"; auto simp: Commit_able Commit_not_able)+
  let ?q = "q\<lparr>mapedFiles := (mapedFiles q)[i := mf]\<rparr>"
  have "mfq_inv ?q" "mfq_bytes ?q = mfq_bytes q"
    using update_file_inv [OF assms(1,3) c(1) nm(2) c(6) nm(1) c(7) c(5) refl] by auto
  then show ?thesis
    using assms(2,4) c(6) by (auto simp: MapedFileQueue_commit_def Let_def mfq_inv_def mfq_bytes_def mfq_base_def)
qed


definition flushed :: "MapedFile \<Rightarrow> MapedFile" where
  "flushed mf = mf\<lparr>committedPosition := wrotePostion mf\<rparr>"





text \<open>Flushing changes neither the place of a file nor what was written to it.\<close>

lemma flushed_simps [simp]:
  "fileFromOffset (flushed mf) = fileFromOffset mf" "wrotePostion (flushed mf) = wrotePostion mf"
  "committedPosition (flushed mf) = wrotePostion mf" "MapedFile_isFull (flushed mf) = MapedFile_isFull mf"
  by (simp_all add: flushed_def MapedFile_isFull_def)








text \<open>
  Flush position at the end of a full log. When everything is flushed and the last file is full,
  the flush position lies in no file; the next commit falls back to the first file and moves the
  position back to the end of that file.
\<close>

lemma commit_goes_back:
  assumes "mfq_inv q" and "2 \<le> length (mapedFiles q)" and "MapedFile_isFull (last (mapedFiles q))"
    and "committedWhere q = MapedFileQueue_getMaxOffset q"
  shows "\<exists>b q1 os1. MapedFileQueue_commit os pages q = Some (b, q1, os1) \<and>
     committedWhere q1 = mfq_base q + mfq_mapedFileSize q \<and> committedWhere q1 < committedWhere q"
proof -
  let ?sz = "mfq_mapedFileSize q" and ?n = "length (mapedFiles q)" and ?mf = "mapedFiles q ! 0"
  have ne: "mapedFiles q \<noteq> []" and sz: "0 < ?sz" using assms(1,2) by (auto simp: mfq_inv_def)
  have "file_at (mfq_storePath q) ?sz (mfq_base q + int (?n - 1) * ?sz) (last (mapedFiles q))"
    using assms(1) ne by (intro files_from_last) (auto simp: mfq_inv_def)
  moreover have "int ?n * ?sz = int (?n - 1) * ?sz + ?sz"
    using ne by (cases "mapedFiles q") (auto simp: distrib_right)
  ultimately have w: "committedWhere q = mfq_base q + int ?n * ?sz"
    using assms(3,4) ne by (auto simp: MapedFileQueue_getMaxOffset_def file_at_def MapedFile_isFull_def Let_def)
  have "0 \<le> mfq_base q" using assms(1) by (simp add: mfq_inv_def)
  then have f: "MapedFileQueue_findMapedFileByOffset q (committedWhere q) True = Some (Some 0)"
    using findMapedFileByOffset_out [OF assms(1), of "committedWhere q" True] w sz ne by simp
  have n0: "0 < ?n" using ne by simp
  have at: "file_at (mfq_storePath q) ?sz (mfq_base q + int 0 * ?sz) ?mf"
    using assms(1) n0 by (intro files_from_nth) (auto simp: mfq_inv_def)
  have full: "MapedFile_isFull ?mf"
    using assms(1,2) by (intro files_from_full [of "mfq_storePath q" ?sz "mfq_base q"]) (auto simp: mfq_inv_def)
  obtain p mf1 os1 where c: "MapedFile_Commit os pages ?mf = (p, mf1, os1)" using prod_cases3 by blast
  have "p = ?sz" using c Commit_able [of ?mf pages os] at full
    by (simp add: file_at_def MapedFile_isAbleToFlush_def MapedFile_isFull_def)
  moreover have "2 * ?sz \<le> int ?n * ?sz" using assms(2) sz by (intro mult_right_mono) auto
  ultimately show ?thesis
    using commit_found [OF assms(1) f n0 c] at w sz by (auto simp: file_at_def)
qed

lemma commit_goes_back_witness:
  "\<exists>b q1 os1. MapedFileQueue_commit example_os 0 ((example_queue (example_run 3))\<lparr>committedWhere := 24\<rparr>) =
     Some (b, q1, os1) \<and> committedWhere q1 = 8"
proof -
  let ?q = "(example_queue (example_run 3))\<lparr>committedWhere := 24\<rparr>"
  have q: "mapedFiles ?q = example_run 3" "mfq_mapedFileSize ?q = 8" "mfq_base ?q = 0"
    "MapedFileQueue_getMaxOffset ?q = 24" "MapedFile_isFull (last (example_run 3))"
    by (simp_all add: example_queue_def example_run_def NewMapedFileQueue_def mfq_base_def
        MapedFileQueue_getMaxOffset_def loaded_file_def fresh_file_def MapedFile_isFull_def eval_nat_numeral)
  have "mfq_inv ?q" using example_run_inv(1,5) by (simp add: mfq_inv_def mfq_base_def)
  moreover have "length (example_run 3) = 3" by (simp add: example_run_def)
  ultimately show ?thesis using commit_goes_back [of ?q example_os 0] q by auto
qed

text \<open>
  When the directory holds exactly the files of a contiguous run, loading it in
  whatever order the directory lists them yields a well-formed queue that starts at the first offset
  and holds the files' contents in offset order.
\<close>

lemma load_restores:
  assumes "0 \<le> a" and "sz dvd a" and "0 < sz" and "a + int (length cs) * sz < 2 ^ 63" and "cs \<noteq> []"
    and "\<forall>i < length cs. os_holds os (mfq_path dir (a + int i * sz)) (cs ! i) \<and> int (length (cs ! i)) = sz"
    and "distinct fs" and "set fs = mfq_path dir ` set (run_offsets a sz (length cs))"
    and "os_dirs os dir" and "\<not> os_fails os (OsStat dir)"
  shows "\<exists>q os1. MapedFileQueue_load os (Inr fs) (NewMapedFileQueue dir sz None) = Some (True, q, os1) \<and>
     mfq_inv q \<and> mfq_base q = a \<and> mfq_bytes q = concat cs"
proof -
  let ?q = "NewMapedFileQueue dir sz None"
  let ?fs = "map (\<lambda>i. loaded_file dir (a + int i * sz) sz (cs ! i)) [0..<length cs]"
  obtain os1 where l: "load_files os (map (mfq_path dir) (run_offsets a sz (length cs))) ?q =
      Some (True, ?q\<lparr>mapedFiles := mapedFiles ?q @ ?fs\<rparr>, os1)"
    using load_files_run [OF assms(1,4,3,6), of ?q] by (auto simp: NewMapedFileQueue_def)
  have s: "sort fs = map (mfq_path dir) (run_offsets a sz (length cs))"
    by (rule sort_run [OF assms(1,3,4,7,8)])
  let ?q1 = "?q\<lparr>mapedFiles := ?fs\<rparr>"
  have "MapedFileQueue_load os (Inr fs) ?q = Some (True, ?q1, os1)"
    using l s assms(9,10)
    by (simp add: MapedFileQueue_load_def PathExists_def NewMapedFileQueue_def)
  moreover have "\<forall>c \<in> set cs. int (length c) = sz" using assms(6) by (auto simp: in_set_conv_nth)
  note f = files_from_loaded [OF assms(3) this, of dir a]
  have b: "mfq_base ?q1 = a"
    using assms(5) by (simp add: mfq_base_def hd_map loaded_file_def fresh_file_def)
  have "mfq_inv ?q1" using f b assms(1-4) by (simp add: mfq_inv_def NewMapedFileQueue_def)
  moreover have "mfq_bytes ?q1 = concat cs" using f by (simp add: mfq_bytes_def comp_def)
  ultimately show ?thesis using b by blast
qed

lemma load_restores_witness:
  "let os = example_os\<lparr>os_files := (\<lambda>p. if p = mfq_path ''s'' 0 then Some [1, 2] else Some [3, 4]),
                       os_dirs := (\<lambda>p. p = ''s'')\<rparr>
   in \<exists>q os1. MapedFileQueue_load os (Inr [mfq_path ''s'' 2, mfq_path ''s'' 0]) (NewMapedFileQueue ''s'' 2 None) =
        Some (True, q, os1) \<and> mfq_bytes q = [1, 2, 3, 4]"
proof -
  let ?os = "example_os\<lparr>os_files := (\<lambda>p. if p = mfq_path ''s'' 0 then Some [1, 2] else Some [3, 4]),
                       os_dirs := (\<lambda>p. p = ''s'')\<rparr>"
  let ?cs = "[[1, 2], [3, 4]] :: byte list list"
  have p: "mfq_path ''s'' 0 \<noteq> mfq_path ''s'' 2" using mfq_path_inject [of 0 2] by (auto simp: in_int_def)
  have "\<forall>i < length ?cs. os_holds ?os (mfq_path ''s'' (0 + int i * 2)) (?cs ! i) \<and> int (length (?cs ! i)) = 2"
    using p by (auto simp: less_Suc_eq os_holds_def example_os_def) (auto simp: mfq_path_def)
  from load_restores [of 0 2 ?cs ?os "''s''" "[mfq_path ''s'' 2, mfq_path ''s'' 0]", OF _ _ _ _ _ this]
  show ?thesis using p by (auto simp: run_offsets_def example_os_def insert_commute eval_nat_numeral)
qed

section \<open>Regions of a queue\<close>

text \<open>
  The file that holds the bytes at an offset, and where they are in it.
\<close>

lemma file_slice:
  assumes "files_from dir sz a mfs" and "i < length mfs" and "pos + n \<le> length (mf_content (mfs ! i))" and "0 < sz"
  shows "take n (drop (i * nat sz + pos) (concat (map mf_content mfs))) = take n (drop pos (mf_content (mfs ! i)))"
  using assms
proof (induction mfs arbitrary: a i)
  case (Cons m mfs)
  show ?case
  proof (cases i)
    case (Suc j)
    then have "mfs \<noteq> []" using Cons.prems(2) by auto
    then have "length (mf_content m) = nat sz"
      using Cons.prems(1) full_content [of m] by (auto simp: file_at_def)
    then have "drop (i * nat sz + pos) (concat (map mf_content (m # mfs))) = drop (j * nat sz + pos) (concat (map mf_content mfs))"
      by (simp add: Suc)
    with Cons Suc show ?thesis by auto
  qed (use Cons in simp)
qed simp

lemma region_of:
  assumes "mfq_inv q" and "mfq_base q \<le> off" and "off mod mfq_mapedFileSize q + n \<le> mfq_mapedFileSize q" and "0 < n"
    and "off + n \<le> MapedFileQueue_getMaxOffset q"
    and "i = nat ((off - mfq_base q) div mfq_mapedFileSize q)" and "p = off mod mfq_mapedFileSize q"
  shows "MapedFileQueue_findMapedFileByOffset q off b = Some (Some i)" and "i < length (mapedFiles q)"
    and "file_at (mfq_storePath q) (mfq_mapedFileSize q) (mfq_base q + int i * mfq_mapedFileSize q) (mapedFiles q ! i)"
    and "off smod mfq_mapedFileSize q = p" and "0 \<le> p" and "off = fileFromOffset (mapedFiles q ! i) + p"
    and "p + n \<le> wrotePostion (mapedFiles q ! i)"
    and "wrotePostion (mapedFiles q ! i) = mfq_mapedFileSize q \<or>
         fileFromOffset (mapedFiles q ! i) + wrotePostion (mapedFiles q ! i) = MapedFileQueue_getMaxOffset q"
    and "k \<le> nat (wrotePostion (mapedFiles q ! i) - p) \<Longrightarrow>
         take k (drop (nat p) (mf_content (mapedFiles q ! i))) = take k (drop (nat (off - mfq_base q)) (mfq_bytes q))"
proof -
  let ?S = "mfq_mapedFileSize q" and ?n = "length (mapedFiles q)"
  define d where "d = off - mfq_base q"
  have q: "0 < ?S" "?S dvd mfq_base q" "0 \<le> mfq_base q" using assms(1) by (auto simp: mfq_inv_def)
  have d0: "0 \<le> d" using assms(2) by (simp add: d_def)
  have ne: "mapedFiles q \<noteq> []" using assms(2,4,5) by (auto simp: MapedFileQueue_getMaxOffset_def mfq_base_def)
  have ff: "files_from (mfq_storePath q) ?S (mfq_base q) (mapedFiles q)" using assms(1) by (simp add: mfq_inv_def)
  have la: "file_at (mfq_storePath q) ?S (mfq_base q + int (?n - 1) * ?S) (last (mapedFiles q))"
    using assms(1) ne files_from_last by (auto simp: mfq_inv_def)
  have nS: "int ?n * ?S = int (?n - 1) * ?S + ?S" using ne by (cases "mapedFiles q") (simp_all add: distrib_right)
  have "MapedFileQueue_getMaxOffset q \<le> mfq_base q + int ?n * ?S"
    using la ne nS by (simp add: MapedFileQueue_getMaxOffset_def Let_def file_at_def mf_inv_def)
  then have "off < mfq_base q + int ?n * ?S" using assms(4,5) by linarith
  note fi = findMapedFileByOffset_in [OF assms(1,2) this, folded assms(6)]
  show "MapedFileQueue_findMapedFileByOffset q off b = Some (Some i)" and i: "i < ?n" using fi by simp_all
  have ii: "int i = d div ?S" using d0 q(1) by (simp add: assms(6) d_def pos_imp_zdiv_nonneg_iff)
  have "d mod ?S = p"
  proof -
    obtain c where "mfq_base q = ?S * c" using q(2) by (elim dvdE)
    then show ?thesis using mod_mult_self1 [of off "- c" ?S] by (simp add: d_def assms(7) mult.commute)
  qed
  then have dp: "d = int i * ?S + p" unfolding ii using div_mult_mod_eq [of d ?S] by simp
  show p0: "0 \<le> p" using q(1) by (simp add: assms(7))
  show fa: "file_at (mfq_storePath q) ?S (mfq_base q + int i * ?S) (mapedFiles q ! i)"
    using assms(1) i files_from_nth by (auto simp: mfq_inv_def)
  show "off smod ?S = p" using d0 q by (simp add: smod_nonneg assms(7) d_def)
  show fo: "off = fileFromOffset (mapedFiles q ! i) + p" using fa dp by (simp add: file_at_def d_def)
  show w: "wrotePostion (mapedFiles q ! i) = ?S \<or>
      fileFromOffset (mapedFiles q ! i) + wrotePostion (mapedFiles q ! i) = MapedFileQueue_getMaxOffset q"
  proof (cases "i < ?n - 1")
    case True
    then show ?thesis
      using files_from_full [of "mfq_storePath q" ?S "mfq_base q"] assms(1) fa by (auto simp: mfq_inv_def MapedFile_isFull_def file_at_def)
  next
    case False
    then have "i = ?n - 1" using i by linarith
    then have "mapedFiles q ! i = last (mapedFiles q)" using ne by (simp add: last_conv_nth)
    then show ?thesis using ne by (simp add: MapedFileQueue_getMaxOffset_def Let_def)
  qed
  then show "p + n \<le> wrotePostion (mapedFiles q ! i)" using fo assms(3,5,7) by linarith
  show "take k (drop (nat p) (mf_content (mapedFiles q ! i))) = take k (drop (nat (off - mfq_base q)) (mfq_bytes q))"
    if k: "k \<le> nat (wrotePostion (mapedFiles q ! i) - p)"
  proof (cases "k = 0")
    case False
    have mi: "mf_inv (mapedFiles q ! i)" using fa by (simp add: file_at_def)
    have "nat p + k \<le> length (mf_content (mapedFiles q ! i))" using k False length_mf_content [OF mi] p0 by linarith
    moreover have "nat d = i * nat ?S + nat p"
      using dp p0 q(1) by (metis nat_add_distrib nat_int nat_mult_distrib of_nat_0_le_iff zero_le_mult_iff less_imp_le)
    ultimately show ?thesis using file_slice [OF ff i _ q(1)] by (simp add: mfq_bytes_def flip: d_def)
  qed simp
qed

lemma file_end_le:
  assumes "mfq_inv q" and "i < length (mapedFiles q)"
  shows "fileFromOffset (mapedFiles q ! i) + wrotePostion (mapedFiles q ! i) \<le> MapedFileQueue_getMaxOffset q"
proof (cases "i < length (mapedFiles q) - 1")
  case True
  let ?S = "mfq_mapedFileSize q" and ?n = "length (mapedFiles q)"
  have ne: "mapedFiles q \<noteq> []" using assms(2) by auto
  have fa: "file_at (mfq_storePath q) ?S (mfq_base q + int i * ?S) (mapedFiles q ! i)"
    using assms files_from_nth by (auto simp: mfq_inv_def)
  have la: "file_at (mfq_storePath q) ?S (mfq_base q + int (?n - 1) * ?S) (last (mapedFiles q))"
    using assms(1) ne files_from_last by (auto simp: mfq_inv_def)
  have "int i + 1 \<le> int (?n - 1)" using True by linarith
  then have "(int i + 1) * ?S \<le> int (?n - 1) * ?S" using assms(1) by (intro mult_right_mono) (auto simp: mfq_inv_def)
  then show ?thesis
    using fa la ne by (simp add: file_at_def mf_inv_def MapedFileQueue_getMaxOffset_def Let_def distrib_right)
next
  case False
  then have "i = length (mapedFiles q) - 1" using assms(2) by linarith
  then show ?thesis using assms(2) by (cases "mapedFiles q = []") (simp_all add: MapedFileQueue_getMaxOffset_def Let_def last_conv_nth)
qed

section \<open>Files ahead of a queue\<close>

text \<open>
  \<open>mfq_ahead os q\<close>: the queue creates its own files, and every file past its last one is still to be
  created and can be created.
\<close>

definition mfq_end :: "MapedFileQueue \<Rightarrow> int" where
  "mfq_end q = mfq_base q + int (length (mapedFiles q)) * mfq_mapedFileSize q"

definition mfq_ahead :: "OS \<Rightarrow> MapedFileQueue \<Rightarrow> bool" where
  "mfq_ahead os q \<longleftrightarrow> allocateMapedFileService q = None \<and>
     (\<forall>x. 0 \<le> x \<and> mfq_end q \<le> x \<and> x < 2 ^ 63 \<longrightarrow> os_free os (mfq_path (mfq_storePath q) x))"

lemma next_offset_end:
  assumes "mfq_inv q" and "0 \<le> start" and "0 \<le> next_offset start q"
  shows "mfq_end q \<le> next_offset start q"
  using assms next_offset_nonempty [OF assms(1), of start]
  by (cases "mapedFiles q = []") (auto simp: mfq_end_def mfq_base_def)

lemma can_grow_ahead:
  assumes "mfq_inv q" and "mfq_ahead os q" and "0 \<le> start"
    and "next_offset start q + mfq_mapedFileSize q < 2 ^ 63"
  shows "can_grow os start q"
proof -
  have sz: "0 < mfq_mapedFileSize q" using assms(1) by (simp add: mfq_inv_def)
  have n: "0 \<le> next_offset start q"
    using assms(1,3) sz next_offset_empty(1) [OF assms(3) sz] next_offset_nonempty [OF assms(1), of start]
    by (cases "mapedFiles q = []") (auto simp: mfq_inv_def)
  then show ?thesis
    using assms sz next_offset_end [OF assms(1,3)] by (auto simp: can_grow_def mfq_ahead_def)
qed

lemma NewMapedFile_dirs:
  assumes "0 \<le> x" and "in_int 64 x" and "0 \<le> y" and "in_int 64 y"
    and "NewMapedFile os (mfq_path dir x) sz = (r, os1)"
  shows "os_dirs os1 (mfq_path dir y) = os_dirs os (mfq_path dir y)"
proof -
  have ne: "mfq_path dir y \<noteq> []" by (simp add: mfq_path_def)
  have "os_dirs os1 = os_dirs (ensureDirOK os (GetParentDirectory (mfq_path dir x)))"
    using assms(5) by (auto simp: NewMapedFile_def Let_def split: sum.splits if_splits)
  then show ?thesis using parent_of_path [OF assms(1,2)] parent_of_path [OF assms(3,4)] ensureDirOK_parent [OF ne]
    by metis
qed

lemma getLast_grow_ahead:
  assumes "mfq_inv q" and "mapedFiles q \<noteq> [] \<longrightarrow> MapedFile_isFull (last (mapedFiles q))"
    and "mfq_ahead os q" and "can_grow os start q"
    and "q1 = q\<lparr>mapedFiles := mapedFiles q @ [(fresh_file (mfq_storePath q) (next_offset start q)
               (mfq_mapedFileSize q))\<lparr>firstCreateInQueue := (mapedFiles q = [])\<rparr>]\<rparr>"
  shows "\<exists>os1. MapedFileQueue_getLastMapedFile os start q = Some (Inr (Some (length (mapedFiles q))), q1, os1) \<and>
     mfq_ahead os1 q1"
proof -
  let ?x = "next_offset start q"
  obtain os1 where g: "MapedFileQueue_getLastMapedFile os start q = Some (Inr (Some (length (mapedFiles q))), q1, os1)"
      "os_files os1 = (os_files os)(mfq_path (mfq_storePath q) ?x := Some (replicate (nat (mfq_mapedFileSize q)) 0))"
      "os_fails os1 = os_fails os"
    using getLastMapedFile_grow [OF assms(1,2,4)] assms(5) by blast
  have sz: "0 < mfq_mapedFileSize q" using assms(1) by (simp add: mfq_inv_def)
  have x: "0 \<le> ?x" using next_offset_nonneg assms by (simp add: can_grow_def)
  then have x64: "in_int 64 ?x" using assms(4) sz by (simp add: can_grow_def in_int_def)
  have "mapedFiles q \<noteq> [] \<Longrightarrow> fileFromOffset (last (mapedFiles q)) + mfq_mapedFileSize q \<noteq> - 1"
    using x by (simp add: next_offset_def)
  then obtain r where n: "NewMapedFile os (mfq_path (mfq_storePath q) ?x) (mfq_mapedFileSize q) = (r, os1)"
    using g(1) assms(2,4) sz x
    by (cases "NewMapedFile os (mfq_path (mfq_storePath q) ?x) (mfq_mapedFileSize q)"; cases "mapedFiles q = []")
       (auto simp: MapedFileQueue_getLastMapedFile_def Let_def next_offset_def can_grow_def split: sum.splits)
  have e: "mfq_end q1 = ?x + mfq_mapedFileSize q"
    using assms(5) next_offset_nonempty [OF assms(1), of start]
    by (cases "mapedFiles q = []") (simp_all add: mfq_end_def mfq_base_def fresh_file_def algebra_simps)
  have "mfq_ahead os1 q1"
    unfolding mfq_ahead_def
  proof (intro conjI allI impI)
    fix y assume y: "0 \<le> y \<and> mfq_end q1 \<le> y \<and> y < 2 ^ 63"
    then have y64: "in_int 64 y" by (simp add: in_int_def)
    have "mfq_path (mfq_storePath q) y \<noteq> mfq_path (mfq_storePath q) ?x"
      using mfq_path_inject [of y ?x "mfq_storePath q"] x x64 y y64 e sz by auto
    moreover have "os_free os (mfq_path (mfq_storePath q) y)"
      using assms(3) y e sz next_offset_end [OF assms(1) _ x] assms(4) by (simp add: mfq_ahead_def can_grow_def)
    ultimately show "os_free os1 (mfq_path (mfq_storePath q1) y)"
      using NewMapedFile_dirs [OF x x64 _ y64 n] y by (simp add: os_free_def g(2,3) assms(5))
  qed (use assms in \<open>simp add: mfq_ahead_def\<close>)
  with g(1) show ?thesis by blast
qed

section \<open>What creating a file leaves alone\<close>

text \<open>
  \<open>os_only dir os os1\<close>: between the two states only files of the directory and the directory itself may
  have come into being.
\<close>

definition os_only :: "string \<Rightarrow> OS \<Rightarrow> OS \<Rightarrow> bool" where
  "os_only dir os os1 \<longleftrightarrow> os_fails os1 = os_fails os \<and>
     (\<forall>p. (\<forall>x. p \<noteq> mfq_path dir x) \<longrightarrow> os_files os1 p = os_files os p) \<and>
     (\<forall>p. p \<noteq> dir \<longrightarrow> os_dirs os1 p = os_dirs os p)"

lemma os_only_refl [simp]: "os_only dir os os"
  by (simp add: os_only_def)

lemma os_only_trans: "os_only dir os os1 \<Longrightarrow> os_only dir os1 os2 \<Longrightarrow> os_only dir os os2"
  by (simp add: os_only_def)

lemma digit_not_slash: "list_all is_digit s \<Longrightarrow> CHR ''/'' \<notin> set s"
  by (induction s) (auto simp: is_digit_def)

lemma slash_not_in_FormatInt: "CHR ''/'' \<notin> set (FormatInt x)"
  using digit_not_slash [OF list_all_decimal] by (simp add: FormatInt_def)

lemma slash_not_in_file_name: "CHR ''/'' \<notin> set (Offset2FileName x)"
proof -
  have "set (Offset2FileName x) \<subseteq> set (replicate 20 (CHR ''0'') @ FormatInt x)"
    by (auto simp: Offset2FileName_def Let_def dest!: in_set_takeD in_set_dropD)
  then show ?thesis using slash_not_in_FormatInt [of x] by auto
qed

lemma parent_of_file: "GetParentDirectory (mfq_path dir x) = dir"
proof -
  have "dropWhile (\<lambda>c. c \<noteq> CHR ''/'') (rev (Offset2FileName x) @ CHR ''/'' # rev dir) =
      dropWhile (\<lambda>c. c \<noteq> CHR ''/'') (CHR ''/'' # rev dir)"
    using slash_not_in_file_name by (intro dropWhile_append2) force
  then show ?thesis by (simp add: GetParentDirectory_def mfq_path_def)
qed

lemma NewMapedFile_only: "NewMapedFile os (mfq_path dir x) sz = (r, os1) \<Longrightarrow> os_only dir os os1"
  unfolding NewMapedFile_def Let_def parent_of_file os_only_def
  by (auto split: sum.splits if_splits) (auto simp: ensureDirOK_def split: sum.splits if_splits bool.splits)

lemma getLastMapedFile_only:
  "allocateMapedFileService q = None \<Longrightarrow> MapedFileQueue_getLastMapedFile os start q = Some (r, q1, os1) \<Longrightarrow>
     os_only (mfq_storePath q) os os1"
  by (auto simp: MapedFileQueue_getLastMapedFile_def Let_def split: if_splits sum.splits prod.splits option.splits
      dest: NewMapedFile_only)

lemma mfq_path_dir_inject: "mfq_path dir x = mfq_path dir1 y \<longleftrightarrow> dir = dir1 \<and> Offset2FileName x = Offset2FileName y"
  using append_eq_append_conv [of "CHR ''/'' # Offset2FileName x" "CHR ''/'' # Offset2FileName y" dir dir1]
  by (auto simp: mfq_path_def length_Offset2FileName)

lemma mfq_ahead_only:
  assumes "mfq_ahead os q" and "os_only dir os os1" and "mfq_storePath q \<noteq> dir" and "\<forall>x. mfq_path (mfq_storePath q) x \<noteq> dir"
  shows "mfq_ahead os1 q"
  using assms by (auto simp: mfq_ahead_def os_only_def os_free_def mfq_path_dir_inject)

end
