(* ===== verification/NetAddr.thy ===== *)
theory NetAddr
  imports OsFile
begin

text \<open>
  Host addresses and message identifiers of \<open>stgcommon/message/message_decoder.go\<close>, with the
  functions of Go's \<open>net\<close> and \<open>hex\<close> packages they call: \<open>net.SplitHostPort\<close>, \<open>net.ParseIP\<close>,
  \<open>net.JoinHostPort\<close>, hexadecimal encoding and decoding.
\<close>

section \<open>Go's \<open>net\<close> package\<close>

definition index_of :: "'a \<Rightarrow> 'a list \<Rightarrow> nat option" where
  "index_of c s = (let n = length (takeWhile (\<lambda>d. d \<noteq> c) s) in if n < length s then Some n else None)"

definition last_index_of :: "'a \<Rightarrow> 'a list \<Rightarrow> nat option" where
  "last_index_of c s = map_option (\<lambda>n. length s - 1 - n) (index_of c (rev s))"

text \<open>\<open>net.SplitHostPort\<close>: the port follows the last colon; a host with colons is in brackets.\<close>

definition net_SplitHostPort :: "string \<Rightarrow> error + (string \<times> string)" where
  "net_SplitHostPort hostport =
     (case last_index_of (CHR '':'') hostport of
        None \<Rightarrow> Inl ''missing port in address''
      | Some i \<Rightarrow>
          (let check = (\<lambda>host j k.
                 if CHR ''['' \<in> set (drop j hostport) then Inl ''unexpected '' 
                 else if CHR '']'' \<in> set (drop k hostport) then Inl ''unexpected ''
                 else Inr (host, drop (Suc i) hostport))
           in if hd hostport = CHR ''[''
              then (case index_of (CHR '']'') hostport of
                      None \<Rightarrow> Inl ''missing in address''
                    | Some e \<Rightarrow>
                        if Suc e = length hostport then Inl ''missing port in address''
                        else if Suc e = i then check (take (e - 1) (drop 1 hostport)) 1 (Suc e)
                        else if hostport ! Suc e = CHR '':'' then Inl ''too many colons in address''
                        else Inl ''missing port in address'')
              else (let host = take i hostport
                    in if CHR '':'' \<in> set host then Inl ''too many colons in address''
                       else check host 0 0)))"

text \<open>\<open>dtoi\<close>, \<open>xtoi\<close>: the number at the front of a string and what follows it.\<close>

definition net_big :: int where
  "net_big = 0xFFFFFF"

definition dtoi :: "string \<Rightarrow> (int \<times> string) option" where
  "dtoi s = (let ds = takeWhile is_digit s
     in if ds = [] \<or> decimal_val ds \<ge> net_big then None else Some (decimal_val ds, drop (length ds) s))"

definition hex_val :: "char \<Rightarrow> int option" where
  "hex_val c = (let n = int (of_char c) in
     if 48 \<le> n \<and> n \<le> 57 then Some (n - 48)
     else if 97 \<le> n \<and> n \<le> 102 then Some (n - 87)
     else if 65 \<le> n \<and> n \<le> 70 then Some (n - 55) else None)"

definition xtoi :: "string \<Rightarrow> (int \<times> string) option" where
  "xtoi s = (let ds = takeWhile (\<lambda>c. hex_val c \<noteq> None) s;
                 v = foldl (\<lambda>acc c. acc * 16 + the (hex_val c)) 0 ds
     in if ds = [] \<or> v \<ge> net_big then None else Some (v, drop (length ds) s))"

text \<open>The four octets of a dotted address.\<close>

fun parse_octets :: "nat \<Rightarrow> bool \<Rightarrow> string \<Rightarrow> byte list option" where
  "parse_octets 0 dot s = (if s = [] then Some [] else None)"
| "parse_octets (Suc k) dot s =
     (if s = [] then None
      else if dot \<and> hd s \<noteq> CHR ''.'' then None
      else case dtoi (if dot then tl s else s) of
             None \<Rightarrow> None
           | Some (n, r) \<Rightarrow>
               if n > 255 then None
               else map_option (\<lambda>bs. word_of_int n # bs) (parse_octets k True r))"

definition net_IPv4 :: "byte list \<Rightarrow> byte list" where
  "net_IPv4 bs = replicate 10 0 @ [255, 255] @ bs"

definition parseIPv4 :: "string \<Rightarrow> byte list option" where
  "parseIPv4 s = map_option net_IPv4 (parse_octets 4 False s)"

text \<open>
  The loop of \<open>parseIPv6\<close>: the bytes read so far, the position of the ellipsis, the rest of the
  string. At most eight groups are read.
\<close>

fun ipv6_groups :: "nat \<Rightarrow> byte list \<Rightarrow> nat option \<Rightarrow> string \<Rightarrow> (byte list \<times> nat option \<times> string) option" where
  "ipv6_groups 0 ip ellipsis s = Some (ip, ellipsis, s)"
| "ipv6_groups (Suc k) ip ellipsis s =
     (if length ip \<ge> 16 then Some (ip, ellipsis, s)
      else case xtoi s of
        None \<Rightarrow> None
      | Some (n, r) \<Rightarrow>
          if n > 0xFFFF then None
          else if r \<noteq> [] \<and> hd r = CHR ''.''
          then (if ellipsis = None \<and> length ip \<noteq> 12 then None
                else if length ip + 4 > 16 then None
                else map_option (\<lambda>bs. (ip @ bs, ellipsis, [])) (parse_octets 4 False s))
          else (let ip1 = ip @ [word_of_int (n div 256), word_of_int n]
                in if r = [] then Some (ip1, ellipsis, [])
                   else if hd r \<noteq> CHR '':'' \<or> length r = 1 then None
                   else (let r1 = tl r
                         in if hd r1 = CHR '':''
                            then (if ellipsis \<noteq> None then None
                                  else if tl r1 = [] then Some (ip1, Some (length ip1), [])
                                  else ipv6_groups k ip1 (Some (length ip1)) (tl r1))
                            else ipv6_groups k ip1 ellipsis r1)))"

definition parseIPv6 :: "string \<Rightarrow> byte list option" where
  "parseIPv6 s0 =
     (let (ellipsis, s) = (if take 2 s0 = ''::'' then (Some 0, drop 2 s0) else (None, s0))
      in if ellipsis = Some 0 \<and> s = [] then Some (replicate 16 0)
         else case ipv6_groups 8 [] ellipsis s of
           None \<Rightarrow> None
         | Some (ip, e, r) \<Rightarrow>
             if r \<noteq> [] then None
             else if length ip < 16
             then (case e of None \<Rightarrow> None
                   | Some p \<Rightarrow> Some (take p ip @ replicate (16 - length ip) 0 @ drop p ip))
             else if e \<noteq> None then None else Some ip)"

text \<open>\<open>net.ParseIP\<close> decides by the first dot or colon; \<open>None\<close> is the \<open>nil\<close> address.\<close>

definition net_ParseIP :: "string \<Rightarrow> byte list option" where
  "net_ParseIP s =
     (case List.find (\<lambda>c. c = CHR ''.'' \<or> c = CHR '':'') s of
        None \<Rightarrow> None
      | Some c \<Rightarrow> if c = CHR ''.'' then parseIPv4 s else parseIPv6 s)"

definition net_JoinHostPort :: "string \<Rightarrow> string \<Rightarrow> string" where
  "net_JoinHostPort host port =
     (if CHR '':'' \<in> set host \<or> CHR ''%'' \<in> set host then ''['' @ host @ '']:'' @ port
      else host @ '':'' @ port)"

section \<open>Host strings\<close>

definition ParseInt32 :: "string \<Rightarrow> error + int" where
  "ParseInt32 s = (case ParseInt s of
      Inl e \<Rightarrow> Inl e
    | Inr x \<Rightarrow> if in_int 32 x then Inr x else Inl ''value out of range'')"

definition SplitHostPort :: "string \<Rightarrow> error + (string \<times> int)" where
  "SplitHostPort addr =
     (if addr = [] then Inr ([], 0)
      else case net_SplitHostPort addr of
        Inl e \<Rightarrow> Inl e
      | Inr (host, portStr) \<Rightarrow>
          (case ParseInt32 portStr of Inl e \<Rightarrow> Inl e | Inr port \<Rightarrow> Inr (host, port)))"

text \<open>\<open>src\<close> has at least four bytes at every call.\<close>

definition bytesToIPv4String :: "byte list \<Rightarrow> string" where
  "bytesToIPv4String src =
     decimal (unat (src ! 0)) @ ''.'' @ decimal (unat (src ! 1)) @ ''.'' @
     decimal (unat (src ! 2)) @ ''.'' @ decimal (unat (src ! 3))"

text \<open>Slicing the \<open>nil\<close> address of an unparsable host panics.\<close>

definition ipv4StringToBytes :: "string \<Rightarrow> byte list option" where
  "ipv4StringToBytes host =
     (if host = [] then Some [0, 0, 0, 0] else map_option (drop 12) (net_ParseIP host))"

definition JoinHostPort :: "byte list \<Rightarrow> int \<Rightarrow> string" where
  "JoinHostPort hostBytes port = net_JoinHostPort (bytesToIPv4String hostBytes) (FormatInt port)"

section \<open>Message identifiers\<close>

definition hex_char :: "nat \<Rightarrow> char" where
  "hex_char n = (if n < 10 then char_of (48 + n) else char_of (55 + n))"

definition bytesToHexString :: "byte list \<Rightarrow> string" where
  "bytesToHexString src = concat (map (\<lambda>b. [hex_char (unat b div 16), hex_char (unat b mod 16)]) src)"

fun hex_DecodeString :: "string \<Rightarrow> error + byte list" where
  "hex_DecodeString [] = Inr []"
| "hex_DecodeString [c] = Inl ''odd length hex string''"
| "hex_DecodeString (c # d # s) =
     (case (hex_val c, hex_val d) of
        (Some x, Some y) \<Rightarrow>
          (case hex_DecodeString s of Inl e \<Rightarrow> Inl e | Inr bs \<Rightarrow> Inr (word_of_int (x * 16 + y) # bs))
      | _ \<Rightarrow> Inl ''invalid byte'')"

definition createMessageId :: "byte list \<Rightarrow> int \<Rightarrow> int \<Rightarrow> string" where
  "createMessageId storeHost storePort offset =
     bytesToHexString (storeHost @ Int32ToBytes storePort @ Int64ToBytes offset)"

text \<open>\<open>None\<close> is the panic of an unparsable host.\<close>

definition CreateMessageId :: "string \<Rightarrow> int \<Rightarrow> (error + string) option" where
  "CreateMessageId addr offset =
     (case SplitHostPort addr of
        Inl e \<Rightarrow> Some (Inl e)
      | Inr (host, port) \<Rightarrow>
          map_option (\<lambda>bs. Inr (createMessageId bs port offset)) (ipv4StringToBytes host))"

record MessageId =
  Address :: string
  mid_Offset :: int

definition DecodeMessageId :: "string \<Rightarrow> error + MessageId" where
  "DecodeMessageId msgId =
     (if length msgId \<noteq> 32 then Inl ''msgid length invalid''
      else case hex_DecodeString msgId of
        Inl e \<Rightarrow> Inl e
      | Inr buf \<Rightarrow>
          (let ip = bytesToIPv4String (take 4 buf);
               port = be_val (take 4 (drop 4 buf))
           in Inr \<lparr>Address = ip @ '':'' @ FormatInt port, mid_Offset = be_val (take 8 (drop 8 buf))\<rparr>))"

section \<open>Laws\<close>

lemma takeWhile_digits:
  "list_all is_digit ds \<Longrightarrow> (r = [] \<or> \<not> is_digit (hd r)) \<Longrightarrow> takeWhile is_digit (ds @ r) = ds"
  by (induction ds) (auto simp: takeWhile_eq_Nil_iff)

lemma decimal_nonempty: "decimal n \<noteq> []"
  by (subst decimal.simps) simp

lemma dtoi_decimal:
  assumes "n < 256" and "r = [] \<or> \<not> is_digit (hd r)"
  shows "dtoi (decimal n @ r) = Some (int n, r)"
  using takeWhile_digits [OF list_all_decimal assms(2), of n] assms(1)
  by (simp add: dtoi_def decimal_val_decimal decimal_nonempty net_big_def Let_def)

lemma not_digit_dot: "\<not> is_digit (CHR ''.'')"
  by (simp add: is_digit_def)

lemma unat_byte: "unat (b :: byte) < 256"
  using unsigned_less [of b] by simp

lemma dtoi_octet:
  "r = [] \<or> \<not> is_digit (hd r) \<Longrightarrow> dtoi (decimal (unat (b :: byte)) @ r) = Some (uint b, r)"
  using dtoi_decimal [OF unat_byte, of r b] by simp

lemma uint_byte: "uint (b :: byte) < 256"
  using uint_lt2p [of b] by simp

lemma parse_octet_first:
  "r = [] \<or> \<not> is_digit (hd r) \<Longrightarrow>
     parse_octets (Suc k) False (decimal (unat b) @ r) = map_option ((#) b) (parse_octets k True r)"
  using uint_byte [of b] by (simp add: dtoi_octet decimal_nonempty)

lemma parse_octet_next:
  "r = [] \<or> \<not> is_digit (hd r) \<Longrightarrow>
     parse_octets (Suc k) True (CHR ''.'' # decimal (unat b) @ r) = map_option ((#) b) (parse_octets k True r)"
  using uint_byte [of b] by (simp add: dtoi_octet)

lemma parse_octets_decimal:
  assumes "length bs = 4"
  shows "parse_octets 4 False (bytesToIPv4String bs) = Some bs"
proof -
  obtain a b c d where bs: "bs = [a, b, c, d]"
    using assms by (auto simp: numeral_eq_Suc length_Suc_conv)
  have last: "parse_octets (Suc k) True (CHR ''.'' # decimal (unat d)) = map_option ((#) d) (parse_octets k True [])" for k
    using parse_octet_next [of "[]" k d] by simp
  show ?thesis
    by (simp only: bs bytesToIPv4String_def numeral_eq_Suc pred_numeral_simps BitM.simps nth_Cons_0 nth_Cons_Suc
        append_Cons append_Nil parse_octet_first parse_octet_next last not_digit_dot list.sel simp_thms
        parse_octets.simps(1) option.map)
      (simp add: parse_octet_first parse_octet_next last not_digit_dot bs)
qed

lemma find_dot: "List.find (\<lambda>c. c = CHR ''.'' \<or> c = CHR '':'') (decimal n @ CHR ''.'' # r) = Some (CHR ''.'')"
proof -
  have "\<forall>c \<in> set ds. is_digit c \<Longrightarrow>
      List.find (\<lambda>c. c = CHR ''.'' \<or> c = CHR '':'') (ds @ CHR ''.'' # r) = Some (CHR ''.'')" for ds
    by (induction ds) (auto simp: is_digit_def)
  then show ?thesis using list_all_decimal [of n] by (simp add: list_all_iff)
qed

lemma ParseIP_IPv4String:
  "length bs = 4 \<Longrightarrow> net_ParseIP (bytesToIPv4String bs) = Some (net_IPv4 bs)"
  using parse_octets_decimal [of bs] find_dot
  by (simp add: net_ParseIP_def parseIPv4_def bytesToIPv4String_def)

lemma ipv4StringToBytes_IPv4String: "length bs = 4 \<Longrightarrow> ipv4StringToBytes (bytesToIPv4String bs) = Some bs"
  by (simp add: ipv4StringToBytes_def ParseIP_IPv4String net_IPv4_def)
    (simp add: bytesToIPv4String_def)

lemma digit_distinct:
  "is_digit c \<Longrightarrow> c \<noteq> CHR '':'' \<and> c \<noteq> CHR ''['' \<and> c \<noteq> CHR '']'' \<and> c \<noteq> CHR ''%'' \<and> c \<noteq> CHR ''-'' \<and> c \<noteq> CHR ''+''"
  by (auto simp: is_digit_def)

lemma set_decimal: "c \<in> set (decimal n) \<Longrightarrow> is_digit c"
  using list_all_decimal [of n] by (simp add: list_all_iff)

lemma host_chars:
  "c \<in> set (bytesToIPv4String bs) \<Longrightarrow> is_digit c \<or> c = CHR ''.''"
  by (auto simp: bytesToIPv4String_def dest: set_decimal)

lemma host_no_delims:
  "CHR '':'' \<notin> set (bytesToIPv4String bs)" "CHR ''['' \<notin> set (bytesToIPv4String bs)"
  "CHR '']'' \<notin> set (bytesToIPv4String bs)" "CHR ''%'' \<notin> set (bytesToIPv4String bs)"
  using host_chars [of _ bs] by (auto dest: digit_distinct)

lemma port_no_delims:
  "CHR '':'' \<notin> set (FormatInt x)" "CHR ''['' \<notin> set (FormatInt x)" "CHR '']'' \<notin> set (FormatInt x)"
  by (auto simp: FormatInt_def dest: set_decimal digit_distinct)

lemma last_index_of_append: "c \<notin> set ys \<Longrightarrow> last_index_of c (xs @ c # ys) = Some (length xs)"
  by (simp add: last_index_of_def index_of_def takeWhile_append Let_def)

lemma ParseInt_FormatInt: "in_int 64 x \<Longrightarrow> ParseInt (FormatInt x) = Inr x"
proof (cases "x < 0")
  case True
  assume "in_int 64 x"
  with True show ?thesis
    using list_all_decimal [of "nat (- x)"] decimal_nonempty
    by (simp add: FormatInt_def ParseInt_def ParseUint_def decimal_val_decimal)
next
  case False
  assume x: "in_int 64 x"
  obtain c r where d: "decimal (nat x) = c # r" using decimal_nonempty [of "nat x"] by (cases "decimal (nat x)") auto
  have "is_digit c" using set_decimal [of c "nat x"] d by simp
  with d False x show ?thesis
    using list_all_decimal [of "nat x"] decimal_val_decimal [of "nat x"] digit_distinct [of c]
    by (simp add: FormatInt_def ParseInt_def ParseUint_def)
qed

lemma in_int_mono: "in_int 32 x \<Longrightarrow> in_int 64 x"
  by (simp add: in_int_def)

lemma SplitHostPort_JoinHostPort:
  assumes "in_int 32 port"
  shows "SplitHostPort (JoinHostPort bs port) = Inr (bytesToIPv4String bs, port)"
proof -
  let ?h = "bytesToIPv4String bs" and ?p = "FormatInt port"
  have j: "JoinHostPort bs port = ?h @ CHR '':'' # ?p"
    using host_no_delims [of bs] by (simp add: JoinHostPort_def net_JoinHostPort_def)
  have ne: "?h \<noteq> []" by (simp add: bytesToIPv4String_def)
  then have "hd (?h @ CHR '':'' # ?p) \<noteq> CHR ''[''"
    using host_no_delims(2) [of bs] by (metis hd_append2 hd_in_set)
  then have "net_SplitHostPort (?h @ CHR '':'' # ?p) = Inr (?h, ?p)"
    using host_no_delims [of bs] port_no_delims [of port] last_index_of_append [OF port_no_delims(1), of ?h port]
    by (simp add: net_SplitHostPort_def Let_def)
  then show ?thesis
    using assms ParseInt_FormatInt [OF in_int_mono [OF assms]]
    by (simp add: j SplitHostPort_def ParseInt32_def)
qed

lemma hex_val_hex_char: "n < 16 \<Longrightarrow> hex_val (hex_char n) = Some (int n)"
  by (simp add: hex_val_def hex_char_def Let_def)

lemma hex_roundtrip: "hex_DecodeString (bytesToHexString bs) = Inr bs"
proof (induction bs)
  case (Cons b bs)
  have "int (unat b div 16) * 16 + int (unat b mod 16) = uint b"
    by (metis div_mult_mod_eq of_nat_add of_nat_mult of_nat_numeral uint_nat)
  moreover have "unat b div 16 < 16" using unat_byte [of b] by simp
  ultimately show ?case
    using Cons by (simp add: bytesToHexString_def hex_val_hex_char del: uint_nat of_nat_add)
qed (simp add: bytesToHexString_def)

lemma length_hex: "length (bytesToHexString bs) = 2 * length bs"
  by (induction bs) (auto simp: bytesToHexString_def)

lemma length_enc [simp]:
  "length (Int8ToBytes x) = 1" "length (Int16ToBytes x) = 2" "length (Int32ToBytes x) = 4" "length (Int64ToBytes x) = 8"
  by (simp_all add: Int8ToBytes_def Int16ToBytes_def Int32ToBytes_def Int64ToBytes_def)

lemma be_val_enc:
  "be_val (Int32ToBytes x) = x mod 2 ^ 32" "be_val (Int64ToBytes x) = x mod 2 ^ 64"
  by (simp_all add: Int32ToBytes_def Int64ToBytes_def be_val_be_bytes)

section \<open>Properties\<close>

text \<open>
  C30 (message identifiers). The identifier created for an address \<open>a.b.c.d:port\<close> and a commit-log
  offset has 32 characters and decodes to this address and this offset.
\<close>

theorem message_id_roundtrip:
  assumes "length ip = 4" and "0 \<le> port" and "port < 2 ^ 31" and "0 \<le> offset" and "offset < 2 ^ 63"
  shows "\<exists>s. CreateMessageId (JoinHostPort ip port) offset = Some (Inr s) \<and> length s = 32 \<and>
     DecodeMessageId s = Inr \<lparr>Address = JoinHostPort ip port, mid_Offset = offset\<rparr>"
proof -
  have p: "in_int 32 port" using assms(2,3) by (simp add: in_int_def)
  let ?b = "ip @ Int32ToBytes port @ Int64ToBytes offset"
  have j: "JoinHostPort ip port = bytesToIPv4String ip @ '':'' @ FormatInt port"
    using host_no_delims [of ip] by (simp add: JoinHostPort_def net_JoinHostPort_def)
  have "CreateMessageId (JoinHostPort ip port) offset = Some (Inr (bytesToHexString ?b))"
    using assms(1) p by (simp add: CreateMessageId_def SplitHostPort_JoinHostPort ipv4StringToBytes_IPv4String
        createMessageId_def)
  moreover have "length (bytesToHexString ?b) = 32" using assms(1) by (simp add: length_hex)
  moreover have "DecodeMessageId (bytesToHexString ?b) = Inr \<lparr>Address = JoinHostPort ip port, mid_Offset = offset\<rparr>"
    using assms by (simp add: DecodeMessageId_def length_hex hex_roundtrip be_val_enc j Let_def)
  ultimately show ?thesis by blast
qed

theorem message_id_roundtrip_witness:
  "\<exists>s. CreateMessageId (JoinHostPort [10, 128, 31, 108] 10911) 4096 = Some (Inr s) \<and>
     DecodeMessageId s = Inr \<lparr>Address = JoinHostPort [10, 128, 31, 108] 10911, mid_Offset = 4096\<rparr>"
  using message_id_roundtrip [of "[10, 128, 31, 108]" 10911 4096] by auto

end
