(* ===== verification/MessageM.thy ===== *)
theory MessageM
  imports NetAddr "HOL-Library.AList"
begin

text \<open>
  \<open>stgcommon/message\<close> and \<open>stgcommon/sysflag\<close>: messages, their properties and flags, the property
  codec, and the wire format of a stored message (\<open>Encode\<close> and \<open>decodeMessageExt\<close>).

  A Go map of properties is an association list with distinct keys; its order is the order in which
  the map is iterated, so a statement about every such list covers every iteration order.
\<close>

unbundle bit_operations_syntax

section \<open>System flags\<close>

definition CompressedFlag :: int where "CompressedFlag = 1"

definition MultiTagsFlag :: int where "MultiTagsFlag = 2"

definition TransactionNotType :: int where "TransactionNotType = 0"

definition TransactionPreparedType :: int where "TransactionPreparedType = 4"

definition TransactionCommitType :: int where "TransactionCommitType = 8"

definition TransactionRollbackType :: int where "TransactionRollbackType = 12"

definition GetTransactionValue :: "int \<Rightarrow> int" where
  "GetTransactionValue flag = flag AND TransactionRollbackType"

definition ResetTransactionValue :: "int \<Rightarrow> int \<Rightarrow> int" where
  "ResetTransactionValue flag ty = (flag AND (0xFFFFFFFF XOR TransactionRollbackType)) OR ty"

definition ClearCompressedFlag :: "int \<Rightarrow> int" where
  "ClearCompressedFlag flag = flag AND (0xFFFFFFFF XOR CompressedFlag)"

section \<open>Messages\<close>

type_synonym properties = "(string \<times> string) list"

record Message =
  m_Topic :: string
  m_Flag :: int
  m_Properties :: properties
  m_Body :: "byte list"

record MessageExt = Message +
  m_QueueId :: int
  m_StoreSize :: int
  m_QueueOffset :: int
  m_SysFlag :: int
  m_BornTimestamp :: int
  m_BornHost :: string
  m_StoreTimestamp :: int
  m_StoreHost :: string
  m_MsgId :: string
  m_CommitLogOffset :: int
  m_BodyCRC :: int
  m_ReconsumeTimes :: int
  m_PreparedTransactionOffset :: int

record MessageExtBrokerInner = MessageExt +
  m_PropertiesString :: string
  m_TagsCode :: int

text \<open>Reading a Go map at a missing key yields the empty string.\<close>

definition prop_at :: "properties \<Rightarrow> string \<Rightarrow> string" where
  "prop_at ps name = (case map_of ps name of None \<Rightarrow> [] | Some v \<Rightarrow> v)"

definition Message_ClearProperty :: "string \<Rightarrow> 'a Message_scheme \<Rightarrow> 'a Message_scheme" where
  "Message_ClearProperty name msg = msg\<lparr>m_Properties := AList.delete name (m_Properties msg)\<rparr>"

definition Message_PutProperty :: "string \<Rightarrow> string \<Rightarrow> 'a Message_scheme \<Rightarrow> 'a Message_scheme" where
  "Message_PutProperty name val msg = msg\<lparr>m_Properties := AList.update name val (m_Properties msg)\<rparr>"

definition Message_GetProperty :: "'a Message_scheme \<Rightarrow> string \<Rightarrow> string" where
  "Message_GetProperty msg name = prop_at (m_Properties msg) name"

definition Message_GetTags :: "'a Message_scheme \<Rightarrow> string" where
  "Message_GetTags msg = Message_GetProperty msg ''TAGS''"

definition Message_GetKeys :: "'a Message_scheme \<Rightarrow> string" where
  "Message_GetKeys msg = Message_GetProperty msg ''KEYS''"

text \<open>\<open>strconv.ParseBool\<close> accepts these spellings; anything else counts as true here.\<close>

definition isWaitStoreMsgOK :: "MessageExtBrokerInner \<Rightarrow> bool" where
  "isWaitStoreMsgOK msg =
     (case map_of (m_Properties msg) ''WAIT'' of
        None \<Rightarrow> True
      | Some v \<Rightarrow> v \<notin> {''0'', ''f'', ''F'', ''false'', ''FALSE'', ''False''})"

text \<open>The hash is computed on \<open>int64\<close> and wraps around.\<close>

definition HashCode :: "string \<Rightarrow> int" where
  "HashCode s = foldl (\<lambda>h c. to_int64 (to_int64 (31 * h) + int (of_char c))) 0 s"

datatype TopicFilterType = SINGLE_TAG | MULTI_TAG

definition TagsString2tagsCode :: "TopicFilterType \<Rightarrow> string \<Rightarrow> int" where
  "TagsString2tagsCode filterType tags = (if tags = [] then 0 else HashCode tags)"

definition ParseTopicFilterType :: "int \<Rightarrow> TopicFilterType" where
  "ParseTopicFilterType sysFlag =
     (if sysFlag AND MultiTagsFlag = MultiTagsFlag then MULTI_TAG else SINGLE_TAG)"

section \<open>Properties as bytes\<close>

definition NAME_VALUE_SEPARATOR :: byte where "NAME_VALUE_SEPARATOR = 1"

definition PROPERTY_SEPARATOR :: byte where "PROPERTY_SEPARATOR = 2"

definition MessageProperties2Bytes :: "properties \<Rightarrow> byte list" where
  "MessageProperties2Bytes ps = concat (map (\<lambda>(k, v).
     bytes_of_string k @ [NAME_VALUE_SEPARATOR] @ bytes_of_string v @ [PROPERTY_SEPARATOR]) ps)"

definition MessageProperties2String :: "properties \<Rightarrow> string" where
  "MessageProperties2String ps = string_of_bytes (MessageProperties2Bytes ps)"

text \<open>
  The loop of \<open>Bytes2messageProperties\<close>; each round drops at least the separator, so the length of
  the buffer bounds the number of rounds.
\<close>

function props_loop :: "byte list \<Rightarrow> properties \<Rightarrow> properties" where
  "props_loop tbuf ps =
     (if tbuf = [] then ps
      else case index_of PROPERTY_SEPARATOR tbuf of
        None \<Rightarrow> ps
      | Some pi \<Rightarrow>
          (let propertie = take pi tbuf
           in case index_of NAME_VALUE_SEPARATOR propertie of
                None \<Rightarrow> ps
              | Some ni \<Rightarrow> props_loop (drop (Suc pi) tbuf)
                  (AList.update (string_of_bytes (take ni propertie))
                     (string_of_bytes (drop (Suc ni) propertie)) ps)))"
  by pat_completeness auto
termination by (relation "measure (\<lambda>(tbuf, ps). length tbuf)") auto

declare props_loop.simps [simp del]

definition Bytes2messageProperties :: "byte list \<Rightarrow> properties" where
  "Bytes2messageProperties propertiesBuf = props_loop propertiesBuf []"

definition String2messageProperties :: "string \<Rightarrow> properties" where
  "String2messageProperties s = Bytes2messageProperties (bytes_of_string s)"

section \<open>The stored format\<close>

definition MessageMagicCode :: int where
  "MessageMagicCode = (0xAABBCCDD XOR 1880681586) + 8"

text \<open>
  \<open>Encode\<close>, with the compression of \<open>compress/zlib\<close> as the argument \<open>zlib_zip\<close>. \<open>None\<close> stands for an
  error return and for the panic of an unparsable host.
\<close>

definition host_field :: "string \<Rightarrow> byte list option" where
  "host_field addr =
     (case SplitHostPort addr of
        Inl e \<Rightarrow> None
      | Inr (host, port) \<Rightarrow> map_option (\<lambda>bs. bs @ Int32ToBytes port) (ipv4StringToBytes host))"

definition MessageExt_Encode :: "(byte list \<Rightarrow> byte list) \<Rightarrow> 'a MessageExt_scheme \<Rightarrow> byte list option" where
  "MessageExt_Encode zlib_zip m =
     do {
       bornHost \<leftarrow> host_field (m_BornHost m);
       storeHost \<leftarrow> host_field (m_StoreHost m);
       let bodyLength = to_int32 (int (length (m_Body m)));
       let newBody = (if bodyLength > 0
                      then (if m_SysFlag m AND CompressedFlag = CompressedFlag then zlib_zip (m_Body m) else m_Body m)
                      else []);
       let ps = MessageProperties2Bytes (m_Properties m);
       Some (Int32ToBytes (m_StoreSize m) @ Int32ToBytes (to_int32 MessageMagicCode) @
             Int32ToBytes (m_BodyCRC m) @ Int32ToBytes (m_QueueId m) @ Int32ToBytes (m_Flag m) @
             Int64ToBytes (m_QueueOffset m) @ Int64ToBytes (m_CommitLogOffset m) @
             Int32ToBytes (m_SysFlag m) @ Int64ToBytes (m_BornTimestamp m) @ bornHost @
             Int64ToBytes (m_StoreTimestamp m) @ storeHost @ Int32ToBytes (m_ReconsumeTimes m) @
             Int64ToBytes (m_PreparedTransactionOffset m) @ Int32ToBytes bodyLength @ newBody @
             [word_of_int (int (length (m_Topic m)))] @ bytes_of_string (m_Topic m) @
             Int16ToBytes (to_int16 (int (length ps))) @ ps) }"

text \<open>\<open>binary.Read\<close> of \<open>k\<close> bytes from the front of a buffer; \<open>None\<close> is its error.\<close>

definition rd :: "nat \<Rightarrow> byte list \<Rightarrow> (byte list \<times> byte list) option" where
  "rd k buf = (if length buf < k then None else Some (take k buf, drop k buf))"

definition rd32 :: "byte list \<Rightarrow> (int \<times> byte list) option" where
  "rd32 buf = map_option (apfst BytesToInt32) (rd 4 buf)"

definition rd64 :: "byte list \<Rightarrow> (int \<times> byte list) option" where
  "rd64 buf = map_option (apfst BytesToInt64) (rd 8 buf)"

definition rd16 :: "byte list \<Rightarrow> (int \<times> byte list) option" where
  "rd16 buf = map_option (apfst BytesToInt16) (rd 2 buf)"

text \<open>
  \<open>decodeMessageExt\<close>: the message and the rest of the buffer; \<open>None\<close> is an error return, or the panic of \<open>unzip\<close> on bytes
  that \<open>zlib.NewReader\<close> refuses. The magic
  code is read and not compared. Short properties leave the zeroed slice in place, since the result
  of that read is ignored.
\<close>

definition decodeMessageExt ::
    "(byte list \<Rightarrow> byte list option) \<Rightarrow> byte list \<Rightarrow> bool \<Rightarrow> bool \<Rightarrow> (MessageExt \<times> byte list) option" where
  "decodeMessageExt unzip b0 isReadBody isCompressBody =
     do {
       (storeSize, b1) \<leftarrow> rd32 b0;
       (magicCode, b2) \<leftarrow> rd32 b1;
       (bodyCRC, b3) \<leftarrow> rd32 b2;
       (queueId, b4) \<leftarrow> rd32 b3;
       (flag, b5) \<leftarrow> rd32 b4;
       (queueOffset, b6) \<leftarrow> rd64 b5;
       (physicOffset, b7) \<leftarrow> rd64 b6;
       (sysFlag, b8) \<leftarrow> rd32 b7;
       (bornTimestamp, b9) \<leftarrow> rd64 b8;
       (bornHost, b10) \<leftarrow> rd 4 b9;
       (bornPort, b11) \<leftarrow> rd32 b10;
       (storeTimestamp, b12) \<leftarrow> rd64 b11;
       (storeHost, b13) \<leftarrow> rd 4 b12;
       (storePort, b14) \<leftarrow> rd32 b13;
       (reconsumeTimes, b15) \<leftarrow> rd32 b14;
       (preparedTransactionOffset, b16) \<leftarrow> rd64 b15;
       (bodyLength, b17) \<leftarrow> rd32 b16;
       (body, b18) \<leftarrow>
         (if bodyLength > 0
          then (if isReadBody
                then do {
                  (bd, r) \<leftarrow> rd (nat bodyLength) b17;
                  if isCompressBody \<and> sysFlag AND CompressedFlag = CompressedFlag
                  then map_option (\<lambda>u. (u, r)) (unzip bd)
                  else Some (bd, r) }
                else Some ([], drop (nat bodyLength) b17))
          else Some ([], b17));
       (topicLength, b19) \<leftarrow> rd 1 b18;
       (topic, b20) \<leftarrow> rd (unat (hd topicLength)) b19;
       (propertiesLength, b21) \<leftarrow> rd16 b20;
       let (ps, b22) = (if propertiesLength > 0
          then (case rd (nat propertiesLength) b21 of
                  Some (pb, r) \<Rightarrow> (Bytes2messageProperties pb, r)
                | None \<Rightarrow> (Bytes2messageProperties (replicate (nat propertiesLength) 0), []))
          else ([], b21));
       Some (\<lparr>m_Topic = string_of_bytes topic, m_Flag = flag, m_Properties = ps, m_Body = body,
              m_QueueId = queueId, m_StoreSize = storeSize, m_QueueOffset = queueOffset,
              m_SysFlag = sysFlag, m_BornTimestamp = bornTimestamp,
              m_BornHost = JoinHostPort bornHost bornPort, m_StoreTimestamp = storeTimestamp,
              m_StoreHost = JoinHostPort storeHost storePort,
              m_MsgId = createMessageId storeHost storePort physicOffset,
              m_CommitLogOffset = physicOffset, m_BodyCRC = bodyCRC, m_ReconsumeTimes = reconsumeTimes,
              m_PreparedTransactionOffset = preparedTransactionOffset\<rparr>, b22) }"

definition DecodeMessageExt ::
    "(byte list \<Rightarrow> byte list option) \<Rightarrow> byte list \<Rightarrow> bool \<Rightarrow> bool \<Rightarrow> MessageExt option" where
  "DecodeMessageExt unzip buffer isReadBody isCompressBody =
     map_option fst (decodeMessageExt unzip buffer isReadBody isCompressBody)"

text \<open>
  The loop of \<open>DecodesMessageExt\<close>. A decoded message takes at least one byte, so the length of the
  buffer is enough fuel.
\<close>

fun decodes :: "(byte list \<Rightarrow> byte list option) \<Rightarrow> bool \<Rightarrow> nat \<Rightarrow> byte list \<Rightarrow> MessageExt list option" where
  "decodes unzip isReadBody n [] = Some []"
| "decodes unzip isReadBody 0 buf = None"
| "decodes unzip isReadBody (Suc n) buf =
     do {
       (msgExt, rest) \<leftarrow> decodeMessageExt unzip buf isReadBody True;
       msgExts \<leftarrow> decodes unzip isReadBody n rest;
       Some (msgExt # msgExts) }"

definition DecodesMessageExt :: "(byte list \<Rightarrow> byte list option) \<Rightarrow> byte list \<Rightarrow> bool \<Rightarrow> MessageExt list option" where
  "DecodesMessageExt unzip buffer isReadBody = decodes unzip isReadBody (length buffer) buffer"

section \<open>Reading back what was written\<close>

lemma rd_append: "length xs = k \<Longrightarrow> rd k (xs @ ys) = Some (xs, ys)"
  by (simp add: rd_def)

lemma rd32_append: "in_int 32 x \<Longrightarrow> rd32 (Int32ToBytes x @ ys) = Some (x, ys)"
  using i32.dec_enc_self [of x] by (simp add: rd32_def rd_append)

lemma rd64_append: "in_int 64 x \<Longrightarrow> rd64 (Int64ToBytes x @ ys) = Some (x, ys)"
  using i64.dec_enc_self [of x] by (simp add: rd64_def rd_append)

lemma rd16_append: "in_int 16 x \<Longrightarrow> rd16 (Int16ToBytes x @ ys) = Some (x, ys)"
  using i16.dec_enc_self [of x] by (simp add: rd16_def rd_append)

lemmas rd_appends = rd32_append rd64_append rd16_append

lemma to_int32_in: "in_int 32 (to_int32 x)"
  using signed_take_bit_in_int [of 31 x] by (simp add: to_int32_def)

lemma to_int16_in: "in_int 16 (to_int16 x)"
  using signed_take_bit_in_int [of 15 x] by (simp add: to_int16_def)

lemma host_field_Join:
  "length bs = 4 \<Longrightarrow> in_int 32 port \<Longrightarrow> host_field (JoinHostPort bs port) = Some (bs @ Int32ToBytes port)"
  by (simp add: host_field_def SplitHostPort_JoinHostPort ipv4StringToBytes_IPv4String)

text \<open>The keys and values a property list must avoid for its encoding to be unambiguous.\<close>

definition plain :: "string \<Rightarrow> bool" where
  "plain s \<longleftrightarrow> NAME_VALUE_SEPARATOR \<notin> set (bytes_of_string s) \<and> PROPERTY_SEPARATOR \<notin> set (bytes_of_string s)"

definition plain_props :: "properties \<Rightarrow> bool" where
  "plain_props ps \<longleftrightarrow> distinct (map fst ps) \<and>
     (\<forall>(k, v) \<in> set ps. plain k \<and> PROPERTY_SEPARATOR \<notin> set (bytes_of_string v))"

lemma index_of_append: "c \<notin> set xs \<Longrightarrow> index_of c (xs @ c # ys) = Some (length xs)"
  by (simp add: index_of_def takeWhile_append Let_def)

lemma update_new: "k \<notin> fst ` set ps \<Longrightarrow> AList.update k v ps = ps @ [(k, v)]"
  by (induction ps) auto

lemma props_loop_step:
  "index_of PROPERTY_SEPARATOR tbuf = Some pi \<Longrightarrow> index_of NAME_VALUE_SEPARATOR (take pi tbuf) = Some ni \<Longrightarrow>
     props_loop tbuf ps = props_loop (drop (Suc pi) tbuf)
       (AList.update (string_of_bytes (take ni (take pi tbuf))) (string_of_bytes (drop (Suc ni) (take pi tbuf))) ps)"
  by (subst props_loop.simps) (auto simp: index_of_def)

lemma props_loop_roundtrip:
  "plain_props ps \<Longrightarrow> fst ` set ps \<inter> fst ` set acc = {} \<Longrightarrow>
     props_loop (MessageProperties2Bytes ps) acc = acc @ ps"
proof (induction ps arbitrary: acc)
  case Nil
  then show ?case by (simp add: MessageProperties2Bytes_def props_loop.simps)
next
  case (Cons p ps)
  obtain k v where p: "p = (k, v)" by fastforce
  let ?kv = "bytes_of_string k @ NAME_VALUE_SEPARATOR # bytes_of_string v"
  let ?rest = "MessageProperties2Bytes ps"
  have pl: "plain k" "PROPERTY_SEPARATOR \<notin> set (bytes_of_string v)" "plain_props ps" "k \<notin> fst ` set ps"
    using Cons.prems(1) p by (auto simp: plain_props_def)
  have e: "MessageProperties2Bytes (p # ps) = ?kv @ PROPERTY_SEPARATOR # ?rest"
    by (simp add: MessageProperties2Bytes_def p)
  have "NAME_VALUE_SEPARATOR \<noteq> PROPERTY_SEPARATOR" by (simp add: NAME_VALUE_SEPARATOR_def PROPERTY_SEPARATOR_def)
  then have pi: "index_of PROPERTY_SEPARATOR (?kv @ PROPERTY_SEPARATOR # ?rest) = Some (length ?kv)"
    using pl(1,2) by (intro index_of_append) (auto simp: plain_def)
  have ni: "index_of NAME_VALUE_SEPARATOR ?kv = Some (length (bytes_of_string k))"
    using pl(1) by (intro index_of_append) (simp add: plain_def)
  have "props_loop (?kv @ PROPERTY_SEPARATOR # ?rest) acc = props_loop ?rest (AList.update k v acc)"
    using props_loop_step [OF pi, of _ acc] ni by simp
  also have "AList.update k v acc = acc @ [(k, v)]"
    using Cons.prems(2) p by (intro update_new) auto
  also have "props_loop ?rest (acc @ [(k, v)]) = (acc @ [(k, v)]) @ ps"
    using Cons.prems pl p by (intro Cons.IH) auto
  finally show ?case using e p by simp
qed

lemma properties_roundtrip:
  "plain_props ps \<Longrightarrow> Bytes2messageProperties (MessageProperties2Bytes ps) = ps"
  using props_loop_roundtrip [of ps "[]"] by (simp add: Bytes2messageProperties_def)
text \<open>Messages whose fields fit the widths of the stored format.\<close>

definition storable :: "'a MessageExt_scheme \<Rightarrow> bool" where
  "storable m \<longleftrightarrow> in_int 32 (m_StoreSize m) \<and> in_int 32 (m_BodyCRC m) \<and> in_int 32 (m_QueueId m) \<and>
     in_int 32 (m_Flag m) \<and> in_int 64 (m_QueueOffset m) \<and> in_int 64 (m_CommitLogOffset m) \<and>
     in_int 32 (m_SysFlag m) \<and> in_int 64 (m_BornTimestamp m) \<and> in_int 64 (m_StoreTimestamp m) \<and>
     in_int 32 (m_ReconsumeTimes m) \<and> in_int 64 (m_PreparedTransactionOffset m) \<and>
     length (m_Body m) < 2 ^ 31 \<and> length (m_Topic m) \<le> 255 \<and> plain_props (m_Properties m) \<and>
     length (MessageProperties2Bytes (m_Properties m)) < 2 ^ 15"

lemma to_int_small:
  "n < 2 ^ 31 \<Longrightarrow> to_int32 (int n) = int n" "n < 2 ^ 15 \<Longrightarrow> to_int16 (int n) = int n"
  by (simp_all add: to_int32_id to_int16_id in_int_def)

lemma unat_length_byte: "n \<le> 255 \<Longrightarrow> unat (word_of_int (int n) :: byte) = n"
  by (simp add: unat_of_nat take_bit_nat_eq_self)

lemma in_int_length: "n < 2 ^ 31 \<Longrightarrow> in_int 32 (int n)" "n < 2 ^ 15 \<Longrightarrow> in_int 16 (int n)"
  by (simp_all add: in_int_def)

text \<open>What follows the fixed-size fields in an encoded message.\<close>

definition encoded_tail :: "byte list \<Rightarrow> 'a MessageExt_scheme \<Rightarrow> byte list" where
  "encoded_tail body m = body @ [word_of_int (int (length (m_Topic m)))] @ bytes_of_string (m_Topic m) @
     Int16ToBytes (to_int16 (int (length (MessageProperties2Bytes (m_Properties m))))) @
     MessageProperties2Bytes (m_Properties m)"

definition encoded_head :: "byte list \<Rightarrow> int \<Rightarrow> byte list \<Rightarrow> int \<Rightarrow> 'a MessageExt_scheme \<Rightarrow> byte list" where
  "encoded_head bh bp sh sp m =
     Int32ToBytes (m_StoreSize m) @ Int32ToBytes (to_int32 MessageMagicCode) @
     Int32ToBytes (m_BodyCRC m) @ Int32ToBytes (m_QueueId m) @ Int32ToBytes (m_Flag m) @
     Int64ToBytes (m_QueueOffset m) @ Int64ToBytes (m_CommitLogOffset m) @
     Int32ToBytes (m_SysFlag m) @ Int64ToBytes (m_BornTimestamp m) @ bh @ Int32ToBytes bp @
     Int64ToBytes (m_StoreTimestamp m) @ sh @ Int32ToBytes sp @ Int32ToBytes (m_ReconsumeTimes m) @
     Int64ToBytes (m_PreparedTransactionOffset m) @ Int32ToBytes (int (length (m_Body m)))"

lemma Encode_split:
  assumes "storable m" and "m_BornHost m = JoinHostPort bh bp" "m_StoreHost m = JoinHostPort sh sp"
    and "length bh = 4" "length sh = 4" "in_int 32 bp" "in_int 32 sp"
  shows "MessageExt_Encode z m = Some (encoded_head bh bp sh sp m @ encoded_tail
     (if m_Body m \<noteq> [] \<and> m_SysFlag m AND CompressedFlag = CompressedFlag then z (m_Body m) else m_Body m) m)"
  using assms
  by (simp add: MessageExt_Encode_def host_field_Join encoded_head_def encoded_tail_def Let_def storable_def
      to_int_small)

text \<open>Reading the fixed-size fields leaves the tail; the continuation \<open>f\<close> is the rest of the decoder.\<close>

lemma decode_head:
  assumes "storable m" and "length bh = 4" "length sh = 4" "in_int 32 bp" "in_int 32 sp"
  shows "decodeMessageExt u (encoded_head bh bp sh sp m @ t) readBody unzipBody =
     do {
       (body, b18) \<leftarrow>
         (if m_Body m \<noteq> []
          then (if readBody
                then do {
                  (bd, r) \<leftarrow> rd (length (m_Body m)) t;
                  if unzipBody \<and> m_SysFlag m AND CompressedFlag = CompressedFlag
                  then map_option (\<lambda>u. (u, r)) (u bd)
                  else Some (bd, r) }
                else Some ([], drop (length (m_Body m)) t))
          else Some ([], t));
       (topicLength, b19) \<leftarrow> rd 1 b18;
       (topic, b20) \<leftarrow> rd (unat (hd topicLength)) b19;
       (propertiesLength, b21) \<leftarrow> rd16 b20;
       let (ps, b22) = (if propertiesLength > 0
          then (case rd (nat propertiesLength) b21 of
                  Some (pb, r) \<Rightarrow> (Bytes2messageProperties pb, r)
                | None \<Rightarrow> (Bytes2messageProperties (replicate (nat propertiesLength) 0), []))
          else ([], b21));
       Some (\<lparr>m_Topic = string_of_bytes topic, m_Flag = m_Flag m, m_Properties = ps, m_Body = body,
              m_QueueId = m_QueueId m, m_StoreSize = m_StoreSize m, m_QueueOffset = m_QueueOffset m,
              m_SysFlag = m_SysFlag m, m_BornTimestamp = m_BornTimestamp m,
              m_BornHost = JoinHostPort bh bp, m_StoreTimestamp = m_StoreTimestamp m,
              m_StoreHost = JoinHostPort sh sp,
              m_MsgId = createMessageId sh sp (m_CommitLogOffset m),
              m_CommitLogOffset = m_CommitLogOffset m, m_BodyCRC = m_BodyCRC m,
              m_ReconsumeTimes = m_ReconsumeTimes m,
              m_PreparedTransactionOffset = m_PreparedTransactionOffset m\<rparr>, b22) }"
  using assms
  by (simp add: decodeMessageExt_def encoded_head_def rd_appends rd_append to_int32_in storable_def
      in_int_length cong: if_cong)

lemma rd_one: "rd (Suc 0) (x # xs) = Some ([x], xs)"
  by (simp add: rd_def)

lemma unat_length_byte': "n \<le> 255 \<Longrightarrow> unat (word_of_nat n :: byte) = n"
  using unat_length_byte [of n] by simp

lemma props_bytes_Nil: "MessageProperties2Bytes ps = [] \<longleftrightarrow> ps = []"
  by (cases ps) (auto simp: MessageProperties2Bytes_def)

lemma decode_tail:
  assumes "storable m"
  shows "rd 1 (encoded_tail [] m @ rest) =
       Some ([word_of_int (int (length (m_Topic m)))], drop 1 (encoded_tail [] m @ rest))"
    and "rd (unat (hd [word_of_int (int (length (m_Topic m))) :: byte])) (drop 1 (encoded_tail [] m @ rest)) =
       Some (bytes_of_string (m_Topic m), Int16ToBytes (int (length (MessageProperties2Bytes (m_Properties m)))) @
         MessageProperties2Bytes (m_Properties m) @ rest)"
    and "rd16 (Int16ToBytes (int (length (MessageProperties2Bytes (m_Properties m)))) @
         MessageProperties2Bytes (m_Properties m) @ rest) =
       Some (int (length (MessageProperties2Bytes (m_Properties m))), MessageProperties2Bytes (m_Properties m) @ rest)"
  using assms
  by (simp_all add: storable_def encoded_tail_def rd_one rd_append unat_length_byte' to_int_small
      rd_appends in_int_length)

section \<open>Properties\<close>

text \<open>
  Property codec. Properties whose keys contain neither separator and whose values do not
  contain the property separator are read back from their encoding, for every iteration order.
\<close>

lemma message_properties_roundtrip:
  assumes "plain_props ps"
  shows "String2messageProperties (MessageProperties2String ps) = ps"
proof -
  have "bytes_of_string (string_of_bytes bs) = bs" for bs
    by (simp add: bytes_of_string_def string_of_bytes_def comp_def unat_byte)
  then show ?thesis
    using assms by (simp add: String2messageProperties_def MessageProperties2String_def properties_roundtrip)
qed

lemma message_properties_roundtrip_witness:
  "String2messageProperties (MessageProperties2String [(''KEYS'', ''k1''), (''TAGS'', ''a'')]) =
     [(''KEYS'', ''k1''), (''TAGS'', ''a'')]"
  by (rule message_properties_roundtrip)
    (simp add: plain_props_def plain_def bytes_of_string_def NAME_VALUE_SEPARATOR_def PROPERTY_SEPARATOR_def)

text \<open>
  C29 (stored messages). A message whose fields fit the format and whose body is not compressed is
  decoded from its encoding, whatever follows it in the buffer; the decoder derives the message
  identifier from the store host and the commit-log offset.
\<close>

theorem encode_decode_roundtrip:
  fixes m :: MessageExt
  assumes "storable m" and "m_BornHost m = JoinHostPort bh bp" and "m_StoreHost m = JoinHostPort sh sp"
    and "length bh = 4" and "length sh = 4" and "in_int 32 bp" and "in_int 32 sp"
    and "m_SysFlag m AND CompressedFlag \<noteq> CompressedFlag"
  shows "\<exists>bs. MessageExt_Encode z m = Some bs \<and>
     decodeMessageExt u (bs @ rest) True unzipBody =
       Some (m\<lparr>m_MsgId := createMessageId sh sp (m_CommitLogOffset m)\<rparr>, rest)"
proof -
  let ?t = "encoded_tail (m_Body m) m"
  have e: "MessageExt_Encode z m = Some (encoded_head bh bp sh sp m @ ?t)"
    using Encode_split [OF assms(1-7)] assms(8) by simp
  have t: "?t = m_Body m @ encoded_tail [] m" by (simp add: encoded_tail_def)
  have p: "plain_props (m_Properties m)" using assms(1) by (simp add: storable_def)
  have "decodeMessageExt u (encoded_head bh bp sh sp m @ ?t @ rest) True unzipBody =
       Some (m\<lparr>m_MsgId := createMessageId sh sp (m_CommitLogOffset m)\<rparr>, rest)"
    using assms(2,3,8) decode_tail [OF assms(1), of rest] properties_roundtrip [OF p] props_bytes_Nil
    by (cases "m_Body m = []"; cases "m_Properties m = []")
       (auto simp: decode_head [OF assms(1,4-7)] t rd_append Let_def intro!: MessageExt.equality)
  with e show ?thesis by auto
qed

text \<open>A concrete message, used to instantiate the properties.\<close>

definition example_msg :: "int \<Rightarrow> byte list \<Rightarrow> MessageExt" where
  "example_msg sysFlag body = \<lparr>m_Topic = ''t'', m_Flag = 0, m_Properties = [(''KEYS'', ''k'')], m_Body = body,
     m_QueueId = 3, m_StoreSize = 106, m_QueueOffset = 7, m_SysFlag = sysFlag, m_BornTimestamp = 1000,
     m_BornHost = JoinHostPort [10, 0, 0, 1] 9000, m_StoreTimestamp = 2000,
     m_StoreHost = JoinHostPort [10, 0, 0, 2] 10911, m_MsgId = [], m_CommitLogOffset = 4096, m_BodyCRC = 5,
     m_ReconsumeTimes = 0, m_PreparedTransactionOffset = 0\<rparr>"

lemma example_msg_storable: "in_int 32 f \<Longrightarrow> length body < 2 ^ 31 \<Longrightarrow> storable (example_msg f body)"
  by (simp add: storable_def example_msg_def plain_props_def plain_def bytes_of_string_def
      NAME_VALUE_SEPARATOR_def PROPERTY_SEPARATOR_def MessageProperties2Bytes_def)
    (simp add: in_int_def)

theorem encode_decode_roundtrip_witness:
  "\<exists>bs. MessageExt_Encode id (example_msg 0 [1, 2, 3]) = Some bs \<and>
     decodeMessageExt Some (bs @ [9]) True True =
       Some ((example_msg 0 [1, 2, 3])\<lparr>m_MsgId := createMessageId [10, 0, 0, 2] 10911 4096\<rparr>, [9])"
proof -
  have s: "storable (example_msg 0 [1, 2, 3])" by (rule example_msg_storable) (simp_all add: in_int_def)
  from encode_decode_roundtrip [OF s, of "[10, 0, 0, 1]" 9000 "[10, 0, 0, 2]" 10911 id Some "[9]" True]
  show ?thesis by (simp add: example_msg_def in_int_def CompressedFlag_def)
qed

text \<open>
  Compressed bodies. \<open>Encode\<close> records the length of the body before compression: when the
  compressed body is shorter by more than what follows it, the encoded message cannot be decoded.
\<close>

lemma encode_compressed_undecodable:
  assumes "storable m" and "m_BornHost m = JoinHostPort bh bp" and "m_StoreHost m = JoinHostPort sh sp"
    and "length bh = 4" and "length sh = 4" and "in_int 32 bp" and "in_int 32 sp"
    and "m_SysFlag m AND CompressedFlag = CompressedFlag"
    and "length (zlib_zip (m_Body m)) + length (m_Topic m) +
         length (MessageProperties2Bytes (m_Properties m)) + 3 < length (m_Body m)"
  shows "\<exists>bs. MessageExt_Encode zlib_zip m = Some bs \<and> DecodeMessageExt unzip bs True True = None"
proof -
  have ne: "m_Body m \<noteq> []" using assms(9) by auto
  have "length (encoded_tail (zlib_zip (m_Body m)) m) < length (m_Body m)"
    using assms(9) by (simp add: encoded_tail_def)
  then have "DecodeMessageExt unzip (encoded_head bh bp sh sp m @ encoded_tail (zlib_zip (m_Body m)) m) True True = None"
    using ne decode_head [OF assms(1,4-7)] by (simp add: DecodeMessageExt_def rd_def)
  moreover have "MessageExt_Encode zlib_zip m =
      Some (encoded_head bh bp sh sp m @ encoded_tail (zlib_zip (m_Body m)) m)"
    using Encode_split [OF assms(1-7)] assms(8) ne by simp
  ultimately show ?thesis by blast
qed

lemma encode_compressed_undecodable_witness:
  "\<exists>bs. MessageExt_Encode (\<lambda>b. take 5 b) (example_msg 1 (replicate 100 0)) = Some bs \<and>
     DecodeMessageExt Some bs True True = None"
proof -
  have s: "storable (example_msg 1 (replicate 100 0))" by (rule example_msg_storable) (simp_all add: in_int_def)
  from encode_compressed_undecodable [OF s, of "[10, 0, 0, 1]" 9000 "[10, 0, 0, 2]" 10911 "\<lambda>b. take 5 b" Some]
  show ?thesis
    by (simp add: example_msg_def in_int_def CompressedFlag_def MessageProperties2Bytes_def)
qed

end
