(* ===== verification/StoreCheckpointM.thy ===== *)
theory StoreCheckpointM
  imports MapedFileM
begin

text \<open>
  \<open>stgstorelog/store_checkpoint.go\<close> and \<open>running_flags.go\<close>: the three timestamps up to which the
  commit log, the consume queues and the index are known to be flushed, kept in a mapped page, and
  the bits that say whether the store may be read and written. Timestamps are milliseconds, for
  which the \<open>float64\<close> arithmetic of the source is exact.
\<close>

unbundle bit_operations_syntax

section \<open>Checkpoint\<close>

record StoreCheckpoint =
  scp_path :: string
  scp_mappedByteBuffer :: MappedByteBuffer
  physicMsgTimestamp :: int
  logicsMsgTimestamp :: int
  indexMsgTimestamp :: int

text \<open>\<open>None\<close> is the panic of a read outside the region, which a mapped page does not have.\<close>

definition NewStoreCheckpoint :: "OS \<Rightarrow> string \<Rightarrow> ((error + StoreCheckpoint) \<times> OS) option" where
  "NewStoreCheckpoint os0 scpPath =
     (let os = ensureDirOK os0 (GetParentDirectory scpPath)
      in case PathExists os scpPath of
        Inl e \<Rightarrow> Some (Inl e, os)
      | Inr exist \<Rightarrow>
          (let os1 = (if exist then os
                      else os\<lparr>os_files := (os_files os)(scpPath := Some (replicate (nat OS_PAGE_SIZE) 0))\<rparr>)
           in case os_files os1 scpPath of
                None \<Rightarrow> Some (Inl ''open'', os1)
              | Some content \<Rightarrow>
                  if os_fails os1 (OsOpen scpPath) then Some (Inl ''open'', os1)
                  else if os_fails os1 (OsMmap scpPath) then Some (Inl ''mmap'', os1)
                  else let m0 = NewMappedByteBuffer content (int (length content))
                  in if exist
                     then do {
                       (p, m1) \<leftarrow> MappedByteBuffer_ReadInt64 m0;
                       (l, m2) \<leftarrow> MappedByteBuffer_ReadInt64 m1;
                       (i, m3) \<leftarrow> MappedByteBuffer_ReadInt64 m2;
                       Some (Inr \<lparr>scp_path = scpPath, scp_mappedByteBuffer = m3, physicMsgTimestamp = p,
                                  logicsMsgTimestamp = l, indexMsgTimestamp = i\<rparr>, os1) }
                     else Some (Inr \<lparr>scp_path = scpPath, scp_mappedByteBuffer = m0, physicMsgTimestamp = 0,
                                     logicsMsgTimestamp = 0, indexMsgTimestamp = 0\<rparr>, os1)))"

definition StoreCheckpoint_flush :: "OS \<Rightarrow> StoreCheckpoint \<Rightarrow> (StoreCheckpoint \<times> OS) option" where
  "StoreCheckpoint_flush os self =
     do {
       m1 \<leftarrow> MappedByteBuffer_WriteInt64 ((scp_mappedByteBuffer self)\<lparr>WritePos := 0\<rparr>) (physicMsgTimestamp self);
       m2 \<leftarrow> MappedByteBuffer_WriteInt64 m1 (logicsMsgTimestamp self);
       m3 \<leftarrow> MappedByteBuffer_WriteInt64 m2 (indexMsgTimestamp self);
       Some (self\<lparr>scp_mappedByteBuffer := m3\<rparr>,
             os\<lparr>os_files := (os_files os)(scp_path self := Some (MMapBuf m3))\<rparr>) }"

definition StoreCheckpoint_shutdown :: "OS \<Rightarrow> StoreCheckpoint \<Rightarrow> (StoreCheckpoint \<times> OS) option" where
  "StoreCheckpoint_shutdown os self =
     map_option (\<lambda>(self1, os1).
        (self1\<lparr>scp_mappedByteBuffer := MappedByteBuffer_unmap (scp_mappedByteBuffer self1)\<rparr>, os1))
       (StoreCheckpoint_flush os self)"

definition StoreCheckpoint_getMinTimestamp :: "StoreCheckpoint \<Rightarrow> int" where
  "StoreCheckpoint_getMinTimestamp self =
     (let mn = min (physicMsgTimestamp self) (logicsMsgTimestamp self) - 1000 * 3
      in if mn < 0 then 0 else mn)"

definition StoreCheckpoint_getMinTimestampIndex :: "StoreCheckpoint \<Rightarrow> int" where
  "StoreCheckpoint_getMinTimestampIndex self =
     min (StoreCheckpoint_getMinTimestamp self) (indexMsgTimestamp self)"

section \<open>Running flags\<close>

definition NotReadableBit :: int where "NotReadableBit = 1"

definition NotWriteableBit :: int where "NotWriteableBit = 2"

definition WriteLogicsQueueErrorBit :: int where "WriteLogicsQueueErrorBit = 4"

definition WriteIndexFileErrorBit :: int where "WriteIndexFileErrorBit = 8"

definition DiskFullBit :: int where "DiskFullBit = 16"

definition RunningFlags_isReadable :: "int \<Rightarrow> bool" where
  "RunningFlags_isReadable flagBits \<longleftrightarrow> flagBits AND NotReadableBit = 0"

definition RunningFlags_isWriteable :: "int \<Rightarrow> bool" where
  "RunningFlags_isWriteable flagBits \<longleftrightarrow>
     flagBits AND (NotWriteableBit OR WriteLogicsQueueErrorBit OR DiskFullBit OR WriteIndexFileErrorBit) = 0"

definition RunningFlags_makeLogicsQueueError :: "int \<Rightarrow> int" where
  "RunningFlags_makeLogicsQueueError flagBits = flagBits OR WriteLogicsQueueErrorBit"

definition RunningFlags_makeIndexFileError :: "int \<Rightarrow> int" where
  "RunningFlags_makeIndexFileError flagBits = flagBits OR WriteIndexFileErrorBit"

definition RunningFlags_getAndMakeDiskFull :: "int \<Rightarrow> bool \<times> int" where
  "RunningFlags_getAndMakeDiskFull flagBits =
     (flagBits AND DiskFullBit \<noteq> DiskFullBit, flagBits OR DiskFullBit)"

definition RunningFlags_getAndMakeDiskOK :: "int \<Rightarrow> bool \<times> int" where
  "RunningFlags_getAndMakeDiskOK flagBits =
     (flagBits AND DiskFullBit \<noteq> DiskFullBit, flagBits AND (0xFFFFFFFF XOR DiskFullBit))"

section \<open>Flag bits\<close>

lemma bits_as_powers:
  "NotReadableBit = 2 ^ 0" "NotWriteableBit = 2 ^ 1" "WriteLogicsQueueErrorBit = 2 ^ 2"
  "WriteIndexFileErrorBit = 2 ^ 3" "DiskFullBit = 2 ^ 4" "(0xFFFFFFFF :: int) = mask 32"
  by (simp_all add: NotReadableBit_def NotWriteableBit_def WriteLogicsQueueErrorBit_def
      WriteIndexFileErrorBit_def DiskFullBit_def mask_eq_exp_minus_1)

lemma and_or_0: "a AND (b OR c) = 0 \<longleftrightarrow> a AND b = 0 \<and> a AND c = (0 :: int)"
  by (simp add: bit.conj_disj_distrib or_eq_0_iff)

lemma isWriteable_bits:
  "RunningFlags_isWriteable f \<longleftrightarrow> \<not> bit f 1 \<and> \<not> bit f 2 \<and> \<not> bit f 3 \<and> \<not> bit f 4"
  unfolding RunningFlags_isWriteable_def bits_as_powers
  by (simp only: and_or_0 and_exp_eq_0_iff_not_bit) blast

lemma flag_ops_bits:
  "bit (RunningFlags_makeLogicsQueueError f) k \<longleftrightarrow> bit f k \<or> k = 2"
  "bit (RunningFlags_makeIndexFileError f) k \<longleftrightarrow> bit f k \<or> k = 3"
  "bit (snd (RunningFlags_getAndMakeDiskFull f)) k \<longleftrightarrow> bit f k \<or> k = 4"
  "bit (snd (RunningFlags_getAndMakeDiskOK f)) k \<longleftrightarrow> bit f k \<and> k < 32 \<and> k \<noteq> 4"
  unfolding RunningFlags_makeLogicsQueueError_def RunningFlags_makeIndexFileError_def
    RunningFlags_getAndMakeDiskFull_def RunningFlags_getAndMakeDiskOK_def bits_as_powers
  by (auto simp: bit_or_iff bit_and_iff bit_xor_iff bit_exp_iff bit_mask_iff simp del: power_numeral)

section \<open>Properties\<close>

text \<open>
  Checkpoint round trip. Flushing a checkpoint makes its three timestamps durable: opening the
  file again yields the same timestamps.
\<close>

lemma checkpoint_roundtrip:
  assumes "in_int 64 (physicMsgTimestamp scp)" and "in_int 64 (logicsMsgTimestamp scp)"
    and "in_int 64 (indexMsgTimestamp scp)"
    and "Limit (scp_mappedByteBuffer scp) = int (length (MMapBuf (scp_mappedByteBuffer scp)))"
    and "24 \<le> length (MMapBuf (scp_mappedByteBuffer scp))"
    and "\<not> os_fails os (OsStat (scp_path scp))" and "\<not> os_fails os (OsOpen (scp_path scp))"
    and "\<not> os_fails os (OsMmap (scp_path scp))"
  shows "\<exists>scp1 os1 scp2 os2. StoreCheckpoint_flush os scp = Some (scp1, os1) \<and>
     NewStoreCheckpoint os1 (scp_path scp) = Some (Inr scp2, os2) \<and>
     physicMsgTimestamp scp2 = physicMsgTimestamp scp \<and> logicsMsgTimestamp scp2 = logicsMsgTimestamp scp \<and>
     indexMsgTimestamp scp2 = indexMsgTimestamp scp"
proof -
  let ?m = "(scp_mappedByteBuffer scp)\<lparr>WritePos := 0\<rparr>"
  let ?ds = "[Int64ToBytes (physicMsgTimestamp scp), Int64ToBytes (logicsMsgTimestamp scp),
              Int64ToBytes (indexMsgTimestamp scp)]"
  have len: "length (Int64ToBytes x) = 8" for x by (simp add: Int64ToBytes_def)
  have "int (length ([] @ concat ?ds)) \<le> Limit ?m" "Limit ?m \<le> int (length (MMapBuf ?m))"
    using assms(4,5) by (simp_all add: len)
  from write_all_wrote [OF wrote_reset(1) this] obtain m3 where
    w: "write_all ?m ?ds = Some m3" "wrote m3 (concat ?ds)" by auto
  let ?os1 = "os\<lparr>os_files := (os_files os)(scp_path scp := Some (MMapBuf m3))\<rparr>"
  have f: "StoreCheckpoint_flush os scp = Some (scp\<lparr>scp_mappedByteBuffer := m3\<rparr>, ?os1)"
    using w(1) by (auto simp: StoreCheckpoint_flush_def WriteInt_write_all Option.bind_eq_Some_conv split_def)
  let ?m0 = "NewMappedByteBuffer (MMapBuf m3) (int (length (MMapBuf m3)))"
  obtain rest where r: "MMapBuf m3 = concat ?ds @ rest"
    using w(2) by (metis append_take_drop_id wrote_def)
  then have c: "at_cursor ?m0 (Int64ToBytes (physicMsgTimestamp scp) @ Int64ToBytes (logicsMsgTimestamp scp) @
      Int64ToBytes (indexMsgTimestamp scp) @ rest)"
    by (simp add: at_cursor_def NewMappedByteBuffer_def)
  note c1 = i64.cursor_after_read [OF c] and r0 = ReadInt64_cursor [OF c assms(1)]
  note c2 = i64.cursor_after_read [OF c1] and r1 = ReadInt64_cursor [OF c1 assms(2)]
  note r2 = ReadInt64_cursor [OF c2 assms(3)]
  have "PathExists (ensureDirOK ?os1 d) (scp_path scp) = Inr True" for d
    using assms(6) by (simp add: PathExists_def)
  then show ?thesis
    using f r0 r1 r2 assms(7,8)
    by (auto simp: NewStoreCheckpoint_def Let_def)
qed

lemma checkpoint_roundtrip_witness:
  "\<exists>scp1 os1 scp2 os2. StoreCheckpoint_flush example_os \<lparr>scp_path = ''d/checkpoint'',
       scp_mappedByteBuffer = NewMappedByteBuffer (replicate 32 0) 32, physicMsgTimestamp = 5000,
       logicsMsgTimestamp = 4000, indexMsgTimestamp = 3000\<rparr> = Some (scp1, os1) \<and>
     NewStoreCheckpoint os1 ''d/checkpoint'' = Some (Inr scp2, os2) \<and> physicMsgTimestamp scp2 = 5000"
  using checkpoint_roundtrip [of "\<lparr>scp_path = ''d/checkpoint'',
       scp_mappedByteBuffer = NewMappedByteBuffer (replicate 32 0) 32, physicMsgTimestamp = 5000,
       logicsMsgTimestamp = 4000, indexMsgTimestamp = 3000\<rparr>" example_os]
  by (auto simp: in_int_def NewMappedByteBuffer_def example_os_def)

text \<open>The operations on the flags, as the store applies them in any order.\<close>

datatype flag_op = LogicsQueueError | IndexFileError | DiskFull | DiskOK

fun apply_flag :: "flag_op \<Rightarrow> int \<Rightarrow> int" where
  "apply_flag LogicsQueueError f = RunningFlags_makeLogicsQueueError f"
| "apply_flag IndexFileError f = RunningFlags_makeIndexFileError f"
| "apply_flag DiskFull f = snd (RunningFlags_getAndMakeDiskFull f)"
| "apply_flag DiskOK f = snd (RunningFlags_getAndMakeDiskOK f)"

lemma logics_error_sticky: "bit f 2 \<Longrightarrow> bit (fold apply_flag ops f) 2"
proof (induction ops arbitrary: f)
  case (Cons op ops)
  then have "bit (apply_flag op f) 2" by (cases op) (simp_all add: flag_ops_bits)
  with Cons.IH show ?case by simp
qed simp

text \<open>
  Once a consume queue could not be written, no later change of the flags
  makes the store writeable again; a full disk, by contrast, is undone by \<open>getAndMakeDiskOK\<close>.
\<close>

lemma logics_error_blocks_writes:
  "\<not> RunningFlags_isWriteable (fold apply_flag ops (RunningFlags_makeLogicsQueueError f)) \<and>
   (RunningFlags_isWriteable f \<longleftrightarrow>
      \<not> bit f 4 \<and> RunningFlags_isWriteable
        (snd (RunningFlags_getAndMakeDiskOK (snd (RunningFlags_getAndMakeDiskFull f)))))"
proof -
  have "bit (RunningFlags_makeLogicsQueueError f) 2" by (simp add: flag_ops_bits)
  from logics_error_sticky [OF this, of ops] show ?thesis
    by (auto simp: isWriteable_bits flag_ops_bits)
qed

end
