(* ===== verification/StoreConfig.thy ===== *)
theory StoreConfig
  imports OsFile
begin

text \<open>
  \<open>stgstorelog/message_store_config.go\<close> and \<open>stgstorelog/config\<close>: the configuration of the store, its
  default values, the two computed settings, and the paths derived from the root directory.
\<close>

section \<open>Enumerations\<close>

datatype BrokerRole = ASYNC_MASTER | SYNC_MASTER | SLAVE

definition BrokerRole_ToString :: "BrokerRole \<Rightarrow> string" where
  "BrokerRole_ToString brokerRole =
     (case brokerRole of ASYNC_MASTER \<Rightarrow> ''ASYNC_MASTER'' | SYNC_MASTER \<Rightarrow> ''SYNC_MASTER'' | SLAVE \<Rightarrow> ''SLAVE'')"

definition patternBrokerRole :: "(string \<times> BrokerRole) list" where
  "patternBrokerRole = [(''ASYNC_MASTER'', ASYNC_MASTER), (''SYNC_MASTER'', SYNC_MASTER), (''SLAVE'', SLAVE)]"

definition ParseBrokerRole :: "string \<Rightarrow> error + BrokerRole" where
  "ParseBrokerRole desc =
     (case map_of patternBrokerRole desc of Some brokerRole \<Rightarrow> Inr brokerRole | None \<Rightarrow> Inl ''unknown match'')"

datatype FlushDiskType = SYNC_FLUSH | ASYNC_FLUSH

definition FlushDiskTypeString :: "FlushDiskType \<Rightarrow> string" where
  "FlushDiskTypeString flushDiskType = (case flushDiskType of SYNC_FLUSH \<Rightarrow> ''SYNC_FLUSH'' | ASYNC_FLUSH \<Rightarrow> ''ASYNC_FLUSH'')"

definition patternFlushDiskType :: "(string \<times> FlushDiskType) list" where
  "patternFlushDiskType = [(''SYNC_FLUSH'', SYNC_FLUSH), (''ASYNC_FLUSH'', ASYNC_FLUSH)]"

definition ParseFlushDiskType :: "string \<Rightarrow> error + FlushDiskType" where
  "ParseFlushDiskType desc =
     (case map_of patternFlushDiskType desc of Some t \<Rightarrow> Inr t | None \<Rightarrow> Inl ''unknown match'')"

datatype SynchronizationType = SYNCHRONIZATION_FULL | SYNCHRONIZATION_LAST

definition SynchronizationTypeString :: "SynchronizationType \<Rightarrow> string" where
  "SynchronizationTypeString t =
     (case t of SYNCHRONIZATION_FULL \<Rightarrow> ''SYNCHRONIZATION_FULL'' | SYNCHRONIZATION_LAST \<Rightarrow> ''SYNCHRONIZATION_LAST'')"

lemma ParseBrokerRole_ToString: "ParseBrokerRole (BrokerRole_ToString r) = Inr r"
  by (cases r) (simp_all add: ParseBrokerRole_def BrokerRole_ToString_def patternBrokerRole_def)

lemma ParseFlushDiskType_String: "ParseFlushDiskType (FlushDiskTypeString t) = Inr t"
  by (cases t) (simp_all add: ParseFlushDiskType_def FlushDiskTypeString_def patternFlushDiskType_def)

section \<open>Paths\<close>

definition GetStorePathConsumeQueue :: "string \<Rightarrow> string" where
  "GetStorePathConsumeQueue rootDir = rootDir @ ''/'' @ ''consumequeue''"

definition GetStorePathIndex :: "string \<Rightarrow> string" where
  "GetStorePathIndex rootDir = rootDir @ ''/'' @ ''index''"

definition GetStoreCheckpoint :: "string \<Rightarrow> string" where
  "GetStoreCheckpoint rootDir = rootDir @ ''/'' @ ''checkpoint''"

definition GetAbortFile :: "string \<Rightarrow> string" where
  "GetAbortFile rootDir = rootDir @ ''/'' @ ''abort''"

definition GetDelayOffsetStorePath :: "string \<Rightarrow> string" where
  "GetDelayOffsetStorePath rootDir = rootDir @ ''/'' @ ''config'' @ ''/'' @ ''delayOffset.json''"

definition GetTranStateTableStorePath :: "string \<Rightarrow> string" where
  "GetTranStateTableStorePath rootDir = rootDir @ ''/'' @ ''transaction'' @ ''/'' @ ''statetable''"

definition GetTranRedoLogStorePath :: "string \<Rightarrow> string" where
  "GetTranRedoLogStorePath rootDir = rootDir @ ''/'' @ ''transaction'' @ ''/'' @ ''redolog''"

section \<open>The configuration\<close>

definition CQStoreUnitSize :: int where
  "CQStoreUnitSize = 20"

record MessageStoreConfig =
  StorePathRootDir :: string
  StorePathCommitLog :: string
  StorePathConsumeQueue :: string
  StorePathIndex :: string
  StoreCheckpointPath :: string
  AbortFile :: string
  TranStateTableStorePath :: string
  TranStateTableMapedFileSize :: int
  TranRedoLogStorePath :: string
  TranRedoLogMapedFileSize :: int
  CheckTransactionMessageAtleastInterval :: int
  CheckTransactionMessageTimerInterval :: int
  CheckTransactionMessageEnable :: bool
  MapedFileSizeCommitLog :: int
  MapedFileSizeConsumeQueue :: int
  FlushIntervalCommitLog :: int
  FlushCommitLogTimed :: bool
  FlushIntervalConsumeQueue :: int
  CleanResourceInterval :: int
  DeleteCommitLogFilesInterval :: int
  DeleteConsumeQueueFilesInterval :: int
  DestroyMapedFileIntervalForcibly :: int
  RedeleteHangedFileInterval :: int
  DeleteWhen :: string
  DiskMaxUsedSpaceRatio :: int
  FileReservedTime :: int
  PutMsgIndexHightWater :: int
  MaxMessageSize :: int
  CheckCRCOnRecover :: bool
  FlushCommitLogLeastPages :: int
  FlushConsumeQueueLeastPages :: int
  FlushCommitLogThoroughInterval :: int
  FlushConsumeQueueThoroughInterval :: int
  MaxTransferBytesOnMessageInMemory :: int
  MaxTransferCountOnMessageInMemory :: int
  MaxTransferBytesOnMessageInDisk :: int
  MaxTransferCountOnMessageInDisk :: int
  AccessMessageInMemoryMaxRatio :: int
  MessageIndexEnable :: bool
  MaxHashSlotNum :: int
  MaxIndexNum :: int
  MaxMsgsNumBatch :: int
  MessageIndexSafe :: bool
  HaListenPort :: int
  HaSendHeartbeatInterval :: int
  HaHousekeepingInterval :: int
  HaTransferBatchSize :: int
  HaMasterAddress :: string
  HaSlaveFallbehindMax :: int
  BrokerRoleConfig :: BrokerRole
  FlushDiskTypeConfig :: FlushDiskType
  SyncFlushTimeout :: int
  MessageDelayLevel :: string
  FlushDelayOffsetInterval :: int
  CleanFileForciblyEnable :: bool
  SynchronizationTypeConfig :: SynchronizationType

text \<open>The argument is the home directory.\<close>

definition NewMessageStoreConfig :: "string \<Rightarrow> MessageStoreConfig" where
  "NewMessageStoreConfig home =
     (let root = home @ ''/'' @ ''store'' in
     \<lparr>StorePathRootDir = root,
      StorePathCommitLog = root @ ''/'' @ ''commitlog'',
      StorePathConsumeQueue = root @ ''/'' @ ''consumequeue'',
      StorePathIndex = root @ ''/'' @ ''index'',
      StoreCheckpointPath = root @ ''/'' @ ''checkpoint'',
      AbortFile = root @ ''/'' @ ''abort'',
      TranStateTableStorePath = root @ ''/'' @ ''transaction'' @ ''/'' @ ''statetable'',
      TranStateTableMapedFileSize = 2000000 * 1,
      TranRedoLogStorePath = root @ ''/'' @ ''transaction'' @ ''/'' @ ''redolog'',
      TranRedoLogMapedFileSize = 2000000 * CQStoreUnitSize,
      CheckTransactionMessageAtleastInterval = 1000 * 60,
      CheckTransactionMessageTimerInterval = 1000 * 60,
      CheckTransactionMessageEnable = True,
      MapedFileSizeCommitLog = 1024 * 1024 * 1024,
      MapedFileSizeConsumeQueue = 300000 * CQStoreUnitSize,
      FlushIntervalCommitLog = 1000,
      FlushCommitLogTimed = False,
      FlushIntervalConsumeQueue = 1000,
      CleanResourceInterval = 10000,
      DeleteCommitLogFilesInterval = 100,
      DeleteConsumeQueueFilesInterval = 100,
      DestroyMapedFileIntervalForcibly = 1000 * 120,
      RedeleteHangedFileInterval = 1000 * 120,
      DeleteWhen = ''04'',
      DiskMaxUsedSpaceRatio = 75,
      FileReservedTime = 72,
      PutMsgIndexHightWater = 600000,
      MaxMessageSize = 1024 * 512,
      CheckCRCOnRecover = True,
      FlushCommitLogLeastPages = 4,
      FlushConsumeQueueLeastPages = 2,
      FlushCommitLogThoroughInterval = 1000 * 10,
      FlushConsumeQueueThoroughInterval = 1000 * 60,
      MaxTransferBytesOnMessageInMemory = 1024 * 25,
      MaxTransferCountOnMessageInMemory = 32,
      MaxTransferBytesOnMessageInDisk = 1024 * 64,
      MaxTransferCountOnMessageInDisk = 8,
      AccessMessageInMemoryMaxRatio = 40,
      MessageIndexEnable = True,
      MaxHashSlotNum = 5000000,
      MaxIndexNum = 5000000 * 4,
      MaxMsgsNumBatch = 64,
      MessageIndexSafe = False,
      HaListenPort = 10912,
      HaSendHeartbeatInterval = 1000 * 5,
      HaHousekeepingInterval = 1000 * 20,
      HaTransferBatchSize = 1024 * 32,
      HaMasterAddress = [],
      HaSlaveFallbehindMax = 1024 * 1024 * 256,
      BrokerRoleConfig = ASYNC_MASTER,
      FlushDiskTypeConfig = ASYNC_FLUSH,
      SyncFlushTimeout = 1000 * 5,
      MessageDelayLevel = ''1s 5s 10s 30s 1m 2m 3m 4m 5m 6m 7m 8m 9m 10m 20m 30m 1h 2h'',
      FlushDelayOffsetInterval = 1000 * 10,
      CleanFileForciblyEnable = True,
      SynchronizationTypeConfig = SYNCHRONIZATION_LAST\<rparr>)"

text \<open>
  The quotient of two numbers below \<open>2 ^ 31\<close> is far from the limits of \<open>float64\<close>, so the ceiling is
  the exact one. A product above the range of \<open>int32\<close> wraps.
\<close>

definition getMapedFileSizeConsumeQueue :: "MessageStoreConfig \<Rightarrow> int" where
  "getMapedFileSizeConsumeQueue self =
     (let factor = - ((- MapedFileSizeConsumeQueue self) div CQStoreUnitSize) in to_int32 (factor * CQStoreUnitSize))"

definition getDiskMaxUsedSpaceRatio :: "MessageStoreConfig \<Rightarrow> int \<times> MessageStoreConfig" where
  "getDiskMaxUsedSpaceRatio self =
     (let self1 = (if DiskMaxUsedSpaceRatio self < 10 then self\<lparr>DiskMaxUsedSpaceRatio := 10\<rparr> else self);
          self2 = (if DiskMaxUsedSpaceRatio self1 > 95 then self1\<lparr>DiskMaxUsedSpaceRatio := 95\<rparr> else self1)
      in (DiskMaxUsedSpaceRatio self2, self2))"

lemma consume_queue_size:
  assumes "0 < MapedFileSizeConsumeQueue c" and "MapedFileSizeConsumeQueue c + 20 < 2 ^ 31"
  shows "20 dvd getMapedFileSizeConsumeQueue c" and "MapedFileSizeConsumeQueue c \<le> getMapedFileSizeConsumeQueue c"
    and "getMapedFileSizeConsumeQueue c < MapedFileSizeConsumeQueue c + 20"
proof -
  let ?s = "MapedFileSizeConsumeQueue c"
  have e: "- ((- ?s) div 20) * 20 = ?s + (- ?s) mod 20" using div_mult_mod_eq [of "- ?s" 20] by linarith
  have m: "0 \<le> (- ?s) mod 20" "(- ?s) mod 20 < 20" by simp_all
  have "in_int 32 (?s + (- ?s) mod 20)" unfolding in_int_def using assms m by simp linarith
  then have g: "getMapedFileSizeConsumeQueue c = ?s + (- ?s) mod 20"
    using e by (simp add: getMapedFileSizeConsumeQueue_def CQStoreUnitSize_def to_int32_id)
  have "20 dvd - ((- ?s) div 20) * 20" by (rule dvd_triv_right)
  then show "20 dvd getMapedFileSizeConsumeQueue c" unfolding e g .
  show "?s \<le> getMapedFileSizeConsumeQueue c" "getMapedFileSizeConsumeQueue c < ?s + 20" using g m by linarith+
qed

end
