(* ===== verification/CommitLogM.thy ===== *)
theory CommitLogM
  imports MapedFileQueueM MessageM StoreCheckpointM StoreConfig
begin

text \<open>
  \<open>stgstorelog/default_append_message_callback.go\<close> and \<open>commit_log.go\<close>: how a message becomes a
  record of the commit log, the log itself, and its recovery after a restart.

  The commit log's mutex is explicit, since several returns leave it locked. A call that panics is
  \<open>None\<close>. Statistics counters and log output are not modelled; the flush services appear as
  the answer a waiting request gets.
\<close>

section \<open>Checksums\<close>

text \<open>\<open>hash/crc32\<close> with the IEEE polynomial, bit by bit.\<close>

definition crc_bit :: "32 word \<Rightarrow> 32 word" where
  "crc_bit c = (if odd c then drop_bit 1 c XOR 0xEDB88320 else drop_bit 1 c)"

definition crc_byte :: "32 word \<Rightarrow> byte \<Rightarrow> 32 word" where
  "crc_byte c b = (crc_bit ^^ 8) (c XOR ucast b)"

definition Crc32 :: "byte list \<Rightarrow> int" where
  "Crc32 p = sint (NOT (foldl crc_byte (NOT 0) p))"

section \<open>Requests and results\<close>

record DispatchRequest =
  dr_topic :: string
  dr_queueId :: int
  dr_commitLogOffset :: int
  dr_msgSize :: int
  dr_tagsCode :: int
  dr_storeTimestamp :: int
  dr_consumeQueueOffset :: int
  dr_keys :: string
  dr_sysFlag :: int
  dr_preparedTransactionOffset :: int
  dr_producerGroup :: string
  dr_tranStateTableOffset :: int

text \<open>The literal \<open>&DispatchRequest{msgSize: n}\<close>.\<close>

definition dr_size :: "int \<Rightarrow> DispatchRequest" where
  "dr_size n = \<lparr>dr_topic = [], dr_queueId = 0, dr_commitLogOffset = 0, dr_msgSize = n, dr_tagsCode = 0,
     dr_storeTimestamp = 0, dr_consumeQueueOffset = 0, dr_keys = [], dr_sysFlag = 0,
     dr_preparedTransactionOffset = 0, dr_producerGroup = [], dr_tranStateTableOffset = 0\<rparr>"

datatype PutMessageStatus =
    PUTMESSAGE_PUT_OK | FLUSH_DISK_TIMEOUT | FLUSH_SLAVE_TIMEOUT | SLAVE_NOT_AVAILABLE
  | SERVICE_NOT_AVAILABLE | CREATE_MAPEDFILE_FAILED | MESSAGE_ILLEGAL | PUTMESSAGE_UNKNOWN_ERROR

record PutMessageResult =
  pmr_PutMessageStatus :: PutMessageStatus
  pmr_AppendMessageResult :: "AppendMessageResult option"

definition PutMessageResult_isOk :: "PutMessageResult \<Rightarrow> bool" where
  "PutMessageResult_isOk self =
     (case pmr_AppendMessageResult self of None \<Rightarrow> False | Some r \<Rightarrow> Status r = APPENDMESSAGE_PUT_OK)"

section \<open>The append callback\<close>

definition BlankMagicCode :: int where
  "BlankMagicCode = (0xBBCCDDEE XOR 1880681586) + 8"

definition END_FILE_MIN_BLANK_LENGTH :: int where
  "END_FILE_MIN_BLANK_LENGTH = 4 + 4"

text \<open>The state of the callback: its scratch buffer and the commit log's table of queue offsets.\<close>

type_synonym callback_state = "MappedByteBuffer \<times> (string \<Rightarrow> int option)"

definition NewDefaultAppendMessageCallback :: "int \<Rightarrow> MappedByteBuffer" where
  "NewDefaultAppendMessageCallback sz =
     NewMappedByteBuffer (replicate (nat (to_int32 (sz + END_FILE_MIN_BLANK_LENGTH))) 0)
       (to_int32 (sz + END_FILE_MIN_BLANK_LENGTH))"

definition hostStringToBytes :: "string \<Rightarrow> byte list" where
  "hostStringToBytes hostAddr =
     (case SplitHostPort hostAddr of
        Inl e \<Rightarrow> replicate 8 0
      | Inr (host, port) \<Rightarrow>
          (case net_ParseIP host of
             Some ipBytes \<Rightarrow> drop 12 ipBytes | None \<Rightarrow> replicate 4 0) @ Int32ToBytes port)"

definition resetMsgStoreItemMemory :: "MappedByteBuffer \<Rightarrow> int \<Rightarrow> MappedByteBuffer" where
  "resetMsgStoreItemMemory mem len =
     (let mem1 = mem\<lparr>WritePos := 0, Limit := len\<rparr>
      in if WritePos mem1 > Limit mem1 then mem1\<lparr>WritePos := Limit mem1\<rparr> else mem1)"

definition topic_key :: "string \<Rightarrow> int \<Rightarrow> string" where
  "topic_key topic queueId = topic @ ''-'' @ FormatInt queueId"

definition msg_len :: "MessageExtBrokerInner \<Rightarrow> int" where
  "msg_len msg = to_int32 (4 + 4 + 4 + 4 + 4 + 8 + 8 + 4 + 8 + 8 + 8 + 8 + 4 + 8 + 4 +
     int (length (m_Body msg)) + 1 + int (length (bytes_of_string (m_Topic msg))) + 2 +
     int (length (bytes_of_string (m_PropertiesString msg))))"

text \<open>The writes that lay a message out, in order.\<close>

definition msg_fields :: "MessageExtBrokerInner \<Rightarrow> int \<Rightarrow> int \<Rightarrow> byte list list" where
  "msg_fields msg queryOffset physicalOffset =
     [Int32ToBytes (msg_len msg), Int32ToBytes (to_int32 MessageMagicCode), Int32ToBytes (m_BodyCRC msg),
      Int32ToBytes (m_QueueId msg), Int32ToBytes (m_Flag msg), Int64ToBytes queryOffset,
      Int64ToBytes physicalOffset, Int32ToBytes (m_SysFlag msg), Int64ToBytes (m_BornTimestamp msg),
      hostStringToBytes (m_BornHost msg), Int64ToBytes (m_StoreTimestamp msg),
      hostStringToBytes (m_StoreHost msg), Int32ToBytes (m_ReconsumeTimes msg),
      Int64ToBytes (m_PreparedTransactionOffset msg), Int32ToBytes (to_int32 (int (length (m_Body msg))))] @
     (if m_Body msg \<noteq> [] then [m_Body msg] else []) @
     [Int8ToBytes (to_int8 (int (length (bytes_of_string (m_Topic msg))))), bytes_of_string (m_Topic msg),
      Int16ToBytes (to_int16 (int (length (bytes_of_string (m_PropertiesString msg)))))] @
     (if m_PropertiesString msg \<noteq> [] then [bytes_of_string (m_PropertiesString msg)] else [])"

definition DefaultAppendMessageCallback_doAppend ::
    "int \<Rightarrow> (MessageExtBrokerInner, callback_state) append_callback" where
  "DefaultAppendMessageCallback_doAppend maxMessageSize fromOffset mbb maxBlank msgInner s =
     (let (mem, tqt) = s; wroteOffset = fromOffset + WritePos mbb
      in do {
        idr \<leftarrow> CreateMessageId (m_StoreHost msgInner) wroteOffset;
        let msgId = (case idr of Inl e \<Rightarrow> [] | Inr i \<Rightarrow> i);
        let key = topic_key (m_Topic msgInner) (m_QueueId msgInner);
        let queryOffset = (case tqt key of None \<Rightarrow> 0 | Some v \<Rightarrow> v);
        let tqt1 = tqt(key := Some queryOffset);
        let msgLen = msg_len msgInner;
        if msgLen > maxMessageSize
        then Some (append_status MESSAGE_SIZE_EXCEEDED, mbb, (mem, tqt1))
        else if to_int32 (msgLen + END_FILE_MIN_BLANK_LENGTH) > maxBlank
        then if to_int32 (maxBlank - 8) < 0 then None
             else do {
               mem1 \<leftarrow> write_all (resetMsgStoreItemMemory mem maxBlank)
                  [Int32ToBytes maxBlank, Int32ToBytes (to_int32 BlankMagicCode),
                   replicate (nat (to_int32 (maxBlank - 8))) 0];
               data \<leftarrow> MappedByteBuffer_Bytes mem1;
               (mbb1, _) \<leftarrow> MappedByteBuffer_Write mbb data;
               Some (\<lparr>Status = END_OF_FILE, WroteOffset = wroteOffset, WroteBytes = maxBlank, MsgId = msgId,
                      StoreTimestamp = m_StoreTimestamp msgInner, LogicsOffset = queryOffset\<rparr>,
                     mbb1, (mem1, tqt1)) }
        else do {
          mem1 \<leftarrow> write_all (resetMsgStoreItemMemory mem msgLen)
             (msg_fields msgInner queryOffset (fromOffset + WritePos mbb));
          data \<leftarrow> MappedByteBuffer_Bytes mem1;
          (mbb1, _) \<leftarrow> MappedByteBuffer_Write mbb data;
          let tranType = GetTransactionValue (m_SysFlag msgInner);
          let tqt2 = (if tranType = TransactionNotType \<or> tranType = TransactionCommitType
                      then tqt1(key := Some (queryOffset + 1)) else tqt1);
          Some (\<lparr>Status = APPENDMESSAGE_PUT_OK, WroteOffset = wroteOffset, WroteBytes = msgLen, MsgId = msgId,
                 StoreTimestamp = m_StoreTimestamp msgInner, LogicsOffset = queryOffset\<rparr>,
                mbb1, (mem1, tqt2)) } })"

section \<open>The commit log\<close>

record ScheduleMessageService =
  delayLevelTable :: "int \<Rightarrow> int option"
  maxDelayLevel :: int

definition ScheduleMessageService_computeDeliverTimestamp :: "ScheduleMessageService \<Rightarrow> int \<Rightarrow> int \<Rightarrow> int" where
  "ScheduleMessageService_computeDeliverTimestamp self delayLevel timestamp =
     (case delayLevelTable self delayLevel of Some t \<Rightarrow> t + timestamp | None \<Rightarrow> timestamp + 1000)"

record CommitLog =
  cl_MapedFileQueue :: MapedFileQueue
  cl_msgStoreItemMemory :: MappedByteBuffer
  cl_maxMessageSize :: int
  TopicQueueTable :: "string \<Rightarrow> int option"
  cl_locked :: bool
  cl_config :: MessageStoreConfig

text \<open>The first argument is the store's \<open>AllocateMapedFileService\<close>.\<close>

definition NewCommitLog where
  "NewCommitLog service config =
     \<lparr>cl_MapedFileQueue = NewMapedFileQueue (StorePathCommitLog config) (MapedFileSizeCommitLog config) service,
      cl_msgStoreItemMemory = NewDefaultAppendMessageCallback (MaxMessageSize config),
      cl_maxMessageSize = MaxMessageSize config, TopicQueueTable = (\<lambda>_. None), cl_locked = False,
      cl_config = config\<rparr>"

definition CommitLog_Load ::
    "OS \<Rightarrow> error + string list \<Rightarrow> CommitLog \<Rightarrow> (bool \<times> CommitLog \<times> OS) option" where
  "CommitLog_Load os files self =
     map_option (\<lambda>(b, q, os1). (b, self\<lparr>cl_MapedFileQueue := q\<rparr>, os1))
       (MapedFileQueue_load os files (cl_MapedFileQueue self))"

text \<open>\<open>AppendMessageWithCallBack\<close> on the file a pointer names.\<close>

definition append_to ::
    "nat \<Rightarrow> MessageExtBrokerInner \<Rightarrow> CommitLog \<Rightarrow> (AppendMessageResult \<times> CommitLog) option" where
  "append_to i msg self =
     do {
       (result, mf, (mem, tqt)) \<leftarrow> MapedFile_AppendMessageWithCallBack
          (DefaultAppendMessageCallback_doAppend (cl_maxMessageSize self)) (Some msg)
          (cl_msgStoreItemMemory self, TopicQueueTable self) (mapedFiles (cl_MapedFileQueue self) ! i);
       Some (result, self\<lparr>cl_MapedFileQueue := (cl_MapedFileQueue self)
                            \<lparr>mapedFiles := (mapedFiles (cl_MapedFileQueue self))[i := mf]\<rparr>,
                          cl_msgStoreItemMemory := mem, TopicQueueTable := tqt\<rparr>) }"

definition dispatch_of :: "MessageExtBrokerInner \<Rightarrow> AppendMessageResult \<Rightarrow> DispatchRequest" where
  "dispatch_of msg result =
     \<lparr>dr_topic = m_Topic msg, dr_queueId = m_QueueId msg, dr_commitLogOffset = WroteOffset result,
      dr_msgSize = WroteBytes result, dr_tagsCode = m_TagsCode msg, dr_storeTimestamp = m_StoreTimestamp msg,
      dr_consumeQueueOffset = LogicsOffset result, dr_keys = Message_GetKeys msg, dr_sysFlag = m_SysFlag msg,
      dr_preparedTransactionOffset = m_PreparedTransactionOffset msg, dr_producerGroup = ''PGROUP'',
      dr_tranStateTableOffset = m_QueueOffset msg\<rparr>"

text \<open>
  \<open>putMessage\<close>. \<open>storeNow\<close> and \<open>lockNow\<close> are the two clock readings, \<open>flushOk\<close> the answer of the
  group-commit service. The first component is \<open>None\<close> when the call waits for ever for the mutex;
  the second holds the dispatch request that was put.
\<close>

definition CommitLog_putMessage ::
    "int \<Rightarrow> int \<Rightarrow> bool \<Rightarrow> OS \<Rightarrow> MessageExtBrokerInner \<Rightarrow> CommitLog \<Rightarrow>
     (PutMessageResult option \<times> DispatchRequest list \<times> CommitLog \<times> OS) option" where
  "CommitLog_putMessage storeNow lockNow flushOk os msg0 self =
     (if cl_locked self then Some (None, [], self, os)
      else let msg = msg0\<lparr>m_StoreTimestamp := storeNow, m_BodyCRC := Crc32 (m_Body msg0),
                          m_BornTimestamp := lockNow\<rparr>;
               self1 = self\<lparr>cl_locked := True\<rparr>;
               fail = (\<lambda>st r s o1. Some (Some \<lparr>pmr_PutMessageStatus = st, pmr_AppendMessageResult = r\<rparr>, [], s, o1));
               finish = (\<lambda>result s o1.
                 let st = (if FlushDiskTypeConfig (cl_config self) = SYNC_FLUSH \<and> isWaitStoreMsgOK msg \<and> \<not> flushOk
                           then FLUSH_DISK_TIMEOUT else PUTMESSAGE_PUT_OK)
                 in Some (Some \<lparr>pmr_PutMessageStatus = st, pmr_AppendMessageResult = Some result\<rparr>,
                          [dispatch_of msg result], s\<lparr>cl_locked := False\<rparr>, o1))
      in do {
        (r, q1, os1) \<leftarrow> MapedFileQueue_getLastMapedFile os 0 (cl_MapedFileQueue self1);
        let self2 = self1\<lparr>cl_MapedFileQueue := q1\<rparr>;
        case r of
          Inr (Some i) \<Rightarrow>
            do {
              (result, self3) \<leftarrow> append_to i msg self2;
              case Status result of
                APPENDMESSAGE_PUT_OK \<Rightarrow> finish result self3 os1
              | END_OF_FILE \<Rightarrow>
                  do {
                    (r2, q2, os2) \<leftarrow> MapedFileQueue_getLastMapedFile os1 0 (cl_MapedFileQueue self3);
                    let self4 = self3\<lparr>cl_MapedFileQueue := q2\<rparr>;
                    case r2 of
                      Inr (Some j) \<Rightarrow>
                        do { (result2, self5) \<leftarrow> append_to j msg self4; finish result2 self5 os2 }
                    | _ \<Rightarrow> fail CREATE_MAPEDFILE_FAILED (Some result) self4 os2 }
              | MESSAGE_SIZE_EXCEEDED \<Rightarrow> fail MESSAGE_ILLEGAL (Some result) self3 os1
              | APPENDMESSAGE_UNKNOWN_ERROR \<Rightarrow> fail PUTMESSAGE_UNKNOWN_ERROR (Some result) self3 os1 }
        | _ \<Rightarrow> fail CREATE_MAPEDFILE_FAILED None self2 os1 })"

text \<open>Selecting leaves a reference on the file, so the log is returned too.\<close>

definition set_file :: "nat \<Rightarrow> MapedFile \<Rightarrow> CommitLog \<Rightarrow> CommitLog" where
  "set_file i mf self = self\<lparr>cl_MapedFileQueue := (cl_MapedFileQueue self)
     \<lparr>mapedFiles := (mapedFiles (cl_MapedFileQueue self))[i := mf]\<rparr>\<rparr>"

definition CommitLog_getMessage ::
    "int \<Rightarrow> int \<Rightarrow> CommitLog \<Rightarrow> (SelectMapedBufferResult option \<times> CommitLog) option" where
  "CommitLog_getMessage offset sz self =
     do {
       p \<leftarrow> MapedFileQueue_findMapedFileByOffset (cl_MapedFileQueue self) offset (offset = 0);
       case p of
         None \<Rightarrow> Some (None, self)
       | Some i \<Rightarrow>
           if MapedFileSizeCommitLog (cl_config self) = 0 then None
           else do {
             (result, mf) \<leftarrow> MapedFile_selectMapedBufferByPosAndSize (mapedFiles (cl_MapedFileQueue self) ! i)
                (offset smod MapedFileSizeCommitLog (cl_config self)) sz;
             Some (result, set_file i mf self) } }"

definition CommitLog_getData ::
    "int \<Rightarrow> CommitLog \<Rightarrow> (SelectMapedBufferResult option \<times> CommitLog) option" where
  "CommitLog_getData offset self =
     do {
       p \<leftarrow> MapedFileQueue_findMapedFileByOffset (cl_MapedFileQueue self) offset (offset = 0);
       case p of
         None \<Rightarrow> Some (None, self)
       | Some i \<Rightarrow>
           if MapedFileSizeCommitLog (cl_config self) = 0 then None
           else do {
             (result, mf) \<leftarrow> MapedFile_selectMapedBuffer (mapedFiles (cl_MapedFileQueue self) ! i)
                (offset smod MapedFileSizeCommitLog (cl_config self));
             Some (result, set_file i mf self) } }"

definition CommitLog_rollNextFile :: "int \<Rightarrow> CommitLog \<Rightarrow> int option" where
  "CommitLog_rollNextFile offset self =
     (let sz = MapedFileSizeCommitLog (cl_config self)
      in if sz = 0 then None else Some (offset + sz - offset smod sz))"

definition CommitLog_getMinOffset :: "CommitLog \<Rightarrow> int" where
  "CommitLog_getMinOffset self =
     (case MapedFileQueue_getFirstMapedFileOnLock (cl_MapedFileQueue self) of
        Some i \<Rightarrow> fileFromOffset (mapedFiles (cl_MapedFileQueue self) ! i)
      | None \<Rightarrow> - 1)"

definition CommitLog_getMaxOffset :: "CommitLog \<Rightarrow> int" where
  "CommitLog_getMaxOffset self = MapedFileQueue_getMaxOffset (cl_MapedFileQueue self)"

text \<open>The region is released again, on the file it was taken from.\<close>

definition CommitLog_pickupStoretimestamp :: "int \<Rightarrow> int \<Rightarrow> CommitLog \<Rightarrow> (int \<times> CommitLog) option" where
  "CommitLog_pickupStoretimestamp offset sz self =
     (if offset > CommitLog_getMinOffset self
      then do {
        (result, self1) \<leftarrow> CommitLog_getMessage offset sz self;
        case result of
          None \<Rightarrow> Some (- 1, self1)
        | Some r \<Rightarrow>
            do {
              (timestamp, _) \<leftarrow> MappedByteBuffer_ReadInt64 ((smr_MappedByteBuffer r)\<lparr>ReadPos := 56\<rparr>);
              p \<leftarrow> MapedFileQueue_findMapedFileByOffset (cl_MapedFileQueue self) offset (offset = 0);
              case p of
                None \<Rightarrow> None
              | Some i \<Rightarrow> Some (timestamp, set_file i (snd (SelectMapedBufferResult_Release r
                                  (mapedFiles (cl_MapedFileQueue self1) ! i))) self1) } }
      else Some (- 1, self))"

text \<open>\<open>None\<close> when the mutex is held, for which the call waits for ever.\<close>

definition CommitLog_removeQueurFromTopicQueueTable :: "string \<Rightarrow> int \<Rightarrow> CommitLog \<Rightarrow> CommitLog option" where
  "CommitLog_removeQueurFromTopicQueueTable topic queueId self =
     (if cl_locked self then None
      else Some (self\<lparr>TopicQueueTable := (TopicQueueTable self)(topic_key topic queueId := None)\<rparr>))"

text \<open>A \<open>nil\<close> file pointer panics; so does slicing with a negative length.\<close>

definition CommitLog_appendData ::
    "OS \<Rightarrow> int \<Rightarrow> byte list \<Rightarrow> CommitLog \<Rightarrow> (bool \<times> CommitLog \<times> OS) option" where
  "CommitLog_appendData os startOffset data self =
     do {
       (r, q1, os1) \<leftarrow> MapedFileQueue_getLastMapedFile os startOffset (cl_MapedFileQueue self);
       let self1 = self\<lparr>cl_MapedFileQueue := q1\<rparr>;
       case r of
         Inl e \<Rightarrow> Some (False, self1, os1)
       | Inr None \<Rightarrow> None
       | Inr (Some i) \<Rightarrow>
           (let mf = mapedFiles q1 ! i;
                sz = Limit (mappedByteBuffer mf) - WritePos (mappedByteBuffer mf)
            in if int (length data) > sz
               then if sz < 0 then None
               else do {
                 (b1, mf1) \<leftarrow> MapedFile_appendMessage mf (take (nat sz) data);
                 let self2 = set_file i mf1 self1;
                 (r2, q2, os2) \<leftarrow> MapedFileQueue_getLastMapedFile os1 (startOffset + sz) (cl_MapedFileQueue self2);
                 let self3 = self2\<lparr>cl_MapedFileQueue := q2\<rparr>;
                 case r2 of
                   Inl e \<Rightarrow> Some (False, self3, os2)
                 | Inr None \<Rightarrow> None
                 | Inr (Some j) \<Rightarrow>
                     do {
                       (b2, mf2) \<leftarrow> MapedFile_appendMessage (mapedFiles q2 ! j) (drop (nat sz) data);
                       Some (b2, set_file j mf2 self3, os2) } }
               else do {
                 (b1, mf1) \<leftarrow> MapedFile_appendMessage mf data;
                 Some (b1, set_file i mf1 self1, os1) }) }"

definition CommitLog_deleteExpiredFile ::
    "OS \<Rightarrow> int \<Rightarrow> int \<Rightarrow> int \<Rightarrow> bool \<Rightarrow> CommitLog \<Rightarrow> int \<times> CommitLog \<times> OS" where
  "CommitLog_deleteExpiredFile os expiredTime deleteFilesInterval intervalForcibly cleanImmediately self =
     (case MapedFileQueue_deleteExpiredFileByTime os expiredTime deleteFilesInterval intervalForcibly
             cleanImmediately (cl_MapedFileQueue self) of
        (n, q, os1) \<Rightarrow> (n, self\<lparr>cl_MapedFileQueue := q\<rparr>, os1))"

definition CommitLog_retryDeleteFirstFile :: "OS \<Rightarrow> int \<Rightarrow> CommitLog \<Rightarrow> bool \<times> CommitLog \<times> OS" where
  "CommitLog_retryDeleteFirstFile os intervalForcibly self =
     (case MapedFileQueue_retryDeleteFirstFile os intervalForcibly (cl_MapedFileQueue self) of
        (b, q, os1) \<Rightarrow> (b, self\<lparr>cl_MapedFileQueue := q\<rparr>, os1))"

definition CommitLog_destroy :: "OS \<Rightarrow> CommitLog \<Rightarrow> CommitLog \<times> OS" where
  "CommitLog_destroy os self =
     (case MapedFileQueue_destroy os (cl_MapedFileQueue self) of
        (q, os1) \<Rightarrow> (self\<lparr>cl_MapedFileQueue := q\<rparr>, os1))"

section \<open>Checking a record\<close>

definition SCHEDULE_TOPIC :: string where
  "SCHEDULE_TOPIC = ''SCHEDULE_TOPIC_XXX''"

text \<open>\<open>strconv.Atoi\<close> with its error ignored: zero on a syntax error, the nearest bound on overflow.\<close>

definition Atoi_value :: "string \<Rightarrow> int" where
  "Atoi_value s =
     (case ParseInt s of
        Inr x \<Rightarrow> x
      | Inl e \<Rightarrow> if e = ''value out of range''
                then (if hd s = CHR ''-'' then - (2 ^ 63) else 2 ^ 63 - 1) else 0)"

definition tags_code :: "ScheduleMessageService \<Rightarrow> string \<Rightarrow> properties \<Rightarrow> int \<Rightarrow> int \<Rightarrow> int" where
  "tags_code sched topic ps sysFlag timestamp =
     (let tags = prop_at ps ''TAGS'';
          code = (if tags \<noteq> [] then TagsString2tagsCode (ParseTopicFilterType sysFlag) tags else 0)
      in case map_of ps ''DELAY'' of
           None \<Rightarrow> code
         | Some delayLevelStr \<Rightarrow>
             if SCHEDULE_TOPIC = topic
             then (let temp = to_int32 (Atoi_value delayLevelStr);
                       delayLevel = (if temp > maxDelayLevel sched then maxDelayLevel sched else temp)
                   in if delayLevel > 0
                      then ScheduleMessageService_computeDeliverTimestamp sched delayLevel timestamp
                      else code)
             else code)"

text \<open>
  \<open>checkMessageAndReturnSize\<close>: the request built from the record at the read cursor and the buffer
  with its cursor advanced. The size is 0 at the filler that ends a file and \<open>-1\<close> where there is no
  valid record.
\<close>

definition checkMessageAndReturnSize ::
    "ScheduleMessageService \<Rightarrow> MappedByteBuffer \<Rightarrow> bool \<Rightarrow> bool \<Rightarrow> (DispatchRequest \<times> MappedByteBuffer) option" where
  "checkMessageAndReturnSize sched b0 checkCRC readBody =
     (let bufferLen = WritePos b0 - ReadPos b0
      in do {
        (totalSize, b1) \<leftarrow> MappedByteBuffer_ReadInt32 b0;
        (magicCode, b2) \<leftarrow> MappedByteBuffer_ReadInt32 b1;
        if magicCode = to_int32 BlankMagicCode \<and> magicCode \<noteq> to_int32 MessageMagicCode
        then Some (dr_size 0, b2)
        else if magicCode \<noteq> to_int32 MessageMagicCode then Some (dr_size (- 1), b2)
        else if totalSize > to_int32 bufferLen then Some (dr_size (- 1), b2)
        else do {
          (bodyCRC, b3) \<leftarrow> MappedByteBuffer_ReadInt32 b2;
          (queueId, b4) \<leftarrow> MappedByteBuffer_ReadInt32 b3;
          (_, b5) \<leftarrow> MappedByteBuffer_ReadInt32 b4;
          (queueOffset, b6) \<leftarrow> MappedByteBuffer_ReadInt64 b5;
          (physicOffset, b7) \<leftarrow> MappedByteBuffer_ReadInt64 b6;
          (sysFlag, b8) \<leftarrow> MappedByteBuffer_ReadInt32 b7;
          (_, b9) \<leftarrow> MappedByteBuffer_ReadInt64 b8;
          (_, b10) \<leftarrow> MappedByteBuffer_Read b9 8;
          (timestamp, b11) \<leftarrow> MappedByteBuffer_ReadInt64 b10;
          (_, b12) \<leftarrow> MappedByteBuffer_Read b11 8;
          (_, b13) \<leftarrow> MappedByteBuffer_ReadInt32 b12;
          (preparedTransactionOffset, b14) \<leftarrow> MappedByteBuffer_ReadInt64 b13;
          (bodyLen, b15) \<leftarrow> MappedByteBuffer_ReadInt32 b14;
          (crcOk, b16) \<leftarrow>
            (if bodyLen > 0
             then (if readBody
                   then do {
                     (bodyContent, r) \<leftarrow> MappedByteBuffer_Read b15 (nat bodyLen);
                     Some (\<not> checkCRC \<or> Crc32 bodyContent = bodyCRC, r) }
                   else Some (True, b15\<lparr>ReadPos := ReadPos b15 + bodyLen\<rparr>))
             else Some (True, b15));
          if \<not> crcOk then Some (dr_size (- 1), b16)
          else do {
            (topicLen, b17) \<leftarrow> MappedByteBuffer_ReadInt8 b16;
            (topic, b18) \<leftarrow> (if topicLen > 0
              then map_option (apfst string_of_bytes) (MappedByteBuffer_Read b17 (nat topicLen))
              else Some ([], b17));
            (propertiesLength, b19) \<leftarrow> MappedByteBuffer_ReadInt16 b18;
            (keys, tagsCode, b20) \<leftarrow> (if propertiesLength > 0
              then do {
                (pb, r) \<leftarrow> MappedByteBuffer_Read b19 (nat propertiesLength);
                let ps = String2messageProperties (string_of_bytes pb);
                Some (prop_at ps ''KEYS'', tags_code sched topic ps sysFlag timestamp, r) }
              else Some ([], 0, b19));
            Some (\<lparr>dr_topic = topic, dr_queueId = queueId, dr_commitLogOffset = physicOffset,
                   dr_msgSize = totalSize, dr_tagsCode = tagsCode, dr_storeTimestamp = timestamp,
                   dr_consumeQueueOffset = queueOffset, dr_keys = keys, dr_sysFlag = sysFlag,
                   dr_preparedTransactionOffset = preparedTransactionOffset, dr_producerGroup = [],
                   dr_tranStateTableOffset = 0\<rparr>, b20) } } })"

section \<open>Recovery\<close>

text \<open>
  \<open>NewMappedByteBuffer(mf.mappedByteBuffer.Bytes())\<close> with the file's write cursor. The capacity of
  the slice is the size of the mapped region.
\<close>

definition copy_buffer :: "MapedFile \<Rightarrow> MappedByteBuffer option" where
  "copy_buffer mf =
     map_option (\<lambda>bs. (NewMappedByteBuffer bs (int (length (MMapBuf (mappedByteBuffer mf)))))
                        \<lparr>WritePos := WritePos (mappedByteBuffer mf)\<rparr>)
       (MappedByteBuffer_Bytes (mappedByteBuffer mf))"

text \<open>
  The loop of \<open>recoverNormally\<close>. The first file is read through a copy of its buffer, the following
  ones through the file's own buffer, whose read cursor then stays where the loop left it. The
  result is the offset reached and the files; the loop may run on, in which case it has no value.
\<close>

definition put_back :: "bool \<Rightarrow> nat \<Rightarrow> MappedByteBuffer \<Rightarrow> MapedFile list \<Rightarrow> MapedFile list" where
  "put_back live i mbb mfs = (if live then mfs[i := (mfs ! i)\<lparr>mappedByteBuffer := mbb\<rparr>] else mfs)"

partial_function (option) recover_loop ::
    "ScheduleMessageService \<Rightarrow> bool \<Rightarrow> bool \<Rightarrow> nat \<Rightarrow> bool \<Rightarrow> MappedByteBuffer \<Rightarrow> int \<Rightarrow> int \<Rightarrow>
     MapedFile list \<Rightarrow> (int \<times> MapedFile list) option" where
  "recover_loop sched checkCRC readBody index live mbb processOffset mapedFileOffset mfs =
     do {
       (dr, mbb1) \<leftarrow> checkMessageAndReturnSize sched mbb checkCRC readBody;
       let sz = dr_msgSize dr;
       let mfs1 = put_back live index mbb1 mfs;
       if sz > 0
       then recover_loop sched checkCRC readBody index live mbb1 processOffset (mapedFileOffset + sz) mfs1
       else if sz = - 1 then Some (processOffset + mapedFileOffset, mfs1)
       else if sz = 0
       then (if Suc index \<ge> length mfs1 then Some (processOffset + mapedFileOffset, mfs1)
             else recover_loop sched checkCRC readBody (Suc index) True
                    (mappedByteBuffer (mfs1 ! Suc index)) (fileFromOffset (mfs1 ! Suc index)) 0 mfs1)
       else recover_loop sched checkCRC readBody index live mbb1 processOffset mapedFileOffset mfs1 }"

definition CommitLog_recoverNormally ::
    "ScheduleMessageService \<Rightarrow> OS \<Rightarrow> CommitLog \<Rightarrow> (CommitLog \<times> OS) option" where
  "CommitLog_recoverNormally sched os self =
     (let q = cl_MapedFileQueue self; mfs = mapedFiles q; check = CheckCRCOnRecover (cl_config self)
      in if mfs = [] then Some (self, os)
         else (let index = length mfs - 3
               in do {
                 mbb \<leftarrow> copy_buffer (mfs ! index);
                 (processOffset, mfs1) \<leftarrow> recover_loop sched check check index False mbb
                    (fileFromOffset (mfs ! index)) 0 mfs;
                 (q1, os1) \<leftarrow> MapedFileQueue_truncateDirtyFiles os processOffset
                    (q\<lparr>mapedFiles := mfs1, committedWhere := processOffset\<rparr>);
                 Some (self\<lparr>cl_MapedFileQueue := q1\<rparr>, os1) }))"

definition CommitLog_isMapedFileMatchedRecover :: "StoreCheckpoint \<Rightarrow> CommitLog \<Rightarrow> MapedFile \<Rightarrow> bool option" where
  "CommitLog_isMapedFileMatchedRecover scp self mf =
     do {
       byteBuffer \<leftarrow> MappedByteBuffer_Bytes (mappedByteBuffer mf);
       if byteBuffer = [] then Some False
       else do {
         mbb \<leftarrow> copy_buffer mf;
         (magicCode, _) \<leftarrow> MappedByteBuffer_ReadInt32 (mbb\<lparr>ReadPos := 4\<rparr>);
         if magicCode \<noteq> to_int32 MessageMagicCode then Some False
         else do {
           (timestamp, _) \<leftarrow> MappedByteBuffer_ReadInt64 (mbb\<lparr>ReadPos := 56\<rparr>);
           if timestamp = 0 then Some False
           else if MessageIndexEnable (cl_config self) \<and> MessageIndexSafe (cl_config self)
           then Some (timestamp \<le> StoreCheckpoint_getMinTimestampIndex scp)
           else Some (timestamp \<le> StoreCheckpoint_getMinTimestamp scp) } } }"

text \<open>
  The search for the file to start from, from the last file backwards: the position of the file and
  the value of \<open>index\<close>, which the loop decrements once more than it moves.
\<close>

fun find_start :: "StoreCheckpoint \<Rightarrow> CommitLog \<Rightarrow> MapedFile list \<Rightarrow> nat \<Rightarrow> int \<Rightarrow> (nat \<times> int) option" where
  "find_start scp self mfs 0 index = Some (0, index)"
| "find_start scp self mfs (Suc i) index =
     do {
       matched \<leftarrow> CommitLog_isMapedFileMatchedRecover scp self (mfs ! i);
       if matched then Some (i, index - 1) else find_start scp self mfs i (index - 1) }"

text \<open>
  The loop of \<open>recoverAbnormally\<close>, with the requests dispatched so far.
\<close>

partial_function (option) recover_abnormal_loop ::
    "ScheduleMessageService \<Rightarrow> bool \<Rightarrow> int \<Rightarrow> MappedByteBuffer \<Rightarrow> int \<Rightarrow> int \<Rightarrow>
     MapedFile list \<Rightarrow> DispatchRequest list \<Rightarrow> (int \<times> DispatchRequest list) option" where
  "recover_abnormal_loop sched checkCRC index mbb processOffset mapedFileOffset mfs reqs =
     do {
       (dr, mbb1) \<leftarrow> checkMessageAndReturnSize sched mbb checkCRC True;
       let sz = dr_msgSize dr;
       if sz > 0
       then recover_abnormal_loop sched checkCRC index mbb1 processOffset (mapedFileOffset + sz) mfs (reqs @ [dr])
       else if sz = - 1 then Some (processOffset + mapedFileOffset, reqs)
       else if sz = 0
       then (if index + 1 \<ge> int (length mfs) then Some (processOffset + mapedFileOffset, reqs)
             else if index + 1 < 0
             then recover_abnormal_loop sched checkCRC (index + 1) mbb1 processOffset mapedFileOffset mfs reqs
             else do {
               mbb2 \<leftarrow> copy_buffer (mfs ! nat (index + 1));
               recover_abnormal_loop sched checkCRC (index + 1) mbb2
                 (fileFromOffset (mfs ! nat (index + 1))) 0 mfs reqs })
       else recover_abnormal_loop sched checkCRC index mbb1 processOffset mapedFileOffset mfs reqs }"

text \<open>
  \<open>recoverAbnormally\<close> up to the truncation of the commit log; the offset it returns is the one at
  which the store then truncates the consume queues.
\<close>

definition CommitLog_recoverAbnormally ::
    "ScheduleMessageService \<Rightarrow> StoreCheckpoint \<Rightarrow> OS \<Rightarrow> CommitLog \<Rightarrow>
     (int option \<times> DispatchRequest list \<times> CommitLog \<times> OS) option" where
  "CommitLog_recoverAbnormally sched scp os self =
     (let q = cl_MapedFileQueue self; mfs = mapedFiles q
      in if mfs = [] then Some (None, [], self, os)
         else do {
           (i, index) \<leftarrow> find_start scp self mfs (length mfs) (int (length mfs) - 1);
           mbb \<leftarrow> copy_buffer (mfs ! i);
           (processOffset, reqs) \<leftarrow> recover_abnormal_loop sched (CheckCRCOnRecover (cl_config self)) index mbb
              (fileFromOffset (mfs ! i)) 0 mfs [];
           (q1, os1) \<leftarrow> MapedFileQueue_truncateDirtyFiles os processOffset (q\<lparr>committedWhere := processOffset\<rparr>);
           Some (Some processOffset, reqs, self\<lparr>cl_MapedFileQueue := q1\<rparr>, os1) })"


section \<open>Layout of a record\<close>

lemma length_parse_octets: "parse_octets k dot s = Some bs \<Longrightarrow> length bs = k"
  by (induction k arbitrary: dot s bs) (auto split: if_splits option.splits prod.splits)

lemma length_ipv6_groups:
  "ipv6_groups k ip e s = Some (ip1, e1, r) \<Longrightarrow> even (length ip) \<Longrightarrow> length ip \<le> 16 \<Longrightarrow> length ip1 \<le> 16"
proof (induction k arbitrary: ip e s)
  case (Suc k)
  show ?case
  proof (cases "length ip \<ge> 16")
    case False
    with Suc.prems(1) obtain n t where x: "xtoi s = Some (n, t)" "\<not> n > 0xFFFF"
      by (auto split: option.splits if_splits)
    let ?ip = "ip @ [word_of_int (n div 256), word_of_int n]"
    have ip: "even (length ?ip)" "length ?ip \<le> 16" using Suc.prems(2) False by (auto elim!: evenE)
    note IH = Suc.IH [OF _ ip]
    show ?thesis
    proof (cases "t \<noteq> [] \<and> hd t = CHR ''.''")
      case True
      with Suc.prems(1) x False show ?thesis by (auto dest: length_parse_octets split: if_splits)
    next
      case F: False
      show ?thesis
        using Suc.prems(1) x False F ip(2) by (simp add: Let_def split: if_splits) (auto intro: IH)
    qed
  qed (use Suc.prems in simp)
qed simp

lemma length_ParseIP: "net_ParseIP s = Some bs \<Longrightarrow> length bs = 16"
proof -
  assume a: "net_ParseIP s = Some bs"
  show ?thesis
  proof (cases "parseIPv4 s = Some bs")
    case True
    then show ?thesis by (auto simp: parseIPv4_def net_IPv4_def dest: length_parse_octets)
  next
    case False
    with a have "parseIPv6 s = Some bs" by (auto simp: net_ParseIP_def split: option.splits if_splits)
    then show ?thesis
      by (auto simp: parseIPv6_def Let_def dest: length_ipv6_groups split: if_splits option.splits prod.splits)
  qed
qed

lemma length_hostStringToBytes: "length (hostStringToBytes h) = 8"
  by (auto simp: hostStringToBytes_def dest: length_ParseIP split: sum.split option.split prod.split)


text \<open>Messages whose fields fit the record format, including the \<open>int8\<close> length of the topic.\<close>

definition msg_fits :: "MessageExtBrokerInner \<Rightarrow> bool" where
  "msg_fits m \<longleftrightarrow> in_int 32 (m_BodyCRC m) \<and> in_int 32 (m_QueueId m) \<and> in_int 32 (m_Flag m) \<and>
     in_int 32 (m_SysFlag m) \<and> in_int 64 (m_BornTimestamp m) \<and> in_int 64 (m_StoreTimestamp m) \<and>
     in_int 32 (m_ReconsumeTimes m) \<and> in_int 64 (m_PreparedTransactionOffset m) \<and>
     length (m_Topic m) \<le> 127 \<and> length (m_PropertiesString m) < 2 ^ 15 \<and>
     length (m_Body m) < 2 ^ 30 \<and> CreateMessageId (m_StoreHost m) 0 \<noteq> None"

definition record_bytes :: "MessageExtBrokerInner \<Rightarrow> int \<Rightarrow> int \<Rightarrow> byte list" where
  "record_bytes m queryOffset physicalOffset = concat (msg_fields m queryOffset physicalOffset)"

lemma msg_len_eq:
  "msg_fits m \<Longrightarrow> msg_len m =
     91 + int (length (m_Body m)) + int (length (m_Topic m)) + int (length (m_PropertiesString m))"
  by (simp add: msg_len_def msg_fits_def to_int32_id in_int_def)

lemma length_record: "msg_fits m \<Longrightarrow> int (length (record_bytes m q p)) = msg_len m"
  by (simp add: record_bytes_def msg_fields_def msg_len_eq length_hostStringToBytes)

lemma CreateMessageId_offset: "CreateMessageId h 0 \<noteq> None \<Longrightarrow> CreateMessageId h x \<noteq> None"
  by (auto simp: CreateMessageId_def split: sum.splits prod.splits)

text \<open>The scratch buffer is large enough for every message and every filler that reaches it.\<close>

definition mem_ok :: "int \<Rightarrow> MappedByteBuffer \<Rightarrow> bool" where
  "mem_ok maxSize mem \<longleftrightarrow> int (length (MMapBuf mem)) = maxSize + 8"

lemma reset_writes:
  assumes "mem_ok maxSize mem" and "int (length (concat ds)) = n" and "n \<le> maxSize + 8"
  shows "\<exists>mem1. write_all (resetMsgStoreItemMemory mem n) ds = Some mem1 \<and>
     MappedByteBuffer_Bytes mem1 = Some (concat ds) \<and> mem_ok maxSize mem1"
proof -
  have r: "resetMsgStoreItemMemory mem n = mem\<lparr>WritePos := 0, Limit := n\<rparr>"
    using assms(2) by (auto simp: resetMsgStoreItemMemory_def)
  have "int (length ([] @ concat ds)) \<le> Limit (resetMsgStoreItemMemory mem n)"
    "Limit (resetMsgStoreItemMemory mem n) \<le> int (length (MMapBuf (resetMsgStoreItemMemory mem n)))"
    using assms by (simp_all add: r mem_ok_def)
  moreover have "wrote (resetMsgStoreItemMemory mem n) []" by (simp add: r wrote_def)
  ultimately obtain mem1 where "write_all (resetMsgStoreItemMemory mem n) ds = Some mem1"
      "wrote mem1 (concat ds)" "length (MMapBuf mem1) = length (MMapBuf (resetMsgStoreItemMemory mem n))"
    using write_all_wrote [of "resetMsgStoreItemMemory mem n" "[]" ds] by auto
  then show ?thesis using assms(1) by (auto simp: r mem_ok_def dest: wrote_Bytes)
qed

text \<open>The table after a message of a queue was appended at offset \<open>q\<close>.\<close>

definition table_after :: "MessageExtBrokerInner \<Rightarrow> int \<Rightarrow> (string \<Rightarrow> int option) \<Rightarrow> string \<Rightarrow> int option" where
  "table_after m q tqt =
     (let t = GetTransactionValue (m_SysFlag m)
      in tqt(topic_key (m_Topic m) (m_QueueId m) :=
           Some (if t = TransactionNotType \<or> t = TransactionCommitType then q + 1 else q)))"

definition next_queue_offset :: "MessageExtBrokerInner \<Rightarrow> (string \<Rightarrow> int option) \<Rightarrow> int" where
  "next_queue_offset m tqt = (case tqt (topic_key (m_Topic m) (m_QueueId m)) of None \<Rightarrow> 0 | Some v \<Rightarrow> v)"

lemma doAppend_room:
  assumes "msg_fits m" and "mem_ok maxSize mem" and "msg_len m \<le> maxSize" and "msg_len m + 8 \<le> maxBlank"
    and "wrote mbb pre" and "Limit mbb = int (length (MMapBuf mbb))" and "maxBlank \<le> Limit mbb - WritePos mbb"
    and "q = next_queue_offset m tqt" and "p = fromOffset + WritePos mbb"
  shows "\<exists>r mbb1 mem1. DefaultAppendMessageCallback_doAppend maxSize fromOffset mbb maxBlank m (mem, tqt) =
      Some (r, mbb1, (mem1, table_after m q tqt)) \<and>
     Status r = APPENDMESSAGE_PUT_OK \<and> WroteOffset r = p \<and> WroteBytes r = msg_len m \<and> LogicsOffset r = q \<and>
     StoreTimestamp r = m_StoreTimestamp m \<and> mem_ok maxSize mem1 \<and>
     wrote mbb1 (pre @ record_bytes m q p) \<and> Limit mbb1 = Limit mbb \<and>
     length (MMapBuf mbb1) = length (MMapBuf mbb)"
proof -
  have l: "int (length (record_bytes m q p)) = msg_len m" using assms(1) by (rule length_record)
  obtain mem1 where w: "write_all (resetMsgStoreItemMemory mem (msg_len m)) (msg_fields m q p) = Some mem1"
      "MappedByteBuffer_Bytes mem1 = Some (record_bytes m q p)" "mem_ok maxSize mem1"
    using reset_writes [OF assms(2), of "msg_fields m q p" "msg_len m"] assms(3) l
    by (auto simp: record_bytes_def)
  obtain mbb1 where b: "MappedByteBuffer_Write mbb (record_bytes m q p) = Some (mbb1, Inr (msg_len m))"
      "wrote mbb1 (pre @ record_bytes m q p)" "Limit mbb1 = Limit mbb" "length (MMapBuf mbb1) = length (MMapBuf mbb)"
    using wrote_Write [OF assms(5), of "record_bytes m q p"] assms(4-7) l by (auto simp: wrote_def)
  obtain i where i: "CreateMessageId (m_StoreHost m) p = Some i"
    using CreateMessageId_offset [of "m_StoreHost m" p] assms(1) by (auto simp: msg_fits_def)
  have small: "to_int32 (msg_len m + 8) = msg_len m + 8"
    using assms(1) by (simp add: msg_len_eq to_int32_id in_int_def msg_fits_def)
  have t: "(if t then (tqt(k := Some q))(k := Some (q + 1)) else tqt(k := Some q)) =
      tqt(k := Some (if t then q + 1 else q))" for t k by auto
  show ?thesis
    using w b i small assms(3,4,8,9) t
    by (simp add: DefaultAppendMessageCallback_doAppend_def Let_def END_FILE_MIN_BLANK_LENGTH_def
        next_queue_offset_def [symmetric] table_after_def)
qed

definition blank_bytes :: "int \<Rightarrow> byte list" where
  "blank_bytes maxBlank =
     Int32ToBytes maxBlank @ Int32ToBytes (to_int32 BlankMagicCode) @ replicate (nat (maxBlank - 8)) 0"

lemma doAppend_end:
  assumes "msg_fits m" and "mem_ok maxSize mem" and "msg_len m \<le> maxSize" and "maxBlank < msg_len m + 8"
    and "8 \<le> maxBlank"
    and "wrote mbb pre" and "Limit mbb = int (length (MMapBuf mbb))" and "maxBlank \<le> Limit mbb - WritePos mbb"
    and "q = next_queue_offset m tqt" and "p = fromOffset + WritePos mbb"
  shows "\<exists>r mbb1 mem1. DefaultAppendMessageCallback_doAppend maxSize fromOffset mbb maxBlank m (mem, tqt) =
      Some (r, mbb1, (mem1, tqt(topic_key (m_Topic m) (m_QueueId m) := Some q))) \<and>
     Status r = END_OF_FILE \<and> WroteBytes r = maxBlank \<and> mem_ok maxSize mem1 \<and>
     StoreTimestamp r = m_StoreTimestamp m \<and>
     wrote mbb1 (pre @ blank_bytes maxBlank) \<and> Limit mbb1 = Limit mbb \<and>
     length (MMapBuf mbb1) = length (MMapBuf mbb)"
proof -
  let ?ds = "[Int32ToBytes maxBlank, Int32ToBytes (to_int32 BlankMagicCode), replicate (nat (maxBlank - 8)) 0]"
  have l: "int (length (blank_bytes maxBlank)) = maxBlank" using assms(5) by (simp add: blank_bytes_def)
  have c: "concat ?ds = blank_bytes maxBlank" by (simp add: blank_bytes_def)
  obtain mem1 where w: "write_all (resetMsgStoreItemMemory mem maxBlank) ?ds = Some mem1"
      "MappedByteBuffer_Bytes mem1 = Some (blank_bytes maxBlank)" "mem_ok maxSize mem1"
    using reset_writes [OF assms(2), of ?ds maxBlank] assms(3-5) l c by auto
  obtain mbb1 where b: "MappedByteBuffer_Write mbb (blank_bytes maxBlank) = Some (mbb1, Inr maxBlank)"
      "wrote mbb1 (pre @ blank_bytes maxBlank)" "Limit mbb1 = Limit mbb" "length (MMapBuf mbb1) = length (MMapBuf mbb)"
    using wrote_Write [OF assms(6), of "blank_bytes maxBlank"] assms(6-8) l by (auto simp: wrote_def)
  obtain i where i: "CreateMessageId (m_StoreHost m) p = Some i"
    using CreateMessageId_offset [of "m_StoreHost m" p] assms(1) by (auto simp: msg_fits_def)
  have small: "to_int32 (msg_len m + 8) = msg_len m + 8" "to_int32 (maxBlank - 8) = maxBlank - 8"
    using assms(1,4,5) by (simp_all add: msg_len_eq to_int32_id in_int_def msg_fits_def)
  show ?thesis
    using w b i small assms(3,4,5,9,10)
    by (simp add: DefaultAppendMessageCallback_doAppend_def Let_def END_FILE_MIN_BLANK_LENGTH_def
        next_queue_offset_def [symmetric] del: write_all.simps)
qed


section \<open>Reading a record back\<close>

text \<open>The request a record stands for.\<close>

definition record_request ::
    "ScheduleMessageService \<Rightarrow> MessageExtBrokerInner \<Rightarrow> int \<Rightarrow> int \<Rightarrow> DispatchRequest" where
  "record_request sched m q p =
     (let ps = String2messageProperties (m_PropertiesString m)
      in \<lparr>dr_topic = m_Topic m, dr_queueId = m_QueueId m, dr_commitLogOffset = p, dr_msgSize = msg_len m,
          dr_tagsCode = (if m_PropertiesString m = [] then 0
                         else tags_code sched (m_Topic m) ps (m_SysFlag m) (m_StoreTimestamp m)),
          dr_storeTimestamp = m_StoreTimestamp m, dr_consumeQueueOffset = q,
          dr_keys = (if m_PropertiesString m = [] then [] else prop_at ps ''KEYS''), dr_sysFlag = m_SysFlag m,
          dr_preparedTransactionOffset = m_PreparedTransactionOffset m, dr_producerGroup = [],
          dr_tranStateTableOffset = 0\<rparr>)"

text \<open>Moving the read cursor.\<close>

definition adv :: "MappedByteBuffer \<Rightarrow> nat \<Rightarrow> MappedByteBuffer" where
  "adv b k = b\<lparr>ReadPos := ReadPos b + int k\<rparr>"

lemma adv_adv [simp]: "adv (adv b i) j = adv b (i + j)"
  by (simp add: adv_def)

lemma adv_fields [simp]:
  "WritePos (adv b k) = WritePos b" "MMapBuf (adv b k) = MMapBuf b" "ReadPos (adv b k) = ReadPos b + int k"
  "Limit (adv b k) = Limit b"
  by (simp_all add: adv_def)

lemma at_cursor_adv: "at_cursor b (xs @ ys) \<Longrightarrow> at_cursor (adv b (length xs)) ys"
  unfolding adv_def by (rule at_cursor_advance)

lemma Read_adv: "at_cursor b (xs @ ys) \<Longrightarrow> length xs = k \<Longrightarrow> MappedByteBuffer_Read b k = Some (xs, adv b k)"
  using Read_at_cursor [of b xs ys k] by (simp add: adv_def)

lemma ReadInt_adv:
  "at_cursor b (Int8ToBytes x @ ys) \<Longrightarrow> in_int 8 x \<Longrightarrow> MappedByteBuffer_ReadInt8 b = Some (x, adv b 1)"
  "at_cursor b (Int16ToBytes x @ ys) \<Longrightarrow> in_int 16 x \<Longrightarrow> MappedByteBuffer_ReadInt16 b = Some (x, adv b 2)"
  "at_cursor b (Int32ToBytes x @ ys) \<Longrightarrow> in_int 32 x \<Longrightarrow> MappedByteBuffer_ReadInt32 b = Some (x, adv b 4)"
  "at_cursor b (Int64ToBytes x @ ys) \<Longrightarrow> in_int 64 x \<Longrightarrow> MappedByteBuffer_ReadInt64 b = Some (x, adv b 8)"
  by (simp_all add: cursor_reads adv_def)

lemma cursor_steps:
  "at_cursor b (Int8ToBytes x @ ys) \<Longrightarrow> at_cursor (adv b 1) ys"
  "at_cursor b (Int16ToBytes x @ ys) \<Longrightarrow> at_cursor (adv b 2) ys"
  "at_cursor b (Int32ToBytes x @ ys) \<Longrightarrow> at_cursor (adv b 4) ys"
  "at_cursor b (Int64ToBytes x @ ys) \<Longrightarrow> at_cursor (adv b 8) ys"
  using at_cursor_adv [of b "Int8ToBytes x" ys] at_cursor_adv [of b "Int16ToBytes x" ys]
    at_cursor_adv [of b "Int32ToBytes x" ys] at_cursor_adv [of b "Int64ToBytes x" ys] by simp_all

text \<open>The fixed-size part of a record.\<close>

definition head_bytes :: "MessageExtBrokerInner \<Rightarrow> int \<Rightarrow> int \<Rightarrow> byte list" where
  "head_bytes m q p = concat (take 15 (msg_fields m q p))"

definition tail_bytes :: "MessageExtBrokerInner \<Rightarrow> byte list" where
  "tail_bytes m = Int8ToBytes (int (length (m_Topic m))) @ bytes_of_string (m_Topic m) @
     Int16ToBytes (int (length (m_PropertiesString m))) @ bytes_of_string (m_PropertiesString m)"

lemma record_split:
  assumes "msg_fits m"
  shows "record_bytes m q p = head_bytes m q p @ m_Body m @ tail_bytes m"
    and "head_bytes m q p = Int32ToBytes (msg_len m) @ Int32ToBytes (to_int32 MessageMagicCode) @
      Int32ToBytes (m_BodyCRC m) @ Int32ToBytes (m_QueueId m) @ Int32ToBytes (m_Flag m) @ Int64ToBytes q @
      Int64ToBytes p @ Int32ToBytes (m_SysFlag m) @ Int64ToBytes (m_BornTimestamp m) @
      hostStringToBytes (m_BornHost m) @ Int64ToBytes (m_StoreTimestamp m) @ hostStringToBytes (m_StoreHost m) @
      Int32ToBytes (m_ReconsumeTimes m) @ Int64ToBytes (m_PreparedTransactionOffset m) @
      Int32ToBytes (int (length (m_Body m)))"
    and "length (head_bytes m q p) = 88"
  using assms
  by (auto simp: record_bytes_def head_bytes_def tail_bytes_def msg_fields_def msg_fits_def to_int32_id to_int16_id
      to_int8_id in_int_def bytes_of_string_def length_hostStringToBytes)

text \<open>
  What the rest of \<open>checkMessageAndReturnSize\<close> does once the fixed-size part of a record was read:
  \<open>b15\<close> is the buffer at the body.
\<close>

lemma check_head:
  assumes "msg_fits m" and "in_int 64 q" and "in_int 64 p" and "at_cursor b0 (head_bytes m q p @ t)"
    and "msg_len m \<le> WritePos b0 - ReadPos b0" and "WritePos b0 - ReadPos b0 < 2 ^ 31"
  shows "checkMessageAndReturnSize sched b0 checkCRC readBody =
    do {
      (crcOk, b16) \<leftarrow>
        (if m_Body m \<noteq> []
         then (if readBody
               then do {
                 (bodyContent, r) \<leftarrow> MappedByteBuffer_Read (adv b0 88) (length (m_Body m));
                 Some (\<not> checkCRC \<or> Crc32 bodyContent = m_BodyCRC m, r) }
               else Some (True, adv b0 (88 + length (m_Body m))))
         else Some (True, adv b0 88));
      if \<not> crcOk then Some (dr_size (- 1), b16)
      else do {
        (topicLen, b17) \<leftarrow> MappedByteBuffer_ReadInt8 b16;
        (topic, b18) \<leftarrow> (if topicLen > 0
          then map_option (apfst string_of_bytes) (MappedByteBuffer_Read b17 (nat topicLen))
          else Some ([], b17));
        (propertiesLength, b19) \<leftarrow> MappedByteBuffer_ReadInt16 b18;
        (keys, tagsCode, b20) \<leftarrow> (if propertiesLength > 0
          then do {
            (pb, r) \<leftarrow> MappedByteBuffer_Read b19 (nat propertiesLength);
            let ps = String2messageProperties (string_of_bytes pb);
            Some (prop_at ps ''KEYS'', tags_code sched topic ps (m_SysFlag m) (m_StoreTimestamp m), r) }
          else Some ([], 0, b19));
        Some (\<lparr>dr_topic = topic, dr_queueId = m_QueueId m, dr_commitLogOffset = p,
               dr_msgSize = msg_len m, dr_tagsCode = tagsCode, dr_storeTimestamp = m_StoreTimestamp m,
               dr_consumeQueueOffset = q, dr_keys = keys, dr_sysFlag = m_SysFlag m,
               dr_preparedTransactionOffset = m_PreparedTransactionOffset m, dr_producerGroup = [],
               dr_tranStateTableOffset = 0\<rparr>, b20) } }"
proof -
  have fits: "in_int 32 (m_BodyCRC m)" "in_int 32 (m_QueueId m)" "in_int 32 (m_Flag m)" "in_int 32 (m_SysFlag m)"
    "in_int 64 (m_BornTimestamp m)" "in_int 64 (m_StoreTimestamp m)" "in_int 32 (m_ReconsumeTimes m)"
    "in_int 64 (m_PreparedTransactionOffset m)" "in_int 32 (int (length (m_Body m)))" "in_int 32 (msg_len m)"
    using assms(1) by (auto simp: msg_fits_def in_int_def msg_len_eq)
  note c0 = assms(4) [unfolded record_split(2) [OF assms(1)] append_assoc]
  note c1 = cursor_steps(3) [OF c0] and r0 = ReadInt_adv(3) [OF c0 fits(10)]
  note c2 = cursor_steps(3) [OF c1] and r1 = ReadInt_adv(3) [OF c1 to_int32_in]
  note c3 = cursor_steps(3) [OF c2] and r2 = ReadInt_adv(3) [OF c2 fits(1)]
  note c4 = cursor_steps(3) [OF c3] and r3 = ReadInt_adv(3) [OF c3 fits(2)]
  note c5 = cursor_steps(3) [OF c4] and r4 = ReadInt_adv(3) [OF c4 fits(3)]
  note c6 = cursor_steps(4) [OF c5] and r5 = ReadInt_adv(4) [OF c5 assms(2)]
  note c7 = cursor_steps(4) [OF c6] and r6 = ReadInt_adv(4) [OF c6 assms(3)]
  note c8 = cursor_steps(3) [OF c7] and r7 = ReadInt_adv(3) [OF c7 fits(4)]
  note c9 = cursor_steps(4) [OF c8] and r8 = ReadInt_adv(4) [OF c8 fits(5)]
  note c10 = at_cursor_adv [OF c9, unfolded length_hostStringToBytes]
    and r9 = Read_adv [OF c9 length_hostStringToBytes]
  note c11 = cursor_steps(4) [OF c10] and r10 = ReadInt_adv(4) [OF c10 fits(6)]
  note c12 = at_cursor_adv [OF c11, unfolded length_hostStringToBytes]
    and r11 = Read_adv [OF c11 length_hostStringToBytes]
  note c13 = cursor_steps(3) [OF c12] and r12 = ReadInt_adv(3) [OF c12 fits(7)]
  note c14 = cursor_steps(4) [OF c13] and r13 = ReadInt_adv(4) [OF c13 fits(8)]
  note r14 = ReadInt_adv(3) [OF c14 fits(9)]
  note reads = r0 r1 r2 r3 r4 r5 r6 r7 r8 r9 r10 r11 r12 r13 r14
  have "to_int32 (WritePos b0 - ReadPos b0) = WritePos b0 - ReadPos b0"
    using assms(5,6) msg_len_eq [OF assms(1)] by (intro to_int32_id in_int_nonneg) auto
  then show ?thesis
    using assms(5)
    by (simp add: checkMessageAndReturnSize_def reads [simplified] Let_def adv_def [symmetric] add.commute
        cong: if_cong)
qed


lemma check_tail:
  assumes "msg_fits m" and "at_cursor b (tail_bytes m @ rest)" and "n = length (tail_bytes m)"
  shows "do {
        (topicLen, b17) \<leftarrow> MappedByteBuffer_ReadInt8 b;
        (topic, b18) \<leftarrow> (if topicLen > 0
          then map_option (apfst string_of_bytes) (MappedByteBuffer_Read b17 (nat topicLen))
          else Some ([], b17));
        (propertiesLength, b19) \<leftarrow> MappedByteBuffer_ReadInt16 b18;
        (keys, tagsCode, b20) \<leftarrow> (if propertiesLength > 0
          then do {
            (pb, r) \<leftarrow> MappedByteBuffer_Read b19 (nat propertiesLength);
            let ps = String2messageProperties (string_of_bytes pb);
            Some (prop_at ps ''KEYS'', tags_code sched topic ps (m_SysFlag m) (m_StoreTimestamp m), r) }
          else Some ([], 0, b19));
        Some (f topic keys tagsCode, b20) } =
     (let ps = String2messageProperties (m_PropertiesString m)
      in Some (f (m_Topic m) (if m_PropertiesString m = [] then [] else prop_at ps ''KEYS'')
            (if m_PropertiesString m = [] then 0 else tags_code sched (m_Topic m) ps (m_SysFlag m) (m_StoreTimestamp m)),
         adv b n))"
proof -
  let ?tl = "length (m_Topic m)" and ?pl = "length (m_PropertiesString m)"
  have i: "in_int 8 (int ?tl)" "in_int 16 (int ?pl)" using assms(1) by (auto simp: msg_fits_def in_int_def)
  note c0 = assms(2) [unfolded tail_bytes_def append_assoc]
  note c1 = cursor_steps(1) [OF c0] and r0 = ReadInt_adv(1) [OF c0 i(1)]
  note c2 = at_cursor_adv [OF c1, unfolded length_bytes_of_string] and r1 = Read_adv [OF c1 length_bytes_of_string]
  note c3 = cursor_steps(2) [OF c2] and r2 = ReadInt_adv(2) [OF c2 i(2)]
  note r3 = Read_adv [OF c3 length_bytes_of_string]
  have n: "n = 1 + ?tl + 2 + ?pl" using assms(3) by (simp add: tail_bytes_def)
  show ?thesis
    using r0 r1 r2 r3 unfolding n
    by (cases "m_Topic m = []"; cases "m_PropertiesString m = []") (simp_all add: Let_def)
qed

lemma check_record:
  assumes "msg_fits m" and "in_int 64 q" and "in_int 64 p" and "at_cursor b0 (record_bytes m q p @ rest)"
    and "msg_len m \<le> WritePos b0 - ReadPos b0" and "WritePos b0 - ReadPos b0 < 2 ^ 31"
    and "checkCRC \<longrightarrow> m_BodyCRC m = Crc32 (m_Body m)"
  shows "checkMessageAndReturnSize sched b0 checkCRC readBody =
     Some (record_request sched m q p, adv b0 (length (record_bytes m q p)))"
proof -
  have c: "at_cursor b0 (head_bytes m q p @ m_Body m @ tail_bytes m @ rest)"
    using assms(4) by (simp add: record_split(1) [OF assms(1)])
  note cb = at_cursor_adv [OF c, unfolded record_split(3) [OF assms(1)]]
  note ct = at_cursor_adv [OF cb, unfolded adv_adv]
  have r: "MappedByteBuffer_Read (adv b0 88) (length (m_Body m)) = Some (m_Body m, adv b0 (88 + length (m_Body m)))"
    using Read_adv [OF cb refl] by simp
  have l: "length (record_bytes m q p) = 88 + length (m_Body m) + length (tail_bytes m)"
    by (simp add: record_split(1,3) [OF assms(1)])
  show ?thesis
  proof (cases "m_Body m = []")
    case True
    from ct have "at_cursor (adv b0 88) (tail_bytes m @ rest)" by (simp add: True)
    note t = check_tail [OF assms(1) this refl, where sched = sched]
    show ?thesis
      unfolding check_head [OF assms(1-3) c assms(5,6)] record_request_def l
      by (simp add: True t Let_def)
  next
    case False
    note t = check_tail [OF assms(1) ct refl, where sched = sched]
    show ?thesis
      unfolding check_head [OF assms(1-3) c assms(5,6)] record_request_def l
      using assms(7) by (cases readBody) (simp_all add: False r t Let_def)
  qed
qed


lemma blank_magic: "to_int32 BlankMagicCode \<noteq> to_int32 MessageMagicCode" "to_int32 MessageMagicCode \<noteq> 0"
  "to_int32 BlankMagicCode \<noteq> 0"
  by (simp_all add: BlankMagicCode_def MessageMagicCode_def to_int32_def)

lemma check_blank:
  assumes "at_cursor b (blank_bytes n @ rest)" and "in_int 32 n"
  shows "checkMessageAndReturnSize sched b checkCRC readBody = Some (dr_size 0, adv b 8)"
proof -
  note c0 = assms(1) [unfolded blank_bytes_def append_assoc]
  note c1 = cursor_steps(3) [OF c0] and r0 = ReadInt_adv(3) [OF c0 assms(2)]
  note r1 = ReadInt_adv(3) [OF c1 to_int32_in]
  show ?thesis using r0 r1 blank_magic by (simp add: checkMessageAndReturnSize_def)
qed

section \<open>Appending to a file of the log\<close>

lemma room32:
  "mf_inv mf \<Longrightarrow> fileSize mf < 2 ^ 31 \<Longrightarrow>
     to_int32 (to_int32 (fileSize mf) - to_int32 (wrotePostion mf)) = fileSize mf - wrotePostion mf"
  by (simp add: to_int32_id in_int_def mf_inv_def)

lemma content_of_wrote:
  "wrote mbb bs \<Longrightarrow> int (length bs) = n \<Longrightarrow>
     mf_content (mf\<lparr>mappedByteBuffer := mbb, wrotePostion := n, storeTimestamp := t\<rparr>) = bs"
  by (auto simp: mf_content_def wrote_def)

lemma Append_room:
  assumes "mf_inv mf" and "fileSize mf < 2 ^ 31" and "msg_fits m" and "mem_ok maxSize mem"
    and "msg_len m \<le> maxSize" and "msg_len m + 8 \<le> fileSize mf - wrotePostion mf"
    and "q = next_queue_offset m tqt" and "p = fileFromOffset mf + wrotePostion mf"
  shows "\<exists>r mf1 mem1. MapedFile_AppendMessageWithCallBack (DefaultAppendMessageCallback_doAppend maxSize)
        (Some m) (mem, tqt) mf = Some (r, mf1, (mem1, table_after m q tqt)) \<and>
     Status r = APPENDMESSAGE_PUT_OK \<and> WroteOffset r = p \<and> WroteBytes r = msg_len m \<and> LogicsOffset r = q \<and>
     mem_ok maxSize mem1 \<and> mf_inv mf1 \<and> mf_content mf1 = mf_content mf @ record_bytes m q p \<and>
     fileSize mf1 = fileSize mf \<and> fileFromOffset mf1 = fileFromOffset mf \<and> fileName mf1 = fileName mf \<and>
     wrotePostion mf1 = wrotePostion mf + msg_len m"
proof -
  let ?mbb = "mappedByteBuffer mf" and ?blank = "fileSize mf - wrotePostion mf"
  have w: "WritePos ?mbb = wrotePostion mf" "Limit ?mbb = int (length (MMapBuf ?mbb))" "Limit ?mbb = fileSize mf"
    using assms(1) by (auto simp: mf_inv_def)
  have pos: "0 < msg_len m" using assms(3) by (simp add: msg_len_eq)
  obtain r mbb1 mem1 where d: "DefaultAppendMessageCallback_doAppend maxSize (fileFromOffset mf) ?mbb ?blank m (mem, tqt) =
      Some (r, mbb1, (mem1, table_after m q tqt))"
    "Status r = APPENDMESSAGE_PUT_OK" "WroteOffset r = p" "WroteBytes r = msg_len m" "LogicsOffset r = q"
    "mem_ok maxSize mem1" "wrote mbb1 (mf_content mf @ record_bytes m q p)" "Limit mbb1 = Limit ?mbb"
    "length (MMapBuf mbb1) = length (MMapBuf ?mbb)"
    using doAppend_room [OF assms(3-6) mf_inv_wrote [OF assms(1)] w(2) _ assms(7), of p "fileFromOffset mf"]
      w(1,3) assms(8) by auto
  let ?mf1 = "mf\<lparr>mappedByteBuffer := mbb1, wrotePostion := wrotePostion mf + msg_len m,
                 storeTimestamp := StoreTimestamp r\<rparr>"
  have l: "int (length (mf_content mf @ record_bytes m q p)) = wrotePostion mf + msg_len m"
    using length_mf_content [OF assms(1)] length_record [OF assms(3), of q p] by simp
  have "mf_inv ?mf1" using assms(1,6) pos d(7-9) l by (auto simp: mf_inv_def wrote_def)
  moreover have "mf_content ?mf1 = mf_content mf @ record_bytes m q p"
    using d(7) l by (rule content_of_wrote)
  moreover have "wrotePostion mf < fileSize mf" using assms(6) pos by linarith
  ultimately show ?thesis
    using d room32 [OF assms(1,2)] by (simp add: MapedFile_AppendMessageWithCallBack_def Let_def)
qed

lemma Append_end:
  assumes "mf_inv mf" and "fileSize mf < 2 ^ 31" and "msg_fits m" and "mem_ok maxSize mem"
    and "msg_len m \<le> maxSize" and "fileSize mf - wrotePostion mf < msg_len m + 8"
    and "8 \<le> fileSize mf - wrotePostion mf" and "q = next_queue_offset m tqt"
  shows "\<exists>r mf1 mem1. MapedFile_AppendMessageWithCallBack (DefaultAppendMessageCallback_doAppend maxSize)
        (Some m) (mem, tqt) mf =
          Some (r, mf1, (mem1, tqt(topic_key (m_Topic m) (m_QueueId m) := Some q))) \<and>
     Status r = END_OF_FILE \<and> mem_ok maxSize mem1 \<and> mf_inv mf1 \<and> MapedFile_isFull mf1 \<and>
     mf_content mf1 = mf_content mf @ blank_bytes (fileSize mf - wrotePostion mf) \<and>
     fileSize mf1 = fileSize mf \<and> fileFromOffset mf1 = fileFromOffset mf \<and> fileName mf1 = fileName mf"
proof -
  let ?mbb = "mappedByteBuffer mf" and ?blank = "fileSize mf - wrotePostion mf"
  have w: "WritePos ?mbb = wrotePostion mf" "Limit ?mbb = int (length (MMapBuf ?mbb))" "Limit ?mbb = fileSize mf"
    using assms(1) by (auto simp: mf_inv_def)
  obtain r mbb1 mem1 where d: "DefaultAppendMessageCallback_doAppend maxSize (fileFromOffset mf) ?mbb ?blank m (mem, tqt) =
      Some (r, mbb1, (mem1, tqt(topic_key (m_Topic m) (m_QueueId m) := Some q)))"
    "Status r = END_OF_FILE" "WroteBytes r = ?blank"
    "mem_ok maxSize mem1" "wrote mbb1 (mf_content mf @ blank_bytes ?blank)" "Limit mbb1 = Limit ?mbb"
    "length (MMapBuf mbb1) = length (MMapBuf ?mbb)"
    using doAppend_end [OF assms(3-7) mf_inv_wrote [OF assms(1)] w(2) _ assms(8) refl, of "fileFromOffset mf"]
      w(1,3) by auto
  let ?mf1 = "mf\<lparr>mappedByteBuffer := mbb1, wrotePostion := fileSize mf, storeTimestamp := StoreTimestamp r\<rparr>"
  have l: "int (length (mf_content mf @ blank_bytes ?blank)) = fileSize mf"
    using length_mf_content [OF assms(1)] assms(7) by (simp add: blank_bytes_def)
  have "mf_inv ?mf1" using assms(1,7) d(5-7) l by (auto simp: mf_inv_def wrote_def)
  moreover have "mf_content ?mf1 = mf_content mf @ blank_bytes ?blank"
    using d(5) l by (rule content_of_wrote)
  moreover have "wrotePostion mf < fileSize mf" using assms(7) by linarith
  ultimately show ?thesis
    using d room32 [OF assms(1,2)]
    by (simp add: MapedFile_AppendMessageWithCallBack_def Let_def MapedFile_isFull_def)
qed


section \<open>The log as a whole\<close>

text \<open>
  The invariant of a commit log between two calls: a well-formed queue whose last file is full or
  has room for a filler, a scratch buffer of the right size, and files large enough for the largest
  message.
\<close>

definition cl_inv :: "CommitLog \<Rightarrow> bool" where
  "cl_inv cl \<longleftrightarrow> mfq_inv (cl_MapedFileQueue cl) \<and> mem_ok (cl_maxMessageSize cl) (cl_msgStoreItemMemory cl) \<and>
     mfq_mapedFileSize (cl_MapedFileQueue cl) = MapedFileSizeCommitLog (cl_config cl) \<and>
     MapedFileSizeCommitLog (cl_config cl) < 2 ^ 31 \<and>
     0 \<le> cl_maxMessageSize cl \<and> cl_maxMessageSize cl + 8 \<le> MapedFileSizeCommitLog (cl_config cl) \<and>
     (mapedFiles (cl_MapedFileQueue cl) \<noteq> [] \<longrightarrow>
        (let l = last (mapedFiles (cl_MapedFileQueue cl))
         in wrotePostion l = fileSize l \<or> wrotePostion l + 8 \<le> fileSize l))"

lemma cl_inv_last:
  assumes "cl_inv cl" and "mapedFiles (cl_MapedFileQueue cl) \<noteq> []"
  shows "mf_inv (last (mapedFiles (cl_MapedFileQueue cl)))"
    and "fileSize (last (mapedFiles (cl_MapedFileQueue cl))) = MapedFileSizeCommitLog (cl_config cl)"
    and "fileSize (last (mapedFiles (cl_MapedFileQueue cl))) < 2 ^ 31"
  using assms files_from_last [of "mfq_storePath (cl_MapedFileQueue cl)" "mfq_mapedFileSize (cl_MapedFileQueue cl)"
      "mfq_base (cl_MapedFileQueue cl)" "mapedFiles (cl_MapedFileQueue cl)"]
  by (auto simp: cl_inv_def mfq_inv_def file_at_def)

lemma getMessage_in_last:
  assumes "cl_inv cl" and "mapedFiles (cl_MapedFileQueue cl) \<noteq> []"
    and "mf_content (last (mapedFiles (cl_MapedFileQueue cl))) = pre @ data @ post" and "data \<noteq> []"
    and "offset = fileFromOffset (last (mapedFiles (cl_MapedFileQueue cl))) + int (length pre)"
  shows "\<exists>r cl1. CommitLog_getMessage offset (int (length data)) cl = Some (Some r, cl1) \<and>
     MMapBuf (smr_MappedByteBuffer r) = data \<and> StartOffset r = offset"
proof -
  let ?q = "cl_MapedFileQueue cl" and ?sz = "MapedFileSizeCommitLog (cl_config cl)"
  let ?mf = "last (mapedFiles ?q)" and ?n = "length (mapedFiles ?q)"
  have q: "mfq_inv ?q" "mfq_mapedFileSize ?q = ?sz" "0 < ?sz" "0 \<le> mfq_base ?q" "?sz dvd mfq_base ?q"
    using assms(1) by (auto simp: cl_inv_def mfq_inv_def)
  have mi: "mf_inv ?mf" and fs: "fileSize ?mf = ?sz" using cl_inv_last [OF assms(1,2)] by auto
  have fo: "fileFromOffset ?mf = mfq_base ?q + int (?n - 1) * ?sz"
    using files_from_last [OF _ assms(2)] q(1,2) by (auto simp: mfq_inv_def file_at_def)
  have len: "int (length pre) + int (length data) + int (length post) = wrotePostion ?mf"
    using length_mf_content [OF mi] assms(3) by simp
  have lt: "int (length pre) < ?sz" using len assms(4) mi fs by (cases data) (auto simp: mf_inv_def)
  have n: "int ?n * ?sz = int (?n - 1) * ?sz + ?sz"
    using assms(2) by (cases "mapedFiles ?q") (auto simp: distrib_right)
  have o: "offset = mfq_base ?q + int (?n - 1) * ?sz + int (length pre)" using assms(5) fo by simp
  have nn: "0 \<le> int (?n - 1) * ?sz" using q(3) by simp
  have "mfq_base ?q \<le> offset" "offset < mfq_base ?q + int ?n * mfq_mapedFileSize ?q"
    using o lt n nn unfolding q(2) by linarith+
  moreover have "(offset - mfq_base ?q) div ?sz = int (?n - 1)" using o lt q(3) by (simp add: div_add1_eq)
  ultimately have f: "MapedFileQueue_findMapedFileByOffset ?q offset b = Some (Some (?n - 1))" for b
    using findMapedFileByOffset_in(1) [OF q(1)] q(2) by simp
  have dvd: "?sz dvd mfq_base ?q + int (?n - 1) * ?sz" using q(5) by simp
  have "offset mod ?sz = int (length pre)"
    unfolding o using dvd lt by (metis add.commute dvd_imp_mod_0 mod_add_left_eq mod_pos_pos_trivial add_0 of_nat_0_le_iff)
  then have m: "offset smod ?sz = int (length pre)"
    using smod_nonneg [of offset ?sz] q(3,4) o nn by simp
  have "int (length pre) + int (length data) \<le> wrotePostion ?mf" using len by linarith
  from select_by_pos_and_size [OF mi _ _ this] obtain r where r:
    "MapedFile_selectMapedBufferByPosAndSize ?mf (int (length pre)) (int (length data)) =
       Some (Some r, ?mf\<lparr>refCount := refCount ?mf + 1\<rparr>)" "StartOffset r = fileFromOffset ?mf + int (length pre)"
    "MMapBuf (smr_MappedByteBuffer r) = take (nat (int (length data))) (drop (nat (int (length pre))) (mf_content ?mf))"
    by auto
  have "mapedFiles ?q ! (?n - 1) = ?mf" using assms(2) by (simp add: last_conv_nth)
  with f m r q(3) assms(3,5) show ?thesis by (auto simp: CommitLog_getMessage_def)
qed

text \<open>
  \<open>log_has cl off bs\<close>: the bytes are stored at the offset, inside one file. \<open>cl_same\<close>: two logs differ at
  most in the reference counts of their files.
\<close>

definition log_has :: "CommitLog \<Rightarrow> int \<Rightarrow> byte list \<Rightarrow> bool" where
  "log_has cl off bs \<longleftrightarrow> bs \<noteq> [] \<and> mfq_base (cl_MapedFileQueue cl) \<le> off \<and>
     off mod MapedFileSizeCommitLog (cl_config cl) + int (length bs) \<le> MapedFileSizeCommitLog (cl_config cl) \<and>
     off + int (length bs) \<le> CommitLog_getMaxOffset cl \<and>
     take (length bs) (drop (nat (off - mfq_base (cl_MapedFileQueue cl))) (mfq_bytes (cl_MapedFileQueue cl))) = bs"

definition cl_same :: "CommitLog \<Rightarrow> CommitLog \<Rightarrow> bool" where
  "cl_same cl cl1 \<longleftrightarrow> (cl_inv cl \<longrightarrow> cl_inv cl1) \<and>
     mfq_bytes (cl_MapedFileQueue cl1) = mfq_bytes (cl_MapedFileQueue cl) \<and>
     mfq_base (cl_MapedFileQueue cl1) = mfq_base (cl_MapedFileQueue cl) \<and>
     mfq_end (cl_MapedFileQueue cl1) = mfq_end (cl_MapedFileQueue cl) \<and>
     (\<forall>os. mfq_ahead os (cl_MapedFileQueue cl1) = mfq_ahead os (cl_MapedFileQueue cl)) \<and>
     CommitLog_getMaxOffset cl1 = CommitLog_getMaxOffset cl \<and>
     mfq_storePath (cl_MapedFileQueue cl1) = mfq_storePath (cl_MapedFileQueue cl) \<and> cl_config cl1 = cl_config cl \<and>
     TopicQueueTable cl1 = TopicQueueTable cl \<and> cl_locked cl1 = cl_locked cl \<and> cl_maxMessageSize cl1 = cl_maxMessageSize cl"

lemma cl_same_refl [simp]: "cl_same cl cl"
  by (simp add: cl_same_def)

lemma cl_same_trans: "cl_same cl cl1 \<Longrightarrow> cl_same cl1 cl2 \<Longrightarrow> cl_same cl cl2"
  by (simp add: cl_same_def)

lemma cl_same_has: "cl_same cl cl1 \<Longrightarrow> log_has cl1 off bs = log_has cl off bs"
  by (simp add: cl_same_def log_has_def)

lemma files_from_hold:
  "files_from dir sz a mfs \<Longrightarrow> i < length mfs \<Longrightarrow>
     files_from dir sz a (mfs[i := (mfs ! i)\<lparr>refCount := refCount (mfs ! i) + 1\<rparr>])"
proof (induction mfs arbitrary: a i)
  case (Cons m mfs)
  then show ?case by (cases i) (auto simp: file_at_def mf_inv_def MapedFile_isFull_def)
qed simp

lemma hold_same:
  assumes "i < length (mapedFiles (cl_MapedFileQueue cl))"
  shows "cl_same cl (set_file i ((mapedFiles (cl_MapedFileQueue cl) ! i)
           \<lparr>refCount := refCount (mapedFiles (cl_MapedFileQueue cl) ! i) + 1\<rparr>) cl)"
proof -
  let ?fs = "mapedFiles (cl_MapedFileQueue cl)"
  let ?fs1 = "?fs[i := (?fs ! i)\<lparr>refCount := refCount (?fs ! i) + 1\<rparr>]"
  have ne: "?fs \<noteq> []" using assms by auto
  have c: "map mf_content ?fs1 = map mf_content ?fs"
    using assms by (simp add: map_update list_update_same_conv mf_content_def)
  have h: "fileFromOffset (hd ?fs1) = fileFromOffset (hd ?fs)" using ne by (cases ?fs; cases i) auto
  have l: "last ?fs1 = (if i = length ?fs - 1 then (?fs ! i)\<lparr>refCount := refCount (?fs ! i) + 1\<rparr> else last ?fs)"
    using assms ne by (simp add: last_list_update)
  have "last ?fs = ?fs ! (length ?fs - 1)" using ne by (simp add: last_conv_nth)
  then have m: "fileFromOffset (last ?fs1) = fileFromOffset (last ?fs)" "wrotePostion (last ?fs1) = wrotePostion (last ?fs)"
      "fileSize (last ?fs1) = fileSize (last ?fs)"
    using l by auto
  have b: "mfq_base (cl_MapedFileQueue (set_file i ((?fs ! i)\<lparr>refCount := refCount (?fs ! i) + 1\<rparr>) cl)) =
      mfq_base (cl_MapedFileQueue cl)"
    using ne h by (simp add: set_file_def mfq_base_def)
  show ?thesis
    unfolding cl_same_def using files_from_hold [OF _ assms] c m ne b
    by (auto simp: set_file_def cl_inv_def mfq_inv_def mfq_bytes_def mfq_end_def mfq_ahead_def Let_def
        CommitLog_getMaxOffset_def MapedFileQueue_getMaxOffset_def)
qed

lemma getMessage_at:
  assumes "cl_inv cl" and "log_has cl off bs"
  obtains r cl1 where "CommitLog_getMessage off (int (length bs)) cl = Some (Some r, cl1)" and "cl_same cl cl1"
    and "MMapBuf (smr_MappedByteBuffer r) = bs" and "StartOffset r = off" and "Size r = int (length bs)"
    and "WritePos (smr_MappedByteBuffer r) = int (length bs)"
proof -
  let ?q = "cl_MapedFileQueue cl" and ?S = "MapedFileSizeCommitLog (cl_config cl)"
  have q: "mfq_inv ?q" "mfq_mapedFileSize ?q = ?S" "0 < ?S" using assms(1) by (auto simp: cl_inv_def mfq_inv_def)
  have h: "bs \<noteq> []" "mfq_base ?q \<le> off" "off mod ?S + int (length bs) \<le> ?S"
      "off + int (length bs) \<le> MapedFileQueue_getMaxOffset ?q"
      "take (length bs) (drop (nat (off - mfq_base ?q)) (mfq_bytes ?q)) = bs"
    using assms(2) by (auto simp: log_has_def CommitLog_getMaxOffset_def)
  note r = region_of [OF q(1) h(2) _ _ h(4) refl refl, unfolded q(2), OF h(3)]
  let ?i = "nat ((off - mfq_base ?q) div ?S)" and ?p = "off mod ?S"
  let ?mf = "mapedFiles ?q ! ?i"
  have n: "0 < int (length bs)" using h(1) by simp
  have mi: "mf_inv ?mf" using r(3) [OF n] by (simp add: file_at_def)
  obtain sel where sel: "MapedFile_selectMapedBufferByPosAndSize ?mf ?p (int (length bs)) =
       Some (Some sel, ?mf\<lparr>refCount := refCount ?mf + 1\<rparr>)" "StartOffset sel = fileFromOffset ?mf + ?p"
     "Size sel = int (length bs)" "MMapBuf (smr_MappedByteBuffer sel) = take (nat (int (length bs))) (drop (nat ?p) (mf_content ?mf))"
     "WritePos (smr_MappedByteBuffer sel) = int (length bs)"
    using select_by_pos_and_size [OF mi r(5) [OF n] _ r(7) [OF n]] by auto
  have "length bs \<le> nat (wrotePostion ?mf - ?p)" using r(7) [OF n] by linarith
  then have "take (length bs) (drop (nat ?p) (mf_content ?mf)) = bs" using r(9) [OF n] h(5) by simp
  then show ?thesis
    using that [OF _ hold_same [OF r(2) [OF n]]] sel r(1,4,6) [OF n] q(3) by (simp add: CommitLog_getMessage_def)
qed

lemma getMessage_inside:
  assumes "cl_inv cl" and "mfq_base (cl_MapedFileQueue cl) \<le> off" and "off < CommitLog_getMaxOffset cl"
    and "CommitLog_getMessage off n cl = Some (Some r, cl1)"
  shows "off mod MapedFileSizeCommitLog (cl_config cl) + n \<le> MapedFileSizeCommitLog (cl_config cl)"
proof -
  let ?q = "cl_MapedFileQueue cl" and ?S = "MapedFileSizeCommitLog (cl_config cl)"
  have q: "mfq_inv ?q" "mfq_mapedFileSize ?q = ?S" "0 < ?S" using assms(1) by (auto simp: cl_inv_def mfq_inv_def)
  have "off + 1 \<le> MapedFileQueue_getMaxOffset ?q" using assms(3) by (simp add: CommitLog_getMaxOffset_def)
  moreover have "off mod ?S + 1 \<le> ?S" using pos_mod_bound [OF q(3), of off] by linarith
  ultimately have r: "MapedFileQueue_findMapedFileByOffset ?q off (off = 0) = Some (Some (nat ((off - mfq_base ?q) div ?S)))"
      "mf_inv (mapedFiles ?q ! nat ((off - mfq_base ?q) div ?S))" "fileSize (mapedFiles ?q ! nat ((off - mfq_base ?q) div ?S)) = ?S"
      "off smod ?S = off mod ?S"
    using region_of [OF q(1) assms(2) _ _ _ refl refl, of 1] by (simp_all add: q(2) file_at_def)
  then have "off mod ?S + n \<le> wrotePostion (mapedFiles ?q ! nat ((off - mfq_base ?q) div ?S))"
    using assms(4) q(3)
    by (auto simp: CommitLog_getMessage_def MapedFile_selectMapedBufferByPosAndSize_def split: if_splits Option.bind_splits)
  with r(2,3) show ?thesis by (simp add: mf_inv_def)
qed

text \<open>Appending a message that fits the last file.\<close>

lemma append_to_last:
  assumes "cl_inv cl" and "mapedFiles (cl_MapedFileQueue cl) \<noteq> []" and "msg_fits m"
    and "msg_len m \<le> cl_maxMessageSize cl"
    and "l = last (mapedFiles (cl_MapedFileQueue cl))" and "msg_len m + 8 \<le> fileSize l - wrotePostion l"
    and "q = next_queue_offset m (TopicQueueTable cl)" and "p = fileFromOffset l + wrotePostion l"
  shows "\<exists>r cl1. append_to (length (mapedFiles (cl_MapedFileQueue cl)) - 1) m cl = Some (r, cl1) \<and>
     Status r = APPENDMESSAGE_PUT_OK \<and> WroteOffset r = p \<and> WroteBytes r = msg_len m \<and> LogicsOffset r = q \<and>
     cl_inv cl1 \<and> cl_locked cl1 = cl_locked cl \<and> cl_config cl1 = cl_config cl \<and>
     TopicQueueTable cl1 = table_after m q (TopicQueueTable cl) \<and>
     mfq_bytes (cl_MapedFileQueue cl1) = mfq_bytes (cl_MapedFileQueue cl) @ record_bytes m q p \<and>
     mfq_base (cl_MapedFileQueue cl1) = mfq_base (cl_MapedFileQueue cl) \<and>
     mapedFiles (cl_MapedFileQueue cl1) \<noteq> [] \<and>
     mf_content (last (mapedFiles (cl_MapedFileQueue cl1))) = mf_content l @ record_bytes m q p \<and>
     fileFromOffset (last (mapedFiles (cl_MapedFileQueue cl1))) = fileFromOffset l"
proof -
  let ?q = "cl_MapedFileQueue cl" and ?n = "length (mapedFiles (cl_MapedFileQueue cl))"
  note li = cl_inv_last [OF assms(1,2), folded assms(5)]
  have mem: "mem_ok (cl_maxMessageSize cl) (cl_msgStoreItemMemory cl)" using assms(1) by (simp add: cl_inv_def)
  obtain r mf1 mem1 where a: "MapedFile_AppendMessageWithCallBack
      (DefaultAppendMessageCallback_doAppend (cl_maxMessageSize cl)) (Some m)
      (cl_msgStoreItemMemory cl, TopicQueueTable cl) l =
      Some (r, mf1, (mem1, table_after m q (TopicQueueTable cl)))"
    "Status r = APPENDMESSAGE_PUT_OK" "WroteOffset r = p" "WroteBytes r = msg_len m" "LogicsOffset r = q"
    "mem_ok (cl_maxMessageSize cl) mem1" "mf_inv mf1" "mf_content mf1 = mf_content l @ record_bytes m q p"
    "fileSize mf1 = fileSize l" "fileFromOffset mf1 = fileFromOffset l" "fileName mf1 = fileName l"
    "wrotePostion mf1 = wrotePostion l + msg_len m"
    using Append_room [OF li(1,3) assms(3) mem assms(4,6-8)] by blast
  have nth: "mapedFiles ?q ! (?n - 1) = l" using assms(2,5) by (simp add: last_conv_nth)
  let ?q1 = "?q\<lparr>mapedFiles := (mapedFiles ?q)[?n - 1 := mf1]\<rparr>"
  have qi: "mfq_inv ?q" using assms(1) by (simp add: cl_inv_def)
  note e = extend_last [OF qi assms(2) a(7) a(9) [unfolded assms(5)] a(10) [unfolded assms(5)]
      a(11) [unfolded assms(5)] a(8) [unfolded assms(5)] refl]
  have "cl_inv (cl\<lparr>cl_MapedFileQueue := ?q1, cl_msgStoreItemMemory := mem1,
                  TopicQueueTable := table_after m q (TopicQueueTable cl)\<rparr>)"
    using assms(1,6) e(1,4) a(6,9,12) by (simp add: cl_inv_def Let_def)
  with a nth e assms(2,5) show ?thesis by (simp add: append_to_def)
qed

text \<open>A message that does not fit fills the last file up.\<close>

lemma append_to_end:
  assumes "cl_inv cl" and "mapedFiles (cl_MapedFileQueue cl) \<noteq> []" and "msg_fits m"
    and "msg_len m \<le> cl_maxMessageSize cl"
    and "l = last (mapedFiles (cl_MapedFileQueue cl))" and "fileSize l - wrotePostion l < msg_len m + 8"
    and "wrotePostion l \<noteq> fileSize l" and "q = next_queue_offset m (TopicQueueTable cl)"
  shows "\<exists>r cl1. append_to (length (mapedFiles (cl_MapedFileQueue cl)) - 1) m cl = Some (r, cl1) \<and>
     Status r = END_OF_FILE \<and> cl_inv cl1 \<and> cl_locked cl1 = cl_locked cl \<and> cl_config cl1 = cl_config cl \<and>
     cl_maxMessageSize cl1 = cl_maxMessageSize cl \<and>
     TopicQueueTable cl1 = (TopicQueueTable cl)(topic_key (m_Topic m) (m_QueueId m) := Some q) \<and>
     cl_MapedFileQueue cl1 = (cl_MapedFileQueue cl)\<lparr>mapedFiles := mapedFiles (cl_MapedFileQueue cl1)\<rparr> \<and>
     mfq_bytes (cl_MapedFileQueue cl1) = mfq_bytes (cl_MapedFileQueue cl) @ blank_bytes (fileSize l - wrotePostion l) \<and>
     mapedFiles (cl_MapedFileQueue cl1) \<noteq> [] \<and> MapedFile_isFull (last (mapedFiles (cl_MapedFileQueue cl1))) \<and>
     fileFromOffset (last (mapedFiles (cl_MapedFileQueue cl1))) = fileFromOffset l"
proof -
  let ?q = "cl_MapedFileQueue cl" and ?n = "length (mapedFiles (cl_MapedFileQueue cl))"
  note li = cl_inv_last [OF assms(1,2), folded assms(5)]
  have mem: "mem_ok (cl_maxMessageSize cl) (cl_msgStoreItemMemory cl)" using assms(1) by (simp add: cl_inv_def)
  have room: "8 \<le> fileSize l - wrotePostion l" using assms(1,2,5,7) by (auto simp: cl_inv_def Let_def)
  obtain r mf1 mem1 where a: "MapedFile_AppendMessageWithCallBack
      (DefaultAppendMessageCallback_doAppend (cl_maxMessageSize cl)) (Some m)
      (cl_msgStoreItemMemory cl, TopicQueueTable cl) l =
      Some (r, mf1, (mem1, (TopicQueueTable cl)(topic_key (m_Topic m) (m_QueueId m) := Some q)))"
    "Status r = END_OF_FILE" "mem_ok (cl_maxMessageSize cl) mem1" "mf_inv mf1" "MapedFile_isFull mf1"
    "mf_content mf1 = mf_content l @ blank_bytes (fileSize l - wrotePostion l)"
    "fileSize mf1 = fileSize l" "fileFromOffset mf1 = fileFromOffset l" "fileName mf1 = fileName l"
    using Append_end [OF li(1,3) assms(3) mem assms(4,6) room assms(8)] by blast
  have nth: "mapedFiles ?q ! (?n - 1) = l" using assms(2,5) by (simp add: last_conv_nth)
  let ?q1 = "?q\<lparr>mapedFiles := (mapedFiles ?q)[?n - 1 := mf1]\<rparr>"
  have qi: "mfq_inv ?q" using assms(1) by (simp add: cl_inv_def)
  note e = extend_last [OF qi assms(2) a(4) a(7) [unfolded assms(5)] a(8) [unfolded assms(5)]
      a(9) [unfolded assms(5)] a(6) [unfolded assms(5)] refl]
  have "cl_inv (cl\<lparr>cl_MapedFileQueue := ?q1, cl_msgStoreItemMemory := mem1,
                  TopicQueueTable := (TopicQueueTable cl)(topic_key (m_Topic m) (m_QueueId m) := Some q)\<rparr>)"
    using assms(1) e(1,4) a(3,5) by (simp add: cl_inv_def Let_def MapedFile_isFull_def)
  with a nth e assms(2,5) show ?thesis by (simp add: append_to_def)
qed


lemma cl_inv_locked [simp]: "cl_inv (cl\<lparr>cl_locked := b\<rparr>) = cl_inv cl"
  by (simp add: cl_inv_def)

lemma grow_cl_inv:
  assumes "cl_inv cl" and "can_grow os start (cl_MapedFileQueue cl)"
    and "mapedFiles (cl_MapedFileQueue cl) \<noteq> [] \<longrightarrow> MapedFile_isFull (last (mapedFiles (cl_MapedFileQueue cl)))"
  shows "\<exists>q1 os1. MapedFileQueue_getLastMapedFile os start (cl_MapedFileQueue cl) =
      Some (Inr (Some (length (mapedFiles q1) - 1)), q1, os1) \<and> cl_inv (cl\<lparr>cl_MapedFileQueue := q1\<rparr>) \<and>
     mapedFiles q1 \<noteq> [] \<and> wrotePostion (last (mapedFiles q1)) = 0 \<and> mfq_bytes q1 = mfq_bytes (cl_MapedFileQueue cl)"
proof -
  let ?q = "cl_MapedFileQueue cl"
  have q: "mfq_inv ?q" "0 < mfq_mapedFileSize ?q" using assms(1) by (auto simp: cl_inv_def mfq_inv_def)
  obtain os1 where g: "MapedFileQueue_getLastMapedFile os start ?q = Some (Inr (Some (length (mapedFiles ?q))),
       ?q\<lparr>mapedFiles := mapedFiles ?q @ [(fresh_file (mfq_storePath ?q) (next_offset start ?q)
          (mfq_mapedFileSize ?q))\<lparr>firstCreateInQueue := (mapedFiles ?q = [])\<rparr>]\<rparr>, os1)"
    using getLastMapedFile_grow [OF q(1) assms(3,2)] by blast
  let ?q1 = "?q\<lparr>mapedFiles := mapedFiles ?q @ [(fresh_file (mfq_storePath ?q) (next_offset start ?q)
          (mfq_mapedFileSize ?q))\<lparr>firstCreateInQueue := (mapedFiles ?q = [])\<rparr>]\<rparr>"
  note gi = grow_inv [OF q(1) assms(3,2), where b = "mapedFiles ?q = []", OF refl]
  have "cl_inv (cl\<lparr>cl_MapedFileQueue := ?q1\<rparr>)"
    using assms(1) gi(1) by (simp add: cl_inv_def fresh_file_def Let_def)
  then show ?thesis using g gi(2) by (auto simp: fresh_file_def)
qed

text \<open>
  What a put leaves alone: the settings of the log, the start of its first file, and that the files
  ahead of it can be created.
\<close>

definition cl_frame :: "OS \<Rightarrow> CommitLog \<Rightarrow> OS \<Rightarrow> CommitLog \<Rightarrow> bool" where
  "cl_frame os cl os1 cl1 \<longleftrightarrow> cl_config cl1 = cl_config cl \<and> cl_maxMessageSize cl1 = cl_maxMessageSize cl \<and>
     mfq_storePath (cl_MapedFileQueue cl1) = mfq_storePath (cl_MapedFileQueue cl) \<and>
     mfq_base (cl_MapedFileQueue cl1) = mfq_base (cl_MapedFileQueue cl) \<and>
     (mfq_ahead os (cl_MapedFileQueue cl) \<longrightarrow> mfq_ahead os1 (cl_MapedFileQueue cl1))"

lemma cl_frame_trans: "cl_frame os cl os1 cl1 \<Longrightarrow> cl_frame os1 cl1 os2 cl2 \<Longrightarrow> cl_frame os cl os2 cl2"
  by (simp add: cl_frame_def)

lemma cl_frame_locked [simp]: "cl_frame os cl os1 (cl1\<lparr>cl_locked := b\<rparr>) = cl_frame os cl os1 cl1"
  "cl_frame os (cl\<lparr>cl_locked := b\<rparr>) os1 cl1 = cl_frame os cl os1 cl1"
  by (simp_all add: cl_frame_def)

lemma cl_frame_refl: "cl_frame os cl os cl"
  by (simp add: cl_frame_def)

lemma append_to_frame: "append_to i m cl = Some (r, cl1) \<Longrightarrow> cl_frame os cl os cl1"
proof -
  assume "append_to i m cl = Some (r, cl1)"
  then obtain mf mem tqt where a: "MapedFile_AppendMessageWithCallBack
      (DefaultAppendMessageCallback_doAppend (cl_maxMessageSize cl)) (Some m)
      (cl_msgStoreItemMemory cl, TopicQueueTable cl) (mapedFiles (cl_MapedFileQueue cl) ! i) = Some (r, mf, mem, tqt)"
    and c: "cl1 = cl\<lparr>cl_MapedFileQueue := (cl_MapedFileQueue cl)\<lparr>mapedFiles := (mapedFiles (cl_MapedFileQueue cl))[i := mf]\<rparr>,
                     cl_msgStoreItemMemory := mem, TopicQueueTable := tqt\<rparr>"
    by (auto simp: append_to_def split: Option.bind_splits)
  have "fileFromOffset mf = fileFromOffset (mapedFiles (cl_MapedFileQueue cl) ! i)"
    using a by (auto simp: MapedFile_AppendMessageWithCallBack_def Let_def split: if_splits Option.bind_splits)
  then have "mfq_base (cl_MapedFileQueue cl1) = mfq_base (cl_MapedFileQueue cl)"
    by (cases "mapedFiles (cl_MapedFileQueue cl)"; cases i) (auto simp: c mfq_base_def)
  then show ?thesis by (simp add: cl_frame_def mfq_ahead_def mfq_end_def) (simp add: c)
qed

lemma getLast_frame:
  assumes "mfq_inv (cl_MapedFileQueue cl)" and "can_grow os 0 (cl_MapedFileQueue cl)"
    and "mapedFiles (cl_MapedFileQueue cl) \<noteq> [] \<longrightarrow> MapedFile_isFull (last (mapedFiles (cl_MapedFileQueue cl)))"
    and "MapedFileQueue_getLastMapedFile os 0 (cl_MapedFileQueue cl) = Some (r, q1, os1)"
  shows "cl_frame os cl os1 (cl\<lparr>cl_MapedFileQueue := q1\<rparr>)"
proof -
  let ?q = "cl_MapedFileQueue cl"
  let ?q1 = "?q\<lparr>mapedFiles := mapedFiles ?q @ [(fresh_file (mfq_storePath ?q) (next_offset 0 ?q)
          (mfq_mapedFileSize ?q))\<lparr>firstCreateInQueue := (mapedFiles ?q = [])\<rparr>]\<rparr>"
  have q1: "q1 = ?q1" using getLastMapedFile_grow [OF assms(1,3,2)] assms(4) by auto
  have n: "mapedFiles ?q = [] \<Longrightarrow> next_offset 0 ?q = mfq_base ?q"
    using assms(1) by (simp add: next_offset_def mfq_base_def mfq_inv_def smod_nonneg)
  have "mfq_ahead os1 q1" if "mfq_ahead os ?q"
    using getLast_grow_ahead [OF assms(1,3) that assms(2) refl] assms(4) by auto
  moreover have "mfq_base q1 = mfq_base ?q" using grow_inv(3) [OF assms(1,3,2) q1] n by simp
  ultimately show ?thesis by (simp add: cl_frame_def) (simp add: q1)
qed

text \<open>What a successful \<open>putMessage\<close> of the stamped message \<open>m\<close> leaves behind.\<close>

definition put_done :: "MessageExtBrokerInner \<Rightarrow> int \<Rightarrow> CommitLog \<Rightarrow> AppendMessageResult \<Rightarrow> CommitLog \<Rightarrow> bool" where
  "put_done m q cl r cl1 \<longleftrightarrow> Status r = APPENDMESSAGE_PUT_OK \<and> LogicsOffset r = q \<and> WroteBytes r = msg_len m \<and>
     cl_inv cl1 \<and> TopicQueueTable cl1 = table_after m q (TopicQueueTable cl) \<and>
     (\<exists>gap. mfq_bytes (cl_MapedFileQueue cl1) =
        mfq_bytes (cl_MapedFileQueue cl) @ gap @ record_bytes m q (WroteOffset r)) \<and>
     WroteOffset r + WroteBytes r = CommitLog_getMaxOffset cl1 \<and>
     (\<exists>sel cl2. CommitLog_getMessage (WroteOffset r) (WroteBytes r) cl1 = Some (Some sel, cl2) \<and>
        MMapBuf (smr_MappedByteBuffer sel) = record_bytes m q (WroteOffset r))"

lemma table_after_upd:
  "table_after m q (t(topic_key (m_Topic m) (m_QueueId m) := x)) = table_after m q t"
  by (simp add: table_after_def Let_def)

lemma append_to_last_done:
  assumes "cl_inv cl" and "mapedFiles (cl_MapedFileQueue cl) \<noteq> []" and "msg_fits m"
    and "msg_len m \<le> cl_maxMessageSize cl"
    and "l = last (mapedFiles (cl_MapedFileQueue cl))" and "msg_len m + 8 \<le> fileSize l - wrotePostion l"
    and "q = next_queue_offset m (TopicQueueTable cl)"
    and "table_after m q (TopicQueueTable cl) = table_after m q (TopicQueueTable cl0)"
    and "mfq_bytes (cl_MapedFileQueue cl) = mfq_bytes (cl_MapedFileQueue cl0) @ gap"
  shows "\<exists>r cl1. append_to (length (mapedFiles (cl_MapedFileQueue cl)) - 1) m cl = Some (r, cl1) \<and>
     put_done m q cl0 r cl1 \<and> Status r = APPENDMESSAGE_PUT_OK \<and> cl_config cl1 = cl_config cl"
proof -
  let ?p = "fileFromOffset l + wrotePostion l" and ?rec = "\<lambda>p. record_bytes m q p"
  obtain r cl1 where a: "append_to (length (mapedFiles (cl_MapedFileQueue cl)) - 1) m cl = Some (r, cl1)"
    "Status r = APPENDMESSAGE_PUT_OK" "WroteOffset r = ?p" "WroteBytes r = msg_len m" "LogicsOffset r = q"
    "cl_inv cl1" "cl_config cl1 = cl_config cl" "TopicQueueTable cl1 = table_after m q (TopicQueueTable cl)"
    "mfq_bytes (cl_MapedFileQueue cl1) = mfq_bytes (cl_MapedFileQueue cl) @ ?rec ?p"
    "mapedFiles (cl_MapedFileQueue cl1) \<noteq> []"
    "mf_content (last (mapedFiles (cl_MapedFileQueue cl1))) = mf_content l @ ?rec ?p"
    "fileFromOffset (last (mapedFiles (cl_MapedFileQueue cl1))) = fileFromOffset l"
    using append_to_last [OF assms(1-7) refl] by blast
  have len: "int (length (?rec ?p)) = msg_len m" using assms(3) by (rule length_record)
  then have ne: "?rec ?p \<noteq> []" using msg_len_eq [OF assms(3)] by auto
  have w: "wrotePostion l = int (length (mf_content l))"
    using length_mf_content cl_inv_last(1) [OF assms(1,2)] assms(5) by simp
  have "mf_inv (last (mapedFiles (cl_MapedFileQueue cl1)))" using cl_inv_last(1) [OF a(6,10)] .
  from length_mf_content [OF this] have "CommitLog_getMaxOffset cl1 = ?p + msg_len m"
    using a(10-12) w len by (simp add: CommitLog_getMaxOffset_def MapedFileQueue_getMaxOffset_def Let_def)
  moreover have "\<exists>sel cl2. CommitLog_getMessage ?p (msg_len m) cl1 = Some (Some sel, cl2) \<and>
      MMapBuf (smr_MappedByteBuffer sel) = ?rec ?p"
    using getMessage_in_last [OF a(6,10), of "mf_content l" "?rec ?p" "[]" ?p] a(11,12) ne w len by auto
  ultimately show ?thesis using a assms(8,9) by (auto simp: put_done_def)
qed

text \<open>The message as \<open>putMessage\<close> stamps it.\<close>

definition stamped :: "int \<Rightarrow> int \<Rightarrow> MessageExtBrokerInner \<Rightarrow> MessageExtBrokerInner" where
  "stamped storeNow lockNow msg = msg\<lparr>m_StoreTimestamp := storeNow, m_BodyCRC := Crc32 (m_Body msg),
     m_BornTimestamp := lockNow\<rparr>"

definition put_status :: "bool \<Rightarrow> MessageExtBrokerInner \<Rightarrow> CommitLog \<Rightarrow> PutMessageStatus" where
  "put_status flushOk m cl =
     (if FlushDiskTypeConfig (cl_config cl) = SYNC_FLUSH \<and> isWaitStoreMsgOK m \<and> \<not> flushOk
      then FLUSH_DISK_TIMEOUT else PUTMESSAGE_PUT_OK)"

lemma put_ok_first:
  assumes "\<not> cl_locked cl" and "m = stamped storeNow lockNow msg"
    and "MapedFileQueue_getLastMapedFile os 0 (cl_MapedFileQueue cl) = Some (Inr (Some i), q1, os1)"
    and "append_to i m (cl\<lparr>cl_locked := True, cl_MapedFileQueue := q1\<rparr>) = Some (r, cl1)"
    and "Status r = APPENDMESSAGE_PUT_OK"
  shows "CommitLog_putMessage storeNow lockNow flushOk os msg cl =
     Some (Some \<lparr>pmr_PutMessageStatus = put_status flushOk m cl, pmr_AppendMessageResult = Some r\<rparr>,
           [dispatch_of m r], cl1\<lparr>cl_locked := False\<rparr>, os1)"
  using assms by (simp add: CommitLog_putMessage_def stamped_def put_status_def Let_def)

lemma put_ok_second:
  assumes "\<not> cl_locked cl" and "m = stamped storeNow lockNow msg"
    and "MapedFileQueue_getLastMapedFile os 0 (cl_MapedFileQueue cl) = Some (Inr (Some i), q1, os1)"
    and "append_to i m (cl\<lparr>cl_locked := True, cl_MapedFileQueue := q1\<rparr>) = Some (r0, cl0)"
    and "Status r0 = END_OF_FILE"
    and "MapedFileQueue_getLastMapedFile os1 0 (cl_MapedFileQueue cl0) = Some (Inr (Some j), q2, os2)"
    and "append_to j m (cl0\<lparr>cl_MapedFileQueue := q2\<rparr>) = Some (r, cl1)"
  shows "CommitLog_putMessage storeNow lockNow flushOk os msg cl =
     Some (Some \<lparr>pmr_PutMessageStatus = put_status flushOk m cl, pmr_AppendMessageResult = Some r\<rparr>,
           [dispatch_of m r], cl1\<lparr>cl_locked := False\<rparr>, os2)"
  using assms by (simp add: CommitLog_putMessage_def stamped_def put_status_def Let_def)


lemma getMessage_unlock:
  "CommitLog_getMessage o1 sz cl = Some (sel, cl2) \<Longrightarrow>
     \<exists>cl3. CommitLog_getMessage o1 sz (cl\<lparr>cl_locked := b\<rparr>) = Some (sel, cl3)"
proof (cases "MapedFileQueue_findMapedFileByOffset (cl_MapedFileQueue cl) o1 (o1 = 0)")
  case (Some p)
  assume "CommitLog_getMessage o1 sz cl = Some (sel, cl2)"
  with Some show ?thesis
    by (cases p) (auto simp: CommitLog_getMessage_def Option.bind_eq_Some_conv split: if_splits)
qed (simp add: CommitLog_getMessage_def)

lemma put_done_unlock: "put_done m q cl r cl1 \<Longrightarrow> put_done m q cl r (cl1\<lparr>cl_locked := b\<rparr>)"
  unfolding put_done_def using getMessage_unlock [of _ _ cl1 _ _ b]
  by (fastforce simp: CommitLog_getMaxOffset_def)

lemma finish_put:
  assumes "CommitLog_putMessage storeNow lockNow flushOk os msg cl =
       Some (Some res, [dispatch_of m r], cl1\<lparr>cl_locked := False\<rparr>, os1)"
    and "res = \<lparr>pmr_PutMessageStatus = st, pmr_AppendMessageResult = Some r\<rparr>" and "put_done m k cl r cl1"
    and "cl_frame os cl os1 cl1"
  shows "\<exists>r cl1 os1. CommitLog_putMessage storeNow lockNow flushOk os msg cl =
       Some (Some \<lparr>pmr_PutMessageStatus = st, pmr_AppendMessageResult = Some r\<rparr>, [dispatch_of m r], cl1, os1) \<and>
     put_done m k cl r cl1 \<and> \<not> cl_locked cl1 \<and> cl_frame os cl os1 cl1"
  using assms put_done_unlock [OF assms(3), of False]
  by (intro exI [of _ r] exI [of _ "cl1\<lparr>cl_locked := False\<rparr>"] exI [of _ os1]) simp

lemma putMessage_stores_frame:
  assumes "cl_inv cl" and "\<not> cl_locked cl" and "can_grow os 0 (cl_MapedFileQueue cl)"
    and "m = stamped storeNow lockNow msg" and "msg_fits m" and "msg_len m \<le> cl_maxMessageSize cl"
  shows "\<exists>r cl1 os1. CommitLog_putMessage storeNow lockNow flushOk os msg cl =
       Some (Some \<lparr>pmr_PutMessageStatus = put_status flushOk m cl, pmr_AppendMessageResult = Some r\<rparr>,
             [dispatch_of m r], cl1, os1) \<and>
     put_done m (next_queue_offset m (TopicQueueTable cl)) cl r cl1 \<and> \<not> cl_locked cl1 \<and> cl_frame os cl os1 cl1"
proof -
  let ?q = "cl_MapedFileQueue cl" and ?k = "next_queue_offset m (TopicQueueTable cl)"
  let ?clL = "cl\<lparr>cl_locked := True\<rparr>"
  have i: "cl_inv ?clL" "can_grow os 0 (cl_MapedFileQueue ?clL)" using assms(1,3) by simp_all
  have qi: "mfq_inv ?q" using assms(1) by (simp add: cl_inv_def)
  have sz: "cl_maxMessageSize cl + 8 \<le> MapedFileSizeCommitLog (cl_config cl)" using assms(1) by (simp add: cl_inv_def)
  show ?thesis
  proof (cases "mapedFiles ?q = [] \<or> MapedFile_isFull (last (mapedFiles ?q))")
    case True
    then have t: "mapedFiles (cl_MapedFileQueue ?clL) \<noteq> [] \<longrightarrow>
        MapedFile_isFull (last (mapedFiles (cl_MapedFileQueue ?clL)))" by auto
    obtain q1 os1 where g: "MapedFileQueue_getLastMapedFile os 0 ?q = Some (Inr (Some (length (mapedFiles q1) - 1)), q1, os1)"
      "cl_inv (?clL\<lparr>cl_MapedFileQueue := q1\<rparr>)" "mapedFiles q1 \<noteq> []" "wrotePostion (last (mapedFiles q1)) = 0"
      "mfq_bytes q1 = mfq_bytes ?q"
      using grow_cl_inv [OF i t] by auto
    let ?c = "?clL\<lparr>cl_MapedFileQueue := q1\<rparr>"
    have h: "mapedFiles (cl_MapedFileQueue ?c) \<noteq> []" "msg_len m \<le> cl_maxMessageSize ?c"
      "msg_len m + 8 \<le> fileSize (last (mapedFiles (cl_MapedFileQueue ?c))) - wrotePostion (last (mapedFiles (cl_MapedFileQueue ?c)))"
      "?k = next_queue_offset m (TopicQueueTable ?c)"
      "table_after m ?k (TopicQueueTable ?c) = table_after m ?k (TopicQueueTable cl)"
      "mfq_bytes (cl_MapedFileQueue ?c) = mfq_bytes (cl_MapedFileQueue cl) @ []"
      using cl_inv_last(2) [OF g(2)] g(3,4,5) assms(6) sz by simp_all
    from append_to_last_done [OF g(2) h(1) assms(5) h(2) refl h(3-6)]
    obtain r cl1 where a: "append_to (length (mapedFiles q1) - 1) m ?c = Some (r, cl1)"
      "put_done m ?k cl r cl1" "Status r = APPENDMESSAGE_PUT_OK" by auto
    have "cl_frame os cl os1 cl1"
      using cl_frame_trans [OF getLast_frame [OF _ i(2) t] append_to_frame [OF a(1)]] qi g(1) by simp
    then show ?thesis by (rule finish_put [OF put_ok_first [OF assms(2,4) g(1) a(1,3)] refl a(2)])
  next
    case False
    let ?l = "last (mapedFiles ?q)" and ?n = "length (mapedFiles ?q) - 1"
    have ne: "mapedFiles (cl_MapedFileQueue ?clL) \<noteq> []" and nf: "wrotePostion ?l \<noteq> fileSize ?l"
      using False by (auto simp: MapedFile_isFull_def)
    have g: "MapedFileQueue_getLastMapedFile os 0 ?q = Some (Inr (Some ?n), ?q, os)"
      using False by (intro getLastMapedFile_not_full) auto
    show ?thesis
    proof (cases "msg_len m + 8 \<le> fileSize ?l - wrotePostion ?l")
      case True
      have h: "msg_len m \<le> cl_maxMessageSize ?clL" "?l = last (mapedFiles (cl_MapedFileQueue ?clL))"
        "?k = next_queue_offset m (TopicQueueTable ?clL)"
        "table_after m ?k (TopicQueueTable ?clL) = table_after m ?k (TopicQueueTable cl)"
        "mfq_bytes (cl_MapedFileQueue ?clL) = mfq_bytes (cl_MapedFileQueue cl) @ []"
        using assms(6) by simp_all
      from append_to_last_done [OF i(1) ne assms(5) h(1,2) True h(3-5)]
      obtain r cl1 where a: "append_to ?n m (cl\<lparr>cl_locked := True, cl_MapedFileQueue := ?q\<rparr>) = Some (r, cl1)"
        "put_done m ?k cl r cl1" "Status r = APPENDMESSAGE_PUT_OK" by auto
      have "cl_frame os cl os cl1" using append_to_frame [OF a(1), of os] by simp
      then show ?thesis by (rule finish_put [OF put_ok_first [OF assms(2,4) g a(1,3)] refl a(2)])
    next
      case full: False
      obtain r0 cl0 where e: "append_to ?n m ?clL = Some (r0, cl0)" "Status r0 = END_OF_FILE" "cl_inv cl0"
        "cl_maxMessageSize cl0 = cl_maxMessageSize cl" "cl_config cl0 = cl_config cl"
        "TopicQueueTable cl0 = (TopicQueueTable cl)(topic_key (m_Topic m) (m_QueueId m) := Some ?k)"
        "cl_MapedFileQueue cl0 = ?q\<lparr>mapedFiles := mapedFiles (cl_MapedFileQueue cl0)\<rparr>"
        "mfq_bytes (cl_MapedFileQueue cl0) = mfq_bytes ?q @ blank_bytes (fileSize ?l - wrotePostion ?l)"
        "mapedFiles (cl_MapedFileQueue cl0) \<noteq> []" "MapedFile_isFull (last (mapedFiles (cl_MapedFileQueue cl0)))"
        "fileFromOffset (last (mapedFiles (cl_MapedFileQueue cl0))) = fileFromOffset ?l"
        using append_to_end [OF i(1) ne assms(5), of ?l ?k] full nf assms(6) by auto
      have e1: "append_to ?n m (cl\<lparr>cl_locked := True, cl_MapedFileQueue := ?q\<rparr>) = Some (r0, cl0)"
        using e(1) by simp
      have cg: "can_grow os 0 (cl_MapedFileQueue cl0)"
      proof -
        have f: "allocateMapedFileService (cl_MapedFileQueue cl0) = allocateMapedFileService ?q"
          "mfq_mapedFileSize (cl_MapedFileQueue cl0) = mfq_mapedFileSize ?q"
          "mfq_storePath (cl_MapedFileQueue cl0) = mfq_storePath ?q"
          by (subst e(7), simp)+
        show ?thesis using assms(3) e(9,11) ne by (simp add: can_grow_def next_offset_def f)
      qed
      from grow_cl_inv [OF e(3) cg] e(10) obtain q1 os1 where h:
        "MapedFileQueue_getLastMapedFile os 0 (cl_MapedFileQueue cl0) = Some (Inr (Some (length (mapedFiles q1) - 1)), q1, os1)"
        "cl_inv (cl0\<lparr>cl_MapedFileQueue := q1\<rparr>)" "mapedFiles q1 \<noteq> []" "wrotePostion (last (mapedFiles q1)) = 0"
        "mfq_bytes q1 = mfq_bytes (cl_MapedFileQueue cl0)" by blast
      let ?c = "cl0\<lparr>cl_MapedFileQueue := q1\<rparr>"
      have k: "mapedFiles (cl_MapedFileQueue ?c) \<noteq> []" "msg_len m \<le> cl_maxMessageSize ?c"
        "msg_len m + 8 \<le> fileSize (last (mapedFiles (cl_MapedFileQueue ?c))) - wrotePostion (last (mapedFiles (cl_MapedFileQueue ?c)))"
        "?k = next_queue_offset m (TopicQueueTable ?c)"
        "table_after m ?k (TopicQueueTable ?c) = table_after m ?k (TopicQueueTable cl)"
        "mfq_bytes (cl_MapedFileQueue ?c) = mfq_bytes (cl_MapedFileQueue cl) @ blank_bytes (fileSize ?l - wrotePostion ?l)"
        using cl_inv_last(2) [OF h(2)] h(3,4,5) e(4,5,6,8) assms(6) sz
        by (simp_all add: table_after_upd) (simp add: next_queue_offset_def)
      from append_to_last_done [OF h(2) k(1) assms(5) k(2) refl k(3-6)]
      obtain r cl1 where a: "append_to (length (mapedFiles q1) - 1) m ?c = Some (r, cl1)" "put_done m ?k cl r cl1" by auto
      have "cl_frame os cl os1 cl1"
        using cl_frame_trans [OF cl_frame_trans [OF append_to_frame [OF e(1)] getLast_frame [OF _ cg _ h(1)]]
            append_to_frame [OF a(1)]] e(3,10) by (simp add: cl_inv_def)
      then show ?thesis
        by (rule finish_put [OF put_ok_second [OF assms(2,4) g e1 e(2) h(1) a(1)] refl a(2)])
    qed
  qed
qed

lemma put_done_has:
  assumes "put_done m k cl r cl1" and "cl_inv cl" and "cl_frame os cl os1 cl1" and "msg_fits m"
  shows "log_has cl1 (WroteOffset r) (record_bytes m k (WroteOffset r))"
    and "log_has cl off bs \<Longrightarrow> log_has cl1 off bs"
    and "CommitLog_getMaxOffset cl \<le> WroteOffset r" and "0 \<le> WroteOffset r"
proof -
  let ?q = "cl_MapedFileQueue cl" and ?q1 = "cl_MapedFileQueue cl1" and ?rec = "record_bytes m k (WroteOffset r)"
  from assms(1) obtain gap sel cl2 where d: "cl_inv cl1" "mfq_bytes ?q1 = mfq_bytes ?q @ gap @ ?rec"
      "WroteOffset r + WroteBytes r = CommitLog_getMaxOffset cl1" "WroteBytes r = msg_len m"
      "CommitLog_getMessage (WroteOffset r) (WroteBytes r) cl1 = Some (Some sel, cl2)"
    by (auto simp: put_done_def)
  have f: "mfq_base ?q1 = mfq_base ?q" "cl_config cl1 = cl_config cl" using assms(3) by (simp_all add: cl_frame_def)
  have i: "mfq_inv ?q" "mfq_inv ?q1" "0 \<le> mfq_base ?q" using assms(2) d(1) by (auto simp: cl_inv_def mfq_inv_def)
  have len: "int (length ?rec) = msg_len m" using assms(4) by (rule length_record)
  then have pos: "0 < length ?rec" using msg_len_eq [OF assms(4)] by auto
  have m: "CommitLog_getMaxOffset cl = mfq_base ?q + int (length (mfq_bytes ?q))"
      "CommitLog_getMaxOffset cl1 = mfq_base ?q + int (length (mfq_bytes ?q)) + int (length gap) + int (length ?rec)"
    using getMaxOffset_bytes [OF i(1)] getMaxOffset_bytes [OF i(2)] d(2) f(1) by (simp_all add: CommitLog_getMaxOffset_def)
  have w: "WroteOffset r = mfq_base ?q + int (length (mfq_bytes ?q)) + int (length gap)" using d(3,4) len m by linarith
  show "CommitLog_getMaxOffset cl \<le> WroteOffset r" "0 \<le> WroteOffset r" using w m i(3) by linarith+
  have "WroteOffset r < CommitLog_getMaxOffset cl1" using w m pos by linarith
  then have "WroteOffset r mod MapedFileSizeCommitLog (cl_config cl1) + WroteBytes r \<le> MapedFileSizeCommitLog (cl_config cl1)"
    using getMessage_inside [OF d(1) _ _ d(5)] w f(1) by simp
  moreover have "nat (WroteOffset r - mfq_base ?q1) = length (mfq_bytes ?q @ gap)" using w f(1) by simp
  ultimately show "log_has cl1 (WroteOffset r) ?rec"
    using pos w m d(2-4) len f(1) by (simp add: log_has_def)
  show "log_has cl1 off bs" if h: "log_has cl off bs"
  proof -
    have "nat (off - mfq_base ?q) + length bs \<le> length (mfq_bytes ?q)" using h m(1) by (auto simp: log_has_def)
    then show ?thesis using h m f by (simp add: log_has_def d(2))
  qed
qed

lemma putMessage_stores:
  assumes "cl_inv cl" and "\<not> cl_locked cl" and "can_grow os 0 (cl_MapedFileQueue cl)"
    and "m = stamped storeNow lockNow msg" and "msg_fits m" and "msg_len m \<le> cl_maxMessageSize cl"
  shows "\<exists>r cl1 os1. CommitLog_putMessage storeNow lockNow flushOk os msg cl =
       Some (Some \<lparr>pmr_PutMessageStatus = put_status flushOk m cl, pmr_AppendMessageResult = Some r\<rparr>,
             [dispatch_of m r], cl1, os1) \<and>
     put_done m (next_queue_offset m (TopicQueueTable cl)) cl r cl1 \<and> \<not> cl_locked cl1"
  using putMessage_stores_frame [OF assms] by blast

lemma getLast_keeps:
  assumes "allocateMapedFileService q = None" and "MapedFileQueue_getLastMapedFile os start q = Some (r, q1, os1)"
  shows "os_only (mfq_storePath q) os os1" and "mfq_storePath q1 = mfq_storePath q" and "allocateMapedFileService q1 = None"
  using getLastMapedFile_only [OF assms] assms
  by (auto simp: MapedFileQueue_getLastMapedFile_def Let_def split: if_splits sum.splits prod.splits option.splits)

lemma append_to_keeps:
  "append_to i m cl = Some (r, cl1) \<Longrightarrow>
     mfq_storePath (cl_MapedFileQueue cl1) = mfq_storePath (cl_MapedFileQueue cl) \<and>
     allocateMapedFileService (cl_MapedFileQueue cl1) = allocateMapedFileService (cl_MapedFileQueue cl)"
  by (auto simp: append_to_def split: Option.bind_splits)

lemma putMessage_only:
  assumes "allocateMapedFileService (cl_MapedFileQueue cl) = None"
    and "CommitLog_putMessage storeNow lockNow flushOk os msg cl = Some (res, reqs, cl1, os1)"
  shows "os_only (mfq_storePath (cl_MapedFileQueue cl)) os os1"
proof (cases "cl_locked cl")
  case True
  then show ?thesis using assms(2) by (simp add: CommitLog_putMessage_def)
next
  case False
  let ?q = "cl_MapedFileQueue cl" and ?m = "stamped storeNow lockNow msg"
  note put = assms(2) [unfolded CommitLog_putMessage_def Let_def, folded stamped_def]
  obtain r q1 o1 where g: "MapedFileQueue_getLastMapedFile os 0 ?q = Some (r, q1, o1)"
    using put False by (auto split: Option.bind_splits)
  note k = getLast_keeps [OF assms(1) g]
  show ?thesis
  proof (cases "\<exists>i. r = Inr (Some i)")
    case False
    then have "os1 = o1" using put g \<open>\<not> cl_locked cl\<close> by (auto split: sum.splits option.splits)
    with k(1) show ?thesis by simp
  next
    case True
    then obtain i where i: "r = Inr (Some i)" by blast
    let ?c = "cl\<lparr>cl_locked := True, cl_MapedFileQueue := q1\<rparr>"
    obtain result c3 where a: "append_to i ?m ?c = Some (result, c3)"
      using put g i False by (auto split: Option.bind_splits)
    note a1 = append_to_keeps [OF a, simplified]
    show ?thesis
    proof (cases "Status result = END_OF_FILE")
      case True
      obtain r2 q2 o2 where g2: "MapedFileQueue_getLastMapedFile o1 0 (cl_MapedFileQueue c3) = Some (r2, q2, o2)"
        using put g i a True False by (auto split: Option.bind_splits)
      have "os1 = o2"
        using put g i a True False g2 by (auto split: Option.bind_splits sum.splits option.splits)
      then show ?thesis using getLast_keeps(1) [OF _ g2] a1 k by (auto intro: os_only_trans)
    next
      case False
      then have "os1 = o1" using put g i a \<open>\<not> cl_locked cl\<close> by (cases "Status result") auto
      with k(1) show ?thesis by simp
    qed
  qed
qed

section \<open>Properties\<close>

text \<open>
  C9 (put, then get). On a well-formed, unlocked commit log and a system where the next file can be
  created, putting a message that fits succeeds: the record is appended, after a filler when it did
  not fit the current file; the log stays well formed and is unlocked again; the record gets the next
  offset of its queue, and reading it at the offset and size of the result returns exactly its bytes.
\<close>

theorem put_then_get:
  assumes "cl_inv cl" and "\<not> cl_locked cl" and "can_grow os 0 (cl_MapedFileQueue cl)"
    and "m = stamped storeNow lockNow msg" and "msg_fits m" and "msg_len m \<le> cl_maxMessageSize cl"
  shows "\<exists>r cl1 os1. CommitLog_putMessage storeNow lockNow flushOk os msg cl =
       Some (Some \<lparr>pmr_PutMessageStatus = put_status flushOk m cl, pmr_AppendMessageResult = Some r\<rparr>,
             [dispatch_of m r], cl1, os1) \<and>
     put_done m (next_queue_offset m (TopicQueueTable cl)) cl r cl1 \<and> \<not> cl_locked cl1"
  using assms by (rule putMessage_stores)

text \<open>A concrete log and message, used to instantiate the properties.\<close>

definition example_config :: MessageStoreConfig where
  "example_config = (NewMessageStoreConfig ''h'')\<lparr>StorePathRootDir := ''s'', StorePathCommitLog := ''c'',
     MapedFileSizeCommitLog := 1024, MapedFileSizeConsumeQueue := 40, PutMsgIndexHightWater := 10,
     MaxMessageSize := 512, MaxHashSlotNum := 2, MaxIndexNum := 4\<rparr>"

lemma example_config_fields [simp]:
  "StorePathRootDir example_config = ''s''" "StorePathCommitLog example_config = ''c''"
  "MapedFileSizeCommitLog example_config = 1024" "MapedFileSizeConsumeQueue example_config = 40"
  "MaxMessageSize example_config = 512" "MaxHashSlotNum example_config = 2" "MaxIndexNum example_config = 4"
  "FlushDiskTypeConfig example_config = ASYNC_FLUSH" "BrokerRoleConfig example_config = ASYNC_MASTER"
  "CheckCRCOnRecover example_config" "MessageIndexEnable example_config" "\<not> MessageIndexSafe example_config"
  by (simp_all add: example_config_def NewMessageStoreConfig_def Let_def)

definition example_inner :: MessageExtBrokerInner where
  "example_inner = MessageExt.extend (example_msg 0 [1, 2, 3]) \<lparr>m_PropertiesString = [], m_TagsCode = 0\<rparr>"

lemma Crc32_in: "in_int 32 (Crc32 bs)"
proof -
  have "in_int 32 (sint w)" for w :: "32 word"
    using sint_range_size [of w] by (simp add: in_int_def word_size)
  then show ?thesis by (simp add: Crc32_def)
qed

lemma example_cl_inv: "cl_inv (NewCommitLog None example_config)" "\<not> cl_locked (NewCommitLog None example_config)"
  "cl_maxMessageSize (NewCommitLog None example_config) = 512"
  by (simp_all add: cl_inv_def NewCommitLog_def NewMapedFileQueue_def mfq_inv_def mfq_base_def
      mem_ok_def NewDefaultAppendMessageCallback_def NewMappedByteBuffer_def END_FILE_MIN_BLANK_LENGTH_def
      to_int32_id in_int_def)

lemma example_can_grow: "can_grow example_os 0 (cl_MapedFileQueue (NewCommitLog None example_config))"
  by (simp add: can_grow_def NewCommitLog_def NewMapedFileQueue_def next_offset_def os_free_def
      example_os_def smod_nonneg)

lemma example_fits:
  "msg_fits (stamped 1000 1001 example_inner)" "msg_len (stamped 1000 1001 example_inner) = 95"
proof -
  have h: "CreateMessageId (m_StoreHost example_inner) 0 \<noteq> None"
    by (simp add: example_inner_def example_msg_def MessageExt.extend_def CreateMessageId_def
        SplitHostPort_JoinHostPort ipv4StringToBytes_IPv4String in_int_def)
  then show f: "msg_fits (stamped 1000 1001 example_inner)"
    using Crc32_in by (simp add: msg_fits_def stamped_def example_inner_def example_msg_def MessageExt.extend_def)
      (simp add: in_int_def)
  show "msg_len (stamped 1000 1001 example_inner) = 95"
    using msg_len_eq [OF f] by (simp add: stamped_def example_inner_def example_msg_def MessageExt.extend_def)
qed

theorem put_then_get_witness:
  "\<exists>res reqs cl1 os1. CommitLog_putMessage 1000 1001 True example_os example_inner (NewCommitLog None example_config) =
     Some (Some res, reqs, cl1, os1) \<and> pmr_PutMessageStatus res = PUTMESSAGE_PUT_OK \<and> \<not> cl_locked cl1"
proof -
  have "put_status True (stamped 1000 1001 example_inner) (NewCommitLog None example_config) = PUTMESSAGE_PUT_OK"
    by (simp add: put_status_def)
  with put_then_get [OF example_cl_inv(1,2) example_can_grow refl example_fits(1), of True]
    example_cl_inv(3) example_fits(2)
  show ?thesis by fastforce
qed

text \<open>
  Checking the record of a message put
  into the log, with its checksum, succeeds and yields a request that agrees with the one dispatched
  when the message was put, and the cursor moves to the end of the record.
\<close>

lemma recovered_request_matches:
  assumes "m = stamped storeNow lockNow msg" and "msg_fits m" and "in_int 64 (LogicsOffset r)"
    and "in_int 64 (WroteOffset r)" and "WroteBytes r = msg_len m"
    and "at_cursor b (record_bytes m (LogicsOffset r) (WroteOffset r) @ rest)"
    and "msg_len m \<le> WritePos b - ReadPos b" and "WritePos b - ReadPos b < 2 ^ 31"
  shows "\<exists>req b1. checkMessageAndReturnSize sched b True True = Some (req, b1) \<and> at_cursor b1 rest \<and>
     ReadPos b1 = ReadPos b + WroteBytes r \<and>
     dr_topic req = dr_topic (dispatch_of m r) \<and> dr_queueId req = dr_queueId (dispatch_of m r) \<and>
     dr_commitLogOffset req = dr_commitLogOffset (dispatch_of m r) \<and>
     dr_msgSize req = dr_msgSize (dispatch_of m r) \<and>
     dr_storeTimestamp req = dr_storeTimestamp (dispatch_of m r) \<and>
     dr_consumeQueueOffset req = dr_consumeQueueOffset (dispatch_of m r) \<and>
     dr_sysFlag req = dr_sysFlag (dispatch_of m r)"
proof -
  have crc: "True \<longrightarrow> m_BodyCRC m = Crc32 (m_Body m)" using assms(1) by (simp add: stamped_def)
  from check_record [OF assms(2-4,6-8) crc, of sched True] at_cursor_adv [OF assms(6)]
    length_record [OF assms(2), of "LogicsOffset r" "WroteOffset r"] assms(5)
  show ?thesis by (simp add: record_request_def dispatch_of_def Let_def)
qed

lemma recovered_request_matches_witness:
  "let m = stamped 1000 1001 example_inner;
       r = (append_status APPENDMESSAGE_PUT_OK)\<lparr>WroteBytes := 95, LogicsOffset := 7, WroteOffset := 300\<rparr>;
       b = (NewMappedByteBuffer (record_bytes m 7 300 @ [0]) 96)\<lparr>WritePos := 96\<rparr>
   in \<exists>req b1. checkMessageAndReturnSize \<lparr>delayLevelTable = (\<lambda>_. None), maxDelayLevel = 0\<rparr> b True True = Some (req, b1) \<and>
        dr_msgSize req = 95 \<and> dr_commitLogOffset req = 300"
proof -
  let ?m = "stamped 1000 1001 example_inner"
  let ?r = "(append_status APPENDMESSAGE_PUT_OK)\<lparr>WroteBytes := 95, LogicsOffset := 7, WroteOffset := 300\<rparr>"
  let ?b = "(NewMappedByteBuffer (record_bytes ?m 7 300 @ [0]) 96)\<lparr>WritePos := 96\<rparr>"
  have c: "at_cursor ?b (record_bytes ?m (LogicsOffset ?r) (WroteOffset ?r) @ [0])"
    by (simp add: at_cursor_def NewMappedByteBuffer_def)
  show ?thesis
    using recovered_request_matches [OF refl example_fits(1), of ?r ?b "[0]"
        "\<lparr>delayLevelTable = (\<lambda>_. None), maxDelayLevel = 0\<rparr>", OF _ _ _ c] example_fits(2)
    by (auto simp: in_int_def NewMappedByteBuffer_def dispatch_of_def Let_def)
qed

lemma append_to_locked: "append_to i m cl = Some (r, cl1) \<Longrightarrow> cl_locked cl1 = cl_locked cl"
  by (auto simp: append_to_def Option.bind_eq_Some_conv)

text \<open>
  Failed puts keep the lock. Whenever \<open>putMessage\<close> returns one of its three error results, the
  commit log stays locked, nothing is dispatched, and every later put waits for ever.
\<close>

lemma put_error_leaves_locked:
  assumes "CommitLog_putMessage storeNow lockNow flushOk os msg cl = Some (Some res, reqs, cl1, os1)"
    and "pmr_PutMessageStatus res \<in> {CREATE_MAPEDFILE_FAILED, MESSAGE_ILLEGAL, PUTMESSAGE_UNKNOWN_ERROR}"
  shows "cl_locked cl1 \<and> reqs = [] \<and>
     CommitLog_putMessage storeNow2 lockNow2 flushOk2 os2 msg2 cl1 = Some (None, [], cl1, os2)"
proof -
  have "cl_locked cl1 \<and> reqs = []"
    using assms
    by (auto simp: CommitLog_putMessage_def Let_def dest!: append_to_locked
        split: Option.bind_split_asm prod.split_asm sum.split_asm option.split_asm AppendMessageStatus.split_asm if_split_asm)
  then show ?thesis by (simp add: CommitLog_putMessage_def)
qed


lemma put_error_leaves_locked_witness:
  "\<exists>res cl1 os1. CommitLog_putMessage 1000 1001 True (example_os\<lparr>os_fails := \<lambda>_. True\<rparr>) example_inner
       (NewCommitLog None example_config) = Some (Some res, [], cl1, os1) \<and>
     CommitLog_putMessage 2000 2001 True example_os example_inner cl1 = Some (None, [], cl1, example_os)"
proof -
  obtain res cl1 os1 where p: "CommitLog_putMessage 1000 1001 True (example_os\<lparr>os_fails := \<lambda>_. True\<rparr>) example_inner
       (NewCommitLog None example_config) = Some (Some res, [], cl1, os1)"
    "pmr_PutMessageStatus res = CREATE_MAPEDFILE_FAILED"
    by (simp add: CommitLog_putMessage_def NewCommitLog_def NewMapedFileQueue_def
        MapedFileQueue_getLastMapedFile_def NewMapedFile_def PathExists_def ensureDirOK_def example_os_def Let_def)
  then show ?thesis using put_error_leaves_locked [OF p(1)] by auto
qed

lemma files_from_time:
  "files_from dir sz a mfs \<Longrightarrow> i < length mfs \<Longrightarrow> files_from dir sz a (mfs[i := (mfs ! i)\<lparr>storeTimestamp := t\<rparr>])"
proof (induction mfs arbitrary: a i)
  case (Cons m mfs)
  then show ?case by (cases i) (auto simp: file_at_def mf_inv_def MapedFile_isFull_def)
qed simp

lemma append_oversize:
  assumes "cl_inv cl" and "mapedFiles (cl_MapedFileQueue cl) \<noteq> []" and "msg_fits m" and "cl_maxMessageSize cl < msg_len m"
    and "l = last (mapedFiles (cl_MapedFileQueue cl))" and "wrotePostion l < fileSize l"
  shows "\<exists>cl1. append_to (length (mapedFiles (cl_MapedFileQueue cl)) - 1) m cl = Some (append_status MESSAGE_SIZE_EXCEEDED, cl1) \<and>
     cl_inv cl1 \<and> mfq_bytes (cl_MapedFileQueue cl1) = mfq_bytes (cl_MapedFileQueue cl) \<and>
     TopicQueueTable cl1 = (TopicQueueTable cl)(topic_key (m_Topic m) (m_QueueId m) := Some (next_queue_offset m (TopicQueueTable cl)))"
proof -
  let ?q = "cl_MapedFileQueue cl" and ?i = "length (mapedFiles (cl_MapedFileQueue cl)) - 1"
  let ?l = "l\<lparr>storeTimestamp := 0\<rparr>" and ?fs = "mapedFiles (cl_MapedFileQueue cl)"
  let ?t = "(TopicQueueTable cl)(topic_key (m_Topic m) (m_QueueId m) := Some (next_queue_offset m (TopicQueueTable cl)))"
  have nth: "?fs ! ?i = l" using assms(2,5) by (simp add: last_conv_nth)
  obtain x where "CreateMessageId (m_StoreHost m) (fileFromOffset l + WritePos (mappedByteBuffer l)) = Some x"
    using CreateMessageId_offset [of "m_StoreHost m" "fileFromOffset l + WritePos (mappedByteBuffer l)"] assms(3) by (auto simp: msg_fits_def)
  then have "MapedFile_AppendMessageWithCallBack (DefaultAppendMessageCallback_doAppend (cl_maxMessageSize cl)) (Some m)
      (cl_msgStoreItemMemory cl, TopicQueueTable cl) l = Some (append_status MESSAGE_SIZE_EXCEEDED, ?l, (cl_msgStoreItemMemory cl, ?t))"
    using assms(4,6)
    by (simp add: MapedFile_AppendMessageWithCallBack_def DefaultAppendMessageCallback_doAppend_def Let_def append_status_def next_queue_offset_def)
  then have a: "append_to ?i m cl = Some (append_status MESSAGE_SIZE_EXCEEDED,
      cl\<lparr>cl_MapedFileQueue := ?q\<lparr>mapedFiles := ?fs[?i := ?l]\<rparr>, cl_msgStoreItemMemory := cl_msgStoreItemMemory cl, TopicQueueTable := ?t\<rparr>)"
    using nth assms(2) by (simp add: append_to_def)
  have i: "?i < length ?fs" using assms(2) by simp
  have ls: "last (?fs[?i := ?l]) = ?l" "?fs[?i := ?l] \<noteq> []" using assms(2) by (simp_all add: last_list_update)
  have c: "map mf_content (?fs[?i := ?l]) = map mf_content ?fs"
    using i nth by (simp add: map_update list_update_same_conv mf_content_def)
  have h: "fileFromOffset (hd (?fs[?i := ?l])) = fileFromOffset (hd ?fs)"
    using assms(2) nth by (cases ?fs; cases ?i) auto
  have qi: "mfq_inv ?q" using assms(1) by (simp add: cl_inv_def)
  have "mfq_inv (?q\<lparr>mapedFiles := ?fs[?i := ?l]\<rparr>)"
    using qi files_from_time [OF _ i, of _ _ _ 0] nth h ls(2) assms(2) by (auto simp: mfq_inv_def mfq_base_def)
  then have "cl_inv (cl\<lparr>cl_MapedFileQueue := ?q\<lparr>mapedFiles := ?fs[?i := ?l]\<rparr>, cl_msgStoreItemMemory := cl_msgStoreItemMemory cl, TopicQueueTable := ?t\<rparr>)"
    using assms(1,2,5) ls by (simp add: cl_inv_def Let_def)
  moreover have "mfq_bytes (?q\<lparr>mapedFiles := ?fs[?i := ?l]\<rparr>) = mfq_bytes ?q" using c by (simp add: mfq_bytes_def)
  ultimately show ?thesis using a by simp
qed

text \<open>A message that is too long is refused, and the mutex stays locked; the bytes of the log do not change.\<close>

lemma putMessage_refuses:
  assumes "cl_inv cl" and "\<not> cl_locked cl" and "can_grow os 0 (cl_MapedFileQueue cl)"
    and "m = stamped storeNow lockNow msg" and "msg_fits m" and "cl_maxMessageSize cl < msg_len m"
  shows "\<exists>cl1 os1. CommitLog_putMessage storeNow lockNow flushOk os msg cl =
       Some (Some \<lparr>pmr_PutMessageStatus = MESSAGE_ILLEGAL, pmr_AppendMessageResult = Some (append_status MESSAGE_SIZE_EXCEEDED)\<rparr>, [], cl1, os1) \<and>
     cl_locked cl1 \<and> cl_inv cl1 \<and> mfq_bytes (cl_MapedFileQueue cl1) = mfq_bytes (cl_MapedFileQueue cl) \<and>
     TopicQueueTable cl1 = (TopicQueueTable cl)(topic_key (m_Topic m) (m_QueueId m) := Some (next_queue_offset m (TopicQueueTable cl))) \<and>
     cl_frame os cl os1 cl1"
proof -
  let ?q = "cl_MapedFileQueue cl" and ?clL = "cl\<lparr>cl_locked := True\<rparr>"
  have qi: "mfq_inv ?q" using assms(1) by (simp add: cl_inv_def)
  have "\<exists>q1 os1. MapedFileQueue_getLastMapedFile os 0 ?q = Some (Inr (Some (length (mapedFiles q1) - 1)), q1, os1) \<and>
     cl_inv (?clL\<lparr>cl_MapedFileQueue := q1\<rparr>) \<and> mapedFiles q1 \<noteq> [] \<and> wrotePostion (last (mapedFiles q1)) < fileSize (last (mapedFiles q1)) \<and>
     mfq_bytes q1 = mfq_bytes ?q \<and> cl_frame os cl os1 (?clL\<lparr>cl_MapedFileQueue := q1\<rparr>)"
  proof (cases "mapedFiles ?q = [] \<or> MapedFile_isFull (last (mapedFiles ?q))")
    case True
    then have t: "mapedFiles ?q \<noteq> [] \<longrightarrow> MapedFile_isFull (last (mapedFiles ?q))" by auto
    obtain q1 os1 where g: "MapedFileQueue_getLastMapedFile os 0 ?q = Some (Inr (Some (length (mapedFiles q1) - 1)), q1, os1)"
      "cl_inv (?clL\<lparr>cl_MapedFileQueue := q1\<rparr>)" "mapedFiles q1 \<noteq> []" "wrotePostion (last (mapedFiles q1)) = 0" "mfq_bytes q1 = mfq_bytes ?q"
      using grow_cl_inv [of ?clL os 0] assms(1,3) t by auto
    have "0 < fileSize (last (mapedFiles q1))"
      using cl_inv_last(2) [OF g(2)] g(3) assms(1) by (simp add: cl_inv_def mfq_inv_def)
    with g getLast_frame [OF qi assms(3) t g(1)] show ?thesis by (auto simp: cl_frame_def)
  next
    case False
    then have g: "MapedFileQueue_getLastMapedFile os 0 ?q = Some (Inr (Some (length (mapedFiles ?q) - 1)), ?q, os)"
      by (intro getLastMapedFile_not_full) auto
    have "mf_inv (last (mapedFiles ?q))" using cl_inv_last(1) [OF assms(1)] False by simp
    then have "wrotePostion (last (mapedFiles ?q)) < fileSize (last (mapedFiles ?q))" using False by (auto simp: mf_inv_def MapedFile_isFull_def)
    with g False assms(1) show ?thesis by (auto simp: cl_frame_def)
  qed
  then obtain q1 os1 where g: "MapedFileQueue_getLastMapedFile os 0 ?q = Some (Inr (Some (length (mapedFiles q1) - 1)), q1, os1)"
      "cl_inv (?clL\<lparr>cl_MapedFileQueue := q1\<rparr>)" "mapedFiles q1 \<noteq> []" "wrotePostion (last (mapedFiles q1)) < fileSize (last (mapedFiles q1))"
      "mfq_bytes q1 = mfq_bytes ?q" "cl_frame os cl os1 (?clL\<lparr>cl_MapedFileQueue := q1\<rparr>)" by blast
  let ?c = "?clL\<lparr>cl_MapedFileQueue := q1\<rparr>"
  obtain cl1 where a: "append_to (length (mapedFiles q1) - 1) m ?c = Some (append_status MESSAGE_SIZE_EXCEEDED, cl1)" "cl_inv cl1"
      "mfq_bytes (cl_MapedFileQueue cl1) = mfq_bytes q1"
      "TopicQueueTable cl1 = (TopicQueueTable cl)(topic_key (m_Topic m) (m_QueueId m) := Some (next_queue_offset m (TopicQueueTable cl)))"
    using append_oversize [OF g(2) _ assms(5) _ refl] g(3,4) assms(6) by auto
  have "cl_locked cl1" using append_to_locked [OF a(1)] by simp
  moreover have "CommitLog_putMessage storeNow lockNow flushOk os msg cl =
      Some (Some \<lparr>pmr_PutMessageStatus = MESSAGE_ILLEGAL, pmr_AppendMessageResult = Some (append_status MESSAGE_SIZE_EXCEEDED)\<rparr>, [], cl1, os1)"
    using g(1) a(1) assms(2,4) by (simp add: CommitLog_putMessage_def stamped_def append_status_def)
  ultimately show ?thesis using a g(5) cl_frame_trans [OF g(6) append_to_frame [OF a(1)]] by auto
qed

text \<open>
  Successive messages of one queue that are not part of an open
  transaction get consecutive queue offsets, and appending to one queue leaves the offsets of the
  others alone.
\<close>

lemma queue_offsets_consecutive:
  assumes "put_done m q cl r cl1" and "m_Topic m2 = m_Topic m" and "m_QueueId m2 = m_QueueId m"
    and "GetTransactionValue (m_SysFlag m) \<in> {TransactionNotType, TransactionCommitType}"
  shows "next_queue_offset m2 (TopicQueueTable cl1) = q + 1 \<and>
     (\<forall>k. k \<noteq> topic_key (m_Topic m) (m_QueueId m) \<longrightarrow> TopicQueueTable cl1 k = TopicQueueTable cl k)"
  using assms by (auto simp: put_done_def table_after_def next_queue_offset_def Let_def)

lemma queue_offsets_consecutive_witness:
  "\<exists>r cl1. put_done (stamped 1000 1001 example_inner) 0 (NewCommitLog None example_config) r cl1 \<and>
     next_queue_offset (stamped 1000 1001 example_inner) (TopicQueueTable cl1) = 1"
proof -
  have k: "next_queue_offset (stamped 1000 1001 example_inner) (TopicQueueTable (NewCommitLog None example_config)) = 0"
    by (simp add: next_queue_offset_def NewCommitLog_def)
  obtain r cl1 where d: "put_done (stamped 1000 1001 example_inner) 0 (NewCommitLog None example_config) r cl1"
    using putMessage_stores [OF example_cl_inv(1,2) example_can_grow refl example_fits(1), of True]
      example_cl_inv(3) example_fits(2) k by auto
  have "GetTransactionValue (m_SysFlag (stamped 1000 1001 example_inner)) \<in> {TransactionNotType, TransactionCommitType}"
    by (simp add: GetTransactionValue_def stamped_def example_inner_def example_msg_def MessageExt.extend_def
        TransactionNotType_def)
  from queue_offsets_consecutive [OF d refl refl this] d show ?thesis by auto
qed

end
