(* ===== verification/ConsumeQueueM.thy ===== *)
theory ConsumeQueueM
  imports CommitLogM
begin

text \<open>
  \<open>stgstorelog/consume_queue.go\<close>: the index of one queue of a topic. Each message has a unit of 20
  bytes (commit-log offset, size, tags code); units live in a queue of mapped files. A panic is
  \<open>None\<close>. Regions that are selected and released within one call leave the reference counts as they
  were, so such calls return no changed commit log.
\<close>

section \<open>Data\<close>

record ConsumeQueue =
  cq_mapedFileQueue :: MapedFileQueue
  cq_topic :: string
  cq_queueId :: int
  byteBufferIndex :: MappedByteBuffer
  cq_storePath :: string
  cq_mapedFileSize :: int
  maxPhysicOffset :: int
  minLogicOffset :: int

definition NewConsumeQueue :: "string \<Rightarrow> int \<Rightarrow> string \<Rightarrow> int \<Rightarrow> ConsumeQueue" where
  "NewConsumeQueue topic queueId path sz =
     \<lparr>cq_mapedFileQueue = NewMapedFileQueue (path @ ''/'' @ topic @ ''/'' @ FormatInt queueId) sz None,
      cq_topic = topic, cq_queueId = queueId, byteBufferIndex = NewMappedByteBuffer (replicate 20 0) 20,
      cq_storePath = path, cq_mapedFileSize = sz, maxPhysicOffset = - 1, minLogicOffset = 0\<rparr>"

definition cq_set_file :: "nat \<Rightarrow> MapedFile \<Rightarrow> ConsumeQueue \<Rightarrow> ConsumeQueue" where
  "cq_set_file i mf self = self\<lparr>cq_mapedFileQueue := (cq_mapedFileQueue self)
     \<lparr>mapedFiles := (mapedFiles (cq_mapedFileQueue self))[i := mf]\<rparr>\<rparr>"

definition ConsumeQueue_load ::
    "OS \<Rightarrow> error + string list \<Rightarrow> ConsumeQueue \<Rightarrow> (bool \<times> ConsumeQueue \<times> OS) option" where
  "ConsumeQueue_load os files self =
     map_option (\<lambda>(b, q, os1). (b, self\<lparr>cq_mapedFileQueue := q\<rparr>, os1))
       (MapedFileQueue_load os files (cq_mapedFileQueue self))"

section \<open>Reading\<close>

definition ConsumeQueue_getIndexBuffer ::
    "int \<Rightarrow> ConsumeQueue \<Rightarrow> (SelectMapedBufferResult option \<times> ConsumeQueue) option" where
  "ConsumeQueue_getIndexBuffer startIndex self =
     (let offset = startIndex * CQStoreUnitSize
      in if offset \<ge> minLogicOffset self
         then do {
           p \<leftarrow> MapedFileQueue_findMapedFileByOffset (cq_mapedFileQueue self) offset False;
           case p of
             None \<Rightarrow> Some (None, self)
           | Some i \<Rightarrow>
               if cq_mapedFileSize self = 0 then None
               else do {
                 (result, mf) \<leftarrow> MapedFile_selectMapedBuffer (mapedFiles (cq_mapedFileQueue self) ! i)
                    (offset smod cq_mapedFileSize self);
                 Some (result, cq_set_file i mf self) } }
         else Some (None, self))"

definition ConsumeQueue_rollNextFile :: "int \<Rightarrow> ConsumeQueue \<Rightarrow> int option" where
  "ConsumeQueue_rollNextFile index self =
     (let totalUnitsInFile = cq_mapedFileSize self sdiv CQStoreUnitSize
      in if totalUnitsInFile = 0 then None
         else Some (index + totalUnitsInFile - index smod totalUnitsInFile))"

definition ConsumeQueue_getMinOffsetInQueue :: "ConsumeQueue \<Rightarrow> int" where
  "ConsumeQueue_getMinOffsetInQueue self = minLogicOffset self sdiv CQStoreUnitSize"

definition ConsumeQueue_getMaxOffsetInQueue :: "ConsumeQueue \<Rightarrow> int" where
  "ConsumeQueue_getMaxOffsetInQueue self =
     MapedFileQueue_getMaxOffset (cq_mapedFileQueue self) sdiv CQStoreUnitSize"

text \<open>One unit: physical offset, size, tags code.\<close>

definition read_unit :: "MappedByteBuffer \<Rightarrow> (int \<times> int \<times> MappedByteBuffer) option" where
  "read_unit b =
     do {
       (offset, b1) \<leftarrow> MappedByteBuffer_ReadInt64 b;
       (sz, b2) \<leftarrow> MappedByteBuffer_ReadInt32 b1;
       (_, b3) \<leftarrow> MappedByteBuffer_ReadInt64 b2;
       Some (offset, sz, b3) }"

text \<open>The scan of \<open>correctMinOffset\<close>: the position of the first unit at or after the given offset.\<close>

function find_min :: "int \<Rightarrow> int \<Rightarrow> int \<Rightarrow> MappedByteBuffer \<Rightarrow> int option option" where
  "find_min phyMinOffset i sz b =
     (if i < sz
      then do {
        (offsetPy, _, b1) \<leftarrow> read_unit b;
        if offsetPy \<ge> phyMinOffset then Some (Some i) else find_min phyMinOffset (i + CQStoreUnitSize) sz b1 }
      else Some None)"
  by pat_completeness auto
termination by (relation "measure (\<lambda>(p, i, sz, b). nat (sz - i))") (auto simp: CQStoreUnitSize_def)

declare find_min.simps [simp del]

definition ConsumeQueue_correctMinOffset :: "int \<Rightarrow> ConsumeQueue \<Rightarrow> ConsumeQueue option" where
  "ConsumeQueue_correctMinOffset phyMinOffset self =
     (case MapedFileQueue_getFirstMapedFileOnLock (cq_mapedFileQueue self) of
        None \<Rightarrow> Some self
      | Some i \<Rightarrow>
          do {
            (result, mf) \<leftarrow> MapedFile_selectMapedBuffer (mapedFiles (cq_mapedFileQueue self) ! i) 0;
            case result of
              None \<Rightarrow> Some (cq_set_file i mf self)
            | Some r \<Rightarrow>
                do {
                  found \<leftarrow> find_min phyMinOffset 0 (Size r) (smr_MappedByteBuffer r);
                  let self1 = cq_set_file i (snd (SelectMapedBufferResult_Release r mf)) self;
                  Some (case found of None \<Rightarrow> self1
                        | Some k \<Rightarrow> self1\<lparr>minLogicOffset := fileFromOffset mf + k\<rparr>) } })"

text \<open>
  The binary search of \<open>getOffsetInQueueByTime\<close>. \<open>Inl v\<close> is an early return of \<open>v\<close>; otherwise the
  result holds the target, left and right offsets and the two time stamps.
\<close>

function time_search ::
    "(int \<Rightarrow> int \<Rightarrow> int option) \<Rightarrow> int \<Rightarrow> MappedByteBuffer \<Rightarrow> int \<Rightarrow> int \<Rightarrow> int \<times> int \<times> int \<times> int \<Rightarrow>
     (int + (int \<times> int \<times> int \<times> int \<times> int)) option" where
  "time_search pickup timestamp buffer low high st =
     (let (leftOffset, rightOffset, leftIndexValue, rightIndexValue) = st
      in if high < low then Some (Inr (- 1, st))
         else let midOffset = (low + high) sdiv (2 * CQStoreUnitSize) * CQStoreUnitSize
         in do {
           (phyOffset, b1) \<leftarrow> MappedByteBuffer_ReadInt64 (buffer\<lparr>ReadPos := midOffset\<rparr>);
           (sz, _) \<leftarrow> MappedByteBuffer_ReadInt32 b1;
           storeTime \<leftarrow> pickup phyOffset sz;
           if storeTime < 0 then Some (Inl 0)
           else if storeTime = timestamp then Some (Inr (midOffset, st))
           else if storeTime > timestamp
           then time_search pickup timestamp buffer low (midOffset - CQStoreUnitSize)
                  (leftOffset, midOffset, leftIndexValue, storeTime)
           else time_search pickup timestamp buffer (midOffset + CQStoreUnitSize) high
                  (midOffset, rightOffset, storeTime, rightIndexValue) })"
  by pat_completeness auto

lemma mid_bounds:
  fixes low high :: int
  assumes "low \<le> high"
  shows "(low + high) sdiv (2 * CQStoreUnitSize) * CQStoreUnitSize - CQStoreUnitSize < high"
    and "low < (low + high) sdiv (2 * CQStoreUnitSize) * CQStoreUnitSize + CQStoreUnitSize"
proof -
  let ?d = "(low + high) sdiv 40"
  have "40 * ?d - 40 < low + high \<and> low + high < 40 * ?d + 40"
  proof (cases "0 \<le> low + high")
    case True
    then have "?d = (low + high) div 40" by (simp add: sdiv_nonneg)
    then show ?thesis by linarith
  next
    case False
    then have "?d = - ((- (low + high)) div 40)" by (simp add: signed_divide_int_def)
    then show ?thesis by linarith
  qed
  with assms show "(low + high) sdiv (2 * CQStoreUnitSize) * CQStoreUnitSize - CQStoreUnitSize < high"
    and "low < (low + high) sdiv (2 * CQStoreUnitSize) * CQStoreUnitSize + CQStoreUnitSize"
    by (simp_all add: CQStoreUnitSize_def)
qed

termination time_search
  by (relation "measure (\<lambda>(p, t, b, low, high, st). nat (high - low + 1))")
    (auto simp: not_less dest: mid_bounds)

declare time_search.simps [simp del]

definition ConsumeQueue_getOffsetInQueueByTime :: "OS \<Rightarrow> CommitLog \<Rightarrow> int \<Rightarrow> ConsumeQueue \<Rightarrow> int option" where
  "ConsumeQueue_getOffsetInQueueByTime os cl timestamp self =
     (case MapedFileQueue_getMapedFileByTime os (cq_mapedFileQueue self) timestamp of
        None \<Rightarrow> Some 0
      | Some i \<Rightarrow>
          (let mf = mapedFiles (cq_mapedFileQueue self) ! i;
               low = (if minLogicOffset self > fileFromOffset mf then minLogicOffset self - fileFromOffset mf else 0)
           in do {
             (sel, _) \<leftarrow> MapedFile_selectMapedBuffer mf 0;
             case sel of
               None \<Rightarrow> Some 0
             | Some r \<Rightarrow>
                 do {
                   res \<leftarrow> time_search (\<lambda>o1 s. map_option fst (CommitLog_pickupStoretimestamp o1 s cl)) timestamp
                      (smr_MappedByteBuffer r) low (WritePos (smr_MappedByteBuffer r) - CQStoreUnitSize)
                      (- 1, - 1, - 1, - 1);
                   case res of
                     Inl v \<Rightarrow> Some v
                   | Inr (target, left, right, leftVal, rightVal) \<Rightarrow>
                       (let offset = (if target \<noteq> - 1 then target
                                      else if leftVal = - 1 then right
                                      else if rightVal = - 1 then left
                                      else if \<bar>timestamp - leftVal\<bar> > \<bar>timestamp - rightVal\<bar> then right else left)
                        in Some ((fileFromOffset mf + offset) sdiv CQStoreUnitSize)) } }))"

section \<open>Writing\<close>

definition ConsumeQueue_resetMsgStoreItemMemory :: "int \<Rightarrow> ConsumeQueue \<Rightarrow> ConsumeQueue" where
  "ConsumeQueue_resetMsgStoreItemMemory len self =
     (let b = (byteBufferIndex self)\<lparr>WritePos := 0, Limit := len\<rparr>
      in self\<lparr>byteBufferIndex := (if WritePos b > Limit b then b\<lparr>WritePos := Limit b\<rparr> else b)\<rparr>)"

text \<open>
  The buffer is created over 20 zero bytes and the blank unit is written behind them, so the 20 bytes
  read from its front are zero.
\<close>

definition blank_unit :: "byte list" where
  "blank_unit = take 20 (replicate 20 0 @ Int64ToBytes 0 @ Int32ToBytes 0x7fffffff @ Int64ToBytes 0)"

function fill_blank :: "int \<Rightarrow> int \<Rightarrow> MapedFile \<Rightarrow> MapedFile option" where
  "fill_blank i until mf =
     (if i < until
      then do { (_, mf1) \<leftarrow> MapedFile_appendMessage mf blank_unit; fill_blank (i + CQStoreUnitSize) until mf1 }
      else Some mf)"
  by pat_completeness auto
termination by (relation "measure (\<lambda>(i, until, mf). nat (until - i))") (auto simp: CQStoreUnitSize_def)

declare fill_blank.simps [simp del]

definition ConsumeQueue_fillPreBlank :: "MapedFile \<Rightarrow> int \<Rightarrow> ConsumeQueue \<Rightarrow> MapedFile option" where
  "ConsumeQueue_fillPreBlank mf untilWhere self =
     (if mfq_mapedFileSize (cq_mapedFileQueue self) = 0 then None
      else fill_blank 0 (untilWhere smod mfq_mapedFileSize (cq_mapedFileQueue self)) mf)"

definition ConsumeQueue_putMessagePostionInfo ::
    "OS \<Rightarrow> int \<Rightarrow> int \<Rightarrow> int \<Rightarrow> int \<Rightarrow> ConsumeQueue \<Rightarrow> (bool \<times> ConsumeQueue \<times> OS) option" where
  "ConsumeQueue_putMessagePostionInfo os offset sz tagsCode cqOffset self =
     (if offset \<le> maxPhysicOffset self then Some (True, self, os)
      else do {
        let self1 = ConsumeQueue_resetMsgStoreItemMemory CQStoreUnitSize self;
        idx \<leftarrow> write_all (byteBufferIndex self1)
          [Int64ToBytes offset, Int32ToBytes (to_int32 sz), Int64ToBytes tagsCode];
        let self2 = self1\<lparr>byteBufferIndex := idx\<rparr>;
        let expectLogicOffset = cqOffset * CQStoreUnitSize;
        (r, q, os1) \<leftarrow> MapedFileQueue_getLastMapedFile os expectLogicOffset (cq_mapedFileQueue self2);
        let self3 = self2\<lparr>cq_mapedFileQueue := q\<rparr>;
        case r of
          Inr (Some i) \<Rightarrow>
            do {
              let mf = mapedFiles q ! i;
              (mf1, self4) \<leftarrow>
                (if firstCreateInQueue mf \<and> cqOffset \<noteq> 0 \<and> wrotePostion mf = 0
                 then map_option (\<lambda>f. (f, self3\<lparr>minLogicOffset := expectLogicOffset\<rparr>))
                        (ConsumeQueue_fillPreBlank mf expectLogicOffset self3)
                 else Some (mf, self3));
              let self5 = self4\<lparr>maxPhysicOffset := offset\<rparr>;
              data \<leftarrow> MappedByteBuffer_Bytes (byteBufferIndex self5);
              (b, mf2) \<leftarrow> MapedFile_appendMessage mf1 data;
              Some (b, cq_set_file i mf2 self5, os1) }
        | _ \<Rightarrow> Some (False, self3, os1) })"

text \<open>
  At most five attempts. On success the checkpoint takes the store time of the message, otherwise the
  running flags record the error.
\<close>

fun put_retry ::
    "nat \<Rightarrow> OS \<Rightarrow> int \<Rightarrow> int \<Rightarrow> int \<Rightarrow> int \<Rightarrow> int \<Rightarrow> ConsumeQueue \<Rightarrow> StoreCheckpoint \<Rightarrow> int \<Rightarrow>
     (ConsumeQueue \<times> StoreCheckpoint \<times> int \<times> OS) option" where
  "put_retry 0 os offset sz tagsCode timestamp logicOffset self scp flags =
     Some (self, scp, RunningFlags_makeLogicsQueueError flags, os)"
| "put_retry (Suc n) os offset sz tagsCode timestamp logicOffset self scp flags =
     do {
       (result, self1, os1) \<leftarrow> ConsumeQueue_putMessagePostionInfo os offset sz tagsCode logicOffset self;
       if result then Some (self1, scp\<lparr>logicsMsgTimestamp := timestamp\<rparr>, flags, os1)
       else put_retry n os1 offset sz tagsCode timestamp logicOffset self1 scp flags }"

definition ConsumeQueue_putMessagePostionInfoWrapper ::
    "OS \<Rightarrow> int \<Rightarrow> int \<Rightarrow> int \<Rightarrow> int \<Rightarrow> int \<Rightarrow> ConsumeQueue \<Rightarrow> StoreCheckpoint \<Rightarrow> int \<Rightarrow>
     (ConsumeQueue \<times> StoreCheckpoint \<times> int \<times> OS) option" where
  "ConsumeQueue_putMessagePostionInfoWrapper = put_retry 5"

definition ConsumeQueue_commit :: "OS \<Rightarrow> int \<Rightarrow> ConsumeQueue \<Rightarrow> (bool \<times> ConsumeQueue \<times> OS) option" where
  "ConsumeQueue_commit os flushLeastPages self =
     map_option (\<lambda>(b, q, os1). (b, self\<lparr>cq_mapedFileQueue := q\<rparr>, os1))
       (MapedFileQueue_commit os flushLeastPages (cq_mapedFileQueue self))"

section \<open>Recovery and truncation\<close>

text \<open>\<open>getMapedFileByIndex\<close>: the file at a position of the list, \<open>None\<close> for \<open>nil\<close>.\<close>

definition getMapedFileByIndex :: "MapedFile list \<Rightarrow> nat \<Rightarrow> MapedFile option" where
  "getMapedFileByIndex mfs index = (if index < length mfs then Some (mfs ! index) else None)"

text \<open>\<open>binary.Read\<close> with its error only logged: the value stays zero and the buffer is drained.\<close>

definition rd_or_zero :: "(byte list \<Rightarrow> int) \<Rightarrow> nat \<Rightarrow> byte list \<Rightarrow> int \<times> byte list" where
  "rd_or_zero dec k buf = (if length buf < k then (0, []) else (dec (take k buf), drop k buf))"

function scan_units :: "int \<Rightarrow> int \<Rightarrow> byte list \<Rightarrow> int \<Rightarrow> int \<Rightarrow> int \<times> int" where
  "scan_units i fileSz buf mapedFileOffset maxPhy =
     (if i < fileSz
      then (let (offset, b1) = rd_or_zero BytesToInt64 8 buf;
                (sz, b2) = rd_or_zero BytesToInt32 4 b1;
                (tagsCode, b3) = rd_or_zero BytesToInt64 8 b2
            in if offset \<ge> 0 \<and> sz > 0
               then scan_units (i + CQStoreUnitSize) fileSz b3 (i + CQStoreUnitSize) offset
               else (mapedFileOffset, maxPhy))
      else (mapedFileOffset, maxPhy))"
  by pat_completeness auto
termination
  by (relation "measure (\<lambda>(i, fileSz, buf, mo, mp). nat (fileSz - i))") (auto simp: CQStoreUnitSize_def)

declare scan_units.simps [simp del]

function cq_recover_loop :: "int \<Rightarrow> nat \<Rightarrow> MapedFile list \<Rightarrow> int \<Rightarrow> (int \<times> int) option" where
  "cq_recover_loop fileSz index mfs maxPhy =
     do {
       buf \<leftarrow> MappedByteBuffer_Bytes (mappedByteBuffer (mfs ! index));
       let (mapedFileOffset, maxPhy1) = scan_units 0 fileSz buf 0 maxPhy;
       if mapedFileOffset = fileSz \<and> Suc index < length mfs then cq_recover_loop fileSz (Suc index) mfs maxPhy1
       else Some (fileFromOffset (mfs ! index) + mapedFileOffset, maxPhy1) }"
  by pat_completeness auto
termination by (relation "measure (\<lambda>(fileSz, index, mfs, mp). length mfs - index)") auto

declare cq_recover_loop.simps [simp del]

definition ConsumeQueue_recover :: "OS \<Rightarrow> ConsumeQueue \<Rightarrow> (ConsumeQueue \<times> OS) option" where
  "ConsumeQueue_recover os self =
     (let q = cq_mapedFileQueue self; mfs = mapedFiles q
      in if mfs = [] then Some (self, os)
         else do {
           (processOffset, maxPhy) \<leftarrow> cq_recover_loop (cq_mapedFileSize self) (length mfs - 3) mfs (maxPhysicOffset self);
           (q1, os1) \<leftarrow> MapedFileQueue_truncateDirtyFiles os processOffset q;
           Some (self\<lparr>cq_mapedFileQueue := q1, maxPhysicOffset := maxPhy\<rparr>, os1) })"

function last_offset_loop :: "int \<Rightarrow> int \<Rightarrow> MappedByteBuffer \<Rightarrow> int \<Rightarrow> int option" where
  "last_offset_loop i fileSz b physicsLastOffset =
     (if i < fileSz
      then do {
        (offset, sz, b1) \<leftarrow> read_unit b;
        last_offset_loop (i + CQStoreUnitSize) fileSz b1
          (if offset \<ge> 0 \<and> sz > 0 then offset + sz else physicsLastOffset) }
      else Some physicsLastOffset)"
  by pat_completeness auto
termination by (relation "measure (\<lambda>(i, fileSz, b, p). nat (fileSz - i))") (auto simp: CQStoreUnitSize_def)

declare last_offset_loop.simps [simp del]

definition ConsumeQueue_getLastOffset :: "ConsumeQueue \<Rightarrow> int option" where
  "ConsumeQueue_getLastOffset self =
     (case MapedFileQueue_getLastMapedFile2 (cq_mapedFileQueue self) of
        None \<Rightarrow> Some (- 1)
      | Some i \<Rightarrow>
          (let mf = mapedFiles (cq_mapedFileQueue self) ! i;
               position = (if wrotePostion mf - CQStoreUnitSize < 0 then 0 else wrotePostion mf - CQStoreUnitSize);
               region = MMapBuf (mappedByteBuffer mf)
           in if position > int (length region) then None
              else last_offset_loop 0 (cq_mapedFileSize self)
                     (NewMappedByteBuffer (drop (nat position) region) (int (length region) - position)) (- 1)))"

text \<open>
  The inner loop of \<open>truncateDirtyLogicFiles\<close> over the units of the last file: the new write
  position, the largest offset seen, and whether the first unit is past the limit (the file is
  deleted), the method returns, or the loop ran to its end.
\<close>

datatype trunc_end = DeleteFile | Return | EndOfLoop

function trunc_units ::
    "int \<Rightarrow> int \<Rightarrow> int \<Rightarrow> MappedByteBuffer \<Rightarrow> int \<Rightarrow> int \<Rightarrow> (trunc_end \<times> int \<times> int) option" where
  "trunc_units i fileSz phyOffet b pos maxPhy =
     (if i < fileSz
      then do {
        (offset, sz, b1) \<leftarrow> read_unit b;
        let pos1 = i + CQStoreUnitSize;
        if i = 0
        then (if offset \<ge> phyOffet then Some (DeleteFile, pos, maxPhy)
              else trunc_units (i + CQStoreUnitSize) fileSz phyOffet b1 pos1 offset)
        else if offset \<ge> 0 \<and> sz > 0
        then (if offset \<ge> phyOffet then Some (Return, pos, maxPhy)
              else if pos1 = fileSz then Some (Return, pos1, offset)
              else trunc_units (i + CQStoreUnitSize) fileSz phyOffet b1 pos1 offset)
        else Some (Return, pos, maxPhy) }
      else Some (EndOfLoop, pos, maxPhy))"
  by pat_completeness auto
termination
  by (relation "measure (\<lambda>(i, fileSz, ph, b, p, m). nat (fileSz - i))") (auto simp: CQStoreUnitSize_def)

declare trunc_units.simps [simp del]

text \<open>
  \<open>truncateDirtyLogicFiles\<close>. The file's \<open>wrotePostion\<close> and \<open>committedPosition\<close> are set, its buffer's
  write cursor is not. When the inner loop runs to its end the outer loop starts over on the same
  file; a run that never returns has no value.
\<close>

partial_function (option) ConsumeQueue_truncateDirtyLogicFiles ::
    "OS \<Rightarrow> int \<Rightarrow> ConsumeQueue \<Rightarrow> (ConsumeQueue \<times> OS) option" where
  "ConsumeQueue_truncateDirtyLogicFiles os phyOffet self =
     (case MapedFileQueue_getLastMapedFile2 (cq_mapedFileQueue self) of
        None \<Rightarrow> Some (self, os)
      | Some i \<Rightarrow>
          do {
            let mf = mapedFiles (cq_mapedFileQueue self) ! i;
            bs \<leftarrow> MappedByteBuffer_Bytes (mappedByteBuffer mf);
            (e, pos, maxPhy) \<leftarrow> trunc_units 0 (cq_mapedFileSize self) phyOffet
               (NewMappedByteBuffer bs (int (length (MMapBuf (mappedByteBuffer mf))))) 0 (maxPhysicOffset self);
            let self1 = (cq_set_file i (mf\<lparr>wrotePostion := pos, committedPosition := pos\<rparr>) self)
                          \<lparr>maxPhysicOffset := maxPhy\<rparr>;
            case e of
              Return \<Rightarrow> Some (self1, os)
            | DeleteFile \<Rightarrow>
                (case MapedFileQueue_deleteLastMapedFile os (cq_mapedFileQueue self1) of
                   (q, os1) \<Rightarrow> ConsumeQueue_truncateDirtyLogicFiles os1 phyOffet (self1\<lparr>cq_mapedFileQueue := q\<rparr>))
            | EndOfLoop \<Rightarrow> ConsumeQueue_truncateDirtyLogicFiles os phyOffet self1 })"

definition ConsumeQueue_destroy :: "OS \<Rightarrow> ConsumeQueue \<Rightarrow> ConsumeQueue \<times> OS" where
  "ConsumeQueue_destroy os self =
     (case MapedFileQueue_destroy os (cq_mapedFileQueue self) of
        (q, os1) \<Rightarrow> (self\<lparr>cq_mapedFileQueue := q, maxPhysicOffset := - 1, minLogicOffset := 0\<rparr>, os1))"

definition ConsumeQueue_deleteExpiredFile ::
    "OS \<Rightarrow> int \<Rightarrow> ConsumeQueue \<Rightarrow> (int \<times> ConsumeQueue \<times> OS) option" where
  "ConsumeQueue_deleteExpiredFile os offset self =
     do {
       (count, q, os1) \<leftarrow> MapedFileQueue_deleteExpiredFileByOffset os offset CQStoreUnitSize (cq_mapedFileQueue self);
       self1 \<leftarrow> ConsumeQueue_correctMinOffset offset (self\<lparr>cq_mapedFileQueue := q\<rparr>);
       Some (count, self1, os1) }"

section \<open>Units of a well-formed queue\<close>

text \<open>
  A well-formed consume queue: its files hold whole units, the buffer has room for one unit, and only
  the first file may carry the mark of a first file.
\<close>

definition cq_inv :: "ConsumeQueue \<Rightarrow> bool" where
  "cq_inv self \<longleftrightarrow> mfq_inv (cq_mapedFileQueue self) \<and>
     mfq_mapedFileSize (cq_mapedFileQueue self) = cq_mapedFileSize self \<and> 20 dvd cq_mapedFileSize self \<and>
     20 dvd MapedFileQueue_getMaxOffset (cq_mapedFileQueue self) \<and>
     length (MMapBuf (byteBufferIndex self)) = 20 \<and>
     (\<forall>mf \<in> set (tl (mapedFiles (cq_mapedFileQueue self))). \<not> firstCreateInQueue mf)"

definition unit_bytes :: "int \<Rightarrow> int \<Rightarrow> int \<Rightarrow> byte list" where
  "unit_bytes offset sz tagsCode = Int64ToBytes offset @ Int32ToBytes sz @ Int64ToBytes tagsCode"

definition unit_ok :: "int \<times> int \<times> int \<Rightarrow> bool" where
  "unit_ok = (\<lambda>(offset, sz, tagsCode). in_int 64 offset \<and> in_int 32 sz \<and> in_int 64 tagsCode)"

lemma length_unit_bytes [simp]: "length (unit_bytes x y z) = 20"
  by (simp add: unit_bytes_def i64.length_enc i32.length_enc)

lemma blank_unit_zeros: "blank_unit = replicate 20 0"
  by (simp add: blank_unit_def)

lemma fill_blank_zeros:
  assumes "mf_inv mf" and "wrotePostion mf = i" and "until \<le> fileSize mf" and "i \<le> until" and "20 dvd until - i"
  shows "\<exists>mf1. fill_blank i until mf = Some mf1 \<and> mf_inv mf1 \<and> fileSize mf1 = fileSize mf \<and>
     fileFromOffset mf1 = fileFromOffset mf \<and> fileName mf1 = fileName mf \<and>
     mf_content mf1 = mf_content mf @ replicate (nat (until - i)) 0"
  using assms
proof (induction i until mf rule: fill_blank.induct)
  case (1 i until mf)
  show ?case
  proof (cases "i < until")
    case True
    have ge: "20 \<le> until - i" using True 1(6) by (intro zdvd_imp_le) auto
    then have room: "wrotePostion mf + int (length blank_unit) \<le> fileSize mf"
      using 1(3,4) by (simp add: blank_unit_zeros)
    obtain mf1 where a: "MapedFile_appendMessage mf blank_unit = Some (True, mf1)" "mf_inv mf1"
        "mf_content mf1 = mf_content mf @ blank_unit" "fileFromOffset mf1 = fileFromOffset mf"
        "fileSize mf1 = fileSize mf" "fileName mf1 = fileName mf"
      using appendMessage_cases [OF 1(2), of blank_unit] room by metis
    have w: "wrotePostion mf1 = i + CQStoreUnitSize"
      using length_mf_content [OF 1(2)] length_mf_content [OF a(2)] a(3) 1(3)
      by (simp add: blank_unit_zeros CQStoreUnitSize_def)
    have d: "20 dvd until - (i + CQStoreUnitSize)"
      using dvd_diff [OF 1(6), of 20] by (simp add: CQStoreUnitSize_def algebra_simps)
    obtain mf2 where f: "fill_blank (i + CQStoreUnitSize) until mf1 = Some mf2" "mf_inv mf2"
        "fileSize mf2 = fileSize mf1" "fileFromOffset mf2 = fileFromOffset mf1" "fileName mf2 = fileName mf1"
        "mf_content mf2 = mf_content mf1 @ replicate (nat (until - (i + CQStoreUnitSize))) 0"
      using 1(1) [OF True a(1) refl a(2) w _ _ d] 1(4) ge a(5) by (auto simp: CQStoreUnitSize_def)
    have "nat (until - i) = 20 + nat (until - (i + CQStoreUnitSize))"
      using ge by (simp add: CQStoreUnitSize_def)
    then have "blank_unit @ replicate (nat (until - (i + CQStoreUnitSize))) 0 = replicate (nat (until - i)) 0"
      by (simp add: blank_unit_zeros replicate_add)
    with a f True show ?thesis by (subst fill_blank.simps) simp
  qed (use 1 in \<open>subst fill_blank.simps, simp\<close>)
qed

lemma index_buffer_written:
  assumes "length (MMapBuf (byteBufferIndex self)) = 20"
  shows "\<exists>idx. write_all (byteBufferIndex (ConsumeQueue_resetMsgStoreItemMemory CQStoreUnitSize self))
       [Int64ToBytes x, Int32ToBytes y, Int64ToBytes z] = Some idx \<and>
     MappedByteBuffer_Bytes idx = Some (unit_bytes x y z) \<and> length (MMapBuf idx) = 20"
proof -
  let ?b = "byteBufferIndex (ConsumeQueue_resetMsgStoreItemMemory CQStoreUnitSize self)"
  have b: "?b = (byteBufferIndex self)\<lparr>WritePos := 0, Limit := 20\<rparr>"
    by (simp add: ConsumeQueue_resetMsgStoreItemMemory_def CQStoreUnitSize_def)
  have "wrote ?b []" by (simp add: b wrote_def)
  then obtain idx where "write_all ?b [Int64ToBytes x, Int32ToBytes y, Int64ToBytes z] = Some idx"
      "wrote idx (unit_bytes x y z)" "length (MMapBuf idx) = length (MMapBuf ?b)"
    using write_all_wrote [of ?b "[]" "[Int64ToBytes x, Int32ToBytes y, Int64ToBytes z]"] assms
    by (auto simp: b unit_bytes_def i64.length_enc i32.length_enc)
  then show ?thesis using assms by (auto simp: b dest: wrote_Bytes)
qed

text \<open>The file a put works on, and what it holds before the unit is appended.\<close>

lemma put_file:
  assumes "cq_inv self" and "mfq_ahead os (cq_mapedFileQueue self)" and "0 \<le> k"
    and "mapedFiles (cq_mapedFileQueue self) \<noteq> [] \<longrightarrow> MapedFileQueue_getMaxOffset (cq_mapedFileQueue self) = 20 * k"
    and "20 * k + cq_mapedFileSize self < 2 ^ 63"
  shows "\<exists>q1 os1. MapedFileQueue_getLastMapedFile os (20 * k) (cq_mapedFileQueue self) =
       Some (Inr (Some (length (mapedFiles q1) - 1)), q1, os1) \<and> mfq_inv q1 \<and> mapedFiles q1 \<noteq> [] \<and>
     mfq_mapedFileSize q1 = cq_mapedFileSize self \<and> mfq_bytes q1 = mfq_bytes (cq_mapedFileQueue self) \<and>
     mfq_ahead os1 q1 \<and> (\<forall>mf \<in> set (tl (mapedFiles q1)). \<not> firstCreateInQueue mf) \<and>
     \<not> MapedFile_isFull (last (mapedFiles q1)) \<and>
     (if mapedFiles (cq_mapedFileQueue self) = []
      then mfq_base q1 = 20 * k - (20 * k) mod cq_mapedFileSize self \<and> wrotePostion (last (mapedFiles q1)) = 0 \<and>
        firstCreateInQueue (last (mapedFiles q1)) \<and> length (mapedFiles q1) = 1
      else mfq_base q1 = mfq_base (cq_mapedFileQueue self) \<and> MapedFileQueue_getMaxOffset q1 = 20 * k)"
proof -
  let ?q = "cq_mapedFileQueue self"
  have q: "mfq_inv ?q" "mfq_mapedFileSize ?q = cq_mapedFileSize self" "0 < cq_mapedFileSize self"
      "\<forall>mf \<in> set (tl (mapedFiles ?q)). \<not> firstCreateInQueue mf"
    using assms(1) by (auto simp: cq_inv_def mfq_inv_def)
  show ?thesis
  proof (cases "mapedFiles ?q = [] \<or> MapedFile_isFull (last (mapedFiles ?q))")
    case True
    let ?x = "next_offset (20 * k) ?q"
    let ?q1 = "?q\<lparr>mapedFiles := mapedFiles ?q @ [(fresh_file (mfq_storePath ?q) ?x
               (mfq_mapedFileSize ?q))\<lparr>firstCreateInQueue := (mapedFiles ?q = [])\<rparr>]\<rparr>"
    have full: "mapedFiles ?q \<noteq> [] \<longrightarrow> MapedFile_isFull (last (mapedFiles ?q))" using True by blast
    have fs: "mapedFiles ?q \<noteq> [] \<Longrightarrow> fileSize (last (mapedFiles ?q)) = cq_mapedFileSize self"
      using q(1,2) files_from_last by (fastforce simp: mfq_inv_def file_at_def)
    have x: "mapedFiles ?q \<noteq> [] \<Longrightarrow> ?x = 20 * k"
      using full fs assms(4) q(2)
      by (simp add: next_offset_def MapedFileQueue_getMaxOffset_def MapedFile_isFull_def Let_def)
    have x0: "mapedFiles ?q = [] \<Longrightarrow> ?x = 20 * k - (20 * k) mod cq_mapedFileSize self"
      using assms(3) q(2,3) by (simp add: next_offset_def smod_nonneg)
    have "?x \<le> 20 * k"
      using x x0 q(3) assms(3) by (cases "mapedFiles ?q = []") (simp_all add: pos_mod_sign)
    then have cg: "can_grow os (20 * k) ?q"
      using can_grow_ahead [OF q(1) assms(2), of "20 * k"] assms(3,5) q(2) by simp
    obtain os1 where g: "MapedFileQueue_getLastMapedFile os (20 * k) ?q =
        Some (Inr (Some (length (mapedFiles ?q))), ?q1, os1)" "mfq_ahead os1 ?q1"
      using getLast_grow_ahead [OF q(1) full assms(2) cg refl] by blast
    note gi = grow_inv [OF q(1) full cg refl, of "mapedFiles ?q = []"]
    show ?thesis
      using g gi x x0 q True
      by (intro exI [of _ ?q1] exI [of _ os1])
         (auto simp: MapedFile_isFull_def fresh_file_def tl_append split: list.splits)
  next
    case False
    then show ?thesis
      using getLastMapedFile_not_full [of ?q os "20 * k"] q assms(2,4) by auto
  qed
qed

definition put_min :: "int \<Rightarrow> MapedFile \<Rightarrow> int \<Rightarrow> int" where
  "put_min k mf old = (if firstCreateInQueue mf \<and> k \<noteq> 0 \<and> wrotePostion mf = 0 then 20 * k else old)"

lemma fill_step:
  assumes "mfq_inv q" and "mapedFiles q \<noteq> []" and "mfq_mapedFileSize q = sz" and "20 dvd sz" and "0 \<le> k"
    and "mf = last (mapedFiles q)" and "cq_mapedFileQueue self = q"
    and "if e then mfq_base q = 20 * k - (20 * k) mod sz \<and> wrotePostion mf = 0 \<and> firstCreateInQueue mf \<and> mfq_bytes q = []
         else MapedFileQueue_getMaxOffset q = 20 * k"
  shows "\<exists>mf1. (if firstCreateInQueue mf \<and> k \<noteq> 0 \<and> wrotePostion mf = 0
        then map_option (\<lambda>f. (f, self\<lparr>minLogicOffset := 20 * k\<rparr>)) (ConsumeQueue_fillPreBlank mf (20 * k) self)
        else Some (mf, self)) = Some (mf1, self\<lparr>minLogicOffset := put_min k mf (minLogicOffset self)\<rparr>) \<and>
     mf_inv mf1 \<and> fileSize mf1 = fileSize mf \<and> fileFromOffset mf1 = fileFromOffset mf \<and> fileName mf1 = fileName mf \<and>
     mf_content mf1 = mf_content mf @ replicate (nat (if e then (20 * k) mod sz else 0)) 0"
proof -
  have fa: "mf_inv mf" "fileSize mf = sz" "fileFromOffset mf = mfq_base q + int (length (mapedFiles q) - 1) * sz"
    using assms(1,2,3,6) files_from_last by (fastforce simp: mfq_inv_def file_at_def)+
  have sz: "0 < sz" and dvd: "sz dvd mfq_base q" using assms(1,3) by (auto simp: mfq_inv_def)
  have m: "(20 * k) smod sz = (20 * k) mod sz" using sz assms(5) by (simp add: smod_nonneg)
  have d20: "20 dvd (20 * k) mod sz" using assms(4) by (simp add: dvd_mod_iff)
  show ?thesis
  proof (cases "firstCreateInQueue mf \<and> k \<noteq> 0 \<and> wrotePostion mf = 0")
    case True
    have w: "wrotePostion mf = 0" using True by blast
    have u: "(20 * k) mod sz \<le> fileSize mf" "0 \<le> (20 * k) mod sz" "20 dvd (20 * k) mod sz - 0"
      using sz fa(2) pos_mod_bound [of sz "20 * k"] pos_mod_sign [of sz "20 * k"] d20
      by (simp_all add: order_less_imp_le)
    obtain mf1 where f: "fill_blank 0 ((20 * k) mod sz) mf = Some mf1" "mf_inv mf1" "fileSize mf1 = fileSize mf"
        "fileFromOffset mf1 = fileFromOffset mf" "fileName mf1 = fileName mf"
        "mf_content mf1 = mf_content mf @ replicate (nat ((20 * k) mod sz - 0)) 0"
      using fill_blank_zeros [OF fa(1) w u] by blast
    have "\<not> e \<Longrightarrow> (20 * k) mod sz = 0"
    proof -
      assume "\<not> e"
      then have "20 * k = mfq_base q + int (length (mapedFiles q) - 1) * sz"
        using assms(2,6,8) w fa(3) by (simp add: MapedFileQueue_getMaxOffset_def Let_def)
      then have "sz dvd 20 * k" using dvd by simp
      then show ?thesis by simp
    qed
    then show ?thesis
      using f True sz assms(3,7) by (auto simp: ConsumeQueue_fillPreBlank_def m put_min_def)
  next
    case False
    have "e \<Longrightarrow> (20 * k) mod sz = 0" using False assms(8) by auto
    then show ?thesis using False fa by (auto simp: put_min_def)
  qed
qed

lemma append_first: "MapedFile_appendMessage mf d = Some (b, mf1) \<Longrightarrow> firstCreateInQueue mf1 = firstCreateInQueue mf"
  by (auto simp: MapedFile_appendMessage_def split: if_splits sum.splits Option.bind_splits)

lemma fill_first: "fill_blank i until mf = Some mf1 \<Longrightarrow> firstCreateInQueue mf1 = firstCreateInQueue mf"
proof (induction i until mf rule: fill_blank.induct)
  case (1 i until mf)
  from 1(2) show ?case
    by (subst (asm) fill_blank.simps)
       (auto split: if_splits Option.bind_splits dest: append_first dest!: 1(1) [OF _ _ refl])
qed

lemma update_last_tl:
  assumes "\<forall>x \<in> set (tl xs). P x" and "xs \<noteq> []" and "P (last xs) \<Longrightarrow> P y"
  shows "\<forall>x \<in> set (tl (xs[length xs - 1 := y])). P x"
proof -
  obtain pre l where "xs = pre @ [l]" using assms(2) by (metis append_butlast_last_id)
  with assms(1,3) show ?thesis by (cases pre) auto
qed

lemma reset_frame [simp]:
  "cq_mapedFileQueue (ConsumeQueue_resetMsgStoreItemMemory n self) = cq_mapedFileQueue self"
  "minLogicOffset (ConsumeQueue_resetMsgStoreItemMemory n self) = minLogicOffset self"
  "cq_mapedFileSize (ConsumeQueue_resetMsgStoreItemMemory n self) = cq_mapedFileSize self"
  by (simp_all add: ConsumeQueue_resetMsgStoreItemMemory_def Let_def)

lemma put_unit:
  assumes "cq_inv self" and "mfq_ahead os (cq_mapedFileQueue self)" and "0 \<le> k"
    and "mapedFiles (cq_mapedFileQueue self) \<noteq> [] \<longrightarrow> MapedFileQueue_getMaxOffset (cq_mapedFileQueue self) = 20 * k"
    and "20 * k + cq_mapedFileSize self < 2 ^ 63" and "maxPhysicOffset self < offset" and "in_int 32 sz"
  shows "\<exists>self1 os1. ConsumeQueue_putMessagePostionInfo os offset sz tagsCode k self = Some (True, self1, os1) \<and>
     cq_inv self1 \<and> mfq_ahead os1 (cq_mapedFileQueue self1) \<and> maxPhysicOffset self1 = offset \<and>
     cq_mapedFileSize self1 = cq_mapedFileSize self \<and>
     MapedFileQueue_getMaxOffset (cq_mapedFileQueue self1) = 20 * k + 20 \<and>
     (\<exists>blank. mfq_bytes (cq_mapedFileQueue self1) =
        mfq_bytes (cq_mapedFileQueue self) @ replicate blank 0 @ unit_bytes offset sz tagsCode) \<and>
     (if mapedFiles (cq_mapedFileQueue self) = []
      then mfq_base (cq_mapedFileQueue self1) = 20 * k - (20 * k) mod cq_mapedFileSize self \<and>
        length (mapedFiles (cq_mapedFileQueue self1)) = 1
      else mfq_base (cq_mapedFileQueue self1) = mfq_base (cq_mapedFileQueue self)) \<and>
     (minLogicOffset self1 = minLogicOffset self \<or>
        minLogicOffset self1 = 20 * k \<and> mfq_bytes (cq_mapedFileQueue self) = [])"
proof -
  let ?q = "cq_mapedFileQueue self" and ?S = "cq_mapedFileSize self"
  have len: "length (MMapBuf (byteBufferIndex self)) = 20" and S20: "20 dvd ?S" and S: "0 < ?S"
    using assms(1) by (auto simp: cq_inv_def mfq_inv_def)
  obtain idx where idx: "write_all (byteBufferIndex (ConsumeQueue_resetMsgStoreItemMemory CQStoreUnitSize self))
       [Int64ToBytes offset, Int32ToBytes sz, Int64ToBytes tagsCode] = Some idx"
      "MappedByteBuffer_Bytes idx = Some (unit_bytes offset sz tagsCode)" "length (MMapBuf idx) = 20"
    using index_buffer_written [OF len] by blast
  obtain q1 os1 where q1: "MapedFileQueue_getLastMapedFile os (20 * k) ?q =
       Some (Inr (Some (length (mapedFiles q1) - 1)), q1, os1)" "mfq_inv q1" "mapedFiles q1 \<noteq> []"
      "mfq_mapedFileSize q1 = ?S" "mfq_bytes q1 = mfq_bytes ?q" "mfq_ahead os1 q1"
      "\<forall>mf \<in> set (tl (mapedFiles q1)). \<not> firstCreateInQueue mf" "\<not> MapedFile_isFull (last (mapedFiles q1))"
      "if mapedFiles ?q = []
       then mfq_base q1 = 20 * k - (20 * k) mod ?S \<and> wrotePostion (last (mapedFiles q1)) = 0 \<and>
         firstCreateInQueue (last (mapedFiles q1)) \<and> length (mapedFiles q1) = 1
       else mfq_base q1 = mfq_base ?q \<and> MapedFileQueue_getMaxOffset q1 = 20 * k"
    using put_file [OF assms(1-5)] by blast
  let ?self3 = "(ConsumeQueue_resetMsgStoreItemMemory CQStoreUnitSize self)\<lparr>byteBufferIndex := idx, cq_mapedFileQueue := q1\<rparr>"
  let ?mf = "last (mapedFiles q1)" and ?e = "mapedFiles ?q = []"
  have cond: "if ?e then mfq_base q1 = 20 * k - (20 * k) mod ?S \<and> wrotePostion ?mf = 0 \<and> firstCreateInQueue ?mf \<and> mfq_bytes q1 = []
         else MapedFileQueue_getMaxOffset q1 = 20 * k"
    using q1(5,9) by (auto simp: mfq_bytes_def split: if_splits)
  obtain mf1 where f: "(if firstCreateInQueue ?mf \<and> k \<noteq> 0 \<and> wrotePostion ?mf = 0
        then map_option (\<lambda>f. (f, ?self3\<lparr>minLogicOffset := 20 * k\<rparr>)) (ConsumeQueue_fillPreBlank ?mf (20 * k) ?self3)
        else Some (?mf, ?self3)) = Some (mf1, ?self3\<lparr>minLogicOffset := put_min k ?mf (minLogicOffset ?self3)\<rparr>)"
      "mf_inv mf1" "fileSize mf1 = fileSize ?mf" "fileFromOffset mf1 = fileFromOffset ?mf" "fileName mf1 = fileName ?mf"
      "mf_content mf1 = mf_content ?mf @ replicate (nat (if ?e then (20 * k) mod ?S else 0)) 0"
    using fill_step [OF q1(2,3,4) S20 assms(3) refl _ cond, of ?self3] by auto
  define B where "B = nat (if ?e then (20 * k) mod ?S else 0)"
  have max1: "MapedFileQueue_getMaxOffset q1 + int B = 20 * k"
    using cond pos_mod_sign [OF S, of "20 * k"] getMaxOffset_bytes [OF q1(2)] by (auto simp: B_def split: if_splits)
  have fa: "mf_inv ?mf" "fileSize ?mf = ?S" "fileFromOffset ?mf = mfq_base q1 + int (length (mapedFiles q1) - 1) * ?S"
    using q1(2,3,4) files_from_last by (fastforce simp: mfq_inv_def file_at_def)+
  have w1: "wrotePostion mf1 = wrotePostion ?mf + int B"
    using length_mf_content [OF fa(1)] length_mf_content [OF f(2)] f(6) by (simp add: B_def)
  have Bmod: "wrotePostion mf1 + 20 \<le> fileSize mf1"
  proof -
    have "mfq_mapedFileSize q1 dvd fileFromOffset ?mf" using q1(2,4) fa(3) by (auto simp: mfq_inv_def)
    then have "20 dvd fileFromOffset ?mf" using S20 q1(4) dvd_trans by metis
    moreover have "fileFromOffset ?mf + wrotePostion mf1 = 20 * k"
      using max1 w1 q1(3) by (simp add: MapedFileQueue_getMaxOffset_def Let_def)
    ultimately have "20 dvd wrotePostion mf1" by presburger
    moreover have "wrotePostion mf1 \<noteq> ?S"
    proof
      assume "wrotePostion mf1 = ?S"
      moreover have "?e \<Longrightarrow> int B < ?S" using S pos_mod_bound [OF S, of "20 * k"] by (simp add: B_def)
      ultimately show False using w1 cond q1(8) fa(2) by (cases ?e) (auto simp: B_def MapedFile_isFull_def)
    qed
    moreover have "wrotePostion mf1 \<le> ?S" using f(2,3) fa(2) by (simp add: mf_inv_def)
    ultimately show ?thesis using S20 f(3) fa(2) by (auto elim!: dvdE)
  qed
  obtain mf2 where a: "MapedFile_appendMessage mf1 (unit_bytes offset sz tagsCode) = Some (True, mf2)" "mf_inv mf2"
      "mf_content mf2 = mf_content mf1 @ unit_bytes offset sz tagsCode" "fileFromOffset mf2 = fileFromOffset mf1"
      "fileSize mf2 = fileSize mf1" "fileName mf2 = fileName mf1"
    using appendMessage_cases [OF f(2), of "unit_bytes offset sz tagsCode"] Bmod by (metis length_unit_bytes of_nat_numeral)
  let ?q2 = "q1\<lparr>mapedFiles := (mapedFiles q1)[length (mapedFiles q1) - 1 := mf2]\<rparr>"
  have c: "mf_content mf2 = mf_content ?mf @ (replicate B 0 @ unit_bytes offset sz tagsCode)"
    using a(3) f(6) by (simp add: B_def)
  note el = extend_last [OF q1(2,3) a(2) _ _ _ c refl]
  have e: "mfq_inv ?q2" "mfq_bytes ?q2 = mfq_bytes ?q @ replicate B 0 @ unit_bytes offset sz tagsCode"
      "mfq_base ?q2 = mfq_base q1"
    using el(1-3) a(4-6) f(3-5) q1(5) by simp_all
  have max2: "MapedFileQueue_getMaxOffset ?q2 = 20 * k + 20"
    using getMaxOffset_bytes [OF e(1)] getMaxOffset_bytes [OF q1(2)] e(2,3) max1 q1(5) by simp
  let ?self2 = "?self3\<lparr>minLogicOffset := put_min k ?mf (minLogicOffset ?self3), maxPhysicOffset := offset, cq_mapedFileQueue := ?q2\<rparr>"
  have nl: "mapedFiles q1 ! (length (mapedFiles q1) - Suc 0) = ?mf" using q1(3) by (simp add: last_conv_nth)
  have ks: "k * CQStoreUnitSize = 20 * k" by (simp add: CQStoreUnitSize_def)
  have put: "ConsumeQueue_putMessagePostionInfo os offset sz tagsCode k self = Some (True, ?self2, os1)"
    using assms(6) idx(1,2) q1(1) a(1)
    by (simp add: ConsumeQueue_putMessagePostionInfo_def to_int32_id [OF assms(7)] ks nl Let_def
        f(1) cq_set_file_def del: write_all.simps split del: if_split cong: if_cong)
  have tl2: "\<forall>mf \<in> set (tl ((mapedFiles q1)[length (mapedFiles q1) - 1 := mf2])). \<not> firstCreateInQueue mf"
  proof (rule update_last_tl [OF q1(7,3)])
    have "firstCreateInQueue mf1 = firstCreateInQueue ?mf"
      using f(1) fill_first by (auto simp: ConsumeQueue_fillPreBlank_def split: if_splits)
    then show "\<not> firstCreateInQueue ?mf \<Longrightarrow> \<not> firstCreateInQueue mf2" using append_first [OF a(1)] by simp
  qed
  have inv: "cq_inv ?self2"
    using e(1) q1(4) S20 max2 idx(3) tl2 by (auto simp: cq_inv_def)
  have ahead: "mfq_ahead os1 ?q2"
    using q1(6) e(3) by (simp add: mfq_ahead_def mfq_end_def)
  have "mfq_bytes ?q = []" if "firstCreateInQueue ?mf" "wrotePostion ?mf = 0"
  proof -
    obtain pre l where pre: "mapedFiles q1 = pre @ [l]" using q1(3) by (metis append_butlast_last_id)
    then have "pre = []" using q1(7) that(1) by (cases pre) auto
    moreover have "mf_content ?mf = []" using length_mf_content [OF fa(1)] that(2) by simp
    ultimately show ?thesis using q1(5) pre by (simp add: mfq_bytes_def)
  qed
  then have min: "minLogicOffset ?self2 = minLogicOffset self \<or> minLogicOffset ?self2 = 20 * k \<and> mfq_bytes ?q = []"
    by (simp add: put_min_def)
  show ?thesis
    using put inv ahead max2 e(2,3) q1(9) min
    by (intro exI [of _ ?self2] exI [of _ os1]) (auto split: if_splits)
qed

section \<open>Reading units back\<close>

definition cq_unit_at :: "ConsumeQueue \<Rightarrow> int \<Rightarrow> (int \<times> int \<times> int) option" where
  "cq_unit_at self k =
     do {
       (p, _) \<leftarrow> ConsumeQueue_getIndexBuffer k self;
       r \<leftarrow> p;
       (offset, b1) \<leftarrow> MappedByteBuffer_ReadInt64 (smr_MappedByteBuffer r);
       (sz, b2) \<leftarrow> MappedByteBuffer_ReadInt32 b1;
       (tagsCode, _) \<leftarrow> MappedByteBuffer_ReadInt64 b2;
       Some (offset, sz, tagsCode) }"

definition unit_of :: "byte list \<Rightarrow> int \<times> int \<times> int" where
  "unit_of bs = (BytesToInt64 (take 8 bs), BytesToInt32 (take 4 (drop 8 bs)), BytesToInt64 (drop 12 bs))"

definition cq_has :: "ConsumeQueue \<Rightarrow> int \<Rightarrow> bool" where
  "cq_has self k \<longleftrightarrow> minLogicOffset self \<le> 20 * k \<and> mfq_base (cq_mapedFileQueue self) \<le> 20 * k \<and>
     20 * k + 20 \<le> MapedFileQueue_getMaxOffset (cq_mapedFileQueue self)"

definition cq_slice :: "ConsumeQueue \<Rightarrow> int \<Rightarrow> byte list" where
  "cq_slice self k = take 20 (drop (nat (20 * k - mfq_base (cq_mapedFileQueue self))) (mfq_bytes (cq_mapedFileQueue self)))"

lemma unit_of_bytes: "unit_ok (x, y, z) \<Longrightarrow> unit_of (unit_bytes x y z) = (x, y, z)"
  by (simp add: unit_ok_def unit_of_def unit_bytes_def i64.length_enc i32.length_enc i64.dec_enc_self i32.dec_enc_self)

lemma read_unit_of:
  assumes "at_cursor b (bs @ rest)" and "length bs = 20"
  shows "\<exists>b1 b2 b3. MappedByteBuffer_ReadInt64 b = Some (fst (unit_of bs), b1) \<and>
     MappedByteBuffer_ReadInt32 b1 = Some (fst (snd (unit_of bs)), b2) \<and>
     MappedByteBuffer_ReadInt64 b2 = Some (snd (snd (unit_of bs)), b3)"
proof -
  define u v w where "u = take 8 bs" and "v = take 4 (drop 8 bs)" and "w = drop 12 bs"
  have "drop 8 bs = v @ w" using append_take_drop_id [of 4 "drop 8 bs"] by (simp add: v_def w_def)
  then have bs: "bs = u @ v @ w" using append_take_drop_id [of 8 bs] by (simp add: u_def)
  have l: "length u = 8" "length v = 4" "length w = 8" using assms(2) by (simp_all add: u_def v_def w_def)
  have a: "at_cursor b (u @ v @ w @ rest)" using assms(1) by (simp add: bs)
  note a1 = at_cursor_adv [OF a] note a2 = at_cursor_adv [OF a1]
  show ?thesis
    using Read_adv [OF a l(1)] Read_adv [OF a1 l(2)] Read_adv [OF a2 l(3)] l
    by (simp add: MappedByteBuffer_ReadInt64_def MappedByteBuffer_ReadInt32_def unit_of_def
        u_def [symmetric] v_def [symmetric] w_def [symmetric])
qed

text \<open>The bytes of \<open>n\<close> units, and the region \<open>getIndexBuffer\<close> selects: the units up to the end of their file.\<close>

definition cq_bytes :: "ConsumeQueue \<Rightarrow> int \<Rightarrow> nat \<Rightarrow> byte list" where
  "cq_bytes self k n = take (20 * n) (drop (nat (20 * k - mfq_base (cq_mapedFileQueue self))) (mfq_bytes (cq_mapedFileQueue self)))"

lemma cq_bytes_Suc:
  assumes "mfq_base (cq_mapedFileQueue self) \<le> 20 * k"
  shows "cq_bytes self k (Suc n) = cq_slice self k @ cq_bytes self (k + 1) n"
proof -
  have "nat (20 * (k + 1) - mfq_base (cq_mapedFileQueue self)) = nat (20 * k - mfq_base (cq_mapedFileQueue self)) + 20"
    using assms nat_add_distrib [of "20 * k - mfq_base (cq_mapedFileQueue self)" 20] by (simp add: algebra_simps)
  then show ?thesis by (simp add: cq_bytes_def cq_slice_def take_add [of 20 "20 * n"] add.commute)
qed

lemma index_region:
  assumes "cq_inv self" and "cq_has self k"
  obtains r cq1 n where "ConsumeQueue_getIndexBuffer k self = Some (Some r, cq1)" and "0 < n"
    and "at_cursor (smr_MappedByteBuffer r) (cq_bytes self k n)" and "Size r = to_int32 (20 * int n)"
    and "WritePos (smr_MappedByteBuffer r) \<noteq> 0" and "20 * int n \<le> cq_mapedFileSize self"
    and "20 * (k + int n) \<le> MapedFileQueue_getMaxOffset (cq_mapedFileQueue self)"
    and "20 * int n = min (MapedFileQueue_getMaxOffset (cq_mapedFileQueue self) - 20 * k) (cq_mapedFileSize self - 20 * k mod cq_mapedFileSize self)"
proof -
  let ?q = "cq_mapedFileQueue self" and ?S = "cq_mapedFileSize self"
  have q: "mfq_inv ?q" "mfq_mapedFileSize ?q = ?S" "0 < ?S" "20 dvd ?S" "?S dvd mfq_base ?q"
      "20 dvd MapedFileQueue_getMaxOffset ?q"
    using assms(1) by (auto simp: cq_inv_def mfq_inv_def)
  have h: "mfq_base ?q \<le> 20 * k" "20 * k + 20 \<le> MapedFileQueue_getMaxOffset ?q" "minLogicOffset self \<le> 20 * k"
    using assms(2) by (simp_all add: cq_has_def)
  let ?i = "nat ((20 * k - mfq_base ?q) div ?S)" and ?p = "(20 * k) mod ?S"
  let ?mf = "mapedFiles ?q ! ?i"
  have p20: "20 dvd ?p" using q(4) by (simp add: dvd_mod_iff)
  have "?p < ?S" using q(3) by simp
  then have "?p + 20 \<le> ?S" using p20 q(4) by (auto elim!: dvdE)
  note r = region_of [OF q(1) h(1) _ _ h(2) refl refl, unfolded q(2), OF this]
  have fa: "file_at (mfq_storePath ?q) ?S (mfq_base ?q + int ?i * ?S) ?mf" using r(3) by simp
  then have mi: "mf_inv ?mf" by (simp add: file_at_def)
  have "20 dvd mfq_base ?q" using q(4,5) by (rule dvd_trans)
  then have "20 dvd mfq_base ?q + int ?i * ?S" using q(4) by (intro dvd_add dvd_mult) auto
  then have "20 dvd fileFromOffset ?mf" using fa by (simp add: file_at_def)
  moreover from r(8) q(4,6) have "20 dvd wrotePostion ?mf \<or> 20 dvd fileFromOffset ?mf + wrotePostion ?mf" by auto
  ultimately have "20 dvd wrotePostion ?mf" by (simp add: dvd_add_right_iff)
  then have "20 dvd wrotePostion ?mf - ?p" using p20 by (rule dvd_diff)
  moreover have pos: "0 \<le> ?p" "?p + 20 \<le> wrotePostion ?mf" using r(5,7) by simp_all
  ultimately obtain c where c: "wrotePostion ?mf - ?p = 20 * c" by (elim dvdE)
  define n where "n = nat c"
  have n: "wrotePostion ?mf - ?p = 20 * int n" using c pos by (simp add: n_def)
  obtain sel where sel: "MapedFile_selectMapedBuffer ?mf ?p = Some (Some sel, ?mf\<lparr>refCount := refCount ?mf + 1\<rparr>)"
      "MMapBuf (smr_MappedByteBuffer sel) = mf_content ?mf" "ReadPos (smr_MappedByteBuffer sel) = ?p"
      "Size sel = to_int32 (wrotePostion ?mf - ?p)" "WritePos (smr_MappedByteBuffer sel) = wrotePostion ?mf"
  proof -
    have "?p < wrotePostion ?mf" using pos(2) by linarith
    from select_from_pos [OF mi pos(1) this] show ?thesis using that by metis
  qed
  have len: "length (mf_content ?mf) = nat ?p + 20 * n" using n pos length_mf_content [OF mi] by linarith
  have "drop (nat ?p) (mf_content ?mf) = take (20 * n) (drop (nat ?p) (mf_content ?mf))" using len by simp
  also have "\<dots> = cq_bytes self k n" using r(9) [of "20 * n"] n by (simp add: cq_bytes_def)
  finally have cur: "at_cursor (smr_MappedByteBuffer sel) (cq_bytes self k n)"
    using sel(2,3) pos(1) len by (simp add: at_cursor_def)
  have get: "ConsumeQueue_getIndexBuffer k self = Some (Some sel, cq_set_file ?i (?mf\<lparr>refCount := refCount ?mf + 1\<rparr>) self)"
    using r(1,4) sel(1) h(3) q(3) by (simp add: ConsumeQueue_getIndexBuffer_def Let_def CQStoreUnitSize_def mult.commute)
  have le: "wrotePostion ?mf \<le> ?S" "fileFromOffset ?mf + wrotePostion ?mf \<le> MapedFileQueue_getMaxOffset ?q"
    using fa mi file_end_le [OF q(1), of ?i] r(2) by (simp_all add: file_at_def mf_inv_def)
  have e: "20 * k = fileFromOffset ?mf + ?p" using r(6) by simp
  show ?thesis
  proof (rule that [OF get _ cur])
    show "0 < n" using n pos by linarith
    show "Size sel = to_int32 (20 * int n)" using sel(4) n by simp
    show "WritePos (smr_MappedByteBuffer sel) \<noteq> 0" using sel(5) pos by linarith
    show "20 * int n \<le> ?S" using n le(1) pos by linarith
    show "20 * (k + int n) \<le> MapedFileQueue_getMaxOffset ?q" using n le(2) e by (simp add: distrib_left)
    show "20 * int n = min (MapedFileQueue_getMaxOffset ?q - 20 * k) (?S - ?p)" using r(8) n le e unfolding q(2) by linarith
  qed
qed

lemma unit_at_slice:
  assumes "cq_inv self" and "cq_has self k"
  shows "cq_unit_at self k = Some (unit_of (cq_slice self k))"
proof -
  obtain r cq1 n where r: "ConsumeQueue_getIndexBuffer k self = Some (Some r, cq1)" "0 < n"
      "at_cursor (smr_MappedByteBuffer r) (cq_bytes self k n)"
    using index_region [OF assms] by metis
  have h: "mfq_base (cq_mapedFileQueue self) \<le> 20 * k" using assms(2) by (simp add: cq_has_def)
  obtain n1 where "n = Suc n1" using r(2) gr0_conv_Suc by auto
  then have a: "at_cursor (smr_MappedByteBuffer r) (cq_slice self k @ cq_bytes self (k + 1) n1)"
    using r(3) cq_bytes_Suc [OF h] by simp
  have "nat (20 * k - mfq_base (cq_mapedFileQueue self)) + 20 \<le> length (mfq_bytes (cq_mapedFileQueue self))"
    using assms getMaxOffset_bytes [of "cq_mapedFileQueue self"] unfolding cq_has_def cq_inv_def by linarith
  then have "length (cq_slice self k) = 20" by (simp add: cq_slice_def)
  from read_unit_of [OF a this] show ?thesis by (auto simp: cq_unit_at_def r(1))
qed

lemma putMessagePostionInfo_keeps:
  assumes "allocateMapedFileService (cq_mapedFileQueue self) = None"
    and "ConsumeQueue_putMessagePostionInfo os offset sz tagsCode k self = Some (b, self1, os1)"
  shows "os_only (mfq_storePath (cq_mapedFileQueue self)) os os1"
    and "mfq_storePath (cq_mapedFileQueue self1) = mfq_storePath (cq_mapedFileQueue self)"
proof -
  have "os_only (mfq_storePath (cq_mapedFileQueue self)) os os1 \<and>
      mfq_storePath (cq_mapedFileQueue self1) = mfq_storePath (cq_mapedFileQueue self)"
  proof (cases "offset \<le> maxPhysicOffset self")
    case True
    then show ?thesis using assms(2) by (simp add: ConsumeQueue_putMessagePostionInfo_def)
  next
    case False
    note put = assms(2) [unfolded ConsumeQueue_putMessagePostionInfo_def Let_def]
    obtain r q o1 where g: "MapedFileQueue_getLastMapedFile os (k * CQStoreUnitSize) (cq_mapedFileQueue self) = Some (r, q, o1)"
      using put False by (auto split: Option.bind_splits)
    have "os1 = o1 \<and> mfq_storePath (cq_mapedFileQueue self1) = mfq_storePath q"
      using put False g by (auto simp: cq_set_file_def split: Option.bind_splits sum.splits option.splits if_splits)
    with getLast_keeps [OF assms(1) g] show ?thesis by simp
  qed
  then show "os_only (mfq_storePath (cq_mapedFileQueue self)) os os1"
    and "mfq_storePath (cq_mapedFileQueue self1) = mfq_storePath (cq_mapedFileQueue self)" by auto
qed

section \<open>The log of units\<close>

text \<open>
  The contract of an indexed log: a unit is put at the next index, is read back from this index, and
  no unit that was there before changes. \<open>key\<close> is the position of the message the unit stands for;
  units come in the order of their keys.
\<close>

locale unit_log =
  fixes inv :: "'s \<Rightarrow> bool" and nxt :: "'s \<Rightarrow> int" and top :: "'s \<Rightarrow> int" and cap :: int
    and put :: "'s \<Rightarrow> int \<Rightarrow> 'u \<Rightarrow> 's option" and has :: "'s \<Rightarrow> int \<Rightarrow> bool" and get :: "'s \<Rightarrow> int \<Rightarrow> 'u option"
    and ok :: "'u \<Rightarrow> bool" and key :: "'u \<Rightarrow> int"
  assumes put_next: "inv s \<Longrightarrow> ok u \<Longrightarrow> top s < key u \<Longrightarrow> nxt s < cap \<Longrightarrow>
      \<exists>s1. put s (nxt s) u = Some s1 \<and> inv s1 \<and> nxt s1 = nxt s + 1 \<and> top s1 = key u \<and>
        has s1 (nxt s) \<and> get s1 (nxt s) = Some u \<and> (\<forall>k. has s k \<longrightarrow> has s1 k \<and> get s1 k = get s k)"
begin

fun put_all :: "'s \<Rightarrow> 'u list \<Rightarrow> 's option" where
  "put_all s [] = Some s"
| "put_all s (u # us) = Option.bind (put s (nxt s) u) (\<lambda>s1. put_all s1 us)"

fun ascending :: "int \<Rightarrow> 'u list \<Rightarrow> bool" where
  "ascending t [] = True"
| "ascending t (u # us) \<longleftrightarrow> ok u \<and> t < key u \<and> ascending (key u) us"

lemma put_all_get:
  assumes "inv s" and "ascending (top s) us" and "nxt s + int (length us) \<le> cap"
  shows "\<exists>s1. put_all s us = Some s1 \<and> inv s1 \<and> nxt s1 = nxt s + int (length us) \<and>
     (\<forall>i < length us. has s1 (nxt s + int i) \<and> get s1 (nxt s + int i) = Some (us ! i)) \<and>
     (\<forall>k. has s k \<longrightarrow> has s1 k \<and> get s1 k = get s k)"
  using assms
proof (induction us arbitrary: s)
  case (Cons u us)
  obtain s1 where s1: "put s (nxt s) u = Some s1" "inv s1" "nxt s1 = nxt s + 1" "top s1 = key u"
      "has s1 (nxt s)" "get s1 (nxt s) = Some u" "\<And>k. has s k \<Longrightarrow> has s1 k \<and> get s1 k = get s k"
    using put_next [of s u] Cons.prems by auto
  obtain s2 where s2: "put_all s1 us = Some s2" "inv s2" "nxt s2 = nxt s1 + int (length us)"
      "\<And>i. i < length us \<Longrightarrow> has s2 (nxt s1 + int i) \<and> get s2 (nxt s1 + int i) = Some (us ! i)"
      "\<And>k. has s1 k \<Longrightarrow> has s2 k \<and> get s2 k = get s1 k"
    using Cons.IH [of s1] Cons.prems s1(2-4) by auto
  have "has s2 (nxt s + int i) \<and> get s2 (nxt s + int i) = Some ((u # us) ! i)" if "i < length (u # us)" for i
  proof (cases i)
    case (Suc j)
    then have n: "nxt s + int i = nxt s1 + int j" using s1(3) by simp
    show ?thesis unfolding n using s2(4) [of j] that Suc by simp
  qed (use s1(5,6) s2(5) in simp)
  with s1 s2 show ?case by auto
qed simp

end

definition cq_state_inv :: "OS \<times> ConsumeQueue \<Rightarrow> bool" where
  "cq_state_inv = (\<lambda>(os, self). cq_inv self \<and> mfq_ahead os (cq_mapedFileQueue self) \<and> cq_mapedFileSize self < 2 ^ 31 \<and>
     minLogicOffset self \<le> MapedFileQueue_getMaxOffset (cq_mapedFileQueue self))"

definition cq_put :: "OS \<times> ConsumeQueue \<Rightarrow> int \<Rightarrow> int \<times> int \<times> int \<Rightarrow> (OS \<times> ConsumeQueue) option" where
  "cq_put = (\<lambda>(os, self) k (offset, sz, tagsCode).
     case ConsumeQueue_putMessagePostionInfo os offset sz tagsCode k self of
       Some (True, self1, os1) \<Rightarrow> Some (os1, self1) | _ \<Rightarrow> None)"

lemma getMaxOffset_nonneg: "mfq_inv q \<Longrightarrow> 0 \<le> MapedFileQueue_getMaxOffset q"
  by (simp add: getMaxOffset_bytes mfq_inv_def)

lemma slice_append:
  assumes "cq_inv self" and "cq_has self k"
    and "mfq_bytes (cq_mapedFileQueue self1) = mfq_bytes (cq_mapedFileQueue self) @ rest"
    and "mfq_base (cq_mapedFileQueue self1) = mfq_base (cq_mapedFileQueue self)"
  shows "cq_slice self1 k = cq_slice self k"
proof -
  have "mfq_inv (cq_mapedFileQueue self)" using assms(1) by (simp add: cq_inv_def)
  then have "nat (20 * k - mfq_base (cq_mapedFileQueue self)) + 20 \<le> length (mfq_bytes (cq_mapedFileQueue self))"
    using assms(2) getMaxOffset_bytes [of "cq_mapedFileQueue self"] unfolding cq_has_def by linarith
  then show ?thesis by (simp add: cq_slice_def assms(3,4))
qed

interpretation cq: unit_log cq_state_inv "\<lambda>(os, self). ConsumeQueue_getMaxOffsetInQueue self"
    "\<lambda>(os, self). maxPhysicOffset self" "2 ^ 58" cq_put "\<lambda>(os, self). cq_has self" "\<lambda>(os, self). cq_unit_at self"
    unit_ok fst
proof (unfold_locales, clarify)
  fix os and self :: ConsumeQueue and offset sz tagsCode :: int
  let ?q = "cq_mapedFileQueue self"
  assume inv: "cq_state_inv (os, self)" and ok: "unit_ok (offset, sz, tagsCode)"
    and new: "maxPhysicOffset self < fst (offset, sz, tagsCode)"
    and cap: "ConsumeQueue_getMaxOffsetInQueue self < 2 ^ 58"
  let ?k = "ConsumeQueue_getMaxOffsetInQueue self"
  have i: "cq_inv self" "mfq_ahead os ?q" "cq_mapedFileSize self < 2 ^ 31"
      "minLogicOffset self \<le> MapedFileQueue_getMaxOffset ?q" "mfq_inv ?q"
    using inv by (auto simp: cq_state_inv_def cq_inv_def)
  have max0: "0 \<le> MapedFileQueue_getMaxOffset ?q" using i(5) by (rule getMaxOffset_nonneg)
  have max: "MapedFileQueue_getMaxOffset ?q = 20 * ?k"
    using i(1) max0 by (simp add: ConsumeQueue_getMaxOffsetInQueue_def CQStoreUnitSize_def sdiv_nonneg cq_inv_def)
  have k0: "0 \<le> ?k" using max max0 by simp
  have room: "20 * ?k + cq_mapedFileSize self < 2 ^ 63" using cap i(3) by simp
  have s32: "in_int 32 sz" using ok by (simp add: unit_ok_def)
  obtain self1 os1 blank where p: "ConsumeQueue_putMessagePostionInfo os offset sz tagsCode ?k self = Some (True, self1, os1)"
      "cq_inv self1" "mfq_ahead os1 (cq_mapedFileQueue self1)" "maxPhysicOffset self1 = offset"
      "cq_mapedFileSize self1 = cq_mapedFileSize self"
      "MapedFileQueue_getMaxOffset (cq_mapedFileQueue self1) = 20 * ?k + 20"
      "mfq_bytes (cq_mapedFileQueue self1) = mfq_bytes ?q @ replicate blank 0 @ unit_bytes offset sz tagsCode"
      "if mapedFiles ?q = [] then mfq_base (cq_mapedFileQueue self1) = 20 * ?k - (20 * ?k) mod cq_mapedFileSize self \<and>
         length (mapedFiles (cq_mapedFileQueue self1)) = 1 else mfq_base (cq_mapedFileQueue self1) = mfq_base ?q"
      "minLogicOffset self1 = minLogicOffset self \<or> minLogicOffset self1 = 20 * ?k \<and> mfq_bytes ?q = []"
    using put_unit [OF i(1,2) k0 _ room _ s32, of offset tagsCode] max new by (auto split del: if_split)
  let ?q1 = "cq_mapedFileQueue self1"
  have q1: "mfq_inv ?q1" using p(2) by (simp add: cq_inv_def)
  have pos: "mfq_base ?q1 + int (length (mfq_bytes ?q) + blank) = 20 * ?k"
    using getMaxOffset_bytes [OF q1] p(6,7) by simp
  have inv1: "cq_state_inv (os1, self1)" using p max i(3,4) by (auto simp: cq_state_inv_def)
  have nxt: "ConsumeQueue_getMaxOffsetInQueue self1 = ?k + 1"
    using p(6) k0 by (simp add: ConsumeQueue_getMaxOffsetInQueue_def CQStoreUnitSize_def sdiv_nonneg)
  have has: "cq_has self1 ?k" using p(6,9) pos i(4) max by (auto simp: cq_has_def)
  have "nat (20 * ?k - mfq_base ?q1) = length (mfq_bytes ?q) + blank" using pos by linarith
  then have "cq_slice self1 ?k = unit_bytes offset sz tagsCode" by (simp add: cq_slice_def p(7))
  then have get: "cq_unit_at self1 ?k = Some (offset, sz, tagsCode)"
    using unit_at_slice [OF p(2) has] unit_of_bytes [OF ok] by simp
  have old: "cq_has self1 j \<and> cq_unit_at self1 j = cq_unit_at self j" if j: "cq_has self j" for j
  proof -
    have ne: "mapedFiles ?q \<noteq> []" using j by (auto simp: cq_has_def MapedFileQueue_getMaxOffset_def mfq_base_def)
    have "mfq_bytes ?q \<noteq> []" using j getMaxOffset_bytes [OF i(5)] by (auto simp: cq_has_def)
    then have "minLogicOffset self1 = minLogicOffset self" using p(9) by blast
    then have h: "cq_has self1 j" using j ne p(6,8) max by (simp add: cq_has_def)
    have "cq_slice self1 j = cq_slice self j" using slice_append [OF i(1) j p(7)] p(8) ne by simp
    with h show ?thesis using unit_at_slice [OF p(2) h] unit_at_slice [OF i(1) j] by simp
  qed
  show "\<exists>s1. cq_put (os, self) ?k (offset, sz, tagsCode) = Some s1 \<and> cq_state_inv s1 \<and>
      (case s1 of (os, self) \<Rightarrow> ConsumeQueue_getMaxOffsetInQueue self) = ?k + 1 \<and>
      (case s1 of (os, self) \<Rightarrow> maxPhysicOffset self) = fst (offset, sz, tagsCode) \<and>
      (case s1 of (os, self) \<Rightarrow> cq_has self) ?k \<and>
      (case s1 of (os, self) \<Rightarrow> cq_unit_at self) ?k = Some (offset, sz, tagsCode) \<and>
      (\<forall>k. cq_has self k \<longrightarrow> (case s1 of (os, self) \<Rightarrow> cq_has self) k \<and>
         (case s1 of (os, self) \<Rightarrow> cq_unit_at self) k = cq_unit_at self k)"
    using p(1,4) inv1 nxt has get old by (intro exI [of _ "(os1, self1)"]) (simp add: cq_put_def)
qed

text \<open>The dispatcher puts the units of successive messages at successive indexes.\<close>

fun put_units :: "OS \<Rightarrow> (int \<times> int \<times> int) list \<Rightarrow> ConsumeQueue \<Rightarrow> (ConsumeQueue \<times> OS) option" where
  "put_units os [] self = Some (self, os)"
| "put_units os ((offset, sz, tagsCode) # us) self =
     do {
       (ok, self1, os1) \<leftarrow> ConsumeQueue_putMessagePostionInfo os offset sz tagsCode
          (ConsumeQueue_getMaxOffsetInQueue self) self;
       if ok then put_units os1 us self1 else None }"

lemma cq_put_eq:
  "cq_put (os, self) k (offset, sz, tagsCode) =
     (case ConsumeQueue_putMessagePostionInfo os offset sz tagsCode k self of
        Some (True, self1, os1) \<Rightarrow> Some (os1, self1) | _ \<Rightarrow> None)"
  by (simp add: cq_put_def)

lemma put_units_put_all: "cq.put_all (os, self) us = Some (os1, self1) \<Longrightarrow> put_units os us self = Some (self1, os1)"
proof (induction us arbitrary: os self)
  case (Cons u us)
  obtain offset sz tagsCode where u: "u = (offset, sz, tagsCode)" using prod_cases3 by blast
  from Cons.prems obtain self2 os2 where
    "ConsumeQueue_putMessagePostionInfo os offset sz tagsCode (ConsumeQueue_getMaxOffsetInQueue self) self = Some (True, self2, os2)"
    "cq.put_all (os2, self2) us = Some (os1, self1)"
    by (auto simp: u cq_put_eq split: Option.bind_splits option.splits bool.splits)
  with Cons.IH show ?case by (simp add: u)
qed simp

lemma ascending_sorted:
  "\<forall>u \<in> set us. unit_ok u \<Longrightarrow> sorted_wrt (<) (t # map fst us) \<Longrightarrow> cq.ascending t us"
  by (induction us arbitrary: t) auto

section \<open>Properties of the units\<close>

text \<open>
  C10 (the index of a queue). Putting units with growing physical offsets succeeds, and afterwards the
  i-th unit is read at the i-th new index and every unit that was there before is unchanged.
\<close>

theorem units_read_back:
  assumes "cq_state_inv (os, self)" and "\<forall>u \<in> set us. unit_ok u"
    and "sorted_wrt (<) (maxPhysicOffset self # map fst us)"
    and "ConsumeQueue_getMaxOffsetInQueue self + int (length us) \<le> 2 ^ 58"
  shows "\<exists>self1 os1. put_units os us self = Some (self1, os1) \<and> cq_state_inv (os1, self1) \<and>
     ConsumeQueue_getMaxOffsetInQueue self1 = ConsumeQueue_getMaxOffsetInQueue self + int (length us) \<and>
     (\<forall>i < length us. cq_unit_at self1 (ConsumeQueue_getMaxOffsetInQueue self + int i) = Some (us ! i)) \<and>
     (\<forall>k. cq_has self k \<longrightarrow> cq_unit_at self1 k = cq_unit_at self k)"
  using cq.put_all_get [of "(os, self)" us] ascending_sorted [OF assms(2,3)] assms(1,4) put_units_put_all
  by force

definition example_cq :: ConsumeQueue where
  "example_cq = NewConsumeQueue ''T'' 0 ''s'' 40"

lemma example_cq_inv: "cq_state_inv (example_os, example_cq)"
  by (simp add: cq_state_inv_def cq_inv_def mfq_inv_def mfq_ahead_def os_free_def example_os_def example_cq_def
      NewConsumeQueue_def NewMapedFileQueue_def mfq_base_def MapedFileQueue_getMaxOffset_def NewMappedByteBuffer_def)

lemma example_cq_fields: "ConsumeQueue_getMaxOffsetInQueue example_cq = 0" "maxPhysicOffset example_cq = - 1"
  by (simp_all add: example_cq_def NewConsumeQueue_def NewMapedFileQueue_def ConsumeQueue_getMaxOffsetInQueue_def
      MapedFileQueue_getMaxOffset_def CQStoreUnitSize_def sdiv_nonneg)

theorem units_read_back_witness:
  "\<exists>self1 os1. put_units example_os [(0, 100, 7), (100, 60, 8), (160, 5, 9)] example_cq = Some (self1, os1) \<and>
     cq_unit_at self1 0 = Some (0, 100, 7) \<and> cq_unit_at self1 2 = Some (160, 5, 9)"
proof -
  let ?us = "[(0, 100, 7), (100, 60, 8), (160, 5, 9)] :: (int \<times> int \<times> int) list"
  have "\<forall>u \<in> set ?us. unit_ok u" by (simp add: unit_ok_def in_int_def)
  from units_read_back [OF example_cq_inv this] example_cq_fields
  obtain self1 os1 where r: "put_units example_os ?us example_cq = Some (self1, os1)"
      "\<forall>i < length ?us. cq_unit_at self1 (int i) = Some (?us ! i)" by auto
  from r(2) [rule_format, of 0] r(2) [rule_format, of 2] r(1) show ?thesis by auto
qed

section \<open>Recovery\<close>

definition valid_units :: "(int \<times> int \<times> int) list \<Rightarrow> bool" where
  "valid_units us \<longleftrightarrow> (\<forall>u \<in> set us. unit_ok u \<and> 0 \<le> fst u \<and> 0 < fst (snd u))"

definition enc_units :: "(int \<times> int \<times> int) list \<Rightarrow> byte list" where
  "enc_units us = concat (map (\<lambda>(x, y, z). unit_bytes x y z) us)"

text \<open>Bytes at which the scan of a file stops: their first unit is no valid one.\<close>

definition stops_scan :: "byte list \<Rightarrow> bool" where
  "stops_scan junk \<longleftrightarrow> (let (offset, b1) = rd_or_zero BytesToInt64 8 junk; (sz, _) = rd_or_zero BytesToInt32 4 b1
     in offset < 0 \<or> sz \<le> 0)"

definition last_key :: "int \<Rightarrow> (int \<times> int \<times> int) list \<Rightarrow> int" where
  "last_key d us = (if us = [] then d else fst (last us))"

lemma last_key_append: "last_key d (us @ vs) = last_key (last_key d us) vs"
  by (simp add: last_key_def)

lemma enc_units_simps [simp]:
  "enc_units [] = []" "enc_units ((x, y, z) # us) = unit_bytes x y z @ enc_units us"
  "enc_units (us @ vs) = enc_units us @ enc_units vs"
  by (simp_all add: enc_units_def)

lemma length_enc_units [simp]: "length (enc_units us) = 20 * length us"
  by (induction us) auto

lemma enc_units_split: "enc_units us = enc_units (take n us) @ enc_units (drop n us)"
  by (metis append_take_drop_id enc_units_simps(3))

lemma drop_enc_units: "n \<le> length us \<Longrightarrow> drop (20 * n) (enc_units us @ junk) = enc_units (drop n us) @ junk"
  by (subst enc_units_split [of us n]) simp

lemma take_enc_units: "n \<le> length us \<Longrightarrow> take (20 * n) (enc_units us @ junk) = enc_units (take n us)"
  by (subst enc_units_split [of us n]) simp

lemma valid_units_take_drop: "valid_units us \<Longrightarrow> valid_units (take m (drop n us))" "valid_units us \<Longrightarrow> valid_units (drop n us)"
  by (auto simp: valid_units_def dest!: in_set_takeD in_set_dropD)

lemma rd_enc:
  "in_int 64 x \<Longrightarrow> rd_or_zero BytesToInt64 8 (Int64ToBytes x @ r) = (x, r)"
  "in_int 32 y \<Longrightarrow> rd_or_zero BytesToInt32 4 (Int32ToBytes y @ r) = (y, r)"
  by (simp_all add: rd_or_zero_def i64.length_enc i32.length_enc i64.dec_enc_self i32.dec_enc_self)

lemma scan_valid:
  assumes "valid_units us" and "i + 20 * int (length us) \<le> fs" and "i + 20 * int (length us) = fs \<or> stops_scan junk"
  shows "scan_units i fs (enc_units us @ junk) i d = (i + 20 * int (length us), last_key d us)"
  using assms
proof (induction us arbitrary: i d)
  case Nil
  then show ?case
    by (subst scan_units.simps) (auto simp: stops_scan_def last_key_def Let_def split: prod.splits)
next
  case (Cons u us)
  obtain x y z where u: "u = (x, y, z)" using prod_cases3 by blast
  have v: "in_int 64 x" "in_int 32 y" "in_int 64 z" "0 \<le> x" "0 < y" "valid_units us"
    using Cons.prems(1) by (auto simp: valid_units_def unit_ok_def u)
  have "scan_units (i + 20) fs (enc_units us @ junk) (i + 20) x = (i + 20 + 20 * int (length us), last_key x us)"
    using Cons.prems by (intro Cons.IH v) auto
  then show ?case
    using Cons.prems(2) v
    by (subst scan_units.simps) (simp add: u unit_bytes_def rd_enc CQStoreUnitSize_def last_key_def)
qed

lemma recover_loop_valid:
  assumes "valid_units us" and "stops_scan junk" and "index \<le> m" and "length mfs = Suc m"
    and "\<And>j. j < m \<Longrightarrow> MappedByteBuffer_Bytes (mappedByteBuffer (mfs ! j)) = Some (enc_units (take N (drop (j * N) us)))"
    and "MappedByteBuffer_Bytes (mappedByteBuffer (mfs ! m)) = Some (enc_units (drop (m * N) us) @ junk)"
    and "m * N \<le> length us" and "length us \<le> m * N + N"
  shows "cq_recover_loop (20 * int N) index mfs d =
     Some (fileFromOffset (mfs ! m) + 20 * int (length us - m * N), last_key d (drop (index * N) us))"
  using assms(3)
proof (induction "m - index" arbitrary: index d)
  case 0
  then have i: "index = m" by simp
  have "scan_units 0 (20 * int N) (enc_units (drop (m * N) us) @ junk) 0 d =
      (0 + 20 * int (length (drop (m * N) us)), last_key d (drop (m * N) us))"
    using assms(2,8) by (intro scan_valid valid_units_take_drop assms(1)) auto
  then show ?case
    by (subst cq_recover_loop.simps) (simp add: i assms(4,6))
next
  case (Suc k)
  then have i: "index < m" by simp
  let ?u = "take N (drop (index * N) us)"
  have le: "index * N + N \<le> length us" using i assms(7) by (metis Suc_leI add.commute le_trans mult_Suc mult_le_mono1)
  then have l: "length ?u = N" by simp
  have s: "scan_units 0 (20 * int N) (enc_units ?u @ []) 0 d = (0 + 20 * int (length ?u), last_key d ?u)"
    using l by (intro scan_valid valid_units_take_drop assms(1)) auto
  have "cq_recover_loop (20 * int N) (Suc index) mfs (last_key d ?u) =
      Some (fileFromOffset (mfs ! m) + 20 * int (length us - m * N), last_key (last_key d ?u) (drop (Suc index * N) us))"
    using Suc i by (intro Suc.hyps) auto
  moreover have "last_key (last_key d ?u) (drop (Suc index * N) us) = last_key d (drop (index * N) us)"
    by (metis last_key_append append_take_drop_id drop_drop mult_Suc add.commute)
  ultimately show ?case
    using s l i by (subst cq_recover_loop.simps) (simp add: assms(4,5))
qed

text \<open>What each file of a queue of units holds.\<close>

lemma file_units:
  assumes "cq_inv self" and "mapedFiles (cq_mapedFileQueue self) \<noteq> []"
    and "mfq_bytes (cq_mapedFileQueue self) = enc_units us @ junk"
    and "fileFromOffset (last (mapedFiles (cq_mapedFileQueue self))) \<le> mfq_base (cq_mapedFileQueue self) + 20 * int (length us)"
    and "m = length (mapedFiles (cq_mapedFileQueue self)) - 1" and "N = nat (cq_mapedFileSize self) div 20"
  shows "cq_mapedFileSize self = 20 * int N" and "0 < N" and "m * N \<le> length us" and "length us \<le> m * N + N"
    and "fileFromOffset (mapedFiles (cq_mapedFileQueue self) ! m) = mfq_base (cq_mapedFileQueue self) + 20 * int (m * N)"
    and "j < m \<Longrightarrow> MappedByteBuffer_Bytes (mappedByteBuffer (mapedFiles (cq_mapedFileQueue self) ! j)) =
           Some (enc_units (take N (drop (j * N) us)))"
    and "MappedByteBuffer_Bytes (mappedByteBuffer (mapedFiles (cq_mapedFileQueue self) ! m)) =
           Some (enc_units (drop (m * N) us) @ junk)"
proof -
  let ?q = "cq_mapedFileQueue self" and ?S = "cq_mapedFileSize self"
  let ?mfs = "mapedFiles ?q"
  have q: "mfq_inv ?q" "mfq_mapedFileSize ?q = ?S" "0 < ?S" "20 dvd ?S" using assms(1) by (auto simp: cq_inv_def mfq_inv_def)
  have ff: "files_from (mfq_storePath ?q) ?S (mfq_base ?q) ?mfs" using q by (simp add: mfq_inv_def)
  show S: "?S = 20 * int N" using q(3,4) by (auto simp: assms(6) elim!: dvdE)
  show N: "0 < N" using S q(3) by simp
  have m: "m < length ?mfs" "last ?mfs = ?mfs ! m" using assms(2,5) by (simp_all add: last_conv_nth)
  have fm: "file_at (mfq_storePath ?q) ?S (mfq_base ?q + int m * ?S) (?mfs ! m)" using files_from_nth [OF ff m(1)] .
  show from': "fileFromOffset (?mfs ! m) = mfq_base ?q + 20 * int (m * N)" using fm S by (simp add: file_at_def)
  have "int (m * N) \<le> int (length us)" using assms(4) [unfolded m(2)] from' by linarith
  then show mN: "m * N \<le> length us" by (simp only: of_nat_le_iff)
  have Bytes: "mf_inv mf \<Longrightarrow> MappedByteBuffer_Bytes (mappedByteBuffer mf) = Some (mf_content mf)" for mf :: MapedFile
    using wrote_Bytes [OF mf_inv_wrote] .
  have total: "20 * length us + length junk = 20 * (m * N) + length (mf_content (?mfs ! m))"
  proof -
    have "mfq_base ?q + int (length (mfq_bytes ?q)) = fileFromOffset (?mfs ! m) + wrotePostion (?mfs ! m)"
      using length_files_content [OF ff assms(2)] m(2) by (simp add: mfq_bytes_def)
    then have "int (length (enc_units us @ junk)) = int (20 * (m * N)) + int (length (mf_content (?mfs ! m)))"
      using from' length_mf_content [of "?mfs ! m"] fm assms(3) by (simp add: file_at_def)
    then have "length (enc_units us @ junk) = 20 * (m * N) + length (mf_content (?mfs ! m))"
      by (simp only: of_nat_eq_iff flip: of_nat_add)
    then show ?thesis by simp
  qed
  have "int (length (mf_content (?mfs ! m))) \<le> ?S"
    using fm length_mf_content [of "?mfs ! m"] by (simp add: file_at_def mf_inv_def)
  then show "length us \<le> m * N + N" using total S by linarith
  have nS: "nat ?S = 20 * N" using S by simp
  have sl: "take n (drop (j * nat ?S + 0) (mfq_bytes ?q)) = take n (drop 0 (mf_content (?mfs ! j)))"
    if "j < length ?mfs" "n \<le> length (mf_content (?mfs ! j))" for j n
    using file_slice [OF ff that(1), of 0 n] that(2) q(3) by (simp add: mfq_bytes_def)
  have "drop (m * nat ?S) (mfq_bytes ?q) = mf_content (?mfs ! m)"
    using sl [OF m(1) order_refl] total by (simp add: assms(3) nS mult.left_commute)
  then show "MappedByteBuffer_Bytes (mappedByteBuffer (?mfs ! m)) = Some (enc_units (drop (m * N) us) @ junk)"
    using drop_enc_units [OF mN, of junk] Bytes fm by (simp add: assms(3) nS file_at_def mult.left_commute)
  assume j: "j < m"
  have fj: "file_at (mfq_storePath ?q) ?S (mfq_base ?q + int j * ?S) (?mfs ! j)" using files_from_nth [OF ff] j m by simp
  moreover have "MapedFile_isFull (?mfs ! j)" using files_from_full [OF ff] j assms(5) by simp
  ultimately have lj: "length (mf_content (?mfs ! j)) = 20 * N" and mi: "mf_inv (?mfs ! j)"
    using full_content [of "?mfs ! j"] S by (auto simp: file_at_def)
  have le: "j * N + N \<le> length us" using j mN by (metis Suc_leI add.commute le_trans mult_Suc mult_le_mono1)
  have "mf_content (?mfs ! j) = take (20 * N) (drop (20 * (j * N)) (enc_units us @ junk))"
    using sl [of j "20 * N"] j m(1) lj by (simp add: assms(3) nS mult.left_commute)
  also have "\<dots> = enc_units (take N (drop (j * N) us))"
    using drop_enc_units [of "j * N" us junk] take_enc_units [of N "drop (j * N) us" junk] le by simp
  finally show "MappedByteBuffer_Bytes (mappedByteBuffer (?mfs ! j)) = Some (enc_units (take N (drop (j * N) us)))"
    using Bytes [OF mi] by simp
qed

lemma recover_valid:
  assumes "cq_inv self" and "mapedFiles (cq_mapedFileQueue self) \<noteq> []"
    and "mfq_bytes (cq_mapedFileQueue self) = enc_units us @ junk" and "valid_units us" and "stops_scan junk"
    and "fileFromOffset (last (mapedFiles (cq_mapedFileQueue self))) \<le> mfq_base (cq_mapedFileQueue self) + 20 * int (length us)"
  shows "\<exists>self1 os1. ConsumeQueue_recover os self = Some (self1, os1) \<and> mfq_inv (cq_mapedFileQueue self1) \<and>
     mfq_base (cq_mapedFileQueue self1) = mfq_base (cq_mapedFileQueue self) \<and>
     mfq_bytes (cq_mapedFileQueue self1) = enc_units us \<and> maxPhysicOffset self1 = last_key (maxPhysicOffset self) us"
proof -
  let ?q = "cq_mapedFileQueue self" and ?S = "cq_mapedFileSize self"
  define m N where "m = length (mapedFiles ?q) - 1" and "N = nat ?S div 20"
  note fu = file_units [OF assms(1-3,6) m_def N_def]
  have len: "length (mapedFiles ?q) = Suc m" using assms(2) by (cases "mapedFiles ?q") (simp_all add: m_def)
  let ?off = "mfq_base ?q + 20 * int (length us)"
  have loop: "cq_recover_loop ?S (m - 2) (mapedFiles ?q) (maxPhysicOffset self) =
      Some (?off, last_key (maxPhysicOffset self) (drop ((m - 2) * N) us))"
    using recover_loop_valid [OF assms(4,5) _ len fu(6) fu(7) fu(3,4), of "m - 2" "maxPhysicOffset self"] fu(1,3,5)
    by (simp add: of_nat_diff)
  have last: "last_key (maxPhysicOffset self) (drop ((m - 2) * N) us) = last_key (maxPhysicOffset self) us"
  proof (cases m)
    case (Suc k)
    then have "(m - 2) * N < m * N" using fu(2) by (intro mult_less_mono1) auto
    then have "(m - 2) * N < length us" using fu(3) by (rule less_le_trans)
    then show ?thesis by (auto simp: last_key_def)
  qed simp
  have q: "mfq_inv ?q" using assms(1) by (simp add: cq_inv_def)
  have "?off \<le> MapedFileQueue_getMaxOffset ?q" using getMaxOffset_bytes [OF q] assms(3) by simp
  then obtain q1 os1 where "MapedFileQueue_truncateDirtyFiles os ?off ?q = Some (q1, os1)" "mfq_inv q1"
      "mfq_base q1 = mfq_base ?q" "mfq_bytes q1 = take (nat (?off - mfq_base ?q)) (mfq_bytes ?q)"
    using truncate_at [OF q _ _ assms(2), of ?off os] by auto
  moreover have "length (mapedFiles ?q) - 3 = m - 2" using len by simp
  moreover have "take (nat (?off - mfq_base ?q)) (mfq_bytes ?q) = enc_units us"
    using take_enc_units [of "length us" us junk] assms(3) by (simp add: nat_mult_distrib)
  ultimately show ?thesis
    using loop last assms(2) by (simp add: ConsumeQueue_recover_def Let_def)
qed

text \<open>
  C13 (recovery of an index). A queue that holds valid units followed, in its last file, by bytes that
  start with no valid unit is cut back to exactly these units, and the largest physical offset becomes
  that of the last unit.
\<close>

theorem recover_keeps_valid_units:
  assumes "cq_inv self" and "mapedFiles (cq_mapedFileQueue self) \<noteq> []"
    and "mfq_bytes (cq_mapedFileQueue self) = enc_units us @ junk" and "valid_units us" and "stops_scan junk"
    and "fileFromOffset (last (mapedFiles (cq_mapedFileQueue self))) \<le> mfq_base (cq_mapedFileQueue self) + 20 * int (length us)"
  shows "\<exists>self1 os1. ConsumeQueue_recover os self = Some (self1, os1) \<and> mfq_inv (cq_mapedFileQueue self1) \<and>
     mfq_base (cq_mapedFileQueue self1) = mfq_base (cq_mapedFileQueue self) \<and>
     mfq_bytes (cq_mapedFileQueue self1) = enc_units us \<and> maxPhysicOffset self1 = last_key (maxPhysicOffset self) us"
  using recover_valid [OF assms] .

lemma stops_scan_zeros: "stops_scan (replicate n 0)"
proof -
  have z: "BytesToInt32 (replicate 4 0) = 0" by code_simp
  have "snd (rd_or_zero BytesToInt64 8 (replicate n 0)) = replicate (n - 8) 0"
    by (simp add: rd_or_zero_def)
  moreover have "fst (rd_or_zero BytesToInt32 4 (replicate k 0)) = 0" for k
    using z by (simp add: rd_or_zero_def min_def)
  ultimately show ?thesis
    by (simp add: stops_scan_def Let_def split: prod.splits) (metis fst_conv order_refl snd_conv)
qed

lemma stops_scan_append: "12 \<le> length bs \<Longrightarrow> stops_scan (bs @ rest) = stops_scan bs"
  by (simp add: stops_scan_def rd_or_zero_def)

definition example_cq_file :: "nat \<Rightarrow> MapedFile" where
  "example_cq_file n = loaded_file ''s/T/0'' 0 40 (enc_units [(100, 10, 0)] @ replicate n 0)"

definition example_cq_loaded :: ConsumeQueue where
  "example_cq_loaded = example_cq\<lparr>cq_mapedFileQueue := (cq_mapedFileQueue example_cq)\<lparr>mapedFiles := [example_cq_file 20]\<rparr>\<rparr>"

lemma decimal_0: "decimal 0 = ''0''"
  by code_simp

lemma example_cq_loaded_inv:
  "cq_inv example_cq_loaded" "mapedFiles (cq_mapedFileQueue example_cq_loaded) = [example_cq_file 20]"
  "mfq_bytes (cq_mapedFileQueue example_cq_loaded) = enc_units [(100, 10, 0)] @ replicate 20 0"
  "fileFromOffset (example_cq_file 20) = 0" "mfq_base (cq_mapedFileQueue example_cq_loaded) = 0"
  by (simp_all add: example_cq_loaded_def example_cq_def NewConsumeQueue_def NewMapedFileQueue_def cq_inv_def
      mfq_inv_def mfq_base_def mfq_bytes_def MapedFileQueue_getMaxOffset_def example_cq_file_def loaded_file_def
      fresh_file_def file_at_def mf_inv_def mf_content_def mfq_path_def NewMappedByteBuffer_def FormatInt_def decimal_0)

theorem recover_keeps_valid_units_witness:
  "\<exists>self1 os1. ConsumeQueue_recover example_os example_cq_loaded = Some (self1, os1) \<and>
     mfq_bytes (cq_mapedFileQueue self1) = enc_units [(100, 10, 0)] \<and> maxPhysicOffset self1 = 100"
proof -
  note e = example_cq_loaded_inv
  have "valid_units [(100, 10, 0)]" by (simp add: valid_units_def unit_ok_def in_int_def)
  from recover_keeps_valid_units [OF e(1) _ e(3) this stops_scan_zeros, of example_os] e(2,4,5)
  show ?thesis by (auto simp: last_key_def)
qed

text \<open>
  A queue that starts late loses its units. When the first unit of an empty queue is put at an
  index that is not the first of its file, the space before it is filled with zeros. Recovery stops at
  these zeros and cuts the queue back to the start of the file: the unit is lost.
\<close>

lemma recover_drops_late_start:
  assumes "cq_inv self" and "mfq_ahead os (cq_mapedFileQueue self)" and "0 \<le> k"
    and "mapedFiles (cq_mapedFileQueue self) = []" and "(20 * k) mod cq_mapedFileSize self \<noteq> 0"
    and "20 * k + cq_mapedFileSize self < 2 ^ 63" and "maxPhysicOffset self < offset" and "in_int 32 sz"
  shows "\<exists>self1 os1 self2 os2. ConsumeQueue_putMessagePostionInfo os offset sz tagsCode k self = Some (True, self1, os1) \<and>
     MapedFileQueue_getMaxOffset (cq_mapedFileQueue self1) = 20 * k + 20 \<and>
     ConsumeQueue_recover os1 self1 = Some (self2, os2) \<and> mfq_bytes (cq_mapedFileQueue self2) = []"
proof -
  let ?q = "cq_mapedFileQueue self" and ?S = "cq_mapedFileSize self"
  obtain self1 os1 blank where p: "ConsumeQueue_putMessagePostionInfo os offset sz tagsCode k self = Some (True, self1, os1)"
      "cq_inv self1" "MapedFileQueue_getMaxOffset (cq_mapedFileQueue self1) = 20 * k + 20"
      "mfq_bytes (cq_mapedFileQueue self1) = replicate blank 0 @ unit_bytes offset sz tagsCode"
      "mfq_base (cq_mapedFileQueue self1) = 20 * k - (20 * k) mod ?S" "length (mapedFiles (cq_mapedFileQueue self1)) = 1"
    using put_unit [OF assms(1-3) _ assms(6-8), of tagsCode] assms(4) by (auto simp: mfq_bytes_def)
  let ?q1 = "cq_mapedFileQueue self1"
  have q1: "mfq_inv ?q1" and S: "20 dvd ?S" "0 < ?S" using p(2) assms(1) by (auto simp: cq_inv_def mfq_inv_def)
  have "int blank = (20 * k) mod ?S" using getMaxOffset_bytes [OF q1] p(3,4,5) by simp
  moreover have "20 dvd (20 * k) mod ?S" using S(1) by (simp add: dvd_mod_iff)
  ultimately have "20 \<le> blank" using assms(5) by (auto elim!: dvdE)
  then have st: "stops_scan (mfq_bytes ?q1)"
    using stops_scan_append [of "replicate blank 0"] stops_scan_zeros by (simp add: p(4))
  have one: "mapedFiles ?q1 \<noteq> []" "fileFromOffset (last (mapedFiles ?q1)) \<le> mfq_base ?q1 + 20 * int (length ([] :: (int \<times> int \<times> int) list))"
    using p(6) by (auto simp: mfq_base_def length_Suc_conv)
  have "\<exists>self2 os2. ConsumeQueue_recover os1 self1 = Some (self2, os2) \<and> mfq_bytes (cq_mapedFileQueue self2) = []"
    using recover_valid [OF p(2) one(1) _ _ st one(2), of os1] by (auto simp: valid_units_def)
  with p(1,3) show ?thesis by blast
qed

lemma recover_drops_late_start_witness:
  "\<exists>self1 os1 self2 os2. ConsumeQueue_putMessagePostionInfo example_os 100 10 0 3 example_cq = Some (True, self1, os1) \<and>
     ConsumeQueue_recover os1 self1 = Some (self2, os2) \<and> mfq_bytes (cq_mapedFileQueue self2) = []"
proof -
  have e: "cq_inv example_cq" "mfq_ahead example_os (cq_mapedFileQueue example_cq)"
    using example_cq_inv by (simp_all add: cq_state_inv_def)
  from recover_drops_late_start [OF e, of 3 100 10 0] show ?thesis
    by (auto simp: example_cq_def NewConsumeQueue_def NewMapedFileQueue_def in_int_def)
qed

section \<open>Truncating a logic queue\<close>

lemma read_unit_cursor:
  assumes "at_cursor b (unit_bytes x y z @ rest)" and "unit_ok (x, y, z)"
  shows "\<exists>b1. read_unit b = Some (x, y, b1) \<and> at_cursor b1 rest"
proof -
  have a: "at_cursor b (Int64ToBytes x @ Int32ToBytes y @ Int64ToBytes z @ rest)" using assms(1) by (simp add: unit_bytes_def)
  note a1 = cursor_steps(4) [OF a] note a2 = cursor_steps(3) [OF a1] note a3 = cursor_steps(4) [OF a2]
  have "MappedByteBuffer_ReadInt64 b = Some (x, adv b 8)" "MappedByteBuffer_ReadInt32 (adv b 8) = Some (y, adv (adv b 8) 4)"
    "MappedByteBuffer_ReadInt64 (adv (adv b 8) 4) = Some (z, adv (adv (adv b 8) 4) 8)"
    using assms(2) ReadInt_adv(4) [OF a] ReadInt_adv(3) [OF a1] ReadInt_adv(4) [OF a2] by (simp_all add: unit_ok_def)
  with a3 show ?thesis by (simp add: read_unit_def)
qed

lemma trunc_units_valid:
  assumes "at_cursor b (enc_units (us @ v # vs))" and "valid_units (us @ v # vs)" and "phy \<le> fst v"
    and "\<forall>u \<in> set us. fst u < phy" and "0 < i" and "i + 20 * int (length us) < fs"
  shows "trunc_units i fs phy b i d = Some (Return, i + 20 * int (length us), last_key d us)"
  using assms
proof (induction us arbitrary: i b d)
  case Nil
  obtain x y z where v: "v = (x, y, z)" using prod_cases3 by blast
  have ok: "unit_ok (x, y, z)" "0 \<le> x" "0 < y" using Nil by (auto simp: valid_units_def v)
  with Nil obtain b1 where "read_unit b = Some (x, y, b1)" using read_unit_cursor [of b x y z "enc_units vs"] by (auto simp: v)
  with Nil ok show ?case by (subst trunc_units.simps) (simp add: v last_key_def)
next
  case (Cons u us)
  obtain x y z where u: "u = (x, y, z)" using prod_cases3 by blast
  have ok: "unit_ok (x, y, z)" "0 \<le> x" "0 < y" "x < phy" "valid_units (us @ v # vs)"
    using Cons.prems by (auto simp: valid_units_def u)
  obtain b1 where b1: "read_unit b = Some (x, y, b1)" "at_cursor b1 (enc_units (us @ v # vs))"
    using read_unit_cursor [OF _ ok(1), of b "enc_units (us @ v # vs)"] Cons.prems(1) by (auto simp: u)
  have "trunc_units (i + 20) fs phy b1 (i + 20) x = Some (Return, i + 20 + 20 * int (length us), last_key x us)"
    using Cons.prems b1(2) ok(5) by (intro Cons.IH) auto
  with Cons.prems b1(1) ok show ?case
    by (subst trunc_units.simps) (simp add: CQStoreUnitSize_def last_key_def u)
qed

lemma trunc_units_first:
  assumes "at_cursor b (enc_units ((x, y, z) # us @ v # vs))" and "valid_units ((x, y, z) # us @ v # vs)" and "phy \<le> fst v"
    and "x < phy" and "\<forall>u \<in> set us. fst u < phy" and "20 * int (length us) + 20 < fs"
  shows "trunc_units 0 fs phy b 0 d = Some (Return, 20 * int (length us) + 20, last_key x us)"
proof -
  have ok: "unit_ok (x, y, z)" "valid_units (us @ v # vs)" using assms(2) by (auto simp: valid_units_def)
  obtain b1 where b1: "read_unit b = Some (x, y, b1)" "at_cursor b1 (enc_units (us @ v # vs))"
    using read_unit_cursor [OF _ ok(1), of b "enc_units (us @ v # vs)"] assms(1) by auto
  have "trunc_units 20 fs phy b1 20 x = Some (Return, 20 + 20 * int (length us), last_key x us)"
    using assms(3,5,6) b1(2) ok(2) by (intro trunc_units_valid) auto
  with assms(4,6) b1(1) show ?thesis by (subst trunc_units.simps) (simp add: CQStoreUnitSize_def)
qed

text \<open>
  Truncation leaves the buffer's cursor behind. Truncating at a physical offset sets the write
  position of the last file to the end of the units below it, but the cursor of the file's buffer stays
  where it was. The next unit of 20 bytes is written at the cursor and the write position moves over
  the stale unit: it is this unit, not the new one, that the file then holds.
\<close>

lemma truncate_then_append_is_stale:
  assumes "mapedFiles (cq_mapedFileQueue self) = pre @ [mf]" and "mf_inv mf" and "fileSize mf = cq_mapedFileSize self"
    and "mf_content mf = enc_units (us @ v # vs)" and "us \<noteq> []" and "valid_units (us @ v # vs)"
    and "\<forall>u \<in> set us. fst u < phy" and "phy \<le> fst v"
    and "length data = 20" and "wrotePostion mf + 20 \<le> fileSize mf"
  shows "\<exists>self1 mf1 mf2. ConsumeQueue_truncateDirtyLogicFiles os phy self = Some (self1, os) \<and>
     maxPhysicOffset self1 = fst (last us) \<and> mapedFiles (cq_mapedFileQueue self1) = pre @ [mf1] \<and>
     mf_content mf1 = enc_units us \<and>
     MapedFile_appendMessage mf1 data = Some (True, mf2) \<and> mf_content mf2 = enc_units (us @ [v])"
proof -
  let ?buf = "MMapBuf (mappedByteBuffer mf)"
  obtain x y z us' where us: "us = (x, y, z) # us'" using assms(5) by (cases us) auto
  have Bytes: "MappedByteBuffer_Bytes (mappedByteBuffer mf) = Some (mf_content mf)"
    using wrote_Bytes [OF mf_inv_wrote [OF assms(2)]] .
  have w: "wrotePostion mf = 20 * int (length (us @ v # vs))" using length_mf_content [OF assms(2)] assms(4) by simp
  have t: "trunc_units 0 (cq_mapedFileSize self) phy (NewMappedByteBuffer (mf_content mf) (int (length ?buf))) 0 d =
      Some (Return, 20 * int (length us), last_key x us')" for d
  proof -
    have "at_cursor (NewMappedByteBuffer (mf_content mf) (int (length ?buf))) (enc_units ((x, y, z) # us' @ v # vs))"
      by (simp add: at_cursor_def NewMappedByteBuffer_def assms(4) us)
    from trunc_units_first [OF this] assms(3,6-8,10) w show ?thesis by (simp add: us)
  qed
  let ?p = "20 * int (length us)"
  define mf1 where "mf1 = mf\<lparr>wrotePostion := ?p, committedPosition := ?p\<rparr>"
  let ?self1 = "(cq_set_file (length pre) mf1 self)\<lparr>maxPhysicOffset := last_key x us'\<rparr>"
  have tr: "ConsumeQueue_truncateDirtyLogicFiles os phy self = Some (?self1, os)"
    by (subst ConsumeQueue_truncateDirtyLogicFiles.simps)
       (simp add: MapedFileQueue_getLastMapedFile2_def assms(1) Bytes t mf1_def)
  have "take (nat ?p) ?buf = enc_units us"
  proof -
    have "nat ?p \<le> nat (wrotePostion mf)" using w by simp
    then have "take (nat ?p) ?buf = take (nat ?p) (mf_content mf)" by (simp add: mf_content_def min_def)
    also have "\<dots> = enc_units us" using take_enc_units [of "length us" "us @ v # vs" "[]"] assms(4)
      by (simp add: nat_mult_distrib)
    finally show ?thesis .
  qed
  then have c1: "mf_content mf1 = enc_units us" by (simp add: mf_content_def mf1_def)
  have mi: "WritePos (mappedByteBuffer mf) = wrotePostion mf" "Limit (mappedByteBuffer mf) = fileSize mf"
      "int (length ?buf) = fileSize mf" using assms(2) by (auto simp: mf_inv_def)
  define buf2 where "buf2 = overwrite ?buf (nat (wrotePostion mf)) data"
  let ?mf2 = "mf1\<lparr>mappedByteBuffer := (mappedByteBuffer mf)\<lparr>MMapBuf := buf2, WritePos := wrotePostion mf + 20\<rparr>, wrotePostion := ?p + 20\<rparr>"
  have ap: "MapedFile_appendMessage mf1 data = Some (True, ?mf2)"
  proof -
    have "MappedByteBuffer_Write (mappedByteBuffer mf) data =
        Some ((mappedByteBuffer mf)\<lparr>MMapBuf := buf2, WritePos := wrotePostion mf + 20\<rparr>, Inr 20)"
      using assms(9,10) mi w by (auto simp: MappedByteBuffer_Write_def buf2_def)
    then show ?thesis using assms(9,10) w by (simp add: MapedFile_appendMessage_def mf1_def)
  qed
  have "mf_content ?mf2 = enc_units (us @ [v])"
  proof -
    have n: "nat (?p + 20) = 20 * length (us @ [v])" by simp
    have "take (20 * length (us @ [v])) buf2 = take (20 * length (us @ [v])) (mf_content mf)"
    proof -
      have "nat (wrotePostion mf) = 20 * length (us @ v # vs)" using w by simp
      moreover have "20 * length (us @ v # vs) \<le> length ?buf" using w assms(10) mi(3) by linarith
      ultimately show ?thesis by (simp add: buf2_def overwrite_def mf_content_def min_def)
    qed
    also have "\<dots> = enc_units (us @ [v])"
      using take_enc_units [of "length (us @ [v])" "us @ v # vs" "[]"] assms(4) by simp
    finally show ?thesis by (simp add: mf_content_def n)
  qed
  moreover have "mapedFiles (cq_mapedFileQueue ?self1) = pre @ [mf1]" by (simp add: cq_set_file_def assms(1))
  moreover have "maxPhysicOffset ?self1 = fst (last us)" by (simp add: us last_key_def)
  ultimately show ?thesis using tr c1 ap by blast
qed

definition example_cq_two :: ConsumeQueue where
  "example_cq_two = (NewConsumeQueue ''T'' 0 ''s'' 60)\<lparr>cq_mapedFileQueue := (NewMapedFileQueue ''s/T/0'' 60 None)
     \<lparr>mapedFiles := [(loaded_file ''s/T/0'' 0 60 (enc_units [(100, 10, 0), (200, 10, 0)] @ replicate 20 0))
        \<lparr>wrotePostion := 40, committedPosition := 40,
          mappedByteBuffer := \<lparr>MMapBuf = enc_units [(100, 10, 0), (200, 10, 0)] @ replicate 20 0, ReadPos = 0, WritePos = 40, Limit = 60\<rparr>\<rparr>]\<rparr>\<rparr>"

lemma truncate_then_append_is_stale_witness:
  "\<exists>self1 mf1 mf2. ConsumeQueue_truncateDirtyLogicFiles example_os 150 example_cq_two = Some (self1, example_os) \<and>
     mapedFiles (cq_mapedFileQueue self1) = [mf1] \<and> mf_content mf1 = enc_units [(100, 10, 0)] \<and>
     MapedFile_appendMessage mf1 (unit_bytes 150 10 0) = Some (True, mf2) \<and>
     mf_content mf2 = enc_units [(100, 10, 0), (200, 10, 0)]"
proof -
  let ?mf = "hd (mapedFiles (cq_mapedFileQueue example_cq_two))"
  have mf: "mapedFiles (cq_mapedFileQueue example_cq_two) = [] @ [?mf]" "mf_inv ?mf" "fileSize ?mf = cq_mapedFileSize example_cq_two"
    "mf_content ?mf = enc_units ([(100, 10, 0)] @ (200, 10, 0) # [])" "wrotePostion ?mf + 20 \<le> fileSize ?mf"
    by (simp_all add: example_cq_two_def NewConsumeQueue_def NewMapedFileQueue_def loaded_file_def fresh_file_def
        mf_inv_def mf_content_def)
  have "valid_units ([(100, 10, 0)] @ (200, 10, 0) # [])" by (simp add: valid_units_def unit_ok_def in_int_def)
  from truncate_then_append_is_stale [OF mf(1-4) _ this, of 150 "unit_bytes 150 10 0" example_os] mf(5)
  show ?thesis by auto
qed

end
