(* ===== verification/GoStrings.thy ===== *)
theory GoStrings
  imports OsFile
begin

text \<open>
  The functions of Go's package \<open>strings\<close> that the client and the registry use, on ASCII strings, and
  keys of association lists, which stand for Go maps.
\<close>

section \<open>Comparing strings\<close>

text \<open>\<open>strings.EqualFold\<close> on ASCII strings, which topics, broker names and client ids are.\<close>

definition fold_char :: "char \<Rightarrow> char" where
  "fold_char c = (if 65 \<le> (of_char c :: nat) \<and> (of_char c :: nat) \<le> 90 then char_of ((of_char c :: nat) + 32) else c)"

definition fold_case :: "string \<Rightarrow> string" where
  "fold_case s = map fold_char s"

definition EqualFold :: "string \<Rightarrow> string \<Rightarrow> bool" where
  "EqualFold s t \<longleftrightarrow> fold_case s = fold_case t"

lemma EqualFold_simps [simp]:
  "EqualFold s s" "EqualFold s [] \<longleftrightarrow> s = []" "EqualFold [] s \<longleftrightarrow> s = []"
  by (auto simp: EqualFold_def fold_case_def)

lemma EqualFold_sym: "EqualFold s t \<longleftrightarrow> EqualFold t s"
  by (auto simp: EqualFold_def)

lemma EqualFold_trans: "EqualFold s t \<Longrightarrow> EqualFold t u \<Longrightarrow> EqualFold s u"
  by (simp add: EqualFold_def)

section \<open>White space\<close>

definition is_space :: "char \<Rightarrow> bool" where
  "is_space c \<longleftrightarrow> (of_char c :: nat) \<in> {9, 10, 11, 12, 13, 32}"

definition TrimSpace :: "string \<Rightarrow> string" where
  "TrimSpace s = rev (dropWhile is_space (rev (dropWhile is_space s)))"

text \<open>\<open>stgcommon.IsBlank\<close>: no match of the regular expression for a character that is no white space.\<close>

definition IsBlank :: "string \<Rightarrow> bool" where
  "IsBlank content \<longleftrightarrow> list_all (\<lambda>c. (of_char c :: nat) \<in> {9, 10, 12, 13, 32}) content"

section \<open>Splitting\<close>

text \<open>\<open>strings.Split\<close> with a separator of one character.\<close>

fun strings_Split :: "char \<Rightarrow> string \<Rightarrow> string list" where
  "strings_Split sep [] = [[]]"
| "strings_Split sep (c # s) =
     (if c = sep then [] # strings_Split sep s
      else case strings_Split sep s of [] \<Rightarrow> [[c]] | p # ps \<Rightarrow> (c # p) # ps)"

lemma strings_Split_not_Nil [simp]: "strings_Split sep s \<noteq> []"
  by (cases s) (auto split: list.splits)

lemma strings_Split_none: "sep \<notin> set s \<Longrightarrow> strings_Split sep s = [s]"
  by (induction s) auto

lemma strings_Split_two: "sep \<notin> set s \<Longrightarrow> strings_Split sep (s @ sep # t) = s # strings_Split sep t"
  by (induction s) auto

lemma strings_Split_pair:
  "strings_Split sep s = [a, b] \<longleftrightarrow> s = a @ sep # b \<and> sep \<notin> set a \<and> sep \<notin> set b"
proof
  have one: "strings_Split sep s = [a] \<Longrightarrow> s = a \<and> sep \<notin> set a" for s a
    by (induction s arbitrary: a) (auto split: if_splits list.splits)
  show "strings_Split sep s = [a, b] \<Longrightarrow> s = a @ sep # b \<and> sep \<notin> set a \<and> sep \<notin> set b"
    by (induction s arbitrary: a) (auto split: if_splits list.splits dest!: one)
qed (simp add: strings_Split_two strings_Split_none)

section \<open>Numbers\<close>

text \<open>The value \<open>strconv.ParseInt\<close> returns beside an error.\<close>

definition ParseInt_value :: "string \<Rightarrow> int" where
  "ParseInt_value s =
     (case ParseInt s of
        Inr x \<Rightarrow> x
      | Inl e \<Rightarrow> if e = ''value out of range'' then (if hd s = CHR ''-'' then - (2 ^ 63) else 2 ^ 63 - 1) else 0)"

end
