(* ===== verification/IndexM.thy ===== *)
theory IndexM
  imports CommitLogM GoStrings
begin

text \<open>
  The key index of the store: \<open>stgstorelog/index_header.go\<close>, \<open>index_file.go\<close> and \<open>index_service.go\<close>. An
  index file is a mapped file with a header, a table of hash slots and a table of 20-byte entries; the
  service keeps a list of them and adds an entry for each key of a dispatched message.

  A panic is \<open>None\<close>. Operations that may never return have a second, outer option whose \<open>None\<close> means
  that the call does not return. The name of a new file is the current time in digits; the sequence of
  these names is an argument.
\<close>

section \<open>Index header\<close>

definition INDEX_HEADER_SIZE :: int where "INDEX_HEADER_SIZE = 40"

definition HASH_SLOT_SIZE :: int where "HASH_SLOT_SIZE = 4"

definition INDEX_SIZE :: int where "INDEX_SIZE = 20"

definition INVALID_INDEX :: int where "INVALID_INDEX = 0"

record IndexHeader =
  ih_mappedByteBuffer :: MappedByteBuffer
  beginTimestamp :: int
  endTimestamp :: int
  beginPhyOffset :: int
  endPhyOffset :: int
  hashSlotCount :: int
  indexCount :: int

definition NewIndexHeader :: "MappedByteBuffer \<Rightarrow> IndexHeader" where
  "NewIndexHeader mbb = \<lparr>ih_mappedByteBuffer = mbb, beginTimestamp = 0, endTimestamp = 0, beginPhyOffset = 0,
     endPhyOffset = 0, hashSlotCount = 0, indexCount = 0\<rparr>"

definition IndexHeader_load :: "IndexHeader \<Rightarrow> IndexHeader option" where
  "IndexHeader_load self =
     do {
       (bt, b1) \<leftarrow> MappedByteBuffer_ReadInt64 ((ih_mappedByteBuffer self)\<lparr>ReadPos := 0\<rparr>);
       (et, b2) \<leftarrow> MappedByteBuffer_ReadInt64 b1;
       (bp, b3) \<leftarrow> MappedByteBuffer_ReadInt64 b2;
       (ep, b4) \<leftarrow> MappedByteBuffer_ReadInt64 b3;
       (hc, b5) \<leftarrow> MappedByteBuffer_ReadInt32 b4;
       (ic, b6) \<leftarrow> MappedByteBuffer_ReadInt32 b5;
       Some \<lparr>ih_mappedByteBuffer = b6, beginTimestamp = bt, endTimestamp = et, beginPhyOffset = bp, endPhyOffset = ep,
             hashSlotCount = hc, indexCount = (if ic \<le> 0 then to_int32 (ic + 1) else ic)\<rparr> }"

definition IndexHeader_updateByteBuffer :: "IndexHeader \<Rightarrow> IndexHeader option" where
  "IndexHeader_updateByteBuffer self =
     map_option (\<lambda>b. self\<lparr>ih_mappedByteBuffer := b\<rparr>)
       (write_all ((ih_mappedByteBuffer self)\<lparr>WritePos := 0\<rparr>)
          [Int64ToBytes (beginTimestamp self), Int64ToBytes (endTimestamp self), Int64ToBytes (beginPhyOffset self),
           Int64ToBytes (endPhyOffset self), Int32ToBytes (hashSlotCount self), Int32ToBytes (indexCount self)])"

text \<open>The setters write at the cursor of the header's buffer, wherever it is.\<close>

definition IndexHeader_setBeginTimestamp :: "int \<Rightarrow> IndexHeader \<Rightarrow> IndexHeader option" where
  "IndexHeader_setBeginTimestamp t self =
     map_option (\<lambda>b. self\<lparr>ih_mappedByteBuffer := b, beginTimestamp := t\<rparr>)
       (MappedByteBuffer_WriteInt64 (ih_mappedByteBuffer self) t)"

definition IndexHeader_setEndTimestamp :: "int \<Rightarrow> IndexHeader \<Rightarrow> IndexHeader option" where
  "IndexHeader_setEndTimestamp t self =
     map_option (\<lambda>b. self\<lparr>ih_mappedByteBuffer := b, endTimestamp := t\<rparr>)
       (MappedByteBuffer_WriteInt64 (ih_mappedByteBuffer self) t)"

definition IndexHeader_setBeginPhyOffset :: "int \<Rightarrow> IndexHeader \<Rightarrow> IndexHeader option" where
  "IndexHeader_setBeginPhyOffset p self =
     map_option (\<lambda>b. self\<lparr>ih_mappedByteBuffer := b, beginPhyOffset := p\<rparr>)
       (MappedByteBuffer_WriteInt64 (ih_mappedByteBuffer self) p)"

definition IndexHeader_setEndPhyOffset :: "int \<Rightarrow> IndexHeader \<Rightarrow> IndexHeader option" where
  "IndexHeader_setEndPhyOffset p self =
     map_option (\<lambda>b. self\<lparr>ih_mappedByteBuffer := b, endPhyOffset := p\<rparr>)
       (MappedByteBuffer_WriteInt64 (ih_mappedByteBuffer self) p)"

definition IndexHeader_incHashSlotCount :: "IndexHeader \<Rightarrow> IndexHeader option" where
  "IndexHeader_incHashSlotCount self =
     (let v = to_int32 (hashSlotCount self + 1)
      in map_option (\<lambda>b. self\<lparr>ih_mappedByteBuffer := b, hashSlotCount := v\<rparr>)
           (MappedByteBuffer_WriteInt32 (ih_mappedByteBuffer self) v))"

definition IndexHeader_incIndexCount :: "IndexHeader \<Rightarrow> IndexHeader option" where
  "IndexHeader_incIndexCount self =
     (let v = to_int32 (indexCount self + 1)
      in map_option (\<lambda>b. self\<lparr>ih_mappedByteBuffer := b, indexCount := v\<rparr>)
           (MappedByteBuffer_WriteInt32 (ih_mappedByteBuffer self) v))"

section \<open>Index file\<close>

text \<open>\<open>IndexFile.mappedByteBuffer\<close> is the buffer of its mapped file.\<close>

record IndexFile =
  if_hashSlotNum :: int
  if_indexNum :: int
  if_mapedFile :: MapedFile
  if_indexHeader :: IndexHeader

definition if_total :: "int \<Rightarrow> int \<Rightarrow> int" where
  "if_total hashSlotNum indexNum =
     to_int32 (INDEX_HEADER_SIZE + hashSlotNum * HASH_SLOT_SIZE + indexNum * INDEX_SIZE)"

text \<open>
  The header's buffer is a slice of its own, not the mapped region. When the file cannot be created the
  \<open>nil\<close> file is dereferenced.
\<close>

definition NewIndexFile :: "OS \<Rightarrow> string \<Rightarrow> int \<Rightarrow> int \<Rightarrow> int \<Rightarrow> int \<Rightarrow> (IndexFile \<times> OS) option" where
  "NewIndexFile os name slots num endPhy endTime =
     (case NewMapedFile os name (if_total slots num) of
        (Inl e, os1) \<Rightarrow> None
      | (Inr mf, os1) \<Rightarrow>
          if fileSize mf < 0 then None
          else do {
            let h = NewIndexHeader (NewMappedByteBuffer (replicate (nat (fileSize mf)) 0) (fileSize mf));
            h1 \<leftarrow> (if endPhy > 0
                  then Option.bind (IndexHeader_setBeginPhyOffset endPhy h) (IndexHeader_setEndPhyOffset endPhy) else Some h);
            h2 \<leftarrow> (if endTime > 0
                  then Option.bind (IndexHeader_setBeginTimestamp endTime h1) (IndexHeader_setEndTimestamp endTime) else Some h1);
            Some (\<lparr>if_hashSlotNum = slots, if_indexNum = num, if_mapedFile = mf, if_indexHeader = h2\<rparr>, os1) })"

definition IndexFile_load :: "IndexFile \<Rightarrow> IndexFile option" where
  "IndexFile_load self = map_option (\<lambda>h. self\<lparr>if_indexHeader := h\<rparr>) (IndexHeader_load (if_indexHeader self))"

definition IndexFile_flush :: "OS \<Rightarrow> IndexFile \<Rightarrow> (IndexFile \<times> OS) option" where
  "IndexFile_flush os self =
     (case MapedFile_hold (if_mapedFile self) of
        (True, mf) \<Rightarrow>
          do {
            h \<leftarrow> IndexHeader_updateByteBuffer (if_indexHeader self);
            Some (self\<lparr>if_indexHeader := h, if_mapedFile := MapedFile_release mf\<rparr>, MapedFile_Flush os mf) }
      | (False, mf) \<Rightarrow> Some (self\<lparr>if_mapedFile := mf\<rparr>, os))"

definition IndexFile_isWriteFull :: "IndexFile \<Rightarrow> bool" where
  "IndexFile_isWriteFull self \<longleftrightarrow> indexCount (if_indexHeader self) \<ge> if_indexNum self"

definition IndexFile_getEndPhyOffset :: "IndexFile \<Rightarrow> int" where
  "IndexFile_getEndPhyOffset self = endPhyOffset (if_indexHeader self)"

definition IndexFile_getEndTimestamp :: "IndexFile \<Rightarrow> int" where
  "IndexFile_getEndTimestamp self = endTimestamp (if_indexHeader self)"

text \<open>\<open>hash/fnv\<close>'s \<open>New32a\<close> over the bytes of the key.\<close>

definition fnv32a :: "byte list \<Rightarrow> 32 word" where
  "fnv32a bs = foldl (\<lambda>h b. (h XOR ucast b) * 16777619) 2166136261 bs"

definition IndexFile_indexKeyHashCode :: "string \<Rightarrow> int" where
  "IndexFile_indexKeyHashCode key = sint (fnv32a (map of_char key))"

text \<open>
  The conversion of the absolute value back to \<open>int32\<close> is out of range for the smallest hash; there the
  result is the wrapped value, as on amd64.
\<close>

definition IndexFile_indexKeyHashMethod :: "string \<Rightarrow> int" where
  "IndexFile_indexKeyHashMethod key =
     (let keyHashPositive = \<bar>IndexFile_indexKeyHashCode key\<bar>
      in to_int32 (if keyHashPositive < 0 then 0 else keyHashPositive))"

definition slot_value :: "int \<Rightarrow> int \<Rightarrow> int" where
  "slot_value v count = (if v \<le> INVALID_INDEX \<or> v > count then INVALID_INDEX else v)"

definition time_diff :: "int \<Rightarrow> int \<Rightarrow> int" where
  "time_diff storeTime begin =
     (let d = (storeTime - begin) sdiv 1000
      in if begin \<le> 0 then 0 else if d > 0x7fffffff then 0x7fffffff else if d < 0 then 0 else d)"

definition IndexFile_putKey :: "string \<Rightarrow> int \<Rightarrow> int \<Rightarrow> IndexFile \<Rightarrow> (bool \<times> IndexFile) option" where
  "IndexFile_putKey key phyOffset storeTime self =
     (let h = if_indexHeader self; mbb = mappedByteBuffer (if_mapedFile self)
      in if indexCount h < if_indexNum self
         then if if_hashSlotNum self = 0 then None
         else do {
           let keyHash = IndexFile_indexKeyHashMethod key;
           let slotPos = keyHash smod if_hashSlotNum self;
           let absSlotPos = to_int32 (INDEX_HEADER_SIZE + slotPos * HASH_SLOT_SIZE);
           (v, mbb1) \<leftarrow> MappedByteBuffer_ReadInt32 (mbb\<lparr>ReadPos := absSlotPos\<rparr>);
           let slotValue = slot_value v (indexCount h);
           let timeDiff = time_diff storeTime (beginTimestamp h);
           let absIndexPos = to_int32 (INDEX_HEADER_SIZE + if_hashSlotNum self * HASH_SLOT_SIZE + indexCount h * INDEX_SIZE);
           mbb2 \<leftarrow> write_all (mbb1\<lparr>WritePos := absIndexPos\<rparr>)
             [Int32ToBytes keyHash, Int64ToBytes phyOffset, Int32ToBytes (to_int32 timeDiff), Int32ToBytes slotValue];
           mbb3 \<leftarrow> write_all (mbb2\<lparr>WritePos := absIndexPos\<rparr>) [Int32ToBytes (indexCount h)];
           let mbb4 = mbb3\<lparr>WritePos := WritePos mbb2\<rparr>;
           let h1 = (if indexCount h \<le> 1 then h\<lparr>beginPhyOffset := phyOffset, beginTimestamp := storeTime\<rparr> else h);
           h2 \<leftarrow> IndexHeader_incHashSlotCount h1;
           h3 \<leftarrow> IndexHeader_incIndexCount h2;
           Some (True, self\<lparr>if_mapedFile := (if_mapedFile self)\<lparr>mappedByteBuffer := mbb4\<rparr>,
                            if_indexHeader := h3\<lparr>endPhyOffset := phyOffset, endTimestamp := storeTime\<rparr>\<rparr>) }
         else Some (False, self))"

definition IndexFile_destroy :: "OS \<Rightarrow> int \<Rightarrow> IndexFile \<Rightarrow> bool \<times> IndexFile \<times> OS" where
  "IndexFile_destroy os interval self =
     (case MapedFile_destroy os interval (if_mapedFile self) of
        (ok, mf, os1) \<Rightarrow> (ok, self\<lparr>if_mapedFile := mf\<rparr>, os1))"

section \<open>Index service\<close>

text \<open>
  \<open>flushing\<close> lists the files handed to a flush goroutine, by position. \<open>is_readers\<close> counts the holders of
  the read lock, \<open>is_requestQueue\<close> is the content of the request channel.
\<close>

record IndexService =
  is_hashSlotNum :: int
  is_indexNum :: int
  is_storePath :: string
  indexFileList :: "IndexFile list"
  is_requestQueue :: "DispatchRequest list"
  is_readers :: nat
  flushing :: "nat option list"

definition NewIndexService :: "MessageStoreConfig \<Rightarrow> IndexService" where
  "NewIndexService config = \<lparr>is_hashSlotNum = MaxHashSlotNum config, is_indexNum = MaxIndexNum config,
     is_storePath = GetStorePathIndex (StorePathRootDir config), indexFileList = [], is_requestQueue = [],
     is_readers = 0, flushing = []\<rparr>"

text \<open>
  \<open>Load\<close>, on the listing of the directory with modification times in seconds. Files of the same second
  keep the order of the listing.
\<close>

fun load_index_files :: "OS \<Rightarrow> string list \<Rightarrow> IndexService \<Rightarrow> (IndexService \<times> OS) option" where
  "load_index_files os [] self = Some (self, os)"
| "load_index_files os (name # names) self =
     do {
       (f, os1) \<leftarrow> NewIndexFile os (is_storePath self @ ''/'' @ name) (is_hashSlotNum self) (is_indexNum self) 0 0;
       f1 \<leftarrow> IndexFile_load f;
       load_index_files os1 names (self\<lparr>indexFileList := indexFileList self @ [f1]\<rparr>) }"

definition IndexService_Load ::
    "OS \<Rightarrow> (string \<times> int) list \<Rightarrow> IndexService \<Rightarrow> (bool \<times> IndexService \<times> OS) option" where
  "IndexService_Load os files self =
     map_option (\<lambda>(s, os1). (True, s, os1)) (load_index_files os (map fst (sort_key snd files)) self)"

text \<open>
  \<open>getAndCreateLastIndexFile\<close>. The file that is created is bound to a new variable in an inner block, so
  the call that creates a file still returns \<open>nil\<close>.
\<close>

definition IndexService_getAndCreateLastIndexFile ::
    "OS \<Rightarrow> string \<Rightarrow> IndexService \<Rightarrow> (nat option \<times> IndexService \<times> OS) option" where
  "IndexService_getAndCreateLastIndexFile os name self =
     (let fs = indexFileList self; n = length fs
      in if fs \<noteq> [] \<and> \<not> IndexFile_isWriteFull (last fs) then Some (Some (n - 1), self, os)
         else do {
           let (endPhy, endTime, prev) =
             (if fs = [] then (0, 0, None)
              else (IndexFile_getEndPhyOffset (last fs), IndexFile_getEndTimestamp (last fs), Some (n - 1)));
           (f, os1) \<leftarrow> NewIndexFile os (is_storePath self @ ''/'' @ name) (is_hashSlotNum self) (is_indexNum self) endPhy endTime;
           Some (None, self\<lparr>indexFileList := fs @ [f], flushing := flushing self @ [prev]\<rparr>, os1) })"

fun get_retry :: "nat \<Rightarrow> (nat \<Rightarrow> string) \<Rightarrow> OS \<Rightarrow> IndexService \<Rightarrow> (nat option \<times> IndexService \<times> OS) option" where
  "get_retry 0 names os self = Some (None, self, os)"
| "get_retry (Suc n) names os self =
     do {
       (r, self1, os1) \<leftarrow> IndexService_getAndCreateLastIndexFile os (names 0) self;
       case r of Some i \<Rightarrow> Some (Some i, self1, os1) | None \<Rightarrow> get_retry n (\<lambda>k. names (Suc k)) os1 self1 }"

definition IndexService_retryGetAndCreateIndexFile ::
    "(nat \<Rightarrow> string) \<Rightarrow> OS \<Rightarrow> int \<Rightarrow> IndexService \<Rightarrow> (nat option \<times> int \<times> IndexService \<times> OS) option" where
  "IndexService_retryGetAndCreateIndexFile names os flags self =
     map_option (\<lambda>(r, self1, os1). (r, if r = None then RunningFlags_makeIndexFileError flags else flags, self1, os1))
       (get_retry 3 names os self)"

definition IndexService_buildKey :: "string \<Rightarrow> string \<Rightarrow> string" where
  "IndexService_buildKey topic key = topic @ ''#'' @ key"

text \<open>
  The body of the loop entered when \<open>putKey\<close> fails: the loop's condition is never computed again, so it
  is left only when no file can be had.
\<close>

partial_function (option) refill_loop ::
    "(nat \<Rightarrow> string) \<Rightarrow> OS \<Rightarrow> int \<Rightarrow> IndexService \<Rightarrow> (int \<times> IndexService \<times> OS) option option" where
  "refill_loop names os flags self =
     (case IndexService_retryGetAndCreateIndexFile names os flags self of
        None \<Rightarrow> Some None
      | Some (r, flags1, self1, os1) \<Rightarrow>
          (case r of
             None \<Rightarrow> Some (Some (flags1, self1, os1))
           | Some i \<Rightarrow> refill_loop (\<lambda>k. names (k + 3)) os1 flags1 self1))"

fun put_keys ::
    "(nat \<Rightarrow> string) \<Rightarrow> OS \<Rightarrow> int \<Rightarrow> nat \<Rightarrow> DispatchRequest \<Rightarrow> string list \<Rightarrow> IndexService \<Rightarrow>
     (int \<times> IndexService \<times> OS) option option" where
  "put_keys names os flags i msg [] self = Some (Some (flags, self, os))"
| "put_keys names os flags i msg (key # keys) self =
     (if key = [] then put_keys names os flags i msg keys self
      else case IndexFile_putKey (IndexService_buildKey (dr_topic msg) key) (dr_commitLogOffset msg)
             (dr_storeTimestamp msg) (indexFileList self ! i) of
             None \<Rightarrow> Some None
           | Some (ok, f) \<Rightarrow>
               (let self1 = self\<lparr>indexFileList := (indexFileList self)[i := f]\<rparr>
                in if ok then put_keys names os flags i msg keys self1 else refill_loop names os flags self1))"

definition IndexService_buildIndex ::
    "(nat \<Rightarrow> string) \<Rightarrow> OS \<Rightarrow> int \<Rightarrow> DispatchRequest \<Rightarrow> IndexService \<Rightarrow> (int \<times> IndexService \<times> OS) option option" where
  "IndexService_buildIndex names os flags msg self =
     (case IndexService_retryGetAndCreateIndexFile names os flags self of
        None \<Rightarrow> Some None
      | Some (r, flags1, self1, os1) \<Rightarrow>
          (case r of
             None \<Rightarrow> Some (Some (flags1, self1, os1))
           | Some i \<Rightarrow>
               if dr_commitLogOffset msg < IndexFile_getEndPhyOffset (indexFileList self1 ! i)
                 \<or> GetTransactionValue (dr_sysFlag msg) = TransactionPreparedType
                 \<or> GetTransactionValue (dr_sysFlag msg) = TransactionRollbackType
                 \<or> dr_keys msg = []
               then Some (Some (flags1, self1, os1))
               else put_keys (\<lambda>k. names (k + 3)) os1 flags1 i msg (strings_Split CHR '' '' (dr_keys msg)) self1))"

fun destroy_index_files :: "OS \<Rightarrow> IndexFile list \<Rightarrow> OS" where
  "destroy_index_files os [] = os"
| "destroy_index_files os (f # fs) = (case IndexFile_destroy os 3000 f of (_, _, os1) \<Rightarrow> destroy_index_files os1 fs)"

definition IndexService_destroy :: "OS \<Rightarrow> IndexService \<Rightarrow> IndexService \<times> OS" where
  "IndexService_destroy os self = (self\<lparr>indexFileList := []\<rparr>, destroy_index_files os (indexFileList self))"

text \<open>
  \<open>deleteExpiredFiles\<close>: destroys the files up to the first failure. \<open>Remove\<close> is called with elements of
  another list and removes nothing. Taking the write lock while the read lock is held never returns.
\<close>

fun destroy_expired :: "OS \<Rightarrow> nat \<Rightarrow> nat \<Rightarrow> IndexFile list \<Rightarrow> IndexFile list \<times> OS" where
  "destroy_expired os i 0 fs = (fs, os)"
| "destroy_expired os i (Suc n) fs =
     (case IndexFile_destroy os 3000 (fs ! i) of
        (ok, f, os1) \<Rightarrow> if ok then destroy_expired os1 (Suc i) n (fs[i := f]) else (fs[i := f], os1))"

definition IndexService_deleteExpiredFiles :: "OS \<Rightarrow> nat \<Rightarrow> IndexService \<Rightarrow> (IndexService \<times> OS) option" where
  "IndexService_deleteExpiredFiles os count self =
     (if count = 0 then Some (self, os)
      else if is_readers self > 0 then None
      else (case destroy_expired os 0 count (indexFileList self) of
              (fs, os1) \<Rightarrow> Some (self\<lparr>indexFileList := fs\<rparr>, os1)))"

definition IndexService_deleteExpiredFile :: "OS \<Rightarrow> int \<Rightarrow> IndexService \<Rightarrow> (IndexService \<times> OS) option" where
  "IndexService_deleteExpiredFile os offset self =
     (let expired = takeWhile (\<lambda>f. IndexFile_getEndPhyOffset f < offset) (indexFileList self)
      in map_option (\<lambda>(s, os1). (s\<lparr>is_readers := is_readers self\<rparr>, os1))
           (IndexService_deleteExpiredFiles os (length expired) (self\<lparr>is_readers := is_readers self + 1\<rparr>)))"

text \<open>\<open>putRequest\<close>: \<open>None\<close> while the channel is full, when the sender waits.\<close>

definition requestQueue_capacity :: nat where
  "requestQueue_capacity = 300000"

definition IndexService_putRequest :: "DispatchRequest \<Rightarrow> IndexService \<Rightarrow> IndexService option" where
  "IndexService_putRequest request self =
     (if length (is_requestQueue self) < requestQueue_capacity
      then Some (self\<lparr>is_requestQueue := is_requestQueue self @ [request]\<rparr>)
      else None)"

text \<open>The flush of one file, run by the goroutine a creation starts.\<close>

definition IndexService_flush ::
    "OS \<Rightarrow> nat option \<Rightarrow> StoreCheckpoint \<Rightarrow> IndexService \<Rightarrow> (StoreCheckpoint \<times> IndexService \<times> OS) option" where
  "IndexService_flush os p scp self =
     (case p of
        None \<Rightarrow> Some (scp, self, os)
      | Some i \<Rightarrow>
          (let f = indexFileList self ! i;
               t = (if IndexFile_isWriteFull f then IndexFile_getEndTimestamp f else 0)
           in do {
             (f1, os1) \<leftarrow> IndexFile_flush os f;
             Some (if t > 0 then scp\<lparr>indexMsgTimestamp := t\<rparr> else scp,
                   self\<lparr>indexFileList := (indexFileList self)[i := f1]\<rparr>, os1) }))"

section \<open>Writing into an index file\<close>

lemma overwrite_overwrite:
  "p + length x + length y \<le> length b \<Longrightarrow> overwrite (overwrite b p x) (p + length x) y = overwrite b p (x @ y)"
  by (simp add: overwrite_def ac_simps)

lemma write_all_at:
  assumes "0 \<le> WritePos m" and "WritePos m + int (length (concat ds)) \<le> Limit m"
    and "WritePos m + int (length (concat ds)) \<le> int (length (MMapBuf m))"
  shows "write_all m ds = Some (m\<lparr>MMapBuf := overwrite (MMapBuf m) (nat (WritePos m)) (concat ds),
                                  WritePos := WritePos m + int (length (concat ds))\<rparr>)"
  using assms
proof (induction ds arbitrary: m)
  case Nil
  then show ?case by (simp add: overwrite_def)
next
  case (Cons d ds)
  let ?p = "nat (WritePos m)"
  define m1 where "m1 = m\<lparr>MMapBuf := overwrite (MMapBuf m) ?p d, WritePos := WritePos m + int (length d)\<rparr>"
  have fits: "?p + length d + length (concat ds) \<le> length (MMapBuf m)" using Cons.prems by simp
  have w: "\<exists>r. MappedByteBuffer_Write m d = Some (m1, r)"
    using Cons.prems fits by (cases "d = []") (auto simp: MappedByteBuffer_Write_def m1_def overwrite_def)
  have "write_all m1 ds = Some (m1\<lparr>MMapBuf := overwrite (MMapBuf m1) (nat (WritePos m1)) (concat ds),
      WritePos := WritePos m1 + int (length (concat ds))\<rparr>)"
    using Cons.prems fits by (intro Cons.IH) (auto simp: m1_def length_overwrite)
  moreover have "nat (WritePos m1) = ?p + length d" using Cons.prems(1) by (simp add: m1_def nat_add_distrib)
  ultimately show ?case
    using w overwrite_overwrite [OF fits] by (auto simp: m1_def)
qed

text \<open>
  A well-formed index file: its size is that of the header and the two tables, and both buffers have
  exactly this size.
\<close>

definition if_inv :: "IndexFile \<Rightarrow> bool" where
  "if_inv f \<longleftrightarrow> (let m = mappedByteBuffer (if_mapedFile f); h = ih_mappedByteBuffer (if_indexHeader f);
        tot = 40 + 4 * if_hashSlotNum f + 20 * if_indexNum f
     in 0 < if_hashSlotNum f \<and> 0 \<le> if_indexNum f \<and> tot < 2 ^ 31 \<and> int (length (MMapBuf m)) = tot \<and> Limit m = tot \<and>
        int (length (MMapBuf h)) = tot \<and> Limit h = tot \<and> 0 \<le> WritePos h \<and> WritePos h \<le> tot \<and>
        0 \<le> indexCount (if_indexHeader f))"

definition if_slots :: "IndexFile \<Rightarrow> byte list" where
  "if_slots f = take (nat (4 * if_hashSlotNum f)) (drop 40 (MMapBuf (mappedByteBuffer (if_mapedFile f))))"

definition if_entry :: "IndexFile \<Rightarrow> int \<Rightarrow> byte list" where
  "if_entry f i = take 20 (drop (nat (40 + 4 * if_hashSlotNum f + 20 * i)) (MMapBuf (mappedByteBuffer (if_mapedFile f))))"

lemma Write_total:
  assumes "0 \<le> WritePos m" and "WritePos m \<le> Limit m" and "int (length (MMapBuf m)) = Limit m"
  shows "\<exists>m1. map_option fst (MappedByteBuffer_Write m d) = Some m1 \<and> 0 \<le> WritePos m1 \<and> WritePos m1 \<le> Limit m1 \<and>
     Limit m1 = Limit m \<and> length (MMapBuf m1) = length (MMapBuf m)"
  using assms by (auto simp: MappedByteBuffer_Write_def length_overwrite)

definition ih_inv :: "int \<Rightarrow> IndexHeader \<Rightarrow> bool" where
  "ih_inv tot h \<longleftrightarrow> int (length (MMapBuf (ih_mappedByteBuffer h))) = tot \<and> Limit (ih_mappedByteBuffer h) = tot \<and>
     0 \<le> WritePos (ih_mappedByteBuffer h) \<and> WritePos (ih_mappedByteBuffer h) \<le> tot"

lemma inc_counts:
  assumes "ih_inv tot h"
  shows "\<exists>h2 h3. IndexHeader_incHashSlotCount h = Some h2 \<and> IndexHeader_incIndexCount h2 = Some h3 \<and> ih_inv tot h3 \<and>
     indexCount h3 = to_int32 (indexCount h + 1) \<and> beginTimestamp h3 = beginTimestamp h \<and> beginPhyOffset h3 = beginPhyOffset h"
proof -
  let ?v = "to_int32 (hashSlotCount h + 1)"
  obtain b where b: "map_option fst (MappedByteBuffer_Write (ih_mappedByteBuffer h) (Int32ToBytes ?v)) = Some b"
      "0 \<le> WritePos b" "WritePos b \<le> Limit b" "Limit b = tot" "int (length (MMapBuf b)) = tot"
    using Write_total [of "ih_mappedByteBuffer h"] assms by (force simp: ih_inv_def)
  let ?h2 = "h\<lparr>ih_mappedByteBuffer := b, hashSlotCount := ?v\<rparr>" and ?w = "to_int32 (indexCount h + 1)"
  obtain c where c: "map_option fst (MappedByteBuffer_Write b (Int32ToBytes ?w)) = Some c"
      "0 \<le> WritePos c" "WritePos c \<le> Limit c" "Limit c = tot" "int (length (MMapBuf c)) = tot"
    using Write_total [of b] b by force
  show ?thesis
    using b c by (simp add: IndexHeader_incHashSlotCount_def IndexHeader_incIndexCount_def Let_def ih_inv_def
        MappedByteBuffer_WriteInt32_def del: map_option_eq_Some)
qed

lemma ReadInt32_frame:
  "MappedByteBuffer_ReadInt32 b = Some (v, b1) \<Longrightarrow> MMapBuf b1 = MMapBuf b \<and> Limit b1 = Limit b \<and> WritePos b1 = WritePos b"
  by (auto simp: MappedByteBuffer_ReadInt32_def MappedByteBuffer_Read_def Let_def split: if_splits)

text \<open>What a successful \<open>putKey\<close> leaves in the file.\<close>

lemma putKey_effect:
  assumes "if_inv f" and "IndexFile_putKey key phy t f = Some (True, f1)"
  shows "if_inv f1" and "if_slots f1 = if_slots f" and "indexCount (if_indexHeader f1) = indexCount (if_indexHeader f) + 1"
    and "if_hashSlotNum f1 = if_hashSlotNum f" and "if_indexNum f1 = if_indexNum f"
    and "\<exists>x y. if_entry f1 (indexCount (if_indexHeader f)) =
           Int32ToBytes (indexCount (if_indexHeader f)) @ Int64ToBytes phy @ Int32ToBytes x @ Int32ToBytes y"
proof -
  let ?h = "if_indexHeader f" and ?mbb = "mappedByteBuffer (if_mapedFile f)"
  let ?n = "indexCount ?h" and ?s = "if_hashSlotNum f" and ?N = "if_indexNum f"
  define p where "p = 40 + 4 * ?s + 20 * ?n"
  have inv: "0 < ?s" "0 \<le> ?N" "40 + 4 * ?s + 20 * ?N < 2 ^ 31" "int (length (MMapBuf ?mbb)) = 40 + 4 * ?s + 20 * ?N"
      "Limit ?mbb = 40 + 4 * ?s + 20 * ?N" "ih_inv (40 + 4 * ?s + 20 * ?N) ?h" "0 \<le> ?n"
    using assms(1) by (auto simp: if_inv_def ih_inv_def Let_def)
  have lt: "?n < ?N" using assms(2) by (auto simp: IndexFile_putKey_def Let_def split: if_splits)
  have p: "0 \<le> p" "p + 20 \<le> 40 + 4 * ?s + 20 * ?N" using inv lt by (simp_all add: p_def)
  have pos: "to_int32 (INDEX_HEADER_SIZE + ?s * HASH_SLOT_SIZE + ?n * INDEX_SIZE) = p"
    using p inv by (subst to_int32_id) (simp_all add: in_int_def p_def INDEX_HEADER_SIZE_def HASH_SLOT_SIZE_def INDEX_SIZE_def)
  from assms(2) lt inv(1) obtain v mbb1 mbb2 mbb3 h1 h2 h3 kh td sv where
      r: "MappedByteBuffer_ReadInt32 (?mbb\<lparr>ReadPos := to_int32 (INDEX_HEADER_SIZE + kh smod ?s * HASH_SLOT_SIZE)\<rparr>) = Some (v, mbb1)"
    and w: "write_all (mbb1\<lparr>WritePos := p\<rparr>) [Int32ToBytes kh, Int64ToBytes phy, Int32ToBytes td, Int32ToBytes sv] = Some mbb2"
      "write_all (mbb2\<lparr>WritePos := p\<rparr>) [Int32ToBytes ?n] = Some mbb3"
    and h: "h1 = (if ?n \<le> 1 then ?h\<lparr>beginPhyOffset := phy, beginTimestamp := t\<rparr> else ?h)"
      "IndexHeader_incHashSlotCount h1 = Some h2" "IndexHeader_incIndexCount h2 = Some h3"
    and f1: "f1 = f\<lparr>if_mapedFile := (if_mapedFile f)\<lparr>mappedByteBuffer := mbb3\<lparr>WritePos := WritePos mbb2\<rparr>\<rparr>,
        if_indexHeader := h3\<lparr>endPhyOffset := phy, endTimestamp := t\<rparr>\<rparr>"
    by (auto simp: IndexFile_putKey_def Let_def pos split: Option.bind_splits simp del: write_all.simps)
  let ?buf = "MMapBuf ?mbb" and ?E = "Int32ToBytes kh @ Int64ToBytes phy @ Int32ToBytes td @ Int32ToBytes sv"
  let ?P = "nat p" and ?I = "Int32ToBytes ?n"
  have lE: "length ?E = 20" "length ?I = 4" by (simp_all add: i32.length_enc i64.length_enc)
  have P: "?P + 20 \<le> length ?buf" using p inv(4) by linarith
  have m1: "MMapBuf mbb1 = ?buf" "Limit mbb1 = Limit ?mbb" using ReadInt32_frame [OF r] by simp_all
  have m2: "MMapBuf mbb2 = overwrite ?buf ?P ?E" "Limit mbb2 = Limit ?mbb"
    using w(1) write_all_at [of "mbb1\<lparr>WritePos := p\<rparr>" "[Int32ToBytes kh, Int64ToBytes phy, Int32ToBytes td, Int32ToBytes sv]"]
      p inv(4,5) m1 lE by (auto simp del: write_all.simps)
  have l2: "length (MMapBuf mbb2) = length ?buf" using m2(1) P lE(1) by (simp add: length_overwrite)
  have m3: "MMapBuf mbb3 = overwrite (overwrite ?buf ?P ?E) ?P ?I" "Limit mbb3 = Limit ?mbb"
    using w(2) write_all_at [of "mbb2\<lparr>WritePos := p\<rparr>" "[Int32ToBytes ?n]"]
      p inv(4,5) m2 l2 lE by (auto simp del: write_all.simps)
  have l3: "length (MMapBuf mbb3) = length ?buf" using m2(1) m3(1) l2 P lE(2) by (simp add: length_overwrite)
  have ih: "ih_inv (40 + 4 * ?s + 20 * ?N) h1" "indexCount h1 = ?n" using inv(6) h(1) by (auto simp: ih_inv_def)
  have h3: "ih_inv (40 + 4 * ?s + 20 * ?N) h3" "indexCount h3 = to_int32 (?n + 1)"
    using inc_counts [OF ih(1)] h(2,3) ih(2) by auto
  have n1: "to_int32 (?n + 1) = ?n + 1" using lt inv by (intro to_int32_id) (simp add: in_int_def)
  show "indexCount (if_indexHeader f1) = ?n + 1" "if_hashSlotNum f1 = ?s" "if_indexNum f1 = ?N"
    using h3(2) n1 by (simp_all add: f1)
  show "if_inv f1"
    using inv h3 n1 m3(2) l3 by (simp add: f1 if_inv_def ih_inv_def Let_def)
  have sl: "take (nat (4 * ?s)) (drop 40 b) = drop 40 (take (40 + nat (4 * ?s)) b)" for b :: "byte list"
    by (simp add: drop_take)
  have le: "40 + nat (4 * ?s) \<le> ?P" using inv(1,7) by (simp add: p_def)
  have "take (40 + nat (4 * ?s)) (MMapBuf mbb3) = take (40 + nat (4 * ?s)) ?buf"
    using m3(1) P lE le l2 m2(1) by (simp add: take_overwrite_before del: append_assoc)
  then show "if_slots f1 = if_slots f" by (simp add: if_slots_def f1 sl)
  have "take 20 (drop ?P (MMapBuf mbb3)) = ?I @ drop 4 ?E"
  proof -
    define X where "X = overwrite ?buf ?P ?E"
    have "drop ?P (MMapBuf mbb3) = ?I @ drop (?P + 4) X"
      using drop_overwrite_at [of ?P X ?I] m3(1) l2 m2(1) P lE(2) by (simp add: X_def)
    moreover have "drop (?P + 4) X = drop 4 (drop ?P X)" by (simp add: add.commute)
    moreover have "drop ?P X = ?E @ drop (?P + 20) ?buf"
      using drop_overwrite_at [of ?P ?buf ?E] P lE(1) by (simp add: X_def)
    ultimately have "drop ?P (MMapBuf mbb3) = ?I @ drop 4 (?E @ drop (?P + 20) ?buf)" by simp
    then show ?thesis using lE by (simp add: i32.length_enc i64.length_enc)
  qed
  then show "\<exists>x y. if_entry f1 ?n = ?I @ Int64ToBytes phy @ Int32ToBytes x @ Int32ToBytes y"
    by (auto simp: if_entry_def f1 p_def i32.length_enc)
qed

text \<open>A file with room takes every key whose hash has a positive form.\<close>

lemma putKey_total:
  assumes "if_inv f" and "indexCount (if_indexHeader f) < if_indexNum f" and "0 \<le> IndexFile_indexKeyHashMethod key"
  shows "\<exists>f1. IndexFile_putKey key phy t f = Some (True, f1)"
proof -
  let ?h = "if_indexHeader f" and ?mbb = "mappedByteBuffer (if_mapedFile f)"
  let ?n = "indexCount ?h" and ?s = "if_hashSlotNum f" and ?N = "if_indexNum f" and ?k = "IndexFile_indexKeyHashMethod key"
  have inv: "0 < ?s" "0 \<le> ?N" "40 + 4 * ?s + 20 * ?N < 2 ^ 31" "int (length (MMapBuf ?mbb)) = 40 + 4 * ?s + 20 * ?N"
      "Limit ?mbb = 40 + 4 * ?s + 20 * ?N" "ih_inv (40 + 4 * ?s + 20 * ?N) ?h" "0 \<le> ?n"
    using assms(1) by (auto simp: if_inv_def ih_inv_def Let_def)
  define j where "j = ?k mod ?s"
  have slot: "?k smod ?s = j" "0 \<le> j" "j < ?s" using inv(1) assms(3) by (simp_all add: j_def smod_nonneg)
  have abs: "to_int32 (INDEX_HEADER_SIZE + ?k smod ?s * HASH_SLOT_SIZE) = 40 + 4 * j"
    using slot inv by (subst to_int32_id) (simp_all add: in_int_def INDEX_HEADER_SIZE_def HASH_SLOT_SIZE_def)
  obtain v mbb1 where r: "MappedByteBuffer_ReadInt32 (?mbb\<lparr>ReadPos := 40 + 4 * j\<rparr>) = Some (v, mbb1)"
    using slot inv by (auto simp: MappedByteBuffer_ReadInt32_def MappedByteBuffer_Read_def Let_def)
  have m1: "MMapBuf mbb1 = MMapBuf ?mbb" "Limit mbb1 = Limit ?mbb" using ReadInt32_frame [OF r] by simp_all
  define p where "p = 40 + 4 * ?s + 20 * ?n"
  have p: "0 \<le> p" "p + 20 \<le> 40 + 4 * ?s + 20 * ?N" using inv assms(2) by (simp_all add: p_def)
  have pos: "to_int32 (INDEX_HEADER_SIZE + ?s * HASH_SLOT_SIZE + ?n * INDEX_SIZE) = p"
    using p inv by (subst to_int32_id) (simp_all add: in_int_def p_def INDEX_HEADER_SIZE_def HASH_SLOT_SIZE_def INDEX_SIZE_def)
  let ?d = "[Int32ToBytes ?k, Int64ToBytes phy, Int32ToBytes (to_int32 (time_diff t (beginTimestamp ?h))), Int32ToBytes (slot_value v ?n)]"
  obtain mbb2 where w2: "write_all (mbb1\<lparr>WritePos := p\<rparr>) ?d = Some mbb2" and l2: "length (MMapBuf mbb2) = length (MMapBuf ?mbb)"
      "Limit mbb2 = Limit ?mbb"
    using write_all_at [of "mbb1\<lparr>WritePos := p\<rparr>" ?d] m1 p inv(4,5)
    by (auto simp: i32.length_enc i64.length_enc length_overwrite simp del: write_all.simps)
  obtain mbb3 where w3: "write_all (mbb2\<lparr>WritePos := p\<rparr>) [Int32ToBytes ?n] = Some mbb3"
    using write_all_at [of "mbb2\<lparr>WritePos := p\<rparr>" "[Int32ToBytes ?n]"] l2 p inv(4,5)
    by (auto simp: i32.length_enc simp del: write_all.simps)
  let ?h1 = "if ?n \<le> 1 then ?h\<lparr>beginPhyOffset := phy, beginTimestamp := t\<rparr> else ?h"
  have "ih_inv (40 + 4 * ?s + 20 * ?N) ?h1" using inv(6) by (simp add: ih_inv_def)
  then obtain h2 h3 where h: "IndexHeader_incHashSlotCount ?h1 = Some h2" "IndexHeader_incIndexCount h2 = Some h3"
    using inc_counts by blast
  show ?thesis
    using assms(2) inv(1) r w2 w3 h
    by (simp add: IndexFile_putKey_def Let_def abs pos del: write_all.simps split del: if_split)
qed

text \<open>Files reached from a given one by storing keys.\<close>

inductive index_reach :: "IndexFile \<Rightarrow> IndexFile \<Rightarrow> bool" for f0 where
  start: "index_reach f0 f0"
| put: "index_reach f0 f \<Longrightarrow> IndexFile_putKey key phy t f = Some (True, f1) \<Longrightarrow> index_reach f0 f1"

lemma index_reach_slots:
  "index_reach f0 f \<Longrightarrow> if_inv f0 \<Longrightarrow> if_inv f \<and> if_slots f = if_slots f0"
  by (induction rule: index_reach.induct) (auto dest: putKey_effect)

section \<open>Properties\<close>

text \<open>
  Storing a key in a well-formed file that takes it fills the next entry
  with the offset of the message. The first field of the entry, meant for the hash of the key, holds the
  number of the entry.
\<close>

lemma putKey_writes_entry:
  assumes "if_inv f" and "indexCount (if_indexHeader f) < if_indexNum f" and "0 \<le> IndexFile_indexKeyHashMethod key"
  shows "\<exists>f1. IndexFile_putKey key phy t f = Some (True, f1) \<and> if_inv f1 \<and>
     indexCount (if_indexHeader f1) = indexCount (if_indexHeader f) + 1 \<and>
     (\<exists>x y. if_entry f1 (indexCount (if_indexHeader f)) =
        Int32ToBytes (indexCount (if_indexHeader f)) @ Int64ToBytes phy @ Int32ToBytes x @ Int32ToBytes y)"
proof -
  obtain f1 where "IndexFile_putKey key phy t f = Some (True, f1)" using putKey_total [OF assms] by blast
  with putKey_effect [OF assms(1) this] show ?thesis by blast
qed

text \<open>
  The hash table stays empty. However many keys are stored, the hash slots of an index file keep
  the value they had when the file was created: no entry can be found through its slot.
\<close>

lemma slots_never_written:
  assumes "if_inv f0" and "index_reach f0 f"
  shows "if_slots f = if_slots f0"
  using index_reach_slots assms by blast


text \<open>
  The header is read from a buffer of zeros, not from the file, so
  loading an existing index file always gives a header with one entry and no offset.
\<close>

lemma load_forgets_header:
  assumes "NewIndexFile os name slots num 0 0 = Some (f, os1)" and "0 \<le> slots" and "0 \<le> num"
    and "40 + 4 * slots + 20 * num < 2 ^ 31"
  shows "\<exists>f1. IndexFile_load f = Some f1 \<and> indexCount (if_indexHeader f1) = 1 \<and> endPhyOffset (if_indexHeader f1) = 0 \<and>
     if_mapedFile f1 = if_mapedFile f"
proof -
  have tot: "if_total slots num = 40 + 4 * slots + 20 * num"
    using assms(2-4) by (simp add: if_total_def to_int32_id in_int_def INDEX_HEADER_SIZE_def HASH_SLOT_SIZE_def INDEX_SIZE_def)
  obtain mf where mf: "NewMapedFile os name (if_total slots num) = (Inr mf, os1)"
      "if_indexHeader f = NewIndexHeader (NewMappedByteBuffer (replicate (nat (fileSize mf)) 0) (fileSize mf))"
    using assms(1) by (auto simp: NewIndexFile_def Let_def split: prod.splits sum.splits if_splits)
  have fs: "fileSize mf = 40 + 4 * slots + 20 * num"
    using mf(1) tot by (auto simp: NewMapedFile_def Let_def split: sum.splits if_splits)
  then obtain k where k: "nat (fileSize mf) = 40 + k" using assms(2,3) nat_le_iff_add [of 40 "nat (fileSize mf)"] by fastforce
  have z: "BytesToInt64 (replicate 8 0) = 0" "BytesToInt32 (replicate 4 0) = 0" by code_simp+
  have cur: "at_cursor (NewMappedByteBuffer (replicate (40 + k) 0) x) (replicate 8 0 @ replicate 8 0 @ replicate 8 0 @ replicate 8 0 @
      replicate 4 0 @ replicate 4 0 @ replicate k (0 :: byte))" for x
    by (simp add: at_cursor_def NewMappedByteBuffer_def flip: replicate_add)
  note c1 = at_cursor_adv [OF cur] note c2 = at_cursor_adv [OF c1] note c3 = at_cursor_adv [OF c2]
  note c4 = at_cursor_adv [OF c3] note c5 = at_cursor_adv [OF c4]
  note rd = Read_adv [OF cur] Read_adv [OF c1] Read_adv [OF c2] Read_adv [OF c3] Read_adv [OF c4] Read_adv [OF c5]
  have r0: "(NewMappedByteBuffer bs x)\<lparr>ReadPos := 0\<rparr> = NewMappedByteBuffer bs x" for bs x by (simp add: NewMappedByteBuffer_def)
  have one: "to_int32 1 = 1" by (simp add: to_int32_id in_int_def)
  have "\<exists>h. IndexHeader_load (if_indexHeader f) = Some h \<and> indexCount h = 1 \<and> endPhyOffset h = 0"
    using rd z one by (simp add: mf(2) k NewIndexHeader_def IndexHeader_load_def r0
        MappedByteBuffer_ReadInt64_def MappedByteBuffer_ReadInt32_def)
  then show ?thesis by (auto simp: IndexFile_load_def)
qed


section \<open>What building the index leaves alone\<close>

text \<open>
  \<open>os_in dir os os1\<close>: between the two states only entries of the directory and the directory itself have
  changed. The index service writes only to its own directory, when the names it gives its files are plain.
\<close>

definition plain_name :: "string \<Rightarrow> bool" where
  "plain_name n \<longleftrightarrow> CHR ''/'' \<notin> set n"

definition os_in :: "string \<Rightarrow> OS \<Rightarrow> OS \<Rightarrow> bool" where
  "os_in dir os os1 \<longleftrightarrow> os_fails os1 = os_fails os \<and>
     (\<forall>p. (\<forall>n. plain_name n \<longrightarrow> p \<noteq> dir @ ''/'' @ n) \<longrightarrow> os_files os1 p = os_files os p) \<and>
     (\<forall>p. p \<noteq> dir \<longrightarrow> os_dirs os1 p = os_dirs os p)"

lemma os_in_refl [simp]: "os_in dir os os"
  by (simp add: os_in_def)

lemma os_in_trans: "os_in dir os os1 \<Longrightarrow> os_in dir os1 os2 \<Longrightarrow> os_in dir os os2"
  by (simp add: os_in_def)

lemma parent_of_plain: "plain_name n \<Longrightarrow> GetParentDirectory (dir @ ''/'' @ n) = dir"
proof -
  assume "plain_name n"
  then have "dropWhile (\<lambda>c. c \<noteq> CHR ''/'') (rev n @ CHR ''/'' # rev dir) = dropWhile (\<lambda>c. c \<noteq> CHR ''/'') (CHR ''/'' # rev dir)"
    by (intro dropWhile_append2) (auto simp: plain_name_def)
  then show ?thesis by (simp add: GetParentDirectory_def)
qed

lemma NewMapedFile_in:
  assumes "plain_name n" and "NewMapedFile os (dir @ ''/'' @ n) sz = (r, os1)"
  shows "os_in dir os os1"
  using assms unfolding NewMapedFile_def Let_def os_in_def parent_of_plain [OF assms(1)]
  by (auto split: sum.splits if_splits) (auto simp: ensureDirOK_def split: sum.splits if_splits bool.splits)

lemma NewIndexFile_in: "plain_name n \<Longrightarrow> NewIndexFile os (dir @ ''/'' @ n) s k p t = Some (f, os1) \<Longrightarrow> os_in dir os os1"
  by (auto simp: NewIndexFile_def Let_def split: prod.splits sum.splits if_splits Option.bind_splits dest: NewMapedFile_in)

definition index_keeps :: "OS \<Rightarrow> IndexService \<Rightarrow> OS \<Rightarrow> IndexService \<Rightarrow> bool" where
  "index_keeps os self os1 self1 \<longleftrightarrow> os_in (is_storePath self) os os1 \<and> is_storePath self1 = is_storePath self \<and>
     is_requestQueue self1 = is_requestQueue self"

lemma index_keeps_refl [simp]: "index_keeps os self os self"
  by (simp add: index_keeps_def)

lemma index_keeps_trans: "index_keeps os s os1 s1 \<Longrightarrow> index_keeps os1 s1 os2 s2 \<Longrightarrow> index_keeps os s os2 s2"
  by (auto simp: index_keeps_def intro: os_in_trans)

lemma getAndCreate_keeps:
  "plain_name n \<Longrightarrow> IndexService_getAndCreateLastIndexFile os n self = Some (r, self1, os1) \<Longrightarrow> index_keeps os self os1 self1"
  by (auto simp: IndexService_getAndCreateLastIndexFile_def Let_def index_keeps_def split: if_splits Option.bind_splits prod.splits
      dest: NewIndexFile_in)

lemma get_retry_keeps:
  "\<forall>k. plain_name (names k) \<Longrightarrow> get_retry n names os self = Some (r, self1, os1) \<Longrightarrow> index_keeps os self os1 self1"
proof (induction n arbitrary: names os self)
  case (Suc n)
  obtain r0 s0 o0 where g: "IndexService_getAndCreateLastIndexFile os (names 0) self = Some (r0, s0, o0)"
    using Suc.prems(2) by (auto split: Option.bind_splits)
  have k: "index_keeps os self o0 s0" using getAndCreate_keeps [OF _ g] Suc.prems(1) by blast
  show ?case
  proof (cases r0)
    case None
    then have "get_retry n (\<lambda>k. names (Suc k)) o0 s0 = Some (r, self1, os1)" using Suc.prems(2) g by simp
    then show ?thesis using Suc.IH [of "\<lambda>k. names (Suc k)"] Suc.prems(1) k by (blast intro: index_keeps_trans)
  next
    case (Some i)
    then show ?thesis using Suc.prems(2) g k by simp
  qed
qed simp

lemma retry_keeps:
  "\<forall>k. plain_name (names k) \<Longrightarrow> IndexService_retryGetAndCreateIndexFile names os flags self = Some (r, flags1, self1, os1) \<Longrightarrow>
     index_keeps os self os1 self1"
  by (auto simp: IndexService_retryGetAndCreateIndexFile_def dest: get_retry_keeps)

lemma refill_loop_keeps:
  assumes "refill_loop names os flags self = Some y"
  shows "(\<forall>k. plain_name (names k)) \<longrightarrow> (\<forall>flags1 self1 os1. y = Some (flags1, self1, os1) \<longrightarrow> index_keeps os self os1 self1)"
proof (rule refill_loop.raw_induct [where P = "\<lambda>names os flags self y.
    (\<forall>k. plain_name (names k)) \<longrightarrow> (\<forall>flags1 self1 os1. y = Some (flags1, self1, os1) \<longrightarrow> index_keeps os self os1 self1)", OF _ assms], safe)
  fix f names os flags and self :: IndexService and flags1 self1 os1
  assume ih: "\<And>names os flags self y. f names os flags self = Some y \<Longrightarrow>
      (\<forall>k. plain_name (names k)) \<longrightarrow> (\<forall>flags1 self1 os1. y = Some (flags1, self1, os1) \<longrightarrow> index_keeps os self os1 self1)"
    and s: "(case IndexService_retryGetAndCreateIndexFile names os flags self of
        None \<Rightarrow> Some None
      | Some (r, flags1, self1, os1) \<Rightarrow>
          (case r of None \<Rightarrow> Some (Some (flags1, self1, os1))
           | Some i \<Rightarrow> f (\<lambda>k. names (k + 3)) os1 flags1 self1)) = Some (Some (flags1, self1, os1))"
    and p: "\<forall>k. plain_name (names k)"
  obtain r fl s0 o0 where g: "IndexService_retryGetAndCreateIndexFile names os flags self = Some (r, fl, s0, o0)"
    using s by (cases "IndexService_retryGetAndCreateIndexFile names os flags self") auto
  note k = retry_keeps [OF p g]
  show "index_keeps os self os1 self1"
  proof (cases r)
    case None
    then show ?thesis using s g k by simp
  next
    case (Some i)
    then have "f (\<lambda>k. names (k + 3)) o0 fl s0 = Some (Some (flags1, self1, os1))" using s g by simp
    from ih [OF this] p have "index_keeps o0 s0 os1 self1" by blast
    with k show ?thesis by (rule index_keeps_trans)
  qed
qed

lemma put_keys_keeps:
  "\<forall>k. plain_name (names k) \<Longrightarrow> put_keys names os flags i msg keys self = Some (Some (flags1, self1, os1)) \<Longrightarrow> index_keeps os self os1 self1"
proof (induction keys arbitrary: self)
  case (Cons key keys)
  have l: "index_keeps os (self\<lparr>indexFileList := x\<rparr>) o1 s1 = index_keeps os self o1 s1" for x o1 s1
    by (simp add: index_keeps_def)
  show ?case
    using Cons.prems Cons.IH [OF Cons.prems(1)]
    by (auto simp: Let_def l split: if_splits option.splits dest!: refill_loop_keeps) (metis l)+
qed simp

lemma buildIndex_keeps:
  assumes "\<forall>k. plain_name (names k)" and "IndexService_buildIndex names os flags msg self = Some (Some (flags1, self1, os1))"
  shows "index_keeps os self os1 self1"
proof -
  obtain r fl s0 o0 where g: "IndexService_retryGetAndCreateIndexFile names os flags self = Some (r, fl, s0, o0)"
    using assms(2) by (auto simp: IndexService_buildIndex_def split: option.splits)
  note k = retry_keeps [OF assms(1) g]
  show ?thesis
    using assms g k put_keys_keeps [of "\<lambda>k. names (k + 3)"]
    by (auto simp: IndexService_buildIndex_def split: option.splits if_splits intro: index_keeps_trans)
qed

lemma mfq_ahead_in:
  assumes "mfq_ahead os q" and "os_in dir os os1" and "\<forall>x n. plain_name n \<longrightarrow> mfq_path (mfq_storePath q) x \<noteq> dir @ ''/'' @ n"
    and "\<forall>x. mfq_path (mfq_storePath q) x \<noteq> dir"
  shows "mfq_ahead os1 q"
  using assms by (auto simp: mfq_ahead_def os_in_def os_free_def)

text \<open>
  The retry loop of \<open>buildIndex\<close> never returns once the last file has room: it always gets this file.
\<close>

lemma retry_last:
  assumes "indexFileList self \<noteq> []" and "\<not> IndexFile_isWriteFull (last (indexFileList self))"
  shows "IndexService_retryGetAndCreateIndexFile names os flags self =
     Some (Some (length (indexFileList self) - 1), flags, self, os)"
  using assms
  by (simp add: IndexService_retryGetAndCreateIndexFile_def numeral_3_eq_3 IndexService_getAndCreateLastIndexFile_def Let_def)

lemma refill_loop_returns:
  assumes "refill_loop names os flags self = Some y"
  shows "\<not> (indexFileList self \<noteq> [] \<and> \<not> IndexFile_isWriteFull (last (indexFileList self)))"
proof (rule refill_loop.raw_induct [where P = "\<lambda>names os flags self y.
    \<not> (indexFileList self \<noteq> [] \<and> \<not> IndexFile_isWriteFull (last (indexFileList self)))", OF _ assms])
  fix f names os flags y and self :: IndexService
  assume ih: "\<And>names os flags self y. f names os flags self = Some y \<Longrightarrow>
      \<not> (indexFileList self \<noteq> [] \<and> \<not> IndexFile_isWriteFull (last (indexFileList self)))"
    and s: "(case IndexService_retryGetAndCreateIndexFile names os flags self of
        None \<Rightarrow> Some None
      | Some (r, flags1, self1, os1) \<Rightarrow>
          (case r of None \<Rightarrow> Some (Some (flags1, self1, os1))
           | Some i \<Rightarrow> f (\<lambda>k. names (k + 3)) os1 flags1 self1)) = Some y"
  show "\<not> (indexFileList self \<noteq> [] \<and> \<not> IndexFile_isWriteFull (last (indexFileList self)))"
  proof
    assume a: "indexFileList self \<noteq> [] \<and> \<not> IndexFile_isWriteFull (last (indexFileList self))"
    then have "f (\<lambda>k. names (k + 3)) os flags self = Some y" using s by (simp add: retry_last)
    from ih [OF this] a show False by simp
  qed
qed

lemma refill_loop_stuck:
  "indexFileList self \<noteq> [] \<Longrightarrow> \<not> IndexFile_isWriteFull (last (indexFileList self)) \<Longrightarrow>
     refill_loop names os flags self = None"
  using refill_loop_returns [of names os flags self] by (cases "refill_loop names os flags self") blast+

text \<open>A full last file makes the first attempt create a file and the second one return it.\<close>

lemma retry_creates:
  assumes "indexFileList self \<noteq> []" and "IndexFile_isWriteFull (last (indexFileList self))"
    and "NewIndexFile os (is_storePath self @ ''/'' @ names 0) (is_hashSlotNum self) (is_indexNum self)
        (IndexFile_getEndPhyOffset (last (indexFileList self))) (IndexFile_getEndTimestamp (last (indexFileList self))) = Some (f, os1)"
    and "\<not> IndexFile_isWriteFull f"
  shows "IndexService_retryGetAndCreateIndexFile names os flags self =
     Some (Some (length (indexFileList self)), flags,
       self\<lparr>indexFileList := indexFileList self @ [f], flushing := flushing self @ [Some (length (indexFileList self) - 1)]\<rparr>, os1)"
  using assms
  by (simp add: IndexService_retryGetAndCreateIndexFile_def numeral_3_eq_3 IndexService_getAndCreateLastIndexFile_def Let_def)

lemma new_file_not_full:
  assumes "NewIndexFile os name slots num p t = Some (f, os1)" and "0 < num"
  shows "\<not> IndexFile_isWriteFull f"
  using assms
  by (auto simp: NewIndexFile_def IndexFile_isWriteFull_def Let_def NewIndexHeader_def IndexHeader_setBeginPhyOffset_def
      IndexHeader_setEndPhyOffset_def IndexHeader_setBeginTimestamp_def IndexHeader_setEndTimestamp_def
      split: prod.splits sum.splits if_splits Option.bind_splits)

lemma refill_after_full:
  assumes "indexFileList self \<noteq> []" and "IndexFile_isWriteFull (last (indexFileList self))" and "0 < is_indexNum self"
    and "NewIndexFile os (is_storePath self @ ''/'' @ names 0) (is_hashSlotNum self) (is_indexNum self)
        (IndexFile_getEndPhyOffset (last (indexFileList self))) (IndexFile_getEndTimestamp (last (indexFileList self))) = Some (f, os1)"
  shows "refill_loop names os flags self = None"
  by (subst refill_loop.simps)
     (simp add: retry_creates [of self os names f os1, OF assms(1,2,4) new_file_not_full [OF assms(4,3)]] refill_loop_stuck
        new_file_not_full [OF assms(4,3)])

text \<open>
  C32 (building an index can hang). When a message with two keys reaches an index file that has room for
  one more entry, the second key finds the file full and the service loops for ever, although the next
  file is created without error.
\<close>

theorem buildIndex_hangs:
  assumes "indexFileList self = fs @ [f]" and "\<not> IndexFile_isWriteFull f"
    and "strings_Split CHR '' '' (dr_keys msg) = [k1, k2]" and "k1 \<noteq> []" and "k2 \<noteq> []"
    and "GetTransactionValue (dr_sysFlag msg) = TransactionNotType" and "IndexFile_getEndPhyOffset f \<le> dr_commitLogOffset msg"
    and "IndexFile_putKey (IndexService_buildKey (dr_topic msg) k1) (dr_commitLogOffset msg) (dr_storeTimestamp msg) f = Some (True, f1)"
    and "IndexFile_isWriteFull f1" and "0 < is_indexNum self"
    and "NewIndexFile os (is_storePath self @ ''/'' @ names 3) (is_hashSlotNum self) (is_indexNum self)
        (IndexFile_getEndPhyOffset f1) (IndexFile_getEndTimestamp f1) = Some (g, os1)"
  shows "IndexService_buildIndex names os flags msg self = None"
proof -
  let ?self1 = "self\<lparr>indexFileList := fs @ [f1]\<rparr>"
  have keys: "dr_keys msg \<noteq> []" using assms(3) by auto
  have full: "IndexFile_putKey key p t f1 = Some (False, f1)" for key p t
    using assms(9) by (simp add: IndexFile_putKey_def IndexFile_isWriteFull_def Let_def)
  have "refill_loop (\<lambda>k. names (k + 3)) os flags ?self1 = None"
    using assms(9-11) by (intro refill_after_full) simp_all
  moreover have "IndexService_retryGetAndCreateIndexFile names os flags self = Some (Some (length fs), flags, self, os)"
    using retry_last [of self] assms(1,2) by simp
  ultimately show ?thesis
    using assms(1,3-8) keys full
    by (simp add: IndexService_buildIndex_def TransactionNotType_def TransactionPreparedType_def
        TransactionRollbackType_def Let_def)
qed

definition example_index :: IndexFile where
  "example_index = \<lparr>if_hashSlotNum = 2, if_indexNum = 2, if_mapedFile = fresh_file ''s/index'' 1 88,
     if_indexHeader = (NewIndexHeader (NewMappedByteBuffer (replicate 88 0) 88))\<lparr>indexCount := 1\<rparr>\<rparr>"

lemma example_index_inv:
  "if_inv example_index" "indexCount (if_indexHeader example_index) = 1" "if_indexNum example_index = 2"
  "\<not> IndexFile_isWriteFull example_index" "IndexFile_getEndPhyOffset example_index = 0"
  by (simp_all add: if_inv_def example_index_def fresh_file_def NewMappedByteBuffer_def NewIndexHeader_def Let_def
      IndexFile_isWriteFull_def IndexFile_getEndPhyOffset_def)

lemma example_hash: "0 \<le> IndexFile_indexKeyHashMethod ''T#a''"
  by code_simp

lemma putKey_writes_entry_witness:
  "\<exists>f1 x y. IndexFile_putKey ''T#a'' 70 1000 example_index = Some (True, f1) \<and>
     if_entry f1 1 = Int32ToBytes 1 @ Int64ToBytes 70 @ Int32ToBytes x @ Int32ToBytes y"
  using putKey_writes_entry [OF example_index_inv(1) _ example_hash, of 70 1000] example_index_inv(2,3) by auto

lemma slots_never_written_witness:
  "\<exists>f. index_reach example_index f \<and> f \<noteq> example_index \<and> if_slots f = replicate 8 0"
proof -
  obtain f where f: "IndexFile_putKey ''T#a'' 70 1000 example_index = Some (True, f)"
    using putKey_total [OF example_index_inv(1) _ example_hash] example_index_inv(2,3) by auto
  then have r: "index_reach example_index f" using index_reach.intros by blast
  moreover have "if_slots example_index = replicate 8 0"
    by (simp add: if_slots_def example_index_def fresh_file_def NewMappedByteBuffer_def)
  moreover have "f \<noteq> example_index" using putKey_effect(3) [OF example_index_inv(1) f] by auto
  ultimately show ?thesis using slots_never_written [OF example_index_inv(1) r] by auto
qed

lemma example_new_index:
  "\<exists>f os1. NewIndexFile example_os (''s/index'' @ ''/'' @ Offset2FileName 3) 2 2 p t = Some (f, os1)"
proof -
  have x: "in_int 64 3" "os_free example_os (mfq_path ''s/index'' 3)" by (simp_all add: in_int_def os_free_def example_os_def)
  obtain os1 where n: "NewMapedFile example_os (''s/index'' @ ''/'' @ Offset2FileName 3) 88 = (Inr (fresh_file ''s/index'' 3 88), os1)"
    using NewMapedFile_fresh [OF _ x(1) _ x(2), of 88] by (auto simp: mfq_path_def)
  define path where "path = ''s/index'' @ ''/'' @ Offset2FileName 3"
  note n = n [folded path_def]
  have tot: "if_total 2 2 = 88" by (simp add: if_total_def to_int32_id in_int_def INDEX_HEADER_SIZE_def HASH_SLOT_SIZE_def INDEX_SIZE_def)
  show ?thesis
    unfolding path_def [symmetric]
    by (simp add: NewIndexFile_def n tot Let_def fresh_file_def IndexHeader_setBeginPhyOffset_def IndexHeader_setEndPhyOffset_def
        IndexHeader_setBeginTimestamp_def IndexHeader_setEndTimestamp_def NewIndexHeader_def NewMappedByteBuffer_def
        MappedByteBuffer_WriteInt64_def MappedByteBuffer_Write_def i64.length_enc i64.enc_not_Nil)
qed

lemma load_forgets_header_witness:
  "\<exists>f os1 f1. NewIndexFile example_os (''s/index'' @ ''/'' @ Offset2FileName 3) 2 2 0 0 = Some (f, os1) \<and>
     IndexFile_load f = Some f1 \<and> indexCount (if_indexHeader f1) = 1"
proof -
  obtain f os1 where "NewIndexFile example_os (''s/index'' @ ''/'' @ Offset2FileName 3) 2 2 0 0 = Some (f, os1)"
    using example_new_index by blast
  with load_forgets_header [OF this] show ?thesis by auto
qed

definition example_index_service :: IndexService where
  "example_index_service = (NewIndexService example_config)\<lparr>is_indexNum := 2, indexFileList := [example_index]\<rparr>"

definition example_request :: DispatchRequest where
  "example_request = (dr_size 100)\<lparr>dr_topic := ''T'', dr_keys := ''a b'', dr_commitLogOffset := 70, dr_storeTimestamp := 1000\<rparr>"

theorem buildIndex_hangs_witness:
  "IndexService_buildIndex (\<lambda>_. Offset2FileName 3) example_os 0 example_request example_index_service = None"
proof -
  obtain f1 where f1: "IndexFile_putKey ''T#a'' 70 1000 example_index = Some (True, f1)"
    using putKey_total [OF example_index_inv(1) _ example_hash] example_index_inv(2,3) by auto
  note e = putKey_effect [OF example_index_inv(1) f1]
  have full: "IndexFile_isWriteFull f1" using e(3,5) example_index_inv(2,3) by (simp add: IndexFile_isWriteFull_def)
  have fs: "indexFileList example_index_service = [] @ [example_index]" "is_hashSlotNum example_index_service = 2"
      "is_indexNum example_index_service = 2" "is_storePath example_index_service = ''s/index''"
    by (simp_all add: example_index_service_def NewIndexService_def GetStorePathIndex_def)
  have k: "strings_Split CHR '' '' (dr_keys example_request) = [''a'', ''b'']"
    "GetTransactionValue (dr_sysFlag example_request) = TransactionNotType"
    by (simp_all add: example_request_def dr_size_def GetTransactionValue_def TransactionNotType_def)
  obtain g os1 where "NewIndexFile example_os (''s/index'' @ ''/'' @ Offset2FileName 3) 2 2
      (IndexFile_getEndPhyOffset f1) (IndexFile_getEndTimestamp f1) = Some (g, os1)"
    using example_new_index by blast
  then show ?thesis
    using buildIndex_hangs [OF fs(1) example_index_inv(4) k(1) _ _ k(2) _ _ full, of example_os "\<lambda>_. Offset2FileName 3" g os1 0] fs(2-4) f1
      example_index_inv(5)
    by (simp add: example_request_def IndexService_buildKey_def)
qed

end
