(* ===== verification/MessageStoreM.thy ===== *)
theory MessageStoreM
  imports ConsumeQueueM IndexM "HOL-Library.AList"
begin

text \<open>
  \<open>stgstorelog/default_message_store.go\<close> with the dispatcher, the message filter, the result types and
  the cleaning of consume queues: the store as the broker uses it.

  A Go map is an association list, visited in the order of the list. A goroutine that works on a
  channel is a step on the list of waiting requests; a send on a full channel waits, and an operation
  that waits for room has the value \<open>None\<close>: it does not complete in this state. Log output, statistics and
  the replication services are not modelled. A panic is \<open>None\<close>, too. A region that is selected and released within a call
  leaves the reference count of its file as it was.
\<close>

section \<open>Filter and results\<close>

text \<open>
  \<open>heartbeat.SubscriptionData\<close>; the sets are values of the package \<open>golang-set\<close>, whose \<open>Contains\<close> is an
  argument of the operations that use it.
\<close>

record 's SubscriptionData =
  SUB_ALL :: string
  ClassFilterMode :: bool
  sd_Topic :: string
  SubString :: string
  TagsSet :: 's
  CodeSet :: 's
  SubVersion :: int

definition SUBSCRIPTION_ALL :: string where
  "SUBSCRIPTION_ALL = ''*''"

definition DefaultMessageFilter_IsMessageMatched ::
    "('s \<Rightarrow> int \<Rightarrow> bool) \<Rightarrow> 's SubscriptionData option \<Rightarrow> int \<Rightarrow> bool" where
  "DefaultMessageFilter_IsMessageMatched Contains subscriptionData tagsCode =
     (case subscriptionData of
        None \<Rightarrow> True
      | Some sd \<Rightarrow>
          if ClassFilterMode sd then True
          else if SubString sd = SUBSCRIPTION_ALL then True
          else Contains (CodeSet sd) tagsCode)"

datatype GetMessageStatus =
    FOUND | NO_MATCHED_MESSAGE | MESSAGE_WAS_REMOVING | OFFSET_FOUND_NULL | OFFSET_OVERFLOW_BADLY
  | OFFSET_OVERFLOW_ONE | OFFSET_TOO_SMALL | NO_MATCHED_LOGIC_QUEUE | NO_MESSAGE_IN_QUEUE

definition GetMessageStatus_String :: "GetMessageStatus \<Rightarrow> string" where
  "GetMessageStatus_String self =
     (case self of
        FOUND \<Rightarrow> ''FOUND'' | NO_MATCHED_MESSAGE \<Rightarrow> ''NO_MATCHED_MESSAGE''
      | MESSAGE_WAS_REMOVING \<Rightarrow> ''MESSAGE_WAS_REMOVING'' | OFFSET_FOUND_NULL \<Rightarrow> ''OFFSET_FOUND_NULL''
      | OFFSET_OVERFLOW_BADLY \<Rightarrow> ''OFFSET_OVERFLOW_BADLY'' | OFFSET_OVERFLOW_ONE \<Rightarrow> ''OFFSET_OVERFLOW_ONE''
      | OFFSET_TOO_SMALL \<Rightarrow> ''OFFSET_TOO_SMALL'' | NO_MATCHED_LOGIC_QUEUE \<Rightarrow> ''NO_MATCHED_LOGIC_QUEUE''
      | NO_MESSAGE_IN_QUEUE \<Rightarrow> ''NO_MESSAGE_IN_QUEUE'')"

record GetMessageResult =
  MessageMapedList :: "SelectMapedBufferResult list"
  MessageBufferList :: "MappedByteBuffer list"
  gmr_Status :: GetMessageStatus
  NextBeginOffset :: int
  gmr_MinOffset :: int
  gmr_MaxOffset :: int
  BufferTotalSize :: int
  SuggestPullingFromSlave :: bool

definition new_GetMessageResult :: GetMessageResult where
  "new_GetMessageResult = \<lparr>MessageMapedList = [], MessageBufferList = [], gmr_Status = FOUND, NextBeginOffset = 0,
     gmr_MinOffset = 0, gmr_MaxOffset = 0, BufferTotalSize = 0, SuggestPullingFromSlave = False\<rparr>"

definition GetMessageResult_GetMessageCount :: "GetMessageResult \<Rightarrow> int" where
  "GetMessageResult_GetMessageCount self = int (length (MessageMapedList self))"

definition GetMessageResult_addMessage :: "SelectMapedBufferResult \<Rightarrow> GetMessageResult \<Rightarrow> GetMessageResult" where
  "GetMessageResult_addMessage mapedBuffer self =
     self\<lparr>MessageMapedList := MessageMapedList self @ [mapedBuffer],
          MessageBufferList := MessageBufferList self @ [smr_MappedByteBuffer mapedBuffer],
          BufferTotalSize := BufferTotalSize self + Size mapedBuffer\<rparr>"

record QueryMessageResult =
  qmr_MessageMapedList :: "SelectMapedBufferResult list"
  qmr_MessageBufferList :: "MappedByteBuffer list"
  IndexLastUpdateTimestamp :: int
  IndexLastUpdatePhyoffset :: int
  qmr_BufferTotalSize :: int

definition NewQueryMessageResult :: QueryMessageResult where
  "NewQueryMessageResult = \<lparr>qmr_MessageMapedList = [], qmr_MessageBufferList = [], IndexLastUpdateTimestamp = 0,
     IndexLastUpdatePhyoffset = 0, qmr_BufferTotalSize = 0\<rparr>"

definition QueryMessageResult_AddMessage :: "SelectMapedBufferResult \<Rightarrow> QueryMessageResult \<Rightarrow> QueryMessageResult" where
  "QueryMessageResult_AddMessage mapedBuffer qmr =
     qmr\<lparr>qmr_MessageMapedList := qmr_MessageMapedList qmr @ [mapedBuffer]\<rparr>"

section \<open>The store\<close>

text \<open>
  The dispatcher: the requests waiting in its channel, the capacity of the channel, the counter and the
  stop flag. The capacity is one and a half times the high water mark, computed in \<open>float64\<close> and cut to an
  integer; it is exact for marks below two thirds of \<open>2 ^ 31\<close>. \<open>make\<close> panics on a negative capacity.
\<close>

record DispatchMessageService =
  requestsChan :: "DispatchRequest list"
  requestsCap :: int
  requestSize :: int
  dms_stop :: bool

definition NewDispatchMessageService :: "int \<Rightarrow> DispatchMessageService option" where
  "NewDispatchMessageService putMsgIndexHightWater =
     (let rate = (putMsgIndexHightWater * 3) sdiv 2
      in if rate < 0 then None
         else Some \<lparr>requestsChan = [], requestsCap = rate, requestSize = 0, dms_stop = False\<rparr>)"

record ReputMessageService =
  reputFromOffset :: int
  rms_stoped :: bool

definition NewReputMessageService :: ReputMessageService where
  "NewReputMessageService = \<lparr>reputFromOffset = 0, rms_stoped = False\<rparr>"

type_synonym ConsumeQueueTable = "(int \<times> ConsumeQueue) list"

record DefaultMessageStore =
  ms_config :: MessageStoreConfig
  ms_CommitLog :: CommitLog
  consumeTopicTable :: "(string \<times> ConsumeQueueTable) list"
  ms_DispatchMessageService :: DispatchMessageService
  ms_IndexService :: IndexService
  ms_ReputMessageService :: "ReputMessageService option"
  ms_ScheduleMessageService :: ScheduleMessageService
  ms_lastPhysicalMinOffset :: int
  ms_RunningFlags :: int
  ShutdownFlag :: bool
  ms_StoreCheckpoint :: StoreCheckpoint
  printTimes :: int

definition NewScheduleMessageService :: ScheduleMessageService where
  "NewScheduleMessageService = \<lparr>delayLevelTable = (\<lambda>_. None), maxDelayLevel = 0\<rparr>"

text \<open>
  \<open>NewDefaultMessageStore\<close>. \<open>None\<close> when the checkpoint file cannot be opened: the source then goes on
  with a \<open>nil\<close> checkpoint, which the first unit that is stored dereferences.
\<close>

definition NewDefaultMessageStore :: "OS \<Rightarrow> MessageStoreConfig \<Rightarrow> (DefaultMessageStore \<times> OS) option" where
  "NewDefaultMessageStore os messageStoreConfig =
     do {
       (r, os1) \<leftarrow> NewStoreCheckpoint os (GetStoreCheckpoint (StorePathRootDir messageStoreConfig));
       dispatcher \<leftarrow> NewDispatchMessageService (PutMsgIndexHightWater messageStoreConfig);
       case r of
         Inl e \<Rightarrow> None
       | Inr storeCheckpoint \<Rightarrow>
           Some (\<lparr>ms_config = messageStoreConfig, ms_CommitLog = NewCommitLog None messageStoreConfig,
                  consumeTopicTable = [], ms_DispatchMessageService = dispatcher,
                  ms_IndexService = NewIndexService messageStoreConfig,
                  ms_ReputMessageService = (case BrokerRoleConfig messageStoreConfig of
                                              SLAVE \<Rightarrow> Some NewReputMessageService | _ \<Rightarrow> None),
                  ms_ScheduleMessageService = NewScheduleMessageService,
                  ms_lastPhysicalMinOffset = 0, ms_RunningFlags = 0, ShutdownFlag = True,
                  ms_StoreCheckpoint = storeCheckpoint, printTimes = 0\<rparr>, os1) }"

section \<open>Consume queues of the store\<close>

definition DefaultMessageStore_putConsumeQueue ::
    "string \<Rightarrow> int \<Rightarrow> ConsumeQueue \<Rightarrow> DefaultMessageStore \<Rightarrow> DefaultMessageStore" where
  "DefaultMessageStore_putConsumeQueue topic queueId consumeQueue self =
     (let consumeQueueMap = (case map_of (consumeTopicTable self) topic of Some m \<Rightarrow> m | None \<Rightarrow> [])
      in self\<lparr>consumeTopicTable :=
           AList.update topic (AList.update queueId consumeQueue consumeQueueMap) (consumeTopicTable self)\<rparr>)"

definition new_queue :: "MessageStoreConfig \<Rightarrow> string \<Rightarrow> int \<Rightarrow> ConsumeQueue" where
  "new_queue config topic queueId =
     NewConsumeQueue topic queueId (GetStorePathConsumeQueue (StorePathRootDir config))
       (getMapedFileSizeConsumeQueue config)"

definition DefaultMessageStore_findConsumeQueue ::
    "string \<Rightarrow> int \<Rightarrow> DefaultMessageStore \<Rightarrow> ConsumeQueue \<times> DefaultMessageStore" where
  "DefaultMessageStore_findConsumeQueue topic queueId self =
     (let self1 = (case map_of (consumeTopicTable self) topic of
                     Some _ \<Rightarrow> self
                   | None \<Rightarrow> self\<lparr>consumeTopicTable := AList.update topic [] (consumeTopicTable self)\<rparr>);
          consumeQueueMap = the (map_of (consumeTopicTable self1) topic)
      in case map_of consumeQueueMap queueId of
           Some logic \<Rightarrow> (logic, self1)
         | None \<Rightarrow>
             (let logic = new_queue (ms_config self) topic queueId
              in (logic, self1\<lparr>consumeTopicTable := AList.update topic
                            (AList.update queueId logic consumeQueueMap) (consumeTopicTable self1)\<rparr>)))"

definition DefaultMessageStore_putMessagePostionInfo ::
    "OS \<Rightarrow> string \<Rightarrow> int \<Rightarrow> int \<Rightarrow> int \<Rightarrow> int \<Rightarrow> int \<Rightarrow> int \<Rightarrow> DefaultMessageStore \<Rightarrow>
     (DefaultMessageStore \<times> OS) option" where
  "DefaultMessageStore_putMessagePostionInfo os topic queueId offset sz tagsCode timestamp logicOffset self =
     (case DefaultMessageStore_findConsumeQueue topic queueId self of
        (cq, self1) \<Rightarrow>
          do {
            (cq1, scp, flags, os1) \<leftarrow> ConsumeQueue_putMessagePostionInfoWrapper os offset sz tagsCode timestamp
               logicOffset cq (ms_StoreCheckpoint self1) (ms_RunningFlags self1);
            Some ((DefaultMessageStore_putConsumeQueue topic queueId cq1 self1)
                    \<lparr>ms_StoreCheckpoint := scp, ms_RunningFlags := flags\<rparr>, os1) })"

section \<open>Dispatching\<close>

definition DispatchMessageService_putRequest ::
    "DispatchRequest \<Rightarrow> DispatchMessageService \<Rightarrow> DispatchMessageService option" where
  "DispatchMessageService_putRequest dispatchRequest self =
     (if \<not> dms_stop self
      then if int (length (requestsChan self)) < requestsCap self
           then Some (self\<lparr>requestsChan := requestsChan self @ [dispatchRequest],
                           requestSize := to_int32 (requestSize self + 1)\<rparr>)
           else None
      else Some self)"

definition DefaultMessageStore_putDispatchRequest ::
    "DispatchRequest \<Rightarrow> DefaultMessageStore \<Rightarrow> DefaultMessageStore option" where
  "DefaultMessageStore_putDispatchRequest dispatchRequest self =
     map_option (\<lambda>d. self\<lparr>ms_DispatchMessageService := d\<rparr>)
       (DispatchMessageService_putRequest dispatchRequest (ms_DispatchMessageService self))"

text \<open>The requests that one operation puts, one after the other.\<close>

fun put_dispatch_requests :: "DispatchRequest list \<Rightarrow> DefaultMessageStore \<Rightarrow> DefaultMessageStore option" where
  "put_dispatch_requests [] self = Some self"
| "put_dispatch_requests (r # rs) self =
     do { self1 \<leftarrow> DefaultMessageStore_putDispatchRequest r self; put_dispatch_requests rs self1 }"

text \<open>
  The second \<open>switch\<close> of \<open>doDispatch\<close> has only commented-out cases. While the channel of the index service is
  full the dispatcher waits in its last line.
\<close>

definition DispatchMessageService_doDispatch ::
    "OS \<Rightarrow> DispatchRequest \<Rightarrow> DefaultMessageStore \<Rightarrow> (DefaultMessageStore \<times> OS) option" where
  "DispatchMessageService_doDispatch os dispatchRequest self =
     (let self1 = self\<lparr>ms_DispatchMessageService := (ms_DispatchMessageService self)
                          \<lparr>requestSize := to_int32 (requestSize (ms_DispatchMessageService self) - 1)\<rparr>\<rparr>;
          tranType = GetTransactionValue (dr_sysFlag dispatchRequest)
      in do {
        (self2, os1) \<leftarrow>
          (if tranType = TransactionNotType \<or> tranType = TransactionCommitType
           then DefaultMessageStore_putMessagePostionInfo os (dr_topic dispatchRequest) (dr_queueId dispatchRequest)
                  (dr_commitLogOffset dispatchRequest) (dr_msgSize dispatchRequest) (dr_tagsCode dispatchRequest)
                  (dr_storeTimestamp dispatchRequest) (dr_consumeQueueOffset dispatchRequest) self1
           else Some (self1, os));
        (if MessageIndexEnable (ms_config self2)
         then map_option (\<lambda>ix. (self2\<lparr>ms_IndexService := ix\<rparr>, os1))
                (IndexService_putRequest dispatchRequest (ms_IndexService self2))
         else Some (self2, os1)) })"

text \<open>One round of the receive loop of \<open>Start\<close>: nothing happens while the channel is empty.\<close>

definition DispatchMessageService_Start_step :: "OS \<Rightarrow> DefaultMessageStore \<Rightarrow> (DefaultMessageStore \<times> OS) option" where
  "DispatchMessageService_Start_step os self =
     (case requestsChan (ms_DispatchMessageService self) of
        [] \<Rightarrow> Some (self, os)
      | request # rest \<Rightarrow>
          DispatchMessageService_doDispatch os request
            (self\<lparr>ms_DispatchMessageService := (ms_DispatchMessageService self)\<lparr>requestsChan := rest\<rparr>\<rparr>))"

text \<open>
  One round of the index service's receive loop: the outer option is that of \<open>buildIndex\<close>, which may not
  return, and \<open>names\<close> are the names of the files it may create.
\<close>

definition IndexService_Start_step ::
    "(nat \<Rightarrow> string) \<Rightarrow> OS \<Rightarrow> DefaultMessageStore \<Rightarrow> (DefaultMessageStore \<times> OS) option option" where
  "IndexService_Start_step names os self =
     (case is_requestQueue (ms_IndexService self) of
        [] \<Rightarrow> Some (Some (self, os))
      | request # rest \<Rightarrow>
          map_option (map_option (\<lambda>(flags, ix, os1). (self\<lparr>ms_RunningFlags := flags, ms_IndexService := ix\<rparr>, os1)))
            (IndexService_buildIndex names os (ms_RunningFlags self) request
               ((ms_IndexService self)\<lparr>is_requestQueue := rest\<rparr>)))"

section \<open>Writing\<close>

text \<open>
  \<open>PutMessage\<close>. The first three arguments are those of the commit log's \<open>putMessage\<close>; the answer is
  \<open>None\<close> when the call waits for ever for the log's mutex. The call has no value while the dispatcher's
  channel is full, when it waits for the dispatcher, with the mutex held.
\<close>

definition put_status_only :: "PutMessageStatus \<Rightarrow> PutMessageResult" where
  "put_status_only st = \<lparr>pmr_PutMessageStatus = st, pmr_AppendMessageResult = None\<rparr>"

definition DefaultMessageStore_PutMessage ::
    "int \<Rightarrow> int \<Rightarrow> bool \<Rightarrow> OS \<Rightarrow> MessageExtBrokerInner \<Rightarrow> DefaultMessageStore \<Rightarrow>
     (PutMessageResult option \<times> DefaultMessageStore \<times> OS) option" where
  "DefaultMessageStore_PutMessage storeNow lockNow flushOk os msg self =
     (if ShutdownFlag self then Some (Some (put_status_only SERVICE_NOT_AVAILABLE), self, os)
      else if BrokerRoleConfig (ms_config self) = SLAVE
      then Some (Some (put_status_only SERVICE_NOT_AVAILABLE), self\<lparr>printTimes := printTimes self + 1\<rparr>, os)
      else if \<not> RunningFlags_isWriteable (ms_RunningFlags self)
      then Some (Some (put_status_only SERVICE_NOT_AVAILABLE), self\<lparr>printTimes := printTimes self + 1\<rparr>, os)
      else let self1 = self\<lparr>printTimes := 0\<rparr>
      in if length (m_Topic msg) > 127 then Some (Some (put_status_only MESSAGE_ILLEGAL), self1, os)
         else if length (m_PropertiesString msg) > 32767 then Some (Some (put_status_only MESSAGE_ILLEGAL), self1, os)
         else do {
           (result, reqs, cl, os1) \<leftarrow> CommitLog_putMessage storeNow lockNow flushOk os msg (ms_CommitLog self1);
           self2 \<leftarrow> put_dispatch_requests reqs (self1\<lparr>ms_CommitLog := cl\<rparr>);
           Some (result, self2, os1) })"

section \<open>Reading\<close>

definition TotalPhysicalMemorySize :: int where
  "TotalPhysicalMemorySize = 1024 * 1024 * 1024 * 24"

definition LongMinValue :: int where
  "LongMinValue = - 9223372036854775808"

text \<open>Selecting an index region that the caller releases before it returns.\<close>

definition cq_peek :: "int \<Rightarrow> ConsumeQueue \<Rightarrow> (SelectMapedBufferResult option \<times> ConsumeQueue) option" where
  "cq_peek index cq =
     map_option (\<lambda>(r, cq1). (r, if r = None then cq1 else cq)) (ConsumeQueue_getIndexBuffer index cq)"

text \<open>
  The product with the ratio is computed in \<open>float64\<close> and cut to an integer. It is an integer only for
  multiples of 25 percent, whose quotient by 100 is exact, so the result is that of integer arithmetic.
\<close>

definition DefaultMessageStore_checkInDiskByCommitOffset :: "DefaultMessageStore \<Rightarrow> int \<Rightarrow> int \<Rightarrow> bool" where
  "DefaultMessageStore_checkInDiskByCommitOffset self offsetPy maxOffsetPy \<longleftrightarrow>
     maxOffsetPy - offsetPy > (TotalPhysicalMemorySize * AccessMessageInMemoryMaxRatio (ms_config self)) sdiv 100"

definition DefaultMessageStore_isTheBatchFull ::
    "DefaultMessageStore \<Rightarrow> int \<Rightarrow> int \<Rightarrow> int \<Rightarrow> int \<Rightarrow> bool \<Rightarrow> bool" where
  "DefaultMessageStore_isTheBatchFull self sizePy maxMsgNums bufferTotal messageTotal isInDisk =
     (let c = ms_config self; bytes = to_int32 (bufferTotal + sizePy); count = to_int32 (messageTotal + 1)
      in if 0 = bufferTotal \<or> 0 = messageTotal then False
         else if count \<ge> maxMsgNums then True
         else if isInDisk
         then bytes > MaxTransferBytesOnMessageInDisk c \<or> count > MaxTransferCountOnMessageInDisk c
         else bytes > MaxTransferBytesOnMessageInMemory c \<or> count > MaxTransferCountOnMessageInMemory c)"

text \<open>
  The loop of \<open>GetMessage\<close> over the units of the region: the value of \<open>i\<close> at its end, the last physical
  offset read, the status, the result and the commit log, whose files the result holds. The branch
  that records how far behind the reader is never runs, as \<open>diskFallRecorded\<close> is false.
\<close>

function get_loop ::
    "DefaultMessageStore \<Rightarrow> (int \<Rightarrow> bool) \<Rightarrow> int \<Rightarrow> int \<Rightarrow> int \<Rightarrow> MappedByteBuffer \<Rightarrow> int \<Rightarrow> int \<Rightarrow>
     GetMessageStatus \<Rightarrow> GetMessageResult \<Rightarrow> CommitLog \<Rightarrow>
     (int \<times> int \<times> GetMessageStatus \<times> GetMessageResult \<times> CommitLog) option" where
  "get_loop self matched maxMsgNums sz i b nextPhy maxPhy status res cl =
     (if to_int32 i < sz \<and> i < 16000
      then if WritePos b = 0 then get_loop self matched maxMsgNums sz (i + CQStoreUnitSize) b nextPhy maxPhy status res cl
      else do {
        (offsetPy, b1) \<leftarrow> MappedByteBuffer_ReadInt64 b;
        (sizePy, b2) \<leftarrow> MappedByteBuffer_ReadInt32 b1;
        (tagsCode, b3) \<leftarrow> MappedByteBuffer_ReadInt64 b2;
        if nextPhy \<noteq> LongMinValue \<and> offsetPy < nextPhy
        then get_loop self matched maxMsgNums sz (i + CQStoreUnitSize) b3 nextPhy offsetPy status res cl
        else if DefaultMessageStore_isTheBatchFull self sizePy maxMsgNums (to_int32 (BufferTotalSize res))
                  (to_int32 (GetMessageResult_GetMessageCount res))
                  (DefaultMessageStore_checkInDiskByCommitOffset self offsetPy
                     (MapedFileQueue_getMaxOffset (cl_MapedFileQueue cl)))
        then Some (i, offsetPy, status, res, cl)
        else if matched tagsCode
        then do {
          (selectResult, cl1) \<leftarrow> CommitLog_getMessage offsetPy sizePy cl;
          case selectResult of
            Some r \<Rightarrow> get_loop self matched maxMsgNums sz (i + CQStoreUnitSize) b3 LongMinValue offsetPy FOUND
                       (GetMessageResult_addMessage r res) cl1
          | None \<Rightarrow>
              do {
                nextPhy1 \<leftarrow> CommitLog_rollNextFile offsetPy cl1;
                get_loop self matched maxMsgNums sz (i + CQStoreUnitSize) b3 nextPhy1 offsetPy
                  (if BufferTotalSize res = 0 then MESSAGE_WAS_REMOVING else status) res cl1 } }
        else get_loop self matched maxMsgNums sz (i + CQStoreUnitSize) b3 nextPhy offsetPy
               (if BufferTotalSize res = 0 then NO_MATCHED_MESSAGE else status) res cl }
      else Some (i, maxPhy, status, res, cl))"
  by pat_completeness auto
termination
  by (relation "measure (\<lambda>(self, m, n, sz, i, b, np, mp, st, res, cl). nat (16000 - i))")
     (auto simp: CQStoreUnitSize_def)

declare get_loop.simps [simp del]

text \<open>
  \<open>GetMessage\<close>; the result is \<open>None\<close> for \<open>nil\<close>. The memory limit that decides on
  \<open>SuggestPullingFromSlave\<close> divides the ratio by 100 in integers.
\<close>

definition get_found ::
    "GetMessageStatus \<Rightarrow> int \<Rightarrow> int \<Rightarrow> int \<Rightarrow> GetMessageResult \<Rightarrow> GetMessageResult" where
  "get_found status nextBeginOffset minOffset maxOffset res =
     res\<lparr>gmr_Status := status, NextBeginOffset := nextBeginOffset, gmr_MaxOffset := maxOffset, gmr_MinOffset := minOffset\<rparr>"

definition DefaultMessageStore_GetMessage ::
    "('s \<Rightarrow> int \<Rightarrow> bool) \<Rightarrow> string \<Rightarrow> int \<Rightarrow> int \<Rightarrow> int \<Rightarrow> 's SubscriptionData option \<Rightarrow> DefaultMessageStore \<Rightarrow>
     (GetMessageResult option \<times> DefaultMessageStore) option" where
  "DefaultMessageStore_GetMessage Contains topic queueId offset maxMsgNums subscriptionData self =
     (if ShutdownFlag self then Some (None, self)
      else case DefaultMessageStore_findConsumeQueue topic queueId self of
        (consumeQueue, self1) \<Rightarrow>
          let minOffset = ConsumeQueue_getMinOffsetInQueue consumeQueue;
              maxOffset = ConsumeQueue_getMaxOffsetInQueue consumeQueue;
              done = (\<lambda>status nextBeginOffset res s. Some (Some (get_found status nextBeginOffset minOffset maxOffset res), s))
          in if maxOffset = 0 then done NO_MESSAGE_IN_QUEUE 0 new_GetMessageResult self1
             else if offset < minOffset then done OFFSET_TOO_SMALL minOffset new_GetMessageResult self1
             else if offset = maxOffset then done OFFSET_OVERFLOW_ONE offset new_GetMessageResult self1
             else if offset > maxOffset
             then done OFFSET_OVERFLOW_BADLY (if 0 = minOffset then minOffset else maxOffset) new_GetMessageResult self1
             else do {
               (bufferConsumeQueue, cq1) \<leftarrow> cq_peek offset consumeQueue;
               let self2 = DefaultMessageStore_putConsumeQueue topic queueId cq1 self1;
               case bufferConsumeQueue of
                 Some r \<Rightarrow>
                   do {
                     (i, maxPhyOffsetPulling, status, res, cl) \<leftarrow> get_loop self2
                        (DefaultMessageFilter_IsMessageMatched Contains subscriptionData) maxMsgNums (Size r) 0
                        (smr_MappedByteBuffer r) LongMinValue 0 NO_MATCHED_MESSAGE new_GetMessageResult (ms_CommitLog self2);
                     let diff = MapedFileQueue_getMaxOffset (cl_MapedFileQueue cl) - maxPhyOffsetPulling;
                     let memory = TotalPhysicalMemorySize * (AccessMessageInMemoryMaxRatio (ms_config self2) sdiv 100);
                     done status (offset + i sdiv CQStoreUnitSize) (res\<lparr>SuggestPullingFromSlave := diff > memory\<rparr>)
                       (self2\<lparr>ms_CommitLog := cl\<rparr>) }
               | None \<Rightarrow>
                   do {
                     next \<leftarrow> ConsumeQueue_rollNextFile offset cq1;
                     done OFFSET_FOUND_NULL next new_GetMessageResult self2 } })"

text \<open>Reading one message: the region of four bytes that holds the size is released, the other is not.\<close>

definition log_peek :: "int \<Rightarrow> int \<Rightarrow> CommitLog \<Rightarrow> (SelectMapedBufferResult option \<times> CommitLog) option" where
  "log_peek offset sz cl =
     map_option (\<lambda>(r, cl1). (r, if r = None then cl1 else cl)) (CommitLog_getMessage offset sz cl)"

definition DefaultMessageStore_SelectOneMessageByOffsetAndSize ::
    "int \<Rightarrow> int \<Rightarrow> DefaultMessageStore \<Rightarrow> (SelectMapedBufferResult option \<times> DefaultMessageStore) option" where
  "DefaultMessageStore_SelectOneMessageByOffsetAndSize commitLogOffset msgSize self =
     map_option (\<lambda>(r, cl). (r, self\<lparr>ms_CommitLog := cl\<rparr>)) (CommitLog_getMessage commitLogOffset msgSize (ms_CommitLog self))"

definition DefaultMessageStore_SelectOneMessageByOffset ::
    "int \<Rightarrow> DefaultMessageStore \<Rightarrow> (SelectMapedBufferResult option \<times> DefaultMessageStore) option" where
  "DefaultMessageStore_SelectOneMessageByOffset commitLogOffset self =
     do {
       (selectResult, cl) \<leftarrow> log_peek commitLogOffset 4 (ms_CommitLog self);
       case selectResult of
         None \<Rightarrow> Some (None, self\<lparr>ms_CommitLog := cl\<rparr>)
       | Some r \<Rightarrow>
           do {
             (sz, _) \<leftarrow> MappedByteBuffer_ReadInt32 (smr_MappedByteBuffer r);
             DefaultMessageStore_SelectOneMessageByOffsetAndSize commitLogOffset sz (self\<lparr>ms_CommitLog := cl\<rparr>) } }"

text \<open>\<open>lookMessageByOffset\<close> never releases its region; the two zlib functions are parameters of the decoder.\<close>


definition DefaultMessageStore_lookMessageByOffset ::
    "(byte list \<Rightarrow> byte list option) \<Rightarrow> int \<Rightarrow> int \<Rightarrow> DefaultMessageStore \<Rightarrow> (MessageExt option \<times> DefaultMessageStore) option" where
  "DefaultMessageStore_lookMessageByOffset unzip commitLogOffset sz self =
     do {
       (selectResult, self1) \<leftarrow> DefaultMessageStore_SelectOneMessageByOffsetAndSize commitLogOffset sz self;
       case selectResult of
         None \<Rightarrow> Some (None, self1)
       | Some r \<Rightarrow>
           do {
             byteBuffers \<leftarrow> MappedByteBuffer_Bytes (smr_MappedByteBuffer r);
             Some (DecodeMessageExt unzip byteBuffers True False, self1) } }"

definition DefaultMessageStore_LookMessageByOffset ::
    "(byte list \<Rightarrow> byte list option) \<Rightarrow> int \<Rightarrow> DefaultMessageStore \<Rightarrow> (MessageExt option \<times> DefaultMessageStore) option" where
  "DefaultMessageStore_LookMessageByOffset unzip commitLogOffset self =
     do {
       (selectResult, cl) \<leftarrow> log_peek commitLogOffset 4 (ms_CommitLog self);
       case selectResult of
         None \<Rightarrow> Some (None, self\<lparr>ms_CommitLog := cl\<rparr>)
       | Some r \<Rightarrow>
           do {
             (sz, _) \<leftarrow> MappedByteBuffer_ReadInt32 (smr_MappedByteBuffer r);
             DefaultMessageStore_lookMessageByOffset unzip commitLogOffset sz (self\<lparr>ms_CommitLog := cl\<rparr>) } }"

text \<open>
  The queries on a queue. \<open>findConsumeQueue\<close> creates a queue that does not exist, so the branches for a
  missing queue never run.
\<close>

definition DefaultMessageStore_GetMaxOffsetInQueue :: "string \<Rightarrow> int \<Rightarrow> DefaultMessageStore \<Rightarrow> int \<times> DefaultMessageStore" where
  "DefaultMessageStore_GetMaxOffsetInQueue topic queueId self =
     (case DefaultMessageStore_findConsumeQueue topic queueId self of
        (logic, self1) \<Rightarrow> (ConsumeQueue_getMaxOffsetInQueue logic, self1))"

definition DefaultMessageStore_GetMinOffsetInQueue :: "string \<Rightarrow> int \<Rightarrow> DefaultMessageStore \<Rightarrow> int \<times> DefaultMessageStore" where
  "DefaultMessageStore_GetMinOffsetInQueue topic queueId self =
     (case DefaultMessageStore_findConsumeQueue topic queueId self of
        (logic, self1) \<Rightarrow> (ConsumeQueue_getMinOffsetInQueue logic, self1))"

definition DefaultMessageStore_CheckInDiskByConsumeOffset ::
    "string \<Rightarrow> int \<Rightarrow> int \<Rightarrow> DefaultMessageStore \<Rightarrow> (bool \<times> DefaultMessageStore) option" where
  "DefaultMessageStore_CheckInDiskByConsumeOffset topic queueId consumeOffset self =
     (case DefaultMessageStore_findConsumeQueue topic queueId self of
        (consumeQueue, self1) \<Rightarrow>
          do {
            (r, cq1) \<leftarrow> cq_peek consumeOffset consumeQueue;
            let self2 = DefaultMessageStore_putConsumeQueue topic queueId cq1 self1;
            case r of
              None \<Rightarrow> Some (False, self2)
            | Some b \<Rightarrow>
                if 0 < WritePos (smr_MappedByteBuffer b)
                then do {
                  (offsetPy, _) \<leftarrow> MappedByteBuffer_ReadInt64 (smr_MappedByteBuffer b);
                  Some (DefaultMessageStore_checkInDiskByCommitOffset self2 offsetPy
                          (MapedFileQueue_getMaxOffset (cl_MapedFileQueue (ms_CommitLog self2))), self2) }
                else Some (False, self2) })"

definition DefaultMessageStore_GetOffsetInQueueByTime ::
    "OS \<Rightarrow> string \<Rightarrow> int \<Rightarrow> int \<Rightarrow> DefaultMessageStore \<Rightarrow> (int \<times> DefaultMessageStore) option" where
  "DefaultMessageStore_GetOffsetInQueueByTime os topic queueId timestamp self =
     (case DefaultMessageStore_findConsumeQueue topic queueId self of
        (logic, self1) \<Rightarrow>
          map_option (\<lambda>v. (v, self1)) (ConsumeQueue_getOffsetInQueueByTime os (ms_CommitLog self1) timestamp logic))"

text \<open>The store time of the message whose unit is at an index of a queue.\<close>

definition unit_store_time ::
    "string \<Rightarrow> int \<Rightarrow> int \<Rightarrow> ConsumeQueue \<Rightarrow> DefaultMessageStore \<Rightarrow> (int \<times> DefaultMessageStore) option" where
  "unit_store_time topic queueId index logicQueue self =
     do {
       (result, cq1) \<leftarrow> cq_peek index logicQueue;
       let self1 = DefaultMessageStore_putConsumeQueue topic queueId cq1 self;
       case result of
         None \<Rightarrow> Some (- 1, self1)
       | Some r \<Rightarrow>
           do {
             (phyOffset, b1) \<leftarrow> MappedByteBuffer_ReadInt64 (smr_MappedByteBuffer r);
             (sz, _) \<leftarrow> MappedByteBuffer_ReadInt32 b1;
             (storeTime, cl) \<leftarrow> CommitLog_pickupStoretimestamp phyOffset sz (ms_CommitLog self1);
             Some (storeTime, self1\<lparr>ms_CommitLog := cl\<rparr>) } }"

definition DefaultMessageStore_GetEarliestMessageTime ::
    "string \<Rightarrow> int \<Rightarrow> DefaultMessageStore \<Rightarrow> (int \<times> DefaultMessageStore) option" where
  "DefaultMessageStore_GetEarliestMessageTime topic queueId self =
     (case DefaultMessageStore_findConsumeQueue topic queueId self of
        (logicQueue, self1) \<Rightarrow>
          unit_store_time topic queueId (minLogicOffset logicQueue sdiv CQStoreUnitSize) logicQueue self1)"

definition DefaultMessageStore_GetMessageStoreTimeStamp ::
    "string \<Rightarrow> int \<Rightarrow> int \<Rightarrow> DefaultMessageStore \<Rightarrow> (int \<times> DefaultMessageStore) option" where
  "DefaultMessageStore_GetMessageStoreTimeStamp topic queueId offset self =
     (case DefaultMessageStore_findConsumeQueue topic queueId self of
        (logicQueue, self1) \<Rightarrow> unit_store_time topic queueId offset logicQueue self1)"

definition DefaultMessageStore_GetCommitLogData ::
    "int \<Rightarrow> DefaultMessageStore \<Rightarrow> (SelectMapedBufferResult option \<times> DefaultMessageStore) option" where
  "DefaultMessageStore_GetCommitLogData offset self =
     (if ShutdownFlag self then Some (None, self)
      else map_option (\<lambda>(r, cl). (r, self\<lparr>ms_CommitLog := cl\<rparr>)) (CommitLog_getData offset (ms_CommitLog self)))"

definition DefaultMessageStore_GetMaxPhyOffset :: "DefaultMessageStore \<Rightarrow> int" where
  "DefaultMessageStore_GetMaxPhyOffset self = CommitLog_getMaxOffset (ms_CommitLog self)"

text \<open>The results of the three queries of the index, which is a stub, are thrown away.\<close>

definition DefaultMessageStore_QueryMessage :: "string \<Rightarrow> string \<Rightarrow> int \<Rightarrow> int \<Rightarrow> int \<Rightarrow> DefaultMessageStore \<Rightarrow> QueryMessageResult" where
  "DefaultMessageStore_QueryMessage topic key maxNum begin end self = NewQueryMessageResult"

text \<open>
  \<open>GetMessageIds\<close>. The inner loop reads the units of one region: whether the method returns, the next
  offset and the ids. Offsets are taken to be exact as \<open>float64\<close>. The outer loop may run for ever, in
  which case it has no value; a panic is \<open>Some None\<close>.
\<close>

function ids_units ::
    "string \<Rightarrow> int \<Rightarrow> int \<Rightarrow> int \<Rightarrow> MappedByteBuffer \<Rightarrow> int \<Rightarrow> (string \<Rightarrow> int option) \<Rightarrow>
     (bool \<times> int \<times> (string \<Rightarrow> int option)) option" where
  "ids_units storeHost maxOffset i sz b nextOffset messageIds =
     (if i < sz
      then do {
        (offsetPy, b1) \<leftarrow> MappedByteBuffer_ReadInt64 b;
        idr \<leftarrow> CreateMessageId storeHost offsetPy;
        case idr of
          Inl e \<Rightarrow> Some (False, nextOffset + 1, messageIds)
        | Inr msgId \<Rightarrow>
            if nextOffset + 1 > maxOffset then Some (True, nextOffset + 1, messageIds(msgId := Some (nextOffset + 1)))
            else ids_units storeHost maxOffset (i + CQStoreUnitSize) sz b1 (nextOffset + 1)
                   (messageIds(msgId := Some (nextOffset + 1))) }
      else Some (False, nextOffset, messageIds))"
  by pat_completeness auto
termination
  by (relation "measure (\<lambda>(h, m, i, sz, b, n, ids). nat (sz - i))") (auto simp: CQStoreUnitSize_def)

declare ids_units.simps [simp del]

partial_function (option) ids_loop ::
    "string \<Rightarrow> int \<Rightarrow> int \<Rightarrow> int \<Rightarrow> (string \<Rightarrow> int option) \<Rightarrow> ConsumeQueue \<Rightarrow>
     ((string \<Rightarrow> int option) \<times> ConsumeQueue) option option" where
  "ids_loop storeHost maxOffset maxOffsetting nextOffset messageIds cq =
     (if nextOffset \<ge> maxOffsetting then Some (Some (messageIds, cq))
      else case cq_peek nextOffset cq of
        None \<Rightarrow> Some None
      | Some (sel, cq1) \<Rightarrow>
          (case sel of
             None \<Rightarrow> ids_loop storeHost maxOffset maxOffsetting nextOffset messageIds cq1
           | Some r \<Rightarrow>
               (case ids_units storeHost maxOffset 0 (Size r) (smr_MappedByteBuffer r) nextOffset messageIds of
                  None \<Rightarrow> Some None
                | Some (returns, n, ids) \<Rightarrow>
                    if returns then Some (Some (ids, cq1))
                    else ids_loop storeHost maxOffset maxOffsetting n ids cq1)))"

definition DefaultMessageStore_GetMessageIds ::
    "string \<Rightarrow> int \<Rightarrow> int \<Rightarrow> int \<Rightarrow> string \<Rightarrow> DefaultMessageStore \<Rightarrow>
     ((string \<Rightarrow> int option) \<times> DefaultMessageStore) option option" where
  "DefaultMessageStore_GetMessageIds topic queueId minOffset maxOffset storeHost self =
     (if ShutdownFlag self then Some (Some (\<lambda>_. None, self))
      else case DefaultMessageStore_findConsumeQueue topic queueId self of
        (consumeQueue, self1) \<Rightarrow>
          let minOffsetting = max minOffset (ConsumeQueue_getMinOffsetInQueue consumeQueue);
              maxOffsetting = max maxOffset (ConsumeQueue_getMaxOffsetInQueue consumeQueue)
          in if maxOffsetting = 0 then Some (Some (\<lambda>_. None, self1))
             else map_option (map_option (\<lambda>(ids, cq1). (ids, DefaultMessageStore_putConsumeQueue topic queueId cq1 self1)))
                    (ids_loop storeHost maxOffset maxOffsetting minOffsetting (\<lambda>_. None) consumeQueue))"

section \<open>Cleaning, recovery and shutdown\<close>

text \<open>A pass over all queues that threads a state and may panic.\<close>

fun each_queue :: "(ConsumeQueue \<Rightarrow> 'a \<Rightarrow> (ConsumeQueue \<times> 'a) option) \<Rightarrow> ConsumeQueueTable \<Rightarrow> 'a \<Rightarrow>
    (ConsumeQueueTable \<times> 'a) option" where
  "each_queue f [] s = Some ([], s)"
| "each_queue f ((queueId, cq) # qs) s =
     do { (cq1, s1) \<leftarrow> f cq s; (qs1, s2) \<leftarrow> each_queue f qs s1; Some ((queueId, cq1) # qs1, s2) }"

fun each_topic :: "(ConsumeQueue \<Rightarrow> 'a \<Rightarrow> (ConsumeQueue \<times> 'a) option) \<Rightarrow> (string \<times> ConsumeQueueTable) list \<Rightarrow> 'a \<Rightarrow>
    ((string \<times> ConsumeQueueTable) list \<times> 'a) option" where
  "each_topic f [] s = Some ([], s)"
| "each_topic f ((topic, qs) # ts) s =
     do { (qs1, s1) \<leftarrow> each_queue f qs s; (ts1, s2) \<leftarrow> each_topic f ts s1; Some ((topic, qs1) # ts1, s2) }"

definition DefaultMessageStore_recoverConsumeQueue :: "OS \<Rightarrow> DefaultMessageStore \<Rightarrow> (DefaultMessageStore \<times> OS) option" where
  "DefaultMessageStore_recoverConsumeQueue os self =
     map_option (\<lambda>(t, os1). (self\<lparr>consumeTopicTable := t\<rparr>, os1))
       (each_topic (\<lambda>logic os. ConsumeQueue_recover os logic) (consumeTopicTable self) os)"

definition DefaultMessageStore_truncateDirtyLogicFiles ::
    "OS \<Rightarrow> int \<Rightarrow> DefaultMessageStore \<Rightarrow> (DefaultMessageStore \<times> OS) option" where
  "DefaultMessageStore_truncateDirtyLogicFiles os phyOffset self =
     map_option (\<lambda>(t, os1). (self\<lparr>consumeTopicTable := t\<rparr>, os1))
       (each_topic (\<lambda>logic os. ConsumeQueue_truncateDirtyLogicFiles os phyOffset logic) (consumeTopicTable self) os)"

definition DefaultMessageStore_destroyLogics :: "OS \<Rightarrow> DefaultMessageStore \<Rightarrow> (DefaultMessageStore \<times> OS) option" where
  "DefaultMessageStore_destroyLogics os self =
     map_option (\<lambda>(t, os1). (self\<lparr>consumeTopicTable := t\<rparr>, os1))
       (each_topic (\<lambda>logic os. Some (ConsumeQueue_destroy os logic)) (consumeTopicTable self) os)"

definition DefaultMessageStore_recoverTopicQueueTable :: "DefaultMessageStore \<Rightarrow> DefaultMessageStore option" where
  "DefaultMessageStore_recoverTopicQueueTable self =
     (let minPhyOffset = CommitLog_getMinOffset (ms_CommitLog self)
      in do {
        (t, tqt) \<leftarrow> each_topic
           (\<lambda>logic tqt. do {
              logic1 \<leftarrow> ConsumeQueue_correctMinOffset minPhyOffset logic;
              Some (logic1, tqt(topic_key (cq_topic logic) (cq_queueId logic) :=
                              Some (ConsumeQueue_getMaxOffsetInQueue logic))) })
           (consumeTopicTable self) (\<lambda>_. None);
        Some (self\<lparr>consumeTopicTable := t, ms_CommitLog := (ms_CommitLog self)\<lparr>TopicQueueTable := tqt\<rparr>\<rparr>) })"


text \<open>\<open>CleanExpiredConsumerQueue\<close>. It waits for ever, and has no value, when the log's mutex is held.\<close>

fun clean_queues :: "int \<Rightarrow> OS \<Rightarrow> CommitLog \<Rightarrow> ConsumeQueueTable \<Rightarrow> (ConsumeQueueTable \<times> CommitLog \<times> OS) option" where
  "clean_queues minCommitLogOffset os cl [] = Some ([], cl, os)"
| "clean_queues minCommitLogOffset os cl ((queueId, cq) # qs) =
     do {
       lastOffset \<leftarrow> ConsumeQueue_getLastOffset cq;
       if lastOffset \<noteq> - 1 \<and> lastOffset < minCommitLogOffset
       then do {
         cl1 \<leftarrow> CommitLog_removeQueurFromTopicQueueTable (cq_topic cq) (cq_queueId cq) cl;
         clean_queues minCommitLogOffset (snd (ConsumeQueue_destroy os cq)) cl1 qs }
       else do {
         (qs1, cl1, os1) \<leftarrow> clean_queues minCommitLogOffset os cl qs;
         Some ((queueId, cq) # qs1, cl1, os1) } }"

fun clean_topics :: "int \<Rightarrow> OS \<Rightarrow> CommitLog \<Rightarrow> (string \<times> ConsumeQueueTable) list \<Rightarrow>
    ((string \<times> ConsumeQueueTable) list \<times> CommitLog \<times> OS) option" where
  "clean_topics minCommitLogOffset os cl [] = Some ([], cl, os)"
| "clean_topics minCommitLogOffset os cl ((topic, qs) # ts) =
     do {
       (qs1, cl1, os1) \<leftarrow> (if topic \<noteq> SCHEDULE_TOPIC then clean_queues minCommitLogOffset os cl qs else Some (qs, cl, os));
       (ts1, cl2, os2) \<leftarrow> clean_topics minCommitLogOffset os1 cl1 ts;
       Some (if topic \<noteq> SCHEDULE_TOPIC \<and> qs1 = [] then ts1 else (topic, qs1) # ts1, cl2, os2) }"

definition DefaultMessageStore_CleanExpiredConsumerQueue :: "OS \<Rightarrow> DefaultMessageStore \<Rightarrow> (DefaultMessageStore \<times> OS) option" where
  "DefaultMessageStore_CleanExpiredConsumerQueue os self =
     map_option (\<lambda>(t, cl, os1). (self\<lparr>consumeTopicTable := t, ms_CommitLog := cl\<rparr>, os1))
       (clean_topics (CommitLog_getMinOffset (ms_CommitLog self)) os (ms_CommitLog self) (consumeTopicTable self))"

definition CleanConsumeQueueService_deleteExpiredFiles :: "OS \<Rightarrow> DefaultMessageStore \<Rightarrow> (DefaultMessageStore \<times> OS) option" where
  "CleanConsumeQueueService_deleteExpiredFiles os self =
     (let minOffset = CommitLog_getMinOffset (ms_CommitLog self);
          self1 = (if minOffset > ms_lastPhysicalMinOffset self then self\<lparr>ms_lastPhysicalMinOffset := minOffset\<rparr> else self)
      in do {
        (t, os1) \<leftarrow> each_topic (\<lambda>logic os. map_option snd (ConsumeQueue_deleteExpiredFile os minOffset logic))
           (consumeTopicTable self1) os;
        (ix, os2) \<leftarrow> IndexService_deleteExpiredFile os1 minOffset (ms_IndexService self1);
        Some (self1\<lparr>consumeTopicTable := t, ms_IndexService := ix\<rparr>, os2) })"

section \<open>Re-dispatching the log on a slave\<close>

text \<open>
  The inner loop of \<open>doReput\<close> over one region, and the loop over regions: where to continue and the
  requests that were put. A loop that does not end has no value.
\<close>

partial_function (option) reput_records ::
    "ScheduleMessageService \<Rightarrow> CommitLog \<Rightarrow> int \<Rightarrow> int \<Rightarrow> MappedByteBuffer \<Rightarrow> int \<Rightarrow> DispatchRequest list \<Rightarrow>
     (bool \<times> int \<times> DispatchRequest list) option" where
  "reput_records sched cl sz readSize b from reqs =
     (if readSize < sz
      then do {
        (dispatchRequest, b1) \<leftarrow> checkMessageAndReturnSize sched b False False;
        let n = dr_msgSize dispatchRequest;
        if n > 0
        then reput_records sched cl sz (to_int32 (readSize + to_int32 n)) b1 (from + n) (reqs @ [dispatchRequest])
        else if n = - 1 then Some (False, from, reqs)
        else if n = 0 then do { next \<leftarrow> CommitLog_rollNextFile from cl; Some (True, next, reqs) }
        else reput_records sched cl sz readSize b1 from reqs }
      else Some (True, from, reqs))"

partial_function (option) reput_loop ::
    "ScheduleMessageService \<Rightarrow> CommitLog \<Rightarrow> int \<Rightarrow> DispatchRequest list \<Rightarrow> (int \<times> DispatchRequest list \<times> CommitLog) option" where
  "reput_loop sched cl from reqs =
     do {
       (result, cl1) \<leftarrow> CommitLog_getData from cl;
       (case result of
          None \<Rightarrow> Some (from, reqs, cl1)
        | Some r \<Rightarrow>
            do {
              (doNext, from1, reqs1) \<leftarrow> reput_records sched cl (Size r) 0 (smr_MappedByteBuffer r) (StartOffset r) reqs;
              if doNext then reput_loop sched cl from1 reqs1 else Some (from1, reqs1, cl) }) }"

definition ReputMessageService_doReput :: "DefaultMessageStore \<Rightarrow> DefaultMessageStore option" where
  "ReputMessageService_doReput self =
     (case ms_ReputMessageService self of
        None \<Rightarrow> None
      | Some reput \<Rightarrow>
          do {
            (from, reqs, cl) \<leftarrow> reput_loop (ms_ScheduleMessageService self) (ms_CommitLog self) (reputFromOffset reput) [];
            put_dispatch_requests reqs
              (self\<lparr>ms_ReputMessageService := Some (reput\<lparr>reputFromOffset := from\<rparr>), ms_CommitLog := cl\<rparr>) })"

text \<open>
  \<open>AppendToCommitLog\<close>. On a master there is no re-dispatch service and its \<open>notify\<close> panics; on a slave
  the notification only wakes \<open>doReput\<close>.
\<close>

definition DefaultMessageStore_AppendToCommitLog ::
    "OS \<Rightarrow> int \<Rightarrow> byte list \<Rightarrow> DefaultMessageStore \<Rightarrow> (bool \<times> DefaultMessageStore \<times> OS) option" where
  "DefaultMessageStore_AppendToCommitLog os startOffset data self =
     do {
       (result, cl, os1) \<leftarrow> CommitLog_appendData os startOffset data (ms_CommitLog self);
       if result \<and> ms_ReputMessageService self = None then None
       else Some (result, self\<lparr>ms_CommitLog := cl\<rparr>, os1) }"

section \<open>Start and stop\<close>

definition DefaultMessageStore_isTempFileExist :: "OS \<Rightarrow> DefaultMessageStore \<Rightarrow> bool" where
  "DefaultMessageStore_isTempFileExist os self =
     (case PathExists os (GetAbortFile (StorePathRootDir (ms_config self))) of Inl e \<Rightarrow> False | Inr exist \<Rightarrow> exist)"

definition DefaultMessageStore_createTempFile :: "OS \<Rightarrow> DefaultMessageStore \<Rightarrow> OS" where
  "DefaultMessageStore_createTempFile os self =
     (let abortPath = GetAbortFile (StorePathRootDir (ms_config self));
          storeRootDir = GetParentDirectory abortPath;
          os1 = ensureDirOK os storeRootDir
      in if os_fails os (OsStat storeRootDir) \<or>
            PathExists os storeRootDir = Inr False \<and> os_fails os (OsMkdir storeRootDir) then os1
         else case PathExists os1 abortPath of
                Inl e \<Rightarrow> os1
              | Inr exist \<Rightarrow>
                  if \<not> exist \<and> \<not> os_fails os1 (OsOpen abortPath)
                  then os1\<lparr>os_files := (os_files os1)(abortPath := Some [])\<rparr> else os1)"

definition DefaultMessageStore_deleteFile :: "OS \<Rightarrow> string \<Rightarrow> OS" where
  "DefaultMessageStore_deleteFile os path =
     (case PathExists os path of
        Inr True \<Rightarrow> if os_fails os (OsRemove path) then os else os\<lparr>os_files := (os_files os)(path := None)\<rparr>
      | _ \<Rightarrow> os)"

text \<open>
  \<open>Start\<close>: the goroutines it starts are the steps of this theory or are not modelled.
\<close>

definition DefaultMessageStore_Start :: "OS \<Rightarrow> DefaultMessageStore \<Rightarrow> DefaultMessageStore \<times> OS" where
  "DefaultMessageStore_Start os self =
     (self\<lparr>ms_ReputMessageService := map_option (\<lambda>r. r\<lparr>reputFromOffset := CommitLog_getMaxOffset (ms_CommitLog self)\<rparr>)
                                      (ms_ReputMessageService self), ShutdownFlag := False\<rparr>,
      DefaultMessageStore_createTempFile os self)"

text \<open>
  \<open>Shutdown\<close>. The dispatcher's \<open>select\<close> may serve some more requests before it sees the close signal:
  \<open>served\<close> is their number. What is left in the channel is gone.
\<close>

fun dispatch_steps :: "nat \<Rightarrow> OS \<Rightarrow> DefaultMessageStore \<Rightarrow> (DefaultMessageStore \<times> OS) option" where
  "dispatch_steps 0 os self = Some (self, os)"
| "dispatch_steps (Suc n) os self =
     do { (self1, os1) \<leftarrow> DispatchMessageService_Start_step os self; dispatch_steps n os1 self1 }"

definition DefaultMessageStore_Shutdown :: "nat \<Rightarrow> OS \<Rightarrow> DefaultMessageStore \<Rightarrow> (DefaultMessageStore \<times> OS) option" where
  "DefaultMessageStore_Shutdown served os self =
     (if ShutdownFlag self then Some (self, os)
      else do {
        (self1, os1) \<leftarrow> dispatch_steps served os (self\<lparr>ShutdownFlag := True\<rparr>);
        let self2 = self1\<lparr>ms_DispatchMessageService := (ms_DispatchMessageService self1)\<lparr>requestsChan := []\<rparr>,
                          ms_ReputMessageService := map_option (\<lambda>r. r\<lparr>rms_stoped := True\<rparr>) (ms_ReputMessageService self1)\<rparr>;
        (scp1, os2) \<leftarrow> StoreCheckpoint_flush os1 (ms_StoreCheckpoint self2);
        (scp2, os3) \<leftarrow> StoreCheckpoint_shutdown os2 scp1;
        Some (self2\<lparr>ms_StoreCheckpoint := scp2\<rparr>,
              DefaultMessageStore_deleteFile os3 (GetAbortFile (StorePathRootDir (ms_config self2)))) })"

definition DefaultMessageStore_Destroy :: "OS \<Rightarrow> DefaultMessageStore \<Rightarrow> (DefaultMessageStore \<times> OS) option" where
  "DefaultMessageStore_Destroy os self =
     do {
       (self1, os1) \<leftarrow> DefaultMessageStore_destroyLogics os self;
       let (cl, os2) = CommitLog_destroy os1 (ms_CommitLog self1);
       let (ix, os3) = IndexService_destroy os2 (ms_IndexService self1);
       let root = StorePathRootDir (ms_config self1);
       Some (self1\<lparr>ms_CommitLog := cl, ms_IndexService := ix\<rparr>,
             DefaultMessageStore_deleteFile (DefaultMessageStore_deleteFile os3 (GetAbortFile root)) (GetStoreCheckpoint root)) }"

text \<open>
  Loading. \<open>readDir\<close> is \<open>ioutil.ReadDir\<close>: names with modification times, empty on an error;
  \<open>listFiles\<close> is \<open>fileutil.ListFilesOrDir\<close>.
\<close>

fun load_queues ::
    "(string \<Rightarrow> error + string list) \<Rightarrow> string \<Rightarrow> string list \<Rightarrow> OS \<Rightarrow> DefaultMessageStore \<Rightarrow>
     (bool \<times> DefaultMessageStore \<times> OS) option" where
  "load_queues listFiles topic [] os self = Some (True, self, os)"
| "load_queues listFiles topic (name # names) os self =
     (case ParseInt name of
        Inl e \<Rightarrow> load_queues listFiles topic names os self
      | Inr n \<Rightarrow>
          (let queueId = to_int32 n; logic = new_queue (ms_config self) topic queueId
           in do {
             (ok, logic1, os1) \<leftarrow> ConsumeQueue_load os (listFiles (mfq_storePath (cq_mapedFileQueue logic))) logic;
             let self1 = DefaultMessageStore_putConsumeQueue topic queueId logic1 self;
             if ok then load_queues listFiles topic names os1 self1 else Some (False, self1, os1) }))"

fun load_topics ::
    "(string \<Rightarrow> (string \<times> int) list) \<Rightarrow> (string \<Rightarrow> error + string list) \<Rightarrow> string \<Rightarrow> string list \<Rightarrow> OS \<Rightarrow>
     DefaultMessageStore \<Rightarrow> (bool \<times> DefaultMessageStore \<times> OS) option" where
  "load_topics readDir listFiles dir [] os self = Some (True, self, os)"
| "load_topics readDir listFiles dir (topic # topics) os self =
     do {
       (ok, self1, os1) \<leftarrow> load_queues listFiles topic (map fst (readDir (dir @ ''/'' @ topic))) os self;
       if ok then load_topics readDir listFiles dir topics os1 self1 else Some (False, self1, os1) }"

definition DefaultMessageStore_loadConsumeQueue ::
    "(string \<Rightarrow> (string \<times> int) list) \<Rightarrow> (string \<Rightarrow> error + string list) \<Rightarrow> OS \<Rightarrow> DefaultMessageStore \<Rightarrow>
     (bool \<times> DefaultMessageStore \<times> OS) option" where
  "DefaultMessageStore_loadConsumeQueue readDir listFiles os self =
     (let dirLogicDir = GetStorePathConsumeQueue (StorePathRootDir (ms_config self));
          os1 = (if PathExists os dirLogicDir = Inr True \<or> os_fails os (OsMkdir dirLogicDir) then os
                 else os\<lparr>os_dirs := (os_dirs os)(dirLogicDir := True)\<rparr>)
      in load_topics readDir listFiles dirLogicDir (map fst (readDir dirLogicDir)) os1 self)"

text \<open>
  The recovery after a crash dispatches the messages of the log before the dispatcher is started: when
  there are more of them than its channel holds, loading waits for ever.
\<close>

definition DefaultMessageStore_recover :: "bool \<Rightarrow> OS \<Rightarrow> DefaultMessageStore \<Rightarrow> (DefaultMessageStore \<times> OS) option" where
  "DefaultMessageStore_recover lastExitOK os self =
     do {
       (self1, os1) \<leftarrow> DefaultMessageStore_recoverConsumeQueue os self;
       (self2, os2) \<leftarrow>
         (if lastExitOK
          then map_option (\<lambda>(cl, o1). (self1\<lparr>ms_CommitLog := cl\<rparr>, o1))
                 (CommitLog_recoverNormally (ms_ScheduleMessageService self1) os1 (ms_CommitLog self1))
          else do {
            (trunc, reqs, cl, o1) \<leftarrow> CommitLog_recoverAbnormally (ms_ScheduleMessageService self1)
               (ms_StoreCheckpoint self1) os1 (ms_CommitLog self1);
            s \<leftarrow> put_dispatch_requests reqs (self1\<lparr>ms_CommitLog := cl\<rparr>);
            (case trunc of
               None \<Rightarrow> Some (s, o1)
             | Some processOffset \<Rightarrow> DefaultMessageStore_truncateDirtyLogicFiles o1 processOffset s) });
       self3 \<leftarrow> DefaultMessageStore_recoverTopicQueueTable self2;
       Some (self3, os2) }"

definition DefaultMessageStore_Load ::
    "(string \<Rightarrow> (string \<times> int) list) \<Rightarrow> (string \<Rightarrow> error + string list) \<Rightarrow> OS \<Rightarrow> DefaultMessageStore \<Rightarrow>
     (bool \<times> DefaultMessageStore \<times> OS) option" where
  "DefaultMessageStore_Load readDir listFiles os self =
     (let lastExitOk = \<not> DefaultMessageStore_isTempFileExist os self
      in do {
        (_, cl, os1) \<leftarrow> CommitLog_Load os (listFiles (StorePathCommitLog (ms_config self))) (ms_CommitLog self);
        (_, self1, os2) \<leftarrow> DefaultMessageStore_loadConsumeQueue readDir listFiles os1 (self\<lparr>ms_CommitLog := cl\<rparr>);
        (_, ix, os3) \<leftarrow> IndexService_Load os2 (readDir (is_storePath (ms_IndexService self1))) (ms_IndexService self1);
        (self2, os4) \<leftarrow> DefaultMessageStore_recover lastExitOk os3 (self1\<lparr>ms_IndexService := ix\<rparr>);
        Some (True, self2, os4) })"

end
