(* ===== verification/StoreFlow.thy ===== *)
theory StoreFlow
  imports MessageStoreM
begin

text \<open>
  The store from end to end: what a sequence of puts, dispatches, steps of the index service and gets, interleaved in any
  order, keeps true, and what a consumer then reads. A put may be accepted, refused or find the store not writeable; one
  that waits, for the lock a refused put has left or for room on the dispatcher's channel, is no step.

  Ghost state is, for every queue of a topic, the list of messages accepted for it. The invariant says
  that the consume queue holds a prefix of this list, that the requests waiting in the dispatcher are
  exactly the rest of it, in order, and that every message of it is stored in the commit log.
\<close>

section \<open>The queues of a store\<close>

definition queue_of :: "DefaultMessageStore \<Rightarrow> string \<Rightarrow> int \<Rightarrow> ConsumeQueue" where
  "queue_of ms topic queueId =
     (case map_of (consumeTopicTable ms) topic of
        None \<Rightarrow> new_queue (ms_config ms) topic queueId
      | Some qs \<Rightarrow> (case map_of qs queueId of None \<Rightarrow> new_queue (ms_config ms) topic queueId | Some cq \<Rightarrow> cq))"

lemma map_of_update [simp]: "map_of (AList.update k v al) = (map_of al)(k \<mapsto> v)"
  by (simp add: update_conv')

lemma find_queue:
  assumes "DefaultMessageStore_findConsumeQueue t i ms = (cq, ms1)"
  shows "cq = queue_of ms t i" and "queue_of ms1 = queue_of ms"
    and "ms1 = ms\<lparr>consumeTopicTable := consumeTopicTable ms1\<rparr>"
  using assms
  by (auto simp: DefaultMessageStore_findConsumeQueue_def queue_of_def Let_def fun_eq_iff split: option.splits if_splits)

lemma put_queue:
  "queue_of (DefaultMessageStore_putConsumeQueue t i cq ms) t1 i1 = (if t1 = t \<and> i1 = i then cq else queue_of ms t1 i1)"
  "DefaultMessageStore_putConsumeQueue t i cq ms =
     ms\<lparr>consumeTopicTable := consumeTopicTable (DefaultMessageStore_putConsumeQueue t i cq ms)\<rparr>"
  by (auto simp: DefaultMessageStore_putConsumeQueue_def queue_of_def Let_def split: option.splits)

lemma queue_of_table [simp]:
  "queue_of (ms\<lparr>ms_CommitLog := cl\<rparr>) = queue_of ms" "queue_of (ms\<lparr>ms_DispatchMessageService := d\<rparr>) = queue_of ms"
  "queue_of (ms\<lparr>ms_IndexService := ix\<rparr>) = queue_of ms" "queue_of (ms\<lparr>printTimes := n\<rparr>) = queue_of ms"
  "queue_of (ms\<lparr>ms_StoreCheckpoint := c\<rparr>) = queue_of ms" "queue_of (ms\<lparr>ms_RunningFlags := f\<rparr>) = queue_of ms"
  by (simp_all add: queue_of_def fun_eq_iff split: option.split)

section \<open>Directories\<close>

definition queue_dir :: "MessageStoreConfig \<Rightarrow> string \<Rightarrow> int \<Rightarrow> string" where
  "queue_dir c topic queueId = GetStorePathConsumeQueue (StorePathRootDir c) @ ''/'' @ topic @ ''/'' @ FormatInt queueId"

text \<open>A queue a message may be put to: its topic is a plain name and its number is not negative.\<close>

definition good_queue :: "string \<Rightarrow> int \<Rightarrow> bool" where
  "good_queue topic queueId \<longleftrightarrow> CHR ''/'' \<notin> set topic \<and> 0 \<le> queueId"

text \<open>
  The layout of \<open>NewMessageStoreConfig\<close> on a master, with file sizes that do not wrap and log files that hold the
  largest message.
\<close>

definition good_config :: "MessageStoreConfig \<Rightarrow> bool" where
  "good_config c \<longleftrightarrow> StorePathCommitLog c = StorePathRootDir c @ ''/'' @ ''commitlog'' \<and>
     0 < MapedFileSizeConsumeQueue c \<and> MapedFileSizeConsumeQueue c + 20 < 2 ^ 31 \<and> BrokerRoleConfig c \<noteq> SLAVE \<and>
     0 \<le> MaxMessageSize c \<and> MaxMessageSize c + 8 \<le> MapedFileSizeCommitLog c \<and> MapedFileSizeCommitLog c < 2 ^ 31"

lemma FormatInt_inject: "0 \<le> x \<Longrightarrow> 0 \<le> y \<Longrightarrow> FormatInt x = FormatInt y \<Longrightarrow> x = y"
proof -
  assume p: "0 \<le> x" "0 \<le> y" and "FormatInt x = FormatInt y"
  then have "decimal (nat x) = decimal (nat y)" by (simp add: FormatInt_def)
  then have "decimal_val (decimal (nat x)) = decimal_val (decimal (nat y))" by (rule arg_cong)
  then show ?thesis using p by (simp only: decimal_val_decimal int_nat_eq if_True)
qed

lemma char_split: "c \<notin> set s \<Longrightarrow> c \<notin> set t \<Longrightarrow> s @ c # a = t @ c # b \<longleftrightarrow> s = t \<and> a = b"
proof (induction s arbitrary: t)
  case Nil
  then show ?case by (cases t) auto
next
  case (Cons x s)
  then show ?case by (cases t) auto
qed

lemma queue_dir_inject:
  "good_queue t i \<Longrightarrow> good_queue t1 i1 \<Longrightarrow> queue_dir c t i = queue_dir c t1 i1 \<longleftrightarrow> t = t1 \<and> i = i1"
  using char_split [of "CHR ''/''" t t1 "FormatInt i" "FormatInt i1"] FormatInt_inject [of i i1]
  by (auto simp: queue_dir_def good_queue_def)

lemma queue_path_not_dir:
  assumes "good_queue t i" and "good_queue t1 i1"
  shows "mfq_path (queue_dir c t i) x \<noteq> queue_dir c t1 i1"
proof
  assume "mfq_path (queue_dir c t i) x = queue_dir c t1 i1"
  then have "t @ CHR ''/'' # (FormatInt i @ CHR ''/'' # Offset2FileName x) = t1 @ CHR ''/'' # FormatInt i1"
    by (simp add: queue_dir_def mfq_path_def)
  then have "FormatInt i @ CHR ''/'' # Offset2FileName x = FormatInt i1"
    using char_split [of "CHR ''/''" t t1] assms by (auto simp: good_queue_def)
  then show False using slash_not_in_FormatInt [of i1] by (metis in_set_conv_decomp)
qed

lemma log_dir_apart:
  assumes "good_config c" and "good_queue t i"
  shows "queue_dir c t i \<noteq> StorePathCommitLog c" and "mfq_path (queue_dir c t i) x \<noteq> StorePathCommitLog c"
    and "mfq_path (StorePathCommitLog c) x \<noteq> queue_dir c t i"
  using assms by (auto simp: good_config_def queue_dir_def mfq_path_def GetStorePathConsumeQueue_def)


section \<open>Stored messages and the batch a reader gets\<close>

record entry =
  e_off :: int
  e_tag :: int
  e_bytes :: "byte list"

definition e_len :: "entry \<Rightarrow> int" where
  "e_len e = int (length (e_bytes e))"

definition e_unit :: "entry \<Rightarrow> byte list" where
  "e_unit e = unit_bytes (e_off e) (e_len e) (e_tag e)"

definition entry_ok :: "CommitLog \<Rightarrow> entry \<Rightarrow> bool" where
  "entry_ok cl e \<longleftrightarrow> log_has cl (e_off e) (e_bytes e) \<and> unit_ok (e_off e, e_len e, e_tag e)"

text \<open>
  The reference for the batch: the matching messages in order, up to the limit of 800 units and the
  limits on bytes and messages. The result has the messages, how many units were passed, and the last
  physical offset that was looked at.
\<close>

fun batch ::
    "DefaultMessageStore \<Rightarrow> (int \<Rightarrow> bool) \<Rightarrow> int \<Rightarrow> int \<Rightarrow> nat \<Rightarrow> int \<Rightarrow> int \<Rightarrow> int \<Rightarrow> entry list \<Rightarrow>
     entry list \<times> nat \<times> int" where
  "batch ms matched maxMsgNums ende seen bytes count lst [] = ([], seen, lst)"
| "batch ms matched maxMsgNums ende seen bytes count lst (e # es) =
     (if 800 \<le> seen then ([], seen, lst)
      else if DefaultMessageStore_isTheBatchFull ms (e_len e) maxMsgNums (to_int32 bytes) (to_int32 count)
                (DefaultMessageStore_checkInDiskByCommitOffset ms (e_off e) ende)
      then ([], seen, e_off e)
      else if matched (e_tag e)
      then apfst (Cons e) (batch ms matched maxMsgNums ende (Suc seen) (bytes + e_len e) (count + 1) (e_off e) es)
      else batch ms matched maxMsgNums ende (Suc seen) bytes count (e_off e) es)"

definition gets :: "GetMessageResult \<Rightarrow> entry list \<Rightarrow> bool" where
  "gets res es \<longleftrightarrow> map (\<lambda>r. MappedByteBuffer_Bytes (smr_MappedByteBuffer r)) (MessageMapedList res) = map (\<lambda>e. Some (e_bytes e)) es \<and>
     map StartOffset (MessageMapedList res) = map e_off es \<and>
     MessageBufferList res = map smr_MappedByteBuffer (MessageMapedList res) \<and>
     BufferTotalSize res = (\<Sum>e \<leftarrow> es. e_len e)"

lemma entry_ok_pos: "entry_ok cl e \<Longrightarrow> 0 < e_len e"
  by (simp add: entry_ok_def log_has_def e_len_def)

lemma sum_len_pos: "\<forall>e \<in> set es. entry_ok cl e \<Longrightarrow> es \<noteq> [] \<Longrightarrow> 0 < (\<Sum>e \<leftarrow> es. e_len e)"
proof -
  have "0 \<le> (\<Sum>e \<leftarrow> xs. e_len e)" for xs by (induction xs) (auto simp: e_len_def)
  then show "\<forall>e \<in> set es. entry_ok cl e \<Longrightarrow> es \<noteq> [] \<Longrightarrow> ?thesis"
    by (cases es) (auto intro!: add_pos_nonneg dest: entry_ok_pos)
qed

lemma gets_add:
  assumes "gets res es" and "MMapBuf (smr_MappedByteBuffer r) = e_bytes e" and "StartOffset r = e_off e" and "Size r = e_len e"
    and "WritePos (smr_MappedByteBuffer r) = e_len e"
  shows "gets (GetMessageResult_addMessage r res) (es @ [e])"
  using assms by (simp add: gets_def GetMessageResult_addMessage_def MappedByteBuffer_Bytes_def e_len_def)

lemma read_unit_at:
  assumes "at_cursor b (e_unit e @ rest)" and "unit_ok (e_off e, e_len e, e_tag e)"
  shows "\<exists>b1 b2 b3. MappedByteBuffer_ReadInt64 b = Some (e_off e, b1) \<and> MappedByteBuffer_ReadInt32 b1 = Some (e_len e, b2) \<and>
     MappedByteBuffer_ReadInt64 b2 = Some (e_tag e, b3) \<and> at_cursor b3 rest \<and> WritePos b3 = WritePos b"
proof -
  let ?u = "Int64ToBytes (e_off e)" and ?v = "Int32ToBytes (e_len e)" and ?w = "Int64ToBytes (e_tag e)"
  have a: "at_cursor b (?u @ ?v @ ?w @ rest)" using assms(1) by (simp add: e_unit_def unit_bytes_def)
  have l: "length ?u = 8" "length ?v = 4" "length ?w = 8" by (simp_all add: i64.length_enc i32.length_enc)
  note a1 = at_cursor_adv [OF a, unfolded l] note a2 = at_cursor_adv [OF a1, unfolded l]
  note a3 = at_cursor_adv [OF a2, unfolded l]
  show ?thesis
    using Read_adv [OF a l(1)] Read_adv [OF a1 l(2)] Read_adv [OF a2 l(3)] a3 assms(2)
    by (simp add: MappedByteBuffer_ReadInt64_def MappedByteBuffer_ReadInt32_def unit_ok_def
        i64.dec_enc_self i32.dec_enc_self)
qed

text \<open>The loop of \<open>GetMessage\<close> computes the batch.\<close>

lemma get_loop_batch:
  assumes "cl_inv cl" and "\<forall>e \<in> set (es0 @ es). entry_ok cl e" and "gets res es0"
    and "at_cursor b (concat (map e_unit es))" and "WritePos b \<noteq> 0" and "sz = 20 * (int seen + int (length es))"
    and "status = (if es0 = [] then NO_MATCHED_MESSAGE else FOUND)" and "seen \<le> 800"
    and "MapedFileQueue_getMaxOffset (cl_MapedFileQueue cl) = ende"
    and "batch ms matched maxN ende seen (BufferTotalSize res) (int (length es0)) lst es = (bs, seen1, lst1)"
  shows "\<exists>res1 cl1. get_loop ms matched maxN sz (20 * int seen) b LongMinValue lst status res cl =
       Some (20 * int seen1, lst1, if es0 @ bs = [] then NO_MATCHED_MESSAGE else FOUND, res1, cl1) \<and>
     gets res1 (es0 @ bs) \<and> cl_same cl cl1"
  using assms
proof (induction es arbitrary: cl es0 res b seen status lst bs)
  case Nil
  have "in_int 32 (20 * int seen)" using Nil.prems(8) by (simp add: in_int_def)
  then show ?case using Nil.prems by (subst get_loop.simps) (simp add: to_int32_id)
next
  case (Cons e es)
  have i32: "in_int 32 (20 * int seen)" using Cons.prems(8) by (simp add: in_int_def)
  show ?case
  proof (cases "800 \<le> seen")
    case True
    then show ?thesis using Cons.prems by (subst get_loop.simps) auto
  next
    case False
    have eok: "entry_ok cl e" and uok: "unit_ok (e_off e, e_len e, e_tag e)" and has: "log_has cl (e_off e) (e_bytes e)"
      using Cons.prems(2) by (auto simp: entry_ok_def)
    obtain b1 b2 b3 where rd: "MappedByteBuffer_ReadInt64 b = Some (e_off e, b1)" "MappedByteBuffer_ReadInt32 b1 = Some (e_len e, b2)"
        "MappedByteBuffer_ReadInt64 b2 = Some (e_tag e, b3)" "at_cursor b3 (concat (map e_unit es))" "WritePos b3 = WritePos b"
      using read_unit_at [OF _ uok] Cons.prems(4) by fastforce
    have lt: "to_int32 (20 * int seen) < sz \<and> 20 * int seen < 16000" using False i32 Cons.prems(6) by (simp add: to_int32_id)
    have cnt: "GetMessageResult_GetMessageCount res = int (length es0)"
      using Cons.prems(3) by (simp add: gets_def GetMessageResult_GetMessageCount_def) (metis length_map)
    let ?full = "DefaultMessageStore_isTheBatchFull ms (e_len e) maxN (to_int32 (BufferTotalSize res)) (to_int32 (int (length es0)))
                (DefaultMessageStore_checkInDiskByCommitOffset ms (e_off e) ende)"
    note step = get_loop.simps [of ms matched maxN sz "20 * int seen" b LongMinValue lst status res cl]
    have next_i: "20 * int seen + CQStoreUnitSize = 20 * int (Suc seen)" by (simp add: CQStoreUnitSize_def)
    have sz: "sz = 20 * (int (Suc seen) + int (length es))" using Cons.prems(6) by simp
    have bt: "BufferTotalSize res = (\<Sum>e \<leftarrow> es0. e_len e)" using Cons.prems(3) by (simp add: gets_def)
    show ?thesis
    proof (cases ?full)
      case True
      then show ?thesis
        using step lt rd cnt Cons.prems False by simp
    next
      case nf: False
      show ?thesis
      proof (cases "matched (e_tag e)")
        case True
        obtain r cl1 where g: "CommitLog_getMessage (e_off e) (e_len e) cl = Some (Some r, cl1)" "cl_same cl cl1"
            "MMapBuf (smr_MappedByteBuffer r) = e_bytes e" "StartOffset r = e_off e" "Size r = e_len e"
            "WritePos (smr_MappedByteBuffer r) = e_len e"
          using getMessage_at [OF Cons.prems(1) has] by (auto simp: e_len_def)
        obtain bs' where bs: "bs = e # bs'" "batch ms matched maxN ende (Suc seen) (BufferTotalSize (GetMessageResult_addMessage r res))
            (int (length (es0 @ [e]))) (e_off e) es = (bs', seen1, lst1)"
          using Cons.prems(10) False nf True g(5)
          by (auto simp: GetMessageResult_addMessage_def apfst_def map_prod_def add.commute split: prod.splits)
        have "cl_inv cl1" "\<forall>x \<in> set ((es0 @ [e]) @ es). entry_ok cl1 x" "MapedFileQueue_getMaxOffset (cl_MapedFileQueue cl1) = ende"
          using g(2) Cons.prems(1,2,9) cl_same_has [OF g(2)] by (auto simp: cl_same_def entry_ok_def CommitLog_getMaxOffset_def)
        from Cons.IH [OF this(1,2) gets_add [OF Cons.prems(3) g(3-6)] rd(4) _ sz _ _ this(3) bs(2), of FOUND]
        show ?thesis
          using step lt rd cnt nf True g(1,2) False Cons.prems(5,9) next_i bs(1)
          by (auto intro: cl_same_trans)
      next
        case nm: False
        have st: "(if BufferTotalSize res = 0 then NO_MATCHED_MESSAGE else status) = (if es0 = [] then NO_MATCHED_MESSAGE else FOUND)"
          using bt sum_len_pos [of es0 cl] Cons.prems(2,7) by (cases "es0 = []") auto
        have "batch ms matched maxN ende (Suc seen) (BufferTotalSize res) (int (length es0)) (e_off e) es = (bs, seen1, lst1)"
          using Cons.prems(10) False nf nm by simp
        from Cons.IH [OF Cons.prems(1) _ Cons.prems(3) rd(4) _ sz refl _ Cons.prems(9) this]
        show ?thesis
          using step lt rd cnt nf nm False Cons.prems(2,5,9) next_i st by auto
      qed
    qed
  qed
qed


section \<open>The invariant\<close>

definition visible :: "int \<Rightarrow> bool" where
  "visible sysFlag \<longleftrightarrow> GetTransactionValue sysFlag = TransactionNotType \<or> GetTransactionValue sysFlag = TransactionCommitType"

text \<open>A consume queue that holds exactly the first \<open>n\<close> of the messages.\<close>

definition queue_inv :: "OS \<Rightarrow> string \<Rightarrow> ConsumeQueue \<Rightarrow> entry list \<Rightarrow> nat \<Rightarrow> bool" where
  "queue_inv os dir cq es n \<longleftrightarrow> cq_state_inv (os, cq) \<and> mfq_storePath (cq_mapedFileQueue cq) = dir \<and>
     minLogicOffset cq = 0 \<and> mfq_base (cq_mapedFileQueue cq) = 0 \<and> n \<le> length es \<and>
     mfq_bytes (cq_mapedFileQueue cq) = concat (map e_unit (take n es)) \<and>
     maxPhysicOffset cq = (if n = 0 then - 1 else e_off (es ! (n - 1)))"

lemma length_units [simp]: "length (concat (map e_unit es)) = 20 * length es"
  by (induction es) (simp_all add: e_unit_def)

lemma queue_inv_max:
  assumes "queue_inv os dir cq es n"
  shows "MapedFileQueue_getMaxOffset (cq_mapedFileQueue cq) = 20 * int n" and "ConsumeQueue_getMaxOffsetInQueue cq = int n"
proof -
  have "mfq_inv (cq_mapedFileQueue cq)" using assms by (simp add: queue_inv_def cq_state_inv_def cq_inv_def)
  from getMaxOffset_bytes [OF this] show m: "MapedFileQueue_getMaxOffset (cq_mapedFileQueue cq) = 20 * int n"
    using assms by (simp add: queue_inv_def)
  show "ConsumeQueue_getMaxOffsetInQueue cq = int n"
    by (simp add: ConsumeQueue_getMaxOffsetInQueue_def m CQStoreUnitSize_def sdiv_nonneg)
qed

lemma queue_inv_only:
  assumes "queue_inv os dir cq es n" and "os_only d os os1" and "dir \<noteq> d" and "\<forall>x. mfq_path dir x \<noteq> d"
  shows "queue_inv os1 dir cq es n"
  using assms mfq_ahead_only [OF _ assms(2)] by (auto simp: queue_inv_def cq_state_inv_def)

lemma queue_inv_snoc: "queue_inv os dir cq es n \<Longrightarrow> queue_inv os dir cq (es @ [e]) n"
  by (auto simp: queue_inv_def nth_append)

text \<open>Dispatching the next message.\<close>

lemma put_entry:
  assumes "queue_inv os dir cq es n" and "n < length es" and "unit_ok (e_off (es ! n), e_len (es ! n), e_tag (es ! n))"
    and "sorted_wrt (<) (map e_off es)" and "0 \<le> e_off (es ! n)" and "int n < 2 ^ 58"
  shows "\<exists>cq1 os1. ConsumeQueue_putMessagePostionInfo os (e_off (es ! n)) (e_len (es ! n)) (e_tag (es ! n)) (int n) cq =
       Some (True, cq1, os1) \<and> queue_inv os1 dir cq1 es (Suc n) \<and> os_only dir os os1"
proof -
  let ?q = "cq_mapedFileQueue cq" and ?e = "es ! n"
  note m = queue_inv_max [OF assms(1)]
  have i: "cq_inv cq" "mfq_ahead os ?q" "cq_mapedFileSize cq < 2 ^ 31" "mfq_inv ?q" "mfq_base ?q = 0" "minLogicOffset cq = 0"
      "mfq_storePath ?q = dir" "mfq_bytes ?q = concat (map e_unit (take n es))"
    using assms(1) by (auto simp: queue_inv_def cq_state_inv_def cq_inv_def)
  have phy: "maxPhysicOffset cq < e_off ?e"
    using assms(1,2,5) sorted_wrt_nth_less [OF assms(4), of "n - 1" n] by (auto simp: queue_inv_def)
  have s32: "in_int 32 (e_len ?e)" using assms(3) by (simp add: unit_ok_def)
  have cap: "20 * int n + cq_mapedFileSize cq < 2 ^ 63" using assms(6) i(3) by simp
  obtain cq1 os1 blank where p: "ConsumeQueue_putMessagePostionInfo os (e_off ?e) (e_len ?e) (e_tag ?e) (int n) cq = Some (True, cq1, os1)"
      "cq_inv cq1" "mfq_ahead os1 (cq_mapedFileQueue cq1)" "maxPhysicOffset cq1 = e_off ?e" "cq_mapedFileSize cq1 = cq_mapedFileSize cq"
      "MapedFileQueue_getMaxOffset (cq_mapedFileQueue cq1) = 20 * int n + 20"
      "mfq_bytes (cq_mapedFileQueue cq1) = mfq_bytes ?q @ replicate blank 0 @ e_unit ?e"
      "if mapedFiles ?q = [] then mfq_base (cq_mapedFileQueue cq1) = 20 * int n - (20 * int n) mod cq_mapedFileSize cq
       else mfq_base (cq_mapedFileQueue cq1) = mfq_base ?q"
      "minLogicOffset cq1 = minLogicOffset cq \<or> minLogicOffset cq1 = 20 * int n \<and> mfq_bytes ?q = []"
    using put_unit [OF i(1,2) _ _ cap phy s32, of "e_tag ?e"] m(1) by (auto simp: e_unit_def split: if_splits)
  have n0: "n = 0" if "mapedFiles ?q = []" using that m(1) by (simp add: MapedFileQueue_getMaxOffset_def)
  have base: "mfq_base (cq_mapedFileQueue cq1) = 0" using p(8) i(5) n0 by (auto split: if_splits)
  have "mfq_inv (cq_mapedFileQueue cq1)" using p(2) by (simp add: cq_inv_def)
  from getMaxOffset_bytes [OF this] have "blank = 0" using p(6,7) base i(8) assms(2) by (simp add: e_unit_def)
  then have bytes: "mfq_bytes (cq_mapedFileQueue cq1) = concat (map e_unit (take (Suc n) es))"
    using p(7) i(8) assms(2) by (simp add: take_Suc_conv_app_nth)
  have "n = 0" if "mfq_bytes ?q = []" using that arg_cong [OF i(8), of length] assms(2) by simp
  then have min: "minLogicOffset cq1 = 0" using p(9) i(6) by auto
  have alloc: "allocateMapedFileService ?q = None" using i(2) by (simp add: mfq_ahead_def)
  note k = putMessagePostionInfo_keeps [OF alloc p(1), unfolded i(7)]
  have "queue_inv os1 dir cq1 es (Suc n)"
    using p base bytes min k(2) i(3) assms(2) by (simp add: queue_inv_def cq_state_inv_def)
  with p(1) k(1) show ?thesis by blast
qed

text \<open>The messages of one queue, the requests that wait for it, and the state of the store.\<close>

definition pending :: "DefaultMessageStore \<Rightarrow> string \<Rightarrow> int \<Rightarrow> DispatchRequest list" where
  "pending ms t i = filter (\<lambda>r. dr_topic r = t \<and> dr_queueId r = i \<and> visible (dr_sysFlag r))
     (requestsChan (ms_DispatchMessageService ms))"

fun req_for :: "DispatchRequest \<Rightarrow> nat \<times> entry \<Rightarrow> bool" where
  "req_for r (k, e) \<longleftrightarrow> dr_commitLogOffset r = e_off e \<and> dr_msgSize r = e_len e \<and> dr_tagsCode r = e_tag e \<and>
     dr_consumeQueueOffset r = int k"

definition stored :: "DefaultMessageStore \<Rightarrow> string \<Rightarrow> int \<Rightarrow> nat" where
  "stored ms t i = nat (ConsumeQueue_getMaxOffsetInQueue (queue_of ms t i))"

definition next_offset_of :: "CommitLog \<Rightarrow> string \<Rightarrow> int \<Rightarrow> int" where
  "next_offset_of cl t i = (case TopicQueueTable cl (topic_key t i) of None \<Rightarrow> 0 | Some v \<Rightarrow> v)"

definition entries_inv :: "CommitLog \<Rightarrow> string \<Rightarrow> int \<Rightarrow> entry list \<Rightarrow> bool" where
  "entries_inv cl t i es \<longleftrightarrow> (\<forall>e \<in> set es. entry_ok cl e \<and> 0 \<le> e_off e) \<and> sorted_wrt (<) (map e_off es) \<and>
     next_offset_of cl t i = int (length es) \<and> int (length es) \<le> 2 ^ 58"

type_synonym accepted = "string \<Rightarrow> int \<Rightarrow> entry list"

definition scp_ok :: "StoreCheckpoint \<Rightarrow> bool" where
  "scp_ok scp \<longleftrightarrow> Limit (scp_mappedByteBuffer scp) = int (length (MMapBuf (scp_mappedByteBuffer scp))) \<and>
     24 \<le> length (MMapBuf (scp_mappedByteBuffer scp))"

text \<open>
  The invariant says nothing about the mutex of the log and the running flags: a store whose mutex a refused
  put has left locked, or that has stopped taking messages after an error, still serves its readers.
\<close>

definition store_inv :: "OS \<Rightarrow> DefaultMessageStore \<Rightarrow> accepted \<Rightarrow> bool" where
  "store_inv os ms E \<longleftrightarrow> (let cl = ms_CommitLog ms; c = ms_config ms in
     good_config c \<and> cl_config cl = c \<and> cl_inv cl \<and> mfq_ahead os (cl_MapedFileQueue cl) \<and>
     mfq_storePath (cl_MapedFileQueue cl) = StorePathCommitLog c \<and> \<not> ShutdownFlag ms \<and>
     \<not> dms_stop (ms_DispatchMessageService ms) \<and> scp_ok (ms_StoreCheckpoint ms) \<and>
     is_storePath (ms_IndexService ms) = GetStorePathIndex (StorePathRootDir c) \<and>
     (\<forall>r \<in> set (requestsChan (ms_DispatchMessageService ms)). visible (dr_sysFlag r) \<longrightarrow> good_queue (dr_topic r) (dr_queueId r)) \<and>
     (\<forall>t i. good_queue t i \<longrightarrow> entries_inv cl t i (E t i) \<and> queue_inv os (queue_dir c t i) (queue_of ms t i) (E t i) (stored ms t i) \<and>
        list_all2 req_for (pending ms t i) (enumerate (stored ms t i) (drop (stored ms t i) (E t i)))))"


section \<open>Putting a message\<close>

lemma topic_key_inject:
  assumes "0 \<le> i" and "0 \<le> i1"
  shows "topic_key t i = topic_key t1 i1 \<longleftrightarrow> t = t1 \<and> i = i1"
proof -
  have d: "CHR ''-'' \<notin> set (rev (FormatInt x))" if "0 \<le> x" for x
  proof -
    have "CHR ''-'' \<notin> set s" if "list_all is_digit s" for s using that by (induction s) (auto simp: is_digit_def)
    then show ?thesis using list_all_decimal that by (simp add: FormatInt_def)
  qed
  have "topic_key t i = topic_key t1 i1 \<longleftrightarrow> rev (topic_key t i) = rev (topic_key t1 i1)" by (rule rev_is_rev_conv [symmetric])
  also have "\<dots> \<longleftrightarrow> FormatInt i = FormatInt i1 \<and> t = t1"
    using char_split [OF d [OF assms(1)] d [OF assms(2)], of "rev t" "rev t1"] by (simp add: topic_key_def)
  finally show ?thesis using FormatInt_inject [OF assms] by auto
qed

lemma next_offset_is_end: "mfq_inv q \<Longrightarrow> next_offset 0 q = mfq_end q"
  using next_offset_nonempty [of q 0]
  by (cases "mapedFiles q = []") (simp_all add: next_offset_def mfq_end_def mfq_base_def mfq_inv_def smod_nonneg)

lemma getMaxOffset_less:
  assumes "mfq_inv q"
  shows "MapedFileQueue_getMaxOffset q < 2 ^ 63"
proof (cases "mapedFiles q = []")
  case False
  let ?S = "mfq_mapedFileSize q" and ?n = "length (mapedFiles q)"
  have la: "file_at (mfq_storePath q) ?S (mfq_base q + int (?n - 1) * ?S) (last (mapedFiles q))"
    using assms False files_from_last by (auto simp: mfq_inv_def)
  have "int ?n * ?S = int (?n - 1) * ?S + ?S" using False by (cases "mapedFiles q") (simp_all add: distrib_right)
  then show ?thesis
    using la False assms by (simp add: MapedFileQueue_getMaxOffset_def Let_def file_at_def mf_inv_def mfq_inv_def)
qed (simp add: MapedFileQueue_getMaxOffset_def)

definition new_entry :: "MessageExtBrokerInner \<Rightarrow> AppendMessageResult \<Rightarrow> entry" where
  "new_entry m r = \<lparr>e_off = WroteOffset r, e_tag = m_TagsCode m, e_bytes = record_bytes m (LogicsOffset r) (WroteOffset r)\<rparr>"

text \<open>A message that is only prepared or rolled back is stored, but no reader sees it.\<close>

definition accept :: "MessageExtBrokerInner \<Rightarrow> AppendMessageResult \<Rightarrow> accepted \<Rightarrow> accepted" where
  "accept m r E = (\<lambda>t i. if visible (m_SysFlag m) \<and> t = m_Topic m \<and> i = m_QueueId m then E t i @ [new_entry m r] else E t i)"

lemma entries_after_put:
  assumes "entries_inv cl t i es" and "good_queue t i" and "good_queue (m_Topic m) (m_QueueId m)"
    and "put_done m (next_queue_offset m (TopicQueueTable cl)) cl r cl1" and "cl_inv cl" and "cl_frame os cl os1 cl1"
    and "msg_fits m" and "in_int 64 (m_TagsCode m)" and "int (length es) < 2 ^ 58"
    and "mine \<longleftrightarrow> visible (m_SysFlag m) \<and> t = m_Topic m \<and> i = m_QueueId m"
  shows "entries_inv cl1 t i (if mine then es @ [new_entry m r] else es)"
proof -
  let ?k = "next_queue_offset m (TopicQueueTable cl)"
  note h = put_done_has [OF assms(4-7)]
  have d: "cl_inv cl1" "LogicsOffset r = ?k" "TopicQueueTable cl1 = table_after m ?k (TopicQueueTable cl)"
      "WroteOffset r + WroteBytes r = CommitLog_getMaxOffset cl1" "WroteBytes r = msg_len m"
    using assms(4) by (auto simp: put_done_def)
  have old: "\<forall>e \<in> set es. entry_ok cl1 e \<and> 0 \<le> e_off e" "sorted_wrt (<) (map e_off es)"
      "next_offset_of cl t i = int (length es)"
    using assms(1) h(2) by (auto simp: entries_inv_def entry_ok_def)
  have key: "topic_key t i = topic_key (m_Topic m) (m_QueueId m) \<longleftrightarrow> t = m_Topic m \<and> i = m_QueueId m"
    using topic_key_inject [of i "m_QueueId m" t "m_Topic m"] assms(2,3) by (simp add: good_queue_def)
  have nxt: "next_offset_of cl1 t i = (if mine then int (length es) + 1 else int (length es))"
    using old(3) key assms(10) by (auto simp: next_offset_of_def d(3) table_after_def visible_def next_queue_offset_def Let_def)
  have len: "int (length (record_bytes m ?k (WroteOffset r))) = msg_len m" using assms(7) by (rule length_record)
  have "CommitLog_getMaxOffset cl1 < 2 ^ 63"
    using d(1) getMaxOffset_less [of "cl_MapedFileQueue cl1"] by (simp add: cl_inv_def CommitLog_getMaxOffset_def)
  then have "in_int 64 (WroteOffset r)" using d(4,5) h(4) len by (simp add: in_int_def)
  moreover have "in_int 32 (msg_len m)" using assms(7) by (simp add: msg_len_eq msg_fits_def in_int_def)
  ultimately have new: "entry_ok cl1 (new_entry m r)"
    using h(1) d(2) len assms(8) by (simp add: entry_ok_def new_entry_def e_len_def unit_ok_def)
  have "e_off e < WroteOffset r" if "e \<in> set es" for e
  proof -
    have ok: "entry_ok cl e" using assms(1) that by (simp add: entries_inv_def)
    then have "e_off e + e_len e \<le> CommitLog_getMaxOffset cl" by (simp add: entry_ok_def log_has_def e_len_def)
    then show ?thesis using entry_ok_pos [OF ok] h(3) by linarith
  qed
  then show ?thesis
    using old new nxt h(4) assms(9) by (auto simp: entries_inv_def sorted_wrt_append new_entry_def)
qed


lemma store_invD:
  assumes "store_inv os ms E"
  shows "good_config (ms_config ms)" "cl_config (ms_CommitLog ms) = ms_config ms" "cl_inv (ms_CommitLog ms)"
    "mfq_ahead os (cl_MapedFileQueue (ms_CommitLog ms))"
    "mfq_storePath (cl_MapedFileQueue (ms_CommitLog ms)) = StorePathCommitLog (ms_config ms)" "\<not> ShutdownFlag ms"
    "\<not> dms_stop (ms_DispatchMessageService ms)"
    "\<forall>r \<in> set (requestsChan (ms_DispatchMessageService ms)). visible (dr_sysFlag r) \<longrightarrow> good_queue (dr_topic r) (dr_queueId r)"
    "scp_ok (ms_StoreCheckpoint ms)" "is_storePath (ms_IndexService ms) = GetStorePathIndex (StorePathRootDir (ms_config ms))"
  using assms by (simp_all add: store_inv_def Let_def)

lemma store_inv_queue:
  assumes "store_inv os ms E" and "good_queue t i"
  shows "entries_inv (ms_CommitLog ms) t i (E t i)"
    "queue_inv os (queue_dir (ms_config ms) t i) (queue_of ms t i) (E t i) (stored ms t i)"
    "list_all2 req_for (pending ms t i) (enumerate (stored ms t i) (drop (stored ms t i) (E t i)))"
  using assms by (simp_all add: store_inv_def Let_def)

lemma store_invI:
  assumes "good_config (ms_config ms)" "cl_config (ms_CommitLog ms) = ms_config ms" "cl_inv (ms_CommitLog ms)"
    "mfq_ahead os (cl_MapedFileQueue (ms_CommitLog ms))"
    "mfq_storePath (cl_MapedFileQueue (ms_CommitLog ms)) = StorePathCommitLog (ms_config ms)" "\<not> ShutdownFlag ms"
    "\<not> dms_stop (ms_DispatchMessageService ms)"
    "\<forall>r \<in> set (requestsChan (ms_DispatchMessageService ms)). visible (dr_sysFlag r) \<longrightarrow> good_queue (dr_topic r) (dr_queueId r)"
    "scp_ok (ms_StoreCheckpoint ms)" "is_storePath (ms_IndexService ms) = GetStorePathIndex (StorePathRootDir (ms_config ms))"
    "\<And>t i. good_queue t i \<Longrightarrow> entries_inv (ms_CommitLog ms) t i (E t i)"
    "\<And>t i. good_queue t i \<Longrightarrow> queue_inv os (queue_dir (ms_config ms) t i) (queue_of ms t i) (E t i) (stored ms t i)"
    "\<And>t i. good_queue t i \<Longrightarrow> list_all2 req_for (pending ms t i) (enumerate (stored ms t i) (drop (stored ms t i) (E t i)))"
  shows "store_inv os ms E"
  using assms by (simp add: store_inv_def Let_def)

lemma pending_snoc:
  assumes "list_all2 req_for ps (enumerate n (drop n es))" and "n \<le> length es" and "req_for r (length es, e)"
  shows "list_all2 req_for (ps @ [r]) (enumerate n (drop n (es @ [e])))"
  using assms by (simp add: enumerate_append_eq list_all2_appendI)

text \<open>
  A put the store takes: the queue is a good one, every field is in the range of its type and the record is not too
  long; no refused put has left the mutex locked, the store is writable and the dispatcher's channel has room; and the
  offsets have not come close to the end of their range.
\<close>

definition dispatcher_room :: "DefaultMessageStore \<Rightarrow> bool" where
  "dispatcher_room ms \<longleftrightarrow> int (length (requestsChan (ms_DispatchMessageService ms))) < requestsCap (ms_DispatchMessageService ms)"

definition put_args :: "int \<Rightarrow> int \<Rightarrow> MessageExtBrokerInner \<Rightarrow> DefaultMessageStore \<Rightarrow> accepted \<Rightarrow> bool" where
  "put_args storeNow lockNow msg ms E \<longleftrightarrow> (let m = stamped storeNow lockNow msg; cl = ms_CommitLog ms in
     good_queue (m_Topic m) (m_QueueId m) \<and> msg_fits m \<and> msg_len m \<le> cl_maxMessageSize cl \<and> in_int 64 (m_TagsCode m) \<and>
     mfq_end (cl_MapedFileQueue cl) + MapedFileSizeCommitLog (ms_config ms) < 2 ^ 63 \<and>
     (\<forall>t i. int (length (E t i)) < 2 ^ 58) \<and>
     \<not> cl_locked cl \<and> RunningFlags_isWriteable (ms_RunningFlags ms) \<and> dispatcher_room ms)"

lemma put_step:
  assumes "store_inv os ms E" and "put_args storeNow lockNow msg ms E" and "m = stamped storeNow lockNow msg"
  shows "\<exists>r ms1 os1. DefaultMessageStore_PutMessage storeNow lockNow flushOk os msg ms =
       Some (Some \<lparr>pmr_PutMessageStatus = put_status flushOk m (ms_CommitLog ms), pmr_AppendMessageResult = Some r\<rparr>, ms1, os1) \<and>
     LogicsOffset r = int (length (E (m_Topic m) (m_QueueId m))) \<and> store_inv os1 ms1 (accept m r E) \<and>
     stored ms1 = stored ms \<and> ms_config ms1 = ms_config ms \<and> os_only (StorePathCommitLog (ms_config ms)) os os1 \<and>
     Status r = APPENDMESSAGE_PUT_OK \<and> \<not> cl_locked (ms_CommitLog ms1) \<and> ms_RunningFlags ms1 = ms_RunningFlags ms \<and>
     ms_IndexService ms1 = ms_IndexService ms \<and>
     requestsChan (ms_DispatchMessageService ms1) = requestsChan (ms_DispatchMessageService ms) @ [dispatch_of m r] \<and>
     requestsCap (ms_DispatchMessageService ms1) = requestsCap (ms_DispatchMessageService ms)"
proof -
  let ?cl = "ms_CommitLog ms" and ?k = "next_queue_offset m (TopicQueueTable (ms_CommitLog ms))"
  note inv = store_invD [OF assms(1)]
  have a: "good_queue (m_Topic m) (m_QueueId m)" "msg_fits m" "msg_len m \<le> cl_maxMessageSize ?cl" "in_int 64 (m_TagsCode m)"
      "mfq_end (cl_MapedFileQueue ?cl) + MapedFileSizeCommitLog (ms_config ms) < 2 ^ 63" "\<And>t i. int (length (E t i)) < 2 ^ 58"
      "\<not> cl_locked ?cl" "RunningFlags_isWriteable (ms_RunningFlags ms)" "dispatcher_room ms"
    using assms(2,3) by (simp_all add: put_args_def Let_def)
  have q: "mfq_inv (cl_MapedFileQueue ?cl)" "mfq_mapedFileSize (cl_MapedFileQueue ?cl) = MapedFileSizeCommitLog (ms_config ms)"
    using inv(2,3) by (simp_all add: cl_inv_def)
  have "can_grow os 0 (cl_MapedFileQueue ?cl)"
    using can_grow_ahead [OF q(1) inv(4), of 0] next_offset_is_end [OF q(1)] a(5) q(2) by simp
  from putMessage_stores_frame [OF inv(3) a(7) this assms(3) a(2,3), of flushOk] obtain r cl1 os1 where
    p: "CommitLog_putMessage storeNow lockNow flushOk os msg ?cl =
        Some (Some \<lparr>pmr_PutMessageStatus = put_status flushOk m ?cl, pmr_AppendMessageResult = Some r\<rparr>, [dispatch_of m r], cl1, os1)"
      "put_done m ?k ?cl r cl1" "\<not> cl_locked cl1" "cl_frame os ?cl os1 cl1" by blast
  have msg: "m_Topic msg = m_Topic m" "m_PropertiesString msg = m_PropertiesString m" by (simp_all add: assms(3) stamped_def)
  define ms1 where "ms1 = ms\<lparr>printTimes := 0, ms_CommitLog := cl1, ms_DispatchMessageService := (ms_DispatchMessageService ms)
      \<lparr>requestsChan := requestsChan (ms_DispatchMessageService ms) @ [dispatch_of m r],
       requestSize := to_int32 (requestSize (ms_DispatchMessageService ms) + 1)\<rparr>\<rparr>"
  have put: "DefaultMessageStore_PutMessage storeNow lockNow flushOk os msg ms =
       Some (Some \<lparr>pmr_PutMessageStatus = put_status flushOk m ?cl, pmr_AppendMessageResult = Some r\<rparr>, ms1, os1)"
    using inv(1,6,7) a(2,8,9) p(1)
    by (simp add: DefaultMessageStore_PutMessage_def good_config_def msg msg_fits_def ms1_def dispatcher_room_def
        DefaultMessageStore_putDispatchRequest_def DispatchMessageService_putRequest_def)
  have f: "ms_config ms1 = ms_config ms" "ms_CommitLog ms1 = cl1" "queue_of ms1 = queue_of ms" "ShutdownFlag ms1 = ShutdownFlag ms"
      "ms_RunningFlags ms1 = ms_RunningFlags ms" "\<not> dms_stop (ms_DispatchMessageService ms1)"
      "requestsChan (ms_DispatchMessageService ms1) = requestsChan (ms_DispatchMessageService ms) @ [dispatch_of m r]"
      "ms_StoreCheckpoint ms1 = ms_StoreCheckpoint ms" "ms_IndexService ms1 = ms_IndexService ms"
      "requestsCap (ms_DispatchMessageService ms1) = requestsCap (ms_DispatchMessageService ms)"
    using inv(7) by (simp_all add: ms1_def)
  have st: "stored ms1 t i = stored ms t i" for t i by (simp add: stored_def f(3))
  have dis: "dr_topic (dispatch_of m r) = m_Topic m" "dr_queueId (dispatch_of m r) = m_QueueId m" "dr_sysFlag (dispatch_of m r) = m_SysFlag m"
    by (simp_all add: dispatch_of_def)
  have fr: "cl_config cl1 = ms_config ms" "mfq_storePath (cl_MapedFileQueue cl1) = StorePathCommitLog (ms_config ms)"
      "mfq_ahead os1 (cl_MapedFileQueue cl1)" "cl_inv cl1"
    using p(2,4) inv(2,4,5) by (simp_all add: cl_frame_def put_done_def)
  have alloc: "allocateMapedFileService (cl_MapedFileQueue ?cl) = None" using inv(4) by (simp add: mfq_ahead_def)
  have only: "os_only (StorePathCommitLog (ms_config ms)) os os1" using putMessage_only [OF alloc p(1)] inv(5) by simp
  have lo: "LogicsOffset r = ?k" "WroteBytes r = msg_len m" "Status r = APPENDMESSAGE_PUT_OK" using p(2) by (simp_all add: put_done_def)
  have k: "?k = int (length (E (m_Topic m) (m_QueueId m)))"
    using store_inv_queue(1) [OF assms(1) a(1)] by (simp add: entries_inv_def next_offset_of_def next_queue_offset_def)
  have "store_inv os1 ms1 (accept m r E)"
  proof (rule store_invI)
    fix t i assume g: "good_queue t i"
    note sq = store_inv_queue [OF assms(1) g]
    let ?mine = "visible (m_SysFlag m) \<and> t = m_Topic m \<and> i = m_QueueId m"
    have acc: "accept m r E t i = (if ?mine then E t i @ [new_entry m r] else E t i)" by (simp add: accept_def)
    have "queue_inv os1 (queue_dir (ms_config ms) t i) (queue_of ms t i) (E t i) (stored ms t i)"
      using queue_inv_only [OF sq(2) only] log_dir_apart [OF inv(1) g] by blast
    then show "queue_inv os1 (queue_dir (ms_config ms1) t i) (queue_of ms1 t i) (accept m r E t i) (stored ms1 t i)"
      unfolding acc f st by (auto intro: queue_inv_snoc)
    show "entries_inv (ms_CommitLog ms1) t i (accept m r E t i)"
      using entries_after_put [OF sq(1) g a(1) p(2) inv(3) p(4) a(2,4,6) refl] by (simp add: f(2) acc)
    have "stored ms t i \<le> length (E t i)" using sq(2) by (simp add: queue_inv_def)
    moreover have "req_for (dispatch_of m r) (length (E t i), new_entry m r)" if ?mine
      using that lo k length_record [OF a(2)] by (simp add: dispatch_of_def new_entry_def e_len_def)
    ultimately show "list_all2 req_for (pending ms1 t i) (enumerate (stored ms1 t i) (drop (stored ms1 t i) (accept m r E t i)))"
      using sq(3) pending_snoc [OF sq(3)] by (auto simp: st acc pending_def f(7) dis)
  qed (use inv f fr a(1) dis in \<open>simp_all\<close>)
  moreover have "LogicsOffset r = int (length (E (m_Topic m) (m_QueueId m)))" using lo(1) k by simp
  moreover have "stored ms1 = stored ms" by (simp add: fun_eq_iff st)
  ultimately show ?thesis using put f only lo(3) p(3) by metis
qed


section \<open>Dispatching a request\<close>

definition ms_frame :: "DefaultMessageStore \<Rightarrow> DefaultMessageStore \<Rightarrow> bool" where
  "ms_frame ms ms1 \<longleftrightarrow> ms_config ms1 = ms_config ms \<and> ms_CommitLog ms1 = ms_CommitLog ms \<and> ShutdownFlag ms1 = ShutdownFlag ms \<and>
     ms_RunningFlags ms1 = ms_RunningFlags ms \<and> scp_ok (ms_StoreCheckpoint ms1) = scp_ok (ms_StoreCheckpoint ms) \<and>
     dms_stop (ms_DispatchMessageService ms1) = dms_stop (ms_DispatchMessageService ms) \<and>
     requestsCap (ms_DispatchMessageService ms1) = requestsCap (ms_DispatchMessageService ms) \<and>
     is_storePath (ms_IndexService ms1) = is_storePath (ms_IndexService ms)"

text \<open>
  The channel of the index service. \<open>index_room ms n\<close>: it can take \<open>n\<close> more requests, or there is no index.
\<close>

definition index_room :: "DefaultMessageStore \<Rightarrow> nat \<Rightarrow> bool" where
  "index_room ms n \<longleftrightarrow> \<not> MessageIndexEnable (ms_config ms) \<or>
     length (is_requestQueue (ms_IndexService ms)) + n \<le> requestQueue_capacity"

definition index_after :: "DispatchRequest \<Rightarrow> DefaultMessageStore \<Rightarrow> IndexService" where
  "index_after req ms = (if MessageIndexEnable (ms_config ms)
     then (ms_IndexService ms)\<lparr>is_requestQueue := is_requestQueue (ms_IndexService ms) @ [req]\<rparr> else ms_IndexService ms)"

lemma index_room_after:
  "index_room ms (Suc n) \<Longrightarrow> ms_config ms1 = ms_config ms \<Longrightarrow> ms_IndexService ms1 = index_after req ms \<Longrightarrow> index_room ms1 n"
  by (simp add: index_room_def index_after_def split: if_splits)

lemma doDispatch_visible:
  assumes "visible (dr_sysFlag req)" and "t = dr_topic req" and "i = dr_queueId req" and "index_room ms 1"
    and "ConsumeQueue_putMessagePostionInfo os (dr_commitLogOffset req) (dr_msgSize req) (dr_tagsCode req)
           (dr_consumeQueueOffset req) (queue_of ms t i) = Some (True, cq1, os1)"
  shows "\<exists>ms1. DispatchMessageService_doDispatch os req ms = Some (ms1, os1) \<and> ms_frame ms ms1 \<and>
     requestsChan (ms_DispatchMessageService ms1) = requestsChan (ms_DispatchMessageService ms) \<and>
     ms_IndexService ms1 = index_after req ms \<and>
     (\<forall>t1 i1. queue_of ms1 t1 i1 = (if t1 = t \<and> i1 = i then cq1 else queue_of ms t1 i1))"
proof -
  let ?a = "ms\<lparr>ms_DispatchMessageService := (ms_DispatchMessageService ms)
                   \<lparr>requestSize := to_int32 (requestSize (ms_DispatchMessageService ms) - 1)\<rparr>\<rparr>"
  obtain cq b where fnd: "DefaultMessageStore_findConsumeQueue t i ?a = (cq, b)" by fastforce
  note f = find_queue [OF fnd]
  have cq: "cq = queue_of ms t i" using f(1) by simp
  have fb: "queue_of b = queue_of ms" using f(2) by simp
  have bf: "ms_config b = ms_config ms" "ms_CommitLog b = ms_CommitLog ms" "ShutdownFlag b = ShutdownFlag ms"
      "ms_RunningFlags b = ms_RunningFlags ms" "requestsChan (ms_DispatchMessageService b) = requestsChan (ms_DispatchMessageService ms)"
      "dms_stop (ms_DispatchMessageService b) = dms_stop (ms_DispatchMessageService ms)" "ms_StoreCheckpoint b = ms_StoreCheckpoint ms"
      "ms_IndexService b = ms_IndexService ms" "requestsCap (ms_DispatchMessageService b) = requestsCap (ms_DispatchMessageService ms)"
    by (subst f(3); simp)+
  let ?c = "DefaultMessageStore_putConsumeQueue t i cq1 b"
  have cf: "ms_config ?c = ms_config b" "ms_CommitLog ?c = ms_CommitLog b" "ShutdownFlag ?c = ShutdownFlag b"
      "ms_DispatchMessageService ?c = ms_DispatchMessageService b" "ms_IndexService ?c = ms_IndexService b"
    by (simp_all add: DefaultMessageStore_putConsumeQueue_def Let_def)
  let ?d = "?c\<lparr>ms_StoreCheckpoint := (ms_StoreCheckpoint b)\<lparr>logicsMsgTimestamp := dr_storeTimestamp req\<rparr>, ms_RunningFlags := ms_RunningFlags b\<rparr>"
  have w: "ConsumeQueue_putMessagePostionInfoWrapper os (dr_commitLogOffset req) (dr_msgSize req) (dr_tagsCode req)
        (dr_storeTimestamp req) (dr_consumeQueueOffset req) cq (ms_StoreCheckpoint b) (ms_RunningFlags b) =
      Some (cq1, (ms_StoreCheckpoint b)\<lparr>logicsMsgTimestamp := dr_storeTimestamp req\<rparr>, ms_RunningFlags b, os1)"
    using assms(5) by (simp add: ConsumeQueue_putMessagePostionInfoWrapper_def cq numeral_eq_Suc)
  then have "DefaultMessageStore_putMessagePostionInfo os (dr_topic req) (dr_queueId req) (dr_commitLogOffset req) (dr_msgSize req)
      (dr_tagsCode req) (dr_storeTimestamp req) (dr_consumeQueueOffset req) ?a = Some (?d, os1)"
    using fnd by (simp add: DefaultMessageStore_putMessagePostionInfo_def assms(2,3))
  then have "DispatchMessageService_doDispatch os req ms = Some (?d\<lparr>ms_IndexService := index_after req ms\<rparr>, os1)"
    using assms(1,4) bf cf
    by (simp add: DispatchMessageService_doDispatch_def visible_def Let_def index_after_def index_room_def IndexService_putRequest_def Suc_le_eq)
  then show ?thesis
    using bf cf fb put_queue(1) [of t i cq1 b]
    by (intro exI [of _ "?d\<lparr>ms_IndexService := index_after req ms\<rparr>"]) (simp add: ms_frame_def scp_ok_def index_after_def)
qed

lemma doDispatch_invisible:
  assumes "\<not> visible (dr_sysFlag req)" and "index_room ms 1"
  shows "\<exists>ms1. DispatchMessageService_doDispatch os req ms = Some (ms1, os) \<and> ms_frame ms ms1 \<and>
     requestsChan (ms_DispatchMessageService ms1) = requestsChan (ms_DispatchMessageService ms) \<and>
     ms_IndexService ms1 = index_after req ms \<and> queue_of ms1 = queue_of ms"
  using assms
  by (simp add: DispatchMessageService_doDispatch_def visible_def Let_def ms_frame_def index_after_def index_room_def IndexService_putRequest_def Suc_le_eq)

text \<open>With a full index channel the dispatcher waits, whatever the request is.\<close>

lemma putMessagePostionInfo_index:
  "DefaultMessageStore_putMessagePostionInfo os t i off n tag time k ms = Some (ms1, os1) \<Longrightarrow>
     ms_config ms1 = ms_config ms \<and> ms_IndexService ms1 = ms_IndexService ms"
proof -
  assume a: "DefaultMessageStore_putMessagePostionInfo os t i off n tag time k ms = Some (ms1, os1)"
  obtain cq b where fnd: "DefaultMessageStore_findConsumeQueue t i ms = (cq, b)" by fastforce
  have "ms_config b = ms_config ms" "ms_IndexService b = ms_IndexService ms" by (subst find_queue(3) [OF fnd]; simp)+
  then show ?thesis
    using a fnd
    by (auto simp: DefaultMessageStore_putMessagePostionInfo_def DefaultMessageStore_putConsumeQueue_def Let_def split: Option.bind_splits)
qed

lemma dispatch_waits:
  assumes "requestsChan (ms_DispatchMessageService ms) \<noteq> []" and "\<not> index_room ms 1"
  shows "DispatchMessageService_Start_step os ms = None"
proof -
  obtain req rest where r: "requestsChan (ms_DispatchMessageService ms) = req # rest" using assms(1) by (cases "requestsChan (ms_DispatchMessageService ms)") auto
  have e: "MessageIndexEnable (ms_config ms)" "requestQueue_capacity \<le> length (is_requestQueue (ms_IndexService ms))"
    using assms(2) by (auto simp: index_room_def split: if_splits)
  show ?thesis
    using e r
    by (auto simp: DispatchMessageService_Start_step_def DispatchMessageService_doDispatch_def Let_def IndexService_putRequest_def
        dest!: putMessagePostionInfo_index split: Option.bind_splits)
qed

lemma dispatch_step:
  assumes "store_inv os ms E" and "requestsChan (ms_DispatchMessageService ms) = req # rest" and "index_room ms 1"
  shows "\<exists>ms1 os1. DispatchMessageService_Start_step os ms = Some (ms1, os1) \<and> store_inv os1 ms1 E \<and>
     requestsChan (ms_DispatchMessageService ms1) = rest \<and> ms_config ms1 = ms_config ms \<and> ms_CommitLog ms1 = ms_CommitLog ms \<and>
     ms_RunningFlags ms1 = ms_RunningFlags ms \<and> ms_IndexService ms1 = index_after req ms \<and>
     requestsCap (ms_DispatchMessageService ms1) = requestsCap (ms_DispatchMessageService ms)"
proof -
  let ?ms = "ms\<lparr>ms_DispatchMessageService := (ms_DispatchMessageService ms)\<lparr>requestsChan := rest\<rparr>\<rparr>"
  let ?t = "dr_topic req" and ?i = "dr_queueId req" and ?c = "ms_config ms"
  note inv = store_invD [OF assms(1)]
  have run: "DispatchMessageService_Start_step os ms = DispatchMessageService_doDispatch os req ?ms"
    using assms(2) by (simp add: DispatchMessageService_Start_step_def)
  have pend: "pending ms t i = (if visible (dr_sysFlag req) \<and> ?t = t \<and> ?i = i then req # pending ?ms t i else pending ?ms t i)" for t i
    using assms(2) by (auto simp: pending_def)
  have rest_good: "\<forall>r \<in> set rest. visible (dr_sysFlag r) \<longrightarrow> good_queue (dr_topic r) (dr_queueId r)" using inv(8) assms(2) by simp
  have room: "index_room ?ms 1" "index_after req ?ms = index_after req ms" using assms(3) by (simp_all add: index_room_def index_after_def)
  show ?thesis
  proof (cases "visible (dr_sysFlag req)")
    case False
    obtain ms1 where d: "DispatchMessageService_doDispatch os req ?ms = Some (ms1, os)" "ms_frame ?ms ms1"
        "requestsChan (ms_DispatchMessageService ms1) = rest" "queue_of ms1 = queue_of ms" "ms_IndexService ms1 = index_after req ms"
      using doDispatch_invisible [OF False room(1), of os] room(2) by auto
    have "store_inv os ms1 E"
      using inv rest_good d(2-4) store_inv_queue [OF assms(1)] pend False
      by (intro store_invI) (simp_all add: ms_frame_def stored_def pending_def)
    with run d show ?thesis by (auto simp: ms_frame_def)
  next
    case True
    have g: "good_queue ?t ?i" using inv(8) assms(2) True by simp
    note sq = store_inv_queue [OF assms(1) g]
    let ?n = "stored ms ?t ?i" and ?es = "E ?t ?i"
    from sq(3) pend True have all: "list_all2 req_for (req # pending ?ms ?t ?i) (enumerate ?n (drop ?n ?es))" by simp
    then have "drop ?n ?es \<noteq> []" by auto
    then have n: "?n < length ?es" by simp
    then have dr: "drop ?n ?es = ?es ! ?n # drop (Suc ?n) ?es" by (simp add: Cons_nth_drop_Suc)
    have req: "req_for req (?n, ?es ! ?n)" and tail: "list_all2 req_for (pending ?ms ?t ?i) (enumerate (Suc ?n) (drop (Suc ?n) ?es))"
      using all by (simp_all add: dr)
    have es: "entry_ok (ms_CommitLog ms) (?es ! ?n)" "0 \<le> e_off (?es ! ?n)" "sorted_wrt (<) (map e_off ?es)" "int ?n < 2 ^ 58"
      using sq(1) n by (auto simp: entries_inv_def)
    obtain cq1 os1 where p: "ConsumeQueue_putMessagePostionInfo os (e_off (?es ! ?n)) (e_len (?es ! ?n)) (e_tag (?es ! ?n)) (int ?n)
          (queue_of ms ?t ?i) = Some (True, cq1, os1)" "queue_inv os1 (queue_dir ?c ?t ?i) cq1 ?es (Suc ?n)" "os_only (queue_dir ?c ?t ?i) os os1"
      using put_entry [OF sq(2) n _ es(3,2,4)] es(1) by (auto simp: entry_ok_def)
    have "ConsumeQueue_putMessagePostionInfo os (dr_commitLogOffset req) (dr_msgSize req) (dr_tagsCode req)
        (dr_consumeQueueOffset req) (queue_of ?ms ?t ?i) = Some (True, cq1, os1)"
      using p(1) req by simp
    from doDispatch_visible [OF True refl refl room(1) this] room(2) obtain ms1 where
      d: "DispatchMessageService_doDispatch os req ?ms = Some (ms1, os1)" "ms_frame ?ms ms1"
        "requestsChan (ms_DispatchMessageService ms1) = requestsChan (ms_DispatchMessageService ?ms)"
        "\<forall>t i. queue_of ms1 t i = (if t = ?t \<and> i = ?i then cq1 else queue_of ?ms t i)" "ms_IndexService ms1 = index_after req ms"
      by metis
    have st: "stored ms1 t i = (if t = ?t \<and> i = ?i then Suc ?n else stored ms t i)" for t i
    proof -
      have "nat (ConsumeQueue_getMaxOffsetInQueue cq1) = Suc ?n" unfolding queue_inv_max(2) [OF p(2)] by simp
      then show ?thesis using d(4) by (auto simp: stored_def)
    qed
    have pd: "pending ms1 t i = pending ?ms t i" for t i using d(3) by (simp add: pending_def)
    have "store_inv os1 ms1 E"
    proof (rule store_invI)
      show "mfq_ahead os1 (cl_MapedFileQueue (ms_CommitLog ms1))"
        using mfq_ahead_only [OF inv(4) p(3)] log_dir_apart [OF inv(1) g] inv(5) d(2) by (auto simp: ms_frame_def)
      fix t i assume gt: "good_queue t i"
      note sqt = store_inv_queue [OF assms(1) gt]
      show "entries_inv (ms_CommitLog ms1) t i (E t i)" using sqt(1) d(2) by (simp add: ms_frame_def)
      have "queue_inv os1 (queue_dir ?c t i) (queue_of ms t i) (E t i) (stored ms t i)" if "\<not> (t = ?t \<and> i = ?i)"
        using queue_inv_only [OF sqt(2) p(3)] queue_dir_inject [OF gt g] queue_path_not_dir [OF gt g] that by auto
      then show "queue_inv os1 (queue_dir (ms_config ms1) t i) (queue_of ms1 t i) (E t i) (stored ms1 t i)"
        using p(2) d(2,4) st by (auto simp: ms_frame_def)
      show "list_all2 req_for (pending ms1 t i) (enumerate (stored ms1 t i) (drop (stored ms1 t i) (E t i)))"
        using tail sqt(3) pend [of t i] by (auto simp: pd st)
    qed (use inv rest_good d(2,3) in \<open>simp_all add: ms_frame_def\<close>)
    with run d show ?thesis by (auto simp: ms_frame_def)
  qed
qed


section \<open>Reading messages\<close>

lemma take_units: "take (20 * n) (concat (map e_unit es)) = concat (map e_unit (take n es))"
proof (induction es arbitrary: n)
  case (Cons e es)
  then show ?case by (cases n) (simp_all add: e_unit_def)
qed simp

lemma drop_units: "drop (20 * n) (concat (map e_unit es)) = concat (map e_unit (drop n es))"
proof (induction es arbitrary: n)
  case (Cons e es)
  then show ?case by (cases n) (simp_all add: e_unit_def)
qed simp

text \<open>
  How many units one region of the consume queue has from the unit at \<open>k\<close> on: those up to the end of its index file, as far as they are written.
\<close>

definition units_per_file :: "ConsumeQueue \<Rightarrow> nat" where
  "units_per_file cq = nat (cq_mapedFileSize cq) div 20"

definition region_length :: "DefaultMessageStore \<Rightarrow> string \<Rightarrow> int \<Rightarrow> nat \<Rightarrow> nat" where
  "region_length ms t i k = (let u = units_per_file (queue_of ms t i) in min (stored ms t i - k) (u - k mod u))"

lemma region_arith:
  fixes S :: int
  assumes "20 dvd S" and "0 < S" and "20 * int m = min (20 * int n - 20 * int k) (S - 20 * int k mod S)"
  shows "m = min (n - k) (nat S div 20 - k mod (nat S div 20))"
proof -
  obtain c where c: "S = 20 * int c" "0 < c"
  proof -
    obtain d where "S = 20 * d" using assms(1) by (elim dvdE)
    then show ?thesis using assms(2) that [of "nat d"] by simp
  qed
  have "20 * int k mod S = 20 * int (k mod c)" by (simp add: c(1) zmod_int)
  moreover have "k mod c < c" using c(2) by simp
  moreover have "nat S div 20 = c" by (simp add: c(1))
  moreover define j where "j = k mod c"
  ultimately have "int m = min (int n - int k) (int c - int j)" "j < c" "nat S div 20 = c"
    using assms(3) c(1) by (simp_all add: min_def split: if_splits)
  then have "m = min (n - k) (c - j)" by (cases "n - k \<le> c - j"; cases "k \<le> n") (auto simp: min_def split: if_splits)
  then show ?thesis by (simp add: \<open>nat S div 20 = c\<close> j_def)
qed

lemma region_units:
  assumes "queue_inv os dir cq es n" and "k < n"
  obtains r cq1 m where "ConsumeQueue_getIndexBuffer (int k) cq = Some (Some r, cq1)" and "0 < m" and "k + m \<le> n"
    and "at_cursor (smr_MappedByteBuffer r) (concat (map e_unit (take m (drop k es))))" and "Size r = 20 * int m"
    and "WritePos (smr_MappedByteBuffer r) \<noteq> 0" and "m = min (n - k) (units_per_file cq - k mod units_per_file cq)"
proof -
  have i: "cq_inv cq" "cq_mapedFileSize cq < 2 ^ 31" "minLogicOffset cq = 0" "mfq_base (cq_mapedFileQueue cq) = 0"
      "mfq_bytes (cq_mapedFileQueue cq) = concat (map e_unit (take n es))"
    using assms(1) by (simp_all add: queue_inv_def cq_state_inv_def)
  note mx = queue_inv_max(1) [OF assms(1)]
  have "cq_has cq (int k)" using i(3,4) assms(2) by (simp add: cq_has_def mx)
  from index_region [OF i(1) this] obtain r cq1 m where
    r: "ConsumeQueue_getIndexBuffer (int k) cq = Some (Some r, cq1)" "0 < m" "at_cursor (smr_MappedByteBuffer r) (cq_bytes cq (int k) m)"
      "Size r = to_int32 (20 * int m)" "WritePos (smr_MappedByteBuffer r) \<noteq> 0" "20 * int m \<le> cq_mapedFileSize cq"
      "20 * (int k + int m) \<le> 20 * int n" "20 * int m = min (20 * int n - 20 * int k) (cq_mapedFileSize cq - 20 * int k mod cq_mapedFileSize cq)"
    unfolding mx by metis
  have "20 dvd cq_mapedFileSize cq" "0 < cq_mapedFileSize cq" using i(1) by (auto simp: cq_inv_def mfq_inv_def)
  note m = region_arith [OF this r(8), folded units_per_file_def]
  have km: "k + m \<le> n" using r(7) by simp
  have "nat (20 * int k) = 20 * k" by simp
  then have "cq_bytes cq (int k) m = concat (map e_unit (take m (drop k (take n es))))"
    by (simp only: cq_bytes_def i(4,5) diff_zero drop_units take_units)
  also have "take m (drop k (take n es)) = take m (drop k es)" using km by (simp add: drop_take min_def)
  finally have "at_cursor (smr_MappedByteBuffer r) (concat (map e_unit (take m (drop k es))))" using r(3) by simp
  moreover have "Size r = 20 * int m" using r(4,6) i(2) by (simp add: to_int32_id in_int_def)
  ultimately show ?thesis using that r(1,2,5) km m by blast
qed

lemma batch_config: "ms_config ms1 = ms_config ms \<Longrightarrow> batch ms1 matched maxN e n b c l es = batch ms matched maxN e n b c l es"
proof (induction es arbitrary: n b c l)
  case (Cons x es)
  have "DefaultMessageStore_isTheBatchFull ms1 = DefaultMessageStore_isTheBatchFull ms"
      "DefaultMessageStore_checkInDiskByCommitOffset ms1 = DefaultMessageStore_checkInDiskByCommitOffset ms"
    using Cons.prems by (simp_all add: fun_eq_iff DefaultMessageStore_isTheBatchFull_def DefaultMessageStore_checkInDiskByCommitOffset_def)
  with Cons show ?case by simp
qed simp

lemma store_inv_touch:
  assumes "store_inv os ms E" and "cl_same (ms_CommitLog ms) (ms_CommitLog ms1)" and "queue_of ms1 = queue_of ms"
    and "ms_frame ms (ms1\<lparr>ms_CommitLog := ms_CommitLog ms\<rparr>)"
    and "requestsChan (ms_DispatchMessageService ms1) = requestsChan (ms_DispatchMessageService ms)"
  shows "store_inv os ms1 E" and "stored ms1 = stored ms"
proof -
  show st: "stored ms1 = stored ms" using assms(3) by (simp add: stored_def fun_eq_iff)
  have f: "ms_config ms1 = ms_config ms" "ShutdownFlag ms1 = ShutdownFlag ms" "ms_RunningFlags ms1 = ms_RunningFlags ms"
      "dms_stop (ms_DispatchMessageService ms1) = dms_stop (ms_DispatchMessageService ms)"
      "scp_ok (ms_StoreCheckpoint ms1) = scp_ok (ms_StoreCheckpoint ms)" "is_storePath (ms_IndexService ms1) = is_storePath (ms_IndexService ms)"
    using assms(4) by (simp_all add: ms_frame_def)
  have pd: "pending ms1 = pending ms" using assms(5) by (simp add: pending_def fun_eq_iff)
  have en: "entries_inv (ms_CommitLog ms1) t i es = entries_inv (ms_CommitLog ms) t i es" for t i es
    using assms(2) cl_same_has [OF assms(2)] by (simp add: entries_inv_def entry_ok_def next_offset_of_def cl_same_def)
  have c: "cl_inv (ms_CommitLog ms1)" "cl_config (ms_CommitLog ms1) = cl_config (ms_CommitLog ms)"
      "mfq_ahead os (cl_MapedFileQueue (ms_CommitLog ms1))"
      "mfq_storePath (cl_MapedFileQueue (ms_CommitLog ms1)) = mfq_storePath (cl_MapedFileQueue (ms_CommitLog ms))"
    using assms(2) store_invD(3,4) [OF assms(1)] by (simp_all add: cl_same_def)
  show "store_inv os ms1 E"
    using store_invD [OF assms(1)] store_inv_queue [OF assms(1)]
    by (intro store_invI) (simp_all add: f c assms(3,5) st pd en)
qed

text \<open>Reading at an index the consume queue has.\<close>

lemma get_inside:
  assumes "store_inv os ms E" and "good_queue t i" and "k < stored ms t i"
  shows "\<exists>res ms1 m bs seen lst. DefaultMessageStore_GetMessage Contains t i (int k) maxN sub ms = Some (Some res, ms1) \<and>
     m = region_length ms t i k \<and> 0 < m \<and> k + m \<le> stored ms t i \<and>
     batch ms (DefaultMessageFilter_IsMessageMatched Contains sub) maxN (CommitLog_getMaxOffset (ms_CommitLog ms)) 0 0 0 0
       (take m (drop k (E t i))) = (bs, seen, lst) \<and>
     gets res bs \<and> gmr_Status res = (if bs = [] then NO_MATCHED_MESSAGE else FOUND) \<and> NextBeginOffset res = int (k + seen) \<and>
     gmr_MinOffset res = 0 \<and> gmr_MaxOffset res = int (stored ms t i) \<and> store_inv os ms1 E \<and> stored ms1 = stored ms \<and>
     SuggestPullingFromSlave res = (CommitLog_getMaxOffset (ms_CommitLog ms) - lst >
       TotalPhysicalMemorySize * (AccessMessageInMemoryMaxRatio (ms_config ms) sdiv 100)) \<and>
     cl_same (ms_CommitLog ms) (ms_CommitLog ms1) \<and> ms_config ms1 = ms_config ms"
proof -
  let ?cl = "ms_CommitLog ms" and ?n = "stored ms t i" and ?matched = "DefaultMessageFilter_IsMessageMatched Contains sub"
  note inv = store_invD [OF assms(1)] note sq = store_inv_queue [OF assms(1,2)]
  obtain cq ms0 where fnd: "DefaultMessageStore_findConsumeQueue t i ms = (cq, ms0)" by fastforce
  note f = find_queue [OF fnd]
  have qi: "queue_inv os (queue_dir (ms_config ms) t i) cq (E t i) ?n" using sq(2) f(1) by simp
  obtain r cq1 m where r: "ConsumeQueue_getIndexBuffer (int k) cq = Some (Some r, cq1)" "0 < m" "k + m \<le> ?n"
      "at_cursor (smr_MappedByteBuffer r) (concat (map e_unit (take m (drop k (E t i)))))" "Size r = 20 * int m"
      "WritePos (smr_MappedByteBuffer r) \<noteq> 0" "m = min (?n - k) (units_per_file cq - k mod units_per_file cq)"
    using region_units [OF qi assms(3)] by metis
  define ms2 where "ms2 = DefaultMessageStore_putConsumeQueue t i cq ms0"
  have f0: "ms_IndexService ms0 = ms_IndexService ms" "ms_config ms0 = ms_config ms" "ms_CommitLog ms0 = ?cl" "ShutdownFlag ms0 = ShutdownFlag ms" "ms_RunningFlags ms0 = ms_RunningFlags ms"
      "ms_DispatchMessageService ms0 = ms_DispatchMessageService ms" "ms_StoreCheckpoint ms0 = ms_StoreCheckpoint ms"
    by (subst f(3); simp)+
  have f2: "ms_config ms2 = ms_config ms" "ms_CommitLog ms2 = ?cl" "ShutdownFlag ms2 = ShutdownFlag ms" "ms_RunningFlags ms2 = ms_RunningFlags ms"
      "ms_StoreCheckpoint ms2 = ms_StoreCheckpoint ms" "ms_DispatchMessageService ms2 = ms_DispatchMessageService ms" "queue_of ms2 = queue_of ms"
      "ms_IndexService ms2 = ms_IndexService ms"
    using f0 f(1,2) put_queue(1) [of t i cq ms0]
    by (simp_all add: ms2_def fun_eq_iff) (simp_all add: DefaultMessageStore_putConsumeQueue_def Let_def)
  let ?es = "take m (drop k (E t i))"
  obtain bs seen lst where b: "batch ms ?matched maxN (CommitLog_getMaxOffset ?cl) 0 0 0 0 ?es = (bs, seen, lst)" by (metis prod_cases3)
  have ok: "\<forall>e \<in> set ([] @ ?es). entry_ok ?cl e" using sq(1) by (auto simp: entries_inv_def dest: in_set_takeD in_set_dropD)
  have len: "20 * int m = 20 * (int 0 + int (length ?es))" using r(3) qi by (auto simp: queue_inv_def min_def)
  have g0: "gets new_GetMessageResult []" "BufferTotalSize new_GetMessageResult = 0" by (simp_all add: gets_def new_GetMessageResult_def)
  have b2: "batch ms2 ?matched maxN (CommitLog_getMaxOffset ?cl) 0 (BufferTotalSize new_GetMessageResult) (int (length ([] :: entry list))) 0 ?es =
      (bs, seen, lst)"
    using b batch_config [OF f2(1)] by (simp add: g0)
  obtain res cl1 where loop: "get_loop ms2 ?matched maxN (20 * int m) 0 (smr_MappedByteBuffer r) LongMinValue 0 NO_MATCHED_MESSAGE
        new_GetMessageResult ?cl = Some (20 * int seen, lst, if bs = [] then NO_MATCHED_MESSAGE else FOUND, res, cl1)" "gets res bs" "cl_same ?cl cl1"
    using get_loop_batch [OF inv(3) ok g0(1) r(4,6) len refl _ _ b2] by (auto simp: CommitLog_getMaxOffset_def)
  note mx = queue_inv_max(2) [OF qi]
  have min: "ConsumeQueue_getMinOffsetInQueue cq = 0"
    using qi by (simp add: queue_inv_def ConsumeQueue_getMinOffsetInQueue_def CQStoreUnitSize_def sdiv_nonneg)
  have peek: "cq_peek (int k) cq = Some (Some r, cq)" using r(1) by (simp add: cq_peek_def)
  let ?mem = "TotalPhysicalMemorySize * (AccessMessageInMemoryMaxRatio (ms_config ms2) sdiv 100)"
  let ?res = "get_found (if bs = [] then NO_MATCHED_MESSAGE else FOUND) (int k + int seen) 0 (int ?n)
     (res\<lparr>SuggestPullingFromSlave := MapedFileQueue_getMaxOffset (cl_MapedFileQueue cl1) - lst > ?mem\<rparr>)"
  have seen: "(20 * int seen) sdiv CQStoreUnitSize = int seen" by (simp add: CQStoreUnitSize_def sdiv_nonneg)
  have "DefaultMessageStore_GetMessage Contains t i (int k) maxN sub ms = Some (Some ?res, ms2\<lparr>ms_CommitLog := cl1\<rparr>)"
    using inv(6) assms(3) fnd mx min peek loop(1) r(5) f2(2) seen
    by (simp add: DefaultMessageStore_GetMessage_def Let_def flip: ms2_def)
  moreover have "store_inv os (ms2\<lparr>ms_CommitLog := cl1\<rparr>) E" "stored (ms2\<lparr>ms_CommitLog := cl1\<rparr>) = stored ms"
    using store_inv_touch [OF assms(1), of "ms2\<lparr>ms_CommitLog := cl1\<rparr>"] loop(3) f2 by (simp_all add: ms_frame_def)
  moreover have "gets ?res bs" using loop(2) by (simp add: gets_def get_found_def)
  ultimately show ?thesis
    using b r(2,3,7) f(1) loop(3) f2(1)
    by (intro exI [of _ ?res] exI [of _ "ms2\<lparr>ms_CommitLog := cl1\<rparr>"] exI [of _ m] exI [of _ bs] exI [of _ seen] exI [of _ lst])
       (simp add: get_found_def cl_same_def CommitLog_getMaxOffset_def region_length_def Let_def)
qed


text \<open>Reading outside the range of the consume queue.\<close>

lemma get_outside:
  assumes "store_inv os ms E" and "good_queue t i" and "n = int (stored ms t i)" and "offset < 0 \<or> n \<le> offset"
  shows "\<exists>res ms1. DefaultMessageStore_GetMessage Contains t i offset maxN sub ms = Some (Some res, ms1) \<and>
     MessageMapedList res = [] \<and> store_inv os ms1 E \<and> stored ms1 = stored ms \<and> ms_config ms1 = ms_config ms \<and>
     ms_CommitLog ms1 = ms_CommitLog ms \<and>
     gmr_Status res = (if n = 0 then NO_MESSAGE_IN_QUEUE else if offset < 0 then OFFSET_TOO_SMALL
       else if offset = n then OFFSET_OVERFLOW_ONE else OFFSET_OVERFLOW_BADLY) \<and>
     NextBeginOffset res = (if offset = n then n else 0)"
proof -
  note inv = store_invD [OF assms(1)] note sq = store_inv_queue [OF assms(1,2)]
  obtain cq ms0 where fnd: "DefaultMessageStore_findConsumeQueue t i ms = (cq, ms0)" by fastforce
  note f = find_queue [OF fnd]
  have qi: "queue_inv os (queue_dir (ms_config ms) t i) cq (E t i) (stored ms t i)" using sq(2) f(1) by simp
  have mx: "ConsumeQueue_getMaxOffsetInQueue cq = n" using queue_inv_max(2) [OF qi] assms(3) by simp
  have min: "ConsumeQueue_getMinOffsetInQueue cq = 0"
    using qi by (simp add: queue_inv_def ConsumeQueue_getMinOffsetInQueue_def CQStoreUnitSize_def sdiv_nonneg)
  have f0: "ms_IndexService ms0 = ms_IndexService ms" "ms_config ms0 = ms_config ms" "ms_CommitLog ms0 = ms_CommitLog ms" "ShutdownFlag ms0 = ShutdownFlag ms"
      "ms_RunningFlags ms0 = ms_RunningFlags ms" "ms_DispatchMessageService ms0 = ms_DispatchMessageService ms"
      "ms_StoreCheckpoint ms0 = ms_StoreCheckpoint ms"
    by (subst f(3); simp)+
  have "store_inv os ms0 E" "stored ms0 = stored ms"
    using store_inv_touch [OF assms(1), of ms0] f0 f(2) by (simp_all add: ms_frame_def)
  then show ?thesis
    using inv(6) fnd mx min assms(3,4) f0(2,3)
    by (auto simp: DefaultMessageStore_GetMessage_def Let_def get_found_def new_GetMessageResult_def)
qed

section \<open>Puts that are not taken\<close>

text \<open>
  A put as a client can send it: a good queue and every field in the range of its type. The topic or the properties
  may be too long for the record format; the store looks at their lengths first.
\<close>

definition put_shape :: "int \<Rightarrow> int \<Rightarrow> MessageExtBrokerInner \<Rightarrow> DefaultMessageStore \<Rightarrow> accepted \<Rightarrow> bool" where
  "put_shape storeNow lockNow msg ms E \<longleftrightarrow> (let m = stamped storeNow lockNow msg; cl = ms_CommitLog ms in
     good_queue (m_Topic m) (m_QueueId m) \<and> in_int 64 (m_TagsCode m) \<and>
     (length (m_Topic m) > 127 \<or> length (m_PropertiesString m) > 32767 \<or> msg_fits m) \<and>
     mfq_end (cl_MapedFileQueue cl) + MapedFileSizeCommitLog (ms_config ms) < 2 ^ 63 \<and>
     (\<forall>t i. int (length (E t i)) < 2 ^ 58))"

lemma put_args_shape: "put_args storeNow lockNow msg ms E \<Longrightarrow> put_shape storeNow lockNow msg ms E"
  by (simp add: put_args_def put_shape_def Let_def)

text \<open>The messages accepted after a put with this answer.\<close>

definition put_result :: "MessageExtBrokerInner \<Rightarrow> PutMessageResult option \<Rightarrow> accepted \<Rightarrow> accepted" where
  "put_result m res E = (case res of
       None \<Rightarrow> E
     | Some x \<Rightarrow> (case pmr_AppendMessageResult x of
                   None \<Rightarrow> E
                 | Some r \<Rightarrow> if Status r = APPENDMESSAGE_PUT_OK then accept m r E else E))"

lemma store_inv_times:
  assumes "store_inv os ms E"
  shows "store_inv os (ms\<lparr>printTimes := k\<rparr>) E"
  using store_inv_touch(1) [OF assms, of "ms\<lparr>printTimes := k\<rparr>"] by (simp add: ms_frame_def)

lemma put_turned_away:
  assumes "store_inv os ms E" and "put_shape storeNow lockNow msg ms E" and "m = stamped storeNow lockNow msg"
    and "\<not> RunningFlags_isWriteable (ms_RunningFlags ms) \<or> length (m_Topic m) > 127 \<or> length (m_PropertiesString m) > 32767"
  shows "\<exists>st k. DefaultMessageStore_PutMessage storeNow lockNow flushOk os msg ms = Some (Some (put_status_only st), ms\<lparr>printTimes := k\<rparr>, os) \<and>
     st \<in> {SERVICE_NOT_AVAILABLE, MESSAGE_ILLEGAL}"
proof -
  note inv = store_invD [OF assms(1)]
  have msg: "m_Topic msg = m_Topic m" "m_PropertiesString msg = m_PropertiesString m" by (simp_all add: assms(3) stamped_def)
  show ?thesis
    using inv(1,6) assms(4) by (auto simp: DefaultMessageStore_PutMessage_def good_config_def msg Let_def put_status_only_def)
qed

lemma put_waits_locked:
  assumes "store_inv os ms E" and "m = stamped storeNow lockNow msg" and "RunningFlags_isWriteable (ms_RunningFlags ms)"
    and "length (m_Topic m) \<le> 127" and "length (m_PropertiesString m) \<le> 32767" and "cl_locked (ms_CommitLog ms)"
  shows "DefaultMessageStore_PutMessage storeNow lockNow flushOk os msg ms = Some (None, ms\<lparr>printTimes := 0\<rparr>, os)"
proof -
  note inv = store_invD [OF assms(1)]
  have msg: "m_Topic msg = m_Topic m" "m_PropertiesString msg = m_PropertiesString m" by (simp_all add: assms(2) stamped_def)
  show ?thesis
    using inv(1,6) assms(3-6) by (simp add: DefaultMessageStore_PutMessage_def good_config_def msg CommitLog_putMessage_def)
qed

lemma log_can_grow:
  assumes "store_inv os ms E" and "mfq_end (cl_MapedFileQueue (ms_CommitLog ms)) + MapedFileSizeCommitLog (ms_config ms) < 2 ^ 63"
  shows "can_grow os 0 (cl_MapedFileQueue (ms_CommitLog ms))"
proof -
  let ?q = "cl_MapedFileQueue (ms_CommitLog ms)"
  note inv = store_invD [OF assms(1)]
  have q: "mfq_inv ?q" "mfq_mapedFileSize ?q = MapedFileSizeCommitLog (ms_config ms)" using inv(2,3) by (simp_all add: cl_inv_def)
  show ?thesis using can_grow_ahead [OF q(1) inv(4), of 0] next_offset_is_end [OF q(1)] assms(2) q(2) by simp
qed

text \<open>When the dispatcher's channel is full, the put waits with the mutex held.\<close>

lemma put_waits_dispatcher:
  assumes "store_inv os ms E" and "put_shape storeNow lockNow msg ms E" and "m = stamped storeNow lockNow msg"
    and "RunningFlags_isWriteable (ms_RunningFlags ms)" and "length (m_Topic m) \<le> 127" and "length (m_PropertiesString m) \<le> 32767"
    and "\<not> cl_locked (ms_CommitLog ms)" and "msg_len m \<le> cl_maxMessageSize (ms_CommitLog ms)" and "\<not> dispatcher_room ms"
  shows "DefaultMessageStore_PutMessage storeNow lockNow flushOk os msg ms = None"
proof -
  note inv = store_invD [OF assms(1)]
  have f: "msg_fits m" "mfq_end (cl_MapedFileQueue (ms_CommitLog ms)) + MapedFileSizeCommitLog (ms_config ms) < 2 ^ 63"
    using assms(2,3,5,6) by (auto simp: put_shape_def Let_def)
  have msg: "m_Topic msg = m_Topic m" "m_PropertiesString msg = m_PropertiesString m" by (simp_all add: assms(3) stamped_def)
  from putMessage_stores_frame [OF inv(3) assms(7) log_can_grow [OF assms(1) f(2)] assms(3) f(1) assms(8), of flushOk] obtain res r cl1 os1 where
    "CommitLog_putMessage storeNow lockNow flushOk os msg (ms_CommitLog ms) = Some (res, [dispatch_of m r], cl1, os1)" by blast
  then show ?thesis
    using inv(1,6,7) assms(4-6,9)
    by (simp add: DefaultMessageStore_PutMessage_def good_config_def msg dispatcher_room_def
        DefaultMessageStore_putDispatchRequest_def DispatchMessageService_putRequest_def)
qed

text \<open>A message that is too long is refused: the messages of the store stay, and the mutex of the log stays locked.\<close>

lemma put_refused:
  assumes "store_inv os ms E" and "put_shape storeNow lockNow msg ms E" and "m = stamped storeNow lockNow msg"
    and "RunningFlags_isWriteable (ms_RunningFlags ms)" and "length (m_Topic m) \<le> 127" and "length (m_PropertiesString m) \<le> 32767"
    and "\<not> cl_locked (ms_CommitLog ms)" and "cl_maxMessageSize (ms_CommitLog ms) < msg_len m"
  shows "\<exists>ms1 os1. DefaultMessageStore_PutMessage storeNow lockNow flushOk os msg ms =
       Some (Some \<lparr>pmr_PutMessageStatus = MESSAGE_ILLEGAL, pmr_AppendMessageResult = Some (append_status MESSAGE_SIZE_EXCEEDED)\<rparr>, ms1, os1) \<and>
     store_inv os1 ms1 E \<and> cl_locked (ms_CommitLog ms1) \<and> stored ms1 = stored ms \<and> ms_RunningFlags ms1 = ms_RunningFlags ms"
proof -
  let ?cl = "ms_CommitLog ms"
  note inv = store_invD [OF assms(1)]
  have f: "msg_fits m" "mfq_end (cl_MapedFileQueue ?cl) + MapedFileSizeCommitLog (ms_config ms) < 2 ^ 63"
    using assms(2,3,5,6) by (auto simp: put_shape_def Let_def)
  have msg: "m_Topic msg = m_Topic m" "m_PropertiesString msg = m_PropertiesString m" by (simp_all add: assms(3) stamped_def)
  from putMessage_refuses [OF inv(3) assms(7) log_can_grow [OF assms(1) f(2)] assms(3) f(1) assms(8), of flushOk] obtain cl1 os1 where
    p: "CommitLog_putMessage storeNow lockNow flushOk os msg ?cl = Some (Some \<lparr>pmr_PutMessageStatus = MESSAGE_ILLEGAL,
          pmr_AppendMessageResult = Some (append_status MESSAGE_SIZE_EXCEEDED)\<rparr>, [], cl1, os1)"
      "cl_locked cl1" "cl_inv cl1" "mfq_bytes (cl_MapedFileQueue cl1) = mfq_bytes (cl_MapedFileQueue ?cl)"
      "TopicQueueTable cl1 = (TopicQueueTable ?cl)(topic_key (m_Topic m) (m_QueueId m) := Some (next_queue_offset m (TopicQueueTable ?cl)))"
      "cl_frame os ?cl os1 cl1" by blast
  let ?ms1 = "ms\<lparr>printTimes := 0, ms_CommitLog := cl1\<rparr>"
  have put: "DefaultMessageStore_PutMessage storeNow lockNow flushOk os msg ms =
       Some (Some \<lparr>pmr_PutMessageStatus = MESSAGE_ILLEGAL, pmr_AppendMessageResult = Some (append_status MESSAGE_SIZE_EXCEEDED)\<rparr>, ?ms1, os1)"
    using inv(1,6) assms(4-6) p(1) by (simp add: DefaultMessageStore_PutMessage_def good_config_def msg)
  have fr: "cl_config cl1 = ms_config ms" "mfq_storePath (cl_MapedFileQueue cl1) = StorePathCommitLog (ms_config ms)"
      "mfq_ahead os1 (cl_MapedFileQueue cl1)" "mfq_base (cl_MapedFileQueue cl1) = mfq_base (cl_MapedFileQueue ?cl)"
    using p(6) inv(2,4,5) by (simp_all add: cl_frame_def)
  have alloc: "allocateMapedFileService (cl_MapedFileQueue ?cl) = None" using inv(4) by (simp add: mfq_ahead_def)
  have only: "os_only (StorePathCommitLog (ms_config ms)) os os1" using putMessage_only [OF alloc p(1)] inv(5) by simp
  have mx: "CommitLog_getMaxOffset cl1 = CommitLog_getMaxOffset ?cl"
    using getMaxOffset_bytes p(3,4) inv(3) fr(4) by (simp add: CommitLog_getMaxOffset_def cl_inv_def)
  have has: "log_has cl1 off bs = log_has ?cl off bs" for off bs by (simp add: log_has_def mx p(4) fr(1,4) inv(2))
  have nx: "next_offset_of cl1 t i = next_offset_of ?cl t i" for t i
    by (simp add: next_offset_of_def p(5) next_queue_offset_def split: option.split)
  have en: "entries_inv cl1 t i es = entries_inv ?cl t i es" for t i es by (simp add: entries_inv_def entry_ok_def has nx)
  have st: "stored ?ms1 = stored ms" by (simp add: stored_def fun_eq_iff)
  have "store_inv os1 ?ms1 E"
  proof (rule store_invI)
    fix t i assume g: "good_queue t i"
    note sq = store_inv_queue [OF assms(1) g]
    show "entries_inv (ms_CommitLog ?ms1) t i (E t i)" using sq(1) by (simp add: en)
    have "queue_inv os1 (queue_dir (ms_config ms) t i) (queue_of ms t i) (E t i) (stored ms t i)"
      using queue_inv_only [OF sq(2) only] log_dir_apart [OF inv(1) g] by blast
    then show "queue_inv os1 (queue_dir (ms_config ?ms1) t i) (queue_of ?ms1 t i) (E t i) (stored ?ms1 t i)" by (simp add: st)
    show "list_all2 req_for (pending ?ms1 t i) (enumerate (stored ?ms1 t i) (drop (stored ?ms1 t i) (E t i)))"
      using sq(3) by (simp add: st pending_def)
  qed (use inv fr p(3) in \<open>simp_all\<close>)
  with put p(2) st show ?thesis by auto
qed

lemma put_any:
  assumes "store_inv os ms E" and "put_shape storeNow lockNow msg ms E"
    and "DefaultMessageStore_PutMessage storeNow lockNow flushOk os msg ms = Some (res, ms1, os1)"
  shows "store_inv os1 ms1 (put_result (stamped storeNow lockNow msg) res E)" and "cl_locked (ms_CommitLog ms) \<longrightarrow> cl_locked (ms_CommitLog ms1)"
proof -
  let ?m = "stamped storeNow lockNow msg"
  have "store_inv os1 ms1 (put_result ?m res E) \<and> (cl_locked (ms_CommitLog ms) \<longrightarrow> cl_locked (ms_CommitLog ms1))"
  proof (cases "\<not> RunningFlags_isWriteable (ms_RunningFlags ms) \<or> length (m_Topic ?m) > 127 \<or> length (m_PropertiesString ?m) > 32767")
    case True
    from put_turned_away [OF assms(1,2) refl True, of flushOk] assms(3) obtain st k where
      "res = Some (put_status_only st)" "ms1 = ms\<lparr>printTimes := k\<rparr>" "os1 = os" by auto
    then show ?thesis using store_inv_times [OF assms(1)] by (simp add: put_result_def put_status_only_def)
  next
    case False
    then have w: "RunningFlags_isWriteable (ms_RunningFlags ms)" "length (m_Topic ?m) \<le> 127" "length (m_PropertiesString ?m) \<le> 32767" by auto
    show ?thesis
    proof (cases "cl_locked (ms_CommitLog ms)")
      case True
      from put_waits_locked [OF assms(1) refl w True, of flushOk] assms(3) have "res = None" "ms1 = ms\<lparr>printTimes := 0\<rparr>" "os1 = os" by auto
      then show ?thesis using store_inv_times [OF assms(1)] True by (simp add: put_result_def)
    next
      case unlocked: False
      show ?thesis
      proof (cases "cl_maxMessageSize (ms_CommitLog ms) < msg_len ?m")
        case True
        from put_refused [OF assms(1,2) refl w unlocked True, of flushOk] assms(3) show ?thesis
          by (auto simp: put_result_def append_status_def)
      next
        case False
        then have len: "msg_len ?m \<le> cl_maxMessageSize (ms_CommitLog ms)" by simp
        have "dispatcher_room ms" using put_waits_dispatcher [OF assms(1,2) refl w unlocked len, of flushOk] assms(3) by auto
        then have "put_args storeNow lockNow msg ms E"
          using assms(2) w unlocked len by (auto simp: put_args_def put_shape_def Let_def)
        from put_step [OF assms(1) this refl, of flushOk] assms(3) unlocked show ?thesis by (auto simp: put_result_def)
      qed
    qed
  qed
  then show "store_inv os1 ms1 (put_result ?m res E)" "cl_locked (ms_CommitLog ms) \<longrightarrow> cl_locked (ms_CommitLog ms1)" by blast+
qed

section \<open>A round of the index service\<close>

lemma index_dir_apart:
  assumes "good_config c" and "idx = GetStorePathIndex (StorePathRootDir c)"
  shows "mfq_path (queue_dir c t i) x \<noteq> idx @ ''/'' @ n" and "mfq_path (queue_dir c t i) x \<noteq> idx"
    and "mfq_path (StorePathCommitLog c) x \<noteq> idx @ ''/'' @ n" and "mfq_path (StorePathCommitLog c) x \<noteq> idx"
  using assms by (auto simp: good_config_def queue_dir_def mfq_path_def GetStorePathConsumeQueue_def GetStorePathIndex_def)

lemma index_step:
  assumes "store_inv os ms E" and "\<forall>k. plain_name (names k)" and "IndexService_Start_step names os ms = Some (Some (ms1, os1))"
  shows "store_inv os1 ms1 E" and "stored ms1 = stored ms" and "ms_CommitLog ms1 = ms_CommitLog ms" and "ms_config ms1 = ms_config ms"
proof -
  note inv = store_invD [OF assms(1)]
  have "\<exists>fl ix. ms1 = ms\<lparr>ms_RunningFlags := fl, ms_IndexService := ix\<rparr> \<and> os_in (is_storePath (ms_IndexService ms)) os os1 \<and>
      is_storePath ix = is_storePath (ms_IndexService ms)"
  proof (cases "is_requestQueue (ms_IndexService ms)")
    case Nil
    then show ?thesis using assms(3)
      by (intro exI [of _ "ms_RunningFlags ms"] exI [of _ "ms_IndexService ms"]) (simp add: IndexService_Start_step_def)
  next
    case (Cons req rest)
    then obtain fl ix where "IndexService_buildIndex names os (ms_RunningFlags ms) req ((ms_IndexService ms)\<lparr>is_requestQueue := rest\<rparr>) =
        Some (Some (fl, ix, os1))" "ms1 = ms\<lparr>ms_RunningFlags := fl, ms_IndexService := ix\<rparr>"
      using assms(3) by (auto simp: IndexService_Start_step_def)
    with buildIndex_keeps [OF assms(2) this(1)] show ?thesis by (auto simp: index_keeps_def)
  qed
  then obtain fl ix where m: "ms1 = ms\<lparr>ms_RunningFlags := fl, ms_IndexService := ix\<rparr>"
      "os_in (GetStorePathIndex (StorePathRootDir (ms_config ms))) os os1" "is_storePath ix = is_storePath (ms_IndexService ms)"
    using inv(10) by auto
  note apart = index_dir_apart [OF inv(1) refl]
  show st: "stored ms1 = stored ms" by (simp add: m(1) stored_def fun_eq_iff)
  show "ms_CommitLog ms1 = ms_CommitLog ms" "ms_config ms1 = ms_config ms" by (simp_all add: m(1))
  have ahead: "mfq_ahead os1 q" if "mfq_ahead os q" and "mfq_storePath q = queue_dir (ms_config ms) t i \<or> mfq_storePath q = StorePathCommitLog (ms_config ms)" for q t i
    using mfq_ahead_in [OF that(1) m(2)] that(2) apart by metis
  have "queue_inv os1 (queue_dir (ms_config ms) t i) (queue_of ms t i) (E t i) (stored ms t i)" if "good_queue t i" for t i
    using store_inv_queue(2) [OF assms(1) that] ahead by (auto simp: queue_inv_def cq_state_inv_def)
  then show "store_inv os1 ms1 E"
    using inv ahead store_inv_queue [OF assms(1)] by (intro store_invI) (simp_all add: m(1,3) st [unfolded m(1)] pending_def)
qed

section \<open>Every interleaving\<close>

text \<open>
  A store that starts on a disk without files of the log and of the queues, with a checkpoint file that
  holds its three values, and then serves puts, dispatcher rounds, index rounds and gets in any order. Puts may be
  accepted, turned away, refused with the mutex left locked, or wait for it for ever; an index round that does not
  return has no step. The last argument collects the accepted messages. Flushing to disk and the removal of expired
  files are not steps.
\<close>

definition fresh_disk :: "OS \<Rightarrow> MessageStoreConfig \<Rightarrow> bool" where
  "fresh_disk os c \<longleftrightarrow> (\<forall>x. os_free os (mfq_path (StorePathCommitLog c) x) \<and>
     (\<forall>t i. good_queue t i \<longrightarrow> os_free os (mfq_path (queue_dir c t i) x)))"

type_synonym store_state = "OS \<times> DefaultMessageStore \<times> accepted"

inductive store_step :: "store_state \<Rightarrow> store_state \<Rightarrow> bool" where
  put: "put_shape storeNow lockNow msg ms E \<Longrightarrow>
     DefaultMessageStore_PutMessage storeNow lockNow flushOk os msg ms = Some (res, ms1, os1) \<Longrightarrow>
     store_step (os, ms, E) (os1, ms1, put_result (stamped storeNow lockNow msg) res E)"
| dispatch: "DispatchMessageService_Start_step os ms = Some (ms1, os1) \<Longrightarrow> store_step (os, ms, E) (os1, ms1, E)"
| index: "\<forall>k. plain_name (names k) \<Longrightarrow> IndexService_Start_step names os ms = Some (Some (ms1, os1)) \<Longrightarrow>
     store_step (os, ms, E) (os1, ms1, E)"
| get: "good_queue t i \<Longrightarrow>
     DefaultMessageStore_GetMessage (Contains :: int set \<Rightarrow> int \<Rightarrow> bool) t i offset maxN sub ms = Some (res, ms1) \<Longrightarrow>
     store_step (os, ms, E) (os, ms1, E)"

inductive store_reach :: "MessageStoreConfig \<Rightarrow> OS \<Rightarrow> DefaultMessageStore \<Rightarrow> accepted \<Rightarrow> bool" for c where
  start: "good_config c \<Longrightarrow> NewDefaultMessageStore os0 c = Some (ms0, os1) \<Longrightarrow>
     DefaultMessageStore_Start os1 ms0 = (ms, os) \<Longrightarrow> fresh_disk os c \<Longrightarrow> scp_ok (ms_StoreCheckpoint ms0) \<Longrightarrow>
     store_reach c os ms (\<lambda>_ _. [])"
| step: "store_reach c os ms E \<Longrightarrow> store_step (os, ms, E) (os1, ms1, E1) \<Longrightarrow> store_reach c os1 ms1 E1"

lemmas reach_put = store_reach.step [OF _ store_step.put]
lemmas reach_dispatch = store_reach.step [OF _ store_step.dispatch]

lemma start_inv:
  assumes "good_config c" and "NewDefaultMessageStore os0 c = Some (ms0, os1)" and "DefaultMessageStore_Start os1 ms0 = (ms, os)"
    and "fresh_disk os c" and "scp_ok (ms_StoreCheckpoint ms0)"
  shows "store_inv os ms (\<lambda>_ _. [])"
proof -
  have m: "ms_config ms = c" "ms_CommitLog ms = NewCommitLog None c" "consumeTopicTable ms = []"
      "requestsChan (ms_DispatchMessageService ms) = []" "\<not> dms_stop (ms_DispatchMessageService ms)" "\<not> ShutdownFlag ms"
      "scp_ok (ms_StoreCheckpoint ms)" "ms_IndexService ms = NewIndexService c"
    using assms(2,3,5)
    by (auto simp: NewDefaultMessageStore_def DefaultMessageStore_Start_def NewDispatchMessageService_def Let_def
        split: Option.bind_splits sum.splits if_splits)
  have cl: "cl_inv (NewCommitLog None c)"
      "mfq_ahead os (cl_MapedFileQueue (NewCommitLog None c))"
    using assms(1,4)
    by (simp_all add: good_config_def fresh_disk_def cl_inv_def NewCommitLog_def NewMapedFileQueue_def mfq_inv_def mfq_base_def
        mfq_ahead_def mem_ok_def NewDefaultAppendMessageCallback_def NewMappedByteBuffer_def END_FILE_MIN_BLANK_LENGTH_def
        to_int32_id in_int_def)
  have q: "queue_of ms t i = new_queue c t i" for t i by (simp add: queue_of_def m)
  have st: "stored ms t i = 0" for t i
    by (simp add: stored_def q new_queue_def NewConsumeQueue_def NewMapedFileQueue_def ConsumeQueue_getMaxOffsetInQueue_def
        MapedFileQueue_getMaxOffset_def CQStoreUnitSize_def sdiv_nonneg)
  have sz: "0 < MapedFileSizeConsumeQueue c" "MapedFileSizeConsumeQueue c + 20 < 2 ^ 31" using assms(1) by (simp_all add: good_config_def)
  note s = consume_queue_size [OF sz]
  have qi: "queue_inv os (queue_dir c t i) (new_queue c t i) [] 0" if "good_queue t i" for t i
    using assms(4) that s sz
    by (simp add: queue_inv_def cq_state_inv_def cq_inv_def mfq_inv_def mfq_ahead_def fresh_disk_def new_queue_def NewConsumeQueue_def
        NewMapedFileQueue_def mfq_base_def mfq_bytes_def MapedFileQueue_getMaxOffset_def NewMappedByteBuffer_def queue_dir_def)
  show ?thesis
    using assms(1) cl qi
    by (intro store_invI)
       (simp_all add: m q st pending_def NewCommitLog_def NewMapedFileQueue_def NewIndexService_def entries_inv_def next_offset_of_def)
qed

text \<open>Every step keeps the invariant; once the mutex is left locked it stays so and no message is accepted any more.\<close>

lemma put_locked:
  assumes "store_inv os ms E" and "put_shape storeNow lockNow msg ms E" and "cl_locked (ms_CommitLog ms)"
    and "DefaultMessageStore_PutMessage storeNow lockNow flushOk os msg ms = Some (res, ms1, os1)"
  shows "put_result (stamped storeNow lockNow msg) res E = E"
proof (cases "\<not> RunningFlags_isWriteable (ms_RunningFlags ms) \<or> length (m_Topic (stamped storeNow lockNow msg)) > 127 \<or>
    length (m_PropertiesString (stamped storeNow lockNow msg)) > 32767")
  case True
  from put_turned_away [OF assms(1,2) refl True, of flushOk] assms(4) show ?thesis
    by (auto simp: put_result_def put_status_only_def)
next
  case False
  then have "res = None" using put_waits_locked [OF assms(1) refl _ _ _ assms(3), of storeNow lockNow msg flushOk] assms(4) by auto
  then show ?thesis by (simp add: put_result_def)
qed

lemma store_step_inv:
  assumes "store_step x y" and "store_inv (fst x) (fst (snd x)) (snd (snd x))"
  shows "store_inv (fst y) (fst (snd y)) (snd (snd y))"
    and "cl_locked (ms_CommitLog (fst (snd x))) \<Longrightarrow> cl_locked (ms_CommitLog (fst (snd y))) \<and> snd (snd y) = snd (snd x)"
proof -
  let ?P = "\<lambda>x y. store_inv (fst y) (fst (snd y)) (snd (snd y)) \<and>
     (cl_locked (ms_CommitLog (fst (snd x))) \<longrightarrow> cl_locked (ms_CommitLog (fst (snd y))) \<and> snd (snd y) = snd (snd x))"
  from assms have "?P x y"
  proof (induction rule: store_step.induct)
    case (put storeNow lockNow msg ms E flushOk os res ms1 os1)
    then have inv: "store_inv os ms E" by simp
    from put_any [OF inv put.hyps] put_locked [OF inv put.hyps(1) _ put.hyps(2)] show ?case by auto
  next
    case (dispatch os ms ms1 os1 E)
    show ?case
    proof (cases "requestsChan (ms_DispatchMessageService ms)")
      case Nil
      then show ?thesis using dispatch by (simp add: DispatchMessageService_Start_step_def)
    next
      case (Cons req rest)
      then have "index_room ms 1" using dispatch_waits [of ms os] dispatch.hyps by auto
      have inv: "store_inv os ms E" using dispatch.prems by simp
      from dispatch_step [OF inv Cons \<open>index_room ms 1\<close>] dispatch.hyps show ?thesis by auto
    qed
  next
    case (index names os ms ms1 os1 E)
    then have inv: "store_inv os ms E" by simp
    from index_step [OF inv index.hyps] show ?case by auto
  next
    case (get t i Contains offset maxN sub ms res ms1 os E)
    then have inv: "store_inv os ms E" by simp
    show ?case
    proof (cases "0 \<le> offset \<and> offset < int (stored ms t i)")
      case True
      then obtain k where "offset = int k" "k < stored ms t i" by (metis nonneg_int_cases of_nat_less_iff)
      with get_inside [OF inv get.hyps(1), of k Contains maxN sub] get.hyps(2) show ?thesis by (auto simp: cl_same_def)
    next
      case False
      with get_outside [OF inv get.hyps(1) refl, of offset Contains maxN sub] get.hyps(2) show ?thesis by auto
    qed
  qed
  then show "store_inv (fst y) (fst (snd y)) (snd (snd y))"
    "cl_locked (ms_CommitLog (fst (snd x))) \<Longrightarrow> cl_locked (ms_CommitLog (fst (snd y))) \<and> snd (snd y) = snd (snd x)" by blast+
qed

lemma reach_inv: "store_reach c os ms E \<Longrightarrow> store_inv os ms E"
proof (induction rule: store_reach.induct)
  case (start os0 ms0 os1 ms os)
  then show ?case by (rule start_inv)
next
  case (step os ms E os1 ms1 E1)
  then show ?case using store_step_inv(1) [OF step.hyps(2)] by simp
qed

lemma locked_for_ever:
  assumes "store_step\<^sup>*\<^sup>* (os, ms, E) y" and "store_inv os ms E" and "cl_locked (ms_CommitLog ms)"
  shows "store_inv (fst y) (fst (snd y)) (snd (snd y)) \<and> cl_locked (ms_CommitLog (fst (snd y))) \<and> snd (snd y) = E"
  using assms
proof (induction rule: rtranclp_induct)
  case (step y z)
  then show ?case using store_step_inv [OF step.hyps(2)] by auto
qed simp

text \<open>
  Rounds of the dispatcher: \<open>n\<close> of them serve \<open>n\<close> requests when the index service's channel can take them, and
  do not come to an end when it cannot.
\<close>

lemma drain:
  assumes "store_reach c os ms E" and "n \<le> length (requestsChan (ms_DispatchMessageService ms))" and "index_room ms n"
  shows "\<exists>ms1 os1. dispatch_steps n os ms = Some (ms1, os1) \<and> store_reach c os1 ms1 E \<and>
     requestsChan (ms_DispatchMessageService ms1) = drop n (requestsChan (ms_DispatchMessageService ms)) \<and> ms_CommitLog ms1 = ms_CommitLog ms"
  using assms
proof (induction n arbitrary: os ms)
  case (Suc n)
  then obtain req rest where ch: "requestsChan (ms_DispatchMessageService ms) = req # rest" by (cases "requestsChan (ms_DispatchMessageService ms)") auto
  have "index_room ms 1" using Suc.prems(3) by (auto simp: index_room_def)
  from dispatch_step [OF reach_inv [OF Suc.prems(1)] ch this] obtain ms1 os1 where d: "DispatchMessageService_Start_step os ms = Some (ms1, os1)"
      "requestsChan (ms_DispatchMessageService ms1) = rest" "ms_CommitLog ms1 = ms_CommitLog ms" "ms_config ms1 = ms_config ms"
      "ms_IndexService ms1 = index_after req ms" by blast
  have "n \<le> length (requestsChan (ms_DispatchMessageService ms1))" using Suc.prems(2) ch d(2) by simp
  from Suc.IH [OF reach_dispatch [OF Suc.prems(1) d(1)] this index_room_after [OF Suc.prems(3) d(4,5)]] ch d show ?case by auto
qed simp

lemma drain_waits:
  assumes "store_inv os ms E" and "n \<le> length (requestsChan (ms_DispatchMessageService ms))" and "\<not> index_room ms n" and "n \<noteq> 0"
  shows "dispatch_steps n os ms = None"
  using assms
proof (induction n arbitrary: os ms)
  case (Suc n)
  then obtain req rest where ch: "requestsChan (ms_DispatchMessageService ms) = req # rest" by (cases "requestsChan (ms_DispatchMessageService ms)") auto
  show ?case
  proof (cases "index_room ms 1")
    case True
    from dispatch_step [OF Suc.prems(1) ch this] obtain ms1 os1 where d: "DispatchMessageService_Start_step os ms = Some (ms1, os1)"
      "requestsChan (ms_DispatchMessageService ms1) = rest" "store_inv os1 ms1 E" "ms_config ms1 = ms_config ms"
      "ms_IndexService ms1 = index_after req ms" by blast
    have "n \<noteq> 0" using True Suc.prems(3) by (cases n) auto
    moreover have "n \<le> length (requestsChan (ms_DispatchMessageService ms1))" using Suc.prems(2) ch d(2) by simp
    moreover have "\<not> index_room ms1 n" using Suc.prems(3) d(4,5) by (simp add: index_room_def index_after_def split: if_splits)
    ultimately show ?thesis using Suc.IH [OF d(3)] d(1) by simp
  next
    case False
    then show ?thesis using dispatch_waits [of ms os] ch by simp
  qed
qed simp

lemma stored_all:
  assumes "store_inv os ms E" and "good_queue t i" and "pending ms t i = []"
  shows "stored ms t i = length (E t i)"
  using store_inv_queue(2,3) [OF assms(1,2)] assms(3) by (auto simp: queue_inv_def enumerate_eq_zip)

lemma batch_first:
  assumes "es \<noteq> []" and "batch ms matched maxN e 0 0 0 l es = (bs, seen, lst)"
  shows "lst \<in> e_off ` set es" and "0 < seen" and "matched (e_tag (hd es)) \<Longrightarrow> bs \<noteq> [] \<and> hd bs = hd es"
proof -
  have l: "lst1 \<in> insert l1 (e_off ` set xs)" if "batch ms matched maxN e n b c l1 xs = (bs1, s1, lst1)" for n b c l1 xs bs1 s1 lst1
    using that
    by (induction xs arbitrary: n b c l1 bs1) (fastforce simp: apfst_def map_prod_def split: if_splits prod.splits)+
  have s: "n \<le> s1" if "batch ms matched maxN e n b c l1 xs = (bs1, s1, lst1)" for n b c l1 xs bs1 s1 lst1
    using that by (induction xs arbitrary: n b c l1 bs1) (fastforce simp: apfst_def map_prod_def split: if_splits prod.splits)+
  obtain x xs where es: "es = x # xs" using assms(1) by (cases es) auto
  have nf: "\<not> DefaultMessageStore_isTheBatchFull ms y maxN (to_int32 0) (to_int32 0) d" for y d
    by (simp add: DefaultMessageStore_isTheBatchFull_def Let_def to_int32_id in_int_def)
  obtain b c bs1 where st: "batch ms matched maxN e (Suc 0) b c (e_off x) xs = (bs1, seen, lst)" "matched (e_tag x) \<Longrightarrow> bs = x # bs1"
    using assms(2) nf by (auto simp: es apfst_def map_prod_def split: if_splits prod.splits)
  show "lst \<in> e_off ` set es" using l [OF st(1)] by (simp add: es)
  show "0 < seen" using s [OF st(1)] by simp
  show "matched (e_tag (hd es)) \<Longrightarrow> bs \<noteq> [] \<and> hd bs = hd es" using st(2) by (simp add: es)
qed

section \<open>Properties\<close>

text \<open>
  C6 (what a consumer reads). In every state the store can reach by puts, dispatcher rounds, index rounds and gets in
  any order, reading a queue at an index below the number of dispatched messages answers with the reference batch of
  the messages accepted for the queue from this index on, up to the last dispatched one or to the end of the index file, whichever comes first: the
  regions are their records, byte for byte, the status says whether any matched, and the next offset
  skips exactly the messages looked at, of which there is at least one.
\<close>

theorem store_get_batch:
  assumes "store_reach c os ms E" and "good_queue t i" and "k < stored ms t i"
  shows "\<exists>res ms1 bs seen lst. DefaultMessageStore_GetMessage Contains t i (int k) maxN sub ms = Some (Some res, ms1) \<and>
     0 < region_length ms t i k \<and> k + region_length ms t i k \<le> stored ms t i \<and> stored ms t i \<le> length (E t i) \<and>
     batch ms (DefaultMessageFilter_IsMessageMatched Contains sub) maxN (CommitLog_getMaxOffset (ms_CommitLog ms)) 0 0 0 0
       (take (region_length ms t i k) (drop k (E t i))) = (bs, seen, lst) \<and>
     gets res bs \<and> gmr_Status res = (if bs = [] then NO_MATCHED_MESSAGE else FOUND) \<and>
     NextBeginOffset res = int (k + seen) \<and> 0 < seen \<and> gmr_MaxOffset res = int (stored ms t i)"
proof -
  note inv = reach_inv [OF assms(1)]
  have "stored ms t i \<le> length (E t i)" using store_inv_queue(2) [OF inv assms(2)] by (simp add: queue_inv_def)
  moreover from get_inside [OF inv assms(2,3), of Contains maxN sub] obtain res ms1 m bs seen lst where
    g: "DefaultMessageStore_GetMessage Contains t i (int k) maxN sub ms = Some (Some res, ms1)" "0 < m" "k + m \<le> stored ms t i"
      "m = region_length ms t i k" "batch ms (DefaultMessageFilter_IsMessageMatched Contains sub) maxN (CommitLog_getMaxOffset (ms_CommitLog ms)) 0 0 0 0
         (take m (drop k (E t i))) = (bs, seen, lst)"
      "gets res bs" "gmr_Status res = (if bs = [] then NO_MATCHED_MESSAGE else FOUND)" "NextBeginOffset res = int (k + seen)"
      "gmr_MaxOffset res = int (stored ms t i)" by blast
  moreover have "0 < seen"
    using batch_first(2) [OF _ g(5)] g(2,3) calculation(1) by fastforce
  ultimately show ?thesis by metis
qed

text \<open>
  C7 (what becomes of a put). In every reachable state of a writable store, for a message whose topic and properties
  are short enough to reach the log: a record that is too long is refused, and the call leaves the mutex locked; from
  then on every such put waits for ever and no message is accepted whatever the store does. Otherwise, when the
  dispatcher's channel has room, the message is accepted: it takes the next offset of its queue and the store goes on
  in a reachable state in which it is the last accepted message of its queue. Without room the call waits for the dispatcher.
\<close>

theorem store_put_accepted:
  assumes "store_reach c os ms E" and "put_shape storeNow lockNow msg ms E" and "m = stamped storeNow lockNow msg"
    and "RunningFlags_isWriteable (ms_RunningFlags ms)" and "length (m_Topic m) \<le> 127" and "length (m_PropertiesString m) \<le> 32767"
    and "P = DefaultMessageStore_PutMessage storeNow lockNow flushOk os msg ms"
  shows "if cl_locked (ms_CommitLog ms)
     then P = Some (None, ms\<lparr>printTimes := 0\<rparr>, os) \<and>
       (\<forall>os1 ms1 E1. store_step\<^sup>*\<^sup>* (os, ms, E) (os1, ms1, E1) \<longrightarrow> cl_locked (ms_CommitLog ms1) \<and> E1 = E)
     else if cl_maxMessageSize (ms_CommitLog ms) < msg_len m
     then \<exists>ms1 os1. P = Some (Some \<lparr>pmr_PutMessageStatus = MESSAGE_ILLEGAL,
            pmr_AppendMessageResult = Some (append_status MESSAGE_SIZE_EXCEEDED)\<rparr>, ms1, os1) \<and>
          store_reach c os1 ms1 E \<and> cl_locked (ms_CommitLog ms1)
     else if dispatcher_room ms
     then \<exists>r ms1 os1. P = Some (Some \<lparr>pmr_PutMessageStatus = put_status flushOk m (ms_CommitLog ms),
            pmr_AppendMessageResult = Some r\<rparr>, ms1, os1) \<and>
          LogicsOffset r = int (length (E (m_Topic m) (m_QueueId m))) \<and> store_reach c os1 ms1 (accept m r E) \<and>
          \<not> cl_locked (ms_CommitLog ms1)
     else P = None"
proof -
  note inv = reach_inv [OF assms(1)]
  note reach = reach_put [OF assms(1,2), of flushOk, folded assms(3)]
  consider (locked) "cl_locked (ms_CommitLog ms)"
    | (long) "\<not> cl_locked (ms_CommitLog ms)" "cl_maxMessageSize (ms_CommitLog ms) < msg_len m"
    | (full) "\<not> cl_locked (ms_CommitLog ms)" "msg_len m \<le> cl_maxMessageSize (ms_CommitLog ms)" "\<not> dispatcher_room ms"
    | (taken) "\<not> cl_locked (ms_CommitLog ms)" "msg_len m \<le> cl_maxMessageSize (ms_CommitLog ms)" "dispatcher_room ms" by linarith
  then show ?thesis
  proof cases
    case locked
    then show ?thesis
      using put_waits_locked [OF inv assms(3-6) locked] locked_for_ever [OF _ inv locked] assms(7) by fastforce
  next
    case long
    from put_refused [OF inv assms(2-6) long, of flushOk] reach long show ?thesis
      unfolding assms(7) by (fastforce simp: put_result_def append_status_def)
  next
    case full
    then show ?thesis using put_waits_dispatcher [OF inv assms(2-6) full] assms(7) by simp
  next
    case taken
    then have "put_args storeNow lockNow msg ms E" using assms(2-6) by (auto simp: put_args_def put_shape_def Let_def)
    from put_step [OF inv this assms(3), of flushOk] obtain r ms1 os1 where
      p: "P = Some (Some \<lparr>pmr_PutMessageStatus = put_status flushOk m (ms_CommitLog ms), pmr_AppendMessageResult = Some r\<rparr>, ms1, os1)"
        "LogicsOffset r = int (length (E (m_Topic m) (m_QueueId m)))" "Status r = APPENDMESSAGE_PUT_OK" "\<not> cl_locked (ms_CommitLog ms1)"
      unfolding assms(7) by blast
    have "store_reach c os1 ms1 (accept m r E)" using reach [OF p(1) [unfolded assms(7)]] p(3) by (simp add: put_result_def)
    with p taken show ?thesis by auto
  qed
qed

text \<open>
  C8 (every accepted message becomes readable). From every reachable state, \<open>n\<close> rounds of the dispatcher serve the
  first \<open>n\<close> requests that wait, without an error, when the channel of the index service has room for them; after as many
  rounds as requests wait, every queue holds all the messages accepted for it. Without this room the rounds do not
  come to an end: the dispatcher waits for the index service. A store without an index always has room.
\<close>

theorem store_drains:
  assumes "store_reach c os ms E" and "reqs = requestsChan (ms_DispatchMessageService ms)" and "n \<le> length reqs"
  shows "if n = 0 \<or> index_room ms n
     then \<exists>ms1 os1. dispatch_steps n os ms = Some (ms1, os1) \<and> store_reach c os1 ms1 E \<and>
       requestsChan (ms_DispatchMessageService ms1) = drop n reqs \<and>
       (n = length reqs \<longrightarrow> (\<forall>t i. good_queue t i \<longrightarrow> stored ms1 t i = length (E t i)))
     else dispatch_steps n os ms = None"
proof (cases "n = 0 \<or> index_room ms n")
  case True
  obtain ms1 os1 where d: "dispatch_steps n os ms = Some (ms1, os1)" "store_reach c os1 ms1 E"
      "requestsChan (ms_DispatchMessageService ms1) = drop n reqs"
  proof (cases "n = 0")
    case True
    then show ?thesis using that assms(1,2) by simp
  next
    case False
    then show ?thesis using that drain [OF assms(1), of n] assms(2,3) True by blast
  qed
  then have "stored ms1 t i = length (E t i)" if "good_queue t i" "n = length reqs" for t i
    using stored_all [OF reach_inv [OF d(2)] that(1)] that(2) by (simp add: pending_def)
  with d True show ?thesis by auto
next
  case False
  then show ?thesis using drain_waits [OF reach_inv [OF assms(1)], of n] assms(2,3) by simp
qed

text \<open>
  The requests of one operation fit the dispatcher's channel or the operation waits. The recovery after a crash sends
  one request for every message it reads, before the dispatcher runs.
\<close>

lemma put_requests_wait:
  assumes "\<not> dms_stop (ms_DispatchMessageService ms)" and "rs \<noteq> []"
    and "requestsCap (ms_DispatchMessageService ms) < int (length (requestsChan (ms_DispatchMessageService ms))) + int (length rs)"
  shows "put_dispatch_requests rs ms = None"
  using assms
proof (induction rs arbitrary: ms)
  case (Cons r rs)
  show ?case
  proof (cases "dispatcher_room ms")
    case False
    then show ?thesis using Cons.prems
      by (simp add: DefaultMessageStore_putDispatchRequest_def DispatchMessageService_putRequest_def dispatcher_room_def)
  next
    case True
    then have "rs \<noteq> []" using Cons.prems(3) by (auto simp: dispatcher_room_def)
    then show ?thesis using Cons.IH Cons.prems True
      by (simp add: DefaultMessageStore_putDispatchRequest_def DispatchMessageService_putRequest_def dispatcher_room_def)
  qed
qed simp

lemma recovery_waits:
  assumes "DefaultMessageStore_recoverConsumeQueue os ms = Some (ms1, os1)"
    and "CommitLog_recoverAbnormally (ms_ScheduleMessageService ms1) (ms_StoreCheckpoint ms1) os1 (ms_CommitLog ms1) = Some (trunc, reqs, cl, os2)"
    and "\<not> dms_stop (ms_DispatchMessageService ms1)" and "reqs \<noteq> []"
    and "requestsCap (ms_DispatchMessageService ms1) < int (length (requestsChan (ms_DispatchMessageService ms1))) + int (length reqs)"
  shows "DefaultMessageStore_recover False os ms = None"
  using assms put_requests_wait [of "ms1\<lparr>ms_CommitLog := cl\<rparr>" reqs] by (simp add: DefaultMessageStore_recover_def)

text \<open>
  In every reachable state, reading a queue before its first or past its last
  dispatched message returns no message, the documented status, and the offset to go on from.
\<close>

lemma store_get_outside:
  assumes "store_reach c os ms E" and "good_queue t i" and "n = int (stored ms t i)" and "offset < 0 \<or> n \<le> offset"
  shows "\<exists>res ms1. DefaultMessageStore_GetMessage Contains t i offset maxN sub ms = Some (Some res, ms1) \<and>
     MessageMapedList res = [] \<and>
     gmr_Status res = (if n = 0 then NO_MESSAGE_IN_QUEUE else if offset < 0 then OFFSET_TOO_SMALL
       else if offset = n then OFFSET_OVERFLOW_ONE else OFFSET_OVERFLOW_BADLY) \<and>
     NextBeginOffset res = (if offset = n then n else 0)"
  using get_outside [OF reach_inv [OF assms(1)] assms(2-4), of Contains maxN sub] by blast

text \<open>
  Every reader is sent to the slave. With a memory ratio from 0 to 99 percent, such as the default 40, the
  ratio is divided by 100 in integers and the limit is zero, so every answer with messages suggests
  pulling from the slave, however recent the messages are.
\<close>

lemma suggests_slave_always:
  assumes "store_reach c os ms E" and "good_queue t i" and "k < stored ms t i"
    and "0 \<le> AccessMessageInMemoryMaxRatio (ms_config ms)" and "AccessMessageInMemoryMaxRatio (ms_config ms) < 100"
    and "DefaultMessageStore_GetMessage Contains t i (int k) maxN sub ms = Some (Some res, ms1)"
  shows "SuggestPullingFromSlave res"
proof -
  note inv = reach_inv [OF assms(1)]
  from get_inside [OF inv assms(2,3), of Contains maxN sub] assms(6) obtain m bs seen lst where
    g: "0 < m" "k + m \<le> stored ms t i"
      "batch ms (DefaultMessageFilter_IsMessageMatched Contains sub) maxN (CommitLog_getMaxOffset (ms_CommitLog ms)) 0 0 0 0
         (take m (drop k (E t i))) = (bs, seen, lst)"
      "SuggestPullingFromSlave res = (CommitLog_getMaxOffset (ms_CommitLog ms) - lst >
         TotalPhysicalMemorySize * (AccessMessageInMemoryMaxRatio (ms_config ms) sdiv 100))" by auto
  have le: "stored ms t i \<le> length (E t i)" using store_inv_queue(2) [OF inv assms(2)] by (simp add: queue_inv_def)
  have "take m (drop k (E t i)) \<noteq> []" using g(1,2) le by auto
  from batch_first(1) [OF this g(3)] obtain e where e: "e \<in> set (E t i)" "lst = e_off e" by (auto dest!: in_set_takeD in_set_dropD)
  then have ok: "entry_ok (ms_CommitLog ms) e" using store_inv_queue(1) [OF inv assms(2)] by (simp add: entries_inv_def)
  have "lst + e_len e \<le> CommitLog_getMaxOffset (ms_CommitLog ms)" using ok e(2) by (simp add: entry_ok_def log_has_def e_len_def)
  moreover have "AccessMessageInMemoryMaxRatio (ms_config ms) sdiv 100 = 0" using assms(4,5) by (simp add: sdiv_nonneg)
  ultimately show ?thesis using g(4) entry_ok_pos [OF ok] by simp
qed


lemma flush_ok:
  assumes "scp_ok scp"
  shows "\<exists>b. StoreCheckpoint_flush os scp = Some (scp\<lparr>scp_mappedByteBuffer := b\<rparr>, os\<lparr>os_files := (os_files os)(scp_path scp := Some (MMapBuf b))\<rparr>) \<and>
     scp_ok (scp\<lparr>scp_mappedByteBuffer := b\<rparr>)"
proof -
  let ?m = "(scp_mappedByteBuffer scp)\<lparr>WritePos := 0\<rparr>"
  let ?ds = "[Int64ToBytes (physicMsgTimestamp scp), Int64ToBytes (logicsMsgTimestamp scp), Int64ToBytes (indexMsgTimestamp scp)]"
  have l: "length (concat ?ds) = 24" by (simp add: i64.length_enc)
  obtain b where b: "write_all ?m ?ds = Some b" "length (MMapBuf b) = length (MMapBuf (scp_mappedByteBuffer scp))"
      "Limit b = Limit (scp_mappedByteBuffer scp)"
    using write_all_at [of ?m ?ds] assms l length_overwrite [of 0 "concat ?ds" "MMapBuf (scp_mappedByteBuffer scp)"]
    by (auto simp: scp_ok_def)
  then show ?thesis
    using assms by (auto simp: StoreCheckpoint_flush_def MappedByteBuffer_WriteInt64_def scp_ok_def split: Option.bind_splits option.splits)
qed

lemma shutdown_ok:
  assumes "\<not> ShutdownFlag ms" and "scp_ok (ms_StoreCheckpoint ms)" and "abort = GetAbortFile (StorePathRootDir (ms_config ms))"
    and "\<not> os_fails os (OsStat abort)" and "\<not> os_fails os (OsRemove abort)" and "\<not> os_dirs os abort"
  shows "\<exists>ms1 os1. DefaultMessageStore_Shutdown 0 os ms = Some (ms1, os1) \<and>
     requestsChan (ms_DispatchMessageService ms1) = [] \<and> stored ms1 = stored ms \<and> \<not> DefaultMessageStore_isTempFileExist os1 ms1"
proof -
  obtain b1 where b1: "StoreCheckpoint_flush os (ms_StoreCheckpoint ms) =
      Some ((ms_StoreCheckpoint ms)\<lparr>scp_mappedByteBuffer := b1\<rparr>, os\<lparr>os_files := (os_files os)(scp_path (ms_StoreCheckpoint ms) := Some (MMapBuf b1))\<rparr>)"
      "scp_ok ((ms_StoreCheckpoint ms)\<lparr>scp_mappedByteBuffer := b1\<rparr>)"
    using flush_ok [OF assms(2)] by blast
  define os1 where "os1 = os\<lparr>os_files := (os_files os)(scp_path (ms_StoreCheckpoint ms) := Some (MMapBuf b1))\<rparr>"
  obtain b2 where b2: "StoreCheckpoint_flush os1 ((ms_StoreCheckpoint ms)\<lparr>scp_mappedByteBuffer := b1\<rparr>) =
      Some ((ms_StoreCheckpoint ms)\<lparr>scp_mappedByteBuffer := b2\<rparr>, os1\<lparr>os_files := (os_files os1)(scp_path (ms_StoreCheckpoint ms) := Some (MMapBuf b2))\<rparr>)"
    using flush_ok [OF b1(2), of os1] by auto
  show ?thesis
    using assms b1(1) b2
    by (auto simp: DefaultMessageStore_Shutdown_def StoreCheckpoint_shutdown_def Let_def stored_def queue_of_def fun_eq_iff
        DefaultMessageStore_isTempFileExist_def DefaultMessageStore_deleteFile_def PathExists_def os1_def [symmetric]
        split: option.split bool.split) (auto simp: os1_def)
qed

lemma recover_normally_silent:
  "DefaultMessageStore_recover True os ms = Some (ms1, os1) \<Longrightarrow>
     requestsChan (ms_DispatchMessageService ms1) = requestsChan (ms_DispatchMessageService ms)"
  by (auto simp: DefaultMessageStore_recover_def DefaultMessageStore_recoverConsumeQueue_def DefaultMessageStore_recoverTopicQueueTable_def
      Let_def split: Option.bind_splits)

text \<open>
  C33 (shutdown loses messages). When the dispatcher sees the close signal before the requests that
  wait for a queue, shutting down succeeds, the queue lacks messages the producer was told are
  stored, no request is left, and the abort marker is removed; the recovery of the next start then
  takes the normal path, which dispatches nothing.
\<close>

theorem shutdown_loses_pending:
  assumes "store_reach c os ms E" and "good_queue t i" and "pending ms t i \<noteq> []"
    and "abort = GetAbortFile (StorePathRootDir (ms_config ms))"
    and "\<not> os_fails os (OsStat abort)" and "\<not> os_fails os (OsRemove abort)" and "\<not> os_dirs os abort"
  shows "\<exists>ms1 os1. DefaultMessageStore_Shutdown 0 os ms = Some (ms1, os1) \<and> stored ms1 t i < length (E t i) \<and>
     requestsChan (ms_DispatchMessageService ms1) = [] \<and> \<not> DefaultMessageStore_isTempFileExist os1 ms1 \<and>
     (\<forall>os2 ms2 ms3 os3. requestsChan (ms_DispatchMessageService ms2) = [] \<longrightarrow>
        DefaultMessageStore_recover True os2 ms2 = Some (ms3, os3) \<longrightarrow> requestsChan (ms_DispatchMessageService ms3) = [])"
proof -
  note inv = reach_inv [OF assms(1)]
  have "drop (stored ms t i) (E t i) \<noteq> []" using store_inv_queue(3) [OF inv assms(2)] assms(3) by auto
  then have "stored ms t i < length (E t i)" by simp
  with shutdown_ok [OF store_invD(6,9) [OF inv] assms(4-7)] recover_normally_silent show ?thesis by fastforce
qed

section \<open>A run of the store\<close>

definition flow_config :: MessageStoreConfig where
  "flow_config = (NewMessageStoreConfig ''h'')\<lparr>MapedFileSizeCommitLog := 1024, MapedFileSizeConsumeQueue := 40, MaxMessageSize := 512\<rparr>"

lemma flow_config_fields:
  "StorePathRootDir flow_config = ''h/store''" "StorePathCommitLog flow_config = ''h/store/commitlog''"
  "AccessMessageInMemoryMaxRatio flow_config = 40" "MapedFileSizeCommitLog flow_config = 1024" "MaxMessageSize flow_config = 512"
  "good_config flow_config"
  by (simp_all add: flow_config_def NewMessageStoreConfig_def Let_def good_config_def)

lemma os_free_other:
  "os_free (os\<lparr>os_files := (os_files os)(q := x)\<rparr>) p \<longleftrightarrow> os_free os p" if "p \<noteq> q"
  using that by (simp add: os_free_def)

text \<open>A store with empty channels that takes messages.\<close>

definition idle_store :: "DefaultMessageStore \<Rightarrow> bool" where
  "idle_store ms \<longleftrightarrow> requestsChan (ms_DispatchMessageService ms) = [] \<and> 1 < requestsCap (ms_DispatchMessageService ms) \<and>
     is_requestQueue (ms_IndexService ms) = [] \<and> ms_RunningFlags ms = 0"

lemma idle_store_room:
  assumes "idle_store ms"
  shows "dispatcher_room ms" and "RunningFlags_isWriteable (ms_RunningFlags ms)" and "index_room ms 2"
  using assms by (simp_all add: idle_store_def dispatcher_room_def RunningFlags_isWriteable_def index_room_def requestQueue_capacity_def)

lemma flow_dispatcher:
  "NewDispatchMessageService (PutMsgIndexHightWater flow_config) =
     Some \<lparr>requestsChan = [], requestsCap = 900000, requestSize = 0, dms_stop = False\<rparr>"
  by (simp add: NewDispatchMessageService_def flow_config_def NewMessageStoreConfig_def Let_def sdiv_nonneg)

lemma flow_start:
  "\<exists>ms os. store_reach flow_config os ms (\<lambda>_ _. []) \<and> ms_config ms = flow_config \<and> idle_store ms \<and>
     ms_CommitLog ms = NewCommitLog None flow_config \<and> os_fails os = (\<lambda>_. False) \<and> \<not> os_dirs os ''h/store/abort''"
proof -
  let ?cp = "''h/store/checkpoint''" and ?ab = "''h/store/abort''"
  let ?os1 = "(ensureDirOK example_os ''h/store'')\<lparr>os_files := [?cp \<mapsto> replicate (nat OS_PAGE_SIZE) 0]\<rparr>"
  let ?scp = "\<lparr>scp_path = ?cp, scp_mappedByteBuffer = NewMappedByteBuffer (replicate (nat OS_PAGE_SIZE) 0) OS_PAGE_SIZE,
     physicMsgTimestamp = 0, logicsMsgTimestamp = 0, indexMsgTimestamp = 0\<rparr>"
  have page: "0 \<le> OS_PAGE_SIZE" "24 \<le> nat OS_PAGE_SIZE" by (simp_all add: OS_PAGE_SIZE_def)
  have d: "ensureDirOK example_os ''h/store'' = example_os\<lparr>os_dirs := (\<lambda>_. False)(''h/store'' := True)\<rparr>"
    by (simp add: ensureDirOK_def PathExists_def example_os_def)
  have "GetParentDirectory ?cp = ''h/store''" "GetParentDirectory ?ab = ''h/store''" by (simp_all add: GetParentDirectory_def)
  note par = this
  have scp: "NewStoreCheckpoint example_os ?cp = Some (Inr ?scp, ?os1)"
    using page by (simp add: NewStoreCheckpoint_def par d PathExists_def Let_def) (simp add: example_os_def)
  obtain ms0 where n: "NewDefaultMessageStore example_os flow_config = Some (ms0, ?os1)" "ms_StoreCheckpoint ms0 = ?scp"
      "ms_config ms0 = flow_config" "ms_CommitLog ms0 = NewCommitLog None flow_config" "idle_store ms0"
    using scp by (simp add: NewDefaultMessageStore_def GetStoreCheckpoint_def flow_config_fields flow_dispatcher idle_store_def NewIndexService_def)
  define ms os where "ms = fst (DefaultMessageStore_Start ?os1 ms0)" and "os = snd (DefaultMessageStore_Start ?os1 ms0)"
  have os: "os = ?os1\<lparr>os_files := (os_files ?os1)(?ab \<mapsto> [])\<rparr>"
    by (simp add: os_def DefaultMessageStore_Start_def DefaultMessageStore_createTempFile_def n(3) flow_config_fields GetAbortFile_def par Let_def)
       (simp add: d PathExists_def example_os_def ensureDirOK_def par)
  have free: "os_free os (mfq_path dir x)" if "take 9 dir = ''h/store/c''" "dir ! 9 = CHR ''o''" "10 \<le> length dir" for dir x
  proof -
    have t: "take 9 (mfq_path dir x) = ''h/store/c''" "mfq_path dir x ! 9 = CHR ''o''" "10 \<le> length (mfq_path dir x)"
      using that by (simp_all add: mfq_path_def nth_append)
    have "mfq_path dir x \<noteq> ?cp" using t(2) by auto
    moreover have "mfq_path dir x \<noteq> ?ab" using t(1) by auto
    moreover have "mfq_path dir x \<noteq> ''h/store''" using t(3) by auto
    ultimately show ?thesis by (simp add: os os_free_def d) (simp add: example_os_def)
  qed
  have fresh: "fresh_disk os flow_config"
    by (auto simp: fresh_disk_def flow_config_fields queue_dir_def GetStorePathConsumeQueue_def intro!: free)
  have "store_reach flow_config os ms (\<lambda>_ _. [])"
    using store_reach.start [OF flow_config_fields(6) n(1) _ fresh] page by (simp add: ms_def os_def n(2) scp_ok_def NewMappedByteBuffer_def)
  moreover have "ms_config ms = flow_config" "ms_CommitLog ms = NewCommitLog None flow_config" "idle_store ms"
    using n(5) by (simp_all add: ms_def DefaultMessageStore_Start_def n(3,4) idle_store_def)
  moreover have "os_fails os = (\<lambda>_. False)" "\<not> os_dirs os ?ab" by (simp_all add: os d) (simp_all add: example_os_def)
  ultimately show ?thesis by blast
qed

definition flow_msg :: MessageExtBrokerInner where
  "flow_msg = stamped 1000 1001 example_inner"

lemma flow_msg_fields: "m_Topic flow_msg = ''t''" "m_QueueId flow_msg = 3" "visible (m_SysFlag flow_msg)" "good_queue ''t'' 3"
  by (simp_all add: flow_msg_def stamped_def example_inner_def example_msg_def MessageExt.extend_def visible_def
      GetTransactionValue_def TransactionNotType_def good_queue_def)

lemma flow_args:
  assumes "ms_config ms = flow_config" and "ms_CommitLog ms = NewCommitLog None flow_config" and "idle_store ms"
  shows "put_args 1000 1001 example_inner ms (\<lambda>_ _. [])"
proof -
  have "in_int 64 (m_TagsCode flow_msg)"
    by (simp add: flow_msg_def stamped_def example_inner_def example_msg_def MessageExt.extend_def in_int_def)
  then show ?thesis
    using example_fits flow_msg_fields idle_store_room [OF assms(3)]
    by (simp add: put_args_def Let_def assms(1,2) NewCommitLog_def NewMapedFileQueue_def mfq_end_def mfq_base_def flow_config_fields flow_msg_def)
qed

lemma flow_put:
  "\<exists>ms os r. store_reach flow_config os ms (accept flow_msg r (\<lambda>_ _. [])) \<and> stored ms ''t'' 3 = 0 \<and> ms_config ms = flow_config \<and>
     os_fails os = (\<lambda>_. False) \<and> \<not> os_dirs os ''h/store/abort'' \<and> length (requestsChan (ms_DispatchMessageService ms)) = 1 \<and> index_room ms 1"
proof -
  obtain ms os where s: "store_reach flow_config os ms (\<lambda>_ _. [])" "ms_config ms = flow_config"
      "ms_CommitLog ms = NewCommitLog None flow_config" "os_fails os = (\<lambda>_. False)" "\<not> os_dirs os ''h/store/abort''" "idle_store ms"
    using flow_start by blast
  note inv = reach_inv [OF s(1)] note args = flow_args [OF s(2,3,6)]
  have st: "stored ms ''t'' 3 = 0"
    using store_inv_queue(2) [OF inv flow_msg_fields(4)] by (simp add: queue_inv_def)
  from put_step [OF inv args refl, of True, folded flow_msg_def] obtain r ms1 os1 where
    p: "DefaultMessageStore_PutMessage 1000 1001 True os example_inner ms =
        Some (Some \<lparr>pmr_PutMessageStatus = put_status True flow_msg (ms_CommitLog ms), pmr_AppendMessageResult = Some r\<rparr>, ms1, os1)"
      "stored ms1 = stored ms" "ms_config ms1 = ms_config ms" "os_only ''h/store/commitlog'' os os1"
      "Status r = APPENDMESSAGE_PUT_OK" "ms_IndexService ms1 = ms_IndexService ms"
      "requestsChan (ms_DispatchMessageService ms1) = requestsChan (ms_DispatchMessageService ms) @ [dispatch_of flow_msg r]"
    by (auto simp: s(2) flow_config_fields)
  have "store_reach flow_config os1 ms1 (accept flow_msg r (\<lambda>_ _. []))"
    using reach_put [OF s(1) put_args_shape [OF args] p(1)] p(5) by (simp add: flow_msg_def put_result_def)
  moreover have "length (requestsChan (ms_DispatchMessageService ms1)) = 1" "index_room ms1 1"
    using s(6) p(3,6,7) by (simp_all add: idle_store_def index_room_def requestQueue_capacity_def)
  moreover have "os_fails os1 = (\<lambda>_. False)" "\<not> os_dirs os1 ''h/store/abort''" using p(4) s(4,5) by (simp_all add: os_only_def)
  moreover have "stored ms1 ''t'' 3 = 0" "ms_config ms1 = flow_config" using p(2,3) st s(2) by simp_all
  ultimately show ?thesis by blast
qed

lemma flow_dispatched:
  "\<exists>ms os r. store_reach flow_config os ms (accept flow_msg r (\<lambda>_ _. [])) \<and> stored ms ''t'' 3 = 1 \<and>
     ms_config ms = flow_config"
proof -
  obtain ms os r where s: "store_reach flow_config os ms (accept flow_msg r (\<lambda>_ _. []))" "ms_config ms = flow_config" "stored ms ''t'' 3 = 0"
      "length (requestsChan (ms_DispatchMessageService ms)) = 1" "index_room ms 1"
    using flow_put by blast
  let ?E = "accept flow_msg r (\<lambda>_ _. [])"
  note inv = reach_inv [OF s(1)]
  have e: "?E ''t'' 3 = [new_entry flow_msg r]" by (simp add: accept_def flow_msg_fields)
  obtain ms1 os1 where d: "dispatch_steps 1 os ms = Some (ms1, os1)"
      "store_reach flow_config os1 ms1 ?E" "requestsChan (ms_DispatchMessageService ms1) = []" "ms_CommitLog ms1 = ms_CommitLog ms"
    using drain [OF s(1) _ s(5)] s(4) by auto
  note inv1 = reach_inv [OF d(2)]
  have "stored ms1 ''t'' 3 = 1" using stored_all [OF inv1 flow_msg_fields(4)] d(3) e by (simp add: pending_def)
  moreover have "ms_config ms1 = flow_config"
    using store_invD(2) [OF inv1] store_invD(2) [OF inv] d(4) s(2) by simp
  ultimately show ?thesis using d(2) by blast
qed

theorem store_get_batch_witness:
  "\<exists>ms res ms1 r. DefaultMessageStore_GetMessage (\<lambda>s x. x \<in> s) ''t'' 3 0 32 None ms = Some (Some res, ms1) \<and>
     gets res [new_entry flow_msg r] \<and> gmr_Status res = FOUND \<and> NextBeginOffset res = 1"
proof -
  obtain ms os r where s: "store_reach flow_config os ms (accept flow_msg r (\<lambda>_ _. []))" "stored ms ''t'' 3 = 1"
    using flow_dispatched by blast
  have e: "accept flow_msg r (\<lambda>_ _. []) ''t'' 3 = [new_entry flow_msg r]" by (simp add: accept_def flow_msg_fields)
  let ?m = "region_length ms ''t'' 3 0"
  from store_get_batch [OF s(1) flow_msg_fields(4), of 0 "\<lambda>s x. x \<in> s" 32 None] obtain res ms1 bs seen lst where
    g: "DefaultMessageStore_GetMessage (\<lambda>s x. x \<in> s) ''t'' 3 0 32 None ms = Some (Some res, ms1)" "0 < ?m" "?m \<le> 1"
      "batch ms (DefaultMessageFilter_IsMessageMatched (\<lambda>s x. x \<in> s) None) 32 (CommitLog_getMaxOffset (ms_CommitLog ms)) 0 0 0 0
         (take ?m [new_entry flow_msg r]) = (bs, seen, lst)"
      "gets res bs" "gmr_Status res = (if bs = [] then NO_MATCHED_MESSAGE else FOUND)" "NextBeginOffset res = int seen"
    by (auto simp: s(2) e)
  have "?m = 1" using g(2,3) by simp
  then have "bs = [new_entry flow_msg r]" "seen = 1"
    using g(4) by (auto simp: DefaultMessageFilter_IsMessageMatched_def DefaultMessageStore_isTheBatchFull_def to_int32_id in_int_def)
  with g(1,5-7) show ?thesis by auto
qed

text \<open>
  One store takes a message, the same message with a longer body is refused, and then the first message is not taken
  any more.
\<close>

definition flow_long :: MessageExtBrokerInner where
  "flow_long = example_inner\<lparr>m_Body := replicate 500 0\<rparr>"

lemma flow_long_shape:
  assumes "ms_config ms = flow_config" and "ms_CommitLog ms = NewCommitLog None flow_config"
  shows "put_shape 1000 1001 flow_long ms (\<lambda>_ _. [])" and "msg_fits (stamped 1000 1001 flow_long)" and "msg_len (stamped 1000 1001 flow_long) = 592"
    and "m_Topic (stamped 1000 1001 flow_long) = ''t''" and "m_PropertiesString (stamped 1000 1001 flow_long) = []"
proof -
  have "in_int 32 (m_BodyCRC (stamped 1000 1001 flow_long))" using Crc32_in by (simp add: stamped_def flow_long_def)
  then show f: "msg_fits (stamped 1000 1001 flow_long)"
    using example_fits(1) by (simp add: msg_fits_def stamped_def flow_long_def)
  show t: "m_Topic (stamped 1000 1001 flow_long) = ''t''" "m_PropertiesString (stamped 1000 1001 flow_long) = []"
    by (simp_all add: stamped_def flow_long_def example_inner_def example_msg_def MessageExt.extend_def)
  show "msg_len (stamped 1000 1001 flow_long) = 592" using msg_len_eq [OF f] t by (simp add: stamped_def flow_long_def)
  have "m_QueueId (stamped 1000 1001 flow_long) = 3" "in_int 64 (m_TagsCode (stamped 1000 1001 flow_long))"
    by (simp_all add: stamped_def flow_long_def example_inner_def example_msg_def MessageExt.extend_def in_int_def)
  with f t flow_msg_fields(4) show "put_shape 1000 1001 flow_long ms (\<lambda>_ _. [])"
    by (simp add: put_shape_def Let_def assms NewCommitLog_def NewMapedFileQueue_def mfq_end_def mfq_base_def flow_config_fields)
qed

theorem store_put_accepted_witness:
  "\<exists>ms os r ms1 os1 ms2 os2. DefaultMessageStore_PutMessage 1000 1001 True os example_inner ms =
       Some (Some \<lparr>pmr_PutMessageStatus = PUTMESSAGE_PUT_OK, pmr_AppendMessageResult = Some r\<rparr>, ms1, os1) \<and>
     LogicsOffset r = 0 \<and> store_reach flow_config os1 ms1 (accept flow_msg r (\<lambda>_ _. [])) \<and>
     DefaultMessageStore_PutMessage 1000 1001 True os flow_long ms = Some (Some \<lparr>pmr_PutMessageStatus = MESSAGE_ILLEGAL,
       pmr_AppendMessageResult = Some (append_status MESSAGE_SIZE_EXCEEDED)\<rparr>, ms2, os2) \<and>
     cl_locked (ms_CommitLog ms2) \<and>
     store_reach flow_config os2 ms2 (\<lambda>_ _. [])"
proof -
  obtain ms os where s: "store_reach flow_config os ms (\<lambda>_ _. [])" "ms_config ms = flow_config"
      "ms_CommitLog ms = NewCommitLog None flow_config" "idle_store ms"
    using flow_start by blast
  note args = flow_args [OF s(2-4)] note long = flow_long_shape [OF s(2,3)]
  have st: "put_status True flow_msg (ms_CommitLog ms) = PUTMESSAGE_PUT_OK" by (simp add: put_status_def)
  have cl: "\<not> cl_locked (ms_CommitLog ms)" "cl_maxMessageSize (ms_CommitLog ms) = 512"
    by (simp_all add: s(3) NewCommitLog_def flow_config_fields)
  have fit: "msg_len flow_msg \<le> 512" "m_PropertiesString flow_msg = []"
    using example_fits(2) by (simp_all add: flow_msg_def stamped_def example_inner_def example_msg_def MessageExt.extend_def)
  from store_put_accepted [OF s(1) put_args_shape [OF args] refl idle_store_room(2) [OF s(4)] _ _ refl, of True, folded flow_msg_def]
  obtain r ms1 os1 where "DefaultMessageStore_PutMessage 1000 1001 True os example_inner ms =
       Some (Some \<lparr>pmr_PutMessageStatus = PUTMESSAGE_PUT_OK, pmr_AppendMessageResult = Some r\<rparr>, ms1, os1)"
      "LogicsOffset r = 0" "store_reach flow_config os1 ms1 (accept flow_msg r (\<lambda>_ _. []))"
    using cl fit idle_store_room(1) [OF s(4)] flow_msg_fields(1) st by auto
  moreover from store_put_accepted [OF s(1) long(1) refl idle_store_room(2) [OF s(4)] _ _ refl, of True]
  obtain ms2 os2 where "DefaultMessageStore_PutMessage 1000 1001 True os flow_long ms = Some (Some \<lparr>pmr_PutMessageStatus = MESSAGE_ILLEGAL,
       pmr_AppendMessageResult = Some (append_status MESSAGE_SIZE_EXCEEDED)\<rparr>, ms2, os2)" "cl_locked (ms_CommitLog ms2)"
      "store_reach flow_config os2 ms2 (\<lambda>_ _. [])"
    using cl long(3-5) by auto
  ultimately show ?thesis by blast
qed

theorem store_drains_witness:
  "\<exists>ms os ms1 os1. stored ms ''t'' 3 = 0 \<and> dispatch_steps 1 os ms = Some (ms1, os1) \<and> stored ms1 ''t'' 3 = 1"
proof -
  obtain ms os r where s: "store_reach flow_config os ms (accept flow_msg r (\<lambda>_ _. []))" "stored ms ''t'' 3 = 0"
      "length (requestsChan (ms_DispatchMessageService ms)) = 1" "index_room ms 1"
    using flow_put by blast
  have e: "accept flow_msg r (\<lambda>_ _. []) ''t'' 3 = [new_entry flow_msg r]" by (simp add: accept_def flow_msg_fields)
  from store_drains [OF s(1) refl, of 1] s(3,4) flow_msg_fields(4) e s(2) show ?thesis by fastforce
qed

lemma store_get_outside_witness:
  "\<exists>ms res ms1. DefaultMessageStore_GetMessage (\<lambda>s x. x \<in> s) ''t'' 3 5 32 None ms = Some (Some res, ms1) \<and>
     gmr_Status res = OFFSET_OVERFLOW_BADLY \<and> NextBeginOffset res = 0"
proof -
  obtain ms os r where s: "store_reach flow_config os ms (accept flow_msg r (\<lambda>_ _. []))" "stored ms ''t'' 3 = 1"
    using flow_dispatched by blast
  from store_get_outside [OF s(1) flow_msg_fields(4) refl, of 5 "\<lambda>s x. x \<in> s" 32 None] s(2) show ?thesis by auto
qed

lemma suggests_slave_always_witness:
  "\<exists>ms res ms1. DefaultMessageStore_GetMessage (\<lambda>s x. x \<in> s) ''t'' 3 0 32 None ms = Some (Some res, ms1) \<and>
     SuggestPullingFromSlave res"
proof -
  obtain ms os r where s: "store_reach flow_config os ms (accept flow_msg r (\<lambda>_ _. []))" "stored ms ''t'' 3 = 1" "ms_config ms = flow_config"
    using flow_dispatched by blast
  from get_inside [OF reach_inv [OF s(1)] flow_msg_fields(4), of 0 "\<lambda>s x. x \<in> s" 32 None] s(2) obtain res ms1 where
    g: "DefaultMessageStore_GetMessage (\<lambda>s x. x \<in> s) ''t'' 3 (int 0) 32 None ms = Some (Some res, ms1)" by auto
  have "SuggestPullingFromSlave res"
    by (rule suggests_slave_always [OF s(1) flow_msg_fields(4) _ _ _ g]) (simp_all add: s(2,3) flow_config_fields)
  with g show ?thesis by auto
qed

theorem shutdown_loses_pending_witness:
  "\<exists>ms os r ms1 os1. DefaultMessageStore_Shutdown 0 os ms = Some (ms1, os1) \<and>
     accept flow_msg r (\<lambda>_ _. []) ''t'' 3 = [new_entry flow_msg r] \<and> stored ms1 ''t'' 3 = 0 \<and>
     requestsChan (ms_DispatchMessageService ms1) = []"
proof -
  obtain ms os r where s: "store_reach flow_config os ms (accept flow_msg r (\<lambda>_ _. []))" "stored ms ''t'' 3 = 0"
      "ms_config ms = flow_config" "os_fails os = (\<lambda>_. False)" "\<not> os_dirs os ''h/store/abort''"
    using flow_put by blast
  have e: "accept flow_msg r (\<lambda>_ _. []) ''t'' 3 = [new_entry flow_msg r]" by (simp add: accept_def flow_msg_fields)
  have "pending ms ''t'' 3 \<noteq> []" using stored_all [OF reach_inv [OF s(1)] flow_msg_fields(4)] s(2) e by auto
  from shutdown_loses_pending [OF s(1) flow_msg_fields(4) this refl] s(3-5) obtain ms1 os1 where
    "DefaultMessageStore_Shutdown 0 os ms = Some (ms1, os1)" "stored ms1 ''t'' 3 < length (accept flow_msg r (\<lambda>_ _. []) ''t'' 3)"
    "requestsChan (ms_DispatchMessageService ms1) = []"
    by (auto simp: GetAbortFile_def flow_config_fields)
  moreover from this(2) have "stored ms1 ''t'' 3 = 0" by (simp add: e)
  ultimately show ?thesis using e by blast
qed

end
