(* ===== verification/ClientM.thy ===== *)
theory ClientM
  imports MessageM GoStrings "HOL-Library.List_Lexorder" "HOL-Library.Char_ord" "HOL-Library.Product_Lexorder" "HOL-Library.Multiset"
begin

text \<open>
  The consumer side of \<open>stgclient\<close>: queues and their order (\<open>stgcommon/message/message_queue.go\<close>), how
  the members of a group share the queues of a topic (\<open>consumer/rebalance\<close>, \<open>process/rebalance_impl.go\<close>),
  the messages a consumer has pulled and not yet consumed (\<open>consumer/process_queue.go\<close>) and the choice of
  a queue by a producer (\<open>process/topic_publish_info.go\<close>).

  Offsets, queue numbers and counts of the client are integers without bound here and have 64 bits in the code: they
  differ only for an offset of \<open>2 ^ 63 - 1\<close>. Hash codes, which do overflow, are kept at their width.
\<close>

section \<open>Message queues\<close>

record MessageQueue =
  mq_Topic :: string
  mq_BrokerName :: string
  mq_QueueId :: int

definition NewDefaultMessageQueue :: "string \<Rightarrow> string \<Rightarrow> int \<Rightarrow> MessageQueue" where
  "NewDefaultMessageQueue topic brokerName queueId =
     \<lparr>mq_Topic = topic, mq_BrokerName = brokerName, mq_QueueId = queueId\<rparr>"

definition MessageQueue_Equal :: "MessageQueue \<Rightarrow> MessageQueue \<Rightarrow> bool" where
  "MessageQueue_Equal mq other \<longleftrightarrow>
     EqualFold (mq_Topic other) (mq_Topic mq) \<and> EqualFold (mq_BrokerName other) (mq_BrokerName mq) \<and>
     mq_QueueId other = mq_QueueId mq"

text \<open>The argument is a value of any type; \<open>None\<close> stands for one that is no queue.\<close>

definition MessageQueue_Equals :: "MessageQueue \<Rightarrow> MessageQueue option \<Rightarrow> bool" where
  "MessageQueue_Equals mq v =
     (case v of
        None \<Rightarrow> False
      | Some mq1 \<Rightarrow> EqualFold (mq_BrokerName mq) (mq_BrokerName mq1) \<and> EqualFold (mq_Topic mq) (mq_Topic mq1) \<and>
                    mq_QueueId mq = mq_QueueId mq1)"

definition MessageQueue_hashCode :: "MessageQueue \<Rightarrow> int" where
  "MessageQueue_hashCode mq =
     (let prime = 31; result = 1;
          result = (if EqualFold (mq_BrokerName mq) [] then prime * result + 0 else to_int64 (prime * result + HashCode (mq_BrokerName mq)));
          result = to_int64 (prime * result + mq_QueueId mq)
      in if EqualFold (mq_Topic mq) [] then to_int64 (prime * result + 0)
         else to_int64 (prime * result + HashCode (mq_Topic mq)))"

definition MessageQueue_HashBytes :: "MessageQueue \<Rightarrow> byte list" where
  "MessageQueue_HashBytes mq = bytes_of_string (FormatInt (MessageQueue_hashCode mq))"

definition MessageQueue_Key :: "MessageQueue \<Rightarrow> string" where
  "MessageQueue_Key mq = mq_Topic mq @ ''@'' @ mq_BrokerName mq @ ''@'' @ FormatInt (mq_QueueId mq)"

definition MessageQueues_Less :: "MessageQueue \<Rightarrow> MessageQueue \<Rightarrow> bool" where
  "MessageQueues_Less imq jmq =
     (if mq_Topic imq < mq_Topic jmq then True
      else if mq_Topic imq > mq_Topic jmq then False
      else if mq_BrokerName imq < mq_BrokerName jmq then True
      else if mq_BrokerName imq > mq_BrokerName jmq then False
      else if mq_QueueId imq < mq_QueueId jmq then True else False)"

text \<open>The order of \<open>Less\<close> as a key: \<open>sort.Sort\<close> gives the one sorted list.\<close>

definition mq_key :: "MessageQueue \<Rightarrow> string \<times> string \<times> int" where
  "mq_key mq = (mq_Topic mq, mq_BrokerName mq, mq_QueueId mq)"

lemma Less_key: "MessageQueues_Less a b \<longleftrightarrow> mq_key a < mq_key b"
  by (auto simp: MessageQueues_Less_def mq_key_def less_prod_def' not_less_iff_gr_or_eq)

lemma inj_mq_key: "inj mq_key"
  by (auto simp: inj_def mq_key_def)

section \<open>Sharing the queues of a topic\<close>

text \<open>The index of the first consumer id that equals the current one.\<close>

fun cid_index :: "nat \<Rightarrow> string \<Rightarrow> string list \<Rightarrow> nat option" where
  "cid_index n currentCID [] = None"
| "cid_index n currentCID (cid # cidAll) =
     (if EqualFold cid currentCID then Some n else cid_index (Suc n) currentCID cidAll)"

text \<open>\<open>None\<close> is a panic.\<close>

definition AllocateMessageQueueAveragely_Allocate :: "string \<Rightarrow> MessageQueue list \<Rightarrow> string list \<Rightarrow> MessageQueue list option" where
  "AllocateMessageQueueAveragely_Allocate currentCID mqAll cidAll =
     (if EqualFold currentCID [] then None
      else if length mqAll = 0 then None
      else if length cidAll = 0 then None
      else case cid_index 0 currentCID cidAll of
        None \<Rightarrow> Some []
      | Some index \<Rightarrow>
          (let md = length mqAll mod length cidAll;
               averageSize = (if length mqAll \<le> length cidAll then 1
                              else if md > 0 \<and> index < md then length mqAll div length cidAll + 1
                              else length mqAll div length cidAll);
               startIndex = (if md > 0 \<and> index < md then index * averageSize else index * averageSize + md);
               rangeV = (if int (length mqAll) - int startIndex < int averageSize
                         then int (length mqAll) - int startIndex else int averageSize)
           in Some (map (\<lambda>i. mqAll ! ((startIndex + i) mod length mqAll)) [0..<nat rangeV])))"

text \<open>
  The clustering case of \<open>rebalanceByTopic\<close> up to the queues it passes on, for a strategy of the interface
  \<open>AllocateMessageQueueStrategy\<close>: \<open>mqSet\<close> is the known set of queues in the order the set is iterated,
  \<open>cidAll\<close> the answer of the broker. \<open>None\<close> is a panic; \<open>Some None\<close> stands for no change.
\<close>

definition RebalanceImplExt_rebalanceByTopic ::
    "(string \<Rightarrow> MessageQueue list \<Rightarrow> string list \<Rightarrow> MessageQueue list option) \<Rightarrow> string \<Rightarrow>
     MessageQueue list option \<Rightarrow> string list \<Rightarrow> MessageQueue list option option" where
  "RebalanceImplExt_rebalanceByTopic Allocate clientId mqSet cidAll =
     (case mqSet of
        Some mqs \<Rightarrow>
          if length mqs > 0 \<and> length cidAll > 0
          then map_option Some (Allocate clientId (sort_key mq_key mqs) (sort cidAll))
          else Some None
      | None \<Rightarrow> Some None)"

subsection \<open>The shares partition the queues\<close>

text \<open>Where the share of the consumer with index \<open>j\<close> starts.\<close>

definition share_start :: "nat \<Rightarrow> nat \<Rightarrow> nat \<Rightarrow> nat" where
  "share_start n k j = j * (n div k) + min j (n mod k)"

lemma share_start_Suc:
  "share_start n k (Suc j) = share_start n k j + n div k + (if j < n mod k then 1 else 0)"
  by (simp add: share_start_def)

lemma share_start_end: "0 < k \<Longrightarrow> share_start n k k = n"
  by (simp add: share_start_def min_absorb2 less_imp_le)

lemma share_start_le: "0 < k \<Longrightarrow> j \<le> k \<Longrightarrow> share_start n k j \<le> n"
proof -
  assume k: "0 < k" and j: "j \<le> k"
  have "share_start n k j \<le> share_start n k k"
    by (rule lift_Suc_mono_le [OF _ j]) (simp add: share_start_Suc)
  then show ?thesis using k by (simp add: share_start_end)
qed

lemma concat_slices:
  assumes "f 0 = 0" and "\<And>j. f j \<le> f (Suc j)"
  shows "concat (map (\<lambda>j. take (f (Suc j) - f j) (drop (f j) xs)) [0..<k]) = take (f k) xs"
proof (induction k)
  case (Suc k)
  then show ?case using take_add [of "f k" "f (Suc k) - f k" xs] assms(2) [of k] by simp
qed (simp add: assms(1))

lemma map_nth_slice:
  assumes "s + m \<le> length xs"
  shows "map (\<lambda>i. xs ! ((s + i) mod length xs)) [0..<m] = take m (drop s xs)"
  using assms by (intro nth_equalityI) simp_all

definition share :: "MessageQueue list \<Rightarrow> nat \<Rightarrow> nat \<Rightarrow> MessageQueue list" where
  "share mqAll k j = take (share_start (length mqAll) k (Suc j) - share_start (length mqAll) k j)
     (drop (share_start (length mqAll) k j) mqAll)"

lemma allocate_eval:
  fixes mqAll :: "MessageQueue list" and cidAll :: "string list" and j :: nat
  defines "n \<equiv> length mqAll" and "k \<equiv> length cidAll"
  defines "a \<equiv> (if n \<le> k then 1 else n div k + (if j < n mod k then 1 else 0))"
  defines "s \<equiv> (if j < n mod k then j * a else j * a + n mod k)"
  assumes "currentCID \<noteq> []" and "mqAll \<noteq> []" and "cidAll \<noteq> []" and "cid_index 0 currentCID cidAll = Some j"
  shows "AllocateMessageQueueAveragely_Allocate currentCID mqAll cidAll =
     Some (map (\<lambda>i. mqAll ! ((s + i) mod n)) [0..<min (n - s) a])"
proof -
  have c: "(0 < n mod k \<and> j < n mod k) = (j < n mod k)" by auto
  have z: "(n = 0) = False" "(k = 0) = False" using assms(6,7) by (simp_all add: n_def k_def)
  have d: "(if j < n mod k then n div k + 1 else n div k) = n div k + (if j < n mod k then 1 else 0)" by simp
  have m: "nat (if int n - int s < int a then int n - int s else int a) = min (n - s) a" by auto
  have "AllocateMessageQueueAveragely_Allocate currentCID mqAll cidAll =
      Some (map (\<lambda>i. mqAll ! ((s + i) mod n)) [0..<nat (if int n - int s < int a then int n - int s else int a)])"
    unfolding AllocateMessageQueueAveragely_Allocate_def Let_def assms(8) option.case s_def a_def
    by (simp only: EqualFold_simps assms(5) simp_thms if_False n_def [symmetric] k_def [symmetric] c d z)
  then show ?thesis unfolding m .
qed

lemma allocate_share:
  assumes "currentCID \<noteq> []" and "mqAll \<noteq> []" and "cid_index 0 currentCID cidAll = Some j" and "j < length cidAll"
  shows "AllocateMessageQueueAveragely_Allocate currentCID mqAll cidAll = Some (share mqAll (length cidAll) j)"
proof -
  define n k where "n = length mqAll" and "k = length cidAll"
  define a where "a = (if n \<le> k then 1 else n div k + (if j < n mod k then 1 else 0))"
  define s where "s = (if j < n mod k then j * a else j * a + n mod k)"
  have k: "0 < k" "j < k" "cidAll \<noteq> []" using assms(4) by (auto simp: k_def)
  have ev: "AllocateMessageQueueAveragely_Allocate currentCID mqAll cidAll =
      Some (map (\<lambda>i. mqAll ! ((s + i) mod n)) [0..<min (n - s) a])"
    using allocate_eval [OF assms(1,2) k(3) assms(3)] by (simp add: n_def k_def a_def s_def)
  have t: "share_start n k (Suc j) \<le> n" using share_start_le [OF k(1)] k(2) by simp
  have m: "min (n - s) a = share_start n k (Suc j) - share_start n k j \<and> (a = 0 \<or> n \<le> s \<or> s = share_start n k j)"
  proof (cases "n \<le> k")
    case True
    then consider "n = k" | "n < k" by linarith
    then show ?thesis
    proof cases
      case 1
      then have "n div k = 1" "n mod k = 0" using k(1) by simp_all
      then show ?thesis using 1 k(2) by (simp add: a_def s_def share_start_def)
    next
      case 2
      then have "n div k = 0" "n mod k = n" by simp_all
      then show ?thesis using 2 by (auto simp: a_def s_def share_start_def)
    qed
  next
    case False
    then have "s = share_start n k j" by (simp add: a_def s_def share_start_def min_def algebra_simps)
    moreover have "share_start n k (Suc j) = share_start n k j + a" using False by (simp add: a_def share_start_Suc)
    ultimately show ?thesis using t by auto
  qed
  have "map (\<lambda>i. mqAll ! ((s + i) mod n)) [0..<min (n - s) a] = share mqAll k j"
  proof (cases "a = 0 \<or> n \<le> s")
    case True
    then have "min (n - s) a = 0" by auto
    then show ?thesis using m by (simp add: share_def n_def)
  next
    case False
    then have "s = share_start n k j" using m by auto
    then show ?thesis using map_nth_slice [of s "min (n - s) a" mqAll] m False unfolding share_def n_def by force
  qed
  then show ?thesis using ev by (simp add: k_def)
qed

lemma cid_index_nth:
  assumes "distinct (map fold_case cidAll)" and "j < length cidAll"
  shows "cid_index n (cidAll ! j) cidAll = Some (n + j)"
  using assms
proof (induction cidAll arbitrary: n j)
  case (Cons c cidAll)
  show ?case
  proof (cases j)
    case (Suc i)
    then have "fold_case c \<noteq> fold_case (cidAll ! i)" using Cons.prems by (auto simp: image_iff)
    then show ?thesis using Suc Cons by (simp add: EqualFold_def)
  qed simp
qed simp

lemma concat_shares: "0 < k \<Longrightarrow> concat (map (share mqAll k) [0..<k]) = mqAll"
  unfolding share_def
  by (subst concat_slices) (simp_all add: share_start_Suc share_start_end, simp add: share_start_def)

lemma length_share:
  "j < k \<Longrightarrow> length (share mqAll k j) = length mqAll div k + (if j < length mqAll mod k then 1 else 0)"
  using share_start_le [of k "Suc j" "length mqAll"] by (auto simp: share_def share_start_Suc split: if_splits)

lemma sort_views:
  assumes "mset mqs = mset mqs1"
  shows "sort_key mq_key mqs = sort_key mq_key mqs1"
  using assms inj_mq_key by (intro sort_key_inj_key_eq) (simp_all add: inj_on_def inj_def)

subsection \<open>The interface of a strategy\<close>

text \<open>
  What the rebalancing relies on: asked by each member with the same lists, the strategy cuts the list of
  queues into parts of almost equal length.
\<close>

definition fair :: "nat \<Rightarrow> nat \<Rightarrow> 'a list \<Rightarrow> bool" where
  "fair n k xs \<longleftrightarrow> length xs = n div k \<or> length xs = n div k + 1"

locale allocate_strategy =
  fixes Allocate :: "string \<Rightarrow> MessageQueue list \<Rightarrow> string list \<Rightarrow> MessageQueue list option"
  assumes parts: "cidAll \<noteq> [] \<Longrightarrow> distinct (map fold_case cidAll) \<Longrightarrow> [] \<notin> set cidAll \<Longrightarrow> mqAll \<noteq> [] \<Longrightarrow>
     \<exists>part. (\<forall>c \<in> set cidAll. Allocate c mqAll cidAll = Some (part c) \<and> fair (length mqAll) (length cidAll) (part c)) \<and>
       concat (map part cidAll) = mqAll"
begin

lemma rebalance_partition:
  assumes "cids \<noteq> []" and "distinct (map fold_case cids)" and "[] \<notin> set cids" and "mqs \<noteq> []"
    and "\<forall>c \<in> set cids. mset (mqView c) = mset mqs \<and> mset (cidView c) = mset cids"
  shows "\<exists>part. (\<forall>c \<in> set cids. RebalanceImplExt_rebalanceByTopic Allocate c (Some (mqView c)) (cidView c) = Some (Some (part c)) \<and>
        fair (length mqs) (length cids) (part c)) \<and> mset (concat (map part cids)) = mset mqs"
proof -
  define ms cs where "ms = sort_key mq_key mqs" and "cs = sort cids"
  have len: "length ms = length mqs" "length cs = length cids" and sets: "set cs = set cids"
    by (simp_all add: ms_def cs_def)
  have "mset (map fold_case cs) = mset (map fold_case cids)" by (simp add: cs_def)
  then have "distinct (map fold_case cs)" using assms(2) by (metis mset_eq_imp_distinct_iff)
  moreover have "cs \<noteq> []" "ms \<noteq> []" "[] \<notin> set cs" using assms(1,3,4) len sets by auto
  ultimately obtain part where part: "\<And>c. c \<in> set cids \<Longrightarrow> Allocate c ms cs = Some (part c) \<and> fair (length mqs) (length cids) (part c)"
      "concat (map part cs) = ms"
    using parts [of cs ms] len sets by auto
  have one: "RebalanceImplExt_rebalanceByTopic Allocate c (Some (mqView c)) (cidView c) = Some (Some (part c))" if c: "c \<in> set cids" for c
  proof -
    have v: "mset (mqView c) = mset mqs" "mset (cidView c) = mset cids" using assms(5) c by auto
    have "sort_key mq_key (mqView c) = ms" unfolding ms_def by (rule sort_views [OF v(1)])
    moreover have "sort (cidView c) = cs" unfolding cs_def by (rule properties_for_sort) (simp_all add: v(2))
    moreover have "mqView c \<noteq> []" "cidView c \<noteq> []" using v assms(1,4) by (metis mset_zero_iff)+
    ultimately show ?thesis using part(1) [OF c] by (simp add: RebalanceImplExt_rebalanceByTopic_def)
  qed
  have "mset (concat (map part cids)) = mset (concat (map part cs))"
    by (simp only: mset_concat map_map cs_def mset_sort mset_map flip: sum_mset_sum_list)
  then have "mset (concat (map part cids)) = mset mqs" using part(2) by (simp add: ms_def)
  with one part(1) show ?thesis by blast
qed

end

lemma averagely_parts:
  assumes "cidAll \<noteq> []" and "distinct (map fold_case cidAll)" and "[] \<notin> set cidAll" and "mqAll \<noteq> []"
  shows "\<exists>part. (\<forall>c \<in> set cidAll. AllocateMessageQueueAveragely_Allocate c mqAll cidAll = Some (part c) \<and>
       fair (length mqAll) (length cidAll) (part c)) \<and> concat (map part cidAll) = mqAll"
proof -
  define part where "part c = share mqAll (length cidAll) (the (cid_index 0 c cidAll))" for c
  have idx: "cid_index 0 (cidAll ! j) cidAll = Some j" if "j < length cidAll" for j using cid_index_nth [OF assms(2) that] by simp
  have "AllocateMessageQueueAveragely_Allocate c mqAll cidAll = Some (part c) \<and> fair (length mqAll) (length cidAll) (part c)"
    if c: "c \<in> set cidAll" for c
  proof -
    obtain j where j: "j < length cidAll" "c = cidAll ! j" using c by (metis in_set_conv_nth)
    have "c \<noteq> []" using assms(3) c by auto
    then show ?thesis
      using allocate_share [OF _ assms(4) idx [OF j(1)] j(1)] length_share [OF j(1), of mqAll] idx [OF j(1)] j(2)
      by (simp add: part_def fair_def)
  qed
  moreover have "map part cidAll = map (share mqAll (length cidAll)) [0..<length cidAll]"
    by (intro nth_equalityI) (simp_all add: part_def idx)
  ultimately show ?thesis using concat_shares [of "length cidAll" mqAll] assms(1) by auto
qed

interpretation avg: allocate_strategy AllocateMessageQueueAveragely_Allocate
  by unfold_locales (rule averagely_parts)

text \<open>
  C19 (the queues of a topic are shared out). Every member of a group computes its share from its own
  view of the queues and of the members, whatever the order in which it sees them. The shares of all
  members together hold every queue exactly once, and their sizes differ by at most one.
\<close>

theorem rebalance_shares:
  assumes "cids \<noteq> []" and "distinct (map fold_case cids)" and "[] \<notin> set cids" and "mqs \<noteq> []"
    and "\<forall>c \<in> set cids. mset (mqView c) = mset mqs \<and> mset (cidView c) = mset cids"
  shows "\<exists>part. (\<forall>c \<in> set cids. RebalanceImplExt_rebalanceByTopic AllocateMessageQueueAveragely_Allocate c (Some (mqView c)) (cidView c)
           = Some (Some (part c)) \<and>
        (length (part c) = length mqs div length cids \<or> length (part c) = length mqs div length cids + 1)) \<and>
     mset (concat (map part cids)) = mset mqs"
  using avg.rebalance_partition [OF assms] by (simp only: fair_def)

definition example_mqs :: "MessageQueue list" where
  "example_mqs = map (NewDefaultMessageQueue ''t'' ''b'') [2, 0, 1]"

theorem rebalance_shares_witness:
  "\<exists>part. (\<forall>c \<in> set [''c2'', ''c1'']. RebalanceImplExt_rebalanceByTopic AllocateMessageQueueAveragely_Allocate c (Some example_mqs) [''c2'', ''c1''] = Some (Some (part c)) \<and>
        (length (part c) = 1 \<or> length (part c) = Suc 1)) \<and>
     mset (concat (map part [''c2'', ''c1''])) = mset example_mqs"
proof -
  have l: "length example_mqs = 3" "example_mqs \<noteq> []" by (simp_all add: example_mqs_def)
  have "length [''c2'', ''c1''] = 2" by simp
  with rebalance_shares [of "[''c2'', ''c1'']" example_mqs "\<lambda>_. example_mqs" "\<lambda>_. [''c2'', ''c1'']", unfolded l this]
  show ?thesis by (simp add: l fold_case_def fold_char_def)
qed

section \<open>Pulled messages\<close>

text \<open>
  \<open>ProcessQueue\<close> and its \<open>TreeMap\<close>: the sorted list of keys, in which a key may occur more than once,
  beside a Go map, which is an association list.
\<close>

record TreeMap =
  tm_keys :: "int list"
  innerMap :: "(int \<times> MessageExt) list"

definition NewTreeMap :: TreeMap where
  "NewTreeMap = \<lparr>tm_keys = [], innerMap = []\<rparr>"

definition TreeMap_put :: "int \<Rightarrow> MessageExt \<Rightarrow> TreeMap \<Rightarrow> MessageExt option \<times> TreeMap" where
  "TreeMap_put offset msg treeMap =
     (map_of (innerMap treeMap) offset,
      \<lparr>tm_keys = sort (tm_keys treeMap @ [offset]), innerMap = AList.update offset msg (innerMap treeMap)\<rparr>)"

definition TreeMap_get :: "int \<Rightarrow> TreeMap \<Rightarrow> MessageExt option" where
  "TreeMap_get offset treeMap = map_of (innerMap treeMap) offset"

text \<open>The first and the last key; \<open>None\<close> is the panic on an empty slice.\<close>

definition TreeMap_firstKey :: "TreeMap \<Rightarrow> int option" where
  "TreeMap_firstKey treeMap = (case tm_keys treeMap of [] \<Rightarrow> None | k # _ \<Rightarrow> Some k)"

definition TreeMap_lastKey :: "TreeMap \<Rightarrow> int option" where
  "TreeMap_lastKey treeMap = (case tm_keys treeMap of [] \<Rightarrow> None | k # ks \<Rightarrow> Some (last (k # ks)))"

definition TreeMap_remove :: "int \<Rightarrow> TreeMap \<Rightarrow> MessageExt option \<times> TreeMap" where
  "TreeMap_remove offset treeMap =
     (map_of (innerMap treeMap) offset,
      \<lparr>tm_keys = sort (filter (\<lambda>key. key \<noteq> offset) (tm_keys treeMap)), innerMap = AList.delete offset (innerMap treeMap)\<rparr>)"

record ProcessQueue =
  Dropped :: bool
  LastPullTimestamp :: int
  PullMaxIdleTime :: int
  MsgCount :: int
  MsgTreeMap :: TreeMap
  QueueOffsetMax :: int
  Consuming :: bool
  MsgAccCnt :: int

text \<open>The current time is an argument.\<close>

definition NewProcessQueue :: "int \<Rightarrow> ProcessQueue" where
  "NewProcessQueue now = \<lparr>Dropped = False, LastPullTimestamp = now, PullMaxIdleTime = 120000, MsgCount = 0,
     MsgTreeMap = NewTreeMap, QueueOffsetMax = 0, Consuming = False, MsgAccCnt = 0\<rparr>"

definition ProcessQueue_IsPullExpired :: "int \<Rightarrow> ProcessQueue \<Rightarrow> bool" where
  "ProcessQueue_IsPullExpired now pq \<longleftrightarrow> now - LastPullTimestamp pq > PullMaxIdleTime pq"

fun put_msgs :: "MessageExt list \<Rightarrow> int \<Rightarrow> ProcessQueue \<Rightarrow> int \<times> ProcessQueue" where
  "put_msgs [] validMsgCnt pq = (validMsgCnt, pq)"
| "put_msgs (msg # msgs) validMsgCnt pq =
     (case TreeMap_put (m_QueueOffset msg) msg (MsgTreeMap pq) of
        (None, tm) \<Rightarrow> put_msgs msgs (validMsgCnt + 1) (pq\<lparr>MsgTreeMap := tm, QueueOffsetMax := m_QueueOffset msg\<rparr>)
      | (Some old, tm) \<Rightarrow> put_msgs msgs validMsgCnt (pq\<lparr>MsgTreeMap := tm\<rparr>))"

definition ProcessQueue_PutMessage :: "MessageExt list \<Rightarrow> ProcessQueue \<Rightarrow> bool \<times> ProcessQueue" where
  "ProcessQueue_PutMessage msgs pq =
     (case put_msgs msgs 0 pq of
        (validMsgCnt, pq1) \<Rightarrow>
          let pq2 = pq1\<lparr>MsgCount := MsgCount pq1 + validMsgCnt\<rparr>;
              dispatchToConsume = (length (innerMap (MsgTreeMap pq2)) > 0 \<and> \<not> Consuming pq2);
              pq3 = (if dispatchToConsume then pq2\<lparr>Consuming := True\<rparr> else pq2)
          in (dispatchToConsume,
              if length msgs > 0
              then let messageExt = last msgs;
                       property = prop_at (m_Properties messageExt) ''MAX_OFFSET'';
                       accTotal = ParseInt_value property - m_QueueOffset messageExt
                   in if \<not> EqualFold property [] \<and> accTotal > 0 then pq3\<lparr>MsgAccCnt := accTotal\<rparr> else pq3
              else pq3))"

fun remove_msgs :: "MessageExt list \<Rightarrow> int \<Rightarrow> TreeMap \<Rightarrow> int \<times> TreeMap" where
  "remove_msgs [] removedCnt tm = (removedCnt, tm)"
| "remove_msgs (msg # msgs) removedCnt tm =
     (case TreeMap_remove (m_QueueOffset msg) tm of
        (prev, tm1) \<Rightarrow> remove_msgs msgs (if prev \<noteq> None then removedCnt - 1 else removedCnt) tm1)"

definition ProcessQueue_RemoveMessage :: "MessageExt list \<Rightarrow> ProcessQueue \<Rightarrow> (int \<times> ProcessQueue) option" where
  "ProcessQueue_RemoveMessage msgs pq =
     (if length (innerMap (MsgTreeMap pq)) > 0
      then case remove_msgs msgs 0 (MsgTreeMap pq) of
        (removedCnt, tm) \<Rightarrow>
          let pq1 = pq\<lparr>MsgTreeMap := tm, MsgCount := MsgCount pq + removedCnt\<rparr>
          in if length (innerMap tm) > 0 then map_option (\<lambda>k. (k, pq1)) (TreeMap_firstKey tm)
             else Some (QueueOffsetMax pq + 1, pq1)
      else Some (- 1, pq))"

definition ProcessQueue_GetMaxSpan :: "ProcessQueue \<Rightarrow> int option" where
  "ProcessQueue_GetMaxSpan pq =
     (if length (innerMap (MsgTreeMap pq)) > 0
      then do { l \<leftarrow> TreeMap_lastKey (MsgTreeMap pq); f \<leftarrow> TreeMap_firstKey (MsgTreeMap pq); Some (l - f) }
      else Some 0)"

subsection \<open>The offset that may be committed\<close>

text \<open>
  The abstract state of a process queue: the offsets that wait to be consumed and the last offset
  pulled. Consuming some of them gives the offset to commit.
\<close>

datatype pq_op = PutOp "MessageExt list" | RemoveOp "MessageExt list"

fun pq_run :: "pq_op list \<Rightarrow> ProcessQueue \<Rightarrow> (int list \<times> ProcessQueue) option" where
  "pq_run [] pq = Some ([], pq)"
| "pq_run (PutOp msgs # ops) pq = pq_run ops (snd (ProcessQueue_PutMessage msgs pq))"
| "pq_run (RemoveOp msgs # ops) pq =
     do {
       (r, pq1) \<leftarrow> ProcessQueue_RemoveMessage msgs pq;
       (rs, pq2) \<leftarrow> pq_run ops pq1;
       Some (r # rs, pq2) }"

definition to_commit :: "int set \<Rightarrow> int \<Rightarrow> int" where
  "to_commit W mx = (if W = {} then mx + 1 else Min W)"

fun spec_run :: "pq_op list \<Rightarrow> int set \<Rightarrow> int \<Rightarrow> int list \<times> int set" where
  "spec_run [] W mx = ([], W)"
| "spec_run (PutOp msgs # ops) W mx =
     spec_run ops (W \<union> set (map m_QueueOffset msgs)) (if msgs = [] then mx else m_QueueOffset (last msgs))"
| "spec_run (RemoveOp msgs # ops) W mx =
     (let W1 = W - set (map m_QueueOffset msgs)
      in apfst (Cons (if W = {} then - 1 else to_commit W1 mx)) (spec_run ops W1 mx))"

text \<open>Messages are pulled in the order of their offsets.\<close>

fun in_order :: "pq_op list \<Rightarrow> int \<Rightarrow> bool" where
  "in_order [] lst = True"
| "in_order (PutOp msgs # ops) lst \<longleftrightarrow>
     sorted_wrt (<) (lst # map m_QueueOffset msgs) \<and> in_order ops (if msgs = [] then lst else m_QueueOffset (last msgs))"
| "in_order (RemoveOp msgs # ops) lst \<longleftrightarrow> in_order ops lst"

definition tm_inv :: "TreeMap \<Rightarrow> bool" where
  "tm_inv tm \<longleftrightarrow> sorted (tm_keys tm) \<and> set (tm_keys tm) = fst ` set (innerMap tm) \<and> distinct (map fst (innerMap tm))"

definition waiting :: "ProcessQueue \<Rightarrow> int set" where
  "waiting pq = fst ` set (innerMap (MsgTreeMap pq))"

definition pq_inv :: "ProcessQueue \<Rightarrow> bool" where
  "pq_inv pq \<longleftrightarrow> tm_inv (MsgTreeMap pq) \<and> MsgCount pq = int (card (waiting pq))"

lemma keys_update: "fst ` set (AList.update k v al) = insert k (fst ` set al)"
  by (simp add: update_conv' flip: dom_map_of_conv_image_fst)

lemma keys_delete: "fst ` set (AList.delete k al) = fst ` set al - {k}"
  by (simp add: delete_conv' flip: dom_map_of_conv_image_fst)

lemma TreeMap_put_inv:
  assumes "tm_inv tm"
  shows "tm_inv (snd (TreeMap_put k m tm))"
    and "fst ` set (innerMap (snd (TreeMap_put k m tm))) = insert k (fst ` set (innerMap tm))"
  using assms by (simp_all add: tm_inv_def TreeMap_put_def keys_update distinct_update)

lemma TreeMap_remove_inv:
  assumes "tm_inv tm"
  shows "tm_inv (snd (TreeMap_remove k tm))"
    and "fst ` set (innerMap (snd (TreeMap_remove k tm))) = fst ` set (innerMap tm) - {k}"
  using assms by (auto simp: tm_inv_def TreeMap_remove_def keys_delete distinct_delete)

lemma put_msgs_inv:
  assumes "tm_inv (MsgTreeMap pq)" and "sorted_wrt (<) (lst # map m_QueueOffset msgs)" and "\<forall>k \<in> waiting pq. k \<le> lst"
    and "put_msgs msgs n pq = (m, pq1)"
  shows "tm_inv (MsgTreeMap pq1) \<and> waiting pq1 = waiting pq \<union> set (map m_QueueOffset msgs) \<and> MsgCount pq1 = MsgCount pq \<and>
     m = n + int (length msgs) \<and> QueueOffsetMax pq1 = (if msgs = [] then QueueOffsetMax pq else m_QueueOffset (last msgs))"
  using assms
proof (induction msgs arbitrary: pq n lst)
  case (Cons x msgs)
  let ?k = "m_QueueOffset x"
  obtain tm where p: "TreeMap_put ?k x (MsgTreeMap pq) = (None, tm)"
  proof -
    have "?k \<notin> waiting pq" using Cons.prems(2,3) by auto
    then show ?thesis using that by (simp add: TreeMap_put_def waiting_def map_of_eq_None_iff)
  qed
  have tm: "tm_inv tm" "fst ` set (innerMap tm) = insert ?k (waiting pq)"
    using TreeMap_put_inv [OF Cons.prems(1), of ?k x] p by (simp_all add: waiting_def)
  let ?pq = "pq\<lparr>MsgTreeMap := tm, QueueOffsetMax := ?k\<rparr>"
  have w: "waiting ?pq = insert ?k (waiting pq)" using tm(2) by (simp add: waiting_def)
  have "\<forall>k \<in> waiting ?pq. k \<le> ?k" using w Cons.prems(2,3) by fastforce
  moreover have "sorted_wrt (<) (?k # map m_QueueOffset msgs)" using Cons.prems(2) by simp
  ultimately show ?case using Cons.IH [of ?pq ?k "n + 1"] Cons.prems(4) p tm(1) w by auto
qed simp

lemma waiting_counts:
  assumes "\<forall>k \<in> waiting pq. k \<le> lst" and "sorted_wrt (<) (lst # map m_QueueOffset msgs)"
  shows "card (waiting pq \<union> set (map m_QueueOffset msgs)) = card (waiting pq) + length msgs"
proof -
  have "distinct (map m_QueueOffset msgs)" using assms(2) by (simp add: strict_sorted_iff)
  then have "card (set (map m_QueueOffset msgs)) = length msgs" by (metis distinct_card length_map)
  moreover have "waiting pq \<inter> set (map m_QueueOffset msgs) = {}" using assms by fastforce
  ultimately show ?thesis by (simp add: card_Un_disjoint waiting_def)
qed

lemma PutMessage_refines:
  assumes "pq_inv pq" and "\<forall>k \<in> waiting pq. k \<le> lst" and "sorted_wrt (<) (lst # map m_QueueOffset msgs)"
  shows "pq_inv (snd (ProcessQueue_PutMessage msgs pq)) \<and>
     waiting (snd (ProcessQueue_PutMessage msgs pq)) = waiting pq \<union> set (map m_QueueOffset msgs) \<and>
     QueueOffsetMax (snd (ProcessQueue_PutMessage msgs pq)) = (if msgs = [] then QueueOffsetMax pq else m_QueueOffset (last msgs))"
proof -
  obtain m pq1 where p: "put_msgs msgs 0 pq = (m, pq1)" by fastforce
  have "tm_inv (MsgTreeMap pq)" using assms(1) by (simp add: pq_inv_def)
  note r = put_msgs_inv [OF this assms(3,2) p]
  then have "innerMap (MsgTreeMap pq1) = [] \<Longrightarrow> msgs = []" by (auto simp: waiting_def)
  with r waiting_counts [OF assms(2,3)] assms(1) show ?thesis
    by (simp add: ProcessQueue_PutMessage_def p Let_def pq_inv_def waiting_def)
qed

lemma remove_msgs_inv:
  assumes "tm_inv tm" and "remove_msgs msgs n tm = (m, tm1)"
  shows "tm_inv tm1 \<and> fst ` set (innerMap tm1) = fst ` set (innerMap tm) - set (map m_QueueOffset msgs) \<and>
     int (card (fst ` set (innerMap tm1))) - m = int (card (fst ` set (innerMap tm))) - n"
  using assms
proof (induction msgs arbitrary: tm n)
  case (Cons x msgs)
  let ?k = "m_QueueOffset x" and ?W = "fst ` set (innerMap tm)"
  obtain prev tm2 where r: "TreeMap_remove ?k tm = (prev, tm2)" by fastforce
  have tm2: "tm_inv tm2" "fst ` set (innerMap tm2) = ?W - {?k}" using TreeMap_remove_inv [OF Cons.prems(1), of ?k] r by simp_all
  have "prev \<noteq> None \<longleftrightarrow> ?k \<in> ?W"
    using r map_of_eq_None_iff [of "innerMap tm" ?k] by (auto simp: TreeMap_remove_def)
  then have c: "int (card (?W - {?k})) - (if prev \<noteq> None then n - 1 else n) = int (card ?W) - n"
    by (cases "?k \<in> ?W") (simp_all add: card.remove [of ?W ?k] del: card_Diff_insert)
  have "remove_msgs msgs (if prev \<noteq> None then n - 1 else n) tm2 = (m, tm1)" using Cons.prems(2) r by simp
  note ih = Cons.IH [OF tm2(1) this]
  have "?W - {?k} - set (map m_QueueOffset msgs) = ?W - set (map m_QueueOffset (x # msgs))" by auto
  then show ?case using ih unfolding tm2(2) c by metis
qed simp

lemma firstKey_Min:
  assumes "tm_inv tm" and "innerMap tm \<noteq> []"
  shows "TreeMap_firstKey tm = Some (Min (fst ` set (innerMap tm)))"
proof (cases "tm_keys tm")
  case Nil
  then show ?thesis using assms by (auto simp: tm_inv_def)
next
  case (Cons k ks)
  then have "Min (set (tm_keys tm)) = k" using assms(1) by (auto simp: tm_inv_def intro!: Min_eqI)
  then show ?thesis using Cons assms(1) by (simp add: TreeMap_firstKey_def tm_inv_def)
qed

lemma RemoveMessage_refines:
  assumes "pq_inv pq"
  shows "\<exists>pq1. ProcessQueue_RemoveMessage msgs pq =
       Some (if waiting pq = {} then - 1 else to_commit (waiting pq - set (map m_QueueOffset msgs)) (QueueOffsetMax pq), pq1) \<and>
     pq_inv pq1 \<and> waiting pq1 = waiting pq - set (map m_QueueOffset msgs) \<and> QueueOffsetMax pq1 = QueueOffsetMax pq"
proof (cases "innerMap (MsgTreeMap pq) = []")
  case True
  then show ?thesis using assms by (simp add: ProcessQueue_RemoveMessage_def waiting_def)
next
  case False
  obtain m tm where r: "remove_msgs msgs 0 (MsgTreeMap pq) = (m, tm)" by fastforce
  have "tm_inv (MsgTreeMap pq)" using assms by (simp add: pq_inv_def)
  note inv = remove_msgs_inv [OF this r]
  let ?pq = "pq\<lparr>MsgTreeMap := tm, MsgCount := MsgCount pq + m\<rparr>"
  have "pq_inv ?pq" "waiting ?pq = waiting pq - set (map m_QueueOffset msgs)"
    using inv assms by (auto simp: pq_inv_def waiting_def)
  moreover have "innerMap tm = [] \<longleftrightarrow> waiting pq - set (map m_QueueOffset msgs) = {}" "waiting pq \<noteq> {}"
    using inv False image_is_empty [of fst "set (innerMap tm)"] by (simp_all add: waiting_def)
  ultimately show ?thesis
    using False inv r firstKey_Min [of tm]
    by (cases "innerMap tm = []") (simp_all add: ProcessQueue_RemoveMessage_def Let_def to_commit_def waiting_def)
qed

text \<open>
  C18 (a committed offset never passes a waiting message). A process queue behaves like the set of
  offsets that wait to be consumed: for every sequence of batches pulled in order and of messages
  reported as consumed in any order, no call panics, each report returns the smallest offset that
  still waits, or the one after the last pulled when none does, and the message count is the number
  of waiting offsets.
\<close>

theorem process_queue_refines:
  assumes "in_order ops (- 1)"
  shows "\<exists>pq1. pq_run ops (NewProcessQueue now) = Some (fst (spec_run ops {} (- 1)), pq1) \<and>
     waiting pq1 = snd (spec_run ops {} (- 1)) \<and> MsgCount pq1 = int (card (waiting pq1))"
proof -
  have "\<exists>pq1. pq_run ops p = Some (fst (spec_run ops (waiting p) mx), pq1) \<and>
      waiting pq1 = snd (spec_run ops (waiting p) mx) \<and> pq_inv pq1"
    if "in_order ops mx" "pq_inv p" "\<forall>k \<in> waiting p. k \<le> mx" "waiting p \<noteq> {} \<longrightarrow> QueueOffsetMax p = mx" for p mx
    using that
  proof (induction ops arbitrary: p mx)
    case (Cons op ops)
    show ?case
    proof (cases op)
      case (PutOp msgs)
      let ?p = "snd (ProcessQueue_PutMessage msgs p)" and ?mx = "if msgs = [] then mx else m_QueueOffset (last msgs)"
      have o: "sorted_wrt (<) (mx # map m_QueueOffset msgs)" using Cons.prems(1) PutOp by simp
      note r = PutMessage_refines [OF Cons.prems(2,3) o]
      have "\<forall>k \<in> waiting ?p. k \<le> ?mx"
        using r Cons.prems(3) o by (cases msgs rule: rev_cases) (fastforce simp: sorted_wrt_append)+
      moreover have "waiting ?p \<noteq> {} \<longrightarrow> QueueOffsetMax ?p = ?mx" using r Cons.prems(4) by auto
      ultimately show ?thesis using Cons.IH [of ?mx ?p] r Cons.prems(1) PutOp by simp
    next
      case (RemoveOp msgs)
      let ?W = "waiting p - set (map m_QueueOffset msgs)"
      obtain p1 where r: "ProcessQueue_RemoveMessage msgs p =
          Some (if waiting p = {} then - 1 else to_commit ?W (QueueOffsetMax p), p1)"
          "pq_inv p1" "waiting p1 = ?W" "QueueOffsetMax p1 = QueueOffsetMax p"
        using RemoveMessage_refines [OF Cons.prems(2)] by blast
      have "\<forall>k \<in> waiting p1. k \<le> mx" "waiting p1 \<noteq> {} \<longrightarrow> QueueOffsetMax p1 = mx" using r Cons.prems(3,4) by auto
      then show ?thesis using Cons.IH [of mx p1] r Cons.prems(1,4) RemoveOp by (auto simp: Let_def)
    qed
  qed simp
  moreover have "pq_inv (NewProcessQueue now)" "waiting (NewProcessQueue now) = {}"
    by (simp_all add: NewProcessQueue_def NewTreeMap_def pq_inv_def tm_inv_def waiting_def)
  ultimately show ?thesis using assms by (fastforce simp: pq_inv_def)
qed

definition example_pulled :: "int \<Rightarrow> MessageExt" where
  "example_pulled k = (example_msg 0 [])\<lparr>m_QueueOffset := k\<rparr>"

theorem process_queue_refines_witness:
  "\<exists>pq1. pq_run [PutOp (map example_pulled [0, 1, 2]), RemoveOp [example_pulled 1], RemoveOp [example_pulled 0],
       RemoveOp [example_pulled 2]] (NewProcessQueue 0) = Some ([0, 2, 3], pq1) \<and> waiting pq1 = {} \<and> MsgCount pq1 = 0"
proof -
  define ops where "ops = [PutOp (map example_pulled [0, 1, 2]), RemoveOp [example_pulled 1], RemoveOp [example_pulled 0],
     RemoveOp [example_pulled 2]]"
  have "in_order ops (- 1)" by (simp add: ops_def example_pulled_def)
  moreover have "spec_run ops {} (- 1) = ([0, 2, 3], {})"
    by (simp add: ops_def example_pulled_def to_commit_def Let_def insert_Diff_if)
  ultimately show ?thesis unfolding ops_def [symmetric] using process_queue_refines [of ops 0] by auto
qed

section \<open>The queue a producer sends to\<close>

record TopicPublishInfo =
  OrderTopic :: bool
  HaveTopicRouterInfo :: bool
  MessageQueueList :: "MessageQueue list"
  SendWhichQueue :: int

definition NewTopicPublishInfo :: TopicPublishInfo where
  "NewTopicPublishInfo = \<lparr>OrderTopic = False, HaveTopicRouterInfo = False, MessageQueueList = [], SendWhichQueue = 0\<rparr>"

text \<open>
  \<open>SelectOneMessageQueue\<close>. The counter is far below the range where its absolute value as a
  \<open>float64\<close> is not exact. The loop tries one queue after the other; the remainder by an empty list is a
  panic.
\<close>

fun select_other :: "string \<Rightarrow> MessageQueue list \<Rightarrow> nat \<Rightarrow> int \<Rightarrow> MessageQueue option" where
  "select_other lastBrokerName mqs 0 index = None"
| "select_other lastBrokerName mqs (Suc n) index =
     (let pos = nat (\<bar>index + 1\<bar> mod int (length mqs)); mq = mqs ! pos
      in if \<not> EqualFold (mq_BrokerName mq) lastBrokerName then Some mq
         else select_other lastBrokerName mqs n (index + 1))"

definition TopicPublishInfo_SelectOneMessageQueue ::
    "string \<Rightarrow> TopicPublishInfo \<Rightarrow> (MessageQueue option \<times> TopicPublishInfo) option" where
  "TopicPublishInfo_SelectOneMessageQueue lastBrokerName self =
     (let index = SendWhichQueue self; self1 = self\<lparr>SendWhichQueue := to_int64 (SendWhichQueue self + 1)\<rparr>; mqs = MessageQueueList self
      in if \<not> EqualFold lastBrokerName []
         then Some (select_other lastBrokerName mqs (length mqs) index, self1)
         else if mqs = [] then None
         else Some (Some (mqs ! nat (\<bar>index\<bar> mod int (length mqs))), self1))"

lemma select_other_hits:
  assumes "mqs \<noteq> []" and "0 \<le> index" and "select_other lb mqs n index = None" and "i < n"
  shows "EqualFold (mq_BrokerName (mqs ! nat ((index + 1 + int i) mod int (length mqs)))) lb"
  using assms
proof (induction n arbitrary: index i)
  case (Suc n)
  have none: "select_other lb mqs n (index + 1) = None" "EqualFold (mq_BrokerName (mqs ! nat ((index + 1) mod int (length mqs)))) lb"
    using Suc.prems(2,3) by (auto simp: Let_def split: if_splits)
  show ?case
  proof (cases i)
    case 0
    then show ?thesis using none(2) by simp
  next
    case (Suc j)
    then have "index + 1 + int i = index + 1 + 1 + int j" by simp
    moreover have "j < n" "0 \<le> index + 1" using Suc Suc.prems(2,4) by simp_all
    ultimately show ?thesis using Suc.IH [of "index + 1" j] Suc.prems(1) none(1) by (simp only: simp_thms)
  qed
qed simp

lemma select_other_some:
  "select_other lb mqs n index = Some mq \<Longrightarrow> mqs \<noteq> [] \<Longrightarrow> mq \<in> set mqs \<and> \<not> EqualFold (mq_BrokerName mq) lb"
  by (induction n arbitrary: index) (auto simp: Let_def nat_less_iff split: if_splits intro!: nth_mem)

text \<open>
  A retry goes to another broker. After a failed send the producer's choice is a queue of another
  broker whenever the topic has one, and \<open>nil\<close> when it has none; without a failed broker the queues are
  taken in turn.
\<close>

lemma select_avoids_broker:
  assumes "MessageQueueList tpi \<noteq> []" and "0 \<le> SendWhichQueue tpi"
  shows "\<exists>r tpi1. TopicPublishInfo_SelectOneMessageQueue lb tpi = Some (r, tpi1) \<and>
     (lb = [] \<longrightarrow> r = Some (MessageQueueList tpi ! (nat (SendWhichQueue tpi) mod length (MessageQueueList tpi)))) \<and>
     (lb \<noteq> [] \<longrightarrow> (case r of
         None \<Rightarrow> \<forall>mq \<in> set (MessageQueueList tpi). EqualFold (mq_BrokerName mq) lb
       | Some mq \<Rightarrow> mq \<in> set (MessageQueueList tpi) \<and> \<not> EqualFold (mq_BrokerName mq) lb))"
proof -
  let ?mqs = "MessageQueueList tpi" and ?i = "SendWhichQueue tpi"
  let ?r = "select_other lb ?mqs (length ?mqs) ?i"
  have len: "0 < int (length ?mqs)" using assms(1) by simp
  have all: "EqualFold (mq_BrokerName mq) lb" if none: "?r = None" and mq: "mq \<in> set ?mqs" for mq
  proof -
    obtain j where j: "j < length ?mqs" "mq = ?mqs ! j" using mq by (metis in_set_conv_nth)
    let ?k = "nat ((int j - (?i + 1)) mod int (length ?mqs))"
    have k: "int ?k = (int j - (?i + 1)) mod int (length ?mqs)" using len by simp
    then have "?k < length ?mqs" using len by (simp add: nat_less_iff)
    moreover have "(?i + 1 + int ?k) mod int (length ?mqs) = int j" unfolding k using j(1) by (simp add: mod_add_right_eq)
    ultimately show ?thesis using select_other_hits [OF assms none, of ?k] j(2) by simp
  qed
  have "nat (?i mod int (length ?mqs)) = nat ?i mod length ?mqs" using assms(2) by (simp add: nat_mod_distrib)
  then show ?thesis
    using assms all select_other_some [of lb ?mqs "length ?mqs" ?i]
    by (auto simp: TopicPublishInfo_SelectOneMessageQueue_def Let_def split: option.splits)
qed

definition example_tpi :: TopicPublishInfo where
  "example_tpi = NewTopicPublishInfo\<lparr>MessageQueueList := [NewDefaultMessageQueue ''t'' ''a'' 0, NewDefaultMessageQueue ''t'' ''b'' 0],
     SendWhichQueue := 1\<rparr>"

lemma select_avoids_broker_witness:
  "\<exists>mq tpi1. TopicPublishInfo_SelectOneMessageQueue ''a'' example_tpi = Some (Some mq, tpi1) \<and> mq_BrokerName mq = ''b''"
  using select_avoids_broker [of example_tpi "''a''"]
  by (auto simp: example_tpi_def NewTopicPublishInfo_def NewDefaultMessageQueue_def EqualFold_def fold_case_def fold_char_def
      split: option.splits)

end
