(* ===== verification/RouteM.thy ===== *)
theory RouteM
  imports MessageM GoStrings
begin

text \<open>
  The routing data that brokers, registry and clients exchange: topic configurations
  (\<open>stgcommon/topic_config.go\<close>), data versions (\<open>data_version.go\<close>), permissions (\<open>constant/perm_name.go\<close>),
  topic flags (\<open>sysflag/topic_sys_flag.go\<close>) and the records of \<open>protocol/route/topic_route_data.go\<close>.
\<close>

unbundle bit_operations_syntax

section \<open>Permissions and flags\<close>

definition PERM_PRIORITY :: int where "PERM_PRIORITY = 8"

definition PERM_READ :: int where "PERM_READ = 4"

definition PERM_WRITE :: int where "PERM_WRITE = 2"

definition PERM_INHERIT :: int where "PERM_INHERIT = 1"

definition IsReadable :: "int \<Rightarrow> bool" where
  "IsReadable perm \<longleftrightarrow> perm AND PERM_READ = PERM_READ"

definition IsWriteable :: "int \<Rightarrow> bool" where
  "IsWriteable perm \<longleftrightarrow> perm AND PERM_WRITE = PERM_WRITE"

definition IsInherited :: "int \<Rightarrow> bool" where
  "IsInherited perm \<longleftrightarrow> perm AND PERM_INHERIT = PERM_INHERIT"

definition Perm2String :: "int \<Rightarrow> string" where
  "Perm2String perm =
     (let str = ''---'';
          str = (if IsReadable perm then ''R'' @ drop 1 str else str);
          str = (if IsWriteable perm then take 1 str @ ''W'' @ drop 2 str else str)
      in if IsInherited perm then take 2 str @ ''X'' else str)"

definition FLAG_UNIT :: int where "FLAG_UNIT = 1"

definition FLAG_UNIT_SUB :: int where "FLAG_UNIT_SUB = 2"

definition TopicBuildSysFlag :: "bool \<Rightarrow> bool \<Rightarrow> int" where
  "TopicBuildSysFlag unit hasUnitSub =
     (let sysFlag = 0; sysFlag = (if unit then sysFlag OR FLAG_UNIT else sysFlag)
      in if hasUnitSub then sysFlag OR FLAG_UNIT_SUB else sysFlag)"

definition SetUnitFlag :: "int \<Rightarrow> int" where
  "SetUnitFlag sysFlag = sysFlag OR FLAG_UNIT"

definition ClearUnitFlag :: "int \<Rightarrow> int" where
  "ClearUnitFlag sysFlag = sysFlag AND (0xFFFFFFFF XOR FLAG_UNIT)"

definition HasUnitFlag :: "int \<Rightarrow> bool" where
  "HasUnitFlag sysFlag \<longleftrightarrow> sysFlag AND FLAG_UNIT = FLAG_UNIT"

definition SetUnitSubFlag :: "int \<Rightarrow> int" where
  "SetUnitSubFlag sysFlag = sysFlag OR FLAG_UNIT_SUB"

definition ClearUnitSubFlag :: "int \<Rightarrow> int" where
  "ClearUnitSubFlag sysFlag = sysFlag AND (0xFFFFFFFF XOR FLAG_UNIT_SUB)"

definition HasUnitSubFlag :: "int \<Rightarrow> bool" where
  "HasUnitSubFlag sysFlag \<longleftrightarrow> sysFlag AND FLAG_UNIT_SUB = FLAG_UNIT_SUB"

lemma wiped_not_writeable: "\<not> IsWriteable (perm AND (0xFFFFFFFF XOR PERM_WRITE))"
proof
  assume "IsWriteable (perm AND (0xFFFFFFFF XOR PERM_WRITE))"
  then have "bit ((perm AND (0xFFFFFFFF XOR PERM_WRITE)) AND PERM_WRITE) 1"
    by (simp add: IsWriteable_def PERM_WRITE_def bit_1_iff flip: numeral_2_eq_2)
  then show False by (simp add: PERM_WRITE_def bit_and_iff bit_xor_iff)
qed

lemma wiped_readable: "IsReadable (perm AND (0xFFFFFFFF XOR PERM_WRITE)) \<longleftrightarrow> IsReadable perm"
proof -
  have "(0xFFFFFFFF XOR PERM_WRITE) AND PERM_READ = PERM_READ" by (simp add: PERM_WRITE_def PERM_READ_def)
  then show ?thesis by (simp only: IsReadable_def and.assoc)
qed

section \<open>Topic configurations and data versions\<close>

record TopicConfig =
  tc_SEPARATOR :: string
  tc_TopicName :: string
  tc_ReadQueueNums :: int
  tc_WriteQueueNums :: int
  tc_Perm :: int
  tc_TopicFilterType :: TopicFilterType
  tc_TopicSysFlag :: int
  tc_Order :: bool

definition NewTopicConfig :: "string \<Rightarrow> TopicConfig" where
  "NewTopicConfig topicName = \<lparr>tc_SEPARATOR = '' '', tc_TopicName = topicName, tc_ReadQueueNums = 16, tc_WriteQueueNums = 16,
     tc_Perm = PERM_READ OR PERM_WRITE, tc_TopicFilterType = SINGLE_TAG, tc_TopicSysFlag = 0, tc_Order = False\<rparr>"

definition NewDefaultTopicConfig :: "string \<Rightarrow> int \<Rightarrow> int \<Rightarrow> int \<Rightarrow> TopicFilterType \<Rightarrow> TopicConfig" where
  "NewDefaultTopicConfig topicName readQueueNums writeQueueNums perm filterType =
     (NewTopicConfig topicName)\<lparr>tc_ReadQueueNums := readQueueNums, tc_WriteQueueNums := writeQueueNums, tc_Perm := perm,
       tc_TopicFilterType := filterType\<rparr>"

definition NewCustomTopicConfig :: "string \<Rightarrow> int \<Rightarrow> int \<Rightarrow> int \<Rightarrow> TopicFilterType list \<Rightarrow> TopicConfig" where
  "NewCustomTopicConfig topicName readQueueNums writeQueueNums topicSysFlag filterType =
     (NewTopicConfig topicName)\<lparr>tc_ReadQueueNums := readQueueNums, tc_WriteQueueNums := writeQueueNums,
       tc_TopicSysFlag := topicSysFlag, tc_TopicFilterType := (case filterType of [] \<Rightarrow> SINGLE_TAG | t # _ \<Rightarrow> t)\<rparr>"

record DataVersion =
  dv_Timestamp :: int
  dv_Counter :: int

definition NewDataVersion :: "int \<Rightarrow> int list \<Rightarrow> DataVersion" where
  "NewDataVersion now timestamp = \<lparr>dv_Timestamp = (case timestamp of [] \<Rightarrow> now | t # _ \<Rightarrow> t), dv_Counter = 0\<rparr>"

definition DataVersion_AssignNewOne :: "DataVersion \<Rightarrow> DataVersion \<Rightarrow> DataVersion" where
  "DataVersion_AssignNewOne dataVersion self = self\<lparr>dv_Timestamp := dv_Timestamp dataVersion, dv_Counter := dv_Counter dataVersion\<rparr>"

text \<open>Both pointers may be \<open>nil\<close>.\<close>

definition DataVersion_Equals :: "DataVersion option \<Rightarrow> DataVersion option \<Rightarrow> bool" where
  "DataVersion_Equals this dataVersion =
     (case (this, dataVersion) of
        (None, None) \<Rightarrow> True
      | (Some a, Some b) \<Rightarrow> dv_Timestamp a = dv_Timestamp b \<and> dv_Counter a = dv_Counter b
      | _ \<Rightarrow> False)"

definition DataVersion_NextVersion :: "int \<Rightarrow> DataVersion \<Rightarrow> DataVersion" where
  "DataVersion_NextVersion now self = \<lparr>dv_Timestamp = now, dv_Counter = to_int64 (dv_Counter self + 1)\<rparr>"

section \<open>Routes\<close>

record QueueData =
  qd_BrokerName :: string
  qd_ReadQueueNums :: int
  qd_WriteQueueNums :: int
  qd_Perm :: int
  qd_TopicSynFlag :: int

record BrokerData =
  bd_BrokerName :: string
  bd_BrokerAddrs :: "(int \<times> string) list"

record TopicRouteData =
  OrderTopicConf :: string
  QueueDatas :: "QueueData list"
  BrokerDatas :: "BrokerData list"
  trd_FilterServerTable :: "(string \<times> string list) list"

definition NewTopicRouteData :: TopicRouteData where
  "NewTopicRouteData = \<lparr>OrderTopicConf = [], QueueDatas = [], BrokerDatas = [], trd_FilterServerTable = []\<rparr>"

definition NewQueueData :: "string \<Rightarrow> TopicConfig \<Rightarrow> QueueData" where
  "NewQueueData brokerName topicConfig = \<lparr>qd_BrokerName = brokerName, qd_ReadQueueNums = tc_ReadQueueNums topicConfig,
     qd_WriteQueueNums = tc_WriteQueueNums topicConfig, qd_Perm = tc_Perm topicConfig, qd_TopicSynFlag = tc_TopicSysFlag topicConfig\<rparr>"

definition NewBrokerData :: "string \<Rightarrow> BrokerData" where
  "NewBrokerData brokerName = \<lparr>bd_BrokerName = brokerName, bd_BrokerAddrs = []\<rparr>"

definition BrokerData_SelectBrokerAddr :: "BrokerData \<Rightarrow> string" where
  "BrokerData_SelectBrokerAddr self =
     (let value = (case map_of (bd_BrokerAddrs self) 0 of None \<Rightarrow> [] | Some v \<Rightarrow> v)
      in if EqualFold value [] then (case bd_BrokerAddrs self of [] \<Rightarrow> value | (_, v) # _ \<Rightarrow> v) else value)"

definition BrokerData_CloneBrokerData :: "BrokerData \<Rightarrow> BrokerData" where
  "BrokerData_CloneBrokerData self =
     \<lparr>bd_BrokerName = bd_BrokerName self, bd_BrokerAddrs = fold (\<lambda>(k, v). AList.update k v) (bd_BrokerAddrs self) []\<rparr>"

definition TopicRouteData_CloneTopicRouteData :: "TopicRouteData \<Rightarrow> TopicRouteData" where
  "TopicRouteData_CloneTopicRouteData self =
     \<lparr>OrderTopicConf = OrderTopicConf self,
      QueueDatas = map (\<lambda>q. \<lparr>qd_BrokerName = qd_BrokerName q, qd_ReadQueueNums = qd_ReadQueueNums q,
                              qd_WriteQueueNums = qd_WriteQueueNums q, qd_Perm = qd_Perm q, qd_TopicSynFlag = qd_TopicSynFlag q\<rparr>) (QueueDatas self),
      BrokerDatas = map (\<lambda>b. \<lparr>bd_BrokerName = bd_BrokerName b, bd_BrokerAddrs = bd_BrokerAddrs b\<rparr>) (BrokerDatas self),
      trd_FilterServerTable = []\<rparr>"

text \<open>The argument of an \<open>Equals\<close> is any value; \<open>None\<close> is one of another type.\<close>

definition QueueData_Equals :: "QueueData \<Rightarrow> QueueData option \<Rightarrow> bool" where
  "QueueData_Equals queueData v =
     (case v of
        None \<Rightarrow> False
      | Some q \<Rightarrow> EqualFold (qd_BrokerName queueData) (qd_BrokerName q) \<and> qd_Perm queueData = qd_Perm q \<and>
                  qd_WriteQueueNums queueData = qd_WriteQueueNums q \<and> qd_ReadQueueNums queueData = qd_ReadQueueNums q \<and>
                  qd_TopicSynFlag queueData = qd_TopicSynFlag q)"

definition BrokerData_Equals :: "BrokerData \<Rightarrow> BrokerData option \<Rightarrow> bool" where
  "BrokerData_Equals brokerData v =
     (case v of
        None \<Rightarrow> False
      | Some b \<Rightarrow> EqualFold (bd_BrokerName brokerData) (bd_BrokerName b) \<and>
                  length (bd_BrokerAddrs brokerData) = length (bd_BrokerAddrs b) \<and>
                  list_all (\<lambda>(brokerId, addr). EqualFold addr
                     (case map_of (bd_BrokerAddrs b) brokerId of None \<Rightarrow> [] | Some x \<Rightarrow> x)) (bd_BrokerAddrs brokerData))"

definition TopicRouteData_Equals :: "TopicRouteData \<Rightarrow> TopicRouteData option \<Rightarrow> bool" where
  "TopicRouteData_Equals routeData v =
     (case v of
        None \<Rightarrow> False
      | Some r \<Rightarrow> EqualFold (OrderTopicConf routeData) (OrderTopicConf r) \<and>
                  length (BrokerDatas routeData) = length (BrokerDatas r) \<and> length (QueueDatas routeData) = length (QueueDatas r) \<and>
                  list_all (\<lambda>(a, b). BrokerData_Equals a (Some b)) (zip (BrokerDatas routeData) (BrokerDatas r)) \<and>
                  list_all (\<lambda>(a, b). QueueData_Equals a (Some b)) (zip (QueueDatas routeData) (QueueDatas r)))"

lemma QueueData_Equals_eq:
  "qd_BrokerName a = qd_BrokerName b \<Longrightarrow> QueueData_Equals a (Some b) \<longleftrightarrow> a = b"
  by (auto simp: QueueData_Equals_def)

lemma clone_addrs: "map_of (bd_BrokerAddrs (BrokerData_CloneBrokerData b)) = map_of (bd_BrokerAddrs b)"
  if "distinct (map fst (bd_BrokerAddrs b))"
proof -
  have "map_of (fold (\<lambda>(k, v). AList.update k v) xs acc) = map_of acc ++ map_of xs" if "distinct (map fst xs)"
    for xs :: "(int \<times> string) list" and acc
    using that
    by (induction xs arbitrary: acc) (auto simp: update_conv' map_add_upd_left dom_map_of_conv_image_fst)
  then show ?thesis using that by (simp add: BrokerData_CloneBrokerData_def)
qed

end
