(* ===== verification/GoPackages.thy ===== *)
theory GoPackages
  imports Main "HOL-Library.AList" "HOL-Library.Stream"
begin

text \<open>
  What the broker and the registry use of packages that are not part of the program, and of the clock. The functions of
  such a package are an argument of the definitions that use them, and what the package documents about
  them is a predicate on that argument: the sets of \<open>golang-set\<close> (\<open>set_laws\<close>; \<open>list_set\<close> is one
  implementation) and the maps of \<open>go-concurrentMap\<close> (\<open>cmap_laws\<close>; \<open>alist_map\<close>).
\<close>

section \<open>Sets\<close>

record ('e, 's) set_ops =
  sNew :: 's
  sAdd :: "'e \<Rightarrow> 's \<Rightarrow> 's"
  sRemove :: "'e \<Rightarrow> 's \<Rightarrow> 's"
  sContains :: "'e \<Rightarrow> 's \<Rightarrow> bool"
  sCardinality :: "'s \<Rightarrow> int"
  sIter :: "'s \<Rightarrow> 'e list"

definition set_laws :: "('e, 's) set_ops \<Rightarrow> bool" where
  "set_laws S \<longleftrightarrow> sIter S (sNew S) = [] \<and> (\<forall>s. distinct (sIter S s)) \<and>
     (\<forall>x s. set (sIter S (sAdd S x s)) = insert x (set (sIter S s))) \<and>
     (\<forall>x s. set (sIter S (sRemove S x s)) = set (sIter S s) - {x}) \<and>
     (\<forall>x s. sContains S x s \<longleftrightarrow> x \<in> set (sIter S s)) \<and>
     (\<forall>s. sCardinality S s = int (length (sIter S s)))"

lemma fold_sAdd:
  assumes "set_laws S"
  shows "set (sIter S (fold (\<lambda>x. sAdd S (f x)) xs s)) = set (sIter S s) \<union> f ` set xs"
  using assms by (induction xs arbitrary: s) (auto simp: set_laws_def)

text \<open>A list instance, whose iterator yields the elements in the order of their insertion.\<close>

definition list_set :: "('e, 'e list) set_ops" where
  "list_set = \<lparr>sNew = [], sAdd = (\<lambda>x s. if x \<in> set s then s else s @ [x]), sRemove = (\<lambda>x s. remdups (removeAll x s)),
     sContains = (\<lambda>x s. x \<in> set s), sCardinality = (\<lambda>s. int (length (remdups s))), sIter = remdups\<rparr>"

lemma list_set_laws: "set_laws list_set"
  by (auto simp: set_laws_def list_set_def)

section \<open>Go maps as association lists\<close>

lemma set_update_cases: "(x, y) \<in> set (AList.update k v t) \<Longrightarrow> (x, y) = (k, v) \<or> (x, y) \<in> set t"
  by (induction t) (auto split: if_splits)

lemma map_fst_update: "map_of t k = Some c \<Longrightarrow> map fst (AList.update k v t) = map fst t"
  by (induction t) auto

lemma map_of_eq_imp_eq:
  assumes "map fst xs = map fst ys" and "distinct (map fst ys)" and "map_of xs = map_of ys"
  shows "xs = ys"
proof (rule nth_equalityI)
  show len: "length xs = length ys" using assms(1) by (metis length_map)
  fix i assume i: "i < length xs"
  then have k: "fst (xs ! i) = fst (ys ! i)" using assms(1) len by (metis nth_map)
  have "map_of ys (fst (ys ! i)) = Some (snd (ys ! i))" using assms(2) i len by (intro map_of_is_SomeI) auto
  moreover have "map_of xs (fst (xs ! i)) = Some (snd (xs ! i))" using assms(1,2) i by (intro map_of_is_SomeI) auto
  ultimately show "xs ! i = ys ! i" using assms(3) k by (simp add: prod_eq_iff)
qed

section \<open>Concurrent maps\<close>

text \<open>
  \<open>mGet\<close> returns \<open>None\<close> for a missing key. \<open>mIter\<close> lists the entries an iterator yields; its \<open>Remove\<close> removes the
  entry it has just returned.
\<close>

record ('k, 'v, 'm) cmap_ops =
  mNew :: 'm
  mGet :: "'k \<Rightarrow> 'm \<Rightarrow> 'v option"
  mPut :: "'k \<Rightarrow> 'v \<Rightarrow> 'm \<Rightarrow> 'm"
  mRemove :: "'k \<Rightarrow> 'm \<Rightarrow> 'm"
  mSize :: "'m \<Rightarrow> int"
  mIter :: "'m \<Rightarrow> ('k \<times> 'v) list"

definition cmap_laws :: "('k, 'v, 'm) cmap_ops \<Rightarrow> bool" where
  "cmap_laws M \<longleftrightarrow> mIter M (mNew M) = [] \<and> (\<forall>m. distinct (map fst (mIter M m))) \<and>
     (\<forall>m k. mGet M k m = map_of (mIter M m) k) \<and>
     (\<forall>m k v. map_of (mIter M (mPut M k v m)) = (map_of (mIter M m))(k \<mapsto> v)) \<and>
     (\<forall>m k. map_of (mIter M (mRemove M k m)) = (map_of (mIter M m))(k := None)) \<and>
     (\<forall>m. mSize M m = int (length (mIter M m)))"

lemma cmap_simps:
  assumes "cmap_laws M"
  shows "mGet M k (mNew M) = None"
    and "mGet M k (mPut M k1 v m) = (if k = k1 then Some v else mGet M k m)"
    and "mGet M k (mRemove M k1 m) = (if k = k1 then None else mGet M k m)"
    and "mSize M m = 0 \<longleftrightarrow> (\<forall>k. mGet M k m = None)"
    and "(k, v) \<in> set (mIter M m) \<longleftrightarrow> mGet M k m = Some v"
    and "0 \<le> mSize M m"
  using assms by (auto simp: cmap_laws_def fun_eq_iff map_of_eq_None_iff)

lemma fold_mRemove:
  assumes "cmap_laws M"
  shows "mGet M k (fold (mRemove M) ks m) = (if k \<in> set ks then None else mGet M k m)"
  by (induction ks arbitrary: m) (auto simp: cmap_simps [OF assms])

definition alist_map :: "('k, 'v, ('k \<times> 'v) list) cmap_ops" where
  "alist_map = \<lparr>mNew = [], mGet = (\<lambda>k m. map_of m k), mPut = AList.update, mRemove = AList.delete,
     mSize = (\<lambda>m. int (length (AList.clearjunk m))), mIter = AList.clearjunk\<rparr>"

lemma alist_map_laws: "cmap_laws alist_map"
  by (auto simp: cmap_laws_def alist_map_def distinct_clearjunk map_of_clearjunk update_conv' delete_conv' fun_eq_iff)

section \<open>The clock\<close>

text \<open>The readings \<open>CurrentTimeMillis\<close> is going to return, and that all of them lie between \<open>lo\<close> and \<open>hi\<close>.\<close>

type_synonym clock = "int stream"

definition during :: "int \<Rightarrow> int \<Rightarrow> clock \<Rightarrow> bool" where
  "during lo hi c \<longleftrightarrow> 0 \<le> lo \<and> hi < 2 ^ 63 \<and> (\<forall>x \<in> sset c. lo \<le> x \<and> x \<le> hi)"

lemma during_step [simp, intro]: "during lo hi c \<Longrightarrow> during lo hi (stl c)"
  by (cases c) (simp add: during_def)

lemma during_shd: "during lo hi c \<Longrightarrow> 0 \<le> lo \<and> lo \<le> shd c \<and> shd c \<le> hi \<and> hi < 2 ^ 63"
  by (cases c) (simp add: during_def)

end
