(* ===== verification/RegistryM.thy ===== *)
theory RegistryM
  imports RouteM GoPackages
begin

text \<open>
  The registry: \<open>stgregistry/registry/route_info_manager.go\<close>. Brokers register with their topics, clients
  ask for the route of a topic, brokers leave or are found dead.

  A Go map is an association list in the order of its iteration; a set of names is a value of the
  package \<open>golang-set\<close>, whose functions are an argument of the operations that use them. Every operation runs
  under the lock of the manager and is one step. A slice in a table is a list; the loops that delete
  from the slice they range over work on its array, as in the source. Log output is not modelled.
\<close>

section \<open>State\<close>

text \<open>A connection is represented by its remote address.\<close>

record BrokerLiveInfo =
  LastUpdateTimestamp :: int
  bli_DataVersion :: "DataVersion option"
  bli_Context :: string
  HaServerAddr :: string

definition NewBrokerLiveInfo :: "int \<Rightarrow> DataVersion option \<Rightarrow> string \<Rightarrow> string \<Rightarrow> BrokerLiveInfo" where
  "NewBrokerLiveInfo now dataVersion haServerAddr ctx =
     \<lparr>LastUpdateTimestamp = now, bli_DataVersion = dataVersion, bli_Context = ctx, HaServerAddr = haServerAddr\<rparr>"

record 's RouteInfoManager =
  TopicQueueTable :: "(string \<times> QueueData list) list"
  BrokerAddrTable :: "(string \<times> BrokerData) list"
  ClusterAddrTable :: "(string \<times> 's) list"
  BrokerLiveTable :: "(string \<times> BrokerLiveInfo) list"
  FilterServerTable :: "(string \<times> string list) list"

definition NewRouteInfoManager :: "'s RouteInfoManager" where
  "NewRouteInfoManager = \<lparr>TopicQueueTable = [], BrokerAddrTable = [], ClusterAddrTable = [], BrokerLiveTable = [],
     FilterServerTable = []\<rparr>"

definition brokerChannelExpiredTime :: int where
  "brokerChannelExpiredTime = 1000 * 60 * 2"

record TopicConfigSerializeWrapper =
  w_TopicConfigTable :: "(string \<times> TopicConfig) list option"
  w_DataVersion :: "DataVersion option"

record RegisterBrokerResult =
  rbr_HaServerAddr :: string
  rbr_MasterAddr :: string

section \<open>Deleting from a slice while ranging over it\<close>

text \<open>
  \<open>arr\<close> is the array the loop ranges over and \<open>m\<close> the length of the slice that remains. Deleting at
  \<open>index\<close> moves the elements behind it one place forward within the array, and \<open>index + 1\<close> beyond the slice is
  a panic. The result is whether the loop panicked, the slice, and the elements the loop has seen.
\<close>

function del_loop :: "(QueueData \<Rightarrow> bool) \<Rightarrow> nat \<Rightarrow> QueueData list \<Rightarrow> nat \<Rightarrow> QueueData list \<Rightarrow>
    bool \<times> QueueData list \<times> QueueData list" where
  "del_loop hit index arr m seen =
     (if index < length arr
      then if hit (arr ! index)
           then if index + 1 \<le> m
                then del_loop hit (index + 1) (take index arr @ drop (index + 1) (take m arr) @ drop (m - 1) arr) (m - 1)
                       (seen @ [arr ! index])
                else (True, take m arr, seen @ [arr ! index])
           else del_loop hit (index + 1) arr m (seen @ [arr ! index])
      else (False, take m arr, seen))"
  by pat_completeness auto
termination
  by (relation "measure (\<lambda>(hit, index, arr, m, seen). length arr - index)") (auto simp: min_def)

declare del_loop.simps [simp del]

definition slice_delete :: "(QueueData \<Rightarrow> bool) \<Rightarrow> QueueData list \<Rightarrow> bool \<times> QueueData list \<times> QueueData list" where
  "slice_delete hit qds = del_loop hit 0 qds (length qds) []"

section \<open>Registering\<close>

text \<open>
  \<open>createAndUpdateQueueData\<close>. A panic in the loop is recovered: what was deleted stays deleted and
  nothing is added.
\<close>

definition RouteInfoManager_createAndUpdateQueueData ::
    "string \<Rightarrow> TopicConfig \<Rightarrow> 's RouteInfoManager \<Rightarrow> 's RouteInfoManager" where
  "RouteInfoManager_createAndUpdateQueueData brokerName topicConfig self =
     (let topic = TrimSpace (tc_TopicName topicConfig)
      in if topic = [] then self
         else let queueData = NewQueueData brokerName topicConfig
         in case map_of (TopicQueueTable self) topic of
              None \<Rightarrow> self\<lparr>TopicQueueTable := AList.update topic [queueData] (TopicQueueTable self)\<rparr>
            | Some queueDataList \<Rightarrow>
                (let hit = (\<lambda>qd. qd_BrokerName qd = brokerName \<and> \<not> QueueData_Equals queueData (Some qd))
                 in case slice_delete hit queueDataList of
                      (panic, qds, seen) \<Rightarrow>
                        let addNewOne = list_all (\<lambda>qd. \<not> (qd_BrokerName qd = brokerName \<and> QueueData_Equals queueData (Some qd))) seen
                        in if \<not> panic \<and> addNewOne
                           then self\<lparr>TopicQueueTable := AList.update topic (qds @ [queueData]) (TopicQueueTable self)\<rparr>
                           else if qds = queueDataList then self
                           else self\<lparr>TopicQueueTable := AList.update topic qds (TopicQueueTable self)\<rparr>))"

definition RouteInfoManager_isBrokerTopicConfigChanged :: "string \<Rightarrow> DataVersion option \<Rightarrow> 's RouteInfoManager \<Rightarrow> bool" where
  "RouteInfoManager_isBrokerTopicConfigChanged brokerAddr dataVersion self =
     (case map_of (BrokerLiveTable self) brokerAddr of
        None \<Rightarrow> True
      | Some prev \<Rightarrow> \<not> DataVersion_Equals (bli_DataVersion prev) dataVersion)"

definition MASTER_ID :: int where "MASTER_ID = 0"

text \<open>
  The parts of \<open>registerBroker\<close> for the topics, the live brokers and the filter servers.
\<close>

definition reg_topics ::
    "string \<Rightarrow> string \<Rightarrow> int \<Rightarrow> bool \<Rightarrow> TopicConfigSerializeWrapper option \<Rightarrow> 's RouteInfoManager \<Rightarrow> 's RouteInfoManager" where
  "reg_topics brokerAddr brokerName brokerId registerFirst topicConfigWrapper self =
     (case topicConfigWrapper of
        None \<Rightarrow> self
      | Some w \<Rightarrow>
          if brokerId = MASTER_ID \<and>
             (RouteInfoManager_isBrokerTopicConfigChanged brokerAddr (w_DataVersion w) self \<or> registerFirst)
          then (case w_TopicConfigTable w of
                  None \<Rightarrow> self
                | Some tcTable \<Rightarrow> fold (\<lambda>(topic, topicConfig). RouteInfoManager_createAndUpdateQueueData brokerName topicConfig)
                                   tcTable self)
          else self)"

definition reg_live ::
    "int \<Rightarrow> string \<Rightarrow> string \<Rightarrow> TopicConfigSerializeWrapper option \<Rightarrow> string \<Rightarrow> 's RouteInfoManager \<Rightarrow> 's RouteInfoManager" where
  "reg_live now brokerAddr haServerAddr topicConfigWrapper ctx self =
     (case topicConfigWrapper of
        None \<Rightarrow> self
      | Some w \<Rightarrow> self\<lparr>BrokerLiveTable :=
          AList.update brokerAddr (NewBrokerLiveInfo now (w_DataVersion w) haServerAddr ctx) (BrokerLiveTable self)\<rparr>)"

definition reg_filter :: "string \<Rightarrow> string list option \<Rightarrow> 's RouteInfoManager \<Rightarrow> 's RouteInfoManager" where
  "reg_filter brokerAddr filterServerList self =
     (case filterServerList of
        None \<Rightarrow> self
      | Some [] \<Rightarrow> self\<lparr>FilterServerTable := AList.delete brokerAddr (FilterServerTable self)\<rparr>
      | Some fs \<Rightarrow> self\<lparr>FilterServerTable := AList.update brokerAddr fs (FilterServerTable self)\<rparr>)"

text \<open>
  \<open>registerBroker\<close>; \<open>now\<close> is the current time, \<open>ctx\<close> the address of the connection.
\<close>

definition RouteInfoManager_registerBroker ::
    "(string, 's) set_ops \<Rightarrow> int \<Rightarrow> string \<Rightarrow> string \<Rightarrow> string \<Rightarrow> int \<Rightarrow> string \<Rightarrow> TopicConfigSerializeWrapper option \<Rightarrow>
     string list option \<Rightarrow> string \<Rightarrow> 's RouteInfoManager \<Rightarrow> RegisterBrokerResult \<times> 's RouteInfoManager" where
  "RouteInfoManager_registerBroker S now clusterName brokerAddr brokerName brokerId haServerAddr topicConfigWrapper
       filterServerList ctx self =
     (let brokerNames = (case map_of (ClusterAddrTable self) clusterName of None \<Rightarrow> sNew S | Some s \<Rightarrow> s);
          self1 = self\<lparr>ClusterAddrTable := AList.update clusterName (sAdd S brokerName brokerNames) (ClusterAddrTable self)\<rparr>;
          registerFirst = (map_of (BrokerAddrTable self1) brokerName = None);
          brokerData = (case map_of (BrokerAddrTable self1) brokerName of None \<Rightarrow> NewBrokerData brokerName | Some d \<Rightarrow> d);
          oldAddr = map_of (bd_BrokerAddrs brokerData) brokerId;
          registerFirst = (registerFirst \<or> oldAddr \<noteq> None \<or> (case oldAddr of None \<Rightarrow> [] | Some a \<Rightarrow> a) = []);
          brokerData1 = brokerData\<lparr>bd_BrokerAddrs := AList.update brokerId brokerAddr (bd_BrokerAddrs brokerData)\<rparr>;
          self2 = self1\<lparr>BrokerAddrTable := AList.update brokerName brokerData1 (BrokerAddrTable self1)\<rparr>;
          self3 = reg_topics brokerAddr brokerName brokerId registerFirst topicConfigWrapper self2;
          self4 = reg_live now brokerAddr haServerAddr topicConfigWrapper ctx self3;
          self5 = reg_filter brokerAddr filterServerList self4;
          none = \<lparr>rbr_HaServerAddr = [], rbr_MasterAddr = []\<rparr>;
          result = (if brokerId \<noteq> MASTER_ID
                    then (case map_of (bd_BrokerAddrs brokerData1) MASTER_ID of
                            None \<Rightarrow> none
                          | Some masterAddr \<Rightarrow>
                              if masterAddr = [] then none
                              else (case map_of (BrokerLiveTable self5) masterAddr of
                                      None \<Rightarrow> none
                                    | Some info \<Rightarrow> \<lparr>rbr_HaServerAddr = HaServerAddr info, rbr_MasterAddr = masterAddr\<rparr>))
                    else none)
      in (result, self5))"

section \<open>Leaving\<close>

text \<open>The loop over the topics; a panic ends it and the topics behind it stay as they are.\<close>

fun remove_topics :: "(QueueData \<Rightarrow> bool) \<Rightarrow> (string \<times> QueueData list) list \<Rightarrow> bool \<times> (string \<times> QueueData list) list" where
  "remove_topics hit [] = (False, [])"
| "remove_topics hit ((topic, queueDataList) # ts) =
     (case slice_delete hit queueDataList of
        (panic, qds, _) \<Rightarrow>
          if panic then (True, (topic, qds) # ts)
          else if qds = [] then remove_topics hit ts
          else apsnd (Cons (topic, qds)) (remove_topics hit ts))"

definition RouteInfoManager_removeTopicByBrokerName :: "string \<Rightarrow> 's RouteInfoManager \<Rightarrow> 's RouteInfoManager" where
  "RouteInfoManager_removeTopicByBrokerName brokerName self =
     self\<lparr>TopicQueueTable := snd (remove_topics (\<lambda>qd. qd_BrokerName qd = brokerName) (TopicQueueTable self))\<rparr>"

definition RouteInfoManager_unRegisterBroker ::
    "(string, 's) set_ops \<Rightarrow> string \<Rightarrow> string \<Rightarrow> string \<Rightarrow> int \<Rightarrow> 's RouteInfoManager \<Rightarrow> 's RouteInfoManager" where
  "RouteInfoManager_unRegisterBroker S clusterName brokerAddr brokerName brokerId self =
     (let self1 = self\<lparr>BrokerLiveTable := AList.delete brokerAddr (BrokerLiveTable self),
                       FilterServerTable := AList.delete brokerAddr (FilterServerTable self)\<rparr>
      in case map_of (BrokerAddrTable self1) brokerName of
           None \<Rightarrow> self1
         | Some brokerData \<Rightarrow>
             (let brokerData1 = brokerData\<lparr>bd_BrokerAddrs := AList.delete brokerId (bd_BrokerAddrs brokerData)\<rparr>
              in if bd_BrokerAddrs brokerData1 = []
                 then let self2 = self1\<lparr>BrokerAddrTable := AList.delete brokerName (BrokerAddrTable self1)\<rparr>;
                          self3 = (case map_of (ClusterAddrTable self2) clusterName of
                                     None \<Rightarrow> self2
                                   | Some names \<Rightarrow>
                                       (let names1 = sRemove S brokerName names
                                        in if sCardinality S names1 = 0
                                           then self2\<lparr>ClusterAddrTable := AList.delete clusterName (ClusterAddrTable self2)\<rparr>
                                           else self2\<lparr>ClusterAddrTable := AList.update clusterName names1 (ClusterAddrTable self2)\<rparr>))
                      in RouteInfoManager_removeTopicByBrokerName brokerName self3
                 else self1\<lparr>BrokerAddrTable := AList.update brokerName brokerData1 (BrokerAddrTable self1)\<rparr>))"

text \<open>
  \<open>onChannelDestroy\<close>. The first loop deletes the first address that matches and, as long as none was found, every
  broker without addresses: the remaining table, the name found and whether a broker was deleted.
\<close>

fun delete_addr :: "string \<Rightarrow> (int \<times> string) list \<Rightarrow> bool \<times> (int \<times> string) list" where
  "delete_addr addr [] = (False, [])"
| "delete_addr addr ((brokerId, brokerAddr) # as) =
     (if brokerAddr = addr then (True, as) else apsnd (Cons (brokerId, brokerAddr)) (delete_addr addr as))"

fun destroy_addrs :: "string \<Rightarrow> string \<Rightarrow> bool \<Rightarrow> (string \<times> BrokerData) list \<Rightarrow> (string \<times> BrokerData) list \<times> string \<times> bool" where
  "destroy_addrs addr brokerNameFound removed [] = ([], brokerNameFound, removed)"
| "destroy_addrs addr brokerNameFound removed ((bn, brokerData) # bs) =
     (if brokerNameFound = []
      then case delete_addr addr (bd_BrokerAddrs brokerData) of
        (found, addrs) \<Rightarrow>
          let name = (if found then bd_BrokerName brokerData else brokerNameFound)
          in if addrs = [] then destroy_addrs addr name True bs
             else apfst (Cons (bn, brokerData\<lparr>bd_BrokerAddrs := addrs\<rparr>)) (destroy_addrs addr name removed bs)
      else ((bn, brokerData) # bs, brokerNameFound, removed))"

fun destroy_cluster :: "(string, 's) set_ops \<Rightarrow> string \<Rightarrow> (string \<times> 's) list \<Rightarrow> (string \<times> 's) list" where
  "destroy_cluster S name [] = []"
| "destroy_cluster S name ((clusterName, names) # cs) =
     (if sCardinality S names > 0 \<and> sContains S name names
      then let names1 = sRemove S name names in if sCardinality S names1 = 0 then cs else (clusterName, names1) # cs
      else (clusterName, names) # destroy_cluster S name cs)"

text \<open>
  The loop over the topics compares the name of a broker with the address. It runs while the write
  lock is held, so a panic in it leaves the manager locked: \<open>None\<close>.
\<close>

definition RouteInfoManager_onChannelDestroy ::
    "(string, 's) set_ops \<Rightarrow> string \<Rightarrow> string option \<Rightarrow> 's RouteInfoManager \<Rightarrow> 's RouteInfoManager option" where
  "RouteInfoManager_onChannelDestroy S remoteAddr ctx self =
     (let found = (case ctx of None \<Rightarrow> [] | Some c \<Rightarrow> filter (\<lambda>(k, live). bli_Context live = c) (BrokerLiveTable self));
          brokerAddrFound = (if found = [] then remoteAddr else fst (last found))
      in if length brokerAddrFound > 0
         then case destroy_addrs brokerAddrFound [] False (BrokerAddrTable self) of
           (brokers, brokerNameFound, removeBrokerName) \<Rightarrow>
             let self1 = self\<lparr>BrokerLiveTable := AList.delete brokerAddrFound (BrokerLiveTable self),
                              FilterServerTable := AList.delete brokerAddrFound (FilterServerTable self),
                              BrokerAddrTable := brokers\<rparr>;
                 self2 = (if brokerNameFound \<noteq> [] \<and> removeBrokerName
                          then self1\<lparr>ClusterAddrTable := destroy_cluster S brokerNameFound (ClusterAddrTable self1)\<rparr> else self1)
             in if removeBrokerName
                then case remove_topics (\<lambda>qd. qd_BrokerName qd = brokerAddrFound) (TopicQueueTable self2) of
                       (panic, ts) \<Rightarrow> if panic then None else Some (self2\<lparr>TopicQueueTable := ts\<rparr>)
                else Some self2
         else Some self)"

text \<open>The scan for dead brokers; an entry that is deleted before its turn is not visited.\<close>

fun scan_loop :: "(string, 's) set_ops \<Rightarrow> int \<Rightarrow> (string \<times> BrokerLiveInfo) list \<Rightarrow> 's RouteInfoManager \<Rightarrow> 's RouteInfoManager option" where
  "scan_loop S currentTime [] self = Some self"
| "scan_loop S currentTime ((remoteAddr, info) # lives) self =
     (if map_of (BrokerLiveTable self) remoteAddr \<noteq> None \<and> LastUpdateTimestamp info + brokerChannelExpiredTime < currentTime
      then do {
        self1 \<leftarrow> RouteInfoManager_onChannelDestroy S remoteAddr (Some (bli_Context info))
           (self\<lparr>BrokerLiveTable := AList.delete remoteAddr (BrokerLiveTable self)\<rparr>);
        scan_loop S currentTime lives self1 }
      else scan_loop S currentTime lives self)"

definition RouteInfoManager_scanNotActiveBroker :: "(string, 's) set_ops \<Rightarrow> int \<Rightarrow> 's RouteInfoManager \<Rightarrow> 's RouteInfoManager option" where
  "RouteInfoManager_scanNotActiveBroker S currentTime self = scan_loop S currentTime (BrokerLiveTable self) self"

section \<open>Other operations\<close>

definition RouteInfoManager_deleteTopic :: "string \<Rightarrow> 's RouteInfoManager \<Rightarrow> 's RouteInfoManager" where
  "RouteInfoManager_deleteTopic topic self = self\<lparr>TopicQueueTable := AList.delete topic (TopicQueueTable self)\<rparr>"

definition wipe_queue :: "string \<Rightarrow> QueueData \<Rightarrow> QueueData" where
  "wipe_queue brokerName qd =
     (if qd_BrokerName qd = brokerName then qd\<lparr>qd_Perm := qd_Perm qd AND (0xFFFFFFFF XOR PERM_WRITE)\<rparr> else qd)"

definition RouteInfoManager_wipeWritePermOfBroker :: "string \<Rightarrow> 's RouteInfoManager \<Rightarrow> int \<times> 's RouteInfoManager" where
  "RouteInfoManager_wipeWritePermOfBroker brokerName self =
     (int (length (filter (\<lambda>qd. qd_BrokerName qd = brokerName) (concat (map snd (TopicQueueTable self))))),
      self\<lparr>TopicQueueTable := map (apsnd (map (wipe_queue brokerName))) (TopicQueueTable self)\<rparr>)"

text \<open>The brokers of a route: their data, the servers of their addresses, and whether any was found.\<close>

fun pickup_brokers ::
    "'s RouteInfoManager \<Rightarrow> string list \<Rightarrow> BrokerData list \<Rightarrow> (string \<times> string list) list \<Rightarrow>
     BrokerData list \<times> (string \<times> string list) list" where
  "pickup_brokers self [] brokerDataList filterServerMap = (brokerDataList, filterServerMap)"
| "pickup_brokers self (brokerName # names) brokerDataList filterServerMap =
     (case map_of (BrokerAddrTable self) brokerName of
        None \<Rightarrow> pickup_brokers self names brokerDataList filterServerMap
      | Some brokerData \<Rightarrow>
          (let clone = BrokerData_CloneBrokerData brokerData
           in pickup_brokers self names (brokerDataList @ [clone])
                (fold (\<lambda>(brokerId, brokerAddr) m.
                         case map_of (FilterServerTable self) brokerAddr of None \<Rightarrow> m | Some fs \<Rightarrow> AList.update brokerAddr fs m)
                   (bd_BrokerAddrs clone) filterServerMap)))"

definition RouteInfoManager_pickupTopicRouteData :: "(string, 's) set_ops \<Rightarrow> string \<Rightarrow> 's RouteInfoManager \<Rightarrow> TopicRouteData option" where
  "RouteInfoManager_pickupTopicRouteData S topic self =
     (case map_of (TopicQueueTable self) topic of
        None \<Rightarrow> None
      | Some queueDataList \<Rightarrow>
          (case pickup_brokers self (sIter S (fold (\<lambda>qd. sAdd S (qd_BrokerName qd)) queueDataList (sNew S))) [] [] of
             (brokerDataList, filterServerMap) \<Rightarrow>
               if brokerDataList = [] then None
               else Some \<lparr>OrderTopicConf = [], QueueDatas = queueDataList, BrokerDatas = brokerDataList,
                          trd_FilterServerTable = filterServerMap\<rparr>))"

text \<open>The queries for lists, up to the encoding of their results.\<close>

definition RouteInfoManager_getUnitTopicList :: "(string, 's) set_ops \<Rightarrow> 's RouteInfoManager \<Rightarrow> 's" where
  "RouteInfoManager_getUnitTopicList S self =
     fold (\<lambda>(topic, qds) l. if qds \<noteq> [] \<and> HasUnitFlag (qd_TopicSynFlag (hd qds)) then sAdd S topic l else l)
       (TopicQueueTable self) (sNew S)"

definition RouteInfoManager_getHasUnitSubTopicList :: "(string, 's) set_ops \<Rightarrow> 's RouteInfoManager \<Rightarrow> 's" where
  "RouteInfoManager_getHasUnitSubTopicList S self =
     fold (\<lambda>(topic, qds) l. if qds \<noteq> [] \<and> HasUnitSubFlag (qd_TopicSynFlag (hd qds)) then sAdd S topic l else l)
       (TopicQueueTable self) (sNew S)"

definition RouteInfoManager_getHasUnitSubUnUnitTopicList :: "(string, 's) set_ops \<Rightarrow> 's RouteInfoManager \<Rightarrow> 's" where
  "RouteInfoManager_getHasUnitSubUnUnitTopicList S self =
     fold (\<lambda>(topic, qds) l. if qds \<noteq> [] \<and> \<not> HasUnitFlag (qd_TopicSynFlag (hd qds)) \<and> HasUnitSubFlag (qd_TopicSynFlag (hd qds))
                            then sAdd S topic l else l)
       (TopicQueueTable self) (sNew S)"

text \<open>The topics of a cluster: a topic is listed once for each of its brokers in the cluster.\<close>

definition RouteInfoManager_getTopicsByCluster :: "(string, 's) set_ops \<Rightarrow> string \<Rightarrow> 's RouteInfoManager \<Rightarrow> string list" where
  "RouteInfoManager_getTopicsByCluster S clusterName self =
     (case map_of (ClusterAddrTable self) clusterName of
        None \<Rightarrow> []
      | Some names \<Rightarrow>
          concat (map (\<lambda>brokerName. map fst (filter (\<lambda>(topic, qds). list_ex (\<lambda>qd. qd_BrokerName qd = brokerName) qds)
                                               (TopicQueueTable self))) (sIter S names)))"

text \<open>The other two queries: all topics with the brokers of each cluster, and the topics named after clusters and brokers.\<close>

definition RouteInfoManager_getAllTopicList ::
    "(string, 's) set_ops \<Rightarrow> 's RouteInfoManager \<Rightarrow> string list \<times> (string \<times> QueueData list) list \<times> (string \<times> string list) list" where
  "RouteInfoManager_getAllTopicList S self =
     (map fst (TopicQueueTable self), TopicQueueTable self, map (apsnd (sIter S)) (ClusterAddrTable self))"

definition RouteInfoManager_getSystemTopicList :: "(string, 's) set_ops \<Rightarrow> 's RouteInfoManager \<Rightarrow> 's \<times> string" where
  "RouteInfoManager_getSystemTopicList S self =
     (fold (\<lambda>(cluster, names) l. fold (sAdd S) (sIter S names) (sAdd S cluster l)) (ClusterAddrTable self) (sNew S),
      fold (\<lambda>(bn, brokerData) addr. case bd_BrokerAddrs brokerData of [] \<Rightarrow> addr | (_, a) # _ \<Rightarrow> a) (BrokerAddrTable self) [])"

section \<open>Deleting one element\<close>

lemma del_loop_no_hit:
  assumes "\<And>i. index \<le> i \<Longrightarrow> i < length arr \<Longrightarrow> \<not> hit (arr ! i)"
  shows "del_loop hit index arr m seen = (False, take m arr, seen @ drop index arr)"
  using assms
proof (induction hit index arr m seen rule: del_loop.induct)
  case (1 hit index arr m seen)
  show ?case
  proof (cases "index < length arr")
    case True
    then have "del_loop hit index arr m seen = (False, take m arr, (seen @ [arr ! index]) @ drop (index + 1) arr)"
      using 1 by (subst del_loop.simps) simp
    then show ?thesis using Cons_nth_drop_Suc [OF True] by simp
  next
    case False
    then show ?thesis by (subst del_loop.simps) simp
  qed
qed

lemma del_loop_one_hit:
  assumes "index \<le> p" and "p < length arr" and "\<And>i. i < length arr \<Longrightarrow> hit (arr ! i) \<longleftrightarrow> i = p"
  shows "\<exists>seen1. del_loop hit index arr (length arr) seen = (False, take p arr @ drop (Suc p) arr, seen1) \<and>
     set seen1 \<subseteq> set seen \<union> set arr"
  using assms(1)
proof (induction "p - index" arbitrary: index seen)
  case 0
  then have p: "index = p" by simp
  let ?n = "length arr" and ?arr = "take p arr @ drop (p + 1) (take (length arr) arr) @ drop (length arr - 1) arr"
  have len: "length ?arr = ?n" using assms(2) by simp
  have last: "drop (?n - 1) arr = [arr ! (?n - 1)]" using Cons_nth_drop_Suc [of "?n - 1" arr] assms(2) by simp
  have nh: "\<not> hit (?arr ! i)" if "p + 1 \<le> i" "i < length ?arr" for i
  proof (cases "i < ?n - 1")
    case True
    then have "?arr ! i = arr ! Suc i" using that(1) assms(2) by (simp add: nth_append)
    then show ?thesis using assms(3) [of "Suc i"] True that(1) by auto
  next
    case False
    then have i: "i = ?n - 1" using that(2) len by simp
    then have "?arr ! i = arr ! (?n - 1)" using that(1) assms(2) by (simp add: nth_append last)
    then show ?thesis using assms(3) [of "?n - 1"] i that(1) assms(2) by auto
  qed
  have "del_loop hit index arr ?n seen = del_loop hit (p + 1) ?arr (?n - 1) (seen @ [arr ! p])"
    using p assms(2) assms(3) [OF assms(2)] by (subst del_loop.simps) simp
  also have "\<dots> = (False, take (?n - 1) ?arr, (seen @ [arr ! p]) @ drop (p + 1) ?arr)" by (rule del_loop_no_hit) (rule nh)
  also have "take (?n - 1) ?arr = take p arr @ drop (Suc p) arr" using assms(2) by simp
  finally show ?case
    using assms(2) by (intro exI conjI) (auto dest!: in_set_dropD in_set_takeD simp del: drop_append)
next
  case (Suc d)
  then have i: "index < p" by simp
  moreover from i assms(2) assms(3) [of index] have "\<not> hit (arr ! index)" by simp
  ultimately have "del_loop hit index arr (length arr) seen = del_loop hit (index + 1) arr (length arr) (seen @ [arr ! index])"
    using assms(2) by (subst del_loop.simps) simp
  moreover have "arr ! index \<in> set arr" using i assms(2) by simp
  ultimately show ?case using Suc.hyps(1) [of "index + 1" "seen @ [arr ! index]"] Suc.hyps(2) i by fastforce
qed

text \<open>
  When the names of a list are distinct, the loop for one name deletes what it should.
\<close>

lemma slice_delete_filter:
  assumes "distinct (map qd_BrokerName qds)" and "\<And>q. hit q \<Longrightarrow> qd_BrokerName q = name"
  shows "\<exists>seen. slice_delete hit qds = (False, filter (\<lambda>q. \<not> hit q) qds, seen) \<and> set seen \<subseteq> set qds \<and>
     ((\<forall>q \<in> set qds. \<not> hit q) \<longrightarrow> seen = qds)"
proof (cases "\<exists>p < length qds. hit (qds ! p)")
  case True
  then obtain p where p: "p < length qds" "hit (qds ! p)" by blast
  have one: "hit (qds ! i) \<longleftrightarrow> i = p" if i: "i < length qds" for i
  proof
    assume "hit (qds ! i)"
    then have "map qd_BrokerName qds ! i = map qd_BrokerName qds ! p" using assms(2) i p by simp
    then show "i = p" using nth_eq_iff_index_eq [OF assms(1)] i p(1) by simp
  qed (use p in simp)
  have "\<not> hit q" if "q \<in> set (take p qds) \<union> set (drop (Suc p) qds)" for q
    using that one p(1) by (auto simp: in_set_conv_nth)
  then have "filter (\<lambda>q. \<not> hit q) (take p qds @ qds ! p # drop (Suc p) qds) = take p qds @ drop (Suc p) qds"
    using p(2) by (simp add: filter_id_conv)
  then have "filter (\<lambda>q. \<not> hit q) qds = take p qds @ drop (Suc p) qds" using id_take_nth_drop [OF p(1)] by simp
  with del_loop_one_hit [OF _ p(1) one, of 0 "[]"] show ?thesis
    using p by (auto simp: slice_delete_def)
next
  case False
  then have "\<forall>q \<in> set qds. \<not> hit q" by (auto simp: in_set_conv_nth)
  then show ?thesis using del_loop_no_hit [of 0 qds hit "length qds" "[]"] False
    by (simp add: slice_delete_def filter_id_conv)
qed

section \<open>The invariant\<close>

text \<open>
  Every topic has queues, at most one entry per broker, and every broker of the address table has an
  address and is stored under its name.
\<close>

definition topics_ok :: "(string \<times> QueueData list) list \<Rightarrow> bool" where
  "topics_ok ts \<longleftrightarrow> distinct (map fst ts) \<and> (\<forall>(t, qds) \<in> set ts. qds \<noteq> [] \<and> distinct (map qd_BrokerName qds))"

definition brokers_ok :: "(string \<times> BrokerData) list \<Rightarrow> bool" where
  "brokers_ok bs \<longleftrightarrow> distinct (map fst bs) \<and>
     (\<forall>(bn, bd) \<in> set bs. bd_BrokerName bd = bn \<and> bd_BrokerAddrs bd \<noteq> [] \<and> distinct (map fst (bd_BrokerAddrs bd)))"

definition route_inv :: "'s RouteInfoManager \<Rightarrow> bool" where
  "route_inv self \<longleftrightarrow> topics_ok (TopicQueueTable self) \<and> brokers_ok (BrokerAddrTable self)"

lemma alist_update_all:
  "\<forall>(k, v) \<in> set al. Q k v \<Longrightarrow> Q k v \<Longrightarrow> \<forall>(k, v) \<in> set (AList.update k v al). Q k v"
  by (induction al) auto

lemma alist_delete_all: "\<forall>(k, v) \<in> set al. Q k v \<Longrightarrow> \<forall>(k, v) \<in> set (AList.delete x al). Q k v"
  by (auto simp: AList.delete_eq)

lemma alist_update_same: "map_of al k = Some v \<Longrightarrow> AList.update k v al = al"
  by (induction al) (auto split: if_splits)

lemma topics_update:
  "topics_ok ts \<Longrightarrow> qds \<noteq> [] \<Longrightarrow> distinct (map qd_BrokerName qds) \<Longrightarrow> topics_ok (AList.update t qds ts)"
  using alist_update_all [of ts "\<lambda>t qds. qds \<noteq> [] \<and> distinct (map qd_BrokerName qds)" t qds]
  by (auto simp: topics_ok_def distinct_update)

lemma topics_delete: "topics_ok ts \<Longrightarrow> topics_ok (AList.delete t ts)"
  using alist_delete_all [of ts "\<lambda>t qds. qds \<noteq> [] \<and> distinct (map qd_BrokerName qds)" t]
  by (auto simp: topics_ok_def distinct_delete)

lemma brokers_update:
  "brokers_ok bs \<Longrightarrow> bd_BrokerName bd = bn \<Longrightarrow> bd_BrokerAddrs bd \<noteq> [] \<Longrightarrow> distinct (map fst (bd_BrokerAddrs bd)) \<Longrightarrow>
   brokers_ok (AList.update bn bd bs)"
  using alist_update_all [of bs "\<lambda>bn bd. bd_BrokerName bd = bn \<and> bd_BrokerAddrs bd \<noteq> [] \<and> distinct (map fst (bd_BrokerAddrs bd))" bn bd]
  by (auto simp: brokers_ok_def distinct_update)

lemma brokers_delete: "brokers_ok bs \<Longrightarrow> brokers_ok (AList.delete bn bs)"
  using alist_delete_all [of bs "\<lambda>bn bd. bd_BrokerName bd = bn \<and> bd_BrokerAddrs bd \<noteq> [] \<and> distinct (map fst (bd_BrokerAddrs bd))" bn]
  by (auto simp: brokers_ok_def distinct_delete)

lemma topics_at: "topics_ok ts \<Longrightarrow> map_of ts t = Some qds \<Longrightarrow> qds \<noteq> [] \<and> distinct (map qd_BrokerName qds)"
  by (auto simp: topics_ok_def dest!: map_of_SomeD)

lemma brokers_at:
  "brokers_ok bs \<Longrightarrow> map_of bs bn = Some bd \<Longrightarrow> bd_BrokerName bd = bn \<and> bd_BrokerAddrs bd \<noteq> [] \<and> distinct (map fst (bd_BrokerAddrs bd))"
  by (auto simp: brokers_ok_def dest!: map_of_SomeD)

subsection \<open>What one configuration does to the table of topics\<close>

text \<open>The queues of a topic with those of a broker replaced.\<close>

definition set_queue :: "QueueData \<Rightarrow> QueueData list option \<Rightarrow> QueueData list" where
  "set_queue qd old =
     (case old of
        None \<Rightarrow> [qd]
      | Some qds \<Rightarrow> if qd \<in> set qds then qds else filter (\<lambda>q. qd_BrokerName q \<noteq> qd_BrokerName qd) qds @ [qd])"

lemma createAndUpdate_eq:
  fixes self :: "'s RouteInfoManager" and tc brokerName
  defines "topic \<equiv> TrimSpace (tc_TopicName tc)" and "qd \<equiv> NewQueueData brokerName tc"
  assumes "topics_ok (TopicQueueTable self)" and "topic \<noteq> []"
  shows "RouteInfoManager_createAndUpdateQueueData brokerName tc self =
     self\<lparr>TopicQueueTable := AList.update topic (set_queue qd (map_of (TopicQueueTable self) topic)) (TopicQueueTable self)\<rparr>"
proof (cases "map_of (TopicQueueTable self) topic")
  case None
  then show ?thesis
    using assms(4) by (simp add: RouteInfoManager_createAndUpdateQueueData_def set_queue_def Let_def topic_def qd_def)
next
  case (Some qds)
  have name: "qd_BrokerName qd = brokerName" by (simp add: qd_def NewQueueData_def)
  have dist: "distinct (map qd_BrokerName qds)" using topics_at [OF assms(3) Some] by simp
  let ?hit = "\<lambda>q. qd_BrokerName q = brokerName \<and> \<not> QueueData_Equals qd (Some q)"
  have eq: "QueueData_Equals qd (Some q) \<longleftrightarrow> qd = q" if "qd_BrokerName q = brokerName" for q
    using QueueData_Equals_eq [of qd q] that name by simp
  obtain seen where sd: "slice_delete ?hit qds = (False, filter (\<lambda>q. \<not> ?hit q) qds, seen)" "set seen \<subseteq> set qds"
      "(\<forall>q \<in> set qds. \<not> ?hit q) \<longrightarrow> seen = qds"
    using slice_delete_filter [OF dist, of ?hit brokerName] by auto
  have new: "list_all (\<lambda>q. \<not> (qd_BrokerName q = brokerName \<and> QueueData_Equals qd (Some q))) seen \<longleftrightarrow> qd \<notin> set qds"
  proof (cases "qd \<in> set qds")
    case True
    have "q = qd" if "q \<in> set qds" "qd_BrokerName q = brokerName" for q
      using dist True that name by (metis distinct_map inj_on_def)
    then have "\<forall>q \<in> set qds. \<not> ?hit q" using eq by blast
    then have "seen = qds" using sd(3) by blast
    then show ?thesis using True eq name by (auto simp: list_all_iff)
  next
    case False
    then show ?thesis using sd(2) eq by (auto simp: list_all_iff)
  qed
  have "filter (\<lambda>q. \<not> ?hit q) qds = (if qd \<in> set qds then qds else filter (\<lambda>q. qd_BrokerName q \<noteq> brokerName) qds)"
  proof (cases "qd \<in> set qds")
    case True
    have "q = qd" if "q \<in> set qds" "qd_BrokerName q = brokerName" for q
      using dist True that name by (metis distinct_map inj_on_def)
    then have "\<not> ?hit q" if "q \<in> set qds" for q using that eq by blast
    then show ?thesis using True by (simp add: filter_id_conv)
  next
    case False
    then show ?thesis using eq by (auto intro!: filter_cong)
  qed
  moreover have "AList.update topic qds (TopicQueueTable self) = TopicQueueTable self" using Some by (rule alist_update_same)
  ultimately show ?thesis
    using Some sd(1) new assms(4) name
    by (simp add: RouteInfoManager_createAndUpdateQueueData_def set_queue_def Let_def flip: topic_def qd_def)
qed

lemma filter_one:
  assumes "distinct (map f xs)" and "x \<in> set xs" and "f x = v"
  shows "filter (\<lambda>y. f y = v) xs = [x]"
  using assms
proof (induction xs)
  case (Cons y xs)
  then show ?case
  proof (cases "f y = v")
    case True
    then have "y = x" using Cons.prems by (auto simp: image_iff)
    moreover have "filter (\<lambda>y. f y = v) xs = []" using Cons.prems(1) True
      by (simp add: filter_empty_conv) (metis image_eqI)
    ultimately show ?thesis using True by simp
  qed auto
qed simp

lemma set_queue_ok:
  assumes "\<forall>qds. old = Some qds \<longrightarrow> qds \<noteq> [] \<and> distinct (map qd_BrokerName qds)"
  shows "set_queue qd old \<noteq> [] \<and> distinct (map qd_BrokerName (set_queue qd old)) \<and> qd \<in> set (set_queue qd old)"
  using assms by (auto simp: set_queue_def distinct_map_filter split: option.splits)

lemma createAndUpdate_inv:
  assumes "topics_ok (TopicQueueTable self)"
  shows "topics_ok (TopicQueueTable (RouteInfoManager_createAndUpdateQueueData brokerName tc self))"
proof (cases "TrimSpace (tc_TopicName tc) = []")
  case True
  then show ?thesis using assms by (simp add: RouteInfoManager_createAndUpdateQueueData_def)
next
  case False
  have "\<forall>qds. map_of (TopicQueueTable self) (TrimSpace (tc_TopicName tc)) = Some qds \<longrightarrow> qds \<noteq> [] \<and> distinct (map qd_BrokerName qds)"
    using topics_at [OF assms] by blast
  from set_queue_ok [OF this] show ?thesis
    using createAndUpdate_eq [OF assms False] assms by (simp add: topics_update)
qed

lemma update_topics_inv:
  assumes "topics_ok (TopicQueueTable self)"
  shows "topics_ok (TopicQueueTable (fold (\<lambda>(topic, tc). RouteInfoManager_createAndUpdateQueueData brokerName tc) tcs self))"
  using assms by (induction tcs arbitrary: self) (auto simp: createAndUpdate_inv)

text \<open>Registration as an update of the tables: the guard on the data version is always passed.\<close>

definition register_topics :: "string \<Rightarrow> int \<Rightarrow> TopicConfigSerializeWrapper option \<Rightarrow> 's RouteInfoManager \<Rightarrow> 's RouteInfoManager" where
  "register_topics brokerName brokerId w self =
     (case w of
        None \<Rightarrow> self
      | Some w \<Rightarrow>
          (case w_TopicConfigTable w of
             None \<Rightarrow> self
           | Some tcs \<Rightarrow> if brokerId = MASTER_ID
                          then fold (\<lambda>(topic, tc). RouteInfoManager_createAndUpdateQueueData brokerName tc) tcs self else self))"

definition register_broker :: "string \<Rightarrow> string \<Rightarrow> int \<Rightarrow> (string \<times> BrokerData) list \<Rightarrow> (string \<times> BrokerData) list" where
  "register_broker brokerAddr brokerName brokerId bs =
     (let bd = (case map_of bs brokerName of None \<Rightarrow> NewBrokerData brokerName | Some d \<Rightarrow> d)
      in AList.update brokerName (bd\<lparr>bd_BrokerAddrs := AList.update brokerId brokerAddr (bd_BrokerAddrs bd)\<rparr>) bs)"

lemma create_frame:
  "BrokerAddrTable (RouteInfoManager_createAndUpdateQueueData brokerName tc self) = BrokerAddrTable self"
  "TopicQueueTable self = TopicQueueTable self2 \<Longrightarrow>
   TopicQueueTable (RouteInfoManager_createAndUpdateQueueData brokerName tc self) =
   TopicQueueTable (RouteInfoManager_createAndUpdateQueueData brokerName tc self2)"
  by (simp_all add: RouteInfoManager_createAndUpdateQueueData_def Let_def split: option.split prod.split)

lemma fold_create_frame:
  "BrokerAddrTable (fold (\<lambda>(topic, tc). RouteInfoManager_createAndUpdateQueueData brokerName tc) tcs self) = BrokerAddrTable self"
  "TopicQueueTable self = TopicQueueTable self2 \<Longrightarrow>
   TopicQueueTable (fold (\<lambda>(topic, tc). RouteInfoManager_createAndUpdateQueueData brokerName tc) tcs self) =
   TopicQueueTable (fold (\<lambda>(topic, tc). RouteInfoManager_createAndUpdateQueueData brokerName tc) tcs self2)"
proof (induction tcs arbitrary: self self2)
  case (Cons x tcs)
  { case 1
    show ?case using Cons(1) by (cases x) (simp add: create_frame(1)) }
  { case 2
    show ?case using Cons(2) [OF create_frame(2) [OF 2]] by (cases x) simp }
qed simp_all

lemma register_tables:
  fixes self :: "'a RouteInfoManager"
  shows
  "BrokerAddrTable (snd (RouteInfoManager_registerBroker S now c a b i ha w fs ctx self)) = register_broker a b i (BrokerAddrTable self)"
  "TopicQueueTable (snd (RouteInfoManager_registerBroker S now c a b i ha w fs ctx self)) = TopicQueueTable (register_topics b i w self)"
proof -
  have first: "(\<exists>y. oldAddr = Some y) \<or> (case oldAddr of None \<Rightarrow> [] | Some a \<Rightarrow> a) = []" for oldAddr :: "string option"
    by (cases oldAddr) auto
  have topics: "reg_topics a b i True w m = register_topics b i w m" for m :: "'a RouteInfoManager"
    by (auto simp: reg_topics_def register_topics_def split: option.split)
  have frames: "BrokerAddrTable (reg_filter a fs m) = BrokerAddrTable m" "TopicQueueTable (reg_filter a fs m) = TopicQueueTable m"
      "BrokerAddrTable (reg_live now a ha w ctx m) = BrokerAddrTable m" "TopicQueueTable (reg_live now a ha w ctx m) = TopicQueueTable m"
      "BrokerAddrTable (register_topics b i w m) = BrokerAddrTable m" for m :: "'a RouteInfoManager"
    by (simp_all add: reg_filter_def reg_live_def register_topics_def fold_create_frame(1) split: option.split list.split)
  show "BrokerAddrTable (snd (RouteInfoManager_registerBroker S now c a b i ha w fs ctx self)) = register_broker a b i (BrokerAddrTable self)"
    by (simp add: RouteInfoManager_registerBroker_def Let_def first topics frames register_broker_def)
  have same: "TopicQueueTable (register_topics b i w m) = TopicQueueTable (register_topics b i w self)"
    if "TopicQueueTable m = TopicQueueTable self" for m
    using that by (auto simp: register_topics_def intro!: fold_create_frame(2) split: option.split)
  show "TopicQueueTable (snd (RouteInfoManager_registerBroker S now c a b i ha w fs ctx self)) = TopicQueueTable (register_topics b i w self)"
    by (simp add: RouteInfoManager_registerBroker_def Let_def first topics frames) (rule same, simp)
qed

lemma register_broker_ok: "brokers_ok bs \<Longrightarrow> brokers_ok (register_broker a b i bs)"
proof -
  assume ok: "brokers_ok bs"
  have "AList.update i a xs \<noteq> []" for xs :: "(int \<times> string) list" by (cases xs) auto
  then show ?thesis
    using brokers_at [OF ok, of b]
    by (auto simp: register_broker_def Let_def NewBrokerData_def distinct_update intro!: brokers_update ok split: option.split)
qed

lemma register_inv: "route_inv self \<Longrightarrow> route_inv (snd (RouteInfoManager_registerBroker S now c a b i ha w fs ctx self))"
  using update_topics_inv [of self b]
  by (auto simp: route_inv_def register_tables register_broker_ok register_topics_def split: option.split)

subsection \<open>Removing a broker from the topics\<close>

lemma remove_topics_eq:
  assumes "topics_ok ts" and "\<And>q. hit q \<Longrightarrow> qd_BrokerName q = name"
  shows "remove_topics hit ts = (False, filter (\<lambda>(t, qds). qds \<noteq> []) (map (apsnd (filter (\<lambda>q. \<not> hit q))) ts))"
  using assms(1)
proof (induction ts)
  case (Cons x ts)
  obtain t qds where x: "x = (t, qds)" by fastforce
  have "topics_ok ts" "distinct (map qd_BrokerName qds)" using Cons.prems by (auto simp: topics_ok_def x)
  moreover obtain seen where "slice_delete hit qds = (False, filter (\<lambda>q. \<not> hit q) qds, seen)"
    using slice_delete_filter [OF \<open>distinct (map qd_BrokerName qds)\<close> assms(2)] by blast
  ultimately show ?case using Cons.IH by (simp add: x)
qed simp

lemma remove_topics_ok:
  assumes "topics_ok ts"
  shows "topics_ok (filter (\<lambda>(t, qds). qds \<noteq> []) (map (apsnd (filter P)) ts))"
  using assms by (induction ts) (auto simp: topics_ok_def distinct_map_filter image_iff)

lemma remove_topics_at:
  assumes "distinct (map fst ts)"
  shows "map_of (filter (\<lambda>(t, qds). qds \<noteq> []) (map (apsnd (filter P)) ts)) t =
     (case map_of ts t of None \<Rightarrow> None | Some qds \<Rightarrow> if filter P qds = [] then None else Some (filter P qds))"
  using assms
proof (induction ts)
  case (Cons x ts)
  obtain u qds where x: "x = (u, qds)" by fastforce
  have "map_of ts u = None" using Cons.prems by (simp add: x map_of_eq_None_iff)
  then show ?case using Cons by (auto simp: x split: option.splits)
qed simp

lemma unregister_inv: "route_inv self \<Longrightarrow> route_inv (RouteInfoManager_unRegisterBroker S c a b i self)"
proof -
  assume inv: "route_inv self"
  then have ok: "topics_ok (TopicQueueTable self)" "brokers_ok (BrokerAddrTable self)" by (simp_all add: route_inv_def)
  have rm: "topics_ok (snd (remove_topics (\<lambda>q. qd_BrokerName q = b) (TopicQueueTable self)))"
    using remove_topics_eq [OF ok(1), of "\<lambda>q. qd_BrokerName q = b" b] remove_topics_ok [OF ok(1)] by simp
  show ?thesis
  proof (cases "map_of (BrokerAddrTable self) b")
    case None
    then show ?thesis using ok by (simp add: RouteInfoManager_unRegisterBroker_def route_inv_def Let_def)
  next
    case (Some bd)
    then show ?thesis
      using ok rm brokers_at [OF ok(2) Some]
      by (auto simp: RouteInfoManager_unRegisterBroker_def RouteInfoManager_removeTopicByBrokerName_def route_inv_def Let_def
          distinct_delete split: option.split intro!: brokers_update brokers_delete)
  qed
qed

lemma delete_addr_keys:
  "delete_addr addr as = (found, bs) \<Longrightarrow> distinct (map fst as) \<Longrightarrow> distinct (map fst bs) \<and> fst ` set bs \<subseteq> fst ` set as"
proof (induction as arbitrary: found bs)
  case (Cons x as)
  obtain i c where x: "x = (i, c)" by fastforce
  obtain f r where d: "delete_addr addr as = (f, r)" by fastforce
  have "distinct (map fst r) \<and> fst ` set r \<subseteq> fst ` set as" using Cons.IH [OF d] Cons.prems(2) by simp
  moreover have "bs = (if c = addr then as else (i, c) # r)" using Cons.prems(1) d by (auto simp: x)
  moreover have "i \<notin> fst ` set as" "distinct (map fst as)" using Cons.prems(2) by (simp_all add: x)
  ultimately show ?case by (simp add: x) blast
qed simp

lemma destroy_addrs_ok:
  "brokers_ok bs \<Longrightarrow> destroy_addrs addr name rm bs = (bs1, name1, rm1) \<Longrightarrow> brokers_ok bs1 \<and> fst ` set bs1 \<subseteq> fst ` set bs"
proof (induction bs arbitrary: name rm bs1 name1 rm1)
  case (Cons x bs)
  obtain bn bd where x: "x = (bn, bd)" by fastforce
  obtain found addrs where d: "delete_addr addr (bd_BrokerAddrs bd) = (found, addrs)" by fastforce
  have ok: "brokers_ok bs" "bn \<notin> fst ` set bs" "bd_BrokerName bd = bn" "distinct (map fst (bd_BrokerAddrs bd))"
    using Cons.prems(1) by (auto simp: brokers_ok_def x)
  note k = delete_addr_keys [OF d ok(4)]
  show ?case
  proof (cases "name = []")
    case True
    obtain bs2 name2 rm2 where r: "destroy_addrs addr (if found then bn else []) (addrs = [] \<or> rm) bs = (bs2, name2, rm2)"
      by (metis prod_cases3)
    note ih = Cons.IH [OF ok(1) r]
    have "bs1 = (if addrs = [] then bs2 else (bn, bd\<lparr>bd_BrokerAddrs := addrs\<rparr>) # bs2)"
      using Cons.prems(2) True d r ok(3) by (auto simp: x Let_def split: if_splits)
    then show ?thesis using ih ok k by (auto simp: brokers_ok_def x)
  next
    case False
    then show ?thesis using Cons.prems by (auto simp: x)
  qed
qed (simp add: brokers_ok_def)

lemma destroy_inv:
  assumes "route_inv self"
  shows "\<exists>self1. RouteInfoManager_onChannelDestroy S addr ctx self = Some self1 \<and> route_inv self1"
proof -
  have ok: "topics_ok (TopicQueueTable self)" "brokers_ok (BrokerAddrTable self)" using assms by (simp_all add: route_inv_def)
  define found where "found = (case ctx of None \<Rightarrow> [] | Some c \<Rightarrow> filter (\<lambda>(k, live). bli_Context live = c) (BrokerLiveTable self))"
  define a where "a = (if found = [] then addr else fst (last found))"
  obtain bs name rm where d: "destroy_addrs a [] False (BrokerAddrTable self) = (bs, name, rm)" by (metis prod_cases3)
  have "brokers_ok bs" using destroy_addrs_ok [OF ok(2) d] by simp
  then show ?thesis
    using ok remove_topics_eq [OF ok(1), of "\<lambda>q. qd_BrokerName q = a" a] remove_topics_ok [OF ok(1)] d assms
    by (auto simp: RouteInfoManager_onChannelDestroy_def route_inv_def Let_def simp flip: found_def a_def)
qed

lemma scan_inv: "route_inv self \<Longrightarrow> \<exists>self1. scan_loop S t lives self = Some self1 \<and> route_inv self1"
proof (induction lives arbitrary: self)
  case (Cons x lives)
  obtain addr info where x: "x = (addr, info)" by fastforce
  have "route_inv (self\<lparr>BrokerLiveTable := AList.delete addr (BrokerLiveTable self)\<rparr>)" using Cons.prems by (simp add: route_inv_def)
  from destroy_inv [OF this, of S addr "Some (bli_Context info)"] show ?case using Cons by (auto simp: x)
qed simp

lemma wipe_inv: "route_inv self \<Longrightarrow> route_inv (snd (RouteInfoManager_wipeWritePermOfBroker b self))"
proof -
  assume inv: "route_inv self"
  have n: "qd_BrokerName (wipe_queue b q) = qd_BrokerName q" for q by (simp add: wipe_queue_def)
  have "topics_ok ts \<Longrightarrow> topics_ok (map (apsnd (map (wipe_queue b))) ts)" for ts
    by (induction ts) (auto simp: topics_ok_def comp_def n)
  then show ?thesis using inv by (simp add: route_inv_def RouteInfoManager_wipeWritePermOfBroker_def)
qed

text \<open>The states a registry can reach by any sequence of requests, lost connections and scans.\<close>

inductive registry_reach :: "(string, 's) set_ops \<Rightarrow> 's RouteInfoManager \<Rightarrow> bool" for S where
  start: "registry_reach S NewRouteInfoManager"
| register: "registry_reach S self \<Longrightarrow> registry_reach S (snd (RouteInfoManager_registerBroker S now c a b i ha w fs ctx self))"
| unregister: "registry_reach S self \<Longrightarrow> registry_reach S (RouteInfoManager_unRegisterBroker S c a b i self)"
| destroy: "registry_reach S self \<Longrightarrow> RouteInfoManager_onChannelDestroy S addr conn self = Some self1 \<Longrightarrow> registry_reach S self1"
| scan: "registry_reach S self \<Longrightarrow> RouteInfoManager_scanNotActiveBroker S t self = Some self1 \<Longrightarrow> registry_reach S self1"
| wipe: "registry_reach S self \<Longrightarrow> registry_reach S (snd (RouteInfoManager_wipeWritePermOfBroker b self))"
| delete: "registry_reach S self \<Longrightarrow> registry_reach S (RouteInfoManager_deleteTopic topic self)"

lemma reach_route_inv: "registry_reach S self \<Longrightarrow> route_inv self"
proof (induction rule: registry_reach.induct)
  case (destroy self addr conn self1)
  then show ?case using destroy_inv [of self S addr conn] by auto
next
  case (scan self t self1)
  then show ?case using scan_inv [of self S t "BrokerLiveTable self"] by (auto simp: RouteInfoManager_scanNotActiveBroker_def)
next
  case (delete self topic)
  then show ?case by (simp add: route_inv_def RouteInfoManager_deleteTopic_def topics_delete)
qed (simp_all add: register_inv unregister_inv wipe_inv, simp add: route_inv_def NewRouteInfoManager_def topics_ok_def brokers_ok_def)

text \<open>
  Whatever brokers register, leave, are lost or found dead in between,
  each topic has queues and at most one entry for a broker, each broker has an address, and the next lost
  connection or scan runs to its end, so that the lock of the manager is free again.
\<close>

lemma registry_invariant:
  assumes "registry_reach S self"
  shows "(\<forall>(topic, qds) \<in> set (TopicQueueTable self). qds \<noteq> [] \<and> distinct (map qd_BrokerName qds)) \<and>
     (\<forall>(bn, bd) \<in> set (BrokerAddrTable self). bd_BrokerName bd = bn \<and> bd_BrokerAddrs bd \<noteq> []) \<and>
     distinct (map fst (TopicQueueTable self)) \<and> distinct (map fst (BrokerAddrTable self)) \<and>
     RouteInfoManager_onChannelDestroy S addr ctx self \<noteq> None \<and> RouteInfoManager_scanNotActiveBroker S t self \<noteq> None"
proof -
  note inv = reach_route_inv [OF assms]
  have "RouteInfoManager_scanNotActiveBroker S t self \<noteq> None"
    using scan_inv [OF inv, of S t "BrokerLiveTable self"] by (auto simp: RouteInfoManager_scanNotActiveBroker_def)
  moreover have "RouteInfoManager_onChannelDestroy S addr ctx self \<noteq> None" using destroy_inv [OF inv, of S addr ctx] by auto
  ultimately show ?thesis using inv by (auto simp: route_inv_def topics_ok_def brokers_ok_def)
qed

section \<open>Routes\<close>

lemma set_map_filter: "set (List.map_filter f xs) = {y. \<exists>x \<in> set xs. f x = Some y}"
  by (induction xs) (auto simp: map_filter_simps split: option.splits)

lemma pickup_brokers_eq:
  "fst (pickup_brokers self names bl fm) = bl @ map BrokerData_CloneBrokerData (List.map_filter (map_of (BrokerAddrTable self)) names)"
  by (induction names arbitrary: bl fm) (auto simp: map_filter_simps Let_def split: option.splits)

text \<open>The route of a topic: its queues, and a copy of the data of each of its brokers that is registered.\<close>

lemma pickup_eq:
  assumes "set_laws S" and "map_of (TopicQueueTable self) topic = Some qds"
    and "qd \<in> set qds" and "map_of (BrokerAddrTable self) (qd_BrokerName qd) = Some bd"
  shows "\<exists>route. RouteInfoManager_pickupTopicRouteData S topic self = Some route \<and> QueueDatas route = qds \<and>
     (\<forall>x. x \<in> set (BrokerDatas route) \<longleftrightarrow>
        (\<exists>bn d. bn \<in> qd_BrokerName ` set qds \<and> map_of (BrokerAddrTable self) bn = Some d \<and> x = BrokerData_CloneBrokerData d))"
proof -
  let ?names = "sIter S (fold (\<lambda>qd. sAdd S (qd_BrokerName qd)) qds (sNew S))"
  have names: "set ?names = qd_BrokerName ` set qds"
    using fold_sAdd [OF assms(1), of qd_BrokerName qds "sNew S"] assms(1) by (simp add: set_laws_def)
  obtain bl fm where p: "pickup_brokers self ?names [] [] = (bl, fm)" by fastforce
  have bl: "bl = map BrokerData_CloneBrokerData (List.map_filter (map_of (BrokerAddrTable self)) ?names)"
    using pickup_brokers_eq [of self ?names "[]" "[]"] p by simp
  then have set_bl: "x \<in> set bl \<longleftrightarrow>
      (\<exists>bn d. bn \<in> qd_BrokerName ` set qds \<and> map_of (BrokerAddrTable self) bn = Some d \<and> x = BrokerData_CloneBrokerData d)" for x
    unfolding bl set_map set_map_filter names by blast
  then have "BrokerData_CloneBrokerData bd \<in> set bl" using assms(3,4) by blast
  then have "bl \<noteq> []" by auto
  then show ?thesis using assms(2) p set_bl by (simp add: RouteInfoManager_pickupTopicRouteData_def)
qed

lemma create_at:
  assumes "topics_ok (TopicQueueTable self)" and "topic \<noteq> []"
  shows "map_of (TopicQueueTable (RouteInfoManager_createAndUpdateQueueData b tc self)) topic =
     (if TrimSpace (tc_TopicName tc) = topic then Some (set_queue (NewQueueData b tc) (map_of (TopicQueueTable self) topic))
      else map_of (TopicQueueTable self) topic)"
proof (cases "TrimSpace (tc_TopicName tc) = []")
  case True
  then show ?thesis using assms(2) by (simp add: RouteInfoManager_createAndUpdateQueueData_def)
next
  case False
  then show ?thesis using createAndUpdate_eq [OF assms(1) False, of b] by (auto simp: update_conv')
qed

lemma set_queue_again: "set_queue qd (Some (set_queue qd old)) = set_queue qd old"
  by (auto simp: set_queue_def split: option.splits)

lemma fold_create_at:
  assumes "topics_ok (TopicQueueTable self)" and "topic \<noteq> []"
    and "\<forall>(k, tc1) \<in> set tcs. TrimSpace (tc_TopicName tc1) = topic \<longrightarrow> tc1 = tc"
  shows "map_of (TopicQueueTable (fold (\<lambda>(t, tc). RouteInfoManager_createAndUpdateQueueData b tc) tcs self)) topic =
     (if \<exists>(k, tc1) \<in> set tcs. TrimSpace (tc_TopicName tc1) = topic
      then Some (set_queue (NewQueueData b tc) (map_of (TopicQueueTable self) topic)) else map_of (TopicQueueTable self) topic)"
  using assms(1,3)
proof (induction tcs arbitrary: self)
  case (Cons x tcs)
  obtain k tc1 where x: "x = (k, tc1)" by fastforce
  let ?self = "RouteInfoManager_createAndUpdateQueueData b tc1 self"
  have ok: "topics_ok (TopicQueueTable ?self)" using Cons.prems(1) by (rule createAndUpdate_inv)
  have "TrimSpace (tc_TopicName tc1) = topic \<Longrightarrow> tc1 = tc" using Cons.prems(2) by (auto simp: x)
  then show ?case
    using Cons.IH [OF ok] Cons.prems create_at [OF Cons.prems(1) assms(2), of b tc1] by (auto simp: x set_queue_again)
qed simp

text \<open>
  After a master has registered with a topic, the route of the topic
  has exactly one entry for the broker, with the numbers and the permission of its configuration, the
  entries of the other brokers are those of before, and the route names the master's address.
\<close>

lemma register_then_route:
  assumes "registry_reach S self" and "set_laws S"
    and "w_TopicConfigTable w = Some tcs" and "(k, tc) \<in> set tcs" and "topic = TrimSpace (tc_TopicName tc)" and "topic \<noteq> []"
    and "\<forall>(k, tc1) \<in> set tcs. TrimSpace (tc_TopicName tc1) = topic \<longrightarrow> tc1 = tc"
  shows "\<exists>res self1 route bd. RouteInfoManager_registerBroker S now c addr b MASTER_ID ha (Some w) fs ctx self = (res, self1) \<and>
     RouteInfoManager_pickupTopicRouteData S topic self1 = Some route \<and>
     filter (\<lambda>qd. qd_BrokerName qd = b) (QueueDatas route) = [NewQueueData b tc] \<and>
     filter (\<lambda>qd. qd_BrokerName qd \<noteq> b) (QueueDatas route) =
       filter (\<lambda>qd. qd_BrokerName qd \<noteq> b) (case map_of (TopicQueueTable self) topic of None \<Rightarrow> [] | Some qds \<Rightarrow> qds) \<and>
     bd \<in> set (BrokerDatas route) \<and> bd_BrokerName bd = b \<and> map_of (bd_BrokerAddrs bd) MASTER_ID = Some addr"
proof -
  note inv = reach_route_inv [OF assms(1)]
  then have ok: "topics_ok (TopicQueueTable self)" by (simp add: route_inv_def)
  obtain res self1 where r: "RouteInfoManager_registerBroker S now c addr b MASTER_ID ha (Some w) fs ctx self = (res, self1)" by fastforce
  note t = register_tables [of S now c addr b MASTER_ID ha "Some w" fs ctx self, unfolded r snd_conv]
  let ?old = "map_of (TopicQueueTable self) topic" and ?qd = "NewQueueData b tc"
  let ?qds = "set_queue ?qd ?old"
  have name: "qd_BrokerName ?qd = b" by (simp add: NewQueueData_def)
  have at: "map_of (TopicQueueTable self1) topic = Some ?qds"
    using fold_create_at [OF ok assms(6,7), of b] assms(3-5) t(2) by (auto simp: register_topics_def)
  have old: "\<forall>qds. ?old = Some qds \<longrightarrow> qds \<noteq> [] \<and> distinct (map qd_BrokerName qds)" using topics_at [OF ok] by blast
  note q = set_queue_ok [OF old, of ?qd]
  have "brokers_ok (BrokerAddrTable self1)" using register_inv [OF inv, of S now c addr b MASTER_ID ha "Some w" fs ctx] r by (simp add: route_inv_def)
  moreover obtain bd where bd: "map_of (BrokerAddrTable self1) b = Some bd" "map_of (bd_BrokerAddrs bd) MASTER_ID = Some addr"
    using t(1) by (simp add: register_broker_def Let_def update_conv')
  ultimately have bdok: "bd_BrokerName bd = b" "distinct (map fst (bd_BrokerAddrs bd))" using brokers_at by blast+
  obtain route where route: "RouteInfoManager_pickupTopicRouteData S topic self1 = Some route" "QueueDatas route = ?qds"
      "BrokerData_CloneBrokerData bd \<in> set (BrokerDatas route)"
    using pickup_eq [OF assms(2) at, of ?qd bd] q bd(1) name by (metis image_eqI)
  have "filter (\<lambda>qd. qd_BrokerName qd = b) ?qds = [?qd]"
    using q name by (intro filter_one) auto
  moreover have "filter (\<lambda>qd. qd_BrokerName qd \<noteq> b) ?qds = filter (\<lambda>qd. qd_BrokerName qd \<noteq> b) (case ?old of None \<Rightarrow> [] | Some qds \<Rightarrow> qds)"
    using name by (auto simp: set_queue_def split: option.split)
  moreover have "map_of (bd_BrokerAddrs (BrokerData_CloneBrokerData bd)) MASTER_ID = Some addr" using clone_addrs [OF bdok(2)] bd(2) by simp
  moreover have "bd_BrokerName (BrokerData_CloneBrokerData bd) = b" using bdok(1) by (simp add: BrokerData_CloneBrokerData_def)
  ultimately show ?thesis using r route by auto
qed

text \<open>
  C28 (a broker that leaves is gone). When a broker unregisters its last address, it is in no table
  of topics any more: every topic keeps exactly the entries of the other brokers, and a topic that had
  no other is deleted.
\<close>

theorem unregister_removes_routes:
  assumes "registry_reach S self" and "map_of (BrokerAddrTable self) b = Some bd" and "map fst (bd_BrokerAddrs bd) = [i]"
  shows "\<exists>self1. RouteInfoManager_unRegisterBroker S c addr b i self = self1 \<and> map_of (BrokerAddrTable self1) b = None \<and>
     (\<forall>topic. map_of (TopicQueueTable self1) topic =
        (case map_of (TopicQueueTable self) topic of
           None \<Rightarrow> None
         | Some qds \<Rightarrow> if filter (\<lambda>qd. qd_BrokerName qd \<noteq> b) qds = [] then None else Some (filter (\<lambda>qd. qd_BrokerName qd \<noteq> b) qds)))"
proof -
  have ok: "topics_ok (TopicQueueTable self)" using reach_route_inv [OF assms(1)] by (simp add: route_inv_def)
  have "AList.delete i (bd_BrokerAddrs bd) = []" using assms(3) by (auto simp: AList.delete_eq filter_empty_conv)
  then have t: "BrokerAddrTable (RouteInfoManager_unRegisterBroker S c addr b i self) = AList.delete b (BrokerAddrTable self)"
      "TopicQueueTable (RouteInfoManager_unRegisterBroker S c addr b i self) =
         snd (remove_topics (\<lambda>q. qd_BrokerName q = b) (TopicQueueTable self))"
    using assms(2)
    by (simp_all add: RouteInfoManager_unRegisterBroker_def RouteInfoManager_removeTopicByBrokerName_def Let_def split: option.split)
  show ?thesis
    using remove_topics_eq [OF ok, of "\<lambda>q. qd_BrokerName q = b" b] ok
    by (simp add: t remove_topics_at topics_ok_def delete_conv')
qed

text \<open>An address that no broker has changes nothing in the address table.\<close>

lemma delete_addr_none: "addr \<notin> snd ` set as \<Longrightarrow> delete_addr addr as = (False, as)"
  by (induction as) auto

lemma destroy_addrs_one:
  assumes "brokers_ok bs" and "map_of bs b = Some bd" and "bd_BrokerAddrs bd = [(i, addr)]" and "b \<noteq> []"
    and "\<forall>(bn, d) \<in> set bs. bn \<noteq> b \<longrightarrow> addr \<notin> snd ` set (bd_BrokerAddrs d)"
  shows "destroy_addrs addr [] False bs = (AList.delete b bs, b, True)"
  using assms(1,2,5)
proof (induction bs)
  case (Cons x bs)
  obtain bn d where x: "x = (bn, d)" by fastforce
  have ok: "brokers_ok bs" "bn \<notin> fst ` set bs" "bd_BrokerName d = bn" "bd_BrokerAddrs d \<noteq> []"
    using Cons.prems(1) by (auto simp: brokers_ok_def x)
  show ?case
  proof (cases "bn = b")
    case True
    then have "d = bd" using Cons.prems(2) by (simp add: x)
    moreover have "AList.delete b bs = bs" using ok(2) True by (simp add: delete_idem)
    moreover have "destroy_addrs addr b True bs = (bs, b, True)" using assms(4) by (cases bs) auto
    ultimately show ?thesis using True assms(3) ok(3) by (simp add: x Let_def)
  next
    case False
    then have "addr \<notin> snd ` set (bd_BrokerAddrs d)" using Cons.prems(3) by (auto simp: x)
    then show ?thesis using Cons.IH [OF ok(1)] Cons.prems(2,3) False ok(4) by (simp add: x delete_addr_none Let_def)
  qed
qed simp

text \<open>
  When the connection of a broker is lost, the broker leaves
  the table of addresses, but all its queues stay in the routes, because the loop that should remove
  them compares the names of brokers with the lost address: a client of a topic with another broker is
  given queues of a broker whose address is not in the route.
\<close>

lemma lost_broker_stays_in_routes:
  assumes "registry_reach S self" and "set_laws S"
    and "map_of (BrokerAddrTable self) b = Some bd" and "bd_BrokerAddrs bd = [(i, addr)]" and "b \<noteq> []" and "addr \<noteq> []"
    and "\<forall>(bn, d) \<in> set (BrokerAddrTable self). bn \<noteq> b \<longrightarrow> addr \<notin> snd ` set (bd_BrokerAddrs d)"
    and "\<forall>(t, qds) \<in> set (TopicQueueTable self). addr \<notin> qd_BrokerName ` set qds"
    and "map_of (TopicQueueTable self) topic = Some qds" and "q1 \<in> set qds" and "qd_BrokerName q1 = b"
    and "q2 \<in> set qds" and "qd_BrokerName q2 = b2" and "b2 \<noteq> b" and "map_of (BrokerAddrTable self) b2 = Some bd2"
  shows "\<exists>self1 route. RouteInfoManager_onChannelDestroy S addr None self = Some self1 \<and> map_of (BrokerAddrTable self1) b = None \<and>
     TopicQueueTable self1 = TopicQueueTable self \<and> RouteInfoManager_pickupTopicRouteData S topic self1 = Some route \<and>
     q1 \<in> set (QueueDatas route) \<and> b \<notin> bd_BrokerName ` set (BrokerDatas route)"
proof -
  note inv = reach_route_inv [OF assms(1)]
  then have ok: "topics_ok (TopicQueueTable self)" "brokers_ok (BrokerAddrTable self)" by (simp_all add: route_inv_def)
  note d = destroy_addrs_one [OF ok(2) assms(3-5,7)]
  have "filter (\<lambda>q. qd_BrokerName q \<noteq> addr) qs = qs" if "(t, qs) \<in> set (TopicQueueTable self)" for t qs
    using assms(8) that by (intro filter_True) auto
  then have "map (apsnd (filter (\<lambda>q. qd_BrokerName q \<noteq> addr))) (TopicQueueTable self) = TopicQueueTable self"
    by (intro map_idI) auto
  moreover have "filter (\<lambda>(t, qds). qds \<noteq> []) (TopicQueueTable self) = TopicQueueTable self"
    using ok(1) by (intro filter_True) (auto simp: topics_ok_def)
  ultimately have r: "remove_topics (\<lambda>q. qd_BrokerName q = addr) (TopicQueueTable self) = (False, TopicQueueTable self)"
    using remove_topics_eq [OF ok(1), of "\<lambda>q. qd_BrokerName q = addr" addr] by simp
  obtain self1 where s: "RouteInfoManager_onChannelDestroy S addr None self = Some self1"
      "BrokerAddrTable self1 = AList.delete b (BrokerAddrTable self)" "TopicQueueTable self1 = TopicQueueTable self"
    using d r assms(5,6) unfolding RouteInfoManager_onChannelDestroy_def Let_def by simp
  have m: "map_of (BrokerAddrTable self1) = (map_of (BrokerAddrTable self))(b := None)" by (simp add: s(2) delete_conv')
  have at: "map_of (TopicQueueTable self1) topic = Some qds" "map_of (BrokerAddrTable self1) (qd_BrokerName q2) = Some bd2"
    using s(3) m assms(9,13-15) by simp_all
  from pickup_eq [OF assms(2) at(1) assms(12) at(2)] obtain route where
    route: "RouteInfoManager_pickupTopicRouteData S topic self1 = Some route" "QueueDatas route = qds"
      "\<And>x. x \<in> set (BrokerDatas route) \<Longrightarrow> \<exists>bn d. map_of (BrokerAddrTable self1) bn = Some d \<and> x = BrokerData_CloneBrokerData d"
    by metis
  have "bd_BrokerName x \<noteq> b" if x: "x \<in> set (BrokerDatas route)" for x
  proof -
    obtain bn d where "map_of (BrokerAddrTable self1) bn = Some d" "x = BrokerData_CloneBrokerData d" using route(3) [OF x] by blast
    moreover from this have "bn \<noteq> b" by (auto simp: m)
    ultimately have "map_of (BrokerAddrTable self) bn = Some d" "bd_BrokerName x = bd_BrokerName d"
      by (simp_all add: m BrokerData_CloneBrokerData_def)
    with \<open>bn \<noteq> b\<close> brokers_at [OF ok(2) this(1)] show ?thesis by simp
  qed
  then have "b \<notin> bd_BrokerName ` set (BrokerDatas route)" by blast
  moreover have "map_of (BrokerAddrTable self1) b = None" by (simp add: m)
  ultimately show ?thesis using s(1,3) route(1,2) assms(10) by blast
qed

section \<open>A run of the registry\<close>

definition example_wrapper :: TopicConfigSerializeWrapper where
  "example_wrapper = \<lparr>w_TopicConfigTable = Some [(''t'', NewTopicConfig ''t'')], w_DataVersion = None\<rparr>"

definition example_registry :: "string list RouteInfoManager" where
  "example_registry =
     snd (RouteInfoManager_registerBroker list_set 5 ''c'' ''a2:1'' ''b2'' MASTER_ID ''ha'' (Some example_wrapper) None ''a2:9''
       (snd (RouteInfoManager_registerBroker list_set 4 ''c'' ''a1:1'' ''b1'' MASTER_ID ''ha'' (Some example_wrapper) None ''a1:9''
          NewRouteInfoManager)))"

lemma example_reach: "registry_reach list_set example_registry"
  unfolding example_registry_def by (intro registry_reach.intros)

lemma example_tables:
  "BrokerAddrTable example_registry = [(''b1'', \<lparr>bd_BrokerName = ''b1'', bd_BrokerAddrs = [(0, ''a1:1'')]\<rparr>),
     (''b2'', \<lparr>bd_BrokerName = ''b2'', bd_BrokerAddrs = [(0, ''a2:1'')]\<rparr>)]"
  "TopicQueueTable example_registry = [(''t'', map (\<lambda>b. NewQueueData b (NewTopicConfig ''t'')) [''b1'', ''b2''])]"
  by (simp_all add: example_registry_def register_tables register_topics_def example_wrapper_def register_broker_def
      NewRouteInfoManager_def NewBrokerData_def MASTER_ID_def RouteInfoManager_createAndUpdateQueueData_def NewTopicConfig_def
      TrimSpace_def is_space_def slice_delete_def del_loop.simps NewQueueData_def QueueData_Equals_def Let_def)

lemma registry_invariant_witness:
  "RouteInfoManager_scanNotActiveBroker list_set 99 example_registry \<noteq> None \<and> length (TopicQueueTable example_registry) = 1"
  using registry_invariant [OF example_reach, where t = 99 and addr = "[]" and ctx = None] by (simp add: example_tables)

lemma register_then_route_witness:
  "\<exists>res self1 route. RouteInfoManager_registerBroker list_set 6 ''c'' ''a3:1'' ''b1'' MASTER_ID ''ha'' (Some example_wrapper) None ''a3:9''
       example_registry = (res, self1) \<and> RouteInfoManager_pickupTopicRouteData list_set ''t'' self1 = Some route \<and>
     filter (\<lambda>qd. qd_BrokerName qd = ''b1'') (QueueDatas route) = [NewQueueData ''b1'' (NewTopicConfig ''t'')]"
  using register_then_route [OF example_reach list_set_laws, of example_wrapper "[(''t'', NewTopicConfig ''t'')]" "''t''"
      "NewTopicConfig ''t''" "''t''" 6 "''c''" "''a3:1''" "''b1''" "''ha''" None "''a3:9''"]
  by (auto simp: example_wrapper_def NewTopicConfig_def TrimSpace_def is_space_def)

theorem unregister_removes_routes_witness:
  "map_of (TopicQueueTable (RouteInfoManager_unRegisterBroker list_set ''c'' ''a1:1'' ''b1'' 0 example_registry)) ''t'' =
     Some [NewQueueData ''b2'' (NewTopicConfig ''t'')]"
  using unregister_removes_routes [OF example_reach, of "''b1''" _ 0 "''c''" "''a1:1''"]
  by (simp add: example_tables NewQueueData_def)

lemma lost_broker_stays_in_routes_witness:
  "\<exists>self1 route. RouteInfoManager_onChannelDestroy list_set ''a1:1'' None example_registry = Some self1 \<and>
     RouteInfoManager_pickupTopicRouteData list_set ''t'' self1 = Some route \<and>
     NewQueueData ''b1'' (NewTopicConfig ''t'') \<in> set (QueueDatas route) \<and> ''b1'' \<notin> bd_BrokerName ` set (BrokerDatas route)"
proof -
  let ?qds = "map (\<lambda>b. NewQueueData b (NewTopicConfig ''t'')) [''b1'', ''b2'']"
  have n: "qd_BrokerName (NewQueueData b tc) = b" for b tc by (simp add: NewQueueData_def)
  show ?thesis
    using lost_broker_stays_in_routes [OF example_reach list_set_laws, of "''b1''" "\<lparr>bd_BrokerName = ''b1'', bd_BrokerAddrs = [(0, ''a1:1'')]\<rparr>" 0 "''a1:1''" "''t''" ?qds
        "NewQueueData ''b1'' (NewTopicConfig ''t'')" "NewQueueData ''b2'' (NewTopicConfig ''t'')" "''b2''"
        "\<lparr>bd_BrokerName = ''b2'', bd_BrokerAddrs = [(0, ''a2:1'')]\<rparr>"]
    by (auto simp: example_tables n)
qed

end
