(* ===== verification/KVConfigM.thy ===== *)
theory KVConfigM
  imports GoStrings "HOL-Library.AList"
begin

text \<open>
  The configuration store of the registry: \<open>stgregistry/registry/kv_config_manager.go\<close>, with its
  read-write lock, since not every path of the source releases it.

  The lock is Go's \<open>sync.RWMutex\<close>: a writer waits for the readers, and while a writer waits no reader gets the
  lock. The JSON encoding (\<open>ffjson\<close>) is an argument, the periodic log of the table is left out. Every operation gives the state it leaves; one that waits for
  a lock nobody will release gives \<open>False\<close> or \<open>None\<close> and the state in which it waits, which its caller shares with
  the requests that follow.
\<close>

type_synonym kv_table = "(string \<times> (string \<times> string) list) list"

text \<open>
  \<open>kv_readers\<close> counts the read locks that were taken and not released, \<open>kv_writer\<close> says that a writer waits for
  them; \<open>kv_file\<close> is the file on disk.
\<close>

record KVConfigManager =
  ConfigTable :: kv_table
  kv_readers :: nat
  kv_writer :: bool
  kv_file :: "byte list option"

definition NewKVConfigManager :: KVConfigManager where
  "NewKVConfigManager = \<lparr>ConfigTable = [], kv_readers = 0, kv_writer = False, kv_file = None\<rparr>"

definition RLock :: "KVConfigManager \<Rightarrow> bool \<times> KVConfigManager" where
  "RLock self = (if kv_writer self then (False, self) else (True, self\<lparr>kv_readers := kv_readers self + 1\<rparr>))"

definition RUnlock :: "KVConfigManager \<Rightarrow> KVConfigManager" where
  "RUnlock self = self\<lparr>kv_readers := kv_readers self - 1\<rparr>"

text \<open>
  The writer's lock is released before the operation that took it returns, so a writer waits only for readers that are
  left and for another writer that waits.
\<close>

definition Lock :: "KVConfigManager \<Rightarrow> bool \<times> KVConfigManager" where
  "Lock self = (if kv_readers self = 0 \<and> \<not> kv_writer self then (True, self) else (False, self\<lparr>kv_writer := True\<rparr>))"

definition KVConfigManager_persist :: "(kv_table \<Rightarrow> byte list) \<Rightarrow> KVConfigManager \<Rightarrow> bool \<times> KVConfigManager" where
  "KVConfigManager_persist encode self =
     (case RLock self of
        (False, self1) \<Rightarrow> (False, self1)
      | (True, self1) \<Rightarrow>
          (let content = encode (ConfigTable self1)
           in if length content = 0 then (True, self1) else (True, RUnlock (self1\<lparr>kv_file := Some content\<rparr>))))"

definition KVConfigManager_putKVConfig ::
    "(kv_table \<Rightarrow> byte list) \<Rightarrow> string \<Rightarrow> string \<Rightarrow> string \<Rightarrow> KVConfigManager \<Rightarrow> bool \<times> KVConfigManager" where
  "KVConfigManager_putKVConfig encode namespace key value self =
     (case Lock self of
        (False, self1) \<Rightarrow> (False, self1)
      | (True, self1) \<Rightarrow>
          (let kvTable = (case map_of (ConfigTable self1) namespace of None \<Rightarrow> [] | Some t \<Rightarrow> t)
           in KVConfigManager_persist encode
                (self1\<lparr>ConfigTable := AList.update namespace (AList.update key value kvTable) (ConfigTable self1)\<rparr>)))"

definition KVConfigManager_deleteKVConfig ::
    "(kv_table \<Rightarrow> byte list) \<Rightarrow> string \<Rightarrow> string \<Rightarrow> KVConfigManager \<Rightarrow> bool \<times> KVConfigManager" where
  "KVConfigManager_deleteKVConfig encode namespace key self =
     (case Lock self of
        (False, self1) \<Rightarrow> (False, self1)
      | (True, self1) \<Rightarrow>
          KVConfigManager_persist encode
            (case map_of (ConfigTable self1) namespace of
               None \<Rightarrow> self1
             | Some kvTable \<Rightarrow> self1\<lparr>ConfigTable := AList.update namespace (AList.delete key kvTable) (ConfigTable self1)\<rparr>))"

definition KVConfigManager_deleteKVConfigByValue ::
    "(kv_table \<Rightarrow> byte list) \<Rightarrow> string \<Rightarrow> string \<Rightarrow> KVConfigManager \<Rightarrow> bool \<times> KVConfigManager" where
  "KVConfigManager_deleteKVConfigByValue encode namespace value self =
     (case Lock self of
        (False, self1) \<Rightarrow> (False, self1)
      | (True, self1) \<Rightarrow>
          KVConfigManager_persist encode
            (case map_of (ConfigTable self1) namespace of
               None \<Rightarrow> self1
             | Some kvTable \<Rightarrow>
                 self1\<lparr>ConfigTable := AList.update namespace
                   (fold (\<lambda>(k, v) t. if v = value then AList.delete k t else t) kvTable kvTable) (ConfigTable self1)\<rparr>))"

text \<open>The reads: a hit returns without \<open>RUnlock\<close>.\<close>

definition KVConfigManager_getKVConfig :: "string \<Rightarrow> string \<Rightarrow> KVConfigManager \<Rightarrow> string option \<times> KVConfigManager" where
  "KVConfigManager_getKVConfig namespace key self =
     (case RLock self of
        (False, self1) \<Rightarrow> (None, self1)
      | (True, self1) \<Rightarrow>
          (case map_of (ConfigTable self1) namespace of
             None \<Rightarrow> (Some [], RUnlock self1)
           | Some kvTable \<Rightarrow>
               (case map_of kvTable key of None \<Rightarrow> (Some [], RUnlock self1) | Some value \<Rightarrow> (Some value, self1))))"

fun join_keys :: "string \<Rightarrow> (string \<times> string) list \<Rightarrow> string \<Rightarrow> string" where
  "join_keys value [] splitor = []"
| "join_keys value ((k, v) # kvs) splitor =
     (if v = value then splitor @ k @ join_keys value kvs '';'' else join_keys value kvs splitor)"

definition KVConfigManager_getKVConfigByValue :: "string \<Rightarrow> string \<Rightarrow> KVConfigManager \<Rightarrow> string option \<times> KVConfigManager" where
  "KVConfigManager_getKVConfigByValue namespace value self =
     (case RLock self of
        (False, self1) \<Rightarrow> (None, self1)
      | (True, self1) \<Rightarrow>
          (case map_of (ConfigTable self1) namespace of
             None \<Rightarrow> (Some [], RUnlock self1)
           | Some kvTable \<Rightarrow> (Some (join_keys value kvTable []), self1)))"

definition KVConfigManager_getKVListByNamespace ::
    "((string \<times> string) list \<Rightarrow> byte list) \<Rightarrow> string \<Rightarrow> KVConfigManager \<Rightarrow> byte list option \<times> KVConfigManager" where
  "KVConfigManager_getKVListByNamespace encode_table namespace self =
     (case RLock self of
        (False, self1) \<Rightarrow> (None, self1)
      | (True, self1) \<Rightarrow>
          (case map_of (ConfigTable self1) namespace of
             None \<Rightarrow> (Some [], RUnlock self1)
           | Some kvTable \<Rightarrow> (Some (encode_table (fold (\<lambda>(k, v). AList.update k v) kvTable [])), self1)))"

text \<open>
  \<open>load\<close>; \<open>content\<close> is what reading the file, created when it does not exist, gives, and \<open>decode\<close> the
  decoder, whose \<open>None\<close> stands for a missing table.
\<close>

definition KVConfigManager_load ::
    "(byte list \<Rightarrow> error + kv_table option) \<Rightarrow> error + string \<Rightarrow> KVConfigManager \<Rightarrow> error + KVConfigManager" where
  "KVConfigManager_load decode content self =
     (case content of
        Inl e \<Rightarrow> Inl e
      | Inr s \<Rightarrow>
          if TrimSpace s = [] then Inr self
          else (case decode (bytes_of_string (TrimSpace s)) of
                  Inl e \<Rightarrow> Inl e
                | Inr None \<Rightarrow> Inl ''kvConfigSerializeWrapper is nil''
                | Inr (Some t) \<Rightarrow> Inr (self\<lparr>ConfigTable := fold (\<lambda>(k, v). AList.update k v) t (ConfigTable self)\<rparr>)))"

section \<open>Reads and writes\<close>

lemmas kv_locks = RLock_def RUnlock_def Lock_def

lemmas kv_writes = KVConfigManager_putKVConfig_def KVConfigManager_deleteKVConfig_def KVConfigManager_deleteKVConfigByValue_def
  KVConfigManager_persist_def

lemmas kv_reads = KVConfigManager_getKVConfig_def KVConfigManager_getKVConfigByValue_def KVConfigManager_getKVListByNamespace_def

datatype kv_op = GetKV string string | GetByValue string string | GetList string
  | PutKV string string string | DeleteKV string string | DeleteByValue string string

fun writes_kv :: "kv_op \<Rightarrow> bool" where
  "writes_kv (PutKV n k v) = True"
| "writes_kv (DeleteKV n k) = True"
| "writes_kv (DeleteByValue n v) = True"
| "writes_kv c = False"

text \<open>An operation on the store: whether it returns, and the state it leaves.\<close>

fun kv_do :: "(kv_table \<Rightarrow> byte list) \<Rightarrow> ((string \<times> string) list \<Rightarrow> byte list) \<Rightarrow> kv_op \<Rightarrow> KVConfigManager \<Rightarrow> bool \<times> KVConfigManager" where
  "kv_do encode enc (GetKV n k) self = (case KVConfigManager_getKVConfig n k self of (v, self1) \<Rightarrow> (v \<noteq> None, self1))"
| "kv_do encode enc (GetByValue n v) self = (case KVConfigManager_getKVConfigByValue n v self of (k, self1) \<Rightarrow> (k \<noteq> None, self1))"
| "kv_do encode enc (GetList n) self = (case KVConfigManager_getKVListByNamespace enc n self of (b, self1) \<Rightarrow> (b \<noteq> None, self1))"
| "kv_do encode enc (PutKV n k v) self = KVConfigManager_putKVConfig encode n k v self"
| "kv_do encode enc (DeleteKV n k) self = KVConfigManager_deleteKVConfig encode n k self"
| "kv_do encode enc (DeleteByValue n v) self = KVConfigManager_deleteKVConfigByValue encode n v self"

text \<open>A read waits when a writer waits, a write when anybody holds the lock or waits for it; a write that waits is the waiting writer.\<close>

lemma op_returns: "fst (kv_do encode enc c self) \<longleftrightarrow> \<not> kv_writer self \<and> (writes_kv c \<longrightarrow> kv_readers self = 0)"
  by (cases c) (auto simp: kv_writes kv_reads kv_locks Let_def split: option.split)

lemma op_writer: "kv_writer (snd (kv_do encode enc c self)) \<longleftrightarrow> kv_writer self \<or> writes_kv c \<and> 0 < kv_readers self"
  by (cases c) (auto simp: kv_writes kv_reads kv_locks Let_def split: option.split)

lemma op_readers: "kv_readers self \<le> kv_readers (snd (kv_do encode enc c self))"
  by (cases c) (auto simp: kv_writes kv_reads kv_locks Let_def split: option.split)

lemma ops_readers: "kv_readers self \<le> kv_readers (fold (\<lambda>c. snd \<circ> kv_do encode enc c) cs self)"
proof (induction cs arbitrary: self)
  case (Cons c cs)
  show ?case using order_trans [OF op_readers Cons.IH] by simp
qed simp

text \<open>
  With a free lock a put stores the value, writes the table to disk and frees the lock again. Reading the value back
  returns it but keeps the read lock: after any further operations no write returns.
\<close>

lemma kv_read_blocks_writes:
  assumes "kv_readers self = 0" and "\<not> kv_writer self" and "\<forall>t. encode t \<noteq> []"
  shows "\<exists>self1 self2. KVConfigManager_putKVConfig encode namespace key value self = (True, self1) \<and> kv_readers self1 = 0 \<and>
     kv_file self1 = Some (encode (ConfigTable self1)) \<and>
     KVConfigManager_getKVConfig namespace key self1 = (Some value, self2) \<and>
     (\<forall>cs c. writes_kv c \<longrightarrow> \<not> fst (kv_do encode enc c (fold (\<lambda>c. snd \<circ> kv_do encode enc c) cs self2)))"
proof -
  define table where "table = AList.update namespace (AList.update key value
     (case map_of (ConfigTable self) namespace of None \<Rightarrow> [] | Some t \<Rightarrow> t)) (ConfigTable self)"
  define self1 where "self1 = self\<lparr>ConfigTable := table, kv_file := Some (encode table)\<rparr>"
  define self2 where "self2 = snd (RLock self1)"
  have p: "KVConfigManager_putKVConfig encode namespace key value self = (True, self1)" "kv_readers self1 = 0"
      "kv_file self1 = Some (encode (ConfigTable self1))"
    using assms by (simp_all add: kv_writes kv_locks Let_def self1_def table_def)
  have g: "KVConfigManager_getKVConfig namespace key self1 = (Some value, self2)"
    using assms(2) by (simp add: kv_reads kv_locks self1_def self2_def table_def update_conv')
  have "0 < kv_readers self2" using assms(2) by (simp add: self2_def kv_locks self1_def)
  then have "\<not> fst (kv_do encode enc c (fold (\<lambda>c. snd \<circ> kv_do encode enc c) cs self2))" if "writes_kv c" for c cs
    using ops_readers [of self2 encode enc cs] that by (simp add: op_returns)
  then show ?thesis using p g by blast
qed

lemma kv_read_blocks_writes_witness:
  "\<exists>self1 self2. KVConfigManager_putKVConfig (\<lambda>t. [1]) ''n'' ''k'' ''v'' NewKVConfigManager = (True, self1) \<and>
     KVConfigManager_getKVConfig ''n'' ''k'' self1 = (Some ''v'', self2) \<and>
     \<not> fst (KVConfigManager_putKVConfig (\<lambda>t. [1]) ''n'' ''k'' ''w'' self2)"
proof -
  have "kv_readers NewKVConfigManager = 0" "\<not> kv_writer NewKVConfigManager" by (simp_all add: NewKVConfigManager_def)
  from kv_read_blocks_writes [OF this, of "\<lambda>t. [1]" "''n''" "''k''" "''v''" "\<lambda>t. []"] obtain self1 self2 where
    "KVConfigManager_putKVConfig (\<lambda>t. [1]) ''n'' ''k'' ''v'' NewKVConfigManager = (True, self1)"
    "KVConfigManager_getKVConfig ''n'' ''k'' self1 = (Some ''v'', self2)"
    and w: "\<And>cs c. writes_kv c \<Longrightarrow> \<not> fst (kv_do (\<lambda>t. [1]) (\<lambda>t. []) c (fold (\<lambda>c. snd \<circ> kv_do (\<lambda>t. [1]) (\<lambda>t. []) c) cs self2))"
    by auto
  moreover have "\<not> fst (KVConfigManager_putKVConfig (\<lambda>t. [1]) ''n'' ''k'' ''w'' self2)" using w [of "PutKV ''n'' ''k'' ''w''" "[]"] by simp
  ultimately show ?thesis by blast
qed

end
