(* ===== verification/LockM.thy ===== *)
theory LockM
  imports GoStrings GoPackages
begin

text \<open>
  The locks a broker keeps for consumers that read a queue in order: \<open>stgbroker/rebalance_lock_manager.go\<close>, the
  tables \<open>stgbroker/rebalance/mq_lock_table.go\<close> and \<open>lock_entry_table.go\<close>, and
  \<open>stgcommon/protocol/body/lock_entry.go\<close>.

  The inner table is keyed by the pointer to a message queue and not by the queue, so its keys are addresses here;
  an entry is referred to from one table only and is kept there. The clock is the stream of the readings
  \<open>CurrentTimeMillis\<close> will return: a definition that reads it returns the rest. The part of an
  operation that runs under the manager's lock is one definition, so that calls can be interleaved section by section.
  Pointers are not \<open>nil\<close>. Log output is not modelled.
\<close>

type_synonym mq_ptr = nat

section \<open>Lock entries\<close>

record LockEntry =
  ClientId :: string
  LastUpdate :: int

definition NewLockEntry :: "clock \<Rightarrow> LockEntry \<times> clock" where
  "NewLockEntry c = (\<lparr>ClientId = [], LastUpdate = shd c\<rparr>, stl c)"

definition IsNumber :: "string \<Rightarrow> bool" where
  "IsNumber content \<longleftrightarrow> content \<noteq> [] \<and> list_all is_digit content"

text \<open>The value in force once \<open>IsExpired\<close> has read the environment variable \<open>env\<close>.\<close>

definition lockMaxLiveTime :: "string \<Rightarrow> int" where
  "lockMaxLiveTime env = (if env \<noteq> [] \<and> IsNumber env then ParseInt_value env else 60000)"

definition LockEntry_IsExpired :: "string \<Rightarrow> clock \<Rightarrow> LockEntry \<Rightarrow> bool \<times> clock" where
  "LockEntry_IsExpired env c entry = (to_int64 (shd c - LastUpdate entry) > lockMaxLiveTime env, stl c)"

definition LockEntry_IsLocked :: "string \<Rightarrow> clock \<Rightarrow> string \<Rightarrow> LockEntry \<Rightarrow> bool \<times> clock" where
  "LockEntry_IsLocked env c clientId entry =
     (if EqualFold (ClientId entry) clientId
      then (case LockEntry_IsExpired env c entry of (expired, c1) \<Rightarrow> (\<not> expired, c1))
      else (False, c))"

section \<open>Tables\<close>

type_synonym LockEntryTable = "mq_ptr \<rightharpoonup> LockEntry"
type_synonym MqLockTable = "string \<rightharpoonup> LockEntryTable"

definition NewLockEntryTable :: LockEntryTable where
  "NewLockEntryTable = Map.empty"

definition LockEntryTable_Put :: "mq_ptr \<Rightarrow> LockEntry \<Rightarrow> LockEntryTable \<Rightarrow> LockEntryTable" where
  "LockEntryTable_Put key v lockTable = lockTable(key \<mapsto> v)"

definition LockEntryTable_Get :: "mq_ptr \<Rightarrow> LockEntryTable \<Rightarrow> LockEntry option" where
  "LockEntryTable_Get key lockTable = lockTable key"

text \<open>\<open>Remove\<close> returns at once for a key that is in the table.\<close>

definition LockEntryTable_Remove :: "mq_ptr \<Rightarrow> LockEntryTable \<Rightarrow> LockEntryTable" where
  "LockEntryTable_Remove key lockTable =
     (case lockTable key of Some _ \<Rightarrow> lockTable | None \<Rightarrow> lockTable(key := None))"

definition NewMqLockTable :: MqLockTable where
  "NewMqLockTable = Map.empty"

definition MqLockTable_Put :: "string \<Rightarrow> LockEntryTable \<Rightarrow> MqLockTable \<Rightarrow> MqLockTable" where
  "MqLockTable_Put key v lockTable = lockTable(key \<mapsto> v)"

definition MqLockTable_Get :: "string \<Rightarrow> MqLockTable \<Rightarrow> LockEntryTable option" where
  "MqLockTable_Get key lockTable = lockTable key"

definition MqLockTable_Remove :: "string \<Rightarrow> MqLockTable \<Rightarrow> MqLockTable" where
  "MqLockTable_Remove key lockTable =
     (case lockTable key of None \<Rightarrow> lockTable | Some _ \<Rightarrow> lockTable(key := None))"

lemmas table_defs = LockEntryTable_Put_def LockEntryTable_Get_def LockEntryTable_Remove_def MqLockTable_Put_def
  MqLockTable_Get_def NewLockEntryTable_def NewMqLockTable_def

section \<open>The manager\<close>

record RebalanceLockManager =
  mqLockTable :: MqLockTable

definition NewRebalanceLockManager :: RebalanceLockManager where
  "NewRebalanceLockManager = \<lparr>mqLockTable = NewMqLockTable\<rparr>"

definition RebalanceLockManager_isLocked ::
    "string \<Rightarrow> clock \<Rightarrow> string \<Rightarrow> mq_ptr \<Rightarrow> string \<Rightarrow> RebalanceLockManager \<Rightarrow> bool \<times> RebalanceLockManager \<times> clock" where
  "RebalanceLockManager_isLocked env c grp mq clientId manager =
     (case MqLockTable_Get grp (mqLockTable manager) of
        None \<Rightarrow> (False, manager, c)
      | Some groupValue \<Rightarrow>
          (case LockEntryTable_Get mq groupValue of
             None \<Rightarrow> (False, manager, c)
           | Some lockEntry \<Rightarrow>
               (case LockEntry_IsLocked env c clientId lockEntry of
                  (locked, c1) \<Rightarrow>
                    if locked
                    then (True, manager\<lparr>mqLockTable := MqLockTable_Put grp
                            (LockEntryTable_Put mq (lockEntry\<lparr>LastUpdate := shd c1\<rparr>) groupValue) (mqLockTable manager)\<rparr>, stl c1)
                    else (False, manager, c1))))"

text \<open>
  What \<open>TryLock\<close> and \<open>TryLockBatch\<close> do for one queue under the manager's lock: the entry is found or
  created, and the client either has the lock already, takes over an expired one, or is refused.
\<close>

datatype lock_outcome = Held | Taken | Refused

definition lock_entry ::
    "string \<Rightarrow> clock \<Rightarrow> mq_ptr \<Rightarrow> string \<Rightarrow> LockEntryTable \<Rightarrow> lock_outcome \<times> LockEntryTable \<times> clock" where
  "lock_entry env c mq clientId groupValue =
     (case (case LockEntryTable_Get mq groupValue of
              Some e \<Rightarrow> (e, groupValue, c)
            | None \<Rightarrow> (case NewLockEntry c of
                (e0, c0) \<Rightarrow> let e = e0\<lparr>ClientId := clientId\<rparr> in (e, LockEntryTable_Put mq e groupValue, c0))) of
        (lockEntry, groupValue1, c1) \<Rightarrow>
          (case LockEntry_IsLocked env c1 clientId lockEntry of
             (locked, c2) \<Rightarrow>
               if locked then (Held, LockEntryTable_Put mq (lockEntry\<lparr>LastUpdate := shd c2\<rparr>) groupValue1, stl c2)
               else case LockEntry_IsExpired env c2 lockEntry of
                 (expired, c3) \<Rightarrow>
                   if expired
                   then (Taken, LockEntryTable_Put mq (lockEntry\<lparr>ClientId := clientId, LastUpdate := shd c3\<rparr>) groupValue1, stl c3)
                   else (Refused, groupValue1, c3)))"

text \<open>The table of the group, created when it is missing.\<close>

definition group_table :: "string \<Rightarrow> MqLockTable \<Rightarrow> LockEntryTable" where
  "group_table grp t = (case MqLockTable_Get grp t of None \<Rightarrow> NewLockEntryTable | Some groupValue \<Rightarrow> groupValue)"

text \<open>The second half of \<open>TryLock\<close>, from \<open>manager.Lock()\<close> on.\<close>

definition try_section ::
    "string \<Rightarrow> clock \<Rightarrow> string \<Rightarrow> mq_ptr \<Rightarrow> string \<Rightarrow> RebalanceLockManager \<Rightarrow> bool \<times> RebalanceLockManager \<times> clock" where
  "try_section env c grp mq clientId manager =
     (case lock_entry env c mq clientId (group_table grp (mqLockTable manager)) of
        (r, groupValue, c1) \<Rightarrow>
          (r \<noteq> Refused, manager\<lparr>mqLockTable := MqLockTable_Put grp groupValue (mqLockTable manager)\<rparr>, c1))"

definition RebalanceLockManager_TryLock ::
    "string \<Rightarrow> clock \<Rightarrow> string \<Rightarrow> mq_ptr \<Rightarrow> string \<Rightarrow> RebalanceLockManager \<Rightarrow> bool \<times> RebalanceLockManager \<times> clock" where
  "RebalanceLockManager_TryLock env c grp mq clientId manager =
     (case RebalanceLockManager_isLocked env c grp mq clientId manager of
        (locked, manager1, c1) \<Rightarrow>
          if \<not> locked then try_section env c1 grp mq clientId manager1 else (True, manager1, c1))"

text \<open>
  The elements of the sets: a pointer to a queue, the pointer to a lock entry (named by its group and key),
  or a value of another type. What \<open>TryLockBatch\<close> adds for a queue whose entry belongs to the client is the entry.
\<close>

datatype elem = Mq mq_ptr | Entry string mq_ptr | Other string

fun mq_elems :: "elem list \<Rightarrow> mq_ptr list" where
  "mq_elems [] = []"
| "mq_elems (Mq mq # xs) = mq # mq_elems xs"
| "mq_elems (_ # xs) = mq_elems xs"

fun check_batch ::
    "(elem, 's) set_ops \<Rightarrow> string \<Rightarrow> string \<Rightarrow> string \<Rightarrow> mq_ptr list \<Rightarrow> 's \<times> 's \<times> RebalanceLockManager \<times> clock \<Rightarrow>
     's \<times> 's \<times> RebalanceLockManager \<times> clock" where
  "check_batch S env grp clientId [] s = s"
| "check_batch S env grp clientId (mq # mqs) (lockedMqs, notLockedMqs, manager, c) =
     (case RebalanceLockManager_isLocked env c grp mq clientId manager of
        (locked, manager1, c1) \<Rightarrow>
          check_batch S env grp clientId mqs
            (if locked then (sAdd S (Mq mq) lockedMqs, notLockedMqs, manager1, c1)
             else (lockedMqs, sAdd S (Mq mq) notLockedMqs, manager1, c1)))"

fun lock_batch ::
    "(elem, 's) set_ops \<Rightarrow> string \<Rightarrow> string \<Rightarrow> string \<Rightarrow> mq_ptr list \<Rightarrow> 's \<times> LockEntryTable \<times> clock \<Rightarrow>
     's \<times> LockEntryTable \<times> clock" where
  "lock_batch S env grp clientId [] s = s"
| "lock_batch S env grp clientId (mq # mqs) (lockedMqs, groupValue, c) =
     (case lock_entry env c mq clientId groupValue of
        (r, groupValue1, c1) \<Rightarrow>
          lock_batch S env grp clientId mqs
            (case r of Held \<Rightarrow> sAdd S (Entry grp mq) lockedMqs | Taken \<Rightarrow> sAdd S (Mq mq) lockedMqs | Refused \<Rightarrow> lockedMqs,
             groupValue1, c1))"

definition batch_section ::
    "(elem, 's) set_ops \<Rightarrow> string \<Rightarrow> string \<Rightarrow> string \<Rightarrow> mq_ptr list \<Rightarrow> 's \<Rightarrow> clock \<Rightarrow> RebalanceLockManager \<Rightarrow>
     's \<times> RebalanceLockManager \<times> clock" where
  "batch_section S env grp clientId mqs lockedMqs c manager =
     (case lock_batch S env grp clientId mqs (lockedMqs, group_table grp (mqLockTable manager), c) of
        (lockedMqs1, groupValue, c1) \<Rightarrow>
          (lockedMqs1, manager\<lparr>mqLockTable := MqLockTable_Put grp groupValue (mqLockTable manager)\<rparr>, c1))"

definition RebalanceLockManager_TryLockBatch ::
    "(elem, 's) set_ops \<Rightarrow> string \<Rightarrow> clock \<Rightarrow> string \<Rightarrow> 's \<Rightarrow> string \<Rightarrow> RebalanceLockManager \<Rightarrow>
     's \<times> RebalanceLockManager \<times> clock" where
  "RebalanceLockManager_TryLockBatch S env c grp mqs clientId manager =
     (case check_batch S env grp clientId (mq_elems (sIter S mqs)) (sNew S, sNew S, manager, c) of
        (lockedMqs, notLockedMqs, manager1, c1) \<Rightarrow>
          if length (sIter S notLockedMqs) > 0
          then batch_section S env grp clientId (mq_elems (sIter S notLockedMqs)) lockedMqs c1 manager1
          else (lockedMqs, manager1, c1))"

fun unlock_entries :: "string \<Rightarrow> mq_ptr list \<Rightarrow> LockEntryTable \<Rightarrow> LockEntryTable" where
  "unlock_entries clientId [] groupValue = groupValue"
| "unlock_entries clientId (mq # mqs) groupValue =
     unlock_entries clientId mqs
       (case LockEntryTable_Get mq groupValue of
          None \<Rightarrow> groupValue
        | Some lockEntry \<Rightarrow>
            if EqualFold (ClientId lockEntry) clientId then LockEntryTable_Remove mq groupValue else groupValue)"

definition RebalanceLockManager_UnlockBatch ::
    "(elem, 's) set_ops \<Rightarrow> string \<Rightarrow> 's \<Rightarrow> string \<Rightarrow> RebalanceLockManager \<Rightarrow> RebalanceLockManager" where
  "RebalanceLockManager_UnlockBatch S grp mqs clientId manager =
     (case MqLockTable_Get grp (mqLockTable manager) of
        None \<Rightarrow> manager
      | Some groupValue \<Rightarrow>
          manager\<lparr>mqLockTable := MqLockTable_Put grp (unlock_entries clientId (mq_elems (sIter S mqs)) groupValue)
                    (mqLockTable manager)\<rparr>)"

section \<open>Exclusion\<close>

lemma not_expired:
  assumes "during lo hi c" and "lo \<le> LastUpdate e" and "LastUpdate e \<le> hi" and "hi - lo \<le> lockMaxLiveTime env"
  shows "LockEntry_IsExpired env c e = (False, stl c)"
proof -
  have "in_int 64 (shd c - LastUpdate e)" using during_shd [OF assms(1)] assms(2,3) by (simp add: in_int_def)
  then show ?thesis using during_shd [OF assms(1)] assms(2-4) by (simp add: LockEntry_IsExpired_def to_int64_id)
qed

text \<open>The entry of the queue belongs to the client and was last confirmed between \<open>lo\<close> and \<open>hi\<close>.\<close>

definition held_by :: "int \<Rightarrow> int \<Rightarrow> string \<Rightarrow> mq_ptr \<Rightarrow> LockEntryTable \<Rightarrow> bool" where
  "held_by lo hi A mq t \<longleftrightarrow> (\<exists>e. t mq = Some e \<and> EqualFold (ClientId e) A \<and> lo \<le> LastUpdate e \<and> LastUpdate e \<le> hi)"

definition holds :: "int \<Rightarrow> int \<Rightarrow> string \<Rightarrow> mq_ptr \<Rightarrow> string \<Rightarrow> RebalanceLockManager \<Rightarrow> bool" where
  "holds lo hi grp mq A manager \<longleftrightarrow> (\<exists>t. mqLockTable manager grp = Some t \<and> held_by lo hi A mq t)"

lemma lock_entry_kept:
  assumes "held_by lo hi A mq t" and "during lo hi c" and "hi - lo \<le> lockMaxLiveTime env" and "\<not> EqualFold B A"
    and "lock_entry env c mq1 B t = (r, t1, c1)"
  shows "held_by lo hi A mq t1 \<and> (mq1 = mq \<longrightarrow> r = Refused \<and> t1 = t)"
proof (cases "mq1 = mq")
  case True
  from assms(1) obtain e where e: "t mq = Some e" "EqualFold (ClientId e) A" "lo \<le> LastUpdate e" "LastUpdate e \<le> hi"
    by (auto simp: held_by_def)
  have "\<not> EqualFold (ClientId e) B" using e(2) assms(4) EqualFold_sym EqualFold_trans by blast
  then have "r = Refused \<and> t1 = t"
    using assms(5) True e(1) not_expired [OF assms(2) e(3,4) assms(3)]
    by (simp add: lock_entry_def table_defs LockEntry_IsLocked_def)
  with assms(1) show ?thesis by simp
next
  case False
  then have "t1 mq = t mq"
    using assms(5) by (auto simp: lock_entry_def table_defs Let_def split: option.splits prod.splits if_splits)
  with assms(1) False show ?thesis by (simp add: held_by_def)
qed

lemma lock_entry_clock:
  assumes "during lo hi c" and "lock_entry env c mq B t = (r, t1, c1)"
  shows "during lo hi c1"
  using assms by (auto simp: lock_entry_def table_defs Let_def LockEntry_IsLocked_def LockEntry_IsExpired_def NewLockEntry_def
      split: option.splits prod.splits if_splits)

lemma isLocked_clock:
  assumes "during lo hi c" and "RebalanceLockManager_isLocked env c grp mq B manager = (b, manager1, c1)"
  shows "during lo hi c1"
  using assms by (auto simp: RebalanceLockManager_isLocked_def table_defs LockEntry_IsLocked_def LockEntry_IsExpired_def
      split: option.splits prod.splits if_splits)

lemma check_kept:
  assumes "holds lo hi grp mq A manager" and "\<not> EqualFold B A"
    and "RebalanceLockManager_isLocked env c grp1 mq1 B manager = (b, manager1, c1)"
  shows "holds lo hi grp mq A manager1" and "grp1 = grp \<Longrightarrow> mq1 = mq \<Longrightarrow> \<not> b \<and> manager1 = manager \<and> c1 = c"
proof -
  from assms(1) obtain t e where e: "mqLockTable manager grp = Some t" "t mq = Some e" "EqualFold (ClientId e) A"
    by (auto simp: holds_def held_by_def)
  have n: "\<not> EqualFold (ClientId e) B" using e(3) assms(2) EqualFold_sym EqualFold_trans by blast
  show "holds lo hi grp mq A manager1"
    using assms(1,3) e n by (auto simp: RebalanceLockManager_isLocked_def table_defs LockEntry_IsLocked_def holds_def held_by_def
        split: option.splits prod.splits if_splits)
  show "\<not> b \<and> manager1 = manager \<and> c1 = c" if "grp1 = grp" "mq1 = mq"
    using assms(3) e n that by (simp add: RebalanceLockManager_isLocked_def table_defs LockEntry_IsLocked_def)
qed

lemma holds_put:
  assumes "holds lo hi grp mq A manager"
    and "\<And>t. mqLockTable manager grp = Some t \<Longrightarrow> held_by lo hi A mq t \<Longrightarrow> grp1 = grp \<Longrightarrow> held_by lo hi A mq t1"
  shows "holds lo hi grp mq A (manager\<lparr>mqLockTable := MqLockTable_Put grp1 t1 (mqLockTable manager)\<rparr>)"
  using assms by (auto simp: holds_def table_defs)

lemma try_kept:
  assumes "holds lo hi grp mq A manager" and "during lo hi c" and "hi - lo \<le> lockMaxLiveTime env" and "\<not> EqualFold B A"
    and "try_section env c grp1 mq1 B manager = (b, manager1, c1)"
  shows "holds lo hi grp mq A manager1" and "grp1 = grp \<Longrightarrow> mq1 = mq \<Longrightarrow> \<not> b \<and> manager1 = manager"
proof -
  obtain r t1 where l: "lock_entry env c mq1 B (group_table grp1 (mqLockTable manager)) = (r, t1, c1)" "b = (r \<noteq> Refused)"
      "manager1 = manager\<lparr>mqLockTable := MqLockTable_Put grp1 t1 (mqLockTable manager)\<rparr>"
    using assms(5) by (auto simp: try_section_def split: prod.splits)
  note k = lock_entry_kept [OF _ assms(2-4) l(1)]
  show "holds lo hi grp mq A manager1" unfolding l(3)
    using assms(1) k by (intro holds_put) (auto simp: group_table_def table_defs)
  show "\<not> b \<and> manager1 = manager" if "grp1 = grp" "mq1 = mq"
  proof -
    from assms(1) obtain t where t: "mqLockTable manager grp = Some t" "held_by lo hi A mq t" by (auto simp: holds_def)
    have "r = Refused \<and> t1 = t" using k [of mq] t that by (simp add: group_table_def table_defs)
    then show ?thesis using l(2,3) t(1) that by (simp add: table_defs fun_upd_idem)
  qed
qed

lemma lock_batch_kept:
  assumes "held_by lo hi A mq t" and "during lo hi c" and "hi - lo \<le> lockMaxLiveTime env" and "\<not> EqualFold B A"
    and "lock_batch S env grp B mqs (l, t, c) = (l1, t1, c1)"
  shows "held_by lo hi A mq t1"
  using assms
proof (induction mqs arbitrary: l t c)
  case (Cons mq1 mqs)
  obtain r t2 c2 where e: "lock_entry env c mq1 B t = (r, t2, c2)" by (cases "lock_entry env c mq1 B t")
  show ?case
    using Cons.prems(5) e Cons.IH [OF _ lock_entry_clock [OF Cons.prems(2) e] Cons.prems(3,4)]
      lock_entry_kept [OF Cons.prems(1-4) e] by auto
qed simp

lemma unlock_entries_id [simp]: "unlock_entries clientId mqs t = t"
  by (induction mqs arbitrary: t) (auto simp: table_defs split: option.splits)

lemma UnlockBatch_id: "RebalanceLockManager_UnlockBatch S grp mqs clientId manager = manager"
  by (auto simp: RebalanceLockManager_UnlockBatch_def table_defs fun_upd_idem split: option.splits)

text \<open>
  What other clients can do to the tables between two readings of the clock: the sections of \<open>TryLock\<close> and
  \<open>TryLockBatch\<close> that run under the lock, in any order and interleaving, and \<open>UnlockBatch\<close>.
\<close>

inductive others_step ::
    "(elem, 's) set_ops \<Rightarrow> string \<Rightarrow> int \<Rightarrow> int \<Rightarrow> string \<Rightarrow> RebalanceLockManager \<Rightarrow> RebalanceLockManager \<Rightarrow> bool"
  for S env lo hi A where
  check: "\<not> EqualFold B A \<Longrightarrow> during lo hi c \<Longrightarrow>
    RebalanceLockManager_isLocked env c grp mq B manager = (b, manager1, c1) \<Longrightarrow> others_step S env lo hi A manager manager1"
| try_lock: "\<not> EqualFold B A \<Longrightarrow> during lo hi c \<Longrightarrow>
    try_section env c grp mq B manager = (b, manager1, c1) \<Longrightarrow> others_step S env lo hi A manager manager1"
| batch: "\<not> EqualFold B A \<Longrightarrow> during lo hi c \<Longrightarrow>
    batch_section S env grp B mqs l c manager = (l1, manager1, c1) \<Longrightarrow> others_step S env lo hi A manager manager1"
| unlock: "\<not> EqualFold B A \<Longrightarrow>
    RebalanceLockManager_UnlockBatch S grp mqs B manager = manager1 \<Longrightarrow> others_step S env lo hi A manager manager1"

lemma others_kept:
  assumes "others_step S env lo hi A manager manager1" and "holds lo hi grp mq A manager"
    and "hi - lo \<le> lockMaxLiveTime env"
  shows "holds lo hi grp mq A manager1"
  using assms(1)
proof cases
  case (check B c grp1 mq1 b c1)
  then show ?thesis using check_kept(1) [OF assms(2)] by blast
next
  case (try_lock B c grp1 mq1 b c1)
  then show ?thesis using try_kept(1) [OF assms(2) _ assms(3)] by blast
next
  case (batch B c grp1 mqs l l1 c1)
  then obtain t1 where t: "lock_batch S env grp1 B mqs (l, group_table grp1 (mqLockTable manager), c) = (l1, t1, c1)"
      "manager1 = manager\<lparr>mqLockTable := MqLockTable_Put grp1 t1 (mqLockTable manager)\<rparr>"
    by (auto simp: batch_section_def split: prod.splits)
  show ?thesis unfolding t(2)
    using assms(2) lock_batch_kept [OF _ batch(2) assms(3) batch(1) t(1)]
    by (intro holds_put) (auto simp: group_table_def table_defs)
next
  case (unlock B grp1 mqs)
  then show ?thesis using assms(2) UnlockBatch_id by metis
qed

lemma others_run_kept:
  assumes "(others_step S env lo hi A)\<^sup>*\<^sup>* manager manager1" and "holds lo hi grp mq A manager"
    and "hi - lo \<le> lockMaxLiveTime env"
  shows "holds lo hi grp mq A manager1"
  using assms(1,2) by induction (auto intro: others_kept [OF _ _ assms(3)])

lemma lock_entry_got:
  assumes "during lo hi c" and "hi - lo \<le> lockMaxLiveTime env" and "lock_entry env c mq A t = (r, t1, c1)" and "r \<noteq> Refused"
  shows "held_by lo hi A mq t1"
proof (cases "t mq")
  case None
  let ?e = "\<lparr>ClientId = A, LastUpdate = shd c\<rparr>"
  have "LockEntry_IsExpired env (stl c) ?e = (False, stl (stl c))"
    using during_shd [OF assms(1)] by (intro not_expired [OF _ _ _ assms(2)]) (auto intro: assms(1))
  with None show ?thesis
    using assms(3) during_shd [OF during_step [OF during_step [OF assms(1)]]]
    by (auto simp: lock_entry_def table_defs NewLockEntry_def LockEntry_IsLocked_def held_by_def Let_def)
next
  case (Some e)
  show ?thesis
  proof (cases "EqualFold (ClientId e) A \<and> \<not> fst (LockEntry_IsExpired env c e)")
    case True
    with Some show ?thesis using assms(3) during_shd [OF during_step [OF assms(1)]]
      by (auto simp: lock_entry_def table_defs LockEntry_IsLocked_def held_by_def LockEntry_IsExpired_def)
  next
    case False
    with Some assms(3,4) show ?thesis
      using during_shd [OF during_step [OF assms(1)]] during_shd [OF during_step [OF during_step [OF assms(1)]]]
      by (auto simp: lock_entry_def table_defs LockEntry_IsLocked_def held_by_def LockEntry_IsExpired_def split: if_splits)
  qed
qed

lemma TryLock_got:
  assumes "during lo hi c" and "hi - lo \<le> lockMaxLiveTime env"
    and "RebalanceLockManager_TryLock env c grp mq A manager = (True, manager1, c1)"
  shows "holds lo hi grp mq A manager1"
proof -
  obtain b m2 c2 where i: "RebalanceLockManager_isLocked env c grp mq A manager = (b, m2, c2)"
    by (cases "RebalanceLockManager_isLocked env c grp mq A manager") auto
  show ?thesis
  proof (cases b)
    case True
    with i assms(3) have "RebalanceLockManager_isLocked env c grp mq A manager = (True, manager1, c1)"
      by (simp add: RebalanceLockManager_TryLock_def)
    then show ?thesis using during_shd [OF during_step [OF assms(1)]]
      by (auto simp: RebalanceLockManager_isLocked_def table_defs LockEntry_IsLocked_def LockEntry_IsExpired_def holds_def held_by_def
          split: option.splits prod.splits if_splits)
  next
    case False
    with i assms(3) have "try_section env c2 grp mq A m2 = (True, manager1, c1)" by (simp add: RebalanceLockManager_TryLock_def)
    then obtain r t1 where "lock_entry env c2 mq A (group_table grp (mqLockTable m2)) = (r, t1, c1)" "r \<noteq> Refused"
        "manager1 = m2\<lparr>mqLockTable := MqLockTable_Put grp t1 (mqLockTable m2)\<rparr>"
      by (auto simp: try_section_def split: prod.splits)
    then show ?thesis using lock_entry_got [OF isLocked_clock [OF assms(1) i] assms(2)] by (auto simp: holds_def table_defs)
  qed
qed

lemma holder_excludes:
  assumes h: "holds lo hi grp mq A manager" and "during lo hi c" and "hi - lo \<le> lockMaxLiveTime env" and "\<not> EqualFold B A"
  shows "fst (RebalanceLockManager_TryLock env c grp mq B manager) = False"
    and "fst (snd (RebalanceLockManager_TryLock env c grp mq B manager)) = manager"
proof -
  have c: "RebalanceLockManager_isLocked env c grp mq B manager = (False, manager, c)"
    using check_kept(2) [OF h assms(4)] by (metis prod_cases3)
  have "\<not> fst (try_section env c grp mq B manager) \<and> fst (snd (try_section env c grp mq B manager)) = manager"
    using try_kept(2) [OF h assms(2-4)] by (metis prod.collapse)
  then show "fst (RebalanceLockManager_TryLock env c grp mq B manager) = False"
    and "fst (snd (RebalanceLockManager_TryLock env c grp mq B manager)) = manager"
    by (simp_all add: RebalanceLockManager_TryLock_def c)
qed

lemma holder_keeps:
  assumes "holds lo hi grp mq A manager" and "during lo hi c" and "hi - lo \<le> lockMaxLiveTime env"
  shows "fst (RebalanceLockManager_isLocked env c grp mq A manager)"
proof -
  from assms(1) obtain t e where e: "mqLockTable manager grp = Some t" "t mq = Some e" "EqualFold (ClientId e) A"
      "lo \<le> LastUpdate e" "LastUpdate e \<le> hi"
    by (auto simp: holds_def held_by_def)
  then show ?thesis using not_expired [OF assms(2) e(4,5) assms(3)]
    by (simp add: RebalanceLockManager_isLocked_def table_defs LockEntry_IsLocked_def)
qed

lemma TryLock_locked:
  "fst (RebalanceLockManager_isLocked env c grp mq A manager) \<Longrightarrow> fst (RebalanceLockManager_TryLock env c grp mq A manager)"
  by (auto simp: RebalanceLockManager_TryLock_def split: prod.splits)

section \<open>Batches\<close>

lemma set_mq_elems: "set (mq_elems xs) = {mq. Mq mq \<in> set xs}"
  by (induction xs rule: mq_elems.induct) auto

lemma check_batch_fresh:
  assumes "set_laws S" and "mqLockTable manager grp = None"
  shows "check_batch S env grp A mqs (l, n, manager, c) = (l, fold (\<lambda>mq. sAdd S (Mq mq)) mqs n, manager, c)"
  using assms(2) by (induction mqs arbitrary: n) (simp_all add: RebalanceLockManager_isLocked_def table_defs)

lemma lock_entry_free:
  assumes "t mq = None" and "during lo hi c" and "hi - lo \<le> lockMaxLiveTime env"
  shows "\<exists>t1 c1. lock_entry env c mq A t = (Held, t1, c1) \<and> held_by lo hi A mq t1 \<and> (\<forall>x. x \<noteq> mq \<longrightarrow> t1 x = t x)"
proof -
  let ?e = "\<lparr>ClientId = A, LastUpdate = shd c\<rparr>"
  have "LockEntry_IsExpired env (stl c) ?e = (False, stl (stl c))"
    using during_shd [OF assms(2)] by (intro not_expired [OF _ _ _ assms(3)]) (auto intro: assms(2))
  then have "lock_entry env c mq A t = (Held, t(mq \<mapsto> ?e\<lparr>LastUpdate := shd (stl (stl c))\<rparr>), stl (stl (stl c)))"
    using assms(1) by (simp add: lock_entry_def table_defs NewLockEntry_def LockEntry_IsLocked_def Let_def)
  then show ?thesis using during_shd [OF during_step [OF during_step [OF assms(2)]]] by (simp add: held_by_def)
qed

lemma lock_batch_free:
  assumes "set_laws S" and "distinct mqs" and "\<forall>mq \<in> set mqs. t mq = None" and "during lo hi c"
    and "hi - lo \<le> lockMaxLiveTime env"
  shows "\<exists>l1 t1 c1. lock_batch S env grp A mqs (l, t, c) = (l1, t1, c1) \<and>
    set (sIter S l1) = set (sIter S l) \<union> Entry grp ` set mqs \<and> (\<forall>mq \<in> set mqs. held_by lo hi A mq t1) \<and>
    (\<forall>x. x \<notin> set mqs \<longrightarrow> t1 x = t x)"
  using assms(2-4)
proof (induction mqs arbitrary: l t c)
  case (Cons mq mqs)
  from lock_entry_free [of t mq lo hi c env A] Cons.prems(2,3) assms(5) obtain t1 c1
    where e: "lock_entry env c mq A t = (Held, t1, c1)" "held_by lo hi A mq t1" "\<forall>x. x \<noteq> mq \<longrightarrow> t1 x = t x" by auto
  have "\<forall>x \<in> set mqs. t1 x = None" using e(3) Cons.prems(1,2) by auto
  from Cons.IH [OF _ this lock_entry_clock [OF Cons.prems(3) e(1)], of "sAdd S (Entry grp mq) l"] Cons.prems(1) obtain l2 t2 c2
    where r: "lock_batch S env grp A mqs (sAdd S (Entry grp mq) l, t1, c1) = (l2, t2, c2)"
      "set (sIter S l2) = set (sIter S (sAdd S (Entry grp mq) l)) \<union> Entry grp ` set mqs"
      "\<forall>mq \<in> set mqs. held_by lo hi A mq t2" "\<forall>x. x \<notin> set mqs \<longrightarrow> t2 x = t1 x" by auto
  have "held_by lo hi A mq t2" using e(2) r(4) Cons.prems(1) by (simp add: held_by_def)
  with e r assms(1) show ?case by (auto simp: set_laws_def)
qed simp

lemma distinct_mq_elems: "distinct xs \<Longrightarrow> distinct (mq_elems xs)"
  by (induction xs rule: mq_elems.induct) (auto simp: set_mq_elems)

section \<open>Properties\<close>

text \<open>
  After \<open>TryLock\<close> has given an address to a client, whatever the other
  clients do with the manager, in any interleaving of the sections of their calls, \<open>TryLock\<close> refuses the address
  to every other client and leaves the tables alone, and still grants it to its owner, as long as no more time than the
  lock's life passes between the first and the last reading of the clock.
\<close>

lemma lock_exclusive:
  assumes "RebalanceLockManager_TryLock env c grp mq A manager = (True, manager1, c1)"
    and "(others_step S env lo hi A)\<^sup>*\<^sup>* manager1 manager2"
    and "during lo hi c" and "during lo hi c2" and "hi - lo \<le> lockMaxLiveTime env" and "\<not> EqualFold B A"
  shows "holds lo hi grp mq A manager2" and "fst (RebalanceLockManager_TryLock env c2 grp mq B manager2) = False"
    and "fst (snd (RebalanceLockManager_TryLock env c2 grp mq B manager2)) = manager2"
    and "fst (RebalanceLockManager_TryLock env c2 grp mq A manager2) = True"
proof -
  show h: "holds lo hi grp mq A manager2"
    using others_run_kept [OF assms(2) TryLock_got [OF assms(3,5,1)] assms(5)] .
  show "fst (RebalanceLockManager_TryLock env c2 grp mq B manager2) = False"
    "fst (snd (RebalanceLockManager_TryLock env c2 grp mq B manager2)) = manager2"
    "fst (RebalanceLockManager_TryLock env c2 grp mq A manager2) = True"
    using holder_excludes [OF h assms(4-6)] TryLock_locked [OF holder_keeps [OF h assms(4,5)]] by simp_all
qed

text \<open>
  Queues and their addresses: \<open>queue_at\<close> is the queue an address points to. A client holds a queue when it holds an address of it;
  an address is new to the manager when the table of the group has no entry for it.
\<close>

definition holds_queue :: "(mq_ptr \<Rightarrow> 'q) \<Rightarrow> int \<Rightarrow> int \<Rightarrow> string \<Rightarrow> 'q \<Rightarrow> string \<Rightarrow> RebalanceLockManager \<Rightarrow> bool" where
  "holds_queue queue_at lo hi grp q A manager \<longleftrightarrow> (\<exists>mq. queue_at mq = q \<and> holds lo hi grp mq A manager)"

definition new_address :: "string \<Rightarrow> mq_ptr \<Rightarrow> RebalanceLockManager \<Rightarrow> bool" where
  "new_address grp mq manager \<longleftrightarrow> group_table grp (mqLockTable manager) mq = None"

lemma TryLock_new:
  assumes "new_address grp mq manager" and "during lo hi c" and "hi - lo \<le> lockMaxLiveTime env"
  shows "fst (RebalanceLockManager_TryLock env c grp mq B manager)"
    and "holds lo hi grp mq B (fst (snd (RebalanceLockManager_TryLock env c grp mq B manager)))"
    and "holds lo hi grp mq1 A manager \<Longrightarrow> mq1 \<noteq> mq \<Longrightarrow> holds lo hi grp mq1 A (fst (snd (RebalanceLockManager_TryLock env c grp mq B manager)))"
proof -
  let ?t = "group_table grp (mqLockTable manager)"
  have "RebalanceLockManager_isLocked env c grp mq B manager = (False, manager, c)"
    using assms(1) by (auto simp: RebalanceLockManager_isLocked_def new_address_def group_table_def table_defs split: option.split)
  moreover obtain t1 c1 where l: "lock_entry env c mq B ?t = (Held, t1, c1)" "held_by lo hi B mq t1" "\<forall>x. x \<noteq> mq \<longrightarrow> t1 x = ?t x"
    using lock_entry_free [of ?t mq lo hi c env B] assms by (auto simp: new_address_def)
  ultimately have r: "RebalanceLockManager_TryLock env c grp mq B manager =
      (True, manager\<lparr>mqLockTable := MqLockTable_Put grp t1 (mqLockTable manager)\<rparr>, c1)"
    by (simp add: RebalanceLockManager_TryLock_def try_section_def)
  show "fst (RebalanceLockManager_TryLock env c grp mq B manager)"
    "holds lo hi grp mq B (fst (snd (RebalanceLockManager_TryLock env c grp mq B manager)))"
    using l(2) by (simp_all add: r holds_def table_defs)
  show "holds lo hi grp mq1 A (fst (snd (RebalanceLockManager_TryLock env c grp mq B manager)))"
    if "holds lo hi grp mq1 A manager" "mq1 \<noteq> mq"
    using that l(3) by (auto simp: r holds_def held_by_def table_defs group_table_def)
qed

text \<open>
  C16 (the lock is on the address and not on the queue). After \<open>TryLock\<close> has given the address of a queue to a client, and whatever the other
  clients then do with the manager, another client is refused this address while the lock lives. But the same queue at an address
  that is new to the manager, such as that of a queue decoded from a request of its own, is given to the other client at once,
  and now two clients hold the queue.
\<close>

theorem lock_is_by_address:
  assumes "RebalanceLockManager_TryLock env c grp mq A manager = (True, manager1, c1)"
    and "(others_step S env lo hi A)\<^sup>*\<^sup>* manager1 manager2"
    and "during lo hi c" and "during lo hi c2" and "hi - lo \<le> lockMaxLiveTime env" and "\<not> EqualFold B A"
    and "new_address grp mq1 manager2" and "queue_at mq1 = queue_at mq"
    and "RebalanceLockManager_TryLock env c2 grp mq1 B manager2 = (b, manager3, c3)"
  shows "fst (RebalanceLockManager_TryLock env c2 grp mq B manager2) = False \<and> b \<and>
    holds_queue queue_at lo hi grp (queue_at mq) A manager3 \<and> holds_queue queue_at lo hi grp (queue_at mq) B manager3"
proof -
  note e = lock_exclusive [OF assms(1-6)] note n = TryLock_new [OF assms(7,4,5), where B = B]
  have "mq \<noteq> mq1" using e(1) assms(7) by (auto simp: holds_def held_by_def new_address_def group_table_def table_defs)
  from n(3) [OF e(1) this] have "holds lo hi grp mq A manager3" "holds lo hi grp mq1 B manager3" "b"
    using n(1,2) assms(9) by simp_all
  then show ?thesis using e(2) assms(8) unfolding holds_queue_def by blast
qed

lemma example_lock:
  "RebalanceLockManager_TryLock [] (sconst 5) ''g'' 1 ''A'' NewRebalanceLockManager =
     (True, fst (snd (RebalanceLockManager_TryLock [] (sconst 5) ''g'' 1 ''A'' NewRebalanceLockManager)), sconst 5)"
  by (simp add: RebalanceLockManager_TryLock_def RebalanceLockManager_isLocked_def NewRebalanceLockManager_def table_defs
      try_section_def lock_entry_def group_table_def NewLockEntry_def LockEntry_IsLocked_def LockEntry_IsExpired_def
      lockMaxLiveTime_def to_int64_def Let_def)

theorem lock_is_by_address_witness:
  "let m = fst (snd (RebalanceLockManager_TryLock [] (sconst 5) ''g'' 1 ''A'' NewRebalanceLockManager));
       m1 = fst (snd (RebalanceLockManager_TryLock [] (sconst 7) ''g'' 2 ''B'' m));
       q = (\<lambda>_ :: nat. (''t'', ''b'', 3 :: int))
   in holds_queue q 5 7 ''g'' (''t'', ''b'', 3) ''A'' m1 \<and> holds_queue q 5 7 ''g'' (''t'', ''b'', 3) ''B'' m1"
proof -
  define m where "m = fst (snd (RebalanceLockManager_TryLock [] (sconst 5) ''g'' 1 ''A'' NewRebalanceLockManager))"
  have n: "\<not> EqualFold ''B'' ''A''" by (simp add: EqualFold_def fold_case_def fold_char_def)
  have "new_address ''g'' 2 m"
    by (simp add: m_def new_address_def RebalanceLockManager_TryLock_def RebalanceLockManager_isLocked_def NewRebalanceLockManager_def table_defs
        try_section_def lock_entry_def group_table_def NewLockEntry_def LockEntry_IsLocked_def LockEntry_IsExpired_def
        lockMaxLiveTime_def to_int64_def Let_def)
  from lock_is_by_address [OF example_lock [folded m_def] rtranclp.rtrancl_refl _ _ _ n this refl, where lo = 5 and hi = 7 and ?c2.0 = "sconst 7"
      and b = "fst (RebalanceLockManager_TryLock [] (sconst 7) ''g'' 2 ''B'' m)"
      and ?manager3.0 = "fst (snd (RebalanceLockManager_TryLock [] (sconst 7) ''g'' 2 ''B'' m))"
      and ?c3.0 = "snd (snd (RebalanceLockManager_TryLock [] (sconst 7) ''g'' 2 ''B'' m))" and queue_at = "\<lambda>_. (''t'', ''b'', 3 :: int)"]
  show ?thesis unfolding Let_def m_def [symmetric] by (simp add: during_def lockMaxLiveTime_def)
qed

text \<open>
  A batch does not name the queues it has locked. \<open>TryLockBatch\<close> on queues of a group without locks
  locks all of them for the client, but the set it returns holds their lock entries and none of the queues: it adds
  the entry where it means the queue.
\<close>

lemma batch_returns_entries:
  assumes "set_laws S" and "mqLockTable manager grp = None" and "during lo hi c" and "hi - lo \<le> lockMaxLiveTime env"
    and "Mq mq \<in> set (sIter S mqs)"
  shows "\<exists>locked manager1 c1. RebalanceLockManager_TryLockBatch S env c grp mqs A manager = (locked, manager1, c1) \<and>
    set (sIter S locked) = Entry grp ` {x. Mq x \<in> set (sIter S mqs)} \<and> holds lo hi grp mq A manager1"
proof -
  let ?mqs = "mq_elems (sIter S mqs)"
  define n where "n = fold (\<lambda>x. sAdd S (Mq x)) ?mqs (sNew S)"
  have n: "set (sIter S n) = Mq ` set ?mqs" "distinct (sIter S n)"
    using assms(1) fold_sAdd [OF assms(1), of Mq ?mqs "sNew S"] by (simp_all add: n_def set_laws_def)
  then have m: "set (mq_elems (sIter S n)) = {x. Mq x \<in> set (sIter S mqs)}" "distinct (mq_elems (sIter S n))"
    by (auto simp: set_mq_elems distinct_mq_elems)
  have "sIter S n \<noteq> []" using n(1) assms(5) by (auto simp: set_mq_elems)
  from lock_batch_free [OF assms(1) m(2) _ assms(3,4), of NewLockEntryTable grp A "sNew S"] obtain l1 t1 c1 where
    l: "lock_batch S env grp A (mq_elems (sIter S n)) (sNew S, NewLockEntryTable, c) = (l1, t1, c1)"
      "set (sIter S l1) = set (sIter S (sNew S)) \<union> Entry grp ` set (mq_elems (sIter S n))"
      "\<forall>x \<in> set (mq_elems (sIter S n)). held_by lo hi A x t1" by (auto simp: table_defs)
  have "RebalanceLockManager_TryLockBatch S env c grp mqs A manager =
      (l1, manager\<lparr>mqLockTable := (mqLockTable manager)(grp \<mapsto> t1)\<rparr>, c1)"
    using l(1) \<open>sIter S n \<noteq> []\<close> assms(2) check_batch_fresh [OF assms(1,2), of env A ?mqs "sNew S" "sNew S" c]
    by (simp add: RebalanceLockManager_TryLockBatch_def batch_section_def group_table_def table_defs flip: n_def)
  moreover have "set (sIter S l1) = Entry grp ` {x. Mq x \<in> set (sIter S mqs)}"
    using l(2) m(1) assms(1) by (simp add: set_laws_def)
  moreover have "held_by lo hi A mq t1" using l(3) m(1) assms(5) by simp
  ultimately show ?thesis by (auto simp: holds_def)
qed

lemma batch_returns_entries_witness:
  "\<exists>locked manager1 c1. RebalanceLockManager_TryLockBatch list_set [] (sconst 5) ''g'' [Mq 1, Mq 2] ''A'' NewRebalanceLockManager =
     (locked, manager1, c1) \<and> set locked = {Entry ''g'' 1, Entry ''g'' 2} \<and> holds 5 5 ''g'' 1 ''A'' manager1"
proof -
  have "{x. Mq x = Mq 1 \<or> Mq x = Mq 2} = {1, 2}" by auto
  with batch_returns_entries [OF list_set_laws, of NewRebalanceLockManager "''g''" 5 5 "sconst 5" "[]" 1 "[Mq 1, Mq 2]" "''A''"]
  show ?thesis by (auto simp: NewRebalanceLockManager_def table_defs during_def lockMaxLiveTime_def list_set_def)
qed

text \<open>
  \<open>UnlockBatch\<close> by the owner of a lock leaves the tables as they were, so
  that the other clients are refused until the lock expires: \<open>LockEntryTable.Remove\<close> tests for the key the wrong way
  round.
\<close>

lemma unlock_keeps_lock:
  assumes "RebalanceLockManager_TryLock env c grp mq A manager = (True, manager1, c1)"
    and "during lo hi c" and "during lo hi c2" and "hi - lo \<le> lockMaxLiveTime env" and "\<not> EqualFold B A"
  shows "fst (RebalanceLockManager_TryLock env c2 grp mq B (RebalanceLockManager_UnlockBatch S grp mqs A manager1)) = False"
  unfolding UnlockBatch_id by (rule holder_excludes(1) [OF TryLock_got [OF assms(2,4,1)] assms(3-5)])

lemma unlock_keeps_lock_witness:
  "fst (RebalanceLockManager_TryLock [] (sconst 7) ''g'' 1 ''B'' (RebalanceLockManager_UnlockBatch list_set ''g'' [Mq 1] ''A''
     (fst (snd (RebalanceLockManager_TryLock [] (sconst 5) ''g'' 1 ''A'' NewRebalanceLockManager))))) = False"
proof -
  show ?thesis
    by (rule unlock_keeps_lock [OF example_lock, where lo = 5 and hi = 7])
      (simp_all add: during_def lockMaxLiveTime_def EqualFold_def fold_case_def fold_char_def)
qed

end
