(* ===== verification/OffsetM.thy ===== *)
theory OffsetM
  imports GoStrings GoPackages "HOL-Library.AList"
begin

text \<open>
  The consumer offsets a broker keeps: \<open>stgbroker/consumer_offset_manager.go\<close> and
  \<open>stgbroker/offset_table.go\<close>.

  The table maps the key of a topic and a group to a Go map from queue ids to offsets. A Go map is a reference, and
  \<open>CloneOffset\<close> stores one under two keys, so the maps live in a heap (a list, an address being an index) and
  the table holds addresses; a \<open>nil\<close> map never enters the table. The message store and the consumer manager are
  reached through functions the operations take as arguments; the store answers \<open>GetMinOffsetInQueue\<close> with a new state.
  Saving the table as JSON is not modelled.
\<close>

section \<open>State\<close>

type_synonym offset_map = "(int \<times> int) list"

record ConsumerOffsetManager =
  Offsets :: "(string \<times> nat) list"
  offset_maps :: "offset_map list"

definition NewConsumerOffsetManager :: ConsumerOffsetManager where
  "NewConsumerOffsetManager = \<lparr>Offsets = [], offset_maps = []\<rparr>"

definition offset_key :: "string \<Rightarrow> string \<Rightarrow> string" where
  "offset_key topic grp = topic @ ''@'' @ grp"

definition OffsetTable_Get :: "string \<Rightarrow> ConsumerOffsetManager \<Rightarrow> offset_map option" where
  "OffsetTable_Get k com = map_option (\<lambda>a. offset_maps com ! a) (map_of (Offsets com) k)"

definition OffsetTable_Size :: "ConsumerOffsetManager \<Rightarrow> int" where
  "OffsetTable_Size com = int (length (Offsets com))"

definition OffsetTable_Remove :: "string \<Rightarrow> ConsumerOffsetManager \<Rightarrow> offset_map option \<times> ConsumerOffsetManager" where
  "OffsetTable_Remove k com =
     (case map_of (Offsets com) k of
        None \<Rightarrow> (None, com)
      | Some a \<Rightarrow> (Some (offset_maps com ! a), com\<lparr>Offsets := AList.delete k (Offsets com)\<rparr>))"

text \<open>\<open>OffsetTable.Put\<close> of a map that was just made.\<close>

definition OffsetTable_PutNew :: "string \<Rightarrow> offset_map \<Rightarrow> ConsumerOffsetManager \<Rightarrow> ConsumerOffsetManager" where
  "OffsetTable_PutNew k v com =
     com\<lparr>Offsets := AList.update k (length (offset_maps com)) (Offsets com), offset_maps := offset_maps com @ [v]\<rparr>"

fun remove_by_flag ::
    "(string \<Rightarrow> offset_map \<Rightarrow> 'w \<Rightarrow> bool \<times> 'w) \<Rightarrow> offset_map list \<Rightarrow> (string \<times> nat) list \<Rightarrow> 'w \<Rightarrow> (string \<times> nat) list \<times> 'w" where
  "remove_by_flag f maps [] w = ([], w)"
| "remove_by_flag f maps ((k, a) # t) w =
     (case f k (maps ! a) w of
        (del, w1) \<Rightarrow> (case remove_by_flag f maps t w1 of (t1, w2) \<Rightarrow> (if del then t1 else (k, a) # t1, w2)))"

definition OffsetTable_RemoveByFlag ::
    "(string \<Rightarrow> offset_map \<Rightarrow> 'w \<Rightarrow> bool \<times> 'w) \<Rightarrow> ConsumerOffsetManager \<Rightarrow> 'w \<Rightarrow> ConsumerOffsetManager \<times> 'w" where
  "OffsetTable_RemoveByFlag f com w =
     (case remove_by_flag f (offset_maps com) (Offsets com) w of (t, w1) \<Rightarrow> (com\<lparr>Offsets := t\<rparr>, w1))"

text \<open>
  \<open>PutAll\<close>: an entry is \<open>None\<close> where its key is no string or its value no map of offsets. The maps come from a decoded
  answer of the master and are new.
\<close>

definition OffsetTable_PutAll :: "(string option \<times> offset_map option) list \<Rightarrow> ConsumerOffsetManager \<Rightarrow> ConsumerOffsetManager" where
  "OffsetTable_PutAll offsetMap com =
     fold (\<lambda>(kItem, vItem) c. case kItem of None \<Rightarrow> c
        | Some k \<Rightarrow> (case vItem of None \<Rightarrow> c | Some v \<Rightarrow> OffsetTable_PutNew k v c)) offsetMap com"

section \<open>Offsets of a group\<close>

definition ConsumerOffsetManager_QueryOffset :: "string \<Rightarrow> string \<Rightarrow> int \<Rightarrow> ConsumerOffsetManager \<Rightarrow> int" where
  "ConsumerOffsetManager_QueryOffset grp topic queueId com =
     (case OffsetTable_Get (offset_key topic grp) com of
        None \<Rightarrow> - 1
      | Some v \<Rightarrow> (case map_of v queueId of None \<Rightarrow> - 1 | Some offset \<Rightarrow> offset))"

definition ConsumerOffsetManager_QueryOffsetByGroupAndTopic ::
    "string \<Rightarrow> string \<Rightarrow> ConsumerOffsetManager \<Rightarrow> offset_map option" where
  "ConsumerOffsetManager_QueryOffsetByGroupAndTopic grp topic com = OffsetTable_Get (offset_key topic grp) com"

definition ConsumerOffsetManager_commitOffset :: "string \<Rightarrow> int \<Rightarrow> int \<Rightarrow> ConsumerOffsetManager \<Rightarrow> ConsumerOffsetManager" where
  "ConsumerOffsetManager_commitOffset key queueId offset com =
     (case map_of (Offsets com) key of
        None \<Rightarrow> OffsetTable_PutNew key [(queueId, offset)] com
      | Some a \<Rightarrow> com\<lparr>offset_maps := (offset_maps com)[a := AList.update queueId offset (offset_maps com ! a)]\<rparr>)"

definition ConsumerOffsetManager_CommitOffset ::
    "string \<Rightarrow> string \<Rightarrow> int \<Rightarrow> int \<Rightarrow> ConsumerOffsetManager \<Rightarrow> ConsumerOffsetManager" where
  "ConsumerOffsetManager_CommitOffset grp topic queueId offset com =
     ConsumerOffsetManager_commitOffset (offset_key topic grp) queueId offset com"

definition ConsumerOffsetManager_CloneOffset :: "string \<Rightarrow> string \<Rightarrow> string \<Rightarrow> ConsumerOffsetManager \<Rightarrow> ConsumerOffsetManager" where
  "ConsumerOffsetManager_CloneOffset srcGroup destGroup topic com =
     (case map_of (Offsets com) (offset_key topic srcGroup) of
        None \<Rightarrow> com
      | Some a \<Rightarrow> com\<lparr>Offsets := AList.update (offset_key topic destGroup) a (Offsets com)\<rparr>)"

section \<open>Scans of the table\<close>

fun offsetBehindMuchThanData ::
    "(string \<Rightarrow> int \<Rightarrow> 'ms \<Rightarrow> int \<times> 'ms) \<Rightarrow> string \<Rightarrow> offset_map \<Rightarrow> bool \<Rightarrow> 'ms \<Rightarrow> bool \<times> 'ms" where
  "offsetBehindMuchThanData GetMinOffsetInQueue topic [] result ms = (result, ms)"
| "offsetBehindMuchThanData GetMinOffsetInQueue topic ((key, offsetInPersist) # t) result ms =
     (case GetMinOffsetInQueue topic (to_int32 key) ms of
        (minOffsetInStore, ms1) \<Rightarrow>
          if offsetInPersist > minOffsetInStore then (False, ms1)
          else offsetBehindMuchThanData GetMinOffsetInQueue topic t result ms1)"

definition ConsumerOffsetManager_offsetBehindMuchThanData ::
    "(string \<Rightarrow> int \<Rightarrow> 'ms \<Rightarrow> int \<times> 'ms) \<Rightarrow> string \<Rightarrow> offset_map \<Rightarrow> 'ms \<Rightarrow> bool \<times> 'ms" where
  "ConsumerOffsetManager_offsetBehindMuchThanData GetMinOffsetInQueue topic offsetTable ms =
     offsetBehindMuchThanData GetMinOffsetInQueue topic offsetTable (length offsetTable > 0) ms"

definition ConsumerOffsetManager_ScanUnsubscribedTopic ::
    "(string \<Rightarrow> string \<Rightarrow> 'd option) \<Rightarrow> (string \<Rightarrow> int \<Rightarrow> 'ms \<Rightarrow> int \<times> 'ms) \<Rightarrow> ConsumerOffsetManager \<Rightarrow> 'ms \<Rightarrow>
     ConsumerOffsetManager \<times> 'ms" where
  "ConsumerOffsetManager_ScanUnsubscribedTopic FindSubscriptionData GetMinOffsetInQueue com ms =
     OffsetTable_RemoveByFlag
       (\<lambda>k v ms. case strings_Split CHR ''@'' k of
          [topic, grp] \<Rightarrow>
            (case ConsumerOffsetManager_offsetBehindMuchThanData GetMinOffsetInQueue topic v ms of
               (hasBehindMuchThanData, ms1) \<Rightarrow> (FindSubscriptionData grp topic = None \<and> hasBehindMuchThanData, ms1))
        | _ \<Rightarrow> (False, ms)) com ms"

definition ConsumerOffsetManager_WhichTopicByConsumer :: "(string, 's) set_ops \<Rightarrow> string \<Rightarrow> ConsumerOffsetManager \<Rightarrow> 's" where
  "ConsumerOffsetManager_WhichTopicByConsumer S grp com =
     fold (\<lambda>(topicAtGroup, _) topics. case strings_Split CHR ''@'' topicAtGroup of
        [t, g] \<Rightarrow> if EqualFold grp g then sAdd S t topics else topics
      | _ \<Rightarrow> topics) (Offsets com) (sNew S)"

definition ConsumerOffsetManager_WhichGroupByTopic :: "(string, 's) set_ops \<Rightarrow> string \<Rightarrow> ConsumerOffsetManager \<Rightarrow> 's" where
  "ConsumerOffsetManager_WhichGroupByTopic S topic com =
     fold (\<lambda>(topicAtGroup, _) groups. case strings_Split CHR ''@'' topicAtGroup of
        [t, g] \<Rightarrow> if EqualFold topic t then sAdd S g groups else groups
      | _ \<Rightarrow> groups) (Offsets com) (sNew S)"

definition MAX_VALUE :: int where
  "MAX_VALUE = 0x7fffffffffffffff"

definition min_int64 :: "int \<Rightarrow> int \<Rightarrow> int" where
  "min_int64 a b = (if a \<ge> b then b else a)"

fun min_queues ::
    "(string \<Rightarrow> int \<Rightarrow> 'ms \<Rightarrow> int \<times> 'ms) \<Rightarrow> string \<Rightarrow> offset_map \<Rightarrow> offset_map \<times> 'ms \<Rightarrow> offset_map \<times> 'ms" where
  "min_queues GetMinOffsetInQueue topic [] s = s"
| "min_queues GetMinOffsetInQueue topic ((k, v) # t) (queueMinOffset, ms) =
     (case GetMinOffsetInQueue topic (to_int32 k) ms of
        (minOffset, ms1) \<Rightarrow>
          min_queues GetMinOffsetInQueue topic t
            (if v \<ge> minOffset
             then (case map_of queueMinOffset k of
                     None \<Rightarrow> AList.update k (min_int64 MAX_VALUE v) queueMinOffset
                   | Some offset \<Rightarrow> AList.update k (min_int64 v offset) queueMinOffset)
             else queueMinOffset, ms1))"

definition filter_group :: "string \<Rightarrow> ConsumerOffsetManager \<Rightarrow> ConsumerOffsetManager" where
  "filter_group grp com =
     fst (OffsetTable_RemoveByFlag
       (\<lambda>topicAtGroup v w. (case strings_Split CHR ''@'' topicAtGroup of [t, g] \<Rightarrow> EqualFold grp g | _ \<Rightarrow> False, w)) com ())"

definition min_tables ::
    "(string \<Rightarrow> int \<Rightarrow> 'ms \<Rightarrow> int \<times> 'ms) \<Rightarrow> string \<Rightarrow> ConsumerOffsetManager \<Rightarrow> offset_map \<times> 'ms \<Rightarrow> offset_map \<times> 'ms" where
  "min_tables GetMinOffsetInQueue topic com =
     fold (\<lambda>(topicAtGroup, a) s. case strings_Split CHR ''@'' topicAtGroup of
        [t, g] \<Rightarrow> if EqualFold topic t then min_queues GetMinOffsetInQueue topic (offset_maps com ! a) s else s
      | _ \<Rightarrow> s) (Offsets com)"

definition ConsumerOffsetManager_QueryMinOffsetInAllGroup ::
    "(string \<Rightarrow> int \<Rightarrow> 'ms \<Rightarrow> int \<times> 'ms) \<Rightarrow> string \<Rightarrow> string \<Rightarrow> ConsumerOffsetManager \<Rightarrow> 'ms \<Rightarrow>
     offset_map \<times> ConsumerOffsetManager \<times> 'ms" where
  "ConsumerOffsetManager_QueryMinOffsetInAllGroup GetMinOffsetInQueue topic filterGroups com ms =
     (let com1 = (if \<not> IsBlank filterGroups then fold filter_group (strings_Split CHR '','' filterGroups) com else com)
      in case min_tables GetMinOffsetInQueue topic com1 ([], ms) of
           (queueMinOffset, ms1) \<Rightarrow> (queueMinOffset, com1, ms1))"

section \<open>The least offset of all groups\<close>

text \<open>
  The offsets of all groups for a topic that the store still has, and the least of them for a queue: what
  \<open>QueryMinOffsetInAllGroup\<close> is to return.
\<close>

definition topic_key_of :: "string \<Rightarrow> string \<Rightarrow> bool" where
  "topic_key_of topic key \<longleftrightarrow> (case strings_Split CHR ''@'' key of [t, g] \<Rightarrow> EqualFold topic t | _ \<Rightarrow> False)"

definition group_offsets :: "string \<Rightarrow> ConsumerOffsetManager \<Rightarrow> (int \<times> int) list" where
  "group_offsets topic com = concat [offset_maps com ! a. (key, a) \<leftarrow> Offsets com, topic_key_of topic key]"

definition least_offset :: "(int \<times> int) list \<Rightarrow> int \<Rightarrow> int option" where
  "least_offset cs k = (if k \<in> fst ` set cs then Some (Min {v. (k, v) \<in> set cs}) else None)"

definition note_offset :: "int \<times> int \<Rightarrow> (int \<rightharpoonup> int) \<Rightarrow> (int \<rightharpoonup> int)" where
  "note_offset c m = m(fst c \<mapsto> (case m (fst c) of None \<Rightarrow> snd c | Some offset \<Rightarrow> min (snd c) offset))"

lemma least_offset_append:
  "least_offset (cs @ [(k, v)]) = note_offset (k, v) (least_offset cs)"
proof
  fix x
  have f: "finite {v. (x, v) \<in> set cs}"
    by (rule finite_subset [of _ "snd ` set cs"]) (auto intro: rev_image_eqI)
  show "least_offset (cs @ [(k, v)]) x = note_offset (k, v) (least_offset cs) x"
  proof (cases "x = k")
    case True
    have "{v'. (k, v') \<in> set (cs @ [(k, v)])} = insert v {v'. (k, v') \<in> set cs}" by auto
    with f True show ?thesis
      by (cases "{v'. (k, v') \<in> set cs} = {}") (force simp: least_offset_def note_offset_def image_iff min.commute)+
  qed (auto simp: least_offset_def note_offset_def)
qed

lemma fold_note_offset: "fold note_offset cs Map.empty = least_offset cs"
proof (induction cs rule: rev_induct)
  case Nil
  show ?case by (auto simp: least_offset_def)
next
  case (snoc c cs)
  then show ?case by (cases c) (simp add: least_offset_append)
qed

text \<open>The offset has not been deleted from the store.\<close>

definition still_stored :: "(string \<Rightarrow> int \<Rightarrow> 'ms \<Rightarrow> int \<times> 'ms) \<Rightarrow> 'ms \<Rightarrow> string \<Rightarrow> int \<times> int \<Rightarrow> bool" where
  "still_stored GetMin ms topic c \<longleftrightarrow> snd c \<ge> fst (GetMin topic (to_int32 (fst c)) ms)"

lemma min_tables_alt:
  "min_tables GetMin topic com s =
     fold (\<lambda>(key, a) s. if topic_key_of topic key then min_queues GetMin topic (offset_maps com ! a) s else s) (Offsets com) s"
  unfolding min_tables_def by (intro fold_cong) (auto simp: topic_key_of_def fun_eq_iff split: list.splits)

text \<open>
  What the scans rely on: asking the store for the first offset of a queue may create the queue, but changes
  no answer.
\<close>

locale min_offset_source =
  fixes GetMin :: "string \<Rightarrow> int \<Rightarrow> 'ms \<Rightarrow> int \<times> 'ms"
  assumes answers_kept: "fst (GetMin t q (snd (GetMin t1 q1 ms))) = fst (GetMin t q ms)"
begin

lemma still_stored_kept [simp]: "still_stored GetMin (snd (GetMin t1 q1 ms)) = still_stored GetMin ms"
  by (simp add: still_stored_def answers_kept fun_eq_iff)

lemma min_queues_fold:
  assumes "\<forall>c \<in> set cs. snd c \<le> MAX_VALUE"
  shows "map_of (fst (min_queues GetMin topic cs (q, ms))) =
      fold note_offset (filter (still_stored GetMin ms topic) cs) (map_of q) \<and>
    still_stored GetMin (snd (min_queues GetMin topic cs (q, ms))) = still_stored GetMin ms"
  using assms
proof (induction cs arbitrary: q ms)
  case (Cons c cs)
  obtain k v where c: "c = (k, v)" by (cases c)
  obtain m ms1 where g: "GetMin topic (to_int32 k) ms = (m, ms1)" by (cases "GetMin topic (to_int32 k) ms")
  have s: "still_stored GetMin ms1 = still_stored GetMin ms" using still_stored_kept [of topic "to_int32 k" ms] by (simp add: g)
  have "v \<ge> m \<longleftrightarrow> still_stored GetMin ms topic c" by (simp add: still_stored_def c g)
  moreover have "map_of (case map_of q k of None \<Rightarrow> AList.update k (min_int64 MAX_VALUE v) q
      | Some offset \<Rightarrow> AList.update k (min_int64 v offset) q) = note_offset c (map_of q)"
    using Cons.prems(1) by (auto simp: note_offset_def c min_int64_def update_conv' split: option.splits)
  ultimately show ?case using Cons.IH [where ms = ms1] Cons.prems by (simp add: c g s)
qed simp

lemma tables_fold:
  assumes "\<forall>(k, a) \<in> set t. \<forall>c \<in> set (maps ! a). snd c \<le> MAX_VALUE"
  shows "map_of (fst (fold (\<lambda>(key, a) s. if topic_key_of topic key then min_queues GetMin topic (maps ! a) s else s) t (q, ms))) =
    fold note_offset (filter (still_stored GetMin ms topic) (concat [maps ! a. (key, a) \<leftarrow> t, topic_key_of topic key])) (map_of q)"
  using assms
proof (induction t arbitrary: q ms)
  case (Cons e t)
  obtain key a where e: "e = (key, a)" by (cases e)
  from Cons.prems have "\<forall>c \<in> set (maps ! a). snd c \<le> MAX_VALUE" by (simp add: e)
  note q = min_queues_fold [OF this, of topic q ms]
  show ?case
    using q Cons.prems Cons.IH [of "fst (min_queues GetMin topic (maps ! a) (q, ms))" "snd (min_queues GetMin topic (maps ! a) (q, ms))"]
      Cons.IH [of q ms]
    by (simp add: e)
qed simp

lemma min_tables_least:
  assumes "\<forall>m \<in> set (offset_maps com). \<forall>c \<in> set m. snd c \<le> MAX_VALUE" and "\<forall>(k, a) \<in> set (Offsets com). a < length (offset_maps com)"
  shows "map_of (fst (min_tables GetMin topic com ([], ms))) =
    least_offset (filter (still_stored GetMin ms topic) (group_offsets topic com))"
proof -
  have "\<forall>(k, a) \<in> set (Offsets com). \<forall>c \<in> set (offset_maps com ! a). snd c \<le> MAX_VALUE"
    using assms by (auto simp: all_set_conv_all_nth)
  from tables_fold [OF this, of topic "[]" ms] show ?thesis
    by (simp add: min_tables_alt group_offsets_def fold_note_offset)
qed

end

section \<open>Scanning for forgotten groups\<close>

lemma RemoveByFlag_fst:
  "fst (OffsetTable_RemoveByFlag f com w) = com\<lparr>Offsets := fst (remove_by_flag f (offset_maps com) (Offsets com) w)\<rparr>"
  by (simp add: OffsetTable_RemoveByFlag_def split_beta)

lemma remove_by_flag_pure:
  assumes "\<And>k m w. I w \<Longrightarrow> fst (f k m w) = P k m \<and> I (snd (f k m w))" and "I w"
  shows "fst (remove_by_flag f maps t w) = filter (\<lambda>(k, a). \<not> P k (maps ! a)) t"
  using assms(2)
proof (induction t arbitrary: w)
  case (Cons e t)
  obtain k a where e: "e = (k, a)" by (cases e)
  obtain del w1 where d: "f k (maps ! a) w = (del, w1)" by (cases "f k (maps ! a) w")
  have "del = P k (maps ! a)" "I w1" using assms(1) [OF Cons.prems, of k "maps ! a"] by (simp_all add: d)
  with Cons.IH [of w1] show ?case by (cases "remove_by_flag f maps t w1") (simp add: e d)
qed simp

text \<open>
  The entry of a topic and a group is out of date: the group has no subscription to the topic now, and all its offsets
  are at most the first the store has.
\<close>

definition out_of_date :: "(string \<Rightarrow> int \<Rightarrow> 'ms \<Rightarrow> int \<times> 'ms) \<Rightarrow> (string \<Rightarrow> string \<Rightarrow> 'd option) \<Rightarrow> 'ms \<Rightarrow> string \<Rightarrow>
    offset_map \<Rightarrow> bool" where
  "out_of_date GetMin FindSub ms key m \<longleftrightarrow> (case strings_Split CHR ''@'' key of
     [topic, grp] \<Rightarrow> FindSub grp topic = None \<and> m \<noteq> [] \<and> (\<forall>(q, offset) \<in> set m. offset \<le> fst (GetMin topic (to_int32 q) ms))
   | _ \<Rightarrow> False)"

context min_offset_source
begin

lemma behind_all:
  assumes "\<forall>t q. fst (GetMin t q ms1) = fst (GetMin t q ms)"
  shows "(fst (offsetBehindMuchThanData GetMin topic m r ms1) \<longleftrightarrow>
       r \<and> (\<forall>(q, offset) \<in> set m. offset \<le> fst (GetMin topic (to_int32 q) ms))) \<and>
     (\<forall>t q. fst (GetMin t q (snd (offsetBehindMuchThanData GetMin topic m r ms1))) = fst (GetMin t q ms))"
  using assms
proof (induction m arbitrary: ms1)
  case (Cons c m)
  obtain q v where c: "c = (q, v)" by (cases c)
  obtain x ms2 where g: "GetMin topic (to_int32 q) ms1 = (x, ms2)" by (cases "GetMin topic (to_int32 q) ms1")
  have "\<forall>t q1. fst (GetMin t q1 ms2) = fst (GetMin t q1 ms)"
    using answers_kept [of _ _ topic "to_int32 q" ms1] Cons.prems by (simp add: g)
  moreover have "fst (GetMin topic (to_int32 q) ms) = x" using Cons.prems g by (metis fst_conv)
  ultimately show ?case using Cons.IH [of ms2] by (simp add: c g)
qed simp

lemma scan_exact:
  "fst (ConsumerOffsetManager_ScanUnsubscribedTopic FindSub GetMin com ms) =
     com\<lparr>Offsets := filter (\<lambda>(k, a). \<not> out_of_date GetMin FindSub ms k (offset_maps com ! a)) (Offsets com)\<rparr>"
proof -
  let ?f = "\<lambda>k v ms. case strings_Split CHR ''@'' k of
          [topic, grp] \<Rightarrow>
            (case ConsumerOffsetManager_offsetBehindMuchThanData GetMin topic v ms of
               (hasBehindMuchThanData, ms1) \<Rightarrow> (FindSub grp topic = None \<and> hasBehindMuchThanData, ms1))
        | _ \<Rightarrow> (False, ms)"
  have "fst (?f k m w) = out_of_date GetMin FindSub ms k m \<and> (\<forall>t q. fst (GetMin t q (snd (?f k m w))) = fst (GetMin t q ms))"
    if "\<forall>t q. fst (GetMin t q w) = fst (GetMin t q ms)" for k m w
    using behind_all [OF that, of _ m "length m > 0"] that
    by (simp add: out_of_date_def ConsumerOffsetManager_offsetBehindMuchThanData_def case_prod_beta split: list.splits)
  from remove_by_flag_pure [of "\<lambda>w. \<forall>t q. fst (GetMin t q w) = fst (GetMin t q ms)" ?f, OF this]
  show ?thesis by (simp add: ConsumerOffsetManager_ScanUnsubscribedTopic_def RemoveByFlag_fst)
qed

end

section \<open>Reachable tables\<close>

lemma remove_by_flag_filter:
  "remove_by_flag f maps t w = (t1, w1) \<Longrightarrow> distinct t \<Longrightarrow> \<exists>P. t1 = filter P t"
proof (induction t arbitrary: w t1 w1)
  case (Cons e t)
  obtain k a where e: "e = (k, a)" by (cases e)
  obtain del w2 where d: "f k (maps ! a) w = (del, w2)" by (cases "f k (maps ! a) w")
  obtain t2 w3 where r: "remove_by_flag f maps t w2 = (t2, w3)" by (cases "remove_by_flag f maps t w2")
  from Cons.IH [OF r] Cons.prems(2) obtain P where P: "t2 = filter P t" by auto
  have "filter (P(e := \<not> del)) t = filter P t" using Cons.prems(2) by (intro filter_cong) auto
  then have "t1 = filter (P(e := \<not> del)) (e # t)" using Cons.prems(1) by (auto simp: e d r P)
  then show ?case by blast
qed simp

text \<open>
  \<open>cl\<close> says whether offsets may have been cloned. The two scans that delete entries delete some of them,
  whatever the store and the consumer manager answer.
\<close>

inductive offset_reach :: "bool \<Rightarrow> ConsumerOffsetManager \<Rightarrow> bool" for cl where
  start: "offset_reach cl NewConsumerOffsetManager"
| commit: "offset_reach cl com \<Longrightarrow> offset_reach cl (ConsumerOffsetManager_CommitOffset grp topic queueId offset com)"
| put_all: "offset_reach cl com \<Longrightarrow> offset_reach cl (OffsetTable_PutAll offsetMap com)"
| remove: "offset_reach cl com \<Longrightarrow> offset_reach cl (com\<lparr>Offsets := filter P (Offsets com)\<rparr>)"
| clone: "cl \<Longrightarrow> offset_reach cl com \<Longrightarrow> offset_reach cl (ConsumerOffsetManager_CloneOffset srcGroup destGroup topic com)"

definition offsets_ok :: "bool \<Rightarrow> ConsumerOffsetManager \<Rightarrow> bool" where
  "offsets_ok cl com \<longleftrightarrow> distinct (map fst (Offsets com)) \<and> (\<forall>(k, a) \<in> set (Offsets com). a < length (offset_maps com)) \<and>
     (\<not> cl \<longrightarrow> distinct (map snd (Offsets com)))"

lemma distinct_update_new:
  "distinct (map snd t) \<Longrightarrow> v \<notin> snd ` set t \<Longrightarrow> distinct (map snd (AList.update k v t))"
  by (induction t) (auto dest: set_update_cases)

lemma PutNew_ok: "offsets_ok cl com \<Longrightarrow> offsets_ok cl (OffsetTable_PutNew k v com)"
  by (fastforce simp: offsets_ok_def OffsetTable_PutNew_def distinct_update dest!: set_update_cases intro!: distinct_update_new)

lemma offset_reach_ok: "offset_reach cl com \<Longrightarrow> offsets_ok cl com"
proof (induction rule: offset_reach.induct)
  case (put_all com offsetMap)
  from put_all(2) show ?case unfolding OffsetTable_PutAll_def
    by (induction offsetMap arbitrary: com) (simp_all add: PutNew_ok split: prod.splits option.splits)
next
  case (commit com grp topic queueId offset)
  then show ?case
    by (auto simp: ConsumerOffsetManager_CommitOffset_def ConsumerOffsetManager_commitOffset_def intro: PutNew_ok split: option.splits)
      (simp add: offsets_ok_def)
next
  case (remove com P)
  then show ?case by (auto simp: offsets_ok_def distinct_map_filter)
next
  case (clone com srcGroup destGroup topic)
  then show ?case
    by (auto simp: ConsumerOffsetManager_CloneOffset_def offsets_ok_def distinct_update dest!: set_update_cases map_of_SomeD
        split: option.splits)
qed (simp add: offsets_ok_def NewConsumerOffsetManager_def)

lemma RemoveByFlag_reach: "offset_reach cl com \<Longrightarrow> offset_reach cl (fst (OffsetTable_RemoveByFlag f com w))"
proof -
  assume r: "offset_reach cl com"
  obtain t w1 where f: "remove_by_flag f (offset_maps com) (Offsets com) w = (t, w1)" by fastforce
  have "distinct (Offsets com)" using offset_reach_ok [OF r] by (auto simp: offsets_ok_def distinct_map)
  with remove_by_flag_filter [OF f] offset_reach.remove [OF r] f show ?thesis by (auto simp: OffsetTable_RemoveByFlag_def)
qed

lemma scan_reach:
  "offset_reach cl com \<Longrightarrow> offset_reach cl (fst (ConsumerOffsetManager_ScanUnsubscribedTopic FindSub GetMin com ms))"
  unfolding ConsumerOffsetManager_ScanUnsubscribedTopic_def by (rule RemoveByFlag_reach)

lemma query_min_reach:
  "offset_reach cl com \<Longrightarrow> offset_reach cl (fst (snd (ConsumerOffsetManager_QueryMinOffsetInAllGroup GetMin topic filterGroups com ms)))"
proof -
  have "offset_reach cl com \<Longrightarrow> offset_reach cl (fold filter_group gs com)" for gs
    by (induction gs arbitrary: com) (auto simp: filter_group_def intro: RemoveByFlag_reach)
  then show "offset_reach cl com \<Longrightarrow> ?thesis"
    by (simp add: ConsumerOffsetManager_QueryMinOffsetInAllGroup_def Let_def split: prod.splits)
qed

lemma append_sep_inj:
  "x \<notin> set xs \<Longrightarrow> x \<notin> set ys \<Longrightarrow> xs @ x # as = ys @ x # bs \<longleftrightarrow> xs = ys \<and> as = bs"
proof (induction xs arbitrary: ys)
  case Nil
  then show ?case by (cases ys) auto
next
  case (Cons a xs)
  then show ?case by (cases ys) auto
qed

lemma offset_key_inj:
  "CHR ''@'' \<notin> set t1 \<Longrightarrow> CHR ''@'' \<notin> set t2 \<Longrightarrow> offset_key t1 g1 = offset_key t2 g2 \<longleftrightarrow> t1 = t2 \<and> g1 = g2"
  using append_sep_inj by (simp add: offset_key_def)

lemma Get_commit:
  assumes "offsets_ok False com"
  shows "OffsetTable_Get k (ConsumerOffsetManager_commitOffset key queueId offset com) =
    (if k = key then Some (case OffsetTable_Get key com of None \<Rightarrow> [(queueId, offset)] | Some m \<Rightarrow> AList.update queueId offset m)
     else OffsetTable_Get k com)"
proof (cases "map_of (Offsets com) key")
  case None
  have "b < length (offset_maps com)" if "map_of (Offsets com) k = Some b" for b
    using assms map_of_SomeD [OF that] by (auto simp: offsets_ok_def)
  with None show ?thesis
    by (cases "map_of (Offsets com) k")
      (auto simp: ConsumerOffsetManager_commitOffset_def OffsetTable_PutNew_def OffsetTable_Get_def update_conv' nth_append)
next
  case (Some a)
  have "a < length (offset_maps com)" using assms map_of_SomeD [OF Some] by (auto simp: offsets_ok_def)
  moreover have "b \<noteq> a" if "map_of (Offsets com) k = Some b" "k \<noteq> key" for b
    using assms map_of_SomeD [OF Some] map_of_SomeD [OF that(1)] that(2) inj_onD [of snd "set (Offsets com)" "(key, a)" "(k, b)"]
    by (auto simp: offsets_ok_def distinct_map)
  ultimately show ?thesis using Some
    by (cases "map_of (Offsets com) k") (auto simp: ConsumerOffsetManager_commitOffset_def OffsetTable_Get_def)
qed

text \<open>
  C17 (offsets read back). In every state reached without \<open>CloneOffset\<close>, a committed offset is what \<open>QueryOffset\<close>
  returns for its group, topic and queue, and the offset of every other group, topic or queue is what it was.
\<close>

theorem commit_then_query:
  assumes "offset_reach False com" and "CHR ''@'' \<notin> set topic" and "CHR ''@'' \<notin> set topic1"
  shows "ConsumerOffsetManager_QueryOffset grp1 topic1 queueId1 (ConsumerOffsetManager_CommitOffset grp topic queueId offset com) =
    (if grp1 = grp \<and> topic1 = topic \<and> queueId1 = queueId then offset
     else ConsumerOffsetManager_QueryOffset grp1 topic1 queueId1 com)"
  using Get_commit [OF offset_reach_ok [OF assms(1)]] offset_key_inj [OF assms(3,2)]
  by (auto simp: ConsumerOffsetManager_QueryOffset_def ConsumerOffsetManager_CommitOffset_def update_conv' split: option.splits)

theorem commit_then_query_witness:
  "ConsumerOffsetManager_QueryOffset ''g'' ''t'' 2 (ConsumerOffsetManager_CommitOffset ''g'' ''t'' 3 9
     (ConsumerOffsetManager_CommitOffset ''g'' ''t'' 2 5 NewConsumerOffsetManager)) = 5"
  by (simp add: commit_then_query [OF offset_reach.commit [OF offset_reach.start]] commit_then_query [OF offset_reach.start])

text \<open>
  A cloned offset is shared. After \<open>CloneOffset\<close> the two groups have one map: what is committed for the
  group that got the clone is read back for the group it was cloned from.
\<close>

lemma clone_shares_offsets:
  assumes "offset_reach True com" and "ConsumerOffsetManager_QueryOffsetByGroupAndTopic srcGroup topic com \<noteq> None"
  shows "ConsumerOffsetManager_QueryOffset srcGroup topic queueId (ConsumerOffsetManager_CommitOffset destGroup topic queueId offset
      (ConsumerOffsetManager_CloneOffset srcGroup destGroup topic com)) = offset"
proof -
  obtain a where a: "map_of (Offsets com) (offset_key topic srcGroup) = Some a"
    using assms(2) by (auto simp: ConsumerOffsetManager_QueryOffsetByGroupAndTopic_def OffsetTable_Get_def)
  have "a < length (offset_maps com)" using offset_reach_ok [OF assms(1)] map_of_SomeD [OF a] by (auto simp: offsets_ok_def)
  with a show ?thesis
    by (simp add: ConsumerOffsetManager_QueryOffset_def ConsumerOffsetManager_CommitOffset_def ConsumerOffsetManager_commitOffset_def
        ConsumerOffsetManager_CloneOffset_def OffsetTable_Get_def update_conv')
qed

lemma clone_shares_offsets_witness:
  "ConsumerOffsetManager_QueryOffset ''g'' ''t'' 2 (ConsumerOffsetManager_CommitOffset ''h'' ''t'' 2 9
     (ConsumerOffsetManager_CloneOffset ''g'' ''h'' ''t''
       (ConsumerOffsetManager_CommitOffset ''g'' ''t'' 2 5 NewConsumerOffsetManager))) = 9"
  by (rule clone_shares_offsets [OF offset_reach.commit [OF offset_reach.start]])
    (simp add: ConsumerOffsetManager_QueryOffsetByGroupAndTopic_def ConsumerOffsetManager_CommitOffset_def
      ConsumerOffsetManager_commitOffset_def NewConsumerOffsetManager_def OffsetTable_PutNew_def OffsetTable_Get_def)

section \<open>Filtered groups\<close>

definition group_key_of :: "string \<Rightarrow> string \<Rightarrow> bool" where
  "group_key_of grp key \<longleftrightarrow> (case strings_Split CHR ''@'' key of [t, g] \<Rightarrow> EqualFold grp g | _ \<Rightarrow> False)"

lemma filter_group_alt:
  "filter_group grp com = com\<lparr>Offsets := filter (\<lambda>(k, a). \<not> group_key_of grp k) (Offsets com)\<rparr>"
  unfolding filter_group_def RemoveByFlag_fst
  by (subst remove_by_flag_pure [where I = "\<lambda>_. True" and P = "\<lambda>k m. group_key_of grp k"]) (auto simp: group_key_of_def)

lemma filter_groups_alt:
  "fold filter_group gs com = com\<lparr>Offsets := filter (\<lambda>(k, a). \<forall>g \<in> set gs. \<not> group_key_of g k) (Offsets com)\<rparr>"
  by (induction gs arbitrary: com) (simp_all add: filter_group_alt case_prod_unfold)

text \<open>
  Asking for the least offset loses offsets. \<open>QueryMinOffsetInAllGroup\<close> with a list of groups to leave
  out deletes the offsets of these groups: afterwards \<open>QueryOffset\<close> knows no offset of such a group for any topic.
\<close>

lemma query_min_forgets:
  assumes "grp \<in> set (strings_Split CHR '','' filterGroups)" and "\<not> IsBlank filterGroups"
    and "CHR ''@'' \<notin> set topic1" and "CHR ''@'' \<notin> set grp"
  shows "ConsumerOffsetManager_QueryOffset grp topic1 queueId
    (fst (snd (ConsumerOffsetManager_QueryMinOffsetInAllGroup GetMin topic filterGroups com ms))) = - 1"
proof -
  have "group_key_of grp (offset_key topic1 grp)"
    using assms(3,4) by (simp add: group_key_of_def offset_key_def strings_Split_two strings_Split_none)
  then have "map_of (filter (\<lambda>(k, a). \<forall>g \<in> set (strings_Split CHR '','' filterGroups). \<not> group_key_of g k) (Offsets com))
      (offset_key topic1 grp) = None"
    using assms(1) by (auto simp: map_of_eq_None_iff)
  with assms(2) show ?thesis
    by (simp add: ConsumerOffsetManager_QueryMinOffsetInAllGroup_def filter_groups_alt ConsumerOffsetManager_QueryOffset_def
        OffsetTable_Get_def split_beta Let_def)
qed

lemma query_min_forgets_witness:
  "let com = ConsumerOffsetManager_CommitOffset ''g'' ''t'' 2 5 NewConsumerOffsetManager in
   ConsumerOffsetManager_QueryOffset ''g'' ''t'' 2 com = 5 \<and>
   ConsumerOffsetManager_QueryOffset ''g'' ''t'' 2
     (fst (snd (ConsumerOffsetManager_QueryMinOffsetInAllGroup (\<lambda>t q ms. (0, ms)) ''u'' ''f,g'' com ()))) = - 1"
  unfolding Let_def
  by (rule conjI) (simp add: ConsumerOffsetManager_QueryOffset_def ConsumerOffsetManager_CommitOffset_def
      ConsumerOffsetManager_commitOffset_def NewConsumerOffsetManager_def OffsetTable_PutNew_def OffsetTable_Get_def,
      rule query_min_forgets, simp_all add: IsBlank_def)

section \<open>The reference for the least offset\<close>

text \<open>The table without the groups to leave out, and the range of the offsets in it.\<close>

definition without_groups :: "string \<Rightarrow> ConsumerOffsetManager \<Rightarrow> ConsumerOffsetManager" where
  "without_groups filterGroups com =
     (if IsBlank filterGroups then com
      else com\<lparr>Offsets := filter (\<lambda>(k, a). \<forall>g \<in> set (strings_Split CHR '','' filterGroups). \<not> group_key_of g k) (Offsets com)\<rparr>)"

definition int64_offsets :: "ConsumerOffsetManager \<Rightarrow> bool" where
  "int64_offsets com \<longleftrightarrow> (\<forall>m \<in> set (offset_maps com). \<forall>c \<in> set m. in_int 64 (snd c))"

context min_offset_source
begin

lemma query_min_least:
  assumes "offset_reach cl com" and "int64_offsets com"
  shows "map_of (fst (ConsumerOffsetManager_QueryMinOffsetInAllGroup GetMin topic filterGroups com ms)) =
    least_offset (filter (still_stored GetMin ms topic) (group_offsets topic (without_groups filterGroups com)))"
proof -
  let ?com = "without_groups filterGroups com"
  have "\<forall>m \<in> set (offset_maps ?com). \<forall>c \<in> set m. snd c \<le> MAX_VALUE"
    using assms(2) by (auto simp: without_groups_def int64_offsets_def in_int_def MAX_VALUE_def less_le_trans dest!: bspec)
  moreover have "\<forall>(k, a) \<in> set (Offsets ?com). a < length (offset_maps ?com)"
    using offset_reach_ok [OF assms(1)] by (auto simp: without_groups_def offsets_ok_def)
  ultimately have "map_of (fst (min_tables GetMin topic ?com ([], ms))) =
      least_offset (filter (still_stored GetMin ms topic) (group_offsets topic ?com))"
    by (rule min_tables_least)
  moreover have "fst (ConsumerOffsetManager_QueryMinOffsetInAllGroup GetMin topic filterGroups com ms) =
      fst (min_tables GetMin topic ?com ([], ms))"
    by (simp add: ConsumerOffsetManager_QueryMinOffsetInAllGroup_def without_groups_def filter_groups_alt Let_def split_beta)
  ultimately show ?thesis by simp
qed

end

end
