(* ===== verification/BrokerClientsM.thy ===== *)
theory BrokerClientsM
  imports MessageM GoStrings GoPackages
begin

text \<open>
  The clients a broker knows: \<open>stgbroker/client/consumer_manager.go\<close>, \<open>Consumer_group_info.go\<close>,
  \<open>producer_manager.go\<close>, \<open>producer_group_conn_table.go\<close>, \<open>client_channel_info.go\<close>,
  \<open>stgbroker/default_consumer_ids_change_listener.go\<close> and the subscription data of
  \<open>stgcommon/protocol/heartbeat/\<close>.

  A connection is its address \<open>ctx.Addr()\<close>. One \<open>ChannelInfo\<close> may be in the tables of several groups and is
  updated through any of them, so the infos live in a heap (a list) and the tables hold their indices. The same
  holds for the subscriptions of a group. The tables of the consumer manager are concurrent maps, whose
  functions are arguments. Connections that are closed and notifications that are sent are recorded. Each operation is
  one step. Log output is not modelled.
\<close>

section \<open>Data\<close>

record ChannelInfo =
  ci_Context :: string
  ci_ClientId :: string
  ci_LanguageCode :: string
  ci_Addr :: string
  ci_Version :: int
  ci_LastUpdateTimestamp :: int

text \<open>\<open>now\<close> is the time in seconds.\<close>

definition NewClientChannelInfo :: "int \<Rightarrow> string \<Rightarrow> string \<Rightarrow> string \<Rightarrow> string \<Rightarrow> int \<Rightarrow> ChannelInfo" where
  "NewClientChannelInfo now ctx clientId languageCode addr version =
     \<lparr>ci_Context = ctx, ci_ClientId = clientId, ci_LanguageCode = languageCode, ci_Addr = addr, ci_Version = version,
      ci_LastUpdateTimestamp = now * 1000\<rparr>"

datatype ConsumeType = CONSUME_ACTIVELY | CONSUME_PASSIVELY
datatype MessageModel = BROADCASTING | CLUSTERING
datatype ConsumeFromWhere = CONSUME_FROM_LAST_OFFSET | CONSUME_FROM_FIRST_OFFSET | CONSUME_FROM_TIMESTAMP

record SubscriptionDataPlus =
  SUB_ALL :: string
  ClassFilterMode :: bool
  sd_Topic :: string
  SubString :: string
  TagsSet :: "string list"
  CodeSet :: "int list"
  SubVersion :: int

record ('st, 'ct) ConsumerGroupInfo =
  cg_GroupName :: string
  SubscriptionTable :: 'st
  ConnTable :: 'ct
  cg_ConsumeType :: ConsumeType
  cg_MessageModel :: MessageModel
  cg_ConsumeFromWhere :: ConsumeFromWhere
  cg_lastUpdateTimestamp :: int
  cg_cells :: "SubscriptionDataPlus list"

record 'gt ConsumerManager =
  consumerTable :: 'gt
  ChannelExpiredTimeout :: int

text \<open>The heap of channel infos, the closed connections, and the notifications: connection and group.\<close>

record client_world =
  channels :: "ChannelInfo list"
  closed :: "string list"
  notified :: "(string \<times> string) list"

text \<open>The three kinds of map.\<close>

record ('st, 'ct, 'gt) client_maps =
  subMap :: "(string, nat, 'st) cmap_ops"
  connMap :: "(string, nat, 'ct) cmap_ops"
  groupMap :: "(string, ('st, 'ct) ConsumerGroupInfo, 'gt) cmap_ops"

definition client_laws :: "('st, 'ct, 'gt) client_maps \<Rightarrow> bool" where
  "client_laws M \<longleftrightarrow> cmap_laws (subMap M) \<and> cmap_laws (connMap M) \<and> cmap_laws (groupMap M)"

section \<open>ConsumerGroupInfo\<close>

definition NewConsumerGroupInfo ::
    "('st, 'ct, 'gt) client_maps \<Rightarrow> string \<Rightarrow> ConsumeType \<Rightarrow> MessageModel \<Rightarrow> ConsumeFromWhere \<Rightarrow> ('st, 'ct) ConsumerGroupInfo" where
  "NewConsumerGroupInfo M groupName consumeType messageModel consumeFromWhere =
     \<lparr>cg_GroupName = groupName, SubscriptionTable = mNew (subMap M), ConnTable = mNew (connMap M), cg_ConsumeType = consumeType,
      cg_MessageModel = messageModel, cg_ConsumeFromWhere = consumeFromWhere, cg_lastUpdateTimestamp = 0, cg_cells = []\<rparr>"

definition ConsumerGroupInfo_FindSubscriptionDataPlus ::
    "('st, 'ct, 'gt) client_maps \<Rightarrow> string \<Rightarrow> ('st, 'ct) ConsumerGroupInfo \<Rightarrow> SubscriptionDataPlus option" where
  "ConsumerGroupInfo_FindSubscriptionDataPlus M topic cg =
     map_option (\<lambda>a. cg_cells cg ! a) (mGet (subMap M) topic (SubscriptionTable cg))"

definition ConsumerGroupInfo_UpdateChannel ::
    "('st, 'ct, 'gt) client_maps \<Rightarrow> int \<Rightarrow> nat \<Rightarrow> ConsumeType \<Rightarrow> MessageModel \<Rightarrow> ConsumeFromWhere \<Rightarrow> ('st, 'ct) ConsumerGroupInfo \<Rightarrow>
     client_world \<Rightarrow> bool \<times> ('st, 'ct) ConsumerGroupInfo \<times> client_world" where
  "ConsumerGroupInfo_UpdateChannel M now infoNew consumeType messageModel consumeFromWhere cg w =
     (let cg1 = cg\<lparr>cg_ConsumeType := consumeType, cg_MessageModel := messageModel, cg_ConsumeFromWhere := consumeFromWhere\<rparr>;
          new = channels w ! infoNew;
          put = cg1\<lparr>ConnTable := mPut (connMap M) (ci_Context new) infoNew (ConnTable cg1)\<rparr>;
          (updated, cg2, infoOld) =
            (case mGet (connMap M) (ci_Context new) (ConnTable cg1) of
               None \<Rightarrow> (True, put, infoNew)
             | Some old \<Rightarrow>
                 if \<not> EqualFold (ci_ClientId new) (ci_ClientId (channels w ! old)) then (False, put, old) else (False, cg1, old))
      in (updated, cg2\<lparr>cg_lastUpdateTimestamp := now\<rparr>,
          w\<lparr>channels := (channels w)[infoOld := (channels w ! infoOld)\<lparr>ci_LastUpdateTimestamp := now\<rparr>]\<rparr>))"

text \<open>
  \<open>UpdateSubscription\<close>: the loop variable \<open>sub\<close> is one cell, which every iteration overwrites and whose address
  \<open>&sub\<close> goes into the table.
\<close>

fun update_subs ::
    "('st, 'ct, 'gt) client_maps \<Rightarrow> nat \<Rightarrow> SubscriptionDataPlus list \<Rightarrow> bool \<Rightarrow> ('st, 'ct) ConsumerGroupInfo \<Rightarrow>
     bool \<times> ('st, 'ct) ConsumerGroupInfo" where
  "update_subs M cell [] updated cg = (updated, cg)"
| "update_subs M cell (sub # subList) updated cg =
     (let cg1 = cg\<lparr>cg_cells := (cg_cells cg)[cell := sub]\<rparr>;
          put = cg1\<lparr>SubscriptionTable := mPut (subMap M) (sd_Topic sub) cell (SubscriptionTable cg1)\<rparr>
      in case mGet (subMap M) (sd_Topic sub) (SubscriptionTable cg1) of
           None \<Rightarrow> update_subs M cell subList True put
         | Some old \<Rightarrow>
             if SubVersion sub > SubVersion (cg_cells cg1 ! old) then update_subs M cell subList updated put
             else update_subs M cell subList updated cg1)"

definition ConsumerGroupInfo_UpdateSubscription ::
    "('st, 'ct, 'gt) client_maps \<Rightarrow> int \<Rightarrow> SubscriptionDataPlus list \<Rightarrow> ('st, 'ct) ConsumerGroupInfo \<Rightarrow>
     bool \<times> ('st, 'ct) ConsumerGroupInfo" where
  "ConsumerGroupInfo_UpdateSubscription M now subList cg =
     (case update_subs M (length (cg_cells cg)) subList False (cg\<lparr>cg_cells := cg_cells cg @ take 1 subList\<rparr>) of
        (updated, cg1) \<Rightarrow>
          let gone = filter (\<lambda>oldTopic. \<forall>subItem \<in> set subList. \<not> EqualFold (sd_Topic subItem) oldTopic)
                       (map fst (mIter (subMap M) (SubscriptionTable cg1)))
          in (updated \<or> gone \<noteq> [],
              cg1\<lparr>SubscriptionTable := fold (mRemove (subMap M)) gone (SubscriptionTable cg1), cg_lastUpdateTimestamp := now\<rparr>))"

definition ConsumerGroupInfo_doChannelCloseEvent ::
    "('st, 'ct, 'gt) client_maps \<Rightarrow> string \<Rightarrow> ('st, 'ct) ConsumerGroupInfo \<Rightarrow> bool \<times> ('st, 'ct) ConsumerGroupInfo" where
  "ConsumerGroupInfo_doChannelCloseEvent M ctx cg =
     (if mSize (connMap M) (ConnTable cg) \<le> 0 then (False, cg)
      else (mGet (connMap M) ctx (ConnTable cg) \<noteq> None, cg\<lparr>ConnTable := mRemove (connMap M) ctx (ConnTable cg)\<rparr>))"

definition ConsumerGroupInfo_GetAllChannel ::
    "('st, 'ct, 'gt) client_maps \<Rightarrow> ('st, 'ct) ConsumerGroupInfo \<Rightarrow> client_world \<Rightarrow> string list" where
  "ConsumerGroupInfo_GetAllChannel M cg w = map (\<lambda>(k, a). ci_Context (channels w ! a)) (mIter (connMap M) (ConnTable cg))"

definition ConsumerGroupInfo_GetAllClientId ::
    "('st, 'ct, 'gt) client_maps \<Rightarrow> ('st, 'ct) ConsumerGroupInfo \<Rightarrow> client_world \<Rightarrow> string list" where
  "ConsumerGroupInfo_GetAllClientId M cg w = map (\<lambda>(k, a). ci_ClientId (channels w ! a)) (mIter (connMap M) (ConnTable cg))"

definition ConsumerGroupInfo_UnregisterChannel ::
    "('st, 'ct, 'gt) client_maps \<Rightarrow> ChannelInfo \<Rightarrow> ('st, 'ct) ConsumerGroupInfo \<Rightarrow> ('st, 'ct) ConsumerGroupInfo" where
  "ConsumerGroupInfo_UnregisterChannel M clientChannelInfo cg =
     (if mSize (connMap M) (ConnTable cg) \<le> 0 then cg
      else cg\<lparr>ConnTable := mRemove (connMap M) (ci_Context clientChannelInfo) (ConnTable cg)\<rparr>)"

definition ConsumerGroupInfo_FindChannel ::
    "('st, 'ct, 'gt) client_maps \<Rightarrow> string \<Rightarrow> ('st, 'ct) ConsumerGroupInfo \<Rightarrow> client_world \<Rightarrow> nat option" where
  "ConsumerGroupInfo_FindChannel M clientId cg w =
     map_option snd (find (\<lambda>(k, a). EqualFold (ci_ClientId (channels w ! a)) clientId) (mIter (connMap M) (ConnTable cg)))"

definition ConsumerGroupInfo_SubscriptionTableToMap ::
    "('st, 'ct, 'gt) client_maps \<Rightarrow> ('st, 'ct) ConsumerGroupInfo \<Rightarrow> (string \<times> SubscriptionDataPlus) list" where
  "ConsumerGroupInfo_SubscriptionTableToMap M cg =
     map (\<lambda>(k, a). (k, cg_cells cg ! a)) (mIter (subMap M) (SubscriptionTable cg))"

section \<open>ConsumerManager\<close>

definition NewConsumerManager :: "('st, 'ct, 'gt) client_maps \<Rightarrow> 'gt ConsumerManager" where
  "NewConsumerManager M = \<lparr>consumerTable = mNew (groupMap M), ChannelExpiredTimeout = 1000 * 120\<rparr>"

text \<open>The listener: \<open>enable\<close> is \<open>NotifyConsumerIdsChangedEnable\<close> of the broker's configuration.\<close>

definition ConsumerIdsChanged :: "bool \<Rightarrow> string \<Rightarrow> string list \<Rightarrow> client_world \<Rightarrow> client_world" where
  "ConsumerIdsChanged enable grp conns w =
     (if enable then w\<lparr>notified := notified w @ map (\<lambda>conn. (conn, grp)) conns\<rparr> else w)"

definition ConsumerManager_GetConsumerGroupInfo ::
    "('st, 'ct, 'gt) client_maps \<Rightarrow> string \<Rightarrow> 'gt ConsumerManager \<Rightarrow> ('st, 'ct) ConsumerGroupInfo option" where
  "ConsumerManager_GetConsumerGroupInfo M grp cm = mGet (groupMap M) grp (consumerTable cm)"

definition ConsumerManager_FindSubscriptionData ::
    "('st, 'ct, 'gt) client_maps \<Rightarrow> string \<Rightarrow> string \<Rightarrow> 'gt ConsumerManager \<Rightarrow> SubscriptionDataPlus option" where
  "ConsumerManager_FindSubscriptionData M grp topic cm =
     (case ConsumerManager_GetConsumerGroupInfo M grp cm of
        None \<Rightarrow> None
      | Some consumerGroupInfo \<Rightarrow> ConsumerGroupInfo_FindSubscriptionDataPlus M topic consumerGroupInfo)"

definition ConsumerManager_RegisterConsumer ::
    "('st, 'ct, 'gt) client_maps \<Rightarrow> bool \<Rightarrow> int \<Rightarrow> int \<Rightarrow> string \<Rightarrow> nat \<Rightarrow> ConsumeType \<Rightarrow> MessageModel \<Rightarrow> ConsumeFromWhere \<Rightarrow>
     SubscriptionDataPlus list \<Rightarrow> 'gt ConsumerManager \<Rightarrow> client_world \<Rightarrow> bool \<times> 'gt ConsumerManager \<times> client_world" where
  "ConsumerManager_RegisterConsumer M enable now1 now2 grp channelInfo consumeType messageModel consumeFromWhere subList cm w =
     (let consumerGroupInfo = (case ConsumerManager_GetConsumerGroupInfo M grp cm of
            None \<Rightarrow> NewConsumerGroupInfo M grp consumeType messageModel consumeFromWhere
          | Some info \<Rightarrow> info);
          (r1, cg1, w1) = ConsumerGroupInfo_UpdateChannel M now1 channelInfo consumeType messageModel consumeFromWhere consumerGroupInfo w;
          (r2, cg2) = ConsumerGroupInfo_UpdateSubscription M now2 subList cg1
      in (r1 \<or> r2, cm\<lparr>consumerTable := mPut (groupMap M) grp cg2 (consumerTable cm)\<rparr>,
          if r1 \<or> r2 then ConsumerIdsChanged enable grp (ConsumerGroupInfo_GetAllChannel M cg2 w1) w1 else w1))"

definition ConsumerManager_UnregisterConsumer ::
    "('st, 'ct, 'gt) client_maps \<Rightarrow> bool \<Rightarrow> string \<Rightarrow> ChannelInfo \<Rightarrow> 'gt ConsumerManager \<Rightarrow> client_world \<Rightarrow>
     'gt ConsumerManager \<times> client_world" where
  "ConsumerManager_UnregisterConsumer M enable grp channelInfo cm w =
     (case ConsumerManager_GetConsumerGroupInfo M grp cm of
        None \<Rightarrow> (cm, w)
      | Some info \<Rightarrow>
          (let info1 = ConsumerGroupInfo_UnregisterChannel M channelInfo info
           in (cm\<lparr>consumerTable := (if mSize (connMap M) (ConnTable info1) = 0
                                    then mRemove (groupMap M) grp (consumerTable cm)
                                    else mPut (groupMap M) grp info1 (consumerTable cm))\<rparr>,
               ConsumerIdsChanged enable grp (ConsumerGroupInfo_GetAllChannel M info1 w) w)))"

fun scan_conns ::
    "('st, 'ct, 'gt) client_maps \<Rightarrow> int \<Rightarrow> (string \<times> nat) list \<Rightarrow> 'ct \<Rightarrow> client_world \<Rightarrow> clock \<Rightarrow> 'ct \<times> client_world \<times> clock" where
  "scan_conns M timeout [] conns w c = (conns, w, c)"
| "scan_conns M timeout ((k, a) # es) conns w c =
     (if shd c - ci_LastUpdateTimestamp (channels w ! a) > timeout
      then scan_conns M timeout es (mRemove (connMap M) k conns) (w\<lparr>closed := closed w @ [ci_Context (channels w ! a)]\<rparr>) (stl c)
      else scan_conns M timeout es conns w (stl c))"

fun scan_groups ::
    "('st, 'ct, 'gt) client_maps \<Rightarrow> int \<Rightarrow> (string \<times> ('st, 'ct) ConsumerGroupInfo) list \<Rightarrow> 'gt \<Rightarrow> client_world \<Rightarrow> clock \<Rightarrow>
     'gt \<times> client_world \<times> clock" where
  "scan_groups M timeout [] t w c = (t, w, c)"
| "scan_groups M timeout ((grp, cg) # gs) t w c =
     (case scan_conns M timeout (mIter (connMap M) (ConnTable cg)) (ConnTable cg) w c of
        (conns, w1, c1) \<Rightarrow>
          scan_groups M timeout gs
            (if mSize (connMap M) conns = 0 then mRemove (groupMap M) grp t
             else mPut (groupMap M) grp (cg\<lparr>ConnTable := conns\<rparr>) t) w1 c1)"

definition ConsumerManager_ScanNotActiveChannel ::
    "('st, 'ct, 'gt) client_maps \<Rightarrow> 'gt ConsumerManager \<Rightarrow> client_world \<Rightarrow> clock \<Rightarrow> 'gt ConsumerManager \<times> client_world \<times> clock" where
  "ConsumerManager_ScanNotActiveChannel M cm w c =
     (case scan_groups M (ChannelExpiredTimeout cm) (mIter (groupMap M) (consumerTable cm)) (consumerTable cm) w c of
        (t, w1, c1) \<Rightarrow> (cm\<lparr>consumerTable := t\<rparr>, w1, c1))"

fun close_groups ::
    "('st, 'ct, 'gt) client_maps \<Rightarrow> bool \<Rightarrow> string \<Rightarrow> (string \<times> ('st, 'ct) ConsumerGroupInfo) list \<Rightarrow> 'gt \<Rightarrow> client_world \<Rightarrow>
     'gt \<times> client_world" where
  "close_groups M enable ctx [] t w = (t, w)"
| "close_groups M enable ctx ((grp, cg) # gs) t w =
     (case ConsumerGroupInfo_doChannelCloseEvent M ctx cg of
        (isRemoved, cg1) \<Rightarrow>
          if isRemoved
          then close_groups M enable ctx gs
                 (if mSize (connMap M) (ConnTable cg1) = 0 then mRemove (groupMap M) grp t else mPut (groupMap M) grp cg1 t)
                 (ConsumerIdsChanged enable grp (ConsumerGroupInfo_GetAllChannel M cg1 w) w)
          else close_groups M enable ctx gs (mPut (groupMap M) grp cg1 t) w)"

definition ConsumerManager_DoChannelCloseEvent ::
    "('st, 'ct, 'gt) client_maps \<Rightarrow> bool \<Rightarrow> string \<Rightarrow> 'gt ConsumerManager \<Rightarrow> client_world \<Rightarrow> 'gt ConsumerManager \<times> client_world" where
  "ConsumerManager_DoChannelCloseEvent M enable ctx cm w =
     (case close_groups M enable ctx (mIter (groupMap M) (consumerTable cm)) (consumerTable cm) w of
        (t, w1) \<Rightarrow> (cm\<lparr>consumerTable := t\<rparr>, w1))"

definition ConsumerManager_FindSubscriptionDataCount :: "('st, 'ct, 'gt) client_maps \<Rightarrow> string \<Rightarrow> 'gt ConsumerManager \<Rightarrow> int" where
  "ConsumerManager_FindSubscriptionDataCount M grp cm =
     (case ConsumerManager_GetConsumerGroupInfo M grp cm of None \<Rightarrow> 0 | Some info \<Rightarrow> mSize (subMap M) (SubscriptionTable info))"

definition ConsumerManager_QueryTopicConsumeByWho ::
    "(string, 's) set_ops \<Rightarrow> ('st, 'ct, 'gt) client_maps \<Rightarrow> string \<Rightarrow> 'gt ConsumerManager \<Rightarrow> 's" where
  "ConsumerManager_QueryTopicConsumeByWho S M topic cm =
     fold (\<lambda>(grp, info) groups. if mGet (subMap M) topic (SubscriptionTable info) \<noteq> None then sAdd S grp groups else groups)
       (mIter (groupMap M) (consumerTable cm)) (sNew S)"

definition ConsumerManager_FindChannel ::
    "('st, 'ct, 'gt) client_maps \<Rightarrow> string \<Rightarrow> string \<Rightarrow> 'gt ConsumerManager \<Rightarrow> client_world \<Rightarrow> nat option" where
  "ConsumerManager_FindChannel M grp clientId cm w =
     (case ConsumerManager_GetConsumerGroupInfo M grp cm of
        None \<Rightarrow> None
      | Some info \<Rightarrow> ConsumerGroupInfo_FindChannel M clientId info w)"

section \<open>ProducerManager\<close>

text \<open>The tables of the producer manager are Go maps: association lists in the order of their iteration.\<close>

record ProducerManager =
  pm_ChannelExpiredTimeout :: int
  GroupChannelTable :: "(string \<times> (string \<times> nat) list) list"
  hashcodeChannelTable :: "(int \<times> nat list) list"

definition NewProducerManager :: ProducerManager where
  "NewProducerManager = \<lparr>pm_ChannelExpiredTimeout = 1000 * 120, GroupChannelTable = [], hashcodeChannelTable = []\<rparr>"

definition contains_channel :: "nat list \<Rightarrow> ChannelInfo \<Rightarrow> client_world \<Rightarrow> bool" where
  "contains_channel lst v w \<longleftrightarrow> list_ex (\<lambda>a. ci_Addr (channels w ! a) = ci_Addr v) lst"

fun remove_channel :: "nat list \<Rightarrow> ChannelInfo \<Rightarrow> client_world \<Rightarrow> nat list" where
  "remove_channel [] v w = []"
| "remove_channel (a # lst) v w = (if ci_Addr (channels w ! a) = ci_Addr v then lst else a # remove_channel lst v w)"

definition touch :: "int \<Rightarrow> nat \<Rightarrow> client_world \<Rightarrow> client_world" where
  "touch now a w = w\<lparr>channels := (channels w)[a := (channels w ! a)\<lparr>ci_LastUpdateTimestamp := now\<rparr>]\<rparr>"

text \<open>\<open>now1\<close> and \<open>now2\<close> are the readings of the clock in the two halves.\<close>

definition ProducerManager_RegisterProducer ::
    "int \<Rightarrow> int \<Rightarrow> string \<Rightarrow> nat \<Rightarrow> ProducerManager \<Rightarrow> client_world \<Rightarrow> ProducerManager \<times> client_world" where
  "ProducerManager_RegisterProducer now1 now2 grp channelInfo pm w =
     (let info = channels w ! channelInfo;
          channelTable = (case map_of (GroupChannelTable pm) grp of None \<Rightarrow> [] | Some t \<Rightarrow> t);
          found = map_of channelTable (ci_Context info);
          channelTable1 = (if found = None then AList.update (ci_Context info) channelInfo channelTable else channelTable);
          w1 = (case found of None \<Rightarrow> w | Some old \<Rightarrow> touch now1 old w);
          code = HashCode grp;
          channelList = (case map_of (hashcodeChannelTable pm) code of None \<Rightarrow> [] | Some l \<Rightarrow> l);
          bFound = contains_channel channelList info w1;
          channelList1 = (if \<not> bFound then channelList @ [channelInfo] else channelList);
          w2 = (case found of None \<Rightarrow> w1 | Some old \<Rightarrow> if bFound then touch now2 old w1 else w1)
      in (pm\<lparr>GroupChannelTable := AList.update grp channelTable1 (GroupChannelTable pm),
             hashcodeChannelTable := AList.update code channelList1 (hashcodeChannelTable pm)\<rparr>, w2))"

text \<open>The group is removed only when the table of all groups is empty, which it is not here.\<close>

definition ProducerManager_UnregisterProducer :: "string \<Rightarrow> ChannelInfo \<Rightarrow> ProducerManager \<Rightarrow> client_world \<Rightarrow> ProducerManager" where
  "ProducerManager_UnregisterProducer grp channelInfo pm w =
     (let pm1 = (case map_of (GroupChannelTable pm) grp of
            None \<Rightarrow> pm
          | Some connTable \<Rightarrow>
              (let t = AList.update grp (AList.delete (ci_Context channelInfo) connTable) (GroupChannelTable pm)
               in pm\<lparr>GroupChannelTable := (if length t \<le> 0 then AList.delete grp t else t)\<rparr>));
          code = HashCode grp
      in case map_of (hashcodeChannelTable pm1) code of
           None \<Rightarrow> pm1
         | Some channelList \<Rightarrow>
             if length channelList > 0
             then (let l = remove_channel channelList channelInfo w
                   in pm1\<lparr>hashcodeChannelTable := (if l = [] then AList.delete code (hashcodeChannelTable pm1)
                                                    else AList.update code l (hashcodeChannelTable pm1))\<rparr>)
             else pm1)"

fun scan_producers ::
    "int \<Rightarrow> (string \<times> nat) list \<Rightarrow> client_world \<Rightarrow> clock \<Rightarrow> (string \<times> nat) list \<times> client_world \<times> clock" where
  "scan_producers timeout [] w c = ([], w, c)"
| "scan_producers timeout ((k, a) # es) w c =
     (if shd c - ci_LastUpdateTimestamp (channels w ! a) > timeout
      then scan_producers timeout es (w\<lparr>closed := closed w @ [ci_Context (channels w ! a)]\<rparr>) (stl c)
      else case scan_producers timeout es w (stl c) of (es1, w1, c1) \<Rightarrow> ((k, a) # es1, w1, c1))"

fun scan_producer_groups ::
    "int \<Rightarrow> (string \<times> (string \<times> nat) list) list \<Rightarrow> client_world \<Rightarrow> clock \<Rightarrow>
     (string \<times> (string \<times> nat) list) list \<times> client_world \<times> clock" where
  "scan_producer_groups timeout [] w c = ([], w, c)"
| "scan_producer_groups timeout ((grp, chlMap) # gs) w c =
     (case scan_producers timeout chlMap w c of
        (chlMap1, w1, c1) \<Rightarrow>
          (case scan_producer_groups timeout gs w1 c1 of
             (gs1, w2, c2) \<Rightarrow> (if chlMap1 = [] then gs1 else (grp, chlMap1) # gs1, w2, c2)))"

definition ProducerManager_ScanNotActiveChannel ::
    "ProducerManager \<Rightarrow> client_world \<Rightarrow> clock \<Rightarrow> ProducerManager \<times> client_world \<times> clock" where
  "ProducerManager_ScanNotActiveChannel pm w c =
     (case scan_producer_groups (pm_ChannelExpiredTimeout pm) (GroupChannelTable pm) w c of
        (t, w1, c1) \<Rightarrow> (pm\<lparr>GroupChannelTable := t\<rparr>, w1, c1))"

definition ProducerManager_DoChannelCloseEvent :: "string \<Rightarrow> ProducerManager \<Rightarrow> ProducerManager" where
  "ProducerManager_DoChannelCloseEvent ctx pm =
     pm\<lparr>GroupChannelTable := filter (\<lambda>(grp, t). t \<noteq> []) (map (\<lambda>(grp, t). (grp, AList.delete ctx t)) (GroupChannelTable pm))\<rparr>"

text \<open>\<open>rnd\<close> is the random number, which is not negative.\<close>

definition ProducerManager_PickProducerChannelRandomly :: "nat \<Rightarrow> int \<Rightarrow> ProducerManager \<Rightarrow> nat option" where
  "ProducerManager_PickProducerChannelRandomly rnd producerGroupHashCode pm =
     (case map_of (hashcodeChannelTable pm) producerGroupHashCode of
        None \<Rightarrow> None
      | Some channelInfoList \<Rightarrow>
          if length channelInfoList > 0 then Some (channelInfoList ! (rnd mod length channelInfoList)) else None)"

section \<open>Subscriptions of a new group\<close>

lemma update_subs_shared:
  assumes "cmap_laws (subMap M)"
  shows "\<forall>t a. mGet (subMap M) t (SubscriptionTable cg) = Some a \<longrightarrow> a = cell \<Longrightarrow> cell < length (cg_cells cg) \<Longrightarrow>
    update_subs M cell subs u cg = (u1, cg1) \<Longrightarrow>
    cg_cells cg1 ! cell = (if subs = [] then cg_cells cg ! cell else last subs) \<and>
    (\<forall>t. mGet (subMap M) t (SubscriptionTable cg1) =
      (if t \<in> sd_Topic ` set subs \<or> mGet (subMap M) t (SubscriptionTable cg) \<noteq> None then Some cell else None)) \<and>
    ConnTable cg1 = ConnTable cg"
proof (induction subs arbitrary: u cg)
  case (Cons sub subs)
  let ?cg1 = "cg\<lparr>cg_cells := (cg_cells cg)[cell := sub]\<rparr>"
  let ?put = "?cg1\<lparr>SubscriptionTable := mPut (subMap M) (sd_Topic sub) cell (SubscriptionTable ?cg1)\<rparr>"
  show ?case
  proof (cases "mGet (subMap M) (sd_Topic sub) (SubscriptionTable cg)")
    case None
    have r: "update_subs M cell subs True ?put = (u1, cg1)" using Cons.prems(3) None by simp
    show ?thesis using Cons.IH [OF _ _ r] Cons.prems(1,2) by (auto simp: cmap_simps [OF assms])
  next
    case (Some a)
    then have a: "a = cell" using Cons.prems(1) by blast
    have r: "update_subs M cell subs u ?cg1 = (u1, cg1)" using Cons.prems(2,3) Some a by simp
    show ?thesis using Cons.IH [OF _ _ r] Cons.prems(1,2) Some by auto
  qed
qed auto

lemma UpdateSubscription_fresh:
  assumes "cmap_laws (subMap M)" and "\<forall>t. mGet (subMap M) t (SubscriptionTable cg) = None" and "sub \<in> set subList"
  shows "ConsumerGroupInfo_FindSubscriptionDataPlus M (sd_Topic sub) (snd (ConsumerGroupInfo_UpdateSubscription M now subList cg)) =
    Some (last subList)"
proof -
  obtain u cg1 where u: "update_subs M (length (cg_cells cg)) subList False (cg\<lparr>cg_cells := cg_cells cg @ take 1 subList\<rparr>) = (u, cg1)"
    by fastforce
  have s: "cg_cells cg1 ! length (cg_cells cg) = last subList"
      "mGet (subMap M) (sd_Topic sub) (SubscriptionTable cg1) = Some (length (cg_cells cg))"
    using update_subs_shared [OF assms(1) _ _ u] assms(2,3) by (cases subList; auto)+
  then show ?thesis using assms(3)
    by (auto simp: ConsumerGroupInfo_UpdateSubscription_def u Let_def ConsumerGroupInfo_FindSubscriptionDataPlus_def
        fold_mRemove [OF assms(1)] simp del: One_nat_def intro!: bexI [of _ sub])
qed

lemma RegisterConsumer_group:
  assumes "client_laws M"
    and "ConsumerManager_RegisterConsumer M enable now1 now2 grp a ct mm cf subList cm w = (r, cm1, w1)"
  obtains cg u1 cg1 w2 where
    "cg = (case ConsumerManager_GetConsumerGroupInfo M grp cm of None \<Rightarrow> NewConsumerGroupInfo M grp ct mm cf | Some info \<Rightarrow> info)"
    "ConsumerGroupInfo_UpdateChannel M now1 a ct mm cf cg w = (u1, cg1, w2)"
    "channels w1 = channels w2" "ChannelExpiredTimeout cm1 = ChannelExpiredTimeout cm"
    "\<And>g. ConsumerManager_GetConsumerGroupInfo M g cm1 =
       (if g = grp then Some (snd (ConsumerGroupInfo_UpdateSubscription M now2 subList cg1)) else ConsumerManager_GetConsumerGroupInfo M g cm)"
  using assms that
  by (auto simp: ConsumerManager_RegisterConsumer_def Let_def client_laws_def ConsumerManager_GetConsumerGroupInfo_def
      ConsumerIdsChanged_def cmap_simps split: prod.splits if_splits)

lemma UpdateChannel_subs: "ConsumerGroupInfo_UpdateChannel M now a ct mm cf cg w = (u1, cg1, w1) \<Longrightarrow>
    SubscriptionTable cg1 = SubscriptionTable cg \<and> cg_cells cg1 = cg_cells cg"
  by (auto simp: ConsumerGroupInfo_UpdateChannel_def Let_def split: option.splits if_splits)

text \<open>
  After \<open>RegisterConsumer\<close> of a group the broker did not
  know, what the broker finds as the subscription of the group to any topic of the list is the last
  subscription of the list, with its topic, expression and tags: every entry holds the address of the loop variable.
\<close>

lemma register_shares_subscription:
  assumes "client_laws M" and "ConsumerManager_GetConsumerGroupInfo M grp cm = None" and "sub \<in> set subList"
    and "ConsumerManager_RegisterConsumer M enable now1 now2 grp a ct mm cf subList cm w = (r, cm1, w1)"
  shows "ConsumerManager_FindSubscriptionData M grp (sd_Topic sub) cm1 = Some (last subList)"
proof -
  from RegisterConsumer_group [OF assms(1,4)] obtain cg u1 cg1 w2 where
    c: "cg = (case ConsumerManager_GetConsumerGroupInfo M grp cm of None \<Rightarrow> NewConsumerGroupInfo M grp ct mm cf | Some info \<Rightarrow> info)"
      "ConsumerGroupInfo_UpdateChannel M now1 a ct mm cf cg w = (u1, cg1, w2)"
      "\<And>g. ConsumerManager_GetConsumerGroupInfo M g cm1 =
       (if g = grp then Some (snd (ConsumerGroupInfo_UpdateSubscription M now2 subList cg1)) else ConsumerManager_GetConsumerGroupInfo M g cm)"
    by metis
  have l: "cmap_laws (subMap M)" using assms(1) by (simp add: client_laws_def)
  have "\<forall>t. mGet (subMap M) t (SubscriptionTable cg1) = None"
    using UpdateChannel_subs [OF c(2)] c(1) assms(2) by (simp add: NewConsumerGroupInfo_def cmap_simps [OF l])
  from UpdateSubscription_fresh [OF l this assms(3)] c(3) show ?thesis
    by (simp add: ConsumerManager_FindSubscriptionData_def)
qed

section \<open>Reachable tables of consumers\<close>

text \<open>A new connection, and the operations of the consumer manager.\<close>

inductive consumers_reach :: "('st, 'ct, 'gt) client_maps \<Rightarrow> 'gt ConsumerManager \<Rightarrow> client_world \<Rightarrow> bool" for M where
  start: "consumers_reach M (NewConsumerManager M) \<lparr>channels = [], closed = [], notified = []\<rparr>"
| connect: "consumers_reach M cm w \<Longrightarrow> consumers_reach M cm (w\<lparr>channels := channels w @ [info]\<rparr>)"
| touch_channel: "consumers_reach M cm w \<Longrightarrow> consumers_reach M cm (touch now a w)"
| register: "consumers_reach M cm w \<Longrightarrow> a < length (channels w) \<Longrightarrow>
    ConsumerManager_RegisterConsumer M enable now1 now2 grp a ct mm cf subList cm w = (r, cm1, w1) \<Longrightarrow> consumers_reach M cm1 w1"
| unregister: "consumers_reach M cm w \<Longrightarrow>
    ConsumerManager_UnregisterConsumer M enable grp info cm w = (cm1, w1) \<Longrightarrow> consumers_reach M cm1 w1"
| scan: "consumers_reach M cm w \<Longrightarrow> during lo hi c \<Longrightarrow>
    ConsumerManager_ScanNotActiveChannel M cm w c = (cm1, w1, c1) \<Longrightarrow> consumers_reach M cm1 w1"
| close: "consumers_reach M cm w \<Longrightarrow>
    ConsumerManager_DoChannelCloseEvent M enable ctx cm w = (cm1, w1) \<Longrightarrow> consumers_reach M cm1 w1"

text \<open>
  Every group has a connection, every connection is in the heap under its own address.
\<close>

definition group_ok :: "('st, 'ct, 'gt) client_maps \<Rightarrow> ChannelInfo list \<Rightarrow> ('st, 'ct) ConsumerGroupInfo \<Rightarrow> bool" where
  "group_ok M chs cg \<longleftrightarrow> (\<exists>k. mGet (connMap M) k (ConnTable cg) \<noteq> None) \<and>
     (\<forall>k a. mGet (connMap M) k (ConnTable cg) = Some a \<longrightarrow> a < length chs \<and> ci_Context (chs ! a) = k)"

definition consumers_ok :: "('st, 'ct, 'gt) client_maps \<Rightarrow> 'gt ConsumerManager \<Rightarrow> client_world \<Rightarrow> bool" where
  "consumers_ok M cm w \<longleftrightarrow> (\<forall>grp cg. ConsumerManager_GetConsumerGroupInfo M grp cm = Some cg \<longrightarrow> group_ok M (channels w) cg)"

text \<open>The heap only grows, and an entry keeps its address.\<close>

definition heap_le :: "ChannelInfo list \<Rightarrow> ChannelInfo list \<Rightarrow> bool" where
  "heap_le chs chs1 \<longleftrightarrow> length chs \<le> length chs1 \<and> (\<forall>a < length chs. ci_Context (chs1 ! a) = ci_Context (chs ! a))"

lemma heap_le_refl [simp]: "heap_le chs chs"
  by (simp add: heap_le_def)

lemma heap_le_touch [simp]: "heap_le chs (chs[a := (chs ! a)\<lparr>ci_LastUpdateTimestamp := now\<rparr>])"
  by (cases "a < length chs") (auto simp: heap_le_def nth_list_update)

lemma group_ok_heap: "group_ok M chs cg \<Longrightarrow> heap_le chs chs1 \<Longrightarrow> group_ok M chs1 cg"
  unfolding group_ok_def heap_le_def by (metis order_less_le_trans)

lemma consumers_ok_heap: "consumers_ok M cm w \<Longrightarrow> heap_le (channels w) (channels w1) \<Longrightarrow> consumers_ok M cm w1"
  unfolding consumers_ok_def using group_ok_heap by blast

lemma update_subs_conns: "update_subs M cell subs u cg = (u1, cg1) \<Longrightarrow> ConnTable cg1 = ConnTable cg"
  by (induction M cell subs u cg rule: update_subs.induct) (auto simp: Let_def split: option.splits if_splits)

lemma UpdateSubscription_conns: "ConnTable (snd (ConsumerGroupInfo_UpdateSubscription M now subList cg)) = ConnTable cg"
  by (auto simp: ConsumerGroupInfo_UpdateSubscription_def Let_def dest: update_subs_conns split: prod.splits)

lemma UpdateChannel_ok:
  assumes "cmap_laws (connMap M)" and "a < length (channels w)"
    and "\<forall>k b. mGet (connMap M) k (ConnTable cg) = Some b \<longrightarrow> b < length (channels w) \<and> ci_Context (channels w ! b) = k"
    and "ConsumerGroupInfo_UpdateChannel M now a ct mm cf cg w = (u, cg1, w1)"
  shows "group_ok M (channels w1) cg1 \<and> heap_le (channels w) (channels w1)"
proof -
  have "group_ok M (channels w) cg1 \<and> heap_le (channels w) (channels w1)"
    using assms(2-4)
    by (auto simp: ConsumerGroupInfo_UpdateChannel_def group_ok_def Let_def cmap_simps [OF assms(1)] split: option.splits if_splits)
      blast
  then show ?thesis using group_ok_heap by blast
qed

lemma scan_conns_frame:
  "scan_conns M timeout es conns w c = (conns1, w1, c1) \<Longrightarrow> channels w1 = channels w \<and> (during lo hi c \<longrightarrow> during lo hi c1)"
  by (induction M timeout es conns w c rule: scan_conns.induct) (auto split: if_splits)

lemma scan_conns_shrinks:
  assumes "cmap_laws (connMap M)"
  shows "scan_conns M timeout es conns w c = (conns1, w1, c1) \<Longrightarrow>
    mGet (connMap M) k conns1 = mGet (connMap M) k conns \<or> k \<in> fst ` set es \<and> mGet (connMap M) k conns1 = None"
proof (induction es arbitrary: conns w c)
  case (Cons e es)
  obtain k1 a where "e = (k1, a)" by (cases e)
  with Cons.prems show ?case
    using Cons.IH by (fastforce simp: cmap_simps [OF assms] split: if_splits)
qed simp

lemma scan_conns_none:
  assumes "cmap_laws (connMap M)" and "mGet (connMap M) k conns = None"
    and "scan_conns M timeout es conns w c = (conns1, w1, c1)"
  shows "mGet (connMap M) k conns1 = None"
  using scan_conns_shrinks [OF assms(1,3), of k] assms(2) by auto

lemma scan_conns_expired:
  assumes "cmap_laws (connMap M)"
  shows "scan_conns M timeout es conns w c = (conns1, w1, c1) \<Longrightarrow> (k, a) \<in> set es \<Longrightarrow> during lo hi c \<Longrightarrow>
    ci_LastUpdateTimestamp (channels w ! a) < lo - timeout \<Longrightarrow> mGet (connMap M) k conns1 = None"
proof (induction es arbitrary: conns w c)
  case (Cons e es)
  obtain k1 a1 where e: "e = (k1, a1)" by (cases e)
  show ?case
  proof (cases "(k, a) = e")
    case True
    have "scan_conns M timeout es (mRemove (connMap M) k conns) (w\<lparr>closed := closed w @ [ci_Context (channels w ! a)]\<rparr>) (stl c) =
        (conns1, w1, c1)"
      using Cons.prems(1,4) True during_shd [OF Cons.prems(3)] by (auto simp: e)
    from scan_conns_none [OF assms _ this] show ?thesis by (simp add: cmap_simps [OF assms])
  next
    case False
    then have k: "(k, a) \<in> set es" using Cons.prems(2) by simp
    show ?thesis
      using Cons.prems(1,4) Cons.IH [OF _ k during_step [OF Cons.prems(3)]] by (fastforce simp: e split: if_splits)
  qed
qed simp

lemma scan_conns_fresh:
  assumes "cmap_laws (connMap M)"
  shows "scan_conns M timeout es conns w c = (conns1, w1, c1) \<Longrightarrow> during lo hi c \<Longrightarrow>
    \<forall>a. (k, a) \<in> set es \<longrightarrow> hi - timeout \<le> ci_LastUpdateTimestamp (channels w ! a) \<Longrightarrow>
    mGet (connMap M) k conns1 = mGet (connMap M) k conns"
proof (induction es arbitrary: conns w c)
  case (Cons e es)
  obtain k1 a1 where e: "e = (k1, a1)" by (cases e)
  from Cons.prems(3) have "\<forall>a. (k, a) \<in> set es \<longrightarrow> hi - timeout \<le> ci_LastUpdateTimestamp (channels w ! a)" by simp
  note ih = Cons.IH [OF _ during_step [OF Cons.prems(2)]]
  show ?case
  proof (cases "shd c - ci_LastUpdateTimestamp (channels w ! a1) > timeout")
    case True
    then have "k \<noteq> k1" using Cons.prems(3) during_shd [OF Cons.prems(2)] by (force simp: e)
    then show ?thesis using Cons.prems(1,3) True ih by (fastforce simp: e cmap_simps [OF assms])
  next
    case False
    then show ?thesis using Cons.prems(1,3) ih by (simp add: e)
  qed
qed simp

text \<open>What a scan leaves of a group: the connections are those of one run of the inner loop.\<close>

definition scanned :: "('st, 'ct, 'gt) client_maps \<Rightarrow> int \<Rightarrow> int \<Rightarrow> int \<Rightarrow> ChannelInfo list \<Rightarrow> ('st, 'ct) ConsumerGroupInfo \<Rightarrow>
    ('st, 'ct) ConsumerGroupInfo option \<Rightarrow> bool" where
  "scanned M timeout lo hi chs cg res \<longleftrightarrow> (\<exists>conns w c w1 c1. channels w = chs \<and> during lo hi c \<and>
     scan_conns M timeout (mIter (connMap M) (ConnTable cg)) (ConnTable cg) w c = (conns, w1, c1) \<and>
     res = (if mSize (connMap M) conns = 0 then None else Some (cg\<lparr>ConnTable := conns\<rparr>)))"

lemma scan_groups_spec:
  assumes "client_laws M"
  shows "scan_groups M timeout gs t w c = (t1, w1, c1) \<Longrightarrow> distinct (map fst gs) \<Longrightarrow> during lo hi c \<Longrightarrow>
    channels w1 = channels w \<and>
    (\<forall>g cg. (g, cg) \<in> set gs \<longrightarrow> scanned M timeout lo hi (channels w) cg (mGet (groupMap M) g t1)) \<and>
    (\<forall>g. g \<notin> fst ` set gs \<longrightarrow> mGet (groupMap M) g t1 = mGet (groupMap M) g t)"
proof (induction gs arbitrary: t w c)
  case (Cons e gs)
  obtain g cg where e: "e = (g, cg)" by (cases e)
  obtain conns w2 c2 where s: "scan_conns M timeout (mIter (connMap M) (ConnTable cg)) (ConnTable cg) w c = (conns, w2, c2)"
    by (metis prod_cases3)
  let ?t = "if mSize (connMap M) conns = 0 then mRemove (groupMap M) g t else mPut (groupMap M) g (cg\<lparr>ConnTable := conns\<rparr>) t"
  have r: "scan_groups M timeout gs ?t w2 c2 = (t1, w1, c1)" using Cons.prems(1) by (simp add: e s)
  have l: "cmap_laws (groupMap M)" using assms by (simp add: client_laws_def)
  have f: "channels w2 = channels w" "during lo hi c2" using scan_conns_frame [OF s] Cons.prems(3) by auto
  note ih = Cons.IH [OF r _ f(2)]
  have g: "g \<notin> fst ` set gs" "distinct (map fst gs)" using Cons.prems(2) by (auto simp: e)
  then have "mGet (groupMap M) g t1 = mGet (groupMap M) g ?t" using ih by blast
  then have "mGet (groupMap M) g t1 = (if mSize (connMap M) conns = 0 then None else Some (cg\<lparr>ConnTable := conns\<rparr>))"
    by (simp add: cmap_simps [OF l])
  then have "scanned M timeout lo hi (channels w) cg (mGet (groupMap M) g t1)"
    unfolding scanned_def using s Cons.prems(3) by blast
  moreover have "mGet (groupMap M) g1 t1 = mGet (groupMap M) g1 t" if "g1 \<notin> fst ` set gs" "g1 \<noteq> g" for g1
    using ih g that by (auto simp: cmap_simps [OF l])
  ultimately show ?case using ih g f(1) by (auto simp: e)
qed simp

lemma cmap_iter:
  assumes "cmap_laws M"
  shows "distinct (map fst (mIter M m))" and "k \<notin> fst ` set (mIter M m) \<longleftrightarrow> mGet M k m = None"
  using assms by (auto simp: cmap_laws_def map_of_eq_None_iff)

lemma Scan_groups:
  assumes "client_laws M" and "ConsumerManager_ScanNotActiveChannel M cm w c = (cm1, w1, c1)" and "during lo hi c"
  shows "channels w1 = channels w" and "ChannelExpiredTimeout cm1 = ChannelExpiredTimeout cm"
    and "case ConsumerManager_GetConsumerGroupInfo M grp cm of
        None \<Rightarrow> ConsumerManager_GetConsumerGroupInfo M grp cm1 = None
      | Some cg \<Rightarrow> scanned M (ChannelExpiredTimeout cm) lo hi (channels w) cg (ConsumerManager_GetConsumerGroupInfo M grp cm1)"
proof -
  have l: "cmap_laws (groupMap M)" using assms(1) by (simp add: client_laws_def)
  obtain t where t: "scan_groups M (ChannelExpiredTimeout cm) (mIter (groupMap M) (consumerTable cm)) (consumerTable cm) w c = (t, w1, c1)"
      "cm1 = cm\<lparr>consumerTable := t\<rparr>"
    using assms(2) by (auto simp: ConsumerManager_ScanNotActiveChannel_def split: prod.splits)
  note s = scan_groups_spec [OF assms(1) t(1) cmap_iter(1) [OF l] assms(3)]
  show "channels w1 = channels w" "ChannelExpiredTimeout cm1 = ChannelExpiredTimeout cm" using s t(2) by simp_all
  show "case ConsumerManager_GetConsumerGroupInfo M grp cm of
        None \<Rightarrow> ConsumerManager_GetConsumerGroupInfo M grp cm1 = None
      | Some cg \<Rightarrow> scanned M (ChannelExpiredTimeout cm) lo hi (channels w) cg (ConsumerManager_GetConsumerGroupInfo M grp cm1)"
    using s cmap_iter(2) [OF l] cmap_simps(5) [OF l]
    by (auto simp: t(2) ConsumerManager_GetConsumerGroupInfo_def split: option.splits)
qed

lemma scanned_ok:
  assumes "client_laws M" and "group_ok M chs cg" and "scanned M timeout lo hi chs cg (Some cg1)"
  shows "group_ok M chs cg1"
proof -
  have l: "cmap_laws (connMap M)" using assms(1) by (simp add: client_laws_def)
  from assms(3) obtain conns w c w1 c1 where s: "mSize (connMap M) conns \<noteq> 0" "cg1 = cg\<lparr>ConnTable := conns\<rparr>"
      "scan_conns M timeout (mIter (connMap M) (ConnTable cg)) (ConnTable cg) w c = (conns, w1, c1)"
    by (auto simp: scanned_def split: if_splits)
  have "mGet (connMap M) k (ConnTable cg) = Some a" if "mGet (connMap M) k conns = Some a" for k a
    using scan_conns_shrinks [OF l s(3), of k] that by auto
  moreover have "\<exists>k. mGet (connMap M) k conns \<noteq> None" using s(1) cmap_simps(4) [OF l] by auto
  ultimately show ?thesis using assms(2) by (auto simp: group_ok_def s(2))
qed

definition close_one :: "('st, 'ct, 'gt) client_maps \<Rightarrow> string \<Rightarrow> ('st, 'ct) ConsumerGroupInfo \<Rightarrow> ('st, 'ct) ConsumerGroupInfo option" where
  "close_one M ctx cg = (case ConsumerGroupInfo_doChannelCloseEvent M ctx cg of
     (isRemoved, cg1) \<Rightarrow> if isRemoved \<and> mSize (connMap M) (ConnTable cg1) = 0 then None else Some cg1)"

lemma ConsumerIdsChanged_channels [simp]: "channels (ConsumerIdsChanged enable grp conns w) = channels w"
  by (simp add: ConsumerIdsChanged_def)

lemma close_groups_spec:
  assumes "cmap_laws (groupMap M)"
  shows "close_groups M enable ctx gs t w = (t1, w1) \<Longrightarrow> distinct (map fst gs) \<Longrightarrow>
    channels w1 = channels w \<and> (\<forall>g cg. (g, cg) \<in> set gs \<longrightarrow> mGet (groupMap M) g t1 = close_one M ctx cg) \<and>
    (\<forall>g. g \<notin> fst ` set gs \<longrightarrow> mGet (groupMap M) g t1 = mGet (groupMap M) g t)"
proof (induction gs arbitrary: t w)
  case (Cons e gs)
  obtain g cg where e: "e = (g, cg)" by (cases e)
  have g: "g \<notin> fst ` set gs" "distinct (map fst gs)" using Cons.prems(2) by (auto simp: e)
  obtain t2 w2 where r: "close_groups M enable ctx gs t2 w2 = (t1, w1)" "channels w2 = channels w"
      "\<And>x. mGet (groupMap M) x t2 = (if x = g then close_one M ctx cg else mGet (groupMap M) x t)"
    using Cons.prems(1)
    by (fastforce simp: e close_one_def cmap_simps [OF assms] split: prod.splits if_splits)
  from Cons.IH [OF r(1) g(2)] r(2,3) g(1) show ?case by (auto simp: e)
qed simp

lemma close_one_ok:
  assumes "cmap_laws (connMap M)" and "group_ok M chs cg" and "close_one M ctx cg = Some cg1"
  shows "group_ok M chs cg1"
  using assms(2,3) cmap_simps(4) [OF assms(1), of "mRemove (connMap M) ctx (ConnTable cg)"]
  by (auto simp: close_one_def ConsumerGroupInfo_doChannelCloseEvent_def group_ok_def cmap_simps(3) [OF assms(1)] split: if_splits)
   (metis option.distinct(1))+

lemma close_ok:
  assumes "client_laws M" and "consumers_ok M cm w" and "ConsumerManager_DoChannelCloseEvent M enable ctx cm w = (cm1, w1)"
  shows "consumers_ok M cm1 w1"
proof -
  have l: "cmap_laws (groupMap M)" "cmap_laws (connMap M)" using assms(1) by (simp_all add: client_laws_def)
  obtain t where t: "close_groups M enable ctx (mIter (groupMap M) (consumerTable cm)) (consumerTable cm) w = (t, w1)"
      "cm1 = cm\<lparr>consumerTable := t\<rparr>"
    using assms(3) by (auto simp: ConsumerManager_DoChannelCloseEvent_def split: prod.splits)
  note s = close_groups_spec [OF l(1) t(1) cmap_iter(1) [OF l(1)]]
  have "group_ok M (channels w1) cg1" if "mGet (groupMap M) g t = Some cg1" for g cg1
  proof (cases "mGet (groupMap M) g (consumerTable cm)")
    case None
    then show ?thesis using s that cmap_iter(2) [OF l(1)] by auto
  next
    case (Some cg)
    then have "close_one M ctx cg = Some cg1" using s that cmap_simps(5) [OF l(1)] by auto
    moreover have "group_ok M (channels w) cg" using assms(2) Some by (simp add: consumers_ok_def ConsumerManager_GetConsumerGroupInfo_def)
    ultimately show ?thesis using close_one_ok [OF l(2)] s by metis
  qed
  then show ?thesis by (auto simp: consumers_ok_def ConsumerManager_GetConsumerGroupInfo_def t(2))
qed

lemma unregister_ok:
  assumes "client_laws M" and "consumers_ok M cm w" and "ConsumerManager_UnregisterConsumer M enable grp info cm w = (cm1, w1)"
  shows "consumers_ok M cm1 w1"
proof (cases "ConsumerManager_GetConsumerGroupInfo M grp cm")
  case (Some cg)
  have l: "cmap_laws (groupMap M)" "cmap_laws (connMap M)" using assms(1) by (simp_all add: client_laws_def)
  have ok: "group_ok M (channels w) cg" using assms(2) Some by (simp add: consumers_ok_def)
  then have "mSize (connMap M) (ConnTable cg) \<noteq> 0" using cmap_simps(4) [OF l(2)] by (auto simp: group_ok_def)
  then have c: "ConsumerGroupInfo_UnregisterChannel M info cg = cg\<lparr>ConnTable := mRemove (connMap M) (ci_Context info) (ConnTable cg)\<rparr>"
    using cmap_simps(6) [OF l(2), of "ConnTable cg"] by (simp add: ConsumerGroupInfo_UnregisterChannel_def)
  let ?conns = "mRemove (connMap M) (ci_Context info) (ConnTable cg)"
  have "group_ok M (channels w) (cg\<lparr>ConnTable := ?conns\<rparr>)" if "mSize (connMap M) ?conns \<noteq> 0"
    using that ok cmap_simps(4) [OF l(2), of ?conns] by (auto simp: group_ok_def cmap_simps(3) [OF l(2)] split: if_splits)
  with assms(2,3) Some show ?thesis
    by (auto simp: ConsumerManager_UnregisterConsumer_def Let_def c consumers_ok_def ConsumerManager_GetConsumerGroupInfo_def
        cmap_simps(2,3) [OF l(1)] split: if_splits)
next
  case None
  with assms(2,3) show ?thesis by (simp add: ConsumerManager_UnregisterConsumer_def)
qed

lemma register_ok:
  assumes "client_laws M" and "consumers_ok M cm w" and "a < length (channels w)"
    and "ConsumerManager_RegisterConsumer M enable now1 now2 grp a ct mm cf subList cm w = (r, cm1, w1)"
  shows "consumers_ok M cm1 w1"
proof -
  have l: "cmap_laws (connMap M)" using assms(1) by (simp add: client_laws_def)
  from RegisterConsumer_group [OF assms(1,4)] obtain cg u1 cg1 w2 where
    c: "cg = (case ConsumerManager_GetConsumerGroupInfo M grp cm of None \<Rightarrow> NewConsumerGroupInfo M grp ct mm cf | Some info \<Rightarrow> info)"
      "ConsumerGroupInfo_UpdateChannel M now1 a ct mm cf cg w = (u1, cg1, w2)" "channels w1 = channels w2"
      "\<And>g. ConsumerManager_GetConsumerGroupInfo M g cm1 =
       (if g = grp then Some (snd (ConsumerGroupInfo_UpdateSubscription M now2 subList cg1)) else ConsumerManager_GetConsumerGroupInfo M g cm)"
    by metis
  have "\<forall>k b. mGet (connMap M) k (ConnTable cg) = Some b \<longrightarrow> b < length (channels w) \<and> ci_Context (channels w ! b) = k"
    using assms(2) by (auto simp: c(1) consumers_ok_def group_ok_def NewConsumerGroupInfo_def cmap_simps(1) [OF l] split: option.splits)
  from UpdateChannel_ok [OF l assms(3) this c(2)] have k: "group_ok M (channels w2) cg1" "heap_le (channels w) (channels w2)" by auto
  then have "group_ok M (channels w2) (snd (ConsumerGroupInfo_UpdateSubscription M now2 subList cg1))"
    by (simp add: group_ok_def UpdateSubscription_conns)
  moreover have "consumers_ok M cm w2" using consumers_ok_heap [OF assms(2) k(2)] .
  ultimately show ?thesis by (auto simp: consumers_ok_def c(3,4))
qed

text \<open>
  C20 (groups have connections). In every reachable state, a group in the table of the consumer manager has at least one
  connection, and every connection is listed under its own address.
\<close>

theorem consumers_invariant:
  assumes "consumers_reach M cm w" and "client_laws M"
  shows "consumers_ok M cm w"
  using assms(1)
proof induction
  case start
  show ?case using assms(2)
    by (simp add: consumers_ok_def ConsumerManager_GetConsumerGroupInfo_def NewConsumerManager_def client_laws_def cmap_simps(1))
next
  case (connect cm w info)
  then show ?case by (elim consumers_ok_heap) (simp add: heap_le_def nth_append)
next
  case (touch_channel cm w now a)
  then show ?case by (elim consumers_ok_heap) (simp add: touch_def)
next
  case (scan cm w lo hi c cm1 w1 c1)
  show ?case unfolding consumers_ok_def
  proof (intro allI impI)
    fix grp cg1
    assume g: "ConsumerManager_GetConsumerGroupInfo M grp cm1 = Some cg1"
    with Scan_groups(3) [OF assms(2) scan(3,2), of grp] obtain cg where
      cg: "ConsumerManager_GetConsumerGroupInfo M grp cm = Some cg"
      "scanned M (ChannelExpiredTimeout cm) lo hi (channels w) cg (Some cg1)" by (auto split: option.splits)
    have "group_ok M (channels w) cg" using scan(4) cg(1) by (simp add: consumers_ok_def)
    then show "group_ok M (channels w1) cg1"
      using scanned_ok [OF assms(2) _ cg(2)] Scan_groups(1) [OF assms(2) scan(3,2)] by simp
  qed
qed (blast intro: register_ok [OF assms(2)] unregister_ok [OF assms(2)] close_ok [OF assms(2)])+

text \<open>
  After \<open>ScanNotActiveChannel\<close> no group has a connection
  that was silent for longer than the timeout when the scan began, and a connection that was not silent for that long when the scan
  ended is still in its group.
\<close>

lemma scan_removes_dead:
  assumes "client_laws M" and "ConsumerManager_ScanNotActiveChannel M cm w c = (cm1, w1, c1)" and "during lo hi c"
  shows "(\<forall>grp cg1 k a. ConsumerManager_GetConsumerGroupInfo M grp cm1 = Some cg1 \<and> mGet (connMap M) k (ConnTable cg1) = Some a \<longrightarrow>
      lo - ChannelExpiredTimeout cm \<le> ci_LastUpdateTimestamp (channels w ! a)) \<and>
    (\<forall>grp cg k a. ConsumerManager_GetConsumerGroupInfo M grp cm = Some cg \<and> mGet (connMap M) k (ConnTable cg) = Some a \<and>
      hi - ChannelExpiredTimeout cm \<le> ci_LastUpdateTimestamp (channels w ! a) \<longrightarrow>
      (\<exists>cg1. ConsumerManager_GetConsumerGroupInfo M grp cm1 = Some cg1 \<and> mGet (connMap M) k (ConnTable cg1) = Some a))"
proof (intro conjI allI impI; elim conjE)
  have l: "cmap_laws (connMap M)" using assms(1) by (simp add: client_laws_def)
  note s = Scan_groups(3) [OF assms]
  {
    fix grp cg1 k a
    assume g: "ConsumerManager_GetConsumerGroupInfo M grp cm1 = Some cg1" and k: "mGet (connMap M) k (ConnTable cg1) = Some a"
    from s [of grp] g obtain cg conns w2 c2 w3 c3 where
      x: "cg1 = cg\<lparr>ConnTable := conns\<rparr>" "channels w2 = channels w" "during lo hi c2"
        "scan_conns M (ChannelExpiredTimeout cm) (mIter (connMap M) (ConnTable cg)) (ConnTable cg) w2 c2 = (conns, w3, c3)"
      by (auto simp: scanned_def split: option.splits if_splits)
    have "(k, a) \<in> set (mIter (connMap M) (ConnTable cg))"
      using scan_conns_shrinks [OF l x(4), of k] k by (auto simp: x(1) cmap_simps(5) [OF l])
    from scan_conns_expired [OF l x(4) this x(3)] k show "lo - ChannelExpiredTimeout cm \<le> ci_LastUpdateTimestamp (channels w ! a)"
      by (force simp: x(1,2))
  next
    fix grp cg k a
    assume g: "ConsumerManager_GetConsumerGroupInfo M grp cm = Some cg" and k: "mGet (connMap M) k (ConnTable cg) = Some a"
      and f: "hi - ChannelExpiredTimeout cm \<le> ci_LastUpdateTimestamp (channels w ! a)"
    from s [of grp] g obtain conns w2 c2 w3 c3 where x: "channels w2 = channels w" "during lo hi c2"
        "scan_conns M (ChannelExpiredTimeout cm) (mIter (connMap M) (ConnTable cg)) (ConnTable cg) w2 c2 = (conns, w3, c3)"
        "ConsumerManager_GetConsumerGroupInfo M grp cm1 = (if mSize (connMap M) conns = 0 then None else Some (cg\<lparr>ConnTable := conns\<rparr>))"
      by (auto simp: scanned_def)
    have "mGet (connMap M) k conns = Some a"
      using scan_conns_fresh [OF l x(3,2), of k] k f by (simp add: x(1) cmap_simps(5) [OF l])
    then show "\<exists>cg1. ConsumerManager_GetConsumerGroupInfo M grp cm1 = Some cg1 \<and> mGet (connMap M) k (ConnTable cg1) = Some a"
      using x(4) cmap_simps(4) [OF l, of conns] by auto
  }
qed

text \<open>
  A closed producer is still picked. When the only producer of a group closes its connection, the broker
  forgets it in the table of groups but not in the table by hash codes, from which \<open>PickProducerChannelRandomly\<close> still returns it.
\<close>

lemma closed_producer_picked:
  assumes "map_of (GroupChannelTable pm) grp = None" and "map_of (hashcodeChannelTable pm) (HashCode grp) = None"
    and "ctx = ci_Context (channels w ! a)" and "ProducerManager_RegisterProducer now1 now2 grp a pm w = (pm1, w1)"
  shows "map_of (GroupChannelTable (ProducerManager_DoChannelCloseEvent ctx pm1)) grp = None \<and>
    ProducerManager_PickProducerChannelRandomly rnd (HashCode grp) (ProducerManager_DoChannelCloseEvent ctx pm1) = Some a"
proof -
  have p: "GroupChannelTable pm1 = AList.update grp [(ctx, a)] (GroupChannelTable pm)"
      "map_of (hashcodeChannelTable pm1) (HashCode grp) = Some [a]"
    using assms by (auto simp: ProducerManager_RegisterProducer_def contains_channel_def Let_def update_conv')
  have "t = [(ctx, a)]" if "(grp, t) \<in> set (GroupChannelTable pm1)" for t
    using that assms(1) by (auto simp: p(1) map_of_eq_None_iff rev_image_eqI dest!: set_update_cases)
  then have "map_of (GroupChannelTable (ProducerManager_DoChannelCloseEvent ctx pm1)) grp = None"
    by (fastforce simp: ProducerManager_DoChannelCloseEvent_def map_of_eq_None_iff)
  with p(2) show ?thesis by (simp add: ProducerManager_PickProducerChannelRandomly_def ProducerManager_DoChannelCloseEvent_def)
qed

section \<open>A run\<close>

definition list_maps :: "((string \<times> nat) list, (string \<times> nat) list,
    (string \<times> ((string \<times> nat) list, (string \<times> nat) list) ConsumerGroupInfo) list) client_maps" where
  "list_maps = \<lparr>subMap = alist_map, connMap = alist_map, groupMap = alist_map\<rparr>"

lemma list_maps_laws: "client_laws list_maps"
  by (simp add: client_laws_def list_maps_def alist_map_laws)

definition example_world :: client_world where
  "example_world = \<lparr>channels = [NewClientChannelInfo 1 ''c1'' ''id1'' ''GO'' ''c1'' 1], closed = [], notified = []\<rparr>"

definition example_sub :: "string \<Rightarrow> string \<Rightarrow> SubscriptionDataPlus" where
  "example_sub topic expr = \<lparr>SUB_ALL = ''*'', ClassFilterMode = False, sd_Topic = topic, SubString = expr, TagsSet = [expr],
     CodeSet = [], SubVersion = 1\<rparr>"

definition example_register :: "bool \<times> (string \<times> ((string \<times> nat) list, (string \<times> nat) list) ConsumerGroupInfo) list ConsumerManager \<times>
    client_world" where
  "example_register = ConsumerManager_RegisterConsumer list_maps True 1000 1001 ''g'' 0 CONSUME_PASSIVELY CLUSTERING
     CONSUME_FROM_LAST_OFFSET [example_sub ''t1'' ''A'', example_sub ''t2'' ''B''] (NewConsumerManager list_maps) example_world"

lemma example_register_eq:
  "ConsumerManager_RegisterConsumer list_maps True 1000 1001 ''g'' 0 CONSUME_PASSIVELY CLUSTERING CONSUME_FROM_LAST_OFFSET
     [example_sub ''t1'' ''A'', example_sub ''t2'' ''B''] (NewConsumerManager list_maps) example_world =
   (fst example_register, fst (snd example_register), snd (snd example_register))"
  by (simp add: example_register_def)

lemma clients_example_reach: "consumers_reach list_maps (fst (snd example_register)) (snd (snd example_register))"
proof -
  have "consumers_reach list_maps (NewConsumerManager list_maps) example_world"
    using consumers_reach.connect [OF consumers_reach.start, of list_maps "NewClientChannelInfo 1 ''c1'' ''id1'' ''GO'' ''c1'' 1"]
    by (simp add: example_world_def)
  from consumers_reach.register [OF this _ example_register_eq] show ?thesis by (simp add: example_world_def)
qed

lemma example_group:
  "\<exists>cg. ConsumerManager_GetConsumerGroupInfo list_maps ''g'' (fst (snd example_register)) = Some cg \<and>
     mGet (connMap list_maps) ''c1'' (ConnTable cg) = Some 0 \<and>
     ci_LastUpdateTimestamp (channels (snd (snd example_register)) ! 0) = 1000 \<and>
     ChannelExpiredTimeout (fst (snd example_register)) = 120000"
  by (simp add: example_register_def ConsumerManager_RegisterConsumer_def ConsumerManager_GetConsumerGroupInfo_def
      NewConsumerManager_def NewConsumerGroupInfo_def ConsumerGroupInfo_UpdateChannel_def ConsumerGroupInfo_UpdateSubscription_def
      ConsumerIdsChanged_def example_world_def NewClientChannelInfo_def example_sub_def list_maps_def alist_map_def Let_def)

lemma register_shares_subscription_witness:
  "ConsumerManager_FindSubscriptionData list_maps ''g'' ''t1'' (fst (snd example_register)) = Some (example_sub ''t2'' ''B'')"
proof -
  have "ConsumerManager_GetConsumerGroupInfo list_maps ''g'' (NewConsumerManager list_maps) = None"
    by (simp add: ConsumerManager_GetConsumerGroupInfo_def NewConsumerManager_def list_maps_def alist_map_def)
  from register_shares_subscription [OF list_maps_laws this _ example_register_eq, of "example_sub ''t1'' ''A''"]
  show ?thesis by (simp add: example_sub_def)
qed

theorem consumers_invariant_witness:
  "consumers_ok list_maps (fst (snd example_register)) (snd (snd example_register))"
  by (rule consumers_invariant [OF clients_example_reach list_maps_laws])

lemma scan_removes_dead_witness:
  "\<exists>cg1. ConsumerManager_GetConsumerGroupInfo list_maps ''g'' (fst (ConsumerManager_ScanNotActiveChannel list_maps
     (fst (snd example_register)) (snd (snd example_register)) (sconst 2000))) = Some cg1 \<and>
   mGet (connMap list_maps) ''c1'' (ConnTable cg1) = Some 0"
proof -
  let ?s = "ConsumerManager_ScanNotActiveChannel list_maps (fst (snd example_register)) (snd (snd example_register)) (sconst 2000)"
  have e: "?s = (fst ?s, fst (snd ?s), snd (snd ?s))" by simp
  have d: "during 2000 2000 (sconst 2000)" by (simp add: during_def)
  from example_group scan_removes_dead [OF list_maps_laws e d] show ?thesis by fastforce
qed

lemma closed_producer_picked_witness:
  "ProducerManager_PickProducerChannelRandomly 7 (HashCode ''g'') (ProducerManager_DoChannelCloseEvent ''c1''
     (fst (ProducerManager_RegisterProducer 1 2 ''g'' 0 NewProducerManager example_world))) = Some 0"
  using closed_producer_picked [of NewProducerManager "''g''" "''c1''" example_world 0 1 2
      "fst (ProducerManager_RegisterProducer 1 2 ''g'' 0 NewProducerManager example_world)" _ 7]
  by (simp add: NewProducerManager_def example_world_def NewClientChannelInfo_def prod_eq_iff)

end
