(* ===== verification/ConfigM.thy ===== *)
theory ConfigM
  imports RouteM GoPackages
begin

text \<open>
  The configurations a broker keeps on disk: writing a file (\<open>String2File\<close> of \<open>stgcommon/mix_all.go\<close>),
  \<open>stgbroker/config_manager.go\<close>, the paths of \<open>broker_path_config_helper.go\<close>, the subscription groups
  (\<open>subscription_group_manager.go\<close>, \<open>stgcommon/subscription/\<close>) and the topics (\<open>topic_config_manager.go\<close>,
  \<open>stgcommon/protocol/body/topic_config_table.go\<close>).

  Files are a map from names to contents. The JSON package is an argument: \<open>marshal\<close> returns \<open>None\<close> for an error, \<open>unmarshal\<close>
  fills the value it is given. The time is an argument. A Go map is an association list; a configuration is reached from
  one table only. \<open>RegisterBrokerAll\<close> is recorded by a counter.
\<close>

unbundle bit_operations_syntax

section \<open>Files\<close>

type_synonym files = "string \<rightharpoonup> string"

text \<open>\<open>createFile\<close> opens without truncating: what is behind the new data stays in the file.\<close>

definition createFile :: "string \<Rightarrow> string \<Rightarrow> files \<Rightarrow> files" where
  "createFile data fileName fs =
     fs(fileName \<mapsto> data @ (case fs fileName of None \<Rightarrow> [] | Some old \<Rightarrow> drop (length data) old))"

definition String2File :: "string \<Rightarrow> string \<Rightarrow> files \<Rightarrow> files" where
  "String2File data fileName fs =
     (let tmpFile = fileName @ ''.tmp'';
          fs1 = createFile data tmpFile fs;
          bakFile = fileName @ ''.bak'';
          fs2 = (case fs1 fileName of None \<Rightarrow> fs1 | Some oldData \<Rightarrow> createFile oldData bakFile fs1);
          fs3 = fs2(fileName := None)
      in fs3(tmpFile := None, fileName := fs3 tmpFile))"

section \<open>ConfigManagerExt\<close>

definition ConfigManagerExt_Persist :: "string \<Rightarrow> string \<Rightarrow> files \<Rightarrow> files" where
  "ConfigManagerExt_Persist encoded fileName fs =
     (let buf = TrimSpace encoded in if buf = [] then fs else String2File buf fileName fs)"

text \<open>\<open>created\<close>: whether a missing file could be created.\<close>

definition ConfigManagerExt_Load :: "(string \<Rightarrow> 'a \<Rightarrow> 'a) \<Rightarrow> bool \<Rightarrow> string \<Rightarrow> 'a \<Rightarrow> files \<Rightarrow> bool \<times> 'a \<times> files" where
  "ConfigManagerExt_Load decode created fileName self fs =
     (case fs fileName of
        Some buf \<Rightarrow> (True, decode buf self, fs)
      | None \<Rightarrow> if created then (True, decode [] self, fs(fileName \<mapsto> [])) else (False, self, fs))"

definition GetTopicConfigPath :: "string \<Rightarrow> string" where
  "GetTopicConfigPath rootDir = rootDir @ ''/config/topics.json''"

definition GetConsumerOffsetPath :: "string \<Rightarrow> string" where
  "GetConsumerOffsetPath rootDir = rootDir @ ''/config/consumerOffset.json''"

definition GetSubscriptionGroupPath :: "string \<Rightarrow> string" where
  "GetSubscriptionGroupPath rootDir = rootDir @ ''/config/subscriptionGroup.json''"

section \<open>The broker's configuration\<close>

text \<open>The fields of \<open>BrokerConfig\<close> the managers read.\<close>

record BrokerConfig =
  BrokerName :: string
  BrokerClusterName :: string
  AutoCreateTopicEnable :: bool
  DefaultTopicQueueNums :: int
  ClusterTopicEnable :: bool
  BrokerTopicEnable :: bool
  AutoCreateSubscriptionGroup :: bool
  StorePathRootDir :: string

text \<open>\<open>home\<close> is the result of \<open>GetUserHomeDir\<close>.\<close>

definition config_home :: "string \<Rightarrow> BrokerConfig \<Rightarrow> string" where
  "config_home home cfg = (if StorePathRootDir cfg \<noteq> [] then StorePathRootDir cfg else home)"

section \<open>Subscription groups\<close>

record SubscriptionGroupConfig =
  GroupName :: string
  ConsumeEnable :: bool
  ConsumeFromMinEnable :: bool
  ConsumeBroadcastEnable :: bool
  RetryQueueNums :: int
  RetryMaxTimes :: int
  sg_BrokerId :: int
  WhichBrokerWhenConsumeSlowly :: int

definition NewSubscriptionGroupConfig :: SubscriptionGroupConfig where
  "NewSubscriptionGroupConfig = \<lparr>GroupName = [], ConsumeEnable = True, ConsumeFromMinEnable = True, ConsumeBroadcastEnable = True,
     RetryQueueNums = 1, RetryMaxTimes = 16, sg_BrokerId = 0, WhichBrokerWhenConsumeSlowly = 0\<rparr>"

record SubscriptionGroupTable =
  sg_Table :: "(string \<times> SubscriptionGroupConfig) list"
  sg_DataVersion :: DataVersion

definition NewSubscriptionGroupTable :: "int \<Rightarrow> SubscriptionGroupTable" where
  "NewSubscriptionGroupTable now = \<lparr>sg_Table = [], sg_DataVersion = NewDataVersion now []\<rparr>"

definition SubscriptionGroupTable_Put ::
    "string \<Rightarrow> SubscriptionGroupConfig \<Rightarrow> SubscriptionGroupTable \<Rightarrow> SubscriptionGroupConfig option \<times> SubscriptionGroupTable" where
  "SubscriptionGroupTable_Put k v table = (map_of (sg_Table table) k, table\<lparr>sg_Table := AList.update k v (sg_Table table)\<rparr>)"

definition SubscriptionGroupTable_Get :: "string \<Rightarrow> SubscriptionGroupTable \<Rightarrow> SubscriptionGroupConfig option" where
  "SubscriptionGroupTable_Get k table = map_of (sg_Table table) k"

definition SubscriptionGroupTable_Remove :: "string \<Rightarrow> SubscriptionGroupTable \<Rightarrow> SubscriptionGroupConfig option \<times> SubscriptionGroupTable" where
  "SubscriptionGroupTable_Remove k table =
     (case map_of (sg_Table table) k of
        None \<Rightarrow> (None, table)
      | Some v \<Rightarrow> (Some v, table\<lparr>sg_Table := AList.delete k (sg_Table table)\<rparr>))"

text \<open>\<open>PutAll\<close> and \<open>ClearAndPutAll\<close>: entries of another type are \<open>None\<close>, \<open>offsetMap\<close> is \<open>None\<close> for \<open>nil\<close>.\<close>

definition put_groups ::
    "(string option \<times> SubscriptionGroupConfig option) list option \<Rightarrow> (string \<times> SubscriptionGroupConfig) list \<Rightarrow>
     (string \<times> SubscriptionGroupConfig) list" where
  "put_groups offsetMap t =
     (case offsetMap of
        None \<Rightarrow> t
      | Some es \<Rightarrow> fold (\<lambda>(key, v) t. case (key, v) of
            (Some groupName, Some config) \<Rightarrow> if groupName \<noteq> [] then AList.update groupName config t else t
          | _ \<Rightarrow> t) es t)"

definition SubscriptionGroupTable_PutAll ::
    "(string option \<times> SubscriptionGroupConfig option) list option \<Rightarrow> SubscriptionGroupTable \<Rightarrow> SubscriptionGroupTable" where
  "SubscriptionGroupTable_PutAll offsetMap table = table\<lparr>sg_Table := put_groups offsetMap (sg_Table table)\<rparr>"

definition SubscriptionGroupTable_Clear :: "SubscriptionGroupTable \<Rightarrow> SubscriptionGroupTable" where
  "SubscriptionGroupTable_Clear table = table\<lparr>sg_Table := []\<rparr>"

definition SubscriptionGroupTable_ClearAndPutAll ::
    "(string option \<times> SubscriptionGroupConfig option) list option \<Rightarrow> SubscriptionGroupTable \<Rightarrow> SubscriptionGroupTable" where
  "SubscriptionGroupTable_ClearAndPutAll offsetMap table = table\<lparr>sg_Table := put_groups offsetMap []\<rparr>"

definition TOOLS_CONSUMER_GROUP :: string where "TOOLS_CONSUMER_GROUP = ''TOOLS_CONSUMER''"

definition FILTERSRV_CONSUMER_GROUP :: string where "FILTERSRV_CONSUMER_GROUP = ''FILTERSRV_CONSUMER''"

definition SELF_TEST_CONSUMER_GROUP :: string where "SELF_TEST_CONSUMER_GROUP = ''SELF_TEST_C_GROUP''"

definition NewSubscriptionGroupManager :: "int \<Rightarrow> SubscriptionGroupTable" where
  "NewSubscriptionGroupManager now =
     fold (\<lambda>grp t. snd (SubscriptionGroupTable_Put grp (NewSubscriptionGroupConfig\<lparr>GroupName := grp\<rparr>) t))
       [TOOLS_CONSUMER_GROUP, FILTERSRV_CONSUMER_GROUP, SELF_TEST_CONSUMER_GROUP] (NewSubscriptionGroupTable now)"

text \<open>The manager is its table; \<open>sg_persist\<close> is what its \<open>Persist\<close> does.\<close>

definition sg_persist ::
    "(SubscriptionGroupTable \<Rightarrow> string option) \<Rightarrow> string \<Rightarrow> BrokerConfig \<Rightarrow> SubscriptionGroupTable \<Rightarrow> files \<Rightarrow> files" where
  "sg_persist marshal home cfg self fs =
     ConfigManagerExt_Persist (case marshal self of None \<Rightarrow> [] | Some buf \<Rightarrow> buf) (GetSubscriptionGroupPath (config_home home cfg)) fs"

definition SubscriptionGroupManager_FindSubscriptionGroupConfig ::
    "(SubscriptionGroupTable \<Rightarrow> string option) \<Rightarrow> int \<Rightarrow> string \<Rightarrow> BrokerConfig \<Rightarrow> string \<Rightarrow> SubscriptionGroupTable \<Rightarrow> files \<Rightarrow>
     SubscriptionGroupConfig option \<times> SubscriptionGroupTable \<times> files" where
  "SubscriptionGroupManager_FindSubscriptionGroupConfig marshal now home cfg grp self fs =
     (case SubscriptionGroupTable_Get grp self of
        Some config \<Rightarrow> (Some config, self, fs)
      | None \<Rightarrow>
          if \<not> AutoCreateSubscriptionGroup cfg then (None, self, fs)
          else (let config = NewSubscriptionGroupConfig\<lparr>GroupName := grp\<rparr>;
                    self1 = snd (SubscriptionGroupTable_Put grp config self);
                    self2 = self1\<lparr>sg_DataVersion := DataVersion_NextVersion now (sg_DataVersion self1)\<rparr>
                in (Some config, self2, sg_persist marshal home cfg self2 fs)))"

definition SubscriptionGroupManager_UpdateSubscriptionGroupConfig ::
    "(SubscriptionGroupTable \<Rightarrow> string option) \<Rightarrow> int \<Rightarrow> string \<Rightarrow> BrokerConfig \<Rightarrow> SubscriptionGroupConfig \<Rightarrow> SubscriptionGroupTable \<Rightarrow> files \<Rightarrow>
     SubscriptionGroupTable \<times> files" where
  "SubscriptionGroupManager_UpdateSubscriptionGroupConfig marshal now home cfg config self fs =
     (let self1 = snd (SubscriptionGroupTable_Put (GroupName config) config self);
          self2 = self1\<lparr>sg_DataVersion := DataVersion_NextVersion now (sg_DataVersion self1)\<rparr>
      in (self2, sg_persist marshal home cfg self2 fs))"

definition SubscriptionGroupManager_DeleteSubscriptionGroupConfig ::
    "(SubscriptionGroupTable \<Rightarrow> string option) \<Rightarrow> int \<Rightarrow> string \<Rightarrow> BrokerConfig \<Rightarrow> string \<Rightarrow> SubscriptionGroupTable \<Rightarrow> files \<Rightarrow>
     SubscriptionGroupTable \<times> files" where
  "SubscriptionGroupManager_DeleteSubscriptionGroupConfig marshal now home cfg groupName self fs =
     (case SubscriptionGroupTable_Remove groupName self of
        (None, self1) \<Rightarrow> (self1, fs)
      | (Some old, self1) \<Rightarrow>
          (let self2 = self1\<lparr>sg_DataVersion := DataVersion_NextVersion now (sg_DataVersion self1)\<rparr>
           in (self2, sg_persist marshal home cfg self2 fs)))"

definition SubscriptionGroupManager_Decode ::
    "(string \<Rightarrow> SubscriptionGroupTable \<Rightarrow> SubscriptionGroupTable) \<Rightarrow> string \<Rightarrow> SubscriptionGroupTable \<Rightarrow> SubscriptionGroupTable" where
  "SubscriptionGroupManager_Decode unmarshal buf self = (if buf = [] then self else unmarshal buf self)"

definition SubscriptionGroupManager_Load ::
    "(string \<Rightarrow> SubscriptionGroupTable \<Rightarrow> SubscriptionGroupTable) \<Rightarrow> bool \<Rightarrow> string \<Rightarrow> BrokerConfig \<Rightarrow> SubscriptionGroupTable \<Rightarrow> files \<Rightarrow>
     bool \<times> SubscriptionGroupTable \<times> files" where
  "SubscriptionGroupManager_Load unmarshal created home cfg self fs =
     ConfigManagerExt_Load (SubscriptionGroupManager_Decode unmarshal) created (GetSubscriptionGroupPath (config_home home cfg)) self fs"

section \<open>Files that are written\<close>

lemma String2File_at:
  assumes "fs (fileName @ ''.tmp'') = None"
  shows "String2File data fileName fs fileName = Some data" and "String2File data fileName fs (fileName @ ''.tmp'') = None"
    and "n \<notin> {fileName, fileName @ ''.tmp'', fileName @ ''.bak''} \<Longrightarrow> String2File data fileName fs n = fs n"
  using assms by (auto simp: String2File_def createFile_def Let_def split: option.splits)

text \<open>The backup of a file that has become shorter keeps the end of the older backup.\<close>

lemma backup_keeps_tail:
  assumes "fs fileName = Some old" and "fs (fileName @ ''.bak'') = Some older" and "length old < length older"
  shows "String2File data fileName fs (fileName @ ''.bak'') = Some (old @ drop (length old) older)"
    and "old @ drop (length old) older \<noteq> old"
  using assms by (auto simp: String2File_def createFile_def Let_def)

text \<open>What is needed of the JSON text of a value: it is not empty and has no white space around it.\<close>

definition json_text :: "string \<Rightarrow> bool" where
  "json_text s \<longleftrightarrow> s \<noteq> [] \<and> TrimSpace s = s"

lemma persist_then_load:
  assumes "fs (fileName @ ''.tmp'') = None" and "json_text s"
  shows "ConfigManagerExt_Load decode created fileName self (ConfigManagerExt_Persist s fileName fs) =
    (True, decode s self, ConfigManagerExt_Persist s fileName fs)"
  using assms String2File_at(1) [of fs fileName, OF assms(1)] by (simp add: ConfigManagerExt_Load_def ConfigManagerExt_Persist_def json_text_def Let_def)

end
