(* ===== verification/TopicConfigM.thy ===== *)
theory TopicConfigM
  imports ConfigM
begin

text \<open>
  The topics of a broker: \<open>stgbroker/topic_config_manager.go\<close> and its table
  \<open>stgcommon/protocol/body/topic_config_table.go\<close>. See \<^theory_text>\<open>ConfigM\<close> for the files and the JSON package.
\<close>

unbundle bit_operations_syntax

section \<open>State\<close>

type_synonym topic_table = "(string \<times> TopicConfig) list"

record topic_wrapper =
  tw_TopicConfigTable :: topic_table
  tw_DataVersion :: DataVersion

text \<open>The elements of \<open>SystemTopicList\<close>: a pointer to the configuration of a topic, or a string.\<close>

datatype sys_elem = ConfigPtr string | TopicString string

record 's TopicConfigManager =
  SerializeWrapper :: topic_wrapper
  SystemTopicList :: 's
  tcm_DataVersion :: DataVersion

record broker_world =
  bw_files :: files
  registrations :: nat

definition TopicConfigTable_Put :: "string \<Rightarrow> TopicConfig \<Rightarrow> topic_table \<Rightarrow> TopicConfig option \<times> topic_table" where
  "TopicConfigTable_Put k v table = (map_of table k, AList.update k v table)"

definition TopicConfigTable_Get :: "string \<Rightarrow> topic_table \<Rightarrow> TopicConfig option" where
  "TopicConfigTable_Get k table = map_of table k"

definition TopicConfigTable_Remove :: "string \<Rightarrow> topic_table \<Rightarrow> TopicConfig option \<times> topic_table" where
  "TopicConfigTable_Remove k table =
     (case map_of table k of None \<Rightarrow> (None, table) | Some v \<Rightarrow> (Some v, AList.delete k table))"

definition TopicConfigTable_PutAll :: "topic_table \<Rightarrow> topic_table \<Rightarrow> topic_table" where
  "TopicConfigTable_PutAll topicConfigTable table = fold (\<lambda>(k, v). AList.update k v) topicConfigTable table"

definition TopicConfigTable_ClearAndPutAll :: "topic_table \<Rightarrow> topic_table \<Rightarrow> topic_table" where
  "TopicConfigTable_ClearAndPutAll topicConfigTable table = fold (\<lambda>(k, v). AList.update k v) topicConfigTable []"

definition TopicConfigTable_Keys :: "topic_table \<Rightarrow> string list" where
  "TopicConfigTable_Keys self = map fst self"

section \<open>The topics of a new manager\<close>

definition SELF_TEST_TOPIC :: string where "SELF_TEST_TOPIC = ''SELF_TEST_TOPIC''"

definition DEFAULT_TOPIC :: string where "DEFAULT_TOPIC = ''MY_DEFAULT_TOPIC''"

definition BENCHMARK_TOPIC :: string where "BENCHMARK_TOPIC = ''BenchmarkTest''"

definition OFFSET_MOVED_EVENT :: string where "OFFSET_MOVED_EVENT = ''OFFSET_MOVED_EVENT''"

definition system_topics :: "BrokerConfig \<Rightarrow> TopicConfig list" where
  "system_topics cfg =
     [(NewTopicConfig SELF_TEST_TOPIC)\<lparr>tc_ReadQueueNums := 1, tc_WriteQueueNums := 1\<rparr>] @
     (if AutoCreateTopicEnable cfg
      then [(NewTopicConfig DEFAULT_TOPIC)\<lparr>tc_ReadQueueNums := DefaultTopicQueueNums cfg, tc_WriteQueueNums := DefaultTopicQueueNums cfg,
              tc_Perm := PERM_INHERIT OR PERM_READ OR PERM_WRITE\<rparr>]
      else []) @
     [(NewTopicConfig BENCHMARK_TOPIC)\<lparr>tc_ReadQueueNums := 1024, tc_WriteQueueNums := 1024\<rparr>,
      (NewTopicConfig (BrokerClusterName cfg))\<lparr>tc_Perm :=
         (if ClusterTopicEnable cfg then PERM_INHERIT OR (PERM_READ OR PERM_WRITE) else PERM_INHERIT)\<rparr>,
      (NewTopicConfig (BrokerName cfg))\<lparr>tc_Perm :=
         (if BrokerTopicEnable cfg then PERM_INHERIT OR (PERM_READ OR PERM_WRITE) else PERM_INHERIT),
         tc_WriteQueueNums := 1, tc_ReadQueueNums := 1\<rparr>,
      (NewTopicConfig OFFSET_MOVED_EVENT)\<lparr>tc_ReadQueueNums := 1, tc_WriteQueueNums := 1\<rparr>]"

definition NewTopicConfigManager :: "(sys_elem, 's) set_ops \<Rightarrow> int \<Rightarrow> int \<Rightarrow> BrokerConfig \<Rightarrow> 's TopicConfigManager" where
  "NewTopicConfigManager S now1 now2 cfg =
     \<lparr>SerializeWrapper = \<lparr>tw_TopicConfigTable =
          fold (\<lambda>tc t. snd (TopicConfigTable_Put (tc_TopicName tc) tc t)) (system_topics cfg) [],
        tw_DataVersion = NewDataVersion now1 []\<rparr>,
      SystemTopicList = fold (\<lambda>tc. sAdd S (ConfigPtr (tc_TopicName tc))) (system_topics cfg) (sNew S),
      tcm_DataVersion = NewDataVersion now2 []\<rparr>"

definition TopicConfigManager_isSystemTopic :: "(sys_elem, 's) set_ops \<Rightarrow> string \<Rightarrow> 's TopicConfigManager \<Rightarrow> bool" where
  "TopicConfigManager_isSystemTopic S topic tcm = sContains S (TopicString topic) (SystemTopicList tcm)"

definition TopicConfigManager_isTopicCanSendMessage :: "BrokerConfig \<Rightarrow> string \<Rightarrow> bool" where
  "TopicConfigManager_isTopicCanSendMessage cfg topic =
     (if topic = DEFAULT_TOPIC \<or> topic = BrokerClusterName cfg then False else True)"

section \<open>Operations\<close>

abbreviation tcm_table :: "'s TopicConfigManager \<Rightarrow> topic_table" where
  "tcm_table tcm \<equiv> tw_TopicConfigTable (SerializeWrapper tcm)"

definition tcm_set_table :: "topic_table \<Rightarrow> 's TopicConfigManager \<Rightarrow> 's TopicConfigManager" where
  "tcm_set_table t tcm = tcm\<lparr>SerializeWrapper := (SerializeWrapper tcm)\<lparr>tw_TopicConfigTable := t\<rparr>\<rparr>"

definition tcm_next_version :: "int \<Rightarrow> 's TopicConfigManager \<Rightarrow> 's TopicConfigManager" where
  "tcm_next_version now tcm =
     tcm\<lparr>SerializeWrapper := (SerializeWrapper tcm)\<lparr>tw_DataVersion := DataVersion_NextVersion now (tw_DataVersion (SerializeWrapper tcm))\<rparr>\<rparr>"

definition tcm_persist ::
    "(topic_wrapper \<Rightarrow> string option) \<Rightarrow> string \<Rightarrow> BrokerConfig \<Rightarrow> 's TopicConfigManager \<Rightarrow> broker_world \<Rightarrow> broker_world" where
  "tcm_persist marshal home cfg tcm w =
     w\<lparr>bw_files := ConfigManagerExt_Persist (case marshal (SerializeWrapper tcm) of None \<Rightarrow> [] | Some buf \<Rightarrow> buf)
        (GetTopicConfigPath (config_home home cfg)) (bw_files w)\<rparr>"

definition TopicConfigManager_SelectTopicConfig :: "string \<Rightarrow> 's TopicConfigManager \<Rightarrow> TopicConfig option" where
  "TopicConfigManager_SelectTopicConfig topic tcm = TopicConfigTable_Get topic (tcm_table tcm)"

text \<open>The new topic is a struct literal without the permission that is computed for it.\<close>

definition TopicConfigManager_CreateTopicInSendMessageMethod ::
    "(topic_wrapper \<Rightarrow> string option) \<Rightarrow> int \<Rightarrow> string \<Rightarrow> BrokerConfig \<Rightarrow> string \<Rightarrow> string \<Rightarrow> int \<Rightarrow> int \<Rightarrow> 's TopicConfigManager \<Rightarrow> broker_world \<Rightarrow>
     (error + TopicConfig) \<times> 's TopicConfigManager \<times> broker_world" where
  "TopicConfigManager_CreateTopicInSendMessageMethod marshal now home cfg topic defaultTopic clientDefaultTopicQueueNums topicSysFlag tcm w =
     (case TopicConfigTable_Get topic (tcm_table tcm) of
        Some tc \<Rightarrow> (Inr tc, tcm, w)
      | None \<Rightarrow>
          if \<not> AutoCreateTopicEnable cfg then (Inl ''No permissions to create topic'', tcm, w)
          else case TopicConfigTable_Get defaultTopic (tcm_table tcm) of
            None \<Rightarrow> (Inl ''create new topic failed, because the default topic not exit'', tcm, w)
          | Some defaultTopicConfig \<Rightarrow>
              if \<not> IsInherited (tc_Perm defaultTopicConfig) then (Inl ''No permissions to create topic'', tcm, w)
              else (let queueNums = (if clientDefaultTopicQueueNums > tc_WriteQueueNums defaultTopicConfig
                                     then tc_WriteQueueNums defaultTopicConfig else clientDefaultTopicQueueNums);
                        queueNums = (if queueNums < 0 then 0 else queueNums);
                        topicConfig = \<lparr>tc_SEPARATOR = [], tc_TopicName = topic, tc_ReadQueueNums = queueNums, tc_WriteQueueNums = queueNums,
                          tc_Perm = 0, tc_TopicFilterType = tc_TopicFilterType defaultTopicConfig, tc_TopicSysFlag = topicSysFlag, tc_Order = False\<rparr>;
                        tcm1 = tcm_next_version now (tcm_set_table (snd (TopicConfigTable_Put topic topicConfig (tcm_table tcm))) tcm);
                        w1 = tcm_persist marshal home cfg tcm1 w
                    in (Inr topicConfig, tcm1, w1\<lparr>registrations := registrations w1 + 1\<rparr>)))"

definition TopicConfigManager_CreateTopicInSendMessageBackMethod ::
    "(topic_wrapper \<Rightarrow> string option) \<Rightarrow> int \<Rightarrow> string \<Rightarrow> BrokerConfig \<Rightarrow> string \<Rightarrow> int \<Rightarrow> int \<Rightarrow> int \<Rightarrow> 's TopicConfigManager \<Rightarrow> broker_world \<Rightarrow>
     TopicConfig \<times> 's TopicConfigManager \<times> broker_world" where
  "TopicConfigManager_CreateTopicInSendMessageBackMethod marshal now home cfg topic clientDefaultTopicQueueNums perm topicSysFlag tcm w =
     (case TopicConfigTable_Get topic (tcm_table tcm) of
        Some tc \<Rightarrow> (tc, tcm, w)
      | None \<Rightarrow>
          (let topicConfig = \<lparr>tc_SEPARATOR = [], tc_TopicName = topic, tc_ReadQueueNums = clientDefaultTopicQueueNums,
                 tc_WriteQueueNums = clientDefaultTopicQueueNums, tc_Perm = perm, tc_TopicFilterType = SINGLE_TAG,
                 tc_TopicSysFlag = topicSysFlag, tc_Order = False\<rparr>;
               tcm1 = tcm_next_version now (tcm_set_table (snd (TopicConfigTable_Put topic topicConfig (tcm_table tcm))) tcm);
               w1 = tcm_persist marshal home cfg tcm1 w
           in (topicConfig, tcm1, w1\<lparr>registrations := registrations w1 + 1\<rparr>)))"

definition TopicConfigManager_UpdateTopicConfig ::
    "(topic_wrapper \<Rightarrow> string option) \<Rightarrow> int \<Rightarrow> string \<Rightarrow> BrokerConfig \<Rightarrow> TopicConfig \<Rightarrow> 's TopicConfigManager \<Rightarrow> broker_world \<Rightarrow>
     's TopicConfigManager \<times> broker_world" where
  "TopicConfigManager_UpdateTopicConfig marshal now home cfg topicConfig tcm w =
     (let tcm1 = tcm_next_version now (tcm_set_table (snd (TopicConfigTable_Put (tc_TopicName topicConfig) topicConfig (tcm_table tcm))) tcm)
      in (tcm1, tcm_persist marshal home cfg tcm1 w))"

text \<open>
  \<open>updateOrderTopicConfig\<close>: \<open>orderKVTable\<close> is \<open>None\<close> when it or its table is \<open>nil\<close>. The first loop sets the flag of the topics
  in the set, the second clears it for the others; each says whether it changed anything.
\<close>

definition set_order :: "bool \<Rightarrow> string \<Rightarrow> topic_table \<times> bool \<Rightarrow> topic_table \<times> bool" where
  "set_order b topic s =
     (case s of (t, isChange) \<Rightarrow>
        (case TopicConfigTable_Get topic t of
           None \<Rightarrow> (t, isChange)
         | Some topicConfig \<Rightarrow>
             if tc_Order topicConfig \<noteq> b then (AList.update topic (topicConfig\<lparr>tc_Order := b\<rparr>) t, True) else (t, isChange)))"

definition TopicConfigManager_updateOrderTopicConfig ::
    "(string, 's1) set_ops \<Rightarrow> (topic_wrapper \<Rightarrow> string option) \<Rightarrow> int \<Rightarrow> string \<Rightarrow> BrokerConfig \<Rightarrow> (string \<times> string) list option \<Rightarrow>
     's TopicConfigManager \<Rightarrow> broker_world \<Rightarrow> 's TopicConfigManager \<times> broker_world" where
  "TopicConfigManager_updateOrderTopicConfig S marshal now home cfg orderKVTable tcm w =
     (case orderKVTable of
        None \<Rightarrow> (tcm, w)
      | Some table \<Rightarrow>
          (let orderTopics = fold (\<lambda>(k, _). sAdd S k) table (sNew S);
               (t1, isChange1) = fold (set_order True) (sIter S orderTopics) (tcm_table tcm, False);
               (t2, isChange2) = fold (\<lambda>topic s. if \<not> sContains S topic orderTopics then set_order False topic s else s)
                  (map fst t1) (t1, isChange1)
           in if isChange2
              then (let tcm1 = tcm_next_version now (tcm_set_table t2 tcm) in (tcm1, tcm_persist marshal home cfg tcm1 w))
              else (tcm_set_table t2 tcm, w)))"

definition TopicConfigManager_IsOrderTopic :: "string \<Rightarrow> 's TopicConfigManager \<Rightarrow> bool" where
  "TopicConfigManager_IsOrderTopic topic tcm =
     (case TopicConfigTable_Get topic (tcm_table tcm) of None \<Rightarrow> False | Some topicConfig \<Rightarrow> tc_Order topicConfig)"

definition TopicConfigManager_DeleteTopicConfig ::
    "(topic_wrapper \<Rightarrow> string option) \<Rightarrow> int \<Rightarrow> string \<Rightarrow> BrokerConfig \<Rightarrow> string \<Rightarrow> 's TopicConfigManager \<Rightarrow> broker_world \<Rightarrow>
     's TopicConfigManager \<times> broker_world" where
  "TopicConfigManager_DeleteTopicConfig marshal now home cfg topic tcm w =
     (case TopicConfigTable_Remove topic (tcm_table tcm) of
        (None, t) \<Rightarrow> (tcm, w)
      | (Some v, t) \<Rightarrow> (let tcm1 = tcm_next_version now (tcm_set_table t tcm) in (tcm1, tcm_persist marshal home cfg tcm1 w)))"

definition TopicConfigManager_buildTopicConfigSerializeWrapper :: "'s TopicConfigManager \<Rightarrow> topic_wrapper" where
  "TopicConfigManager_buildTopicConfigSerializeWrapper self = SerializeWrapper self"

definition TopicConfigManager_Decode ::
    "(string \<Rightarrow> topic_wrapper \<Rightarrow> topic_wrapper) \<Rightarrow> string \<Rightarrow> 's TopicConfigManager \<Rightarrow> 's TopicConfigManager" where
  "TopicConfigManager_Decode unmarshal content self =
     (if content = [] then self else self\<lparr>SerializeWrapper := unmarshal content (SerializeWrapper self)\<rparr>)"

definition TopicConfigManager_Load ::
    "(string \<Rightarrow> topic_wrapper \<Rightarrow> topic_wrapper) \<Rightarrow> bool \<Rightarrow> string \<Rightarrow> BrokerConfig \<Rightarrow> 's TopicConfigManager \<Rightarrow> broker_world \<Rightarrow>
     bool \<times> 's TopicConfigManager \<times> broker_world" where
  "TopicConfigManager_Load unmarshal created home cfg self w =
     (case ConfigManagerExt_Load (TopicConfigManager_Decode unmarshal) created (GetTopicConfigPath (config_home home cfg)) self (bw_files w) of
        (ok, self1, fs) \<Rightarrow> (ok, self1, w\<lparr>bw_files := fs\<rparr>))"

section \<open>Order flags\<close>

lemma map_of_upd [simp]: "map_of (AList.update k v al) = (map_of al)(k \<mapsto> v)"
  by (simp add: update_conv')

lemma set_order_spec:
  assumes "set_order b k (t, ch) = (t1, ch1)"
  shows "map_of t1 = (map_of t)(k := map_option (\<lambda>c. c\<lparr>tc_Order := b\<rparr>) (map_of t k))"
    and "ch1 \<longleftrightarrow> ch \<or> (\<exists>c. map_of t k = Some c \<and> tc_Order c \<noteq> b)" and "map fst t1 = map fst t"
proof -
  show "map_of t1 = (map_of t)(k := map_option (\<lambda>c. c\<lparr>tc_Order := b\<rparr>) (map_of t k))"
    using assms by (cases "map_of t k") (auto simp: set_order_def TopicConfigTable_Get_def fun_upd_idem split: if_splits)
  show "ch1 \<longleftrightarrow> ch \<or> (\<exists>c. map_of t k = Some c \<and> tc_Order c \<noteq> b)" and "map fst t1 = map fst t"
    using assms by (cases "map_of t k"; auto simp: set_order_def TopicConfigTable_Get_def map_fst_update split: if_splits)+
qed

lemma fold_set_order:
  "fold (set_order b) ks (t, ch) = (t1, ch1) \<Longrightarrow>
     (\<forall>k. map_of t1 k = (if k \<in> set ks then map_option (\<lambda>c. c\<lparr>tc_Order := b\<rparr>) (map_of t k) else map_of t k)) \<and>
     (ch1 \<longleftrightarrow> ch \<or> (\<exists>k \<in> set ks. \<exists>c. map_of t k = Some c \<and> tc_Order c \<noteq> b)) \<and> map fst t1 = map fst t"
proof (induction ks arbitrary: t ch)
  case (Cons k ks)
  obtain t2 ch2 where s: "set_order b k (t, ch) = (t2, ch2)" by fastforce
  note m = set_order_spec [OF s]
  have "fold (set_order b) ks (t2, ch2) = (t1, ch1)" using Cons.prems s by simp
  note ih = Cons.IH [OF this]
  have "map_of t1 x = (if x \<in> set (k # ks) then map_option (\<lambda>c. c\<lparr>tc_Order := b\<rparr>) (map_of t x) else map_of t x)" for x
    using ih by (cases "map_of t x") (auto simp: m(1))
  moreover have "ch1 \<longleftrightarrow> ch \<or> (\<exists>x \<in> set (k # ks). \<exists>c. map_of t x = Some c \<and> tc_Order c \<noteq> b)"
  proof -
    have "(\<exists>x \<in> set ks. \<exists>c. map_of t2 x = Some c \<and> tc_Order c \<noteq> b) \<longleftrightarrow>
        (\<exists>x \<in> set ks. x \<noteq> k \<and> (\<exists>c. map_of t x = Some c \<and> tc_Order c \<noteq> b))"
      by (intro bex_cong) (auto simp: m(1))
    with ih m(2) show ?thesis by auto
  qed
  ultimately show ?case using ih m(3) by simp
qed simp

lemma fold_guard: "fold (\<lambda>x s. if P x then f x s else s) xs s = fold f (filter P xs) s"
  by (induction xs arbitrary: s) simp_all

text \<open>
  C21 (order flags). After \<open>updateOrderTopicConfig\<close> a topic has the order flag exactly if it is a key of the table, the rest of every
  configuration is what it was, and the version is raised and the topics are saved exactly if a flag has changed.
\<close>

theorem update_order_exact:
  assumes "set_laws S"
    and "TopicConfigManager_updateOrderTopicConfig S marshal now home cfg (Some table) tcm w = (tcm1, w1)"
  shows "TopicConfigManager_SelectTopicConfig topic tcm1 =
      map_option (\<lambda>c. c\<lparr>tc_Order := topic \<in> fst ` set table\<rparr>) (TopicConfigManager_SelectTopicConfig topic tcm) \<and>
    (if \<exists>t c. TopicConfigManager_SelectTopicConfig t tcm = Some c \<and> tc_Order c \<noteq> (t \<in> fst ` set table)
     then tw_DataVersion (SerializeWrapper tcm1) = DataVersion_NextVersion now (tw_DataVersion (SerializeWrapper tcm)) \<and>
       w1 = tcm_persist marshal home cfg tcm1 w
     else tw_DataVersion (SerializeWrapper tcm1) = tw_DataVersion (SerializeWrapper tcm) \<and> w1 = w)"
proof -
  define ord where "ord = fold (\<lambda>(k, _). sAdd S k) table (sNew S)"
  have ord: "set (sIter S ord) = fst ` set table" "sContains S k ord \<longleftrightarrow> k \<in> fst ` set table" for k
    using fold_sAdd [OF assms(1), of fst table "sNew S"] assms(1) by (simp_all add: ord_def case_prod_unfold set_laws_def)
  obtain t1 c1 where a: "fold (set_order True) (sIter S ord) (tcm_table tcm, False) = (t1, c1)" by fastforce
  obtain t2 c2 where b: "fold (set_order False) (filter (\<lambda>k. k \<notin> fst ` set table) (map fst t1)) (t1, c1) = (t2, c2)" by fastforce
  have r: "(tcm1, w1) = (if c2 then (tcm_next_version now (tcm_set_table t2 tcm),
      tcm_persist marshal home cfg (tcm_next_version now (tcm_set_table t2 tcm)) w) else (tcm_set_table t2 tcm, w))"
    using assms(2)
    by (auto simp: TopicConfigManager_updateOrderTopicConfig_def fold_guard a b ord Let_def split: if_splits simp flip: ord_def)
  note A = fold_set_order [OF a]
  note B = fold_set_order [OF b]
  have A1: "map_of t1 k = (if k \<in> fst ` set table then map_option (\<lambda>c. c\<lparr>tc_Order := True\<rparr>) (map_of (tcm_table tcm) k)
      else map_of (tcm_table tcm) k)" for k
    using A by (simp add: ord)
  have d: "k \<in> set (map fst t1) \<longleftrightarrow> map_of (tcm_table tcm) k \<noteq> None" for k using A by (simp add: map_of_eq_None_iff)
  have t2: "map_of t2 k = map_option (\<lambda>c. c\<lparr>tc_Order := k \<in> fst ` set table\<rparr>) (map_of (tcm_table tcm) k)" for k
    using B d [of k] by (cases "map_of (tcm_table tcm) k") (simp_all add: A1)
  have "(\<exists>k \<in> set (filter (\<lambda>k. k \<notin> fst ` set table) (map fst t1)). \<exists>c. map_of t1 k = Some c \<and> tc_Order c) \<longleftrightarrow>
      (\<exists>k c. k \<notin> fst ` set table \<and> map_of (tcm_table tcm) k = Some c \<and> tc_Order c)"
  proof -
    have "k \<in> set (filter (\<lambda>k. k \<notin> fst ` set table) (map fst t1)) \<longleftrightarrow> k \<notin> fst ` set table \<and> map_of (tcm_table tcm) k \<noteq> None" for k
      unfolding set_filter using d [of k] by blast
    then show ?thesis unfolding Bex_def by (metis A1 option.distinct(1))
  qed
  moreover have "c1 \<longleftrightarrow> (\<exists>k \<in> fst ` set table. \<exists>c. map_of (tcm_table tcm) k = Some c \<and> \<not> tc_Order c)" using A by (simp add: ord)
  ultimately have c2: "c2 \<longleftrightarrow> (\<exists>t c. map_of (tcm_table tcm) t = Some c \<and> tc_Order c \<noteq> (t \<in> fst ` set table))"
    using B by (simp only: not_False_eq_True simp_thms) blast
  have sel: "TopicConfigManager_SelectTopicConfig k (tcm_set_table t2 tcm) = map_of t2 k"
      "TopicConfigManager_SelectTopicConfig k (tcm_next_version now (tcm_set_table t2 tcm)) = map_of t2 k"
      "TopicConfigManager_SelectTopicConfig k tcm = map_of (tcm_table tcm) k" for k
    by (simp_all add: TopicConfigManager_SelectTopicConfig_def TopicConfigTable_Get_def tcm_set_table_def tcm_next_version_def)
  show ?thesis
  proof (cases c2)
    case True
    with r have "tcm1 = tcm_next_version now (tcm_set_table t2 tcm)" "w1 = tcm_persist marshal home cfg tcm1 w" by simp_all
    with True t2 show ?thesis unfolding sel c2
      by (simp add: TopicConfigManager_SelectTopicConfig_def TopicConfigTable_Get_def tcm_set_table_def tcm_next_version_def)
  next
    case False
    with r have "tcm1 = tcm_set_table t2 tcm" "w1 = w" by simp_all
    with False t2 show ?thesis unfolding sel c2
      by (simp add: TopicConfigManager_SelectTopicConfig_def TopicConfigTable_Get_def tcm_set_table_def) blast
  qed
qed

section \<open>Creating topics\<close>

text \<open>
  When \<open>CreateTopicInSendMessageMethod\<close> creates a topic from the
  default topic, the configuration it stores, and the queue data the broker will register for it, have permission 0.
\<close>

lemma auto_created_topic_unusable:
  assumes "TopicConfigManager_SelectTopicConfig topic tcm = None" and "AutoCreateTopicEnable cfg"
    and "TopicConfigManager_SelectTopicConfig defaultTopic tcm = Some dtc" and "IsInherited (tc_Perm dtc)"
  shows "\<exists>tc tcm1 w1. TopicConfigManager_CreateTopicInSendMessageMethod marshal now home cfg topic defaultTopic n f tcm w = (Inr tc, tcm1, w1) \<and>
    TopicConfigManager_SelectTopicConfig topic tcm1 = Some tc \<and> tc_WriteQueueNums tc = max 0 (min n (tc_WriteQueueNums dtc)) \<and>
    \<not> IsReadable (tc_Perm tc) \<and> \<not> IsWriteable (tc_Perm tc) \<and> qd_Perm (NewQueueData brokerName tc) = 0"
  using assms
  by (auto simp: TopicConfigManager_CreateTopicInSendMessageMethod_def TopicConfigManager_SelectTopicConfig_def TopicConfigTable_Get_def
      TopicConfigTable_Put_def tcm_set_table_def tcm_next_version_def IsReadable_def IsWriteable_def PERM_READ_def PERM_WRITE_def NewQueueData_def
      Let_def max_def min_def)

text \<open>What the operations that create or change a topic have in common.\<close>

lemma create_back_spec:
  "TopicConfigManager_CreateTopicInSendMessageBackMethod marshal now home cfg topic n perm f tcm w = (tc, tcm1, w1) \<Longrightarrow>
     TopicConfigManager_SelectTopicConfig topic tcm1 = Some tc \<and>
     (\<forall>t. t \<noteq> topic \<longrightarrow> TopicConfigManager_SelectTopicConfig t tcm1 = TopicConfigManager_SelectTopicConfig t tcm) \<and>
     (TopicConfigManager_SelectTopicConfig topic tcm = None \<longrightarrow> tc_Perm tc = perm \<and> registrations w1 = registrations w + 1)"
  by (auto simp: TopicConfigManager_CreateTopicInSendMessageBackMethod_def TopicConfigManager_SelectTopicConfig_def TopicConfigTable_Get_def
      TopicConfigTable_Put_def tcm_set_table_def tcm_next_version_def tcm_persist_def Let_def split: option.splits)

text \<open>No topic is a system topic for \<open>isSystemTopic\<close>: the set holds configurations, not names.\<close>

lemma never_system_topic:
  assumes "set_laws S"
  shows "\<not> TopicConfigManager_isSystemTopic S topic (NewTopicConfigManager S now1 now2 cfg)"
proof -
  have "set (sIter S (SystemTopicList (NewTopicConfigManager S now1 now2 cfg))) = (\<lambda>tc. ConfigPtr (tc_TopicName tc)) ` set (system_topics cfg)"
    using fold_sAdd [OF assms, of "\<lambda>tc. ConfigPtr (tc_TopicName tc)" "system_topics cfg" "sNew S"] assms
    by (simp add: NewTopicConfigManager_def set_laws_def)
  then show ?thesis using assms by (auto simp: TopicConfigManager_isSystemTopic_def set_laws_def)
qed

section \<open>Restarting\<close>

text \<open>
  After \<open>UpdateTopicConfig\<close> a manager that loads the file has every topic of the manager that wrote it, with
  the same configuration, and the topics it had that the file does not name.
\<close>

lemma topics_reload:
  assumes "TopicConfigManager_UpdateTopicConfig marshal now home cfg tc tcm w = (tcm1, w1)"
    and "bw_files w (GetTopicConfigPath (config_home home cfg) @ ''.tmp'') = None"
    and "marshal (SerializeWrapper tcm1) = Some s" and "json_text s"
    and "map_of (tw_TopicConfigTable (unmarshal s (SerializeWrapper tcm0))) = map_of (tcm_table tcm0) ++ map_of (tcm_table tcm1)"
  shows "\<exists>tcm2. TopicConfigManager_Load unmarshal created home cfg tcm0 w1 = (True, tcm2, w1) \<and>
    TopicConfigManager_SelectTopicConfig topic tcm2 =
      (if topic = tc_TopicName tc then Some tc
       else case TopicConfigManager_SelectTopicConfig topic tcm of
         None \<Rightarrow> TopicConfigManager_SelectTopicConfig topic tcm0 | Some c \<Rightarrow> Some c)"
proof -
  have u: "tcm1 = tcm_next_version now (tcm_set_table (AList.update (tc_TopicName tc) tc (tcm_table tcm)) tcm)"
      "w1 = tcm_persist marshal home cfg tcm1 w"
    using assms(1) by (auto simp: TopicConfigManager_UpdateTopicConfig_def TopicConfigTable_Put_def Let_def)
  have t: "tcm_table tcm1 = AList.update (tc_TopicName tc) tc (tcm_table tcm)"
    by (simp add: u(1) tcm_set_table_def tcm_next_version_def)
  have "TopicConfigManager_Load unmarshal created home cfg tcm0 w1 =
      (True, tcm0\<lparr>SerializeWrapper := unmarshal s (SerializeWrapper tcm0)\<rparr>, w1)"
    using persist_then_load [of "bw_files w" "GetTopicConfigPath (config_home home cfg)", OF assms(2,4),
        of "TopicConfigManager_Decode unmarshal" created tcm0] assms(3,4)
    by (simp add: TopicConfigManager_Load_def u(2) tcm_persist_def TopicConfigManager_Decode_def json_text_def)
  with assms(5) show ?thesis
    by (auto simp: TopicConfigManager_SelectTopicConfig_def TopicConfigTable_Get_def t map_add_def split: option.splits)
qed

section \<open>A run\<close>

definition example_config :: BrokerConfig where
  "example_config = \<lparr>BrokerName = ''b'', BrokerClusterName = ''c'', AutoCreateTopicEnable = True, DefaultTopicQueueNums = 8,
     ClusterTopicEnable = True, BrokerTopicEnable = True, AutoCreateSubscriptionGroup = True, StorePathRootDir = ''/s''\<rparr>"

definition example_tcm :: "sys_elem list TopicConfigManager" where
  "example_tcm = NewTopicConfigManager list_set 1 2 example_config"

definition empty_world :: broker_world where
  "empty_world = \<lparr>bw_files = Map.empty, registrations = 0\<rparr>"

lemmas example_tcm_defs = example_tcm_def NewTopicConfigManager_def system_topics_def example_config_def TopicConfigTable_Put_def
  TopicConfigTable_Get_def TopicConfigManager_SelectTopicConfig_def NewTopicConfig_def SELF_TEST_TOPIC_def DEFAULT_TOPIC_def
  BENCHMARK_TOPIC_def OFFSET_MOVED_EVENT_def

theorem update_order_exact_witness:
  "map_option tc_Order (TopicConfigManager_SelectTopicConfig SELF_TEST_TOPIC (fst (TopicConfigManager_updateOrderTopicConfig list_set
     (\<lambda>_. None) 5 ''/h'' example_config (Some [(SELF_TEST_TOPIC, '''')]) example_tcm empty_world))) = Some True"
proof -
  let ?r = "TopicConfigManager_updateOrderTopicConfig list_set (\<lambda>_. None) 5 ''/h'' example_config (Some [(SELF_TEST_TOPIC, '''')]) example_tcm
    empty_world"
  have "?r = (fst ?r, snd ?r)" by simp
  from update_order_exact [OF list_set_laws this, of SELF_TEST_TOPIC] have
    "TopicConfigManager_SelectTopicConfig SELF_TEST_TOPIC (fst ?r) =
      map_option (\<lambda>c. c\<lparr>tc_Order := True\<rparr>) (TopicConfigManager_SelectTopicConfig SELF_TEST_TOPIC example_tcm)" by simp
  then show ?thesis by (simp add: example_tcm_defs)
qed

lemma auto_created_topic_unusable_witness:
  "\<exists>tc tcm1 w1. TopicConfigManager_CreateTopicInSendMessageMethod (\<lambda>_. None) 5 ''/h'' example_config ''new'' DEFAULT_TOPIC 4 0 example_tcm
     empty_world = (Inr tc, tcm1, w1) \<and> tc_WriteQueueNums tc = 4 \<and> \<not> IsReadable (tc_Perm tc) \<and> \<not> IsWriteable (tc_Perm tc)"
proof -
  let ?d = "(NewTopicConfig DEFAULT_TOPIC)\<lparr>tc_ReadQueueNums := 8, tc_WriteQueueNums := 8, tc_Perm := PERM_INHERIT OR PERM_READ OR PERM_WRITE\<rparr>"
  have "TopicConfigManager_SelectTopicConfig ''new'' example_tcm = None" "AutoCreateTopicEnable example_config"
      "TopicConfigManager_SelectTopicConfig DEFAULT_TOPIC example_tcm = Some ?d"
    by (simp_all add: example_tcm_defs)
  moreover have "IsInherited (tc_Perm ?d)" by (simp add: IsInherited_def PERM_INHERIT_def PERM_READ_def PERM_WRITE_def)
  ultimately show ?thesis
    using auto_created_topic_unusable [of "''new''" example_tcm example_config DEFAULT_TOPIC ?d "\<lambda>_. None" 5 "''/h''" 4 0 empty_world]
    by fastforce
qed

lemma topics_reload_witness:
  "\<exists>w1 tcm2. TopicConfigManager_Load (\<lambda>_ v. v\<lparr>tw_TopicConfigTable := tcm_table (fst (TopicConfigManager_UpdateTopicConfig (\<lambda>_. Some ''{}'') 5
       ''/h'' example_config (NewTopicConfig ''t'') example_tcm empty_world)) @ tw_TopicConfigTable v\<rparr>) True ''/h'' example_config example_tcm w1 =
     (True, tcm2, w1) \<and> TopicConfigManager_SelectTopicConfig ''t'' tcm2 = Some (NewTopicConfig ''t'')"
proof -
  let ?u = "TopicConfigManager_UpdateTopicConfig (\<lambda>_. Some ''{}'') 5 ''/h'' example_config (NewTopicConfig ''t'') example_tcm empty_world"
  have e: "?u = (fst ?u, snd ?u)" by simp
  have j: "json_text ''{}''" by (simp add: json_text_def TrimSpace_def is_space_def)
  from topics_reload [OF e _ refl j, of "\<lambda>_ v. v\<lparr>tw_TopicConfigTable := tcm_table (fst ?u) @ tw_TopicConfigTable v\<rparr>" example_tcm True "''t''"]
  show ?thesis by (fastforce simp: empty_world_def NewTopicConfig_def)
qed

end
