(* ===== verification/BrokerFlow.thy ===== *)
theory BrokerFlow
  imports StoreFlow OffsetM BrokerClientsM TopicConfigM
begin

text \<open>
  The requests of clients to a broker: \<open>stgbroker/client_manage_processor.go\<close>, on top of the consumer and
  producer managers, the offsets, the topics, the subscription groups and the message store; and the consumer
  offsets together with the message store, which answers for the first offset of a queue.

  A request is its decoded header or body; the network connection is its address. The readings of the clock an
  operation makes are arguments.
\<close>

unbundle bit_operations_syntax

section \<open>The message store behind the offsets\<close>

interpretation store_min: min_offset_source DefaultMessageStore_GetMinOffsetInQueue
proof
  fix t q t1 q1 ms
  obtain cq ms1 where f: "DefaultMessageStore_findConsumeQueue t1 q1 ms = (cq, ms1)" by fastforce
  have "queue_of ms1 = queue_of ms" using find_queue(2) [OF f] .
  moreover have "fst (DefaultMessageStore_GetMinOffsetInQueue t q s) = ConsumeQueue_getMinOffsetInQueue (queue_of s t q)" for s
    using find_queue(1) [of t q s] by (auto simp: DefaultMessageStore_GetMinOffsetInQueue_def split: prod.splits)
  ultimately show "fst (DefaultMessageStore_GetMinOffsetInQueue t q (snd (DefaultMessageStore_GetMinOffsetInQueue t1 q1 ms))) =
      fst (DefaultMessageStore_GetMinOffsetInQueue t q ms)"
    by (simp add: DefaultMessageStore_GetMinOffsetInQueue_def [of t1] f)
qed

text \<open>
  C15 (the least offset of all groups). On the message store, \<open>QueryMinOffsetInAllGroup\<close> returns for every queue exactly the least
  offset that a group which is not left out has committed for the topic and that the store still has.
\<close>

theorem query_min_is_least:
  assumes "offset_reach cl com" and "int64_offsets com"
  shows "map_of (fst (ConsumerOffsetManager_QueryMinOffsetInAllGroup DefaultMessageStore_GetMinOffsetInQueue topic filterGroups com ms)) =
    least_offset (filter (still_stored DefaultMessageStore_GetMinOffsetInQueue ms topic) (group_offsets topic (without_groups filterGroups com)))"
  using assms by (rule store_min.query_min_least)

text \<open>
  \<open>ScanUnsubscribedTopic\<close> deletes the offsets of a topic and a group exactly if the group has no subscription to
  the topic and all its offsets are at or before the first offset the message store has; nothing else of the table changes.
\<close>

lemma scan_forgets_exactly:
  "fst (ConsumerOffsetManager_ScanUnsubscribedTopic (\<lambda>grp topic. ConsumerManager_FindSubscriptionData M grp topic cm)
      DefaultMessageStore_GetMinOffsetInQueue com ms) =
   com\<lparr>Offsets := filter (\<lambda>(k, a). \<not> out_of_date DefaultMessageStore_GetMinOffsetInQueue
      (\<lambda>grp topic. ConsumerManager_FindSubscriptionData M grp topic cm) ms k (offset_maps com ! a)) (Offsets com)\<rparr>"
  by (rule store_min.scan_exact)

section \<open>The broker\<close>

record ('gt, 's) broker =
  bk_cfg :: BrokerConfig
  bk_home :: string
  bk_notify :: bool
  bk_consumers :: "'gt ConsumerManager"
  bk_producers :: ProducerManager
  bk_clients :: client_world
  bk_offsets :: ConsumerOffsetManager
  bk_topics :: "'s TopicConfigManager"
  bk_groups :: SubscriptionGroupTable
  bk_world :: broker_world
  bk_store :: DefaultMessageStore

definition SUCCESS :: int where "SUCCESS = 0"

definition SYSTEM_ERROR :: int where "SYSTEM_ERROR = 1"

definition QUERY_NOT_FOUND :: int where "QUERY_NOT_FOUND = 22"

definition GetRetryTopic :: "string \<Rightarrow> string" where
  "GetRetryTopic consumerGroup = ''%RETRY%'' @ consumerGroup"

record ConsumerDataPlus =
  cd_GroupName :: string
  cd_ConsumeType :: ConsumeType
  cd_MessageModel :: MessageModel
  cd_ConsumeFromWhere :: ConsumeFromWhere
  cd_SubscriptionDataSet :: "SubscriptionDataPlus list"
  cd_UnitMode :: bool

text \<open>The readings of the clock while one consumer is registered.\<close>

record hb_times =
  t_group :: int
  t_topic :: int
  t_channel :: int
  t_subs :: int

type_synonym json = "(SubscriptionGroupTable \<Rightarrow> string option) \<times> (topic_wrapper \<Rightarrow> string option)"

section \<open>Heart beats\<close>

definition retry_topic :: "json \<Rightarrow> hb_times \<Rightarrow> ConsumerDataPlus \<Rightarrow> ('gt, 's) broker \<Rightarrow> ('gt, 's) broker" where
  "retry_topic marshal t consumerData b =
     (case SubscriptionGroupManager_FindSubscriptionGroupConfig (fst marshal) (t_group t) (bk_home b) (bk_cfg b) (cd_GroupName consumerData)
        (bk_groups b) (bw_files (bk_world b)) of
        (config, groups, fs) \<Rightarrow>
          let b1 = b\<lparr>bk_groups := groups, bk_world := (bk_world b)\<lparr>bw_files := fs\<rparr>\<rparr>
          in case config of
               None \<Rightarrow> b1
             | Some subscriptionGroupConfig \<Rightarrow>
                 (let topicSysFlag = (if cd_UnitMode consumerData then TopicBuildSysFlag False True else 0)
                  in case TopicConfigManager_CreateTopicInSendMessageBackMethod (snd marshal) (t_topic t) (bk_home b) (bk_cfg b)
                       (GetRetryTopic (cd_GroupName consumerData)) (RetryQueueNums subscriptionGroupConfig) (PERM_WRITE OR PERM_READ)
                       topicSysFlag (bk_topics b1) (bk_world b1) of
                       (_, topics, w) \<Rightarrow> b1\<lparr>bk_topics := topics, bk_world := w\<rparr>))"

definition register_consumer :: "('st, 'ct, 'gt) client_maps \<Rightarrow> hb_times \<Rightarrow> nat \<Rightarrow> ConsumerDataPlus \<Rightarrow> ('gt, 's) broker \<Rightarrow> ('gt, 's) broker" where
  "register_consumer M t channelInfo consumerData b =
     (case ConsumerManager_RegisterConsumer M (bk_notify b) (t_channel t) (t_subs t) (cd_GroupName consumerData) channelInfo
        (cd_ConsumeType consumerData) (cd_MessageModel consumerData) (cd_ConsumeFromWhere consumerData) (cd_SubscriptionDataSet consumerData)
        (bk_consumers b) (bk_clients b) of
        (changed, cm, w) \<Rightarrow> b\<lparr>bk_consumers := cm, bk_clients := w\<rparr>)"

fun hb_consumers ::
    "('st, 'ct, 'gt) client_maps \<Rightarrow> json \<Rightarrow> nat \<Rightarrow> (ConsumerDataPlus \<times> hb_times) list \<Rightarrow> ('gt, 's) broker \<Rightarrow> ('gt, 's) broker" where
  "hb_consumers M marshal channelInfo [] b = b"
| "hb_consumers M marshal channelInfo ((consumerData, t) # cds) b =
     hb_consumers M marshal channelInfo cds (register_consumer M t channelInfo consumerData (retry_topic marshal t consumerData b))"

fun hb_producers :: "nat \<Rightarrow> (string \<times> int \<times> int) list \<Rightarrow> ('gt, 's) broker \<Rightarrow> ('gt, 's) broker" where
  "hb_producers channelInfo [] b = b"
| "hb_producers channelInfo ((groupName, now1, now2) # pds) b =
     (case ProducerManager_RegisterProducer now1 now2 groupName channelInfo (bk_producers b) (bk_clients b) of
        (pm, w) \<Rightarrow> hb_producers channelInfo pds (b\<lparr>bk_producers := pm, bk_clients := w\<rparr>))"

text \<open>\<open>now\<close> is the time in seconds.\<close>

definition ClientManageProcessor_heartBeat ::
    "('st, 'ct, 'gt) client_maps \<Rightarrow> json \<Rightarrow> int \<Rightarrow> string \<Rightarrow> string \<Rightarrow> int \<Rightarrow> string \<Rightarrow> (ConsumerDataPlus \<times> hb_times) list \<Rightarrow>
     (string \<times> int \<times> int) list \<Rightarrow> ('gt, 's) broker \<Rightarrow> int \<times> ('gt, 's) broker" where
  "ClientManageProcessor_heartBeat M marshal now ctx language version clientID consumerDataSet producerDataSet b =
     (let w = bk_clients b;
          channelInfo = length (channels w);
          b1 = b\<lparr>bk_clients := w\<lparr>channels := channels w @ [NewClientChannelInfo now ctx clientID language ctx version]\<rparr>\<rparr>;
          b2 = hb_consumers M marshal channelInfo consumerDataSet b1
      in (SUCCESS, hb_producers channelInfo producerDataSet b2))"

definition ClientManageProcessor_unregisterClient ::
    "('st, 'ct, 'gt) client_maps \<Rightarrow> int \<Rightarrow> string \<Rightarrow> string \<Rightarrow> string \<Rightarrow> int \<Rightarrow> string \<Rightarrow> string \<Rightarrow> string \<Rightarrow> ('gt, 's) broker \<Rightarrow>
     int \<times> ('gt, 's) broker" where
  "ClientManageProcessor_unregisterClient M now ctx localAddr language version clientID producerGroup consumerGroup b =
     (let channelInfo = NewClientChannelInfo now ctx clientID language localAddr version;
          b1 = (if producerGroup \<noteq> []
                then b\<lparr>bk_producers := ProducerManager_UnregisterProducer producerGroup channelInfo (bk_producers b) (bk_clients b)\<rparr> else b)
      in (SUCCESS,
          if consumerGroup \<noteq> []
          then case ConsumerManager_UnregisterConsumer M (bk_notify b) consumerGroup channelInfo (bk_consumers b1) (bk_clients b1) of
                 (cm, w) \<Rightarrow> b1\<lparr>bk_consumers := cm, bk_clients := w\<rparr>
          else b1))"

definition ClientManageProcessor_getConsumerListByGroup ::
    "('st, 'ct, 'gt) client_maps \<Rightarrow> string \<Rightarrow> ('gt, 's) broker \<Rightarrow> int \<times> string list" where
  "ClientManageProcessor_getConsumerListByGroup M consumerGroup b =
     (case ConsumerManager_GetConsumerGroupInfo M consumerGroup (bk_consumers b) of
        None \<Rightarrow> (SYSTEM_ERROR, [])
      | Some consumerGroupInfo \<Rightarrow>
          (let clientIds = ConsumerGroupInfo_GetAllClientId M consumerGroupInfo (bk_clients b)
           in if length clientIds > 0 then (SUCCESS, clientIds) else (SYSTEM_ERROR, [])))"

section \<open>Offsets\<close>

definition ClientManageProcessor_queryConsumerOffset ::
    "string \<Rightarrow> string \<Rightarrow> int \<Rightarrow> ('gt, 's) broker \<Rightarrow> ((int \<times> int) \<times> ('gt, 's) broker) option" where
  "ClientManageProcessor_queryConsumerOffset consumerGroup topic queueId b =
     (let offset = ConsumerOffsetManager_QueryOffset consumerGroup topic queueId (bk_offsets b)
      in if offset \<ge> 0 then Some ((SUCCESS, offset), b)
         else case DefaultMessageStore_GetMinOffsetInQueue topic queueId (bk_store b) of
           (minOffset, ms) \<Rightarrow>
             do {
               (isInDisk, ms1) \<leftarrow> DefaultMessageStore_CheckInDiskByConsumeOffset topic queueId 0 ms;
               Some (if minOffset \<le> 0 \<and> \<not> isInDisk then (SUCCESS, 0) else (QUERY_NOT_FOUND, 0), b\<lparr>bk_store := ms1\<rparr>) })"

text \<open>
  \<open>updateConsumerOffset\<close>: with a hook the ids of the consumed messages are collected first, which may run for ever (\<open>None\<close>) or
  panic (\<open>Some None\<close>); without one nothing is read. \<open>hooks\<close> is the number of hooks.
\<close>

definition ClientManageProcessor_updateConsumerOffset ::
    "nat \<Rightarrow> string \<Rightarrow> string \<Rightarrow> string \<Rightarrow> int \<Rightarrow> int \<Rightarrow> ('gt, 's) broker \<Rightarrow> (int \<times> ('gt, 's) broker) option option" where
  "ClientManageProcessor_updateConsumerOffset hooks storeHost consumerGroup topic queueId commitOffset b =
     (let commit = (\<lambda>ms. (SUCCESS, b\<lparr>bk_store := ms,
            bk_offsets := ConsumerOffsetManager_CommitOffset consumerGroup topic queueId commitOffset (bk_offsets b)\<rparr>))
      in if hooks > 0
         then map_option (map_option (\<lambda>(ids, ms). commit ms))
                (DefaultMessageStore_GetMessageIds topic (to_int32 queueId)
                   (ConsumerOffsetManager_QueryOffset consumerGroup topic queueId (bk_offsets b)) commitOffset storeHost (bk_store b))
         else Some (Some (commit (bk_store b))))"

section \<open>What a heart beat establishes\<close>

text \<open>The group has a connection under the address, of a client with the id up to the case of letters.\<close>

definition linked :: "('st, 'ct, 'gt) client_maps \<Rightarrow> string \<Rightarrow> string \<Rightarrow> string \<Rightarrow> 'gt ConsumerManager \<Rightarrow> ChannelInfo list \<Rightarrow> bool" where
  "linked M grp ctx clientId cm chs \<longleftrightarrow> (\<exists>cg a. ConsumerManager_GetConsumerGroupInfo M grp cm = Some cg \<and>
     mGet (connMap M) ctx (ConnTable cg) = Some a \<and> EqualFold (ci_ClientId (chs ! a)) clientId)"

text \<open>Two heaps that differ in the time stamps only.\<close>

definition same_ids :: "ChannelInfo list \<Rightarrow> ChannelInfo list \<Rightarrow> bool" where
  "same_ids chs chs1 \<longleftrightarrow> length chs1 = length chs \<and> (\<forall>a. ci_ClientId (chs1 ! a) = ci_ClientId (chs ! a) \<and> ci_Context (chs1 ! a) = ci_Context (chs ! a))"

lemma same_ids_trans: "same_ids a b \<Longrightarrow> same_ids b c \<Longrightarrow> same_ids a c"
  by (simp add: same_ids_def)

lemma same_ids_touch [simp]: "same_ids chs (chs[a := (chs ! a)\<lparr>ci_LastUpdateTimestamp := now\<rparr>])"
  by (cases "a < length chs") (auto simp: same_ids_def nth_list_update list_update_beyond)

lemma same_ids_touch_world [simp]: "same_ids (channels w) (channels (touch now a w))"
  by (simp add: touch_def)

lemma same_ids_refl [simp]: "same_ids chs chs"
  by (simp add: same_ids_def)

lemma linked_ids: "linked M grp ctx clientId cm chs \<Longrightarrow> same_ids chs chs1 \<Longrightarrow> linked M grp ctx clientId cm chs1"
  by (auto simp: linked_def same_ids_def)

lemma UpdateChannel_links:
  assumes "cmap_laws (connMap M)" and "ConsumerGroupInfo_UpdateChannel M now a ct mm cf cg w = (u, cg1, w1)"
  shows "same_ids (channels w) (channels w1)"
    and "\<exists>b. mGet (connMap M) (ci_Context (channels w ! a)) (ConnTable cg1) = Some b \<and>
      EqualFold (ci_ClientId (channels w1 ! b)) (ci_ClientId (channels w ! a))"
proof -
  show s: "same_ids (channels w) (channels w1)"
    using assms(2) by (auto simp: ConsumerGroupInfo_UpdateChannel_def Let_def split: option.splits if_splits)
  have "\<exists>b. mGet (connMap M) (ci_Context (channels w ! a)) (ConnTable cg1) = Some b \<and>
      EqualFold (ci_ClientId (channels w ! b)) (ci_ClientId (channels w ! a))"
    using assms(2) EqualFold_sym
    by (auto simp: ConsumerGroupInfo_UpdateChannel_def Let_def cmap_simps [OF assms(1)] split: option.splits if_splits)
  with s show "\<exists>b. mGet (connMap M) (ci_Context (channels w ! a)) (ConnTable cg1) = Some b \<and>
      EqualFold (ci_ClientId (channels w1 ! b)) (ci_ClientId (channels w ! a))"
    by (simp add: same_ids_def)
qed

lemma register_consumer_links:
  assumes "client_laws M" and "ci_Context (channels (bk_clients b) ! a) = ctx" and "ci_ClientId (channels (bk_clients b) ! a) = clientId"
    and "b1 = register_consumer M t a cd b"
  shows "linked M (cd_GroupName cd) ctx clientId (bk_consumers b1) (channels (bk_clients b1))"
    and "same_ids (channels (bk_clients b)) (channels (bk_clients b1))"
    and "linked M grp ctx clientId (bk_consumers b) (channels (bk_clients b)) \<Longrightarrow>
      linked M grp ctx clientId (bk_consumers b1) (channels (bk_clients b1))"
    and "bk_topics b1 = bk_topics b"
proof -
  have l: "cmap_laws (connMap M)" using assms(1) by (simp add: client_laws_def)
  obtain r cm w where g: "ConsumerManager_RegisterConsumer M (bk_notify b) (t_channel t) (t_subs t) (cd_GroupName cd) a
        (cd_ConsumeType cd) (cd_MessageModel cd) (cd_ConsumeFromWhere cd) (cd_SubscriptionDataSet cd) (bk_consumers b) (bk_clients b) = (r, cm, w)"
    by (metis prod_cases3)
  then have b1: "b1 = b\<lparr>bk_consumers := cm, bk_clients := w\<rparr>" by (simp add: assms(4) register_consumer_def)
  from RegisterConsumer_group [OF assms(1) g] obtain cg u1 cg1 w2 where
    c: "ConsumerGroupInfo_UpdateChannel M (t_channel t) a (cd_ConsumeType cd) (cd_MessageModel cd) (cd_ConsumeFromWhere cd) cg (bk_clients b) = (u1, cg1, w2)"
      "channels w = channels w2"
      "\<And>x. ConsumerManager_GetConsumerGroupInfo M x cm = (if x = cd_GroupName cd
         then Some (snd (ConsumerGroupInfo_UpdateSubscription M (t_subs t) (cd_SubscriptionDataSet cd) cg1))
         else ConsumerManager_GetConsumerGroupInfo M x (bk_consumers b))"
    by metis
  note u = UpdateChannel_links [OF l c(1)]
  show lk: "linked M (cd_GroupName cd) ctx clientId (bk_consumers b1) (channels (bk_clients b1))"
    using u(2) assms(2,3) by (auto simp: linked_def b1 c(2,3) UpdateSubscription_conns)
  show s: "same_ids (channels (bk_clients b)) (channels (bk_clients b1))" using u(1) by (simp add: b1 c(2))
  show "linked M grp ctx clientId (bk_consumers b1) (channels (bk_clients b1))"
    if "linked M grp ctx clientId (bk_consumers b) (channels (bk_clients b))"
  proof (cases "grp = cd_GroupName cd")
    case False
    with linked_ids [OF that s] show ?thesis by (simp add: linked_def b1 c(3))
  qed (simp add: lk)
  show "bk_topics b1 = bk_topics b" by (simp add: b1)
qed

lemma retry_topic_frame:
  "bk_consumers (retry_topic marshal t cd b) = bk_consumers b \<and> bk_clients (retry_topic marshal t cd b) = bk_clients b \<and>
   bk_cfg (retry_topic marshal t cd b) = bk_cfg b"
  by (simp add: retry_topic_def Let_def split: prod.splits option.splits)

lemma retry_topic_topics:
  shows "AutoCreateSubscriptionGroup (bk_cfg b) \<Longrightarrow>
      TopicConfigManager_SelectTopicConfig (GetRetryTopic (cd_GroupName cd)) (bk_topics (retry_topic marshal t cd b)) \<noteq> None"
    and "TopicConfigManager_SelectTopicConfig topic (bk_topics b) \<noteq> None \<Longrightarrow>
      TopicConfigManager_SelectTopicConfig topic (bk_topics (retry_topic marshal t cd b)) \<noteq> None"
proof -
  obtain config groups fs where f: "SubscriptionGroupManager_FindSubscriptionGroupConfig (fst marshal) (t_group t) (bk_home b) (bk_cfg b)
      (cd_GroupName cd) (bk_groups b) (bw_files (bk_world b)) = (config, groups, fs)" by (metis prod_cases3)
  have n: "config \<noteq> None" if "AutoCreateSubscriptionGroup (bk_cfg b)"
  proof -
    have c: "config = fst (SubscriptionGroupManager_FindSubscriptionGroupConfig (fst marshal) (t_group t) (bk_home b) (bk_cfg b)
      (cd_GroupName cd) (bk_groups b) (bw_files (bk_world b)))" by (simp add: f)
    show ?thesis using that unfolding c
      by (simp add: SubscriptionGroupManager_FindSubscriptionGroupConfig_def Let_def split: option.splits)
  qed
  show "TopicConfigManager_SelectTopicConfig (GetRetryTopic (cd_GroupName cd)) (bk_topics (retry_topic marshal t cd b)) \<noteq> None"
    if "AutoCreateSubscriptionGroup (bk_cfg b)"
    using n [OF that] by (auto simp: retry_topic_def f Let_def dest!: create_back_spec split: prod.splits)
  show "TopicConfigManager_SelectTopicConfig topic (bk_topics (retry_topic marshal t cd b)) \<noteq> None"
    if "TopicConfigManager_SelectTopicConfig topic (bk_topics b) \<noteq> None"
    using that by (cases config; cases "topic = GetRetryTopic (cd_GroupName cd)")
      (auto simp: retry_topic_def f Let_def dest!: create_back_spec split: prod.splits)
qed

lemma register_consumer_cfg [simp]: "bk_cfg (register_consumer M t a cd b) = bk_cfg b"
  by (simp add: register_consumer_def split: prod.splits)

lemma hb_consumers_links:
  assumes "client_laws M" and "cd \<in> fst ` set cds \<or> linked M (cd_GroupName cd) ctx clientId (bk_consumers b) (channels (bk_clients b)) \<and>
      TopicConfigManager_SelectTopicConfig (GetRetryTopic (cd_GroupName cd)) (bk_topics b) \<noteq> None"
    and "ci_Context (channels (bk_clients b) ! a) = ctx" and "ci_ClientId (channels (bk_clients b) ! a) = clientId"
    and "AutoCreateSubscriptionGroup (bk_cfg b)"
  shows "linked M (cd_GroupName cd) ctx clientId (bk_consumers (hb_consumers M marshal a cds b)) (channels (bk_clients (hb_consumers M marshal a cds b))) \<and>
    TopicConfigManager_SelectTopicConfig (GetRetryTopic (cd_GroupName cd)) (bk_topics (hb_consumers M marshal a cds b)) \<noteq> None"
  using assms(2-5)
proof (induction cds arbitrary: b)
  case (Cons e cds)
  obtain cd1 t where e: "e = (cd1, t)" by (cases e)
  define b2 where "b2 = retry_topic marshal t cd1 b"
  define b3 where "b3 = register_consumer M t a cd1 b2"
  have f: "bk_consumers b2 = bk_consumers b" "bk_clients b2 = bk_clients b" "bk_cfg b2 = bk_cfg b"
    using retry_topic_frame [of marshal t cd1 b] by (simp_all add: b2_def)
  note r = register_consumer_links [OF assms(1) _ _ b3_def, unfolded f, OF Cons.prems(2,3)]
  have i: "ci_Context (channels (bk_clients b3) ! a) = ctx" "ci_ClientId (channels (bk_clients b3) ! a) = clientId"
    using r(2) Cons.prems(2,3) by (simp_all add: same_ids_def)
  have t3: "bk_topics b3 = bk_topics b2" "bk_cfg b3 = bk_cfg b" using r(4) by (simp_all add: b3_def f)
  have "cd \<in> fst ` set cds \<or> linked M (cd_GroupName cd) ctx clientId (bk_consumers b3) (channels (bk_clients b3)) \<and>
      TopicConfigManager_SelectTopicConfig (GetRetryTopic (cd_GroupName cd)) (bk_topics b3) \<noteq> None"
  proof (cases "cd = cd1")
    case True
    then show ?thesis using r(1) retry_topic_topics(1) [OF Cons.prems(4), of cd1 marshal t] by (simp add: t3 b2_def)
  next
    case False
    then show ?thesis using Cons.prems(1) r(3) [of "cd_GroupName cd"] retry_topic_topics(2) [of _ b marshal t cd1]
      by (auto simp: e t3 b2_def)
  qed
  from Cons.IH [OF this i] Cons.prems(4) show ?case by (simp add: e t3(2) flip: b2_def b3_def)
qed simp
lemma RegisterProducer_ids: "ProducerManager_RegisterProducer now1 now2 grp a pm w = (pm1, w1) \<Longrightarrow> same_ids (channels w) (channels w1)"
proof -
  assume "ProducerManager_RegisterProducer now1 now2 grp a pm w = (pm1, w1)"
  then consider "w1 = w" | old where "w1 = touch now1 old w" | old where "w1 = touch now2 old (touch now1 old w)"
    by (auto simp: ProducerManager_RegisterProducer_def Let_def split: option.splits if_splits)
  then show ?thesis
  proof cases
    case (3 old)
    have "same_ids (channels w) (channels (touch now1 old w))" "same_ids (channels (touch now1 old w)) (channels w1)"
      by (simp_all add: 3)
    then show ?thesis by (rule same_ids_trans)
  qed simp_all
qed

lemma hb_producers_frame:
  "bk_consumers (hb_producers a pds b) = bk_consumers b \<and> bk_topics (hb_producers a pds b) = bk_topics b \<and>
   same_ids (channels (bk_clients b)) (channels (bk_clients (hb_producers a pds b)))"
proof (induction a pds b rule: hb_producers.induct)
  case (2 a grp now1 now2 pds b)
  obtain pm w where r: "ProducerManager_RegisterProducer now1 now2 grp a (bk_producers b) (bk_clients b) = (pm, w)" by fastforce
  show ?case using 2 [OF r [symmetric]] same_ids_trans [OF RegisterProducer_ids [OF r]] by (simp add: r)
qed simp

text \<open>
  C14 (a heart beat registers the consumer). After a heart beat, for every consumer group it names, the broker lists a client with the
  id of the heart beat (up to the case of letters) among the consumers of the group, and the group's retry topic exists, provided
  subscription groups are created on demand.
\<close>

theorem heartbeat_registers:
  assumes "client_laws M" and "AutoCreateSubscriptionGroup (bk_cfg b)" and "cd \<in> fst ` set consumers"
    and "ClientManageProcessor_heartBeat M marshal now ctx language version clientID consumers producers b = (code, b1)"
  shows "code = SUCCESS \<and>
    (\<exists>ids. ClientManageProcessor_getConsumerListByGroup M (cd_GroupName cd) b1 = (SUCCESS, ids) \<and> (\<exists>i \<in> set ids. EqualFold i clientID)) \<and>
    TopicConfigManager_SelectTopicConfig (GetRetryTopic (cd_GroupName cd)) (bk_topics b1) \<noteq> None"
proof -
  let ?a = "length (channels (bk_clients b))"
  define b2 where "b2 = b\<lparr>bk_clients := (bk_clients b)\<lparr>channels := channels (bk_clients b) @ [NewClientChannelInfo now ctx clientID language ctx version]\<rparr>\<rparr>"
  define b3 where "b3 = hb_consumers M marshal ?a consumers b2"
  have h: "code = SUCCESS" "b1 = hb_producers ?a producers b3"
    using assms(4) by (simp_all add: ClientManageProcessor_heartBeat_def Let_def b2_def b3_def)
  have i: "ci_Context (channels (bk_clients b2) ! ?a) = ctx" "ci_ClientId (channels (bk_clients b2) ! ?a) = clientID"
      "AutoCreateSubscriptionGroup (bk_cfg b2)"
    using assms(2) by (simp_all add: b2_def NewClientChannelInfo_def)
  from hb_consumers_links [OF assms(1) disjI1 [OF assms(3)] i, of marshal]
  have l: "linked M (cd_GroupName cd) ctx clientID (bk_consumers b3) (channels (bk_clients b3))"
      "TopicConfigManager_SelectTopicConfig (GetRetryTopic (cd_GroupName cd)) (bk_topics b3) \<noteq> None" by (simp_all add: b3_def)
  have "linked M (cd_GroupName cd) ctx clientID (bk_consumers b1) (channels (bk_clients b1))"
    using linked_ids [OF l(1)] hb_producers_frame [of ?a producers b3] by (simp add: h(2))
  then obtain cg x where g: "ConsumerManager_GetConsumerGroupInfo M (cd_GroupName cd) (bk_consumers b1) = Some cg"
      "mGet (connMap M) ctx (ConnTable cg) = Some x" "EqualFold (ci_ClientId (channels (bk_clients b1) ! x)) clientID"
    by (auto simp: linked_def)
  have "(ctx, x) \<in> set (mIter (connMap M) (ConnTable cg))"
    using g(2) cmap_simps(5) [of "connMap M"] assms(1) by (simp add: client_laws_def)
  then have "ci_ClientId (channels (bk_clients b1) ! x) \<in> set (ConsumerGroupInfo_GetAllClientId M cg (bk_clients b1))"
    by (force simp: ConsumerGroupInfo_GetAllClientId_def)
  with g(1,3) h(1) l(2) hb_producers_frame [of ?a producers b3] show ?thesis
    by (auto simp: ClientManageProcessor_getConsumerListByGroup_def Let_def h(2))
qed

section \<open>Offsets a client commits\<close>

text \<open>
  A committed offset is answered. In every state reached without \<open>CloneOffset\<close>, after \<open>updateConsumerOffset\<close> without hooks the
  broker answers \<open>queryConsumerOffset\<close> for that group, topic and queue with the committed offset.
\<close>

lemma update_then_query_offset:
  assumes "offset_reach False (bk_offsets b)" and "0 \<le> commitOffset"
  shows "\<exists>b1. ClientManageProcessor_updateConsumerOffset 0 storeHost grp topic queueId commitOffset b = Some (Some (SUCCESS, b1)) \<and>
    ClientManageProcessor_queryConsumerOffset grp topic queueId b1 = Some ((SUCCESS, commitOffset), b1)"
proof -
  have "ConsumerOffsetManager_QueryOffset grp topic queueId (ConsumerOffsetManager_CommitOffset grp topic queueId commitOffset (bk_offsets b)) =
      commitOffset"
    using Get_commit [OF offset_reach_ok [OF assms(1)], of "offset_key topic grp" "offset_key topic grp" queueId commitOffset]
    by (simp add: ConsumerOffsetManager_QueryOffset_def ConsumerOffsetManager_CommitOffset_def update_conv' split: option.splits)
  with assms(2) show ?thesis
    by (simp add: ClientManageProcessor_updateConsumerOffset_def ClientManageProcessor_queryConsumerOffset_def)
qed

section \<open>A hook that never gets its ids\<close>

text \<open>The loop of \<open>GetMessageIds\<close> does not end once it peeks at a position where the queue has no unit.\<close>

lemma ids_loop_returns:
  assumes "ids_loop h x m n ids cq = Some y"
  shows "\<not> (n < m \<and> cq_peek n cq = Some (None, cq))"
proof (rule ids_loop.raw_induct [where P = "\<lambda>h x m n ids cq y. \<not> (n < m \<and> cq_peek n cq = Some (None, cq))", OF _ assms])
  fix f h x m n ids cq y
  assume ih: "\<And>h x m n ids cq y. f h x m n ids cq = Some y \<Longrightarrow> \<not> (n < m \<and> cq_peek n cq = Some (None, cq))"
    and s: "(if m \<le> n then Some (Some (ids, cq))
      else case cq_peek n cq of
        None \<Rightarrow> Some None
      | Some (sel, cq1) \<Rightarrow>
          (case sel of
             None \<Rightarrow> f h x m n ids cq1
           | Some r \<Rightarrow>
               (case ids_units h x 0 (Size r) (smr_MappedByteBuffer r) n ids of
                  None \<Rightarrow> Some None
                | Some (returns, n1, ids1) \<Rightarrow> if returns then Some (Some (ids1, cq1)) else f h x m n1 ids1 cq1))) = Some y"
  show "\<not> (n < m \<and> cq_peek n cq = Some (None, cq))"
  proof
    assume a: "n < m \<and> cq_peek n cq = Some (None, cq)"
    then have "f h x m n ids cq = Some y" using s by simp
    from ih [OF this] a show False by simp
  qed
qed

lemma ids_loop_stuck: "n < m \<Longrightarrow> cq_peek n cq = Some (None, cq) \<Longrightarrow> ids_loop h x m n ids cq = None"
  using ids_loop_returns [of h x m n ids cq] by (cases "ids_loop h x m n ids cq") blast+

text \<open>
  A hook can stop the broker's answer. With a consume hook, an offset above 0 that a client commits for a topic the store has no
  queue of is never answered: the loop that collects the ids of the consumed messages does not end.
\<close>

lemma hook_never_answers:
  assumes "0 < hooks" and "map_of (consumeTopicTable (bk_store b)) topic = None" and "\<not> ShutdownFlag (bk_store b)"
    and "ConsumerOffsetManager_QueryOffset grp topic queueId (bk_offsets b) < commitOffset" and "0 < commitOffset"
  shows "ClientManageProcessor_updateConsumerOffset hooks storeHost grp topic queueId commitOffset b = None"
proof -
  let ?q = "to_int32 queueId"
  define cq where "cq = new_queue (ms_config (bk_store b)) topic ?q"
  obtain ms where f: "DefaultMessageStore_findConsumeQueue topic ?q (bk_store b) = (cq, ms)"
    using assms(2) by (fastforce simp: DefaultMessageStore_findConsumeQueue_def Let_def cq_def)
  have m: "ConsumeQueue_getMinOffsetInQueue cq = 0" "ConsumeQueue_getMaxOffsetInQueue cq = 0"
    by (simp_all add: cq_def new_queue_def NewConsumeQueue_def ConsumeQueue_getMinOffsetInQueue_def ConsumeQueue_getMaxOffsetInQueue_def
        MapedFileQueue_getMaxOffset_def NewMapedFileQueue_def MapedFileQueue_getLastMapedFile2_def)
  have p: "cq_peek n cq = Some (None, cq)" for n
    by (simp add: cq_def new_queue_def NewConsumeQueue_def cq_peek_def ConsumeQueue_getIndexBuffer_def NewMapedFileQueue_def
        MapedFileQueue_findMapedFileByOffset_def MapedFileQueue_getFirstMapedFile_def Let_def)
  show ?thesis
    using assms(1,3-5) ids_loop_stuck [OF _ p] by (simp add: ClientManageProcessor_updateConsumerOffset_def DefaultMessageStore_GetMessageIds_def f m)
qed
section \<open>A run\<close>

text \<open>A store that was just started, and a broker with it.\<close>

lemma new_store: "\<exists>ms os ms0. NewDefaultMessageStore example_os flow_config = Some (ms0, os) \<and>
    ms = fst (DefaultMessageStore_Start os ms0) \<and> consumeTopicTable ms = [] \<and> \<not> ShutdownFlag ms"
proof -
  obtain scp os1 where "NewStoreCheckpoint example_os ''h/store/checkpoint'' = Some (Inr scp, os1)"
    by (simp add: NewStoreCheckpoint_def GetParentDirectory_def PathExists_def ensureDirOK_def example_os_def OS_PAGE_SIZE_def Let_def)
  then show ?thesis
    by (simp add: NewDefaultMessageStore_def GetStoreCheckpoint_def flow_config_fields flow_dispatcher DefaultMessageStore_Start_def Let_def split: prod.splits)
qed

definition example_broker :: "DefaultMessageStore \<Rightarrow>
    ((string \<times> ((string \<times> nat) list, (string \<times> nat) list) ConsumerGroupInfo) list, sys_elem list) broker" where
  "example_broker ms = \<lparr>bk_cfg = example_config, bk_home = ''/h'', bk_notify = True, bk_consumers = NewConsumerManager list_maps,
     bk_producers = NewProducerManager, bk_clients = \<lparr>channels = [], closed = [], notified = []\<rparr>,
     bk_offsets = NewConsumerOffsetManager, bk_topics = example_tcm, bk_groups = NewSubscriptionGroupManager 1,
     bk_world = empty_world, bk_store = ms\<rparr>"

lemma new_queue_min:
  assumes "consumeTopicTable ms = []"
  shows "fst (DefaultMessageStore_GetMinOffsetInQueue t q ms) = 0"
  using assms by (simp add: DefaultMessageStore_GetMinOffsetInQueue_def DefaultMessageStore_findConsumeQueue_def new_queue_def
      NewConsumeQueue_def ConsumeQueue_getMinOffsetInQueue_def Let_def)

theorem query_min_is_least_witness:
  "\<exists>ms. map_of (fst (ConsumerOffsetManager_QueryMinOffsetInAllGroup DefaultMessageStore_GetMinOffsetInQueue ''t'' ''''
     (ConsumerOffsetManager_CommitOffset ''h'' ''t'' 2 9 (ConsumerOffsetManager_CommitOffset ''g'' ''t'' 2 5 NewConsumerOffsetManager)) ms)) 2 = Some 5"
proof -
  let ?com = "ConsumerOffsetManager_CommitOffset ''h'' ''t'' 2 9 (ConsumerOffsetManager_CommitOffset ''g'' ''t'' 2 5 NewConsumerOffsetManager)"
  obtain ms :: DefaultMessageStore where ms: "consumeTopicTable ms = []" using new_store by blast
  have com: "?com = \<lparr>Offsets = [(''t@g'', 0), (''t@h'', 1)], offset_maps = [[(2, 5)], [(2, 9)]]\<rparr>"
    by (simp add: ConsumerOffsetManager_CommitOffset_def ConsumerOffsetManager_commitOffset_def NewConsumerOffsetManager_def
        OffsetTable_PutNew_def offset_key_def)
  have r: "offset_reach False ?com" by (intro offset_reach.commit offset_reach.start)
  have i: "int64_offsets ?com" by (simp add: com int64_offsets_def in_int_def)
  have "{v. v = 5 \<or> v = 9} = {5, 9 :: int}" by auto
  then have "least_offset (filter (still_stored DefaultMessageStore_GetMinOffsetInQueue ms ''t'')
      (group_offsets ''t'' (without_groups '''' ?com))) 2 = Some 5"
    by (simp add: com without_groups_def IsBlank_def group_offsets_def topic_key_of_def least_offset_def still_stored_def new_queue_min [OF ms])
  with query_min_is_least [OF r i, of "''t''" "''''" ms] show ?thesis by metis
qed

theorem heartbeat_registers_witness:
  "\<exists>ms code b1 ids. ClientManageProcessor_heartBeat list_maps (\<lambda>_. None, \<lambda>_. None) 1 ''c1'' ''GO'' 1 ''id1''
     [(\<lparr>cd_GroupName = ''g'', cd_ConsumeType = CONSUME_PASSIVELY, cd_MessageModel = CLUSTERING, cd_ConsumeFromWhere = CONSUME_FROM_LAST_OFFSET,
        cd_SubscriptionDataSet = [example_sub ''t1'' ''A''], cd_UnitMode = False\<rparr>, \<lparr>t_group = 1, t_topic = 2, t_channel = 3, t_subs = 4\<rparr>)]
     [(''p'', 5, 6)] (example_broker ms) = (code, b1) \<and> ClientManageProcessor_getConsumerListByGroup list_maps ''g'' b1 = (SUCCESS, ids) \<and>
     (\<exists>i \<in> set ids. EqualFold i ''id1'')"
proof -
  obtain ms :: DefaultMessageStore where True by blast
  let ?cd = "\<lparr>cd_GroupName = ''g'', cd_ConsumeType = CONSUME_PASSIVELY, cd_MessageModel = CLUSTERING, cd_ConsumeFromWhere = CONSUME_FROM_LAST_OFFSET,
        cd_SubscriptionDataSet = [example_sub ''t1'' ''A''], cd_UnitMode = False\<rparr>"
  let ?cds = "[(?cd, \<lparr>t_group = 1, t_topic = 2, t_channel = 3, t_subs = 4\<rparr>)]"
  obtain code b1 where h: "ClientManageProcessor_heartBeat list_maps (\<lambda>_. None, \<lambda>_. None) 1 ''c1'' ''GO'' 1 ''id1'' ?cds [(''p'', 5, 6)]
      (example_broker ms) = (code, b1)" by fastforce
  have a: "AutoCreateSubscriptionGroup (bk_cfg (example_broker ms))" by (simp add: example_broker_def example_config_def)
  have i: "?cd \<in> fst ` set ?cds" by simp
  have "\<exists>ids. ClientManageProcessor_getConsumerListByGroup list_maps ''g'' b1 = (SUCCESS, ids) \<and> (\<exists>i \<in> set ids. EqualFold i ''id1'')"
    using heartbeat_registers [OF list_maps_laws a i h] by simp
  with h show ?thesis by metis
qed

lemma update_then_query_offset_witness:
  "\<exists>ms b1. ClientManageProcessor_updateConsumerOffset 0 ''s'' ''g'' ''t'' 2 7 (example_broker ms) = Some (Some (SUCCESS, b1)) \<and>
     ClientManageProcessor_queryConsumerOffset ''g'' ''t'' 2 b1 = Some ((SUCCESS, 7), b1)"
proof -
  obtain ms :: DefaultMessageStore where True by blast
  have "offset_reach False (bk_offsets (example_broker ms))" by (simp add: example_broker_def offset_reach.start)
  from update_then_query_offset [OF this, of 7 "''s''" "''g''" "''t''" 2] show ?thesis by auto
qed

lemma hook_never_answers_witness:
  "\<exists>ms. ClientManageProcessor_updateConsumerOffset 1 ''s'' ''g'' ''t'' 2 7 (example_broker ms) = None"
proof -
  obtain ms :: DefaultMessageStore where ms: "consumeTopicTable ms = []" "\<not> ShutdownFlag ms" using new_store by blast
  then have "ClientManageProcessor_updateConsumerOffset 1 ''s'' ''g'' ''t'' 2 7 (example_broker ms) = None"
    by (intro hook_never_answers) (simp_all add: example_broker_def ConsumerOffsetManager_QueryOffset_def OffsetTable_Get_def
        NewConsumerOffsetManager_def)
  then show ?thesis by blast
qed

end
