(* ===== verification/FrameM.thy ===== *)
theory FrameM
  imports ByteBuffer
begin

text \<open>
  How the network layer cuts the bytes a connection receives into packets:
  \<open>stgnet/remoting/length_field_fragmentation_assemblage.go\<close>.

  The table keeps for each address the bytes that wait for the rest of their packet. A buffer is referred to from
  its entry of the table and from the call that works on it; the calls for one address come from the one goroutine that
  reads the connection, so \<open>pack\<close> works on the bytes and says at the end whether the entry is still in the table.
  A run-time panic is an outcome of its own. The loop of \<open>pack\<close> may run for ever with a length
  field of eight bytes, which can be negative, so it is a partial function: \<open>None\<close> is a call that never returns.
\<close>

record LengthFieldFragmentationAssemblage =
  maxFrameLength :: int
  lengthFieldOffset :: int
  lengthFieldLength :: int
  initialBytesToStrip :: int
  fragmentationTable :: "string \<rightharpoonup> byte list"

definition NewLengthFieldFragmentationAssemblage :: "int \<Rightarrow> int \<Rightarrow> int \<Rightarrow> int \<Rightarrow> LengthFieldFragmentationAssemblage" where
  "NewLengthFieldFragmentationAssemblage maxFrameLength' lengthFieldOffset' lengthFieldLength' initialBytesToStrip' =
     \<lparr>maxFrameLength = maxFrameLength', lengthFieldOffset = lengthFieldOffset', lengthFieldLength = lengthFieldLength',
      initialBytesToStrip = initialBytesToStrip', fragmentationTable = Map.empty\<rparr>"

section \<open>Reading a buffer\<close>

text \<open>\<open>bytes.Buffer.Next(n)\<close> returns at most the bytes that are there and panics for a negative number.\<close>

definition buf_Next :: "int \<Rightarrow> byte list \<Rightarrow> (byte list \<times> byte list) option" where
  "buf_Next n b =
     (let m = (if int (length b) < n then int (length b) else n)
      in if m < 0 then None else Some (take (nat m) b, drop (nat m) b))"

text \<open>The slice \<open>b[from:to]\<close>, which panics for bounds out of order.\<close>

definition go_slice :: "int \<Rightarrow> int \<Rightarrow> byte list \<Rightarrow> byte list option" where
  "go_slice from to b =
     (if 0 \<le> from \<and> from \<le> to \<and> to \<le> int (length b) then Some (take (nat (to - from)) (drop (nat from) b)) else None)"

definition readLengthFieldLength :: "LengthFieldFragmentationAssemblage \<Rightarrow> byte list \<Rightarrow> error + int" where
  "readLengthFieldLength lfpfa lengthFieldBytes =
     (if lengthFieldLength lfpfa \<in> {1, 2, 4} then Inr (be_val lengthFieldBytes)
      else if lengthFieldLength lfpfa = 8 then Inr (to_int64 (be_val lengthFieldBytes))
      else Inl ''not support lengthFieldLength'')"

text \<open>The packet, the bytes that stay in the buffer, and whether the entry of the address is deleted.\<close>

definition adjustBuffer ::
    "LengthFieldFragmentationAssemblage \<Rightarrow> byte list \<Rightarrow> int \<Rightarrow> (byte list \<times> byte list \<times> bool) option" where
  "adjustBuffer lfpfa buf packetLength =
     (let gone = (int (length buf) - packetLength = 0)
      in if initialBytesToStrip lfpfa > 0
         then (case buf_Next (initialBytesToStrip lfpfa) buf of
                 None \<Rightarrow> None
               | Some (_, buf1) \<Rightarrow>
                   (case buf_Next (packetLength - initialBytesToStrip lfpfa) buf1 of
                      None \<Rightarrow> None
                    | Some (buffer, rest) \<Rightarrow> Some (buffer, rest, gone)))
         else (case buf_Next packetLength buf of
                 None \<Rightarrow> None
               | Some (buffer, rest) \<Rightarrow> Some (buffer, rest, gone)))"

section \<open>Packets of a buffer\<close>

text \<open>
  What one turn of the loop does: leave it (with an error or without; the flag says whether the entry is deleted), panic,
  or take a packet and go on.
\<close>

datatype pack_turn = Leave "error option" bool | Crash | Take "byte list" "byte list" bool

definition pack_once :: "LengthFieldFragmentationAssemblage \<Rightarrow> byte list \<Rightarrow> pack_turn" where
  "pack_once lfpfa buf =
     (let start = lengthFieldOffset lfpfa; to = lengthFieldOffset lfpfa + lengthFieldLength lfpfa;
          length' = int (length buf)
      in if length' \<le> to then Leave None False
         else case go_slice start to buf of
           None \<Rightarrow> Crash
         | Some lengthFieldBytes \<Rightarrow>
             (case readLengthFieldLength lfpfa lengthFieldBytes of
                Inl e \<Rightarrow> Leave (Some e) False
              | Inr packetLength \<Rightarrow>
                  if packetLength > maxFrameLength lfpfa then Leave (Some ''frame length > maxFrameLength, discard.'') True
                  else if length' - to < packetLength then Leave None False
                  else case adjustBuffer lfpfa buf (packetLength + to) of
                    None \<Rightarrow> Crash
                  | Some (rbuf, rest, gone) \<Rightarrow> Take rbuf rest gone))"

text \<open>
  The packets, the error, the bytes left in the buffer and whether its entry is deleted.
\<close>

datatype pack_result = Panic | Packed "byte list list" "error option" "byte list" bool

fun add_packet :: "byte list \<Rightarrow> pack_result \<Rightarrow> pack_result" where
  "add_packet p Panic = Panic"
| "add_packet p (Packed bufs e rest gone) = Packed (p # bufs) e rest gone"

partial_function (option) pack ::
    "LengthFieldFragmentationAssemblage \<Rightarrow> bool \<Rightarrow> byte list \<Rightarrow> pack_result option" where
  "pack lfpfa gone buf =
     (case pack_once lfpfa buf of
        Leave e gone1 \<Rightarrow> Some (Packed [] e buf (gone \<or> gone1))
      | Crash \<Rightarrow> Some Panic
      | Take p rest gone1 \<Rightarrow>
          Option.bind (pack lfpfa (gone \<or> gone1) rest) (\<lambda>r. Some (add_packet p r)))"

text \<open>
  \<open>Pack\<close> returns the packets and the error. A panic ends the process.
\<close>

datatype 'a outcome = Died | Returned 'a

definition Pack ::
    "LengthFieldFragmentationAssemblage \<Rightarrow> string \<Rightarrow> byte list
     \<Rightarrow> ((byte list list \<times> error option) \<times> LengthFieldFragmentationAssemblage) outcome option" where
  "Pack lfpfa addr buffer =
     (if int (length buffer) > maxFrameLength lfpfa
      then Some (Returned (([], Some ''buffer length > maxFrameLength, discard.''), lfpfa))
      else let buf = (case fragmentationTable lfpfa addr of Some b \<Rightarrow> b | None \<Rightarrow> []) @ buffer
           in Option.bind (pack lfpfa False buf) (\<lambda>r.
                case r of
                  Panic \<Rightarrow> Some Died
                | Packed bufs e rest gone \<Rightarrow>
                    Some (Returned ((bufs, e), lfpfa\<lparr>fragmentationTable :=
                      (fragmentationTable lfpfa)(addr := if gone then None else Some rest)\<rparr>))))"

section \<open>The settings of the program\<close>

text \<open>Client and server use a length field of four bytes at the front that does not count itself.\<close>

definition four_bytes :: "LengthFieldFragmentationAssemblage \<Rightarrow> bool" where
  "four_bytes lfpfa \<longleftrightarrow> lengthFieldOffset lfpfa = 0 \<and> lengthFieldLength lfpfa = 4 \<and> initialBytesToStrip lfpfa = 0"

definition length_field :: "byte list \<Rightarrow> nat" where
  "length_field buf = nat (be_val (take 4 buf))"

lemma pack_once_four_bytes:
  assumes "four_bytes lfpfa"
  shows "pack_once lfpfa buf =
    (if length buf \<le> 4 then Leave None False
     else if int (length_field buf) > maxFrameLength lfpfa then Leave (Some ''frame length > maxFrameLength, discard.'') True
     else if length buf < 4 + length_field buf then Leave None False
     else Take (take (4 + length_field buf) buf) (drop (4 + length_field buf) buf) (length buf = 4 + length_field buf))"
proof -
  have f: "be_val (take 4 buf) = int (length_field buf)"
    using be_val_nonneg [of "take 4 buf"] by (simp add: length_field_def)
  have n: "buf_Next (int (length_field buf) + 4) buf =
      Some (take (4 + length_field buf) buf, drop (4 + length_field buf) buf)" if "4 + length_field buf \<le> length buf"
    using that by (simp add: buf_Next_def nat_add_distrib add.commute)
  show ?thesis
    using assms n by (simp add: pack_once_def four_bytes_def go_slice_def readLengthFieldLength_def adjustBuffer_def f
        Let_def not_le not_less) auto
qed

text \<open>With these settings a call returns: it neither panics nor runs for ever.\<close>

lemma pack_returns:
  assumes "four_bytes lfpfa"
  shows "\<exists>bufs e rest gone'. pack lfpfa gone buf = Some (Packed bufs e rest gone')"
proof (induction buf arbitrary: gone rule: length_induct)
  case (1 buf)
  show ?case
  proof (cases "pack_once lfpfa buf")
    case (Take p rest gone1)
    then have "length rest < length buf" by (auto simp: pack_once_four_bytes [OF assms] split: if_splits)
    with 1 obtain bufs e rest' gone' where "pack lfpfa (gone \<or> gone1) rest = Some (Packed bufs e rest' gone')" by blast
    with Take show ?thesis by (subst pack.simps) simp
  next
    case Crash
    then show ?thesis by (simp add: pack_once_four_bytes [OF assms] split: if_splits)
  qed (subst pack.simps, simp)
qed

section \<open>The packets of a stream\<close>

text \<open>
  The reference: the packets of a whole byte stream, the bytes after the last of them, and whether the stream goes on
  with a packet that is too long.
\<close>

function split_frames :: "int \<Rightarrow> byte list \<Rightarrow> byte list list \<times> byte list \<times> bool" where
  "split_frames mx b =
     (if length b \<le> 4 then ([], b, False)
      else if int (length_field b) > mx then ([], b, True)
      else if length b < 4 + length_field b then ([], b, False)
      else case split_frames mx (drop (4 + length_field b) b) of
        (fs, r, bad) \<Rightarrow> (take (4 + length_field b) b # fs, r, bad))"
  by pat_completeness auto
termination by (relation "measure (\<lambda>(mx, b). length b)") auto

declare split_frames.simps [simp del]

lemma pack_split_frames:
  assumes "four_bytes lfpfa" and "split_frames (maxFrameLength lfpfa) buf = (fs, r, bad)"
  shows "pack lfpfa gone buf = Some (Packed fs (if bad then Some ''frame length > maxFrameLength, discard.'' else None) r
           (gone \<or> bad \<or> fs \<noteq> [] \<and> r = []))"
  using assms(2)
proof (induction buf arbitrary: gone fs rule: length_induct)
  case (1 buf)
  show ?case
  proof (cases "pack_once lfpfa buf")
    case (Leave e g)
    with 1(2) show ?thesis
      by (subst pack.simps) (auto simp: pack_once_four_bytes [OF assms(1)] split_frames.simps [of _ buf]
          split: if_splits prod.splits)
  next
    case Crash
    then show ?thesis by (simp add: pack_once_four_bytes [OF assms(1)] split: if_splits)
  next
    case (Take p rest g)
    then have t: "p = take (4 + length_field buf) buf" "rest = drop (4 + length_field buf) buf"
      "g \<longleftrightarrow> rest = []" "length rest < length buf" and
      c: "\<not> length buf \<le> 4" "\<not> int (length_field buf) > maxFrameLength lfpfa" "\<not> length buf < 4 + length_field buf"
      by (auto simp: pack_once_four_bytes [OF assms(1)] split: if_splits)
    obtain fs1 where fs: "fs = p # fs1" and r: "split_frames (maxFrameLength lfpfa) rest = (fs1, r, bad)"
      using 1(2) c t by (auto simp: split_frames.simps [of _ buf] split: prod.splits)
    have "rest = [] \<Longrightarrow> fs1 = [] \<and> r = [] \<and> \<not> bad" using r by (auto simp: split_frames.simps [of _ "[]"])
    moreover have "fs1 = [] \<Longrightarrow> r = rest" using r by (auto simp: split_frames.simps [of _ rest] split: if_splits prod.splits)
    ultimately show ?thesis
      using 1(1) t(4) r Take t(3) fs by (subst pack.simps) auto
  qed
qed

lemma length_field_append: "4 \<le> length b \<Longrightarrow> length_field (b @ c) = length_field b"
  by (simp add: length_field_def)

lemma split_frames_append:
  assumes "split_frames mx b = (fs, r, False)"
  shows "split_frames mx (b @ c) = (case split_frames mx (r @ c) of (gs, r1, bad) \<Rightarrow> (fs @ gs, r1, bad))"
  using assms
proof (induction b arbitrary: fs rule: length_induct)
  case (1 b)
  show ?case
  proof (cases "length b \<le> 4 \<or> length b < 4 + length_field b")
    case True
    with 1(2) have "fs = []" "r = b" by (auto simp: split_frames.simps [of _ b] split: if_splits prod.splits)
    then show ?thesis by simp
  next
    case False
    let ?n = "4 + length_field b"
    obtain fs1 where fs: "fs = take ?n b # fs1" and r: "split_frames mx (drop ?n b) = (fs1, r, False)"
      and m: "\<not> int (length_field b) > mx"
      using 1(2) False by (auto simp: split_frames.simps [of _ b] split: if_splits prod.splits)
    have "length (drop ?n b) < length b" using False by auto
    then have "split_frames mx (drop ?n b @ c) = (case split_frames mx (r @ c) of (gs, r1, bad) \<Rightarrow> (fs1 @ gs, r1, bad))"
      using 1(1) r by blast
    moreover have "take ?n (b @ c) = take ?n b" "drop ?n (b @ c) = drop ?n b @ c" using False by simp_all
    ultimately show ?thesis
      using False m fs by (subst split_frames.simps) (simp add: length_field_append split: prod.splits)
  qed
qed

lemma split_frames_prefix:
  assumes "split_frames mx (b @ c) = (fs, r, False)"
  shows "\<exists>gs q. split_frames mx b = (gs, q, False)"
  using assms
proof (induction b arbitrary: fs rule: length_induct)
  case (1 b)
  show ?case
  proof (cases "length b \<le> 4")
    case True
    then show ?thesis by (simp add: split_frames.simps [of _ b])
  next
    case False
    let ?n = "4 + length_field b"
    have m: "\<not> int (length_field b) > mx"
      using 1(2) False by (auto simp: split_frames.simps [of _ "b @ c"] length_field_append)
    show ?thesis
    proof (cases "length b < ?n")
      case True
      with m show ?thesis by (simp add: split_frames.simps [of _ b])
    next
      case n: False
      then have "drop ?n (b @ c) = drop ?n b @ c" by simp
      with 1(2) False m n have "\<exists>fs1. split_frames mx (drop ?n b @ c) = (fs1, r, False)"
        by (auto simp: split_frames.simps [of _ "b @ c"] length_field_append split: prod.splits)
      then obtain gs q where "split_frames mx (drop ?n b) = (gs, q, False)" using 1(1) n False by fastforce
      with False m n show ?thesis by (simp add: split_frames.simps [of _ b])
    qed
  qed
qed

section \<open>Reads of many connections\<close>

text \<open>
  The calls of \<open>Pack\<close> in the order in which the goroutines of the connections make them, with what each returns.
\<close>

type_synonym reads = "(string \<times> byte list) list"
type_synonym deliveries = "(string \<times> byte list list \<times> error option) list"

fun Pack_all :: "LengthFieldFragmentationAssemblage \<Rightarrow> reads \<Rightarrow> (deliveries \<times> LengthFieldFragmentationAssemblage) outcome option" where
  "Pack_all lfpfa [] = Some (Returned ([], lfpfa))"
| "Pack_all lfpfa ((addr, buffer) # rs) =
     Option.bind (Pack lfpfa addr buffer) (\<lambda>o1. case o1 of
        Died \<Rightarrow> Some Died
      | Returned ((bufs, e), lfpfa1) \<Rightarrow>
          Option.bind (Pack_all lfpfa1 rs) (\<lambda>o2. case o2 of
             Died \<Rightarrow> Some Died
           | Returned (ds, lfpfa2) \<Rightarrow> Some (Returned ((addr, bufs, e) # ds, lfpfa2))))"

definition received :: "string \<Rightarrow> reads \<Rightarrow> byte list" where
  "received addr rs = concat (map snd (filter (\<lambda>r. fst r = addr) rs))"

definition delivered :: "string \<Rightarrow> deliveries \<Rightarrow> byte list list" where
  "delivered addr ds = concat (map (\<lambda>(a, bufs, e). bufs) (filter (\<lambda>d. fst d = addr) ds))"

definition failed :: "string \<Rightarrow> deliveries \<Rightarrow> bool" where
  "failed addr ds \<longleftrightarrow> (\<exists>d \<in> set ds. fst d = addr \<and> snd (snd d) \<noteq> None)"

definition waiting :: "LengthFieldFragmentationAssemblage \<Rightarrow> string \<Rightarrow> byte list" where
  "waiting lfpfa addr = (case fragmentationTable lfpfa addr of Some b \<Rightarrow> b | None \<Rightarrow> [])"

lemma Pack_other:
  assumes "four_bytes lfpfa"
  obtains bufs e lfpfa1 where "Pack lfpfa addr buffer = Some (Returned ((bufs, e), lfpfa1))" "four_bytes lfpfa1"
    "maxFrameLength lfpfa1 = maxFrameLength lfpfa" "\<And>a. a \<noteq> addr \<Longrightarrow> waiting lfpfa1 a = waiting lfpfa a"
proof (cases "int (length buffer) > maxFrameLength lfpfa")
  case True
  with assms that show thesis by (simp add: Pack_def)
next
  case False
  obtain bufs e rest gone where
    "pack lfpfa False ((case fragmentationTable lfpfa addr of Some b \<Rightarrow> b | None \<Rightarrow> []) @ buffer) = Some (Packed bufs e rest gone)"
    using pack_returns [OF assms] by blast
  with assms False that show thesis by (simp add: Pack_def four_bytes_def waiting_def)
qed

lemma Pack_split_frames:
  assumes "four_bytes lfpfa" and "int (length buffer) \<le> maxFrameLength lfpfa"
    and "split_frames (maxFrameLength lfpfa) (waiting lfpfa addr @ buffer) = (fs, r, False)"
  obtains lfpfa1 where "Pack lfpfa addr buffer = Some (Returned ((fs, None), lfpfa1))" "four_bytes lfpfa1"
    "maxFrameLength lfpfa1 = maxFrameLength lfpfa" "waiting lfpfa1 addr = r"
proof -
  have "pack lfpfa False (waiting lfpfa addr @ buffer) = Some (Packed fs None r (fs \<noteq> [] \<and> r = []))"
    using pack_split_frames [OF assms(1,3)] by simp
  with assms(1,2) that show thesis by (simp add: Pack_def four_bytes_def waiting_def)
qed

lemma split_frames_rest:
  assumes "split_frames mx b = (fs, r, False)"
  shows "split_frames mx r = ([], r, False)"
  using assms
proof (induction mx b arbitrary: fs rule: split_frames.induct)
  case (1 mx b)
  then show ?case by (cases "r = b") (auto simp: split_frames.simps [of _ b] split: if_splits prod.splits)
qed

lemma reads_from:
  assumes "four_bytes lfpfa" and "split_frames (maxFrameLength lfpfa) (waiting lfpfa addr) = ([], waiting lfpfa addr, False)"
    and "\<forall>buffer. (addr, buffer) \<in> set rs \<longrightarrow> int (length buffer) \<le> maxFrameLength lfpfa"
    and "split_frames (maxFrameLength lfpfa) (waiting lfpfa addr @ received addr rs) = (fs, r, False)"
  shows "\<exists>ds lfpfa1. Pack_all lfpfa rs = Some (Returned (ds, lfpfa1)) \<and> delivered addr ds = fs \<and> \<not> failed addr ds \<and>
    waiting lfpfa1 addr = r"
  using assms
proof (induction rs arbitrary: lfpfa fs)
  case Nil
  then show ?case by (auto simp: received_def delivered_def failed_def)
next
  case (Cons ab rs)
  obtain a buffer where ab: "ab = (a, buffer)" by (cases ab)
  let ?mx = "maxFrameLength lfpfa"
  show ?case
  proof (cases "a = addr")
    case True
    have all: "split_frames ?mx ((waiting lfpfa addr @ buffer) @ received addr rs) = (fs, r, False)"
      using Cons.prems(4) by (simp add: ab True received_def)
    then obtain gs q where q: "split_frames ?mx (waiting lfpfa addr @ buffer) = (gs, q, False)"
      using split_frames_prefix by blast
    obtain hs where hs: "split_frames ?mx (q @ received addr rs) = (hs, r, False)" "fs = gs @ hs"
      using all unfolding split_frames_append [OF q] by (auto split: prod.splits)
    have "int (length buffer) \<le> ?mx" using Cons.prems(3) by (simp add: ab True)
    then obtain lfpfa1 where p: "Pack lfpfa addr buffer = Some (Returned ((gs, None), lfpfa1))" "four_bytes lfpfa1"
      "maxFrameLength lfpfa1 = ?mx" "waiting lfpfa1 addr = q"
      using Pack_split_frames [OF Cons.prems(1) _ q] by metis
    obtain ds lfpfa2 where "Pack_all lfpfa1 rs = Some (Returned (ds, lfpfa2))" "delivered addr ds = hs" "\<not> failed addr ds"
      "waiting lfpfa2 addr = r"
      using Cons.IH [of lfpfa1 hs] p hs split_frames_rest [OF q] Cons.prems(3) by auto
    with p hs show ?thesis by (auto simp: ab True delivered_def failed_def)
  next
    case False
    obtain bufs e lfpfa1 where p: "Pack lfpfa a buffer = Some (Returned ((bufs, e), lfpfa1))" "four_bytes lfpfa1"
      "maxFrameLength lfpfa1 = ?mx" "waiting lfpfa1 addr = waiting lfpfa addr"
      using Pack_other [OF Cons.prems(1)] False by metis
    obtain ds lfpfa2 where "Pack_all lfpfa1 rs = Some (Returned (ds, lfpfa2))" "delivered addr ds = fs" "\<not> failed addr ds"
      "waiting lfpfa2 addr = r"
      using Cons.IH [of lfpfa1 fs] p Cons.prems(2-4) False by (auto simp: ab received_def)
    with p False show ?thesis by (auto simp: ab delivered_def failed_def)
  qed
qed

text \<open>
  C34 (equivalence): however the network cuts the bytes of a connection into reads, and however the reads of other connections
  come in between, the packets \<open>Pack\<close> delivers for the connection are those of the whole byte stream, in order, and what
  waits in the table is what follows the last of them. No call panics or runs for ever.
\<close>

theorem reads_do_not_matter:
  assumes "four_bytes lfpfa" and "waiting lfpfa addr = []"
    and "\<forall>buffer. (addr, buffer) \<in> set rs \<longrightarrow> int (length buffer) \<le> maxFrameLength lfpfa"
    and "split_frames (maxFrameLength lfpfa) (received addr rs) = (fs, r, False)"
  shows "\<exists>ds lfpfa1. Pack_all lfpfa rs = Some (Returned (ds, lfpfa1)) \<and> delivered addr ds = fs \<and> \<not> failed addr ds \<and>
    waiting lfpfa1 addr = r"
  using assms by (intro reads_from) (simp_all add: split_frames.simps [of _ "[]"])

theorem reads_do_not_matter_witness:
  "\<exists>ds lfpfa1. Pack_all (NewLengthFieldFragmentationAssemblage 8388608 0 4 0)
      [(''a'', [0, 0, 0]), (''b'', [1, 2]), (''a'', [2, 7, 8, 0, 0]), (''a'', [0, 1, 9, 5])] = Some (Returned (ds, lfpfa1)) \<and>
    delivered ''a'' ds = [[0, 0, 0, 2, 7, 8], [0, 0, 0, 1, 9]] \<and> \<not> failed ''a'' ds \<and> waiting lfpfa1 ''a'' = [5]"
proof -
  let ?l = "NewLengthFieldFragmentationAssemblage 8388608 0 4 0"
  have "split_frames (maxFrameLength ?l) (received ''a'' [(''a'', [0, 0, 0]), (''b'', [1, 2]), (''a'', [2, 7, 8, 0, 0]),
      (''a'', [0, 1, 9, 5])]) = ([[0, 0, 0, 2, 7, 8], [0, 0, 0, 1, 9]], [5], False)"
    by (simp add: received_def NewLengthFieldFragmentationAssemblage_def split_frames.simps length_field_def be_val_def)
  from reads_do_not_matter [OF _ _ _ this] show ?thesis
    by (simp add: four_bytes_def NewLengthFieldFragmentationAssemblage_def waiting_def)
qed

section \<open>Eight bytes\<close>

text \<open>
  A length field of eight bytes may hold a negative number. The value \<open>-8\<close> in front makes \<open>pack\<close> take empty packets for ever, so
  that the call does not return.
\<close>

definition eight_bytes :: LengthFieldFragmentationAssemblage where
  "eight_bytes = NewLengthFieldFragmentationAssemblage 8388608 0 8 0"

lemma pack_negative_length_hangs:
  "pack eight_bytes gone [255, 255, 255, 255, 255, 255, 255, 248, x] = None"
proof -
  let ?b = "[255, 255, 255, 255, 255, 255, 255, 248, x]"
  have once: "pack_once eight_bytes ?b = Take [] ?b False"
    by (simp add: pack_once_def eight_bytes_def NewLengthFieldFragmentationAssemblage_def go_slice_def
        readLengthFieldLength_def be_val_def to_int64_def signed_take_bit_eq_take_bit_minus adjustBuffer_def buf_Next_def)
  have "\<not> (lf = eight_bytes \<and> b = ?b)" if "pack lf g b = Some res" for lf g b res
    by (rule pack.raw_induct [where P = "\<lambda>lf g b y. \<not> (lf = eight_bytes \<and> b = ?b)", OF _ that])
      (auto simp: once bind_eq_Some_conv, blast)
  then show ?thesis by (cases "pack eight_bytes gone ?b") auto
qed

end
