(* ===== verification/CommandM.thy ===== *)
theory CommandM
  imports FrameM NetAddr GoPackages
begin

text \<open>
  The commands clients, brokers and the registry exchange, with their custom headers and their form on the wire:
  \<open>stgnet/protocol/remoting_command.go\<close>, \<open>command_custom_header.go\<close>, \<open>remoting_command_opaque.go\<close> and
  \<open>language_code.go\<close>.

  The part of a command that is sent as JSON is a record of its own, \<open>CommandJson\<close>; the JSON package (\<open>ffjson\<close> and the code it
  generates) is an argument: \<open>marshal\<close> returns \<open>None\<close> for an error, \<open>unmarshal\<close> an error or the record. Go maps are association
  lists in the order in which a range over them visits the keys. A custom header is a structure that is read and filled by
  reflection: here the list of its fields with their kinds and values. A run-time panic is \<open>None\<close>.
\<close>

section \<open>Custom headers\<close>

text \<open>The kinds of fields: \<open>IntF w\<close> and \<open>UintF w\<close> have \<open>w\<close> bits (\<open>int\<close> has 64); \<open>OtherF\<close> is any kind the code does not handle.\<close>

datatype field_value = StringF string | IntF nat int | UintF nat int | BoolF bool | OtherF

type_synonym custom_header = "(string \<times> field_value) list"
type_synonym ext_fields = "(string \<times> string) list"

definition FormatBool :: "bool \<Rightarrow> string" where
  "FormatBool b = (if b then ''true'' else ''false'')"

definition ParseBool :: "string \<Rightarrow> error + bool" where
  "ParseBool s =
     (if s \<in> {''1'', ''t'', ''T'', ''true'', ''TRUE'', ''True''} then Inr True
      else if s \<in> {''0'', ''f'', ''F'', ''false'', ''FALSE'', ''False''} then Inr False
      else Inl ''invalid syntax'')"

text \<open>\<open>strconv.ParseUint(s, 10, 64)\<close>.\<close>

definition ParseUint64 :: "string \<Rightarrow> error + int" where
  "ParseUint64 s =
     (case ParseUint s of
        None \<Rightarrow> Inl ''invalid syntax''
      | Some x \<Rightarrow> if x < 2 ^ 64 then Inr x else Inl ''value out of range'')"

definition is_exported :: "string \<Rightarrow> bool" where
  "is_exported name \<longleftrightarrow> name \<noteq> [] \<and> 65 \<le> (of_char (hd name) :: nat) \<and> (of_char (hd name) :: nat) \<le> 90"

text \<open>The letters from \<open>a\<close> to \<open>c\<close> are the only ones that become capitals.\<close>

definition firstLetterToUpper :: "string \<Rightarrow> string" where
  "firstLetterToUpper s =
     (case s of
        [] \<Rightarrow> []
      | b # r \<Rightarrow> if 97 \<le> (of_char b :: nat) \<and> (of_char b :: nat) \<le> 99 then char_of ((of_char b :: nat) - 32) # r else s)"

definition reflectSturctSetField :: "custom_header \<Rightarrow> string \<Rightarrow> string \<Rightarrow> error + custom_header" where
  "reflectSturctSetField structValue name v =
     (case map_of structValue name of
        None \<Rightarrow> Inl ''No such field''
      | Some f \<Rightarrow>
          if \<not> is_exported name then Inl ''Cannot set field value''
          else (case f of
              StringF _ \<Rightarrow> Inr (AList.update name (StringF v) structValue)
            | IntF w _ \<Rightarrow>
                (case ParseInt v of
                   Inl e \<Rightarrow> Inl e
                 | Inr ival \<Rightarrow> Inr (AList.update name (IntF w (signed_take_bit (w - 1) ival)) structValue))
            | UintF w _ \<Rightarrow>
                (case ParseUint64 v of
                   Inl e \<Rightarrow> Inl e
                 | Inr ival \<Rightarrow> Inr (AList.update name (UintF w (take_bit w ival)) structValue))
            | BoolF _ \<Rightarrow>
                (case ParseBool v of
                   Inl e \<Rightarrow> Inl e
                 | Inr bval \<Rightarrow> Inr (AList.update name (BoolF bval) structValue))
            | OtherF \<Rightarrow> Inl ''Provided value type didn't match obj field type''))"

text \<open>The fields set before an error stay set.\<close>

fun decodeCommandCustomHeader :: "ext_fields \<Rightarrow> custom_header \<Rightarrow> custom_header \<times> error option" where
  "decodeCommandCustomHeader [] h = (h, None)"
| "decodeCommandCustomHeader ((k, v) # extFields) h =
     (case reflectSturctSetField h (firstLetterToUpper k) v of
        Inl e \<Rightarrow> (h, Some e)
      | Inr h1 \<Rightarrow> decodeCommandCustomHeader extFields h1)"

definition encode_field :: "field_value \<Rightarrow> string option" where
  "encode_field f =
     (case f of
        StringF s \<Rightarrow> Some s
      | IntF w x \<Rightarrow> Some (FormatInt x)
      | UintF w x \<Rightarrow> Some (FormatInt x)
      | BoolF b \<Rightarrow> Some (FormatBool b)
      | OtherF \<Rightarrow> None)"

definition encodeCommandCustomHeader :: "custom_header \<Rightarrow> ext_fields" where
  "encodeCommandCustomHeader h =
     fold (\<lambda>(name, f) extFields. case encode_field f of
             Some v \<Rightarrow> AList.update name v extFields | None \<Rightarrow> extFields) h []"

section \<open>Commands\<close>

datatype LanguageCode = JAVA | CPP | DOTNET | PYTHON | DELPHI | ERLANG | RUBY | OTHER | HTTP | GOLANG

fun LanguageCode_ToString :: "LanguageCode \<Rightarrow> string" where
  "LanguageCode_ToString JAVA = ''JAVA''"
| "LanguageCode_ToString CPP = ''CPP''"
| "LanguageCode_ToString DOTNET = ''DOTNET''"
| "LanguageCode_ToString PYTHON = ''PYTHON''"
| "LanguageCode_ToString DELPHI = ''DELPHI''"
| "LanguageCode_ToString ERLANG = ''ERLANG''"
| "LanguageCode_ToString RUBY = ''RUBY''"
| "LanguageCode_ToString OTHER = ''OTHER''"
| "LanguageCode_ToString HTTP = ''HTTP''"
| "LanguageCode_ToString GOLANG = ''GOLANG''"

record CommandJson =
  rc_Code :: int
  rc_Language :: string
  rc_Version :: int
  rc_Opaque :: int
  rc_Flag :: int
  rc_Remark :: string
  rc_ExtFields :: "ext_fields option"

record RemotingCommand = CommandJson +
  rc_CustomHeader :: "custom_header option"
  rc_Body :: "byte list option"

datatype RemotingCommandType = REQUEST_COMMAND | RESPONSE_COMMAND

definition rpcType :: nat where "rpcType = 0"
definition rpcOneway :: nat where "rpcOneway = 1"

text \<open>The two response codes of the network layer it sends itself.\<close>

definition net_SYSTEM_ERROR :: int where "net_SYSTEM_ERROR = 1"
definition net_REQUEST_CODE_NOT_SUPPORTED :: int where "net_REQUEST_CODE_NOT_SUPPORTED = 3"

text \<open>\<open>mqversion.CurrentVersion\<close>.\<close>

definition CurrentVersion :: int where
  "CurrentVersion = 79"

definition setCMDVersion :: "int \<Rightarrow> string \<Rightarrow> RemotingCommand \<Rightarrow> RemotingCommand" where
  "setCMDVersion configVersion env rc =
     (if configVersion \<ge> 0 then rc\<lparr>rc_Version := configVersion\<rparr>
      else if env = [] then rc
      else case ParseInt env of Inl _ \<Rightarrow> rc | Inr v \<Rightarrow> rc\<lparr>rc_Version := to_int32 v\<rparr>)"

definition IsOnewayRPC :: "('a RemotingCommand_scheme) \<Rightarrow> bool" where
  "IsOnewayRPC rc \<longleftrightarrow> (let bits = push_bit rpcOneway 1 in and (rc_Flag rc) bits = bits)"

definition IsResponseType :: "('a RemotingCommand_scheme) \<Rightarrow> bool" where
  "IsResponseType rc \<longleftrightarrow> (let bits = push_bit rpcType 1 in and (rc_Flag rc) bits = bits)"

definition MarkResponseType :: "RemotingCommand \<Rightarrow> RemotingCommand" where
  "MarkResponseType rc = rc\<lparr>rc_Flag := or (rc_Flag rc) (push_bit rpcType 1)\<rparr>"

definition MarkOnewayRPC :: "RemotingCommand \<Rightarrow> RemotingCommand" where
  "MarkOnewayRPC rc = rc\<lparr>rc_Flag := or (rc_Flag rc) (push_bit rpcOneway 1)\<rparr>"

definition RemotingCommand_Type :: "RemotingCommand \<Rightarrow> RemotingCommandType" where
  "RemotingCommand_Type rc = (if IsResponseType rc then RESPONSE_COMMAND else REQUEST_COMMAND)"

definition empty_command :: RemotingCommand where
  "empty_command = \<lparr>rc_Code = 0, rc_Language = [], rc_Version = 0, rc_Opaque = 0, rc_Flag = 0, rc_Remark = [],
     rc_ExtFields = None, rc_CustomHeader = None, rc_Body = None\<rparr>"

definition CreateResponseCommand :: "string \<Rightarrow> int \<Rightarrow> string \<Rightarrow> RemotingCommand" where
  "CreateResponseCommand env code remark =
     setCMDVersion CurrentVersion env (MarkResponseType
       (empty_command\<lparr>rc_Code := code, rc_Remark := remark, rc_ExtFields := Some [], rc_Language := LanguageCode_ToString GOLANG\<rparr>))"

definition CreateDefaultResponseCommand :: "string \<Rightarrow> custom_header option \<Rightarrow> RemotingCommand" where
  "CreateDefaultResponseCommand env customHeader =
     (let cmd = CreateResponseCommand env net_SYSTEM_ERROR ''not set any response code''
      in case customHeader of Some h \<Rightarrow> cmd\<lparr>rc_CustomHeader := Some h\<rparr> | None \<Rightarrow> cmd)"

text \<open>The counter of the process is the state of \<open>inrcOpaque\<close>.\<close>

definition inrcOpaque :: "int \<Rightarrow> int \<times> int" where
  "inrcOpaque opaqueId = (let n = to_int32 (opaqueId + 1) in (n, n))"

definition CreateRequestCommand :: "string \<Rightarrow> int \<Rightarrow> custom_header option \<Rightarrow> int \<Rightarrow> RemotingCommand \<times> int" where
  "CreateRequestCommand env code customHeader opaqueId =
     (let cmd = empty_command\<lparr>rc_Code := code, rc_ExtFields := Some [], rc_Language := LanguageCode_ToString GOLANG\<rparr>;
          cmd1 = (case customHeader of Some h \<Rightarrow> cmd\<lparr>rc_CustomHeader := Some h\<rparr> | None \<Rightarrow> cmd)
      in case inrcOpaque opaqueId of
        (n, opaqueId1) \<Rightarrow> (setCMDVersion CurrentVersion env (cmd1\<lparr>rc_Opaque := n\<rparr>), opaqueId1))"

section \<open>The wire format\<close>

text \<open>Assigning to a map that is \<open>nil\<close> panics; a range over no fields assigns nothing.\<close>

definition makeCustomHeaderToNet :: "RemotingCommand \<Rightarrow> RemotingCommand option" where
  "makeCustomHeaderToNet rc =
     (case rc_CustomHeader rc of
        None \<Rightarrow> Some rc
      | Some h \<Rightarrow>
          let extFields = encodeCommandCustomHeader h
          in case rc_ExtFields rc of
            None \<Rightarrow> if extFields = [] then Some rc else None
          | Some ext \<Rightarrow> Some (rc\<lparr>rc_ExtFields := Some (fold (\<lambda>(k, v). AList.update k v) extFields ext)\<rparr>))"

definition json_part :: "RemotingCommand \<Rightarrow> CommandJson" where
  "json_part rc = \<lparr>rc_Code = rc_Code rc, rc_Language = rc_Language rc, rc_Version = rc_Version rc, rc_Opaque = rc_Opaque rc,
     rc_Flag = rc_Flag rc, rc_Remark = rc_Remark rc, rc_ExtFields = rc_ExtFields rc\<rparr>"

definition with_json :: "CommandJson \<Rightarrow> byte list option \<Rightarrow> RemotingCommand" where
  "with_json j body = \<lparr>rc_Code = rc_Code j, rc_Language = rc_Language j, rc_Version = rc_Version j, rc_Opaque = rc_Opaque j,
     rc_Flag = rc_Flag j, rc_Remark = rc_Remark j, rc_ExtFields = rc_ExtFields j, rc_CustomHeader = None, rc_Body = body\<rparr>"

definition buildHeader :: "(CommandJson \<Rightarrow> byte list option) \<Rightarrow> RemotingCommand \<Rightarrow> (byte list \<times> RemotingCommand) option" where
  "buildHeader marshal rc =
     (case makeCustomHeaderToNet rc of
        None \<Rightarrow> None
      | Some rc1 \<Rightarrow> Some (case marshal (json_part rc1) of None \<Rightarrow> [] | Some buf \<Rightarrow> buf, rc1))"

definition EncodeHeader :: "(CommandJson \<Rightarrow> byte list option) \<Rightarrow> RemotingCommand \<Rightarrow> (byte list \<times> RemotingCommand) option" where
  "EncodeHeader marshal rc =
     (case buildHeader marshal rc of
        None \<Rightarrow> None
      | Some (headerData, rc1) \<Rightarrow>
          let headerLength = to_int32 (int (length headerData));
              length1 = to_int32 (4 + headerLength);
              length2 = (case rc_Body rc1 of None \<Rightarrow> length1 | Some b \<Rightarrow> to_int32 (length1 + to_int32 (int (length b))))
          in Some (Int32ToBytes length2 @ Int32ToBytes headerLength @ headerData, rc1))"

definition RemotingCommand_Bytes :: "(CommandJson \<Rightarrow> byte list option) \<Rightarrow> RemotingCommand \<Rightarrow> (byte list \<times> RemotingCommand) option" where
  "RemotingCommand_Bytes marshal rc =
     (case EncodeHeader marshal rc of
        None \<Rightarrow> None
      | Some (header, rc1) \<Rightarrow>
          Some (case rc_Body rc1 of
                  Some b \<Rightarrow> if length b > 0 then header @ b else header
                | None \<Rightarrow> header, rc1))"

definition decodeRemotingCommand ::
    "(byte list \<Rightarrow> error + CommandJson) \<Rightarrow> byte list \<Rightarrow> byte list option \<Rightarrow> error + RemotingCommand" where
  "decodeRemotingCommand unmarshal header body =
     (case unmarshal header of Inl err \<Rightarrow> Inl err | Inr j \<Rightarrow> Inr (with_json j body))"

text \<open>\<open>None\<close>: allocating a header of negative length panics.\<close>

definition DecodeRemotingCommand ::
    "(byte list \<Rightarrow> error + CommandJson) \<Rightarrow> byte list \<Rightarrow> (error + RemotingCommand) option" where
  "DecodeRemotingCommand unmarshal buf =
     (if length buf < 4 then Some (Inl ''buffer-length incorrect, minimal is 4'')
      else let length' = BytesToInt32 (take 4 buf); buf1 = drop 4 buf
      in if length buf1 < 4 then Some (Inl ''buffer-length < header-length'')
      else let headerLength = BytesToInt32 (take 4 buf1); buf2 = drop 4 buf1
      in if length buf2 = 0 \<or> int (length buf2) < headerLength then Some (Inl ''buffer-length < attribute header-data'')
      else if headerLength < 0 then None
      else let header = take (nat headerLength) buf2; buf3 = drop (nat headerLength) buf2;
               bodyLength = to_int32 (length' - 4 - headerLength)
      in if int (length buf3) < bodyLength then Some (Inl ''buffer-length < attribute body'')
      else let body = (if bodyLength > 0 then Some (take (nat bodyLength) buf3) else None)
      in Some (decodeRemotingCommand unmarshal header body))"

text \<open>\<open>CheckFields\<close> is the check of the header's own type.\<close>

definition DecodeCommandCustomHeader ::
    "(custom_header \<Rightarrow> error option) \<Rightarrow> RemotingCommand \<Rightarrow> custom_header option \<Rightarrow> custom_header option \<times> error option" where
  "DecodeCommandCustomHeader CheckFields rc commandCustomHeader =
     (case commandCustomHeader of
        None \<Rightarrow> (None, None)
      | Some h \<Rightarrow>
          (case rc_ExtFields rc of
             None \<Rightarrow> (Some h, None)
           | Some ext \<Rightarrow>
               (case decodeCommandCustomHeader ext h of
                  (h1, Some err) \<Rightarrow> (Some h1, Some err)
                | (h1, None) \<Rightarrow> (Some h1, CheckFields h1))))"

section \<open>Custom headers round trip\<close>

text \<open>A value the field can hold, for the kinds the code handles.\<close>

fun fits :: "field_value \<Rightarrow> bool" where
  "fits (IntF w x) \<longleftrightarrow> 0 < w \<and> w \<le> 64 \<and> in_int w x"
| "fits (UintF w x) \<longleftrightarrow> w \<le> 64 \<and> 0 \<le> x \<and> x < 2 ^ w"
| "fits OtherF \<longleftrightarrow> False"
| "fits _ \<longleftrightarrow> True"

fun same_kind :: "field_value \<Rightarrow> field_value \<Rightarrow> bool" where
  "same_kind (StringF _) (StringF _) \<longleftrightarrow> True"
| "same_kind (IntF w _) (IntF w1 _) \<longleftrightarrow> w = w1"
| "same_kind (UintF w _) (UintF w1 _) \<longleftrightarrow> w = w1"
| "same_kind (BoolF _) (BoolF _) \<longleftrightarrow> True"
| "same_kind _ _ \<longleftrightarrow> False"

lemma in_int_64: "0 < w \<Longrightarrow> w \<le> 64 \<Longrightarrow> in_int w x \<Longrightarrow> in_int 64 x"
proof -
  assume w: "0 < w" "w \<le> 64" "in_int w x"
  then have "(2 :: int) ^ (w - 1) \<le> 2 ^ 63" by (intro power_increasing) auto
  with w(3) show ?thesis by (auto simp: in_int_def)
qed

lemma ParseUint64_FormatInt: "0 \<le> x \<Longrightarrow> x < 2 ^ 64 \<Longrightarrow> ParseUint64 (FormatInt x) = Inr x"
  by (simp add: ParseUint64_def ParseUint_def FormatInt_def list_all_decimal decimal_nonempty decimal_val_decimal)

lemma ParseBool_FormatBool: "ParseBool (FormatBool b) = Inr b"
  by (simp add: ParseBool_def FormatBool_def)

lemma set_encoded_field:
  assumes "map_of h0 k = Some f0" "same_kind f0 f" "fits f" "encode_field f = Some v" "is_exported k"
  shows "reflectSturctSetField h0 k v = Inr (AList.update k f h0)"
proof (cases f)
  case (IntF w x)
  with assms have "in_int 64 x" "signed_take_bit (w - 1) x = x"
    using in_int_64 in_int_self [of "w - 1" x] by auto
  with assms IntF show ?thesis
    by (cases f0) (auto simp: reflectSturctSetField_def encode_field_def ParseInt_FormatInt)
next
  case (UintF w x)
  with assms have x: "0 \<le> x" "x < 2 ^ w" "w \<le> 64" by auto
  then have "(2 :: int) ^ w \<le> 2 ^ 64" by (intro power_increasing) auto
  with x have "ParseUint64 (FormatInt x) = Inr x" "take_bit w x = x"
    by (auto intro: ParseUint64_FormatInt take_bit_int_eq_self)
  with assms UintF show ?thesis by (cases f0) (auto simp: reflectSturctSetField_def encode_field_def)
qed (use assms in \<open>cases f0; auto simp: reflectSturctSetField_def encode_field_def ParseBool_FormatBool\<close>)+

lemma firstLetterToUpper_exported: "is_exported k \<Longrightarrow> firstLetterToUpper k = k"
  by (cases k) (auto simp: is_exported_def firstLetterToUpper_def)

lemma map_of_encode:
  "distinct (map fst h) \<Longrightarrow>
     map_of (fold (\<lambda>(name, f) extFields. case encode_field f of
        Some v \<Rightarrow> AList.update name v extFields | None \<Rightarrow> extFields) h acc) k =
     (case Option.bind (map_of h k) encode_field of Some v \<Rightarrow> Some v | None \<Rightarrow> map_of acc k)"
proof (induction h arbitrary: acc)
  case (Cons nf h)
  obtain n f where nf: "nf = (n, f)" by (cases nf)
  from Cons.prems have "map_of h n = None" by (auto simp: nf map_of_eq_None_iff)
  then show ?case
    using Cons by (auto simp: nf update_conv' split: option.splits)
qed simp

lemma decode_fields:
  assumes "\<forall>k v. (k, v) \<in> set ext \<longrightarrow> is_exported k \<and>
      (\<exists>f0 f. map_of h0 k = Some f0 \<and> map_of h k = Some f \<and> same_kind f0 f \<and> fits f \<and> encode_field f = Some v)"
  shows "\<exists>h1. decodeCommandCustomHeader ext h0 = (h1, None) \<and> map fst h1 = map fst h0 \<and>
    map_of h1 = (\<lambda>k. if k \<in> fst ` set ext then map_of h k else map_of h0 k)"
  using assms
proof (induction ext arbitrary: h0)
  case (Cons kv ext)
  obtain k v where kv: "kv = (k, v)" by (cases kv)
  then have "(k, v) \<in> set (kv # ext)" by simp
  from Cons.prems [rule_format, OF this] obtain f0 f where f: "is_exported k" "map_of h0 k = Some f0" "map_of h k = Some f"
    "same_kind f0 f" "fits f" "encode_field f = Some v" by blast
  let ?h = "AList.update k f h0"
  have "same_kind f f" using f(5) by (cases f) auto
  obtain h1 where "decodeCommandCustomHeader ext ?h = (h1, None)" "map fst h1 = map fst ?h"
    "map_of h1 = (\<lambda>k. if k \<in> fst ` set ext then map_of h k else map_of ?h k)"
  proof (atomize_elim, intro Cons.IH allI impI)
    fix k1 v1 assume "(k1, v1) \<in> set ext"
    then have "(k1, v1) \<in> set (kv # ext)" by simp
    from Cons.prems [rule_format, OF this] obtain g0 g where "is_exported k1" "map_of h0 k1 = Some g0" "map_of h k1 = Some g"
      "same_kind g0 g" "fits g" "encode_field g = Some v1" by blast
    with f(3) \<open>same_kind f f\<close> show "is_exported k1 \<and> (\<exists>f0 f1. map_of ?h k1 = Some f0 \<and> map_of h k1 = Some f1 \<and>
        same_kind f0 f1 \<and> fits f1 \<and> encode_field f1 = Some v1)"
      by (cases "k1 = k") (auto simp: update_conv')
  qed
  moreover have "decodeCommandCustomHeader (kv # ext) h0 = decodeCommandCustomHeader ext ?h"
    using f by (simp add: kv firstLetterToUpper_exported set_encoded_field)
  ultimately show ?case using f(2,3) by (simp add: kv map_fst_update update_conv' fun_eq_iff)
qed auto

lemma header_roundtrip:
  assumes "distinct (map fst h)" and "\<forall>(k, f) \<in> set h. is_exported k \<and> fits f"
    and "map fst h0 = map fst h" and "\<forall>k f0 f. map_of h0 k = Some f0 \<longrightarrow> map_of h k = Some f \<longrightarrow> same_kind f0 f"
    and "set ext = set (encodeCommandCustomHeader h)" and "distinct (map fst ext)"
  shows "decodeCommandCustomHeader ext h0 = (h, None)"
proof -
  have enc: "map_of (encodeCommandCustomHeader h) k = Option.bind (map_of h k) encode_field" for k
    unfolding encodeCommandCustomHeader_def map_of_encode [OF assms(1)] by (simp split: option.splits)
  have "distinct (map fst (encodeCommandCustomHeader h))"
  proof -
    have "distinct (map fst acc) \<Longrightarrow> distinct (map fst (fold (\<lambda>(name, f) extFields. case encode_field f of
        Some v \<Rightarrow> AList.update name v extFields | None \<Rightarrow> extFields) xs acc))" for xs acc
      by (induction xs arbitrary: acc) (auto simp: distinct_update split: option.splits)
    from this [of "[]" h] show ?thesis by (simp add: encodeCommandCustomHeader_def)
  qed
  then have ext: "map_of ext = map_of (encodeCommandCustomHeader h)"
    using assms(5,6) map_of_inject_set by blast
  have sup: "fits f \<Longrightarrow> \<exists>v. encode_field f = Some v" for f by (cases f) (auto simp: encode_field_def)
  have "\<exists>v. encode_field f = Some v" if "map_of h k = Some f" for k f
    using map_of_SomeD [OF that] assms(2) sup by blast
  then have "dom (map_of ext) = dom (map_of h)" unfolding ext by (auto simp: enc dom_def bind_eq_Some_conv)
  then have keys: "fst ` set ext = fst ` set h" by (simp add: dom_map_of_conv_image_fst)
  have "is_exported k \<and> (\<exists>f0 f. map_of h0 k = Some f0 \<and> map_of h k = Some f \<and> same_kind f0 f \<and> fits f \<and> encode_field f = Some v)"
    if kv: "(k, v) \<in> set ext" for k v
  proof -
    from kv assms(6) have "map_of ext k = Some v" by simp
    then obtain f where f: "map_of h k = Some f" "encode_field f = Some v" unfolding ext enc bind_eq_Some_conv by blast
    then have "k \<in> fst ` set h0" using assms(3) by (metis dom_map_of_conv_image_fst domI list.set_map)
    then obtain f0 where "map_of h0 k = Some f0" by (metis dom_map_of_conv_image_fst domD)
    with f assms(2,4) show ?thesis by (auto dest: map_of_SomeD)
  qed
  then obtain h1 where h1: "decodeCommandCustomHeader ext h0 = (h1, None)" "map fst h1 = map fst h0"
    "map_of h1 = (\<lambda>k. if k \<in> fst ` set ext then map_of h k else map_of h0 k)"
    using decode_fields [of ext h0 h] by auto
  have "k \<notin> fst ` set h \<Longrightarrow> map_of h0 k = map_of h k" for k
    using assms(3) by (metis list.set_map map_of_eq_None_iff)
  then have "map_of h1 = map_of h" unfolding h1(3) keys by (simp add: fun_eq_iff)
  then have "h1 = h" using map_of_eq_imp_eq [of h1 h] h1(2) assms(1,3) by simp
  with h1(1) show ?thesis by simp
qed

lemma header_roundtrip_example:
  "decodeCommandCustomHeader [(''QueueId'', ''-3''), (''Topic'', ''t'')] [(''Topic'', StringF []), (''QueueId'', IntF 32 0)] =
     ([(''Topic'', StringF ''t''), (''QueueId'', IntF 32 (- 3))], None)"
proof -
  have "FormatInt (- 3) = ''-3''" by code_simp
  then show ?thesis
    by (intro header_roundtrip)
      (auto simp: is_exported_def in_int_def encodeCommandCustomHeader_def encode_field_def split: if_splits)
qed

text \<open>
  A field whose name on the wire starts with a letter from \<open>d\<close> on in lower case, as in the JSON names of the header
  types, is refused.
\<close>

lemma lower_case_field_refused:
  assumes "100 \<le> (of_char c :: nat)" and "\<forall>(k, f) \<in> set h. is_exported k"
  shows "decodeCommandCustomHeader (((c # name), v) # ext) h = (h, Some ''No such field'')"
proof -
  have "map_of h (c # name) = None"
    using assms by (fastforce simp: map_of_eq_None_iff is_exported_def)
  with assms(1) show ?thesis by (simp add: firstLetterToUpper_def reflectSturctSetField_def)
qed

section \<open>Commands on the wire\<close>

definition body_bytes :: "RemotingCommand \<Rightarrow> byte list" where
  "body_bytes rc = (case rc_Body rc of None \<Rightarrow> [] | Some b \<Rightarrow> b)"

text \<open>What the receiver gets of a command: the custom header as extension fields, and no body for an empty one.\<close>

definition on_the_wire :: "RemotingCommand \<Rightarrow> RemotingCommand" where
  "on_the_wire rc =
     (case makeCustomHeaderToNet rc of
        None \<Rightarrow> rc
      | Some rc1 \<Rightarrow> with_json (json_part rc1) (if body_bytes rc = [] then None else Some (body_bytes rc)))"

text \<open>
  The command has an encoding that the JSON package decodes again, and the packet is not longer than \<open>mx\<close>.
\<close>

definition sendable ::
    "(CommandJson \<Rightarrow> byte list option) \<Rightarrow> (byte list \<Rightarrow> error + CommandJson) \<Rightarrow> int \<Rightarrow> RemotingCommand \<Rightarrow> bool" where
  "sendable marshal unmarshal mx rc \<longleftrightarrow>
     (case makeCustomHeaderToNet rc of
        None \<Rightarrow> False
      | Some rc1 \<Rightarrow>
          (case marshal (json_part rc1) of
             None \<Rightarrow> False
           | Some hdr \<Rightarrow> hdr \<noteq> [] \<and> unmarshal hdr = Inr (json_part rc1) \<and> 4 + int (length hdr) + int (length (body_bytes rc)) \<le> mx))"

definition wire_bytes :: "(CommandJson \<Rightarrow> byte list option) \<Rightarrow> RemotingCommand \<Rightarrow> byte list" where
  "wire_bytes marshal rc = (case RemotingCommand_Bytes marshal rc of Some (b, _) \<Rightarrow> b | None \<Rightarrow> [])"

lemma makeCustomHeaderToNet_body: "makeCustomHeaderToNet rc = Some rc1 \<Longrightarrow> rc_Body rc1 = rc_Body rc"
  by (auto simp: makeCustomHeaderToNet_def Let_def split: option.splits if_splits)

lemma length_Int32ToBytes [simp]: "length (Int32ToBytes x) = 4"
  by (simp add: Int32ToBytes_def)

lemma wire_bytes_sendable:
  assumes "sendable marshal unmarshal mx rc" and "mx < 2 ^ 31"
  obtains rc1 hdr where "makeCustomHeaderToNet rc = Some rc1" "hdr \<noteq> []" "unmarshal hdr = Inr (json_part rc1)"
    "4 + int (length hdr) + int (length (body_bytes rc)) \<le> mx"
    "wire_bytes marshal rc = Int32ToBytes (4 + int (length hdr) + int (length (body_bytes rc))) @ Int32ToBytes (int (length hdr)) @
       hdr @ body_bytes rc"
proof -
  obtain rc1 hdr where c: "makeCustomHeaderToNet rc = Some rc1" "marshal (json_part rc1) = Some hdr" "hdr \<noteq> []"
      "unmarshal hdr = Inr (json_part rc1)" "4 + int (length hdr) + int (length (body_bytes rc)) \<le> mx"
    using assms(1) by (auto simp: sendable_def split: option.splits)
  have ids: "to_int32 x = x" if "0 \<le> x" "x \<le> mx" for x
    using that assms(2) by (intro to_int32_id in_int_nonneg) simp_all
  have "to_int32 (int (length hdr)) = int (length hdr)" "to_int32 (4 + int (length hdr)) = 4 + int (length hdr)"
    "to_int32 (int (length (body_bytes rc))) = int (length (body_bytes rc))"
    "to_int32 (4 + int (length hdr) + int (length (body_bytes rc))) = 4 + int (length hdr) + int (length (body_bytes rc))"
    using c(5) by (intro ids; simp)+
  then have "wire_bytes marshal rc = Int32ToBytes (4 + int (length hdr) + int (length (body_bytes rc))) @
      Int32ToBytes (int (length hdr)) @ hdr @ body_bytes rc"
    using c makeCustomHeaderToNet_body [OF c(1)]
    by (auto simp: wire_bytes_def RemotingCommand_Bytes_def EncodeHeader_def buildHeader_def body_bytes_def Let_def
        split: option.splits)
  with c that show thesis by blast
qed

lemma decode_wire_bytes:
  assumes "sendable marshal unmarshal mx rc" and "mx < 2 ^ 31"
  shows "DecodeRemotingCommand unmarshal (wire_bytes marshal rc) = Some (Inr (on_the_wire rc))"
proof -
  obtain rc1 hdr where c: "makeCustomHeaderToNet rc = Some rc1" "hdr \<noteq> []" "unmarshal hdr = Inr (json_part rc1)"
    "4 + int (length hdr) + int (length (body_bytes rc)) \<le> mx"
    "wire_bytes marshal rc = Int32ToBytes (4 + int (length hdr) + int (length (body_bytes rc))) @ Int32ToBytes (int (length hdr)) @
       hdr @ body_bytes rc"
    using wire_bytes_sendable [OF assms] by blast
  have ids: "in_int 32 x" if "0 \<le> x" "x \<le> mx" for x
    using that assms(2) by (intro in_int_nonneg) simp_all
  have r: "BytesToInt32 (Int32ToBytes x) = x" "to_int32 x = x" if "0 \<le> x" "x \<le> mx" for x
    using i32.dec_enc_self [of x] to_int32_id ids [OF that] by simp_all
  have "BytesToInt32 (Int32ToBytes (4 + int (length hdr) + int (length (body_bytes rc)))) = 4 + int (length hdr) + int (length (body_bytes rc))"
    "BytesToInt32 (Int32ToBytes (int (length hdr))) = int (length hdr)"
    "to_int32 (int (length (body_bytes rc))) = int (length (body_bytes rc))"
    using c(4) by (intro r; simp)+
  with c show ?thesis
    by (simp add: DecodeRemotingCommand_def decodeRemotingCommand_def on_the_wire_def)
qed


lemma length_field_Int32: "0 \<le> x \<Longrightarrow> x < 2 ^ 32 \<Longrightarrow> length_field (Int32ToBytes x @ bs) = nat x"
  by (simp add: length_field_def Int32ToBytes_def be_val_be_bytes)

lemma split_frames_wire:
  assumes "\<forall>rc \<in> set cs. sendable marshal unmarshal mx rc" and "mx < 2 ^ 31"
  shows "split_frames mx (concat (map (wire_bytes marshal) cs)) = (map (wire_bytes marshal) cs, [], False)"
  using assms(1)
proof (induction cs)
  case Nil
  then show ?case by (simp add: split_frames.simps [of _ "[]"])
next
  case (Cons rc cs)
  let ?f = "wire_bytes marshal rc" and ?r = "concat (map (wire_bytes marshal) cs)"
  obtain hdr where h: "hdr \<noteq> []" "4 + int (length hdr) + int (length (body_bytes rc)) \<le> mx"
    "?f = Int32ToBytes (4 + int (length hdr) + int (length (body_bytes rc))) @ Int32ToBytes (int (length hdr)) @
       hdr @ body_bytes rc"
    using wire_bytes_sendable [OF _ assms(2)] Cons.prems by (metis list.set_intros(1))
  have "length_field (?f @ ?r) = nat (4 + int (length hdr) + int (length (body_bytes rc)))"
    unfolding h(3) append_assoc using h(2) assms(2) by (intro length_field_Int32) simp_all
  then have n: "4 + length_field (?f @ ?r) = length ?f" "int (length_field (?f @ ?r)) \<le> mx" "4 < length ?f"
    using h by auto
  show ?case
    using Cons n by (subst split_frames.simps) simp
qed

text \<open>
  C35 (roundtrip): commands that are sent one after the other over a connection arrive as they were sent, each with its
  custom header in the extension fields: whatever reads the network makes of the bytes, \<open>Pack\<close> and \<open>DecodeRemotingCommand\<close>
  give exactly the commands in their order. The JSON package decodes the headers it encoded.
\<close>

theorem commands_over_the_wire:
  assumes "four_bytes lfpfa" and "maxFrameLength lfpfa < 2 ^ 31" and "waiting lfpfa addr = []"
    and "\<forall>buffer. (addr, buffer) \<in> set rs \<longrightarrow> int (length buffer) \<le> maxFrameLength lfpfa"
    and "\<forall>rc \<in> set cs. sendable marshal unmarshal (maxFrameLength lfpfa) rc"
    and "received addr rs = concat (map (wire_bytes marshal) cs)"
  shows "\<exists>ds lfpfa1. Pack_all lfpfa rs = Some (Returned (ds, lfpfa1)) \<and>
    map (DecodeRemotingCommand unmarshal) (delivered addr ds) = map (\<lambda>rc. Some (Inr (on_the_wire rc))) cs \<and>
    \<not> failed addr ds \<and> waiting lfpfa1 addr = []"
proof -
  have "\<exists>ds lfpfa1. Pack_all lfpfa rs = Some (Returned (ds, lfpfa1)) \<and> delivered addr ds = map (wire_bytes marshal) cs \<and>
      \<not> failed addr ds \<and> waiting lfpfa1 addr = []"
    using assms split_frames_wire [OF assms(5,2)]
    by (intro reads_from) (simp_all add: split_frames.simps [of _ "[]"])
  moreover have "map (DecodeRemotingCommand unmarshal) (map (wire_bytes marshal) cs) = map (\<lambda>rc. Some (Inr (on_the_wire rc))) cs"
    using assms(2,5) decode_wire_bytes by auto
  ultimately show ?thesis by metis
qed

definition example_command :: RemotingCommand where
  "example_command = fst (CreateRequestCommand [] 10 (Some [(''Topic'', StringF ''t'')]) 0)"

definition example_marshal :: "CommandJson \<Rightarrow> byte list option" where
  "example_marshal j = (if j = json_part (on_the_wire example_command) then Some [123, 125] else None)"

definition example_unmarshal :: "byte list \<Rightarrow> error + CommandJson" where
  "example_unmarshal bs = (if bs = [123, 125] then Inr (json_part (on_the_wire example_command)) else Inl ''invalid JSON'')"

lemma json_part_with_json [simp]: "json_part (with_json j b) = j"
  by (simp add: json_part_def with_json_def)

lemma example_sendable:
  "sendable example_marshal example_unmarshal 8388608 example_command"
  "wire_bytes example_marshal example_command = [0, 0, 0, 6, 0, 0, 0, 2, 123, 125]"
proof -
  obtain rc1 where rc1: "makeCustomHeaderToNet example_command = Some rc1" "rc_Body rc1 = None"
    by (simp add: makeCustomHeaderToNet_def example_command_def CreateRequestCommand_def setCMDVersion_def CurrentVersion_def
        empty_command_def inrcOpaque_def Let_def)
  have b: "body_bytes example_command = []" using makeCustomHeaderToNet_body [OF rc1(1)] rc1(2) by (simp add: body_bytes_def)
  have m: "example_marshal (json_part rc1) = Some [123, 125]" "example_unmarshal [123, 125] = Inr (json_part rc1)"
    by (simp_all add: example_marshal_def example_unmarshal_def on_the_wire_def rc1)
  show "sendable example_marshal example_unmarshal 8388608 example_command"
    by (simp add: sendable_def rc1 m b)
  show "wire_bytes example_marshal example_command = [0, 0, 0, 6, 0, 0, 0, 2, 123, 125]"
    by (simp add: wire_bytes_def RemotingCommand_Bytes_def EncodeHeader_def buildHeader_def rc1 m Int32ToBytes_def
        to_int32_def eval_nat_numeral)
qed

theorem commands_over_the_wire_witness:
  "\<exists>ds lfpfa1. Pack_all (NewLengthFieldFragmentationAssemblage 8388608 0 4 0)
      [(''a'', [0, 0]), (''b'', [9]), (''a'', [0, 6, 0, 0, 0, 2, 123, 125])] = Some (Returned (ds, lfpfa1)) \<and>
    map (DecodeRemotingCommand example_unmarshal) (delivered ''a'' ds) = [Some (Inr (on_the_wire example_command))] \<and>
    \<not> failed ''a'' ds \<and> waiting lfpfa1 ''a'' = []"
  using commands_over_the_wire [where lfpfa = "NewLengthFieldFragmentationAssemblage 8388608 0 4 0" and addr = "''a''"
      and rs = "[(''a'', [0, 0]), (''b'', [9]), (''a'', [0, 6, 0, 0, 0, 2, 123, 125])]" and cs = "[example_command]"
      and marshal = example_marshal and unmarshal = example_unmarshal] example_sendable
  by (simp add: NewLengthFieldFragmentationAssemblage_def four_bytes_def waiting_def received_def)

section \<open>Packets that stop the process\<close>

text \<open>
  \<open>DecodeRemotingCommand\<close> panics for exactly the packets with more than eight bytes whose header length is negative, and
  it runs in a goroutine that does not recover: one such packet ends the process.
\<close>

lemma decode_dies_iff:
  "DecodeRemotingCommand unmarshal buf = None \<longleftrightarrow> 8 < length buf \<and> BytesToInt32 (take 4 (drop 4 buf)) < 0"
  by (auto simp: DecodeRemotingCommand_def Let_def)


end
