(* ===== verification/RemotingM.thy ===== *)
theory RemotingM
  imports CommandM
begin

text \<open>
  Requests and responses over connections: \<open>stgnet/remoting/base_remoting_achieve.go\<close>, \<open>response_future.go\<close> and the parts of
  \<open>default_remoting_client.go\<close> that choose the address of a registry.

  A goroutine runs in sections, each of which holds at most one lock; what the program does is a step relation on the
  table of responses, the futures (referred to by numbers), the callers of \<open>invokeSync\<close>, the goroutines that handle a response and
  the scan for requests that are too old. The processors of requests and the hooks are arguments: functions on the
  state \<open>'w\<close> of the rest of the program. Log output is not modelled.
\<close>

section \<open>Futures\<close>

type_synonym future_ptr = nat

text \<open>A callback is referred to by a number; \<open>rf_done\<close> says whether there is a channel.\<close>

record ResponseFuture =
  rf_responseCommand :: "RemotingCommand option"
  rf_sendRequestOK :: bool
  rf_opaque :: int
  rf_timeoutMillis :: int
  rf_invokeCallback :: "nat option"
  rf_beginTimestamp :: int
  rf_done :: bool

text \<open>\<open>now\<close> is \<open>time.Now().Unix() * 1000\<close>.\<close>

definition newResponseFuture :: "int \<Rightarrow> int \<Rightarrow> int \<Rightarrow> ResponseFuture" where
  "newResponseFuture now opaque timeoutMillis =
     \<lparr>rf_responseCommand = None, rf_sendRequestOK = False, rf_opaque = opaque, rf_timeoutMillis = timeoutMillis,
      rf_invokeCallback = None, rf_beginTimestamp = now, rf_done = False\<rparr>"

definition ResponseFuture_IsTimeout :: "int \<Rightarrow> ResponseFuture \<Rightarrow> bool" where
  "ResponseFuture_IsTimeout now responseFuture \<longleftrightarrow>
     to_int64 (now - rf_beginTimestamp responseFuture) > rf_timeoutMillis responseFuture"

section \<open>Requests\<close>

text \<open>
  A processor returns a response or none, and an error or none. A hook sees the request before, and the request and the response after it.
\<close>

type_synonym 'w processor = "RemotingCommand \<Rightarrow> 'w \<Rightarrow> (RemotingCommand option \<times> error option) \<times> 'w"

record 'w hook =
  DoBeforeRequest :: "RemotingCommand \<Rightarrow> 'w \<Rightarrow> 'w"
  DoAfterResponse :: "RemotingCommand \<Rightarrow> RemotingCommand option \<Rightarrow> 'w \<Rightarrow> 'w"

record 'w BaseRemotingAchieve =
  rpcHook :: "'w hook option"
  defaultRequestProcessor :: "'w processor option"
  processorTable :: "int \<rightharpoonup> 'w processor"

definition RegisterProcessor :: "int \<Rightarrow> 'w processor \<Rightarrow> 'w BaseRemotingAchieve \<Rightarrow> 'w BaseRemotingAchieve" where
  "RegisterProcessor requestCode processor ra = ra\<lparr>processorTable := (processorTable ra)(requestCode \<mapsto> processor)\<rparr>"

definition RegisterDefaultProcessor :: "'w processor \<Rightarrow> 'w BaseRemotingAchieve \<Rightarrow> 'w BaseRemotingAchieve" where
  "RegisterDefaultProcessor processor ra = ra\<lparr>defaultRequestProcessor := Some processor\<rparr>"

definition RegisterRPCHook :: "'w hook \<Rightarrow> 'w BaseRemotingAchieve \<Rightarrow> 'w BaseRemotingAchieve" where
  "RegisterRPCHook h ra = ra\<lparr>rpcHook := Some h\<rparr>"

text \<open>The processor of the request's code, or the default one; and the hook before the request.\<close>

definition processor_for :: "'w BaseRemotingAchieve \<Rightarrow> RemotingCommand \<Rightarrow> 'w processor option" where
  "processor_for ra remotingCommand =
     (case processorTable ra (rc_Code remotingCommand) of Some p \<Rightarrow> Some p | None \<Rightarrow> defaultRequestProcessor ra)"

definition before_request :: "'w BaseRemotingAchieve \<Rightarrow> RemotingCommand \<Rightarrow> 'w \<Rightarrow> 'w" where
  "before_request ra remotingCommand w =
     (case rpcHook ra of Some h \<Rightarrow> DoBeforeRequest h remotingCommand w | None \<Rightarrow> w)"

text \<open>The responses written to the connection, and the state afterwards. A failing write is only logged.\<close>

definition processRequestCommand ::
    "string \<Rightarrow> 'w BaseRemotingAchieve \<Rightarrow> RemotingCommand \<Rightarrow> 'w \<Rightarrow> RemotingCommand list \<times> 'w" where
  "processRequestCommand env ra remotingCommand w =
     (case processor_for ra remotingCommand of
        None \<Rightarrow>
          ([(CreateResponseCommand env net_REQUEST_CODE_NOT_SUPPORTED
               (''request type '' @ FormatInt (rc_Code remotingCommand) @ '' not supported''))
               \<lparr>rc_Opaque := rc_Opaque remotingCommand\<rparr>], w)
      | Some p \<Rightarrow>
          (case p remotingCommand (before_request ra remotingCommand w) of
            ((response, err), w2) \<Rightarrow>
              let w3 = (case rpcHook ra of Some h \<Rightarrow> DoAfterResponse h remotingCommand response w2 | None \<Rightarrow> w2)
              in case err of
                Some e \<Rightarrow> ([(CreateResponseCommand env net_SYSTEM_ERROR e)\<lparr>rc_Opaque := rc_Opaque remotingCommand\<rparr>], w3)
              | None \<Rightarrow>
                  if IsOnewayRPC remotingCommand then ([], w3)
                  else case response of
                    None \<Rightarrow> ([], w3)
                  | Some r \<Rightarrow> ([MarkResponseType (r\<lparr>rc_Opaque := rc_Opaque remotingCommand\<rparr>)], w3)))"

section \<open>The table of responses\<close>

text \<open>
  A caller of \<open>invokeSync\<close> has put its future into the table and sends, waits on the channel, or has returned.
\<close>

datatype caller = Sending | Waiting | Answered "RemotingCommand option" | TimedOut | SendFailed

text \<open>
  A goroutine in \<open>processResponseCommand\<close>: it has the response, has found the future, has deleted its entry, is about to send on
  the channel of the future (which has no buffer), or has ended.
\<close>

datatype handler =
    Arrived RemotingCommand | Found RemotingCommand future_ptr | Deleted RemotingCommand future_ptr
  | Notifying future_ptr | Finished

record remoting =
  responseTable :: "int \<rightharpoonup> future_ptr"
  futures :: "future_ptr \<rightharpoonup> ResponseFuture"
  callers :: "future_ptr \<rightharpoonup> caller"
  handlers :: "nat \<rightharpoonup> handler"
  scan :: "int list option"
  callbacks :: "(future_ptr \<times> RemotingCommand option) list"

definition new_remoting :: remoting where
  "new_remoting = \<lparr>responseTable = Map.empty, futures = Map.empty, callers = Map.empty, handlers = Map.empty, scan = None,
     callbacks = []\<rparr>"

text \<open>\<open>invokeSync\<close> and \<open>invokeAsync\<close> up to the entry in the table.\<close>

definition invokeSync_enter :: "int \<Rightarrow> future_ptr \<Rightarrow> RemotingCommand \<Rightarrow> int \<Rightarrow> remoting \<Rightarrow> remoting" where
  "invokeSync_enter now f request timeoutMillis s =
     s\<lparr>futures := (futures s)(f \<mapsto> (newResponseFuture now (rc_Opaque request) timeoutMillis)\<lparr>rf_done := True\<rparr>),
       responseTable := (responseTable s)(rc_Opaque request \<mapsto> f), callers := (callers s)(f \<mapsto> Sending)\<rparr>"

definition invokeAsync_enter :: "int \<Rightarrow> future_ptr \<Rightarrow> RemotingCommand \<Rightarrow> int \<Rightarrow> nat \<Rightarrow> remoting \<Rightarrow> remoting" where
  "invokeAsync_enter now f request timeoutMillis invokeCallback s =
     s\<lparr>futures := (futures s)(f \<mapsto> (newResponseFuture now (rc_Opaque request) timeoutMillis)\<lparr>rf_invokeCallback := Some invokeCallback\<rparr>),
       responseTable := (responseTable s)(rc_Opaque request \<mapsto> f)\<rparr>"

text \<open>After the request was sent, or was not.\<close>

definition set_sent :: "future_ptr \<Rightarrow> remoting \<Rightarrow> remoting" where
  "set_sent f s = s\<lparr>futures := (futures s)(f := map_option (rf_sendRequestOK_update (\<lambda>_. True)) (futures s f))\<rparr>"

definition invokeSync_sent :: "bool \<Rightarrow> future_ptr \<Rightarrow> remoting \<Rightarrow> remoting" where
  "invokeSync_sent ok f s =
     (if ok then (set_sent f s)\<lparr>callers := (callers s)(f \<mapsto> Waiting)\<rparr> else s\<lparr>callers := (callers s)(f \<mapsto> SendFailed)\<rparr>)"

definition invokeSync_timeout :: "future_ptr \<Rightarrow> remoting \<Rightarrow> remoting" where
  "invokeSync_timeout f s = s\<lparr>callers := (callers s)(f \<mapsto> TimedOut)\<rparr>"

text \<open>The sections of \<open>processResponseCommand\<close>.\<close>

definition response_lookup :: "nat \<Rightarrow> RemotingCommand \<Rightarrow> remoting \<Rightarrow> remoting" where
  "response_lookup g response s =
     s\<lparr>handlers := (handlers s)(g \<mapsto> (case responseTable s (rc_Opaque response) of
         None \<Rightarrow> Finished | Some f \<Rightarrow> Found response f))\<rparr>"

definition response_delete :: "nat \<Rightarrow> RemotingCommand \<Rightarrow> future_ptr \<Rightarrow> remoting \<Rightarrow> remoting" where
  "response_delete g response f s =
     s\<lparr>responseTable := (responseTable s)(rc_Opaque response := None), handlers := (handlers s)(g \<mapsto> Deleted response f)\<rparr>"

definition run_callback :: "future_ptr \<Rightarrow> remoting \<Rightarrow> remoting" where
  "run_callback f s =
     (case futures s f of
        None \<Rightarrow> s
      | Some fu \<Rightarrow>
          (case rf_invokeCallback fu of
             None \<Rightarrow> s
           | Some _ \<Rightarrow> s\<lparr>callbacks := callbacks s @ [(f, rf_responseCommand fu)]\<rparr>))"

definition response_fill :: "nat \<Rightarrow> RemotingCommand \<Rightarrow> future_ptr \<Rightarrow> remoting \<Rightarrow> remoting" where
  "response_fill g response f s =
     (let s1 = run_callback f (s\<lparr>futures := (futures s)(f := map_option (rf_responseCommand_update (\<lambda>_. Some response)) (futures s f))\<rparr>);
          pc = (case futures s f of Some fu \<Rightarrow> if rf_done fu then Notifying f else Finished | None \<Rightarrow> Finished)
      in s1\<lparr>handlers := (handlers s1)(g \<mapsto> pc)\<rparr>)"

text \<open>The goroutine and the caller meet on the channel.\<close>

definition response_done :: "nat \<Rightarrow> future_ptr \<Rightarrow> remoting \<Rightarrow> remoting" where
  "response_done g f s =
     s\<lparr>handlers := (handlers s)(g \<mapsto> Finished),
       callers := (callers s)(f \<mapsto> Answered (Option.bind (futures s f) rf_responseCommand))\<rparr>"

text \<open>
  \<open>scanResponseTable\<close>: the first section collects the requests that are too old (\<open>keys\<close> lists the table), the second deletes them
  and starts their callbacks.
\<close>

definition too_old :: "int \<Rightarrow> ResponseFuture \<Rightarrow> bool" where
  "too_old now fu \<longleftrightarrow> to_int64 (rf_beginTimestamp fu + rf_timeoutMillis fu + 1000) \<le> now"

definition scan_collect :: "int \<Rightarrow> int list \<Rightarrow> remoting \<Rightarrow> remoting" where
  "scan_collect now keys s =
     s\<lparr>scan := Some (filter (\<lambda>seq. case Option.bind (responseTable s seq) (futures s) of
         Some fu \<Rightarrow> too_old now fu | None \<Rightarrow> False) keys)\<rparr>"

definition scan_one :: "int \<Rightarrow> remoting \<Rightarrow> remoting" where
  "scan_one seq s =
     (case responseTable s seq of
        None \<Rightarrow> s
      | Some f \<Rightarrow> run_callback f (s\<lparr>responseTable := (responseTable s)(seq := None)\<rparr>))"

definition scan_delete :: "int list \<Rightarrow> remoting \<Rightarrow> remoting" where
  "scan_delete seqs s = (fold scan_one seqs s)\<lparr>scan := None\<rparr>"

inductive step :: "remoting \<Rightarrow> remoting \<Rightarrow> bool" where
  sync: "futures s f = None \<Longrightarrow> step s (invokeSync_enter now f request t s)"
| async: "futures s f = None \<Longrightarrow> step s (invokeAsync_enter now f request t cb s)"
| sent: "callers s f = Some Sending \<Longrightarrow> step s (invokeSync_sent ok f s)"
| sent_async: "futures s f = Some fu \<Longrightarrow> \<not> rf_done fu \<Longrightarrow> step s (set_sent f s)"
| timeout: "callers s f = Some Waiting \<Longrightarrow> step s (invokeSync_timeout f s)"
| arrive: "handlers s g = None \<Longrightarrow> step s (s\<lparr>handlers := (handlers s)(g \<mapsto> Arrived response)\<rparr>)"
| lookup: "handlers s g = Some (Arrived response) \<Longrightarrow> step s (response_lookup g response s)"
| delete: "handlers s g = Some (Found response f) \<Longrightarrow> step s (response_delete g response f s)"
| fill: "handlers s g = Some (Deleted response f) \<Longrightarrow> step s (response_fill g response f s)"
| meet: "handlers s g = Some (Notifying f) \<Longrightarrow> callers s f = Some Waiting \<Longrightarrow> step s (response_done g f s)"
| collect: "scan s = None \<Longrightarrow> set keys = dom (responseTable s) \<Longrightarrow> distinct keys \<Longrightarrow> step s (scan_collect now keys s)"
| forget: "scan s = Some seqs \<Longrightarrow> step s (scan_delete seqs s)"

section \<open>Responses and their requests\<close>

definition answers :: "remoting \<Rightarrow> future_ptr \<Rightarrow> RemotingCommand \<Rightarrow> bool" where
  "answers s f response \<longleftrightarrow> (\<exists>fu. futures s f = Some fu \<and> rf_opaque fu = rc_Opaque response)"

text \<open>
  Every entry of the table is a future of its key, and every response that is on its way to a future, in it, or handed to a
  caller or a callback, carries the number of the request of that future.
\<close>

definition remoting_inv :: "remoting \<Rightarrow> bool" where
  "remoting_inv s \<longleftrightarrow>
     (\<forall>n f. responseTable s n = Some f \<longrightarrow> (\<exists>fu. futures s f = Some fu \<and> rf_opaque fu = n)) \<and>
     (\<forall>g r f. handlers s g = Some (Found r f) \<or> handlers s g = Some (Deleted r f) \<longrightarrow> answers s f r) \<and>
     (\<forall>g f. handlers s g = Some (Notifying f) \<longrightarrow> (\<exists>fu. futures s f = Some fu \<and> rf_responseCommand fu \<noteq> None)) \<and>
     (\<forall>f fu r. futures s f = Some fu \<longrightarrow> rf_responseCommand fu = Some r \<longrightarrow> rf_opaque fu = rc_Opaque r) \<and>
     (\<forall>f c. callers s f = Some (Answered c) \<longrightarrow> (\<exists>r. c = Some r \<and> answers s f r)) \<and>
     (\<forall>f r. (f, Some r) \<in> set (callbacks s) \<longrightarrow> answers s f r)"

lemma remoting_invD:
  assumes "remoting_inv s"
  shows "responseTable s n = Some f \<Longrightarrow> \<exists>fu. futures s f = Some fu \<and> rf_opaque fu = n"
    and "handlers s g = Some (Found r f) \<Longrightarrow> answers s f r" and "handlers s g = Some (Deleted r f) \<Longrightarrow> answers s f r"
    and "handlers s g = Some (Notifying f) \<Longrightarrow> \<exists>fu. futures s f = Some fu \<and> rf_responseCommand fu \<noteq> None"
    and "futures s f = Some fu \<Longrightarrow> rf_responseCommand fu = Some r \<Longrightarrow> rf_opaque fu = rc_Opaque r"
    and "callers s f = Some (Answered c) \<Longrightarrow> \<exists>r. c = Some r \<and> answers s f r"
    and "(f, Some r) \<in> set (callbacks s) \<Longrightarrow> answers s f r"
  using assms unfolding remoting_inv_def by blast+

lemma run_callback_simps [simp]:
  "responseTable (run_callback f s) = responseTable s" "futures (run_callback f s) = futures s"
  "callers (run_callback f s) = callers s" "handlers (run_callback f s) = handlers s" "scan (run_callback f s) = scan s"
  by (simp_all add: run_callback_def split: option.split)

lemma run_callback_inv:
  assumes "remoting_inv s"
  shows "remoting_inv (run_callback f s)"
proof -
  have "answers s f1 r" if "(f1, Some r) \<in> set (callbacks (run_callback f s))" for f1 r
    using that remoting_invD [OF assms]
    by (auto simp: run_callback_def answers_def split: option.splits)
  with assms show ?thesis unfolding remoting_inv_def answers_def by simp
qed

lemma scan_one_inv: "remoting_inv s \<Longrightarrow> remoting_inv (scan_one seq s)"
proof -
  assume inv: "remoting_inv s"
  then have "remoting_inv (s\<lparr>responseTable := (responseTable s)(seq := None)\<rparr>)"
    unfolding remoting_inv_def answers_def by simp
  with inv show ?thesis by (auto simp: scan_one_def run_callback_inv split: option.split)
qed

lemma remoting_inv_scan [simp]: "remoting_inv (s\<lparr>scan := x\<rparr>) \<longleftrightarrow> remoting_inv s"
  by (simp add: remoting_inv_def answers_def)

lemma scan_delete_inv: "remoting_inv s \<Longrightarrow> remoting_inv (scan_delete seqs s)"
proof -
  have "remoting_inv s \<Longrightarrow> remoting_inv (fold scan_one seqs s)" for s
    by (induction seqs arbitrary: s) (simp_all add: scan_one_inv)
  then show "remoting_inv s \<Longrightarrow> ?thesis" by (simp add: scan_delete_def)
qed

lemma new_future_inv:
  assumes "remoting_inv s" "futures s f = None" "rf_responseCommand fu = None" "rf_opaque fu = n"
  shows "remoting_inv (s\<lparr>futures := (futures s)(f \<mapsto> fu), responseTable := (responseTable s)(n \<mapsto> f)\<rparr>)"
proof -
  have "f1 \<noteq> f" if "futures s f1 = Some x" for f1 x using that assms(2) by auto
  then show ?thesis
    using assms unfolding remoting_inv_def answers_def by (simp, safe; fastforce)
qed

lemma fill_inv:
  assumes "remoting_inv s" "handlers s g = Some (Deleted response f)"
  shows "remoting_inv (response_fill g response f s)"
proof -
  obtain fu where fu: "futures s f = Some fu" "rf_opaque fu = rc_Opaque response"
    using remoting_invD(3) [OF assms] by (auto simp: answers_def)
  let ?s = "s\<lparr>futures := (futures s)(f \<mapsto> fu\<lparr>rf_responseCommand := Some response\<rparr>)\<rparr>"
  have "remoting_inv ?s" using assms(1) fu unfolding remoting_inv_def answers_def by (simp, safe; fastforce)
  then have "remoting_inv (run_callback f ?s)" by (rule run_callback_inv)
  then have "remoting_inv ((run_callback f ?s)\<lparr>handlers := (handlers s)(g \<mapsto> (if rf_done fu then Notifying f else Finished))\<rparr>)"
    unfolding remoting_inv_def answers_def by simp
  then show ?thesis by (simp add: response_fill_def fu Let_def)
qed

lemma set_sent_inv: "remoting_inv s \<Longrightarrow> remoting_inv (set_sent f s)"
proof (cases "futures s f")
  case None
  then have "set_sent f s = s" by (simp add: set_sent_def fun_upd_idem)
  then show "remoting_inv s \<Longrightarrow> ?thesis" by simp
next
  case (Some fu)
  then show "remoting_inv s \<Longrightarrow> ?thesis" unfolding remoting_inv_def answers_def by (simp add: set_sent_def) fastforce
qed

lemma caller_inv:
  assumes "remoting_inv s" "\<And>x. c \<noteq> Answered x"
  shows "remoting_inv (s\<lparr>callers := (callers s)(f \<mapsto> c)\<rparr>)"
  using assms unfolding remoting_inv_def answers_def by simp

lemma handler_inv:
  assumes "remoting_inv s" "c = Finished \<or> c = Arrived r \<or> ((c = Found r f \<or> c = Deleted r f) \<and> answers s f r)"
  shows "remoting_inv (s\<lparr>handlers := (handlers s)(g \<mapsto> c)\<rparr>)"
  using assms unfolding remoting_inv_def answers_def by (elim disjE) auto

lemma step_inv: "step s s1 \<Longrightarrow> remoting_inv s \<Longrightarrow> remoting_inv s1"
proof (induction rule: step.induct)
  case (sync s f now request t)
  then have "remoting_inv (s\<lparr>futures := (futures s)(f \<mapsto> (newResponseFuture now (rc_Opaque request) t)\<lparr>rf_done := True\<rparr>),
      responseTable := (responseTable s)(rc_Opaque request \<mapsto> f)\<rparr>)"
    by (intro new_future_inv) (simp_all add: newResponseFuture_def)
  from caller_inv [OF this, of Sending f] show ?case by (simp add: invokeSync_enter_def)
next
  case (async s f now request t cb)
  then show ?case unfolding invokeAsync_enter_def
    by (intro new_future_inv) (simp_all add: newResponseFuture_def)
next
  case (sent s f ok)
  then show ?case
    using caller_inv [OF set_sent_inv, of s Waiting f f] caller_inv [of s SendFailed f]
    by (simp add: invokeSync_sent_def) (simp add: set_sent_def)
next
  case (timeout s f)
  then show ?case using caller_inv [of s TimedOut f] by (simp add: invokeSync_timeout_def)
next
  case (lookup s g response)
  then show ?case
    using handler_inv [of s Finished response 0 g] handler_inv [of s _ response _ g] remoting_invD(1) [of s "rc_Opaque response"]
    by (auto simp: response_lookup_def answers_def split: option.splits)
next
  case (delete s g response f)
  then have "remoting_inv (s\<lparr>handlers := (handlers s)(g \<mapsto> Deleted response f)\<rparr>)"
    by (intro handler_inv [where r = response and f = f]) (simp_all add: remoting_invD(2))
  then show ?case unfolding remoting_inv_def answers_def by (simp add: response_delete_def)
next
  case (meet s g f)
  obtain fu r where "futures s f = Some fu" "rf_responseCommand fu = Some r"
    using remoting_invD(4) [OF meet(3,1)] by auto
  moreover have "rf_opaque fu = rc_Opaque r" using remoting_invD(5) [OF meet(3)] calculation by blast
  ultimately show ?case using meet(3) unfolding remoting_inv_def answers_def by (simp add: response_done_def)
next
  case (arrive s g response)
  then show ?case by (intro handler_inv [where r = response]) simp_all
qed (simp_all add: fill_inv scan_delete_inv scan_collect_def set_sent_inv)

definition remoting_reach :: "remoting \<Rightarrow> bool" where
  "remoting_reach s \<longleftrightarrow> step\<^sup>*\<^sup>* new_remoting s"

lemma remoting_reach_inv: "remoting_reach s \<Longrightarrow> remoting_inv s"
  unfolding remoting_reach_def
proof (induction rule: rtranclp_induct)
  case base
  then show ?case by (simp add: remoting_inv_def new_remoting_def)
qed (rule step_inv)

text \<open>
  C36 (safety): however the goroutines interleave, and whatever responses arrive, the response \<open>invokeSync\<close> returns and the
  response a callback of \<open>invokeAsync\<close> gets carry the number of the request they were made for.
\<close>

theorem response_matches_request:
  assumes "remoting_reach s"
  shows "(callers s f = Some (Answered c) \<longrightarrow> (\<exists>r fu. c = Some r \<and> futures s f = Some fu \<and> rc_Opaque r = rf_opaque fu)) \<and>
    ((f, Some r) \<in> set (callbacks s) \<longrightarrow> (\<exists>fu. futures s f = Some fu \<and> rc_Opaque r = rf_opaque fu))"
  using remoting_invD(6,7) [OF remoting_reach_inv [OF assms]] by (fastforce simp: answers_def)

section \<open>Runs\<close>

text \<open>A synchronous call with number \<open>n\<close>, and the response that is handled for it.\<close>

definition numbered :: "int \<Rightarrow> RemotingCommand" where
  "numbered n = empty_command\<lparr>rc_Opaque := n\<rparr>"

definition called :: "int \<Rightarrow> remoting" where
  "called n = invokeSync_sent True 0 (invokeSync_enter 0 0 (numbered n) 3000 new_remoting)"

definition arrived :: "nat \<Rightarrow> RemotingCommand \<Rightarrow> remoting \<Rightarrow> remoting" where
  "arrived g r s = s\<lparr>handlers := (handlers s)(g \<mapsto> Arrived r)\<rparr>"

definition notifying :: "nat \<Rightarrow> RemotingCommand \<Rightarrow> future_ptr \<Rightarrow> remoting \<Rightarrow> remoting" where
  "notifying g r f s = response_fill g r f (response_delete g r f (response_lookup g r (arrived g r s)))"

lemma called_reach: "remoting_reach (called n)"
proof -
  let ?s = "invokeSync_enter 0 0 (numbered n) 3000 new_remoting"
  have "step new_remoting ?s" by (rule step.sync) (simp add: new_remoting_def)
  moreover have "step ?s (called n)" unfolding called_def by (rule step.sent) (simp add: invokeSync_enter_def)
  ultimately show ?thesis unfolding remoting_reach_def by (meson converse_rtranclp_into_rtranclp rtranclp.rtrancl_refl)
qed

lemma notifying_steps:
  assumes "remoting_reach s" and "handlers s g = None" and "responseTable s (rc_Opaque r) = Some f"
  shows "remoting_reach (notifying g r f s)"
proof -
  have 1: "step s (arrived g r s)" unfolding arrived_def by (rule step.arrive) (rule assms)
  have 2: "step (arrived g r s) (response_lookup g r (arrived g r s))" by (rule step.lookup) (simp add: arrived_def)
  have 3: "step (response_lookup g r (arrived g r s)) (response_delete g r f (response_lookup g r (arrived g r s)))"
    by (rule step.delete) (simp add: arrived_def response_lookup_def assms(3))
  have 4: "step (response_delete g r f (response_lookup g r (arrived g r s))) (notifying g r f s)"
    unfolding notifying_def by (rule step.fill) (simp add: response_delete_def)
  from assms(1) 1 2 3 4 show ?thesis
    unfolding remoting_reach_def by (meson rtranclp.rtrancl_into_rtrancl)
qed

lemmas run_defs = called_def notifying_def arrived_def numbered_def new_remoting_def invokeSync_enter_def invokeSync_sent_def
  set_sent_def newResponseFuture_def response_lookup_def response_delete_def response_fill_def response_done_def
  run_callback_def invokeSync_timeout_def invokeAsync_enter_def empty_command_def

lemma answered_reach: "remoting_reach (response_done 0 0 (notifying 0 (numbered n) 0 (called n)))"
proof -
  have "remoting_reach (notifying 0 (numbered n) 0 (called n))"
    by (intro notifying_steps called_reach) (simp_all add: run_defs)
  moreover have "step (notifying 0 (numbered n) 0 (called n)) (response_done 0 0 (notifying 0 (numbered n) 0 (called n)))"
    by (rule step.meet) (simp_all add: run_defs)
  ultimately show ?thesis unfolding remoting_reach_def by (rule rtranclp.rtrancl_into_rtrancl)
qed

theorem response_matches_request_witness:
  "callers (response_done 0 0 (notifying 0 (numbered 7) 0 (called 7))) 0 = Some (Answered (Some (numbered 7))) \<and>
   (\<exists>fu. futures (response_done 0 0 (notifying 0 (numbered 7) 0 (called 7))) 0 = Some fu \<and> rf_opaque fu = 7)"
proof -
  let ?s = "response_done 0 0 (notifying 0 (numbered 7) 0 (called 7))"
  have c: "callers ?s 0 = Some (Answered (Some (numbered 7)))" by (simp add: run_defs)
  with response_matches_request [OF answered_reach, of 7 0 "Some (numbered 7)"]
  have "\<exists>fu. futures ?s 0 = Some fu \<and> rc_Opaque (numbered 7) = rf_opaque fu" by auto
  with c show ?thesis by (auto simp: numbered_def empty_command_def)
qed

section \<open>Responses that come too late\<close>

lemma timed_out_stays:
  assumes "step s s1" "callers s f = Some TimedOut" "handlers s g = Some (Notifying f)" "futures s f \<noteq> None"
  shows "callers s1 f = Some TimedOut \<and> handlers s1 g = Some (Notifying f) \<and> futures s1 f \<noteq> None"
proof -
  have "callers (fold scan_one seqs s) = callers s \<and> handlers (fold scan_one seqs s) = handlers s \<and>
      futures (fold scan_one seqs s) = futures s" for seqs s
    by (induction seqs arbitrary: s) (simp_all add: scan_one_def split: option.split)
  with assms show ?thesis
    by (induction rule: step.induct)
      (auto simp: invokeSync_enter_def invokeAsync_enter_def invokeSync_sent_def set_sent_def invokeSync_timeout_def
        response_lookup_def response_delete_def response_fill_def response_done_def scan_collect_def scan_delete_def Let_def)
qed

text \<open>
  a response that finds the future of a request whose caller has given up waiting blocks its goroutine for ever: the channel
  has no buffer and nobody receives from it again.
\<close>

lemma late_response_blocks:
  assumes "remoting_reach s" and "callers s f = Some TimedOut" and "handlers s g = Some (Notifying f)" and "step\<^sup>*\<^sup>* s s1"
  shows "handlers s1 g = Some (Notifying f)"
proof -
  have "futures s f \<noteq> None" using remoting_invD(4) [OF remoting_reach_inv [OF assms(1)] assms(3)] by auto
  with assms(4,2,3) have "callers s1 f = Some TimedOut \<and> handlers s1 g = Some (Notifying f) \<and> futures s1 f \<noteq> None"
    by (induction rule: rtranclp_induct) (auto dest: timed_out_stays)
  then show ?thesis by simp
qed

lemma late_response_blocks_witness:
  "remoting_reach (notifying 0 (numbered 7) 0 (invokeSync_timeout 0 (called 7))) \<and>
   (\<forall>s1. step\<^sup>*\<^sup>* (notifying 0 (numbered 7) 0 (invokeSync_timeout 0 (called 7))) s1 \<longrightarrow> handlers s1 0 = Some (Notifying 0))"
proof -
  have "step (called 7) (invokeSync_timeout 0 (called 7))" by (rule step.timeout) (simp add: run_defs)
  with called_reach [of 7] have "remoting_reach (invokeSync_timeout 0 (called 7))"
    unfolding remoting_reach_def by (rule rtranclp.rtrancl_into_rtrancl)
  then have r: "remoting_reach (notifying 0 (numbered 7) 0 (invokeSync_timeout 0 (called 7)))"
    by (rule notifying_steps) (simp_all add: run_defs)
  from late_response_blocks [OF this, of 0 0] show ?thesis using r by (simp add: run_defs)
qed

text \<open>
  Two responses with the number of the same request run its callback twice when both look it up before one of them deletes it.
\<close>

lemma callback_runs_twice:
  "\<exists>s. remoting_reach s \<and> map fst (callbacks s) = [0, 0]"
proof -
  let ?r = "numbered 7"
  let ?s0 = "invokeAsync_enter 0 0 ?r 3000 1 new_remoting"
  let ?s1 = "arrived 0 ?r ?s0" let ?s2 = "arrived 1 ?r ?s1"
  let ?s3 = "response_lookup 0 ?r ?s2" let ?s4 = "response_lookup 1 ?r ?s3"
  let ?s5 = "response_delete 0 ?r 0 ?s4" let ?s6 = "response_fill 0 ?r 0 ?s5"
  let ?s7 = "response_delete 1 ?r 0 ?s6" let ?s8 = "response_fill 1 ?r 0 ?s7"
  have "step new_remoting ?s0" by (rule step.async) (simp add: new_remoting_def)
  moreover have "step ?s0 ?s1" unfolding arrived_def by (rule step.arrive) (simp add: run_defs)
  moreover have "step ?s1 ?s2" unfolding arrived_def by (rule step.arrive) (simp add: run_defs)
  moreover have "step ?s2 ?s3" by (rule step.lookup) (simp add: run_defs)
  moreover have "step ?s3 ?s4" by (rule step.lookup) (simp add: run_defs)
  moreover have "step ?s4 ?s5" by (rule step.delete) (simp add: run_defs)
  moreover have "step ?s5 ?s6" by (rule step.fill) (simp add: run_defs)
  moreover have "step ?s6 ?s7" by (rule step.delete) (simp add: run_defs)
  moreover have "step ?s7 ?s8" by (rule step.fill) (simp add: run_defs)
  ultimately have "remoting_reach ?s8"
    unfolding remoting_reach_def by (meson converse_rtranclp_into_rtranclp rtranclp.rtrancl_refl)
  moreover have "map fst (callbacks ?s8) = [0, 0]" by (simp add: run_defs)
  ultimately show ?thesis by (intro exI conjI)
qed

section \<open>Answers to requests\<close>

lemma IsResponseType_or: "IsResponseType (MarkResponseType r)"
  by (simp add: IsResponseType_def MarkResponseType_def rpcType_def and_one_eq or_one_eq Let_def) presburger

lemma MarkResponseType_opaque [simp]: "rc_Opaque (MarkResponseType r) = rc_Opaque r"
  by (simp add: MarkResponseType_def)

lemma CreateResponseCommand_type: "IsResponseType ((CreateResponseCommand env code remark)\<lparr>rc_Opaque := n\<rparr>)"
  using IsResponseType_or [of "empty_command\<lparr>rc_Code := code, rc_Remark := remark, rc_ExtFields := Some [],
      rc_Language := LanguageCode_ToString GOLANG\<rparr>"]
  by (simp add: CreateResponseCommand_def setCMDVersion_def CurrentVersion_def IsResponseType_def)

lemma processRequestCommand_sent:
  assumes "processRequestCommand env ra request w = (sent, w1)"
  shows "\<forall>r \<in> set sent. RemotingCommand_Type r = RESPONSE_COMMAND \<and> rc_Opaque r = rc_Opaque request" and "length sent \<le> 1"
    and "sent = [] \<longleftrightarrow> (\<exists>p resp w2. processor_for ra request = Some p \<and>
       p request (before_request ra request w) = ((resp, None), w2) \<and> (IsOnewayRPC request \<or> resp = None))"
proof -
  have "(\<forall>r \<in> set sent. RemotingCommand_Type r = RESPONSE_COMMAND \<and> rc_Opaque r = rc_Opaque request) \<and> length sent \<le> 1 \<and>
    (sent = [] \<longleftrightarrow> (\<exists>p resp w2. processor_for ra request = Some p \<and>
       p request (before_request ra request w) = ((resp, None), w2) \<and> (IsOnewayRPC request \<or> resp = None)))"
  proof (cases "processor_for ra request")
    case None
    with assms show ?thesis
      by (auto simp: processRequestCommand_def RemotingCommand_Type_def CreateResponseCommand_type)
  next
    case (Some p)
    obtain resp err w2 where "p request (before_request ra request w) = ((resp, err), w2)" by (metis prod.collapse)
    with assms Some show ?thesis
      by (auto simp: processRequestCommand_def RemotingCommand_Type_def CreateResponseCommand_type IsResponseType_or
          Let_def split: option.splits if_splits)
  qed
  then show "\<forall>r \<in> set sent. RemotingCommand_Type r = RESPONSE_COMMAND \<and> rc_Opaque r = rc_Opaque request" and "length sent \<le> 1"
    and "sent = [] \<longleftrightarrow> (\<exists>p resp w2. processor_for ra request = Some p \<and>
       p request (before_request ra request w) = ((resp, None), w2) \<and> (IsOnewayRPC request \<or> resp = None))"
    by simp_all
qed

text \<open>
  C37 (type): every command \<open>processRequestCommand\<close> sends is a response with the number of the request, at most one is sent, and none
  exactly if the processor reports no error and either the request is one-way or there is no response.
\<close>

theorem request_answered:
  assumes "processRequestCommand env ra request w = (sent, w1)"
  shows "(\<forall>r \<in> set sent. RemotingCommand_Type r = RESPONSE_COMMAND \<and> rc_Opaque r = rc_Opaque request) \<and> length sent \<le> 1 \<and>
    (sent = [] \<longleftrightarrow> (\<exists>p resp w2. processor_for ra request = Some p \<and>
       p request (before_request ra request w) = ((resp, None), w2) \<and> (IsOnewayRPC request \<or> resp = None)))"
  using processRequestCommand_sent [OF assms] by blast

theorem request_answered_witness:
  "\<exists>sent. processRequestCommand [] \<lparr>rpcHook = None, defaultRequestProcessor = None, processorTable = Map.empty\<rparr> (numbered 7) () = (sent, ()) \<and>
     (\<forall>r \<in> set sent. RemotingCommand_Type r = RESPONSE_COMMAND \<and> rc_Opaque r = 7) \<and> length sent = 1"
proof -
  obtain sent where s: "processRequestCommand [] \<lparr>rpcHook = None, defaultRequestProcessor = None, processorTable = Map.empty\<rparr>
      (numbered 7) () = (sent, ())" by (metis surj_pair unit.exhaust)
  from request_answered [OF this] have "\<forall>r \<in> set sent. RemotingCommand_Type r = RESPONSE_COMMAND \<and> rc_Opaque r = 7"
    "length sent \<le> 1" "sent \<noteq> []" by (auto simp: processor_for_def numbered_def empty_command_def)
  moreover have "length sent = 1" using calculation by (cases sent) auto
  ultimately show ?thesis using s by blast
qed

section \<open>A call from one end to the other\<close>

text \<open>
  \<open>processMessageReceived\<close> on a packet, run by goroutine \<open>g\<close> when it is a response: the responses sent, and the states of the processors and of the
  table. \<open>None\<close> is the panic of the decoder; a packet that cannot be decoded is only logged.
\<close>

definition processMessageReceived ::
    "(byte list \<Rightarrow> error + CommandJson) \<Rightarrow> string \<Rightarrow> 'w BaseRemotingAchieve \<Rightarrow> nat \<Rightarrow> byte list \<Rightarrow> 'w \<Rightarrow> remoting
     \<Rightarrow> (RemotingCommand list \<times> 'w \<times> remoting) option" where
  "processMessageReceived unmarshal env ra g buf w s =
     (case DecodeRemotingCommand unmarshal buf of
        None \<Rightarrow> None
      | Some (Inl err) \<Rightarrow> Some ([], w, s)
      | Some (Inr remotingCommand) \<Rightarrow>
          (case RemotingCommand_Type remotingCommand of
             REQUEST_COMMAND \<Rightarrow>
               (case processRequestCommand env ra remotingCommand w of (sent, w1) \<Rightarrow> Some (sent, w1, s))
           | RESPONSE_COMMAND \<Rightarrow> Some ([], w, s\<lparr>handlers := (handlers s)(g \<mapsto> Arrived remotingCommand)\<rparr>)))"

lemma on_the_wire_fields:
  "makeCustomHeaderToNet rc \<noteq> None \<Longrightarrow>
     rc_Opaque (on_the_wire rc) = rc_Opaque rc \<and> rc_Flag (on_the_wire rc) = rc_Flag rc"
  by (auto simp: on_the_wire_def makeCustomHeaderToNet_def with_json_def json_part_def Let_def split: option.splits if_splits)

lemma sendable_header: "sendable marshal unmarshal mx rc \<Longrightarrow> makeCustomHeaderToNet rc \<noteq> None"
  by (auto simp: sendable_def split: option.splits)

lemma RemotingCommand_Type_wire:
  "sendable marshal unmarshal mx rc \<Longrightarrow> RemotingCommand_Type (on_the_wire rc) = RemotingCommand_Type rc"
  by (simp add: RemotingCommand_Type_def IsResponseType_def on_the_wire_fields sendable_header)

text \<open>
  The next section of the goroutine \<open>g\<close> that handles a response, when it can run. A run of \<open>g\<close> counts its sections; between them
  any step of the rest of the program may happen that leaves the call alone: it is not a section of \<open>g\<close>, and it changes neither the
  entry of the call's number, nor its future, nor its caller. What that leaves out is another response with the same number, another request
  with it, the scan that forgets the call and the caller that gives up waiting.
\<close>

definition handler_step :: "nat \<Rightarrow> remoting \<Rightarrow> remoting option" where
  "handler_step g s =
     (case handlers s g of
        Some (Arrived response) \<Rightarrow> Some (response_lookup g response s)
      | Some (Found response f) \<Rightarrow> Some (response_delete g response f s)
      | Some (Deleted response f) \<Rightarrow> Some (response_fill g response f s)
      | Some (Notifying f) \<Rightarrow> if callers s f = Some Waiting then Some (response_done g f s) else None
      | _ \<Rightarrow> None)"

definition leaves_call :: "nat \<Rightarrow> future_ptr \<Rightarrow> int \<Rightarrow> remoting \<Rightarrow> remoting \<Rightarrow> bool" where
  "leaves_call g f n s s1 \<longleftrightarrow> handlers s1 g = handlers s g \<and> responseTable s1 n = responseTable s n \<and>
     futures s1 f = futures s f \<and> callers s1 f = callers s f"

inductive handler_run :: "nat \<Rightarrow> future_ptr \<Rightarrow> int \<Rightarrow> nat \<Rightarrow> remoting \<Rightarrow> remoting \<Rightarrow> bool" for g f n where
  nothing: "handler_run g f n 0 s s"
| own: "handler_run g f n k s s1 \<Longrightarrow> handler_step g s1 = Some s2 \<Longrightarrow> handler_run g f n (Suc k) s s2"
| others: "handler_run g f n k s s1 \<Longrightarrow> step s1 s2 \<Longrightarrow> leaves_call g f n s1 s2 \<Longrightarrow> handler_run g f n k s s2"

lemma handler_step_is_step: "handler_step g s = Some s1 \<Longrightarrow> step s s1"
  by (auto simp: handler_step_def split: option.splits handler.splits if_splits
      intro: step.lookup step.delete step.fill step.meet)

text \<open>Where the goroutine and the call are after \<open>k\<close> sections.\<close>

definition call_at :: "nat \<Rightarrow> future_ptr \<Rightarrow> RemotingCommand \<Rightarrow> nat \<Rightarrow> remoting \<Rightarrow> bool" where
  "call_at g f r k s \<longleftrightarrow>
     (\<exists>fu. futures s f = Some fu \<and> rf_done fu \<and>
        (k = 0 \<and> handlers s g = Some (Arrived r) \<and> responseTable s (rc_Opaque r) = Some f \<and> callers s f = Some Waiting \<or>
         k = 1 \<and> handlers s g = Some (Found r f) \<and> callers s f = Some Waiting \<or>
         k = 2 \<and> handlers s g = Some (Deleted r f) \<and> callers s f = Some Waiting \<or>
         k = 3 \<and> handlers s g = Some (Notifying f) \<and> rf_responseCommand fu = Some r \<and> callers s f = Some Waiting \<or>
         k = 4 \<and> handlers s g = Some Finished \<and> callers s f = Some (Answered (Some r))))"

lemma call_at_own:
  assumes "call_at g f r k s" and "handler_step g s = Some s1"
  shows "call_at g f r (Suc k) s1"
  using assms
  by (auto simp: call_at_def handler_step_def response_lookup_def response_delete_def response_fill_def response_done_def Let_def
      split: if_splits)

lemma call_at_others: "call_at g f r k s \<Longrightarrow> leaves_call g f (rc_Opaque r) s s1 \<Longrightarrow> call_at g f r k s1"
  by (auto simp: call_at_def leaves_call_def)

lemma handler_run_at:
  "handler_run g f n k s s1 \<Longrightarrow> n = rc_Opaque r \<Longrightarrow> call_at g f r 0 s \<Longrightarrow> call_at g f r k s1"
  by (induction rule: handler_run.induct) (auto intro: call_at_own call_at_others)

lemma call_at_runs:
  assumes "call_at g f r k s"
  shows "k \<le> 4" and "k < 4 \<Longrightarrow> handler_step g s \<noteq> None" and "k < 4 \<Longrightarrow> callers s f = Some Waiting"
    and "k = 4 \<Longrightarrow> callers s f = Some (Answered (Some r)) \<and> handlers s g = Some Finished"
  using assms by (auto simp: call_at_def handler_step_def)

text \<open>
  C38 (liveness): when a server has answered the request of a waiting caller and the packet of the answer arrives, then however the
  sections of the goroutine that handles it interleave with steps of the rest of the program that leave the call alone, the goroutine can
  always run on until its fourth section, and with this section the caller returns that answer and the goroutine ends.
\<close>

theorem call_returns:
  assumes "sendable marshal unmarshal mx request" and "mx < 2 ^ 31" and "RemotingCommand_Type request = REQUEST_COMMAND"
    and "processMessageReceived unmarshal env ra g1 (wire_bytes marshal request) w s1 = Some ([response], w1, s2)"
    and "sendable marshal unmarshal mx response"
    and "callers s f = Some Waiting" and "responseTable s (rc_Opaque request) = Some f" and "futures s f = Some fu" and "rf_done fu"
  shows "\<exists>s3. processMessageReceived unmarshal env rb g (wire_bytes marshal response) wc s = Some ([], wc, s3) \<and>
    (\<forall>k s4. handler_run g f (rc_Opaque request) k s3 s4 \<longrightarrow> k \<le> 4 \<and>
       (k < 4 \<longrightarrow> callers s4 f = Some Waiting \<and> handler_step g s4 \<noteq> None) \<and>
       (k = 4 \<longrightarrow> callers s4 f = Some (Answered (Some (on_the_wire response))) \<and> handlers s4 g = Some Finished))"
proof -
  have "processRequestCommand env ra (on_the_wire request) w = ([response], w1)"
    using assms(3,4) decode_wire_bytes [OF assms(1,2)] RemotingCommand_Type_wire [OF assms(1)]
    by (simp add: processMessageReceived_def split: prod.splits)
  from processRequestCommand_sent(1) [OF this] have t: "RemotingCommand_Type response = RESPONSE_COMMAND"
    "rc_Opaque response = rc_Opaque request"
    using on_the_wire_fields [OF sendable_header [OF assms(1)]] by auto
  let ?a = "on_the_wire response"
  have o: "rc_Opaque ?a = rc_Opaque request" using on_the_wire_fields [OF sendable_header [OF assms(5)]] t by simp
  let ?s3 = "s\<lparr>handlers := (handlers s)(g \<mapsto> Arrived ?a)\<rparr>"
  have r: "processMessageReceived unmarshal env rb g (wire_bytes marshal response) wc s = Some ([], wc, ?s3)"
    using decode_wire_bytes [OF assms(5,2)] RemotingCommand_Type_wire [OF assms(5)] t by (simp add: processMessageReceived_def)
  have start: "call_at g f ?a 0 ?s3" using assms(6-9) by (simp add: call_at_def o)
  have at: "call_at g f ?a k s4" if "handler_run g f (rc_Opaque request) k ?s3 s4" for k s4
    using handler_run_at [OF that o [symmetric] start] .
  have "k \<le> 4 \<and> (k < 4 \<longrightarrow> callers s4 f = Some Waiting \<and> handler_step g s4 \<noteq> None) \<and>
      (k = 4 \<longrightarrow> callers s4 f = Some (Answered (Some ?a)) \<and> handlers s4 g = Some Finished)"
    if "handler_run g f (rc_Opaque request) k ?s3 s4" for k s4
    using call_at_runs [OF at [OF that]] by blast
  with r show ?thesis by blast
qed

definition bare_server :: "unit BaseRemotingAchieve" where
  "bare_server = \<lparr>rpcHook = None, defaultRequestProcessor = None, processorTable = Map.empty\<rparr>"

definition refusal :: "RemotingCommand" where
  "refusal = (CreateResponseCommand [] net_REQUEST_CODE_NOT_SUPPORTED (''request type '' @ FormatInt 0 @ '' not supported''))\<lparr>rc_Opaque := 7\<rparr>"

definition two_marshal :: "CommandJson \<Rightarrow> byte list option" where
  "two_marshal j = (if j = json_part (numbered 7) then Some [1] else if j = json_part refusal then Some [2] else None)"

definition two_unmarshal :: "byte list \<Rightarrow> error + CommandJson" where
  "two_unmarshal bs = (if bs = [1] then Inr (json_part (numbered 7)) else if bs = [2] then Inr (json_part refusal) else Inl ''invalid JSON'')"

lemma two_sendable:
  "sendable two_marshal two_unmarshal 100 (numbered 7)" "sendable two_marshal two_unmarshal 100 refusal"
  "on_the_wire (numbered 7) = numbered 7" "on_the_wire refusal = refusal" "RemotingCommand_Type (numbered 7) = REQUEST_COMMAND"
proof -
  have m: "makeCustomHeaderToNet (numbered 7) = Some (numbered 7)" "makeCustomHeaderToNet refusal = Some refusal"
    and b: "body_bytes (numbered 7) = []" "body_bytes refusal = []" and c: "rc_CustomHeader refusal = None" "rc_Body refusal = None"
    by (simp_all add: makeCustomHeaderToNet_def numbered_def empty_command_def refusal_def CreateResponseCommand_def
        setCMDVersion_def CurrentVersion_def MarkResponseType_def body_bytes_def)
  have d: "json_part (numbered 7) \<noteq> json_part refusal"
    by (simp add: json_part_def numbered_def empty_command_def refusal_def CreateResponseCommand_def
        setCMDVersion_def CurrentVersion_def MarkResponseType_def net_REQUEST_CODE_NOT_SUPPORTED_def)
  show "sendable two_marshal two_unmarshal 100 (numbered 7)" "sendable two_marshal two_unmarshal 100 refusal"
    using d d [symmetric] by (simp_all add: sendable_def m b two_marshal_def two_unmarshal_def)
  show "on_the_wire (numbered 7) = numbered 7"
    by (simp add: on_the_wire_def m b) (simp add: with_json_def json_part_def numbered_def empty_command_def)
  have "with_json (json_part refusal) None = refusal"
    using c by (cases refusal) (simp add: with_json_def json_part_def)
  then show "on_the_wire refusal = refusal" by (simp add: on_the_wire_def m b)
  show "RemotingCommand_Type (numbered 7) = REQUEST_COMMAND"
    by (simp add: RemotingCommand_Type_def IsResponseType_def numbered_def empty_command_def rpcType_def)
qed

theorem call_returns_witness:
  "\<exists>s3 s4. processMessageReceived two_unmarshal [] bare_server 0 (wire_bytes two_marshal refusal) () (called 7) = Some ([], (), s3) \<and>
     handler_run 0 0 7 4 s3 s4 \<and> callers s4 0 = Some (Answered (Some refusal)) \<and> handlers s4 0 = Some Finished"
proof -
  have d: "DecodeRemotingCommand two_unmarshal (wire_bytes two_marshal (numbered 7)) = Some (Inr (numbered 7))"
    using decode_wire_bytes [OF two_sendable(1)] two_sendable(3) by simp
  have p: "processMessageReceived two_unmarshal [] bare_server 0 (wire_bytes two_marshal (numbered 7)) () new_remoting =
      Some ([refusal], (), new_remoting)"
    by (simp add: processMessageReceived_def d two_sendable(5)) (simp add: processRequestCommand_def processor_for_def bare_server_def
        numbered_def empty_command_def refusal_def)
  have "callers (called 7) 0 = Some Waiting" "responseTable (called 7) (rc_Opaque (numbered 7)) = Some 0"
    "\<exists>fu. futures (called 7) 0 = Some fu \<and> rf_done fu" and n: "rc_Opaque (numbered 7) = 7" by (simp_all add: run_defs)
  then obtain s3 where r: "processMessageReceived two_unmarshal [] bare_server 0 (wire_bytes two_marshal refusal) () (called 7) = Some ([], (), s3)"
    and run: "\<And>k s4. handler_run 0 0 7 k s3 s4 \<Longrightarrow> k < 4 \<Longrightarrow> handler_step 0 s4 \<noteq> None"
    and ended: "\<And>s4. handler_run 0 0 7 4 s3 s4 \<Longrightarrow> callers s4 0 = Some (Answered (Some refusal)) \<and> handlers s4 0 = Some Finished"
    using call_returns [OF two_sendable(1) _ two_sendable(5) p two_sendable(2), of "called 7" 0 _ bare_server 0 "()"] two_sendable(4)
    unfolding n by auto
  have "\<exists>s4. handler_run 0 0 7 k s3 s4" if "k \<le> 4" for k
    using that
  proof (induction k)
    case (Suc k)
    then show ?case using run by (meson Suc_le_lessD handler_run.own less_imp_le option.exhaust)
  qed (blast intro: handler_run.nothing)
  then show ?thesis using r ended by blast
qed

section \<open>Addresses of registries\<close>

record DefalutRemotingClient =
  namesrvAddrList :: "string list"
  namesrvAddrChoosed :: string
  namesrvIndex :: int

definition NewDefalutRemotingClient :: DefalutRemotingClient where
  "NewDefalutRemotingClient = \<lparr>namesrvAddrList = [], namesrvAddrChoosed = [], namesrvIndex = 0\<rparr>"

text \<open>The flag \<open>repeat\<close> is declared before both loops and is never cleared.\<close>

fun add_addrs :: "bool \<Rightarrow> string list \<Rightarrow> string list \<Rightarrow> string list" where
  "add_addrs rep [] al = al"
| "add_addrs rep (addr # addrs) al =
     (let rep1 = (rep \<or> addr \<in> set al) in add_addrs rep1 addrs (if rep1 then al else al @ [addr]))"

definition UpdateNameServerAddressList :: "string list \<Rightarrow> DefalutRemotingClient \<Rightarrow> DefalutRemotingClient" where
  "UpdateNameServerAddressList addrs rc = rc\<lparr>namesrvAddrList := add_addrs False addrs (namesrvAddrList rc)\<rparr>"

text \<open>The index has 32 bits without sign. \<open>namesrvAddrChoosed\<close> is never set, and the loop leaves in its first turn.\<close>

definition chooseNameseverAddr :: "DefalutRemotingClient \<Rightarrow> string \<times> DefalutRemotingClient" where
  "chooseNameseverAddr rc =
     (if namesrvAddrChoosed rc \<noteq> [] then (namesrvAddrChoosed rc, rc)
      else let nlen = take_bit 32 (int (length (namesrvAddrList rc)))
      in if 0 < nlen
         then let i = take_bit 32 (namesrvIndex rc + 1)
              in (namesrvAddrList rc ! nat (i mod nlen), rc\<lparr>namesrvIndex := i\<rparr>)
         else ([], rc))"

text \<open>An address that is known already ends the update: the addresses after it are left out.\<close>

lemma add_addrs_repeated: "add_addrs True addrs al = al"
  by (induction addrs) auto

text \<open>
  \<open>UpdateNameServerAddressList\<close> adds the addresses before the first one that is known already, or repeated, and
  leaves out every address from there on, new ones too.
\<close>

lemma update_stops_at_known:
  "\<exists>added rest. addrs = added @ rest \<and> namesrvAddrList (UpdateNameServerAddressList addrs rc) = namesrvAddrList rc @ added \<and>
     distinct added \<and> set added \<inter> set (namesrvAddrList rc) = {} \<and>
     (rest = [] \<or> hd rest \<in> set (namesrvAddrList rc @ added))"
proof -
  have "\<exists>added rest. addrs = added @ rest \<and> add_addrs False addrs al = al @ added \<and> distinct added \<and>
      set added \<inter> set al = {} \<and> (rest = [] \<or> hd rest \<in> set (al @ added))" for al
  proof (induction addrs arbitrary: al)
    case (Cons a addrs)
    show ?case
    proof (cases "a \<in> set al")
      case True
      then show ?thesis by (intro exI [of _ "[]"] exI [of _ "a # addrs"]) (simp add: add_addrs_repeated)
    next
      case False
      obtain added rest where "addrs = added @ rest" "add_addrs False addrs (al @ [a]) = (al @ [a]) @ added" "distinct added"
        "set added \<inter> set (al @ [a]) = {}" "rest = [] \<or> hd rest \<in> set ((al @ [a]) @ added)"
        using Cons.IH [of "al @ [a]"] by blast
      with False show ?thesis by (intro exI [of _ "a # added"] exI [of _ rest]) auto
    qed
  qed simp
  then show ?thesis by (simp add: UpdateNameServerAddressList_def)
qed

text \<open>The addresses are chosen in turn.\<close>

fun choose_times :: "nat \<Rightarrow> DefalutRemotingClient \<Rightarrow> DefalutRemotingClient" where
  "choose_times 0 rc = rc"
| "choose_times (Suc k) rc = choose_times k (snd (chooseNameseverAddr rc))"

lemma choose_times_index:
  assumes "namesrvAddrChoosed rc = []" "namesrvAddrList rc \<noteq> []" "length (namesrvAddrList rc) < 2 ^ 32"
    "0 \<le> namesrvIndex rc" "namesrvIndex rc + int k < 2 ^ 32"
  shows "choose_times k rc = rc\<lparr>namesrvIndex := namesrvIndex rc + int k\<rparr>"
  using assms
proof (induction k arbitrary: rc)
  case (Suc k)
  have n: "take_bit 32 (int (length (namesrvAddrList rc))) = int (length (namesrvAddrList rc))"
    using Suc.prems(3) by (intro take_bit_int_eq_self) simp_all
  have i: "take_bit 32 (namesrvIndex rc + 1) = namesrvIndex rc + 1" using Suc.prems(4,5) by (intro take_bit_int_eq_self) simp_all
  have "snd (chooseNameseverAddr rc) = rc\<lparr>namesrvIndex := namesrvIndex rc + 1\<rparr>"
    using Suc.prems(1,2) by (simp add: chooseNameseverAddr_def n i Let_def)
  with Suc show ?case by simp
qed simp

lemma chosen_in_turn:
  assumes "namesrvAddrChoosed rc = []" "namesrvAddrList rc \<noteq> []" "length (namesrvAddrList rc) < 2 ^ 32"
    "namesrvIndex rc = 0" "Suc k < 2 ^ 32"
  shows "fst (chooseNameseverAddr (choose_times k rc)) = namesrvAddrList rc ! (Suc k mod length (namesrvAddrList rc))"
proof -
  have n: "take_bit 32 (int (length (namesrvAddrList rc))) = int (length (namesrvAddrList rc))"
    using assms(3) by (intro take_bit_int_eq_self) simp_all
  have i: "take_bit 32 (int k + 1) = int (Suc k)" using assms(5) by (subst take_bit_int_eq_self) simp_all
  have "choose_times k rc = rc\<lparr>namesrvIndex := int k\<rparr>" using choose_times_index [of rc k] assms by simp
  with assms(1,2) show ?thesis
    by (simp add: chooseNameseverAddr_def n i Let_def nat_mod_as_int del: of_nat_Suc)
qed

end
