(* ===== verification/BootstrapM.thy ===== *)
theory BootstrapM
  imports Prelude
begin

text \<open>
  The connections of a client or server: \<open>stgnet/netm/bootstrap.go\<close> and \<open>stgnet/netm/context.go\<close>.

  A context is referred to by a number, so that the table and the goroutines that read and write share it. What the network does is an
  argument: the outcome of dialling, reading and writing. The calls of the context listener are recorded in the
  order of the code (those for a new connection run in a goroutine of their own); the handlers of received data are part of the
  remoting layer. Times are in nanoseconds; a context that was never read or written has the zero time. Log output is not modelled.
\<close>

type_synonym ctx_ptr = nat

record DefaultContext =
  ctx_addr :: string
  ctx_localAddr :: string
  ctx_lastOptTime :: "int option"
  ctx_isClosed :: bool

datatype event = OnContextConnect ctx_ptr | OnContextClose ctx_ptr | OnContextError ctx_ptr | OnContextIdle ctx_ptr

record Bootstrap =
  contextTable :: "string \<rightharpoonup> ctx_ptr"
  contexts :: "ctx_ptr \<rightharpoonup> DefaultContext"
  contextListener :: bool
  bs_idle :: int
  bs_running :: bool
  grRunning :: bool
  events :: "event list"

definition NewBootstrap :: Bootstrap where
  "NewBootstrap = \<lparr>contextTable = Map.empty, contexts = Map.empty, contextListener = False, bs_idle = 0, bs_running = False,
     grRunning = True, events = []\<rparr>"

definition RegisterContextListener :: "Bootstrap \<Rightarrow> Bootstrap" where
  "RegisterContextListener bootstrap = bootstrap\<lparr>contextListener := True\<rparr>"

section \<open>Notifications\<close>

definition newDefaultContext :: "string \<Rightarrow> string \<Rightarrow> DefaultContext" where
  "newDefaultContext addr localAddr = \<lparr>ctx_addr = addr, ctx_localAddr = localAddr, ctx_lastOptTime = None, ctx_isClosed = False\<rparr>"

definition notify :: "event \<Rightarrow> Bootstrap \<Rightarrow> Bootstrap" where
  "notify e bootstrap = (if contextListener bootstrap then bootstrap\<lparr>events := events bootstrap @ [e]\<rparr> else bootstrap)"

definition bs_remove :: "ctx_ptr \<Rightarrow> Bootstrap \<Rightarrow> Bootstrap" where
  "bs_remove c bootstrap =
     (case contexts bootstrap c of
        None \<Rightarrow> bootstrap
      | Some ctx \<Rightarrow> bootstrap\<lparr>contextTable := (contextTable bootstrap)(ctx_addr ctx := None)\<rparr>)"

definition onContextClose :: "ctx_ptr \<Rightarrow> Bootstrap \<Rightarrow> Bootstrap" where
  "onContextClose c bootstrap = notify (OnContextClose c) (bs_remove c bootstrap)"

definition onContextError :: "ctx_ptr \<Rightarrow> Bootstrap \<Rightarrow> Bootstrap" where
  "onContextError c bootstrap = notify (OnContextError c) (bs_remove c bootstrap)"

definition onContextIdle :: "ctx_ptr \<Rightarrow> Bootstrap \<Rightarrow> Bootstrap" where
  "onContextIdle c bootstrap = notify (OnContextIdle c) (bs_remove c bootstrap)"

definition onContextConnect :: "ctx_ptr \<Rightarrow> Bootstrap \<Rightarrow> Bootstrap" where
  "onContextConnect c bootstrap = notify (OnContextConnect c) bootstrap"

section \<open>Contexts\<close>

definition set_ctx :: "ctx_ptr \<Rightarrow> (DefaultContext \<Rightarrow> DefaultContext) \<Rightarrow> Bootstrap \<Rightarrow> Bootstrap" where
  "set_ctx c f bootstrap = bootstrap\<lparr>contexts := (contexts bootstrap)(c := map_option f (contexts bootstrap c))\<rparr>"

definition Context_Close :: "ctx_ptr \<Rightarrow> Bootstrap \<Rightarrow> Bootstrap" where
  "Context_Close c bootstrap =
     (case contexts bootstrap c of
        None \<Rightarrow> bootstrap
      | Some ctx \<Rightarrow>
          if ctx_isClosed ctx then bootstrap
          else set_ctx c (ctx_isClosed_update (\<lambda>_. True)) (onContextClose c bootstrap))"

definition onError :: "bool \<Rightarrow> ctx_ptr \<Rightarrow> Bootstrap \<Rightarrow> Bootstrap" where
  "onError is_EOF c bootstrap =
     set_ctx c (ctx_isClosed_update (\<lambda>_. True)) (if is_EOF then onContextClose c bootstrap else onContextError c bootstrap)"

text \<open>\<open>err\<close> is the outcome of the read or write: \<open>Some True\<close> for the end of the stream, \<open>Some False\<close> for another error.\<close>

definition Context_ReadWrite :: "int \<Rightarrow> bool option \<Rightarrow> ctx_ptr \<Rightarrow> Bootstrap \<Rightarrow> Bootstrap" where
  "Context_ReadWrite now err c bootstrap =
     (let b1 = (case err of None \<Rightarrow> bootstrap | Some is_EOF \<Rightarrow> onError is_EOF c bootstrap)
      in set_ctx c (ctx_lastOptTime_update (\<lambda>_. Some now)) b1)"

text \<open>The seconds since the last operation: the time since the zero time is more than a duration can hold, which is cut to its largest value.\<close>

definition Context_idle_seconds :: "int \<Rightarrow> DefaultContext \<Rightarrow> int" where
  "Context_idle_seconds now ctx =
     (case ctx_lastOptTime ctx of None \<Rightarrow> (2 ^ 63 - 1) sdiv 1000000000 | Some t \<Rightarrow> (now - t) sdiv 1000000000)"

section \<open>The table\<close>

definition HasConnect :: "string \<Rightarrow> Bootstrap \<Rightarrow> bool" where
  "HasConnect addr bootstrap \<longleftrightarrow> contextTable bootstrap addr \<noteq> None"

definition Bootstrap_Context :: "string \<Rightarrow> Bootstrap \<Rightarrow> ctx_ptr option" where
  "Bootstrap_Context addr bootstrap = contextTable bootstrap addr"

text \<open>A new context \<open>c\<close> under \<open>key\<close>, with its goroutine and the notification.\<close>

definition enter_context :: "string \<Rightarrow> ctx_ptr \<Rightarrow> DefaultContext \<Rightarrow> Bootstrap \<Rightarrow> Bootstrap" where
  "enter_context key c ctx bootstrap =
     (let b1 = bootstrap\<lparr>contexts := (contexts bootstrap)(c \<mapsto> ctx), contextTable := (contextTable bootstrap)(key \<mapsto> c)\<rparr>
      in if grRunning b1 then onContextConnect c b1 else b1)"

text \<open>One accepted connection in the loop of \<open>Sync\<close>.\<close>

definition Sync_accept :: "ctx_ptr \<Rightarrow> string \<Rightarrow> string \<Rightarrow> Bootstrap \<Rightarrow> Bootstrap" where
  "Sync_accept c remoteAddr localAddr bootstrap = enter_context remoteAddr c (newDefaultContext remoteAddr localAddr) bootstrap"

text \<open>\<open>dial\<close> is the outcome of connecting: an error or the local address. \<open>c\<close> is a fresh number.\<close>

definition ConnectJoinAddrAndReturn :: "ctx_ptr \<Rightarrow> string \<Rightarrow> error + string \<Rightarrow> Bootstrap \<Rightarrow> (error + ctx_ptr) \<times> Bootstrap" where
  "ConnectJoinAddrAndReturn c addr dial bootstrap =
     (case contextTable bootstrap addr of
        Some ctx \<Rightarrow> (Inr ctx, bootstrap)
      | None \<Rightarrow>
          (case dial of
             Inl e \<Rightarrow> (Inl e, bootstrap)
           | Inr localAddr \<Rightarrow> (Inr c, enter_context addr c (newDefaultContext addr localAddr) bootstrap)))"

definition NewRandomConnect :: "ctx_ptr \<Rightarrow> string \<Rightarrow> error + string \<Rightarrow> Bootstrap \<Rightarrow> (error + ctx_ptr) \<times> Bootstrap" where
  "NewRandomConnect c sraddr dial bootstrap =
     (case dial of
        Inl e \<Rightarrow> (Inl e, bootstrap)
      | Inr localAddr \<Rightarrow> (Inr c, enter_context localAddr c (newDefaultContext sraddr localAddr) bootstrap))"

definition Disconnect :: "string \<Rightarrow> Bootstrap \<Rightarrow> Bootstrap" where
  "Disconnect addr bootstrap =
     (case contextTable bootstrap addr of Some c \<Rightarrow> Context_Close c bootstrap | None \<Rightarrow> bootstrap)"

text \<open>\<open>order\<close> lists the contexts of the table as the range over the copied map visits them.\<close>

definition Bootstrap_Shutdown :: "ctx_ptr list \<Rightarrow> Bootstrap \<Rightarrow> Bootstrap" where
  "Bootstrap_Shutdown order bootstrap =
     fold Context_Close order (bootstrap\<lparr>bs_running := False, contextTable := Map.empty\<rparr>)"

definition Bootstrap_Write :: "int \<Rightarrow> string \<Rightarrow> bool option \<Rightarrow> Bootstrap \<Rightarrow> error option \<times> Bootstrap" where
  "Bootstrap_Write now addr err bootstrap =
     (case contextTable bootstrap addr of
        None \<Rightarrow> (Some (''not found connect '' @ addr), bootstrap)
      | Some c \<Rightarrow> (case err of None \<Rightarrow> None | Some _ \<Rightarrow> Some ''write'', Context_ReadWrite now err c bootstrap))"

text \<open>\<open>order\<close> lists the addresses of the table as the range visits them; the contexts are collected first and removed afterwards.\<close>

definition scanIdleContextTable :: "int \<Rightarrow> string list \<Rightarrow> int \<Rightarrow> Bootstrap \<Rightarrow> Bootstrap" where
  "scanIdleContextTable now order idle bootstrap =
     fold onContextIdle
       (concat (map (\<lambda>addr. case contextTable bootstrap addr of
            None \<Rightarrow> []
          | Some c \<Rightarrow> (case contexts bootstrap c of
                None \<Rightarrow> []
              | Some ctx \<Rightarrow> if Context_idle_seconds now ctx \<ge> idle then [c] else [])) order))
       bootstrap"

section \<open>What the table holds\<close>

text \<open>The operations in any order, but for \<open>NewRandomConnect\<close>.\<close>

inductive conn_step :: "Bootstrap \<Rightarrow> Bootstrap \<Rightarrow> bool" where
  listen: "conn_step b (RegisterContextListener b)"
| accept: "contexts b c = None \<Longrightarrow> conn_step b (Sync_accept c remoteAddr localAddr b)"
| connect: "contexts b c = None \<Longrightarrow> conn_step b (snd (ConnectJoinAddrAndReturn c addr dial b))"
| close: "conn_step b (Context_Close c b)"
| disconnect: "conn_step b (Disconnect addr b)"
| use: "contexts b c = Some ctx \<Longrightarrow> \<not> ctx_isClosed ctx \<Longrightarrow> conn_step b (Context_ReadWrite now err c b)"
| idle: "set order = dom (contextTable b) \<Longrightarrow> distinct order \<Longrightarrow> conn_step b (scanIdleContextTable now order limit b)"
| shutdown: "set order = ran (contextTable b) \<Longrightarrow> conn_step b (Bootstrap_Shutdown order b)"

definition conn_reach :: "Bootstrap \<Rightarrow> bool" where
  "conn_reach b \<longleftrightarrow> conn_step\<^sup>*\<^sup>* NewBootstrap b"

definition table_open :: "Bootstrap \<Rightarrow> bool" where
  "table_open b \<longleftrightarrow>
     (\<forall>addr c. contextTable b addr = Some c \<longrightarrow> (\<exists>ctx. contexts b c = Some ctx \<and> ctx_addr ctx = addr \<and> \<not> ctx_isClosed ctx))"

lemma table_openD:
  "table_open b \<Longrightarrow> contextTable b addr = Some c \<Longrightarrow> \<exists>ctx. contexts b c = Some ctx \<and> ctx_addr ctx = addr \<and> \<not> ctx_isClosed ctx"
  by (simp add: table_open_def)

lemma notify_simps [simp]:
  "contextTable (notify e b) = contextTable b" "contexts (notify e b) = contexts b"
  by (simp_all add: notify_def)

lemma set_ctx_simps [simp]:
  "contextTable (set_ctx c f b) = contextTable b" "contexts (set_ctx c f b) = (contexts b)(c := map_option f (contexts b c))"
  by (simp_all add: set_ctx_def)

lemma bs_remove_contexts [simp]: "contexts (bs_remove c b) = contexts b"
  by (simp add: bs_remove_def split: option.split)

lemma bs_remove_table:
  "contextTable (bs_remove c b) = (case contexts b c of None \<Rightarrow> contextTable b
     | Some ctx \<Rightarrow> (contextTable b)(ctx_addr ctx := None))"
  by (simp add: bs_remove_def split: option.split)

lemmas on_defs = onContextClose_def onContextError_def onContextIdle_def onContextConnect_def

lemma table_open_cong: "contextTable b1 = contextTable b \<Longrightarrow> contexts b1 = contexts b \<Longrightarrow> table_open b1 = table_open b"
  by (simp add: table_open_def)

lemma remove_open: "table_open b \<Longrightarrow> table_open (notify e (bs_remove c b))"
  by (auto simp: table_open_def bs_remove_table split: option.splits)

lemma enter_context_simps [simp]:
  "contextTable (enter_context key c ctx b) = (contextTable b)(key \<mapsto> c)"
  "contexts (enter_context key c ctx b) = (contexts b)(c \<mapsto> ctx)"
  by (simp_all add: enter_context_def onContextConnect_def Let_def)

text \<open>A context that was removed from the table may be closed.\<close>

lemma remove_then_change:
  assumes "table_open b"
  shows "table_open (set_ctx c f (notify e (bs_remove c b)))"
proof -
  have "contextTable (bs_remove c b) addr \<noteq> Some c" for addr
    using assms by (auto simp: bs_remove_table dest!: table_openD split: option.splits)
  then show ?thesis using remove_open [OF assms, of e c] by (auto simp: table_open_def)
qed

lemma close_open: "table_open b \<Longrightarrow> table_open (Context_Close c b)"
  using remove_then_change by (auto simp: Context_Close_def onContextClose_def split: option.split)

lemma enter_open:
  assumes "table_open b" "contexts b c = None" "ctx_addr ctx = key" "\<not> ctx_isClosed ctx"
  shows "table_open (enter_context key c ctx b)"
proof -
  have "contextTable b addr \<noteq> Some c" for addr using assms(1,2) by (auto dest!: table_openD)
  with assms show ?thesis by (auto simp: table_open_def)
qed

lemma readwrite_open:
  assumes "table_open b"
  shows "table_open (Context_ReadWrite now err c b)"
proof (cases err)
  case None
  with assms show ?thesis
    unfolding table_open_def [of "Context_ReadWrite now err c b"] by (auto simp: Context_ReadWrite_def dest!: table_openD)
next
  case (Some eof)
  have "set_ctx c f (set_ctx c g b) = set_ctx c (\<lambda>x. f (g x)) b" for f g b
    by (simp add: set_ctx_def option.map_comp comp_def)
  with Some show ?thesis
    using remove_then_change [OF assms] by (auto simp: Context_ReadWrite_def onError_def on_defs)
qed

lemma fold_open:
  assumes "table_open b" "\<And>c b. table_open b \<Longrightarrow> table_open (f c b)"
  shows "table_open (fold f cs b)"
  using assms by (induction cs arbitrary: b) simp_all

text \<open>
  C39 (invariant): without \<open>NewRandomConnect\<close>, every entry of the table of connections is an open connection under its own address,
  whatever the order of accepting, connecting, reading, writing, closing, idle scans and shutting down.
\<close>

theorem table_holds_open_connections:
  assumes "conn_reach b" and "contextTable b addr = Some c"
  shows "\<exists>ctx. contexts b c = Some ctx \<and> ctx_addr ctx = addr \<and> \<not> ctx_isClosed ctx"
proof -
  have step: "conn_step b b1 \<Longrightarrow> table_open b \<Longrightarrow> table_open b1" for b b1
  proof (induction rule: conn_step.induct)
    case (shutdown order b)
    have "table_open (b\<lparr>bs_running := False, contextTable := Map.empty\<rparr>)" by (simp add: table_open_def)
    then show ?case unfolding Bootstrap_Shutdown_def by (rule fold_open) (rule close_open)
  next
    case (idle order b now limit)
    then show ?case unfolding scanIdleContextTable_def onContextIdle_def by (intro fold_open remove_open) simp_all
  next
    case (listen b)
    then show ?case by (simp add: RegisterContextListener_def table_open_def)
  next
    case (accept b c remoteAddr localAddr)
    then show ?case unfolding Sync_accept_def by (intro enter_open) (simp_all add: newDefaultContext_def)
  next
    case (connect b c addr dial)
    then show ?case
      using enter_open [of b c "newDefaultContext addr _" addr]
      by (simp add: ConnectJoinAddrAndReturn_def newDefaultContext_def split: option.split sum.split)
  next
    case (disconnect b addr)
    then show ?case by (simp add: Disconnect_def close_open split: option.split)
  qed (simp_all add: close_open readwrite_open)
  have "conn_step\<^sup>*\<^sup>* b0 b \<Longrightarrow> table_open b0 \<Longrightarrow> table_open b" for b0 b
    by (induction rule: rtranclp_induct) (auto intro: step)
  then have "table_open b" using assms(1) by (auto simp: conn_reach_def NewBootstrap_def table_open_def)
  with assms(2) show ?thesis by (auto simp: table_open_def)
qed

theorem table_holds_open_connections_witness:
  "contextTable (snd (ConnectJoinAddrAndReturn 0 ''s:1'' (Inr ''l:9'') NewBootstrap)) ''s:1'' = Some 0 \<and>
   (\<exists>ctx. contexts (snd (ConnectJoinAddrAndReturn 0 ''s:1'' (Inr ''l:9'') NewBootstrap)) 0 = Some ctx \<and> ctx_addr ctx = ''s:1'' \<and>
      \<not> ctx_isClosed ctx)"
proof -
  let ?b = "snd (ConnectJoinAddrAndReturn 0 ''s:1'' (Inr ''l:9'') NewBootstrap)"
  have "conn_reach ?b" unfolding conn_reach_def
    by (rule r_into_rtranclp, rule conn_step.connect) (simp add: NewBootstrap_def)
  moreover have "contextTable ?b ''s:1'' = Some 0"
    by (simp add: ConnectJoinAddrAndReturn_def NewBootstrap_def)
  ultimately show ?thesis using table_holds_open_connections by blast
qed

section \<open>Connections the table loses or keeps wrongly\<close>

text \<open>
  A connection made by \<open>NewRandomConnect\<close> is entered under its local address but removed under the remote one: closing it
  leaves its entry in the table and removes the entry of the connection to the same server.
\<close>

lemma random_connect_close:
  assumes "localAddr \<noteq> sraddr" and "NewRandomConnect c sraddr (Inr localAddr) b = (Inr c1, b1)"
  shows "contextTable (Context_Close c1 b1) localAddr = Some c1" and "contextTable (Context_Close c1 b1) sraddr = None"
    and "map_option ctx_isClosed (contexts (Context_Close c1 b1) c1) = Some True"
proof -
  have b1: "b1 = enter_context localAddr c1 (newDefaultContext sraddr localAddr) b" using assms(2) by (auto simp: NewRandomConnect_def)
  have "contexts b1 c1 = Some (newDefaultContext sraddr localAddr)" "contextTable b1 localAddr = Some c1" by (simp_all add: b1)
  then show "contextTable (Context_Close c1 b1) localAddr = Some c1" "contextTable (Context_Close c1 b1) sraddr = None"
    "map_option ctx_isClosed (contexts (Context_Close c1 b1) c1) = Some True"
    using assms(1) by (simp_all add: Context_Close_def onContextClose_def bs_remove_table newDefaultContext_def)
qed

text \<open>An idle connection leaves the table but stays open, and when it fails later it removes the connection that has taken its place.\<close>

lemma idle_connection_stays_open:
  assumes "contexts b c = Some ctx"
  shows "contexts (onContextIdle c b) c = Some ctx" and "contextTable (onContextIdle c b) (ctx_addr ctx) = None"
  using assms by (auto simp: onContextIdle_def bs_remove_table)

lemma old_connection_removes_new:
  assumes "contexts b c = Some ctx" and "contexts b c1 = Some ctx1" and "ctx_addr ctx1 = ctx_addr ctx"
    and "contextTable b (ctx_addr ctx) = Some c1" and "c \<noteq> c1"
  shows "\<not> HasConnect (ctx_addr ctx) (Context_ReadWrite now (Some eof) c b)"
  using assms by (auto simp: HasConnect_def Context_ReadWrite_def onError_def on_defs bs_remove_table)

text \<open>A connection that has not been read or written yet counts as idle for 292 years.\<close>

lemma fresh_connection_is_idle: "Context_idle_seconds now (newDefaultContext addr l) = 9223372036"
  by (simp add: Context_idle_seconds_def newDefaultContext_def signed_divide_int_def)

end
