(* ===== verification/PullHoldM.thy ===== *)
theory PullHoldM
  imports StoreFlow GoStrings GoPackages "HOL-Library.Multiset"
begin

text \<open>
  Pull requests that wait for messages: \<open>stgbroker/pull_request_hold_service.go\<close> and \<open>stgbroker/longpolling\<close>.

  The table maps the key of a queue to its list of requests; the list is referred to from the table only and is never removed, so it is kept
  in the table. The map is the concurrent map of the package, an argument. What a request carries besides its times is its command and
  its connection, here one value \<open>'r\<close>; waking it up starts a goroutine, and the requests woken up are recorded in order. The largest
  offset of a queue comes from a function of the message store, the readings of the clock are arguments.
\<close>

section \<open>Pull requests\<close>

record 'r PullRequest =
  RequestCommand :: 'r
  TimeoutMillis :: int
  SuspendTimestamp :: int
  PullFromThisOffset :: int

definition NewPullRequest :: "'r \<Rightarrow> int \<Rightarrow> int \<Rightarrow> int \<Rightarrow> 'r PullRequest" where
  "NewPullRequest requestCommand timeoutMillis suspendTimestamp pullFromThisOffset =
     \<lparr>RequestCommand = requestCommand, TimeoutMillis = timeoutMillis, SuspendTimestamp = suspendTimestamp,
      PullFromThisOffset = pullFromThisOffset\<rparr>"

type_synonym 'r ManyPullRequest = "'r PullRequest list"

definition AddPullRequest :: "'r PullRequest \<Rightarrow> 'r ManyPullRequest \<Rightarrow> 'r ManyPullRequest" where
  "AddPullRequest pullRequest req = req @ [pullRequest]"

definition AddManyPullRequest :: "'r PullRequest list \<Rightarrow> 'r ManyPullRequest \<Rightarrow> 'r ManyPullRequest" where
  "AddManyPullRequest mpr req = mpr @ req"

definition CloneListAndClear :: "'r ManyPullRequest \<Rightarrow> 'r PullRequest list \<times> 'r ManyPullRequest" where
  "CloneListAndClear req = (req, [])"

section \<open>The service\<close>

type_synonym ('r, 'm) hold_map = "(string, 'r ManyPullRequest, 'm) cmap_ops"

record ('r, 'm) PullRequestHoldService =
  pullRequestTable :: 'm
  woken :: "'r PullRequest list"

definition NewPullRequestHoldService :: "('r, 'm) hold_map \<Rightarrow> ('r, 'm) PullRequestHoldService" where
  "NewPullRequestHoldService M = \<lparr>pullRequestTable = mNew M, woken = []\<rparr>"

definition buildKey :: "string \<Rightarrow> int \<Rightarrow> string" where
  "buildKey topic queueId = topic @ ''@'' @ FormatInt queueId"

text \<open>The list of the key, created when it is missing, gets the request at its end.\<close>

definition SuspendPullRequest ::
    "('r, 'm) hold_map \<Rightarrow> string \<Rightarrow> int \<Rightarrow> 'r PullRequest \<Rightarrow> ('r, 'm) PullRequestHoldService \<Rightarrow> ('r, 'm) PullRequestHoldService" where
  "SuspendPullRequest M topic queueId pullRequest serv =
     (let key = buildKey topic queueId;
          bean = (case mGet M key (pullRequestTable serv) of None \<Rightarrow> [] | Some mpr \<Rightarrow> mpr)
      in serv\<lparr>pullRequestTable := mPut M key (AddPullRequest pullRequest bean) (pullRequestTable serv)\<rparr>)"

definition ExecuteRequestWhenWakeup :: "'r PullRequest \<Rightarrow> ('r, 'm) PullRequestHoldService \<Rightarrow> ('r, 'm) PullRequestHoldService" where
  "ExecuteRequestWhenWakeup pullRequest serv = serv\<lparr>woken := woken serv @ [pullRequest]\<rparr>"

text \<open>
  What \<open>notifyMessageArriving\<close> decides for one request: wake it up, or keep it. \<open>newest\<close> is the largest offset of the queue when the
  request is looked at, \<open>now\<close> the time.
\<close>

definition wakes :: "int \<Rightarrow> int \<Rightarrow> int \<Rightarrow> 'r PullRequest \<Rightarrow> bool" where
  "wakes maxOffset newest now pullRequest \<longleftrightarrow>
     maxOffset > PullFromThisOffset pullRequest \<or> newest > PullFromThisOffset pullRequest \<or>
     now \<ge> to_int64 (SuspendTimestamp pullRequest + TimeoutMillis pullRequest)"

text \<open>
  \<open>notifyMessageArriving\<close> in its two sections: the requests of the key are taken out of the table, and after each was looked at the
  ones kept are put back in front of those that came in between.
\<close>

definition notify_take ::
    "('r, 'm) hold_map \<Rightarrow> string \<Rightarrow> int \<Rightarrow> ('r, 'm) PullRequestHoldService \<Rightarrow> 'r PullRequest list \<times> ('r, 'm) PullRequestHoldService" where
  "notify_take M topic queueId serv =
     (let key = buildKey topic queueId
      in case mGet M key (pullRequestTable serv) of
        None \<Rightarrow> ([], serv)
      | Some mpr \<Rightarrow>
          (case CloneListAndClear mpr of
             (requestList, mpr1) \<Rightarrow> (requestList, serv\<lparr>pullRequestTable := mPut M key mpr1 (pullRequestTable serv)\<rparr>)))"

fun notify_each ::
    "int \<Rightarrow> ('r PullRequest \<times> int \<times> int) list \<Rightarrow> ('r, 'm) PullRequestHoldService \<Rightarrow> 'r PullRequest list \<times> ('r, 'm) PullRequestHoldService" where
  "notify_each maxOffset [] serv = ([], serv)"
| "notify_each maxOffset ((pullRequest, newest, now) # rs) serv =
     (if wakes maxOffset newest now pullRequest
      then notify_each maxOffset rs (ExecuteRequestWhenWakeup pullRequest serv)
      else case notify_each maxOffset rs serv of (replayList, serv1) \<Rightarrow> (pullRequest # replayList, serv1))"

definition notify_back ::
    "('r, 'm) hold_map \<Rightarrow> string \<Rightarrow> int \<Rightarrow> 'r PullRequest list \<Rightarrow> ('r, 'm) PullRequestHoldService \<Rightarrow> ('r, 'm) PullRequestHoldService" where
  "notify_back M topic queueId replayList serv =
     (if replayList = [] then serv
      else let key = buildKey topic queueId;
               mpr = (case mGet M key (pullRequestTable serv) of None \<Rightarrow> [] | Some mpr \<Rightarrow> mpr)
           in serv\<lparr>pullRequestTable := mPut M key (AddManyPullRequest replayList mpr) (pullRequestTable serv)\<rparr>)"

text \<open>The whole of it when nothing comes in between: the store and the clock do not change meanwhile.\<close>

definition notifyMessageArriving ::
    "('r, 'm) hold_map \<Rightarrow> int \<Rightarrow> int \<Rightarrow> string \<Rightarrow> int \<Rightarrow> int \<Rightarrow> ('r, 'm) PullRequestHoldService \<Rightarrow> ('r, 'm) PullRequestHoldService" where
  "notifyMessageArriving M newest now topic queueId maxOffset serv =
     (case notify_take M topic queueId serv of
        (requestList, serv1) \<Rightarrow>
          (case notify_each maxOffset (map (\<lambda>r. (r, newest, now)) requestList) serv1 of
             (replayList, serv2) \<Rightarrow> notify_back M topic queueId replayList serv2))"

text \<open>
  \<open>checkHoldRequest\<close> for one key; a key that does not split into a topic and a number is passed over. \<open>maxOffsetOf\<close> is
  \<open>GetMaxOffsetInQueue\<close> of the store.
\<close>

definition check_key ::
    "('r, 'm) hold_map \<Rightarrow> (string \<Rightarrow> int \<Rightarrow> int) \<Rightarrow> int \<Rightarrow> string \<Rightarrow> ('r, 'm) PullRequestHoldService \<Rightarrow> ('r, 'm) PullRequestHoldService" where
  "check_key M maxOffsetOf now item serv =
     (case strings_Split (CHR ''@'') item of
        [topic, q] \<Rightarrow>
          (case ParseInt q of
             Inl err \<Rightarrow> serv
           | Inr queueId \<Rightarrow>
               let offset = maxOffsetOf topic (to_int32 queueId)
               in notifyMessageArriving M offset now topic (to_int32 queueId) offset serv)
      | _ \<Rightarrow> serv)"

definition checkHoldRequest ::
    "('r, 'm) hold_map \<Rightarrow> (string \<Rightarrow> int \<Rightarrow> int) \<Rightarrow> int \<Rightarrow> ('r, 'm) PullRequestHoldService \<Rightarrow> ('r, 'm) PullRequestHoldService" where
  "checkHoldRequest M maxOffsetOf now serv =
     fold (check_key M maxOffsetOf now) (map fst (mIter M (pullRequestTable serv))) serv"

section \<open>What a notification does\<close>

definition held :: "('r, 'm) hold_map \<Rightarrow> string \<Rightarrow> ('r, 'm) PullRequestHoldService \<Rightarrow> 'r PullRequest list" where
  "held M key serv = (case mGet M key (pullRequestTable serv) of None \<Rightarrow> [] | Some mpr \<Rightarrow> mpr)"

lemma notify_each_spec:
  "notify_each maxOffset rs serv = (replay, serv1) \<Longrightarrow>
     replay = map fst (filter (\<lambda>(r, newest, now). \<not> wakes maxOffset newest now r) rs) \<and>
     serv1 = serv\<lparr>woken := woken serv @ map fst (filter (\<lambda>(r, newest, now). wakes maxOffset newest now r) rs)\<rparr>"
  by (induction maxOffset rs serv arbitrary: replay serv1 rule: notify_each.induct)
    (auto simp: ExecuteRequestWhenWakeup_def split: if_splits prod.splits)

lemma notify_spec:
  assumes "cmap_laws M"
  shows "held M k (notifyMessageArriving M newest now topic queueId maxOffset serv) =
      (if k = buildKey topic queueId then filter (\<lambda>r. \<not> wakes maxOffset newest now r) (held M k serv) else held M k serv)"
    and "woken (notifyMessageArriving M newest now topic queueId maxOffset serv) =
      woken serv @ filter (wakes maxOffset newest now) (held M (buildKey topic queueId) serv)"
    and "mGet M k (pullRequestTable serv) \<noteq> None \<Longrightarrow>
      mGet M k (pullRequestTable (notifyMessageArriving M newest now topic queueId maxOffset serv)) \<noteq> None"
proof -
  let ?key = "buildKey topic queueId"
  obtain rl serv1 where t: "notify_take M topic queueId serv = (rl, serv1)" by fastforce
  obtain replay serv2 where e: "notify_each maxOffset (map (\<lambda>r. (r, newest, now)) rl) serv1 = (replay, serv2)" by fastforce
  have tk: "rl = held M ?key serv" "woken serv1 = woken serv" "held M k serv1 = (if k = ?key then [] else held M k serv)"
    "mGet M k (pullRequestTable serv) \<noteq> None \<Longrightarrow> mGet M k (pullRequestTable serv1) \<noteq> None" for k
    using t by (auto simp: notify_take_def held_def CloneListAndClear_def cmap_simps [OF assms] Let_def split: option.splits)
  have ek: "replay = filter (\<lambda>r. \<not> wakes maxOffset newest now r) rl"
    "serv2 = serv1\<lparr>woken := woken serv1 @ filter (wakes maxOffset newest now) rl\<rparr>"
    using notify_each_spec [OF e] by (simp_all add: filter_map comp_def)
  have n: "notifyMessageArriving M newest now topic queueId maxOffset serv = notify_back M topic queueId replay serv2"
    by (simp add: notifyMessageArriving_def t e)
  show "held M k (notifyMessageArriving M newest now topic queueId maxOffset serv) =
      (if k = ?key then filter (\<lambda>r. \<not> wakes maxOffset newest now r) (held M k serv) else held M k serv)"
    using tk(3) [of k] tk(3) [of ?key]
    by (auto simp: n notify_back_def held_def ek tk(1) AddManyPullRequest_def cmap_simps [OF assms] Let_def split: option.splits)
  show "woken (notifyMessageArriving M newest now topic queueId maxOffset serv) =
      woken serv @ filter (wakes maxOffset newest now) (held M ?key serv)"
    by (simp add: n notify_back_def ek tk(1,2) Let_def)
  show "mGet M k (pullRequestTable (notifyMessageArriving M newest now topic queueId maxOffset serv)) \<noteq> None"
    if "mGet M k (pullRequestTable serv) \<noteq> None"
    using tk(4) [OF that] by (auto simp: n notify_back_def ek cmap_simps [OF assms] Let_def)
qed

section \<open>No request is lost\<close>

definition all_held :: "('r, 'm) hold_map \<Rightarrow> ('r, 'm) PullRequestHoldService \<Rightarrow> 'r PullRequest multiset" where
  "all_held M serv = (\<Sum>k \<in> set (map fst (mIter M (pullRequestTable serv))). mset (held M k serv))"

lemma all_held_put:
  assumes "cmap_laws M" and "pullRequestTable serv1 = mPut M key mpr (pullRequestTable serv)"
  shows "all_held M serv1 + mset (held M key serv) = all_held M serv + mset mpr"
proof -
  let ?K = "set (map fst (mIter M (pullRequestTable serv)))"
  have keys: "k \<in> set (map fst (mIter M t)) \<longleftrightarrow> mGet M k t \<noteq> None" for k t
    using assms(1) by (metis cmap_laws_def list.set_map map_of_eq_None_iff)
  have K1: "set (map fst (mIter M (pullRequestTable serv1))) = insert key ?K"
    unfolding set_eq_iff insert_iff keys using assms by (auto simp: cmap_simps)
  have h: "held M k serv1 = (if k = key then mpr else held M k serv)" for k
    using assms by (simp add: held_def cmap_simps)
  have none: "held M key serv = []" if "key \<notin> ?K" using that unfolding keys by (simp add: held_def)
  have "(\<Sum>k \<in> ?K. mset (held M k serv)) = mset (held M key serv) + (\<Sum>k \<in> ?K - {key}. mset (held M k serv))"
    using none by (cases "key \<in> ?K") (simp_all add: sum.remove)
  moreover have "(\<Sum>k \<in> ?K - {key}. mset (held M k serv1)) = (\<Sum>k \<in> ?K - {key}. mset (held M k serv))"
    by (intro sum.cong) (simp_all add: h)
  then have "(\<Sum>k \<in> insert key ?K. mset (held M k serv1)) = mset mpr + (\<Sum>k \<in> ?K - {key}. mset (held M k serv))"
    by (simp add: sum.insert_remove h)
  ultimately show ?thesis unfolding all_held_def K1 by simp
qed

text \<open>
  The service with the notifications that have taken their requests and not put them back yet, and the requests suspended so far. What each
  notification finds for a request (the newest offset and the time) is arbitrary.
\<close>

inductive hold_reach ::
    "('r, 'm) hold_map \<Rightarrow> ('r, 'm) PullRequestHoldService \<Rightarrow> (string \<times> int \<times> 'r PullRequest list) list \<Rightarrow> 'r PullRequest list \<Rightarrow> bool"
  for M where
  new: "hold_reach M (NewPullRequestHoldService M) [] []"
| suspend: "hold_reach M serv inflight sent \<Longrightarrow> hold_reach M (SuspendPullRequest M topic queueId r serv) inflight (r # sent)"
| take: "hold_reach M serv inflight sent \<Longrightarrow> notify_take M topic queueId serv = (rl, serv1) \<Longrightarrow>
    hold_reach M serv1 ((topic, queueId, rl) # inflight) sent"
| put_back: "hold_reach M serv (before @ (topic, queueId, rl) # after) sent \<Longrightarrow>
    notify_each maxOffset (zip rl finds) serv = (replay, serv1) \<Longrightarrow> length finds = length rl \<Longrightarrow>
    hold_reach M (notify_back M topic queueId replay serv1) (before @ after) sent"

definition taken :: "(string \<times> int \<times> 'r PullRequest list) list \<Rightarrow> 'r PullRequest multiset" where
  "taken inflight = mset (concat (map (snd \<circ> snd) inflight))"

text \<open>
  C40 (invariant): however suspensions and notifications interleave, every request that was suspended is at any time in exactly one place: held in the
  table, in the hands of a notification, or woken up once.
\<close>

theorem no_pull_request_lost:
  assumes "cmap_laws M" and "hold_reach M serv inflight sent"
  shows "mset sent = all_held M serv + taken inflight + mset (woken serv)"
  using assms(2)
proof (induction rule: hold_reach.induct)
  case new
  then show ?case using assms(1) by (simp add: NewPullRequestHoldService_def all_held_def taken_def cmap_laws_def)
next
  case (suspend serv inflight sent topic queueId r)
  let ?key = "buildKey topic queueId"
  have "all_held M (SuspendPullRequest M topic queueId r serv) + mset (held M ?key serv) =
      all_held M serv + mset (held M ?key serv @ [r])"
    by (rule all_held_put [OF assms(1)]) (simp add: SuspendPullRequest_def held_def AddPullRequest_def Let_def)
  then have "all_held M (SuspendPullRequest M topic queueId r serv) = all_held M serv + {#r#}" by simp
  moreover have "woken (SuspendPullRequest M topic queueId r serv) = woken serv" by (simp add: SuspendPullRequest_def Let_def)
  ultimately show ?case using suspend.IH by simp
next
  case (take serv inflight sent topic queueId rl serv1)
  have "all_held M serv1 + mset rl = all_held M serv \<and> woken serv1 = woken serv"
  proof (cases "mGet M (buildKey topic queueId) (pullRequestTable serv)")
    case None
    with take show ?thesis by (simp add: notify_take_def)
  next
    case (Some mpr)
    with take have "rl = mpr" "serv1 = serv\<lparr>pullRequestTable := mPut M (buildKey topic queueId) [] (pullRequestTable serv)\<rparr>"
      by (auto simp: notify_take_def CloneListAndClear_def)
    with all_held_put [OF assms(1), of serv1 "buildKey topic queueId" "[]" serv] Some show ?thesis by (simp add: held_def)
  qed
  then have "all_held M serv = all_held M serv1 + mset rl" "woken serv1 = woken serv" by simp_all
  then show ?case using take.IH by (simp add: taken_def)
next
  case (put_back serv before topic queueId rl after sent maxOffset finds replay serv1)
  let ?w = "\<lambda>(r, newest, now). wakes maxOffset newest now r"
  have r: "replay = map fst (filter (\<lambda>x. \<not> ?w x) (zip rl finds))"
    "serv1 = serv\<lparr>woken := woken serv @ map fst (filter ?w (zip rl finds))\<rparr>"
    using notify_each_spec [OF put_back.hyps(2)] by (simp_all add: case_prod_unfold)
  have split: "mset rl = mset replay + mset (map fst (filter ?w (zip rl finds)))"
  proof -
    have "mset (map fst (zip rl finds)) = image_mset fst (filter_mset (\<lambda>x. \<not> ?w x) (mset (zip rl finds))) +
        image_mset fst (filter_mset ?w (mset (zip rl finds)))"
      by (simp flip: image_mset_union add: multiset_partition [symmetric] add.commute)
    then show ?thesis using put_back.hyps(3) by (simp add: r)
  qed
  have h: "all_held M (notify_back M topic queueId replay serv1) = all_held M serv + mset replay"
  proof (cases "replay = []")
    case True
    then show ?thesis by (simp add: notify_back_def r all_held_def held_def)
  next
    case False
    have "all_held M (notify_back M topic queueId replay serv1) + mset (held M (buildKey topic queueId) serv) =
        all_held M serv + mset (replay @ held M (buildKey topic queueId) serv)"
      using False by (intro all_held_put [OF assms(1)]) (simp add: notify_back_def r held_def AddManyPullRequest_def Let_def)
    then show ?thesis by simp
  qed
  have w: "woken (notify_back M topic queueId replay serv1) = woken serv @ map fst (filter ?w (zip rl finds))"
    by (simp add: notify_back_def r Let_def)
  from put_back.IH show ?case by (simp add: h w taken_def split)
qed


theorem no_pull_request_lost_witness:
  "mset [NewPullRequest ''r'' 5 0 7] =
     all_held alist_map (SuspendPullRequest alist_map ''t'' 0 (NewPullRequest ''r'' 5 0 7) (NewPullRequestHoldService alist_map)) +
     taken [] + mset (woken (SuspendPullRequest alist_map ''t'' 0 (NewPullRequest ''r'' 5 0 7) (NewPullRequestHoldService alist_map)))"
  by (rule no_pull_request_lost [OF alist_map_laws hold_reach.suspend [OF hold_reach.new]])

section \<open>The periodic check\<close>

lemma FormatInt_no_at: "CHR ''@'' \<notin> set (FormatInt x)"
proof -
  have "\<not> is_digit (CHR ''@'')" by (simp add: is_digit_def)
  then have "CHR ''@'' \<notin> set (decimal n)" for n using list_all_decimal [of n] by (auto simp: list_all_iff)
  then show ?thesis by (auto simp: FormatInt_def)
qed

lemma check_key_good:
  assumes "CHR ''@'' \<notin> set topic" and "in_int 32 queueId"
  shows "check_key M maxOffsetOf now (buildKey topic queueId) serv =
    notifyMessageArriving M (maxOffsetOf topic queueId) now topic queueId (maxOffsetOf topic queueId) serv"
  using assms ParseInt_FormatInt [OF in_int_mono [OF assms(2)]]
  by (simp add: check_key_def buildKey_def strings_Split_two strings_Split_none FormatInt_no_at to_int32_id Let_def)

lemma check_key_cases:
  obtains "check_key M maxOffsetOf now item serv = serv"
  | topic queueId where "CHR ''@'' \<notin> set topic" "in_int 32 queueId"
      "check_key M maxOffsetOf now item serv =
         notifyMessageArriving M (maxOffsetOf topic queueId) now topic queueId (maxOffsetOf topic queueId) serv"
proof (cases "\<exists>topic q. strings_Split (CHR ''@'') item = [topic, q]")
  case True
  then obtain topic q where s: "strings_Split (CHR ''@'') item = [topic, q]" by blast
  then have "CHR ''@'' \<notin> set topic" by (simp add: strings_Split_pair)
  moreover have "in_int 32 (to_int32 x)" for x using signed_take_bit_in_int [of 31 x] by (simp add: to_int32_def)
  ultimately show thesis using s that by (cases "ParseInt q") (auto simp: check_key_def Let_def)
next
  case False
  then have "check_key M maxOffsetOf now item serv = serv" by (auto simp: check_key_def split: list.split)
  with that show thesis by blast
qed

lemma buildKey_inject:
  assumes "buildKey t q = buildKey t1 q1" and "CHR ''@'' \<notin> set t" and "in_int 32 q" and "in_int 32 q1"
  shows "t1 = t \<and> q1 = q"
proof -
  have e: "t @ CHR ''@'' # FormatInt q = t1 @ CHR ''@'' # FormatInt q1" using assms(1) by (simp add: buildKey_def)
  have "strings_Split (CHR ''@'') (t @ CHR ''@'' # FormatInt q) = [t, FormatInt q]"
    using assms(2) FormatInt_no_at by (simp add: strings_Split_two strings_Split_none)
  then have "strings_Split (CHR ''@'') (t1 @ CHR ''@'' # FormatInt q1) = [t, FormatInt q]" by (simp add: e)
  moreover have "CHR ''@'' \<notin> set t1"
  proof
    assume "CHR ''@'' \<in> set t1"
    then have "count_list (t1 @ CHR ''@'' # FormatInt q1) (CHR ''@'') \<ge> 2"
      by (simp add: count_list_0_iff Suc_le_eq zero_less_iff_neq_zero)
    moreover have "count_list (t @ CHR ''@'' # FormatInt q) (CHR ''@'') = 1"
      using assms(2) FormatInt_no_at [of q] by (simp add: count_list_0_iff)
    ultimately show False by (simp add: e)
  qed
  ultimately have "t1 = t" "FormatInt q1 = FormatInt q"
    using FormatInt_no_at [of q1] by (simp_all add: strings_Split_two strings_Split_none)
  moreover have "q1 = q"
    using ParseInt_FormatInt [OF in_int_mono [OF assms(3)]] ParseInt_FormatInt [OF in_int_mono [OF assms(4)]] calculation(2) by simp
  ultimately show ?thesis by simp
qed

text \<open>Requests that no longer wait: there are messages behind their offset, or their time is over.\<close>

definition due :: "(string \<Rightarrow> int \<Rightarrow> int) \<Rightarrow> int \<Rightarrow> string \<Rightarrow> int \<Rightarrow> 'r PullRequest \<Rightarrow> bool" where
  "due maxOffsetOf now topic queueId r \<longleftrightarrow>
     maxOffsetOf topic queueId > PullFromThisOffset r \<or> now \<ge> to_int64 (SuspendTimestamp r + TimeoutMillis r)"

lemma wakes_due: "wakes (maxOffsetOf topic queueId) (maxOffsetOf topic queueId) now r = due maxOffsetOf now topic queueId r"
  by (auto simp: wakes_def due_def)

text \<open>What one key of the check does to the requests held under another key.\<close>

lemma check_key_held:
  assumes "cmap_laws M" and "CHR ''@'' \<notin> set topic" and "in_int 32 queueId"
  defines "K \<equiv> buildKey topic queueId"
  shows "held M K (check_key M maxOffsetOf now item serv) = held M K serv \<and> item \<noteq> K \<or>
      held M K (check_key M maxOffsetOf now item serv) = filter (\<lambda>r. \<not> due maxOffsetOf now topic queueId r) (held M K serv) \<and>
      set (filter (due maxOffsetOf now topic queueId) (held M K serv)) \<subseteq> set (woken (check_key M maxOffsetOf now item serv))"
    and "set (woken serv) \<subseteq> set (woken (check_key M maxOffsetOf now item serv))"
proof -
  show "held M K (check_key M maxOffsetOf now item serv) = held M K serv \<and> item \<noteq> K \<or>
      held M K (check_key M maxOffsetOf now item serv) = filter (\<lambda>r. \<not> due maxOffsetOf now topic queueId r) (held M K serv) \<and>
      set (filter (due maxOffsetOf now topic queueId) (held M K serv)) \<subseteq> set (woken (check_key M maxOffsetOf now item serv))"
  proof (cases "item = K")
    case True
    then show ?thesis
      by (simp add: K_def check_key_good [OF assms(2,3)] notify_spec [OF assms(1)] wakes_due)
  next
    case False
    show ?thesis
    proof (cases rule: check_key_cases [of M maxOffsetOf now item serv])
      case (2 t q)
      show ?thesis
      proof (cases "K = buildKey t q")
        case True
        then have "t = topic \<and> q = queueId" using buildKey_inject [of topic queueId t q] assms(2,3) 2 by (simp add: K_def)
        with 2 show ?thesis by (simp add: notify_spec [OF assms(1)] K_def wakes_due)
      qed (use 2 False in \<open>simp add: notify_spec [OF assms(1)]\<close>)
    qed (use False in simp)
  qed
  show "set (woken serv) \<subseteq> set (woken (check_key M maxOffsetOf now item serv))"
    by (cases rule: check_key_cases [of M maxOffsetOf now item serv]) (simp_all add: notify_spec [OF assms(1)])
qed

lemma check_fold:
  assumes "cmap_laws M" and "CHR ''@'' \<notin> set topic" and "in_int 32 queueId"
  defines "K \<equiv> buildKey topic queueId"
  shows "(held M K (fold (check_key M maxOffsetOf now) keys serv) = filter (\<lambda>r. \<not> due maxOffsetOf now topic queueId r) (held M K serv) \<or>
       held M K (fold (check_key M maxOffsetOf now) keys serv) = held M K serv \<and> K \<notin> set keys) \<and>
     (held M K (fold (check_key M maxOffsetOf now) keys serv) \<noteq> held M K serv \<or> K \<in> set keys \<longrightarrow>
       set (filter (due maxOffsetOf now topic queueId) (held M K serv)) \<subseteq> set (woken (fold (check_key M maxOffsetOf now) keys serv))) \<and>
     set (woken serv) \<subseteq> set (woken (fold (check_key M maxOffsetOf now) keys serv))"
proof (induction keys arbitrary: serv)
  case (Cons item keys)
  let ?s1 = "check_key M maxOffsetOf now item serv"
  have ff: "filter P (filter (\<lambda>x. \<not> P x) xs) = []" for P xs by simp
  note step = check_key_held [OF assms(1-3), where maxOffsetOf = maxOffsetOf and now = now and item = item and serv = serv, folded K_def]
  show ?case
    using step Cons.IH [of ?s1] by (elim disjE conjE) (simp_all, blast+)
qed simp

text \<open>
  after \<open>checkHoldRequest\<close> a queue holds exactly those of its requests that are not due, in their order, and every request that was due has
  been woken up: a pull request waits at most until the first check after its time is over or a message has come.
\<close>

lemma check_wakes_due:
  assumes "cmap_laws M" and "CHR ''@'' \<notin> set topic" and "in_int 32 queueId"
  shows "held M (buildKey topic queueId) (checkHoldRequest M maxOffsetOf now serv) =
      filter (\<lambda>r. \<not> due maxOffsetOf now topic queueId r) (held M (buildKey topic queueId) serv) \<and>
    set (filter (due maxOffsetOf now topic queueId) (held M (buildKey topic queueId) serv)) \<subseteq>
      set (woken (checkHoldRequest M maxOffsetOf now serv))"
proof (cases "mGet M (buildKey topic queueId) (pullRequestTable serv)")
  case None
  then have "held M (buildKey topic queueId) serv = []" by (simp add: held_def)
  with check_fold [OF assms, of maxOffsetOf now "map fst (mIter M (pullRequestTable serv))" serv] show ?thesis
    by (auto simp: checkHoldRequest_def)
next
  case (Some mpr)
  then have "buildKey topic queueId \<in> set (map fst (mIter M (pullRequestTable serv)))"
    using assms(1) by (metis cmap_laws_def list.set_map map_of_eq_None_iff option.distinct(1))
  with check_fold [OF assms, of maxOffsetOf now "map fst (mIter M (pullRequestTable serv))" serv] show ?thesis
    by (auto simp: checkHoldRequest_def)
qed

lemma check_wakes_due_witness:
  "held alist_map ''t@0'' (checkHoldRequest alist_map (\<lambda>_ _. 3) 4
      (SuspendPullRequest alist_map ''t'' 0 (NewPullRequest ''r'' 5 0 7) (NewPullRequestHoldService alist_map))) = [NewPullRequest ''r'' 5 0 7] \<and>
   held alist_map ''t@0'' (checkHoldRequest alist_map (\<lambda>_ _. 3) 5
      (SuspendPullRequest alist_map ''t'' 0 (NewPullRequest ''r'' 5 0 7) (NewPullRequestHoldService alist_map))) = []"
proof -
  have k: "buildKey ''t'' 0 = ''t@0''" by code_simp
  have h: "held alist_map ''t@0'' (SuspendPullRequest alist_map ''t'' 0 (NewPullRequest ''r'' 5 0 7) (NewPullRequestHoldService alist_map)) =
      [NewPullRequest ''r'' 5 0 7]" by code_simp
  have d: "\<not> due (\<lambda>_ _. 3) 4 ''t'' 0 (NewPullRequest ''r'' 5 0 7)" "due (\<lambda>_ _. 3) 5 ''t'' 0 (NewPullRequest ''r'' 5 0 7)"
    by (simp_all add: due_def NewPullRequest_def to_int64_def)
  show ?thesis
    using check_wakes_due [OF alist_map_laws, of "''t''" 0 "\<lambda>_ _. 3" 4 "SuspendPullRequest alist_map ''t'' 0
        (NewPullRequest ''r'' 5 0 7) (NewPullRequestHoldService alist_map)"]
      check_wakes_due [OF alist_map_laws, of "''t''" 0 "\<lambda>_ _. 3" 5 "SuspendPullRequest alist_map ''t'' 0
        (NewPullRequest ''r'' 5 0 7) (NewPullRequestHoldService alist_map)"]
    by (simp add: k h d in_int_def)
qed

text \<open>
  the check does not see the requests of a topic with the separator \<open>@\<close> in its name: they stay held whatever the time and
  whatever messages there are.
\<close>

lemma at_topic_never_checked:
  assumes "cmap_laws M" and "CHR ''@'' \<in> set topic" and "in_int 32 queueId"
  shows "held M (buildKey topic queueId) (checkHoldRequest M maxOffsetOf now serv) = held M (buildKey topic queueId) serv"
proof -
  let ?K = "buildKey topic queueId"
  have step: "held M ?K (check_key M maxOffsetOf now item serv) = held M ?K serv" for item serv
  proof (cases rule: check_key_cases [of M maxOffsetOf now item serv])
    case (2 t q)
    have "?K \<noteq> buildKey t q" using buildKey_inject [of t q topic queueId] 2(1,2) assms(2,3) by metis
    with 2(3) show ?thesis by (simp add: notify_spec [OF assms(1)])
  qed simp
  have "held M ?K (fold (check_key M maxOffsetOf now) keys serv) = held M ?K serv" for keys
    by (induction keys arbitrary: serv) (simp_all add: step)
  then show ?thesis by (simp add: checkHoldRequest_def)
qed

lemma at_topic_never_checked_witness:
  "held alist_map ''a@b@0'' (checkHoldRequest alist_map (\<lambda>_ _. 9) 1000000
     (SuspendPullRequest alist_map ''a@b'' 0 (NewPullRequest ''r'' 5 0 7) (NewPullRequestHoldService alist_map))) = [NewPullRequest ''r'' 5 0 7]"
proof -
  have k: "buildKey ''a@b'' 0 = ''a@b@0''" by code_simp
  have h: "held alist_map ''a@b@0'' (SuspendPullRequest alist_map ''a@b'' 0 (NewPullRequest ''r'' 5 0 7) (NewPullRequestHoldService alist_map)) =
      [NewPullRequest ''r'' 5 0 7]" by code_simp
  show ?thesis
    using at_topic_never_checked [OF alist_map_laws, of "''a@b''" 0 "\<lambda>_ _. 9" 1000000
        "SuspendPullRequest alist_map ''a@b'' 0 (NewPullRequest ''r'' 5 0 7) (NewPullRequestHoldService alist_map)"]
    by (simp add: k h in_int_def)
qed

end
