(* ===== verification/SendM.thy ===== *)
theory SendM
  imports BrokerFlow CommandM PullHoldM
begin

text \<open>
  How a broker takes messages: \<open>stgbroker/send_message_processor.go\<close> and \<open>abstract_send_message_processor.go\<close>, with the headers of
  the requests, on top of the topics, the subscription groups, the message store and the pull requests that wait.

  A request is a command as the network layer decodes it, a connection its address. What is written to a connection
  directly, and not returned to the network layer, is recorded. The texts of remarks are shortened, hooks and statistics left out.
  The state of the disk in one remark is an argument; the random generator of the processors is never created, so that using it panics.
  \<open>None\<close> is a panic.
\<close>

section \<open>The server\<close>

text \<open>The settings the processors read besides those of the managers.\<close>

record server_config =
  BrokerIP1 :: string
  BrokerPermission :: int
  RejectTransactionMessage :: bool
  LongPollingEnable :: bool
  ShortPollingTimeMills :: int
  OffsetCheckInSlave :: bool
  sv_StoreHost :: string
  BrokerAddr :: string

record ('gt, 's, 'm) server =
  sv_broker :: "('gt, 's) broker"
  sv_config :: server_config
  sv_os :: OS
  sv_hold :: "(string \<times> RemotingCommand, 'm) PullRequestHoldService"
  sv_written :: "(string \<times> RemotingCommand) list"

definition HasReadable :: "server_config \<Rightarrow> bool" where
  "HasReadable self = IsReadable (BrokerPermission self)"

definition HasWriteable :: "server_config \<Rightarrow> bool" where
  "HasWriteable self = IsWriteable (BrokerPermission self)"

definition sv_set_topics :: "'s TopicConfigManager \<Rightarrow> broker_world \<Rightarrow> ('gt, 's, 'm) server \<Rightarrow> ('gt, 's, 'm) server" where
  "sv_set_topics topics w s = s\<lparr>sv_broker := (sv_broker s)\<lparr>bk_topics := topics, bk_world := w\<rparr>\<rparr>"

definition sv_set_store :: "DefaultMessageStore \<Rightarrow> OS \<Rightarrow> ('gt, 's, 'm) server \<Rightarrow> ('gt, 's, 'm) server" where
  "sv_set_store ms os s = s\<lparr>sv_broker := (sv_broker s)\<lparr>bk_store := ms\<rparr>, sv_os := os\<rparr>"

definition sv_topic :: "string \<Rightarrow> ('gt, 's, 'm) server \<Rightarrow> TopicConfig option" where
  "sv_topic topic s = TopicConfigManager_SelectTopicConfig topic (bk_topics (sv_broker s))"

text \<open>Response codes.\<close>

definition MESSAGE_ILLEGAL_code :: int where "MESSAGE_ILLEGAL_code = 13"
definition SERVICE_NOT_AVAILABLE_code :: int where "SERVICE_NOT_AVAILABLE_code = 14"
definition FLUSH_DISK_TIMEOUT_code :: int where "FLUSH_DISK_TIMEOUT_code = 10"
definition SLAVE_NOT_AVAILABLE_code :: int where "SLAVE_NOT_AVAILABLE_code = 11"
definition FLUSH_SLAVE_TIMEOUT_code :: int where "FLUSH_SLAVE_TIMEOUT_code = 12"
definition NO_PERMISSION :: int where "NO_PERMISSION = 16"
definition TOPIC_NOT_EXIST :: int where "TOPIC_NOT_EXIST = 17"
definition SUBSCRIPTION_GROUP_NOT_EXIST :: int where "SUBSCRIPTION_GROUP_NOT_EXIST = 26"

definition SEND_MESSAGE :: int where "SEND_MESSAGE = 10"
definition CONSUMER_SEND_MSG_BACK :: int where "CONSUMER_SEND_MSG_BACK = 36"
definition SEND_MESSAGE_V2 :: int where "SEND_MESSAGE_V2 = 310"

section \<open>Headers\<close>

text \<open>The value of a field of a decoded header.\<close>

definition string_field :: "custom_header \<Rightarrow> string \<Rightarrow> string" where
  "string_field h name = (case map_of h name of Some (StringF s) \<Rightarrow> s | _ \<Rightarrow> [])"

definition int_field :: "custom_header \<Rightarrow> string \<Rightarrow> int" where
  "int_field h name = (case map_of h name of Some (IntF w x) \<Rightarrow> x | _ \<Rightarrow> 0)"

definition bool_field :: "custom_header \<Rightarrow> string \<Rightarrow> bool" where
  "bool_field h name = (case map_of h name of Some (BoolF b) \<Rightarrow> b | _ \<Rightarrow> False)"

record SendMessageRequestHeader =
  rh_ProducerGroup :: string
  rh_Topic :: string
  rh_DefaultTopic :: string
  rh_DefaultTopicQueueNums :: int
  rh_QueueId :: int
  rh_SysFlag :: int
  rh_BornTimestamp :: int
  rh_Flag :: int
  rh_Properties :: string
  rh_ReconsumeTimes :: int
  rh_UnitMode :: bool

definition zero_header_v1 :: custom_header where
  "zero_header_v1 = [(''ProducerGroup'', StringF []), (''Topic'', StringF []), (''DefaultTopic'', StringF []),
     (''DefaultTopicQueueNums'', IntF 32 0), (''QueueId'', IntF 32 0), (''SysFlag'', IntF 32 0), (''BornTimestamp'', IntF 64 0),
     (''Flag'', IntF 32 0), (''Properties'', StringF []), (''ReconsumeTimes'', IntF 32 0), (''UnitMode'', BoolF False)]"

definition zero_header_v2 :: custom_header where
  "zero_header_v2 = [(''A'', StringF []), (''B'', StringF []), (''C'', StringF []), (''D'', IntF 32 0), (''E'', IntF 32 0),
     (''F'', IntF 32 0), (''G'', IntF 64 0), (''H'', IntF 32 0), (''I'', StringF []), (''J'', IntF 32 0), (''K'', BoolF False)]"

definition header_v1 :: "custom_header \<Rightarrow> SendMessageRequestHeader" where
  "header_v1 h = \<lparr>rh_ProducerGroup = string_field h ''ProducerGroup'', rh_Topic = string_field h ''Topic'',
     rh_DefaultTopic = string_field h ''DefaultTopic'', rh_DefaultTopicQueueNums = int_field h ''DefaultTopicQueueNums'',
     rh_QueueId = int_field h ''QueueId'', rh_SysFlag = int_field h ''SysFlag'', rh_BornTimestamp = int_field h ''BornTimestamp'',
     rh_Flag = int_field h ''Flag'', rh_Properties = string_field h ''Properties'',
     rh_ReconsumeTimes = int_field h ''ReconsumeTimes'', rh_UnitMode = bool_field h ''UnitMode''\<rparr>"

definition CreateSendMessageRequestHeaderV1 :: "custom_header \<Rightarrow> SendMessageRequestHeader" where
  "CreateSendMessageRequestHeaderV1 v2 =
     \<lparr>rh_ProducerGroup = string_field v2 ''A'', rh_Topic = string_field v2 ''B'', rh_DefaultTopic = string_field v2 ''C'',
      rh_DefaultTopicQueueNums = int_field v2 ''D'', rh_QueueId = int_field v2 ''E'', rh_SysFlag = int_field v2 ''F'',
      rh_BornTimestamp = int_field v2 ''G'', rh_Flag = int_field v2 ''H'', rh_Properties = string_field v2 ''I'',
      rh_ReconsumeTimes = int_field v2 ''J'', rh_UnitMode = bool_field v2 ''K''\<rparr>"

definition CreateSendMessageRequestHeaderV2 :: "SendMessageRequestHeader \<Rightarrow> custom_header" where
  "CreateSendMessageRequestHeaderV2 v1 =
     [(''A'', StringF (rh_ProducerGroup v1)), (''B'', StringF (rh_Topic v1)), (''C'', StringF (rh_DefaultTopic v1)),
      (''D'', IntF 32 (rh_DefaultTopicQueueNums v1)), (''E'', IntF 32 (rh_QueueId v1)), (''F'', IntF 32 (rh_SysFlag v1)),
      (''G'', IntF 64 (rh_BornTimestamp v1)), (''H'', IntF 32 (rh_Flag v1)), (''I'', StringF (rh_Properties v1)),
      (''J'', IntF 32 (rh_ReconsumeTimes v1)), (''K'', BoolF (rh_UnitMode v1))]"

text \<open>An error of decoding is only logged: the fields set before it count, the others are zero.\<close>

definition decoded :: "RemotingCommand \<Rightarrow> custom_header \<Rightarrow> custom_header" where
  "decoded request zero =
     (case DecodeCommandCustomHeader (\<lambda>_. None) request (Some zero) of (Some h, _) \<Rightarrow> h | (None, _) \<Rightarrow> zero)"

definition parseRequestHeader :: "RemotingCommand \<Rightarrow> SendMessageRequestHeader option" where
  "parseRequestHeader request =
     (if rc_Code request = SEND_MESSAGE_V2 then Some (CreateSendMessageRequestHeaderV1 (decoded request zero_header_v2))
      else if rc_Code request = SEND_MESSAGE then Some (header_v1 (decoded request zero_header_v1))
      else None)"

definition send_response_header :: "string \<Rightarrow> int \<Rightarrow> int \<Rightarrow> custom_header" where
  "send_response_header msgId queueId queueOffset =
     [(''MsgId'', StringF msgId), (''QueueId'', IntF 32 queueId), (''QueueOffset'', IntF 64 queueOffset), (''TransactionId'', StringF [])]"

section \<open>Checking a message\<close>

text \<open>The readings of the clock, and whether a flush to the disk succeeds, while one request is handled.\<close>

record send_times =
  tm_create :: int
  tm_create_back :: int
  tm_group :: int
  tm_store :: int
  tm_lock :: int
  tm_flushOk :: bool
  tm_wake :: int

text \<open>\<open>strings.Contains\<close>.\<close>

fun strings_Contains :: "string \<Rightarrow> string \<Rightarrow> bool" where
  "strings_Contains [] sub \<longleftrightarrow> sub = []"
| "strings_Contains (c # s) sub \<longleftrightarrow> take (length sub) (c # s) = sub \<or> strings_Contains s sub"

text \<open>The topic of a message, created for the producer when it does not exist.\<close>

definition msg_topic ::
    "json \<Rightarrow> send_times \<Rightarrow> SendMessageRequestHeader \<Rightarrow> ('gt, 's, 'm) server \<Rightarrow> TopicConfig option \<times> ('gt, 's, 'm) server" where
  "msg_topic marshal t requestHeader s =
     (let b = sv_broker s; retry = strings_Contains (rh_Topic requestHeader) ''%RETRY%'';
          topicSysFlag = (if rh_UnitMode requestHeader then if retry then TopicBuildSysFlag False True else TopicBuildSysFlag True False else 0)
      in case sv_topic (rh_Topic requestHeader) s of
        Some tc \<Rightarrow> (Some tc, s)
      | None \<Rightarrow>
          (case TopicConfigManager_CreateTopicInSendMessageMethod (snd marshal) (tm_create t) (bk_home b) (bk_cfg b)
              (rh_Topic requestHeader) (rh_DefaultTopic requestHeader) (rh_DefaultTopicQueueNums requestHeader) topicSysFlag
              (bk_topics b) (bk_world b) of
             (Inr tc, topics, w) \<Rightarrow> (Some tc, sv_set_topics topics w s)
           | (Inl e, topics, w) \<Rightarrow>
               if retry
               then (case TopicConfigManager_CreateTopicInSendMessageBackMethod (snd marshal) (tm_create_back t) (bk_home b) (bk_cfg b)
                       (rh_Topic requestHeader) 1 (PERM_WRITE OR PERM_READ) topicSysFlag topics w of
                       (tc, topics1, w1) \<Rightarrow> (Some tc, sv_set_topics topics1 w1 s))
               else (None, sv_set_topics topics w s)))"

text \<open>\<open>None\<close>: the message may be stored; otherwise the code and the remark of the answer.\<close>

definition msgCheck ::
    "json \<Rightarrow> send_times \<Rightarrow> SendMessageRequestHeader \<Rightarrow> ('gt, 's, 'm) server \<Rightarrow> (int \<times> string) option \<times> ('gt, 's, 'm) server" where
  "msgCheck marshal t requestHeader s =
     (if \<not> HasWriteable (sv_config s) \<and> TopicConfigManager_IsOrderTopic (rh_Topic requestHeader) (bk_topics (sv_broker s))
      then (Some (NO_PERMISSION, ''the broker sending message is forbidden''), s)
      else if \<not> TopicConfigManager_isTopicCanSendMessage (bk_cfg (sv_broker s)) (rh_Topic requestHeader)
      then (Some (SYSTEM_ERROR, ''the topic is conflict with system reserved words.''), s)
      else case msg_topic marshal t requestHeader s of
        (None, s1) \<Rightarrow> (Some (TOPIC_NOT_EXIST, ''topic not exist, apply first please!''), s1)
      | (Some topicConfig, s1) \<Rightarrow>
          let idValid = (if tc_WriteQueueNums topicConfig > tc_ReadQueueNums topicConfig then tc_WriteQueueNums topicConfig
                         else tc_ReadQueueNums topicConfig)
          in if rh_QueueId requestHeader \<ge> idValid then (Some (SYSTEM_ERROR, ''request queueId is illagal''), s1)
             else (None, s1))"

section \<open>Storing a message\<close>

definition zero_inner :: MessageExtBrokerInner where
  "zero_inner = \<lparr>m_Topic = [], m_Flag = 0, m_Properties = [], m_Body = [], m_QueueId = 0, m_StoreSize = 0, m_QueueOffset = 0,
     m_SysFlag = 0, m_BornTimestamp = 0, m_BornHost = [], m_StoreTimestamp = 0, m_StoreHost = [], m_MsgId = [], m_CommitLogOffset = 0,
     m_BodyCRC = 0, m_ReconsumeTimes = 0, m_PreparedTransactionOffset = 0, m_PropertiesString = [], m_TagsCode = 0\<rparr>"

definition inner_message :: "server_config \<Rightarrow> string \<Rightarrow> RemotingCommand \<Rightarrow> SendMessageRequestHeader \<Rightarrow> TopicConfig \<Rightarrow> MessageExtBrokerInner" where
  "inner_message cfg ctx request requestHeader topicConfig =
     (let properties = String2messageProperties (rh_Properties requestHeader);
          sysFlag = (if tc_TopicFilterType topicConfig = MULTI_TAG then rh_SysFlag requestHeader OR MultiTagsFlag else rh_SysFlag requestHeader)
      in zero_inner\<lparr>m_Topic := rh_Topic requestHeader, m_Body := body_bytes request, m_Flag := rh_Flag requestHeader,
           m_Properties := properties, m_PropertiesString := rh_Properties requestHeader,
           m_TagsCode := TagsString2tagsCode (tc_TopicFilterType topicConfig) (prop_at properties ''TAGS''),
           m_QueueId := rh_QueueId requestHeader, m_SysFlag := sysFlag, m_BornTimestamp := rh_BornTimestamp requestHeader,
           m_BornHost := ctx, m_StoreHost := sv_StoreHost cfg, m_ReconsumeTimes := rh_ReconsumeTimes requestHeader\<rparr>)"

text \<open>The code and the remark for the status of a put, and whether the message was stored.\<close>

definition put_answer :: "string \<Rightarrow> PutMessageStatus \<Rightarrow> int \<times> string \<times> bool" where
  "put_answer diskUtil st =
     (case st of
        PUTMESSAGE_PUT_OK \<Rightarrow> (SUCCESS, [], True)
      | FLUSH_DISK_TIMEOUT \<Rightarrow> (FLUSH_DISK_TIMEOUT_code, [], True)
      | FLUSH_SLAVE_TIMEOUT \<Rightarrow> (FLUSH_SLAVE_TIMEOUT_code, [], True)
      | SLAVE_NOT_AVAILABLE \<Rightarrow> (SLAVE_NOT_AVAILABLE_code, [], True)
      | CREATE_MAPEDFILE_FAILED \<Rightarrow> (SYSTEM_ERROR, ''create maped file failed, please make sure OS and JDK both 64bit.'', False)
      | MESSAGE_ILLEGAL \<Rightarrow> (MESSAGE_ILLEGAL_code, ''the message is illegal, maybe length not matched.'', False)
      | SERVICE_NOT_AVAILABLE \<Rightarrow> (SERVICE_NOT_AVAILABLE_code, ''service not available now, maybe disk full, '' @ diskUtil, False)
      | PUTMESSAGE_UNKNOWN_ERROR \<Rightarrow> (SYSTEM_ERROR, ''UNKNOWN_ERROR'', False))"

definition DoResponse :: "string \<Rightarrow> RemotingCommand \<Rightarrow> RemotingCommand \<Rightarrow> ('gt, 's, 'm) server \<Rightarrow> ('gt, 's, 'm) server" where
  "DoResponse ctx request response s =
     (if IsOnewayRPC request then s else s\<lparr>sv_written := sv_written s @ [(ctx, response)]\<rparr>)"

text \<open>
  \<open>notifyMessageArriving\<close> on the broker's store: the store is asked for its largest offset when a request waits beyond the offset that
  came in, which creates the consume queue if it is missing.
\<close>

definition sv_notify :: "(string \<times> RemotingCommand, 'm) hold_map \<Rightarrow> int \<Rightarrow> string \<Rightarrow> int \<Rightarrow> int \<Rightarrow> ('gt, 's, 'm) server \<Rightarrow> ('gt, 's, 'm) server" where
  "sv_notify H now topic queueId maxOffset s =
     (let asked = (\<exists>r \<in> set (held H (buildKey topic queueId) (sv_hold s)). maxOffset \<le> PullFromThisOffset r)
      in case DefaultMessageStore_GetMaxOffsetInQueue topic queueId (bk_store (sv_broker s)) of
        (newest, ms) \<Rightarrow>
          (let s1 = (if asked then s\<lparr>sv_broker := (sv_broker s)\<lparr>bk_store := ms\<rparr>\<rparr> else s)
           in s1\<lparr>sv_hold := notifyMessageArriving H newest now topic queueId maxOffset (sv_hold s1)\<rparr>))"

text \<open>\<open>SendMessage\<close> returns the answer, or none when it has written it itself.\<close>

definition SendMessageProcessor_SendMessage ::
    "(string \<times> RemotingCommand, 'm) hold_map \<Rightarrow> json \<Rightarrow> send_times \<Rightarrow> string \<Rightarrow> string \<Rightarrow> RemotingCommand \<Rightarrow> SendMessageRequestHeader \<Rightarrow>
     ('gt, 's, 'm) server \<Rightarrow> (RemotingCommand option \<times> ('gt, 's, 'm) server) option" where
  "SendMessageProcessor_SendMessage H marshal t diskUtil ctx request requestHeader s =
     (let response = (CreateDefaultResponseCommand [] (Some (send_response_header [] 0 0)))\<lparr>rc_Opaque := rc_Opaque request\<rparr>
      in case msgCheck marshal t requestHeader s of
        (Some (code, remark), s1) \<Rightarrow> Some (Some (response\<lparr>rc_Code := code, rc_Remark := remark\<rparr>), s1)
      | (None, s1) \<Rightarrow>
          if rh_QueueId requestHeader < 0 then None
          else case sv_topic (rh_Topic requestHeader) s1 of
            None \<Rightarrow> None
          | Some topicConfig \<Rightarrow>
              let msgInner = inner_message (sv_config s1) ctx request requestHeader topicConfig
              in if RejectTransactionMessage (sv_config s1) \<and> prop_at (m_Properties msgInner) ''TRAN_MSG'' \<noteq> []
                 then Some (Some (response\<lparr>rc_Code := NO_PERMISSION, rc_Remark := ''the broker sending transaction message is forbidden''\<rparr>), s1)
                 else case DefaultMessageStore_PutMessage (tm_store t) (tm_lock t) (tm_flushOk t) (sv_os s1) msgInner (bk_store (sv_broker s1)) of
                   None \<Rightarrow> None
                 | Some (None, ms, os) \<Rightarrow>
                     Some (Some (response\<lparr>rc_Code := SYSTEM_ERROR, rc_Remark := ''store putMessage return null''\<rparr>), sv_set_store ms os s1)
                 | Some (Some result, ms, os) \<Rightarrow>
                     (case put_answer diskUtil (pmr_PutMessageStatus result) of
                        (code, remark, sendOK) \<Rightarrow>
                          if \<not> sendOK then Some (Some (response\<lparr>rc_Code := code, rc_Remark := remark\<rparr>), sv_set_store ms os s1)
                          else case pmr_AppendMessageResult result of
                            None \<Rightarrow> None
                          | Some r \<Rightarrow>
                              let answer = response\<lparr>rc_Code := code, rc_Remark := [],
                                    rc_CustomHeader := Some (send_response_header (MsgId r) (rh_QueueId requestHeader) (LogicsOffset r))\<rparr>;
                                  s2 = DoResponse ctx request answer (sv_set_store ms os s1)
                              in Some (None,
                                   if LongPollingEnable (sv_config s2)
                                   then sv_notify H (tm_wake t) (rh_Topic requestHeader) (rh_QueueId requestHeader) (LogicsOffset r + 1) s2
                                   else s2)))"

section \<open>Messages a consumer sends back\<close>

record ConsumerSendMsgBackRequestHeader =
  bh_Offset :: int
  bh_Group :: string
  bh_DelayLevel :: int
  bh_OriginMsgId :: string
  bh_OriginTopic :: string
  bh_UnitMode :: bool

definition zero_back_header :: custom_header where
  "zero_back_header = [(''Offset'', IntF 64 0), (''Group'', StringF []), (''DelayLevel'', IntF 32 0), (''OriginMsgId'', StringF []),
     (''OriginTopic'', StringF []), (''UnitMode'', BoolF False)]"

definition back_header :: "custom_header \<Rightarrow> ConsumerSendMsgBackRequestHeader" where
  "back_header h = \<lparr>bh_Offset = int_field h ''Offset'', bh_Group = string_field h ''Group'', bh_DelayLevel = int_field h ''DelayLevel'',
     bh_OriginMsgId = string_field h ''OriginMsgId'', bh_OriginTopic = string_field h ''OriginTopic'', bh_UnitMode = bool_field h ''UnitMode''\<rparr>"

definition GetDLQTopic :: "string \<Rightarrow> string" where
  "GetDLQTopic consumerGroup = ''%DLQ%'' @ consumerGroup"

definition DLQ_NUMS_PER_GROUP :: int where "DLQ_NUMS_PER_GROUP = 1"

fun PutMessageString :: "PutMessageStatus \<Rightarrow> string" where
  "PutMessageString PUTMESSAGE_PUT_OK = ''PUT_OK''"
| "PutMessageString FLUSH_DISK_TIMEOUT = ''FLUSH_DISK_TIMEOUT''"
| "PutMessageString FLUSH_SLAVE_TIMEOUT = ''FLUSH_SLAVE_TIMEOUT''"
| "PutMessageString SLAVE_NOT_AVAILABLE = ''SLAVE_NOT_AVAILABLE''"
| "PutMessageString SERVICE_NOT_AVAILABLE = ''SERVICE_NOT_AVAILABLE''"
| "PutMessageString CREATE_MAPEDFILE_FAILED = ''CREATE_MAPEDFILE_FAILED''"
| "PutMessageString MESSAGE_ILLEGAL = ''MESSAGE_ILLEGAL''"
| "PutMessageString PUTMESSAGE_UNKNOWN_ERROR = ''UNKNOWN_ERROR''"

text \<open>The message read from the store, marked with the topic it was consumed from.\<close>

definition marked_back :: "MessageExt \<Rightarrow> MessageExt" where
  "marked_back msgExt =
     Message_PutProperty ''WAIT'' (FormatBool False)
       (if Message_GetProperty msgExt ''RETRY_TOPIC'' = [] then Message_PutProperty ''RETRY_TOPIC'' (m_Topic msgExt) msgExt else msgExt)"

definition is_dead :: "SubscriptionGroupConfig \<Rightarrow> ConsumerSendMsgBackRequestHeader \<Rightarrow> MessageExt \<Rightarrow> bool" where
  "is_dead config h msgExt \<longleftrightarrow> m_ReconsumeTimes msgExt \<ge> RetryMaxTimes config \<or> bh_DelayLevel h < 0"

definition delayed :: "ConsumerSendMsgBackRequestHeader \<Rightarrow> MessageExt \<Rightarrow> MessageExt" where
  "delayed h msgExt =
     Message_PutProperty ''DELAY''
       (FormatInt (if bh_DelayLevel h = 0 then to_int32 (3 + m_ReconsumeTimes msgExt) else bh_DelayLevel h)) msgExt"

text \<open>
  The message that is stored. The id of the first message is set after the properties were turned into the string that is stored.
  The queue is always the first one: the code never gives \<open>queueIdInt\<close> another value.
\<close>

definition back_message :: "server_config \<Rightarrow> string \<Rightarrow> MessageExt \<Rightarrow> MessageExtBrokerInner" where
  "back_message cfg newTopic msgExt =
     (let originMsgId = (if prop_at (m_Properties msgExt) ''ORIGIN_MESSAGE_ID'' = [] then m_MsgId msgExt
                         else prop_at (m_Properties msgExt) ''ORIGIN_MESSAGE_ID'')
      in Message_PutProperty ''ORIGIN_MESSAGE_ID'' originMsgId
         (zero_inner\<lparr>m_Topic := newTopic, m_Body := m_Body msgExt, m_Flag := m_Flag msgExt, m_Properties := m_Properties msgExt,
           m_PropertiesString := MessageProperties2String (m_Properties msgExt),
           m_TagsCode := TagsString2tagsCode SINGLE_TAG (Message_GetTags msgExt), m_QueueId := 0, m_SysFlag := m_SysFlag msgExt,
           m_BornTimestamp := m_BornTimestamp msgExt, m_BornHost := m_BornHost msgExt, m_StoreHost := sv_StoreHost cfg,
           m_ReconsumeTimes := to_int32 (m_ReconsumeTimes msgExt + 1)\<rparr>))"

definition sv_create_back ::
    "json \<Rightarrow> int \<Rightarrow> string \<Rightarrow> int \<Rightarrow> int \<Rightarrow> int \<Rightarrow> ('gt, 's, 'm) server \<Rightarrow> TopicConfig \<times> ('gt, 's, 'm) server" where
  "sv_create_back marshal now topic nums perm topicSysFlag s =
     (let b = sv_broker s
      in case TopicConfigManager_CreateTopicInSendMessageBackMethod (snd marshal) now (bk_home b) (bk_cfg b) topic nums perm topicSysFlag
           (bk_topics b) (bk_world b) of
        (tc, topics, w) \<Rightarrow> (tc, sv_set_topics topics w s))"

definition put_back :: "send_times \<Rightarrow> MessageExtBrokerInner \<Rightarrow> ('gt, 's, 'm) server \<Rightarrow> (RemotingCommand \<times> ('gt, 's, 'm) server) option" where
  "put_back t msgInner s =
     (case DefaultMessageStore_PutMessage (tm_store t) (tm_lock t) (tm_flushOk t) (sv_os s) msgInner (bk_store (sv_broker s)) of
        None \<Rightarrow> None
      | Some (None, ms, os) \<Rightarrow>
          Some (empty_command\<lparr>rc_Code := SYSTEM_ERROR, rc_Remark := ''putMessageResult is null''\<rparr>, sv_set_store ms os s)
      | Some (Some result, ms, os) \<Rightarrow>
          Some (if pmr_PutMessageStatus result = PUTMESSAGE_PUT_OK then empty_command\<lparr>rc_Code := SUCCESS\<rparr>
                else empty_command\<lparr>rc_Code := SYSTEM_ERROR, rc_Remark := PutMessageString (pmr_PutMessageStatus result)\<rparr>,
                sv_set_store ms os s))"

definition SendMessageProcessor_ConsumerSendMsgBack ::
    "(byte list \<Rightarrow> byte list option) \<Rightarrow> json \<Rightarrow> send_times \<Rightarrow> RemotingCommand \<Rightarrow> ('gt, 's, 'm) server \<Rightarrow>
     (RemotingCommand \<times> ('gt, 's, 'm) server) option" where
  "SendMessageProcessor_ConsumerSendMsgBack unzip marshal t request s =
     (let h = back_header (decoded request zero_back_header); b = sv_broker s; response = empty_command
      in case SubscriptionGroupManager_FindSubscriptionGroupConfig (fst marshal) (tm_group t) (bk_home b) (bk_cfg b) (bh_Group h)
           (bk_groups b) (bw_files (bk_world b)) of
        (found, groups, fs) \<Rightarrow>
          (let s1 = s\<lparr>sv_broker := b\<lparr>bk_groups := groups, bk_world := (bk_world b)\<lparr>bw_files := fs\<rparr>\<rparr>\<rparr>
           in case found of
             None \<Rightarrow> Some (response\<lparr>rc_Code := SUBSCRIPTION_GROUP_NOT_EXIST, rc_Remark := ''subscription group not exist''\<rparr>, s1)
           | Some config \<Rightarrow>
               if \<not> HasWriteable (sv_config s1)
               then Some (response\<lparr>rc_Code := NO_PERMISSION, rc_Remark := ''the broker sending message is forbidden''\<rparr>, s1)
               else if RetryQueueNums config \<le> 0 then Some (response\<lparr>rc_Code := SUCCESS\<rparr>, s1)
               else case sv_create_back marshal (tm_create_back t) (GetRetryTopic (bh_Group h)) (RetryQueueNums config) (PERM_WRITE OR PERM_READ)
                   (if bh_UnitMode h then TopicBuildSysFlag False True else 0) s1 of
                 (topicConfig, s2) \<Rightarrow>
                   if \<not> IsWriteable (tc_Perm topicConfig)
                   then Some (response\<lparr>rc_Code := NO_PERMISSION, rc_Remark := ''the topic sending message is forbidden''\<rparr>, s2)
                   else case DefaultMessageStore_LookMessageByOffset unzip (bh_Offset h) (bk_store (sv_broker s2)) of
                     None \<Rightarrow> None
                   | Some (None, ms) \<Rightarrow>
                       Some (response\<lparr>rc_Code := SYSTEM_ERROR, rc_Remark := ''look message by offset failed''\<rparr>, sv_set_store ms (sv_os s2) s2)
                   | Some (Some found, ms) \<Rightarrow>
                       let msgExt = marked_back found; s3 = sv_set_store ms (sv_os s2) s2
                       in if is_dead config h msgExt
                          then (case sv_create_back marshal (tm_create t) (GetDLQTopic (bh_Group h)) DLQ_NUMS_PER_GROUP PERM_WRITE 0 s3 of
                                  (_, s4) \<Rightarrow> put_back t (back_message (sv_config s4) (GetDLQTopic (bh_Group h)) msgExt) s4)
                          else put_back t (back_message (sv_config s3) (GetRetryTopic (bh_Group h)) (delayed h msgExt)) s3))"

section \<open>Requests\<close>

text \<open>\<open>ProcessRequest\<close>: a request of another code has no header and gets no answer.\<close>

definition SendMessageProcessor_ProcessRequest ::
    "(byte list \<Rightarrow> byte list option) \<Rightarrow> (string \<times> RemotingCommand, 'm) hold_map \<Rightarrow> json \<Rightarrow> send_times \<Rightarrow> string \<Rightarrow> string \<Rightarrow> RemotingCommand \<Rightarrow>
     ('gt, 's, 'm) server \<Rightarrow> (RemotingCommand option \<times> ('gt, 's, 'm) server) option" where
  "SendMessageProcessor_ProcessRequest unzip H marshal t diskUtil ctx request s =
     (if rc_Code request = CONSUMER_SEND_MSG_BACK
      then map_option (apfst Some) (SendMessageProcessor_ConsumerSendMsgBack unzip marshal t request s)
      else case parseRequestHeader request of
        None \<Rightarrow> Some (None, s)
      | Some requestHeader \<Rightarrow> SendMessageProcessor_SendMessage H marshal t diskUtil ctx request requestHeader s)"

end
