(* ===== verification/PullM.thy ===== *)
theory PullM
  imports SendM ClientM
begin

text \<open>
  How a broker hands out messages: \<open>stgbroker/pull_message_processor.go\<close> with \<open>stgcommon/filter/filter_api.go\<close>,
  \<open>stgcommon/sysflag/pull_sys_flag.go\<close> and \<open>stgbroker/pagecache/many_message_transfer.go\<close>, on the server of \<^theory_text>\<open>SendM\<close>.

  The regions of the commit log a successful answer was made of are released before the request ends, which undoes their holds
  (lemma \<open>release_after_hold\<close>): the commit log is the one before the read. The body of an event about a moved offset comes from the JSON
  package and is an argument, as are the clock and the functions of \<open>golang-set\<close>, whose \<open>NewSet\<close> may panic on its arguments.
  Strings are ASCII, hooks and statistics are left out. \<open>None\<close> is a panic, also one \<open>generateOffsetMovedEvent\<close> would recover from.
\<close>

unbundle bit_operations_syntax

section \<open>Subscriptions\<close>

text \<open>\<open>strings.Split\<close> with the separator \<open>||\<close>.\<close>

fun split_bars :: "string \<Rightarrow> string list" where
  "split_bars [] = [[]]"
| "split_bars [c] = [[c]]"
| "split_bars (c # d # s) =
     (if c = CHR ''|'' \<and> d = CHR ''|'' then [] # split_bars s
      else case split_bars (d # s) of [] \<Rightarrow> [[c]] | p # ps \<Rightarrow> (c # p) # ps)"

text \<open>What the two sets of a subscription hold.\<close>

datatype sub_elem = Tag string | Code int

type_synonym 's sub_set = "(sub_elem, 's) set_ops"

definition has_code :: "'s sub_set \<Rightarrow> 's \<Rightarrow> int \<Rightarrow> bool" where
  "has_code S s tagsCode = sContains S (Code tagsCode) s"

definition new_subscription :: "'s sub_set \<Rightarrow> string \<Rightarrow> string \<Rightarrow> 's SubscriptionData" where
  "new_subscription S topic subString = SubscriptionData.make [] False topic subString (sNew S) (sNew S) 0"

fun add_tags :: "'s sub_set \<Rightarrow> string list \<Rightarrow> 's SubscriptionData \<Rightarrow> 's SubscriptionData \<times> error option" where
  "add_tags S [] sd = (sd, None)"
| "add_tags S (tag # tags) sd =
     (let trimTag = TrimSpace tag
      in if trimTag \<noteq> []
         then add_tags S tags (SubscriptionData.CodeSet_update (sAdd S (Code (HashCode trimTag)))
                (SubscriptionData.TagsSet_update (sAdd S (Tag trimTag)) sd))
         else (sd, Some ''subString split error''))"

definition BuildSubscriptionData4Ponit ::
    "'s sub_set \<Rightarrow> string \<Rightarrow> string \<Rightarrow> string \<Rightarrow> 's SubscriptionData \<times> error option" where
  "BuildSubscriptionData4Ponit S consumerGroup topic subString =
     (let subscriptionData = new_subscription S topic subString
      in if subString = [] \<or> subString = ''*'' then (SubscriptionData.SubString_update (\<lambda>_. ''*'') subscriptionData, None)
         else add_tags S (split_bars subString) subscriptionData)"

text \<open>
  \<open>FindSubscriptionData\<close> calls \<open>NewSet\<close> with one argument, a slice; the outer option is the panic, the inner one a missing subscription.
\<close>

datatype slice = TagSlice "string list" | CodeSlice "int list"

definition ConsumerGroupInfo_FindSubscriptionData ::
    "(slice \<Rightarrow> 's option) \<Rightarrow> ('st, 'ct, 'gt) client_maps \<Rightarrow> string \<Rightarrow> ('st, 'ct) ConsumerGroupInfo \<Rightarrow> 's SubscriptionData option option" where
  "ConsumerGroupInfo_FindSubscriptionData NewSet M topic cg =
     (case ConsumerGroupInfo_FindSubscriptionDataPlus M topic cg of
        None \<Rightarrow> Some None
      | Some sdPlus \<Rightarrow>
          (case NewSet (TagSlice (SubscriptionDataPlus.TagsSet sdPlus)) of
             None \<Rightarrow> None
           | Some tags \<Rightarrow>
               (case NewSet (CodeSlice (SubscriptionDataPlus.CodeSet sdPlus)) of
                  None \<Rightarrow> None
                | Some codes \<Rightarrow>
                    Some (Some (SubscriptionData.make (SubscriptionDataPlus.SUB_ALL sdPlus) (SubscriptionDataPlus.ClassFilterMode sdPlus)
                      (SubscriptionDataPlus.sd_Topic sdPlus) (SubscriptionDataPlus.SubString sdPlus) tags codes
                      (SubscriptionDataPlus.SubVersion sdPlus))))))"

section \<open>Headers and codes\<close>

definition FLAG_COMMIT_OFFSET :: int where "FLAG_COMMIT_OFFSET = 1"
definition FLAG_SUSPEND :: int where "FLAG_SUSPEND = 2"
definition FLAG_SUBSCRIPTION :: int where "FLAG_SUBSCRIPTION = 4"
definition FLAG_CLASS_FILTER :: int where "FLAG_CLASS_FILTER = 8"

definition BuildSysFlag :: "bool \<Rightarrow> bool \<Rightarrow> bool \<Rightarrow> bool \<Rightarrow> int" where
  "BuildSysFlag commitOffset suspend subscription classFilter =
     (let f1 = (if commitOffset then 0 OR FLAG_COMMIT_OFFSET else 0);
          f2 = (if suspend then f1 OR FLAG_SUSPEND else f1);
          f3 = (if subscription then f2 OR FLAG_SUBSCRIPTION else f2)
      in if classFilter then f3 OR FLAG_CLASS_FILTER else f3)"

definition ClearCommitOffsetFlag :: "int \<Rightarrow> int" where
  "ClearCommitOffsetFlag sysFlag = sysFlag AND (4294967295 XOR FLAG_COMMIT_OFFSET)"

definition HasCommitOffsetFlag :: "int \<Rightarrow> bool" where
  "HasCommitOffsetFlag sysFlag \<longleftrightarrow> sysFlag AND FLAG_COMMIT_OFFSET = FLAG_COMMIT_OFFSET"

definition HasSuspendFlag :: "int \<Rightarrow> bool" where
  "HasSuspendFlag sysFlag \<longleftrightarrow> sysFlag AND FLAG_SUSPEND = FLAG_SUSPEND"

definition HasSubscriptionFlag :: "int \<Rightarrow> bool" where
  "HasSubscriptionFlag sysFlag \<longleftrightarrow> sysFlag AND FLAG_SUBSCRIPTION = FLAG_SUBSCRIPTION"

definition HasClassFilterFlag :: "int \<Rightarrow> bool" where
  "HasClassFilterFlag sysFlag \<longleftrightarrow> sysFlag AND FLAG_CLASS_FILTER = FLAG_CLASS_FILTER"

definition PULL_NOT_FOUND :: int where "PULL_NOT_FOUND = 19"
definition PULL_RETRY_IMMEDIATELY :: int where "PULL_RETRY_IMMEDIATELY = 20"
definition PULL_OFFSET_MOVED :: int where "PULL_OFFSET_MOVED = 21"
definition SUBSCRIPTION_PARSE_FAILED :: int where "SUBSCRIPTION_PARSE_FAILED = 23"
definition SUBSCRIPTION_NOT_EXIST :: int where "SUBSCRIPTION_NOT_EXIST = 24"
definition SUBSCRIPTION_NOT_LATEST :: int where "SUBSCRIPTION_NOT_LATEST = 25"

record PullMessageRequestHeader =
  ph_ConsumerGroup :: string
  ph_Topic :: string
  ph_QueueId :: int
  ph_QueueOffset :: int
  ph_MaxMsgNums :: int
  ph_SysFlag :: int
  ph_CommitOffset :: int
  ph_SuspendTimeoutMillis :: int
  ph_Subscription :: string
  ph_SubVersion :: int

definition zero_pull_header :: custom_header where
  "zero_pull_header = [(''ConsumerGroup'', StringF []), (''Topic'', StringF []), (''QueueId'', IntF 32 0), (''QueueOffset'', IntF 64 0),
     (''MaxMsgNums'', IntF 64 0), (''SysFlag'', IntF 64 0), (''CommitOffset'', IntF 64 0), (''SuspendTimeoutMillis'', IntF 64 0),
     (''Subscription'', StringF []), (''SubVersion'', IntF 64 0)]"

definition pull_header :: "custom_header \<Rightarrow> PullMessageRequestHeader" where
  "pull_header h = \<lparr>ph_ConsumerGroup = string_field h ''ConsumerGroup'', ph_Topic = string_field h ''Topic'',
     ph_QueueId = int_field h ''QueueId'', ph_QueueOffset = int_field h ''QueueOffset'', ph_MaxMsgNums = int_field h ''MaxMsgNums'',
     ph_SysFlag = int_field h ''SysFlag'', ph_CommitOffset = int_field h ''CommitOffset'',
     ph_SuspendTimeoutMillis = int_field h ''SuspendTimeoutMillis'', ph_Subscription = string_field h ''Subscription'',
     ph_SubVersion = int_field h ''SubVersion''\<rparr>"

definition pull_response_header :: "int \<Rightarrow> int \<Rightarrow> int \<Rightarrow> int \<Rightarrow> custom_header" where
  "pull_response_header suggest next mn mx =
     [(''SuggestWhichBrokerId'', IntF 64 suggest), (''NextBeginOffset'', IntF 64 next), (''MinOffset'', IntF 64 mn), (''MaxOffset'', IntF 64 mx)]"

definition pull_code :: "GetMessageStatus \<Rightarrow> int \<Rightarrow> int" where
  "pull_code st queueOffset =
     (case st of
        FOUND \<Rightarrow> SUCCESS
      | MESSAGE_WAS_REMOVING \<Rightarrow> PULL_RETRY_IMMEDIATELY
      | NO_MATCHED_LOGIC_QUEUE \<Rightarrow> if 0 \<noteq> queueOffset then PULL_OFFSET_MOVED else PULL_NOT_FOUND
      | NO_MESSAGE_IN_QUEUE \<Rightarrow> if 0 \<noteq> queueOffset then PULL_OFFSET_MOVED else PULL_NOT_FOUND
      | NO_MATCHED_MESSAGE \<Rightarrow> PULL_RETRY_IMMEDIATELY
      | OFFSET_FOUND_NULL \<Rightarrow> PULL_NOT_FOUND
      | OFFSET_OVERFLOW_BADLY \<Rightarrow> PULL_OFFSET_MOVED
      | OFFSET_OVERFLOW_ONE \<Rightarrow> PULL_NOT_FOUND
      | OFFSET_TOO_SMALL \<Rightarrow> PULL_OFFSET_MOVED)"

section \<open>Events about moved offsets\<close>

record OffsetMovedEvent =
  ev_ConsumerGroup :: string
  ev_MessageQueue :: MessageQueue
  ev_OffsetRequest :: int
  ev_OffsetNew :: int

text \<open>The readings of the clock, and whether a flush to the disk succeeds, while one request is handled.\<close>

record pull_times =
  pt_group :: int
  pt_suspend :: int
  pt_event :: int
  pt_store :: int
  pt_lock :: int
  pt_flushOk :: bool

text \<open>The packages the processor uses.\<close>

record ('st, 'ct, 'gt, 'ss, 'm) pull_packages =
  pk_set :: "'ss sub_set"
  pk_NewSet :: "slice \<Rightarrow> 'ss option"
  pk_clients :: "('st, 'ct, 'gt) client_maps"
  pk_hold :: "(string \<times> RemotingCommand, 'm) hold_map"
  pk_json :: json
  pk_event :: "OffsetMovedEvent \<Rightarrow> byte list"

definition event_message :: "(OffsetMovedEvent \<Rightarrow> byte list) \<Rightarrow> int \<Rightarrow> string \<Rightarrow> OffsetMovedEvent \<Rightarrow> MessageExtBrokerInner" where
  "event_message CustomEncode now brokerAddr event =
     (let m = Message_PutProperty ''KEYS'' (ev_ConsumerGroup event) (Message_PutProperty ''DELAY'' (FormatInt 0)
                (Message_PutProperty ''TAGS'' (ev_ConsumerGroup event) (zero_inner\<lparr>m_Topic := OFFSET_MOVED_EVENT\<rparr>)))
      in m\<lparr>m_Body := CustomEncode event, m_PropertiesString := MessageProperties2String (m_Properties m),
           m_TagsCode := TagsString2tagsCode SINGLE_TAG (Message_GetTags m), m_BornTimestamp := now, m_BornHost := brokerAddr,
           m_StoreHost := brokerAddr\<rparr>)"

definition generateOffsetMovedEvent ::
    "('st, 'ct, 'gt, 'ss, 'm) pull_packages \<Rightarrow> pull_times \<Rightarrow> OffsetMovedEvent \<Rightarrow> ('gt, 's, 'm) server \<Rightarrow> ('gt, 's, 'm) server option" where
  "generateOffsetMovedEvent K t event s =
     map_option (\<lambda>(_, ms, os). sv_set_store ms os s)
       (DefaultMessageStore_PutMessage (pt_store t) (pt_lock t) (pt_flushOk t) (sv_os s)
         (event_message (pk_event K) (pt_event t) (BrokerAddr (sv_config s)) event) (bk_store (sv_broker s)))"

section \<open>A pull request\<close>

text \<open>What is checked once the subscription group may consume: the code and the remark of a refusal, or the subscription.\<close>

definition pull_check ::
    "('st, 'ct, 'gt, 'ss, 'm) pull_packages \<Rightarrow> PullMessageRequestHeader \<Rightarrow> SubscriptionGroupConfig \<Rightarrow> ('gt, 's, 'm) server \<Rightarrow>
     ((int \<times> string) + 'ss SubscriptionData) option" where
  "pull_check K h config s =
     (case sv_topic (ph_Topic h) s of
        None \<Rightarrow> Some (Inl (TOPIC_NOT_EXIST, ''topic not exist, apply first please!''))
      | Some topicConfig \<Rightarrow>
          if \<not> IsReadable (tc_Perm topicConfig) then Some (Inl (NO_PERMISSION, ''the topic pulling message is forbidden''))
          else if ph_QueueId h < 0 \<or> ph_QueueId h \<ge> tc_ReadQueueNums topicConfig then Some (Inl (SYSTEM_ERROR, ''queueId is illagal''))
          else if HasSubscriptionFlag (ph_SysFlag h)
          then (case BuildSubscriptionData4Ponit (pk_set K) (ph_ConsumerGroup h) (ph_Topic h) (ph_Subscription h) of
                  (sd, Some err) \<Rightarrow> Some (Inl (SUBSCRIPTION_PARSE_FAILED, ''parse the consumer's subscription failed''))
                | (sd, None) \<Rightarrow> Some (Inr sd))
          else (case ConsumerManager_GetConsumerGroupInfo (pk_clients K) (ph_ConsumerGroup h) (bk_consumers (sv_broker s)) of
                  None \<Rightarrow> Some (Inl (SUBSCRIPTION_NOT_EXIST, ''the consumer's group info not exist''))
                | Some info \<Rightarrow>
                    if \<not> ConsumeBroadcastEnable config \<and> cg_MessageModel info = BROADCASTING
                    then Some (Inl (NO_PERMISSION, ''the consumer group can not consume by broadcast way''))
                    else (case ConsumerGroupInfo_FindSubscriptionData (pk_NewSet K) (pk_clients K) (ph_Topic h) info of
                            None \<Rightarrow> None
                          | Some None \<Rightarrow> Some (Inl (SUBSCRIPTION_NOT_EXIST, ''the consumer's subscription not exist''))
                          | Some (Some sd) \<Rightarrow>
                              if SubscriptionData.SubVersion sd < ph_SubVersion h
                              then Some (Inl (SUBSCRIPTION_NOT_LATEST, ''the consumer's subscription not latest''))
                              else Some (Inr sd))))"

text \<open>\<open>NewManyMessageTransfer\<close> with \<open>EncodeBody\<close>: the records become the body of the response.\<close>

definition NewManyMessageTransfer :: "RemotingCommand \<Rightarrow> GetMessageResult \<Rightarrow> RemotingCommand option" where
  "NewManyMessageTransfer remotingCommand getMessageResult =
     (if MessageBufferList getMessageResult = [] then Some remotingCommand
      else map_option (\<lambda>bs. remotingCommand\<lparr>rc_Body := Some (concat bs)\<rparr>)
             (those (map MappedByteBuffer_Bytes (MessageBufferList getMessageResult))))"

definition sv_hold_request :: "('st, 'ct, 'gt, 'ss, 'm) pull_packages \<Rightarrow> pull_times \<Rightarrow> string \<Rightarrow> RemotingCommand \<Rightarrow>
     PullMessageRequestHeader \<Rightarrow> ('gt, 's, 'm) server \<Rightarrow> ('gt, 's, 'm) server" where
  "sv_hold_request K t ctx request h s =
     (let pollingTimeMills = (if LongPollingEnable (sv_config s) then ph_SuspendTimeoutMillis h else ShortPollingTimeMills (sv_config s))
      in s\<lparr>sv_hold := SuspendPullRequest (pk_hold K) (ph_Topic h) (ph_QueueId h)
             (NewPullRequest (ctx, request) pollingTimeMills (pt_suspend t) (ph_QueueOffset h)) (sv_hold s)\<rparr>)"

definition is_slave :: "('gt, 's, 'm) server \<Rightarrow> bool" where
  "is_slave s \<longleftrightarrow> BrokerRoleConfig (ms_config (bk_store (sv_broker s))) = SLAVE"

text \<open>What is done with the result of the store; \<open>ms\<close> is the store after the read.\<close>

definition pull_answer ::
    "('st, 'ct, 'gt, 'ss, 'm) pull_packages \<Rightarrow> pull_times \<Rightarrow> bool \<Rightarrow> string \<Rightarrow> RemotingCommand \<Rightarrow> PullMessageRequestHeader \<Rightarrow>
     SubscriptionGroupConfig \<Rightarrow> RemotingCommand \<Rightarrow> GetMessageResult \<Rightarrow> DefaultMessageStore \<Rightarrow> ('gt, 's, 'm) server \<Rightarrow>
     (RemotingCommand option \<times> ('gt, 's, 'm) server) option" where
  "pull_answer K t brokerAllowSuspend ctx request h config response getMessageResult ms s =
     (let code = pull_code (gmr_Status getMessageResult) (ph_QueueOffset h);
          next = NextBeginOffset getMessageResult; mn = gmr_MinOffset getMessageResult; mx = gmr_MaxOffset getMessageResult;
          suggest = (if SuggestPullingFromSlave getMessageResult then WhichBrokerWhenConsumeSlowly config else sg_BrokerId config);
          r = response\<lparr>rc_Code := code, rc_Remark := GetMessageStatus_String (gmr_Status getMessageResult),
                rc_CustomHeader := Some (pull_response_header suggest next mn mx)\<rparr>;
          s1 = sv_set_store ms (sv_os s) s
      in if code = SUCCESS
         then (case NewManyMessageTransfer r getMessageResult of
                 None \<Rightarrow> None
               | Some r1 \<Rightarrow>
                   Some (None, (sv_set_store (ms\<lparr>ms_CommitLog := ms_CommitLog (bk_store (sv_broker s))\<rparr>) (sv_os s) s)
                     \<lparr>sv_written := sv_written s @ [(ctx, r1)]\<rparr>))
         else if code = PULL_NOT_FOUND
         then if brokerAllowSuspend \<and> HasSuspendFlag (ph_SysFlag h) then Some (None, sv_hold_request K t ctx request h s1)
              else Some (Some r, s1)
         else if code = PULL_OFFSET_MOVED
         then if \<not> is_slave s1 \<or> OffsetCheckInSlave (sv_config s1)
              then map_option (\<lambda>s2. (Some r, s2)) (generateOffsetMovedEvent K t
                     \<lparr>ev_ConsumerGroup = ph_ConsumerGroup h,
                      ev_MessageQueue = \<lparr>mq_Topic = ph_Topic h, mq_BrokerName = BrokerName (bk_cfg (sv_broker s1)), mq_QueueId = ph_QueueId h\<rparr>,
                      ev_OffsetRequest = ph_QueueOffset h, ev_OffsetNew = next\<rparr> s1)
              else Some (Some (r\<lparr>rc_Code := PULL_RETRY_IMMEDIATELY,
                     rc_CustomHeader := Some (pull_response_header (sg_BrokerId config) next mn mx)\<rparr>), s1)
         else Some (Some r, s1))"

text \<open>The offset a consumer reports with its first request is stored at the end.\<close>

definition pull_commit :: "bool \<Rightarrow> PullMessageRequestHeader \<Rightarrow> ('gt, 's, 'm) server \<Rightarrow> ('gt, 's, 'm) server" where
  "pull_commit brokerAllowSuspend h s =
     (if brokerAllowSuspend \<and> HasCommitOffsetFlag (ph_SysFlag h) \<and> \<not> is_slave s
      then s\<lparr>sv_broker := (sv_broker s)\<lparr>bk_offsets := ConsumerOffsetManager_CommitOffset (ph_ConsumerGroup h) (ph_Topic h) (ph_QueueId h)
               (ph_CommitOffset h) (bk_offsets (sv_broker s))\<rparr>\<rparr>
      else s)"

definition PullMessageProcessor_processRequest ::
    "('st, 'ct, 'gt, 'ss, 'm) pull_packages \<Rightarrow> pull_times \<Rightarrow> bool \<Rightarrow> string \<Rightarrow> RemotingCommand \<Rightarrow> ('gt, 's, 'm) server \<Rightarrow>
     (RemotingCommand option \<times> ('gt, 's, 'm) server) option" where
  "PullMessageProcessor_processRequest K t brokerAllowSuspend ctx request s =
     (let h = pull_header (decoded request zero_pull_header); b = sv_broker s;
          response = (CreateDefaultResponseCommand [] (Some (pull_response_header 0 0 0 0)))\<lparr>rc_Opaque := rc_Opaque request\<rparr>;
          refuse = (\<lambda>code remark s. Some (Some (response\<lparr>rc_Code := code, rc_Remark := remark\<rparr>), s))
      in if \<not> HasReadable (sv_config s) then refuse NO_PERMISSION ''the broker pulling message is forbidden'' s
         else case SubscriptionGroupManager_FindSubscriptionGroupConfig (fst (pk_json K)) (pt_group t) (bk_home b) (bk_cfg b) (ph_ConsumerGroup h)
             (bk_groups b) (bw_files (bk_world b)) of
           (found, groups, fs) \<Rightarrow>
             (let s1 = s\<lparr>sv_broker := b\<lparr>bk_groups := groups, bk_world := (bk_world b)\<lparr>bw_files := fs\<rparr>\<rparr>\<rparr>
              in case found of
                None \<Rightarrow> refuse SUBSCRIPTION_GROUP_NOT_EXIST ''subscription group not exist'' s1
              | Some config \<Rightarrow>
                  if \<not> ConsumeEnable config then refuse NO_PERMISSION ''subscription group no permission'' s1
                  else (case pull_check K h config s1 of
                          None \<Rightarrow> None
                        | Some (Inl (code, remark)) \<Rightarrow> refuse code remark s1
                        | Some (Inr sd) \<Rightarrow>
                            map_option (\<lambda>(r, s2). (r, pull_commit brokerAllowSuspend h s2))
                              (case DefaultMessageStore_GetMessage (has_code (pk_set K)) (ph_Topic h) (ph_QueueId h) (ph_QueueOffset h)
                                    (to_int32 (ph_MaxMsgNums h)) (Some sd) (bk_store (sv_broker s1)) of
                                 None \<Rightarrow> None
                               | Some (None, ms) \<Rightarrow> refuse SYSTEM_ERROR ''store getMessage return null'' (sv_set_store ms (sv_os s1) s1)
                               | Some (Some result, ms) \<Rightarrow> pull_answer K t brokerAllowSuspend ctx request h config response result ms s1))))"

definition PullMessageProcessor_ProcessRequest ::
    "('st, 'ct, 'gt, 'ss, 'm) pull_packages \<Rightarrow> pull_times \<Rightarrow> string \<Rightarrow> RemotingCommand \<Rightarrow> ('gt, 's, 'm) server \<Rightarrow>
     (RemotingCommand option \<times> ('gt, 's, 'm) server) option" where
  "PullMessageProcessor_ProcessRequest K t ctx request s = PullMessageProcessor_processRequest K t True ctx request s"

text \<open>The goroutine that handles a woken request; \<open>isClosed\<close> says whether the connection was closed meanwhile.\<close>

definition run_woken ::
    "('st, 'ct, 'gt, 'ss, 'm) pull_packages \<Rightarrow> pull_times \<Rightarrow> bool \<Rightarrow> string \<Rightarrow> RemotingCommand \<Rightarrow> ('gt, 's, 'm) server \<Rightarrow>
     ('gt, 's, 'm) server option" where
  "run_woken K t isClosed ctx request s =
     map_option (\<lambda>(response, s1).
       case response of
         None \<Rightarrow> s1
       | Some r \<Rightarrow>
           if isClosed then s1
           else s1\<lparr>sv_written := sv_written s1 @ [(ctx, MarkResponseType (r\<lparr>rc_Opaque := rc_Opaque request\<rparr>))]\<rparr>)
       (PullMessageProcessor_processRequest K t False ctx request s)"

end
