(* ===== verification/DeliveryM.thy ===== *)
theory DeliveryM
  imports PullM
begin

text \<open>
  From a producer to a consumer through one broker: what \<^theory_text>\<open>SendM\<close> stores is what \<^theory_text>\<open>PullM\<close> hands out, on the store of
  \<^theory_text>\<open>StoreFlow\<close>. The state of the server is well formed when its store is (\<open>store_inv\<close>), for the messages accepted so far.
\<close>

section \<open>A stored record as a client decodes it\<close>

text \<open>What the decoder makes of the record of a message: \<open>q\<close> is its offset in the queue, \<open>p\<close> the one in the log.\<close>

definition as_pulled :: "MessageExtBrokerInner \<Rightarrow> int \<Rightarrow> int \<Rightarrow> byte list \<Rightarrow> int \<Rightarrow> byte list \<Rightarrow> int \<Rightarrow> MessageExt" where
  "as_pulled m q p bh bp sh sp =
     \<lparr>m_Topic = m_Topic m, m_Flag = m_Flag m, m_Properties = String2messageProperties (m_PropertiesString m), m_Body = m_Body m,
      m_QueueId = m_QueueId m, m_StoreSize = msg_len m, m_QueueOffset = q, m_SysFlag = m_SysFlag m, m_BornTimestamp = m_BornTimestamp m,
      m_BornHost = JoinHostPort bh bp, m_StoreTimestamp = m_StoreTimestamp m, m_StoreHost = JoinHostPort sh sp,
      m_MsgId = createMessageId sh sp p, m_CommitLogOffset = p, m_BodyCRC = m_BodyCRC m, m_ReconsumeTimes = m_ReconsumeTimes m,
      m_PreparedTransactionOffset = m_PreparedTransactionOffset m\<rparr>"

lemma record_decodes:
  assumes "msg_fits m" and "in_int 64 q" and "in_int 64 p" and "m_SysFlag m AND CompressedFlag \<noteq> CompressedFlag"
    and "m_BornHost m = JoinHostPort bh bp" "m_StoreHost m = JoinHostPort sh sp"
    and "length bh = 4" "length sh = 4" "in_int 32 bp" "in_int 32 sp"
  shows "decodeMessageExt unzip (record_bytes m q p @ rest) True True = Some (as_pulled m q p bh bp sh sp, rest)"
proof -
  have h: "hostStringToBytes (m_BornHost m) = bh @ Int32ToBytes bp" "hostStringToBytes (m_StoreHost m) = sh @ Int32ToBytes sp"
    using assms(5-10) by (simp_all add: hostStringToBytes_def SplitHostPort_JoinHostPort ParseIP_IPv4String net_IPv4_def)
  have t: "unat (hd (Int8ToBytes (int (length (m_Topic m))))) = length (m_Topic m)" "length (Int8ToBytes (int (length (m_Topic m)))) = 1"
    using assms(1) by (simp_all add: Int8ToBytes_def msg_fits_def unat_length_byte')
  have l: "in_int 32 (msg_len m)" by (simp add: msg_len_def to_int32_in)
  have ps: "Bytes2messageProperties [] = []" "bytes_of_string [] = []"
    by (simp_all add: Bytes2messageProperties_def props_loop.simps bytes_of_string_def)
  show ?thesis
    using assms(1-4,7-10) t l ps
    by (simp add: decodeMessageExt_def record_split [OF assms(1)] h rd_appends rd_append to_int32_in msg_fits_def as_pulled_def
       in_int_length tail_bytes_def String2messageProperties_def)
qed

section \<open>The store under the server\<close>

text \<open>Asking for the largest offset of a queue changes nothing a reader or writer of the store sees.\<close>

lemma max_touch:
  assumes "store_inv os ms E" and "DefaultMessageStore_GetMaxOffsetInQueue t i ms = (n, ms1)"
  shows "store_inv os ms1 E" and "stored ms1 = stored ms" and "ms_config ms1 = ms_config ms"
    and "ms_DispatchMessageService ms1 = ms_DispatchMessageService ms" and "ms_IndexService ms1 = ms_IndexService ms"
proof -
  obtain cq where fnd: "DefaultMessageStore_findConsumeQueue t i ms = (cq, ms1)"
    using assms(2) by (auto simp: DefaultMessageStore_GetMaxOffsetInQueue_def split: prod.splits)
  note f = find_queue [OF fnd]
  have f0: "ms_config ms1 = ms_config ms" "ms_CommitLog ms1 = ms_CommitLog ms" "ShutdownFlag ms1 = ShutdownFlag ms"
      "ms_RunningFlags ms1 = ms_RunningFlags ms" "ms_DispatchMessageService ms1 = ms_DispatchMessageService ms"
      "ms_StoreCheckpoint ms1 = ms_StoreCheckpoint ms" "ms_IndexService ms1 = ms_IndexService ms"
    by (subst f(3); simp)+
  show "store_inv os ms1 E" "stored ms1 = stored ms"
    using store_inv_touch [OF assms(1), of ms1] f0 f(2) by (simp_all add: ms_frame_def)
  show "ms_config ms1 = ms_config ms" "ms_DispatchMessageService ms1 = ms_DispatchMessageService ms" "ms_IndexService ms1 = ms_IndexService ms"
    using f0 by simp_all
qed

lemma drain_inv:
  assumes "store_inv os ms E" and "index_room ms (length (requestsChan (ms_DispatchMessageService ms)))"
  shows "\<exists>ms1 os1. dispatch_steps (length (requestsChan (ms_DispatchMessageService ms))) os ms = Some (ms1, os1) \<and>
     store_inv os1 ms1 E \<and> requestsChan (ms_DispatchMessageService ms1) = [] \<and> ms_config ms1 = ms_config ms"
  using assms
proof (induction "length (requestsChan (ms_DispatchMessageService ms))" arbitrary: os ms)
  case (Suc n)
  then obtain req rest where ch: "requestsChan (ms_DispatchMessageService ms) = req # rest"
    by (cases "requestsChan (ms_DispatchMessageService ms)") auto
  have room: "index_room ms (Suc n)" "index_room ms 1" using Suc.prems(2) Suc.hyps(2) ch by (auto simp: index_room_def)
  obtain ms1 os1 where d: "DispatchMessageService_Start_step os ms = Some (ms1, os1)" "store_inv os1 ms1 E"
      "requestsChan (ms_DispatchMessageService ms1) = rest" "ms_config ms1 = ms_config ms" "ms_IndexService ms1 = index_after req ms"
    using dispatch_step [OF Suc.prems(1) ch room(2)] by blast
  have n: "n = length (requestsChan (ms_DispatchMessageService ms1))" using Suc.hyps(2) ch d(3) by simp
  from Suc.hyps(1) [OF n d(2) index_room_after [OF room(1) d(4,5), unfolded n]] n ch d show ?case by auto
qed simp

section \<open>Servers\<close>

definition server_inv :: "accepted \<Rightarrow> ('gt, 's, 'm) server \<Rightarrow> bool" where
  "server_inv E s \<longleftrightarrow> store_inv (sv_os s) (bk_store (sv_broker s)) E"

definition all_dispatched :: "('gt, 's, 'm) server \<Rightarrow> bool" where
  "all_dispatched s \<longleftrightarrow> requestsChan (ms_DispatchMessageService (bk_store (sv_broker s))) = []"

text \<open>
  The channel of the index service has room for the requests that wait in the dispatcher and for \<open>n\<close> more. It holds 300000
  requests, and only the index service takes them out; when it is full the dispatcher waits, and no message becomes readable.
\<close>

definition sv_room :: "nat \<Rightarrow> ('gt, 's, 'm) server \<Rightarrow> bool" where
  "sv_room n s \<longleftrightarrow> index_room (bk_store (sv_broker s)) (length (requestsChan (ms_DispatchMessageService (bk_store (sv_broker s)))) + n)"

text \<open>One more request waits in the dispatcher, and the index is as it was.\<close>

definition one_more :: "('gt, 's, 'm) server \<Rightarrow> ('gt, 's, 'm) server \<Rightarrow> bool" where
  "one_more s s1 \<longleftrightarrow> ms_config (bk_store (sv_broker s1)) = ms_config (bk_store (sv_broker s)) \<and>
     ms_IndexService (bk_store (sv_broker s1)) = ms_IndexService (bk_store (sv_broker s)) \<and>
     length (requestsChan (ms_DispatchMessageService (bk_store (sv_broker s1)))) =
       Suc (length (requestsChan (ms_DispatchMessageService (bk_store (sv_broker s)))))"

lemma sv_room_one_more: "sv_room (Suc n) s \<Longrightarrow> one_more s s1 \<Longrightarrow> sv_room n s1"
  by (simp add: sv_room_def one_more_def index_room_def)

lemma sv_room_idle: "idle_store (bk_store (sv_broker s)) \<Longrightarrow> sv_room 2 s"
  by (simp add: sv_room_def idle_store_def index_room_def requestQueue_capacity_def)

text \<open>What the operations on the store leave alone.\<close>

definition same_rules :: "('gt, 's, 'm) server \<Rightarrow> ('gt, 's, 'm) server \<Rightarrow> bool" where
  "same_rules s s1 \<longleftrightarrow> sv_config s1 = sv_config s \<and> bk_cfg (sv_broker s1) = bk_cfg (sv_broker s) \<and>
     bk_topics (sv_broker s1) = bk_topics (sv_broker s) \<and> bk_groups (sv_broker s1) = bk_groups (sv_broker s) \<and>
     ms_config (bk_store (sv_broker s1)) = ms_config (bk_store (sv_broker s))"

lemma same_rules_trans: "same_rules s s1 \<Longrightarrow> same_rules s1 s2 \<Longrightarrow> same_rules s s2"
  by (simp add: same_rules_def)

text \<open>The dispatcher, run as often as requests wait.\<close>

definition sv_dispatch :: "('gt, 's, 'm) server \<Rightarrow> ('gt, 's, 'm) server option" where
  "sv_dispatch s =
     map_option (\<lambda>(ms, os). sv_set_store ms os s)
       (dispatch_steps (length (requestsChan (ms_DispatchMessageService (bk_store (sv_broker s))))) (sv_os s) (bk_store (sv_broker s)))"

lemma sv_dispatch_ok:
  assumes "server_inv E s" and "sv_room 0 s"
  shows "\<exists>s1. sv_dispatch s = Some s1 \<and> server_inv E s1 \<and> all_dispatched s1 \<and> same_rules s s1 \<and> sv_written s1 = sv_written s"
  using drain_inv [OF assms(1) [unfolded server_inv_def]] assms(2) [unfolded sv_room_def]
  by (fastforce simp: sv_dispatch_def server_inv_def all_dispatched_def same_rules_def sv_set_store_def)

lemma sv_notify_keeps:
  assumes "server_inv E s" and "cmap_laws H"
  shows "server_inv E (sv_notify H now t i mx s)" and "same_rules s (sv_notify H now t i mx s)"
    and "sv_written (sv_notify H now t i mx s) = sv_written s" and "one_more s0 s \<Longrightarrow> one_more s0 (sv_notify H now t i mx s)"
    and "\<And>r. r \<in> set (held H (buildKey t i) (sv_hold (sv_notify H now t i mx s))) \<Longrightarrow> mx \<le> PullFromThisOffset r"
proof -
  obtain n ms where g: "DefaultMessageStore_GetMaxOffsetInQueue t i (bk_store (sv_broker s)) = (n, ms)" by fastforce
  note m = max_touch [OF assms(1) [unfolded server_inv_def] g]
  show "server_inv E (sv_notify H now t i mx s)" "same_rules s (sv_notify H now t i mx s)"
    "sv_written (sv_notify H now t i mx s) = sv_written s" "one_more s0 s \<Longrightarrow> one_more s0 (sv_notify H now t i mx s)"
    using m assms(1) by (simp_all add: sv_notify_def g Let_def server_inv_def same_rules_def one_more_def)
  show "mx \<le> PullFromThisOffset r" if "r \<in> set (held H (buildKey t i) (sv_hold (sv_notify H now t i mx s)))" for r
    using that by (auto simp: sv_notify_def g Let_def notify_spec(1) [OF assms(2)] wakes_def split: if_splits)
qed

section \<open>Sending\<close>

text \<open>The checks a message passes: an existing topic with the queue, and nothing that forbids the message.\<close>

definition may_send :: "SendMessageRequestHeader \<Rightarrow> TopicConfig \<Rightarrow> ('gt, 's, 'm) server \<Rightarrow> bool" where
  "may_send rh tc s \<longleftrightarrow> HasWriteable (sv_config s) \<and> TopicConfigManager_isTopicCanSendMessage (bk_cfg (sv_broker s)) (rh_Topic rh) \<and>
     sv_topic (rh_Topic rh) s = Some tc \<and> 0 \<le> rh_QueueId rh \<and>
     (rh_QueueId rh < tc_WriteQueueNums tc \<or> rh_QueueId rh < tc_ReadQueueNums tc) \<and>
     \<not> (RejectTransactionMessage (sv_config s) \<and> prop_at (String2messageProperties (rh_Properties rh)) ''TRAN_MSG'' \<noteq> [])"

lemma msgCheck_ok: "may_send rh tc s \<Longrightarrow> msgCheck marshal t rh s = (None, s)"
  by (auto simp: may_send_def msgCheck_def msg_topic_def Let_def)

lemma inner_message_fields [simp]:
  "m_Topic (inner_message cfg ctx request rh tc) = rh_Topic rh" "m_QueueId (inner_message cfg ctx request rh tc) = rh_QueueId rh"
  "m_Body (inner_message cfg ctx request rh tc) = body_bytes request"
  "m_Properties (inner_message cfg ctx request rh tc) = String2messageProperties (rh_Properties rh)"
  "m_PropertiesString (inner_message cfg ctx request rh tc) = rh_Properties rh"
  "m_BornHost (inner_message cfg ctx request rh tc) = ctx" "m_StoreHost (inner_message cfg ctx request rh tc) = sv_StoreHost cfg"
  "m_TagsCode (inner_message cfg ctx request rh tc) =
     TagsString2tagsCode (tc_TopicFilterType tc) (prop_at (String2messageProperties (rh_Properties rh)) ''TAGS'')"
  by (simp_all add: inner_message_def Let_def)

text \<open>The message \<open>SendMessage\<close> hands to the store, as the store completes it.\<close>

definition sent_message :: "send_times \<Rightarrow> string \<Rightarrow> RemotingCommand \<Rightarrow> SendMessageRequestHeader \<Rightarrow> TopicConfig \<Rightarrow> ('gt, 's, 'm) server \<Rightarrow>
     MessageExtBrokerInner" where
  "sent_message t ctx request rh tc s = stamped (tm_store t) (tm_lock t) (inner_message (sv_config s) ctx request rh tc)"

text \<open>\<open>msg_fits\<close> and the limits of the store (\<open>put_args\<close>) for this message.\<close>

definition storable_request :: "accepted \<Rightarrow> send_times \<Rightarrow> string \<Rightarrow> RemotingCommand \<Rightarrow> SendMessageRequestHeader \<Rightarrow> TopicConfig \<Rightarrow>
     ('gt, 's, 'm) server \<Rightarrow> bool" where
  "storable_request E t ctx request rh tc s \<longleftrightarrow>
     put_args (tm_store t) (tm_lock t) (inner_message (sv_config s) ctx request rh tc) (bk_store (sv_broker s)) E"

definition status_code :: "PutMessageStatus \<Rightarrow> int" where
  "status_code st = fst (put_answer [] st)"

lemma default_ext [simp]: "rc_ExtFields (CreateDefaultResponseCommand env h) = Some []"
  by (simp add: CreateDefaultResponseCommand_def CreateResponseCommand_def setCMDVersion_def MarkResponseType_def Let_def split: option.split sum.split)

lemma send_stored:
  assumes "server_inv E s" and "cmap_laws H" and "parseRequestHeader request = Some rh" and "may_send rh tc s"
    and "storable_request E t ctx request rh tc s" and "m = sent_message t ctx request rh tc s"
  shows "\<exists>r s1 answer. SendMessageProcessor_ProcessRequest unzip H marshal t diskUtil ctx request s = Some (None, s1) \<and>
     server_inv (accept m r E) s1 \<and> same_rules s s1 \<and> LogicsOffset r = int (length (E (rh_Topic rh) (rh_QueueId rh))) \<and>
     sv_written s1 = sv_written s @ (if IsOnewayRPC request then [] else [(ctx, answer)]) \<and>
     rc_Code answer = status_code (put_status (tm_flushOk t) m (ms_CommitLog (bk_store (sv_broker s)))) \<and>
     rc_Opaque answer = rc_Opaque request \<and> rc_ExtFields answer = Some [] \<and>
     rc_CustomHeader answer = Some (send_response_header (MsgId r) (rh_QueueId rh) (LogicsOffset r)) \<and>
     (LongPollingEnable (sv_config s) \<longrightarrow>
        (\<forall>w \<in> set (held H (buildKey (rh_Topic rh) (rh_QueueId rh)) (sv_hold s1)). LogicsOffset r < PullFromThisOffset w)) \<and>
     one_more s s1"
proof -
  let ?inner = "inner_message (sv_config s) ctx request rh tc" and ?t = "rh_Topic rh" and ?q = "rh_QueueId rh"
  let ?st = "put_status (tm_flushOk t) m (ms_CommitLog (bk_store (sv_broker s)))"
  have mf: "m_Topic m = ?t" "m_QueueId m = ?q" using assms(6) by (simp_all add: sent_message_def stamped_def)
  obtain r ms os where p: "DefaultMessageStore_PutMessage (tm_store t) (tm_lock t) (tm_flushOk t) (sv_os s) ?inner (bk_store (sv_broker s)) =
       Some (Some \<lparr>pmr_PutMessageStatus = ?st, pmr_AppendMessageResult = Some r\<rparr>, ms, os)"
      "LogicsOffset r = int (length (E ?t ?q))" "store_inv os ms (accept m r E)" "ms_config ms = ms_config (bk_store (sv_broker s))"
      "ms_IndexService ms = ms_IndexService (bk_store (sv_broker s))"
      "requestsChan (ms_DispatchMessageService ms) = requestsChan (ms_DispatchMessageService (bk_store (sv_broker s))) @ [dispatch_of m r]"
    using put_step [OF assms(1) [unfolded server_inv_def] assms(5) [unfolded storable_request_def], of m "tm_flushOk t"] assms(6)
    by (auto simp: sent_message_def mf stamped_def)
  have st: "put_answer diskUtil ?st = (status_code ?st, [], True)" by (simp add: put_answer_def status_code_def put_status_def)
  let ?s0 = "sv_set_store ms os s"
  define answer where "answer = (CreateDefaultResponseCommand [] (Some (send_response_header [] 0 0)))\<lparr>rc_Opaque := rc_Opaque request,
       rc_Code := status_code ?st, rc_Remark := [], rc_CustomHeader := Some (send_response_header (MsgId r) ?q (LogicsOffset r))\<rparr>"
  let ?s2 = "DoResponse ctx request answer ?s0"
  define s1 where "s1 = (if LongPollingEnable (sv_config ?s2) then sv_notify H (tm_wake t) ?t ?q (LogicsOffset r + 1) ?s2 else ?s2)"
  have c: "rc_Code request \<noteq> CONSUMER_SEND_MSG_BACK"
    using assms(3) by (auto simp: parseRequestHeader_def SEND_MESSAGE_def SEND_MESSAGE_V2_def CONSUMER_SEND_MSG_BACK_def split: if_splits)
  have may: "\<not> ?q < 0" "sv_topic ?t s = Some tc"
      "\<not> (RejectTransactionMessage (sv_config s) \<and> prop_at (String2messageProperties (rh_Properties rh)) ''TRAN_MSG'' \<noteq> [])"
    using assms(4) by (auto simp: may_send_def)
  have run: "SendMessageProcessor_ProcessRequest unzip H marshal t diskUtil ctx request s = Some (None, s1)"
    using c may p(1) st
    by (simp add: SendMessageProcessor_ProcessRequest_def assms(3) SendMessageProcessor_SendMessage_def msgCheck_ok [OF assms(4)] Let_def
        s1_def answer_def)
  have s2: "server_inv (accept m r E) ?s2" "same_rules s ?s2"
      "sv_written ?s2 = sv_written s @ (if IsOnewayRPC request then [] else [(ctx, answer)])" "sv_config ?s2 = sv_config s" "one_more s ?s2"
    using p(3-6) by (simp_all add: DoResponse_def server_inv_def sv_set_store_def same_rules_def one_more_def)
  note k = sv_notify_keeps [OF s2(1) assms(2), where now = "tm_wake t" and t = ?t and i = ?q and mx = "LogicsOffset r + 1"]
  have "server_inv (accept m r E) s1" "same_rules s s1" "sv_written s1 = sv_written ?s2" "one_more s s1"
    using k(1-3) k(4) [OF s2(5)] s2(1,2,5) same_rules_trans [OF s2(2) k(2)] by (simp_all add: s1_def)
  moreover have "LogicsOffset r < PullFromThisOffset w"
    if "LongPollingEnable (sv_config s)" "w \<in> set (held H (buildKey ?t ?q) (sv_hold s1))" for w
    using k(5) [of w] that s2(4) by (simp add: s1_def)
  ultimately show ?thesis
    using run p(2) s2(3) by (intro exI [of _ r] exI [of _ s1] exI [of _ answer]) (simp add: answer_def)
qed

section \<open>Pulling\<close>

text \<open>The checks a pull request with its own subscription passes; \<open>sd\<close> is the subscription.\<close>

definition may_pull :: "('st, 'ct, 'gt, 'ss, 'm) pull_packages \<Rightarrow> PullMessageRequestHeader \<Rightarrow> SubscriptionGroupConfig \<Rightarrow> TopicConfig \<Rightarrow>
     'ss SubscriptionData \<Rightarrow> ('gt, 's, 'm) server \<Rightarrow> bool" where
  "may_pull K h config tc sd s \<longleftrightarrow> HasReadable (sv_config s) \<and>
     SubscriptionGroupTable_Get (ph_ConsumerGroup h) (bk_groups (sv_broker s)) = Some config \<and> ConsumeEnable config \<and>
     sv_topic (ph_Topic h) s = Some tc \<and> IsReadable (tc_Perm tc) \<and> 0 \<le> ph_QueueId h \<and> ph_QueueId h < tc_ReadQueueNums tc \<and>
     HasSubscriptionFlag (ph_SysFlag h) \<and>
     BuildSubscriptionData4Ponit (pk_set K) (ph_ConsumerGroup h) (ph_Topic h) (ph_Subscription h) = (sd, None)"

lemma may_pull_same: "same_rules s s1 \<Longrightarrow> may_pull K h config tc sd s1 = may_pull K h config tc sd s"
  by (simp add: may_pull_def same_rules_def sv_topic_def HasReadable_def)

lemma those_map_Some: "those (map (\<lambda>x. Some (f x)) xs) = Some (map f xs)"
  by (induction xs) auto

lemma transfer_gets:
  assumes "gets res bs" and "bs \<noteq> []"
  shows "NewManyMessageTransfer r res = Some (r\<lparr>rc_Body := Some (concat (map e_bytes bs))\<rparr>)"
proof -
  have "map MappedByteBuffer_Bytes (MessageBufferList res) = map (\<lambda>e. Some (e_bytes e)) bs" "MessageBufferList res \<noteq> []"
    using assms by (auto simp: gets_def comp_def dest: map_eq_imp_length_eq)
  then show ?thesis by (simp add: NewManyMessageTransfer_def those_map_Some)
qed

text \<open>The answer of a pull is a response with the request's number and the offset to go on from.\<close>

definition pulled :: "SubscriptionGroupConfig \<Rightarrow> RemotingCommand \<Rightarrow> int \<Rightarrow> int \<Rightarrow> int \<Rightarrow> RemotingCommand \<Rightarrow> bool" where
  "pulled config request code next mx r \<longleftrightarrow> rc_Code r = code \<and> rc_Opaque r = rc_Opaque request \<and> IsResponseType r \<and> rc_ExtFields r = Some [] \<and>
     (\<exists>suggest \<in> {sg_BrokerId config, WhichBrokerWhenConsumeSlowly config}. rc_CustomHeader r = Some (pull_response_header suggest next 0 mx))"

lemma default_is_response: "IsResponseType (CreateDefaultResponseCommand env h)"
  by (simp add: CreateDefaultResponseCommand_def CreateResponseCommand_def setCMDVersion_def MarkResponseType_def IsResponseType_def
      empty_command_def CurrentVersion_def rpcType_def Let_def split: option.split)

lemma IsResponseType_flag: "rc_Flag r = rc_Flag r1 \<Longrightarrow> IsResponseType r = IsResponseType r1"
  by (simp add: IsResponseType_def)

lemma processRequest_passed:
  assumes "may_pull K h config tc sd s" and "h = pull_header (decoded request zero_pull_header)"
    and "DefaultMessageStore_GetMessage (has_code (pk_set K)) (ph_Topic h) (ph_QueueId h) (ph_QueueOffset h) (to_int32 (ph_MaxMsgNums h))
           (Some sd) (bk_store (sv_broker s)) = Some (Some res, ms)"
  shows "PullMessageProcessor_processRequest K t allow ctx request s =
     map_option (\<lambda>(r, s2). (r, pull_commit allow h s2))
       (pull_answer K t allow ctx request h config
         ((CreateDefaultResponseCommand [] (Some (pull_response_header 0 0 0 0)))\<lparr>rc_Opaque := rc_Opaque request\<rparr>) res ms s)"
proof -
  have c: "pull_check K h config s = Some (Inr sd)" using assms(1) by (simp add: may_pull_def pull_check_def)
  have s: "s\<lparr>sv_broker := (sv_broker s)\<lparr>bk_groups := bk_groups (sv_broker s),
      bk_world := (bk_world (sv_broker s))\<lparr>bw_files := bw_files (bk_world (sv_broker s))\<rparr>\<rparr>\<rparr> = s"
    by simp
  show ?thesis
    using assms(1)
    by (simp add: PullMessageProcessor_processRequest_def may_pull_def SubscriptionGroupManager_FindSubscriptionGroupConfig_def Let_def
        flip: assms(2)) (simp add: c assms(3))
qed

lemma pull_commit_keeps [simp]:
  "sv_os (pull_commit allow h s) = sv_os s" "bk_store (sv_broker (pull_commit allow h s)) = bk_store (sv_broker s)"
  "sv_written (pull_commit allow h s) = sv_written s" "same_rules s1 (pull_commit allow h s) = same_rules s1 s"
  by (simp_all add: pull_commit_def same_rules_def)

lemma pull_returns:
  assumes "server_inv E s" and "may_pull K h config tc sd s" and "h = pull_header (decoded request zero_pull_header)"
    and "good_queue (ph_Topic h) (ph_QueueId h)" and "ph_QueueOffset h = int k"
    and "k < stored (bk_store (sv_broker s)) (ph_Topic h) (ph_QueueId h)"
  shows "\<exists>n bs seen lst s1 r. n = region_length (bk_store (sv_broker s)) (ph_Topic h) (ph_QueueId h) k \<and> 0 < n \<and>
     batch (bk_store (sv_broker s)) (DefaultMessageFilter_IsMessageMatched (has_code (pk_set K)) (Some sd)) (to_int32 (ph_MaxMsgNums h))
       (CommitLog_getMaxOffset (ms_CommitLog (bk_store (sv_broker s)))) 0 0 0 0 (take n (drop k (E (ph_Topic h) (ph_QueueId h)))) = (bs, seen, lst) \<and>
     server_inv E s1 \<and> same_rules s s1 \<and> pulled config request (if bs = [] then PULL_RETRY_IMMEDIATELY else SUCCESS) (int (k + seen))
       (int (stored (bk_store (sv_broker s)) (ph_Topic h) (ph_QueueId h))) r \<and>
     (if bs = [] then PullMessageProcessor_processRequest K t allow ctx request s = Some (Some r, s1) \<and> sv_written s1 = sv_written s
      else PullMessageProcessor_processRequest K t allow ctx request s = Some (None, s1) \<and> sv_written s1 = sv_written s @ [(ctx, r)] \<and>
        body_bytes r = concat (map e_bytes bs))"
proof -
  let ?ms = "bk_store (sv_broker s)"
  let ?n = "stored ?ms (ph_Topic h) (ph_QueueId h)"
  obtain res ms1 n bs seen lst where g: "DefaultMessageStore_GetMessage (has_code (pk_set K)) (ph_Topic h) (ph_QueueId h) (ph_QueueOffset h)
        (to_int32 (ph_MaxMsgNums h)) (Some sd) ?ms = Some (Some res, ms1)" "0 < n"
      "batch ?ms (DefaultMessageFilter_IsMessageMatched (has_code (pk_set K)) (Some sd)) (to_int32 (ph_MaxMsgNums h))
        (CommitLog_getMaxOffset (ms_CommitLog ?ms)) 0 0 0 0 (take n (drop k (E (ph_Topic h) (ph_QueueId h)))) = (bs, seen, lst)"
      "gets res bs" "gmr_Status res = (if bs = [] then NO_MATCHED_MESSAGE else FOUND)" "NextBeginOffset res = int (k + seen)"
      "gmr_MinOffset res = 0" "gmr_MaxOffset res = int ?n"
      "store_inv (sv_os s) ms1 E" "cl_same (ms_CommitLog ?ms) (ms_CommitLog ms1)" "ms_config ms1 = ms_config ?ms"
      "n = region_length ?ms (ph_Topic h) (ph_QueueId h) k"
    using get_inside [OF assms(1) [unfolded server_inv_def] assms(4,6), of "has_code (pk_set K)" "to_int32 (ph_MaxMsgNums h)" "Some sd"]
    unfolding assms(5) by blast
  note run = processRequest_passed [OF assms(2,3) g(1), of t allow ctx]
  define r0 where "r0 = (CreateDefaultResponseCommand [] (Some (pull_response_header 0 0 0 0)))\<lparr>rc_Opaque := rc_Opaque request\<rparr>"
  let ?suggest = "if SuggestPullingFromSlave res then WhichBrokerWhenConsumeSlowly config else sg_BrokerId config"
  define r1 where "r1 = r0\<lparr>rc_Code := pull_code (gmr_Status res) (ph_QueueOffset h), rc_Remark := GetMessageStatus_String (gmr_Status res),
      rc_CustomHeader := Some (pull_response_header ?suggest (NextBeginOffset res) (gmr_MinOffset res) (gmr_MaxOffset res))\<rparr>"
  have flag: "IsResponseType (r1\<lparr>rc_Body := b\<rparr>)" "IsResponseType r1" for b
    using default_is_response by (simp_all add: IsResponseType_def r1_def r0_def)
  note run = run [folded r0_def]
  show ?thesis
  proof (cases "bs = []")
    case True
    have "pull_answer K t allow ctx request h config r0 res ms1 s = Some (Some r1, sv_set_store ms1 (sv_os s) s)"
      by (simp add: pull_answer_def Let_def g(5) True r1_def pull_code_def PULL_RETRY_IMMEDIATELY_def PULL_NOT_FOUND_def
          PULL_OFFSET_MOVED_def SUCCESS_def)
    then have p: "PullMessageProcessor_processRequest K t allow ctx request s = Some (Some r1, pull_commit allow h (sv_set_store ms1 (sv_os s) s))"
      using run by simp
    have "same_rules s (sv_set_store ms1 (sv_os s) s)" "server_inv E (pull_commit allow h (sv_set_store ms1 (sv_os s) s))"
      "sv_written (sv_set_store ms1 (sv_os s) s) = sv_written s"
      using g(9,11) by (simp_all add: same_rules_def server_inv_def sv_set_store_def)
    moreover have "pulled config request PULL_RETRY_IMMEDIATELY (int (k + seen)) (int ?n) r1"
      using g(5-8) True flag by (auto simp: pulled_def r1_def r0_def pull_code_def)
    ultimately show ?thesis
      using g(2,3,12) p True
      by (intro exI [of _ n, OF exI [of _ bs, OF exI [of _ seen, OF exI [of _ lst,
            OF exI [of _ "pull_commit allow h (sv_set_store ms1 (sv_os s) s)", OF exI [of _ r1]]]]]]) simp
  next
    case False
    let ?ms2 = "ms1\<lparr>ms_CommitLog := ms_CommitLog ?ms\<rparr>"
    let ?s2 = "(sv_set_store ?ms2 (sv_os s) s)\<lparr>sv_written := sv_written s @ [(ctx, r1\<lparr>rc_Body := Some (concat (map e_bytes bs))\<rparr>)]\<rparr>"
    have "pull_answer K t allow ctx request h config r0 res ms1 s = Some (None, ?s2)"
      using transfer_gets [OF g(4) False, of r1] False by (simp add: pull_answer_def Let_def g(5) r1_def pull_code_def)
    then have p: "PullMessageProcessor_processRequest K t allow ctx request s = Some (None, pull_commit allow h ?s2)"
      using run by simp
    have "cl_same (ms_CommitLog ms1) (ms_CommitLog ?ms)"
      using g(10) store_invD(3) [OF assms(1) [unfolded server_inv_def]] by (simp add: cl_same_def)
    then have "store_inv (sv_os s) ?ms2 E"
      using store_inv_touch(1) [OF g(9), of ?ms2] by (simp add: ms_frame_def)
    then have "same_rules s ?s2" "server_inv E (pull_commit allow h ?s2)"
      using g(11) by (simp_all add: same_rules_def server_inv_def sv_set_store_def)
    moreover have "pulled config request SUCCESS (int (k + seen)) (int ?n) (r1\<lparr>rc_Body := Some (concat (map e_bytes bs))\<rparr>)"
      using g(5-8) False flag by (auto simp: pulled_def r1_def r0_def pull_code_def)
    ultimately show ?thesis
      using g(2,3,12) p False
      by (intro exI [of _ n, OF exI [of _ bs, OF exI [of _ seen, OF exI [of _ lst,
            OF exI [of _ "pull_commit allow h ?s2", OF exI [of _ "r1\<lparr>rc_Body := Some (concat (map e_bytes bs))\<rparr>"]]]]]])
         (simp add: body_bytes_def)
  qed
qed

section \<open>Which messages a subscription matches\<close>

lemma add_tags_codes:
  assumes "set_laws S" and "add_tags S tags sd = (sd1, None)"
  shows "set (sIter S (SubscriptionData.CodeSet sd1)) =
      set (sIter S (SubscriptionData.CodeSet sd)) \<union> (\<lambda>t. Code (HashCode (TrimSpace t))) ` set tags"
    and "SubscriptionData.ClassFilterMode sd1 = SubscriptionData.ClassFilterMode sd"
    and "SubscriptionData.SubString sd1 = SubscriptionData.SubString sd"
  using assms(2)
proof (induction tags arbitrary: sd)
  case (Cons tag tags)
  { case 1 with Cons.IH(1) [of "SubscriptionData.CodeSet_update (sAdd S (Code (HashCode (TrimSpace tag))))
        (SubscriptionData.TagsSet_update (sAdd S (Tag (TrimSpace tag))) sd)"] assms(1)
    show ?case by (auto simp: set_laws_def Let_def split: if_splits) }
  { case 2 with Cons.IH(2) show ?case by (fastforce simp: Let_def split: if_splits) }
  { case 3 with Cons.IH(3) show ?case by (fastforce simp: Let_def split: if_splits) }
qed simp_all

definition subscribes :: "string \<Rightarrow> int \<Rightarrow> bool" where
  "subscribes subString tagsCode \<longleftrightarrow>
     subString \<in> {[], ''*''} \<or> tagsCode \<in> (\<lambda>t. HashCode (TrimSpace t)) ` set (split_bars subString)"

lemma subscription_matches:
  assumes "set_laws S" and "BuildSubscriptionData4Ponit S g topic subString = (sd, None)"
  shows "DefaultMessageFilter_IsMessageMatched (has_code S) (Some sd) tagsCode \<longleftrightarrow> subscribes subString tagsCode"
proof (cases "subString \<in> {[], ''*''}")
  case True
  then show ?thesis
    using assms(2)
    by (auto simp: BuildSubscriptionData4Ponit_def DefaultMessageFilter_IsMessageMatched_def subscribes_def SUBSCRIPTION_ALL_def Let_def)
next
  case False
  then have b: "add_tags S (split_bars subString) (new_subscription S topic subString) = (sd, None)"
    using assms(2) by (auto simp: BuildSubscriptionData4Ponit_def Let_def)
  note c = add_tags_codes [OF assms(1) b]
  have "set (sIter S (sNew S)) = {}" using assms(1) by (simp add: set_laws_def)
  then have "set (sIter S (SubscriptionData.CodeSet sd)) = (\<lambda>t. Code (HashCode (TrimSpace t))) ` set (split_bars subString)"
    using c(1) by (simp add: new_subscription_def SubscriptionData.defs)
  moreover have "\<And>x s. sContains S x s \<longleftrightarrow> x \<in> set (sIter S s)" using assms(1) by (simp add: set_laws_def)
  ultimately show ?thesis
    using c(2,3) False
    by (auto simp: DefaultMessageFilter_IsMessageMatched_def subscribes_def SUBSCRIPTION_ALL_def has_code_def new_subscription_def
        SubscriptionData.defs)
qed

section \<open>From the producer to the consumer\<close>

lemma batch_one:
  "matched (e_tag e) \<Longrightarrow> batch ms matched maxN l 0 0 0 0 [e] = ([e], 1, e_off e)"
  by (simp add: DefaultMessageStore_isTheBatchFull_def Let_def to_int32_id in_int_def)

lemma decode_one:
  assumes "decodeMessageExt unzip buf True True = Some (msg, [])" and "buf \<noteq> []"
  shows "DecodesMessageExt unzip buf True = Some [msg]"
proof -
  obtain n where "length buf = Suc n" using assms(2) by (cases buf) auto
  with assms show ?thesis by (cases buf) (simp_all add: DecodesMessageExt_def)
qed

text \<open>A request to send a message that any client can decode: plain hosts, no compression, no open transaction.\<close>

definition plain_message :: "MessageExtBrokerInner \<Rightarrow> byte list \<Rightarrow> int \<Rightarrow> byte list \<Rightarrow> int \<Rightarrow> bool" where
  "plain_message m bh bp sh sp \<longleftrightarrow> visible (m_SysFlag m) \<and> m_SysFlag m AND CompressedFlag \<noteq> CompressedFlag \<and>
     m_BornHost m = JoinHostPort bh bp \<and> m_StoreHost m = JoinHostPort sh sp \<and> length bh = 4 \<and> length sh = 4 \<and>
     in_int 32 bp \<and> in_int 32 sp"

text \<open>A message the store has just accepted, pulled from its position once the dispatcher has caught up.\<close>

lemma pull_accepted:
  assumes "server_inv (accept m r E) s" and "all_dispatched s" and "set_laws (pk_set K)" and "may_pull K h config tc sd s"
    and "h = pull_header (decoded request zero_pull_header)" and "visible (m_SysFlag m)" and "good_queue (m_Topic m) (m_QueueId m)"
    and "ph_Topic h = m_Topic m" and "ph_QueueId h = m_QueueId m" and "ph_QueueOffset h = int (length (E (m_Topic m) (m_QueueId m)))"
    and "subscribes (ph_Subscription h) (m_TagsCode m)"
  shows "\<exists>s1 answer. PullMessageProcessor_processRequest K pt allow ctx request s = Some (None, s1) \<and> same_rules s s1 \<and>
     sv_written s1 = sv_written s @ [(ctx, answer)] \<and> pulled config request SUCCESS (ph_QueueOffset h + 1) (ph_QueueOffset h + 1) answer \<and>
     body_bytes answer = e_bytes (new_entry m r) \<and> e_bytes (new_entry m r) \<noteq> [] \<and> in_int 64 (WroteOffset r) \<and>
     in_int 64 (ph_QueueOffset h + 1)"
proof -
  let ?t = "m_Topic m" and ?q = "m_QueueId m" and ?e = "new_entry m r" and ?ms = "bk_store (sv_broker s)"
  let ?k = "length (E ?t ?q)" and ?f = "DefaultMessageFilter_IsMessageMatched (has_code (pk_set K)) (Some sd)"
  have E1: "accept m r E ?t ?q = E ?t ?q @ [?e]" using assms(6) by (simp add: accept_def)
  have inv: "store_inv (sv_os s) ?ms (accept m r E)" using assms(1) by (simp add: server_inv_def)
  have st: "stored ?ms ?t ?q = Suc ?k"
    using stored_all [OF inv assms(7)] assms(2) E1 by (simp add: all_dispatched_def pending_def)
  have "entry_ok (ms_CommitLog ?ms) ?e" using store_inv_queue(1) [OF inv assms(7)] E1 by (simp add: entries_inv_def)
  then have off: "in_int 64 (WroteOffset r)" "e_bytes ?e \<noteq> []" by (auto simp: entry_ok_def unit_ok_def log_has_def new_entry_def)
  have k64: "in_int 64 (int ?k + 1)" using store_inv_queue(1) [OF inv assms(7)] E1 by (simp add: entries_inv_def in_int_def)
  have built: "BuildSubscriptionData4Ponit (pk_set K) (ph_ConsumerGroup h) (ph_Topic h) (ph_Subscription h) = (sd, None)"
    using assms(4) by (simp add: may_pull_def)
  have mt: "?f (e_tag ?e)" using subscription_matches [OF assms(3) built] assms(11) by (simp add: new_entry_def)
  obtain n bs seen lst s1 answer where p: "0 < n"
      "batch ?ms ?f (to_int32 (ph_MaxMsgNums h)) (CommitLog_getMaxOffset (ms_CommitLog ?ms)) 0 0 0 0 (take n [?e]) = (bs, seen, lst)"
      "pulled config request (if bs = [] then PULL_RETRY_IMMEDIATELY else SUCCESS) (int (?k + seen)) (int (Suc ?k)) answer" "same_rules s s1"
      "bs \<noteq> [] \<longrightarrow> PullMessageProcessor_processRequest K pt allow ctx request s = Some (None, s1) \<and>
         sv_written s1 = sv_written s @ [(ctx, answer)] \<and> body_bytes answer = concat (map e_bytes bs)"
    using pull_returns [OF assms(1,4,5), of ?k pt allow ctx] assms(7-10) st E1 by (force split: if_splits)
  have "take n [?e] = [?e]" using p(1) by (cases n) simp_all
  then have "bs = [?e]" "seen = 1" using p(2) batch_one [of ?f ?e, OF mt] by simp_all
  then show ?thesis using p(3-5) off k64 assms(10) by (intro exI [of _ s1] exI [of _ answer]) (simp add: add.commute)
qed

text \<open>
  C2 (roundtrip): what a producer sends is what a consumer gets. After a broker has accepted a message and its dispatcher has caught up,
  which it does while the channel of the index service has room, a pull
  request at the position of the message, whose subscription names the tag of the message or all tags, is answered with a
  body that decodes to that one message: same topic, queue, position, body and properties.
\<close>

theorem sent_message_is_pulled:
  assumes "server_inv E s" and "cmap_laws H" and "set_laws (pk_set K)"
    and "parseRequestHeader request = Some rh" and "may_send rh tc s" and "storable_request E t ctx request rh tc s"
    and "m = sent_message t ctx request rh tc s" and "plain_message m bh bp sh sp"
    and "h = pull_header (decoded pullRequest zero_pull_header)" and "may_pull K h config tc sd s"
    and "ph_Topic h = rh_Topic rh" and "ph_QueueId h = rh_QueueId rh" and "ph_QueueOffset h = int (length (E (rh_Topic rh) (rh_QueueId rh)))"
    and "subscribes (ph_Subscription h) (m_TagsCode m)" and "sv_room 1 s"
  shows "\<exists>s1 s2 s3 answer msg.
     SendMessageProcessor_ProcessRequest unzip H marshal t diskUtil ctx request s = Some (None, s1) \<and> sv_dispatch s1 = Some s2 \<and>
     PullMessageProcessor_processRequest K pt allow cctx pullRequest s2 = Some (None, s3) \<and>
     sv_written s3 = sv_written s2 @ [(cctx, answer)] \<and> pulled config pullRequest SUCCESS (ph_QueueOffset h + 1) (ph_QueueOffset h + 1) answer \<and>
     DecodesMessageExt unzip (body_bytes answer) True = Some [msg] \<and>
     m_Topic msg = rh_Topic rh \<and> m_QueueId msg = rh_QueueId rh \<and> m_QueueOffset msg = ph_QueueOffset h \<and>
     m_Body msg = body_bytes request \<and> m_Properties msg = String2messageProperties (rh_Properties rh)"
proof -
  let ?t = "rh_Topic rh" and ?q = "rh_QueueId rh"
  let ?k = "length (E ?t ?q)"
  obtain r s1 where s1: "SendMessageProcessor_ProcessRequest unzip H marshal t diskUtil ctx request s = Some (None, s1)"
      "server_inv (accept m r E) s1" "same_rules s s1" "LogicsOffset r = int ?k" "one_more s s1"
    using send_stored [OF assms(1,2,4-7)] by blast
  have "sv_room 0 s1" using sv_room_one_more [OF _ s1(5)] assms(15) by simp
  note room = this
  obtain s2 where s2: "sv_dispatch s1 = Some s2" "server_inv (accept m r E) s2" "all_dispatched s2" "same_rules s1 s2"
    using sv_dispatch_ok [OF s1(2) room] by blast
  have mf: "m_Topic m = ?t" "m_QueueId m = ?q" "m_Body m = body_bytes request" "m_PropertiesString m = rh_Properties rh"
    by (simp_all add: assms(7) sent_message_def stamped_def)
  have vis: "visible (m_SysFlag m)" and pm: "plain_message m bh bp sh sp" using assms(8) by (simp_all add: plain_message_def)
  have fit: "msg_fits m" "good_queue ?t ?q"
    using assms(6,7) mf by (simp_all add: storable_request_def put_args_def sent_message_def Let_def)
  have mp: "may_pull K h config tc sd s2" using assms(10) may_pull_same [OF same_rules_trans [OF s1(3) s2(4)]] by blast
  obtain s3 answer where p: "PullMessageProcessor_processRequest K pt allow cctx pullRequest s2 = Some (None, s3)"
      "sv_written s3 = sv_written s2 @ [(cctx, answer)]" "pulled config pullRequest SUCCESS (ph_QueueOffset h + 1) (ph_QueueOffset h + 1) answer"
      "body_bytes answer = e_bytes (new_entry m r)" "e_bytes (new_entry m r) \<noteq> []" "in_int 64 (WroteOffset r)" "in_int 64 (ph_QueueOffset h + 1)"
    using pull_accepted [OF s2(2,3) assms(3) mp assms(9) vis, of pt allow cctx] fit(2) mf assms(11-14) by auto
  have k64: "in_int 64 (int ?k)" using p(7) assms(13) by (simp add: in_int_def)
  have dec: "decodeMessageExt unzip (record_bytes m (int ?k) (WroteOffset r) @ []) True True =
      Some (as_pulled m (int ?k) (WroteOffset r) bh bp sh sp, [])"
    using record_decodes [OF fit(1) k64 p(6), of bh bp sh sp unzip "[]"] pm by (simp add: plain_message_def)
  have "DecodesMessageExt unzip (body_bytes answer) True = Some [as_pulled m (int ?k) (WroteOffset r) bh bp sh sp]"
    using p(4,5) dec s1(4) by (intro decode_one) (simp_all add: new_entry_def)
  then show ?thesis
    using s1(1) s2(1) p(1-3) mf assms(13)
    by (intro exI [of _ s1, OF exI [of _ s2, OF exI [of _ s3, OF exI [of _ answer,
          OF exI [of _ "as_pulled m (int ?k) (WroteOffset r) bh bp sh sp"]]]]]) (simp add: as_pulled_def)
qed

section \<open>A server with one topic\<close>

definition example_server ::
    "DefaultMessageStore \<Rightarrow> OS \<Rightarrow> ((string \<times> ((string \<times> nat) list, (string \<times> nat) list) ConsumerGroupInfo) list, sys_elem list,
       (string \<times> (string \<times> RemotingCommand) ManyPullRequest) list) server" where
  "example_server ms os = \<lparr>
     sv_broker = (example_broker ms)\<lparr>bk_topics := (example_tcm)\<lparr>SerializeWrapper := (SerializeWrapper example_tcm)
         \<lparr>tw_TopicConfigTable := [(''t'', NewTopicConfig ''t'')]\<rparr>\<rparr>,
       bk_groups := (NewSubscriptionGroupManager 1)\<lparr>sg_Table := [(''g'', NewSubscriptionGroupConfig)]\<rparr>\<rparr>,
     sv_config = \<lparr>BrokerIP1 = ''10.0.0.2'', BrokerPermission = 6, RejectTransactionMessage = True, LongPollingEnable = True,
       ShortPollingTimeMills = 1000, OffsetCheckInSlave = False, sv_StoreHost = JoinHostPort [10, 0, 0, 2] 10911,
       BrokerAddr = JoinHostPort [10, 0, 0, 2] 10911\<rparr>,
     sv_os = os, sv_hold = NewPullRequestHoldService alist_map, sv_written = []\<rparr>"

definition example_send :: RemotingCommand where
  "example_send = empty_command\<lparr>rc_Code := SEND_MESSAGE, rc_Opaque := 1,
     rc_ExtFields := Some [(''Topic'', ''t''), (''QueueId'', ''3''), (''ProducerGroup'', ''p'')], rc_Body := Some [1, 2, 3]\<rparr>"

definition example_pull :: "string \<Rightarrow> RemotingCommand" where
  "example_pull sub = empty_command\<lparr>rc_Code := 11, rc_Opaque := 2,
     rc_ExtFields := Some [(''ConsumerGroup'', ''g''), (''Topic'', ''t''), (''QueueId'', ''3''), (''QueueOffset'', ''0''),
       (''MaxMsgNums'', ''32''), (''SysFlag'', ''4''), (''Subscription'', sub)]\<rparr>"

definition example_rh :: SendMessageRequestHeader where
  "example_rh = \<lparr>rh_ProducerGroup = ''p'', rh_Topic = ''t'', rh_DefaultTopic = [], rh_DefaultTopicQueueNums = 0, rh_QueueId = 3,
     rh_SysFlag = 0, rh_BornTimestamp = 0, rh_Flag = 0, rh_Properties = [], rh_ReconsumeTimes = 0, rh_UnitMode = False\<rparr>"

definition example_ph :: "string \<Rightarrow> PullMessageRequestHeader" where
  "example_ph sub = \<lparr>ph_ConsumerGroup = ''g'', ph_Topic = ''t'', ph_QueueId = 3, ph_QueueOffset = 0, ph_MaxMsgNums = 32, ph_SysFlag = 4,
     ph_CommitOffset = 0, ph_SuspendTimeoutMillis = 0, ph_Subscription = sub, ph_SubVersion = 0\<rparr>"

lemma example_send_parsed: "parseRequestHeader example_send = Some example_rh"
  by code_simp

lemma example_pull_parsed: "pull_header (decoded (example_pull ''*'') zero_pull_header) = example_ph ''*''"
  by code_simp

definition example_times :: send_times where
  "example_times = \<lparr>tm_create = 0, tm_create_back = 0, tm_group = 0, tm_store = 1000, tm_lock = 1001, tm_flushOk = True, tm_wake = 1002\<rparr>"

definition example_pull_times :: pull_times where
  "example_pull_times = \<lparr>pt_group = 0, pt_suspend = 0, pt_event = 0, pt_store = 0, pt_lock = 0, pt_flushOk = True\<rparr>"

definition example_packages ::
    "((string \<times> nat) list, (string \<times> nat) list, (string \<times> ((string \<times> nat) list, (string \<times> nat) list) ConsumerGroupInfo) list, sub_elem list,
      (string \<times> (string \<times> RemotingCommand) ManyPullRequest) list) pull_packages" where
  "example_packages = \<lparr>pk_set = list_set, pk_NewSet = (\<lambda>_. None), pk_clients = list_maps, pk_hold = alist_map,
     pk_json = (\<lambda>_. None, \<lambda>_. None), pk_event = (\<lambda>_. [])\<rparr>"

abbreviation (input) example_client :: string where
  "example_client \<equiv> JoinHostPort [10, 0, 0, 1] 9000"

lemmas example_server_defs = example_server_def example_broker_def

lemma example_topic: "sv_topic ''t'' (example_server ms os) = Some (NewTopicConfig ''t'')"
  by (simp add: sv_topic_def example_server_defs TopicConfigManager_SelectTopicConfig_def TopicConfigTable_Get_def)

lemma example_may_send: "may_send example_rh (NewTopicConfig ''t'') (example_server ms os)"
  using example_topic
  by (simp add: may_send_def example_rh_def)
    (simp add: example_server_defs HasWriteable_def IsWriteable_def PERM_WRITE_def TopicConfigManager_isTopicCanSendMessage_def DEFAULT_TOPIC_def
      example_config_def NewTopicConfig_def prop_at_def String2messageProperties_def Bytes2messageProperties_def bytes_of_string_def
      props_loop.simps)

lemma example_sent:
  "sent_message example_times example_client example_send example_rh (NewTopicConfig ''t'') (example_server ms os) =
     zero_inner\<lparr>m_Topic := ''t'', m_Body := [1, 2, 3], m_QueueId := 3, m_BornTimestamp := 1001, m_BornHost := example_client,
       m_StoreHost := JoinHostPort [10, 0, 0, 2] 10911, m_StoreTimestamp := 1000, m_BodyCRC := Crc32 [1, 2, 3]\<rparr>"
  by (simp add: sent_message_def stamped_def inner_message_def Let_def example_rh_def example_times_def example_send_def body_bytes_def
      empty_command_def NewTopicConfig_def zero_inner_def TagsString2tagsCode_def prop_at_def String2messageProperties_def
      Bytes2messageProperties_def bytes_of_string_def props_loop.simps example_server_def)

lemma example_plain:
  "plain_message (sent_message example_times example_client example_send example_rh (NewTopicConfig ''t'') (example_server ms os))
     [10, 0, 0, 1] 9000 [10, 0, 0, 2] 10911"
  by (simp add: example_sent plain_message_def zero_inner_def visible_def GetTransactionValue_def TransactionNotType_def CompressedFlag_def
      in_int_def)

lemma example_storable:
  assumes "ms_config ms = flow_config" and "ms_CommitLog ms = NewCommitLog None flow_config" and "idle_store ms"
  shows "storable_request (\<lambda>_ _. []) example_times example_client example_send example_rh (NewTopicConfig ''t'') (example_server ms os)"
proof -
  let ?inner = "inner_message (sv_config (example_server ms os)) example_client example_send example_rh (NewTopicConfig ''t'')"
  let ?m = "stamped 1000 1001 ?inner"
  have m: "?m = zero_inner\<lparr>m_Topic := ''t'', m_Body := [1, 2, 3], m_QueueId := 3, m_BornTimestamp := 1001, m_BornHost := example_client,
       m_StoreHost := JoinHostPort [10, 0, 0, 2] 10911, m_StoreTimestamp := 1000, m_BodyCRC := Crc32 [1, 2, 3]\<rparr>"
    using example_sent by (simp add: sent_message_def example_times_def)
  have h: "CreateMessageId (JoinHostPort [10, 0, 0, 2] 10911) 0 \<noteq> None"
    by (simp add: CreateMessageId_def SplitHostPort_JoinHostPort ipv4StringToBytes_IPv4String in_int_def)
  have f: "msg_fits ?m" using h Crc32_in by (simp add: m msg_fits_def zero_inner_def) (simp add: in_int_def)
  have l: "msg_len ?m = 95" using msg_len_eq [OF f] by (simp add: m zero_inner_def)
  have "good_queue (m_Topic ?m) (m_QueueId ?m)" "in_int 64 (m_TagsCode ?m)" by (simp_all add: m zero_inner_def good_queue_def in_int_def)
  moreover have "ms_config (bk_store (sv_broker (example_server ms os))) = flow_config"
    "ms_CommitLog (bk_store (sv_broker (example_server ms os))) = NewCommitLog None flow_config"
    "bk_store (sv_broker (example_server ms os)) = ms"
    using assms by (simp_all add: example_server_defs)
  ultimately show ?thesis
    using f l idle_store_room(1,2) [OF assms(3)]
    by (simp add: storable_request_def put_args_def Let_def example_times_def NewCommitLog_def NewMapedFileQueue_def mfq_end_def
        mfq_base_def flow_config_fields)
qed

lemma example_may_pull:
  "may_pull example_packages (example_ph ''*'') NewSubscriptionGroupConfig (NewTopicConfig ''t'')
     (SubscriptionData.make [] False ''t'' ''*'' [] [] 0) (example_server ms os)"
  using example_topic
  by (simp add: may_pull_def example_ph_def)
    (simp add: example_server_defs HasReadable_def IsReadable_def PERM_READ_def PERM_WRITE_def NewTopicConfig_def HasSubscriptionFlag_def FLAG_SUBSCRIPTION_def
      SubscriptionGroupTable_Get_def NewSubscriptionGroupConfig_def BuildSubscriptionData4Ponit_def new_subscription_def
      example_packages_def list_set_def SubscriptionData.defs Let_def)

lemma example_start:
  "\<exists>ms os. server_inv (\<lambda>_ _. []) (example_server ms os) \<and> ms_config ms = flow_config \<and> ms_CommitLog ms = NewCommitLog None flow_config \<and>
     idle_store ms"
  using flow_start reach_inv by (force simp: server_inv_def example_server_defs)

lemma example_room: "idle_store ms \<Longrightarrow> sv_room 1 (example_server ms os)"
  using sv_room_idle [of "example_server ms os"] by (auto simp: sv_room_def index_room_def example_server_defs)

text \<open>
  C4 (functional): a request to send a message to a queue of an existing topic is answered once, with the code for the outcome of the flush, the
  number of the request and the position of the message in its queue, which is the next one; the store has the
  message there; and with long polling no pull request that waits for this position is left behind.
\<close>

theorem send_stores:
  assumes "server_inv E s" and "cmap_laws H" and "parseRequestHeader request = Some rh" and "may_send rh tc s"
    and "storable_request E t ctx request rh tc s" and "m = sent_message t ctx request rh tc s"
  shows "\<exists>r s1 answer. SendMessageProcessor_ProcessRequest unzip H marshal t diskUtil ctx request s = Some (None, s1) \<and>
     server_inv (accept m r E) s1 \<and> same_rules s s1 \<and> LogicsOffset r = int (length (E (rh_Topic rh) (rh_QueueId rh))) \<and>
     sv_written s1 = sv_written s @ (if IsOnewayRPC request then [] else [(ctx, answer)]) \<and>
     rc_Code answer = status_code (put_status (tm_flushOk t) m (ms_CommitLog (bk_store (sv_broker s)))) \<and>
     rc_Opaque answer = rc_Opaque request \<and> rc_ExtFields answer = Some [] \<and>
     rc_CustomHeader answer = Some (send_response_header (MsgId r) (rh_QueueId rh) (LogicsOffset r)) \<and>
     (LongPollingEnable (sv_config s) \<longrightarrow>
        (\<forall>w \<in> set (held H (buildKey (rh_Topic rh) (rh_QueueId rh)) (sv_hold s1)). LogicsOffset r < PullFromThisOffset w))"
  using send_stored [OF assms, of unzip marshal diskUtil] by blast

text \<open>
  C5 (functional): a pull request inside a queue, with a subscription of its own, is answered with the records of the reference batch of the
  messages accepted for the queue from its offset on, up to the last dispatched one or the end of the index file, one after the other in the body, or told to try again when none matched;
  the answer has the number of the request and the offset to go on from.
\<close>

theorem pull_returns_batch:
  assumes "server_inv E s" and "may_pull K h config tc sd s" and "h = pull_header (decoded request zero_pull_header)"
    and "good_queue (ph_Topic h) (ph_QueueId h)" and "ph_QueueOffset h = int k"
    and "k < stored (bk_store (sv_broker s)) (ph_Topic h) (ph_QueueId h)"
  shows "\<exists>n bs seen lst s1 r. n = region_length (bk_store (sv_broker s)) (ph_Topic h) (ph_QueueId h) k \<and> 0 < n \<and>
     batch (bk_store (sv_broker s)) (DefaultMessageFilter_IsMessageMatched (has_code (pk_set K)) (Some sd)) (to_int32 (ph_MaxMsgNums h))
       (CommitLog_getMaxOffset (ms_CommitLog (bk_store (sv_broker s)))) 0 0 0 0 (take n (drop k (E (ph_Topic h) (ph_QueueId h)))) = (bs, seen, lst) \<and>
     server_inv E s1 \<and> same_rules s s1 \<and> pulled config request (if bs = [] then PULL_RETRY_IMMEDIATELY else SUCCESS) (int (k + seen))
       (int (stored (bk_store (sv_broker s)) (ph_Topic h) (ph_QueueId h))) r \<and>
     (if bs = [] then PullMessageProcessor_processRequest K t allow ctx request s = Some (Some r, s1) \<and> sv_written s1 = sv_written s
      else PullMessageProcessor_processRequest K t allow ctx request s = Some (None, s1) \<and> sv_written s1 = sv_written s @ [(ctx, r)] \<and>
        body_bytes r = concat (map e_bytes bs))"
  using pull_returns [OF assms, of t allow ctx] .

theorem send_stores_witness:
  "\<exists>ms os (r :: AppendMessageResult) s1 answer. SendMessageProcessor_ProcessRequest (\<lambda>_. None) alist_map (\<lambda>_. None, \<lambda>_. None) example_times [] example_client example_send
       (example_server ms os) = Some (None, s1) \<and> sv_written s1 = [(example_client, answer)] \<and> rc_Code answer = SUCCESS \<and>
     rc_Opaque answer = 1 \<and> rc_CustomHeader answer = Some (send_response_header (MsgId r) 3 0)"
proof -
  obtain ms os where s: "server_inv (\<lambda>_ _. []) (example_server ms os)" "ms_config ms = flow_config"
      "ms_CommitLog ms = NewCommitLog None flow_config" "idle_store ms"
    using example_start by blast
  have st: "status_code (put_status True m cl) = SUCCESS" for m cl by (simp add: put_status_def status_code_def put_answer_def)
  from send_stores [OF s(1) alist_map_laws example_send_parsed example_may_send example_storable [OF s(2-4)] refl,
      of "\<lambda>_. None" "(\<lambda>_. None, \<lambda>_. None)" "[]"]
  obtain r :: AppendMessageResult and s1 answer where r: "SendMessageProcessor_ProcessRequest (\<lambda>_. None) alist_map (\<lambda>_. None, \<lambda>_. None) example_times [] example_client
        example_send (example_server ms os) = Some (None, s1)" "LogicsOffset r = int (length ([] :: entry list))"
      "sv_written s1 = sv_written (example_server ms os) @ (if IsOnewayRPC example_send then [] else [(example_client, answer)])"
      "rc_Code answer = status_code (put_status (tm_flushOk example_times)
         (sent_message example_times example_client example_send example_rh (NewTopicConfig ''t'') (example_server ms os))
         (ms_CommitLog (bk_store (sv_broker (example_server ms os)))))"
      "rc_Opaque answer = rc_Opaque example_send"
      "rc_CustomHeader answer = Some (send_response_header (MsgId r) (rh_QueueId example_rh) (LogicsOffset r))"
    by blast
  have "\<not> IsOnewayRPC example_send" by (simp add: IsOnewayRPC_def example_send_def empty_command_def rpcOneway_def)
  moreover have "tm_flushOk example_times" "rc_Opaque example_send = 1" "rh_QueueId example_rh = 3" "sv_written (example_server ms os) = []"
    by (simp_all add: example_times_def example_send_def example_rh_def example_server_def)
  ultimately show ?thesis using r st by (intro exI [of _ ms] exI [of _ os] exI [of _ r] exI [of _ s1] exI [of _ answer]) simp
qed

theorem sent_message_is_pulled_witness:
  "\<exists>ms os s1 s2 s3 answer msg.
     SendMessageProcessor_ProcessRequest (\<lambda>_. None) alist_map (\<lambda>_. None, \<lambda>_. None) example_times [] example_client example_send
       (example_server ms os) = Some (None, s1) \<and> sv_dispatch s1 = Some s2 \<and>
     PullMessageProcessor_processRequest example_packages example_pull_times True ''c'' (example_pull ''*'') s2 = Some (None, s3) \<and>
     sv_written s3 = sv_written s2 @ [(''c'', answer)] \<and> DecodesMessageExt (\<lambda>_. None) (body_bytes answer) True = Some [msg] \<and>
     m_Topic msg = ''t'' \<and> m_QueueId msg = 3 \<and> m_QueueOffset msg = 0 \<and> m_Body msg = [1, 2, 3]"
proof -
  obtain ms os where s: "server_inv (\<lambda>_ _. []) (example_server ms os)" "ms_config ms = flow_config"
      "ms_CommitLog ms = NewCommitLog None flow_config" "idle_store ms"
    using example_start by blast
  have f: "ph_Topic (example_ph ''*'') = rh_Topic example_rh" "ph_QueueId (example_ph ''*'') = rh_QueueId example_rh"
      "ph_QueueOffset (example_ph ''*'') = int (length ([] :: entry list))" "subscribes (ph_Subscription (example_ph ''*'')) x" for x
    by (simp_all add: example_ph_def example_rh_def subscribes_def)
  have l: "set_laws (pk_set example_packages)" using list_set_laws by (simp add: example_packages_def)
  note e2e = sent_message_is_pulled [OF s(1) alist_map_laws l example_send_parsed example_may_send example_storable [OF s(2-4)] refl
      example_plain example_pull_parsed [symmetric] example_may_pull f example_room [OF s(4)], where pt = example_pull_times and allow = True and cctx = "''c''"
      and unzip = "\<lambda>_. None" and marshal = "(\<lambda>_. None, \<lambda>_. None)" and diskUtil = "[]"]
  have "rh_Topic example_rh = ''t''" "rh_QueueId example_rh = 3" "ph_QueueOffset (example_ph ''*'') = 0" "body_bytes example_send = [1, 2, 3]"
    by (simp_all add: example_rh_def example_ph_def example_send_def body_bytes_def)
  with e2e show ?thesis by (simp only: simp_thms) blast
qed

theorem pull_returns_batch_witness:
  "\<exists>(s :: ((string \<times> ((string \<times> nat) list, (string \<times> nat) list) ConsumerGroupInfo) list, sys_elem list,
         (string \<times> (string \<times> RemotingCommand) ManyPullRequest) list) server) s1 r.
     PullMessageProcessor_processRequest example_packages example_pull_times True ''c'' (example_pull ''*'') s = Some (None, s1) \<and>
     sv_written s1 = sv_written s @ [(''c'', r)] \<and> pulled NewSubscriptionGroupConfig (example_pull ''*'') SUCCESS 1 1 r"
proof -
  obtain ms os where s: "server_inv (\<lambda>_ _. []) (example_server ms os)" "ms_config ms = flow_config"
      "ms_CommitLog ms = NewCommitLog None flow_config" "idle_store ms"
    using example_start by blast
  let ?m = "sent_message example_times example_client example_send example_rh (NewTopicConfig ''t'') (example_server ms os)"
  let ?h = "example_ph ''*''"
  obtain r s1 where s1: "server_inv (accept ?m r (\<lambda>_ _. [])) s1" "same_rules (example_server ms os) s1" "one_more (example_server ms os) s1"
    using send_stored [OF s(1) alist_map_laws example_send_parsed example_may_send example_storable [OF s(2-4)] refl] by blast
  have "sv_room 0 s1" by (rule sv_room_one_more [OF _ s1(3)]) (simp add: example_room [OF s(4), unfolded One_nat_def])
  obtain s2 where s2: "server_inv (accept ?m r (\<lambda>_ _. [])) s2" "all_dispatched s2" "same_rules s1 s2"
    using sv_dispatch_ok [OF s1(1) \<open>sv_room 0 s1\<close>] by blast
  let ?e = "new_entry ?m r"
  have mf: "m_Topic ?m = ''t''" "m_QueueId ?m = 3" "ph_Topic ?h = ''t''" "ph_QueueId ?h = 3" "ph_QueueOffset ?h = int 0"
    by (simp_all add: sent_message_def stamped_def example_rh_def example_ph_def)
  have vis: "visible (m_SysFlag ?m)" using example_plain by (simp add: plain_message_def)
  have E1: "accept ?m r (\<lambda>_ _. []) ''t'' 3 = [?e]" using vis mf by (simp add: accept_def)
  have good: "good_queue ''t'' 3"
    by (simp add: good_queue_def)
  have st: "stored (bk_store (sv_broker s2)) ''t'' 3 = 1"
    using stored_all [OF _ good, of "sv_os s2" "bk_store (sv_broker s2)" "accept ?m r (\<lambda>_ _. [])"] s2(1,2) E1
    by (simp add: all_dispatched_def pending_def server_inv_def)
  let ?sd = "SubscriptionData.make [] False ''t'' ''*'' [] [] 0 :: sub_elem list SubscriptionData"
  have mp: "may_pull example_packages ?h NewSubscriptionGroupConfig (NewTopicConfig ''t'') ?sd s2"
    using example_may_pull may_pull_same [OF same_rules_trans [OF s1(2) s2(3)]] by blast
  let ?f = "DefaultMessageFilter_IsMessageMatched (has_code (pk_set example_packages)) (Some ?sd)"
  have mt: "?f (e_tag ?e)"
    by (simp add: DefaultMessageFilter_IsMessageMatched_def SubscriptionData.defs SUBSCRIPTION_ALL_def)
  obtain n bs seen lst s3 answer where p: "0 < n"
      "batch (bk_store (sv_broker s2)) ?f (to_int32 (ph_MaxMsgNums ?h))
         (CommitLog_getMaxOffset (ms_CommitLog (bk_store (sv_broker s2)))) 0 0 0 0 (take n [?e]) = (bs, seen, lst)"
      "pulled NewSubscriptionGroupConfig (example_pull ''*'') (if bs = [] then PULL_RETRY_IMMEDIATELY else SUCCESS) (int (0 + seen)) 1 answer"
      "bs \<noteq> [] \<longrightarrow> PullMessageProcessor_processRequest example_packages example_pull_times True ''c'' (example_pull ''*'') s2 = Some (None, s3) \<and>
         sv_written s3 = sv_written s2 @ [(''c'', answer)]"
    using pull_returns_batch [OF s2(1) mp example_pull_parsed [symmetric], of 0 example_pull_times True "''c''"] good st mf E1
    by (force split: if_splits)
  have "take n [?e] = [?e]" using p(1) by (cases n) simp_all
  then have "bs = [?e]" "seen = 1" using p(2) batch_one [of ?f ?e, OF mt] by simp_all
  then show ?thesis using p(3,4) by auto
qed

end
