(* ===== verification/NamesrvM.thy ===== *)
theory NamesrvM
  imports SendM RegistryM KVConfigM
begin

text \<open>
  The registry as a server: \<open>stgregistry/registry/default_request_processor.go\<close>, the headers of its requests
  (\<open>stgcommon/protocol/header/namesrv\<close>) and the events of its connections (\<open>broker_house_keeping_service.go\<close>), on top of the
  routes and the configuration store.

  A handler returns, as in the code, a response and an error, of which the network layer sends one, or gives \<open>None\<close> when it waits for a lock
  nobody will release; the state it leaves is given in both cases. The JSON package is a parameter; the texts of remarks are shortened.
\<close>

section \<open>The server\<close>

record 's namesrv =
  ns_RouteInfoManager :: "'s RouteInfoManager"
  ns_KvConfigManager :: KVConfigManager

record 's ns_json =
  j_register :: "byte list \<Rightarrow> error + TopicConfigSerializeWrapper option \<times> string list option"
  j_wrapper :: "byte list \<Rightarrow> error + TopicConfigSerializeWrapper"
  j_route :: "TopicRouteData \<Rightarrow> error + byte list"
  j_kv_file :: "kv_table \<Rightarrow> byte list"
  j_kv_list :: "(string \<times> string) list \<Rightarrow> byte list"
  j_cluster :: "(string \<times> BrokerData) list \<times> (string \<times> 's) list \<Rightarrow> byte list"
  j_topics :: "'s \<times> string \<Rightarrow> byte list"
  j_topics_plus :: "string list \<times> (string \<times> QueueData list) list \<times> (string \<times> string list) list \<Rightarrow> byte list"

type_synonym 's ns_result = "(RemotingCommand option \<times> error option) option \<times> 's namesrv"

definition NewNamesrvController :: "'s namesrv" where
  "NewNamesrvController = \<lparr>ns_RouteInfoManager = NewRouteInfoManager, ns_KvConfigManager = NewKVConfigManager\<rparr>"

definition ns_set_routes :: "'s RouteInfoManager \<Rightarrow> 's namesrv \<Rightarrow> 's namesrv" where
  "ns_set_routes r s = s\<lparr>ns_RouteInfoManager := r\<rparr>"

definition ns_set_kv :: "KVConfigManager \<Rightarrow> 's namesrv \<Rightarrow> 's namesrv" where
  "ns_set_kv kv s = s\<lparr>ns_KvConfigManager := kv\<rparr>"

definition NAMESPACE_ORDER_TOPIC_CONFIG :: string where
  "NAMESPACE_ORDER_TOPIC_CONFIG = ''ORDER_TOPIC_CONFIG''"

text \<open>\<open>mqversion.V3_0_11\<close>, the first version whose brokers send their filter servers.\<close>

definition V3_0_11 :: int where "V3_0_11 = 37"

section \<open>Headers and their checks\<close>

text \<open>\<open>CheckIpAndPort\<close>; an \<open>int\<close> has 64 bits.\<close>

definition CheckIpAndPort :: "string \<Rightarrow> bool" where
  "CheckIpAndPort addr \<longleftrightarrow> addr \<noteq> [] \<and>
     (case strings_Split (CHR '':'') addr of
        [ip, port] \<Rightarrow> net_ParseIP ip \<noteq> None \<and> (case ParseInt port of Inl _ \<Rightarrow> False | Inr tmpPort \<Rightarrow> 1 < tmpPort \<and> tmpPort < 100000)
      | _ \<Rightarrow> False)"

definition blank_field :: "custom_header \<Rightarrow> string \<Rightarrow> bool" where
  "blank_field h name \<longleftrightarrow> TrimSpace (string_field h name) = []"

fun check_names :: "string list \<Rightarrow> custom_header \<Rightarrow> error option" where
  "check_names [] h = None"
| "check_names (name # names) h = (if blank_field h name then Some (name @ '' is empty'') else check_names names h)"

definition kv_key_header :: custom_header where
  "kv_key_header = [(''Namespace'', StringF []), (''Key'', StringF [])]"

definition kv_key_check :: "custom_header \<Rightarrow> error option" where
  "kv_key_check = check_names [''Key'', ''Namespace'']"

definition kv_put_header :: custom_header where
  "kv_put_header = [(''Namespace'', StringF []), (''Key'', StringF []), (''Value'', StringF [])]"

definition kv_put_check :: "custom_header \<Rightarrow> error option" where
  "kv_put_check = check_names [''Namespace'', ''Key'', ''Value'']"

definition namespace_header :: custom_header where
  "namespace_header = [(''Namespace'', StringF [])]"

definition namespace_check :: "custom_header \<Rightarrow> error option" where
  "namespace_check = check_names [''Namespace'']"

definition topic_header :: custom_header where
  "topic_header = [(''Topic'', StringF [])]"

definition topic_check :: "custom_header \<Rightarrow> error option" where
  "topic_check = check_names [''Topic'']"

definition wipe_header :: custom_header where
  "wipe_header = [(''BrokerName'', StringF [])]"

definition wipe_check :: "custom_header \<Rightarrow> error option" where
  "wipe_check = check_names [''BrokerName'']"

definition cluster_header :: custom_header where
  "cluster_header = [(''Cluster'', StringF []), (''Extra'', BoolF False)]"

definition register_header :: custom_header where
  "register_header = [(''BrokerName'', StringF []), (''BrokerAddr'', StringF []), (''ClusterName'', StringF []),
     (''HaServerAddr'', StringF []), (''BrokerId'', IntF 64 0)]"

definition register_check :: "custom_header \<Rightarrow> error option" where
  "register_check h =
     (if blank_field h ''BrokerName'' then Some ''BrokerName is empty''
      else if blank_field h ''BrokerAddr'' then Some ''BrokerAddr is empty''
      else if \<not> CheckIpAndPort (string_field h ''BrokerAddr'') then Some ''BrokerAddr is invalid''
      else if blank_field h ''ClusterName'' then Some ''ClusterName is empty''
      else if blank_field h ''HaServerAddr'' then Some ''HaServerAddr is empty''
      else if int_field h ''BrokerId'' < 0 then Some ''BrokerId is invalid'' else None)"

definition unregister_header :: custom_header where
  "unregister_header = [(''BrokerName'', StringF []), (''BrokerAddr'', StringF []), (''ClusterName'', StringF []), (''BrokerId'', IntF 64 0)]"

definition unregister_check :: "custom_header \<Rightarrow> error option" where
  "unregister_check h =
     (if blank_field h ''BrokerName'' then Some ''BrokerName is empty''
      else if blank_field h ''BrokerAddr'' then Some ''BrokerAddr is empty''
      else if \<not> CheckIpAndPort (string_field h ''BrokerAddr'') then Some ''BrokerAddr is invalid''
      else if blank_field h ''ClusterName'' then Some ''ClusterName is empty''
      else if int_field h ''BrokerId'' < 0 then Some ''BrokerId is invalid'' else None)"

text \<open>A request without extension fields is not checked.\<close>

definition ns_decode :: "(custom_header \<Rightarrow> error option) \<Rightarrow> RemotingCommand \<Rightarrow> custom_header \<Rightarrow> error + custom_header" where
  "ns_decode check request zero =
     (case DecodeCommandCustomHeader check request (Some zero) of
        (_, Some e) \<Rightarrow> Inl e
      | (Some h, None) \<Rightarrow> Inr h
      | (None, None) \<Rightarrow> Inr zero)"

section \<open>Answers\<close>

definition ns_response :: "custom_header option \<Rightarrow> RemotingCommand" where
  "ns_response header = CreateDefaultResponseCommand [] header"

definition ns_ok :: "RemotingCommand \<Rightarrow> 's namesrv \<Rightarrow> 's ns_result" where
  "ns_ok response s = (Some (Some (response\<lparr>rc_Code := SUCCESS, rc_Remark := []\<rparr>), None), s)"

definition ns_error :: "RemotingCommand \<Rightarrow> error \<Rightarrow> 's namesrv \<Rightarrow> 's ns_result" where
  "ns_error response e s = (Some (Some response, Some e), s)"

definition ns_missing :: "RemotingCommand \<Rightarrow> int \<Rightarrow> string \<Rightarrow> 's namesrv \<Rightarrow> 's ns_result" where
  "ns_missing response code remark s = (Some (Some (response\<lparr>rc_Code := code, rc_Remark := remark\<rparr>), None), s)"

definition ns_waits :: "'s namesrv \<Rightarrow> 's ns_result" where
  "ns_waits s = (None, s)"

definition ns_body :: "byte list \<Rightarrow> RemotingCommand \<Rightarrow> RemotingCommand" where
  "ns_body b response = response\<lparr>rc_Body := (if b = [] then None else Some b)\<rparr>"

definition register_response_header :: "string \<Rightarrow> string \<Rightarrow> custom_header" where
  "register_response_header haServerAddr masterAddr = [(''HaServerAddr'', StringF haServerAddr), (''MasterAddr'', StringF masterAddr)]"

definition kv_response_header :: "string \<Rightarrow> custom_header" where
  "kv_response_header value = [(''Value'', StringF value)]"

definition wipe_response_header :: "int \<Rightarrow> custom_header" where
  "wipe_response_header wipeTopicCount = [(''WipeTopicCount'', IntF 64 wipeTopicCount)]"

section \<open>Brokers\<close>

text \<open>Both handlers end alike: the broker gets the addresses of its master and the list of ordered topics.\<close>

definition ns_registered ::
    "(string, 's) set_ops \<Rightarrow> 's ns_json \<Rightarrow> int \<Rightarrow> string \<Rightarrow> custom_header \<Rightarrow> TopicConfigSerializeWrapper option \<Rightarrow> string list option \<Rightarrow>
     's namesrv \<Rightarrow> 's ns_result" where
  "ns_registered S J now ctx h w filterServers s =
     (case RouteInfoManager_registerBroker S now (string_field h ''ClusterName'') (string_field h ''BrokerAddr'')
         (string_field h ''BrokerName'') (int_field h ''BrokerId'') (string_field h ''HaServerAddr'') w filterServers ctx
         (ns_RouteInfoManager s) of
        (result, routes) \<Rightarrow>
          (case KVConfigManager_getKVListByNamespace (j_kv_list J) NAMESPACE_ORDER_TOPIC_CONFIG (ns_KvConfigManager s) of
             (None, kv) \<Rightarrow> ns_waits (ns_set_kv kv (ns_set_routes routes s))
           | (Some body, kv) \<Rightarrow>
               ns_ok (ns_body body (ns_response (Some (register_response_header (rbr_HaServerAddr result) (rbr_MasterAddr result)))))
                 (ns_set_kv kv (ns_set_routes routes s))))"

definition registerBrokerWithFilterServer ::
    "(string, 's) set_ops \<Rightarrow> 's ns_json \<Rightarrow> int \<Rightarrow> string \<Rightarrow> RemotingCommand \<Rightarrow> 's namesrv \<Rightarrow> 's ns_result" where
  "registerBrokerWithFilterServer S J now ctx request s =
     (let response = ns_response (Some (register_response_header [] []))
      in case ns_decode register_check request register_header of
        Inl e \<Rightarrow> ns_error response e s
      | Inr h \<Rightarrow>
          if body_bytes request \<noteq> []
          then (case j_register J (body_bytes request) of
                  Inl e \<Rightarrow> ns_error response e s
                | Inr (w, filterServers) \<Rightarrow> ns_registered S J now ctx h w filterServers s)
          else ns_registered S J now ctx h
                 (Some \<lparr>w_TopicConfigTable = Some [], w_DataVersion = Some (NewDataVersion now [0])\<rparr>) None s)"

definition registerBroker ::
    "(string, 's) set_ops \<Rightarrow> 's ns_json \<Rightarrow> int \<Rightarrow> string \<Rightarrow> RemotingCommand \<Rightarrow> 's namesrv \<Rightarrow> 's ns_result" where
  "registerBroker S J now ctx request s =
     (let response = ns_response (Some (register_response_header [] []))
      in case ns_decode register_check request register_header of
        Inl e \<Rightarrow> ns_error response e s
      | Inr h \<Rightarrow>
          if body_bytes request \<noteq> []
          then (case j_wrapper J (body_bytes request) of
                  Inl e \<Rightarrow> ns_error response e s
                | Inr w \<Rightarrow> ns_registered S J now ctx h (Some w) (Some []) s)
          else ns_registered S J now ctx h
                 (Some \<lparr>w_TopicConfigTable = None, w_DataVersion = Some (NewDataVersion now [0])\<rparr>) (Some []) s)"

definition unRegisterBroker :: "(string, 's) set_ops \<Rightarrow> RemotingCommand \<Rightarrow> 's namesrv \<Rightarrow> 's ns_result" where
  "unRegisterBroker S request s =
     (case ns_decode unregister_check request unregister_header of
        Inl e \<Rightarrow> ns_error (ns_response None) e s
      | Inr h \<Rightarrow>
          ns_ok (ns_response None)
            (ns_set_routes (RouteInfoManager_unRegisterBroker S (string_field h ''ClusterName'') (string_field h ''BrokerAddr'')
               (string_field h ''BrokerName'') (int_field h ''BrokerId'') (ns_RouteInfoManager s)) s))"

definition wipeWritePermOfBroker :: "RemotingCommand \<Rightarrow> 's namesrv \<Rightarrow> 's ns_result" where
  "wipeWritePermOfBroker request s =
     (case ns_decode wipe_check request wipe_header of
        Inl e \<Rightarrow> ns_error (ns_response (Some (wipe_response_header 0))) e s
      | Inr h \<Rightarrow>
          (case RouteInfoManager_wipeWritePermOfBroker (string_field h ''BrokerName'') (ns_RouteInfoManager s) of
             (wipeTopicCount, routes) \<Rightarrow> ns_ok (ns_response (Some (wipe_response_header wipeTopicCount))) (ns_set_routes routes s)))"

section \<open>Routes and lists of topics\<close>

definition getRouteInfoByTopic :: "(string, 's) set_ops \<Rightarrow> 's ns_json \<Rightarrow> RemotingCommand \<Rightarrow> 's namesrv \<Rightarrow> 's ns_result" where
  "getRouteInfoByTopic S J request s =
     (let response = ns_response None
      in case ns_decode topic_check request topic_header of
        Inl e \<Rightarrow> ns_error response e s
      | Inr h \<Rightarrow>
          (case RouteInfoManager_pickupTopicRouteData S (string_field h ''Topic'') (ns_RouteInfoManager s) of
             None \<Rightarrow> ns_missing response TOPIC_NOT_EXIST ''no topic route info in name server'' s
           | Some topicRouteData \<Rightarrow>
               (case KVConfigManager_getKVConfig NAMESPACE_ORDER_TOPIC_CONFIG (string_field h ''Topic'') (ns_KvConfigManager s) of
                  (None, kv) \<Rightarrow> ns_waits (ns_set_kv kv s)
                | (Some orderTopicConf, kv) \<Rightarrow>
                    (case j_route J (topicRouteData\<lparr>OrderTopicConf := orderTopicConf\<rparr>) of
                       Inl e \<Rightarrow> ns_error response e (ns_set_kv kv s)
                     | Inr content \<Rightarrow> ns_ok (ns_body content response) (ns_set_kv kv s)))))"

definition getBrokerClusterInfo :: "'s ns_json \<Rightarrow> 's namesrv \<Rightarrow> 's ns_result" where
  "getBrokerClusterInfo J s =
     ns_ok (ns_body (j_cluster J (BrokerAddrTable (ns_RouteInfoManager s), ClusterAddrTable (ns_RouteInfoManager s))) (ns_response None)) s"

definition getAllTopicListFromNamesrv :: "(string, 's) set_ops \<Rightarrow> 's ns_json \<Rightarrow> 's namesrv \<Rightarrow> 's ns_result" where
  "getAllTopicListFromNamesrv S J s =
     ns_ok (ns_body (j_topics_plus J (RouteInfoManager_getAllTopicList S (ns_RouteInfoManager s))) (ns_response None)) s"

definition deleteTopicInNamesrv :: "RemotingCommand \<Rightarrow> 's namesrv \<Rightarrow> 's ns_result" where
  "deleteTopicInNamesrv request s =
     (case ns_decode topic_check request topic_header of
        Inl e \<Rightarrow> ns_error (ns_response None) e s
      | Inr h \<Rightarrow>
          ns_ok (ns_response None) (ns_set_routes (RouteInfoManager_deleteTopic (string_field h ''Topic'') (ns_RouteInfoManager s)) s))"

definition getTopicsByCluster :: "(string, 's) set_ops \<Rightarrow> 's ns_json \<Rightarrow> RemotingCommand \<Rightarrow> 's namesrv \<Rightarrow> 's ns_result" where
  "getTopicsByCluster S J request s =
     (case ns_decode (\<lambda>_. None) request cluster_header of
        Inl e \<Rightarrow> ns_error (ns_response None) e s
      | Inr h \<Rightarrow>
          (let routes = ns_RouteInfoManager s; cluster = string_field h ''Cluster'';
               names = (case map_of (ClusterAddrTable routes) cluster of None \<Rightarrow> [] | Some names \<Rightarrow> [(cluster, sIter S names)])
           in ns_ok (ns_body (j_topics_plus J (RouteInfoManager_getTopicsByCluster S cluster routes, TopicQueueTable routes, names))
                (ns_response None)) s))"

definition topic_list_answer :: "'s ns_json \<Rightarrow> 's \<times> string \<Rightarrow> 's namesrv \<Rightarrow> 's ns_result" where
  "topic_list_answer J l s = ns_ok (ns_body (j_topics J l) (ns_response None)) s"

definition getSystemTopicListFromNamesrv :: "(string, 's) set_ops \<Rightarrow> 's ns_json \<Rightarrow> 's namesrv \<Rightarrow> 's ns_result" where
  "getSystemTopicListFromNamesrv S J s = topic_list_answer J (RouteInfoManager_getSystemTopicList S (ns_RouteInfoManager s)) s"

definition getUnitTopicList :: "(string, 's) set_ops \<Rightarrow> 's ns_json \<Rightarrow> 's namesrv \<Rightarrow> 's ns_result" where
  "getUnitTopicList S J s = topic_list_answer J (RouteInfoManager_getUnitTopicList S (ns_RouteInfoManager s), []) s"

definition getHasUnitSubTopicList :: "(string, 's) set_ops \<Rightarrow> 's ns_json \<Rightarrow> 's namesrv \<Rightarrow> 's ns_result" where
  "getHasUnitSubTopicList S J s = topic_list_answer J (RouteInfoManager_getHasUnitSubTopicList S (ns_RouteInfoManager s), []) s"

definition getHasUnitSubUnUnitTopicList :: "(string, 's) set_ops \<Rightarrow> 's ns_json \<Rightarrow> 's namesrv \<Rightarrow> 's ns_result" where
  "getHasUnitSubUnUnitTopicList S J s = topic_list_answer J (RouteInfoManager_getHasUnitSubUnUnitTopicList S (ns_RouteInfoManager s), []) s"

section \<open>Configuration\<close>

definition putKVConfig :: "'s ns_json \<Rightarrow> RemotingCommand \<Rightarrow> 's namesrv \<Rightarrow> 's ns_result" where
  "putKVConfig J request s =
     (case ns_decode kv_put_check request kv_put_header of
        Inl e \<Rightarrow> ns_error (ns_response None) e s
      | Inr h \<Rightarrow>
          (case KVConfigManager_putKVConfig (j_kv_file J) (string_field h ''Namespace'') (string_field h ''Key'') (string_field h ''Value'')
                 (ns_KvConfigManager s) of
             (True, kv) \<Rightarrow> ns_ok (ns_response None) (ns_set_kv kv s)
           | (False, kv) \<Rightarrow> ns_waits (ns_set_kv kv s)))"

definition getKVConfig :: "RemotingCommand \<Rightarrow> 's namesrv \<Rightarrow> 's ns_result" where
  "getKVConfig request s =
     (let response = ns_response (Some (kv_response_header []))
      in case ns_decode kv_key_check request kv_key_header of
        Inl e \<Rightarrow> ns_error response e s
      | Inr h \<Rightarrow>
          (case KVConfigManager_getKVConfig (string_field h ''Namespace'') (string_field h ''Key'') (ns_KvConfigManager s) of
             (None, kv) \<Rightarrow> ns_waits (ns_set_kv kv s)
           | (Some v, kv) \<Rightarrow>
               if TrimSpace v \<noteq> [] then ns_ok (ns_response (Some (kv_response_header (TrimSpace v)))) (ns_set_kv kv s)
               else ns_missing response QUERY_NOT_FOUND ''no config item'' (ns_set_kv kv s)))"

definition deleteKVConfig :: "'s ns_json \<Rightarrow> RemotingCommand \<Rightarrow> 's namesrv \<Rightarrow> 's ns_result" where
  "deleteKVConfig J request s =
     (case ns_decode kv_key_check request kv_key_header of
        Inl e \<Rightarrow> ns_error (ns_response None) e s
      | Inr h \<Rightarrow>
          (case KVConfigManager_deleteKVConfig (j_kv_file J) (string_field h ''Namespace'') (string_field h ''Key'')
                 (ns_KvConfigManager s) of
             (True, kv) \<Rightarrow> ns_ok (ns_response None) (ns_set_kv kv s)
           | (False, kv) \<Rightarrow> ns_waits (ns_set_kv kv s)))"

definition getKVConfigByValue :: "RemotingCommand \<Rightarrow> 's namesrv \<Rightarrow> 's ns_result" where
  "getKVConfigByValue request s =
     (let response = ns_response (Some (kv_response_header []))
      in case ns_decode kv_key_check request kv_key_header of
        Inl e \<Rightarrow> ns_error response e s
      | Inr h \<Rightarrow>
          (case KVConfigManager_getKVConfigByValue (string_field h ''Namespace'') (string_field h ''Key'') (ns_KvConfigManager s) of
             (None, kv) \<Rightarrow> ns_waits (ns_set_kv kv s)
           | (Some v, kv) \<Rightarrow>
               if v \<noteq> [] then ns_ok (ns_response (Some (kv_response_header v))) (ns_set_kv kv s)
               else ns_missing response QUERY_NOT_FOUND ''no config item'' (ns_set_kv kv s)))"

definition deleteKVConfigByValue :: "'s ns_json \<Rightarrow> RemotingCommand \<Rightarrow> 's namesrv \<Rightarrow> 's ns_result" where
  "deleteKVConfigByValue J request s =
     (case ns_decode kv_key_check request kv_key_header of
        Inl e \<Rightarrow> ns_error (ns_response None) e s
      | Inr h \<Rightarrow>
          (case KVConfigManager_deleteKVConfigByValue (j_kv_file J) (string_field h ''Namespace'') (string_field h ''Key'')
                 (ns_KvConfigManager s) of
             (True, kv) \<Rightarrow> ns_ok (ns_response None) (ns_set_kv kv s)
           | (False, kv) \<Rightarrow> ns_waits (ns_set_kv kv s)))"

definition getKVListByNamespace :: "'s ns_json \<Rightarrow> RemotingCommand \<Rightarrow> 's namesrv \<Rightarrow> 's ns_result" where
  "getKVListByNamespace J request s =
     (case ns_decode namespace_check request namespace_header of
        Inl e \<Rightarrow> ns_error (ns_response None) e s
      | Inr h \<Rightarrow>
          (case KVConfigManager_getKVListByNamespace (j_kv_list J) (string_field h ''Namespace'') (ns_KvConfigManager s) of
             (None, kv) \<Rightarrow> ns_waits (ns_set_kv kv s)
           | (Some body, kv) \<Rightarrow>
               if body \<noteq> [] then ns_ok (ns_body body (ns_response None)) (ns_set_kv kv s)
               else ns_missing (ns_response None) QUERY_NOT_FOUND ''No config item'' (ns_set_kv kv s)))"

section \<open>Requests and events\<close>

text \<open>The codes of the requests are those of the code; \<open>now\<close> is the time, \<open>ctx\<close> the address of the connection.\<close>

definition DefaultRequestProcessor_ProcessRequest ::
    "(string, 's) set_ops \<Rightarrow> 's ns_json \<Rightarrow> int \<Rightarrow> string \<Rightarrow> RemotingCommand \<Rightarrow> 's namesrv \<Rightarrow> 's ns_result" where
  "DefaultRequestProcessor_ProcessRequest S J now ctx request s =
     (let code = rc_Code request
      in if code = 100 then putKVConfig J request s
         else if code = 101 then getKVConfig request s
         else if code = 102 then deleteKVConfig J request s
         else if code = 103
         then if rc_Version request \<ge> V3_0_11 then registerBrokerWithFilterServer S J now ctx request s
              else registerBroker S J now ctx request s
         else if code = 104 then unRegisterBroker S request s
         else if code = 105 then getRouteInfoByTopic S J request s
         else if code = 106 then getBrokerClusterInfo J s
         else if code = 205 then wipeWritePermOfBroker request s
         else if code = 206 then getAllTopicListFromNamesrv S J s
         else if code = 216 then deleteTopicInNamesrv request s
         else if code = 217 then getKVConfigByValue request s
         else if code = 218 then deleteKVConfigByValue J request s
         else if code = 219 then getKVListByNamespace J request s
         else if code = 224 then getTopicsByCluster S J request s
         else if code = 304 then getSystemTopicListFromNamesrv S J s
         else if code = 311 then getUnitTopicList S J s
         else if code = 312 then getHasUnitSubTopicList S J s
         else if code = 313 then getHasUnitSubUnUnitTopicList S J s
         else (Some (None, None), s))"

text \<open>The end of a connection, an error on it or its idleness, and the scan for dead brokers.\<close>

definition OnContextClose :: "(string, 's) set_ops \<Rightarrow> string option \<Rightarrow> 's namesrv \<Rightarrow> 's namesrv option" where
  "OnContextClose S ctx s =
     (case ctx of
        None \<Rightarrow> Some s
      | Some addr \<Rightarrow> map_option (\<lambda>r. ns_set_routes r s) (RouteInfoManager_onChannelDestroy S addr (Some addr) (ns_RouteInfoManager s)))"

definition scan_brokers :: "(string, 's) set_ops \<Rightarrow> int \<Rightarrow> 's namesrv \<Rightarrow> 's namesrv option" where
  "scan_brokers S now s = map_option (\<lambda>r. ns_set_routes r s) (RouteInfoManager_scanNotActiveBroker S now (ns_RouteInfoManager s))"

text \<open>Anything that happens to a registry; a request may be one that is never answered.\<close>

inductive ns_step :: "(string, 's) set_ops \<Rightarrow> 's ns_json \<Rightarrow> 's namesrv \<Rightarrow> 's namesrv \<Rightarrow> bool" for S J where
  request: "DefaultRequestProcessor_ProcessRequest S J now ctx req s = (answer, s1) \<Longrightarrow> ns_step S J s s1"
| lost: "OnContextClose S ctx s = Some s1 \<Longrightarrow> ns_step S J s s1"
| scan: "scan_brokers S now s = Some s1 \<Longrightarrow> ns_step S J s s1"

definition ns_run :: "(string, 's) set_ops \<Rightarrow> 's ns_json \<Rightarrow> 's namesrv \<Rightarrow> 's namesrv \<Rightarrow> bool" where
  "ns_run S J = (ns_step S J)\<^sup>*\<^sup>*"

section \<open>The tables of the server\<close>

lemmas ns_handlers = putKVConfig_def getKVConfig_def deleteKVConfig_def registerBrokerWithFilterServer_def registerBroker_def
  unRegisterBroker_def getRouteInfoByTopic_def getBrokerClusterInfo_def wipeWritePermOfBroker_def getAllTopicListFromNamesrv_def
  deleteTopicInNamesrv_def getKVConfigByValue_def deleteKVConfigByValue_def getKVListByNamespace_def getTopicsByCluster_def
  getSystemTopicListFromNamesrv_def getUnitTopicList_def getHasUnitSubTopicList_def getHasUnitSubUnUnitTopicList_def
  topic_list_answer_def

lemmas ns_answers = ns_ok_def ns_error_def ns_missing_def ns_waits_def ns_set_kv_def ns_set_routes_def

lemma registered_routes:
  "ns_RouteInfoManager (snd (ns_registered S J now ctx h w fs s)) = snd (RouteInfoManager_registerBroker S now (string_field h ''ClusterName'')
     (string_field h ''BrokerAddr'') (string_field h ''BrokerName'') (int_field h ''BrokerId'') (string_field h ''HaServerAddr'') w fs ctx
     (ns_RouteInfoManager s))"
  by (simp add: ns_registered_def ns_answers split: prod.split option.split)

text \<open>What a request does to the routes is one of the operations of the manager, or nothing.\<close>

definition routes_reach :: "(string, 's) set_ops \<Rightarrow> 's ns_result \<Rightarrow> bool" where
  "routes_reach S result \<longleftrightarrow> registry_reach S (ns_RouteInfoManager (snd result))"

lemma routes_reach_answers:
  assumes "registry_reach S (ns_RouteInfoManager s)"
  shows "routes_reach S (ns_ok c s)" "routes_reach S (ns_error c e s)" "routes_reach S (ns_missing c n t s)" "routes_reach S (ns_waits s)"
    and "routes_reach S (ns_ok c (ns_set_kv kv s))" "routes_reach S (ns_error c e (ns_set_kv kv s))"
    and "routes_reach S (ns_missing c n t (ns_set_kv kv s))" "routes_reach S (ns_waits (ns_set_kv kv s))"
  using assms by (simp_all add: routes_reach_def ns_answers)

lemma routes_reach_set: "registry_reach S r \<Longrightarrow> routes_reach S (ns_ok c (ns_set_routes r s))"
  by (simp add: routes_reach_def ns_answers)

lemma routes_reach_brokers:
  assumes "registry_reach S (ns_RouteInfoManager s)"
  shows "routes_reach S (registerBrokerWithFilterServer S J now ctx req s)" and "routes_reach S (registerBroker S J now ctx req s)"
    and "routes_reach S (unRegisterBroker S req s)" and "routes_reach S (wipeWritePermOfBroker req s)"
    and "routes_reach S (deleteTopicInNamesrv req s)"
proof -
  note reach = registry_reach.intros(2,3,6,7) [OF assms] and answers = routes_reach_answers [OF assms]
  have reg: "routes_reach S (ns_registered S J now ctx h w fs s)" for h w fs
    using reach(1) by (simp add: routes_reach_def registered_routes)
  show "routes_reach S (registerBrokerWithFilterServer S J now ctx req s)" and "routes_reach S (registerBroker S J now ctx req s)"
    using reg answers by (auto simp: registerBrokerWithFilterServer_def registerBroker_def Let_def split: sum.split)
  show "routes_reach S (unRegisterBroker S req s)" "routes_reach S (deleteTopicInNamesrv req s)"
    using reach(2,4) answers
    by (auto simp: unRegisterBroker_def deleteTopicInNamesrv_def intro: routes_reach_set split: sum.split)
  have "registry_reach S r" if "RouteInfoManager_wipeWritePermOfBroker b (ns_RouteInfoManager s) = (n, r)" for b n r
    using reach(3) [of b] that by simp
  then show "routes_reach S (wipeWritePermOfBroker req s)"
    using answers by (auto simp: wipeWritePermOfBroker_def intro: routes_reach_set split: sum.split prod.split)
qed

lemma routes_reach_others:
  assumes "registry_reach S (ns_RouteInfoManager s)"
  shows "routes_reach S (getRouteInfoByTopic S J req s)" "routes_reach S (getBrokerClusterInfo J s)"
    "routes_reach S (getAllTopicListFromNamesrv S J s)" "routes_reach S (getTopicsByCluster S J req s)"
    "routes_reach S (getSystemTopicListFromNamesrv S J s)" "routes_reach S (getUnitTopicList S J s)"
    "routes_reach S (getHasUnitSubTopicList S J s)" "routes_reach S (getHasUnitSubUnUnitTopicList S J s)"
    "routes_reach S (Some (None, None), s)"
  using routes_reach_answers [OF assms] assms
  by (auto simp: getRouteInfoByTopic_def getBrokerClusterInfo_def getAllTopicListFromNamesrv_def getTopicsByCluster_def
      getSystemTopicListFromNamesrv_def getUnitTopicList_def getHasUnitSubTopicList_def getHasUnitSubUnUnitTopicList_def
      topic_list_answer_def Let_def routes_reach_def [of _ "(Some (None, None), s)"] split: sum.split option.split prod.split)

lemma routes_reach_kv:
  assumes "registry_reach S (ns_RouteInfoManager s)"
  shows "routes_reach S (putKVConfig J req s)" "routes_reach S (getKVConfig req s)" "routes_reach S (deleteKVConfig J req s)"
    "routes_reach S (getKVConfigByValue req s)" "routes_reach S (deleteKVConfigByValue J req s)" "routes_reach S (getKVListByNamespace J req s)"
  using routes_reach_answers [OF assms]
  by (auto simp: putKVConfig_def getKVConfig_def deleteKVConfig_def getKVConfigByValue_def deleteKVConfigByValue_def getKVListByNamespace_def
      Let_def split: sum.split option.split prod.split bool.split)

lemma request_routes:
  assumes "registry_reach S (ns_RouteInfoManager s)"
  shows "registry_reach S (ns_RouteInfoManager (snd (DefaultRequestProcessor_ProcessRequest S J now ctx req s)))"
proof -
  have p: "P a \<Longrightarrow> P b \<Longrightarrow> P (if c then a else b)" for P :: "'a ns_result \<Rightarrow> bool" and a b c by simp
  have "routes_reach S (DefaultRequestProcessor_ProcessRequest S J now ctx req s)"
    unfolding DefaultRequestProcessor_ProcessRequest_def Let_def
    by (intro p [where P = "routes_reach S"] routes_reach_brokers [OF assms] routes_reach_others [OF assms] routes_reach_kv [OF assms])
  then show ?thesis by (simp add: routes_reach_def)
qed

lemma step_routes:
  assumes "ns_step S J s s1" and "registry_reach S (ns_RouteInfoManager s)"
  shows "registry_reach S (ns_RouteInfoManager s1)"
  using assms(1)
proof cases
  case (request now ctx req answer)
  then show ?thesis using request_routes [OF assms(2), of J now ctx req] by simp
next
  case (lost ctx)
  then show ?thesis using assms(2) registry_reach.destroy [OF assms(2)]
    by (auto simp: OnContextClose_def ns_set_routes_def split: option.splits)
next
  case (scan now)
  then show ?thesis using registry_reach.scan [OF assms(2)] by (auto simp: scan_brokers_def ns_set_routes_def)
qed

lemma run_routes:
  assumes "ns_run S J s s1" and "registry_reach S (ns_RouteInfoManager s)"
  shows "registry_reach S (ns_RouteInfoManager s1)"
  using assms unfolding ns_run_def by (induction rule: rtranclp_induct) (simp_all add: step_routes)

lemma new_controller: "registry_reach S (ns_RouteInfoManager NewNamesrvController)"
  by (simp add: NewNamesrvController_def registry_reach.start)

text \<open>
  C24 (invariant): whatever requests a registry gets, answered or not, and whatever connections it loses, every topic has queues, one for each broker;
  every broker has an address; and neither the loss of a connection nor the scan for dead brokers leaves the routes locked.
\<close>

theorem server_tables_ok:
  assumes "ns_run S J NewNamesrvController s"
  shows "(\<forall>(topic, qds) \<in> set (TopicQueueTable (ns_RouteInfoManager s)). qds \<noteq> [] \<and> distinct (map qd_BrokerName qds)) \<and>
     (\<forall>(bn, bd) \<in> set (BrokerAddrTable (ns_RouteInfoManager s)). bd_BrokerName bd = bn \<and> bd_BrokerAddrs bd \<noteq> []) \<and>
     OnContextClose S ctx s \<noteq> None \<and> scan_brokers S now s \<noteq> None"
proof -
  have reach: "registry_reach S (ns_RouteInfoManager s)" using run_routes [OF assms new_controller] .
  note inv = reach_route_inv [OF reach]
  have "OnContextClose S ctx s \<noteq> None"
    using destroy_inv [OF inv] by (auto simp: OnContextClose_def split: option.split) blast
  moreover have "scan_brokers S now s \<noteq> None"
    using scan_inv [OF inv] by (auto simp: scan_brokers_def RouteInfoManager_scanNotActiveBroker_def) blast
  ultimately show ?thesis using inv by (auto simp: route_inv_def topics_ok_def brokers_ok_def)
qed

section \<open>The lock of the configuration store\<close>

text \<open>Requests that change the configuration, and those that take the read lock on their way to the answer.\<close>

definition kv_write :: "RemotingCommand \<Rightarrow> bool" where
  "kv_write req \<longleftrightarrow>
     rc_Code req = 100 \<and> (\<exists>h. ns_decode kv_put_check req kv_put_header = Inr h) \<or>
     rc_Code req \<in> {102, 218} \<and> (\<exists>h. ns_decode kv_key_check req kv_key_header = Inr h)"

definition kv_read :: "(string, 's) set_ops \<Rightarrow> 's ns_json \<Rightarrow> RemotingCommand \<Rightarrow> 's namesrv \<Rightarrow> bool" where
  "kv_read S J req s \<longleftrightarrow>
     rc_Code req \<in> {101, 217} \<and> (\<exists>h. ns_decode kv_key_check req kv_key_header = Inr h) \<or>
     rc_Code req = 219 \<and> (\<exists>h. ns_decode namespace_check req namespace_header = Inr h) \<or>
     rc_Code req = 103 \<and> (\<exists>h. ns_decode register_check req register_header = Inr h) \<and>
       (body_bytes req = [] \<or>
        (if rc_Version req \<ge> V3_0_11 then \<exists>b. j_register J (body_bytes req) = Inr b else \<exists>w. j_wrapper J (body_bytes req) = Inr w)) \<or>
     rc_Code req = 105 \<and> (\<exists>h. ns_decode topic_check req topic_header = Inr h \<and>
       RouteInfoManager_pickupTopicRouteData S (string_field h ''Topic'') (ns_RouteInfoManager s) \<noteq> None)"

definition kv_waiting :: "'s namesrv \<Rightarrow> bool" where
  "kv_waiting s \<longleftrightarrow> kv_writer (ns_KvConfigManager s)"

definition kv_left :: "'s namesrv \<Rightarrow> nat" where
  "kv_left s = kv_readers (ns_KvConfigManager s)"

text \<open>
  One step of the lock: a handler that reads gives up when a writer waits, one that writes when anybody holds the lock or waits.
\<close>

definition lock_step :: "bool \<Rightarrow> bool \<Rightarrow> 's namesrv \<Rightarrow> 's ns_result \<Rightarrow> bool" where
  "lock_step w r s result \<longleftrightarrow>
     (fst result = None \<longleftrightarrow> w \<and> (0 < kv_left s \<or> kv_waiting s) \<or> r \<and> kv_waiting s) \<and>
     kv_left s \<le> kv_left (snd result) \<and> (kv_waiting (snd result) \<longleftrightarrow> kv_waiting s \<or> w \<and> 0 < kv_left s)"

lemma lock_step_answers:
  "lock_step False False s (ns_ok c s)" "lock_step False False s (ns_error c e s)" "lock_step False False s (ns_missing c n t s)"
  "lock_step False False s (ns_ok c (ns_set_routes r s))"
  by (simp_all add: lock_step_def ns_answers kv_left_def kv_waiting_def)

lemma lock_step_writes:
  "lock_step (\<exists>h. ns_decode kv_put_check req kv_put_header = Inr h) False s (putKVConfig J req s)"
  "lock_step (\<exists>h. ns_decode kv_key_check req kv_key_header = Inr h) False s (deleteKVConfig J req s)"
  "lock_step (\<exists>h. ns_decode kv_key_check req kv_key_header = Inr h) False s (deleteKVConfigByValue J req s)"
  by (auto simp: putKVConfig_def deleteKVConfig_def deleteKVConfigByValue_def lock_step_def ns_answers kv_left_def kv_waiting_def
      kv_writes kv_locks Let_def split: sum.split bool.split prod.split option.split)

lemma lock_step_reads:
  "lock_step False (\<exists>h. ns_decode kv_key_check req kv_key_header = Inr h) s (getKVConfig req s)"
  "lock_step False (\<exists>h. ns_decode kv_key_check req kv_key_header = Inr h) s (getKVConfigByValue req s)"
  "lock_step False (\<exists>h. ns_decode namespace_check req namespace_header = Inr h) s (getKVListByNamespace J req s)"
  by (auto simp: getKVConfig_def getKVConfigByValue_def getKVListByNamespace_def lock_step_def ns_answers kv_left_def kv_waiting_def
      kv_reads kv_locks Let_def split: sum.split option.split)

lemma lock_step_registered: "lock_step False True s (ns_registered S J now ctx h w fs s)"
  by (auto simp: ns_registered_def lock_step_def ns_answers kv_left_def kv_waiting_def kv_reads kv_locks split: prod.split option.split)

lemma lock_step_register:
  assumes "rc_Code req = 103"
  shows "lock_step False (kv_read S J req s) s
    (if rc_Version req \<ge> V3_0_11 then registerBrokerWithFilterServer S J now ctx req s else registerBroker S J now ctx req s)"
  using assms lock_step_answers(2) lock_step_registered
  by (auto simp: kv_read_def registerBrokerWithFilterServer_def registerBroker_def Let_def split: sum.split)

lemma lock_step_route:
  assumes "rc_Code req = 105"
  shows "lock_step False (kv_read S J req s) s (getRouteInfoByTopic S J req s)"
  using assms
  by (auto simp: kv_read_def getRouteInfoByTopic_def lock_step_def ns_answers kv_left_def kv_waiting_def kv_reads kv_locks Let_def
      split: sum.split option.split)

lemma lock_step_others:
  "lock_step False False s (unRegisterBroker S req s)" "lock_step False False s (getBrokerClusterInfo J s)"
  "lock_step False False s (wipeWritePermOfBroker req s)" "lock_step False False s (getAllTopicListFromNamesrv S J s)"
  "lock_step False False s (deleteTopicInNamesrv req s)" "lock_step False False s (getTopicsByCluster S J req s)"
  "lock_step False False s (getSystemTopicListFromNamesrv S J s)" "lock_step False False s (getUnitTopicList S J s)"
  "lock_step False False s (getHasUnitSubTopicList S J s)" "lock_step False False s (getHasUnitSubUnUnitTopicList S J s)"
  "lock_step False False s (Some (None, None), s)"
  by (auto simp: ns_handlers lock_step_def ns_answers kv_left_def kv_waiting_def Let_def split: sum.split prod.split)

lemma request_lock:
  "lock_step (kv_write req) (kv_read S J req s) s (DefaultRequestProcessor_ProcessRequest S J now ctx req s)"
proof -
  let ?c = "rc_Code req"
  consider "?c \<in> {100, 102, 218}" | "?c \<in> {101, 217, 219}" | "?c = 103" | "?c = 105" | "?c \<notin> {100, 101, 102, 103, 105, 217, 218, 219}"
    by auto
  then show ?thesis
  proof cases
    case 1
    then show ?thesis using lock_step_writes [of req s J]
      by (auto simp: DefaultRequestProcessor_ProcessRequest_def kv_write_def kv_read_def)
  next
    case 2
    then show ?thesis using lock_step_reads [of req s] lock_step_reads(3) [of req s J]
      by (auto simp: DefaultRequestProcessor_ProcessRequest_def kv_write_def kv_read_def)
  next
    case 3
    then show ?thesis using lock_step_register [OF 3, of S J s now ctx]
      by (simp add: DefaultRequestProcessor_ProcessRequest_def kv_write_def)
  next
    case 4
    then show ?thesis using lock_step_route [OF 4, of S J s]
      by (simp add: DefaultRequestProcessor_ProcessRequest_def kv_write_def)
  next
    case 5
    then have "\<not> kv_write req" "\<not> kv_read S J req s" by (auto simp: kv_write_def kv_read_def)
    with 5 show ?thesis using lock_step_others [of s] by (simp add: DefaultRequestProcessor_ProcessRequest_def Let_def)
  qed
qed

lemma request_hangs_iff:
  "fst (DefaultRequestProcessor_ProcessRequest S J now ctx req s) = None \<longleftrightarrow>
     kv_write req \<and> (0 < kv_left s \<or> kv_waiting s) \<or> kv_read S J req s \<and> kv_waiting s"
  using request_lock [of req S J s now ctx] by (simp add: lock_step_def)

text \<open>An answered request leaves no writer waiting.\<close>

lemma answered_keeps_free:
  assumes "fst (DefaultRequestProcessor_ProcessRequest S J now ctx req s) \<noteq> None" and "\<not> kv_waiting s"
  shows "\<not> kv_waiting (snd (DefaultRequestProcessor_ProcessRequest S J now ctx req s))"
  using request_lock [of req S J s now ctx] assms by (auto simp: lock_step_def)

lemma run_keeps_lock:
  assumes "ns_run S J s s1"
  shows "kv_left s \<le> kv_left s1" and "kv_waiting s \<Longrightarrow> kv_waiting s1"
proof -
  have "kv_left s \<le> kv_left s1 \<and> (kv_waiting s \<longrightarrow> kv_waiting s1)"
    using assms unfolding ns_run_def
  proof (induction rule: rtranclp_induct)
    case (step s1 s2)
    from step.hyps(2) have "kv_left s1 \<le> kv_left s2 \<and> (kv_waiting s1 \<longrightarrow> kv_waiting s2)"
    proof cases
      case (request now ctx req answer)
      then show ?thesis using request_lock [of req S J s1 now ctx] by (simp add: lock_step_def)
    qed (auto simp: OnContextClose_def scan_brokers_def ns_set_routes_def kv_left_def kv_waiting_def split: option.splits)
    with step.IH show ?case by auto
  qed simp
  then show "kv_left s \<le> kv_left s1" and "kv_waiting s \<Longrightarrow> kv_waiting s1" by simp_all
qed

text \<open>
  C25 (liveness): once a registry has answered one query for the route of an ordered topic, whatever happens afterwards, no request that
  changes the configuration is answered again; the others are until such a request was made: from then on also those that read the
  configuration (queries for routes that exist, registrations of brokers, queries for the configuration) wait for ever, and only the rest
  is answered.
\<close>

theorem ordered_route_blocks_config:
  assumes "rc_Code q = 105" and "ns_decode topic_check q topic_header = Inr h"
    and "RouteInfoManager_pickupTopicRouteData S (string_field h ''Topic'') (ns_RouteInfoManager s) \<noteq> None"
    and "map_of (ConfigTable (ns_KvConfigManager s)) NAMESPACE_ORDER_TOPIC_CONFIG = Some t" and "map_of t (string_field h ''Topic'') = Some v"
    and "DefaultRequestProcessor_ProcessRequest S J now ctx q s = (Some a, s1)" and "ns_run S J s1 s2"
    and "kv_write w" and "ns_run S J (snd (DefaultRequestProcessor_ProcessRequest S J now2 ctx2 w s2)) s3"
  shows "\<not> kv_waiting s1 \<and>
    (fst (DefaultRequestProcessor_ProcessRequest S J now1 ctx1 req s2) = None \<longleftrightarrow> kv_write req \<or> kv_waiting s2 \<and> kv_read S J req s2) \<and>
    (kv_waiting (snd (DefaultRequestProcessor_ProcessRequest S J now1 ctx1 req s2)) \<longleftrightarrow> kv_waiting s2 \<or> kv_write req) \<and>
    (fst (DefaultRequestProcessor_ProcessRequest S J now3 ctx3 req s3) = None \<longleftrightarrow> kv_write req \<or> kv_read S J req s3)"
proof -
  have read: "kv_read S J q s" using assms(1-3) by (auto simp: kv_read_def)
  have l: "lock_step (kv_write q) (kv_read S J q s) s (Some a, s1)" using request_lock [of q S J s now ctx] assms(6) by simp
  then have free: "\<not> kv_waiting s" using read by (simp add: lock_step_def)
  with l have 1: "\<not> kv_waiting s1" using assms(1) by (simp add: lock_step_def kv_write_def)
  have "0 < kv_left s1"
    using assms(1-6) free
    by (auto simp: DefaultRequestProcessor_ProcessRequest_def getRouteInfoByTopic_def kv_reads kv_locks ns_answers Let_def
        kv_left_def kv_waiting_def split: sum.splits)
  then have 2: "0 < kv_left s2" using run_keeps_lock(1) [OF assms(7)] by simp
  have "kv_waiting (snd (DefaultRequestProcessor_ProcessRequest S J now2 ctx2 w s2))"
    using request_lock [of w S J s2 now2 ctx2] 2 assms(8) by (simp add: lock_step_def)
  then have "kv_waiting s3" by (rule run_keeps_lock(2) [OF assms(9)])
  then show ?thesis
    using 1 2 request_lock [of req S J s2 now1 ctx1] by (auto simp: lock_step_def request_hangs_iff)
qed

section \<open>From a broker to a client\<close>

text \<open>
  C22 (functional): after a master has registered with its topics, a client that asks for one of them gets a route that has one entry of the
  broker, with the numbers and the permission the broker sent, and the address of the broker. Both requests are answered with success. The
  registry is one where no request that changes the configuration waits for ever (one where all requests were answered is).
\<close>

theorem registered_topic_is_routed:
  assumes "ns_run S J NewNamesrvController s" and "\<not> kv_waiting s" and "set_laws S"
    and "rc_Code reg = 103" and "rc_Version reg \<ge> V3_0_11" and "ns_decode register_check reg register_header = Inr h"
    and "int_field h ''BrokerId'' = MASTER_ID" and "body_bytes reg \<noteq> []" and "j_register J (body_bytes reg) = Inr (Some w, fs)"
    and "w_TopicConfigTable w = Some tcs" and "(k, tc) \<in> set tcs" and "topic = TrimSpace (tc_TopicName tc)" and "topic \<noteq> []"
    and "\<forall>(k, tc1) \<in> set tcs. TrimSpace (tc_TopicName tc1) = topic \<longrightarrow> tc1 = tc"
    and "rc_Code q = 105" and "ns_decode topic_check q topic_header = Inr h1" and "string_field h1 ''Topic'' = topic"
    and "\<forall>r. j_route J r = Inr (enc r) \<and> enc r \<noteq> []"
  shows "\<exists>a1 s1 a2 s2 route bd.
     DefaultRequestProcessor_ProcessRequest S J now ctx reg s = (Some (Some a1, None), s1) \<and> rc_Code a1 = SUCCESS \<and>
     DefaultRequestProcessor_ProcessRequest S J later client q s1 = (Some (Some a2, None), s2) \<and> rc_Code a2 = SUCCESS \<and>
     body_bytes a2 = enc route \<and>
     filter (\<lambda>qd. qd_BrokerName qd = string_field h ''BrokerName'') (QueueDatas route) = [NewQueueData (string_field h ''BrokerName'') tc] \<and>
     bd \<in> set (BrokerDatas route) \<and> bd_BrokerName bd = string_field h ''BrokerName'' \<and>
     map_of (bd_BrokerAddrs bd) MASTER_ID = Some (string_field h ''BrokerAddr'')"
proof -
  have reach: "registry_reach S (ns_RouteInfoManager s)" using run_routes [OF assms(1) new_controller] .
  let ?b = "string_field h ''BrokerName''"
  obtain res r1 route bd where r: "RouteInfoManager_registerBroker S now (string_field h ''ClusterName'') (string_field h ''BrokerAddr'') ?b
        MASTER_ID (string_field h ''HaServerAddr'') (Some w) fs ctx (ns_RouteInfoManager s) = (res, r1)"
      "RouteInfoManager_pickupTopicRouteData S topic r1 = Some route"
      "filter (\<lambda>qd. qd_BrokerName qd = ?b) (QueueDatas route) = [NewQueueData ?b tc]"
      "bd \<in> set (BrokerDatas route)" "bd_BrokerName bd = ?b" "map_of (bd_BrokerAddrs bd) MASTER_ID = Some (string_field h ''BrokerAddr'')"
    using register_then_route [OF reach assms(3,10-14)] by blast
  obtain body kv where kv: "KVConfigManager_getKVListByNamespace (j_kv_list J) NAMESPACE_ORDER_TOPIC_CONFIG (ns_KvConfigManager s) = (Some body, kv)"
      "\<not> kv_writer kv"
    using assms(2)
    by (cases "map_of (ConfigTable (ns_KvConfigManager s)) NAMESPACE_ORDER_TOPIC_CONFIG") (auto simp: kv_waiting_def kv_reads kv_locks)
  let ?s1 = "ns_set_kv kv (ns_set_routes r1 s)"
  let ?a1 = "(ns_body body (ns_response (Some (register_response_header (rbr_HaServerAddr res) (rbr_MasterAddr res)))))\<lparr>rc_Code := SUCCESS, rc_Remark := []\<rparr>"
  have p1: "DefaultRequestProcessor_ProcessRequest S J now ctx reg s = (Some (Some ?a1, None), ?s1)"
    using assms(4-9) r(1) kv(1)
    by (simp add: DefaultRequestProcessor_ProcessRequest_def registerBrokerWithFilterServer_def ns_registered_def ns_ok_def)
  obtain conf kv1 where c: "KVConfigManager_getKVConfig NAMESPACE_ORDER_TOPIC_CONFIG topic (ns_KvConfigManager ?s1) = (Some conf, kv1)"
    using kv(2) op_returns [of "\<lambda>_. []" "\<lambda>_. []" "GetKV NAMESPACE_ORDER_TOPIC_CONFIG topic" kv]
    by (cases "KVConfigManager_getKVConfig NAMESPACE_ORDER_TOPIC_CONFIG topic kv") (auto simp: ns_answers)
  let ?route = "route\<lparr>OrderTopicConf := conf\<rparr>"
  let ?a2 = "(ns_body (enc ?route) (ns_response None))\<lparr>rc_Code := SUCCESS, rc_Remark := []\<rparr>"
  have "ns_RouteInfoManager ?s1 = r1" by (simp add: ns_answers)
  then have p2: "DefaultRequestProcessor_ProcessRequest S J later client q ?s1 = (Some (Some ?a2, None), ns_set_kv kv1 ?s1)"
    using assms(15-18) r(2) c by (simp add: DefaultRequestProcessor_ProcessRequest_def getRouteInfoByTopic_def ns_ok_def)
  show ?thesis
    using p1 p2 r(3-6) assms(18)
    by (intro exI [of _ ?a1, OF exI [of _ ?s1, OF exI [of _ ?a2, OF exI [of _ "ns_set_kv kv1 ?s1", OF exI [of _ ?route, OF exI [of _ bd]]]]]])
      (simp add: ns_body_def body_bytes_def)
qed

section \<open>A registry with one broker\<close>

definition example_json :: "string list ns_json" where
  "example_json = \<lparr>j_register = \<lambda>_. Inr (Some example_wrapper, None), j_wrapper = \<lambda>_. Inr example_wrapper, j_route = \<lambda>_. Inr [1],
     j_kv_file = \<lambda>_. [1], j_kv_list = \<lambda>_. [1], j_cluster = \<lambda>_. [1], j_topics = \<lambda>_. [1], j_topics_plus = \<lambda>_. [1]\<rparr>"

definition example_register :: RemotingCommand where
  "example_register = empty_command\<lparr>rc_Code := 103, rc_Version := 79, rc_Body := Some [1],
     rc_ExtFields := Some [(''BrokerName'', ''b''), (''BrokerAddr'', ''10.0.0.1:10911''), (''ClusterName'', ''c''), (''HaServerAddr'', ''ha''),
       (''BrokerId'', ''0'')]\<rparr>"

definition example_registered :: custom_header where
  "example_registered = [(''BrokerName'', StringF ''b''), (''BrokerAddr'', StringF ''10.0.0.1:10911''), (''ClusterName'', StringF ''c''),
     (''HaServerAddr'', StringF ''ha''), (''BrokerId'', IntF 64 0)]"

definition example_query :: RemotingCommand where
  "example_query = empty_command\<lparr>rc_Code := 105, rc_ExtFields := Some [(''Topic'', ''t'')]\<rparr>"

definition example_put :: RemotingCommand where
  "example_put = empty_command\<lparr>rc_Code := 100,
     rc_ExtFields := Some [(''Namespace'', NAMESPACE_ORDER_TOPIC_CONFIG), (''Key'', ''t''), (''Value'', ''b:4'')]\<rparr>"

lemma example_register_decoded: "ns_decode register_check example_register register_header = Inr example_registered"
  by code_simp

lemma example_query_decoded: "ns_decode topic_check example_query topic_header = Inr [(''Topic'', StringF ''t'')]"
  by code_simp

lemma example_put_write: "kv_write example_put"
proof -
  have "case ns_decode kv_put_check example_put kv_put_header of Inr h \<Rightarrow> True | Inl e \<Rightarrow> False" by code_simp
  then show ?thesis by (auto simp: kv_write_def example_put_def split: sum.splits)
qed

theorem server_tables_ok_witness:
  "\<exists>a s1. DefaultRequestProcessor_ProcessRequest list_set example_json 5 ''10.0.0.1:9'' example_register NewNamesrvController = (Some a, s1) \<and>
     OnContextClose list_set (Some ''10.0.0.1:9'') s1 \<noteq> None"
proof -
  obtain a s1 where p: "DefaultRequestProcessor_ProcessRequest list_set example_json 5 ''10.0.0.1:9'' example_register NewNamesrvController = (Some a, s1)"
    using request_hangs_iff [of list_set example_json 5 "''10.0.0.1:9''" example_register NewNamesrvController]
    by (cases "DefaultRequestProcessor_ProcessRequest list_set example_json 5 ''10.0.0.1:9'' example_register NewNamesrvController")
      (auto simp: NewNamesrvController_def NewKVConfigManager_def kv_left_def kv_waiting_def)
  then have "ns_run list_set example_json NewNamesrvController s1" unfolding ns_run_def using ns_step.request by blast
  from server_tables_ok [OF this, of "Some ''10.0.0.1:9''" 0] p show ?thesis by blast
qed

theorem registered_topic_is_routed_witness:
  "\<exists>a1 s1 a2 s2. DefaultRequestProcessor_ProcessRequest list_set example_json 5 ''10.0.0.1:9'' example_register NewNamesrvController =
       (Some (Some a1, None), s1) \<and> rc_Code a1 = SUCCESS \<and>
     DefaultRequestProcessor_ProcessRequest list_set example_json 6 ''10.0.0.9:9'' example_query s1 = (Some (Some a2, None), s2) \<and> rc_Code a2 = SUCCESS"
proof -
  have n: "TrimSpace (tc_TopicName (NewTopicConfig ''t'')) = ''t''" by (simp add: NewTopicConfig_def TrimSpace_def is_space_def)
  have f: "int_field example_registered ''BrokerId'' = MASTER_ID" "body_bytes example_register \<noteq> []"
      "rc_Code example_register = 103" "V3_0_11 \<le> rc_Version example_register" "rc_Code example_query = 105"
      "string_field [(''Topic'', StringF ''t'')] ''Topic'' = ''t''"
    by (simp_all add: example_registered_def int_field_def MASTER_ID_def example_register_def body_bytes_def V3_0_11_def example_query_def string_field_def)
  have "ns_run list_set example_json NewNamesrvController NewNamesrvController" by (simp add: ns_run_def)
  moreover have "\<not> kv_waiting (NewNamesrvController :: string list namesrv)"
    by (simp add: kv_waiting_def NewNamesrvController_def NewKVConfigManager_def)
  ultimately have n1: "ns_run list_set example_json NewNamesrvController NewNamesrvController" "\<not> kv_waiting (NewNamesrvController :: string list namesrv)"
    by simp_all
  from registered_topic_is_routed [OF n1 list_set_laws f(3,4) example_register_decoded f(1,2), where w = example_wrapper and fs = None
      and tcs = "[(''t'', NewTopicConfig ''t'')]" and k = "''t''" and tc = "NewTopicConfig ''t''" and topic = "''t''"
      and q = example_query and enc = "\<lambda>_. [1]" and now = 5 and ctx = "''10.0.0.1:9''" and later = 6 and client = "''10.0.0.9:9''",
      OF _ _ _ _ _ _ f(5) example_query_decoded f(6)]
  show ?thesis using n by (auto simp: example_json_def example_wrapper_def)
qed

theorem ordered_route_blocks_config_witness:
  "\<exists>s1 a s2. DefaultRequestProcessor_ProcessRequest list_set example_json 6 ''10.0.0.9:9'' example_query s1 = (Some a, s2) \<and>
     (let (answer, s3) = DefaultRequestProcessor_ProcessRequest list_set example_json 7 ''10.0.0.9:9'' example_put s2
      in answer = None \<and> fst (DefaultRequestProcessor_ProcessRequest list_set example_json 8 ''10.0.0.9:9'' example_query s3) = None)"
proof -
  define s1 :: "string list namesrv" where
    "s1 = \<lparr>ns_RouteInfoManager = example_registry, ns_KvConfigManager = NewKVConfigManager\<lparr>ConfigTable := [(NAMESPACE_ORDER_TOPIC_CONFIG, [(''t'', ''b:4'')])]\<rparr>\<rparr>"
  obtain a s2 where p: "DefaultRequestProcessor_ProcessRequest list_set example_json 6 ''10.0.0.9:9'' example_query s1 = (Some a, s2)"
    using request_hangs_iff [of list_set example_json 6 "''10.0.0.9:9''" example_query s1]
    by (cases "DefaultRequestProcessor_ProcessRequest list_set example_json 6 ''10.0.0.9:9'' example_query s1")
      (auto simp: s1_def NewKVConfigManager_def kv_left_def kv_waiting_def)
  have f: "rc_Code example_query = 105" "string_field [(''Topic'', StringF ''t'')] ''Topic'' = ''t''"
      "map_of (ConfigTable (ns_KvConfigManager s1)) NAMESPACE_ORDER_TOPIC_CONFIG = Some [(''t'', ''b:4'')]"
    by (simp_all add: example_query_def string_field_def s1_def)
  have route: "RouteInfoManager_pickupTopicRouteData list_set ''t'' (ns_RouteInfoManager s1) \<noteq> None"
    by (simp add: s1_def RouteInfoManager_pickupTopicRouteData_def example_tables list_set_def NewQueueData_def Let_def)
  have run: "ns_run list_set example_json x x" for x by (simp add: ns_run_def)
  obtain answer s3 where w: "DefaultRequestProcessor_ProcessRequest list_set example_json 7 ''10.0.0.9:9'' example_put s2 = (answer, s3)" by fastforce
  have routes: "ns_RouteInfoManager s2 = ns_RouteInfoManager s1"
    using p f(1) by (auto simp: DefaultRequestProcessor_ProcessRequest_def getRouteInfoByTopic_def ns_answers Let_def
        split: sum.splits option.splits prod.splits)
  have "ns_RouteInfoManager s3 = ns_RouteInfoManager s2"
    using w by (auto simp: DefaultRequestProcessor_ProcessRequest_def example_put_def putKVConfig_def ns_answers
        split: sum.splits bool.splits prod.splits)
  with routes route have "kv_read list_set example_json example_query s3"
    using f(1) example_query_decoded by (simp add: kv_read_def f(2))
  moreover have "(fst (DefaultRequestProcessor_ProcessRequest list_set example_json 7 ''10.0.0.9:9'' example_put s2) = None) \<and>
      (fst (DefaultRequestProcessor_ProcessRequest list_set example_json 8 ''10.0.0.9:9'' req s3) = None \<longleftrightarrow>
       kv_write req \<or> kv_read list_set example_json req s3)" for req
    using ordered_route_blocks_config [OF f(1) example_query_decoded, of list_set s1 "[(''t'', ''b:4'')]" "''b:4''" example_json 6 "''10.0.0.9:9''" a s2 s2
        example_put 7 "''10.0.0.9:9''" s3 7 "''10.0.0.9:9''" example_put]
      ordered_route_blocks_config [OF f(1) example_query_decoded, of list_set s1 "[(''t'', ''b:4'')]" "''b:4''" example_json 6 "''10.0.0.9:9''" a s2 s2
        example_put 7 "''10.0.0.9:9''" s3 7 "''10.0.0.9:9''" req 8 "''10.0.0.9:9''"] f p route w run example_put_write
    by simp
  ultimately show ?thesis using p w by (intro exI [of _ s1] exI [of _ a] exI [of _ s2]) auto
qed

end
