(* ===== verification/AdminM.thy ===== *)
theory AdminM
  imports DeliveryM LockM
begin

text \<open>
  The administration of a broker: \<open>stgbroker/admin_broker_processor.go\<close>, on top of the topics, the subscription groups, the
  consumer offsets, the clients, the queue locks and the message store.

  A handler returns a response and an error, of which the network layer sends one; \<open>None\<close> is a panic. The JSON package and
  golang-set are parameters. Requests that are passed on to consumers, the runtime information, the statistics and the
  configuration of the broker are not modelled, nor is the rate in the answer of \<open>getConsumeStats\<close>; the texts of remarks are shortened. What \<open>RegisterBrokerAll\<close> sends to the
  registry is counted; a one-way registration has no other effect.
\<close>

section \<open>State\<close>

record ('gt, 's, 'm) admin =
  ad_server :: "('gt, 's, 'm) server"
  ad_locks :: RebalanceLockManager
  ad_deleteTopicTask :: bool

record Connection =
  cn_ClientId :: string
  cn_ClientAddr :: string
  cn_Language :: string
  cn_Version :: int

record ('st, 'ct, 'gt, 'ss, 'qs, 's) admin_packages =
  ap_clients :: "('st, 'ct, 'gt) client_maps"
  ap_strings :: "(string, 'ss) set_ops"
  ap_union :: "'ss \<Rightarrow> 'ss \<Rightarrow> 'ss"
  ap_queues :: "(elem, 'qs) set_ops"
  ap_json :: json
  ap_env :: string
  ap_group :: "byte list \<Rightarrow> SubscriptionGroupConfig"
  ap_lock :: "byte list \<Rightarrow> string \<times> 'qs \<times> string"
  ap_locked :: "'qs \<Rightarrow> byte list"
  ap_stats :: "(string \<times> int \<times> int \<times> int) list \<Rightarrow> byte list"
  ap_consume :: "(string \<times> int \<times> int \<times> int) list \<Rightarrow> byte list"
  ap_consumers :: "ConsumeType \<times> MessageModel \<times> ConsumeFromWhere \<times> (string \<times> SubscriptionDataPlus) list \<times> Connection list \<Rightarrow> byte list"
  ap_producers :: "Connection list \<Rightarrow> byte list"
  ap_offsets :: "ConsumerOffsetManager \<Rightarrow> string option"
  ap_names :: "'ss \<Rightarrow> byte list"
  ap_system :: "'s \<Rightarrow> byte list"
  ap_spans :: "(string \<times> int \<times> int \<times> int) list \<Rightarrow> byte list"
  ap_correction :: "offset_map \<Rightarrow> byte list"

type_synonym ('gt, 's, 'm) ad_result = "((RemotingCommand option \<times> error option) \<times> ('gt, 's, 'm) admin) option"

text \<open>The readings of the clock during a request: one for a version, and the stream for the locks.\<close>

record admin_times =
  at_now :: int
  at_clock :: clock

section \<open>Helpers\<close>

definition CONSUMER_NOT_ONLINE :: int where "CONSUMER_NOT_ONLINE = 206"

definition ad_broker :: "('gt, 's, 'm) admin \<Rightarrow> ('gt, 's) broker" where
  "ad_broker a = sv_broker (ad_server a)"

definition ad_set_broker :: "('gt, 's) broker \<Rightarrow> ('gt, 's, 'm) admin \<Rightarrow> ('gt, 's, 'm) admin" where
  "ad_set_broker b a = a\<lparr>ad_server := (ad_server a)\<lparr>sv_broker := b\<rparr>\<rparr>"

definition ad_set_store :: "DefaultMessageStore \<Rightarrow> ('gt, 's, 'm) admin \<Rightarrow> ('gt, 's, 'm) admin" where
  "ad_set_store ms a = ad_set_broker ((ad_broker a)\<lparr>bk_store := ms\<rparr>) a"

definition ad_response :: "custom_header option \<Rightarrow> RemotingCommand" where
  "ad_response h = CreateDefaultResponseCommand [] h"

definition ad_ok :: "RemotingCommand \<Rightarrow> ('gt, 's, 'm) admin \<Rightarrow> ('gt, 's, 'm) ad_result" where
  "ad_ok response a = Some ((Some (response\<lparr>rc_Code := SUCCESS, rc_Remark := []\<rparr>), None), a)"

definition ad_refuse :: "int \<Rightarrow> string \<Rightarrow> RemotingCommand \<Rightarrow> ('gt, 's, 'm) admin \<Rightarrow> ('gt, 's, 'm) ad_result" where
  "ad_refuse code remark response a = Some ((Some (response\<lparr>rc_Code := code, rc_Remark := remark\<rparr>), None), a)"

definition ad_body :: "byte list \<Rightarrow> RemotingCommand \<Rightarrow> RemotingCommand" where
  "ad_body b response = response\<lparr>rc_Body := (if b = [] then None else Some b)\<rparr>"

text \<open>An answer whose body is the text a manager encodes, if there is one.\<close>

definition ad_text :: "string option \<Rightarrow> string \<Rightarrow> RemotingCommand \<Rightarrow> ('gt, 's, 'm) admin \<Rightarrow> ('gt, 's, 'm) ad_result" where
  "ad_text content remark response a =
     (case content of
        Some (c # cs) \<Rightarrow> ad_ok (ad_body (bytes_of_string (c # cs)) response) a
      | _ \<Rightarrow> ad_refuse SYSTEM_ERROR remark response a)"

definition offset_header :: "int \<Rightarrow> custom_header" where
  "offset_header offset = [(''Offset'', IntF 64 offset)]"

definition timestamp_header :: "int \<Rightarrow> custom_header" where
  "timestamp_header timestamp = [(''Timestamp'', IntF 64 timestamp)]"

text \<open>\<open>MessageQueue.Key\<close>.\<close>

definition queue_key :: "string \<Rightarrow> string \<Rightarrow> int \<Rightarrow> string" where
  "queue_key topic brokerName queueId = topic @ ''@'' @ brokerName @ ''@'' @ FormatInt queueId"

section \<open>Topics\<close>

definition create_topic_header :: custom_header where
  "create_topic_header = [(''Topic'', StringF []), (''DefaultTopic'', StringF []), (''ReadQueueNums'', IntF 32 0),
     (''WriteQueueNums'', IntF 32 0), (''Perm'', IntF 64 0), (''TopicFilterType'', IntF 64 0), (''TopicSysFlag'', IntF 64 0), (''Order'', BoolF False)]"

text \<open>The two values of the type.\<close>

definition filter_type :: "int \<Rightarrow> TopicFilterType" where
  "filter_type x = (if x = 1 then MULTI_TAG else SINGLE_TAG)"

definition requested_topic :: "custom_header \<Rightarrow> TopicConfig" where
  "requested_topic h =
     (let topicConfig = NewDefaultTopicConfig (string_field h ''Topic'') (int_field h ''ReadQueueNums'') (int_field h ''WriteQueueNums'')
            (int_field h ''Perm'') (filter_type (int_field h ''TopicFilterType''))
      in if int_field h ''TopicSysFlag'' \<noteq> 0 then topicConfig\<lparr>tc_TopicSysFlag := int_field h ''TopicSysFlag''\<rparr> else topicConfig)"

text \<open>\<open>RegisterBrokerAll(false, true)\<close>: a broker that may not be read or written gives its permission to all topics first.\<close>

definition sv_register_all :: "('gt, 's, 'm) server \<Rightarrow> ('gt, 's, 'm) server" where
  "sv_register_all s =
     (let b = sv_broker s; topics = bk_topics b;
          topics1 = (if \<not> HasWriteable (sv_config s) \<or> \<not> HasReadable (sv_config s)
                     then tcm_set_table (map (apsnd (\<lambda>tc. tc\<lparr>tc_Perm := BrokerPermission (sv_config s)\<rparr>)) (tcm_table topics)) topics else topics)
      in s\<lparr>sv_broker := b\<lparr>bk_topics := topics1, bk_world := (bk_world b)\<lparr>registrations := Suc (registrations (bk_world b))\<rparr>\<rparr>\<rparr>)"

definition updateAndCreateTopic ::
    "('st, 'ct, 'gt, 'ss, 'qs, 's) admin_packages \<Rightarrow> admin_times \<Rightarrow> RemotingCommand \<Rightarrow> ('gt, 's, 'm) admin \<Rightarrow> ('gt, 's, 'm) ad_result" where
  "updateAndCreateTopic K t request a =
     (let response = ad_response None; b = ad_broker a
      in case DecodeCommandCustomHeader (\<lambda>_. None) request (Some create_topic_header) of
        (_, Some e) \<Rightarrow> Some ((Some response, Some e), a)
      | (h, None) \<Rightarrow>
          (let header = (case h of Some h1 \<Rightarrow> h1 | None \<Rightarrow> create_topic_header)
           in if EqualFold (string_field header ''Topic'') (BrokerClusterName (bk_cfg b))
              then Some ((Some (response\<lparr>rc_Remark := ''the topic is conflict with system reserved words.''\<rparr>), None), a)
              else case TopicConfigManager_UpdateTopicConfig (snd (ap_json K)) (at_now t) (bk_home b) (bk_cfg b) (requested_topic header)
                  (bk_topics b) (bk_world b) of
                (topics, w) \<Rightarrow>
                  ad_ok response (a\<lparr>ad_server := sv_register_all (sv_set_topics topics w (ad_server a))\<rparr>)))"

definition delete_topic_header :: custom_header where
  "delete_topic_header = [(''Topic'', StringF [])]"

definition deleteTopic ::
    "('st, 'ct, 'gt, 'ss, 'qs, 's) admin_packages \<Rightarrow> admin_times \<Rightarrow> RemotingCommand \<Rightarrow> ('gt, 's, 'm) admin \<Rightarrow> ('gt, 's, 'm) ad_result" where
  "deleteTopic K t request a =
     (let b = ad_broker a
      in case TopicConfigManager_DeleteTopicConfig (snd (ap_json K)) (at_now t) (bk_home b) (bk_cfg b)
          (string_field (decoded request delete_topic_header) ''Topic'') (bk_topics b) (bk_world b) of
        (topics, w) \<Rightarrow>
          ad_ok empty_command (a\<lparr>ad_server := sv_set_topics topics w (ad_server a), ad_deleteTopicTask := True\<rparr>))"

definition getAllTopicConfig ::
    "('st, 'ct, 'gt, 'ss, 'qs, 's) admin_packages \<Rightarrow> ('gt, 's, 'm) admin \<Rightarrow> ('gt, 's, 'm) ad_result" where
  "getAllTopicConfig K a =
     ad_text (snd (ap_json K) (SerializeWrapper (bk_topics (ad_broker a)))) ''no topic in this broker'' (ad_response (Some [])) a"

definition getSystemTopicListFromBroker ::
    "('st, 'ct, 'gt, 'ss, 'qs, 's) admin_packages \<Rightarrow> ('gt, 's, 'm) admin \<Rightarrow> ('gt, 's, 'm) ad_result" where
  "getSystemTopicListFromBroker K a = ad_ok (ad_body (ap_system K (SystemTopicList (bk_topics (ad_broker a)))) (ad_response None)) a"

section \<open>Queues\<close>

definition max_offset_header :: custom_header where
  "max_offset_header = [(''Topic'', StringF []), (''QueueId'', IntF 64 0)]"

definition queue_header :: custom_header where
  "queue_header = [(''Topic'', StringF []), (''QueueId'', IntF 32 0)]"

definition search_offset_header :: custom_header where
  "search_offset_header = [(''Topic'', StringF []), (''QueueId'', IntF 32 0), (''Timestamp'', IntF 64 0)]"

definition getMaxOffset :: "RemotingCommand \<Rightarrow> ('gt, 's, 'm) admin \<Rightarrow> ('gt, 's, 'm) ad_result" where
  "getMaxOffset request a =
     (let h = decoded request max_offset_header
      in case DefaultMessageStore_GetMaxOffsetInQueue (string_field h ''Topic'') (to_int32 (int_field h ''QueueId'')) (bk_store (ad_broker a)) of
        (offset, ms) \<Rightarrow> ad_ok (ad_response (Some (offset_header offset))) (ad_set_store ms a))"

definition getMinOffset :: "RemotingCommand \<Rightarrow> ('gt, 's, 'm) admin \<Rightarrow> ('gt, 's, 'm) ad_result" where
  "getMinOffset request a =
     (let h = decoded request queue_header
      in case DefaultMessageStore_GetMinOffsetInQueue (string_field h ''Topic'') (int_field h ''QueueId'') (bk_store (ad_broker a)) of
        (offset, ms) \<Rightarrow> ad_ok (ad_response (Some (offset_header offset))) (ad_set_store ms a))"

definition searchOffsetByTimestamp :: "RemotingCommand \<Rightarrow> ('gt, 's, 'm) admin \<Rightarrow> ('gt, 's, 'm) ad_result" where
  "searchOffsetByTimestamp request a =
     (let h = decoded request search_offset_header
      in case DefaultMessageStore_GetOffsetInQueueByTime (sv_os (ad_server a)) (string_field h ''Topic'') (int_field h ''QueueId'')
          (int_field h ''Timestamp'') (bk_store (ad_broker a)) of
        None \<Rightarrow> None
      | Some (offset, ms) \<Rightarrow> ad_ok (ad_response (Some (offset_header offset))) (ad_set_store ms a))"

definition getEarliestMsgStoretime :: "RemotingCommand \<Rightarrow> ('gt, 's, 'm) admin \<Rightarrow> ('gt, 's, 'm) ad_result" where
  "getEarliestMsgStoretime request a =
     (let h = decoded request queue_header
      in case DefaultMessageStore_GetEarliestMessageTime (string_field h ''Topic'') (int_field h ''QueueId'') (bk_store (ad_broker a)) of
        None \<Rightarrow> None
      | Some (timestamp, ms) \<Rightarrow> ad_ok (ad_response (Some (timestamp_header timestamp))) (ad_set_store ms a))"

definition cleanExpiredConsumeQueue :: "('gt, 's, 'm) admin \<Rightarrow> ('gt, 's, 'm) ad_result" where
  "cleanExpiredConsumeQueue a =
     (case DefaultMessageStore_CleanExpiredConsumerQueue (sv_os (ad_server a)) (bk_store (ad_broker a)) of
        None \<Rightarrow> None
      | Some (ms, os) \<Rightarrow> ad_ok (ad_response None) (a\<lparr>ad_server := sv_set_store ms os (ad_server a)\<rparr>))"

text \<open>The statistics of one queue: the first and the last offset and the time of the last message.\<close>

definition topic_offset :: "string \<Rightarrow> int \<Rightarrow> DefaultMessageStore \<Rightarrow> ((int \<times> int \<times> int) \<times> DefaultMessageStore) option" where
  "topic_offset topic i ms =
     (case DefaultMessageStore_GetMinOffsetInQueue topic (to_int32 i) ms of
        (mn, ms1) \<Rightarrow>
          (case DefaultMessageStore_GetMaxOffsetInQueue topic (to_int32 i) ms1 of
             (mx, ms2) \<Rightarrow>
               if max mx 0 > 0
               then map_option (\<lambda>(timestamp, ms3). ((max mn 0, max mx 0, timestamp), ms3))
                      (DefaultMessageStore_GetMessageStoreTimeStamp topic (to_int32 i) (max mx 0 - 1) ms2)
               else Some ((max mn 0, max mx 0, 0), ms2)))"

fun topic_offsets ::
    "string \<Rightarrow> string \<Rightarrow> int list \<Rightarrow> (string \<times> int \<times> int \<times> int) list \<Rightarrow> DefaultMessageStore \<Rightarrow>
     ((string \<times> int \<times> int \<times> int) list \<times> DefaultMessageStore) option" where
  "topic_offsets topic brokerName [] table ms = Some (table, ms)"
| "topic_offsets topic brokerName (i # is) table ms =
     (case topic_offset topic i ms of
        None \<Rightarrow> None
      | Some (offset, ms1) \<Rightarrow> topic_offsets topic brokerName is (AList.update (queue_key topic brokerName i) offset table) ms1)"

definition getTopicStatsInfo ::
    "('st, 'ct, 'gt, 'ss, 'qs, 's) admin_packages \<Rightarrow> RemotingCommand \<Rightarrow> ('gt, 's, 'm) admin \<Rightarrow> ('gt, 's, 'm) ad_result" where
  "getTopicStatsInfo K request a =
     (let topic = string_field (decoded request delete_topic_header) ''Topic''; b = ad_broker a
      in case TopicConfigManager_SelectTopicConfig topic (bk_topics b) of
        None \<Rightarrow> ad_refuse TOPIC_NOT_EXIST ''topic not exist'' (ad_response None) a
      | Some topicConfig \<Rightarrow>
          (case topic_offsets topic (BrokerName (bk_cfg b)) [0..tc_WriteQueueNums topicConfig - 1] [] (bk_store b) of
             None \<Rightarrow> None
           | Some (table, ms) \<Rightarrow> ad_ok (ad_body (ap_stats K table) (ad_response None)) (ad_set_store ms a)))"

text \<open>The times of one queue: its first message, its last one, and the one a group has come to.\<close>

definition time_span :: "string \<Rightarrow> string \<Rightarrow> int \<Rightarrow> ConsumerOffsetManager \<Rightarrow> DefaultMessageStore \<Rightarrow> ((int \<times> int \<times> int) \<times> DefaultMessageStore) option" where
  "time_span grp topic i com ms =
     do {
       (minTime, ms1) \<leftarrow> DefaultMessageStore_GetEarliestMessageTime topic (to_int32 i) ms;
       let (mx, ms2) = DefaultMessageStore_GetMaxOffsetInQueue topic (to_int32 i) ms1;
       (maxTime, ms3) \<leftarrow> DefaultMessageStore_GetMessageStoreTimeStamp topic (to_int32 i) (to_int64 (mx - 1)) ms2;
       let consumerOffset = ConsumerOffsetManager_QueryOffset grp topic i com;
       (consumeTime, ms4) \<leftarrow> (if consumerOffset > 0 then DefaultMessageStore_GetMessageStoreTimeStamp topic (to_int32 i) consumerOffset ms3
                               else Some (minTime, ms3));
       Some ((minTime, maxTime, consumeTime), ms4) }"

fun time_spans ::
    "string \<Rightarrow> string \<Rightarrow> string \<Rightarrow> int list \<Rightarrow> ConsumerOffsetManager \<Rightarrow> DefaultMessageStore \<Rightarrow>
     ((string \<times> int \<times> int \<times> int) list \<times> DefaultMessageStore) option" where
  "time_spans grp topic brokerName [] com ms = Some ([], ms)"
| "time_spans grp topic brokerName (i # is) com ms =
     (case time_span grp topic i com ms of
        None \<Rightarrow> None
      | Some (span, ms1) \<Rightarrow> map_option (apfst (Cons (queue_key topic brokerName i, span))) (time_spans grp topic brokerName is com ms1))"

definition time_span_header :: custom_header where
  "time_span_header = [(''Topic'', StringF []), (''Group'', StringF [])]"

definition queryConsumeTimeSpan ::
    "('st, 'ct, 'gt, 'ss, 'qs, 's) admin_packages \<Rightarrow> RemotingCommand \<Rightarrow> ('gt, 's, 'm) admin \<Rightarrow> ('gt, 's, 'm) ad_result" where
  "queryConsumeTimeSpan K request a =
     (let h = decoded request time_span_header; topic = string_field h ''Topic''; b = ad_broker a
      in case TopicConfigManager_SelectTopicConfig topic (bk_topics b) of
        None \<Rightarrow> ad_refuse TOPIC_NOT_EXIST ''topic not exist'' (ad_response None) a
      | Some topicConfig \<Rightarrow>
          (case time_spans (string_field h ''Group'') topic (BrokerName (bk_cfg b)) [0..tc_WriteQueueNums topicConfig - 1] (bk_offsets b) (bk_store b) of
             None \<Rightarrow> None
           | Some (spans, ms) \<Rightarrow> ad_ok (ad_body (ap_spans K spans) (ad_response None)) (ad_set_store ms a)))"

section \<open>Subscription groups and locks\<close>

definition ad_set_groups :: "SubscriptionGroupTable \<Rightarrow> files \<Rightarrow> ('gt, 's, 'm) admin \<Rightarrow> ('gt, 's, 'm) admin" where
  "ad_set_groups groups fs a =
     ad_set_broker ((ad_broker a)\<lparr>bk_groups := groups, bk_world := (bk_world (ad_broker a))\<lparr>bw_files := fs\<rparr>\<rparr>) a"

text \<open>What the body does not say of a group is zero.\<close>

definition updateAndCreateSubscriptionGroup ::
    "('st, 'ct, 'gt, 'ss, 'qs, 's) admin_packages \<Rightarrow> admin_times \<Rightarrow> RemotingCommand \<Rightarrow> ('gt, 's, 'm) admin \<Rightarrow> ('gt, 's, 'm) ad_result" where
  "updateAndCreateSubscriptionGroup K t request a =
     (let b = ad_broker a
      in case SubscriptionGroupManager_UpdateSubscriptionGroupConfig (fst (ap_json K)) (at_now t) (bk_home b) (bk_cfg b)
          (ap_group K (body_bytes request)) (bk_groups b) (bw_files (bk_world b)) of
        (groups, fs) \<Rightarrow> ad_ok (ad_response None) (ad_set_groups groups fs a))"

definition getAllSubscriptionGroup ::
    "('st, 'ct, 'gt, 'ss, 'qs, 's) admin_packages \<Rightarrow> ('gt, 's, 'm) admin \<Rightarrow> ('gt, 's, 'm) ad_result" where
  "getAllSubscriptionGroup K a =
     ad_text (fst (ap_json K) (bk_groups (ad_broker a))) ''No subscription group in this broker'' (ad_response None) a"

definition delete_group_header :: custom_header where
  "delete_group_header = [(''GroupName'', StringF [])]"

definition deleteSubscriptionGroup ::
    "('st, 'ct, 'gt, 'ss, 'qs, 's) admin_packages \<Rightarrow> admin_times \<Rightarrow> RemotingCommand \<Rightarrow> ('gt, 's, 'm) admin \<Rightarrow> ('gt, 's, 'm) ad_result" where
  "deleteSubscriptionGroup K t request a =
     (let b = ad_broker a
      in case SubscriptionGroupManager_DeleteSubscriptionGroupConfig (fst (ap_json K)) (at_now t) (bk_home b) (bk_cfg b)
          (string_field (decoded request delete_group_header) ''GroupName'') (bk_groups b) (bw_files (bk_world b)) of
        (groups, fs) \<Rightarrow> ad_ok (ad_response None) (ad_set_groups groups fs a))"

definition lockBatchMQ ::
    "('st, 'ct, 'gt, 'ss, 'qs, 's) admin_packages \<Rightarrow> admin_times \<Rightarrow> RemotingCommand \<Rightarrow> ('gt, 's, 'm) admin \<Rightarrow> ('gt, 's, 'm) ad_result" where
  "lockBatchMQ K t request a =
     (case ap_lock K (body_bytes request) of
        (grp, mqs, clientId) \<Rightarrow>
          (case RebalanceLockManager_TryLockBatch (ap_queues K) (ap_env K) (at_clock t) grp mqs clientId (ad_locks a) of
             (locked, locks, _) \<Rightarrow> ad_ok (ad_body (ap_locked K locked) (ad_response None)) (a\<lparr>ad_locks := locks\<rparr>)))"

definition unlockBatchMQ ::
    "('st, 'ct, 'gt, 'ss, 'qs, 's) admin_packages \<Rightarrow> RemotingCommand \<Rightarrow> ('gt, 's, 'm) admin \<Rightarrow> ('gt, 's, 'm) ad_result" where
  "unlockBatchMQ K request a =
     (case ap_lock K (body_bytes request) of
        (grp, mqs, clientId) \<Rightarrow>
          ad_ok (ad_response None) (a\<lparr>ad_locks := RebalanceLockManager_UnlockBatch (ap_queues K) grp mqs clientId (ad_locks a)\<rparr>))"

section \<open>Clients\<close>

definition connection_of :: "client_world \<Rightarrow> nat \<Rightarrow> Connection" where
  "connection_of w i =
     (let info = channels w ! i
      in \<lparr>cn_ClientId = ci_ClientId info, cn_ClientAddr = ci_Context info, cn_Language = ci_LanguageCode info, cn_Version = ci_Version info\<rparr>)"

definition group_header :: "string \<Rightarrow> custom_header" where
  "group_header name = [(name, StringF [])]"

definition getConsumerConnectionList ::
    "('st, 'ct, 'gt, 'ss, 'qs, 's) admin_packages \<Rightarrow> RemotingCommand \<Rightarrow> ('gt, 's, 'm) admin \<Rightarrow> ('gt, 's, 'm) ad_result" where
  "getConsumerConnectionList K request a =
     (let b = ad_broker a; M = ap_clients K
      in case ConsumerManager_GetConsumerGroupInfo M (string_field (decoded request (group_header ''ConsumerGroup'')) ''ConsumerGroup'') (bk_consumers b) of
        None \<Rightarrow> ad_refuse CONSUMER_NOT_ONLINE ''the consumer group not online'' (ad_response None) a
      | Some info \<Rightarrow>
          ad_ok (ad_body (ap_consumers K (cg_ConsumeType info, cg_MessageModel info, cg_ConsumeFromWhere info,
              ConsumerGroupInfo_SubscriptionTableToMap M info,
              map (\<lambda>(k, i). connection_of (bk_clients b) i) (mIter (connMap M) (ConnTable info)))) (ad_response None)) a)"

definition getProducerConnectionList ::
    "('st, 'ct, 'gt, 'ss, 'qs, 's) admin_packages \<Rightarrow> RemotingCommand \<Rightarrow> ('gt, 's, 'm) admin \<Rightarrow> ('gt, 's, 'm) ad_result" where
  "getProducerConnectionList K request a =
     (let b = ad_broker a
      in case map_of (GroupChannelTable (bk_producers b)) (string_field (decoded request (group_header ''ProducerGroup'')) ''ProducerGroup'') of
        None \<Rightarrow> ad_refuse SYSTEM_ERROR ''the producer group not exist'' (ad_response None) a
      | Some infos \<Rightarrow>
          ad_ok (ad_body (ap_producers K (map (\<lambda>(k, i). connection_of (bk_clients b) i) infos)) (ad_response None)) a)"

section \<open>Consumer offsets\<close>

definition getAllConsumerOffset ::
    "('st, 'ct, 'gt, 'ss, 'qs, 's) admin_packages \<Rightarrow> ('gt, 's, 'm) admin \<Rightarrow> ('gt, 's, 'm) ad_result" where
  "getAllConsumerOffset K a = ad_text (ap_offsets K (bk_offsets (ad_broker a))) ''No consumer offset in this broker'' (ad_response None) a"

definition queryTopicConsumeByWho ::
    "('st, 'ct, 'gt, 'ss, 'qs, 's) admin_packages \<Rightarrow> RemotingCommand \<Rightarrow> ('gt, 's, 'm) admin \<Rightarrow> ('gt, 's, 'm) ad_result" where
  "queryTopicConsumeByWho K request a =
     (let topic = string_field (decoded request delete_topic_header) ''Topic''; b = ad_broker a;
          groups = ConsumerManager_QueryTopicConsumeByWho (ap_strings K) (ap_clients K) topic (bk_consumers b);
          groupInOffset = ConsumerOffsetManager_WhichGroupByTopic (ap_strings K) topic (bk_offsets b)
      in ad_ok (ad_body (ap_names K (ap_union K groups groupInOffset)) (ad_response None)) a)"

text \<open>The topics a request is about: the one it names, or all the group has offsets for.\<close>

definition asked_topics ::
    "('st, 'ct, 'gt, 'ss, 'qs, 's) admin_packages \<Rightarrow> string \<Rightarrow> string \<Rightarrow> ConsumerOffsetManager \<Rightarrow> string list" where
  "asked_topics K topic grp com =
     sIter (ap_strings K) (if IsBlank topic then ConsumerOffsetManager_WhichTopicByConsumer (ap_strings K) grp com
                           else sAdd (ap_strings K) topic (sNew (ap_strings K)))"

definition not_subscribed ::
    "('st, 'ct, 'gt, 'ss, 'qs, 's) admin_packages \<Rightarrow> string \<Rightarrow> string \<Rightarrow> ('gt, 's) broker \<Rightarrow> bool" where
  "not_subscribed K grp topic b \<longleftrightarrow>
     ConsumerManager_FindSubscriptionData (ap_clients K) grp topic (bk_consumers b) = None \<and>
     ConsumerManager_FindSubscriptionDataCount (ap_clients K) grp (bk_consumers b) > 0"

definition offset_wrapper ::
    "string \<Rightarrow> string \<Rightarrow> int \<Rightarrow> ConsumerOffsetManager \<Rightarrow> DefaultMessageStore \<Rightarrow> ((int \<times> int \<times> int) \<times> DefaultMessageStore) option" where
  "offset_wrapper grp topic i com ms =
     (case DefaultMessageStore_GetMaxOffsetInQueue topic (to_int32 i) ms of
        (brokerOffset, ms1) \<Rightarrow>
          (let consumerOffset = max (ConsumerOffsetManager_QueryOffset grp topic i com) 0
           in if consumerOffset - 1 \<ge> 0
              then map_option (\<lambda>(lastTimestamp, ms2). ((max brokerOffset 0, consumerOffset, if lastTimestamp > 0 then lastTimestamp else 0), ms2))
                     (DefaultMessageStore_GetMessageStoreTimeStamp topic (to_int32 i) (consumerOffset - 1) ms1)
              else Some ((max brokerOffset 0, consumerOffset, 0), ms1)))"

fun offset_wrappers ::
    "string \<Rightarrow> string \<Rightarrow> string \<Rightarrow> int list \<Rightarrow> ConsumerOffsetManager \<Rightarrow> (string \<times> int \<times> int \<times> int) list \<Rightarrow> DefaultMessageStore \<Rightarrow>
     ((string \<times> int \<times> int \<times> int) list \<times> DefaultMessageStore) option" where
  "offset_wrappers grp topic brokerName [] com table ms = Some (table, ms)"
| "offset_wrappers grp topic brokerName (i # is) com table ms =
     (case offset_wrapper grp topic i com ms of
        None \<Rightarrow> None
      | Some (o1, ms1) \<Rightarrow> offset_wrappers grp topic brokerName is com (AList.update (queue_key topic brokerName i) o1 table) ms1)"

fun consume_stats ::
    "('st, 'ct, 'gt, 'ss, 'qs, 's) admin_packages \<Rightarrow> string \<Rightarrow> ('gt, 's) broker \<Rightarrow> string list \<Rightarrow> (string \<times> int \<times> int \<times> int) list \<Rightarrow>
     DefaultMessageStore \<Rightarrow> ((string \<times> int \<times> int \<times> int) list \<times> DefaultMessageStore) option" where
  "consume_stats K grp b [] table ms = Some (table, ms)"
| "consume_stats K grp b (topic # topics) table ms =
     (case TopicConfigManager_SelectTopicConfig topic (bk_topics b) of
        None \<Rightarrow> consume_stats K grp b topics table ms
      | Some topicConfig \<Rightarrow>
          if not_subscribed K grp topic b then consume_stats K grp b topics table ms
          else (case offset_wrappers grp topic (BrokerName (bk_cfg b)) [0..tc_WriteQueueNums topicConfig - 1] (bk_offsets b) table ms of
             None \<Rightarrow> None
           | Some (table1, ms1) \<Rightarrow> consume_stats K grp b topics table1 ms1))"

definition consume_stats_header :: custom_header where
  "consume_stats_header = [(''Topic'', StringF []), (''ConsumerGroup'', StringF [])]"

definition getConsumeStats ::
    "('st, 'ct, 'gt, 'ss, 'qs, 's) admin_packages \<Rightarrow> RemotingCommand \<Rightarrow> ('gt, 's, 'm) admin \<Rightarrow> ('gt, 's, 'm) ad_result" where
  "getConsumeStats K request a =
     (let h = decoded request consume_stats_header; grp = string_field h ''ConsumerGroup''; b = ad_broker a
      in case consume_stats K grp b (asked_topics K (string_field h ''Topic'') grp (bk_offsets b)) [] (bk_store b) of
        None \<Rightarrow> None
      | Some (table, ms) \<Rightarrow> ad_ok (ad_body (ap_consume K table) (ad_response None)) (ad_set_store ms a))"

text \<open>
  The offsets a group is to be corrected to: where another group is behind, its own stays.
\<close>

fun correct_offsets :: "offset_map \<Rightarrow> offset_map \<Rightarrow> offset_map" where
  "correct_offsets [] correctionOffset = correctionOffset"
| "correct_offsets ((queueId, v) # t) correctionOffset =
     correct_offsets t
       (AList.update queueId
          (if (case map_of correctionOffset queueId of Some c \<Rightarrow> c | None \<Rightarrow> 0) > v then MAX_VALUE else v) correctionOffset)"

definition correction_header :: custom_header where
  "correction_header = [(''FilterGroups'', StringF []), (''CompareGroup'', StringF []), (''Topic'', StringF [])]"

definition queryCorrectionOffset ::
    "('st, 'ct, 'gt, 'ss, 'qs, 's) admin_packages \<Rightarrow> RemotingCommand \<Rightarrow> ('gt, 's, 'm) admin \<Rightarrow> ('gt, 's, 'm) ad_result" where
  "queryCorrectionOffset K request a =
     (let h = decoded request correction_header; topic = string_field h ''Topic''; b = ad_broker a
      in case ConsumerOffsetManager_QueryMinOffsetInAllGroup DefaultMessageStore_GetMinOffsetInQueue topic (string_field h ''FilterGroups'')
          (bk_offsets b) (bk_store b) of
        (correctionOffset, com, ms) \<Rightarrow>
          (let compareOffset = (case ConsumerOffsetManager_QueryOffsetByGroupAndTopic (string_field h ''CompareGroup'') topic com of
                 Some m \<Rightarrow> m | None \<Rightarrow> [])
           in ad_ok (ad_body (ap_correction K (correct_offsets compareOffset correctionOffset)) (ad_response None))
                (ad_set_broker (b\<lparr>bk_offsets := com, bk_store := ms\<rparr>) a)))"

definition clone_header :: custom_header where
  "clone_header = [(''SrcGroup'', StringF []), (''DestGroup'', StringF []), (''Topic'', StringF []), (''Offline'', BoolF False)]"

text \<open>The loop clones the offsets of the topic in the header, not of the topic it has come to.\<close>

fun clone_loop ::
    "('st, 'ct, 'gt, 'ss, 'qs, 's) admin_packages \<Rightarrow> custom_header \<Rightarrow> ('gt, 's) broker \<Rightarrow> string list \<Rightarrow> ConsumerOffsetManager \<Rightarrow>
     ConsumerOffsetManager" where
  "clone_loop K h b [] com = com"
| "clone_loop K h b (topic # topics) com =
     clone_loop K h b topics
       (if TopicConfigManager_SelectTopicConfig topic (bk_topics b) = None \<or>
           \<not> bool_field h ''Offline'' \<and> not_subscribed K (string_field h ''SrcGroup'') topic b
        then com
        else ConsumerOffsetManager_CloneOffset (string_field h ''SrcGroup'') (string_field h ''DestGroup'') (string_field h ''Topic'') com)"

definition cloneGroupOffset ::
    "('st, 'ct, 'gt, 'ss, 'qs, 's) admin_packages \<Rightarrow> RemotingCommand \<Rightarrow> ('gt, 's, 'm) admin \<Rightarrow> ('gt, 's, 'm) ad_result" where
  "cloneGroupOffset K request a =
     (let h = decoded request clone_header; b = ad_broker a
      in ad_ok (ad_response None)
           (ad_set_broker (b\<lparr>bk_offsets := clone_loop K h b (asked_topics K (string_field h ''Topic'') (string_field h ''SrcGroup'') (bk_offsets b))
              (bk_offsets b)\<rparr>) a))"

section \<open>Requests\<close>

text \<open>The codes are those of the code; \<open>others\<close> answers the requests that are not modelled.\<close>

definition AdminBrokerProcessor_ProcessRequest ::
    "('st, 'ct, 'gt, 'ss, 'qs, 's) admin_packages \<Rightarrow> (RemotingCommand \<Rightarrow> ('gt, 's, 'm) admin \<Rightarrow> ('gt, 's, 'm) ad_result) \<Rightarrow> admin_times \<Rightarrow>
     RemotingCommand \<Rightarrow> ('gt, 's, 'm) admin \<Rightarrow> ('gt, 's, 'm) ad_result" where
  "AdminBrokerProcessor_ProcessRequest K others t request a =
     (let code = rc_Code request
      in if code = 17 then updateAndCreateTopic K t request a
         else if code = 215 then deleteTopic K t request a
         else if code = 21 then getAllTopicConfig K a
         else if code = 29 then searchOffsetByTimestamp request a
         else if code = 30 then getMaxOffset request a
         else if code = 31 then getMinOffset request a
         else if code = 32 then getEarliestMsgStoretime request a
         else if code = 41 then lockBatchMQ K t request a
         else if code = 42 then unlockBatchMQ K request a
         else if code = 200 then updateAndCreateSubscriptionGroup K t request a
         else if code = 201 then getAllSubscriptionGroup K a
         else if code = 207 then deleteSubscriptionGroup K t request a
         else if code = 202 then getTopicStatsInfo K request a
         else if code = 203 then getConsumerConnectionList K request a
         else if code = 204 then getProducerConnectionList K request a
         else if code = 208 then getConsumeStats K request a
         else if code = 43 then getAllConsumerOffset K a
         else if code = 300 then queryTopicConsumeByWho K request a
         else if code = 303 then queryConsumeTimeSpan K request a
         else if code = 305 then getSystemTopicListFromBroker K a
         else if code = 306 then cleanExpiredConsumeQueue a
         else if code = 308 then queryCorrectionOffset K request a
         else if code = 314 then cloneGroupOffset K request a
         else others request a)"

section \<open>How many messages a queue has\<close>

lemma max_is_stored:
  assumes "store_inv os ms E" and "good_queue t i" and "requestsChan (ms_DispatchMessageService ms) = []"
  shows "fst (DefaultMessageStore_GetMaxOffsetInQueue t i ms) = int (length (E t i))"
proof -
  obtain cq ms1 where f: "DefaultMessageStore_findConsumeQueue t i ms = (cq, ms1)" by fastforce
  have "fst (DefaultMessageStore_GetMaxOffsetInQueue t i ms) = ConsumeQueue_getMaxOffsetInQueue (queue_of ms t i)"
    using find_queue(1) [OF f] by (simp add: DefaultMessageStore_GetMaxOffsetInQueue_def f)
  moreover have "stored ms t i = length (E t i)" using stored_all [OF assms(1,2)] assms(3) by (simp add: pending_def)
  moreover have "ConsumeQueue_getMaxOffsetInQueue (queue_of ms t i) = int (stored ms t i)"
    by (rule queue_inv_max(2) [OF store_inv_queue(2) [OF assms(1,2)]])
  ultimately show ?thesis by simp
qed

text \<open>
  C27 (functional): when its dispatcher has caught up, a broker answers the question for the largest offset of a queue with the number of
  messages it has accepted for the queue, and nothing of its store changes.
\<close>

theorem max_offset_counts_messages:
  assumes "server_inv E (ad_server a)" and "all_dispatched (ad_server a)" and "rc_Code request = 30"
    and "h = decoded request max_offset_header" and "t = string_field h ''Topic''" and "q = int_field h ''QueueId''"
    and "good_queue t q" and "in_int 32 q"
  shows "\<exists>r a1. AdminBrokerProcessor_ProcessRequest K others now request a = Some ((Some r, None), a1) \<and> rc_Code r = SUCCESS \<and>
     rc_CustomHeader r = Some (offset_header (int (length (E t q)))) \<and> server_inv E (ad_server a1) \<and> same_rules (ad_server a) (ad_server a1)"
proof -
  let ?ms = "bk_store (sv_broker (ad_server a))"
  obtain n ms where g: "DefaultMessageStore_GetMaxOffsetInQueue t q ?ms = (n, ms)" by fastforce
  have n: "n = int (length (E t q))"
    using max_is_stored [of "sv_os (ad_server a)" ?ms E t q] assms(1,2,7) g by (simp add: server_inv_def all_dispatched_def)
  note m = max_touch [OF assms(1) [unfolded server_inv_def] g]
  have "AdminBrokerProcessor_ProcessRequest K others now request a = ad_ok (ad_response (Some (offset_header n))) (ad_set_store ms a)"
    using assms(3-6,8) g
    by (simp add: AdminBrokerProcessor_ProcessRequest_def getMaxOffset_def ad_broker_def to_int32_id Let_def)
  then show ?thesis
    using m n assms(1)
    by (simp add: ad_ok_def ad_response_def CreateDefaultResponseCommand_def Let_def ad_set_store_def ad_set_broker_def ad_broker_def server_inv_def
        same_rules_def)
qed

section \<open>A topic is made and used\<close>

lemma select_updated:
  assumes "TopicConfigManager_UpdateTopicConfig marshal now home cfg tc tcm w = (tcm1, w1)"
  shows "TopicConfigManager_SelectTopicConfig topic tcm1 =
     (if topic = tc_TopicName tc then Some tc else TopicConfigManager_SelectTopicConfig topic tcm)"
  using assms
  by (auto simp: TopicConfigManager_UpdateTopicConfig_def TopicConfigManager_SelectTopicConfig_def TopicConfigTable_Get_def TopicConfigTable_Put_def
      tcm_set_table_def tcm_next_version_def update_conv' Let_def)

lemma register_all_keeps:
  assumes "HasWriteable (sv_config s)" and "HasReadable (sv_config s)"
  shows "bk_topics (sv_broker (sv_register_all s)) = bk_topics (sv_broker s)" and "sv_config (sv_register_all s) = sv_config s"
    and "bk_cfg (sv_broker (sv_register_all s)) = bk_cfg (sv_broker s)" and "bk_store (sv_broker (sv_register_all s)) = bk_store (sv_broker s)"
    and "sv_os (sv_register_all s) = sv_os s"
  using assms by (simp_all add: sv_register_all_def Let_def)

lemma registered_keeps:
  assumes "HasWriteable (sv_config s)" and "HasReadable (sv_config s)"
  shows "server_inv E (sv_register_all (sv_set_topics topics w s)) \<longleftrightarrow> server_inv E s"
    and "storable_request E t ctx request rh tc (sv_register_all (sv_set_topics topics w s)) \<longleftrightarrow> storable_request E t ctx request rh tc s"
    and "may_send rh tc (sv_register_all (sv_set_topics topics w s)) \<longleftrightarrow> may_send rh tc (sv_set_topics topics w s)"
  using register_all_keeps [of "sv_set_topics topics w s"] assms
  by (simp_all add: sv_set_topics_def server_inv_def storable_request_def may_send_def sv_topic_def)

lemma requested_topic_fields [simp]:
  "tc_TopicName (requested_topic h) = string_field h ''Topic''" "tc_WriteQueueNums (requested_topic h) = int_field h ''WriteQueueNums''"
  "tc_ReadQueueNums (requested_topic h) = int_field h ''ReadQueueNums''" "tc_Perm (requested_topic h) = int_field h ''Perm''"
  by (simp_all add: requested_topic_def NewDefaultTopicConfig_def NewTopicConfig_def Let_def)

lemma topic_made:
  assumes "rc_Code request = 17" and "DecodeCommandCustomHeader (\<lambda>_. None) request (Some create_topic_header) = (Some h, None)"
    and "\<not> EqualFold (string_field h ''Topic'') (BrokerClusterName (bk_cfg (sv_broker (ad_server a))))"
  shows "\<exists>r topics w. AdminBrokerProcessor_ProcessRequest K others now request a =
       Some ((Some r, None), a\<lparr>ad_server := sv_register_all (sv_set_topics topics w (ad_server a))\<rparr>) \<and> rc_Code r = SUCCESS \<and>
     TopicConfigManager_SelectTopicConfig (string_field h ''Topic'') topics = Some (requested_topic h)"
proof -
  let ?b = "sv_broker (ad_server a)"
  obtain topics w where u: "TopicConfigManager_UpdateTopicConfig (snd (ap_json K)) (at_now now) (bk_home ?b) (bk_cfg ?b) (requested_topic h)
      (bk_topics ?b) (bk_world ?b) = (topics, w)" by fastforce
  show ?thesis
    using assms u select_updated [OF u, of "string_field h ''Topic''"]
    by (intro exI [of _ "(ad_response None)\<lparr>rc_Code := SUCCESS, rc_Remark := []\<rparr>"] exI [of _ topics] exI [of _ w])
      (simp add: AdminBrokerProcessor_ProcessRequest_def updateAndCreateTopic_def ad_broker_def ad_ok_def Let_def)
qed

text \<open>
  C26 (functional): a topic that an administrator makes takes messages. After a broker that may be read and written has answered the request to make a
  topic, a message for any of the queues the request gives the topic is stored, at the next position of the queue.
\<close>

theorem created_topic_takes_messages:
  assumes "server_inv E (ad_server a)" and "cmap_laws H"
    and "HasWriteable (sv_config (ad_server a))" and "HasReadable (sv_config (ad_server a))"
    and "rc_Code request = 17" and "DecodeCommandCustomHeader (\<lambda>_. None) request (Some create_topic_header) = (Some h, None)"
    and "\<not> EqualFold (string_field h ''Topic'') (BrokerClusterName (bk_cfg (sv_broker (ad_server a))))"
    and "TopicConfigManager_isTopicCanSendMessage (bk_cfg (sv_broker (ad_server a))) (string_field h ''Topic'')"
    and "parseRequestHeader msg = Some rh" and "rh_Topic rh = string_field h ''Topic''"
    and "0 \<le> rh_QueueId rh" and "rh_QueueId rh < int_field h ''WriteQueueNums''"
    and "prop_at (String2messageProperties (rh_Properties rh)) ''TRAN_MSG'' = []"
    and "storable_request E t ctx msg rh (requested_topic h) (ad_server a)"
  shows "\<exists>r a1 ar s1. AdminBrokerProcessor_ProcessRequest K others now request a = Some ((Some r, None), a1) \<and> rc_Code r = SUCCESS \<and>
     SendMessageProcessor_ProcessRequest unzip H marshal t diskUtil ctx msg (ad_server a1) = Some (None, s1) \<and>
     server_inv (accept (sent_message t ctx msg rh (requested_topic h) (ad_server a1)) ar E) s1 \<and>
     LogicsOffset ar = int (length (E (rh_Topic rh) (rh_QueueId rh)))"
proof -
  obtain r topics w where m: "AdminBrokerProcessor_ProcessRequest K others now request a =
       Some ((Some r, None), a\<lparr>ad_server := sv_register_all (sv_set_topics topics w (ad_server a))\<rparr>)" "rc_Code r = SUCCESS"
      "TopicConfigManager_SelectTopicConfig (string_field h ''Topic'') topics = Some (requested_topic h)"
    using topic_made [OF assms(5-7)] by blast
  let ?s = "sv_register_all (sv_set_topics topics w (ad_server a))"
  note k = registered_keeps [OF assms(3,4)]
  have "may_send rh (requested_topic h) ?s"
    using assms(3,8,10-13) m(3) unfolding k(3) by (simp add: may_send_def sv_set_topics_def sv_topic_def)
  moreover have "server_inv E ?s" "storable_request E t ctx msg rh (requested_topic h) ?s" using assms(1,14) by (simp_all add: k(1,2))
  ultimately obtain ar s1 where "SendMessageProcessor_ProcessRequest unzip H marshal t diskUtil ctx msg ?s = Some (None, s1)"
      "server_inv (accept (sent_message t ctx msg rh (requested_topic h) ?s) ar E) s1"
      "LogicsOffset ar = int (length (E (rh_Topic rh) (rh_QueueId rh)))"
    using send_stored [OF _ assms(2,9), of E ?s "requested_topic h" t ctx _ unzip marshal diskUtil] by blast
  with m(1,2) show ?thesis by (intro exI [of _ r]) auto
qed

section \<open>Offsets\<close>

text \<open>
  What \<open>queryCorrectionOffset\<close> tells for a queue the group to compare with has an offset for: that offset, or the largest number when
  it is behind the least of all groups. The other queues keep theirs.
\<close>

lemma correct_offsets_exact:
  assumes "distinct (map fst compareOffset)"
  shows "map_of (correct_offsets compareOffset correctionOffset) k =
     (case map_of compareOffset k of
        None \<Rightarrow> map_of correctionOffset k
      | Some v \<Rightarrow> Some (if (case map_of correctionOffset k of Some c \<Rightarrow> c | None \<Rightarrow> 0) > v then MAX_VALUE else v))"
  using assms
proof (induction compareOffset arbitrary: correctionOffset)
  case (Cons c t)
  then have n: "map_of t (fst c) = None" by (simp add: map_of_eq_None_iff)
  show ?case
  proof (cases "k = fst c")
    case True
    with n Cons show ?thesis by (cases c) (simp add: update_conv')
  next
    case False
    with Cons show ?thesis by (cases c) (simp add: update_conv' split: option.split)
  qed
qed simp

text \<open>With no topic in the request nothing is cloned: the key that is looked up is the one of the blank topic.\<close>

lemma clone_blank:
  assumes "IsBlank (string_field h ''Topic'')" and "map_of (Offsets com) (offset_key (string_field h ''Topic'') (string_field h ''SrcGroup'')) = None"
  shows "clone_loop K h b topics com = com"
  using assms by (induction topics) (simp_all add: ConsumerOffsetManager_CloneOffset_def)

section \<open>A server to administer\<close>

definition example_admin_packages ::
    "((string \<times> nat) list, (string \<times> nat) list, (string \<times> ((string \<times> nat) list, (string \<times> nat) list) ConsumerGroupInfo) list,
      string list, elem list, sys_elem list) admin_packages" where
  "example_admin_packages = \<lparr>ap_clients = list_maps, ap_strings = list_set, ap_union = (\<lambda>x y. x @ y), ap_queues = list_set,
     ap_json = (\<lambda>_. None, \<lambda>_. None), ap_env = [], ap_group = (\<lambda>_. NewSubscriptionGroupConfig), ap_lock = (\<lambda>_. ([], [], [])),
     ap_locked = (\<lambda>_. []), ap_stats = (\<lambda>_. []), ap_consume = (\<lambda>_. []), ap_consumers = (\<lambda>_. []), ap_producers = (\<lambda>_. []),
     ap_offsets = (\<lambda>_. None), ap_names = (\<lambda>_. []), ap_system = (\<lambda>_. []), ap_spans = (\<lambda>_. []), ap_correction = (\<lambda>_. [])\<rparr>"

definition example_admin :: "('gt, 's, 'm) server \<Rightarrow> ('gt, 's, 'm) admin" where
  "example_admin s = \<lparr>ad_server = s, ad_locks = NewRebalanceLockManager, ad_deleteTopicTask = False\<rparr>"

definition example_admin_times :: admin_times where
  "example_admin_times = \<lparr>at_now = 0, at_clock = sconst 0\<rparr>"

definition example_make :: RemotingCommand where
  "example_make = empty_command\<lparr>rc_Code := 17, rc_ExtFields := Some [(''Topic'', ''t''), (''ReadQueueNums'', ''8''),
     (''WriteQueueNums'', ''8''), (''Perm'', ''6''), (''Order'', ''false'')]\<rparr>"

definition example_max :: RemotingCommand where
  "example_max = empty_command\<lparr>rc_Code := 30, rc_ExtFields := Some [(''Topic'', ''t''), (''QueueId'', ''3'')]\<rparr>"

definition example_make_header :: custom_header where
  "example_make_header = [(''Topic'', StringF ''t''), (''DefaultTopic'', StringF []), (''ReadQueueNums'', IntF 32 8),
     (''WriteQueueNums'', IntF 32 8), (''Perm'', IntF 64 6), (''TopicFilterType'', IntF 64 0), (''TopicSysFlag'', IntF 64 0), (''Order'', BoolF False)]"

lemma example_make_decoded:
  "DecodeCommandCustomHeader (\<lambda>_. None) example_make (Some create_topic_header) = (Some example_make_header, None)"
  by code_simp

lemma example_max_decoded: "decoded example_max max_offset_header = [(''Topic'', StringF ''t''), (''QueueId'', IntF 64 3)]"
  by code_simp

theorem max_offset_counts_messages_witness:
  "\<exists>(a :: ((string \<times> ((string \<times> nat) list, (string \<times> nat) list) ConsumerGroupInfo) list, sys_elem list,
         (string \<times> (string \<times> RemotingCommand) ManyPullRequest) list) admin) a1 r.
     AdminBrokerProcessor_ProcessRequest example_admin_packages (\<lambda>_ _. None) example_admin_times example_max a = Some ((Some r, None), a1) \<and>
     rc_CustomHeader r = Some (offset_header 1)"
proof -
  obtain ms os where s: "server_inv (\<lambda>_ _. []) (example_server ms os)" "ms_config ms = flow_config"
      "ms_CommitLog ms = NewCommitLog None flow_config" "idle_store ms"
    using example_start by blast
  let ?m = "sent_message example_times example_client example_send example_rh (NewTopicConfig ''t'') (example_server ms os)"
  obtain r s1 where s1: "server_inv (accept ?m r (\<lambda>_ _. [])) s1" "one_more (example_server ms os) s1"
    using send_stored [OF s(1) alist_map_laws example_send_parsed example_may_send example_storable [OF s(2-4)] refl] by blast
  have "sv_room 0 s1" by (rule sv_room_one_more [OF _ s1(2)]) (simp add: example_room [OF s(4), unfolded One_nat_def])
  obtain s2 where s2: "server_inv (accept ?m r (\<lambda>_ _. [])) s2" "all_dispatched s2" "same_rules s1 s2"
    using sv_dispatch_ok [OF s1(1) \<open>sv_room 0 s1\<close>] by blast
  have mf: "m_Topic ?m = ''t''" "m_QueueId ?m = 3" by (simp_all add: sent_message_def stamped_def example_rh_def)
  have vis: "visible (m_SysFlag ?m)" using example_plain by (simp add: plain_message_def)
  have E: "length (accept ?m r (\<lambda>_ _. []) ''t'' 3) = 1" by (simp add: accept_def vis mf)
  have q: "string_field (decoded example_max max_offset_header) ''Topic'' = ''t''" "int_field (decoded example_max max_offset_header) ''QueueId'' = 3"
    unfolding example_max_decoded by (simp_all add: string_field_def int_field_def)
  have "rc_Code example_max = 30" "good_queue ''t'' 3" "in_int 32 3" by (simp_all add: example_max_def good_queue_def in_int_def)
  from max_offset_counts_messages [where a = "example_admin s2" and K = example_admin_packages and others = "\<lambda>_ _. None" and
      now = example_admin_times and request = example_max, OF _ _ this(1) refl q [symmetric] this(2,3)] s2 E
  show ?thesis by (fastforce simp: example_admin_def)
qed

lemma inner_message_filter:
  "tc_TopicFilterType tc = tc_TopicFilterType tc1 \<Longrightarrow> inner_message cfg ctx request rh tc = inner_message cfg ctx request rh tc1"
  by (simp add: inner_message_def)

lemma example_make_storable:
  assumes "ms_config ms = flow_config" and "ms_CommitLog ms = NewCommitLog None flow_config" and "idle_store ms"
  shows "storable_request (\<lambda>_ _. []) example_times example_client example_send example_rh (requested_topic example_make_header) (example_server ms os)"
proof -
  have "tc_TopicFilterType (requested_topic example_make_header) = tc_TopicFilterType (NewTopicConfig ''t'')"
    by (simp add: requested_topic_def example_make_header_def NewDefaultTopicConfig_def NewTopicConfig_def filter_type_def int_field_def Let_def)
  from inner_message_filter [OF this] show ?thesis using example_storable [OF assms] by (simp add: storable_request_def)
qed

theorem created_topic_takes_messages_witness:
  "\<exists>ms os r a1 (ar :: AppendMessageResult) s1. AdminBrokerProcessor_ProcessRequest example_admin_packages (\<lambda>_ _. None) example_admin_times example_make
       (example_admin (example_server ms os)) = Some ((Some r, None), a1) \<and> rc_Code r = SUCCESS \<and>
     SendMessageProcessor_ProcessRequest (\<lambda>_. None) alist_map (\<lambda>_. None, \<lambda>_. None) example_times [] example_client example_send (ad_server a1) =
       Some (None, s1) \<and> LogicsOffset ar = 0"
proof -
  obtain ms os where s: "server_inv (\<lambda>_ _. []) (example_server ms os)" "ms_config ms = flow_config"
      "ms_CommitLog ms = NewCommitLog None flow_config" "idle_store ms"
    using example_start by blast
  let ?a = "example_admin (example_server ms os)" and ?h = example_make_header
  have a: "ad_server ?a = example_server ms os" by (simp add: example_admin_def)
  have f: "rc_Code example_make = 17" "string_field ?h ''Topic'' = ''t''" "int_field ?h ''WriteQueueNums'' = 8"
    by (simp_all add: example_make_def example_make_header_def string_field_def int_field_def)
  have g: "HasWriteable (sv_config (ad_server ?a))" "HasReadable (sv_config (ad_server ?a))"
      "TopicConfigManager_isTopicCanSendMessage (bk_cfg (sv_broker (ad_server ?a))) (string_field ?h ''Topic'')"
    using example_may_send [of ms os] example_may_pull [of ms os] by (simp_all add: a f may_send_def may_pull_def example_rh_def)
  have e: "\<not> EqualFold (string_field ?h ''Topic'') (BrokerClusterName (bk_cfg (sv_broker (ad_server ?a))))"
    unfolding a f by (simp add: example_server_defs example_config_def EqualFold_def fold_case_def fold_char_def)
  have r: "rh_Topic example_rh = string_field ?h ''Topic''" "0 \<le> rh_QueueId example_rh" "rh_QueueId example_rh < int_field ?h ''WriteQueueNums''"
      "prop_at (String2messageProperties (rh_Properties example_rh)) ''TRAN_MSG'' = []"
    unfolding f by (simp_all add: example_rh_def prop_at_def String2messageProperties_def Bytes2messageProperties_def bytes_of_string_def props_loop.simps)
  have i: "server_inv (\<lambda>_ _. []) (ad_server ?a)"
    "storable_request (\<lambda>_ _. []) example_times example_client example_send example_rh (requested_topic ?h) (ad_server ?a)"
    using s(1) example_make_storable [OF s(2-4)] by (simp_all add: a)
  note c = created_topic_takes_messages [OF i(1) alist_map_laws g(1,2) f(1) example_make_decoded e g(3) example_send_parsed r i(2),
      of example_admin_packages "\<lambda>_ _. None" example_admin_times "\<lambda>_. None" "(\<lambda>_. None, \<lambda>_. None)" "[]"]
  have "int (length ([] :: entry list)) = 0" by simp
  with c show ?thesis by metis
qed

end
