(* ===== verification/ProducerM.thy ===== *)
theory ProducerM
  imports DeliveryM ClientM
begin

text \<open>
  The client of producers and consumers, under \<open>stgclient/process\<close>: what it knows of topics and brokers
  (\<open>mq_client_instance.go\<close>), the requests it sends (\<open>mq_client_api_impl.go\<close>), how a producer sends a message
  (\<open>default_mq_producer_impl.go\<close>) and how a consumer pulls (\<open>pull_api_wrapper.go\<close>).

  The network is the record \<open>net\<close> of functions on a world: \<open>InvokeSync\<close> gives a response or an error, what comes back of an asynchronous request is
  handed to the callback later. An iterator of a table yields its entries in some order; the tables are association lists in that order. The
  structures a producer publishes with are shared by reference, so they are in a list (\<open>mc_infos\<close>) that the tables point into. \<open>None\<close> is a
  panic. The decoder of routes, gzip and zlib are parameters.
\<close>

section \<open>Project groups\<close>

definition project_prefix :: "string \<Rightarrow> string" where
  "project_prefix projectGroup = ''%PROJECT_'' @ projectGroup @ ''%''"

definition HasSuffix :: "string \<Rightarrow> string \<Rightarrow> bool" where
  "HasSuffix s t \<longleftrightarrow> length t \<le> length s \<and> drop (length s - length t) s = t"

text \<open>\<open>strings.Index\<close>.\<close>

fun strings_Index :: "string \<Rightarrow> string \<Rightarrow> int" where
  "strings_Index [] t = (if t = [] then 0 else - 1)"
| "strings_Index (c # s) t =
     (if take (length t) (c # s) = t then 0 else (let i = strings_Index s t in if i < 0 then - 1 else i + 1))"

definition BuildWithProjectGroup :: "string \<Rightarrow> string \<Rightarrow> string" where
  "BuildWithProjectGroup origin projectGroup =
     (if \<not> EqualFold projectGroup []
      then let p = project_prefix projectGroup in if \<not> HasSuffix origin p then origin @ p else origin
      else origin)"

definition ClearProjectGroup :: "string \<Rightarrow> string \<Rightarrow> string" where
  "ClearProjectGroup origin projectGroup =
     (let p = project_prefix projectGroup
      in if \<not> EqualFold projectGroup [] \<and> HasSuffix origin p then take (nat (strings_Index origin p)) origin else origin)"

section \<open>Requests of a client\<close>

datatype SendStatus = SEND_OK | SEND_FLUSH_DISK_TIMEOUT | SEND_FLUSH_SLAVE_TIMEOUT | SEND_SLAVE_NOT_AVAILABLE

datatype CommunicationMode = SYNC | ASYNC | ONEWAY

datatype PullStatus = PULL_FOUND | PULL_NO_NEW_MSG | PULL_NO_MATCHED_MSG | PULL_OFFSET_ILLEGAL

record SendResult =
  sr_SendStatus :: SendStatus
  sr_MsgId :: string
  sr_MessageQueue :: MessageQueue
  sr_QueueOffset :: int
  sr_TransactionId :: string

record PullResultExt =
  pr_PullStatus :: PullStatus
  pr_NextBeginOffset :: int
  pr_MinOffset :: int
  pr_MaxOffset :: int
  pr_MsgFoundList :: "MessageExt list"
  pr_suggestWhichBrokerId :: int
  pr_messageBinary :: "byte list"

text \<open>The network, and what the client keeps for its requests: the project group, the counter of requests and the world.\<close>

record 'w net =
  nt_sync :: "string \<Rightarrow> RemotingCommand \<Rightarrow> 'w \<Rightarrow> (RemotingCommand option \<times> error option) \<times> 'w"
  nt_oneway :: "string \<Rightarrow> RemotingCommand \<Rightarrow> 'w \<Rightarrow> 'w"
  nt_async :: "string \<Rightarrow> RemotingCommand \<Rightarrow> 'w \<Rightarrow> 'w"
  nt_env :: string

record 'w MQClientAPIImpl =
  ProjectGroupPrefix :: string
  requestId :: int
  api_world :: 'w

definition api_request :: "'w net \<Rightarrow> int \<Rightarrow> custom_header \<Rightarrow> 'w MQClientAPIImpl \<Rightarrow> RemotingCommand \<times> 'w MQClientAPIImpl" where
  "api_request N code h impl =
     (case CreateRequestCommand (nt_env N) code (Some h) (requestId impl) of (request, i) \<Rightarrow> (request, impl\<lparr>requestId := i\<rparr>))"

definition InvokeSync ::
    "'w net \<Rightarrow> string \<Rightarrow> RemotingCommand \<Rightarrow> 'w MQClientAPIImpl \<Rightarrow> (RemotingCommand option \<times> error option) \<times> 'w MQClientAPIImpl" where
  "InvokeSync N addr request impl =
     (case nt_sync N addr request (api_world impl) of (r, w) \<Rightarrow> (r, impl\<lparr>api_world := w\<rparr>))"

definition with_group :: "'w MQClientAPIImpl \<Rightarrow> string \<Rightarrow> string" where
  "with_group impl name =
     (if \<not> EqualFold (ProjectGroupPrefix impl) [] then BuildWithProjectGroup name (ProjectGroupPrefix impl) else name)"

definition NewSendResult :: "SendStatus \<Rightarrow> string \<Rightarrow> MessageQueue \<Rightarrow> int \<Rightarrow> string \<Rightarrow> SendResult" where
  "NewSendResult sendStatus msgId messageQueue queueOffset projectGroupPrefix =
     (let mq = (if \<not> EqualFold projectGroupPrefix []
                then messageQueue\<lparr>mq_Topic := ClearProjectGroup (mq_Topic messageQueue) projectGroupPrefix\<rparr> else messageQueue)
      in \<lparr>sr_SendStatus = sendStatus, sr_MsgId = msgId, sr_MessageQueue = mq, sr_QueueOffset = queueOffset, sr_TransactionId = []\<rparr>)"

definition MQClientAPIImpl_processSendResponse ::
    "string \<Rightarrow> Message \<Rightarrow> RemotingCommand option \<Rightarrow> 'w MQClientAPIImpl \<Rightarrow> SendResult option \<times> error option" where
  "MQClientAPIImpl_processSendResponse brokerName msg response impl =
     (case response of
        None \<Rightarrow> (None, Some ''processSendResponse error response is nil'')
      | Some r \<Rightarrow>
          (let code = rc_Code r
           in if code \<in> {FLUSH_DISK_TIMEOUT_code, FLUSH_SLAVE_TIMEOUT_code, SLAVE_NOT_AVAILABLE_code, SUCCESS}
              then let sendStatus = (if code = FLUSH_DISK_TIMEOUT_code then SEND_FLUSH_DISK_TIMEOUT
                         else if code = FLUSH_SLAVE_TIMEOUT_code then SEND_FLUSH_SLAVE_TIMEOUT
                         else if code = SLAVE_NOT_AVAILABLE_code then SEND_SLAVE_NOT_AVAILABLE else SEND_OK);
                       h = decoded r (send_response_header [] 0 0);
                       messageQueue = \<lparr>mq_Topic = m_Topic msg, mq_BrokerName = brokerName, mq_QueueId = int_field h ''QueueId''\<rparr>;
                       sendResult = NewSendResult sendStatus (string_field h ''MsgId'') messageQueue (int_field h ''QueueOffset'') (ProjectGroupPrefix impl)
                   in (Some (sendResult\<lparr>sr_TransactionId := string_field h ''TransactionId''\<rparr>), None)
              else (None, Some (''processSendResponse error='' @ rc_Remark r))))"

definition MQClientAPIImpl_sendMessageSync ::
    "'w net \<Rightarrow> string \<Rightarrow> string \<Rightarrow> Message \<Rightarrow> RemotingCommand \<Rightarrow> 'w MQClientAPIImpl \<Rightarrow> (SendResult option \<times> error option) \<times> 'w MQClientAPIImpl" where
  "MQClientAPIImpl_sendMessageSync N addr brokerName msg request impl =
     (case InvokeSync N addr request impl of
        ((_, Some e), impl1) \<Rightarrow> ((None, Some e), impl1)
      | ((response, None), impl1) \<Rightarrow> (MQClientAPIImpl_processSendResponse brokerName msg response impl1, impl1))"

text \<open>What is sent is the message with its topic in the project group, and so is the message the caller keeps.\<close>

definition MQClientAPIImpl_SendMessage ::
    "'w net \<Rightarrow> string \<Rightarrow> string \<Rightarrow> Message \<Rightarrow> SendMessageRequestHeader \<Rightarrow> CommunicationMode \<Rightarrow> 'w MQClientAPIImpl \<Rightarrow>
     (SendResult option \<times> error option) \<times> Message \<times> 'w MQClientAPIImpl" where
  "MQClientAPIImpl_SendMessage N addr brokerName msg requestHeader mode impl =
     (let msg1 = msg\<lparr>m_Topic := with_group impl (m_Topic msg)\<rparr>;
          rh = requestHeader\<lparr>rh_ProducerGroup := with_group impl (rh_ProducerGroup requestHeader),
                 rh_Topic := with_group impl (rh_Topic requestHeader)\<rparr>
      in case api_request N SEND_MESSAGE_V2 (CreateSendMessageRequestHeaderV2 rh) impl of
        (request0, impl1) \<Rightarrow>
          (let request = request0\<lparr>rc_Body := Some (m_Body msg1)\<rparr>
           in case mode of
             ONEWAY \<Rightarrow> ((None, None), msg1, impl1\<lparr>api_world := nt_oneway N addr (MarkOnewayRPC request) (api_world impl1)\<rparr>)
           | ASYNC \<Rightarrow> ((None, None), msg1, impl1\<lparr>api_world := nt_async N addr request (api_world impl1)\<rparr>)
           | SYNC \<Rightarrow> (case MQClientAPIImpl_sendMessageSync N addr brokerName msg1 request impl1 of (r, impl2) \<Rightarrow> (r, msg1, impl2))))"

text \<open>A route from the registry. The answer to the query for the default topic may be a panic.\<close>

definition MQClientAPIImpl_GetTopicRouteInfoFromNameServer ::
    "'w net \<Rightarrow> (byte list \<Rightarrow> error + TopicRouteData) \<Rightarrow> string \<Rightarrow> 'w MQClientAPIImpl \<Rightarrow> (error + TopicRouteData) \<times> 'w MQClientAPIImpl" where
  "MQClientAPIImpl_GetTopicRouteInfoFromNameServer N decode topic impl =
     (case api_request N 105 [(''Topic'', StringF (with_group impl topic))] impl of
        (request, impl1) \<Rightarrow>
          (case InvokeSync N [] request impl1 of
             ((_, Some e), impl2) \<Rightarrow> (Inl e, impl2)
           | ((None, None), impl2) \<Rightarrow> (Inl ''the response is empty'', impl2)
           | ((Some response, None), impl2) \<Rightarrow>
               (if rc_Code response = TOPIC_NOT_EXIST then Inl ''is not exist value''
                else if body_bytes response = [] then Inl ''response.body is empty''
                else decode (body_bytes response), impl2)))"

definition MQClientAPIImpl_GetDefaultTopicRouteInfoFromNameServer ::
    "'w net \<Rightarrow> (byte list \<Rightarrow> error + TopicRouteData) \<Rightarrow> string \<Rightarrow> 'w MQClientAPIImpl \<Rightarrow>
     (TopicRouteData option \<times> 'w MQClientAPIImpl) option" where
  "MQClientAPIImpl_GetDefaultTopicRouteInfoFromNameServer N decode topic impl =
     (case api_request N 105 [(''Topic'', StringF topic)] impl of
        (request, impl1) \<Rightarrow>
          (case InvokeSync N [] request impl1 of
             ((None, None), impl2) \<Rightarrow> None
           | ((_, Some e), impl2) \<Rightarrow> Some (None, impl2)
           | ((Some response, None), impl2) \<Rightarrow>
               if rc_Code response = TOPIC_NOT_EXIST then Some (None, impl2)
               else if rc_Code response = SUCCESS
               then (if body_bytes response = [] then Some (None, impl2)
                     else Some (case decode (body_bytes response) of Inl e \<Rightarrow> None | Inr route \<Rightarrow> Some route, impl2))
               else None))"

definition pull_request_header :: "PullMessageRequestHeader \<Rightarrow> custom_header" where
  "pull_request_header h =
     [(''ConsumerGroup'', StringF (ph_ConsumerGroup h)), (''Topic'', StringF (ph_Topic h)), (''QueueId'', IntF 32 (ph_QueueId h)),
      (''QueueOffset'', IntF 64 (ph_QueueOffset h)), (''MaxMsgNums'', IntF 64 (ph_MaxMsgNums h)), (''SysFlag'', IntF 64 (ph_SysFlag h)),
      (''CommitOffset'', IntF 64 (ph_CommitOffset h)), (''SuspendTimeoutMillis'', IntF 64 (ph_SuspendTimeoutMillis h)),
      (''Subscription'', StringF (ph_Subscription h)), (''SubVersion'', IntF 64 (ph_SubVersion h))]"

definition MQClientAPIImpl_processPullResponse :: "RemotingCommand \<Rightarrow> PullResultExt" where
  "MQClientAPIImpl_processPullResponse response =
     (let code = rc_Code response; h = decoded response (pull_response_header 0 0 0 0)
      in \<lparr>pr_PullStatus = (if code = SUCCESS then PULL_FOUND else if code = PULL_NOT_FOUND then PULL_NO_NEW_MSG
            else if code = PULL_RETRY_IMMEDIATELY then PULL_NO_MATCHED_MSG else if code = PULL_OFFSET_MOVED then PULL_OFFSET_ILLEGAL
            else PULL_NO_NEW_MSG),
          pr_NextBeginOffset = int_field h ''NextBeginOffset'', pr_MinOffset = int_field h ''MinOffset'', pr_MaxOffset = int_field h ''MaxOffset'',
          pr_MsgFoundList = [], pr_suggestWhichBrokerId = int_field h ''SuggestWhichBrokerId'', pr_messageBinary = body_bytes response\<rparr>)"

definition MQClientAPIImpl_PullMessage ::
    "'w net \<Rightarrow> string \<Rightarrow> PullMessageRequestHeader \<Rightarrow> CommunicationMode \<Rightarrow> 'w MQClientAPIImpl \<Rightarrow> PullResultExt option \<times> 'w MQClientAPIImpl" where
  "MQClientAPIImpl_PullMessage N addr requestHeader mode impl =
     (let h = requestHeader\<lparr>ph_ConsumerGroup := with_group impl (ph_ConsumerGroup requestHeader), ph_Topic := with_group impl (ph_Topic requestHeader)\<rparr>
      in case api_request N 11 (pull_request_header h) impl of
        (request, impl1) \<Rightarrow>
          (case mode of
             ONEWAY \<Rightarrow> (None, impl1)
           | ASYNC \<Rightarrow> (None, impl1\<lparr>api_world := nt_async N addr request (api_world impl1)\<rparr>)
           | SYNC \<Rightarrow> (case InvokeSync N addr request impl1 of ((response, _), impl2) \<Rightarrow> (map_option MQClientAPIImpl_processPullResponse response, impl2))))"

text \<open>A number a broker answers with, or -1.\<close>

definition answered_offset :: "(RemotingCommand option \<times> error option) \<Rightarrow> int" where
  "answered_offset r =
     (case r of (Some response, None) \<Rightarrow> if rc_Code response = SUCCESS then int_field (decoded response [(''Offset'', IntF 64 0)]) ''Offset'' else - 1
      | _ \<Rightarrow> - 1)"

definition MQClientAPIImpl_GetMaxOffset :: "'w net \<Rightarrow> string \<Rightarrow> string \<Rightarrow> int \<Rightarrow> 'w MQClientAPIImpl \<Rightarrow> int \<times> 'w MQClientAPIImpl" where
  "MQClientAPIImpl_GetMaxOffset N addr topic queueId impl =
     (case api_request N 30 [(''Topic'', StringF (with_group impl topic)), (''QueueId'', IntF 64 queueId)] impl of
        (request, impl1) \<Rightarrow> apfst answered_offset (InvokeSync N addr request impl1))"

definition MQClientAPIImpl_queryConsumerOffset ::
    "'w net \<Rightarrow> string \<Rightarrow> string \<Rightarrow> string \<Rightarrow> int \<Rightarrow> 'w MQClientAPIImpl \<Rightarrow> int \<times> 'w MQClientAPIImpl" where
  "MQClientAPIImpl_queryConsumerOffset N addr consumerGroup topic queueId impl =
     (case api_request N 14 [(''ConsumerGroup'', StringF (with_group impl consumerGroup)), (''Topic'', StringF (with_group impl topic)),
          (''QueueId'', IntF 32 queueId)] impl of
        (request, impl1) \<Rightarrow> apfst answered_offset (InvokeSync N addr request impl1))"

definition MQClientAPIImpl_UpdateConsumerOffsetOneway ::
    "'w net \<Rightarrow> string \<Rightarrow> string \<Rightarrow> string \<Rightarrow> int \<Rightarrow> int \<Rightarrow> 'w MQClientAPIImpl \<Rightarrow> 'w MQClientAPIImpl" where
  "MQClientAPIImpl_UpdateConsumerOffsetOneway N addr consumerGroup topic queueId commitOffset impl =
     (case api_request N 15 [(''ConsumerGroup'', StringF (with_group impl consumerGroup)), (''Topic'', StringF (with_group impl topic)),
          (''QueueId'', IntF 64 queueId), (''CommitOffset'', IntF 64 commitOffset)] impl of
        (request, impl1) \<Rightarrow> impl1\<lparr>api_world := nt_oneway N addr (MarkOnewayRPC request) (api_world impl1)\<rparr>)"

definition MQClientAPIImpl_GetConsumerIdListByGroup ::
    "'w net \<Rightarrow> (byte list \<Rightarrow> error + string list) \<Rightarrow> string \<Rightarrow> string \<Rightarrow> 'w MQClientAPIImpl \<Rightarrow> string list \<times> 'w MQClientAPIImpl" where
  "MQClientAPIImpl_GetConsumerIdListByGroup N decode addr consumerGroup impl =
     (case api_request N 38 [(''ConsumerGroup'', StringF (with_group impl consumerGroup))] impl of
        (request, impl1) \<Rightarrow>
          (case InvokeSync N addr request impl1 of
             ((Some response, None), impl2) \<Rightarrow>
               (if rc_Code response = SUCCESS \<and> body_bytes response \<noteq> []
                then case decode (body_bytes response) of Inl e \<Rightarrow> [] | Inr ids \<Rightarrow> ids else [], impl2)
           | (_, impl2) \<Rightarrow> ([], impl2)))"

section \<open>What a client knows\<close>

datatype ServiceState = CREATE_JUST | RUNNING | SHUTDOWN_ALREADY | START_FAILED

record Producer =
  pd_ProducerGroup :: string
  pd_CreateTopicKey :: string
  pd_DefaultTopicQueueNums :: int
  pd_SendMsgTimeout :: int
  pd_CompressMsgBodyOverHowmuch :: int
  pd_RetryTimesWhenSendFailed :: int
  pd_RetryAnotherBrokerWhenNotStoreOK :: bool
  pd_MaxMessageSize :: int
  pd_UnitMode :: bool
  pd_ServiceState :: ServiceState
  TopicPublishInfoTable :: "(string \<times> nat) list"

record Consumer =
  SubscriptionInner :: "(string \<times> string) list"
  TopicSubscribeInfoTable :: "(string \<times> MessageQueue list) list"

record 'w client =
  ProducerTable :: "(string \<times> Producer) list"
  ConsumerTable :: "(string \<times> Consumer) list"
  TopicRouteTable :: "(string \<times> TopicRouteData) list"
  BrokerAddrTable :: "(string \<times> (int \<times> string) list) list"
  mc_infos :: "TopicPublishInfo list"
  mc_DefaultTopicQueueNums :: int
  mc_api :: "'w MQClientAPIImpl"

definition NewProducer :: "string \<Rightarrow> Producer" where
  "NewProducer producerGroup =
     \<lparr>pd_ProducerGroup = producerGroup, pd_CreateTopicKey = DEFAULT_TOPIC, pd_DefaultTopicQueueNums = 4, pd_SendMsgTimeout = 3000,
      pd_CompressMsgBodyOverHowmuch = 1024 * 4, pd_RetryTimesWhenSendFailed = 2, pd_RetryAnotherBrokerWhenNotStoreOK = False,
      pd_MaxMessageSize = 1024 * 128, pd_UnitMode = False, pd_ServiceState = CREATE_JUST, TopicPublishInfoTable = []\<rparr>"

text \<open>The queues of an ordered topic, from its configuration; a broker without a number of queues is a panic.\<close>

fun order_queues :: "string \<Rightarrow> string list \<Rightarrow> MessageQueue list option" where
  "order_queues topic [] = Some []"
| "order_queues topic (broker # brokers) =
     (case strings_Split CHR '':'' broker of
        name # nums # _ \<Rightarrow>
          map_option (append (map (\<lambda>i. \<lparr>mq_Topic = topic, mq_BrokerName = name, mq_QueueId = i\<rparr>) [0..Atoi_value nums - 1]))
            (order_queues topic brokers)
      | _ \<Rightarrow> None)"

definition writeable_queues :: "string \<Rightarrow> TopicRouteData \<Rightarrow> QueueData \<Rightarrow> MessageQueue list" where
  "writeable_queues topic route queueData =
     (if IsWriteable (qd_Perm queueData)
      then (case find (\<lambda>bd. EqualFold (bd_BrokerName bd) (qd_BrokerName queueData)) (BrokerDatas route) of
              None \<Rightarrow> []
            | Some brokerData \<Rightarrow>
                if map_of (bd_BrokerAddrs brokerData) 0 = None then []
                else map (\<lambda>i. \<lparr>mq_Topic = topic, mq_BrokerName = bd_BrokerName brokerData, mq_QueueId = i\<rparr>) [0..qd_WriteQueueNums queueData - 1])
      else [])"

text \<open>
  \<open>sort.Sort\<close> need not keep the order of entries with the same key, \<open>sort_key\<close> does: where two entries of a route have the name of one
  broker, the code may list their queues in another order than the model. No property depends on it.
\<close>

definition MQClientInstance_topicRouteData2TopicPublishInfo :: "string \<Rightarrow> TopicRouteData \<Rightarrow> TopicPublishInfo option" where
  "MQClientInstance_topicRouteData2TopicPublishInfo topic route =
     (if \<not> EqualFold (OrderTopicConf route) []
      then map_option (\<lambda>mqs. NewTopicPublishInfo\<lparr>MessageQueueList := mqs, OrderTopic := True\<rparr>)
             (order_queues topic (strings_Split CHR '';'' (OrderTopicConf route)))
      else Some (NewTopicPublishInfo\<lparr>MessageQueueList :=
             concat (map (writeable_queues topic route) (sort_key qd_BrokerName (QueueDatas route))), OrderTopic := False\<rparr>))"

definition MQClientInstance_topicRouteData2TopicSubscribeInfo :: "string \<Rightarrow> TopicRouteData \<Rightarrow> MessageQueue list" where
  "MQClientInstance_topicRouteData2TopicSubscribeInfo topic route =
     concat (map (\<lambda>qd. if IsReadable (qd_Perm qd)
                       then map (\<lambda>i. \<lparr>mq_Topic = topic, mq_BrokerName = qd_BrokerName qd, mq_QueueId = i\<rparr>) [0..qd_ReadQueueNums qd - 1]
                       else []) (QueueDatas route))"

definition sort_route :: "TopicRouteData \<Rightarrow> TopicRouteData" where
  "sort_route route = route\<lparr>QueueDatas := sort_key qd_BrokerName (QueueDatas route), BrokerDatas := sort_key bd_BrokerName (BrokerDatas route)\<rparr>"

definition MQClientInstance_topicRouteDataIsChange :: "TopicRouteData \<Rightarrow> TopicRouteData \<Rightarrow> bool" where
  "MQClientInstance_topicRouteDataIsChange oldData nowData \<longleftrightarrow>
     \<not> TopicRouteData_Equals (sort_route (TopicRouteData_CloneTopicRouteData oldData))
         (Some (sort_route (TopicRouteData_CloneTopicRouteData nowData)))"

definition IsPublishTopicNeedUpdate :: "TopicPublishInfo list \<Rightarrow> string \<Rightarrow> Producer \<Rightarrow> bool" where
  "IsPublishTopicNeedUpdate infos topic pd =
     (case map_of (TopicPublishInfoTable pd) topic of None \<Rightarrow> True | Some p \<Rightarrow> MessageQueueList (infos ! p) = [])"

definition IsSubscribeTopicNeedUpdate :: "string \<Rightarrow> Consumer \<Rightarrow> bool" where
  "IsSubscribeTopicNeedUpdate topic cs =
     (if map_of (SubscriptionInner cs) topic = None then map_of (TopicSubscribeInfoTable cs) topic = None else False)"

text \<open>Each producer and consumer overwrites what the one before it said.\<close>

definition MQClientInstance_isNeedUpdateTopicRouteInfo :: "string \<Rightarrow> 'w client \<Rightarrow> bool" where
  "MQClientInstance_isNeedUpdateTopicRouteInfo topic c =
     fold (\<lambda>(g, cs) r. IsSubscribeTopicNeedUpdate topic cs) (ConsumerTable c)
       (fold (\<lambda>(g, pd) r. IsPublishTopicNeedUpdate (mc_infos c) topic pd) (ProducerTable c) False)"

definition UpdateTopicPublishInfo :: "string \<Rightarrow> nat \<Rightarrow> Producer \<Rightarrow> TopicPublishInfo list \<Rightarrow> Producer \<times> TopicPublishInfo list" where
  "UpdateTopicPublishInfo topic p pd infos =
     (if EqualFold topic [] then (pd, infos)
      else (pd\<lparr>TopicPublishInfoTable := AList.update topic p (TopicPublishInfoTable pd)\<rparr>,
            case map_of (TopicPublishInfoTable pd) topic of
              None \<Rightarrow> infos
            | Some q \<Rightarrow> infos[p := (infos ! p)\<lparr>SendWhichQueue := SendWhichQueue (infos ! q)\<rparr>]))"

fun update_producers :: "string \<Rightarrow> nat \<Rightarrow> (string \<times> Producer) list \<Rightarrow> TopicPublishInfo list \<Rightarrow> (string \<times> Producer) list \<times> TopicPublishInfo list" where
  "update_producers topic p [] infos = ([], infos)"
| "update_producers topic p ((g, pd) # t) infos =
     (case UpdateTopicPublishInfo topic p pd infos of
        (pd1, infos1) \<Rightarrow> apfst (Cons (g, pd1)) (update_producers topic p t infos1))"

definition UpdateTopicSubscribeInfo :: "string \<Rightarrow> MessageQueue list \<Rightarrow> Consumer \<Rightarrow> Consumer" where
  "UpdateTopicSubscribeInfo topic info cs =
     (if map_of (SubscriptionInner cs) topic \<noteq> None
      then cs\<lparr>TopicSubscribeInfoTable := AList.update topic info (TopicSubscribeInfoTable cs)\<rparr> else cs)"

text \<open>A route that changed: the addresses of its brokers, and its queues for the producers and the consumers.\<close>

definition learn_route :: "string \<Rightarrow> TopicRouteData \<Rightarrow> 'w client \<Rightarrow> 'w client option" where
  "learn_route topic route c =
     (let clone = TopicRouteData_CloneTopicRouteData route
      in case MQClientInstance_topicRouteData2TopicPublishInfo topic route of
        None \<Rightarrow> None
      | Some publishInfo \<Rightarrow>
          (case update_producers topic (length (mc_infos c)) (ProducerTable c) (mc_infos c @ [publishInfo\<lparr>HaveTopicRouterInfo := True\<rparr>]) of
             (producers, infos) \<Rightarrow>
               Some (c\<lparr>BrokerAddrTable := fold (\<lambda>bd. AList.update (bd_BrokerName bd) (bd_BrokerAddrs bd)) (BrokerDatas clone) (BrokerAddrTable c),
                       ProducerTable := producers, mc_infos := infos,
                       ConsumerTable := map (apsnd (UpdateTopicSubscribeInfo topic
                          (MQClientInstance_topicRouteData2TopicSubscribeInfo topic route))) (ConsumerTable c),
                       TopicRouteTable := AList.update topic clone (TopicRouteTable c)\<rparr>)))"

text \<open>For the default topic the numbers of the queues are cut to those of the client's own producer.\<close>

definition cut_queues :: "int \<Rightarrow> TopicRouteData \<Rightarrow> TopicRouteData" where
  "cut_queues queueNums route =
     route\<lparr>QueueDatas := map (\<lambda>qd. let n = (if qd_ReadQueueNums qd < queueNums then qd_ReadQueueNums qd else queueNums)
                                   in qd\<lparr>qd_ReadQueueNums := n, qd_WriteQueueNums := n\<rparr>) (QueueDatas route)\<rparr>"

definition MQClientInstance_UpdateTopicRouteInfoFromNameServerByArgs ::
    "'w net \<Rightarrow> (byte list \<Rightarrow> error + TopicRouteData) \<Rightarrow> string \<Rightarrow> bool \<Rightarrow> 'w client \<Rightarrow> 'w client option" where
  "MQClientInstance_UpdateTopicRouteInfoFromNameServerByArgs N decode topic isDefault c =
     (case (if isDefault
            then map_option (apfst (map_option (cut_queues (mc_DefaultTopicQueueNums c))))
                   (MQClientAPIImpl_GetDefaultTopicRouteInfoFromNameServer N decode topic (mc_api c))
            else Some (apfst (case_sum (\<lambda>e. None) Some) (MQClientAPIImpl_GetTopicRouteInfoFromNameServer N decode topic (mc_api c)))) of
        None \<Rightarrow> None
      | Some (None, impl) \<Rightarrow> Some (c\<lparr>mc_api := impl\<rparr>)
      | Some (Some route, impl) \<Rightarrow>
          (let c1 = c\<lparr>mc_api := impl\<rparr>;
               changed = (case map_of (TopicRouteTable c) topic of None \<Rightarrow> True | Some old \<Rightarrow> MQClientInstance_topicRouteDataIsChange old route)
           in if changed \<or> MQClientInstance_isNeedUpdateTopicRouteInfo topic c1 then learn_route topic route c1 else Some c1))"

definition MQClientInstance_FindBrokerAddressInPublish :: "string \<Rightarrow> 'w client \<Rightarrow> string" where
  "MQClientInstance_FindBrokerAddressInPublish brokerName c =
     (case map_of (BrokerAddrTable c) brokerName of
        None \<Rightarrow> [] | Some m \<Rightarrow> (case map_of m 0 of None \<Rightarrow> [] | Some addr \<Rightarrow> addr))"

text \<open>The address to subscribe at, and whether it is a slave's. The addresses of the other brokers are tried in the order of the map.\<close>

definition MQClientInstance_findBrokerAddressInSubscribe :: "string \<Rightarrow> int \<Rightarrow> bool \<Rightarrow> 'w client \<Rightarrow> string \<times> bool" where
  "MQClientInstance_findBrokerAddressInSubscribe brokerName brokerId onlyThisBroker c =
     (case map_of (BrokerAddrTable c) brokerName of
        None \<Rightarrow> ([], False)
      | Some brokerMap \<Rightarrow>
          (case map_of brokerMap brokerId of
             Some (x # xs) \<Rightarrow> (x # xs, brokerId \<noteq> 0)
           | _ \<Rightarrow>
               if onlyThisBroker then ([], False)
               else (case find (\<lambda>(i, addr). addr \<noteq> []) brokerMap of
                       None \<Rightarrow> ([], False) | Some (i, addr) \<Rightarrow> (addr, i \<noteq> 0))))"

definition MQClientInstance_findBrokerAddrByTopic :: "string \<Rightarrow> 'w client \<Rightarrow> string" where
  "MQClientInstance_findBrokerAddrByTopic topic c =
     (case map_of (TopicRouteTable c) topic of
        None \<Rightarrow> []
      | Some route \<Rightarrow> (case BrokerDatas route of [] \<Rightarrow> [] | bd # _ \<Rightarrow> BrokerData_SelectBrokerAddr bd))"

definition MQClientInstance_findConsumerIdList ::
    "'w net \<Rightarrow> (byte list \<Rightarrow> error + TopicRouteData) \<Rightarrow> (byte list \<Rightarrow> error + string list) \<Rightarrow> string \<Rightarrow> string \<Rightarrow> 'w client \<Rightarrow>
     (string list \<times> 'w client) option" where
  "MQClientInstance_findConsumerIdList N decode decodeIds topic grp c =
     (case (if MQClientInstance_findBrokerAddrByTopic topic c = []
            then MQClientInstance_UpdateTopicRouteInfoFromNameServerByArgs N decode topic False c else Some c) of
        None \<Rightarrow> None
      | Some c1 \<Rightarrow>
          (let brokerAddr = MQClientInstance_findBrokerAddrByTopic topic c1
           in if brokerAddr = [] then Some ([], c1)
              else (case MQClientAPIImpl_GetConsumerIdListByGroup N decodeIds brokerAddr grp (mc_api c1) of
                      (ids, impl) \<Rightarrow> Some (ids, c1\<lparr>mc_api := impl\<rparr>))))"

definition MQClientInstance_isBrokerAddrExistInTopicRouteTable :: "string \<Rightarrow> 'w client \<Rightarrow> bool" where
  "MQClientInstance_isBrokerAddrExistInTopicRouteTable addr c \<longleftrightarrow>
     list_ex (\<lambda>(topic, route). list_ex (\<lambda>bd. list_ex (\<lambda>(i, a). EqualFold a addr) (bd_BrokerAddrs bd)) (BrokerDatas route)) (TopicRouteTable c)"

definition MQClientInstance_cleanOfflineBroker :: "'w client \<Rightarrow> 'w client" where
  "MQClientInstance_cleanOfflineBroker c =
     c\<lparr>BrokerAddrTable :=
         filter (\<lambda>(brokerName, table). table \<noteq> [])
           (map (apsnd (filter (\<lambda>(i, addr). MQClientInstance_isBrokerAddrExistInTopicRouteTable addr c))) (BrokerAddrTable c))\<rparr>"

section \<open>Sending a message\<close>

definition VALID_char :: "char \<Rightarrow> bool" where
  "VALID_char c \<longleftrightarrow>
     (let n = of_char c :: nat
      in n \<in> {48..57} \<or> n \<in> {65..90} \<or> n \<in> {97..122} \<or> List.member [CHR ''%'', CHR ''|'', CHR ''_'', CHR ''-''] c)"

text \<open>\<open>CheckTopic\<close> and \<open>CheckMessage\<close> panic on what they refuse; these are the ones they let pass. A valid topic is in ASCII.\<close>

definition CheckTopic :: "string \<Rightarrow> bool" where
  "CheckTopic topic \<longleftrightarrow> \<not> EqualFold topic [] \<and> list_all VALID_char topic \<and> length topic \<le> 255 \<and> \<not> EqualFold DEFAULT_TOPIC topic"

definition CheckMessage :: "Producer \<Rightarrow> Message \<Rightarrow> bool" where
  "CheckMessage pd msg \<longleftrightarrow> m_Body msg \<noteq> [] \<and> CheckTopic (m_Topic msg) \<and> int (length (m_Body msg)) \<le> pd_MaxMessageSize pd"

record 'w client_env =
  ce_net :: "'w net"
  ce_route :: "byte list \<Rightarrow> error + TopicRouteData"
  ce_gzip :: "byte list \<Rightarrow> byte list"

definition the_producer :: "string \<Rightarrow> 'w client \<Rightarrow> Producer" where
  "the_producer g c = the (map_of (ProducerTable c) g)"

text \<open>\<open>PutIfAbsent\<close> of an empty structure.\<close>

definition put_absent_info :: "string \<Rightarrow> string \<Rightarrow> 'w client \<Rightarrow> 'w client" where
  "put_absent_info g topic c =
     (let pd = the_producer g c
      in if map_of (TopicPublishInfoTable pd) topic = None
         then c\<lparr>mc_infos := mc_infos c @ [NewTopicPublishInfo],
                ProducerTable := AList.update g (pd\<lparr>TopicPublishInfoTable := AList.update topic (length (mc_infos c)) (TopicPublishInfoTable pd)\<rparr>)
                  (ProducerTable c)\<rparr>
         else c)"

text \<open>The structure to publish with, as a reference.\<close>

definition tryToFindTopicPublishInfo :: "'w client_env \<Rightarrow> string \<Rightarrow> string \<Rightarrow> 'w client \<Rightarrow> (nat \<times> 'w client) option" where
  "tryToFindTopicPublishInfo X g topic c =
     (let found = (\<lambda>c. map_of (TopicPublishInfoTable (the_producer g c)) topic)
      in case (if (case found c of None \<Rightarrow> True | Some p \<Rightarrow> MessageQueueList (mc_infos c ! p) = [])
               then MQClientInstance_UpdateTopicRouteInfoFromNameServerByArgs (ce_net X) (ce_route X) topic False (put_absent_info g topic c)
               else Some c) of
        None \<Rightarrow> None
      | Some c1 \<Rightarrow>
          (case found c1 of
             Some p \<Rightarrow>
               if HaveTopicRouterInfo (mc_infos c1 ! p) \<and> MessageQueueList (mc_infos c1 ! p) \<noteq> [] then Some (p, c1)
               else (case MQClientInstance_UpdateTopicRouteInfoFromNameServerByArgs (ce_net X) (ce_route X) topic True c1 of
                       None \<Rightarrow> None
                     | Some c2 \<Rightarrow> map_option (\<lambda>p. (p, c2)) (found c2))
           | None \<Rightarrow> None))"

definition tryToCompressMessage :: "(byte list \<Rightarrow> byte list) \<Rightarrow> Producer \<Rightarrow> Message \<Rightarrow> bool \<times> Message" where
  "tryToCompressMessage gzip pd msg =
     (if m_Body msg \<noteq> [] \<and> int (length (m_Body msg)) \<ge> pd_CompressMsgBodyOverHowmuch pd
      then (True, msg\<lparr>m_Body := gzip (m_Body msg)\<rparr>) else (False, msg))"

definition RETRY_GROUP_TOPIC_PREFIX :: string where "RETRY_GROUP_TOPIC_PREFIX = ''%RETRY%''"

definition send_header :: "Producer \<Rightarrow> Message \<Rightarrow> MessageQueue \<Rightarrow> bool \<Rightarrow> int \<Rightarrow> SendMessageRequestHeader" where
  "send_header pd msg mq compressed now =
     \<lparr>rh_ProducerGroup = pd_ProducerGroup pd, rh_Topic = m_Topic msg, rh_DefaultTopic = pd_CreateTopicKey pd,
      rh_DefaultTopicQueueNums = to_int32 (pd_DefaultTopicQueueNums pd), rh_QueueId = to_int32 (mq_QueueId mq),
      rh_SysFlag = (if compressed then CompressedFlag else 0), rh_BornTimestamp = now, rh_Flag = to_int32 (m_Flag msg),
      rh_Properties = MessageProperties2String (m_Properties msg), rh_ReconsumeTimes = 0, rh_UnitMode = pd_UnitMode pd\<rparr>"

text \<open>For a message of a retry topic the number of its deliveries moves from the properties to the header.\<close>

definition move_times :: "Message \<Rightarrow> SendMessageRequestHeader \<Rightarrow> Message \<times> SendMessageRequestHeader" where
  "move_times msg rh =
     (if take (length RETRY_GROUP_TOPIC_PREFIX) (rh_Topic rh) = RETRY_GROUP_TOPIC_PREFIX \<and>
         \<not> EqualFold (prop_at (m_Properties msg) ''RECONSUME_TIME'') []
      then (Message_ClearProperty ''RECONSUME_TIME'' msg,
            rh\<lparr>rh_ReconsumeTimes := to_int32 (Atoi_value (prop_at (m_Properties msg) ''RECONSUME_TIME''))\<rparr>)
      else (msg, rh))"

definition DefaultMQProducerImpl_sendKernelImpl ::
    "'w client_env \<Rightarrow> string \<Rightarrow> Message \<Rightarrow> MessageQueue \<Rightarrow> CommunicationMode \<Rightarrow> int \<Rightarrow> 'w client \<Rightarrow>
     ((SendResult option \<times> error option) \<times> Message \<times> 'w client) option" where
  "DefaultMQProducerImpl_sendKernelImpl X g msg mq mode now c =
     (case (if MQClientInstance_FindBrokerAddressInPublish (mq_BrokerName mq) c = []
            then map_option snd (tryToFindTopicPublishInfo X g (mq_Topic mq) c) else Some c) of
        None \<Rightarrow> None
      | Some c1 \<Rightarrow>
          (let brokerAddr = MQClientInstance_FindBrokerAddressInPublish (mq_BrokerName mq) c1; pd = the_producer g c1
           in if brokerAddr = [] then None
              else (case tryToCompressMessage (ce_gzip X) pd msg of
                (compressed, msg1) \<Rightarrow>
                  (case move_times msg1 (send_header pd msg1 mq compressed now) of
                     (msg2, rh) \<Rightarrow>
                       (case MQClientAPIImpl_SendMessage (ce_net X) brokerAddr (mq_BrokerName mq) msg2 rh mode (mc_api c1) of
                          (r, msg3, impl) \<Rightarrow> Some (r, msg3\<lparr>m_Body := m_Body msg\<rparr>, c1\<lparr>mc_api := impl\<rparr>))))))"

text \<open>
  The loop over the queues. It ends after a number of rounds or when the time is over; an error of a round ends
  it at once. The clock is read for the request and after it.
\<close>

definition send_error :: error where
  "send_error = ''sendDefaultImpl error topicPublishInfo is nil or messageQueueList length is zero''"

fun send_loop ::
    "'w client_env \<Rightarrow> string \<Rightarrow> nat \<Rightarrow> CommunicationMode \<Rightarrow> int \<Rightarrow> int \<Rightarrow> nat \<Rightarrow> int \<Rightarrow> string \<Rightarrow> Message \<Rightarrow> clock \<Rightarrow> 'w client \<Rightarrow>
     ((SendResult option \<times> error option) \<times> Message \<times> 'w client) option" where
  "send_loop X g p mode start maxTimeout 0 now lastBrokerName msg t c = Some ((None, Some send_error), msg, c)"
| "send_loop X g p mode start maxTimeout (Suc n) now lastBrokerName msg t c =
     (if \<not> now - start < maxTimeout then Some ((None, Some send_error), msg, c)
      else case TopicPublishInfo_SelectOneMessageQueue lastBrokerName (mc_infos c ! p) of
        None \<Rightarrow> None
      | Some (None, info) \<Rightarrow> Some ((None, Some send_error), msg, c\<lparr>mc_infos := (mc_infos c)[p := info]\<rparr>)
      | Some (Some mq, info) \<Rightarrow>
          (case DefaultMQProducerImpl_sendKernelImpl X g msg mq mode (shd t) (c\<lparr>mc_infos := (mc_infos c)[p := info]\<rparr>) of
             None \<Rightarrow> None
           | Some ((_, Some e), msg1, c1) \<Rightarrow> Some ((None, Some e), msg1, c1)
           | Some ((sendResult, None), msg1, c1) \<Rightarrow>
               (case mode of
                  SYNC \<Rightarrow>
                    if (\<exists>r. sendResult = Some r \<and> sr_SendStatus r \<noteq> SEND_OK) \<and> pd_RetryAnotherBrokerWhenNotStoreOK (the_producer g c1)
                    then send_loop X g p mode start maxTimeout n (shd (stl t)) (mq_BrokerName mq) msg1 (stl (stl t)) c1
                    else Some ((sendResult, None), msg1, c1)
                | _ \<Rightarrow> Some ((None, None), msg1, c1))))"

definition DefaultMQProducerImpl_sendDefaultImpl ::
    "'w client_env \<Rightarrow> string \<Rightarrow> Message \<Rightarrow> CommunicationMode \<Rightarrow> clock \<Rightarrow> 'w client \<Rightarrow>
     ((SendResult option \<times> error option) \<times> Message \<times> 'w client) option" where
  "DefaultMQProducerImpl_sendDefaultImpl X g msg mode t c =
     (let pd = the_producer g c
      in if pd_ServiceState pd \<noteq> RUNNING \<or> \<not> CheckMessage pd msg then None
         else (case tryToFindTopicPublishInfo X g (m_Topic msg) c of
           None \<Rightarrow> None
         | Some (p, c1) \<Rightarrow>
             if MessageQueueList (mc_infos c1 ! p) = [] then Some ((None, Some send_error), msg, c1)
             else send_loop X g p mode (shd t) (pd_SendMsgTimeout pd + 1000) (nat (1 + pd_RetryTimesWhenSendFailed pd)) (shd t) [] msg (stl t) c1))"

section \<open>Pulling messages\<close>

record 'm PullAPIWrapper =
  pullFromWhichNodeTable :: 'm
  pw_consumerGroup :: string

type_synonym 'm node_map = "(MessageQueue, int, 'm) cmap_ops"

definition PullAPIWrapper_recalculatePullFromWhichNode :: "'m node_map \<Rightarrow> MessageQueue \<Rightarrow> 'm PullAPIWrapper \<Rightarrow> int" where
  "PullAPIWrapper_recalculatePullFromWhichNode H mq self = (case mGet H mq (pullFromWhichNodeTable self) of None \<Rightarrow> 0 | Some i \<Rightarrow> i)"

definition PullAPIWrapper_updatePullFromWhichNode :: "'m node_map \<Rightarrow> MessageQueue \<Rightarrow> int \<Rightarrow> 'm PullAPIWrapper \<Rightarrow> 'm PullAPIWrapper" where
  "PullAPIWrapper_updatePullFromWhichNode H mq brokerId self =
     self\<lparr>pullFromWhichNodeTable := mPut H mq brokerId (pullFromWhichNodeTable self)\<rparr>"

definition PullAPIWrapper_PullKernelImpl ::
    "'w client_env \<Rightarrow> 'm node_map \<Rightarrow> 'm PullAPIWrapper \<Rightarrow> MessageQueue \<Rightarrow> PullMessageRequestHeader \<Rightarrow> CommunicationMode \<Rightarrow> 'w client \<Rightarrow>
     (PullResultExt option \<times> 'w client) option" where
  "PullAPIWrapper_PullKernelImpl X H self mq args mode c =
     (let look = MQClientInstance_findBrokerAddressInSubscribe (mq_BrokerName mq) (PullAPIWrapper_recalculatePullFromWhichNode H mq self) False
      in case (if fst (look c) = []
               then MQClientInstance_UpdateTopicRouteInfoFromNameServerByArgs (ce_net X) (ce_route X) (mq_Topic mq) False c else Some c) of
        None \<Rightarrow> None
      | Some c1 \<Rightarrow>
          (case look c1 of
             (brokerAddr, slave) \<Rightarrow>
               if brokerAddr = [] then None
               else (case MQClientAPIImpl_PullMessage (ce_net X) brokerAddr
                       (args\<lparr>ph_ConsumerGroup := pw_consumerGroup self, ph_Topic := mq_Topic mq, ph_QueueId := to_int32 (mq_QueueId mq),
                          ph_SysFlag := (if slave then ClearCommitOffsetFlag (ph_SysFlag args) else ph_SysFlag args)\<rparr>) mode (mc_api c1) of
                       (r, impl) \<Rightarrow> Some (r, c1\<lparr>mc_api := impl\<rparr>))))"

text \<open>The messages of a pull: decoded, filtered by their tags when the subscription has some, and with the offsets of the queue as properties.\<close>

definition filter_again :: "'s sub_set \<Rightarrow> 's SubscriptionData \<Rightarrow> MessageExt list \<Rightarrow> MessageExt list" where
  "filter_again S sd msgList =
     (if sIter S (SubscriptionData.TagsSet sd) \<noteq> [] \<and> \<not> SubscriptionData.ClassFilterMode sd
      then filter (\<lambda>msg. \<not> EqualFold (Message_GetTags msg) [] \<and> sContains S (Tag (Message_GetTags msg)) (SubscriptionData.TagsSet sd)) msgList
      else msgList)"

definition finish_message :: "string \<Rightarrow> PullResultExt \<Rightarrow> MessageExt \<Rightarrow> MessageExt" where
  "finish_message projectGroupPrefix r msg =
     Message_PutProperty ''MAX_OFFSET'' (FormatInt (pr_MaxOffset r)) (Message_PutProperty ''MIN_OFFSET'' (FormatInt (pr_MinOffset r))
       (if \<not> EqualFold projectGroupPrefix [] then msg\<lparr>m_Topic := ClearProjectGroup (m_Topic msg) projectGroupPrefix\<rparr> else msg))"

text \<open>
  The panic of a decoder: \<open>unzip\<close> defers the \<open>Close\<close> of a reader that is \<open>nil\<close> when \<open>zlib.NewReader\<close> refuses the bytes (\<open>refuses\<close>). The body
  follows the first 88 bytes of a record, the flags are at 36.
\<close>

definition body_refused :: "(byte list \<Rightarrow> bool) \<Rightarrow> byte list \<Rightarrow> bool" where
  "body_refused refuses buf \<longleftrightarrow> 88 \<le> length buf \<and>
     (let sysFlag = BytesToInt32 (take 4 (drop 36 buf)); bodyLength = BytesToInt32 (take 4 (drop 84 buf))
      in 0 < bodyLength \<and> 88 + nat bodyLength \<le> length buf \<and> sysFlag AND CompressedFlag = CompressedFlag \<and>
         refuses (take (nat bodyLength) (drop 88 buf)))"

fun decode_panics :: "(byte list \<Rightarrow> bool) \<Rightarrow> (byte list \<Rightarrow> byte list option) \<Rightarrow> nat \<Rightarrow> byte list \<Rightarrow> bool" where
  "decode_panics refuses unzip n [] \<longleftrightarrow> False"
| "decode_panics refuses unzip 0 buf \<longleftrightarrow> False"
| "decode_panics refuses unzip (Suc n) buf \<longleftrightarrow>
     body_refused refuses buf \<or>
     (case decodeMessageExt unzip buf True True of None \<Rightarrow> False | Some (msgExt, rest) \<Rightarrow> decode_panics refuses unzip n rest)"

record zlib =
  zl_refuses :: "byte list \<Rightarrow> bool"
  zl_unzip :: "byte list \<Rightarrow> byte list option"

text \<open>With a project group the names of the queue and of the subscription are cleared, too: both are changed in place.\<close>

definition PullAPIWrapper_processPullResult ::
    "zlib \<Rightarrow> 's sub_set \<Rightarrow> 'm node_map \<Rightarrow> string \<Rightarrow> MessageQueue \<Rightarrow> PullResultExt \<Rightarrow> 's SubscriptionData \<Rightarrow>
     'm PullAPIWrapper \<Rightarrow> (PullResultExt \<times> MessageQueue \<times> 's SubscriptionData \<times> 'm PullAPIWrapper) option" where
  "PullAPIWrapper_processPullResult Z S H projectGroupPrefix mq r sd self =
     (let self1 = PullAPIWrapper_updatePullFromWhichNode H mq (pr_suggestWhichBrokerId r) self; buf = pr_messageBinary r
      in if pr_PullStatus r = PULL_FOUND
         then (if decode_panics (zl_refuses Z) (zl_unzip Z) (length buf) buf then None
               else let msgList = (case DecodesMessageExt (zl_unzip Z) buf True of None \<Rightarrow> [] | Some msgs \<Rightarrow> msgs);
                        grouped = \<not> EqualFold projectGroupPrefix []
                    in Some (r\<lparr>pr_MsgFoundList := map (finish_message projectGroupPrefix r) (filter_again S sd msgList)\<rparr>,
                             if grouped then mq\<lparr>mq_Topic := ClearProjectGroup (mq_Topic mq) projectGroupPrefix\<rparr> else mq,
                             if grouped then sd\<lparr>SubscriptionData.sd_Topic := ClearProjectGroup (SubscriptionData.sd_Topic sd) projectGroupPrefix\<rparr> else sd, self1))
         else Some (r, mq, sd, self1))"

section \<open>What a client learns of a route\<close>

lemma map_update_same:
  assumes "f y = f (xs ! p)"
  shows "map f (xs[p := y]) = map f xs"
proof (cases "p < length xs")
  case True
  then have "f y = map f xs ! p" using assms by simp
  then show ?thesis by (simp only: map_update list_update_id)
qed (simp add: list_update_beyond)

lemma update_producers_table:
  assumes "update_producers topic p ps infos = (ps1, infos1)" and "\<not> EqualFold topic []"
  shows "map fst ps1 = map fst ps" and "map_of ps g = Some pd \<Longrightarrow> \<exists>pd1. map_of ps1 g = Some pd1 \<and> map_of (TopicPublishInfoTable pd1) topic = Some p"
    and "length infos1 = length infos" and "map MessageQueueList infos1 = map MessageQueueList infos"
    and "map HaveTopicRouterInfo infos1 = map HaveTopicRouterInfo infos"
proof -
  have all: "map fst ps1 = map fst ps \<and> (map_of ps g = Some pd \<longrightarrow> (\<exists>pd1. map_of ps1 g = Some pd1 \<and> map_of (TopicPublishInfoTable pd1) topic = Some p)) \<and>
      length infos1 = length infos \<and> map MessageQueueList infos1 = map MessageQueueList infos \<and>
      map HaveTopicRouterInfo infos1 = map HaveTopicRouterInfo infos"
    using assms(1)
  proof (induction ps arbitrary: infos ps1 infos1)
    case (Cons gp ps)
    obtain g0 pd0 where gp: "gp = (g0, pd0)" by (rule prod.exhaust)
    obtain pd1 infos0 where u: "UpdateTopicPublishInfo topic p pd0 infos = (pd1, infos0)" by (rule prod.exhaust)
    obtain ps0 where r: "update_producers topic p ps infos0 = (ps0, infos1)" "ps1 = (g0, pd1) # ps0"
      using Cons.prems by (cases "update_producers topic p ps infos0") (auto simp: gp u)
    have "map_of (TopicPublishInfoTable pd1) topic = Some p" "length infos0 = length infos" "map MessageQueueList infos0 = map MessageQueueList infos"
        "map HaveTopicRouterInfo infos0 = map HaveTopicRouterInfo infos"
      using u assms(2) by (auto simp: UpdateTopicPublishInfo_def update_conv' map_update_same split: option.splits if_splits)
    with Cons.IH [OF r(1)] r(2) show ?case by (auto simp: gp)
  qed simp
  from all show "map fst ps1 = map fst ps" "length infos1 = length infos" "map MessageQueueList infos1 = map MessageQueueList infos"
    "map HaveTopicRouterInfo infos1 = map HaveTopicRouterInfo infos" by simp_all
  from all show "\<exists>pd1. map_of ps1 g = Some pd1 \<and> map_of (TopicPublishInfoTable pd1) topic = Some p" if "map_of ps g = Some pd"
    using that by simp
qed

lemma addrs_learned:
  assumes "distinct (map bd_BrokerName bds)" and "bd \<in> set bds"
  shows "map_of (fold (\<lambda>bd. AList.update (bd_BrokerName bd) (bd_BrokerAddrs bd)) bds table) (bd_BrokerName bd) = Some (bd_BrokerAddrs bd)"
  using assms
proof (induction bds arbitrary: table)
  case (Cons b bds)
  have keep: "map_of (fold (\<lambda>bd. AList.update (bd_BrokerName bd) (bd_BrokerAddrs bd)) bds t) k = map_of t k"
    if "k \<notin> bd_BrokerName ` set bds" for k t
    using that by (induction bds arbitrary: t) (simp_all add: update_conv')
  from Cons keep [of "bd_BrokerName bd"] show ?case by (auto simp: update_conv')
qed simp

lemma find_broker:
  assumes "distinct (map (fold_case \<circ> bd_BrokerName) bds)" and "bd \<in> set bds" and "EqualFold (bd_BrokerName bd) n"
  shows "find (\<lambda>bd. EqualFold (bd_BrokerName bd) n) bds = Some bd"
  using assms by (induction bds) (auto simp: EqualFold_def, metis image_eqI comp_apply)

lemma writeable_queue_member:
  assumes "distinct (map (fold_case \<circ> bd_BrokerName) (BrokerDatas route))" and "bd \<in> set (BrokerDatas route)"
    and "EqualFold (bd_BrokerName bd) (qd_BrokerName qd)" and "IsWriteable (qd_Perm qd)" and "map_of (bd_BrokerAddrs bd) 0 \<noteq> None"
    and "0 \<le> i" and "i < qd_WriteQueueNums qd"
  shows "\<lparr>mq_Topic = topic, mq_BrokerName = bd_BrokerName bd, mq_QueueId = i\<rparr> \<in> set (writeable_queues topic route qd)"
  unfolding writeable_queues_def find_broker [OF assms(1-3)] option.case if_P [OF assms(4)] if_not_P [OF assms(5)]
  using assms(6,7) by simp

lemma writeable_queue:
  assumes "mq \<in> set (writeable_queues topic route qd)"
  obtains bd where "IsWriteable (qd_Perm qd)" and "mq_Topic mq = topic" and "0 \<le> mq_QueueId mq" and "mq_QueueId mq < qd_WriteQueueNums qd"
    and "bd \<in> set (BrokerDatas route)" and "bd_BrokerName bd = mq_BrokerName mq" and "map_of (bd_BrokerAddrs bd) 0 \<noteq> None"
    and "EqualFold (mq_BrokerName mq) (qd_BrokerName qd)"
proof -
  let ?find = "find (\<lambda>bd. EqualFold (bd_BrokerName bd) (qd_BrokerName qd)) (BrokerDatas route)"
  have w: "IsWriteable (qd_Perm qd)" using assms by (rule contrapos_pp) (simp add: writeable_queues_def)
  show thesis
  proof (cases ?find)
    case None
    have "writeable_queues topic route qd = []" unfolding writeable_queues_def None by simp
    with assms show thesis by simp
  next
    case (Some bd)
    have b: "bd \<in> set (BrokerDatas route)" "EqualFold (bd_BrokerName bd) (qd_BrokerName qd)"
      using iffD1 [OF find_Some_iff Some] by (metis nth_mem)+
    have eq: "writeable_queues topic route qd = (if map_of (bd_BrokerAddrs bd) 0 = None then [] else
        map (\<lambda>i. \<lparr>mq_Topic = topic, mq_BrokerName = bd_BrokerName bd, mq_QueueId = i\<rparr>) [0..qd_WriteQueueNums qd - 1])"
      unfolding writeable_queues_def Some option.case if_P [OF w] ..
    have m: "map_of (bd_BrokerAddrs bd) 0 \<noteq> None"
    proof
      assume none: "map_of (bd_BrokerAddrs bd) 0 = None"
      from assms show False unfolding eq if_P [OF none] by simp
    qed
    have "\<exists>i. mq = \<lparr>mq_Topic = topic, mq_BrokerName = bd_BrokerName bd, mq_QueueId = i\<rparr> \<and> i \<in> set [0..qd_WriteQueueNums qd - 1]"
      using assms unfolding eq if_not_P [OF m] set_map by blast
    then obtain i where "mq = \<lparr>mq_Topic = topic, mq_BrokerName = bd_BrokerName bd, mq_QueueId = i\<rparr>" "i \<in> set [0..qd_WriteQueueNums qd - 1]"
      by blast
    then have "mq_Topic mq = topic" "mq_BrokerName mq = bd_BrokerName bd" "0 \<le> mq_QueueId mq" "mq_QueueId mq < qd_WriteQueueNums qd"
      "EqualFold (mq_BrokerName mq) (qd_BrokerName qd)" "bd_BrokerName bd = mq_BrokerName mq"
      by (simp_all add: b)
    show thesis
      by (rule that) fact+
  qed
qed

text \<open>
  C23 (invariant): a client that learns a route knows where to send. Every producer of the client gets exactly the queues of the topic that may be
  written on a broker of the route with a master, and for each the client then knows the address of the master. The names of the brokers differ
  by more than case, and no address is empty.
\<close>

theorem learned_queues_have_masters:
  assumes "learn_route topic route c = Some c1" and "OrderTopicConf route = []" and "\<not> EqualFold topic []"
    and "distinct (map (fold_case \<circ> bd_BrokerName) (BrokerDatas route))" and "\<forall>bd \<in> set (BrokerDatas route). [] \<notin> snd ` set (bd_BrokerAddrs bd)"
    and "map_of (ProducerTable c) g = Some pd"
  shows "\<exists>pd1 p. map_of (ProducerTable c1) g = Some pd1 \<and> map_of (TopicPublishInfoTable pd1) topic = Some p \<and> p < length (mc_infos c1) \<and>
     HaveTopicRouterInfo (mc_infos c1 ! p) \<and>
     (\<forall>mq \<in> set (MessageQueueList (mc_infos c1 ! p)). mq_Topic mq = topic \<and>
        (\<exists>bd \<in> set (BrokerDatas route). bd_BrokerName bd = mq_BrokerName mq \<and>
           map_of (bd_BrokerAddrs bd) 0 = Some (MQClientInstance_FindBrokerAddressInPublish (mq_BrokerName mq) c1)) \<and>
        MQClientInstance_FindBrokerAddressInPublish (mq_BrokerName mq) c1 \<noteq> [] \<and>
        (\<exists>qd \<in> set (QueueDatas route). IsWriteable (qd_Perm qd) \<and> EqualFold (mq_BrokerName mq) (qd_BrokerName qd) \<and>
           0 \<le> mq_QueueId mq \<and> mq_QueueId mq < qd_WriteQueueNums qd)) \<and>
     (\<forall>qd \<in> set (QueueDatas route). \<forall>bd \<in> set (BrokerDatas route). \<forall>i.
        IsWriteable (qd_Perm qd) \<longrightarrow> EqualFold (bd_BrokerName bd) (qd_BrokerName qd) \<longrightarrow> map_of (bd_BrokerAddrs bd) 0 \<noteq> None \<longrightarrow>
        0 \<le> i \<longrightarrow> i < qd_WriteQueueNums qd \<longrightarrow>
        \<lparr>mq_Topic = topic, mq_BrokerName = bd_BrokerName bd, mq_QueueId = i\<rparr> \<in> set (MessageQueueList (mc_infos c1 ! p)))"
proof -
  let ?clone = "TopicRouteData_CloneTopicRouteData route" and ?p = "length (mc_infos c)"
  let ?mqs = "concat (map (writeable_queues topic route) (sort_key qd_BrokerName (QueueDatas route)))"
  let ?info = "NewTopicPublishInfo\<lparr>MessageQueueList := ?mqs, OrderTopic := False, HaveTopicRouterInfo := True\<rparr>"
  obtain ps infos where u: "update_producers topic ?p (ProducerTable c) (mc_infos c @ [?info]) = (ps, infos)" by fastforce
  have c1: "ProducerTable c1 = ps" "mc_infos c1 = infos"
      "BrokerAddrTable c1 = fold (\<lambda>bd. AList.update (bd_BrokerName bd) (bd_BrokerAddrs bd)) (BrokerDatas ?clone) (BrokerAddrTable c)"
    using assms(1,2) u by (auto simp: learn_route_def MQClientInstance_topicRouteData2TopicPublishInfo_def EqualFold_def Let_def)
  note t = update_producers_table [OF u assms(3)]
  obtain pd1 where pd1: "map_of ps g = Some pd1" "map_of (TopicPublishInfoTable pd1) topic = Some ?p" using t(2) [OF assms(6)] by blast
  have p: "?p < length infos" using t(3) by simp
  have "map MessageQueueList infos ! ?p = ?mqs" "map HaveTopicRouterInfo infos ! ?p" unfolding t(4,5) by (simp_all add: nth_append)
  then have info: "MessageQueueList (infos ! ?p) = ?mqs" "HaveTopicRouterInfo (infos ! ?p)" using p by simp_all
  have cl: "map bd_BrokerName (BrokerDatas ?clone) = map bd_BrokerName (BrokerDatas route)" "BrokerDatas ?clone = BrokerDatas route"
    by (simp_all add: TopicRouteData_CloneTopicRouteData_def comp_def map_idI)
  have names: "distinct (map bd_BrokerName (BrokerDatas route))" using assms(4) by (auto simp: distinct_map inj_on_def)
  let ?master = "\<lambda>mq. (\<exists>bd \<in> set (BrokerDatas route). bd_BrokerName bd = mq_BrokerName mq \<and>
      map_of (bd_BrokerAddrs bd) 0 = Some (MQClientInstance_FindBrokerAddressInPublish (mq_BrokerName mq) c1)) \<and>
    MQClientInstance_FindBrokerAddressInPublish (mq_BrokerName mq) c1 \<noteq> []"
  have "?master mq"
    if mq: "mq \<in> set (writeable_queues topic route qd)" for mq qd
  proof -
    obtain bd where bd: "bd \<in> set (BrokerDatas route)" "bd_BrokerName bd = mq_BrokerName mq" "map_of (bd_BrokerAddrs bd) 0 \<noteq> None"
      using writeable_queue [OF mq] by metis
    have "map_of (BrokerAddrTable c1) (mq_BrokerName mq) = Some (bd_BrokerAddrs bd)"
      using addrs_learned [OF names bd(1)] by (simp add: c1(3) cl(2) flip: bd(2))
    moreover obtain a where a: "map_of (bd_BrokerAddrs bd) 0 = Some a" using bd(3) by blast
    moreover have "a \<noteq> []" using map_of_SomeD [OF a] assms(5) bd(1) by force
    ultimately have "MQClientInstance_FindBrokerAddressInPublish (mq_BrokerName mq) c1 = a" "a \<noteq> []"
      by (simp_all add: MQClientInstance_FindBrokerAddressInPublish_def)
    with bd a show ?thesis by auto
  qed
  moreover have "\<exists>qd \<in> set (QueueDatas route). IsWriteable (qd_Perm qd) \<and> EqualFold (mq_BrokerName mq) (qd_BrokerName qd) \<and>
      0 \<le> mq_QueueId mq \<and> mq_QueueId mq < qd_WriteQueueNums qd \<and> mq \<in> set (writeable_queues topic route qd)"
    if "mq \<in> set ?mqs" for mq
    using that by (auto elim: writeable_queue)
  moreover have "mq_Topic mq = topic" if "mq \<in> set ?mqs" for mq
    using that by (auto elim: writeable_queue)
  ultimately have each: "\<forall>mq \<in> set ?mqs. mq_Topic mq = topic \<and> ?master mq \<and>
      (\<exists>qd \<in> set (QueueDatas route). IsWriteable (qd_Perm qd) \<and> EqualFold (mq_BrokerName mq) (qd_BrokerName qd) \<and>
         0 \<le> mq_QueueId mq \<and> mq_QueueId mq < qd_WriteQueueNums qd)"
    by blast
  have "\<lparr>mq_Topic = topic, mq_BrokerName = bd_BrokerName bd, mq_QueueId = i\<rparr> \<in> set ?mqs"
    if "qd \<in> set (QueueDatas route)" "bd \<in> set (BrokerDatas route)" "IsWriteable (qd_Perm qd)" "EqualFold (bd_BrokerName bd) (qd_BrokerName qd)"
      "map_of (bd_BrokerAddrs bd) 0 \<noteq> None" "0 \<le> i" "i < qd_WriteQueueNums qd" for qd bd i
    using writeable_queue_member [OF assms(4) that(2,4,3,5-7)] that(1) by auto
  with each pd1 p info show ?thesis
    unfolding c1(1,2) by (intro exI [of _ pd1] exI [of _ ?p] conjI) (simp_all only: conj_assoc, blast)
qed

definition example_route :: TopicRouteData where
  "example_route = \<lparr>OrderTopicConf = [], QueueDatas =
     [\<lparr>qd_BrokerName = ''b'', qd_ReadQueueNums = 2, qd_WriteQueueNums = 2, qd_Perm = 6, qd_TopicSynFlag = 0\<rparr>],
     BrokerDatas = [\<lparr>bd_BrokerName = ''b'', bd_BrokerAddrs = [(0, ''h:1'')]\<rparr>], trd_FilterServerTable = []\<rparr>"

definition example_learner :: "unit client" where
  "example_learner = \<lparr>ProducerTable = [(''p'', NewProducer ''p'')], ConsumerTable = [], TopicRouteTable = [], BrokerAddrTable = [], mc_infos = [],
     mc_DefaultTopicQueueNums = 4, mc_api = \<lparr>ProjectGroupPrefix = [], requestId = 0, api_world = ()\<rparr>\<rparr>"

theorem learned_queues_have_masters_witness:
  "\<exists>c1 pd1 p. learn_route ''t'' example_route example_learner = Some c1 \<and> map_of (ProducerTable c1) ''p'' = Some pd1 \<and>
     map_of (TopicPublishInfoTable pd1) ''t'' = Some p \<and> HaveTopicRouterInfo (mc_infos c1 ! p) \<and>
     \<lparr>mq_Topic = ''t'', mq_BrokerName = ''b'', mq_QueueId = 1\<rparr> \<in> set (MessageQueueList (mc_infos c1 ! p)) \<and>
     MQClientInstance_FindBrokerAddressInPublish ''b'' c1 \<noteq> []"
proof -
  have "learn_route ''t'' example_route example_learner \<noteq> None"
    by (simp add: learn_route_def MQClientInstance_topicRouteData2TopicPublishInfo_def example_route_def EqualFold_def Let_def split: prod.splits)
  then obtain c1 where c1: "learn_route ''t'' example_route example_learner = Some c1" by blast
  have w: "IsWriteable 6" by code_simp
  have h: "OrderTopicConf example_route = []" "\<not> EqualFold ''t'' []" "distinct (map (fold_case \<circ> bd_BrokerName) (BrokerDatas example_route))"
      "\<forall>bd \<in> set (BrokerDatas example_route). [] \<notin> snd ` set (bd_BrokerAddrs bd)"
      "map_of (ProducerTable example_learner) ''p'' = Some (NewProducer ''p'')"
    by (simp_all add: example_route_def example_learner_def EqualFold_def fold_case_def)
  obtain pd1 p where l: "map_of (ProducerTable c1) ''p'' = Some pd1" "map_of (TopicPublishInfoTable pd1) ''t'' = Some p"
      "HaveTopicRouterInfo (mc_infos c1 ! p)"
      "\<forall>mq \<in> set (MessageQueueList (mc_infos c1 ! p)). MQClientInstance_FindBrokerAddressInPublish (mq_BrokerName mq) c1 \<noteq> []"
      "\<lparr>mq_Topic = ''t'', mq_BrokerName = ''b'', mq_QueueId = 1\<rparr> \<in> set (MessageQueueList (mc_infos c1 ! p))"
    using learned_queues_have_masters [OF c1 h] w by (fastforce simp: example_route_def EqualFold_def)
  from c1 l show ?thesis by fastforce
qed

end
