(* ===== verification/EndToEnd.thy ===== *)
theory EndToEnd
  imports ProducerM
begin

text \<open>
  A client and a broker together. The network of \<^theory_text>\<open>ProducerM\<close> is the broker of \<^theory_text>\<open>DeliveryM\<close>: a request arrives as it is after the wire
  (\<open>on_the_wire\<close>, from \<^theory_text>\<open>CommandM\<close>), the processors of the broker handle it, and what they write or return comes back over the wire.
\<close>

section \<open>Headers over the wire\<close>

lemma fold_update_new:
  assumes "distinct (map fst (acc @ xs))"
  shows "fold (\<lambda>(k, v). AList.update k v) xs acc = acc @ xs"
  using assms
proof (induction xs arbitrary: acc)
  case (Cons kv xs)
  obtain k v where kv: "kv = (k, v)" by (cases kv)
  have "AList.update k v acc = acc @ [(k, v)]" if "k \<notin> fst ` set acc" for acc :: "('a \<times> 'b) list"
    using that by (induction acc) auto
  with Cons show ?case by (simp add: kv)
qed simp

lemma encode_distinct: "distinct (map fst (encodeCommandCustomHeader h))"
proof -
  have "distinct (map fst acc) \<Longrightarrow> distinct (map fst (fold (\<lambda>(name, f) extFields. case encode_field f of
      Some v \<Rightarrow> AList.update name v extFields | None \<Rightarrow> extFields) xs acc))" for xs acc
    by (induction xs arbitrary: acc) (auto simp: distinct_update split: option.splits)
  from this [of "[]" h] show ?thesis by (simp add: encodeCommandCustomHeader_def)
qed

text \<open>What a header is like that comes back as it was, decoded into the structure \<open>h0\<close>.\<close>

definition header_fits :: "custom_header \<Rightarrow> custom_header \<Rightarrow> bool" where
  "header_fits h0 h \<longleftrightarrow> distinct (map fst h) \<and> list_all (\<lambda>(k, f). is_exported k \<and> fits f) h \<and>
     list_all2 (\<lambda>(k0, f0) (k, f). k0 = k \<and> same_kind f0 f) h0 h"

lemma header_fits_kinds:
  assumes "header_fits h0 h"
  shows "map fst h0 = map fst h" and "map_of h0 k = Some f0 \<Longrightarrow> map_of h k = Some f \<Longrightarrow> same_kind f0 f"
proof -
  have l: "list_all2 (\<lambda>(k0, f0) (k, f). k0 = k \<and> same_kind f0 f) h0 h" using assms by (simp add: header_fits_def)
  then show "map fst h0 = map fst h" by (induction rule: list_all2_induct) auto
  from l show "map_of h0 k = Some f0 \<Longrightarrow> map_of h k = Some f \<Longrightarrow> same_kind f0 f"
    by (induction rule: list_all2_induct) (auto split: if_splits)
qed

lemma sent_fields [simp]:
  "rc_Code (on_the_wire rc) = rc_Code rc" "rc_Opaque (on_the_wire rc) = rc_Opaque rc" "rc_Flag (on_the_wire rc) = rc_Flag rc"
  "body_bytes (on_the_wire rc) = body_bytes rc" "rc_Remark (on_the_wire rc) = rc_Remark rc"
  by (auto simp: on_the_wire_def makeCustomHeaderToNet_def with_json_def json_part_def body_bytes_def Let_def split: option.splits)

lemma wire_header:
  assumes "rc_CustomHeader rc = Some h" and "rc_ExtFields rc = Some []" and "header_fits h0 h"
  shows "decoded (on_the_wire rc) h0 = h"
proof -
  let ?e = "encodeCommandCustomHeader h"
  have "fold (\<lambda>(k, v). AList.update k v) ?e [] = ?e" using fold_update_new [of "[]" ?e] encode_distinct by simp
  then have x: "rc_ExtFields (on_the_wire rc) = Some ?e"
    by (simp add: on_the_wire_def makeCustomHeaderToNet_def assms(1,2) with_json_def json_part_def Let_def)
  have "\<forall>(k, f) \<in> set h. is_exported k \<and> fits f" "distinct (map fst h)" using assms(3) by (simp_all add: header_fits_def list_all_iff)
  then have "decodeCommandCustomHeader ?e h0 = (h, None)"
    using header_fits_kinds [OF assms(3)] encode_distinct by (intro header_roundtrip) auto
  then show ?thesis by (simp add: decoded_def DecodeCommandCustomHeader_def x)
qed

lemma IsOneway_wire [simp]: "IsOnewayRPC (on_the_wire rc) = IsOnewayRPC rc"
  by (simp add: IsOnewayRPC_def)

lemma is_exported_names [simp]:
  "is_exported ''A''" "is_exported ''B''" "is_exported ''C''" "is_exported ''D''" "is_exported ''E''" "is_exported ''F''" "is_exported ''G''"
  "is_exported ''H''" "is_exported ''I''" "is_exported ''J''" "is_exported ''K''" "is_exported ''MsgId''" "is_exported ''QueueId''"
  "is_exported ''QueueOffset''" "is_exported ''TransactionId''" "is_exported ''ConsumerGroup''" "is_exported ''Topic''"
  "is_exported ''MaxMsgNums''" "is_exported ''SysFlag''" "is_exported ''CommitOffset''" "is_exported ''SuspendTimeoutMillis''"
  "is_exported ''Subscription''" "is_exported ''SubVersion''" "is_exported ''SuggestWhichBrokerId''" "is_exported ''NextBeginOffset''"
  "is_exported ''MinOffset''" "is_exported ''MaxOffset''"
  by (simp_all add: is_exported_def)

text \<open>The numbers of the headers, in the width of their fields.\<close>

definition send_header_ok :: "SendMessageRequestHeader \<Rightarrow> bool" where
  "send_header_ok h \<longleftrightarrow> in_int 32 (rh_DefaultTopicQueueNums h) \<and> in_int 32 (rh_QueueId h) \<and> in_int 32 (rh_SysFlag h) \<and>
     in_int 64 (rh_BornTimestamp h) \<and> in_int 32 (rh_Flag h) \<and> in_int 32 (rh_ReconsumeTimes h)"

definition pull_header_ok :: "PullMessageRequestHeader \<Rightarrow> bool" where
  "pull_header_ok h \<longleftrightarrow> in_int 32 (ph_QueueId h) \<and> in_int 64 (ph_QueueOffset h) \<and> in_int 64 (ph_MaxMsgNums h) \<and> in_int 64 (ph_SysFlag h) \<and>
     in_int 64 (ph_CommitOffset h) \<and> in_int 64 (ph_SuspendTimeoutMillis h) \<and> in_int 64 (ph_SubVersion h)"

lemma wire_send_request:
  assumes "rc_CustomHeader rc = Some (CreateSendMessageRequestHeaderV2 rh)" and "rc_ExtFields rc = Some []" and "rc_Code rc = SEND_MESSAGE_V2"
    and "send_header_ok rh"
  shows "parseRequestHeader (on_the_wire rc) = Some rh"
proof -
  have "header_fits zero_header_v2 (CreateSendMessageRequestHeaderV2 rh)"
    using assms(4) by (simp add: header_fits_def zero_header_v2_def CreateSendMessageRequestHeaderV2_def send_header_ok_def)
  from wire_header [OF assms(1,2) this] have d: "decoded (on_the_wire rc) zero_header_v2 = CreateSendMessageRequestHeaderV2 rh" .
  have "CreateSendMessageRequestHeaderV1 (CreateSendMessageRequestHeaderV2 rh) = rh"
    by (simp add: CreateSendMessageRequestHeaderV1_def CreateSendMessageRequestHeaderV2_def string_field_def int_field_def bool_field_def)
  then show ?thesis by (simp add: parseRequestHeader_def assms(3) d)
qed

lemma wire_pull_request:
  assumes "rc_CustomHeader rc = Some (pull_request_header h)" and "rc_ExtFields rc = Some []" and "pull_header_ok h"
  shows "pull_header (decoded (on_the_wire rc) zero_pull_header) = h"
proof -
  have "header_fits zero_pull_header (pull_request_header h)"
    using assms(3) by (simp add: header_fits_def zero_pull_header_def pull_request_header_def pull_header_ok_def)
  from wire_header [OF assms(1,2) this] have d: "decoded (on_the_wire rc) zero_pull_header = pull_request_header h" .
  show ?thesis unfolding d by (simp add: pull_header_def pull_request_header_def string_field_def int_field_def)
qed

lemma wire_send_response:
  assumes "rc_CustomHeader rc = Some (send_response_header msgId q off)" and "rc_ExtFields rc = Some []" and "in_int 32 q" and "in_int 64 off"
  shows "decoded (on_the_wire rc) (send_response_header [] 0 0) = send_response_header msgId q off"
  using assms(3,4) by (intro wire_header [OF assms(1,2)]) (simp add: header_fits_def send_response_header_def)

lemma wire_pull_response:
  assumes "rc_CustomHeader rc = Some (pull_response_header a b c d)" and "rc_ExtFields rc = Some []"
    and "in_int 64 a" "in_int 64 b" "in_int 64 c" "in_int 64 d"
  shows "decoded (on_the_wire rc) (pull_response_header 0 0 0 0) = pull_response_header a b c d"
  using assms(3-6) by (intro wire_header [OF assms(1,2)]) (simp add: header_fits_def pull_response_header_def)

section \<open>The broker as a network\<close>

text \<open>
  What comes back for a request: the response a processor returns, or the one it has written last; nothing is a time out. Requests without an
  answer only change the broker, and the answer to an asynchronous one comes later.
\<close>

record ('st, 'ct, 'gt, 'ss, 'm) broker_env =
  be_pull :: "('st, 'ct, 'gt, 'ss, 'm) pull_packages"
  be_json :: json
  be_unzip :: "byte list \<Rightarrow> byte list option"
  be_disk :: string
  be_times :: send_times
  be_pull_times :: pull_times
  be_client :: string

abbreviation be_hold :: "('st, 'ct, 'gt, 'ss, 'm) broker_env \<Rightarrow> (string \<times> RemotingCommand, 'm) hold_map" where
  "be_hold B \<equiv> pk_hold (be_pull B)"

definition broker_handles ::
    "('st, 'ct, 'gt, 'ss, 'm) broker_env \<Rightarrow> RemotingCommand \<Rightarrow> ('gt, 's, 'm) server \<Rightarrow> (RemotingCommand option \<times> ('gt, 's, 'm) server) option" where
  "broker_handles B request s =
     (if rc_Code request = 11 then PullMessageProcessor_processRequest (be_pull B) (be_pull_times B) True (be_client B) request s
      else SendMessageProcessor_ProcessRequest (be_unzip B) (be_hold B) (be_json B) (be_times B) (be_disk B) (be_client B) request s)"

definition ask_broker ::
    "('st, 'ct, 'gt, 'ss, 'm) broker_env \<Rightarrow> RemotingCommand \<Rightarrow> ('gt, 's, 'm) server \<Rightarrow>
     (RemotingCommand option \<times> error option) \<times> ('gt, 's, 'm) server" where
  "ask_broker B request s =
     (case broker_handles B (on_the_wire request) s of
        None \<Rightarrow> ((None, Some ''timeout''), s)
      | Some (Some r, s1) \<Rightarrow> ((Some (on_the_wire r), None), s1)
      | Some (None, s1) \<Rightarrow>
          (if length (sv_written s) < length (sv_written s1) then (Some (on_the_wire (snd (last (sv_written s1)))), None)
           else (None, Some ''timeout''), s1))"

definition broker_net :: "('st, 'ct, 'gt, 'ss, 'm) broker_env \<Rightarrow> (('gt, 's, 'm) server) net" where
  "broker_net B = \<lparr>nt_sync = (\<lambda>addr. ask_broker B),
     nt_oneway = (\<lambda>addr request s. snd (ask_broker B request s)), nt_async = (\<lambda>addr request s. snd (ask_broker B request s)), nt_env = []\<rparr>"

lemma created_request:
  assumes "api_request N code h impl = (request, impl1)"
  shows "rc_CustomHeader request = Some h" and "rc_ExtFields request = Some []" and "rc_Code request = code" and "\<not> IsOnewayRPC request"
    and "api_world impl1 = api_world impl" and "ProjectGroupPrefix impl1 = ProjectGroupPrefix impl"
  using assms
  by (auto simp: api_request_def CreateRequestCommand_def inrcOpaque_def setCMDVersion_def empty_command_def Let_def IsOnewayRPC_def rpcOneway_def
      split: option.splits sum.splits if_splits)

section \<open>Sending through the client\<close>

text \<open>What the broker needs of a message does not depend on the rest of the request.\<close>

lemma inner_message_body: "body_bytes r = body_bytes r1 \<Longrightarrow> inner_message cfg ctx r rh tc = inner_message cfg ctx r1 rh tc"
  by (simp add: inner_message_def)

definition body_command :: "byte list \<Rightarrow> RemotingCommand" where
  "body_command b = empty_command\<lparr>rc_Body := Some b\<rparr>"

lemma body_command_bytes [simp]: "body_bytes (body_command b) = b"
  by (simp add: body_command_def body_bytes_def)

lemma inner_of_body: "body_bytes request = b \<Longrightarrow> inner_message cfg ctx request rh tc = inner_message cfg ctx (body_command b) rh tc"
  using inner_message_body [of request "body_command b"] by simp

text \<open>The status a client sees for the outcome of the flush.\<close>

definition client_status :: "PutMessageStatus \<Rightarrow> SendStatus" where
  "client_status st = (case st of FLUSH_DISK_TIMEOUT \<Rightarrow> SEND_FLUSH_DISK_TIMEOUT | FLUSH_SLAVE_TIMEOUT \<Rightarrow> SEND_FLUSH_SLAVE_TIMEOUT
     | SLAVE_NOT_AVAILABLE \<Rightarrow> SEND_SLAVE_NOT_AVAILABLE | _ \<Rightarrow> SEND_OK)"

lemma response_processed:
  assumes "rc_CustomHeader r = Some (send_response_header msgId q off)" and "rc_ExtFields r = Some []" and "in_int 32 q" and "in_int 64 off"
    and "rc_Code r = status_code (put_status flushOk m cl)" and "ProjectGroupPrefix impl = []"
  shows "MQClientAPIImpl_processSendResponse brokerName msg (Some (on_the_wire r)) impl =
     (Some \<lparr>sr_SendStatus = client_status (put_status flushOk m cl), sr_MsgId = msgId,
        sr_MessageQueue = \<lparr>mq_Topic = m_Topic msg, mq_BrokerName = brokerName, mq_QueueId = q\<rparr>, sr_QueueOffset = off, sr_TransactionId = []\<rparr>, None)"
proof -
  have f: "string_field (send_response_header msgId q off) ''MsgId'' = msgId" "int_field (send_response_header msgId q off) ''QueueId'' = q"
      "int_field (send_response_header msgId q off) ''QueueOffset'' = off" "string_field (send_response_header msgId q off) ''TransactionId'' = []"
    by (simp_all add: send_response_header_def string_field_def int_field_def)
  show ?thesis
    using assms(5,6)
    by (auto simp: MQClientAPIImpl_processSendResponse_def wire_send_response [OF assms(1-4)] f NewSendResult_def Let_def put_status_def status_code_def
        put_answer_def client_status_def FLUSH_DISK_TIMEOUT_code_def FLUSH_SLAVE_TIMEOUT_code_def SLAVE_NOT_AVAILABLE_code_def SUCCESS_def)
qed

lemma client_send_stored:
  assumes "server_inv E s" and "cmap_laws (be_hold B)" and "api_world impl = s" and "ProjectGroupPrefix impl = []"
    and "send_header_ok rh" and "may_send rh tc s" and "storable_request E (be_times B) (be_client B) (body_command (m_Body msg)) rh tc s"
    and "m = sent_message (be_times B) (be_client B) (body_command (m_Body msg)) rh tc s"
  shows "\<exists>r s1 impl1. MQClientAPIImpl_SendMessage (broker_net B) addr brokerName msg rh SYNC impl =
       ((Some \<lparr>sr_SendStatus = client_status (put_status (tm_flushOk (be_times B)) m (ms_CommitLog (bk_store (sv_broker s)))), sr_MsgId = MsgId r,
           sr_MessageQueue = \<lparr>mq_Topic = m_Topic msg, mq_BrokerName = brokerName, mq_QueueId = rh_QueueId rh\<rparr>,
           sr_QueueOffset = int (length (E (rh_Topic rh) (rh_QueueId rh))), sr_TransactionId = []\<rparr>, None), msg, impl1) \<and>
     api_world impl1 = s1 \<and> ProjectGroupPrefix impl1 = [] \<and> server_inv (accept m r E) s1 \<and> same_rules s s1 \<and>
     LogicsOffset r = int (length (E (rh_Topic rh) (rh_QueueId rh))) \<and> one_more s s1"
proof -
  obtain request0 impl0 where a: "api_request (broker_net B) SEND_MESSAGE_V2 (CreateSendMessageRequestHeaderV2 rh) impl = (request0, impl0)" by fastforce
  note q0 = created_request [OF a]
  let ?request = "request0\<lparr>rc_Body := Some (m_Body msg)\<rparr>"
  let ?wire = "on_the_wire ?request"
  have "body_bytes ?request = m_Body msg" by (simp add: body_bytes_def)
  then have body: "body_bytes ?wire = m_Body msg" by simp
  have one: "\<not> IsOnewayRPC ?wire" using q0(4) by (simp add: IsOnewayRPC_def)
  have parsed: "parseRequestHeader ?wire = Some rh" using q0(1-3) assms(5) by (intro wire_send_request) simp_all
  have sto: "storable_request E (be_times B) (be_client B) ?wire rh tc s"
    using assms(7) inner_of_body [OF body] by (simp add: storable_request_def)
  have mm: "m = sent_message (be_times B) (be_client B) ?wire rh tc s"
    unfolding assms(8) using inner_of_body [OF body] by (simp add: sent_message_def)
  obtain r s1 answer where run: "SendMessageProcessor_ProcessRequest (be_unzip B) (be_hold B) (be_json B) (be_times B) (be_disk B) (be_client B) ?wire s =
        Some (None, s1)" "server_inv (accept m r E) s1" "same_rules s s1" "LogicsOffset r = int (length (E (rh_Topic rh) (rh_QueueId rh)))"
      "sv_written s1 = sv_written s @ [(be_client B, answer)]"
      "rc_Code answer = status_code (put_status (tm_flushOk (be_times B)) m (ms_CommitLog (bk_store (sv_broker s))))" "rc_ExtFields answer = Some []"
      "rc_CustomHeader answer = Some (send_response_header (MsgId r) (rh_QueueId rh) (LogicsOffset r))" "one_more s s1"
    using send_stored [OF assms(1,2) parsed assms(6) sto mm, of "be_unzip B" "be_json B" "be_disk B"] one by auto
  have q64: "in_int 64 (LogicsOffset r)"
  proof -
    have "m_Topic m = rh_Topic rh" "m_QueueId m = rh_QueueId rh" by (simp_all add: assms(8) sent_message_def stamped_def)
    then have "good_queue (rh_Topic rh) (rh_QueueId rh)"
      using assms(7,8) by (simp add: storable_request_def put_args_def sent_message_def Let_def)
    from store_inv_queue(1) [OF assms(1) [unfolded server_inv_def] this] show ?thesis
      using run(4) by (simp add: entries_inv_def in_int_def)
  qed
  have q32: "in_int 32 (rh_QueueId rh)" using assms(5) by (simp add: send_header_ok_def)
  have handled: "broker_handles B ?wire s = Some (None, s1)"
    using q0(3) run(1) by (simp add: broker_handles_def SEND_MESSAGE_V2_def)
  have "ask_broker B ?request s = ((Some (on_the_wire answer), None), s1)"
    using handled run(5) by (simp add: ask_broker_def)
  then have i: "InvokeSync (broker_net B) addr ?request impl0 = ((Some (on_the_wire answer), None), impl0\<lparr>api_world := s1\<rparr>)"
    using q0(5) assms(3) by (simp add: InvokeSync_def broker_net_def)
  have p: "ProjectGroupPrefix (impl0\<lparr>api_world := s1\<rparr>) = []" using q0(6) assms(4) by simp
  note fin = response_processed [OF run(8,7) q32 q64 run(6) p]
  have g: "with_group impl x = x" for x using assms(4) by (simp add: with_group_def)
  show ?thesis
    using a i fin run(2-4,9) p
    by (intro exI [of _ r] exI [of _ s1] exI [of _ "impl0\<lparr>api_world := s1\<rparr>"])
      (simp add: MQClientAPIImpl_SendMessage_def MQClientAPIImpl_sendMessageSync_def g Let_def)
qed

section \<open>Sending through the producer\<close>

text \<open>The producer runs and knows queues of the topic; \<open>mq\<close> is the one whose turn it is, and the address of its broker is known.\<close>

definition ready :: "string \<Rightarrow> string \<Rightarrow> MessageQueue \<Rightarrow> 'w client \<Rightarrow> bool" where
  "ready g topic mq c \<longleftrightarrow> pd_ServiceState (the_producer g c) = RUNNING \<and> 0 \<le> pd_RetryTimesWhenSendFailed (the_producer g c) \<and>
     0 \<le> pd_SendMsgTimeout (the_producer g c) \<and> \<not> pd_RetryAnotherBrokerWhenNotStoreOK (the_producer g c) \<and>
     (case map_of (TopicPublishInfoTable (the_producer g c)) topic of
        None \<Rightarrow> False
      | Some p \<Rightarrow> p < length (mc_infos c) \<and> HaveTopicRouterInfo (mc_infos c ! p) \<and> MessageQueueList (mc_infos c ! p) \<noteq> [] \<and>
          mq = MessageQueueList (mc_infos c ! p) ! nat (\<bar>SendWhichQueue (mc_infos c ! p)\<bar> mod int (length (MessageQueueList (mc_infos c ! p))))) \<and>
     MQClientInstance_FindBrokerAddressInPublish (mq_BrokerName mq) c \<noteq> []"

text \<open>The message as it is sent: its body may be compressed.\<close>

definition as_sent :: "(byte list \<Rightarrow> byte list) \<Rightarrow> Producer \<Rightarrow> Message \<Rightarrow> bool \<times> byte list" where
  "as_sent gzip pd msg = apsnd m_Body (tryToCompressMessage gzip pd msg)"

definition is_retry :: "string \<Rightarrow> bool" where
  "is_retry topic \<longleftrightarrow> take (length RETRY_GROUP_TOPIC_PREFIX) topic = RETRY_GROUP_TOPIC_PREFIX"

lemma producer_sends:
  assumes "server_inv E s" and "cmap_laws (be_hold B)" and "api_world (mc_api c) = s" and "ProjectGroupPrefix (mc_api c) = []"
    and "ce_net X = broker_net B" and "ready g (m_Topic msg) mq c" and "pd = the_producer g c" and "CheckMessage pd msg"
    and "\<not> is_retry (m_Topic msg)" and "as_sent (ce_gzip X) pd msg = (compressed, b)"
    and "rh = send_header pd msg mq compressed (shd (stl t))" and "send_header_ok rh" and "may_send rh tc s"
    and "storable_request E (be_times B) (be_client B) (body_command b) rh tc s"
    and "m = sent_message (be_times B) (be_client B) (body_command b) rh tc s"
  shows "\<exists>r c1. DefaultMQProducerImpl_sendDefaultImpl X g msg SYNC t c =
       Some ((Some \<lparr>sr_SendStatus = client_status (put_status (tm_flushOk (be_times B)) m (ms_CommitLog (bk_store (sv_broker s)))), sr_MsgId = MsgId r,
           sr_MessageQueue = \<lparr>mq_Topic = m_Topic msg, mq_BrokerName = mq_BrokerName mq, mq_QueueId = rh_QueueId rh\<rparr>,
           sr_QueueOffset = int (length (E (rh_Topic rh) (rh_QueueId rh))), sr_TransactionId = []\<rparr>, None), msg, c1) \<and>
     ProjectGroupPrefix (mc_api c1) = [] \<and> BrokerAddrTable c1 = BrokerAddrTable c \<and> server_inv (accept m r E) (api_world (mc_api c1)) \<and>
     same_rules s (api_world (mc_api c1)) \<and> LogicsOffset r = int (length (E (rh_Topic rh) (rh_QueueId rh))) \<and>
     one_more s (api_world (mc_api c1))"
proof -
  obtain p where p: "map_of (TopicPublishInfoTable pd) (m_Topic msg) = Some p" "p < length (mc_infos c)" "HaveTopicRouterInfo (mc_infos c ! p)"
      "MessageQueueList (mc_infos c ! p) \<noteq> []"
      "mq = MessageQueueList (mc_infos c ! p) ! nat (\<bar>SendWhichQueue (mc_infos c ! p)\<bar> mod int (length (MessageQueueList (mc_infos c ! p))))"
    using assms(6,7) by (auto simp: ready_def split: option.splits)
  have rd: "pd_ServiceState pd = RUNNING" "0 \<le> pd_RetryTimesWhenSendFailed pd" "0 \<le> pd_SendMsgTimeout pd" "\<not> pd_RetryAnotherBrokerWhenNotStoreOK pd"
      "MQClientInstance_FindBrokerAddressInPublish (mq_BrokerName mq) c \<noteq> []"
    using assms(6,7) by (simp_all add: ready_def)
  have find: "tryToFindTopicPublishInfo X g (m_Topic msg) c = Some (p, c)"
    using p by (simp add: tryToFindTopicPublishInfo_def Let_def flip: assms(7))
  obtain info where sel: "TopicPublishInfo_SelectOneMessageQueue [] (mc_infos c ! p) = Some (Some mq, info)"
    using p(4,5) by (simp add: TopicPublishInfo_SelectOneMessageQueue_def Let_def)
  define c0 where "c0 = c\<lparr>mc_infos := (mc_infos c)[p := info]\<rparr>"
  have c0: "mc_api c0 = mc_api c" "the_producer g c0 = pd" "BrokerAddrTable c0 = BrokerAddrTable c"
      "MQClientInstance_FindBrokerAddressInPublish (mq_BrokerName mq) c0 \<noteq> []"
    using rd(5) by (simp_all add: c0_def the_producer_def assms(7) MQClientInstance_FindBrokerAddressInPublish_def)
  obtain msg1 where z: "tryToCompressMessage (ce_gzip X) pd msg = (compressed, msg1)" "m_Body msg1 = b"
    using assms(10) by (cases "tryToCompressMessage (ce_gzip X) pd msg") (simp add: as_sent_def)
  have m1: "m_Topic msg1 = m_Topic msg" "msg1\<lparr>m_Body := m_Body msg\<rparr> = msg" "send_header pd msg1 mq compressed now = send_header pd msg mq compressed now" for now
    using z(1) by (auto simp: tryToCompressMessage_def send_header_def split: if_splits)
  have mv: "move_times msg1 rh = (msg1, rh)" using assms(9,11) by (simp add: move_times_def is_retry_def send_header_def)
  obtain r s1 impl1 where snd: "MQClientAPIImpl_SendMessage (broker_net B) (MQClientInstance_FindBrokerAddressInPublish (mq_BrokerName mq) c0) (mq_BrokerName mq)
        msg1 rh SYNC (mc_api c) =
       ((Some \<lparr>sr_SendStatus = client_status (put_status (tm_flushOk (be_times B)) m (ms_CommitLog (bk_store (sv_broker s)))), sr_MsgId = MsgId r,
           sr_MessageQueue = \<lparr>mq_Topic = m_Topic msg1, mq_BrokerName = mq_BrokerName mq, mq_QueueId = rh_QueueId rh\<rparr>,
           sr_QueueOffset = int (length (E (rh_Topic rh) (rh_QueueId rh))), sr_TransactionId = []\<rparr>, None), msg1, impl1)"
      "api_world impl1 = s1" "ProjectGroupPrefix impl1 = []" "server_inv (accept m r E) s1" "same_rules s s1"
      "LogicsOffset r = int (length (E (rh_Topic rh) (rh_QueueId rh)))" "one_more s s1"
    using client_send_stored [OF assms(1-4) assms(12,13), of msg1 m] assms(14,15) unfolding z(2) by metis
  let ?c1 = "c0\<lparr>mc_api := impl1\<rparr>"
  have k: "DefaultMQProducerImpl_sendKernelImpl X g msg mq SYNC (shd (stl t)) c0 =
      Some ((Some \<lparr>sr_SendStatus = client_status (put_status (tm_flushOk (be_times B)) m (ms_CommitLog (bk_store (sv_broker s)))), sr_MsgId = MsgId r,
           sr_MessageQueue = \<lparr>mq_Topic = m_Topic msg, mq_BrokerName = mq_BrokerName mq, mq_QueueId = rh_QueueId rh\<rparr>,
           sr_QueueOffset = int (length (E (rh_Topic rh) (rh_QueueId rh))), sr_TransactionId = []\<rparr>, None), msg, ?c1)"
    using c0 z mv snd(1) m1 assms(5) by (simp add: DefaultMQProducerImpl_sendKernelImpl_def Let_def m1(3) flip: assms(11))
  have pc1: "the_producer g ?c1 = pd" using c0(2) by (simp add: the_producer_def)
  obtain n where n: "nat (1 + pd_RetryTimesWhenSendFailed pd) = Suc n" using rd(2) by (cases "nat (1 + pd_RetryTimesWhenSendFailed pd)") auto
  have "DefaultMQProducerImpl_sendDefaultImpl X g msg SYNC t c = 
      Some ((Some \<lparr>sr_SendStatus = client_status (put_status (tm_flushOk (be_times B)) m (ms_CommitLog (bk_store (sv_broker s)))), sr_MsgId = MsgId r,
           sr_MessageQueue = \<lparr>mq_Topic = m_Topic msg, mq_BrokerName = mq_BrokerName mq, mq_QueueId = rh_QueueId rh\<rparr>,
           sr_QueueOffset = int (length (E (rh_Topic rh) (rh_QueueId rh))), sr_TransactionId = []\<rparr>, None), msg, ?c1)"
    using rd(1,3,4) assms(8) find p(4) sel k pc1
    by (simp add: DefaultMQProducerImpl_sendDefaultImpl_def n Let_def flip: assms(7) c0_def)
  then show ?thesis using snd(2-7) c0(3) by (intro exI [of _ r] exI [of _ ?c1]) simp
qed

section \<open>Pulling through the client\<close>

lemma client_pulls:
  assumes "server_inv (accept m r E) s" and "all_dispatched s" and "set_laws (pk_set (be_pull B))" and "may_pull (be_pull B) h config tc sd s"
    and "pull_header_ok h" and "in_int 64 (sg_BrokerId config)" and "in_int 64 (WhichBrokerWhenConsumeSlowly config)"
    and "visible (m_SysFlag m)" and "good_queue (m_Topic m) (m_QueueId m)"
    and "ph_Topic h = m_Topic m" and "ph_QueueId h = m_QueueId m" and "ph_QueueOffset h = int (length (E (m_Topic m) (m_QueueId m)))"
    and "subscribes (ph_Subscription h) (m_TagsCode m)" and "api_world impl = s" and "ProjectGroupPrefix impl = []"
  shows "\<exists>suggest impl1. MQClientAPIImpl_PullMessage (broker_net B) addr h SYNC impl =
       (Some \<lparr>pr_PullStatus = PULL_FOUND, pr_NextBeginOffset = ph_QueueOffset h + 1, pr_MinOffset = 0, pr_MaxOffset = ph_QueueOffset h + 1,
          pr_MsgFoundList = [], pr_suggestWhichBrokerId = suggest, pr_messageBinary = e_bytes (new_entry m r)\<rparr>, impl1) \<and>
     e_bytes (new_entry m r) \<noteq> [] \<and> in_int 64 (WroteOffset r)"
proof -
  obtain request impl0 where a: "api_request (broker_net B) 11 (pull_request_header h) impl = (request, impl0)" by fastforce
  note q0 = created_request [OF a]
  let ?wire = "on_the_wire request"
  have hh: "h = pull_header (decoded ?wire zero_pull_header)" using wire_pull_request [OF q0(1,2) assms(5)] by simp
  obtain s1 answer where run: "PullMessageProcessor_processRequest (be_pull B) (be_pull_times B) True (be_client B) ?wire s = Some (None, s1)"
      "sv_written s1 = sv_written s @ [(be_client B, answer)]"
      "pulled config ?wire SUCCESS (ph_QueueOffset h + 1) (ph_QueueOffset h + 1) answer"
      "body_bytes answer = e_bytes (new_entry m r)" "e_bytes (new_entry m r) \<noteq> []" "in_int 64 (WroteOffset r)" "in_int 64 (ph_QueueOffset h + 1)"
    using pull_accepted [OF assms(1-4) hh assms(8-13), of "be_pull_times B" True "be_client B"] by blast
  obtain suggest where sg: "suggest \<in> {sg_BrokerId config, WhichBrokerWhenConsumeSlowly config}"
      "rc_CustomHeader answer = Some (pull_response_header suggest (ph_QueueOffset h + 1) 0 (ph_QueueOffset h + 1))" "rc_ExtFields answer = Some []"
      "rc_Code answer = SUCCESS"
    using run(3) unfolding pulled_def by blast
  have "ask_broker B request s = ((Some (on_the_wire answer), None), s1)"
    using run(1,2) q0(3) by (simp add: ask_broker_def broker_handles_def)
  then have i: "InvokeSync (broker_net B) addr request impl0 = ((Some (on_the_wire answer), None), impl0\<lparr>api_world := s1\<rparr>)"
    using q0(5) assms(14) by (simp add: InvokeSync_def broker_net_def)
  have d: "decoded (on_the_wire answer) (pull_response_header 0 0 0 0) =
      pull_response_header suggest (ph_QueueOffset h + 1) 0 (ph_QueueOffset h + 1)"
    using sg(1) assms(6,7) run(7) by (intro wire_pull_response [OF sg(2,3)]) (auto simp: in_int_def)
  have "MQClientAPIImpl_processPullResponse (on_the_wire answer) =
      \<lparr>pr_PullStatus = PULL_FOUND, pr_NextBeginOffset = ph_QueueOffset h + 1, pr_MinOffset = 0, pr_MaxOffset = ph_QueueOffset h + 1,
        pr_MsgFoundList = [], pr_suggestWhichBrokerId = suggest, pr_messageBinary = e_bytes (new_entry m r)\<rparr>"
    using sg(4) run(4) unfolding MQClientAPIImpl_processPullResponse_def Let_def d by (simp add: pull_response_header_def int_field_def)
  moreover have "with_group impl x = x" for x using assms(15) by (simp add: with_group_def)
  ultimately show ?thesis using a i run(5,6) by (simp add: MQClientAPIImpl_PullMessage_def Let_def)
qed

lemma add_tags_tags:
  assumes "set_laws S" and "add_tags S tags sd = (sd1, None)"
  shows "set (sIter S (SubscriptionData.TagsSet sd1)) = set (sIter S (SubscriptionData.TagsSet sd)) \<union> (\<lambda>t. Tag (TrimSpace t)) ` set tags"
  using assms(2)
proof (induction tags arbitrary: sd)
  case (Cons tag tags)
  with Cons.IH [of "SubscriptionData.CodeSet_update (sAdd S (Code (HashCode (TrimSpace tag))))
      (SubscriptionData.TagsSet_update (sAdd S (Tag (TrimSpace tag))) sd)"] assms(1)
  show ?case by (auto simp: set_laws_def Let_def split: if_splits)
qed simp

text \<open>The subscription wants all messages, or those with the tags.\<close>

definition wants :: "string \<Rightarrow> string \<Rightarrow> bool" where
  "wants sub tags \<longleftrightarrow> sub \<in> {[], ''*''} \<or> tags \<noteq> [] \<and> tags \<in> TrimSpace ` set (split_bars sub)"

lemma wants_subscribes: "wants sub tags \<Longrightarrow> subscribes sub (TagsString2tagsCode f tags)"
  by (auto simp: wants_def subscribes_def TagsString2tagsCode_def)

lemma wants_kept:
  assumes "set_laws S" and "BuildSubscriptionData4Ponit S g topic sub = (sd, None)" and "wants sub (Message_GetTags msg)"
  shows "filter_again S sd [msg] = [msg]"
proof (cases "sub \<in> {[], ''*''}")
  case True
  then have "sIter S (SubscriptionData.TagsSet sd) = []"
    using assms(1,2) by (auto simp: BuildSubscriptionData4Ponit_def new_subscription_def set_laws_def SubscriptionData.defs Let_def)
  then show ?thesis by (simp add: filter_again_def)
next
  case False
  then have "add_tags S (split_bars sub) (new_subscription S topic sub) = (sd, None)"
    using assms(2) by (auto simp: BuildSubscriptionData4Ponit_def Let_def)
  from add_tags_tags [OF assms(1) this] assms(1,3) False
  have "sContains S (Tag (Message_GetTags msg)) (SubscriptionData.TagsSet sd)" by (auto simp: wants_def set_laws_def)
  moreover have "Message_GetTags msg \<noteq> []" using assms(3) False by (simp add: wants_def)
  ultimately show ?thesis by (simp add: filter_again_def)
qed

section \<open>From one client to the other\<close>

definition with_world :: "'w \<Rightarrow> 'w client \<Rightarrow> 'w client" where
  "with_world w c = c\<lparr>mc_api := (mc_api c)\<lparr>api_world := w\<rparr>\<rparr>"

text \<open>The consumer knows the broker of the queue and asks its master.\<close>

definition can_ask :: "'m node_map \<Rightarrow> 'm PullAPIWrapper \<Rightarrow> MessageQueue \<Rightarrow> 'w client \<Rightarrow> bool" where
  "can_ask N w mq c \<longleftrightarrow> ProjectGroupPrefix (mc_api c) = [] \<and> PullAPIWrapper_recalculatePullFromWhichNode N mq w = 0 \<and>
     MQClientInstance_FindBrokerAddressInPublish (mq_BrokerName mq) c \<noteq> []"

definition kernel_header :: "'m PullAPIWrapper \<Rightarrow> MessageQueue \<Rightarrow> PullMessageRequestHeader \<Rightarrow> PullMessageRequestHeader" where
  "kernel_header w mq args = args\<lparr>ph_ConsumerGroup := pw_consumerGroup w, ph_Topic := mq_Topic mq, ph_QueueId := to_int32 (mq_QueueId mq)\<rparr>"

lemma kernel_asks:
  assumes "can_ask N w mq c"
  shows "PullAPIWrapper_PullKernelImpl X N w mq args mode c =
     (case MQClientAPIImpl_PullMessage (ce_net X) (MQClientInstance_FindBrokerAddressInPublish (mq_BrokerName mq) c) (kernel_header w mq args) mode (mc_api c) of
        (r, impl) \<Rightarrow> Some (r, c\<lparr>mc_api := impl\<rparr>))"
proof -
  obtain tb x xs where tb: "map_of (BrokerAddrTable c) (mq_BrokerName mq) = Some tb" "map_of tb 0 = Some (x # xs)"
    using assms by (auto simp: can_ask_def MQClientInstance_FindBrokerAddressInPublish_def neq_Nil_conv split: option.splits)
  have "MQClientInstance_findBrokerAddressInSubscribe (mq_BrokerName mq) 0 False c = (x # xs, False)"
    by (simp add: MQClientInstance_findBrokerAddressInSubscribe_def tb)
  moreover have "MQClientInstance_FindBrokerAddressInPublish (mq_BrokerName mq) c = x # xs"
    by (simp add: MQClientInstance_FindBrokerAddressInPublish_def tb)
  ultimately show ?thesis
    using assms by (simp add: PullAPIWrapper_PullKernelImpl_def can_ask_def kernel_header_def Let_def)
qed

lemma can_ask_world [simp]: "can_ask N w mq (with_world s c) = can_ask N w mq c"
  by (simp add: can_ask_def with_world_def MQClientInstance_FindBrokerAddressInPublish_def)

lemma take_length_append: "length xs = n \<Longrightarrow> take n (xs @ ys) = xs"
  by simp

lemma record_at:
  assumes "msg_fits m"
  shows "take 4 (drop 36 (record_bytes m q p)) = Int32ToBytes (m_SysFlag m)"
    and "take 4 (drop 84 (record_bytes m q p)) = Int32ToBytes (int (length (m_Body m)))"
    and "drop 88 (record_bytes m q p) = m_Body m @ tail_bytes m" and "88 + length (m_Body m) \<le> length (record_bytes m q p)"
proof -
  note sp = record_split [OF assms]
  have l: "length (hostStringToBytes h) = 8" for h by (rule length_hostStringToBytes)
  have "length (Int64ToBytes x) = 8" for x by (simp add: Int64ToBytes_def)
  then show "take 4 (drop 36 (record_bytes m q p)) = Int32ToBytes (m_SysFlag m)"
    "take 4 (drop 84 (record_bytes m q p)) = Int32ToBytes (int (length (m_Body m)))"
    by (simp_all add: sp(1) sp(2) l)
  show "drop 88 (record_bytes m q p) = m_Body m @ tail_bytes m" "88 + length (m_Body m) \<le> length (record_bytes m q p)" by (simp_all add: sp(1) sp(3))
qed

lemma record_refused:
  assumes "msg_fits m"
  shows "body_refused refuses (record_bytes m q p) \<longleftrightarrow>
     m_Body m \<noteq> [] \<and> m_SysFlag m AND CompressedFlag = CompressedFlag \<and> refuses (m_Body m)"
proof -
  have b: "in_int 32 (int (length (m_Body m)))" using assms(1) by (simp add: msg_fits_def in_int_def)
  have "BytesToInt32 (Int32ToBytes x) = x" if "in_int 32 x" for x using i32.dec_enc_self [of x] that by simp
  note i = this [of "m_SysFlag m"] this [OF b]
  have "88 \<le> length (record_bytes m q p)" using record_at(4) [OF assms(1), of q p] by simp
  with i record_at [OF assms(1), of q p] assms(1) [unfolded msg_fits_def] show ?thesis
    by (auto simp: body_refused_def Let_def)
qed

lemma bits_of_rh: "visible (m_SysFlag m)" "m_SysFlag m AND CompressedFlag = CompressedFlag"
  if "m_SysFlag m = CompressedFlag \<or> m_SysFlag m = CompressedFlag OR MultiTagsFlag"
  using that by (auto simp: visible_def GetTransactionValue_def TransactionNotType_def TransactionCommitType_def
      TransactionRollbackType_def CompressedFlag_def MultiTagsFlag_def)

text \<open>What the broker stores of the message of a producer.\<close>

lemma stored_message:
  assumes "m = sent_message t ctx (body_command b) rh tc s" and "rh = send_header pd msg mq compressed now"
  shows "m_Topic m = m_Topic msg" and "m_QueueId m = to_int32 (mq_QueueId mq)" and "m_Body m = b"
    and "m_PropertiesString m = MessageProperties2String (m_Properties msg)"
    and "m_TagsCode m = TagsString2tagsCode (tc_TopicFilterType tc)
           (prop_at (String2messageProperties (MessageProperties2String (m_Properties msg))) ''TAGS'')"
    and "compressed \<Longrightarrow> m_SysFlag m = CompressedFlag \<or> m_SysFlag m = CompressedFlag OR MultiTagsFlag"
  by (simp_all add: assms(1) sent_message_def stamped_def) (simp_all add: assms(2) send_header_def inner_message_def Let_def)

lemma storable_fits:
  assumes "storable_request E t ctx (body_command b) rh tc s" and "m = sent_message t ctx (body_command b) rh tc s"
  shows "msg_fits m" and "good_queue (m_Topic m) (m_QueueId m)"
  using assms by (simp_all add: storable_request_def put_args_def sent_message_def Let_def)

text \<open>A round trip up to the bytes of the pulled record; the two theorems say what a consumer makes of them.\<close>

lemma sent_and_pulled:
  assumes "server_inv E s" and "cmap_laws (be_hold B)" and "api_world (mc_api c) = s" and "ProjectGroupPrefix (mc_api c) = []"
    and "ce_net X = broker_net B" and "ready g (m_Topic msg) mq c" and "pd = the_producer g c" and "CheckMessage pd msg"
    and "\<not> is_retry (m_Topic msg)" and "as_sent (ce_gzip X) pd msg = (compressed, b)"
    and "rh = send_header pd msg mq compressed (shd (stl t))" and "send_header_ok rh" and "may_send rh tc s"
    and "storable_request E (be_times B) (be_client B) (body_command b) rh tc s"
    and "m = sent_message (be_times B) (be_client B) (body_command b) rh tc s"
    and "mq_Topic mq = m_Topic msg" and "ce_net Y = broker_net D" and "set_laws (pk_set (be_pull D))" and "can_ask N w mq cc"
    and "h = kernel_header w mq args" and "may_pull (be_pull D) h config tc1 sd s" and "pull_header_ok h"
    and "in_int 64 (sg_BrokerId config)" and "in_int 64 (WhichBrokerWhenConsumeSlowly config)"
    and "ph_QueueOffset h = int (length (E (ph_Topic h) (ph_QueueId h)))" and "visible (m_SysFlag m)" and "subscribes (ph_Subscription h) (m_TagsCode m)"
    and "sv_room 1 s"
  shows "\<exists>result c1 s2 suggest p c2. DefaultMQProducerImpl_sendDefaultImpl X g msg SYNC t c = Some ((Some result, None), msg, c1) \<and>
     sr_SendStatus result = client_status (put_status (tm_flushOk (be_times B)) m (ms_CommitLog (bk_store (sv_broker s)))) \<and>
     sr_QueueOffset result = ph_QueueOffset h \<and> sv_dispatch (api_world (mc_api c1)) = Some s2 \<and>
     PullAPIWrapper_PullKernelImpl Y N w mq args SYNC (with_world s2 cc) =
       Some (Some \<lparr>pr_PullStatus = PULL_FOUND, pr_NextBeginOffset = ph_QueueOffset h + 1, pr_MinOffset = 0, pr_MaxOffset = ph_QueueOffset h + 1,
          pr_MsgFoundList = [], pr_suggestWhichBrokerId = suggest, pr_messageBinary = record_bytes m (ph_QueueOffset h) p\<rparr>, c2) \<and>
     record_bytes m (ph_QueueOffset h) p \<noteq> [] \<and> in_int 64 p"
proof -
  note sm = stored_message [OF assms(15,11)] note fit = storable_fits [OF assms(14,15)]
  have tq: "rh_Topic rh = ph_Topic h" "rh_QueueId rh = ph_QueueId h" "ph_Topic h = m_Topic m" "ph_QueueId h = m_QueueId m"
    using sm(1,2) assms(11,16,20) by (simp_all add: send_header_def kernel_header_def)
  obtain r c1 where snd: "DefaultMQProducerImpl_sendDefaultImpl X g msg SYNC t c =
       Some ((Some \<lparr>sr_SendStatus = client_status (put_status (tm_flushOk (be_times B)) m (ms_CommitLog (bk_store (sv_broker s)))), sr_MsgId = MsgId r,
           sr_MessageQueue = \<lparr>mq_Topic = m_Topic msg, mq_BrokerName = mq_BrokerName mq, mq_QueueId = rh_QueueId rh\<rparr>,
           sr_QueueOffset = int (length (E (rh_Topic rh) (rh_QueueId rh))), sr_TransactionId = []\<rparr>, None), msg, c1)"
      "server_inv (accept m r E) (api_world (mc_api c1))" "same_rules s (api_world (mc_api c1))"
      "LogicsOffset r = int (length (E (rh_Topic rh) (rh_QueueId rh)))" "one_more s (api_world (mc_api c1))"
    using producer_sends [OF assms(1-15)] by blast
  have room: "sv_room 0 (api_world (mc_api c1))" using sv_room_one_more [OF _ snd(5)] assms(28) by simp
  obtain s2 where s2: "sv_dispatch (api_world (mc_api c1)) = Some s2" "server_inv (accept m r E) s2" "all_dispatched s2" "same_rules s s2"
    using sv_dispatch_ok [OF snd(2) room] same_rules_trans [OF snd(3)] by blast
  have mp: "may_pull (be_pull D) h config tc1 sd s2" using assms(21) may_pull_same [OF s2(4)] by blast
  let ?c = "with_world s2 cc"
  have off: "ph_QueueOffset h = int (length (E (m_Topic m) (m_QueueId m)))" using assms(25) tq by simp
  have w: "api_world (mc_api ?c) = s2" "ProjectGroupPrefix (mc_api ?c) = []" using assms(19) by (simp_all add: with_world_def can_ask_def)
  obtain suggest impl1 where pull: "MQClientAPIImpl_PullMessage (broker_net D) (MQClientInstance_FindBrokerAddressInPublish (mq_BrokerName mq) ?c) h SYNC (mc_api ?c) =
       (Some \<lparr>pr_PullStatus = PULL_FOUND, pr_NextBeginOffset = ph_QueueOffset h + 1, pr_MinOffset = 0, pr_MaxOffset = ph_QueueOffset h + 1,
          pr_MsgFoundList = [], pr_suggestWhichBrokerId = suggest, pr_messageBinary = e_bytes (new_entry m r)\<rparr>, impl1)"
      "e_bytes (new_entry m r) \<noteq> []" "in_int 64 (WroteOffset r)"
    using client_pulls [OF s2(2,3) assms(18) mp assms(22-24,26) fit(2) tq(3,4) off assms(27) w,
      of "MQClientInstance_FindBrokerAddressInPublish (mq_BrokerName mq) ?c"] by blast
  have e: "e_bytes (new_entry m r) = record_bytes m (ph_QueueOffset h) (WroteOffset r)"
    using snd(4) off tq by (simp add: new_entry_def)
  have "PullAPIWrapper_PullKernelImpl Y N w mq args SYNC ?c =
      Some (Some \<lparr>pr_PullStatus = PULL_FOUND, pr_NextBeginOffset = ph_QueueOffset h + 1, pr_MinOffset = 0, pr_MaxOffset = ph_QueueOffset h + 1,
          pr_MsgFoundList = [], pr_suggestWhichBrokerId = suggest, pr_messageBinary = e_bytes (new_entry m r)\<rparr>, ?c\<lparr>mc_api := impl1\<rparr>)"
    using pull(1) assms(17,19) by (simp add: kernel_asks [of N w mq ?c] flip: assms(20))
  then show ?thesis
    using snd(1) s2(1) pull(2,3) tq off unfolding e
    by (intro exI conjI) (assumption | simp)+
qed

text \<open>
  C1 (roundtrip): what one client sends another one gets. When a producer that knows the queues of the topic sends a message that is not
  compressed, the broker stores it and the producer gets its position; once the dispatcher has caught up, which
  it does while the channel of the index service has room, a consumer that pulls at this position,
  with a subscription that wants the message, gets the one message: same topic, body, position and properties, and it goes on after it.
\<close>

theorem producer_to_consumer:
  assumes "server_inv E s" and "cmap_laws (be_hold B)" and "api_world (mc_api c) = s" and "ProjectGroupPrefix (mc_api c) = []"
    and "ce_net X = broker_net B" and "ready g (m_Topic msg) mq c" and "pd = the_producer g c" and "CheckMessage pd msg"
    and "\<not> is_retry (m_Topic msg)" and "int (length (m_Body msg)) < pd_CompressMsgBodyOverHowmuch pd"
    and "rh = send_header pd msg mq False (shd (stl t))" and "send_header_ok rh" and "may_send rh tc s"
    and "storable_request E (be_times B) (be_client B) (body_command (m_Body msg)) rh tc s"
    and "m = sent_message (be_times B) (be_client B) (body_command (m_Body msg)) rh tc s" and "plain_message m bh bp sh sp"
    and "plain_props (m_Properties msg)"
    and "mq_Topic mq = m_Topic msg" and "ce_net Y = broker_net D" and "set_laws (pk_set (be_pull D))" and "can_ask N w mq cc"
    and "h = kernel_header w mq args" and "may_pull (be_pull D) h config tc1 sd s" and "pull_header_ok h"
    and "in_int 64 (sg_BrokerId config)" and "in_int 64 (WhichBrokerWhenConsumeSlowly config)"
    and "ph_QueueOffset h = int (length (E (ph_Topic h) (ph_QueueId h)))" and "wants (ph_Subscription h) (Message_GetTags msg)"
    and "sv_room 1 s"
  shows "\<exists>result c1 s2 r c2 r1 w1 msg1. DefaultMQProducerImpl_sendDefaultImpl X g msg SYNC t c = Some ((Some result, None), msg, c1) \<and>
     sr_QueueOffset result = ph_QueueOffset h \<and> sv_dispatch (api_world (mc_api c1)) = Some s2 \<and>
     PullAPIWrapper_PullKernelImpl Y N w mq args SYNC (with_world s2 cc) = Some (Some r, c2) \<and>
     PullAPIWrapper_processPullResult Z (pk_set (be_pull D)) N [] mq r sd w = Some (r1, mq, sd, w1) \<and>
     pr_PullStatus r1 = PULL_FOUND \<and> pr_NextBeginOffset r1 = ph_QueueOffset h + 1 \<and> pr_MsgFoundList r1 = [msg1] \<and>
     m_Topic msg1 = m_Topic msg \<and> m_Body msg1 = m_Body msg \<and> m_QueueOffset msg1 = ph_QueueOffset h \<and>
     (\<forall>name. name \<notin> {''MIN_OFFSET'', ''MAX_OFFSET''} \<longrightarrow> Message_GetProperty msg1 name = Message_GetProperty msg name)"
proof -
  let ?props = "String2messageProperties (MessageProperties2String (m_Properties msg))" and ?S = "pk_set (be_pull D)"
  have props: "?props = m_Properties msg" by (rule message_properties_roundtrip [OF assms(17)])
  have small: "as_sent (ce_gzip X) pd msg = (False, m_Body msg)" using assms(10) by (simp add: as_sent_def tryToCompressMessage_def)
  note sm = stored_message [OF assms(15,11)] note fit = storable_fits [OF assms(14,15)]
  have pm: "visible (m_SysFlag m)" "m_SysFlag m AND CompressedFlag \<noteq> CompressedFlag" using assms(16) by (simp_all add: plain_message_def)
  have sub: "subscribes (ph_Subscription h) (m_TagsCode m)"
    unfolding sm(5) props using assms(28) by (intro wants_subscribes) (simp add: Message_GetTags_def Message_GetProperty_def)
  obtain result c1 s2 suggest p c2 where sp: "DefaultMQProducerImpl_sendDefaultImpl X g msg SYNC t c = Some ((Some result, None), msg, c1)"
      "sr_QueueOffset result = ph_QueueOffset h" "sv_dispatch (api_world (mc_api c1)) = Some s2"
      "PullAPIWrapper_PullKernelImpl Y N w mq args SYNC (with_world s2 cc) =
       Some (Some \<lparr>pr_PullStatus = PULL_FOUND, pr_NextBeginOffset = ph_QueueOffset h + 1, pr_MinOffset = 0, pr_MaxOffset = ph_QueueOffset h + 1,
          pr_MsgFoundList = [], pr_suggestWhichBrokerId = suggest, pr_messageBinary = record_bytes m (ph_QueueOffset h) p\<rparr>, c2)"
      "record_bytes m (ph_QueueOffset h) p \<noteq> []" "in_int 64 p"
    using sent_and_pulled [OF assms(1-9) small assms(11-15,18-27) pm(1) sub assms(29)] by blast
  have off: "in_int 64 (ph_QueueOffset h)" using assms(24) by (simp add: pull_header_ok_def)
  let ?r = "\<lparr>pr_PullStatus = PULL_FOUND, pr_NextBeginOffset = ph_QueueOffset h + 1, pr_MinOffset = 0, pr_MaxOffset = ph_QueueOffset h + 1,
          pr_MsgFoundList = [], pr_suggestWhichBrokerId = suggest, pr_messageBinary = record_bytes m (ph_QueueOffset h) p\<rparr>"
  let ?msg = "as_pulled m (ph_QueueOffset h) p bh bp sh sp" and ?buf = "record_bytes m (ph_QueueOffset h) p"
  have dec: "decodeMessageExt (zl_unzip Z) ?buf True True = Some (?msg, [])"
    using record_decodes [OF fit(1) off sp(6) pm(2), of bh bp sh sp "zl_unzip Z" "[]"] assms(16) by (simp add: plain_message_def)
  have "\<not> body_refused (zl_refuses Z) ?buf" using record_refused [OF fit(1)] pm(2) by simp
  then have "\<not> decode_panics (zl_refuses Z) (zl_unzip Z) (length ?buf) ?buf"
    using dec by (cases ?buf; cases "length ?buf") auto
  moreover have "DecodesMessageExt (zl_unzip Z) ?buf True = Some [?msg]" by (rule decode_one [OF dec sp(5)])
  moreover have "filter_again ?S sd [?msg] = [?msg]"
  proof (rule wants_kept [OF assms(20)])
    show "BuildSubscriptionData4Ponit ?S (ph_ConsumerGroup h) (ph_Topic h) (ph_Subscription h) = (sd, None)"
      using assms(23) by (simp add: may_pull_def)
    show "wants (ph_Subscription h) (Message_GetTags ?msg)"
      using assms(28) sm(4) props by (simp add: Message_GetTags_def Message_GetProperty_def as_pulled_def)
  qed
  ultimately have "PullAPIWrapper_processPullResult Z ?S N [] mq ?r sd w =
      Some (?r\<lparr>pr_MsgFoundList := [finish_message [] ?r ?msg]\<rparr>, mq, sd, PullAPIWrapper_updatePullFromWhichNode N mq suggest w)"
    by (simp add: PullAPIWrapper_processPullResult_def Let_def)
  moreover have "m_Topic (finish_message [] ?r ?msg) = m_Topic msg" "m_Body (finish_message [] ?r ?msg) = m_Body msg"
      "m_QueueOffset (finish_message [] ?r ?msg) = ph_QueueOffset h"
      "name \<notin> {''MIN_OFFSET'', ''MAX_OFFSET''} \<Longrightarrow> Message_GetProperty (finish_message [] ?r ?msg) name = Message_GetProperty msg name" for name
    using sm(1,3,4) props
    by (simp_all add: finish_message_def Message_PutProperty_def as_pulled_def Message_GetProperty_def prop_at_def update_conv')
  ultimately show ?thesis using sp(1-4) by (intro exI conjI) (assumption | simp)+
qed

text \<open>
  C3 (error): a message a producer compresses stops the consumer. The producer compresses with gzip, whose output starts with the byte 31; the
  consumer decompresses with zlib, which refuses bytes whose first does not name the method 8, and closes a reader that is nil. So the broker accepts the
  message, and the consumer that pulls it panics.
\<close>

theorem compressed_message_stops_consumer:
  assumes "server_inv E s" and "cmap_laws (be_hold B)" and "api_world (mc_api c) = s" and "ProjectGroupPrefix (mc_api c) = []"
    and "ce_net X = broker_net B" and "ready g (m_Topic msg) mq c" and "pd = the_producer g c" and "CheckMessage pd msg"
    and "\<not> is_retry (m_Topic msg)" and "pd_CompressMsgBodyOverHowmuch pd \<le> int (length (m_Body msg))"
    and "\<forall>b. \<exists>bs. ce_gzip X b = 31 # bs" and "\<forall>b0 bs. b0 AND 15 \<noteq> 8 \<longrightarrow> zl_refuses Z (b0 # bs)"
    and "rh = send_header pd msg mq True (shd (stl t))" and "send_header_ok rh" and "may_send rh tc s"
    and "storable_request E (be_times B) (be_client B) (body_command (ce_gzip X (m_Body msg))) rh tc s"
    and "plain_props (m_Properties msg)"
    and "mq_Topic mq = m_Topic msg" and "ce_net Y = broker_net D" and "set_laws (pk_set (be_pull D))" and "can_ask N w mq cc"
    and "h = kernel_header w mq args" and "may_pull (be_pull D) h config tc1 sd s" and "pull_header_ok h"
    and "in_int 64 (sg_BrokerId config)" and "in_int 64 (WhichBrokerWhenConsumeSlowly config)"
    and "ph_QueueOffset h = int (length (E (ph_Topic h) (ph_QueueId h)))" and "wants (ph_Subscription h) (Message_GetTags msg)"
    and "sv_room 1 s"
  shows "\<exists>result c1 s2 r c2. DefaultMQProducerImpl_sendDefaultImpl X g msg SYNC t c = Some ((Some result, None), msg, c1) \<and>
     sv_dispatch (api_world (mc_api c1)) = Some s2 \<and> PullAPIWrapper_PullKernelImpl Y N w mq args SYNC (with_world s2 cc) = Some (Some r, c2) \<and>
     PullAPIWrapper_processPullResult Z (pk_set (be_pull D)) N [] mq r sd w = None"
proof -
  let ?b = "ce_gzip X (m_Body msg)"
  define m where "m = sent_message (be_times B) (be_client B) (body_command ?b) rh tc s"
  have props: "String2messageProperties (MessageProperties2String (m_Properties msg)) = m_Properties msg"
    by (rule message_properties_roundtrip [OF assms(17)])
  have big: "as_sent (ce_gzip X) pd msg = (True, ?b)" using assms(8,10) by (simp add: as_sent_def tryToCompressMessage_def CheckMessage_def)
  note sm = stored_message [OF m_def assms(13)] note fit = storable_fits [OF assms(16) m_def] note bits = bits_of_rh [OF sm(6) [OF TrueI]]
  have sub: "subscribes (ph_Subscription h) (m_TagsCode m)"
    unfolding sm(5) props using assms(28) by (intro wants_subscribes) (simp add: Message_GetTags_def Message_GetProperty_def)
  obtain result c1 s2 suggest p c2 where sp: "DefaultMQProducerImpl_sendDefaultImpl X g msg SYNC t c = Some ((Some result, None), msg, c1)"
      "sv_dispatch (api_world (mc_api c1)) = Some s2"
      "PullAPIWrapper_PullKernelImpl Y N w mq args SYNC (with_world s2 cc) =
       Some (Some \<lparr>pr_PullStatus = PULL_FOUND, pr_NextBeginOffset = ph_QueueOffset h + 1, pr_MinOffset = 0, pr_MaxOffset = ph_QueueOffset h + 1,
          pr_MsgFoundList = [], pr_suggestWhichBrokerId = suggest, pr_messageBinary = record_bytes m (ph_QueueOffset h) p\<rparr>, c2)"
      "record_bytes m (ph_QueueOffset h) p \<noteq> []"
    using sent_and_pulled [OF assms(1-9) big assms(13-16) m_def assms(18-27) bits(1) sub assms(29)] by blast
  let ?buf = "record_bytes m (ph_QueueOffset h) p"
  obtain bs where "?b = 31 # bs" using assms(11) by blast
  moreover have "(31 :: byte) AND 15 \<noteq> 8" by simp
  ultimately have "m_Body m \<noteq> []" "zl_refuses Z (m_Body m)" using assms(12) sm(3) by simp_all
  then have "body_refused (zl_refuses Z) ?buf" using record_refused [OF fit(1)] bits(2) by simp
  then have "decode_panics (zl_refuses Z) (zl_unzip Z) (length ?buf) ?buf" using sp(4) by (cases ?buf; cases "length ?buf") auto
  then show ?thesis using sp(1-3) by (intro exI conjI) (assumption | simp add: PullAPIWrapper_processPullResult_def Let_def)+
qed

section \<open>A producer and a consumer of one topic\<close>

definition example_env where
  "example_env = \<lparr>be_pull = example_packages, be_json = (\<lambda>_. None, \<lambda>_. None), be_unzip = (\<lambda>_. None), be_disk = [],
     be_times = example_times, be_pull_times = example_pull_times, be_client = example_client\<rparr>"

definition example_mq :: MessageQueue where
  "example_mq = \<lparr>mq_Topic = ''t'', mq_BrokerName = ''b'', mq_QueueId = 3\<rparr>"

definition example_client_state :: "'w \<Rightarrow> int \<Rightarrow> 'w client" where
  "example_client_state s over = \<lparr>
     ProducerTable = [(''p'', (NewProducer ''p'')\<lparr>pd_CreateTopicKey := [], pd_DefaultTopicQueueNums := 0, pd_CompressMsgBodyOverHowmuch := over,
        pd_ServiceState := RUNNING, TopicPublishInfoTable := [(''t'', 0)]\<rparr>)],
     ConsumerTable = [], TopicRouteTable = [], BrokerAddrTable = [(''b'', [(0, ''10.0.0.2:10911'')])],
     mc_infos = [\<lparr>OrderTopic = False, HaveTopicRouterInfo = True, MessageQueueList = [example_mq], SendWhichQueue = 0\<rparr>],
     mc_DefaultTopicQueueNums = 4, mc_api = \<lparr>ProjectGroupPrefix = [], requestId = 0, api_world = s\<rparr>\<rparr>"

definition example_message :: Message where
  "example_message = \<lparr>m_Topic = ''t'', m_Flag = 0, m_Properties = [], m_Body = [1, 2, 3]\<rparr>"

definition example_client_env where
  "example_client_env = \<lparr>ce_net = broker_net example_env, ce_route = (\<lambda>_. Inl []), ce_gzip = (\<lambda>b. [31, 139, 8])\<rparr>"

definition example_wrapper :: "(MessageQueue \<times> int) list PullAPIWrapper" where
  "example_wrapper = \<lparr>pullFromWhichNodeTable = [], pw_consumerGroup = ''g''\<rparr>"

definition example_zlib :: zlib where
  "example_zlib = \<lparr>zl_refuses = (\<lambda>b. case b of [] \<Rightarrow> True | b0 # _ \<Rightarrow> b0 AND 15 \<noteq> 8), zl_unzip = (\<lambda>_. None)\<rparr>"

lemma example_storable_body:
  assumes "ms_config ms = flow_config" and "ms_CommitLog ms = NewCommitLog None flow_config" and "length b = 3" and "f = 0 \<or> f = CompressedFlag"
    and "idle_store ms"
  shows "storable_request (\<lambda>_ _. []) example_times example_client (body_command b) (example_rh\<lparr>rh_SysFlag := f\<rparr>) (NewTopicConfig ''t'') (example_server ms os)"
proof -
  let ?rh = "example_rh\<lparr>rh_SysFlag := f\<rparr>"
  let ?inner = "inner_message (sv_config (example_server ms os)) example_client (body_command b) ?rh (NewTopicConfig ''t'')"
  let ?m = "stamped 1000 1001 ?inner"
  have m: "?m = zero_inner\<lparr>m_Topic := ''t'', m_Body := b, m_QueueId := 3, m_SysFlag := f, m_BornTimestamp := 1001, m_BornHost := example_client,
       m_StoreHost := JoinHostPort [10, 0, 0, 2] 10911, m_StoreTimestamp := 1000, m_BodyCRC := Crc32 b\<rparr>"
    by (simp add: stamped_def inner_message_def Let_def example_rh_def NewTopicConfig_def zero_inner_def TagsString2tagsCode_def prop_at_def
        String2messageProperties_def Bytes2messageProperties_def bytes_of_string_def props_loop.simps example_server_def)
  have h: "CreateMessageId (JoinHostPort [10, 0, 0, 2] 10911) 0 \<noteq> None"
    by (simp add: CreateMessageId_def SplitHostPort_JoinHostPort ipv4StringToBytes_IPv4String in_int_def)
  have "in_int 32 f" using assms(4) by (auto simp: in_int_def CompressedFlag_def)
  then have f: "msg_fits ?m" using h Crc32_in assms(3) by (simp add: m msg_fits_def zero_inner_def) (simp add: in_int_def)
  have l: "msg_len ?m = 95" using msg_len_eq [OF f] assms(3) by (simp add: m zero_inner_def)
  have "good_queue (m_Topic ?m) (m_QueueId ?m)" "in_int 64 (m_TagsCode ?m)" by (simp_all add: m zero_inner_def good_queue_def in_int_def)
  moreover have "ms_config (bk_store (sv_broker (example_server ms os))) = flow_config"
    "ms_CommitLog (bk_store (sv_broker (example_server ms os))) = NewCommitLog None flow_config" "bk_store (sv_broker (example_server ms os)) = ms"
    using assms(1,2) by (simp_all add: example_server_defs)
  ultimately show ?thesis
    using f l idle_store_room(1,2) [OF assms(5)]
    by (simp add: storable_request_def put_args_def Let_def example_times_def NewCommitLog_def NewMapedFileQueue_def mfq_end_def
        mfq_base_def flow_config_fields)
qed

lemma example_producer:
  "the_producer ''p'' (example_client_state s over) = (NewProducer ''p'')\<lparr>pd_CreateTopicKey := [], pd_DefaultTopicQueueNums := 0,
     pd_CompressMsgBodyOverHowmuch := over, pd_ServiceState := RUNNING, TopicPublishInfoTable := [(''t'', 0)]\<rparr>"
  by (simp add: the_producer_def example_client_state_def)

lemma example_ready: "ready ''p'' (m_Topic example_message) example_mq (example_client_state s over)"
  by (simp add: ready_def example_producer NewProducer_def example_message_def)
    (simp add: example_client_state_def MQClientInstance_FindBrokerAddressInPublish_def example_mq_def)

lemma example_checked: "CheckMessage (the_producer ''p'' (example_client_state s over)) example_message"
  by (simp add: CheckMessage_def example_producer NewProducer_def example_message_def CheckTopic_def VALID_char_def EqualFold_def fold_case_def
      fold_char_def DEFAULT_TOPIC_def)

lemma example_header:
  "send_header (the_producer ''p'' (example_client_state s over)) example_message example_mq compressed (shd (stl (sconst 0))) =
     example_rh\<lparr>rh_SysFlag := if compressed then CompressedFlag else 0\<rparr>"
  by (simp add: send_header_def example_producer NewProducer_def example_message_def example_mq_def example_rh_def MessageProperties2String_def
      MessageProperties2Bytes_def string_of_bytes_def to_int32_def)

lemma example_rh_ok: "f = 0 \<or> f = CompressedFlag \<Longrightarrow> send_header_ok (example_rh\<lparr>rh_SysFlag := f\<rparr>)"
  by (auto simp: send_header_ok_def example_rh_def in_int_def CompressedFlag_def)

lemma example_asks: "can_ask alist_map example_wrapper example_mq (example_client_state s over)"
  by (simp add: can_ask_def example_client_state_def PullAPIWrapper_recalculatePullFromWhichNode_def alist_map_def example_wrapper_def example_mq_def
      MQClientInstance_FindBrokerAddressInPublish_def)

lemma example_kernel: "kernel_header example_wrapper example_mq (example_ph ''*'') = example_ph ''*''"
  by (simp add: kernel_header_def example_wrapper_def example_mq_def example_ph_def to_int32_def)

lemma example_ph_ok: "pull_header_ok (example_ph ''*'')"
  by (simp add: pull_header_ok_def example_ph_def in_int_def)

lemma example_group_ok: "in_int 64 (sg_BrokerId NewSubscriptionGroupConfig)" "in_int 64 (WhichBrokerWhenConsumeSlowly NewSubscriptionGroupConfig)"
  by (simp_all add: NewSubscriptionGroupConfig_def in_int_def)

lemma example_may_send_flag: "may_send (example_rh\<lparr>rh_SysFlag := f\<rparr>) tc s = may_send example_rh tc s"
  by (simp add: may_send_def)

lemma example_wants: "wants (ph_Subscription (example_ph ''*'')) x"
  by (simp add: wants_def example_ph_def)

lemma example_ends:
  "cmap_laws (be_hold example_env)" "set_laws (pk_set (be_pull example_env))" "ce_net example_client_env = broker_net example_env"
  "api_world (mc_api (example_client_state s over)) = s" "ProjectGroupPrefix (mc_api (example_client_state s over)) = []"
  "\<not> is_retry (m_Topic example_message)" "mq_Topic example_mq = m_Topic example_message" "plain_props (m_Properties example_message)"
  using alist_map_laws list_set_laws
  by (simp_all add: example_env_def example_packages_def example_client_env_def example_client_state_def is_retry_def RETRY_GROUP_TOPIC_PREFIX_def
      example_message_def example_mq_def plain_props_def)

lemma example_offset:
  "ph_QueueOffset (example_ph ''*'') = int (length ((\<lambda>_ _. []) (ph_Topic (example_ph ''*'')) (ph_QueueId (example_ph ''*'')) :: entry list))"
  by (simp add: example_ph_def)

lemma example_body:
  "sent_message (be_times example_env) (be_client example_env) (body_command (m_Body example_message)) example_rh tc s =
     sent_message example_times example_client example_send example_rh tc s"
  using inner_of_body [of example_send "m_Body example_message"]
  by (simp add: sent_message_def example_env_def example_message_def example_send_def body_bytes_def)

theorem producer_to_consumer_witness:
  "\<exists>ms os result c1 s2 r c2 r1 mq1 sd1 w1 msg1. let c = example_client_state (example_server ms os) 4096 in
     DefaultMQProducerImpl_sendDefaultImpl example_client_env ''p'' example_message SYNC (sconst 0) c = Some ((Some result, None), example_message, c1) \<and>
     sr_QueueOffset result = 0 \<and> sv_dispatch (api_world (mc_api c1)) = Some s2 \<and>
     PullAPIWrapper_PullKernelImpl example_client_env alist_map example_wrapper example_mq (example_ph ''*'') SYNC (with_world s2 c) = Some (Some r, c2) \<and>
     PullAPIWrapper_processPullResult example_zlib list_set alist_map [] example_mq r (SubscriptionData.make [] False ''t'' ''*'' [] [] 0) example_wrapper =
       Some (r1, mq1, sd1, w1) \<and> pr_MsgFoundList r1 = [msg1] \<and> m_Body msg1 = [1, 2, 3]"
proof -
  obtain ms os where s: "server_inv (\<lambda>_ _. []) (example_server ms os)" "ms_config ms = flow_config"
      "ms_CommitLog ms = NewCommitLog None flow_config" "idle_store ms"
    using example_start by blast
  let ?s = "example_server ms os" and ?h = "example_ph ''*''"
  let ?c = "example_client_state ?s 4096"
  have rh: "example_rh = send_header (the_producer ''p'' ?c) example_message example_mq False (shd (stl (sconst 0)))"
    using example_header [of ?s 4096 False] by (simp add: example_rh_def)
  have small: "int (length (m_Body example_message)) < pd_CompressMsgBodyOverHowmuch (the_producer ''p'' ?c)"
    by (simp add: example_producer example_message_def)
  have ok: "send_header_ok example_rh" using example_rh_ok [of 0] by (simp add: example_rh_def)
  have sto: "storable_request (\<lambda>_ _. []) (be_times example_env) (be_client example_env) (body_command (m_Body example_message)) example_rh (NewTopicConfig ''t'') ?s"
    using example_storable_body [OF s(2,3), of "m_Body example_message" 0] s(4) by (simp add: example_env_def example_message_def example_rh_def)
  have pk: "be_pull example_env = example_packages" "pk_set example_packages = list_set" by (simp_all add: example_env_def example_packages_def)
  note e2e = producer_to_consumer [OF s(1) example_ends(1,4,5,3) example_ready refl example_checked example_ends(6) small rh ok example_may_send sto refl
      example_plain [folded example_body] example_ends(8,7,3,2) example_asks example_kernel [symmetric] example_may_pull [folded pk(1)] example_ph_ok
      example_group_ok example_offset example_wants example_room [OF s(4)], of ?s 4096 example_zlib, unfolded pk]
  have "ph_QueueOffset ?h = 0" "m_Body example_message = [1, 2, 3]" by (simp_all add: example_ph_def example_message_def)
  note n = this
  from e2e show ?thesis unfolding Let_def n
    by (elim exE conjE) (intro exI conjI; assumption)
qed

theorem compressed_message_stops_consumer_witness:
  "\<exists>ms os result c1 s2 r c2. let c = example_client_state (example_server ms os) 3 in
     DefaultMQProducerImpl_sendDefaultImpl example_client_env ''p'' example_message SYNC (sconst 0) c = Some ((Some result, None), example_message, c1) \<and>
     sv_dispatch (api_world (mc_api c1)) = Some s2 \<and>
     PullAPIWrapper_PullKernelImpl example_client_env alist_map example_wrapper example_mq (example_ph ''*'') SYNC (with_world s2 c) = Some (Some r, c2) \<and>
     PullAPIWrapper_processPullResult example_zlib list_set alist_map [] example_mq r (SubscriptionData.make [] False ''t'' ''*'' [] [] 0) example_wrapper = None"
proof -
  obtain ms os where s: "server_inv (\<lambda>_ _. []) (example_server ms os)" "ms_config ms = flow_config"
      "ms_CommitLog ms = NewCommitLog None flow_config" "idle_store ms"
    using example_start by blast
  let ?s = "example_server ms os" and ?rh = "example_rh\<lparr>rh_SysFlag := CompressedFlag\<rparr>"
  let ?c = "example_client_state ?s 3"
  have rh: "?rh = send_header (the_producer ''p'' ?c) example_message example_mq True (shd (stl (sconst 0)))"
    using example_header [of ?s 3 True] by simp
  have big: "pd_CompressMsgBodyOverHowmuch (the_producer ''p'' ?c) \<le> int (length (m_Body example_message))"
    by (simp add: example_producer example_message_def)
  have z: "\<forall>b. \<exists>bs. ce_gzip example_client_env b = 31 # bs" "\<forall>b0 bs. b0 AND 15 \<noteq> 8 \<longrightarrow> zl_refuses example_zlib (b0 # bs)"
    by (simp_all add: example_client_env_def example_zlib_def)
  have ok: "send_header_ok ?rh" by (rule example_rh_ok) simp
  have snd: "may_send ?rh (NewTopicConfig ''t'') ?s" using example_may_send by (simp add: example_may_send_flag)
  have sto: "storable_request (\<lambda>_ _. []) (be_times example_env) (be_client example_env)
      (body_command (ce_gzip example_client_env (m_Body example_message))) ?rh (NewTopicConfig ''t'') ?s"
    using example_storable_body [OF s(2,3), of "[31, 139, 8]" CompressedFlag] s(4) by (simp add: example_env_def example_client_env_def)
  have pk: "be_pull example_env = example_packages" "pk_set example_packages = list_set" by (simp_all add: example_env_def example_packages_def)
  note e2e = compressed_message_stops_consumer [OF s(1) example_ends(1,4,5,3) example_ready refl example_checked example_ends(6) big z rh ok snd sto
      example_ends(8,7,3,2) example_asks example_kernel [symmetric] example_may_pull [folded pk(1)] example_ph_ok
      example_group_ok example_offset example_wants example_room [OF s(4)], of ?s 3, unfolded pk]
  from e2e show ?thesis unfolding Let_def by blast
qed

end
