(* ===== verification/Spec2Isabelle.thy ===== *)
theory Spec2Isabelle
  imports StoreFlow ClientM RegistryM KVConfigM LockM BrokerFlow RemotingM BootstrapM DeliveryM NamesrvM AdminM EndToEnd
begin

text \<open>
  A verification development for SmartGo, a message broker in Go. Producers send messages for the queues of a topic to a broker, consumers
  pull them from there, and a registry tells both which brokers serve a topic. File names are those under \<open>src/\<close>.

  \<^bold>\<open>The parts and how they work together.\<close> A broker appends every message to one commit log and then asks its dispatcher, over a channel, to
  enter it into the consume queue of its topic and queue number and, over a second channel, into an index by keys. A pull reads units of the
  consume queue and the records they point to. On top of the store a broker keeps its topics, its subscription groups, the offsets its consumers have
  reached, the connections of its clients, locks on queues and the pull requests that wait for a message; the processors of requests work on
  all of them. The registry keeps routes and a configuration. Clients and servers exchange commands in packets over connections.

  \<^bold>\<open>Theories and sources.\<close> Each theory says at its start which files it models, and what it leaves out.

  \<^item> Foundations. \<^theory_text>\<open>Prelude\<close>: the integers of Go and lemmas the components share. \<^theory_text>\<open>ByteBuffer\<close>: \<open>stgcommon/utils/byteutil\<close>,
    \<open>mapped_bytebuffer.go\<close>. \<^theory_text>\<open>OsFile\<close>: the operating system as the store uses it. \<^theory_text>\<open>GoStrings\<close>, \<^theory_text>\<open>GoPackages\<close>, \<^theory_text>\<open>NetAddr\<close>:
    Go's \<open>strings\<close> and \<open>net\<close>, foreign packages as arguments, addresses and message ids.
  \<^item> The store, \<open>stgstorelog/\<close>. \<^theory_text>\<open>MapedFileM\<close>: a mapped file. \<^theory_text>\<open>MapedFileQueueM\<close>: the files of a log. \<^theory_text>\<open>MessageM\<close>
    (\<open>stgcommon/message\<close>, \<open>sysflag\<close>): messages and their record. \<^theory_text>\<open>StoreCheckpointM\<close>, \<^theory_text>\<open>StoreConfig\<close>. \<^theory_text>\<open>CommitLogM\<close>:
    \<open>commit_log.go\<close> and the append callback. \<^theory_text>\<open>ConsumeQueueM\<close>: \<open>consume_queue.go\<close>. \<^theory_text>\<open>IndexM\<close>: \<open>index_*.go\<close>.
    \<^theory_text>\<open>MessageStoreM\<close>: \<open>default_message_store.go\<close> with its dispatcher. \<^theory_text>\<open>StoreFlow\<close>: the store in operation.
  \<^item> The broker, \<open>stgbroker/\<close>. \<^theory_text>\<open>OffsetM\<close>: consumer offsets. \<^theory_text>\<open>BrokerClientsM\<close>: consumers and producers. \<^theory_text>\<open>ConfigM\<close>,
    \<^theory_text>\<open>TopicConfigM\<close>: configuration files, subscription groups, topics. \<^theory_text>\<open>LockM\<close>: locks on queues. \<^theory_text>\<open>PullHoldM\<close>: pull requests that
    wait. \<^theory_text>\<open>BrokerFlow\<close>, \<^theory_text>\<open>SendM\<close>, \<^theory_text>\<open>PullM\<close>, \<^theory_text>\<open>AdminM\<close>: the processors for clients, messages, pulls and administration.
    \<^theory_text>\<open>DeliveryM\<close>: sending and pulling together.
  \<^item> The registry, \<open>stgregistry/registry\<close>. \<^theory_text>\<open>RouteM\<close>: route data. \<^theory_text>\<open>RegistryM\<close>: \<open>route_info_manager.go\<close>. \<^theory_text>\<open>KVConfigM\<close>:
    \<open>kv_config_manager.go\<close>. \<^theory_text>\<open>NamesrvM\<close>: its request processor.
  \<^item> The network, \<open>stgnet/\<close>. \<^theory_text>\<open>FrameM\<close>: packets. \<^theory_text>\<open>CommandM\<close>: commands. \<^theory_text>\<open>RemotingM\<close>: requests and responses.
    \<^theory_text>\<open>BootstrapM\<close>: connections.
  \<^item> The client, \<open>stgclient/\<close>. \<^theory_text>\<open>ClientM\<close>: queues, sharing them, pulled messages. \<^theory_text>\<open>ProducerM\<close>: sending and pulling at the client.
    \<^theory_text>\<open>EndToEnd\<close>: a producer, a broker and a consumer.

  \<^bold>\<open>State and operations.\<close> A structure of the source is a record with the fields of the source, a method a definition with the name of the
  method (after that of its type where two types share it) that takes the receiver and returns it updated. Structures that are shared by
  reference are named by numbers: by their place in a list (offset tables, connections and subscriptions, lock tables, publish
  information, futures, contexts), or, for files, by their place in the queue. Goroutines are step relations or steps of their own: the dispatcher and
  the index service on their channels (\<open>store_step\<close>), the sections of remoting (\<open>step\<close>), of pull requests that wait and of locks.

  \<^bold>\<open>Results.\<close> Errors are values of sums. \<open>None\<close> is a run-time panic, or an operation that does not complete: one that waits for a lock that
  is held or for room on a channel. Where both can occur and the difference matters there are two options, or a second
  component that gives the state the waiting call leaves (\<^theory_text>\<open>KVConfigM\<close>, \<^theory_text>\<open>NamesrvM\<close>); each theory says which it is.

  \<^bold>\<open>Bounds.\<close> The channel of the dispatcher has the capacity \<open>requestsCap\<close> the source computes (one and a half times the high-water mark, 900000
  by default), that of the index service 300000; a send on a full channel waits. A put sends while it holds the lock of the commit log, and the
  dispatcher sends to the index service: so the statements on the store say for how many messages there is room. A lock that a refused put leaves held is
  kept in the state. Go's read-write lock has readers and a writer that waits, which shuts out later readers. Integers of 8, 16
  and 32 bits are truncated where the source converts; 64-bit integers are unbounded where the invariants keep them in range, and kept at their
  width where they overflow (hashes, flags, times of futures). Loops that are not plainly bounded are partial functions whose \<open>None\<close> is a
  loop that does not end: both recoveries of the log, the truncation of a consume queue, \<open>doReput\<close>, the listing of message ids, the split of a
  stream into packets and the loop of \<open>buildIndex\<close>; the statements on them give their result and so that they end, or that they do not. Only
  the decoder of a list of messages has fuel, the length of its buffer, which suffices as a message takes at least one byte.

  \<^bold>\<open>Parameters.\<close> gzip and zlib, \<open>golang-set\<close>, the concurrent maps, the JSON package with the code it generates, the operating system, the readings
  of the clock, random numbers, environment variables and the network are arguments. What is assumed of them is a predicate that is an
  assumption of the statements which need it (\<open>set_laws\<close>, \<open>cmap_laws\<close>, \<open>sendable\<close>, laws of compression), with an instance that satisfies it.

  \<^bold>\<open>What the lemmas show.\<close> Files and logs: the invariants \<open>mf_inv\<close> and \<open>mfq_inv\<close>, what growing, cutting, flushing, loading and expiring do to the
  bytes of a log. Commit log and consume queues: what was put is read back, recovery keeps exactly the valid prefix. The store:
  \<open>store_inv\<close> relates the log, the queues, the channels and the list of accepted messages, and holds in every state that puts (accepted, refused
  and waiting ones), dispatches, indexing and gets reach; from it follow what a get returns, when a put is accepted and when it waits for ever, and
  what draining the dispatcher achieves. Broker: invariants of the client tables, offsets read back, conservation of waiting pull
  requests, what the processors answer. Registry: invariants of the routes, what a registration makes of them, which requests
  its configuration lock blocks. Network: a stream is cut into the packets that were sent however it is read, commands come back as they
  were sent, a response goes to the caller of its request. End to end: a message that a producer sends is the one a consumer pulls.

  Four interfaces are locales: \<open>int_codec\<close> (codecs of integers, interpreted on those of \<open>byteutil\<close> at four widths), \<open>unit_log\<close> (an indexed log
  of units, on the consume queue), \<open>allocate_strategy\<close> (how a group shares queues, on the averaging strategy) and \<open>min_offset_source\<close> (a
  store that answers for the first offset of a queue, on the message store).

  \<^bold>\<open>What the model shows of the code.\<close> Some statements are about what goes wrong: a put that is refused leaves the commit log locked; recovery of
  more messages than the dispatcher has room for waits for a reader that has not been started; indexing a key that does not fit into the last index file never ends, and
  the dispatcher stops once the channel of the index service is full; a shutdown forgets messages that wait in the dispatcher; a lock on a queue excludes
  only requests with the same pointer; the flush position of a full log returns to its first file; reading a value of
  the registry's configuration leaves a read lock behind, after which a write waits for ever and, with it, all later readers; the messages a producer
  compresses stop the consumer.

  \<^bold>\<open>Not modelled.\<close> Replication between brokers (\<open>ha_*.go\<close>): sockets around operations that are modelled. The goroutines that
  flush and that answer waiting puts: their answer is an argument, the flush itself is modelled. Allocation of files ahead and the cleaning of the commit log by
  disk usage. Statistics, log output and the texts of remarks. The rest of the administration of a broker and the start-up, periodic
  tasks and shutdown of broker, registry and client. Heart beats, consumers that push and the administration at the client. The web console, tools and
  examples. Generated JSON code and the list package that is copied into the repository. Two accesses that race without a lock are not modelled
  as such: an operation, or a locked section where sections are modelled, is one step.
\<close>

end
